(* ===== verification/Prelude.thy ===== *)
theory Prelude
  imports Complex_Main "HOL-Library.Log_Nat" "HOL-Library.Sublist" "HOL-Library.AList"
begin

text \<open>
  What every theory of the development shares.

  A Python exception is a value of \<open>py_error\<close>, and a call that may raise returns a sum
  \<open>py_error + 'a\<close>, sequenced by \<open>rbind\<close> and iterated by \<open>rmapM\<close> (a list comprehension whose
  body may raise stops at the first exception).  A Python dict is an association list with
  distinct keys in insertion order: \<open>AList.update\<close> is item assignment, \<open>dmerge\<close> is
  \<open>{**a, **b}\<close>.  A Python string is a list of characters; the case functions, \<open>strip\<close>, \<open>split\<close>,
  \<open>join\<close>, \<open>in\<close> and the decimal printing are those of \<open>str\<close> on ASCII text (the model's characters
  are eight bits wide, and the case functions change the ASCII letters only).

  The collections \<open>res_simps\<close>, \<open>str_simps\<close>, \<open>dict_simps\<close> hold the facts the proofs about results,
  strings and dicts apply.
\<close>

named_theorems res_simps \<open>facts on results and their sequencing\<close>
named_theorems str_simps \<open>facts on strings\<close>
named_theorems dict_simps \<open>facts on dicts\<close>

section \<open>Exceptions and results\<close>

datatype py_error =
    ValueError string
  | TypeError string
  | KeyError string
  | OverflowError string
  | ZeroDivisionError string
  | AttributeError string
  | IndexError string
  | IntegrityError string
  | DoesNotExist string
  | RuntimeError string
  | HttpError int string
  | ParseError string
  | ProviderUnavailable string
  | ProviderError string

fun rbind :: "'e + 'a \<Rightarrow> ('a \<Rightarrow> 'e + 'b) \<Rightarrow> 'e + 'b" where
  "rbind (Inl e) f = Inl e"
| "rbind (Inr x) f = f x"

definition rmap :: "('a \<Rightarrow> 'b) \<Rightarrow> 'e + 'a \<Rightarrow> 'e + 'b" where
  "rmap f m = rbind m (\<lambda>x. Inr (f x))"

fun rmapM :: "('a \<Rightarrow> 'e + 'b) \<Rightarrow> 'a list \<Rightarrow> 'e + 'b list" where
  "rmapM f [] = Inr []"
| "rmapM f (x # xs) = rbind (f x) (\<lambda>y. rbind (rmapM f xs) (\<lambda>ys. Inr (y # ys)))"

definition is_ok :: "'e + 'a \<Rightarrow> bool" where
  "is_ok m = (case m of Inl e \<Rightarrow> False | Inr x \<Rightarrow> True)"

lemma rbind_Inr_iff [res_simps]: "rbind m f = Inr y \<longleftrightarrow> (\<exists>x. m = Inr x \<and> f x = Inr y)"
  by (cases m) auto

lemma rbind_Inl_iff [res_simps]: "rbind m f = Inl e \<longleftrightarrow> m = Inl e \<or> (\<exists>x. m = Inr x \<and> f x = Inl e)"
  by (cases m) auto

lemma rbind_assoc: "rbind (rbind m f) g = rbind m (\<lambda>x. rbind (f x) g)"
  by (cases m) auto

lemma rmap_Inr_iff [res_simps]: "rmap f m = Inr y \<longleftrightarrow> (\<exists>x. m = Inr x \<and> y = f x)"
  by (cases m) (auto simp: rmap_def)

lemma rmap_simps [simp]: "rmap f (Inr x) = Inr (f x)" "rmap f (Inl e) = Inl e"
  by (simp_all add: rmap_def)

lemma rmapM_Inr_iff [res_simps]: "rmapM f xs = Inr ys \<longleftrightarrow> list_all2 (\<lambda>x y. f x = Inr y) xs ys"
  by (induction xs arbitrary: ys) (auto simp: res_simps list_all2_Cons1)

lemma rmapM_length: "rmapM f xs = Inr ys \<Longrightarrow> length ys = length xs"
  by (auto simp: res_simps dest: list_all2_lengthD)

lemma rmapM_set: "rmapM f xs = Inr ys \<Longrightarrow> y \<in> set ys \<Longrightarrow> \<exists>x\<in>set xs. f x = Inr y"
  by (auto simp: res_simps list_all2_conv_all_nth in_set_conv_nth) (metis nth_mem)

lemma is_ok_simps [simp]: "is_ok (Inr x)" "\<not> is_ok (Inl e)"
  by (simp_all add: is_ok_def)

lemma is_ok_iff [res_simps]: "is_ok m \<longleftrightarrow> (\<exists>x. m = Inr x)"
  by (cases m) auto

section \<open>Dicts\<close>

type_synonym 'v dict = "(string \<times> 'v) list"

abbreviation dset :: "string \<Rightarrow> 'v \<Rightarrow> 'v dict \<Rightarrow> 'v dict" where
  "dset \<equiv> AList.update"

definition dget :: "'v dict \<Rightarrow> string \<Rightarrow> 'v option" where
  "dget d k = map_of d k"

definition dget_or :: "'v dict \<Rightarrow> string \<Rightarrow> 'v \<Rightarrow> 'v" where
  "dget_or d k v = (case map_of d k of Some w \<Rightarrow> w | None \<Rightarrow> v)"

definition dhas :: "string \<Rightarrow> 'v dict \<Rightarrow> bool" where
  "dhas k d = (map_of d k \<noteq> None)"

definition dmerge :: "'v dict \<Rightarrow> 'v dict \<Rightarrow> 'v dict" where
  "dmerge a b = fold (\<lambda>(k, v). dset k v) b a"

definition dwf :: "'v dict \<Rightarrow> bool" where
  "dwf d = distinct (map fst d)"

lemma map_of_dset [dict_simps]: "map_of (dset k v d) k' = (if k' = k then Some v else map_of d k')"
  by (simp add: update_conv')

lemma dset_fresh: "k \<notin> fst ` set d \<Longrightarrow> dset k v d = d @ [(k, v)]"
  by (induction d) auto

lemma dwf_dset [dict_simps]: "dwf d \<Longrightarrow> dwf (dset k v d)"
  by (simp add: dwf_def distinct_update)

lemma dwf_dmerge [dict_simps]: "dwf a \<Longrightarrow> dwf (dmerge a b)"
  unfolding dmerge_def by (induction b arbitrary: a) (auto simp: dwf_dset split: prod.splits)

lemma fold_dset_map_of:
  "dwf b \<Longrightarrow> map_of (fold (\<lambda>(k, v). dset k v) b a) k = (case map_of b k of Some v \<Rightarrow> Some v | None \<Rightarrow> map_of a k)"
proof (induction b arbitrary: a)
  case (Cons p b)
  obtain k' v where p: "p = (k', v)" by (cases p)
  have "map_of b k' = None" using Cons.prems by (simp add: p dwf_def map_of_eq_None_iff)
  then show ?case using Cons by (auto simp: p dwf_def dict_simps split: option.splits)
qed simp

lemma map_of_dmerge [dict_simps]:
  "dwf b \<Longrightarrow> map_of (dmerge a b) k = (case map_of b k of Some v \<Rightarrow> Some v | None \<Rightarrow> map_of a k)"
  by (simp add: dmerge_def fold_dset_map_of)

section \<open>Strings\<close>

definition code :: "char \<Rightarrow> int" where
  "code c = of_char c"

definition char_upper :: "char \<Rightarrow> char" where
  "char_upper c = (if 97 \<le> code c \<and> code c \<le> 122 then char_of (code c - 32) else c)"

definition char_lower :: "char \<Rightarrow> char" where
  "char_lower c = (if 65 \<le> code c \<and> code c \<le> 90 then char_of (code c + 32) else c)"

definition is_digit :: "char \<Rightarrow> bool" where
  "is_digit c = (48 \<le> code c \<and> code c \<le> 57)"

definition is_alpha :: "char \<Rightarrow> bool" where
  "is_alpha c = (65 \<le> code c \<and> code c \<le> 90 \<or> 97 \<le> code c \<and> code c \<le> 122)"

definition is_alnum :: "char \<Rightarrow> bool" where
  "is_alnum c = (is_digit c \<or> is_alpha c)"

text \<open>What \<open>str.strip\<close> removes: the ASCII white space, including the four separators 28 to 31.\<close>

definition is_space :: "char \<Rightarrow> bool" where
  "is_space c = (code c = 32 \<or> 9 \<le> code c \<and> code c \<le> 13 \<or> 28 \<le> code c \<and> code c \<le> 31)"

definition upper :: "string \<Rightarrow> string" where
  "upper = map char_upper"

definition lower :: "string \<Rightarrow> string" where
  "lower = map char_lower"

definition rstrip_if :: "(char \<Rightarrow> bool) \<Rightarrow> string \<Rightarrow> string" where
  "rstrip_if p s = rev (dropWhile p (rev s))"

definition strip :: "string \<Rightarrow> string" where
  "strip s = rstrip_if is_space (dropWhile is_space s)"

definition contains :: "string \<Rightarrow> string \<Rightarrow> bool" where
  "contains s sub = sublist sub s"

definition startswith :: "string \<Rightarrow> string \<Rightarrow> bool" where
  "startswith s p = prefix p s"

definition endswith :: "string \<Rightarrow> string \<Rightarrow> bool" where
  "endswith s p = suffix p s"

text \<open>\<open>sep.join(xs)\<close> and \<open>s.split(c)\<close> for a separator of one character.\<close>

fun join :: "string \<Rightarrow> string list \<Rightarrow> string" where
  "join sep [] = []"
| "join sep [x] = x"
| "join sep (x # y # ys) = x @ sep @ join sep (y # ys)"

fun split_on :: "char \<Rightarrow> string \<Rightarrow> string list" where
  "split_on c [] = [[]]"
| "split_on c (x # xs) =
     (if x = c then [] # split_on c xs
      else (case split_on c xs of [] \<Rightarrow> [[x]] | p # ps \<Rightarrow> (x # p) # ps))"

definition digit_char :: "int \<Rightarrow> char" where
  "digit_char d = char_of (48 + d)"

function str_nat :: "int \<Rightarrow> string" where
  "str_nat n = (if n < 10 then [digit_char n] else str_nat (n div 10) @ [digit_char (n mod 10)])"
  by auto
termination by (relation "measure nat") auto

declare str_nat.simps [simp del]

definition str_int :: "int \<Rightarrow> string" where
  "str_int n = (if n < 0 then ''-'' @ str_nat (- n) else str_nat n)"

definition nat_of_digits :: "string \<Rightarrow> int" where
  "nat_of_digits s = foldl (\<lambda>a c. 10 * a + (code c - 48)) 0 s"

text \<open>\<open>a or b\<close> on strings.\<close>

definition or_str :: "string \<Rightarrow> string \<Rightarrow> string" where
  "or_str a b = (if a = [] then b else a)"

lemma code_range [simp]: "0 \<le> code c" "code c < 256"
  unfolding code_def by (cases c; simp add: of_char_def)+

lemma char_of_code [simp]: "char_of (code c) = c"
  by (simp add: code_def)

lemma code_char_of: "0 \<le> n \<Longrightarrow> n < 256 \<Longrightarrow> code (char_of n) = n"
  by (simp add: code_def)

lemma code_inject: "code a = code b \<longleftrightarrow> a = b"
  by (metis char_of_code)

lemma char_upper_idem [simp]: "char_upper (char_upper c) = char_upper c"
  by (simp add: char_upper_def code_char_of)

lemma char_lower_idem [simp]: "char_lower (char_lower c) = char_lower c"
  by (simp add: char_lower_def code_char_of)

lemma upper_idem [simp, str_simps]: "upper (upper s) = upper s"
  by (simp add: upper_def)

lemma lower_idem [simp, str_simps]: "lower (lower s) = lower s"
  by (simp add: lower_def)

lemma upper_append [str_simps]: "upper (a @ b) = upper a @ upper b"
  by (simp add: upper_def)

lemma lower_append [str_simps]: "lower (a @ b) = lower a @ lower b"
  by (simp add: lower_def)

lemma is_space_upper [simp]: "is_space (char_upper c) = is_space c"
  by (auto simp: is_space_def char_upper_def code_char_of)

lemma is_space_lower [simp]: "is_space (char_lower c) = is_space c"
  by (auto simp: is_space_def char_lower_def code_char_of)

lemma strip_ends:
  "strip s = [] \<or> \<not> is_space (hd (strip s)) \<and> \<not> is_space (last (strip s))"
proof -
  let ?t = "dropWhile is_space s"
  have "strip s = [] \<or> \<not> is_space (last (strip s))"
    using hd_dropWhile [of is_space "rev ?t"]
    by (cases "dropWhile is_space (rev ?t) = []") (simp_all add: strip_def rstrip_if_def last_rev)
  moreover have "strip s = [] \<or> \<not> is_space (hd (strip s))"
  proof (cases "strip s")
    case (Cons c cs)
    obtain u where "?t = strip s @ u"
      using takeWhile_dropWhile_id [of is_space "rev ?t"]
      by (metis strip_def rstrip_if_def rev_append rev_rev_ident)
    then have "hd ?t = c" and "?t \<noteq> []" by (simp_all add: Cons)
    then show ?thesis using hd_dropWhile [of is_space s] by (simp add: Cons)
  qed simp
  ultimately show ?thesis by blast
qed

lemma dropWhile_hd_not: "xs = [] \<or> \<not> p (hd xs) \<Longrightarrow> dropWhile p xs = xs"
  by (cases xs) auto

lemma strip_fixed: "s = [] \<or> \<not> is_space (hd s) \<and> \<not> is_space (last s) \<Longrightarrow> strip s = s"
  using dropWhile_hd_not [of s is_space] dropWhile_hd_not [of "rev s" is_space]
  by (auto simp: strip_def rstrip_if_def hd_rev)

lemma strip_idem [simp, str_simps]: "strip (strip s) = strip s"
  using strip_ends by (rule strip_fixed)

lemma strip_Nil [simp]: "strip [] = []"
  by (simp add: strip_def rstrip_if_def)

lemma strip_upper [str_simps]: "strip (upper s) = upper (strip s)"
  by (simp add: strip_def rstrip_if_def upper_def rev_map dropWhile_map comp_def)

lemma strip_lower [str_simps]: "strip (lower s) = lower (strip s)"
  by (simp add: strip_def rstrip_if_def lower_def rev_map dropWhile_map comp_def)

lemma split_on_nonempty [simp]: "split_on c s \<noteq> []"
  by (induction s) (auto split: list.splits)

lemma join_split_on: "join [c] (split_on c s) = s"
proof (induction s)
  case (Cons x s)
  obtain p ps where "split_on c s = p # ps" by (cases "split_on c s") auto
  with Cons show ?case by (cases ps) auto
qed simp

lemma contains_append: "contains a s \<Longrightarrow> contains (a @ b) s" "contains b s \<Longrightarrow> contains (a @ b) s"
  unfolding contains_def sublist_def by (metis append_assoc)+

section \<open>Decimal printing and reading\<close>

lemma code_digit_char [simp]: "0 \<le> d \<Longrightarrow> d < 10 \<Longrightarrow> code (digit_char d) = 48 + d"
  by (simp add: digit_char_def code_char_of)

lemma nat_of_digits_snoc [simp]: "nat_of_digits (s @ [c]) = 10 * nat_of_digits s + (code c - 48)"
  by (simp add: nat_of_digits_def)

lemma nat_of_digits_Nil [simp]: "nat_of_digits [] = 0"
  by (simp add: nat_of_digits_def)

lemma nat_of_digits_str_nat [simp]: "0 \<le> n \<Longrightarrow> nat_of_digits (str_nat n) = n"
proof (induction n rule: str_nat.induct)
  case (1 n)
  show ?case
  proof (cases "n < 10")
    case True
    then show ?thesis using 1(2) by (subst str_nat.simps) (simp add: nat_of_digits_def)
  next
    case False
    then show ?thesis using 1 by (subst str_nat.simps) simp
  qed
qed

lemma str_nat_digits: "0 \<le> n \<Longrightarrow> str_nat n \<noteq> [] \<and> (\<forall>c\<in>set (str_nat n). is_digit c)"
proof (induction n rule: str_nat.induct)
  case (1 n)
  show ?case
  proof (cases "n < 10")
    case True
    then show ?thesis using 1(2) by (subst (1 2) str_nat.simps) (simp add: is_digit_def)
  next
    case False
    then show ?thesis using 1 by (subst (1 2) str_nat.simps) (simp add: is_digit_def)
  qed
qed

lemma str_nat_inject: "0 \<le> m \<Longrightarrow> 0 \<le> n \<Longrightarrow> str_nat m = str_nat n \<longleftrightarrow> m = n"
  by (metis nat_of_digits_str_nat)

section \<open>Lists\<close>

text \<open>First occurrences, in order: what a loop with a \<open>seen\<close> set keeps.\<close>

fun dedupe_by :: "('a \<Rightarrow> 'k) \<Rightarrow> 'k list \<Rightarrow> 'a list \<Rightarrow> 'a list" where
  "dedupe_by f seen [] = []"
| "dedupe_by f seen (x # xs) =
     (if f x \<in> set seen then dedupe_by f seen xs else x # dedupe_by f (f x # seen) xs)"

lemma dedupe_by_keys:
  "distinct (map f (dedupe_by f seen xs)) \<and> f ` set (dedupe_by f seen xs) = f ` set xs - set seen
     \<and> set (dedupe_by f seen xs) \<subseteq> set xs"
  by (induction f seen xs rule: dedupe_by.induct) auto

lemma dedupe_by_subseq: "subseq (dedupe_by f seen xs) xs"
  by (induction f seen xs rule: dedupe_by.induct) auto

lemma dedupe_by_fixed: "distinct (map f xs) \<Longrightarrow> f ` set xs \<inter> set seen = {} \<Longrightarrow> dedupe_by f seen xs = xs"
  by (induction f seen xs rule: dedupe_by.induct) auto

lemma dedupe_by_cong_seen: "set s = set t \<Longrightarrow> dedupe_by f s xs = dedupe_by f t xs"
  by (induction f s xs arbitrary: t rule: dedupe_by.induct) auto

lemma dedupe_by_idem: "dedupe_by f [] (dedupe_by f [] xs) = dedupe_by f [] xs"
  by (rule dedupe_by_fixed) (simp_all add: dedupe_by_keys)

text \<open>\<open>any(f(x) for x in xs)\<close> picking the first hit: the \<open>for ... if ...: return\<close> loops.\<close>

lemma find_Some_iff_in: "List.find p xs = Some x \<Longrightarrow> x \<in> set xs \<and> p x"
  by (auto simp: find_Some_iff)

lemma find_None_iff_all: "List.find p xs = None \<longleftrightarrow> (\<forall>x\<in>set xs. \<not> p x)"
  by (auto simp: find_None_iff)

end
