(* ===== verification/Floats.thy ===== *)
theory Floats
  imports Prelude
begin

text \<open>
  Python floats.  A Python float is an IEEE 754 binary64 number; CPython 3.12 (the version of
  the backend's Dockerfile) computes each operation exactly and rounds the result to nearest,
  ties to even.  This theory models that: a finite float is the rational it denotes, \<open>rnd\<close> is
  the rounding (53 significant bits, exponents down to the subnormal range), and overflow gives
  an infinity.  The two signed zeros are one value; the code never tells them apart except in
  printing.

  The groups are: powers of two and the binary logarithm of a rational; rounding to an integer
  with ties to even (Python's \<open>round\<close>); rounding to binary64 with its laws (monotone, idempotent,
  the identity on representable values, bounded error); the datatype \<open>pyfloat\<close> with the operations,
  comparisons, \<open>min\<close>, \<open>max\<close>, \<open>round\<close> and \<open>sum\<close> of the language.
\<close>

section \<open>Rounding\<close>

text \<open>Powers of two and the exponent of a positive rational.\<close>

definition pow2 :: "int \<Rightarrow> rat" where
  "pow2 e = (if 0 \<le> e then 2 ^ nat e else 1 / 2 ^ nat (- e))"

definition ilog2 :: "rat \<Rightarrow> int" where
  "ilog2 x = (if 1 \<le> x then bitlen \<lfloor>x\<rfloor> - 1 else - bitlen (\<lceil>1 / x\<rceil> - 1))"

definition rhe :: "rat \<Rightarrow> int" where
  "rhe x =
     (let f = \<lfloor>x\<rfloor>; d = x - of_int f
      in if d < 1 / 2 then f else if 1 / 2 < d then f + 1 else if even f then f else f + 1)"

definition qexp :: "rat \<Rightarrow> int" where
  "qexp x = max (ilog2 \<bar>x\<bar> - 52) (- 1074)"

definition rnd :: "rat \<Rightarrow> rat" where
  "rnd x = (if x = 0 then 0 else of_int (rhe (x / pow2 (qexp x))) * pow2 (qexp x))"

lemma pow2_pos [simp]: "0 < pow2 e"
  by (simp add: pow2_def)

lemma pow2_nonzero [simp]: "pow2 e \<noteq> 0"
  using pow2_pos [of e] by linarith

lemma pow2_nonneg [simp]: "0 \<le> pow2 e"
  using pow2_pos [of e] by linarith

lemma pow2_add: "pow2 (a + b) = pow2 a * pow2 b"
proof -
  have eq: "pow2 e = 2 powi e" for e
    by (simp add: pow2_def power_int_def inverse_eq_divide power_divide)
  show ?thesis unfolding eq by (rule power_int_add) simp
qed

lemma pow2_0 [simp]: "pow2 0 = 1"
  by (simp add: pow2_def)

lemma pow2_1 [simp]: "pow2 1 = 2"
  by (simp add: pow2_def)

lemma pow2_strict_mono: "a < b \<Longrightarrow> pow2 a < pow2 b"
proof -
  assume "a < b"
  then have "1 < pow2 (b - a)" by (simp add: pow2_def)
  then have "pow2 a * 1 < pow2 a * pow2 (b - a)" by (rule mult_strict_left_mono) simp
  then show ?thesis by (simp add: pow2_add [symmetric])
qed

lemma pow2_less_iff [simp]: "pow2 a < pow2 b \<longleftrightarrow> a < b"
  using pow2_strict_mono [of a b] pow2_strict_mono [of b a] by (cases a b rule: linorder_cases) auto

lemma pow2_le_iff [simp]: "pow2 a \<le> pow2 b \<longleftrightarrow> a \<le> b"
  using pow2_less_iff [of b a] by (meson not_less)

lemma pow2_int: "0 \<le> e \<Longrightarrow> pow2 e = of_int (2 ^ nat e)"
  by (simp add: pow2_def)

lemma bitlen_bounds_pos:
  assumes "0 < n"
  shows "2 ^ nat (bitlen n - 1) \<le> n" and "n < 2 ^ nat (bitlen n)" and "1 \<le> bitlen n"
proof -
  show "2 ^ nat (bitlen n - 1) \<le> n" and "n < 2 ^ nat (bitlen n)"
    using bitlen_bounds [OF assms] by simp_all
  show "1 \<le> bitlen n"
    using bitlen_ge_iff_power [of n 1] assms by (simp add: bitlen_ge_iff_power)
qed

lemma ilog2_bounds:
  assumes "0 < x"
  shows "pow2 (ilog2 x) \<le> x" and "x < pow2 (ilog2 x + 1)"
proof -
  have "pow2 (ilog2 x) \<le> x \<and> x < pow2 (ilog2 x + 1)"
  proof (cases "1 \<le> x")
    case True
    then have n: "0 < \<lfloor>x\<rfloor>" by simp
    note b = bitlen_bounds_pos [OF n]
    have lo: "pow2 (bitlen \<lfloor>x\<rfloor> - 1) \<le> of_int \<lfloor>x\<rfloor>"
      using b(1,3) by (simp add: pow2_int del: of_int_power)
    have "\<lfloor>x\<rfloor> + 1 \<le> 2 ^ nat (bitlen \<lfloor>x\<rfloor>)" using b(2) by simp
    then have hi: "of_int (\<lfloor>x\<rfloor> + 1) \<le> pow2 (bitlen \<lfloor>x\<rfloor>)"
      using b(3) by (simp add: pow2_int del: of_int_power of_int_add) 
    have "of_int \<lfloor>x\<rfloor> \<le> x" and "x < of_int (\<lfloor>x\<rfloor> + 1)" by linarith+
    with lo hi True show ?thesis by (simp add: ilog2_def order.trans [OF lo])
  next
    case False
    let ?c = "\<lceil>1 / x\<rceil>"
    from False assms have "1 < 1 / x" by simp
    then have n: "0 < ?c - 1" by linarith
    note b = bitlen_bounds_pos [OF n]
    let ?k = "bitlen (?c - 1)"
    have "?c \<le> 2 ^ nat ?k" using b(2) by simp
    then have "of_int ?c \<le> pow2 ?k"
      using b(3) by (simp add: pow2_int del: of_int_power)
    moreover have "1 / x \<le> of_int ?c" by (rule le_of_int_ceiling)
    ultimately have a: "1 / x \<le> pow2 ?k" by linarith
    have "pow2 (?k - 1) \<le> of_int (?c - 1)"
      using b(1,3) by (simp add: pow2_int del: of_int_power of_int_diff)
    moreover have "of_int (?c - 1) < 1 / x" by linarith
    ultimately have c: "pow2 (?k - 1) < 1 / x" by linarith
    have m1: "pow2 ?k * pow2 (- ?k) = 1" and m2: "pow2 (?k - 1) * pow2 (1 - ?k) = 1"
      by (simp_all add: pow2_add [symmetric])
    have "pow2 (- ?k) = 1 / pow2 ?k" and "pow2 (1 - ?k) = 1 / pow2 (?k - 1)"
      using m1 m2 by (simp_all add: field_simps)
    moreover have "1 / pow2 ?k \<le> x" using a assms by (simp add: field_simps)
    moreover have "x < 1 / pow2 (?k - 1)" using c assms by (simp add: field_simps)
    ultimately show ?thesis using False by (simp add: ilog2_def)
  qed
  then show "pow2 (ilog2 x) \<le> x" and "x < pow2 (ilog2 x + 1)" by simp_all
qed

lemma ilog2_mono:
  assumes "0 < x" and "x \<le> y"
  shows "ilog2 x \<le> ilog2 y"
proof -
  have "pow2 (ilog2 x) < pow2 (ilog2 y + 1)"
    using ilog2_bounds(1) [OF assms(1)] ilog2_bounds(2) [of y] assms by linarith
  then show ?thesis by simp
qed

lemma rhe_near: "\<bar>of_int (rhe x) - x\<bar> \<le> 1 / 2"
proof -
  have "of_int \<lfloor>x\<rfloor> \<le> x" and "x < of_int \<lfloor>x\<rfloor> + 1" by linarith+
  then show ?thesis by (auto simp: rhe_def Let_def abs_le_iff)
qed

lemma rhe_of_int [simp]: "rhe (of_int n) = n"
  by (simp add: rhe_def)

lemma rhe_mono:
  assumes "x \<le> y"
  shows "rhe x \<le> rhe y"
proof (cases "\<lfloor>x\<rfloor> = \<lfloor>y\<rfloor>")
  case True
  with assms show ?thesis by (auto simp: rhe_def Let_def)
next
  case False
  with assms have "\<lfloor>x\<rfloor> + 1 \<le> \<lfloor>y\<rfloor>" using floor_mono [OF assms] by linarith
  then show ?thesis by (auto simp: rhe_def Let_def)
qed

lemma rhe_minus: "rhe (- x) = - rhe x"
proof (cases "x = of_int \<lfloor>x\<rfloor>")
  case True
  then obtain n where "x = of_int n" by blast
  then show ?thesis by (metis of_int_minus rhe_of_int)
next
  case False
  have fl: "\<lfloor>- x\<rfloor> = - \<lfloor>x\<rfloor> - 1"
    using False by (intro floor_unique) (simp_all, linarith+)
  show ?thesis using False by (auto simp: rhe_def Let_def fl)
qed


lemma pow2_qexp_scale:
  assumes "0 < x"
  shows "x / pow2 (qexp x) \<le> 2 ^ 53"
proof -
  have "ilog2 x + 1 \<le> qexp x + 53" using assms by (simp add: qexp_def)
  then have "x < pow2 (qexp x + 53)"
    using ilog2_bounds(2) [OF assms] pow2_le_iff [of "ilog2 x + 1" "qexp x + 53"] by linarith
  also have "pow2 (qexp x + 53) = pow2 (qexp x) * 2 ^ 53"
    by (simp add: pow2_add) (simp add: pow2_def)
  finally show ?thesis by (simp add: field_simps)
qed

lemma rnd_0 [simp]: "rnd 0 = 0"
  by (simp add: rnd_def)

lemma qexp_minus [simp]: "qexp (- x) = qexp x"
  by (simp add: qexp_def)

lemma rnd_minus: "rnd (- x) = - rnd x"
  by (simp add: rnd_def rhe_minus)

lemma rhe_0_le: "0 \<le> x \<Longrightarrow> 0 \<le> rhe x"
  using rhe_mono [of 0 x] rhe_of_int [of 0] by simp

lemma rnd_nonneg: "0 \<le> x \<Longrightarrow> 0 \<le> rnd x"
  by (simp add: rnd_def rhe_0_le)

lemma rnd_mono_pos:
  assumes "0 < x" and "x \<le> y"
  shows "rnd x \<le> rnd y"
proof (cases "qexp x = qexp y")
  case True
  have "x / pow2 (qexp y) \<le> y / pow2 (qexp y)" using assms by (simp add: divide_right_mono)
  then show ?thesis using assms True by (simp add: rnd_def mult_right_mono rhe_mono)
next
  case False
  have "ilog2 x \<le> ilog2 y" using assms by (rule ilog2_mono)
  with False assms have lt: "qexp x < qexp y" and qy: "qexp y = ilog2 y - 52"
    by (auto simp: qexp_def)
  have "rhe (x / pow2 (qexp x)) \<le> 2 ^ 53"
    using rhe_mono [OF pow2_qexp_scale [OF assms(1)]] rhe_of_int [of "2 ^ 53"] by simp
  then have "(of_int (rhe (x / pow2 (qexp x))) :: rat) \<le> 2 ^ 53"
    using of_int_le_iff [of "rhe (x / pow2 (qexp x))" "2 ^ 53", where ?'a = rat] by simp
  then have "rnd x \<le> 2 ^ 53 * pow2 (qexp x)" using assms by (simp add: rnd_def)
  also have "\<dots> = pow2 (qexp x + 53)" by (simp add: pow2_add) (simp add: pow2_def)
  also have "\<dots> \<le> pow2 (qexp y + 52)" using lt by simp
  also have "\<dots> = 2 ^ 52 * pow2 (qexp y)" by (simp add: pow2_add) (simp add: pow2_def)
  also have "\<dots> \<le> rnd y"
  proof -
    have "pow2 (qexp y) * 2 ^ 52 = pow2 (ilog2 y)"
      by (simp add: qy) (simp add: pow2_add [of "ilog2 y - 52" 52, symmetric] pow2_def [of 52, simplified, symmetric])
    then have "2 ^ 52 \<le> y / pow2 (qexp y)"
      using ilog2_bounds(1) [of y] assms by (simp add: field_simps)
    then have "2 ^ 52 \<le> rhe (y / pow2 (qexp y))"
      using rhe_mono [of "of_int (2 ^ 52)" "y / pow2 (qexp y)"] rhe_of_int [of "2 ^ 52"] by simp
    then have "(2 ^ 52 :: rat) \<le> of_int (rhe (y / pow2 (qexp y)))"
      using of_int_le_iff [of "2 ^ 52" "rhe (y / pow2 (qexp y))", where ?'a = rat] by simp
    then show ?thesis using assms by (simp add: rnd_def)
  qed
  finally show ?thesis .
qed

lemma rnd_mono: 
  assumes "x \<le> y"
  shows "rnd x \<le> rnd y"
proof -
  consider "0 < x" | "x \<le> 0" "0 \<le> y" | "y < 0" by linarith
  then show ?thesis
  proof cases
    case 1
    with assms show ?thesis by (simp add: rnd_mono_pos)
  next
    case 2
    then have "0 \<le> rnd (- x)" and "0 \<le> rnd y" by (simp_all add: rnd_nonneg)
    then show ?thesis by (simp add: rnd_minus)
  next
    case 3
    then have "rnd (- y) \<le> rnd (- x)" using assms by (simp add: rnd_mono_pos)
    then show ?thesis by (simp add: rnd_minus)
  qed
qed

definition dyadic :: "int \<Rightarrow> int \<Rightarrow> rat" where
  "dyadic m e = of_int m * pow2 e"

lemma rnd_dyadic_strict:
  assumes "0 < m" and "m < 2 ^ 53" and "- 1074 \<le> e"
  shows "rnd (dyadic m e) = dyadic m e"
proof -
  let ?x = "dyadic m e"
  have pos: "0 < ?x" using assms by (simp add: dyadic_def)
  have "of_int m < (2 ^ 53 :: rat)" using assms(2) of_int_less_iff [of m "2 ^ 53", where ?'a = rat] by simp
  then have "?x < 2 ^ 53 * pow2 e" by (simp add: dyadic_def)
  also have "\<dots> = pow2 (e + 53)" by (simp add: pow2_add) (simp add: pow2_def)
  finally have "pow2 (ilog2 ?x) < pow2 (e + 53)" using ilog2_bounds(1) [OF pos] by linarith
  then have q: "qexp ?x \<le> e" using assms pos by (simp add: qexp_def)
  have "?x / pow2 (qexp ?x) = of_int m * (pow2 e / pow2 (qexp ?x))" by (simp add: dyadic_def)
  also have "pow2 e / pow2 (qexp ?x) = pow2 (e - qexp ?x)"
    using pow2_add [of "e - qexp ?x" "qexp ?x"] by (simp add: field_simps)
  also have "of_int m * \<dots> = of_int (m * 2 ^ nat (e - qexp ?x))" using q by (simp add: pow2_def)
  finally have i: "?x / pow2 (qexp ?x) = of_int (m * 2 ^ nat (e - qexp ?x))" .
  have "rnd ?x = of_int (rhe (?x / pow2 (qexp ?x))) * pow2 (qexp ?x)" using pos by (simp add: rnd_def)
  also have "\<dots> = ?x / pow2 (qexp ?x) * pow2 (qexp ?x)" unfolding i rhe_of_int ..
  finally show ?thesis by simp
qed

lemma rnd_dyadic_pos:
  assumes "0 < m" and "m \<le> 2 ^ 53" and "- 1074 \<le> e"
  shows "rnd (dyadic m e) = dyadic m e"
proof (cases "m = 2 ^ 53")
  case True
  have "dyadic m e = dyadic (2 ^ 52) (e + 1)" by (simp add: True dyadic_def pow2_add)
  then show ?thesis using rnd_dyadic_strict [of "2 ^ 52" "e + 1"] assms by simp
next
  case False
  with assms show ?thesis by (simp add: rnd_dyadic_strict)
qed

lemma rnd_dyadic:
  assumes "\<bar>m\<bar> \<le> 2 ^ 53" and "- 1074 \<le> e"
  shows "rnd (dyadic m e) = dyadic m e"
proof -
  consider "0 < m" | "m = 0" | "m < 0" by linarith
  then show ?thesis
  proof cases
    case 3
    then have "rnd (dyadic (- m) e) = dyadic (- m) e" using assms by (simp add: rnd_dyadic_pos)
    then show ?thesis by (simp add: dyadic_def rnd_minus)
  next
    case 1
    with assms show ?thesis by (simp add: rnd_dyadic_pos)
  next
    case 2
    then show ?thesis by (simp add: dyadic_def)
  qed
qed

lemma rnd_of_int: "\<bar>n\<bar> \<le> 2 ^ 53 \<Longrightarrow> rnd (of_int n) = of_int n"
  using rnd_dyadic [of n 0] by (simp add: dyadic_def)

lemma rnd_1 [simp]: "rnd 1 = 1"
  using rnd_of_int [of 1] by simp

lemma rnd_numeral: "(numeral k :: int) \<le> 2 ^ 53 \<Longrightarrow> rnd (numeral k) = numeral k"
  using rnd_of_int [of "numeral k"] by simp

lemma rnd_is_dyadic: "\<exists>m e. rnd x = dyadic m e \<and> \<bar>m\<bar> \<le> 2 ^ 53 \<and> - 1074 \<le> e"
proof -
  have pos: "\<exists>m e. rnd x = dyadic m e \<and> \<bar>m\<bar> \<le> 2 ^ 53 \<and> - 1074 \<le> e" if "0 < x" for x
  proof -
    let ?m = "rhe (x / pow2 (qexp x))"
    have "?m \<le> 2 ^ 53"
      using rhe_mono [OF pow2_qexp_scale [OF that]] rhe_of_int [of "2 ^ 53"] by simp
    moreover have "0 \<le> ?m" using that by (simp add: rhe_0_le)
    moreover have "rnd x = dyadic ?m (qexp x)" using that by (simp add: rnd_def dyadic_def)
    moreover have "- 1074 \<le> qexp x" by (simp add: qexp_def)
    ultimately show ?thesis by (metis abs_of_nonneg)
  qed
  consider "0 < x" | "x = 0" | "x < 0" by linarith
  then show ?thesis
  proof cases
    case 1
    then show ?thesis by (rule pos)
  next
    case 2
    then show ?thesis by (intro exI [of _ 0]) (simp add: dyadic_def)
  next
    case 3
    then obtain m e where "rnd (- x) = dyadic m e" "\<bar>m\<bar> \<le> 2 ^ 53" "- 1074 \<le> e" using pos [of "- x"] by auto
    then show ?thesis by (intro exI [of _ "- m"] exI [of _ e]) (simp add: dyadic_def rnd_minus)
  qed
qed

lemma rnd_idem [simp]: "rnd (rnd x) = rnd x"
  using rnd_is_dyadic [of x] rnd_dyadic by auto

text \<open>The absolute error, for results below one: at most half of the last place.\<close>

lemma rnd_error: "\<bar>rnd x - x\<bar> \<le> pow2 (qexp x) / 2"
proof (cases "x = 0")
  case False
  let ?q = "pow2 (qexp x)"
  have "rnd x - x = (of_int (rhe (x / ?q)) - x / ?q) * ?q"
    using False by (simp add: rnd_def left_diff_distrib)
  then have "\<bar>rnd x - x\<bar> = \<bar>of_int (rhe (x / ?q)) - x / ?q\<bar> * ?q"
    by (simp add: abs_mult)
  also have "\<dots> \<le> 1 / 2 * ?q" by (rule mult_right_mono [OF rhe_near]) simp
  finally show ?thesis by simp
qed simp


section \<open>Evaluation\<close>

text \<open>
  Equations that evaluate the rounding on integers, with every intermediate rational in lowest
  terms, so that closed float expressions compute quickly in the kernel.
\<close>

definition norm_rat :: "rat \<Rightarrow> rat" where
  "norm_rat x = (case quotient_of x of (a, b) \<Rightarrow> Fract a b)"

lemma norm_rat_id [simp]: "norm_rat x = x"
  unfolding norm_rat_def by (cases "quotient_of x") (simp add: quotient_of_div [symmetric] Fract_of_int_quotient)

function ipow2 :: "int \<Rightarrow> int" where
  "ipow2 e = (if e \<le> 0 then 1 else if even e then ipow2 (e div 2) * ipow2 (e div 2) else 2 * ipow2 (e - 1))"
  by auto
termination by (relation "measure nat") auto

declare ipow2.simps [simp del, code del]

lemma ipow2_eq: "ipow2 e = 2 ^ nat e"
proof (induction e rule: ipow2.induct)
  case (1 e)
  consider "e \<le> 0" | "0 < e" "even e" | "0 < e" "odd e" by linarith
  then show ?case
  proof cases
    case 2
    then have "e = e div 2 + e div 2" by presburger
    then have "nat e = nat (e div 2) + nat (e div 2)" by linarith
    then show ?thesis using 1 2 by (subst ipow2.simps) (simp add: power_add)
  next
    case 3
    then have "nat e = Suc (nat (e - 1))" by linarith
    then show ?thesis using 1 3 by (subst ipow2.simps) simp
  qed (subst ipow2.simps, simp)
qed

lemma ipow2_code [code]:
  "ipow2 e = (if e \<le> 0 then 1
     else let h = ipow2 (e div 2); q = h * h in if e mod 2 = 0 then q else 2 * q)"
proof (cases "e \<le> 0")
  case False
  have "e = e div 2 + e div 2 + e mod 2" by presburger
  then have "nat e = nat (e div 2) + nat (e div 2) + nat (e mod 2)" using False by linarith
  moreover have "e mod 2 = 0 \<or> e mod 2 = 1" by presburger
  ultimately show ?thesis using False by (auto simp: ipow2_eq power_add Let_def)
qed (simp add: ipow2_eq)

lemma pow2_code [code]: "pow2 e = (if 0 \<le> e then Fract (ipow2 e) 1 else Fract 1 (ipow2 (- e)))"
  by (simp add: pow2_def ipow2_eq Fract_of_int_quotient)

lemma ilog2_code [code]:
  "ilog2 x = (let y = norm_rat x
     in if 1 \<le> y then bitlen \<lfloor>y\<rfloor> - 1 else - bitlen (\<lceil>norm_rat (1 / y)\<rceil> - 1))"
  by (simp add: ilog2_def Let_def)

lemma rhe_code [code]:
  "rhe x = (case quotient_of x of (a, b) \<Rightarrow>
     let f = a div b; r = 2 * (a mod b)
     in if r < b then f else if b < r then f + 1 else if f mod 2 = 0 then f else f + 1)"
proof (cases "quotient_of x")
  case (Pair a b)
  then have b: "0 < b" and x: "x = of_int a / of_int b"
    by (simp_all add: quotient_of_denom_pos quotient_of_div)
  have f: "\<lfloor>x\<rfloor> = a div b" unfolding x by (rule floor_divide_of_int_eq)
  have "x * of_int b = of_int (a div b * b + a mod b)" using b by (simp add: x)
  then have "(x - of_int (a div b)) * of_int b = of_int (a mod b)"
    by (simp only: of_int_add of_int_mult left_diff_distrib)
  then have d: "x - of_int (a div b) = of_int (a mod b) / of_int b" using b by (simp add: field_simps)
  have lt: "(of_int m / of_int b < (1 / 2 :: rat)) = (2 * m < b)" for m
  proof -
    have "(of_int m / of_int b < (1 / 2 :: rat)) = (of_int (2 * m) < (of_int b :: rat))"
      using b by (simp add: field_simps)
    then show ?thesis by (simp only: of_int_less_iff)
  qed
  have gt: "((1 / 2 :: rat) < of_int m / of_int b) = (b < 2 * m)" for m
  proof -
    have "((1 / 2 :: rat) < of_int m / of_int b) = (of_int b < (of_int (2 * m) :: rat))"
      using b by (simp add: field_simps)
    then show ?thesis by (simp only: of_int_less_iff)
  qed
  have lt': "(x - of_int (a div b) < 1 / 2) = (2 * (a mod b) < b)" unfolding d by (rule lt)
  have gt': "(1 / 2 < x - of_int (a div b)) = (b < 2 * (a mod b))" unfolding d by (rule gt)
  show ?thesis
    unfolding rhe_def Pair prod.case Let_def f lt' gt' even_iff_mod_2_eq_zero by (rule refl)
qed

lemma rnd_code [code]:
  "rnd x = (let y = norm_rat x
     in if y = 0 then 0 else let p = pow2 (qexp y) in norm_rat (of_int (rhe (y / p)) * p))"
  by (simp add: rnd_def Let_def)


section \<open>The float type\<close>

text \<open>\<open>Infty True\<close> is the negative infinity.\<close>

datatype pyfloat = Fin rat | Infty bool | NaN

definition fl :: "rat \<Rightarrow> pyfloat" where
  "fl x = (let r = rnd x in if r \<noteq> 0 \<and> 1024 \<le> ilog2 \<bar>r\<bar> then Infty (r < 0) else Fin r)"

text \<open>The magnitude test is \<open>2 ^ 1024 \<le> \<bar>r\<bar>\<close>.\<close>

lemma ilog2_ge_iff: "0 < x \<Longrightarrow> e \<le> ilog2 x \<longleftrightarrow> pow2 e \<le> x"
  using ilog2_bounds [of x] pow2_le_iff [of e "ilog2 x"] pow2_le_iff [of "ilog2 x + 1" e] by linarith

lemma fl_overflow: "fl x = (if 2 ^ 1024 \<le> \<bar>rnd x\<bar> then Infty (rnd x < 0) else Fin (rnd x))"
proof -
  have "pow2 1024 = 2 ^ 1024" by (simp only: pow2_def nat_numeral) simp
  then show ?thesis using ilog2_ge_iff [of "\<bar>rnd x\<bar>" 1024] by (cases "rnd x = 0") (simp_all add: fl_def Let_def)
qed

fun fneg :: "pyfloat \<Rightarrow> pyfloat" where
  "fneg (Fin a) = Fin (- a)"
| "fneg (Infty s) = Infty (\<not> s)"
| "fneg NaN = NaN"

fun fadd :: "pyfloat \<Rightarrow> pyfloat \<Rightarrow> pyfloat" where
  "fadd (Fin a) (Fin b) = fl (a + b)"
| "fadd (Infty s) (Infty t) = (if s = t then Infty s else NaN)"
| "fadd (Infty s) (Fin b) = Infty s"
| "fadd (Fin a) (Infty t) = Infty t"
| "fadd NaN y = NaN"
| "fadd x NaN = NaN"

definition fsub :: "pyfloat \<Rightarrow> pyfloat \<Rightarrow> pyfloat" where
  "fsub x y = fadd x (fneg y)"

fun fmul :: "pyfloat \<Rightarrow> pyfloat \<Rightarrow> pyfloat" where
  "fmul (Fin a) (Fin b) = fl (a * b)"
| "fmul (Infty s) (Infty t) = Infty (s \<noteq> t)"
| "fmul (Infty s) (Fin b) = (if b = 0 then NaN else Infty (s \<noteq> (b < 0)))"
| "fmul (Fin a) (Infty t) = (if a = 0 then NaN else Infty (t \<noteq> (a < 0)))"
| "fmul NaN y = NaN"
| "fmul x NaN = NaN"

text \<open>Division by a zero raises, whatever the dividend.\<close>

fun fdiv :: "pyfloat \<Rightarrow> pyfloat \<Rightarrow> py_error + pyfloat" where
  "fdiv (Fin a) (Fin b) = (if b = 0 then Inl (ZeroDivisionError ''float division by zero'') else Inr (fl (a / b)))"
| "fdiv (Infty s) (Infty t) = Inr NaN"
| "fdiv (Infty s) (Fin b) =
     (if b = 0 then Inl (ZeroDivisionError ''float division by zero'') else Inr (Infty (s \<noteq> (b < 0))))"
| "fdiv (Fin a) (Infty t) = Inr (Fin 0)"
| "fdiv NaN (Fin b) = (if b = 0 then Inl (ZeroDivisionError ''float division by zero'') else Inr NaN)"
| "fdiv NaN y = Inr NaN"
| "fdiv x NaN = Inr NaN"

text \<open>Division by a constant of the code that is not zero.\<close>

definition fdiv_by :: "pyfloat \<Rightarrow> rat \<Rightarrow> pyfloat" where
  "fdiv_by x k = (case fdiv x (Fin k) of Inr y \<Rightarrow> y | Inl e \<Rightarrow> NaN)"

text \<open>Every comparison with a NaN is false.\<close>

fun flt :: "pyfloat \<Rightarrow> pyfloat \<Rightarrow> bool" where
  "flt (Fin a) (Fin b) = (a < b)"
| "flt (Infty s) (Infty t) = (s \<and> \<not> t)"
| "flt (Infty s) (Fin b) = s"
| "flt (Fin a) (Infty t) = (\<not> t)"
| "flt NaN y = False"
| "flt x NaN = False"

fun feq :: "pyfloat \<Rightarrow> pyfloat \<Rightarrow> bool" where
  "feq NaN y = False"
| "feq x NaN = False"
| "feq x y = (x = y)"

definition fle :: "pyfloat \<Rightarrow> pyfloat \<Rightarrow> bool" where
  "fle x y = (flt x y \<or> feq x y)"

text \<open>\<open>max(a, b)\<close> and \<open>min(a, b)\<close> keep their first argument unless the second one beats it, which
  is what decides the result when one of them is a NaN.\<close>

definition fmax :: "pyfloat \<Rightarrow> pyfloat \<Rightarrow> pyfloat" where
  "fmax a b = (if flt a b then b else a)"

definition fmin :: "pyfloat \<Rightarrow> pyfloat \<Rightarrow> pyfloat" where
  "fmin a b = (if flt b a then b else a)"

fun fabs :: "pyfloat \<Rightarrow> pyfloat" where
  "fabs (Fin a) = Fin \<bar>a\<bar>"
| "fabs (Infty s) = Infty False"
| "fabs NaN = NaN"

text \<open>\<open>round(x, n)\<close>: the exact binary value is rounded to \<open>n\<close> decimals (ties to even), and the decimal
  is rounded to binary64 again.  \<open>round(x)\<close> gives an int and raises on what is no number.\<close>

fun fround :: "nat \<Rightarrow> pyfloat \<Rightarrow> pyfloat" where
  "fround n (Fin a) = fl (of_int (rhe (a * 10 ^ n)) / 10 ^ n)"
| "fround n x = x"

fun fround_int :: "pyfloat \<Rightarrow> py_error + int" where
  "fround_int (Fin a) = Inr (rhe a)"
| "fround_int (Infty s) = Inl (OverflowError ''cannot convert float infinity to integer'')"
| "fround_int NaN = Inl (ValueError ''cannot convert float NaN to integer'')"

text \<open>
  \<open>sum\<close> over floats.  Since 3.12 CPython adds floats with Neumaier's compensated summation: \<open>f\<close> is
  the running sum, \<open>c\<close> the compensation that is added at the end when it is finite and not zero.
\<close>

fun fsum_loop :: "pyfloat \<Rightarrow> pyfloat \<Rightarrow> pyfloat list \<Rightarrow> pyfloat" where
  "fsum_loop f c [] =
     (case c of Fin r \<Rightarrow> if r = 0 then f else fadd f c | _ \<Rightarrow> f)"
| "fsum_loop f c (x # xs) =
     (let t = fadd f x
      in if fle (fabs x) (fabs f) then fsum_loop t (fadd c (fadd (fsub f t) x)) xs
         else fsum_loop t (fadd c (fadd (fsub x t) f)) xs)"

text \<open>The sum of an empty list is the int 0; the code never uses it there.\<close>

fun fsum :: "pyfloat list \<Rightarrow> pyfloat" where
  "fsum [] = Fin 0"
| "fsum (x # xs) = fsum_loop x (Fin 0) xs"

section \<open>Laws of the operations on finite floats\<close>

definition finite_float :: "pyfloat \<Rightarrow> bool" where
  "finite_float x = (case x of Fin a \<Rightarrow> rnd a = a | _ \<Rightarrow> False)"

definition in_range :: "rat \<Rightarrow> rat \<Rightarrow> pyfloat \<Rightarrow> bool" where
  "in_range lo hi x = (case x of Fin a \<Rightarrow> lo \<le> a \<and> a \<le> hi | _ \<Rightarrow> False)"

fun fval :: "pyfloat \<Rightarrow> rat" where
  "fval (Fin a) = a"
| "fval _ = 0"

lemma fl_small:
  assumes "\<bar>x\<bar> \<le> 2 ^ 53"
  shows "fl x = Fin (rnd x)"
proof -
  have r: "rnd (2 ^ 53) = 2 ^ 53" using rnd_of_int [of "2 ^ 53"] by simp
  have "rnd x \<le> 2 ^ 53" using rnd_mono [of x "2 ^ 53"] assms r by simp
  moreover have "- (2 ^ 53) \<le> rnd x" using rnd_mono [of "- (2 ^ 53)" x] assms r by (simp add: rnd_minus)
  ultimately have "\<bar>rnd x\<bar> \<le> 2 ^ 53" by simp
  also have "(2 ^ 53 :: rat) < 2 ^ 1024" by simp
  finally have "\<not> 2 ^ 1024 \<le> \<bar>rnd x\<bar>" by linarith
  then show ?thesis by (simp add: fl_overflow)
qed

lemma rnd_between:
  assumes "rnd lo = lo" and "rnd hi = hi" and "lo \<le> x" and "x \<le> hi"
  shows "lo \<le> rnd x" and "rnd x \<le> hi"
  using rnd_mono [OF assms(3)] rnd_mono [OF assms(4)] assms(1,2) by simp_all

lemma fmax_Fin [simp]: "fmax (Fin a) (Fin b) = Fin (max a b)"
  by (simp add: fmax_def max_def)

lemma fmin_Fin [simp]: "fmin (Fin a) (Fin b) = Fin (min a b)"
  by (simp add: fmin_def min_def)

lemma fle_Fin [simp]: "fle (Fin a) (Fin b) = (a \<le> b)"
  by (auto simp: fle_def)

lemma fsub_Fin [simp]: "fsub (Fin a) (Fin b) = fl (a - b)"
  by (simp add: fsub_def)

lemma fdiv_by_Fin [simp]: "k \<noteq> 0 \<Longrightarrow> fdiv_by (Fin a) k = fl (a / k)"
  by (simp add: fdiv_by_def)

lemma in_range_Fin [simp]: "in_range lo hi (Fin a) = (lo \<le> a \<and> a \<le> hi)"
  by (simp add: in_range_def)

lemma in_range_obtain:
  assumes "in_range lo hi x"
  obtains a where "x = Fin a" "lo \<le> a" "a \<le> hi"
  using assms by (auto simp: in_range_def split: pyfloat.splits)

lemma fle_in_range [simp]: "in_range lo hi NaN = False" "in_range lo hi (Infty s) = False"
  by (simp_all add: in_range_def)

text \<open>A rounded result lies between two integers when the exact one does.\<close>

lemma fl_range:
  assumes "of_int lo \<le> x" and "x \<le> of_int hi" and "\<bar>lo\<bar> \<le> 2 ^ 53" and "\<bar>hi\<bar> \<le> 2 ^ 53"
  shows "fl x = Fin (rnd x)" and "of_int lo \<le> rnd x" and "rnd x \<le> of_int hi"
proof -
  have "(of_int hi :: rat) \<le> 2 ^ 53" and "- (2 ^ 53) \<le> (of_int lo :: rat)"
    using assms(3,4) of_int_le_iff [of hi "2 ^ 53", where ?'a = rat]
      of_int_le_iff [of "- (2 ^ 53)" lo, where ?'a = rat] by simp_all
  then have "\<bar>x\<bar> \<le> 2 ^ 53" using assms(1,2) by linarith
  then show "fl x = Fin (rnd x)" by (rule fl_small)
  show "of_int lo \<le> rnd x" and "rnd x \<le> of_int hi"
    using rnd_between [OF rnd_of_int rnd_of_int assms(1,2)] assms(3,4) by simp_all
qed

lemma fl_unit: "0 \<le> x \<Longrightarrow> x \<le> 1 \<Longrightarrow> in_range 0 1 (fl x)"
  using fl_range [of 0 x 1] by simp

text \<open>Clamping with \<open>max(lo, min(hi, x))\<close> always lands between the bounds, whatever the float: a NaN
  gives the upper bound.\<close>

definition fclamp :: "rat \<Rightarrow> rat \<Rightarrow> pyfloat \<Rightarrow> pyfloat" where
  "fclamp lo hi x = fmax (Fin lo) (fmin (Fin hi) x)"

lemma fclamp_range: "lo \<le> hi \<Longrightarrow> in_range lo hi (fclamp lo hi x)"
  by (cases x) (auto simp: fclamp_def fmax_def fmin_def in_range_def)

lemma fclamp_NaN: "lo \<le> hi \<Longrightarrow> fclamp lo hi NaN = Fin hi"
  by (auto simp: fclamp_def fmax_def fmin_def)

lemma fclamp_Fin [simp]: "fclamp lo hi (Fin a) = Fin (max lo (min hi a))"
  by (simp add: fclamp_def)

text \<open>Rounding to decimals keeps a range whose ends are decimals of that length.\<close>

lemma fround_range:
  assumes "in_range (of_int lo) (of_int hi) x" and "\<bar>lo\<bar> \<le> 2 ^ 53" and "\<bar>hi\<bar> \<le> 2 ^ 53"
  shows "in_range (of_int lo) (of_int hi) (fround n x)"
proof -
  obtain a where x: "x = Fin a" and lo: "of_int lo \<le> a" and hi: "a \<le> of_int hi"
    using assms(1) by (auto simp: in_range_def split: pyfloat.splits)
  let ?r = "of_int (rhe (a * 10 ^ n)) / 10 ^ n :: rat"
  have "of_int (lo * 10 ^ n) \<le> a * 10 ^ n" and "a * 10 ^ n \<le> of_int (hi * 10 ^ n)"
    using lo hi by simp_all
  then have "lo * 10 ^ n \<le> rhe (a * 10 ^ n)" and "rhe (a * 10 ^ n) \<le> hi * 10 ^ n"
    using rhe_mono rhe_of_int by metis+
  then have "(of_int (lo * 10 ^ n) :: rat) \<le> of_int (rhe (a * 10 ^ n))"
    and "(of_int (rhe (a * 10 ^ n)) :: rat) \<le> of_int (hi * 10 ^ n)"
    by (simp_all only: of_int_le_iff)
  then have r: "of_int lo \<le> ?r" "?r \<le> of_int hi" by (simp_all add: field_simps)
  have "\<bar>?r\<bar> \<le> 2 ^ 53"
  proof -
    have "(of_int hi :: rat) \<le> 2 ^ 53" and "- (2 ^ 53) \<le> (of_int lo :: rat)"
      using assms(2,3) of_int_le_iff [of hi "2 ^ 53", where ?'a = rat]
        of_int_le_iff [of "- (2 ^ 53)" lo, where ?'a = rat] by simp_all
    with r show ?thesis by linarith
  qed
  then have "fround n x = Fin (rnd ?r)" by (simp add: x fl_small)
  with rnd_between [OF rnd_of_int rnd_of_int r] assms(2,3) show ?thesis by (simp add: in_range_def)
qed

end
