(* ===== verification/Values.thy ===== *)
theory Values
  imports Floats
begin

text \<open>
  The dynamic values of the program: what \<open>Mapping[str, Any]\<close> holds, what a JSON document parses
  to, what a JSON field of a row contains.  \<open>pyval\<close> has a constructor per Python type; a dict keeps
  its insertion order.  The builtins the code applies to such values are functions on them:
  \<open>truthy\<close> (\<open>bool(x)\<close>, hence \<open>x or y\<close>), \<open>py_str\<close> (\<open>str(x)\<close>, with the shortest decimal of a float
  that reads back as the same float), \<open>py_float\<close> and \<open>py_int\<close> (\<open>float(x)\<close>, \<open>int(x)\<close>, with the
  literals strings may hold and the exceptions they raise), and \<open>is_mapping\<close>, \<open>is_seq\<close>
  (\<open>isinstance\<close>).  They are the language's but for two things: the sign of a zero float, and the
  \<open>ValueError\<close> CPython raises when an integer of more than 4300 digits is printed, which \<open>py_str\<close>
  prints (the JSON reader refuses such a literal, so no value of a request or of a row is one).
\<close>

datatype pyval =
    PNone
  | PBool bool
  | PInt int
  | PFloat pyfloat
  | PStr string
  | PList "pyval list"
  | PDict "(string \<times> pyval) list"

fun truthy :: "pyval \<Rightarrow> bool" where
  "truthy PNone = False"
| "truthy (PBool b) = b"
| "truthy (PInt n) = (n \<noteq> 0)"
| "truthy (PFloat x) = (x \<noteq> Fin 0)"
| "truthy (PStr s) = (s \<noteq> [])"
| "truthy (PList xs) = (xs \<noteq> [])"
| "truthy (PDict d) = (d \<noteq> [])"

text \<open>\<open>a or b\<close>.\<close>

definition py_or :: "pyval \<Rightarrow> pyval \<Rightarrow> pyval" where
  "py_or a b = (if truthy a then a else b)"

fun is_mapping :: "pyval \<Rightarrow> bool" where
  "is_mapping (PDict d) = True"
| "is_mapping _ = False"

fun is_str :: "pyval \<Rightarrow> bool" where
  "is_str (PStr s) = True"
| "is_str _ = False"

text \<open>\<open>d.get(k)\<close> and \<open>d.get(k, v)\<close>.\<close>

definition pget :: "pyval dict \<Rightarrow> string \<Rightarrow> pyval" where
  "pget d k = dget_or d k PNone"

section \<open>Printing\<close>

text \<open>The decimal exponent of a positive rational: \<open>10 ^ k \<le> x < 10 ^ (k + 1)\<close>.\<close>

definition pow10 :: "int \<Rightarrow> rat" where
  "pow10 k = (if 0 \<le> k then 10 ^ nat k else 1 / 10 ^ nat (- k))"

definition ilog10 :: "rat \<Rightarrow> int" where
  "ilog10 x = (let k = ilog2 x * 30103 div 100000
               in if x < pow10 k then k - 1 else if pow10 (k + 1) \<le> x then k + 1 else k)"

text \<open>
  The shortest decimal that rounds to the float, the nearest one of that length: of the two
  neighbours with \<open>n\<close> digits, those that read back as the float.
\<close>

definition decimal_at :: "rat \<Rightarrow> nat \<Rightarrow> (int \<times> int) option" where
  "decimal_at x n =
     (let e = ilog10 x - int n + 1; s = x / pow10 e; lo = \<lfloor>s\<rfloor>; hi = \<lceil>s\<rceil>;
          ok = (\<lambda>m. rnd (of_int m * pow10 e) = x)
      in if ok lo \<and> ok hi then Some (if s - of_int lo \<le> of_int hi - s then lo else hi, e)
         else if ok lo then Some (lo, e) else if ok hi then Some (hi, e) else None)"

definition shortest_decimal :: "rat \<Rightarrow> int \<times> int" where
  "shortest_decimal x =
     (case List.find (\<lambda>n. decimal_at x n \<noteq> None) [1..<18] of
        Some n \<Rightarrow> the (decimal_at x n) | None \<Rightarrow> (0, 0))"

definition exponent_str :: "int \<Rightarrow> string" where
  "exponent_str e = ''e'' @ (if e < 0 then ''-'' else ''+'') @ (if \<bar>e\<bar> < 10 then ''0'' else []) @ str_nat \<bar>e\<bar>"

definition repr_pos :: "rat \<Rightarrow> string" where
  "repr_pos x =
     (let (m, e) = shortest_decimal x; all = str_nat m; point = int (length all) + e;
          ds = rstrip_if (\<lambda>c. c = CHR ''0'') all; len = int (length ds)
      in if - 4 < point \<and> point \<le> 16 then
           (if point \<le> 0 then ''0.'' @ replicate (nat (- point)) (CHR ''0'') @ ds
            else if len \<le> point then ds @ replicate (nat (point - len)) (CHR ''0'') @ ''.0''
            else take (nat point) ds @ ''.'' @ drop (nat point) ds)
         else take 1 ds @ (if len = 1 then [] else ''.'' @ drop 1 ds) @ exponent_str (point - 1))"

fun repr_float :: "pyfloat \<Rightarrow> string" where
  "repr_float (Fin x) =
     (if x = 0 then ''0.0'' else if x < 0 then ''-'' @ repr_pos (- x) else repr_pos x)"
| "repr_float (Infty s) = (if s then ''-inf'' else ''inf'')"
| "repr_float NaN = ''nan''"

definition hex_digit :: "int \<Rightarrow> char" where
  "hex_digit d = (if d < 10 then char_of (48 + d) else char_of (87 + d))"

definition repr_char :: "char \<Rightarrow> char \<Rightarrow> string" where
  "repr_char q c =
     (if c = q \<or> c = CHR 0x5C then [CHR 0x5C, c]
      else if code c = 10 then CHR 0x5C # ''n''
      else if code c = 13 then CHR 0x5C # ''r''
      else if code c = 9 then CHR 0x5C # ''t''
      else if code c < 32 \<or> 127 \<le> code c \<and> code c \<le> 160 \<or> code c = 173
           then CHR 0x5C # CHR ''x'' # [hex_digit (code c div 16), hex_digit (code c mod 16)]
      else [c])"

definition repr_str :: "string \<Rightarrow> string" where
  "repr_str s =
     (let q = (if CHR 0x27 \<in> set s \<and> CHR 0x22 \<notin> set s then CHR 0x22 else CHR 0x27)
      in [q] @ concat (map (repr_char q) s) @ [q])"

fun py_repr :: "pyval \<Rightarrow> string" where
  "py_repr PNone = ''None''"
| "py_repr (PBool b) = (if b then ''True'' else ''False'')"
| "py_repr (PInt n) = str_int n"
| "py_repr (PFloat x) = repr_float x"
| "py_repr (PStr s) = repr_str s"
| "py_repr (PList xs) = ''['' @ join '', '' (map py_repr xs) @ '']''"
| "py_repr (PDict d) =
     ''{'' @ join '', '' (map (\<lambda>p. repr_str (fst p) @ '': '' @ py_repr (snd p)) d) @ ''}''"

fun py_str :: "pyval \<Rightarrow> string" where
  "py_str (PStr s) = s"
| "py_str v = py_repr v"

section \<open>Numbers from strings\<close>

text \<open>Underscores stand between two digits, or the literal is wrong.\<close>

fun drop_underscores :: "char \<Rightarrow> string \<Rightarrow> string option" where
  "drop_underscores p [] = (if p = CHR ''_'' then None else Some [])"
| "drop_underscores p (c # cs) =
     (if c = CHR ''_'' then (if is_digit p then drop_underscores c cs else None)
      else if p = CHR ''_'' \<and> \<not> is_digit c then None
      else (case drop_underscores c cs of None \<Rightarrow> None | Some r \<Rightarrow> Some (c # r)))"

definition split_sign :: "string \<Rightarrow> bool \<times> string" where
  "split_sign s = (case s of [] \<Rightarrow> (False, [])
     | c # cs \<Rightarrow> if c = CHR ''-'' then (True, cs) else if c = CHR ''+'' then (False, cs) else (False, s))"

text \<open>A decimal literal: digits with an optional point and exponent, at least one digit before the
  exponent.  The result is the exact value.\<close>

definition exponent_part :: "string \<Rightarrow> int option" where
  "exponent_part s =
     (case s of [] \<Rightarrow> Some 0
      | c # r \<Rightarrow>
          if c = CHR ''e'' \<or> c = CHR ''E'' then
            (let (neg, ds) = split_sign r
             in if ds \<noteq> [] \<and> list_all is_digit ds
                then Some (if neg then - nat_of_digits ds else nat_of_digits ds) else None)
          else None)"

definition decimal_value :: "string \<Rightarrow> rat option" where
  "decimal_value s =
     (let whole = takeWhile is_digit s; r = dropWhile is_digit s;
          (frac, r2) = (case r of [] \<Rightarrow> ([], [])
             | c # cs \<Rightarrow> if c = CHR ''.'' then (takeWhile is_digit cs, dropWhile is_digit cs) else ([], r))
      in if whole = [] \<and> frac = [] then None
         else (case exponent_part r2 of None \<Rightarrow> None
               | Some e \<Rightarrow> Some (of_int (nat_of_digits (whole @ frac)) * pow10 (e - int (length frac)))))"

definition float_of_str :: "string \<Rightarrow> py_error + pyfloat" where
  "float_of_str s =
     (let bad = Inl (ValueError (''could not convert string to float: '' @ repr_str s))
      in case drop_underscores (CHR 0x00) (strip s) of None \<Rightarrow> bad
         | Some t \<Rightarrow>
             (let (neg, b) = split_sign t; l = lower b
              in if l = ''inf'' \<or> l = ''infinity'' then Inr (Infty neg)
                 else if l = ''nan'' then Inr NaN
                 else (case decimal_value b of None \<Rightarrow> bad
                       | Some x \<Rightarrow> Inr (fl (if neg then - x else x)))))"

text \<open>The interpreter refuses to read an integer of more than 4300 digits.\<close>

definition int_of_str :: "string \<Rightarrow> py_error + int" where
  "int_of_str s =
     (let bad = Inl (ValueError (''invalid literal for int() with base 10: '' @ repr_str s))
      in case drop_underscores (CHR 0x00) (strip s) of None \<Rightarrow> bad
         | Some t \<Rightarrow>
             (let (neg, ds) = split_sign t
              in if ds = [] \<or> \<not> list_all is_digit ds then bad
                 else if 4300 < length ds then Inl (ValueError ''Exceeds the limit (4300 digits) for integer string conversion'')
                 else Inr (if neg then - nat_of_digits ds else nat_of_digits ds)))"

definition int_to_float :: "int \<Rightarrow> py_error + pyfloat" where
  "int_to_float n =
     (case fl (of_int n) of Fin x \<Rightarrow> Inr (Fin x)
      | _ \<Rightarrow> Inl (OverflowError ''int too large to convert to float''))"

fun py_float :: "pyval \<Rightarrow> py_error + pyfloat" where
  "py_float (PBool b) = Inr (Fin (if b then 1 else 0))"
| "py_float (PInt n) = int_to_float n"
| "py_float (PFloat x) = Inr x"
| "py_float (PStr s) = float_of_str s"
| "py_float v = Inl (TypeError ''float() argument must be a string or a real number'')"

definition truncate_rat :: "rat \<Rightarrow> int" where
  "truncate_rat x = (if x < 0 then \<lceil>x\<rceil> else \<lfloor>x\<rfloor>)"

fun py_int :: "pyval \<Rightarrow> py_error + int" where
  "py_int (PBool b) = Inr (if b then 1 else 0)"
| "py_int (PInt n) = Inr n"
| "py_int (PFloat (Fin x)) = Inr (truncate_rat x)"
| "py_int (PFloat (Infty s)) = Inl (OverflowError ''cannot convert float infinity to integer'')"
| "py_int (PFloat NaN) = Inl (ValueError ''cannot convert float NaN to integer'')"
| "py_int (PStr s) = int_of_str s"
| "py_int v = Inl (TypeError ''int() argument must be a string, a bytes-like object or a real number'')"

section \<open>Facts\<close>

lemma truthy_py_or: "truthy (py_or a b) = (truthy a \<or> truthy b)"
  by (simp add: py_or_def)

lemma int_to_float_small: "\<bar>n\<bar> \<le> 2 ^ 53 \<Longrightarrow> int_to_float n = Inr (Fin (of_int n))"
proof -
  assume n: "\<bar>n\<bar> \<le> 2 ^ 53"
  then have "\<bar>of_int n :: rat\<bar> \<le> 2 ^ 53"
    using of_int_le_iff [of "\<bar>n\<bar>" "2 ^ 53", where ?'a = rat] by simp
  then show ?thesis using n by (simp add: int_to_float_def fl_small rnd_of_int)
qed

lemma list_all_is_digit_str_nat: "0 \<le> n \<Longrightarrow> list_all is_digit (str_nat n)"
  using str_nat_digits [of n] by (simp add: list_all_iff)

lemma drop_underscores_id: "CHR ''_'' \<notin> set s \<Longrightarrow> p \<noteq> CHR ''_'' \<Longrightarrow> drop_underscores p s = Some s"
  by (induction s arbitrary: p) auto

lemma digit_facts:
  assumes "is_digit c"
  shows "c \<noteq> CHR ''_''" "\<not> is_space c" "c \<noteq> CHR ''-''" "c \<noteq> CHR ''+''"
  using assms by (auto simp: is_digit_def is_space_def code_def)

text \<open>Printing an integer and reading it back.\<close>

lemma int_of_str_str_nat:
  assumes "0 \<le> n" and "length (str_nat n) \<le> 4300"
  shows "int_of_str (str_nat n) = Inr n"
proof -
  let ?s = "str_nat n"
  note d = str_nat_digits [OF assms(1)]
  then have hd: "is_digit (hd ?s)" and lst: "is_digit (last ?s)" by auto
  have "strip ?s = ?s" using digit_facts(2) [OF hd] digit_facts(2) [OF lst] by (simp add: strip_fixed)
  moreover have "drop_underscores (CHR 0x00) ?s = Some ?s"
    using d digit_facts(1) by (intro drop_underscores_id) auto
  moreover have "split_sign ?s = (False, ?s)"
    using d digit_facts(3,4) [OF hd] by (auto simp: split_sign_def split: list.splits)
  ultimately show ?thesis
    using assms d list_all_is_digit_str_nat [OF assms(1)] by (simp add: int_of_str_def)
qed

end
