(* ===== verification/Ip_Address.thy ===== *)
theory Ip_Address
  imports Values
begin

text \<open>
  The part of Python's \<open>ipaddress\<close> module the backend uses: \<open>ip_address(s)\<close> and
  \<open>ip_network(s, strict=False)\<close>, the flags \<open>is_private\<close>, \<open>is_loopback\<close>, \<open>is_link_local\<close>, the hosts
  of a network and the printing of an address.  An address is the integer of its bits, as in the
  module; the invariant \<open>ip_ok\<close> bounds it by its family's width.  The IPv4 printer and parser are
  inverse, and a parsed address always satisfies the invariant.
\<close>

datatype ip_addr = V4 int | V6 int "string option"

datatype ip_net = Net4 int int | Net6 int int

definition ip_ok :: "ip_addr \<Rightarrow> bool" where
  "ip_ok a = (case a of V4 n \<Rightarrow> 0 \<le> n \<and> n < 2 ^ 32 | V6 n s \<Rightarrow> 0 \<le> n \<and> n < 2 ^ 128)"

section \<open>Parsing\<close>

definition parse_octet :: "string \<Rightarrow> int option" where
  "parse_octet s =
     (if s = [] \<or> \<not> list_all is_digit s \<or> 3 < length s \<or> s \<noteq> ''0'' \<and> hd s = CHR ''0'' then None
      else if 255 < nat_of_digits s then None else Some (nat_of_digits s))"

definition parse_ipv4 :: "string \<Rightarrow> int option" where
  "parse_ipv4 s =
     (case map parse_octet (split_on (CHR ''.'') s) of
        [Some a, Some b, Some c, Some d] \<Rightarrow> Some (a * 2 ^ 24 + b * 2 ^ 16 + c * 2 ^ 8 + d)
      | _ \<Rightarrow> None)"

definition hex_value :: "char \<Rightarrow> int option" where
  "hex_value c =
     (if is_digit c then Some (code c - 48)
      else if 97 \<le> code c \<and> code c \<le> 102 then Some (code c - 87)
      else if 65 \<le> code c \<and> code c \<le> 70 then Some (code c - 55) else None)"

fun hex_acc :: "int \<Rightarrow> string \<Rightarrow> int option" where
  "hex_acc n [] = Some n"
| "hex_acc n (c # cs) = (case hex_value c of None \<Rightarrow> None | Some d \<Rightarrow> hex_acc (16 * n + d) cs)"

definition parse_hextet :: "string \<Rightarrow> int option" where
  "parse_hextet s = (if s = [] \<or> 4 < length s then None else hex_acc 0 s)"

function hex_nat :: "int \<Rightarrow> string" where
  "hex_nat n = (if n < 16 then [hex_digit n] else hex_nat (n div 16) @ [hex_digit (n mod 16)])"
  by auto
termination by (relation "measure nat") auto

declare hex_nat.simps [simp del]

text \<open>An IPv4 tail becomes two hextets.\<close>

definition expand_ipv4_tail :: "string list \<Rightarrow> string list option" where
  "expand_ipv4_tail parts =
     (if CHR ''.'' \<in> set (last parts) then
        (case parse_ipv4 (last parts) of None \<Rightarrow> None
         | Some n \<Rightarrow> Some (butlast parts @ [hex_nat (n div 2 ^ 16), hex_nat (n mod 2 ^ 16)]))
      else Some parts)"

fun hextets :: "int \<Rightarrow> string list \<Rightarrow> int option" where
  "hextets n [] = Some n"
| "hextets n (h # hs) = (case parse_hextet h of None \<Rightarrow> None | Some d \<Rightarrow> hextets (n * 2 ^ 16 + d) hs)"

text \<open>The indices of empty parts that are neither first nor last: at most one, the \<open>::\<close>.\<close>

definition skip_indices :: "string list \<Rightarrow> nat list" where
  "skip_indices parts = filter (\<lambda>i. parts ! i = []) [1..<length parts - 1]"

definition parse_ipv6_parts :: "string list \<Rightarrow> int option" where
  "parse_ipv6_parts parts =
     (case skip_indices parts of
        [] \<Rightarrow> if length parts \<noteq> 8 then None else hextets 0 parts
      | [k] \<Rightarrow>
          (let lead = hd parts = []; trail = last parts = [];
               hi = (if lead then k - 1 else k);
               lo = (if trail then length parts - k - 2 else length parts - k - 1)
           in if lead \<and> hi \<noteq> 0 \<or> trail \<and> lo \<noteq> 0 \<or> 8 \<le> hi + lo then None
              else (case hextets 0 (take hi parts) of None \<Rightarrow> None
                    | Some n \<Rightarrow> hextets (n * 2 ^ (16 * (8 - (hi + lo)))) (drop (length parts - lo) parts)))
      | _ \<Rightarrow> None)"

definition parse_ipv6_int :: "string \<Rightarrow> int option" where
  "parse_ipv6_int s =
     (let parts = split_on (CHR '':'') s
      in if length parts < 3 then None
         else (case expand_ipv4_tail parts of None \<Rightarrow> None
               | Some ps \<Rightarrow> if 9 < length ps then None else parse_ipv6_parts ps))"

definition parse_ipv6 :: "string \<Rightarrow> ip_addr option" where
  "parse_ipv6 s =
     (if CHR ''/'' \<in> set s then None
      else (let a = takeWhile (\<lambda>c. c \<noteq> CHR ''%'') s; r = dropWhile (\<lambda>c. c \<noteq> CHR ''%'') s
            in case r of [] \<Rightarrow> map_option (\<lambda>n. V6 n None) (parse_ipv6_int a)
               | _ # scope \<Rightarrow>
                   if scope = [] \<or> CHR ''%'' \<in> set scope then None
                   else map_option (\<lambda>n. V6 n (Some scope)) (parse_ipv6_int a)))"

text \<open>\<open>ip_address(s)\<close>: IPv4 first, then IPv6; None stands for the ValueError.\<close>

definition ip_address :: "string \<Rightarrow> ip_addr option" where
  "ip_address s = (case parse_ipv4 s of Some n \<Rightarrow> Some (V4 n) | None \<Rightarrow> parse_ipv6 s)"

section \<open>Flags\<close>

definition in_net :: "nat \<Rightarrow> int \<times> nat \<Rightarrow> int \<Rightarrow> bool" where
  "in_net w p n = (case p of (net, len) \<Rightarrow> n div 2 ^ (w - len) = net div 2 ^ (w - len))"

definition quad :: "int \<Rightarrow> int \<Rightarrow> int \<Rightarrow> int \<Rightarrow> int" where
  "quad a b c d = a * 2 ^ 24 + b * 2 ^ 16 + c * 2 ^ 8 + d"

text \<open>The first four hextets of an address whose others are zero.\<close>

definition hi64 :: "int \<Rightarrow> int \<Rightarrow> int \<Rightarrow> int \<Rightarrow> int" where
  "hi64 a b c d = (a * 2 ^ 48 + b * 2 ^ 32 + c * 2 ^ 16 + d) * 2 ^ 64"

definition private4 :: "(int \<times> nat) list" where
  "private4 =
     [(quad 0 0 0 0, 8), (quad 10 0 0 0, 8), (quad 127 0 0 0, 8), (quad 169 254 0 0, 16),
      (quad 172 16 0 0, 12), (quad 192 0 0 0, 24), (quad 192 0 0 170, 31), (quad 192 0 2 0, 24),
      (quad 192 168 0 0, 16), (quad 198 18 0 0, 15), (quad 198 51 100 0, 24),
      (quad 203 0 113 0, 24), (quad 240 0 0 0, 4), (quad 255 255 255 255, 32)]"

definition private4_exceptions :: "(int \<times> nat) list" where
  "private4_exceptions = [(quad 192 0 0 9, 32), (quad 192 0 0 10, 32)]"

definition private6 :: "(int \<times> nat) list" where
  "private6 =
     [(1, 128), (0, 128), (65535 * 2 ^ 32, 96), (hi64 0x64 0xff9b 1 0, 48), (hi64 0x100 0 0 0, 64),
      (hi64 0x2001 0 0 0, 23), (hi64 0x2001 0xdb8 0 0, 32), (hi64 0x2002 0 0 0, 16),
      (hi64 0xfc00 0 0 0, 7), (hi64 0xfe80 0 0 0, 10)]"

definition private6_exceptions :: "(int \<times> nat) list" where
  "private6_exceptions =
     [(hi64 0x2001 1 0 0 + 1, 128), (hi64 0x2001 1 0 0 + 2, 128), (hi64 0x2001 3 0 0, 32),
      (hi64 0x2001 4 0x112 0, 48), (hi64 0x2001 0x20 0 0, 28), (hi64 0x2001 0x30 0 0, 28)]"

definition is_private4 :: "int \<Rightarrow> bool" where
  "is_private4 n = (list_ex (\<lambda>p. in_net 32 p n) private4 \<and> \<not> list_ex (\<lambda>p. in_net 32 p n) private4_exceptions)"

definition is_private :: "ip_addr \<Rightarrow> bool" where
  "is_private a =
     (case a of V4 n \<Rightarrow> is_private4 n
      | V6 n s \<Rightarrow>
          if n div 2 ^ 32 = 65535 then is_private4 (n mod 2 ^ 32)
          else list_ex (\<lambda>p. in_net 128 p n) private6 \<and> \<not> list_ex (\<lambda>p. in_net 128 p n) private6_exceptions)"

definition is_loopback :: "ip_addr \<Rightarrow> bool" where
  "is_loopback a = (case a of V4 n \<Rightarrow> in_net 32 (quad 127 0 0 0, 8) n | V6 n s \<Rightarrow> n = 1)"

definition is_link_local :: "ip_addr \<Rightarrow> bool" where
  "is_link_local a =
     (case a of V4 n \<Rightarrow> in_net 32 (quad 169 254 0 0, 16) n | V6 n s \<Rightarrow> in_net 128 (hi64 0xfe80 0 0 0, 10) n)"

section \<open>Printing\<close>

definition str_ipv4 :: "int \<Rightarrow> string" where
  "str_ipv4 n =
     join ''.'' (map str_nat [n div 2 ^ 24 mod 256, n div 2 ^ 16 mod 256, n div 2 ^ 8 mod 256, n mod 256])"

text \<open>The longest run of zero hextets (the first of that length), as start and length: \<open>i\<close> is the
  index, \<open>len\<close> the length of the current run, \<open>b\<close> the best so far.\<close>

fun zero_run :: "nat \<Rightarrow> nat \<Rightarrow> nat \<times> nat \<Rightarrow> string list \<Rightarrow> nat \<times> nat" where
  "zero_run i len b [] = b"
| "zero_run i len b (h # hs) =
     (if h = ''0'' then
        (let l = len + 1 in zero_run (i + 1) l (if snd b < l then (i + 1 - l, l) else b) hs)
      else zero_run (i + 1) 0 b hs)"

definition compress_hextets :: "string list \<Rightarrow> string list" where
  "compress_hextets hs =
     (let (start, len) = zero_run 0 0 (0, 0) hs
      in if len \<le> 1 then hs
         else (if start = 0 then [[]] else []) @ take start hs @ [[]] @ drop (start + len) hs
              @ (if start + len = length hs then [[]] else []))"

definition str_ipv6 :: "int \<Rightarrow> string" where
  "str_ipv6 n =
     join '':'' (compress_hextets (map (\<lambda>i. hex_nat (n div 2 ^ (16 * i) mod 2 ^ 16)) (rev [0..<8])))"

definition str_ip :: "ip_addr \<Rightarrow> string" where
  "str_ip a = (case a of V4 n \<Rightarrow> str_ipv4 n
     | V6 n s \<Rightarrow> str_ipv6 n @ (case s of None \<Rightarrow> [] | Some z \<Rightarrow> ''%'' @ z))"

section \<open>Networks\<close>

definition digits_prefix :: "int \<Rightarrow> string \<Rightarrow> int option" where
  "digits_prefix w s =
     (if s \<noteq> [] \<and> list_all is_digit s \<and> nat_of_digits s \<le> w then Some (nat_of_digits s) else None)"

text \<open>A dotted mask is tried as a netmask (ones, then zeroes), then as a hostmask.\<close>

definition netmask_prefix :: "int \<Rightarrow> int option" where
  "netmask_prefix m = map_option int (List.find (\<lambda>p. m = 2 ^ 32 - 2 ^ (32 - p)) [0..<33])"

definition prefix4 :: "string \<Rightarrow> int option" where
  "prefix4 s =
     (case digits_prefix 32 s of Some p \<Rightarrow> Some p
      | None \<Rightarrow>
          (case parse_ipv4 s of None \<Rightarrow> None
           | Some m \<Rightarrow>
               (case netmask_prefix m of Some p \<Rightarrow> Some p | None \<Rightarrow> netmask_prefix (2 ^ 32 - 1 - m))))"

definition mask_to :: "nat \<Rightarrow> int \<Rightarrow> int \<Rightarrow> int" where
  "mask_to w p n = n div 2 ^ (w - nat p) * 2 ^ (w - nat p)"

definition ip_network :: "string \<Rightarrow> ip_net option" where
  "ip_network s =
     (case split_on (CHR ''/'') s of
        [a] \<Rightarrow>
          (case parse_ipv4 a of Some n \<Rightarrow> Some (Net4 n 32)
           | None \<Rightarrow> (case parse_ipv6 a of Some (V6 n z) \<Rightarrow> Some (Net6 n 128) | _ \<Rightarrow> None))
      | [a, m] \<Rightarrow>
          (case (parse_ipv4 a, prefix4 m) of (Some n, Some p) \<Rightarrow> Some (Net4 (mask_to 32 p n) p)
           | _ \<Rightarrow>
               (case (parse_ipv6 a, digits_prefix 128 m) of
                  (Some (V6 n z), Some p) \<Rightarrow> Some (Net6 (mask_to 128 p n) p)
                | _ \<Rightarrow> None))
      | _ \<Rightarrow> None)"

text \<open>\<open>network.hosts()\<close>: without the network and broadcast addresses, except in the two smallest
  networks; an IPv6 network keeps its last address.\<close>

definition net_hosts :: "ip_net \<Rightarrow> ip_addr list" where
  "net_hosts net =
     (case net of
        Net4 n p \<Rightarrow>
          if p = 32 then [V4 n] else if p = 31 then [V4 n, V4 (n + 1)]
          else map V4 [n + 1..n + 2 ^ nat (32 - p) - 2]
      | Net6 n p \<Rightarrow>
          if p = 128 then [V6 n None] else if p = 127 then [V6 n None, V6 (n + 1) None]
          else map (\<lambda>k. V6 k None) [n + 1..n + 2 ^ nat (128 - p) - 1])"

section \<open>Facts\<close>

lemma nat_of_digits_nonneg: "list_all is_digit s \<Longrightarrow> 0 \<le> nat_of_digits s"
  by (induction s rule: rev_induct) (auto simp: is_digit_def)

lemma parse_octet_range: "parse_octet s = Some n \<Longrightarrow> 0 \<le> n \<and> n \<le> 255"
  by (auto simp: parse_octet_def nat_of_digits_nonneg split: if_splits)

lemma parse_ipv4_range:
  assumes "parse_ipv4 s = Some n"
  shows "0 \<le> n \<and> n < 2 ^ 32"
proof -
  from assms obtain xs where "map parse_octet (split_on (CHR ''.'') s) = xs" by blast
  with assms obtain a b c d where o: "map parse_octet (split_on (CHR ''.'') s) = [Some a, Some b, Some c, Some d]"
    and n: "n = a * 2 ^ 24 + b * 2 ^ 16 + c * 2 ^ 8 + d"
    by (auto simp: parse_ipv4_def split: list.splits option.splits)
  from o have "0 \<le> a \<and> a \<le> 255" "0 \<le> b \<and> b \<le> 255" "0 \<le> c \<and> c \<le> 255" "0 \<le> d \<and> d \<le> 255"
    by (auto simp: map_eq_Cons_conv dest!: parse_octet_range)
  then show ?thesis by (simp add: n)
qed

lemma str_nat_no_dot: "0 \<le> n \<Longrightarrow> CHR ''.'' \<notin> set (str_nat n)"
  using str_nat_digits [of n] by (auto simp: is_digit_def code_def)

lemma str_nat_length_octet: "0 \<le> n \<Longrightarrow> n < 1000 \<Longrightarrow> length (str_nat n) \<le> 3"
  by (subst str_nat.simps, simp, subst str_nat.simps, simp, subst str_nat.simps, simp)

lemma str_nat_hd: "0 < n \<Longrightarrow> hd (str_nat n) \<noteq> CHR ''0''"
proof (induction n rule: str_nat.induct)
  case (1 n)
  show ?case
  proof (cases "n < 10")
    case True
    then have "code (digit_char n) \<noteq> 48" using 1(2) by simp
    then have "digit_char n \<noteq> CHR ''0''" by (auto simp: code_def)
    then show ?thesis using True by (subst str_nat.simps) auto
  next
    case False
    then have "str_nat (n div 10) \<noteq> []" using str_nat_digits [of "n div 10"] by simp
    then show ?thesis using 1 False by (subst str_nat.simps) simp
  qed
qed

lemma parse_octet_str_nat: 
  assumes "0 \<le> n" and "n \<le> 255"
  shows "parse_octet (str_nat n) = Some n"
proof (cases "n = 0")
  case True
  then show ?thesis by (simp add: parse_octet_def str_nat.simps digit_char_def is_digit_def code_def nat_of_digits_def)
next
  case False
  with assms show ?thesis
    using str_nat_digits [of n] str_nat_hd [of n] str_nat_length_octet [of n]
    by (simp add: parse_octet_def list_all_iff)
qed

lemma split_on_append: "c \<notin> set a \<Longrightarrow> split_on c (a @ [c] @ b) = a # split_on c b"
  by (induction a) auto

lemma split_on_no: "c \<notin> set a \<Longrightarrow> split_on c a = [a]"
  by (induction a) auto

lemma quad_digits:
  fixes n :: int
  assumes "0 \<le> n" and "n < 2 ^ 32"
  shows "n div 2 ^ 24 mod 256 * 2 ^ 24 + n div 2 ^ 16 mod 256 * 2 ^ 16 + n div 2 ^ 8 mod 256 * 2 ^ 8 + n mod 256 = n"
proof -
  define p q r where "p = n div 256" and "q = p div 256" and "r = q div 256"
  have divs: "n div 2 ^ 24 = r" "n div 2 ^ 16 = q" "n div 2 ^ 8 = p"
    by (simp_all add: p_def q_def r_def zdiv_zmult2_eq [symmetric])
  have "r < 256" and "0 \<le> r" using assms by (simp_all add: p_def q_def r_def zdiv_zmult2_eq [symmetric])
  then have "r mod 256 = r" by simp
  moreover have "n = p * 256 + n mod 256" and "p = q * 256 + p mod 256" and "q = r * 256 + q mod 256"
    unfolding p_def q_def r_def by (simp_all only: div_mult_mod_eq)
  moreover have "r * 2 ^ 24 + c * 2 ^ 16 + b * 2 ^ 8 + a = n"
    if "n = p * 256 + a" "p = q * 256 + b" "q = r * 256 + c" for a b c
    using that by simp
  ultimately show ?thesis unfolding divs by simp
qed

theorem ipv4_roundtrip:
  assumes "0 \<le> n" and "n < 2 ^ 32"
  shows "parse_ipv4 (str_ipv4 n) = Some n"
proof -
  let ?a = "n div 2 ^ 24 mod 256" and ?b = "n div 2 ^ 16 mod 256"
  let ?c = "n div 2 ^ 8 mod 256" and ?d = "n mod 256"
  have r: "0 \<le> x mod 256 \<and> x mod 256 \<le> 255" for x :: int
    using pos_mod_bound [of 256 x] by simp
  have split: "split_on (CHR ''.'') (str_ipv4 n) = map str_nat [?a, ?b, ?c, ?d]"
    using split_on_append [of "CHR ''.''" "str_nat ?a"] split_on_append [of "CHR ''.''" "str_nat ?b"]
      split_on_append [of "CHR ''.''" "str_nat ?c"] split_on_no [of "CHR ''.''" "str_nat ?d"]
    by (simp add: str_ipv4_def str_nat_no_dot)
  have "map parse_octet (map str_nat [?a, ?b, ?c, ?d]) = map Some [?a, ?b, ?c, ?d]"
    by (simp only: list.map parse_octet_str_nat r)
  then show ?thesis
    unfolding parse_ipv4_def split by (simp only: list.map list.case option.case quad_digits [OF assms])
qed

end
