(* ===== verification/Grading.thy ===== *)
theory Grading
  imports Prelude
begin

text \<open>
  The contract of a grading: a score is compared with descending thresholds and gets the grade of
  the first one it reaches, or the lowest grade.  Most ratings of the backend are such chains of
  \<open>if score >= t: return g\<close>.  The locale \<open>ladder\<close> states it once; its lemmas give what the callers
  rely on: a higher score never gets a lower grade, a threshold is reached exactly when its grade
  is, the grade of the worst of two scores is the worst of their grades.  Each theory that
  translates such a function interprets the locale on it.
\<close>

fun climb :: "('s::linorder \<times> 'g) list \<Rightarrow> 'g \<Rightarrow> 's \<Rightarrow> 'g" where
  "climb [] bottom s = bottom"
| "climb ((b, g) # steps) bottom s = (if b \<le> s then g else climb steps bottom s)"

fun descending :: "('s::linorder \<times> 'g::linorder) list \<Rightarrow> 'g \<Rightarrow> bool" where
  "descending [] bottom = True"
| "descending ((b, g) # steps) bottom =
     (bottom < g \<and> list_all (\<lambda>(c, h). c < b \<and> h < g) steps \<and> descending steps bottom)"

lemma climb_bottom: "descending steps bottom \<Longrightarrow> bottom \<le> climb steps bottom s"
  by (induction steps bottom s rule: climb.induct) auto

lemma climb_below:
  "descending ((b, g) # steps) bottom \<Longrightarrow> climb steps bottom s < g"
  by (induction steps bottom s rule: climb.induct) auto

lemma climb_mono: "descending steps bottom \<Longrightarrow> s \<le> t \<Longrightarrow> climb steps bottom s \<le> climb steps bottom t"
proof (induction steps bottom s rule: climb.induct)
  case (2 b g steps bottom s)
  then show ?case using climb_below [of b g steps bottom s] by (auto simp: less_imp_le)
qed simp

lemma climb_reach:
  "descending steps bottom \<Longrightarrow> (b, g) \<in> set steps \<Longrightarrow> b \<le> s \<longleftrightarrow> g \<le> climb steps bottom s"
proof (induction steps bottom s rule: climb.induct)
  case (2 c h steps bottom s)
  show ?case
  proof (cases "(b, g) = (c, h)")
    case True
    then show ?thesis using climb_below [OF 2(2), of s] by auto
  next
    case False
    then have m: "(b, g) \<in> set steps" using 2(3) by auto
    then have "b < c" and "g < h" using 2(2) by (auto simp: list_all_iff)
    then show ?thesis using 2 m by auto
  qed
qed simp

locale ladder =
  fixes grade :: "'s::linorder \<Rightarrow> 'g::linorder" and steps :: "('s \<times> 'g) list" and bottom :: 'g
  assumes climbs: "grade s = climb steps bottom s"
    and ordered: "descending steps bottom"
begin

lemma mono: "s \<le> t \<Longrightarrow> grade s \<le> grade t"
  by (simp add: climbs climb_mono ordered)

lemma at_least_bottom: "bottom \<le> grade s"
  by (simp add: climbs climb_bottom ordered)

lemma reaches: "(b, g) \<in> set steps \<Longrightarrow> g \<le> grade s \<longleftrightarrow> b \<le> s"
  using climb_reach [OF ordered, of b g s] by (simp add: climbs)

lemma worst_of_two: "grade (max s t) = max (grade s) (grade t)"
  using mono [of s t] mono [of t s] by (auto simp: max_def)

lemma exceeds: "grade s < grade t \<Longrightarrow> s < t"
  using mono [of t s] by (meson leD not_le)

end

end
