(* ===== verification/Risk_Engine.thy ===== *)
theory Risk_Engine
  imports Ip_Address Grading
begin

text \<open>
  \<open>risk_engine/engine.py\<close>: the quantum risk score of one asset.  Five factors between 0 and 1 are
  read from the algorithm's name and the asset's context (algorithm, data, exposure, lifespan,
  criticality); each is moved away from or towards 0.5 by its weight; the score is the weighted
  algorithm factor times the mean of the other four, on a scale of 100.

  The functions keep the source's names and order.  A context is the dict of the caller (any
  value may sit in it); an optional string is \<open>string option\<close>; exceptions are the left values.
  The lemmas show the ranges, the monotonicity and the errors of each function, and the
  distance between the score and the exact formula of the risk model's document.
\<close>

section \<open>Constants\<close>

definition ENGINE_VERSION :: string where
  "ENGINE_VERSION = ''risk-engine-v1''"

definition DEFAULT_WEIGHTS :: "pyval dict" where
  "DEFAULT_WEIGHTS =
     [(''wA'', PFloat (Fin 1)), (''wD'', PFloat (Fin 1)), (''wE'', PFloat (Fin 1)),
      (''wL'', PFloat (Fin 1)), (''wC'', PFloat (Fin 1))]"

definition SENSITIVITY_FACTORS :: "pyfloat dict" where
  "SENSITIVITY_FACTORS =
     [(''critical'', fl 1), (''high'', fl (8/10)), (''medium'', fl (5/10)), (''low'', fl (2/10))]"

definition EXPOSURE_FACTORS :: "pyfloat dict" where
  "EXPOSURE_FACTORS =
     [(''public_internet'', fl 1), (''dmz'', fl (7/10)), (''internal_network'', fl (4/10)),
      (''air_gapped'', fl (1/10))]"

definition CRITICALITY_FACTORS :: "pyfloat dict" where
  "CRITICALITY_FACTORS =
     [(''critical'', fl 1), (''high'', fl (75/100)), (''medium'', fl (5/10)), (''low'', fl (25/100))]"

definition ROLE_SENSITIVITY_FACTORS :: "pyfloat dict" where
  "ROLE_SENSITIVITY_FACTORS =
     [(''auth'', fl (9/10)), (''pki'', fl (9/10)), (''kms'', fl (9/10)), (''database'', fl (8/10)),
      (''db'', fl (8/10)), (''postgres'', fl (8/10)), (''postgresql'', fl (8/10)),
      (''mysql'', fl (8/10)), (''mail'', fl (6/10)), (''smtp'', fl (6/10)), (''imap'', fl (6/10)),
      (''pop3'', fl (6/10))]"

definition ROLE_CRITICALITY_FACTORS :: "pyfloat dict" where
  "ROLE_CRITICALITY_FACTORS =
     [(''auth'', fl 1), (''pki'', fl 1), (''kms'', fl 1), (''payment'', fl 1),
      (''database'', fl (8/10)), (''db'', fl (8/10)), (''postgres'', fl (8/10)),
      (''postgresql'', fl (8/10)), (''mysql'', fl (8/10)), (''mail'', fl (6/10)),
      (''vpn'', fl (6/10)), (''messaging'', fl (6/10)), (''web-frontend'', fl (7/10)),
      (''api-gateway'', fl (7/10))]"

definition PROTOCOL_SENSITIVITY_FACTORS :: "pyfloat dict" where
  "PROTOCOL_SENSITIVITY_FACTORS = [(''SMTP'', fl (6/10)), (''IMAP'', fl (6/10)), (''POP3'', fl (6/10))]"

section \<open>Data\<close>

datatype tier = LOW | MEDIUM | HIGH | CRITICAL

fun tier_str :: "tier \<Rightarrow> string" where
  "tier_str LOW = ''LOW''"
| "tier_str MEDIUM = ''MEDIUM''"
| "tier_str HIGH = ''HIGH''"
| "tier_str CRITICAL = ''CRITICAL''"

text \<open>Tiers are ordered by severity.\<close>

fun tier_rank :: "tier \<Rightarrow> int" where
  "tier_rank LOW = 0"
| "tier_rank MEDIUM = 1"
| "tier_rank HIGH = 2"
| "tier_rank CRITICAL = 3"

lemma tier_rank_inject [simp]: "tier_rank a = tier_rank b \<longleftrightarrow> a = b"
  by (cases a; cases b) simp_all

instantiation tier :: linorder
begin

definition less_eq_tier :: "tier \<Rightarrow> tier \<Rightarrow> bool" where
  "less_eq_tier a b = (tier_rank a \<le> tier_rank b)"

definition less_tier :: "tier \<Rightarrow> tier \<Rightarrow> bool" where
  "less_tier a b = (tier_rank a < tier_rank b)"

instance
  by (intro_classes; auto simp: less_eq_tier_def less_tier_def)

end

text \<open>The dict of factors with its keys a, d, e, l, c, and the dict of weights.\<close>

record factors =
  f_a :: pyfloat
  f_d :: pyfloat
  f_e :: pyfloat
  f_l :: pyfloat
  f_c :: pyfloat

record weights =
  wA :: pyfloat
  wD :: pyfloat
  wE :: pyfloat
  wL :: pyfloat
  wC :: pyfloat

record sources =
  s_a :: string
  s_d :: string
  s_e :: string
  s_l :: string
  s_c :: string

record risk_result =
  rr_score :: int
  rr_tier :: tier
  rr_factors :: factors
  rr_weighted_factors :: factors
  rr_sources :: sources
  rr_raw :: pyfloat
  rr_weighted_raw :: pyfloat
  rr_weights :: weights
  rr_engine_version :: string

section \<open>Operations\<close>

text \<open>\<open>round\<close> of an int is that int; the score is always one.\<close>

definition tier_for_score :: "int \<Rightarrow> tier" where
  "tier_for_score score =
     (if 80 \<le> score then CRITICAL else if 60 \<le> score then HIGH
      else if 30 \<le> score then MEDIUM else LOW)"

definition normalize_weight :: "string \<Rightarrow> pyval dict \<Rightarrow> py_error + pyfloat" where
  "normalize_weight key source =
     rbind (py_float (pget source key)) (\<lambda>v.
       if flt v (Fin (1/2)) \<or> flt (Fin 2) v
       then Inl (ValueError (key @ '' must be between 0.5 and 2.0''))
       else Inr v)"

definition normalize_weights :: "pyval dict option \<Rightarrow> py_error + weights" where
  "normalize_weights w =
     (let source = dmerge DEFAULT_WEIGHTS (case w of None \<Rightarrow> [] | Some d \<Rightarrow> d)
      in rbind (normalize_weight ''wA'' source) (\<lambda>a.
         rbind (normalize_weight ''wD'' source) (\<lambda>d.
         rbind (normalize_weight ''wE'' source) (\<lambda>e.
         rbind (normalize_weight ''wL'' source) (\<lambda>l.
         rbind (normalize_weight ''wC'' source) (\<lambda>c.
         Inr \<lparr>wA = a, wD = d, wE = e, wL = l, wC = c\<rparr>))))))"

definition average_context_factor :: "factors \<Rightarrow> pyfloat" where
  "average_context_factor f = fdiv_by (fadd (fadd (fadd (f_d f) (f_e f)) (f_l f)) (f_c f)) 4"

definition apply_factor_weight :: "pyfloat \<Rightarrow> pyfloat \<Rightarrow> pyfloat" where
  "apply_factor_weight v w =
     (if fle v (Fin 0) then Fin 0
      else if fle (Fin 1) v then Fin 1
      else (let weighted = fadd (Fin (1/2)) (fmul (fsub v (Fin (1/2))) w)
            in fmax (Fin 0) (fmin (Fin 1) weighted)))"

definition normalize_algorithm_text :: "string option \<Rightarrow> string" where
  "normalize_algorithm_text v = upper (strip (case v of None \<Rightarrow> [] | Some s \<Rightarrow> s))"

definition normalized_context_value :: "pyval \<Rightarrow> string" where
  "normalized_context_value v = lower (strip (py_str (py_or v (PStr []))))"

definition sized_factor :: "string \<Rightarrow> pyfloat \<Rightarrow> (int \<times> pyfloat) list \<Rightarrow> pyfloat" where
  "sized_factor name dflt thresholds =
     (case List.find (\<lambda>(sz, factor). contains name (str_int sz)) thresholds of
        Some (sz, factor) \<Rightarrow> factor | None \<Rightarrow> dflt)"

definition size_thresholds :: "(int \<times> pyfloat) list" where
  "size_thresholds = [(1024, fl 1), (2048, fl (95/100)), (3072, fl (9/10)), (4096, fl (85/100))]"

definition algorithm_factor :: "string option \<Rightarrow> string option \<Rightarrow> string option \<Rightarrow> pyfloat" where
  "algorithm_factor algorithm algorithm_family asset_type =
     (let name = normalize_algorithm_text algorithm;
          family = normalize_algorithm_text algorithm_family;
          combined = strip (family @ '' '' @ name);
          has = contains combined
      in if combined = [] then fl (5/10)
         else if has ''ML-KEM'' \<or> has ''ML-DSA'' \<or> has ''SLH-DSA'' \<or> has ''FALCON'' \<or> has ''FN-DSA''
           then (if has ''+'' \<or> has ''HYBRID'' then fl (1/10) else fl 0)
         else if has ''HYBRID'' then fl (1/10)
         else if has ''RSA'' then sized_factor name (fl (95/100)) size_thresholds
         else if has ''DSA'' \<and> \<not> has ''ECDSA'' then sized_factor name (fl (95/100)) size_thresholds
         else if has ''ECDSA'' \<or> has ''ECDH'' then
           (if has ''P-256'' \<or> has ''SECP256'' then fl (95/100)
            else if has ''P-384'' \<or> has ''SECP384'' then fl (9/10)
            else if has ''P-521'' \<or> has ''SECP521'' then fl (85/100)
            else fl (9/10))
         else if has ''X25519'' \<or> has ''X448'' \<or> has ''ED25519'' \<or> has ''ED448'' then fl (9/10)
         else if has ''DH'' \<or> has ''MODP'' then sized_factor name (fl (95/100)) size_thresholds
         else if has ''SHA-1'' \<or> has ''SHA1'' then
           (if has ''SIGN'' \<or> asset_type \<in> {Some ''certificate'', Some ''signature''}
            then fl 1 else fl (5/10))
         else if has ''SHA-256'' \<or> has ''SHA-384'' \<or> has ''SHA-512'' \<or> has ''SHA2'' then fl (5/100)
         else if has ''AES-128'' then fl (1/10)
         else if has ''AES-192'' \<or> has ''AES-256'' then fl (5/100)
         else if has ''CHACHA20'' \<or> has ''HMAC'' then fl (5/100)
         else fl (5/10))"

definition data_factor :: "pyval dict \<Rightarrow> string option \<Rightarrow> pyfloat" where
  "data_factor context protocol_hint =
     (let explicit = normalized_context_value (pget context ''sensitivity'');
          role = normalized_context_value (pget context ''service_role'');
          protocol = upper (case protocol_hint of None \<Rightarrow> [] | Some p \<Rightarrow> p)
      in case map_of SENSITIVITY_FACTORS explicit of Some f \<Rightarrow> f
         | None \<Rightarrow>
             (case map_of ROLE_SENSITIVITY_FACTORS role of Some f \<Rightarrow> f
              | None \<Rightarrow> dget_or PROTOCOL_SENSITIVITY_FACTORS protocol (fl (5/10))))"

definition exposure_factor :: "pyval dict \<Rightarrow> string option \<Rightarrow> pyfloat" where
  "exposure_factor context target_ip =
     (case map_of EXPOSURE_FACTORS (normalized_context_value (pget context ''exposure'')) of
        Some f \<Rightarrow> f
      | None \<Rightarrow>
          (case target_ip of None \<Rightarrow> fl (5/10)
           | Some ip \<Rightarrow>
               if ip = [] then fl (5/10)
               else (case ip_address ip of None \<Rightarrow> fl (5/10)
                     | Some parsed \<Rightarrow>
                         if is_private parsed \<or> is_loopback parsed \<or> is_link_local parsed
                         then fl (4/10) else fl 1)))"

definition lifespan_of_years :: "pyfloat \<Rightarrow> pyfloat" where
  "lifespan_of_years years =
     (if fle (Fin 25) years then fl 1
      else if fle (Fin 15) years then fl (85/100)
      else if fle (Fin 10) years then fl (7/10)
      else if fle (Fin 5) years then fl (5/10)
      else if fle (Fin 1) years then fl (3/10)
      else fl (1/10))"

definition lifespan_factor :: "pyval dict \<Rightarrow> py_error + pyfloat" where
  "lifespan_factor context =
     (case pget context ''lifespan_years'' of PNone \<Rightarrow> Inr (fl (5/10))
      | v \<Rightarrow> rmap lifespan_of_years (py_float v))"

definition criticality_factor :: "pyval dict \<Rightarrow> pyfloat" where
  "criticality_factor context =
     (case map_of CRITICALITY_FACTORS (normalized_context_value (pget context ''criticality'')) of
        Some f \<Rightarrow> f
      | None \<Rightarrow> dget_or ROLE_CRITICALITY_FACTORS
                 (normalized_context_value (pget context ''service_role'')) (fl (5/10)))"

definition apply_weights :: "factors \<Rightarrow> weights \<Rightarrow> factors" where
  "apply_weights f w =
     \<lparr>f_a = apply_factor_weight (f_a f) (wA w), f_d = apply_factor_weight (f_d f) (wD w),
      f_e = apply_factor_weight (f_e f) (wE w), f_l = apply_factor_weight (f_l f) (wL w),
      f_c = apply_factor_weight (f_c f) (wC w)\<rparr>"

definition raw_of :: "factors \<Rightarrow> pyfloat" where
  "raw_of f = fmul (f_a f) (average_context_factor f)"

definition score_of_raw :: "pyfloat \<Rightarrow> py_error + int" where
  "score_of_raw raw = rmap (\<lambda>n. max 0 (min 100 n)) (fround_int (fmul raw (Fin 100)))"

definition compute_risk ::
  "string option \<Rightarrow> string option \<Rightarrow> string option \<Rightarrow> pyval dict option \<Rightarrow> pyval dict option
   \<Rightarrow> string option \<Rightarrow> string option \<Rightarrow> string dict option \<Rightarrow> py_error + risk_result" where
  "compute_risk algorithm algorithm_family asset_type context weights target_ip protocol_hint context_sources =
     (let ctx = (case context of None \<Rightarrow> [] | Some c \<Rightarrow> c);
          src = (case context_sources of None \<Rightarrow> [] | Some s \<Rightarrow> s)
      in rbind (normalize_weights weights) (\<lambda>resolved_weights.
         rbind (lifespan_factor ctx) (\<lambda>lifespan.
           let factors = \<lparr>f_a = algorithm_factor algorithm algorithm_family asset_type,
                          f_d = data_factor ctx protocol_hint,
                          f_e = exposure_factor ctx target_ip,
                          f_l = lifespan,
                          f_c = criticality_factor ctx\<rparr>;
               sources = \<lparr>s_a = ''algorithm_table'',
                          s_d = dget_or src ''sensitivity'' ''heuristic'',
                          s_e = dget_or src ''exposure'' ''heuristic'',
                          s_l = dget_or src ''lifespan_years'' ''heuristic'',
                          s_c = dget_or src ''criticality'' ''heuristic''\<rparr>;
               weighted_factors = apply_weights factors resolved_weights;
               weighted_raw = raw_of weighted_factors
           in rbind (score_of_raw weighted_raw) (\<lambda>score.
                Inr \<lparr>rr_score = score, rr_tier = tier_for_score score, rr_factors = factors,
                     rr_weighted_factors = weighted_factors, rr_sources = sources,
                     rr_raw = raw_of factors, rr_weighted_raw = weighted_raw,
                     rr_weights = resolved_weights, rr_engine_version = ENGINE_VERSION\<rparr>))))"

section \<open>Gradings\<close>

interpretation tiers: ladder tier_for_score "[(80, CRITICAL), (60, HIGH), (30, MEDIUM)]" LOW
  by unfold_locales (auto simp: tier_for_score_def less_tier_def)

lemma lifespan_steps:
  "descending [(25, rnd 1), (15, rnd (85/100)), (10, rnd (7/10)), (5, rnd (5/10)), (1 :: rat, rnd (3/10))]
     (rnd (1/10))"
  by code_simp

interpretation lifespans: ladder "\<lambda>years. fval (lifespan_of_years (Fin years))"
    "[(25, rnd 1), (15, rnd (85/100)), (10, rnd (7/10)), (5, rnd (5/10)), (1, rnd (3/10))]" "rnd (1/10)"
  by unfold_locales (auto simp: lifespan_of_years_def fl_small lifespan_steps [simplified])

section \<open>Ranges\<close>

definition unit_table :: "pyfloat dict \<Rightarrow> bool" where
  "unit_table d = list_all (\<lambda>p. in_range 0 1 (snd p)) d"

lemma unit_table_lookup: "unit_table d \<Longrightarrow> map_of d k = Some v \<Longrightarrow> in_range 0 1 v"
  by (fastforce simp: unit_table_def list_all_iff dest: map_of_SomeD)

lemma unit_tables:
  "unit_table SENSITIVITY_FACTORS" "unit_table EXPOSURE_FACTORS" "unit_table CRITICALITY_FACTORS"
  "unit_table ROLE_SENSITIVITY_FACTORS" "unit_table ROLE_CRITICALITY_FACTORS"
  "unit_table PROTOCOL_SENSITIVITY_FACTORS"
  by (simp_all add: unit_table_def SENSITIVITY_FACTORS_def EXPOSURE_FACTORS_def CRITICALITY_FACTORS_def
      ROLE_SENSITIVITY_FACTORS_def ROLE_CRITICALITY_FACTORS_def PROTOCOL_SENSITIVITY_FACTORS_def fl_unit)

lemma dget_or_unit: "unit_table d \<Longrightarrow> in_range 0 1 v \<Longrightarrow> in_range 0 1 (dget_or d k v)"
  by (auto simp: dget_or_def unit_table_lookup split: option.splits)

lemma sized_factor_unit:
  assumes "in_range 0 1 d" and "list_all (\<lambda>p. in_range 0 1 (snd p)) ts"
  shows "in_range 0 1 (sized_factor name d ts)"
  using assms by (auto simp: sized_factor_def list_all_iff split: option.splits dest!: find_Some_iff_in)

lemma algorithm_factor_unit: "in_range 0 1 (algorithm_factor alg fam ty)"
proof -
  have "in_range 0 1 (sized_factor n (fl (95/100)) size_thresholds)" for n
    by (rule sized_factor_unit) (simp_all add: size_thresholds_def fl_unit)
  then show ?thesis by (simp add: algorithm_factor_def Let_def fl_unit)
qed

lemma data_factor_unit: "in_range 0 1 (data_factor ctx hint)"
  by (auto simp: data_factor_def Let_def fl_unit dget_or_unit unit_tables
      unit_table_lookup [OF unit_tables(1)] unit_table_lookup [OF unit_tables(4)] split: option.splits)

lemma exposure_factor_unit: "in_range 0 1 (exposure_factor ctx ip)"
  by (auto simp: exposure_factor_def fl_unit unit_table_lookup [OF unit_tables(2)] split: option.splits)

lemma criticality_factor_unit: "in_range 0 1 (criticality_factor ctx)"
  by (auto simp: criticality_factor_def fl_unit dget_or_unit unit_tables
      unit_table_lookup [OF unit_tables(3)] split: option.splits)

lemma lifespan_factor_unit: "lifespan_factor ctx = Inr l \<Longrightarrow> in_range 0 1 l"
  by (auto simp: lifespan_factor_def lifespan_of_years_def res_simps fl_unit split: pyval.splits if_splits)

definition unit_factors :: "factors \<Rightarrow> bool" where
  "unit_factors f = (in_range 0 1 (f_a f) \<and> in_range 0 1 (f_d f) \<and> in_range 0 1 (f_e f)
     \<and> in_range 0 1 (f_l f) \<and> in_range 0 1 (f_c f))"

lemma apply_factor_weight_unit: "in_range 0 1 (apply_factor_weight v w)"
  using fclamp_range [of 0 1] by (simp add: apply_factor_weight_def Let_def fclamp_def)

lemma apply_weights_unit: "unit_factors (apply_weights f w)"
  by (simp add: unit_factors_def apply_weights_def apply_factor_weight_unit)

text \<open>The mean and the product on rationals.\<close>

definition mean4 :: "rat \<Rightarrow> rat \<Rightarrow> rat \<Rightarrow> rat \<Rightarrow> rat" where
  "mean4 d e l c = rnd (rnd (rnd (rnd (d + e) + l) + c) / 4)"

lemma sum4_bounds:
  assumes "0 \<le> d" "d \<le> 1" "0 \<le> e" "e \<le> 1" "0 \<le> l" "l \<le> 1" "0 \<le> c" "c \<le> 1"
  shows "fadd (fadd (fadd (Fin d) (Fin e)) (Fin l)) (Fin c) = Fin (rnd (rnd (rnd (d + e) + l) + c))"
    and "0 \<le> rnd (d + e)" "rnd (d + e) \<le> 2"
    and "0 \<le> rnd (rnd (d + e) + l)" "rnd (rnd (d + e) + l) \<le> 3"
    and "0 \<le> rnd (rnd (rnd (d + e) + l) + c)" "rnd (rnd (rnd (d + e) + l) + c) \<le> 4"
proof -
  have 1: "fl (d + e) = Fin (rnd (d + e))" "0 \<le> rnd (d + e)" "rnd (d + e) \<le> 2"
    using fl_range [of 0 "d + e" 2] assms by simp_all
  have 2: "fl (rnd (d + e) + l) = Fin (rnd (rnd (d + e) + l))"
      "0 \<le> rnd (rnd (d + e) + l)" "rnd (rnd (d + e) + l) \<le> 3"
    using fl_range [of 0 "rnd (d + e) + l" 3] assms 1 by simp_all
  have 3: "fl (rnd (rnd (d + e) + l) + c) = Fin (rnd (rnd (rnd (d + e) + l) + c))"
      "0 \<le> rnd (rnd (rnd (d + e) + l) + c)" "rnd (rnd (rnd (d + e) + l) + c) \<le> 4"
    using fl_range [of 0 "rnd (rnd (d + e) + l) + c" 4] assms 2 by simp_all
  show "fadd (fadd (fadd (Fin d) (Fin e)) (Fin l)) (Fin c) = Fin (rnd (rnd (rnd (d + e) + l) + c))"
    by (simp add: 1 2 3)
  show "0 \<le> rnd (d + e)" "rnd (d + e) \<le> 2"
    and "0 \<le> rnd (rnd (d + e) + l)" "rnd (rnd (d + e) + l) \<le> 3"
    and "0 \<le> rnd (rnd (rnd (d + e) + l) + c)" "rnd (rnd (rnd (d + e) + l) + c) \<le> 4"
    using 1 2 3 by simp_all
qed

lemma mean4_unit:
  assumes "0 \<le> d" "d \<le> 1" "0 \<le> e" "e \<le> 1" "0 \<le> l" "l \<le> 1" "0 \<le> c" "c \<le> 1"
  shows "0 \<le> mean4 d e l c" and "mean4 d e l c \<le> 1"
    and "fdiv_by (fadd (fadd (fadd (Fin d) (Fin e)) (Fin l)) (Fin c)) 4 = Fin (mean4 d e l c)"
  using fl_range [of 0 "rnd (rnd (rnd (d + e) + l) + c) / 4" 1] sum4_bounds [OF assms]
  by (simp_all add: mean4_def)

lemma unit_factors_cases:
  assumes "unit_factors f"
  obtains a d e l c where "f = \<lparr>f_a = Fin a, f_d = Fin d, f_e = Fin e, f_l = Fin l, f_c = Fin c\<rparr>"
    "0 \<le> a" "a \<le> 1" "0 \<le> d" "d \<le> 1" "0 \<le> e" "e \<le> 1" "0 \<le> l" "l \<le> 1" "0 \<le> c" "c \<le> 1"
  using assms by (cases f) (auto simp: unit_factors_def elim!: in_range_obtain)

lemma raw_of_Fin:
  assumes "0 \<le> a" "a \<le> 1" "0 \<le> d" "d \<le> 1" "0 \<le> e" "e \<le> 1" "0 \<le> l" "l \<le> 1" "0 \<le> c" "c \<le> 1"
  shows "raw_of \<lparr>f_a = Fin a, f_d = Fin d, f_e = Fin e, f_l = Fin l, f_c = Fin c\<rparr> = Fin (rnd (a * mean4 d e l c))"
    and "0 \<le> rnd (a * mean4 d e l c)" and "rnd (a * mean4 d e l c) \<le> 1"
proof -
  note m = mean4_unit [OF assms(3-10)]
  have "0 \<le> a * mean4 d e l c" "a * mean4 d e l c \<le> 1"
    using assms(1,2) m by (simp_all add: mult_le_one)
  from fl_range [of 0 "a * mean4 d e l c" 1] this
  show "raw_of \<lparr>f_a = Fin a, f_d = Fin d, f_e = Fin e, f_l = Fin l, f_c = Fin c\<rparr> = Fin (rnd (a * mean4 d e l c))"
    and "0 \<le> rnd (a * mean4 d e l c)" and "rnd (a * mean4 d e l c) \<le> 1"
    using m(3) by (simp_all add: raw_of_def average_context_factor_def)
qed

lemma score_of_raw_Fin:
  assumes "0 \<le> x" "x \<le> 1"
  shows "score_of_raw (Fin x) = Inr (rhe (rnd (x * 100)))"
    and "0 \<le> rhe (rnd (x * 100))" and "rhe (rnd (x * 100)) \<le> 100"
proof -
  have r: "fl (x * 100) = Fin (rnd (x * 100))" "0 \<le> rnd (x * 100)" "rnd (x * 100) \<le> 100"
    using fl_range [of 0 "x * 100" 100] assms by simp_all
  show b: "0 \<le> rhe (rnd (x * 100))" using r by (simp add: rhe_0_le)
  have "rhe (rnd (x * 100)) \<le> rhe (of_int 100)" using r by (intro rhe_mono) simp
  then show c: "rhe (rnd (x * 100)) \<le> 100" by (simp only: rhe_of_int)
  show "score_of_raw (Fin x) = Inr (rhe (rnd (x * 100)))"
    using b c by (simp add: score_of_raw_def r(1))
qed

lemma raw_of_unit: "unit_factors f \<Longrightarrow> in_range 0 1 (raw_of f)"
  by (erule unit_factors_cases) (simp add: raw_of_Fin)

lemma score_of_raw_unit:
  assumes "in_range 0 1 x"
  obtains n where "score_of_raw x = Inr n" "0 \<le> n" "n \<le> 100"
  using assms score_of_raw_Fin by (metis in_range_obtain)

section \<open>The score\<close>

lemma compute_risk_result:
  assumes "normalize_weights w = Inr rw"
    and "lifespan_factor (case ctx of None \<Rightarrow> [] | Some c \<Rightarrow> c) = Inr l"
  obtains r where "compute_risk alg fam ty ctx w ip hint src = Inr r"
    and "rr_factors r = \<lparr>f_a = algorithm_factor alg fam ty,
           f_d = data_factor (case ctx of None \<Rightarrow> [] | Some c \<Rightarrow> c) hint,
           f_e = exposure_factor (case ctx of None \<Rightarrow> [] | Some c \<Rightarrow> c) ip,
           f_l = l, f_c = criticality_factor (case ctx of None \<Rightarrow> [] | Some c \<Rightarrow> c)\<rparr>"
    and "rr_weighted_factors r = apply_weights (rr_factors r) rw"
    and "rr_weighted_raw r = raw_of (rr_weighted_factors r)"
    and "score_of_raw (rr_weighted_raw r) = Inr (rr_score r)"
    and "rr_tier r = tier_for_score (rr_score r)" and "rr_weights r = rw"
proof -
  let ?f = "\<lparr>f_a = algorithm_factor alg fam ty,
           f_d = data_factor (case ctx of None \<Rightarrow> [] | Some c \<Rightarrow> c) hint,
           f_e = exposure_factor (case ctx of None \<Rightarrow> [] | Some c \<Rightarrow> c) ip,
           f_l = l, f_c = criticality_factor (case ctx of None \<Rightarrow> [] | Some c \<Rightarrow> c)\<rparr>"
  obtain n where n: "score_of_raw (raw_of (apply_weights ?f rw)) = Inr n"
    using score_of_raw_unit raw_of_unit apply_weights_unit by metis
  obtain r where r: "compute_risk alg fam ty ctx w ip hint src = Inr r"
    by (simp add: compute_risk_def assms n Let_def)
  note r' = r [unfolded compute_risk_def Let_def assms rbind.simps n sum.inject, symmetric]
  show thesis by (rule that [OF r]) (simp_all add: r' n)
qed

text \<open>An exception comes from the weights or from the lifespan, in that order.\<close>

lemma compute_risk_error:
  "compute_risk alg fam ty ctx w ip hint src = Inl e \<longleftrightarrow>
     normalize_weights w = Inl e \<or>
     is_ok (normalize_weights w) \<and> lifespan_factor (case ctx of None \<Rightarrow> [] | Some c \<Rightarrow> c) = Inl e"
proof (cases "normalize_weights w")
  case (Inr rw)
  show ?thesis
  proof (cases "lifespan_factor (case ctx of None \<Rightarrow> [] | Some c \<Rightarrow> c)")
    case (Inr l)
    then show ?thesis
      using compute_risk_result [OF \<open>normalize_weights w = Inr rw\<close> Inr] \<open>normalize_weights w = Inr rw\<close>
      by (metis Inl_Inr_False)
  qed (simp add: compute_risk_def \<open>normalize_weights w = Inr rw\<close>)
qed (simp add: compute_risk_def)

text \<open>What \<open>normalize_weights\<close> lets through: a weight between the bounds, or a NaN.\<close>

definition weight_ok :: "pyfloat \<Rightarrow> bool" where
  "weight_ok w = (w = NaN \<or> in_range (1/2) 2 w)"

lemma normalize_weight_Inr:
  "normalize_weight k d = Inr w \<longleftrightarrow> py_float (pget d k) = Inr w \<and> weight_ok w"
  by (cases "py_float (pget d k)"; cases w)
     (auto simp: normalize_weight_def weight_ok_def in_range_def)

lemma normalize_weights_ok:
  "normalize_weights w = Inr rw \<Longrightarrow>
     weight_ok (wA rw) \<and> weight_ok (wD rw) \<and> weight_ok (wE rw) \<and> weight_ok (wL rw) \<and> weight_ok (wC rw)"
  by (auto simp: normalize_weights_def Let_def res_simps normalize_weight_Inr)

lemma normalize_weights_default:
  "normalize_weights None = Inr \<lparr>wA = Fin 1, wD = Fin 1, wE = Fin 1, wL = Fin 1, wC = Fin 1\<rparr>"
  by (simp add: normalize_weights_def normalize_weight_def DEFAULT_WEIGHTS_def dmerge_def pget_def dget_or_def)

text \<open>On a finite weight the adjustment is a monotone function of the factor.\<close>

definition adjust :: "rat \<Rightarrow> rat \<Rightarrow> rat" where
  "adjust v w = (if v \<le> 0 then 0 else if 1 \<le> v then 1
     else max 0 (min 1 (rnd (1/2 + rnd (rnd (v - 1/2) * w)))))"

lemma apply_factor_weight_Fin:
  assumes "0 \<le> v" "v \<le> 1" "0 \<le> w" "w \<le> 2"
  shows "apply_factor_weight (Fin v) (Fin w) = Fin (adjust v w)"
proof -
  have 1: "fl (v - 1/2) = Fin (rnd (v - 1/2))" "- 1 \<le> rnd (v - 1/2)" "rnd (v - 1/2) \<le> 1"
    using fl_range [of "- 1" "v - 1/2" 1] assms by simp_all
  let ?p = "rnd (v - 1/2) * w"
  have "\<bar>?p\<bar> \<le> 1 * 2" unfolding abs_mult using 1(2,3) assms by (intro mult_mono) (simp_all add: abs_le_iff)
  then have 2: "fl ?p = Fin (rnd ?p)" "- 2 \<le> rnd ?p" "rnd ?p \<le> 2"
    using fl_range [of "- 2" ?p 2] by (simp_all add: abs_le_iff)
  have 3: "fl (1/2 + rnd ?p) = Fin (rnd (1/2 + rnd ?p))"
    using fl_range(1) [of "- 3" "1/2 + rnd ?p" 3] 2 by simp
  show ?thesis by (simp add: apply_factor_weight_def adjust_def Let_def 1(1) 2(1) 3)
qed

lemma adjust_unit: "0 \<le> adjust v w" "adjust v w \<le> 1"
  by (auto simp: adjust_def)

lemma adjust_mono: 
  assumes "v \<le> v'" "0 \<le> w"
  shows "adjust v w \<le> adjust v' w"
proof -
  have "rnd (1/2 + rnd (rnd (v - 1/2) * w)) \<le> rnd (1/2 + rnd (rnd (v' - 1/2) * w))"
    using assms by (intro rnd_mono add_left_mono mult_right_mono) simp_all
  then show ?thesis using assms by (auto simp: adjust_def)
qed

lemma mean4_mono:
  assumes "d \<le> d'" "e \<le> e'" "l \<le> l'" "c \<le> c'"
  shows "mean4 d e l c \<le> mean4 d' e' l' c'"
  unfolding mean4_def using assms by (intro rnd_mono divide_right_mono add_mono) simp_all

text \<open>\<open>factors_le\<close>: no factor is larger.\<close>

definition factors_le :: "factors \<Rightarrow> factors \<Rightarrow> bool" where
  "factors_le f g = (fle (f_a f) (f_a g) \<and> fle (f_d f) (f_d g) \<and> fle (f_e f) (f_e g)
     \<and> fle (f_l f) (f_l g) \<and> fle (f_c f) (f_c g))"

definition finite_weights :: "weights \<Rightarrow> bool" where
  "finite_weights w = (in_range (1/2) 2 (wA w) \<and> in_range (1/2) 2 (wD w) \<and> in_range (1/2) 2 (wE w)
     \<and> in_range (1/2) 2 (wL w) \<and> in_range (1/2) 2 (wC w))"

lemma finite_weights_cases:
  assumes "finite_weights w"
  obtains a d e l c where "w = \<lparr>wA = Fin a, wD = Fin d, wE = Fin e, wL = Fin l, wC = Fin c\<rparr>"
    "1/2 \<le> a" "a \<le> 2" "1/2 \<le> d" "d \<le> 2" "1/2 \<le> e" "e \<le> 2" "1/2 \<le> l" "l \<le> 2" "1/2 \<le> c" "c \<le> 2"
  using assms by (cases w) (auto simp: finite_weights_def elim!: in_range_obtain)

definition weighted_raw_rat :: "rat \<Rightarrow> rat \<Rightarrow> rat \<Rightarrow> rat \<Rightarrow> rat \<Rightarrow> rat \<Rightarrow> rat \<Rightarrow> rat \<Rightarrow> rat \<Rightarrow> rat \<Rightarrow> rat" where
  "weighted_raw_rat a d e l c wa wd we wl wc =
     rnd (adjust a wa * mean4 (adjust d wd) (adjust e we) (adjust l wl) (adjust c wc))"

lemma score_of_weighted:
  assumes "f = \<lparr>f_a = Fin a, f_d = Fin d, f_e = Fin e, f_l = Fin l, f_c = Fin c\<rparr>"
    "0 \<le> a" "a \<le> 1" "0 \<le> d" "d \<le> 1" "0 \<le> e" "e \<le> 1" "0 \<le> l" "l \<le> 1" "0 \<le> c" "c \<le> 1"
    "w = \<lparr>wA = Fin wa, wD = Fin wd, wE = Fin we, wL = Fin wl, wC = Fin wc\<rparr>"
    "1/2 \<le> wa" "wa \<le> 2" "1/2 \<le> wd" "wd \<le> 2" "1/2 \<le> we" "we \<le> 2" "1/2 \<le> wl" "wl \<le> 2" "1/2 \<le> wc" "wc \<le> 2"
  shows "score_of_raw (raw_of (apply_weights f w)) =
    Inr (rhe (rnd (weighted_raw_rat a d e l c wa wd we wl wc * 100)))"
  and "0 \<le> weighted_raw_rat a d e l c wa wd we wl wc" "weighted_raw_rat a d e l c wa wd we wl wc \<le> 1"
proof -
  note r = raw_of_Fin [OF adjust_unit adjust_unit adjust_unit adjust_unit adjust_unit,
      of a wa d wd e we l wl c wc, folded weighted_raw_rat_def]
  show "0 \<le> weighted_raw_rat a d e l c wa wd we wl wc" "weighted_raw_rat a d e l c wa wd we wl wc \<le> 1"
    using r by simp_all
  have "apply_weights f w = \<lparr>f_a = Fin (adjust a wa), f_d = Fin (adjust d wd), f_e = Fin (adjust e we),
      f_l = Fin (adjust l wl), f_c = Fin (adjust c wc)\<rparr>"
    using assms by (simp add: apply_weights_def apply_factor_weight_Fin)
  then show "score_of_raw (raw_of (apply_weights f w)) =
    Inr (rhe (rnd (weighted_raw_rat a d e l c wa wd we wl wc * 100)))"
    by (simp add: r score_of_raw_Fin)
qed

lemma weighted_raw_mono:
  assumes "a \<le> a'" "d \<le> d'" "e \<le> e'" "l \<le> l'" "c \<le> c'"
    and "0 \<le> wa" "0 \<le> wd" "0 \<le> we" "0 \<le> wl" "0 \<le> wc"
  shows "weighted_raw_rat a d e l c wa wd we wl wc \<le> weighted_raw_rat a' d' e' l' c' wa wd we wl wc"
  unfolding weighted_raw_rat_def
  by (intro rnd_mono mult_mono mean4_mono adjust_mono adjust_unit mean4_unit assms)

text \<open>A score never falls when factors rise: with weights between 0.5 and 2, for two sets of factors
  of which the first is nowhere larger, the integer scores are ordered the same way, the rounding of
  every float operation of the engine included.\<close>

theorem risk_score_mono:
  assumes "unit_factors f" and "unit_factors g" and "factors_le f g" and "finite_weights w"
  shows "\<exists>m n. score_of_raw (raw_of (apply_weights f w)) = Inr m
             \<and> score_of_raw (raw_of (apply_weights g w)) = Inr n \<and> m \<le> n"
proof -
  from assms(1) obtain a d e l c where f: "f = \<lparr>f_a = Fin a, f_d = Fin d, f_e = Fin e, f_l = Fin l, f_c = Fin c\<rparr>"
    "0 \<le> a" "a \<le> 1" "0 \<le> d" "d \<le> 1" "0 \<le> e" "e \<le> 1" "0 \<le> l" "l \<le> 1" "0 \<le> c" "c \<le> 1"
    by (rule unit_factors_cases)
  from assms(2) obtain a' d' e' l' c' where g: "g = \<lparr>f_a = Fin a', f_d = Fin d', f_e = Fin e', f_l = Fin l', f_c = Fin c'\<rparr>"
    "0 \<le> a'" "a' \<le> 1" "0 \<le> d'" "d' \<le> 1" "0 \<le> e'" "e' \<le> 1" "0 \<le> l'" "l' \<le> 1" "0 \<le> c'" "c' \<le> 1"
    by (rule unit_factors_cases)
  from assms(4) obtain wa wd we wl wc where w: "w = \<lparr>wA = Fin wa, wD = Fin wd, wE = Fin we, wL = Fin wl, wC = Fin wc\<rparr>"
    "1/2 \<le> wa" "wa \<le> 2" "1/2 \<le> wd" "wd \<le> 2" "1/2 \<le> we" "we \<le> 2" "1/2 \<le> wl" "wl \<le> 2" "1/2 \<le> wc" "wc \<le> 2"
    by (rule finite_weights_cases)
  from assms(3) have "a \<le> a'" "d \<le> d'" "e \<le> e'" "l \<le> l'" "c \<le> c'"
    by (simp_all add: factors_le_def f(1) g(1))
  then have "weighted_raw_rat a d e l c wa wd we wl wc \<le> weighted_raw_rat a' d' e' l' c' wa wd we wl wc"
    using w by (intro weighted_raw_mono) simp_all
  then have "rhe (rnd (weighted_raw_rat a d e l c wa wd we wl wc * 100))
      \<le> rhe (rnd (weighted_raw_rat a' d' e' l' c' wa wd we wl wc * 100))"
    by (intro rhe_mono rnd_mono mult_right_mono) simp_all
  then show ?thesis
    using score_of_weighted(1) [OF f w] score_of_weighted(1) [OF g w] by simp
qed

theorem risk_score_mono_witness:
  "\<exists>m n. score_of_raw (raw_of (apply_weights \<lparr>f_a = Fin (1/2), f_d = Fin (1/2), f_e = Fin (1/4), f_l = Fin (1/2), f_c = Fin 0\<rparr>
            \<lparr>wA = Fin 1, wD = Fin 2, wE = Fin 1, wL = Fin (1/2), wC = Fin 1\<rparr>)) = Inr m
       \<and> score_of_raw (raw_of (apply_weights \<lparr>f_a = Fin (3/4), f_d = Fin (1/2), f_e = Fin 1, f_l = Fin (1/2), f_c = Fin (1/4)\<rparr>
            \<lparr>wA = Fin 1, wD = Fin 2, wE = Fin 1, wL = Fin (1/2), wC = Fin 1\<rparr>)) = Inr n \<and> m \<le> n"
  by (rule risk_score_mono) (simp_all add: unit_factors_def factors_le_def finite_weights_def)

section \<open>Distance to the exact formula\<close>

text \<open>\<open>exact_adjust\<close> is the formula of the risk model's document (docs/06, 6.3.3): for every factor
  \<open>X' = clamp (0.5 + (X - 0.5) * w, 0, 1)\<close>. The engine leaves a factor at 0 or 1 alone, which is the
  same only for a weight of at least 1 (see \<open>weight_gate_at_one\<close>): \<open>weights_agree\<close> is the condition under
  which code and document mean the same.\<close>

definition exact_adjust :: "rat \<Rightarrow> rat \<Rightarrow> rat" where
  "exact_adjust v w = max 0 (min 1 (1/2 + (v - 1/2) * w))"

definition weight_agrees :: "rat \<Rightarrow> rat \<Rightarrow> bool" where
  "weight_agrees v w \<longleftrightarrow> 0 < v \<and> v < 1 \<or> 1 \<le> w"

definition weights_agree :: "factors \<Rightarrow> weights \<Rightarrow> bool" where
  "weights_agree f w \<longleftrightarrow> weight_agrees (fval (f_a f)) (fval (wA w)) \<and> weight_agrees (fval (f_d f)) (fval (wD w))
     \<and> weight_agrees (fval (f_e f)) (fval (wE w)) \<and> weight_agrees (fval (f_l f)) (fval (wL w))
     \<and> weight_agrees (fval (f_c f)) (fval (wC w))"

definition exact_raw :: "factors \<Rightarrow> weights \<Rightarrow> rat" where
  "exact_raw f w =
     exact_adjust (fval (f_a f)) (fval (wA w)) *
     ((exact_adjust (fval (f_d f)) (fval (wD w)) + exact_adjust (fval (f_e f)) (fval (wE w))
       + exact_adjust (fval (f_l f)) (fval (wL w)) + exact_adjust (fval (f_c f)) (fval (wC w))) / 4)"

lemma rnd_err:
  assumes "\<bar>x\<bar> < pow2 k" and "- 1021 \<le> k"
  shows "\<bar>rnd x - x\<bar> \<le> pow2 (k - 54)"
proof (cases "x = 0")
  case False
  then have "ilog2 \<bar>x\<bar> < k" using ilog2_ge_iff [of "\<bar>x\<bar>" k] assms by simp
  then have "qexp x \<le> k - 53" using assms(2) by (simp add: qexp_def)
  then have "pow2 (qexp x) \<le> pow2 (k - 53)" by simp
  moreover have "pow2 (k - 53) = 2 * pow2 (k - 54)" using pow2_add [of "k - 54" 1] by simp
  ultimately show ?thesis using rnd_error [of x] by linarith
qed simp

definition eps :: rat where "eps = pow2 (- 51)"

lemma rnd_err8: "\<bar>x\<bar> < 8 \<Longrightarrow> \<bar>rnd x - x\<bar> \<le> eps"
  using rnd_err [of x 3] by (simp add: eps_def pow2_int)

lemma eps_pos: "0 \<le> eps" "eps \<le> 1 / 100"
  by (simp_all add: eps_def) (simp add: pow2_def)

lemma clamp_contract: "\<bar>max 0 (min 1 x) - max 0 (min 1 y)\<bar> \<le> \<bar>x - (y :: rat)\<bar>"
  by (simp add: max_def min_def)

lemma adjust_exact:
  assumes "0 \<le> v" "v \<le> 1" "1/2 \<le> w" "w \<le> 2" "weight_agrees v w"
  shows "\<bar>adjust v w - exact_adjust v w\<bar> \<le> 4 * eps"
proof -
  let ?u = "v - 1/2" and ?t = "rnd (v - 1/2)"
  have 1: "\<bar>?t - ?u\<bar> \<le> eps" using assms by (intro rnd_err8) (simp add: abs_if)
  have u: "\<bar>?u\<bar> \<le> 1/2" using assms by linarith
  have t: "\<bar>?t\<bar> \<le> 1" using 1 u eps_pos by linarith
  have "\<bar>(?t - ?u) * w\<bar> \<le> eps * 2" unfolding abs_mult using 1 assms by (intro mult_mono) simp_all
  then have 2: "\<bar>?t * w - ?u * w\<bar> \<le> 2 * eps" by (simp add: left_diff_distrib)
  have tw: "\<bar>?t * w\<bar> \<le> 1 * 2" unfolding abs_mult using t assms by (intro mult_mono) simp_all
  then have 3: "\<bar>rnd (?t * w) - ?t * w\<bar> \<le> eps" by (intro rnd_err8) simp
  then have "\<bar>1/2 + rnd (?t * w)\<bar> < 8" using tw eps_pos by linarith
  then have "\<bar>rnd (1/2 + rnd (?t * w)) - (1/2 + rnd (?t * w))\<bar> \<le> eps" by (rule rnd_err8)
  with 2 3 have "\<bar>rnd (1/2 + rnd (?t * w)) - (1/2 + ?u * w)\<bar> \<le> 4 * eps" by linarith
  then have "\<bar>max 0 (min 1 (rnd (1/2 + rnd (?t * w)))) - max 0 (min 1 (1/2 + ?u * w))\<bar> \<le> 4 * eps"
    by (rule order.trans [OF clamp_contract])
  moreover have "max 0 (min 1 (1/2 + ?u * w)) = 0" if "v \<le> 0"
    using that assms by (simp add: weight_agrees_def)
  moreover have "max 0 (min 1 (1/2 + ?u * w)) = 1" if "1 \<le> v"
    using that assms by (simp add: weight_agrees_def)
  ultimately show ?thesis using eps_pos by (simp add: adjust_def exact_adjust_def)
qed

lemma mean4_exact:
  assumes "0 \<le> d" "d \<le> 1" "0 \<le> e" "e \<le> 1" "0 \<le> l" "l \<le> 1" "0 \<le> c" "c \<le> 1"
  shows "\<bar>mean4 d e l c - (d + e + l + c) / 4\<bar> \<le> 2 * eps"
proof -
  note b = sum4_bounds [OF assms]
  have "\<bar>rnd (d + e) - (d + e)\<bar> \<le> eps" using assms by (intro rnd_err8) simp
  moreover have "\<bar>rnd (rnd (d + e) + l) - (rnd (d + e) + l)\<bar> \<le> eps" using assms b by (intro rnd_err8) simp
  moreover have "\<bar>rnd (rnd (rnd (d + e) + l) + c) - (rnd (rnd (d + e) + l) + c)\<bar> \<le> eps"
    using assms b by (intro rnd_err8) simp
  moreover have "\<bar>mean4 d e l c - rnd (rnd (rnd (d + e) + l) + c) / 4\<bar> \<le> eps"
    unfolding mean4_def using b by (intro rnd_err8) simp
  ultimately show ?thesis using eps_pos by (simp add: abs_le_iff field_simps)
qed

lemma exact_adjust_unit: "0 \<le> exact_adjust v w" "exact_adjust v w \<le> 1"
  by (auto simp: exact_adjust_def)

lemma weighted_raw_exact:
  assumes "0 \<le> a" "a \<le> 1" "0 \<le> d" "d \<le> 1" "0 \<le> e" "e \<le> 1" "0 \<le> l" "l \<le> 1" "0 \<le> c" "c \<le> 1"
    "1/2 \<le> wa" "wa \<le> 2" "1/2 \<le> wd" "wd \<le> 2" "1/2 \<le> we" "we \<le> 2" "1/2 \<le> wl" "wl \<le> 2" "1/2 \<le> wc" "wc \<le> 2"
    "weight_agrees a wa" "weight_agrees d wd" "weight_agrees e we" "weight_agrees l wl" "weight_agrees c wc"
  shows "\<bar>weighted_raw_rat a d e l c wa wd we wl wc - exact_adjust a wa *
     ((exact_adjust d wd + exact_adjust e we + exact_adjust l wl + exact_adjust c wc) / 4)\<bar> \<le> 11 * eps"
proof -
  let ?m = "mean4 (adjust d wd) (adjust e we) (adjust l wl) (adjust c wc)"
  let ?x = "(exact_adjust d wd + exact_adjust e we + exact_adjust l wl + exact_adjust c wc) / 4"
  let ?a = "adjust a wa" and ?b = "exact_adjust a wa"
  have m: "0 \<le> ?m" "?m \<le> 1" by (intro mean4_unit adjust_unit)+
  have "\<bar>?m - (adjust d wd + adjust e we + adjust l wl + adjust c wc) / 4\<bar> \<le> 2 * eps"
    by (intro mean4_exact adjust_unit)
  moreover have "\<bar>adjust d wd - exact_adjust d wd\<bar> \<le> 4 * eps" "\<bar>adjust e we - exact_adjust e we\<bar> \<le> 4 * eps"
    "\<bar>adjust l wl - exact_adjust l wl\<bar> \<le> 4 * eps" "\<bar>adjust c wc - exact_adjust c wc\<bar> \<le> 4 * eps"
    using assms by (intro adjust_exact; simp)+
  ultimately have mx: "\<bar>?m - ?x\<bar> \<le> 6 * eps" by (simp add: abs_le_iff field_simps)
  have ab: "\<bar>?a - ?b\<bar> \<le> 4 * eps" using assms by (intro adjust_exact) simp_all
  have "\<bar>(?a - ?b) * ?m\<bar> \<le> 4 * eps * 1" unfolding abs_mult using ab m eps_pos by (intro mult_mono) simp_all
  moreover have "\<bar>?b * (?m - ?x)\<bar> \<le> 1 * (6 * eps)"
    unfolding abs_mult using mx exact_adjust_unit [of a wa] by (intro mult_mono) simp_all
  moreover have "?a * ?m - ?b * ?x = (?a - ?b) * ?m + ?b * (?m - ?x)" by (simp only: algebra_simps)
  ultimately have "\<bar>?a * ?m - ?b * ?x\<bar> \<le> 10 * eps" by linarith
  moreover have "0 \<le> ?a * ?m" "?a * ?m \<le> 1"
    using m adjust_unit [of a wa] by (simp_all add: mult_le_one)
  then have "\<bar>rnd (?a * ?m) - ?a * ?m\<bar> \<le> eps" by (intro rnd_err8) simp
  ultimately show ?thesis unfolding weighted_raw_rat_def by linarith
qed

text \<open>C2. Where the weights do not meet a factor at 0 or 1 with a weight below 1, the engine implements the
  formula of the risk model's document: on factors in the unit interval and weights between 0.5 and 2 the
  score exists, and it is within half a point (plus a millionth of a millionth for the float rounding) of
  100 times the formula evaluated exactly.\<close>

theorem risk_score_exact:
  assumes "unit_factors f" and "finite_weights w" and "weights_agree f w"
  shows "\<exists>n. score_of_raw (raw_of (apply_weights f w)) = Inr n
           \<and> \<bar>of_int n - 100 * exact_raw f w\<bar> \<le> 1 / 2 + 1 / 10 ^ 12"
proof -
  from assms(1) obtain a d e l c where f: "f = \<lparr>f_a = Fin a, f_d = Fin d, f_e = Fin e, f_l = Fin l, f_c = Fin c\<rparr>"
    "0 \<le> a" "a \<le> 1" "0 \<le> d" "d \<le> 1" "0 \<le> e" "e \<le> 1" "0 \<le> l" "l \<le> 1" "0 \<le> c" "c \<le> 1"
    by (rule unit_factors_cases)
  from assms(2) obtain wa wd we wl wc where w: "w = \<lparr>wA = Fin wa, wD = Fin wd, wE = Fin we, wL = Fin wl, wC = Fin wc\<rparr>"
    "1/2 \<le> wa" "wa \<le> 2" "1/2 \<le> wd" "wd \<le> 2" "1/2 \<le> we" "we \<le> 2" "1/2 \<le> wl" "wl \<le> 2" "1/2 \<le> wc" "wc \<le> 2"
    by (rule finite_weights_cases)
  let ?r = "weighted_raw_rat a d e l c wa wd we wl wc"
  note s = score_of_weighted [OF f w]
  have "\<bar>?r - exact_raw f w\<bar> \<le> 11 * eps"
    using weighted_raw_exact [OF f(2-) w(2-)] assms(3) by (simp add: exact_raw_def weights_agree_def f(1) w(1))
  moreover have "\<bar>rnd (?r * 100) - ?r * 100\<bar> \<le> 16 * eps"
    using rnd_err [of "?r * 100" 7] s(2,3) pow2_add [of "- 51" 4] by (simp add: eps_def pow2_int)
  moreover have "\<bar>of_int (rhe (rnd (?r * 100))) - rnd (?r * 100)\<bar> \<le> 1/2" by (rule rhe_near)
  moreover have "1116 * eps \<le> 1 / 10 ^ 12" by (simp add: eps_def pow2_def)
  ultimately have "\<bar>of_int (rhe (rnd (?r * 100))) - 100 * exact_raw f w\<bar> \<le> 1 / 2 + 1 / 10 ^ 12"
    by linarith
  then show ?thesis using s(1) by blast
qed

theorem risk_score_exact_witness:
  "\<exists>n. score_of_raw (raw_of (apply_weights \<lparr>f_a = Fin (3/4), f_d = Fin (1/2), f_e = Fin 1, f_l = Fin (1/2), f_c = Fin (1/4)\<rparr>
            \<lparr>wA = Fin 1, wD = Fin 2, wE = Fin 1, wL = Fin (1/2), wC = Fin 1\<rparr>)) = Inr n
       \<and> \<bar>of_int n - 100 * exact_raw \<lparr>f_a = Fin (3/4), f_d = Fin (1/2), f_e = Fin 1, f_l = Fin (1/2), f_c = Fin (1/4)\<rparr>
            \<lparr>wA = Fin 1, wD = Fin 2, wE = Fin 1, wL = Fin (1/2), wC = Fin 1\<rparr>\<bar> \<le> 1 / 2 + 1 / 10 ^ 12"
  by (rule risk_score_exact) (simp_all add: unit_factors_def finite_weights_def weights_agree_def weight_agrees_def)

section \<open>Algorithm names\<close>

lemma strip_joined:
  "strip (strip a @ '' '' @ strip b) =
     (if strip a = [] then strip b else if strip b = [] then strip a else strip a @ '' '' @ strip b)"
proof -
  have sp: "is_space (CHR '' '')" by (simp add: is_space_def code_def)
  have lead: "strip (CHR '' '' # x) = strip x" for x by (simp add: strip_def sp)
  have trail: "strip (strip x @ '' '') = strip x" for x
  proof -
    have "dropWhile is_space (strip x @ '' '') = (if strip x = [] then [] else strip x @ '' '')"
      using strip_ends [of x] sp by (cases "strip x") auto
    moreover have "rstrip_if is_space (strip x @ '' '') = rstrip_if is_space (strip x)"
      by (simp add: rstrip_if_def sp)
    moreover have "rstrip_if is_space (strip x) = strip x"
      using strip_ends [of x] dropWhile_hd_not [of "rev (strip x)" is_space]
      by (auto simp: rstrip_if_def hd_rev)
    ultimately show ?thesis by (auto simp: strip_def [of "strip x @ '' ''"] rstrip_if_def)
  qed
  show ?thesis
  proof (cases "strip a = [] \<or> strip b = []")
    case True
    then show ?thesis using lead [of "strip b"] trail [of a] by auto
  next
    case False
    then have "strip (strip a @ '' '' @ strip b) = strip a @ '' '' @ strip b"
      using strip_ends [of a] strip_ends [of b] by (intro strip_fixed) auto
    with False show ?thesis by simp
  qed
qed

definition combined_text :: "string option \<Rightarrow> string option \<Rightarrow> string" where
  "combined_text alg fam = strip (normalize_algorithm_text fam @ '' '' @ normalize_algorithm_text alg)"

lemma normalize_strip: "strip (normalize_algorithm_text v) = normalize_algorithm_text v"
  by (simp add: normalize_algorithm_text_def str_simps)

lemma combined_text_contains:
  assumes "contains (normalize_algorithm_text alg) p \<or> contains (normalize_algorithm_text fam) p"
  shows "contains (combined_text alg fam) p"
proof -
  let ?a = "normalize_algorithm_text alg" and ?f = "normalize_algorithm_text fam"
  have eq: "combined_text alg fam = (if ?f = [] then ?a else if ?a = [] then ?f else ?f @ '' '' @ ?a)"
    using strip_joined [of ?f ?a] by (simp add: combined_text_def normalize_strip)
  have nil: "contains x p" if "contains [] p" for x using that by (simp add: contains_def)
  show ?thesis
  proof (cases "?f = [] \<or> ?a = []")
    case True
    then consider "?f = []" | "?f \<noteq> []" "?a = []" by blast
    then show ?thesis
    proof cases
      case 1
      then show ?thesis using assms nil [of ?a] by (simp add: eq) blast
    next
      case 2
      then show ?thesis using assms nil [of ?f] by (simp add: eq) blast
    qed
  next
    case False
    then have "combined_text alg fam = ?f @ '' '' @ ?a" unfolding eq by simp
    moreover have "contains (?f @ '' '' @ ?a) p"
      using assms contains_append(1) [of ?f p "'' '' @ ?a"] contains_append(2) [of "'' '' @ ?a" p ?f]
        contains_append(2) [of ?a p "'' ''"] by blast
    ultimately show ?thesis by simp
  qed
qed

lemma algorithm_factor_pqc:
  assumes "p \<in> {''ML-KEM'', ''ML-DSA'', ''SLH-DSA'', ''FALCON'', ''FN-DSA''}"
    and "contains (combined_text alg fam) p"
    and "\<not> contains (combined_text alg fam) ''+''" and "\<not> contains (combined_text alg fam) ''HYBRID''"
  shows "algorithm_factor alg fam ty = Fin 0"
proof -
  let ?t = "combined_text alg fam"
  have ne: "?t \<noteq> []" using assms(1,2) by (auto simp: contains_def)
  have pqc: "contains ?t ''ML-KEM'' \<or> contains ?t ''ML-DSA'' \<or> contains ?t ''SLH-DSA''
      \<or> contains ?t ''FALCON'' \<or> contains ?t ''FN-DSA''"
    using assms(1,2) by blast
  show ?thesis
    unfolding algorithm_factor_def Let_def combined_text_def [symmetric]
    by (simp only: ne pqc assms(3,4) if_True if_False simp_thms) (simp add: fl_small)
qed

text \<open>An asset whose combined algorithm text names a standard post-quantum scheme, and is not marked
  as a hybrid, scores 0 and is LOW, whatever its context, its address and the (valid) weights: the
  algorithm factor gates the context.\<close>

theorem pqc_scores_zero:
  assumes "p \<in> {''ML-KEM'', ''ML-DSA'', ''SLH-DSA'', ''FALCON'', ''FN-DSA''}"
    and "contains (combined_text alg fam) p"
    and "\<not> contains (combined_text alg fam) ''+''" and "\<not> contains (combined_text alg fam) ''HYBRID''"
    and "normalize_weights w = Inr rw"
    and "lifespan_factor (case ctx of None \<Rightarrow> [] | Some c \<Rightarrow> c) = Inr l"
  shows "\<exists>r. compute_risk alg fam ty ctx w ip hint src = Inr r \<and> rr_score r = 0 \<and> rr_tier r = LOW"
proof -
  obtain r where r: "compute_risk alg fam ty ctx w ip hint src = Inr r"
    and f: "f_a (rr_factors r) = Fin 0"
    and wf: "rr_weighted_factors r = apply_weights (rr_factors r) rw"
    and raw: "rr_weighted_raw r = raw_of (rr_weighted_factors r)"
    and sc: "score_of_raw (rr_weighted_raw r) = Inr (rr_score r)" and t: "rr_tier r = tier_for_score (rr_score r)"
    using compute_risk_result [OF assms(5,6)] algorithm_factor_pqc [OF assms(1-4)]
    by (metis factors.select_convs(1))
  have a: "f_a (rr_weighted_factors r) = Fin 0" by (simp add: wf apply_weights_def apply_factor_weight_def f)
  obtain a d e l c where v: "rr_weighted_factors r = \<lparr>f_a = Fin a, f_d = Fin d, f_e = Fin e, f_l = Fin l, f_c = Fin c\<rparr>"
    "0 \<le> a" "a \<le> 1" "0 \<le> d" "d \<le> 1" "0 \<le> e" "e \<le> 1" "0 \<le> l" "l \<le> 1" "0 \<le> c" "c \<le> 1"
    using apply_weights_unit [of "rr_factors r" rw] unfolding wf [symmetric] by (rule unit_factors_cases)
  with a have "a = 0" by simp
  then have "rr_weighted_raw r = Fin 0" using raw_of_Fin(1) [OF v(2-)] by (simp add: raw v(1))
  then have "rr_score r = 0" using sc by (simp add: score_of_raw_def fl_small rhe_of_int [of 0, simplified])
  then show ?thesis using r t by (simp add: tier_for_score_def)
qed

theorem pqc_scores_zero_witness:
  "\<exists>r. compute_risk (Some ''ml-kem-768'') None None None None (Some ''8.8.8.8'') None None = Inr r
     \<and> rr_score r = 0 \<and> rr_tier r = LOW"
proof (rule pqc_scores_zero [where p = "''ML-KEM''"])
  show "contains (combined_text (Some ''ml-kem-768'') None) ''ML-KEM''"
    "\<not> contains (combined_text (Some ''ml-kem-768'') None) ''+''"
    "\<not> contains (combined_text (Some ''ml-kem-768'') None) ''HYBRID''" by code_simp+
  show "lifespan_factor (case None of None \<Rightarrow> [] | Some c \<Rightarrow> c) = Inr (fl (5/10))"
    by (simp add: lifespan_factor_def pget_def dget_or_def)
qed (simp_all add: normalize_weights_default)

lemma compute_risk_invariants:
  assumes "compute_risk alg fam ty ctx w ip hint src = Inr r"
  shows "0 \<le> rr_score r \<and> rr_score r \<le> 100 \<and> rr_tier r = tier_for_score (rr_score r)
       \<and> unit_factors (rr_factors r) \<and> unit_factors (rr_weighted_factors r)
       \<and> in_range 0 1 (rr_raw r) \<and> in_range 0 1 (rr_weighted_raw r)
       \<and> score_of_raw (rr_weighted_raw r) = Inr (rr_score r)"
proof -
  let ?c = "case ctx of None \<Rightarrow> [] | Some c \<Rightarrow> c"
  obtain rw l where rw: "normalize_weights w = Inr rw" and l: "lifespan_factor ?c = Inr l"
    and raw: "rr_raw r = raw_of (rr_factors r)"
    using assms by (auto simp: compute_risk_def Let_def res_simps)
  have "unit_factors (rr_factors r) \<and> rr_weighted_factors r = apply_weights (rr_factors r) rw
      \<and> rr_weighted_raw r = raw_of (rr_weighted_factors r)
      \<and> score_of_raw (rr_weighted_raw r) = Inr (rr_score r) \<and> rr_tier r = tier_for_score (rr_score r)"
    using compute_risk_result [OF rw l, of alg fam ty ip hint src] assms
    by (metis (mono_tags, lifting) sum.inject(2) unit_factors_def factors.select_convs
        algorithm_factor_unit data_factor_unit exposure_factor_unit criticality_factor_unit
        lifespan_factor_unit [OF l])
  moreover have "unit_factors (rr_weighted_factors r)" using calculation apply_weights_unit by simp
  moreover have "in_range 0 1 (rr_weighted_raw r)" and "in_range 0 1 (rr_raw r)"
    using calculation raw by (simp_all add: raw_of_unit)
  moreover have "0 \<le> rr_score r \<and> rr_score r \<le> 100"
    using calculation score_of_raw_unit by (metis sum.inject(2))
  ultimately show ?thesis by blast
qed

text \<open>C1. Every call of compute_risk, on any input, either raises the exception of the weights or, when these
  are accepted, the one of the lifespan, or returns: the score is between 0 and 100, the tier is the
  one of the score, every factor and weighted factor and both raw scores are finite floats in the
  unit interval, and the score is the rounded weighted raw score.\<close>

theorem compute_risk_sound:
  "case compute_risk alg fam ty ctx w ip hint src of
     Inl e \<Rightarrow> normalize_weights w = Inl e
       \<or> is_ok (normalize_weights w) \<and> lifespan_factor (case ctx of None \<Rightarrow> [] | Some c \<Rightarrow> c) = Inl e
   | Inr r \<Rightarrow> 0 \<le> rr_score r \<and> rr_score r \<le> 100 \<and> rr_tier r = tier_for_score (rr_score r)
       \<and> unit_factors (rr_factors r) \<and> unit_factors (rr_weighted_factors r)
       \<and> in_range 0 1 (rr_raw r) \<and> in_range 0 1 (rr_weighted_raw r)
       \<and> score_of_raw (rr_weighted_raw r) = Inr (rr_score r)"
  using compute_risk_error [of alg fam ty ctx w ip hint src] compute_risk_invariants [of alg fam ty ctx w ip hint src]
  by (auto split: sum.splits)

text \<open>The bounds check of the weights lets a NaN through (both comparisons are false), and such a weight
  turns a small factor into the maximal one.\<close>

theorem nan_weight_saturates:
  "normalize_weights (Some [(''wE'', PFloat NaN)]) = Inr \<lparr>wA = Fin 1, wD = Fin 1, wE = NaN, wL = Fin 1, wC = Fin 1\<rparr>
   \<and> apply_factor_weight (fl (1/10)) NaN = Fin 1"
  by code_simp

text \<open>With a weight below one the code keeps a factor of one, where the document's formula lowers it.\<close>

theorem weight_gate_at_one:
  "apply_factor_weight (Fin 1) (Fin (1/2)) = Fin 1 \<and> max 0 (min 1 (1/2 + (1 - 1/2) * (1/2))) = (3/4 :: rat)"
  by (simp add: apply_factor_weight_def flt.simps fle_def)

end
