(* ===== verification/Dhs_Engine.thy ===== *)
theory Dhs_Engine
  imports Values Grading
begin

text \<open>
  \<open>risk_engine/dhs.py\<close>: the DHS migration priority of an asset.  Six criteria, each a dict with a
  score or a rating, are weighted and averaged to a score out of ten, and the score is graded P1,
  P2 or P3.  The loop over the criteria is \<open>dhs_loop\<close>, with the three variables of the source as its
  accumulators.  The lemmas show that the score lies between 0 and 10, that it never falls when a
  criterion rises, and which exceptions can leave the function.
\<close>

section \<open>Constants and data\<close>

definition DHS_RISK_ENGINE_VERSION :: string where
  "DHS_RISK_ENGINE_VERSION = ''dhs-risk-v1''"

definition DHS_CRITERION_WEIGHTS :: "pyfloat dict" where
  "DHS_CRITERION_WEIGHTS =
     [(''asset_value'', fl 1), (''protected_information'', fl (11/10)),
      (''communication_scope'', fl 1), (''sharing_level'', fl (8/10)),
      (''critical_infrastructure'', fl (12/10)), (''protection_duration'', fl (16/10))]"

definition RATING_SCORES :: "pyfloat dict" where
  "RATING_SCORES = [(''low'', fl (2/10)), (''medium'', fl (5/10)), (''high'', fl (75/100)), (''critical'', fl 1)]"

datatype priority = P3 | P2 | P1

fun priority_rank :: "priority \<Rightarrow> int" where
  "priority_rank P3 = 0"
| "priority_rank P2 = 1"
| "priority_rank P1 = 2"

fun priority_str :: "priority \<Rightarrow> string" where
  "priority_str P3 = ''P3''"
| "priority_str P2 = ''P2''"
| "priority_str P1 = ''P1''"

lemma priority_rank_inject [simp]: "priority_rank a = priority_rank b \<longleftrightarrow> a = b"
  by (cases a; cases b) simp_all

instantiation priority :: linorder
begin

definition less_eq_priority :: "priority \<Rightarrow> priority \<Rightarrow> bool" where
  "less_eq_priority a b = (priority_rank a \<le> priority_rank b)"

definition less_priority :: "priority \<Rightarrow> priority \<Rightarrow> bool" where
  "less_priority a b = (priority_rank a < priority_rank b)"

instance
  by (intro_classes; auto simp: less_eq_priority_def less_priority_def)

end

record dhs_criterion =
  dc_score :: pyfloat
  dc_weight :: pyfloat
  dc_weighted_score :: pyfloat

record dhs_result =
  dhs_score_10 :: pyfloat
  dhs_priority :: priority
  dhs_weighted_raw :: pyfloat
  dhs_weights :: "pyfloat dict"
  dhs_criteria :: "dhs_criterion dict"
  dhs_missing :: "string list"
  dhs_engine_version :: string

section \<open>Operations\<close>

text \<open>\<open>float(explicit_score)\<close> is tried; a TypeError or a ValueError falls back to the rating, any other
  exception leaves.\<close>

definition clamp_score :: "pyfloat \<Rightarrow> pyfloat" where
  "clamp_score parsed =
     (let p = (if flt (Fin 1) parsed \<and> fle parsed (Fin 100) then fdiv_by parsed 100 else parsed)
      in fround 4 (fmax (Fin 0) (fmin (Fin 1) p)))"

definition rating_score :: "pyval dict \<Rightarrow> pyfloat" where
  "rating_score v = dget_or RATING_SCORES (lower (strip (py_str (py_or (pget v ''rating'') (PStr []))))) (Fin 0)"

definition criterion_score :: "pyval dict \<Rightarrow> py_error + pyfloat" where
  "criterion_score v =
     (case pget v ''score'' of PNone \<Rightarrow> Inr (rating_score v)
      | explicit \<Rightarrow>
          (case py_float explicit of
             Inr parsed \<Rightarrow> Inr (clamp_score parsed)
           | Inl (TypeError m) \<Rightarrow> Inr (rating_score v)
           | Inl (ValueError m) \<Rightarrow> Inr (rating_score v)
           | Inl e \<Rightarrow> Inl e))"

definition priority_for_dhs_score :: "pyfloat \<Rightarrow> priority" where
  "priority_for_dhs_score score = (if fle (Fin 8) score then P1 else if fle (Fin 5) score then P2 else P3)"

fun dhs_loop ::
  "pyval dict \<Rightarrow> pyfloat dict \<Rightarrow> pyfloat \<Rightarrow> dhs_criterion dict \<Rightarrow> string list
   \<Rightarrow> py_error + (pyfloat \<times> dhs_criterion dict \<times> string list)" where
  "dhs_loop source [] tot criteria missing = Inr (tot, criteria, missing)"
| "dhs_loop source ((name, weight) # ws) tot criteria missing =
     (case pget source name of
        PDict v \<Rightarrow>
          rbind (criterion_score v) (\<lambda>score.
            let weighted = fround 4 (fmul score weight)
            in dhs_loop source ws (fadd tot weighted)
                 (dset name \<lparr>dc_score = score, dc_weight = weight, dc_weighted_score = weighted\<rparr> criteria)
                 missing)
      | _ \<Rightarrow>
          dhs_loop source ws tot
            (dset name \<lparr>dc_score = Fin 0, dc_weight = weight, dc_weighted_score = Fin 0\<rparr> criteria)
            (missing @ [name]))"

definition compute_dhs_risk :: "pyval dict option \<Rightarrow> py_error + dhs_result" where
  "compute_dhs_risk dhs =
     (let source = (case dhs of None \<Rightarrow> [] | Some d \<Rightarrow> d);
          denominator = fsum (map snd DHS_CRITERION_WEIGHTS)
      in rbind (dhs_loop source DHS_CRITERION_WEIGHTS (Fin 0) [] []) (\<lambda>(tot, criteria, missing).
         rbind (if denominator = Fin 0 then Inr (Fin 0) else fdiv tot denominator) (\<lambda>ratio.
           let weighted_raw = (if denominator = Fin 0 then Fin 0 else fround 4 ratio);
               score_10 = fround 1 (fmul weighted_raw (Fin 10))
           in Inr \<lparr>dhs_score_10 = score_10, dhs_priority = priority_for_dhs_score score_10,
                   dhs_weighted_raw = weighted_raw, dhs_weights = DHS_CRITERION_WEIGHTS,
                   dhs_criteria = criteria, dhs_missing = missing,
                   dhs_engine_version = DHS_RISK_ENGINE_VERSION\<rparr>)))"

section \<open>Gradings\<close>

interpretation priorities: ladder "\<lambda>score. priority_for_dhs_score (Fin score)" "[(8, P1), (5 :: rat, P2)]" P3
  by unfold_locales (auto simp: priority_for_dhs_score_def less_priority_def)

section \<open>The score as a function of the criteria's scores\<close>

definition fr :: "nat \<Rightarrow> rat \<Rightarrow> rat" where
  "fr n a = rnd (of_int (rhe (a * 10 ^ n)) / 10 ^ n)"

lemma fr_mono: "a \<le> b \<Longrightarrow> fr n a \<le> fr n b"
  unfolding fr_def by (intro rnd_mono divide_right_mono) (simp_all add: rhe_mono mult_right_mono)

lemma fround_Fin:
  assumes "0 \<le> a" and "a \<le> of_int hi" and "hi \<le> 2 ^ 53"
  shows "fround n (Fin a) = Fin (fr n a)" and "0 \<le> fr n a" and "fr n a \<le> of_int hi"
proof -
  have "(0 :: rat) \<le> of_int hi" using assms by linarith
  then have "0 \<le> hi" by simp
  then have r: "in_range (of_int 0) (of_int hi) (fround n (Fin a))"
    using assms by (intro fround_range) simp_all
  then obtain b where "fl (of_int (rhe (a * 10 ^ n)) / 10 ^ n) = Fin b" by (auto elim: in_range_obtain)
  then have "fl (of_int (rhe (a * 10 ^ n)) / 10 ^ n) = Fin (fr n a)"
    by (auto simp: fl_def fr_def Let_def split: if_splits)
  then show "fround n (Fin a) = Fin (fr n a)" and "0 \<le> fr n a" and "fr n a \<le> of_int hi"
    using r by simp_all
qed

definition weighted4 :: "rat \<Rightarrow> rat \<Rightarrow> rat" where
  "weighted4 s w = fr 4 (rnd (s * w))"

lemma weighted4_Fin:
  assumes "0 \<le> s" "s \<le> 1" "0 \<le> w" "w \<le> 2"
  shows "fround 4 (fmul (Fin s) (Fin w)) = Fin (weighted4 s w)" and "0 \<le> weighted4 s w" and "weighted4 s w \<le> 2"
proof -
  have "0 \<le> s * w" and "s * w \<le> 1 * 2" using assms by (simp, intro mult_mono) simp_all
  then have r: "fl (s * w) = Fin (rnd (s * w))" "0 \<le> rnd (s * w)" "rnd (s * w) \<le> 2"
    using fl_range [of 0 "s * w" 2] by simp_all
  show "fround 4 (fmul (Fin s) (Fin w)) = Fin (weighted4 s w)" and "0 \<le> weighted4 s w" and "weighted4 s w \<le> 2"
    unfolding weighted4_def using fround_Fin [of "rnd (s * w)" 2 4] r by (simp_all add: fmul.simps del: fround.simps)
qed

lemma weighted4_mono: "s \<le> s' \<Longrightarrow> 0 \<le> w \<Longrightarrow> weighted4 s w \<le> weighted4 s' w"
  unfolding weighted4_def by (intro fr_mono rnd_mono mult_right_mono)

fun dhs_total :: "rat \<Rightarrow> (rat \<times> rat) list \<Rightarrow> rat" where
  "dhs_total t [] = t"
| "dhs_total t ((s, w) # ps) = dhs_total (rnd (t + weighted4 s w)) ps"

lemma dhs_total_mono:
  assumes "t \<le> t'" and "list_all2 (\<lambda>p q. fst p \<le> fst q \<and> snd p = snd q \<and> 0 \<le> snd p) ps qs"
  shows "dhs_total t ps \<le> dhs_total t' qs"
  using assms(2,1)
proof (induction ps qs arbitrary: t t' rule: list_all2_induct)
  case (Cons p ps q qs)
  obtain s w s' w' where pq: "p = (s, w)" "q = (s', w')" by (cases p, cases q)
  then have "weighted4 s w \<le> weighted4 s' w'" using Cons.hyps by (auto intro: weighted4_mono)
  then show ?case using Cons by (auto simp: pq intro!: Cons.IH rnd_mono add_mono)
qed simp

text \<open>The score a criterion contributes: zero when it is missing.\<close>

definition criterion_value :: "pyval dict \<Rightarrow> string \<Rightarrow> rat" where
  "criterion_value source name =
     (case pget source name of
        PDict v \<Rightarrow> (case criterion_score v of Inr x \<Rightarrow> fval x | Inl e \<Rightarrow> 0)
      | _ \<Rightarrow> 0)"

lemma clamp_score_unit: "in_range 0 1 (clamp_score x)"
  unfolding clamp_score_def Let_def fclamp_def [symmetric]
  using fround_range [of 0 1 "fclamp 0 1 y" 4 for y] fclamp_range [of 0 1] by simp

lemma rating_score_unit: "in_range 0 1 (rating_score v)"
proof -
  have "list_all (\<lambda>p. in_range 0 1 (snd p)) RATING_SCORES" by (simp add: RATING_SCORES_def fl_unit)
  then show ?thesis
    unfolding rating_score_def dget_or_def by (fastforce simp: list_all_iff dest: map_of_SomeD split: option.splits)
qed

lemma criterion_score_unit: "criterion_score v = Inr x \<Longrightarrow> in_range 0 1 x"
  by (auto simp: criterion_score_def clamp_score_unit rating_score_unit
      split: pyval.splits sum.splits py_error.splits)

lemma criterion_value_unit: "0 \<le> criterion_value source name" "criterion_value source name \<le> 1"
  using criterion_score_unit
  by (auto simp: criterion_value_def split: pyval.splits sum.splits elim!: in_range_obtain dest!: criterion_score_unit)

lemma dhs_loop_total:
  assumes "dhs_loop source ws (Fin t) cs ms = Inr (x, cs', ms')"
    and "list_all (\<lambda>p. in_range 0 2 (snd p)) ws" and "0 \<le> t" and "t \<le> of_int n" and "rnd t = t"
    and "n + 2 * int (length ws) \<le> 2 ^ 53" and "0 \<le> n"
  shows "x = Fin (dhs_total t (map (\<lambda>p. (criterion_value source (fst p), fval (snd p))) ws))
    \<and> 0 \<le> fval x \<and> fval x \<le> of_int (n + 2 * int (length ws))"
  using assms
proof (induction ws arbitrary: t cs ms n)
  case (Cons p ws)
  obtain name wf where p: "p = (name, wf)" by (cases p)
  with Cons.prems obtain w where wf: "wf = Fin w" "0 \<le> w" "w \<le> 2" by (auto elim: in_range_obtain)
  let ?s = "criterion_value source name"
  note sb = criterion_value_unit [of source name]
  note q = weighted4_Fin [OF sb wf(2,3)]
  have r: "fl (t + weighted4 ?s w) = Fin (rnd (t + weighted4 ?s w))" "0 \<le> rnd (t + weighted4 ?s w)"
      "rnd (t + weighted4 ?s w) \<le> of_int (n + 2)"
    using fl_range [of 0 "t + weighted4 ?s w" "n + 2"] Cons.prems q by simp_all
  have zero: "weighted4 0 w = 0" by (simp add: weighted4_def fr_def rhe_of_int [of 0, simplified])
  obtain cs1 ms1 where step: "dhs_loop source ws (Fin (rnd (t + weighted4 ?s w))) cs1 ms1 = Inr (x, cs', ms')"
  proof (cases "\<exists>v. pget source name = PDict v")
    case True
    then obtain v where v: "pget source name = PDict v" by blast
    then obtain y where y: "criterion_score v = Inr y" using Cons.prems(1) by (auto simp: p res_simps)
    then obtain s where s: "y = Fin s" "?s = s"
      using criterion_score_unit [OF y] v by (auto simp: criterion_value_def elim!: in_range_obtain)
    show thesis
      using that Cons.prems(1) q(1) by (simp add: p v y s wf Let_def r(1) [unfolded s(2)] del: fround.simps)
  next
    case False
    then have "?s = 0" by (auto simp: criterion_value_def split: pyval.splits)
    then show thesis using that Cons.prems(1,5) False by (auto simp: p zero split: pyval.splits)
  qed
  have "x = Fin (dhs_total (rnd (t + weighted4 ?s w)) (map (\<lambda>p. (criterion_value source (fst p), fval (snd p))) ws))
      \<and> 0 \<le> fval x \<and> fval x \<le> of_int (n + 2 + 2 * int (length ws))"
    using Cons.prems r by (intro Cons.IH [OF step]) (simp_all add: p)
  then show ?case by (auto simp: p wf algebra_simps)
qed auto

definition dhs_pairs :: "pyval dict \<Rightarrow> (rat \<times> rat) list" where
  "dhs_pairs source = map (\<lambda>p. (criterion_value source (fst p), fval (snd p))) DHS_CRITERION_WEIGHTS"

definition dhs_denominator :: rat where
  "dhs_denominator = fval (fsum (map snd DHS_CRITERION_WEIGHTS))"

definition dhs_final :: "rat \<Rightarrow> rat" where
  "dhs_final t = fr 1 (rnd (fr 4 (rnd (t / dhs_denominator)) * 10))"

lemma dhs_denominator: "fsum (map snd DHS_CRITERION_WEIGHTS) = Fin dhs_denominator" "6 < dhs_denominator"
proof -
  show "fsum (map snd DHS_CRITERION_WEIGHTS) = Fin dhs_denominator" by code_simp
  show "6 < dhs_denominator" by code_simp
qed

lemma dhs_full_marks: "dhs_final (dhs_total 0 (map (\<lambda>p. (1, fval (snd p))) DHS_CRITERION_WEIGHTS)) = 10"
  by code_simp

lemma dhs_weights_range: "list_all (\<lambda>p. in_range 0 2 (snd p)) DHS_CRITERION_WEIGHTS"
  using fl_range [of 0 _ 2] by (simp add: DHS_CRITERION_WEIGHTS_def)

lemma dhs_final_mono: "s \<le> t \<Longrightarrow> dhs_final s \<le> dhs_final t"
  unfolding dhs_final_def using dhs_denominator(2)
  by (intro fr_mono rnd_mono mult_right_mono divide_right_mono) simp_all

lemma compute_dhs_score:
  assumes "compute_dhs_risk dhs = Inr r"
  shows "dhs_score_10 r = Fin (dhs_final (dhs_total 0 (dhs_pairs (case dhs of None \<Rightarrow> [] | Some d \<Rightarrow> d))))"
    and "dhs_priority r = priority_for_dhs_score (dhs_score_10 r)"
    and "0 \<le> dhs_total 0 (dhs_pairs (case dhs of None \<Rightarrow> [] | Some d \<Rightarrow> d))"
proof -
  let ?src = "case dhs of None \<Rightarrow> [] | Some d \<Rightarrow> d"
  note D = dhs_denominator
  have nz: "Fin dhs_denominator \<noteq> Fin 0" using D(2) by auto
  obtain x cs ms where loop: "dhs_loop ?src DHS_CRITERION_WEIGHTS (Fin 0) [] [] = Inr (x, cs, ms)"
    using assms by (auto simp: compute_dhs_risk_def Let_def res_simps)
  have len: "length DHS_CRITERION_WEIGHTS = 6" by (simp add: DHS_CRITERION_WEIGHTS_def)
  have "x = Fin (dhs_total 0 (dhs_pairs ?src)) \<and> 0 \<le> fval x \<and> fval x \<le> 12"
    using dhs_loop_total [OF loop dhs_weights_range, of 0] by (auto simp: len dhs_pairs_def)
  then have x: "x = Fin (dhs_total 0 (dhs_pairs ?src))" "0 \<le> fval x" "fval x \<le> 12" by blast+
  let ?t = "dhs_total 0 (dhs_pairs ?src)"
  have q: "0 \<le> ?t / dhs_denominator" "?t / dhs_denominator \<le> 2" using x D(2) by (simp_all add: field_simps)
  then have f: "fl (?t / dhs_denominator) = Fin (rnd (?t / dhs_denominator))"
      "0 \<le> rnd (?t / dhs_denominator)" "rnd (?t / dhs_denominator) \<le> 2"
    using fl_range [of 0 "?t / dhs_denominator" 2] by simp_all
  let ?w = "fr 4 (rnd (?t / dhs_denominator))"
  have w: "fround 4 (Fin (rnd (?t / dhs_denominator))) = Fin ?w" "0 \<le> ?w" "?w \<le> 2"
    using fround_Fin [of "rnd (?t / dhs_denominator)" 2 4] f by (simp_all del: fround.simps)
  have g: "fl (?w * 10) = Fin (rnd (?w * 10))" "0 \<le> rnd (?w * 10)" "rnd (?w * 10) \<le> 20"
    using fl_range [of 0 "?w * 10" 20] w by simp_all
  have s: "fround 1 (Fin (rnd (?w * 10))) = Fin (dhs_final ?t)"
    using fround_Fin(1) [of "rnd (?w * 10)" 20 1] g by (simp add: dhs_final_def del: fround.simps)
  have "dhs_denominator \<noteq> 0" using D(2) by auto
  then have eq: "r = \<lparr>dhs_score_10 = Fin (dhs_final ?t), dhs_priority = priority_for_dhs_score (Fin (dhs_final ?t)),
      dhs_weighted_raw = Fin ?w, dhs_weights = DHS_CRITERION_WEIGHTS, dhs_criteria = cs, dhs_missing = ms,
      dhs_engine_version = DHS_RISK_ENGINE_VERSION\<rparr>"
    using assms loop by (simp add: compute_dhs_risk_def Let_def D(1) x(1) f(1) w(1) g(1) s [unfolded One_nat_def] del: fround.simps)
  show "dhs_score_10 r = Fin (dhs_final ?t)" and "dhs_priority r = priority_for_dhs_score (dhs_score_10 r)"
    by (simp_all add: eq)
  show "0 \<le> ?t" using x by simp
qed

lemma dhs_pairs_le:
  assumes "list_all (\<lambda>name. criterion_value d name \<le> criterion_value d' name) (map fst DHS_CRITERION_WEIGHTS)"
  shows "dhs_total 0 (dhs_pairs d) \<le> dhs_total 0 (dhs_pairs d')"
  using assms dhs_weights_range unfolding dhs_pairs_def
  by (intro dhs_total_mono)
     (auto simp: list_all2_map1 list_all2_map2 list_all2_same list_all_iff elim!: in_range_obtain dest!: bspec)

lemma dhs_final_range:
  assumes "0 \<le> dhs_total 0 (dhs_pairs d)"
  shows "0 \<le> dhs_final (dhs_total 0 (dhs_pairs d)) \<and> dhs_final (dhs_total 0 (dhs_pairs d)) \<le> 10"
proof
  have "dhs_final 0 = 0" by code_simp
  then show "0 \<le> dhs_final (dhs_total 0 (dhs_pairs d))" using dhs_final_mono [OF assms] by simp
  have "dhs_total 0 (dhs_pairs d) \<le> dhs_total 0 (map (\<lambda>p. (1, fval (snd p))) DHS_CRITERION_WEIGHTS)"
    unfolding dhs_pairs_def using dhs_weights_range
    by (intro dhs_total_mono) (auto simp: list_all2_map1 list_all2_map2 list_all2_same list_all_iff criterion_value_unit
        elim!: in_range_obtain dest!: bspec)
  then show "dhs_final (dhs_total 0 (dhs_pairs d)) \<le> 10"
    using dhs_final_mono dhs_full_marks by fastforce
qed

lemma int_to_float_error: "int_to_float n = Inl e \<Longrightarrow> e = OverflowError ''int too large to convert to float''"
  by (auto simp: int_to_float_def split: pyfloat.splits)

lemma float_of_str_error: "float_of_str s = Inl e \<Longrightarrow> \<exists>m. e = ValueError m"
  by (auto simp: float_of_str_def Let_def split: option.splits prod.splits if_splits)

lemma py_float_error: "py_float v = Inl e \<Longrightarrow>
    (\<exists>m. e = ValueError m) \<or> (\<exists>m. e = TypeError m) \<or> e = OverflowError ''int too large to convert to float''"
  by (cases v) (auto dest: int_to_float_error float_of_str_error)

lemma criterion_score_error:
  assumes "criterion_score v = Inl e"
  shows "e = OverflowError ''int too large to convert to float''"
proof -
  obtain x where "pget v ''score'' = x" "x \<noteq> PNone"
    and c: "(case py_float x of Inr parsed \<Rightarrow> Inr (clamp_score parsed)
       | Inl (TypeError m) \<Rightarrow> Inr (rating_score v) | Inl (ValueError m) \<Rightarrow> Inr (rating_score v)
       | Inl e \<Rightarrow> Inl e) = Inl e"
    using assms by (cases "pget v ''score''") (simp_all only: criterion_score_def pyval.case, simp_all)
  then obtain e' where e': "py_float x = Inl e'" by (cases "py_float x") auto
  show ?thesis using c e' py_float_error [OF e'] by auto
qed

lemma dhs_loop_error: "dhs_loop source ws t cs ms = Inl e \<Longrightarrow> e = OverflowError ''int too large to convert to float''"
proof (induction ws arbitrary: t cs ms)
  case (Cons p ws)
  obtain name w where p: "p = (name, w)" by (cases p)
  show ?case
  proof (cases "pget source name")
    case (PDict v)
    then show ?thesis using Cons criterion_score_error [of v e]
      by (cases "criterion_score v") (simp_all add: p Let_def del: fround.simps)
  qed (use Cons in \<open>simp_all add: p\<close>)
qed simp

lemma compute_dhs_error:
  assumes "compute_dhs_risk dhs = Inl e"
  shows "e = OverflowError ''int too large to convert to float''"
proof -
  let ?src = "case dhs of None \<Rightarrow> [] | Some d \<Rightarrow> d"
  have nz: "dhs_denominator \<noteq> 0" using dhs_denominator(2) by auto
  show ?thesis
  proof (cases "dhs_loop ?src DHS_CRITERION_WEIGHTS (Fin 0) [] []")
    case (Inr y)
    obtain x cs ms where y: "y = (x, cs, ms)" by (cases y)
    obtain z where "fdiv x (Fin dhs_denominator) = Inr z" using nz by (cases x) auto
    then have "compute_dhs_risk dhs \<noteq> Inl e" using Inr nz
      by (simp add: compute_dhs_risk_def Let_def y dhs_denominator(1))
    then show ?thesis using assms by simp
  next
    case (Inl e')
    then show ?thesis using assms dhs_loop_error [OF Inl] by (simp add: compute_dhs_risk_def Let_def)
  qed
qed

text \<open>C17. Every DHS evaluation ends: it returns a score between 0 and 10 with the priority of that score,
  or it raises the one exception the code does not catch, the OverflowError of an integer score too
  large for a float.\<close>

theorem dhs_score_range:
  "case compute_dhs_risk dhs of
     Inr r \<Rightarrow> in_range 0 10 (dhs_score_10 r) \<and> dhs_priority r = priority_for_dhs_score (dhs_score_10 r)
   | Inl e \<Rightarrow> e = OverflowError ''int too large to convert to float''"
  using compute_dhs_score [of dhs] dhs_final_range compute_dhs_error [of dhs]
  by (auto split: sum.splits)

text \<open>Raising the score of a criterion never lowers the result: when every criterion of one
  assessment scores at least as high as in another, so does the assessment, and its priority is at
  least as urgent.\<close>

theorem dhs_score_mono:
  assumes "list_all (\<lambda>name. criterion_value d name \<le> criterion_value d' name) (map fst DHS_CRITERION_WEIGHTS)"
  shows "case (compute_dhs_risk (Some d), compute_dhs_risk (Some d')) of
           (Inr r, Inr r') \<Rightarrow> fle (dhs_score_10 r) (dhs_score_10 r') \<and> dhs_priority r \<le> dhs_priority r'
         | _ \<Rightarrow> \<not> is_ok (compute_dhs_risk (Some d)) \<or> \<not> is_ok (compute_dhs_risk (Some d'))"
proof -
  have "dhs_final (dhs_total 0 (dhs_pairs d)) \<le> dhs_final (dhs_total 0 (dhs_pairs d'))"
    by (rule dhs_final_mono) (rule dhs_pairs_le [OF assms])
  then show ?thesis
    using compute_dhs_score [of "Some d"] compute_dhs_score [of "Some d'"] priorities.mono
    by (auto split: sum.splits)
qed

theorem dhs_score_mono_witness:
  "case (compute_dhs_risk (Some []), compute_dhs_risk (Some [(''asset_value'', PDict [(''rating'', PStr ''High'')])])) of
           (Inr r, Inr r') \<Rightarrow> fle (dhs_score_10 r) (dhs_score_10 r') \<and> dhs_priority r \<le> dhs_priority r'
         | _ \<Rightarrow> \<not> is_ok (compute_dhs_risk (Some [])) \<or>
                \<not> is_ok (compute_dhs_risk (Some [(''asset_value'', PDict [(''rating'', PStr ''High'')])]))"
  by (rule dhs_score_mono) code_simp

text \<open>A criterion whose score is the text ''nan'' counts as the full score: the clamp maps a NaN to 1.\<close>

theorem dhs_nan_is_full_score:
  "criterion_score [(''score'', PStr ''nan'')] = Inr (Fin 1) \<and> criterion_score [(''score'', PStr ''-inf'')] = Inr (Fin 0)"
  by code_simp

end
