(* ===== verification/Database.thy ===== *)
theory Database
  imports Values
begin

text \<open>
  The database: one record per Django model (the \<open>models.py\<close> of each app), one list of rows per
  table, and the operations of the ORM the code uses.  A row's primary key is an integer (an
  agent's is a UUID, kept as a string), a foreign key is the referenced key, a nullable column is an
  option, a JSON column is a \<open>pyval\<close> or a dict of them, a timestamp is an integer.  The columns
  \<open>created_at\<close> and \<open>updated_at\<close> are left out where no modelled operation reads them.

  \<open>find_row\<close> is \<open>objects.get(id=...)\<close>, \<open>put_row\<close> is \<open>save()\<close> of a row that was read in the same
  transaction, \<open>add_row\<close> is \<open>objects.create(...)\<close> with the next key.  The next key (\<open>next_id\<close>) is one
  above the largest key in the table.  The sequence of the database is also above every key that was
  deleted; the lemmas use of a new key only that no row has it (\<open>next_id_fresh\<close>).
\<close>

section \<open>Rows\<close>

datatype job_status = PENDING | RUNNING | COMPLETED | FAILED | CANCELLED

datatype task_status = T_QUEUED | T_RUNNING | T_COMPLETED | T_FAILED | T_CANCELLED

fun job_status_str :: "job_status \<Rightarrow> string" where
  "job_status_str PENDING = ''PENDING''"
| "job_status_str RUNNING = ''RUNNING''"
| "job_status_str COMPLETED = ''COMPLETED''"
| "job_status_str FAILED = ''FAILED''"
| "job_status_str CANCELLED = ''CANCELLED''"

record async_job =
  j_id :: int
  j_kind :: string
  j_resource :: "int option"
  j_status :: job_status
  j_request :: "pyval dict"
  j_progress :: pyval
  j_cancel_requested :: "int option"
  j_started :: "int option"
  j_finished :: "int option"
  j_result :: pyval
  j_error :: pyval
  j_created :: int

record scan_job =
  sj_id :: int
  sj_job :: int
  sj_target_ids :: "int list"
  sj_scanners :: "string list"

record run_log =
  rl_id :: int
  rl_job :: int
  rl_target :: "int option"
  rl_scanner :: string
  rl_status :: string
  rl_findings :: int
  rl_started :: "int option"
  rl_finished :: "int option"
  rl_error :: "string option"

record queued_task =
  t_id :: int
  t_job :: "int option"
  t_name :: string
  t_payload :: "pyval dict"
  t_status :: task_status
  t_attempts :: int
  t_available :: "int option"
  t_locked :: "int option"
  t_last_error :: "string option"

record discovery =
  d_id :: int
  d_job :: int
  d_scope_type :: string
  d_scope_value :: string
  d_cidr :: string
  d_executor :: string
  d_agent :: "string option"
  d_ports :: "int list"
  d_include_default_ports :: bool
  d_status :: job_status
  d_started :: "int option"
  d_finished :: "int option"
  d_error :: "string option"

record endpoint =
  e_id :: int
  e_discovery :: int
  e_host :: string
  e_port :: int
  e_transport :: string
  e_detected :: string
  e_suggested :: string
  e_promoted :: bool
  e_target :: "int option"
  e_metrics :: pyval

record target =
  tg_id :: int
  tg_host :: string
  tg_display_name :: "string option"
  tg_ip :: "string option"
  tg_port :: int
  tg_protocol_hint :: string
  tg_sni :: "string option"
  tg_transport :: string
  tg_agent_enabled :: bool
  tg_agent_url :: "string option"
  tg_context :: "pyval dict"

record agent =
  ag_id :: string
  ag_hostname :: string
  ag_role :: string
  ag_url :: "string option"
  ag_capabilities :: "string list"
  ag_os :: "string option"
  ag_token_hash :: string
  ag_runtime_token :: "string option"
  ag_active :: bool
  ag_last_seen :: "int option"
  ag_token_rotated :: "int option"
  ag_created :: int

record asset =
  a_id :: int
  a_snapshot :: "int option"
  a_target :: "int option"
  a_name :: string
  a_class :: string
  a_type :: string
  a_bom_ref :: string
  a_algorithm :: string
  a_family :: string
  a_metadata :: "pyval dict"

record override =
  ov_asset :: int
  ov_sensitivity :: "string option"
  ov_lifespan_years :: "int option"
  ov_criticality :: "string option"
  ov_exposure :: "string option"
  ov_service_role :: "string option"
  ov_keys :: "string list"

record assessment =
  qa_id :: int
  qa_asset :: int
  qa_provider :: string
  qa_prompt_version :: string
  qa_prompt_payload :: "pyval dict"
  qa_summary :: string
  qa_threat_scenarios :: "string list"
  qa_recommendation :: string
  qa_dhs_criteria :: "pyval dict"
  qa_confidence :: pyfloat

record dependency =
  dp_snapshot :: int
  dp_source :: int
  dp_target :: int
  dp_relation :: string
  dp_semantic :: string

record snapshot =
  sn_id :: int
  sn_scan_job :: "int option"
  sn_serial :: string
  sn_summary :: pyval
  sn_validation_errors :: "pyval list"
  sn_created :: int

record risk_score =
  rs_id :: int
  rs_snapshot :: "int option"
  rs_asset :: int
  rs_score :: pyfloat
  rs_tier :: string
  rs_factors :: "pyval dict"
  rs_computed :: int

record risk_weights =
  rw_id :: int
  rw_wA :: pyfloat
  rw_wD :: pyfloat
  rw_wE :: pyfloat
  rw_wL :: pyfloat
  rw_wC :: pyfloat

record perf_run =
  pr_id :: int
  pr_snapshot :: int
  pr_baseline :: "int option"
  pr_trigger :: string
  pr_profile :: string
  pr_status :: job_status
  pr_thresholds :: "pyval dict"
  pr_environment :: "pyval dict"
  pr_summary :: "pyval dict"
  pr_started :: "int option"
  pr_completed :: "int option"
  pr_created :: int

record perf_result =
  pf_id :: int
  pf_run :: int
  pf_asset :: int
  pf_status :: string
  pf_compatibility :: string
  pf_negotiated :: string
  pf_metrics :: "pyval dict"
  pf_deltas :: "pyval dict"
  pf_signals :: "pyval list"
  pf_recommendation :: string
  pf_error :: string
  pf_measured :: int

record db =
  db_jobs :: "async_job list"
  db_scan_jobs :: "scan_job list"
  db_run_logs :: "run_log list"
  db_tasks :: "queued_task list"
  db_discoveries :: "discovery list"
  db_endpoints :: "endpoint list"
  db_targets :: "target list"
  db_agents :: "agent list"
  db_assets :: "asset list"
  db_overrides :: "override list"
  db_assessments :: "assessment list"
  db_dependencies :: "dependency list"
  db_snapshots :: "snapshot list"
  db_risk_scores :: "risk_score list"
  db_weights :: "risk_weights list"
  db_runs :: "perf_run list"
  db_results :: "perf_result list"

definition empty_db :: db where
  "empty_db = \<lparr>db_jobs = [], db_scan_jobs = [], db_run_logs = [], db_tasks = [], db_discoveries = [],
     db_endpoints = [], db_targets = [], db_agents = [], db_assets = [], db_overrides = [],
     db_assessments = [], db_dependencies = [], db_snapshots = [], db_risk_scores = [],
     db_weights = [], db_runs = [], db_results = []\<rparr>"

section \<open>The ORM\<close>

definition find_row :: "('r \<Rightarrow> 'k) \<Rightarrow> 'k \<Rightarrow> 'r list \<Rightarrow> 'r option" where
  "find_row key k rows = List.find (\<lambda>r. key r = k) rows"

definition get_row :: "('r \<Rightarrow> 'k) \<Rightarrow> 'k \<Rightarrow> 'r list \<Rightarrow> py_error + 'r" where
  "get_row key k rows =
     (case find_row key k rows of Some r \<Rightarrow> Inr r | None \<Rightarrow> Inl (DoesNotExist ''matching query does not exist.''))"

definition put_row :: "('r \<Rightarrow> 'k) \<Rightarrow> 'r \<Rightarrow> 'r list \<Rightarrow> 'r list" where
  "put_row key r rows = map (\<lambda>s. if key s = key r then r else s) rows"

definition next_id :: "('r \<Rightarrow> int) \<Rightarrow> 'r list \<Rightarrow> int" where
  "next_id key rows = 1 + foldr max (map key rows) 0"

definition add_row :: "'r \<Rightarrow> 'r list \<Rightarrow> 'r list" where
  "add_row r rows = rows @ [r]"

text \<open>\<open>order_by(a, b).first()\<close> on integer columns.\<close>

definition first_by :: "('r \<Rightarrow> int) \<Rightarrow> ('r \<Rightarrow> int) \<Rightarrow> 'r list \<Rightarrow> 'r option" where
  "first_by f g rows = (case sort_key f (sort_key g rows) of [] \<Rightarrow> None | r # _ \<Rightarrow> Some r)"

lemma find_row_Some: "find_row key k rows = Some r \<Longrightarrow> r \<in> set rows \<and> key r = k"
  by (auto simp: find_row_def find_Some_iff)

lemma find_row_None: "find_row key k rows = None \<longleftrightarrow> k \<notin> key ` set rows"
  by (auto simp: find_row_def find_None_iff)

lemma find_row_Cons: "find_row key k (r # rows) = (if key r = k then Some r else find_row key k rows)"
  by (simp add: find_row_def)

lemma find_row_Nil [simp]: "find_row key k [] = None"
  by (simp add: find_row_def)

lemma find_put_same: "find_row key (key r) rows = Some s \<Longrightarrow> find_row key (key r) (put_row key r rows) = Some r"
  by (induction rows) (auto simp: find_row_Cons put_row_def split: if_splits)

lemma find_put_other: "k \<noteq> key r \<Longrightarrow> find_row key k (put_row key r rows) = find_row key k rows"
  by (induction rows) (auto simp: find_row_Cons put_row_def)

lemma find_put: "find_row key k (put_row key r rows) =
    (if k = key r then (if find_row key k rows = None then None else Some r) else find_row key k rows)"
proof (cases "k = key r")
  case True
  show ?thesis
  proof (cases "find_row key k rows")
    case None
    then show ?thesis using True by (auto simp: find_row_None put_row_def image_iff split: if_splits)
  qed (simp add: True find_put_same)
qed (simp add: find_put_other)

lemma keys_put [simp]: "map key (put_row key r rows) = map key rows"
  by (induction rows) (auto simp: put_row_def)

lemma set_put: "set (put_row key r rows) \<subseteq> insert r (set rows)"
  by (auto simp: put_row_def)

lemma next_id_fresh: "r \<in> set rows \<Longrightarrow> key r < next_id key rows"
proof -
  have "x \<in> set xs \<Longrightarrow> x \<le> foldr max xs (0 :: int)" for x xs
    by (induction xs) (auto simp: le_max_iff_disj)
  from this [of "key r" "map key rows"] show "r \<in> set rows \<Longrightarrow> key r < next_id key rows"
    by (force simp: next_id_def)
qed

lemma find_next_id [simp]: "find_row key (next_id key rows) rows = None"
  using next_id_fresh [of _ rows key] by (fastforce simp: find_row_None)

lemma find_add: "find_row key k (add_row r rows) =
    (case find_row key k rows of Some s \<Rightarrow> Some s | None \<Rightarrow> if key r = k then Some r else None)"
  by (induction rows) (auto simp: find_row_Cons add_row_def)

lemma find_add_fresh: "key r = next_id key rows \<Longrightarrow> k \<noteq> key r \<Longrightarrow> find_row key k (add_row r rows) = find_row key k rows"
  by (auto simp: find_add split: option.splits)

lemma distinct_add: "distinct (map key rows) \<Longrightarrow> key r = next_id key rows \<Longrightarrow> distinct (map key (add_row r rows))"
  using next_id_fresh [of _ rows key] by (fastforce simp: add_row_def)

lemma get_row_Inr [res_simps]: "get_row key k rows = Inr r \<longleftrightarrow> find_row key k rows = Some r"
  by (auto simp: get_row_def split: option.splits)

lemma first_by_Some: "first_by f g rows = Some r \<Longrightarrow> r \<in> set rows"
  unfolding first_by_def by (metis list.set_intros(1) list.simps(4,5) neq_Nil_conv option.inject option.simps(3) set_sort)

lemma first_by_None: "first_by f g rows = None \<longleftrightarrow> rows = []"
  unfolding first_by_def by (auto split: list.splits) (metis list.set(1) set_empty set_sort)+

lemma first_by_least:
  assumes "first_by f g rows = Some r" and "s \<in> set rows"
  shows "f r < f s \<or> f r = f s \<and> g r \<le> g s"
proof -
  let ?xs = "sort_key f (sort_key g rows)"
  obtain rest where xs: "?xs = r # rest" using assms(1) by (auto simp: first_by_def split: list.splits)
  have s: "s \<in> set ?xs" using assms(2) by simp
  have "sorted (map f ?xs)" by simp
  then have le: "f r \<le> f s" using s by (auto simp: xs)
  show ?thesis
  proof (cases "f r = f s")
    case True
    let ?p = "\<lambda>x. f x = f r"
    have stab: "filter ?p ?xs = filter ?p (sort_key g rows)" by (rule sort_key_stable)
    have "sorted (map g (filter ?p (sort_key g rows)))" by (intro sorted_filter) simp
    then have "sorted (map g (filter ?p ?xs))" unfolding stab .
    moreover have "filter ?p ?xs = r # filter ?p rest" by (simp add: xs)
    moreover have "s \<in> set (filter ?p ?xs)" using s True by simp
    ultimately have "g r \<le> g s" by auto
    with True show ?thesis by simp
  qed (use le in simp)
qed

lemma distinct_singleton:
  assumes "distinct xs" and "set xs = {x}"
  shows "xs = [x]"
proof -
  have "length xs = 1" using distinct_card [OF assms(1)] assms(2) by simp
  then show ?thesis using assms(2) by (cases xs) auto
qed

lemma filter_put_row:
  assumes "distinct (map key rows)" and "filter p rows = [r]" and "key r' = key r" and "p r'"
  shows "filter p (put_row key r' rows) = [r']"
    and "\<And>q. \<not> q r \<Longrightarrow> \<not> q r' \<Longrightarrow> filter q (put_row key r' rows) = filter q rows"
proof -
  have r: "r \<in> set rows" "p r" using assms(2) by (metis filter_eq_ConsD in_set_conv_decomp)+
  have eq: "key s = key r \<longleftrightarrow> s = r" if "s \<in> set rows" for s
    using that r(1) assms(1) by (auto simp: distinct_map inj_on_def)
  have only: "s = r" if "s \<in> set rows" "p s" for s
  proof -
    have "s \<in> set (filter p rows)" using that by simp
    then show ?thesis by (simp add: assms(2))
  qed
  have put: "put_row key r' rows = map (\<lambda>s. if s = r then r' else s) rows"
    using eq by (simp add: put_row_def assms(3))
  have "filter p (map (\<lambda>s. if s = r then r' else s) xs) = map (\<lambda>s. r') (filter p xs)" if "set xs \<subseteq> set rows" for xs
    using that assms(4) r(2) only by (induction xs) auto
  from this [of rows] show "filter p (put_row key r' rows) = [r']" by (simp add: put assms(2))
  have "filter q (map (\<lambda>s. if s = r then r' else s) xs) = filter q xs" if "\<not> q r" "\<not> q r'" for q xs
    using that by (induction xs) auto
  then show "\<And>q. \<not> q r \<Longrightarrow> \<not> q r' \<Longrightarrow> filter q (put_row key r' rows) = filter q rows" by (simp add: put)
qed

lemma find_row_unique:
  assumes "distinct (map key rows)" and "r \<in> set rows"
  shows "find_row key (key r) rows = Some r"
  using assms by (induction rows) (auto simp: find_row_Cons image_iff)

lemma map_put_row:
  assumes "distinct (map key rows)" and "r \<in> set rows" and "key r' = key r" and "f r' = f r"
  shows "map f (put_row key r' rows) = map f rows"
proof -
  have "s = r" if "s \<in> set rows" "key s = key r" for s
    using that assms(1,2) by (auto simp: distinct_map inj_on_def)
  then show ?thesis using assms(3,4) by (auto simp: put_row_def)
qed

lemma list_all_put_row: "list_all P rows \<Longrightarrow> P r \<Longrightarrow> list_all P (put_row key r rows)"
  using set_put [of key r rows] by (auto simp: list_all_iff)

lemma filter_same_key:
  assumes "distinct (map key rows)" and "r \<in> set rows"
  shows "filter (\<lambda>y. key y = key r) rows = [r]"
  using assms
proof (induction rows)
  case (Cons x rows)
  have "filter (\<lambda>y. key y = key r) rows = []" if "key x = key r"
    using Cons.prems(1) that by (auto simp: filter_empty_conv image_iff)
  then show ?case using Cons by (cases "x = r") (simp_all, metis image_eqI)
qed simp

text \<open>A target and an asset with default columns, the input of several witnesses.\<close>

definition plain_asset :: "int \<Rightarrow> string \<Rightarrow> asset" where
  "plain_asset i alg = \<lparr>a_id = i, a_snapshot = Some 1, a_target = None, a_name = ''asset'', a_class = ''crypto'',
     a_type = ''certificate'', a_bom_ref = ''ref'', a_algorithm = alg, a_family = [], a_metadata = []\<rparr>"

definition sample_target :: target where
  "sample_target = \<lparr>tg_id = 6, tg_host = ''web'', tg_display_name = None, tg_ip = None, tg_port = 443, tg_protocol_hint = ''TLS'',
     tg_sni = None, tg_transport = ''TCP'', tg_agent_enabled = False, tg_agent_url = None, tg_context = []\<rparr>"

lemma plain_asset_simps [simp]:
  "a_id (plain_asset i alg) = i" "a_snapshot (plain_asset i alg) = Some 1" "a_target (plain_asset i alg) = None"
  "a_algorithm (plain_asset i alg) = alg" "a_class (plain_asset i alg) = ''crypto''"
  by (simp_all add: plain_asset_def)

lemma empty_db_simps [simp]:
  "db_jobs empty_db = []" "db_tasks empty_db = []" "db_scan_jobs empty_db = []" "db_discoveries empty_db = []"
  "db_endpoints empty_db = []" "db_targets empty_db = []" "db_risk_scores empty_db = []" "db_assets empty_db = []"
  "db_runs empty_db = []" "db_results empty_db = []" "db_agents empty_db = []" "db_overrides empty_db = []"
  "db_snapshots empty_db = []" "db_weights empty_db = []" "db_run_logs empty_db = []"
  by (simp_all add: empty_db_def)

end
