(* ===== verification/Job_Queue.thy ===== *)
theory Job_Queue
  imports Database
begin

text \<open>
  \<open>apps/jobs/services.py\<close> and \<open>apps/jobs/api.py\<close>: the queue of background work.  An API call
  creates an \<open>AsyncJob\<close> and enqueues a \<open>QueuedTask\<close>; a worker picks the oldest available task of its
  kind, claims it in a transaction, runs its payload outside of any transaction, and completes or
  fails it in another transaction.  A function that raises inside a transaction rolls it back, so
  the left value carries no new database.

  \<open>run_worker\<close> is the shape the five \<open>process_*_task\<close> functions share.  The locale \<open>queue_worker\<close> is
  the contract of the three transactions of a worker; its lemmas hold for every worker: a claimed
  task is never claimed again, a cancelled one is skipped without effect, a processed one ends in
  a terminal state with one more attempt.  The theories of the workers interpret it.

  Timestamps are serialised as the integers they are.
\<close>

section \<open>Rows of the queue\<close>

abbreviation task_of :: "db \<Rightarrow> int \<Rightarrow> queued_task option" where
  "task_of d i \<equiv> find_row t_id i (db_tasks d)"

abbreviation job_of :: "db \<Rightarrow> int \<Rightarrow> async_job option" where
  "job_of d i \<equiv> find_row j_id i (db_jobs d)"

definition set_task :: "queued_task \<Rightarrow> db \<Rightarrow> db" where
  "set_task t d = d\<lparr>db_tasks := put_row t_id t (db_tasks d)\<rparr>"

definition set_job :: "async_job \<Rightarrow> db \<Rightarrow> db" where
  "set_job j d = d\<lparr>db_jobs := put_row j_id j (db_jobs d)\<rparr>"

definition set_discovery :: "discovery \<Rightarrow> db \<Rightarrow> db" where
  "set_discovery x d = d\<lparr>db_discoveries := put_row d_id x (db_discoveries d)\<rparr>"

definition or_else :: "'a option \<Rightarrow> 'a \<Rightarrow> 'a option" where
  "or_else x y = (case x of Some v \<Rightarrow> Some v | None \<Rightarrow> Some y)"

definition exc_str :: "py_error \<Rightarrow> string" where
  "exc_str e =
     (case e of ValueError m \<Rightarrow> m | TypeError m \<Rightarrow> m | KeyError k \<Rightarrow> repr_str k | OverflowError m \<Rightarrow> m
      | ZeroDivisionError m \<Rightarrow> m | AttributeError m \<Rightarrow> m | IndexError m \<Rightarrow> m | IntegrityError m \<Rightarrow> m
      | DoesNotExist m \<Rightarrow> m | RuntimeError m \<Rightarrow> m | HttpError n m \<Rightarrow> m | ParseError m \<Rightarrow> m
      | ProviderUnavailable m \<Rightarrow> m | ProviderError m \<Rightarrow> m)"

section \<open>Services\<close>

definition dt :: "int option \<Rightarrow> pyval" where
  "dt x = (case x of None \<Rightarrow> PNone | Some t \<Rightarrow> PInt t)"

definition opt_int :: "int option \<Rightarrow> pyval" where
  "opt_int x = (case x of None \<Rightarrow> PNone | Some n \<Rightarrow> PInt n)"

definition opt_str :: "string option \<Rightarrow> pyval" where
  "opt_str x = (case x of None \<Rightarrow> PNone | Some s \<Rightarrow> PStr s)"

definition serialize_job :: "async_job \<Rightarrow> pyval" where
  "serialize_job j =
     (let resource = (case j_resource j of Some r \<Rightarrow> if r = 0 then j_id j else r | None \<Rightarrow> j_id j)
      in PDict
        [(''id'', PInt (j_id j)), (''kind'', PStr (j_kind j)),
         (''resource'', PDict [(''kind'', PStr (j_kind j)), (''id'', PInt resource)]),
         (''status'', PStr (job_status_str (j_status j))), (''progress'', j_progress j),
         (''started_at'', dt (j_started j)), (''cancel_requested_at'', dt (j_cancel_requested j)),
         (''finished_at'', dt (j_finished j)), (''result'', j_result j), (''error'', j_error j)])"

definition serialize_run_log :: "db \<Rightarrow> run_log \<Rightarrow> py_error + pyval" where
  "serialize_run_log d l =
     rbind (get_row sj_job (rl_job l) (db_scan_jobs d)) (\<lambda>sj.
       case rl_target l of None \<Rightarrow> Inl (AttributeError ''host'')
       | Some ti \<Rightarrow>
         rbind (get_row tg_id ti (db_targets d)) (\<lambda>t.
           Inr (PDict
             [(''id'', PInt (rl_id l)), (''scan_job_id'', PInt (sj_id sj)), (''target_id'', PInt ti),
              (''target_label'', PStr (tg_host t @ '':'' @ str_int (tg_port t))),
              (''scanner_kind'', PStr (rl_scanner l)), (''status'', PStr (rl_status l)),
              (''findings_count'', PInt (rl_findings l)), (''started_at'', dt (rl_started l)),
              (''finished_at'', dt (rl_finished l)), (''error'', opt_str (rl_error l))])))"

definition enqueue_task :: "string \<Rightarrow> pyval dict \<Rightarrow> int option \<Rightarrow> int \<Rightarrow> db \<Rightarrow> db" where
  "enqueue_task task_name payload job now d =
     d\<lparr>db_tasks := add_row
         \<lparr>t_id = next_id t_id (db_tasks d), t_job = job, t_name = task_name, t_payload = payload,
          t_status = T_QUEUED, t_attempts = 0, t_available = Some now, t_locked = None,
          t_last_error = None\<rparr> (db_tasks d)\<rparr>"

definition enqueue_scan_job :: "scan_job \<Rightarrow> int \<Rightarrow> db \<Rightarrow> db" where
  "enqueue_scan_job sj now d =
     enqueue_task ''scan_job''
       [(''scan_job_id'', PInt (sj_id sj)), (''target_ids'', PList (map PInt (sj_target_ids sj))),
        (''scanners'', PList (map PStr (sj_scanners sj)))]
       (Some (sj_job sj)) now d"

definition cancel_queued_tasks :: "int \<Rightarrow> db \<Rightarrow> db" where
  "cancel_queued_tasks job d =
     d\<lparr>db_tasks := map (\<lambda>t. if t_job t = Some job \<and> t_status t \<in> {T_QUEUED, T_RUNNING}
                           then t\<lparr>t_status := T_CANCELLED, t_last_error := Some ''cancel_requested''\<rparr>
                           else t) (db_tasks d)\<rparr>"

definition sync_cancelled_resource :: "async_job \<Rightarrow> int \<Rightarrow> db \<Rightarrow> db" where
  "sync_cancelled_resource j finished d =
     (if j_kind j \<noteq> ''discovery'' then d
      else (case find_row d_job (j_id j) (db_discoveries d) of None \<Rightarrow> d
            | Some x \<Rightarrow>
                set_discovery
                  (x\<lparr>d_status := CANCELLED, d_finished := or_else (d_finished x) finished,
                     d_error := (case d_error x of None \<Rightarrow> Some ''cancel_requested''
                                 | Some m \<Rightarrow> if m = [] then Some ''cancel_requested'' else Some m)\<rparr>) d))"

text \<open>\<open>request_cancel\<close> on a job row read in the same transaction: whether the request is accepted, and
  the database after it.\<close>

definition request_cancel :: "async_job \<Rightarrow> int \<Rightarrow> db \<Rightarrow> bool \<times> db" where
  "request_cancel j now d =
     (if j_status j = CANCELLED then
        (let j' = j\<lparr>j_cancel_requested := or_else (j_cancel_requested j) now,
                    j_finished := or_else (j_finished j) now\<rparr>
         in (True, sync_cancelled_resource j' (the (j_finished j')) (cancel_queued_tasks (j_id j) (set_job j' d))))
      else if j_status j \<in> {COMPLETED, FAILED} then (False, d)
      else if j_kind j = ''recompute'' \<and> j_status j = RUNNING then (False, d)
      else
        (let j' = j\<lparr>j_status := CANCELLED, j_cancel_requested := or_else (j_cancel_requested j) now,
                    j_finished := or_else (j_finished j) now\<rparr>
         in (True, sync_cancelled_resource j' now (cancel_queued_tasks (j_id j) (set_job j' d)))))"

section \<open>The API of jobs\<close>

datatype response = Response int pyval

definition error_response :: "string \<Rightarrow> string \<Rightarrow> pyval dict \<Rightarrow> int \<Rightarrow> response" where
  "error_response err msg details status =
     Response status (PDict [(''error'', PStr err), (''message'', PStr msg), (''details'', PDict details)])"

definition page_envelope :: "pyval list \<Rightarrow> int \<Rightarrow> int \<Rightarrow> int option \<Rightarrow> pyval" where
  "page_envelope items offset limit tot =
     PDict [(''items'', PList items),
            (''total'', PInt (case tot of None \<Rightarrow> int (length items) | Some n \<Rightarrow> n)),
            (''offset'', PInt offset), (''limit'', PInt limit)]"

definition empty_page :: "int \<Rightarrow> int \<Rightarrow> pyval" where
  "empty_page offset limit = page_envelope [] offset limit (Some 0)"

definition page_slice :: "int \<Rightarrow> int \<Rightarrow> 'a list \<Rightarrow> 'a list" where
  "page_slice offset limit xs = take (nat limit) (drop (nat offset) xs)"

text \<open>\<open>order_by\<close> of a nullable column: nulls are the largest values.\<close>

definition order_jobs :: "string \<Rightarrow> async_job list \<Rightarrow> async_job list" where
  "order_jobs order_col jobs =
     (let asc = (\<lambda>f. sort_key (\<lambda>j. the (f j)) (filter (\<lambda>j. f j \<noteq> None) jobs) @ filter (\<lambda>j. f j = None) jobs)
      in if order_col = ''id'' then asc (\<lambda>j. Some (j_id j))
         else if order_col = ''-id'' then rev (asc (\<lambda>j. Some (j_id j)))
         else if order_col = ''created_at'' then asc (\<lambda>j. Some (j_created j))
         else if order_col = ''-created_at'' then rev (asc (\<lambda>j. Some (j_created j)))
         else if order_col = ''finished_at'' then asc j_finished
         else rev (asc j_finished))"

definition list_jobs ::
  "db \<Rightarrow> job_status option \<Rightarrow> string option \<Rightarrow> string \<Rightarrow> int \<Rightarrow> int \<Rightarrow> pyval" where
  "list_jobs d status kind order_col offset limit =
     (let q1 = (case status of None \<Rightarrow> db_jobs d | Some s \<Rightarrow> filter (\<lambda>j. j_status j = s) (db_jobs d));
          q2 = (case kind of None \<Rightarrow> q1 | Some k \<Rightarrow> filter (\<lambda>j. j_kind j = k) q1);
          q = order_jobs order_col q2;
          items = map serialize_job (page_slice offset limit q)
      in if items = [] then empty_page offset limit
         else page_envelope items offset limit (Some (int (length q))))"

definition SCANNER_IDS :: "string list" where
  "SCANNER_IDS =
     [''network'', ''agent.cert_store'', ''agent.pkg_keyring'', ''agent.ssh_userkey'',
      ''agent.ssh_config'', ''agent.keystore'', ''agent.app_cert_files'',
      ''agent.private_key_files'', ''agent.app_config'']"

definition new_job :: "string \<Rightarrow> pyval dict \<Rightarrow> int \<Rightarrow> db \<Rightarrow> async_job" where
  "new_job kind request now d =
     \<lparr>j_id = next_id j_id (db_jobs d), j_kind = kind, j_resource = None, j_status = PENDING,
      j_request = request, j_progress = PNone, j_cancel_requested = None, j_started = None,
      j_finished = None, j_result = PNone, j_error = PNone, j_created = now\<rparr>"

definition add_job :: "async_job \<Rightarrow> db \<Rightarrow> db" where
  "add_job j d = d\<lparr>db_jobs := add_row j (db_jobs d)\<rparr>"

text \<open>The body of the request has been validated against \<open>ScanJobCreate\<close>; a request that fails the
  validation gets a 422 from the framework.\<close>

definition valid_scan_request :: "int list \<Rightarrow> string list \<Rightarrow> bool" where
  "valid_scan_request target_ids scanners =
     (target_ids \<noteq> [] \<and> scanners \<noteq> [] \<and> list_all (\<lambda>s. s \<in> set SCANNER_IDS) scanners)"

definition create_scan_job :: "int list \<Rightarrow> string list \<Rightarrow> int \<Rightarrow> db \<Rightarrow> response \<times> db" where
  "create_scan_job target_ids scanners now d =
     (if \<not> valid_scan_request target_ids scanners then
        (error_response ''unprocessable'' ''Request validation failed.'' [] 422, d)
      else
        (let j = new_job ''scan_job''
                   [(''target_ids'', PList (map PInt target_ids)), (''scanners'', PList (map PStr scanners))] now d;
             sj = \<lparr>sj_id = next_id sj_id (db_scan_jobs d), sj_job = j_id j,
                   sj_target_ids = target_ids, sj_scanners = scanners\<rparr>;
             j' = j\<lparr>j_resource := Some (sj_id sj)\<rparr>;
             d1 = (add_job j' d)\<lparr>db_scan_jobs := add_row sj (db_scan_jobs d)\<rparr>
         in (Response 202 (serialize_job j'), enqueue_scan_job sj now d1)))"

definition get_job :: "int \<Rightarrow> db \<Rightarrow> response" where
  "get_job i d =
     (case job_of d i of
        None \<Rightarrow> error_response ''not_found'' ''Resource not found.'' [] 404
      | Some j \<Rightarrow> Response 200 (serialize_job j))"

definition cancel_job :: "int \<Rightarrow> int \<Rightarrow> db \<Rightarrow> response \<times> db" where
  "cancel_job i now d =
     (case job_of d i of
        None \<Rightarrow> (error_response ''not_found'' ''Resource not found.'' [] 404, d)
      | Some j \<Rightarrow>
          (case request_cancel j now d of
             (False, d') \<Rightarrow>
               (error_response ''job_not_cancellable'' ''Job is not cancellable.''
                  [(''job_id'', PInt (j_id j)), (''kind'', PStr (j_kind j)),
                   (''status'', PStr (job_status_str (j_status j)))] 409, d')
           | (True, d') \<Rightarrow>
               (case job_of d' i of
                  Some j' \<Rightarrow> (Response 202 (serialize_job j'), d')
                | None \<Rightarrow> (error_response ''not_found'' ''Resource not found.'' [] 404, d))))"

definition list_job_logs :: "int \<Rightarrow> int \<Rightarrow> int \<Rightarrow> db \<Rightarrow> py_error + response" where
  "list_job_logs i offset limit d =
     (case job_of d i of
        None \<Rightarrow> Inr (error_response ''not_found'' ''Resource not found.'' [] 404)
      | Some j \<Rightarrow>
          if find_row sj_job i (db_scan_jobs d) = None
          then Inr (Response 200 (page_envelope [] offset limit (Some 0)))
          else
            (let q = sort_key rl_id (filter (\<lambda>l. rl_job l = i \<and> rl_target l \<noteq> None) (db_run_logs d))
             in rbind (rmapM (serialize_run_log d) (page_slice offset limit q)) (\<lambda>items.
                  Inr (Response 200 (page_envelope items offset limit (Some (int (length q))))))))"

section \<open>Workers\<close>

text \<open>\<open>process_next_*_task\<close>: the oldest available queued task of a name.\<close>

definition ready_tasks :: "string \<Rightarrow> int \<Rightarrow> db \<Rightarrow> queued_task list" where
  "ready_tasks name now d =
     filter (\<lambda>t. t_name t = name \<and> t_status t = T_QUEUED
               \<and> (case t_available t of None \<Rightarrow> False | Some a \<Rightarrow> a \<le> now)) (db_tasks d)"

definition next_task :: "string \<Rightarrow> int \<Rightarrow> db \<Rightarrow> queued_task option" where
  "next_task name now d = first_by (\<lambda>t. the (t_available t)) t_id (ready_tasks name now d)"

text \<open>The first lines of every claim: \<open>None\<close> for a cancelled task, the locked row otherwise.\<close>

definition lock_task :: "int \<Rightarrow> int \<Rightarrow> db \<Rightarrow> py_error + queued_task option" where
  "lock_task i now d =
     rbind (get_row t_id i (db_tasks d)) (\<lambda>t.
       if t_status t = T_CANCELLED then Inr None
       else if t_status t \<noteq> T_QUEUED then Inl (ValueError (''QueuedTask '' @ str_int i @ '' is not queued''))
       else Inr (Some (t\<lparr>t_status := T_RUNNING, t_attempts := t_attempts t + 1, t_locked := Some now\<rparr>)))"

text \<open>The whole of a worker: the claim, the payload's work (which may raise, and whose changes of the
  database stay), then the completion or the failure.\<close>

definition run_worker ::
  "(int \<Rightarrow> int \<Rightarrow> db \<Rightarrow> py_error + pyval dict option \<times> db)
   \<Rightarrow> (pyval dict \<Rightarrow> db \<Rightarrow> db \<times> (py_error + pyval dict))
   \<Rightarrow> (int \<Rightarrow> int \<Rightarrow> pyval dict \<Rightarrow> db \<Rightarrow> py_error + pyval dict \<times> db)
   \<Rightarrow> (int \<Rightarrow> int \<Rightarrow> py_error \<Rightarrow> db \<Rightarrow> py_error + db)
   \<Rightarrow> int \<Rightarrow> int \<Rightarrow> db \<Rightarrow> db \<times> (py_error + pyval dict)" where
  "run_worker claim run finish give_up i now d =
     (case claim i now d of
        Inl e \<Rightarrow> (d, Inl e)
      | Inr (None, d1) \<Rightarrow> (d1, Inr [])
      | Inr (Some payload, d1) \<Rightarrow>
          (case run payload d1 of
             (d2, Inl e) \<Rightarrow>
               (case give_up i now e d2 of Inl e' \<Rightarrow> (d2, Inl e') | Inr d3 \<Rightarrow> (d3, Inl e))
           | (d2, Inr res) \<Rightarrow>
               (case finish i now res d2 of Inl e' \<Rightarrow> (d2, Inl e') | Inr (res', d3) \<Rightarrow> (d3, Inr res'))))"


section \<open>The contract of a worker\<close>

lemma task_of_set_task: "task_of (set_task t d) k =
    (if k = t_id t then (if task_of d k = None then None else Some t) else task_of d k)"
  by (simp add: set_task_def find_put)

lemma task_of_set_job [simp]: "task_of (set_job j d) k = task_of d k"
  by (simp add: set_job_def)

lemma task_of_set_discovery [simp]: "task_of (set_discovery x d) k = task_of d k"
  by (simp add: set_discovery_def)

lemma job_of_set_job: "job_of (set_job j d) k =
    (if k = j_id j then (if job_of d k = None then None else Some j) else job_of d k)"
  by (simp add: set_job_def find_put)

lemma job_of_set_task [simp]: "job_of (set_task t d) k = job_of d k"
  by (simp add: set_task_def)

lemma job_of_set_discovery [simp]: "job_of (set_discovery x d) k = job_of d k"
  by (simp add: set_discovery_def)

lemma task_of_enqueue: "task_of d k = Some t \<Longrightarrow> task_of (enqueue_task n p j now d) k = Some t"
  by (simp add: enqueue_task_def find_add)

lemma task_of_id: "task_of d k = Some t \<Longrightarrow> t_id t = k"
  by (blast dest: find_row_Some)

lemma job_of_id: "job_of d k = Some j \<Longrightarrow> j_id j = k"
  by (blast dest: find_row_Some)

lemmas row_simps = task_of_set_task job_of_set_job task_of_enqueue task_of_id job_of_id

lemma lock_task_cases:
  assumes "task_of d i = Some t"
  shows "lock_task i now d =
    (if t_status t = T_CANCELLED then Inr None
     else if t_status t = T_QUEUED
       then Inr (Some (t\<lparr>t_status := T_RUNNING, t_attempts := t_attempts t + 1, t_locked := Some now\<rparr>))
     else Inl (ValueError (''QueuedTask '' @ str_int i @ '' is not queued'')))"
  using assms by (simp add: lock_task_def get_row_def)

lemma lock_task_missing: "task_of d i = None \<Longrightarrow> lock_task i now d = Inl (DoesNotExist ''matching query does not exist.'')"
  by (simp add: lock_task_def get_row_def)

definition terminal_task :: "queued_task \<Rightarrow> bool" where
  "terminal_task t = (t_status t \<in> {T_COMPLETED, T_FAILED, T_CANCELLED})"

text \<open>What the payload's work may do to the row of its own task: anything but remove it, change its
  attempts, or give it another status than the one it has or cancelled (a cancellation that arrives
  meanwhile).\<close>

definition keeps_task :: "(pyval dict \<Rightarrow> db \<Rightarrow> db \<times> (py_error + pyval dict)) \<Rightarrow> int \<Rightarrow> bool" where
  "keeps_task run i = (\<forall>p d t. task_of d i = Some t \<longrightarrow>
     (\<exists>t'. task_of (fst (run p d)) i = Some t' \<and> t_attempts t' = t_attempts t
       \<and> t_status t' \<in> {t_status t, T_CANCELLED}))"

locale queue_worker =
  fixes claim :: "int \<Rightarrow> int \<Rightarrow> db \<Rightarrow> py_error + pyval dict option \<times> db"
    and finish :: "int \<Rightarrow> int \<Rightarrow> pyval dict \<Rightarrow> db \<Rightarrow> py_error + pyval dict \<times> db"
    and give_up :: "int \<Rightarrow> int \<Rightarrow> py_error \<Rightarrow> db \<Rightarrow> py_error + db"
  assumes claim_cancelled:
      "task_of d i = Some t \<Longrightarrow> t_status t = T_CANCELLED \<Longrightarrow> claim i now d = Inr (None, d)"
    and claim_busy:
      "task_of d i = Some t \<Longrightarrow> t_status t \<notin> {T_CANCELLED, T_QUEUED} \<Longrightarrow>
         claim i now d = Inl (ValueError (''QueuedTask '' @ str_int i @ '' is not queued''))"
    and claim_locks:
      "task_of d i = Some t \<Longrightarrow> t_status t = T_QUEUED \<Longrightarrow> claim i now d = Inr (p, d') \<Longrightarrow>
         \<exists>t'. task_of d' i = Some t' \<and> t_attempts t' = t_attempts t + 1
              \<and> t_status t' = (if p = None then T_CANCELLED else T_RUNNING)"
    and finish_ends:
      "task_of d i = Some t \<Longrightarrow> finish i now r d = Inr (r', d') \<Longrightarrow>
         \<exists>t'. task_of d' i = Some t' \<and> t_attempts t' = t_attempts t
              \<and> t_status t' \<in> {T_COMPLETED, T_CANCELLED}"
    and give_up_ends:
      "task_of d i = Some t \<Longrightarrow> give_up i now e d = Inr d' \<Longrightarrow>
         \<exists>t'. task_of d' i = Some t' \<and> t_attempts t' = t_attempts t \<and> t_status t' = T_FAILED"
begin

lemma busy_is_refused:
  assumes "task_of d i = Some t" and "t_status t \<notin> {T_CANCELLED, T_QUEUED}"
  shows "run_worker claim run finish give_up i now d =
    (d, Inl (ValueError (''QueuedTask '' @ str_int i @ '' is not queued'')))"
  using claim_busy [OF assms] by (simp add: run_worker_def)

lemma cancelled_is_skipped:
  assumes "task_of d i = Some t" and "t_status t = T_CANCELLED"
  shows "run_worker claim run finish give_up i now d = (d, Inr [])"
  using claim_cancelled [OF assms] by (simp add: run_worker_def)

text \<open>A normal return leaves the task terminal, with one more attempt.\<close>

lemma return_ends:
  assumes "task_of d i = Some t" and "t_status t = T_QUEUED" and "keeps_task run i"
    and "run_worker claim run finish give_up i now d = (d', Inr r)"
  shows "\<exists>t'. task_of d' i = Some t' \<and> t_attempts t' = t_attempts t + 1
              \<and> t_status t' \<in> {T_COMPLETED, T_CANCELLED}"
proof -
  obtain p d1 where c: "claim i now d = Inr (p, d1)"
    using assms(4) by (cases "claim i now d") (auto simp: run_worker_def)
  note l = claim_locks [OF assms(1,2) c]
  show ?thesis
  proof (cases p)
    case None
    then show ?thesis using assms(4) c l by (auto simp: run_worker_def)
  next
    case (Some payload)
    obtain d2 x where r: "run payload d1 = (d2, x)" by (cases "run payload d1")
    obtain res where x: "x = Inr res"
      using assms(4) by (cases x) (auto simp: run_worker_def c Some r split: sum.splits)
    obtain t1 where t1: "task_of d1 i = Some t1" "t_attempts t1 = t_attempts t + 1" using l by blast
    then obtain t2 where t2: "task_of d2 i = Some t2" "t_attempts t2 = t_attempts t + 1"
      using assms(3) r unfolding keeps_task_def by (metis fst_conv)
    obtain r' d3 where f: "finish i now res d2 = Inr (r', d3)"
      using assms(4) by (cases "finish i now res d2") (auto simp: run_worker_def c Some r x)
    then have "d' = d3" using assms(4) by (simp add: run_worker_def c Some r x)
    then show ?thesis using finish_ends [OF t2(1) f] t2(2) by simp
  qed
qed

text \<open>An exception leaves the task failed, unless one of the three transactions raised it.\<close>

lemma raise_fails:
  assumes "task_of d i = Some t" and "t_status t = T_QUEUED" and "keeps_task run i"
    and "claim i now d = Inr (Some payload, d1)" and "run payload d1 = (d2, Inl e)"
    and "give_up i now e d2 = Inr d3"
  shows "run_worker claim run finish give_up i now d = (d3, Inl e)
    \<and> (\<exists>t'. task_of d3 i = Some t' \<and> t_status t' = T_FAILED \<and> t_attempts t' = t_attempts t + 1)"
proof -
  obtain t1 where "task_of d1 i = Some t1" "t_attempts t1 = t_attempts t + 1"
    using claim_locks [OF assms(1,2,4)] by blast
  then obtain t2 where t2: "task_of d2 i = Some t2" "t_attempts t2 = t_attempts t + 1"
    using assms(3,5) unfolding keeps_task_def by (metis fst_conv)
  show ?thesis using give_up_ends [OF t2(1) assms(6)] t2(2) assms(4,5,6) by (auto simp: run_worker_def)
qed

text \<open>At most once: after a return, another run of the same task does nothing.\<close>

lemma at_most_once:
  assumes "task_of d i = Some t" and "t_status t = T_QUEUED" and "keeps_task run i"
    and "run_worker claim run finish give_up i now d = (d', Inr r)"
  shows "fst (run_worker claim later_run finish give_up i later d') = d'"
proof -
  obtain t' where "task_of d' i = Some t'" "t_status t' \<in> {T_COMPLETED, T_CANCELLED}"
    using return_ends [OF assms] by blast
  then show ?thesis
    using busy_is_refused [where d = d' and i = i and now = later and run = later_run]
      cancelled_is_skipped [where d = d' and i = i and now = later and run = later_run] by auto
qed

lemma not_queued_stays:
  assumes "task_of d i = Some t" and "t_status t \<noteq> T_QUEUED"
  shows "fst (run_worker claim run finish give_up i now d) = d"
  using assms busy_is_refused [OF assms(1)] cancelled_is_skipped [OF assms(1)]
  by (cases "t_status t = T_CANCELLED") auto

text \<open>The status of the task for every outcome, the exceptions of the work and of the transactions
  included, once the claim has been made.\<close>

lemma claimed_ends:
  assumes "task_of d i = Some t" and "t_status t = T_QUEUED" and "keeps_task run i"
    and "claim i now d = Inr c" and "run_worker claim run finish give_up i now d = (d', x)"
  shows "\<exists>t'. task_of d' i = Some t' \<and> t_attempts t' = t_attempts t + 1
    \<and> t_status t' \<in> (if is_ok x then {T_COMPLETED, T_CANCELLED} else {T_FAILED, T_RUNNING, T_CANCELLED})"
proof (cases x)
  case (Inr r)
  then show ?thesis using return_ends [OF assms(1,2,3), of now d' r] assms(5) by (simp add: is_ok_def)
next
  case (Inl e)
  obtain p d1 where c: "c = (p, d1)" by (cases c)
  obtain payload where p: "p = Some payload"
    using assms(4,5) Inl by (cases p) (auto simp: run_worker_def c)
  obtain t1 where t1: "task_of d1 i = Some t1" "t_attempts t1 = t_attempts t + 1" "t_status t1 = T_RUNNING"
    using claim_locks [OF assms(1,2) assms(4) [unfolded c]] p by auto
  obtain d2 y where r: "run payload d1 = (d2, y)" by (cases "run payload d1")
  obtain t2 where t2: "task_of d2 i = Some t2" "t_attempts t2 = t_attempts t + 1" "t_status t2 \<in> {T_RUNNING, T_CANCELLED}"
    using assms(3) t1 r unfolding keeps_task_def by (metis fst_conv)
  show ?thesis
  proof (cases "d' = d2")
    case True
    then show ?thesis using t2 Inl by (auto simp: is_ok_def)
  next
    case False
    then obtain e' where y: "y = Inl e'" and g: "give_up i now e' d2 = Inr d'"
      using assms(4,5) Inl by (cases y) (auto simp: run_worker_def c p r split: sum.splits)
    then show ?thesis using give_up_ends [OF t2(1) g] t2(2) Inl by (auto simp: is_ok_def)
  qed
qed

text \<open>Whatever the outcome, the work is not done a second time.\<close>

lemma processed_once:
  assumes "task_of d i = Some t" and "t_status t = T_QUEUED" and "keeps_task run i"
    and "run_worker claim run finish give_up i now d = (d', x)"
  shows "(\<exists>e. claim i now d = Inl e \<and> x = Inl e \<and> d' = d)
    \<or> (\<exists>t'. task_of d' i = Some t' \<and> t_attempts t' = t_attempts t + 1
          \<and> t_status t' \<in> (if is_ok x then {T_COMPLETED, T_CANCELLED} else {T_FAILED, T_RUNNING, T_CANCELLED})
          \<and> fst (run_worker claim again finish give_up i later d') = d')"
proof (cases "claim i now d")
  case (Inl e)
  then show ?thesis using assms(4) by (simp add: run_worker_def)
next
  case (Inr c)
  obtain t' where t: "task_of d' i = Some t'" "t_attempts t' = t_attempts t + 1"
      "t_status t' \<in> (if is_ok x then {T_COMPLETED, T_CANCELLED} else {T_FAILED, T_RUNNING, T_CANCELLED})"
    using claimed_ends [OF assms(1-3) Inr assms(4)] by blast
  then have "t_status t' \<noteq> T_QUEUED" by (auto split: if_splits)
  then show ?thesis using t not_queued_stays [OF t(1)] by blast
qed

end

section \<open>Cancellation\<close>

lemma job_of_cancel_queued [simp]: "job_of (cancel_queued_tasks k d) i = job_of d i"
  by (simp add: cancel_queued_tasks_def)

lemma job_of_sync [simp]: "job_of (sync_cancelled_resource j f d) i = job_of d i"
  by (auto simp: sync_cancelled_resource_def split: option.splits)

lemma tasks_sync [simp]: "db_tasks (sync_cancelled_resource j f d) = db_tasks d"
  by (auto simp: sync_cancelled_resource_def set_discovery_def split: option.splits)

lemma tasks_set_job [simp]: "db_tasks (set_job j d) = db_tasks d"
  by (simp add: set_job_def)

lemma or_else_Some [simp]: "\<exists>z. or_else x y = Some z" "or_else (Some v) y = Some v"
  by (cases x) (simp_all add: or_else_def)

text \<open>The cancellable states, as the code decides them.\<close>

definition cancellable :: "async_job \<Rightarrow> bool" where
  "cancellable j = (j_status j = CANCELLED \<or> j_status j = PENDING
     \<or> j_status j = RUNNING \<and> j_kind j \<noteq> ''recompute'')"

lemma request_cancel_accepts: "fst (request_cancel j now d) = cancellable j"
  by (cases "j_status j") (auto simp: request_cancel_def cancellable_def Let_def)

lemma request_cancel_refused: "\<not> cancellable j \<Longrightarrow> request_cancel j now d = (False, d)"
  by (cases "j_status j") (auto simp: request_cancel_def cancellable_def Let_def)

lemma request_cancel_job:
  assumes "job_of d i = Some j" and "cancellable j"
  shows "\<exists>j'. job_of (snd (request_cancel j now d)) i = Some j' \<and> j_status j' = CANCELLED
           \<and> j_cancel_requested j' \<noteq> None \<and> j_finished j' \<noteq> None"
  using assms job_of_id [OF assms(1)]
  by (cases "j_status j") (auto simp: request_cancel_def cancellable_def Let_def row_simps)

lemma request_cancel_tasks:
  assumes "cancellable j" and "t \<in> set (db_tasks (snd (request_cancel j now d)))" and "t_job t = Some (j_id j)"
  shows "t_status t \<in> {T_COMPLETED, T_FAILED, T_CANCELLED}"
proof -
  have "db_tasks (snd (request_cancel j now d)) = db_tasks (cancel_queued_tasks (j_id j) d)"
    using assms(1) by (cases "j_status j") (auto simp: request_cancel_def cancellable_def Let_def cancel_queued_tasks_def)
  then obtain u where "u \<in> set (db_tasks d)"
      "t = (if t_job u = Some (j_id j) \<and> t_status u \<in> {T_QUEUED, T_RUNNING}
            then u\<lparr>t_status := T_CANCELLED, t_last_error := Some ''cancel_requested''\<rparr> else u)"
    using assms(2) by (auto simp: cancel_queued_tasks_def)
  then show ?thesis using assms(3) by (cases "t_status u") (auto split: if_splits)
qed

lemma request_cancel_other_tasks:
  assumes "cancellable j"
  shows "filter (\<lambda>t. t_job t \<noteq> Some (j_id j)) (db_tasks (snd (request_cancel j now d)))
    = filter (\<lambda>t. t_job t \<noteq> Some (j_id j)) (db_tasks d)"
proof -
  have "db_tasks (snd (request_cancel j now d)) = db_tasks (cancel_queued_tasks (j_id j) d)"
    using assms by (cases "j_status j") (auto simp: request_cancel_def cancellable_def Let_def cancel_queued_tasks_def)
  moreover have "filter (\<lambda>t. t_job t \<noteq> Some k) (map (\<lambda>t. if t_job t = Some k \<and> p t then f t else t) ts)
      = filter (\<lambda>t. t_job t \<noteq> Some k) ts" if "\<And>t. t_job (f t) = t_job t" for k p ts and f :: "queued_task \<Rightarrow> queued_task"
    by (induction ts) (auto simp: that)
  ultimately show ?thesis by (simp add: cancel_queued_tasks_def)
qed

lemma request_cancel_other_jobs: "k \<noteq> j_id j \<Longrightarrow> job_of (snd (request_cancel j now d)) k = job_of d k"
  by (simp add: request_cancel_def Let_def job_of_set_job)

text \<open>The answer of a refused cancellation.\<close>

definition not_cancellable :: "async_job \<Rightarrow> response" where
  "not_cancellable j =
     error_response ''job_not_cancellable'' ''Job is not cancellable.''
       [(''job_id'', PInt (j_id j)), (''kind'', PStr (j_kind j)), (''status'', PStr (job_status_str (j_status j)))] 409"

text \<open>C13. The cancel endpoint answers 404 for an unknown job and changes nothing.  A pending job is accepted
  with 202: it is cancelled with its finish time set, no task of it is left queued or running, and every
  other job and every task of another job is as before.  A completed or failed job, and a recompute that
  is running, are refused with 409 (job_not_cancellable) and nothing changes.  Another running job is
  accepted with 202 and its cancellation time is set.  (Nothing is claimed of a job already cancelled.)\<close>

theorem cancel_job_effect:
  "case job_of d i of
     None \<Rightarrow> cancel_job i now d = (error_response ''not_found'' ''Resource not found.'' [] 404, d)
   | Some j \<Rightarrow>
       (case j_status j of
          PENDING \<Rightarrow>
            \<exists>d' j'. cancel_job i now d = (Response 202 (serialize_job j'), d') \<and> job_of d' i = Some j'
              \<and> j_status j' = CANCELLED \<and> j_finished j' \<noteq> None
              \<and> list_all terminal_task (filter (\<lambda>t. t_job t = Some i) (db_tasks d'))
              \<and> filter (\<lambda>t. t_job t \<noteq> Some i) (db_tasks d') = filter (\<lambda>t. t_job t \<noteq> Some i) (db_tasks d)
              \<and> (\<forall>k. k = i \<or> job_of d' k = job_of d k)
        | CANCELLED \<Rightarrow> True
        | RUNNING \<Rightarrow>
            (if j_kind j = ''recompute''
             then cancel_job i now d = (not_cancellable j, d)
             else \<exists>d' j'. cancel_job i now d = (Response 202 (serialize_job j'), d') \<and> job_of d' i = Some j'
                    \<and> j_cancel_requested j' \<noteq> None)
        | _ \<Rightarrow> cancel_job i now d = (not_cancellable j, d))"
proof (cases "job_of d i")
  case (Some j)
  note ji = job_of_id [OF Some]
  have refused: "cancel_job i now d = (not_cancellable j, d)" if "\<not> cancellable j"
    using Some request_cancel_refused [OF that, of now d] by (simp add: cancel_job_def not_cancellable_def)
  have accepted: "\<exists>d' j'. cancel_job i now d = (Response 202 (serialize_job j'), d') \<and> job_of d' i = Some j'
            \<and> j_status j' = CANCELLED \<and> j_cancel_requested j' \<noteq> None \<and> j_finished j' \<noteq> None
            \<and> list_all terminal_task (filter (\<lambda>t. t_job t = Some i) (db_tasks d'))
            \<and> filter (\<lambda>t. t_job t \<noteq> Some i) (db_tasks d') = filter (\<lambda>t. t_job t \<noteq> Some i) (db_tasks d)
            \<and> (\<forall>k. k = i \<or> job_of d' k = job_of d k)" if c: "cancellable j"
  proof -
    obtain d' where r: "request_cancel j now d = (True, d')"
      using request_cancel_accepts [of j now d] c by (cases "request_cancel j now d") auto
    obtain j' where j': "job_of d' i = Some j'" "j_status j' = CANCELLED" "j_cancel_requested j' \<noteq> None" "j_finished j' \<noteq> None"
      using request_cancel_job [OF Some c, of now] by (auto simp: r)
    have "list_all terminal_task (filter (\<lambda>t. t_job t = Some i) (db_tasks d'))"
      using request_cancel_tasks [OF c, of _ now d] ji by (auto simp: r list_all_iff terminal_task_def)
    moreover have "filter (\<lambda>t. t_job t \<noteq> Some i) (db_tasks d') = filter (\<lambda>t. t_job t \<noteq> Some i) (db_tasks d)"
      using request_cancel_other_tasks [OF c, of now d] ji by (simp add: r)
    moreover have "\<forall>k. k = i \<or> job_of d' k = job_of d k"
      using request_cancel_other_jobs [of _ j now d] ji by (auto simp: r)
    ultimately show ?thesis using Some r j' by (simp add: cancel_job_def)
  qed
  show ?thesis
  proof (cases "cancellable j")
    case True
    then show ?thesis using Some accepted [OF True] unfolding cancellable_def
      by (auto split: job_status.split)
  next
    case False
    then show ?thesis using Some refused [OF False] unfolding cancellable_def
      by (auto split: job_status.split)
  qed
qed (simp add: cancel_job_def)

section \<open>Rows for the witnesses\<close>

definition sample_job :: "string \<Rightarrow> job_status \<Rightarrow> async_job" where
  "sample_job kind status =
     \<lparr>j_id = 4, j_kind = kind, j_resource = Some 2, j_status = status, j_request = [], j_progress = PNone,
      j_cancel_requested = None, j_started = None, j_finished = None, j_result = PNone, j_error = PNone, j_created = 0\<rparr>"

definition sample_task :: "string \<Rightarrow> pyval dict \<Rightarrow> queued_task" where
  "sample_task name payload =
     \<lparr>t_id = 9, t_job = Some 4, t_name = name, t_payload = payload, t_status = T_QUEUED, t_attempts = 0,
      t_available = Some 0, t_locked = None, t_last_error = None\<rparr>"

lemma sample_task_simps [simp]:
  "t_id (sample_task n p) = 9" "t_job (sample_task n p) = Some 4" "t_payload (sample_task n p) = p"
  "t_status (sample_task n p) = T_QUEUED" "t_attempts (sample_task n p) = 0"
  by (simp_all add: sample_task_def)

lemma sample_job_simps [simp]:
  "j_id (sample_job k s) = 4" "j_status (sample_job k s) = s" "j_kind (sample_job k s) = k"
  by (simp_all add: sample_job_def)

end
