(* ===== verification/Recompute.thy ===== *)
theory Recompute
  imports Risk_Engine Dhs_Engine Job_Queue
begin

text \<open>
  \<open>apps/risk/services.py\<close> with the context functions of \<open>apps/assets/services.py\<close>: the risk score of
  an asset is computed from its algorithm and its effective context (the asset's override before
  the target's context) and stored in its one \<open>RiskScore\<close> row; a recompute task does that for a
  snapshot, a target or an asset.  A payload's work runs outside a transaction, so an exception in
  the middle keeps the scores already stored: the functions return the database together with the
  result.

  The lemmas give the precedence of the context, the effect of one update (one row per asset), and
  that the worker meets the contract of \<open>queue_worker\<close>.
\<close>

section \<open>The effective context of an asset\<close>

definition CONTEXT_FIELDS :: "string list" where
  "CONTEXT_FIELDS = [''sensitivity'', ''lifespan_years'', ''criticality'', ''exposure'', ''service_role'']"

definition empty_context :: "pyval dict" where
  "empty_context = map (\<lambda>f. (f, PNone)) CONTEXT_FIELDS"

definition default_context :: "pyval dict" where
  "default_context =
     [(''sensitivity'', PNone), (''lifespan_years'', PNone), (''criticality'', PNone),
      (''exposure'', PNone), (''service_role'', PNone)]"

definition override_field :: "override \<Rightarrow> string \<Rightarrow> pyval" where
  "override_field ov f =
     (if f = ''sensitivity'' then opt_str (ov_sensitivity ov)
      else if f = ''lifespan_years'' then opt_int (ov_lifespan_years ov)
      else if f = ''criticality'' then opt_str (ov_criticality ov)
      else if f = ''exposure'' then opt_str (ov_exposure ov)
      else opt_str (ov_service_role ov))"

text \<open>\<open>AssetContextOverride.save\<close> fills the list of overridden fields when it is empty.\<close>

definition save_override :: "override \<Rightarrow> override" where
  "save_override ov =
     (if ov_keys ov = [] then ov\<lparr>ov_keys := filter (\<lambda>f. override_field ov f \<noteq> PNone) CONTEXT_FIELDS\<rparr> else ov)"

definition override_to_dict :: "override option \<Rightarrow> pyval dict" where
  "override_to_dict ov =
     (case ov of None \<Rightarrow> empty_context
      | Some x \<Rightarrow> map (\<lambda>f. (f, if f \<in> set (ov_keys x) then override_field x f else PNone)) CONTEXT_FIELDS)"

definition asset_target :: "db \<Rightarrow> asset \<Rightarrow> target option" where
  "asset_target d a = (case a_target a of None \<Rightarrow> None | Some i \<Rightarrow> find_row tg_id i (db_targets d))"

definition asset_override :: "db \<Rightarrow> asset \<Rightarrow> override option" where
  "asset_override d a = find_row ov_asset (a_id a) (db_overrides d)"

definition target_context :: "db \<Rightarrow> asset \<Rightarrow> pyval dict" where
  "target_context d a =
     (case asset_target d a of None \<Rightarrow> empty_context
      | Some t \<Rightarrow> dmerge empty_context (tg_context t))"

definition effective_context :: "db \<Rightarrow> asset \<Rightarrow> override option \<Rightarrow> pyval dict" where
  "effective_context d a ov =
     (let o_vals = override_to_dict ov; t_vals = target_context d a
      in map (\<lambda>f. (f, if pget o_vals f \<noteq> PNone then pget o_vals f else pget t_vals f)) CONTEXT_FIELDS)"

definition context_sources :: "db \<Rightarrow> asset \<Rightarrow> override option \<Rightarrow> string dict" where
  "context_sources d a ov =
     (let o_vals = override_to_dict ov; t_vals = target_context d a
      in map (\<lambda>f. (f, if pget o_vals f \<noteq> PNone then ''asset_override''
                     else if pget t_vals f \<noteq> PNone then ''target'' else ''heuristic'')) CONTEXT_FIELDS)"

section \<open>Scores\<close>

definition weights_dict :: "weights \<Rightarrow> pyval dict" where
  "weights_dict w =
     [(''wA'', PFloat (wA w)), (''wD'', PFloat (wD w)), (''wE'', PFloat (wE w)),
      (''wL'', PFloat (wL w)), (''wC'', PFloat (wC w))]"

definition factors_dict :: "factors \<Rightarrow> pyval dict" where
  "factors_dict f =
     [(''a'', PFloat (f_a f)), (''d'', PFloat (f_d f)), (''e'', PFloat (f_e f)),
      (''l'', PFloat (f_l f)), (''c'', PFloat (f_c f))]"

definition sources_dict :: "sources \<Rightarrow> pyval dict" where
  "sources_dict s =
     [(''a'', PStr (s_a s)), (''d'', PStr (s_d s)), (''e'', PStr (s_e s)),
      (''l'', PStr (s_l s)), (''c'', PStr (s_c s))]"

definition dhs_to_dict :: "dhs_result \<Rightarrow> pyval dict" where
  "dhs_to_dict r =
     [(''score_10'', PFloat (dhs_score_10 r)), (''priority'', PStr (priority_str (dhs_priority r))),
      (''weighted_raw'', PFloat (dhs_weighted_raw r)),
      (''weights'', PDict (map (\<lambda>(k, v). (k, PFloat v)) (dhs_weights r))),
      (''criteria'', PDict (map (\<lambda>(k, c). (k, PDict [(''score'', PFloat (dc_score c)),
          (''weight'', PFloat (dc_weight c)), (''weighted_score'', PFloat (dc_weighted_score c))]))
          (dhs_criteria r))),
      (''missing_criteria'', PList (map PStr (dhs_missing r))),
      (''engine_version'', PStr (dhs_engine_version r))]"

definition default_weights_dict :: "db \<Rightarrow> pyval dict" where
  "default_weights_dict d =
     (case first_by rw_id rw_id (db_weights d) of None \<Rightarrow> DEFAULT_WEIGHTS
      | Some w \<Rightarrow> [(''wA'', PFloat (rw_wA w)), (''wD'', PFloat (rw_wD w)), (''wE'', PFloat (rw_wE w)),
                   (''wL'', PFloat (rw_wL w)), (''wC'', PFloat (rw_wC w))])"

text \<open>The weights that reach it are normalised ones, all five keys present; saving them is refused by
  the check constraints when a weight is out of range.\<close>

definition persist_default_weights :: "weights \<Rightarrow> db \<Rightarrow> py_error + db" where
  "persist_default_weights w d =
     (if list_all (\<lambda>x. fle (Fin (1/2)) x \<and> fle x (Fin 2)) [wA w, wD w, wE w, wL w, wC w] then
        (let row = (\<lambda>i. \<lparr>rw_id = i, rw_wA = wA w, rw_wD = wD w, rw_wE = wE w, rw_wL = wL w, rw_wC = wC w\<rparr>)
         in Inr (case first_by rw_id rw_id (db_weights d) of
              None \<Rightarrow> d\<lparr>db_weights := add_row (row (next_id rw_id (db_weights d))) (db_weights d)\<rparr>
            | Some r \<Rightarrow> d\<lparr>db_weights := put_row rw_id (row (rw_id r)) (db_weights d)\<rparr>))
      else Inl (IntegrityError ''risk_weight_range''))"

definition resolved_weights :: "pyval dict option \<Rightarrow> db \<Rightarrow> py_error + weights" where
  "resolved_weights w d = normalize_weights (Some (case w of Some x \<Rightarrow> x | None \<Rightarrow> default_weights_dict d))"

text \<open>\<open>_compute_asset_dhs_risk\<close>: nothing without an assessment.\<close>

definition asset_dhs_risk :: "db \<Rightarrow> asset \<Rightarrow> py_error + pyval dict option" where
  "asset_dhs_risk d a =
     (case find_row qa_asset (a_id a) (db_assessments d) of None \<Rightarrow> Inr None
      | Some q \<Rightarrow> rmap (\<lambda>r. Some (dhs_to_dict r)) (compute_dhs_risk (Some (qa_dhs_criteria q))))"

definition factors_column :: "risk_result \<Rightarrow> pyval dict \<Rightarrow> pyval dict option \<Rightarrow> pyval dict" where
  "factors_column r context dhs =
     dmerge (factors_dict (rr_factors r))
       [(''raw'', PFloat (rr_raw r)), (''weighted_raw'', PFloat (rr_weighted_raw r)),
        (''weighted_factors'', PDict (factors_dict (rr_weighted_factors r))),
        (''weights'', PDict (weights_dict (rr_weights r))), (''sources'', PDict (sources_dict (rr_sources r))),
        (''context'', PDict context), (''engine_version'', PStr (rr_engine_version r))]
     @ (case dhs of None \<Rightarrow> [] | Some x \<Rightarrow> if x = [] then [] else [(''dhs_risk'', PDict x)])"

text \<open>The update of one asset.  Rows beyond the first one are deleted before the first one is saved,
  and saving refuses an asset that has no snapshot.\<close>

definition upsert_asset_risk :: "asset \<Rightarrow> pyval dict \<Rightarrow> int \<Rightarrow> db \<Rightarrow> db \<times> (py_error + unit)" where
  "upsert_asset_risk a w now d =
     (let ov = asset_override d a; context = effective_context d a ov; tg = asset_target d a
      in case rbind (compute_risk (Some (a_algorithm a)) (Some (a_family a)) (Some (a_type a)) (Some context)
                 (Some w) (case tg of None \<Rightarrow> None | Some t \<Rightarrow> tg_ip t)
                 (map_option tg_protocol_hint tg) (Some (context_sources d a ov))) (\<lambda>r.
               rmap (\<lambda>dhs. (r, dhs)) (asset_dhs_risk d a)) of
           Inl e \<Rightarrow> (d, Inl e)
         | Inr (r, dhs) \<Rightarrow>
             (let cols = (\<lambda>i. \<lparr>rs_id = i, rs_snapshot = a_snapshot a, rs_asset = a_id a,
                              rs_score = Fin (of_int (rr_score r)), rs_tier = tier_str (rr_tier r),
                              rs_factors = factors_column r context dhs, rs_computed = now\<rparr>);
                  no_snapshot = Inl (IntegrityError ''snapshot_id'')
              in case sort_key rs_id (filter (\<lambda>s. rs_asset s = a_id a) (db_risk_scores d)) of
                   existing # others \<Rightarrow>
                     (let d1 = d\<lparr>db_risk_scores := filter (\<lambda>s. rs_id s \<notin> rs_id ` set others) (db_risk_scores d)\<rparr>
                      in if a_snapshot a = None then (d1, no_snapshot)
                         else (d1\<lparr>db_risk_scores := put_row rs_id (cols (rs_id existing)) (db_risk_scores d1)\<rparr>, Inr ()))
                 | [] \<Rightarrow>
                     if a_snapshot a = None then (d, no_snapshot)
                     else (d\<lparr>db_risk_scores :=
                            add_row (cols (next_id rs_id (db_risk_scores d))) (db_risk_scores d)\<rparr>, Inr ())))"

fun upsert_all :: "asset list \<Rightarrow> pyval dict \<Rightarrow> int \<Rightarrow> db \<Rightarrow> db \<times> (py_error + int)" where
  "upsert_all [] w now d = (d, Inr 0)"
| "upsert_all (a # as) w now d =
     (case upsert_asset_risk a w now d of
        (d1, Inl e) \<Rightarrow> (d1, Inl e)
      | (d1, Inr u) \<Rightarrow> (case upsert_all as w now d1 of (d2, r) \<Rightarrow> (d2, rmap (\<lambda>n. n + 1) r)))"

definition recompute_snapshot_risks :: "int \<Rightarrow> pyval dict option \<Rightarrow> int \<Rightarrow> db \<Rightarrow> db \<times> (py_error + pyval dict)" where
  "recompute_snapshot_risks sn w now d =
     (case resolved_weights w d of Inl e \<Rightarrow> (d, Inl e)
      | Inr rw \<Rightarrow>
          (let assets = sort_key a_id (filter (\<lambda>a. a_snapshot a = Some sn \<and> a_class a = ''crypto'') (db_assets d))
           in case upsert_all assets (weights_dict rw) now d of
                (d', r) \<Rightarrow> (d', rmap (\<lambda>n. [(''snapshot_id'', PInt sn), (''updated_scores_count'', PInt n)]) r)))"

definition recompute_asset_risk :: "int \<Rightarrow> pyval dict option \<Rightarrow> int \<Rightarrow> db \<Rightarrow> db \<times> (py_error + pyval dict)" where
  "recompute_asset_risk i w now d =
     (case get_row a_id i (db_assets d) of Inl e \<Rightarrow> (d, Inl e)
      | Inr a \<Rightarrow>
          (case resolved_weights w d of Inl e \<Rightarrow> (d, Inl e)
           | Inr rw \<Rightarrow>
               (case upsert_asset_risk a (weights_dict rw) now d of
                  (d', r) \<Rightarrow> (d', rmap (\<lambda>u. [(''asset_id'', PInt i), (''snapshot_id'', opt_int (a_snapshot a)),
                                           (''updated_scores_count'', PInt 1)]) r))))"

definition recompute_target_risks :: "int \<Rightarrow> pyval dict option \<Rightarrow> int \<Rightarrow> db \<Rightarrow> db \<times> (py_error + pyval dict)" where
  "recompute_target_risks tg w now d =
     (case resolved_weights w d of Inl e \<Rightarrow> (d, Inl e)
      | Inr rw \<Rightarrow>
          (let assets = sort_key a_id (filter (\<lambda>a. a_target a = Some tg \<and> a_class a = ''crypto'') (db_assets d));
               snapshots = sort (remdups (concat (map (\<lambda>a. case a_snapshot a of None \<Rightarrow> [] | Some s \<Rightarrow> [s]) assets)))
           in case upsert_all assets (weights_dict rw) now d of
                (d', r) \<Rightarrow> (d', rmap (\<lambda>n. [(''target_id'', PInt tg), (''snapshot_ids'', PList (map PInt snapshots)),
                                        (''updated_scores_count'', PInt n)]) r)))"

definition dict_or_none :: "pyval \<Rightarrow> pyval dict option" where
  "dict_or_none v = (case v of PDict x \<Rightarrow> Some x | _ \<Rightarrow> None)"

definition int_of_val :: "pyval \<Rightarrow> int" where
  "int_of_val v = (case v of PInt n \<Rightarrow> n | PBool b \<Rightarrow> (if b then 1 else 0) | _ \<Rightarrow> 0)"

text \<open>\<open>payload[k]\<close>, an identifier.\<close>

definition payload_int :: "pyval dict \<Rightarrow> string \<Rightarrow> py_error + int" where
  "payload_int p k = (case dget p k of None \<Rightarrow> Inl (KeyError k) | Some v \<Rightarrow> Inr (int_of_val v))"

definition run_recompute_payload :: "int \<Rightarrow> pyval dict \<Rightarrow> db \<Rightarrow> db \<times> (py_error + pyval dict)" where
  "run_recompute_payload now payload d =
     (case resolved_weights (dict_or_none (pget payload ''weights'')) d of Inl e \<Rightarrow> (d, Inl e)
      | Inr rw \<Rightarrow>
          (case (if truthy (pget payload ''persist_weights_as_default'') then persist_default_weights rw d else Inr d) of
             Inl e \<Rightarrow> (d, Inl e)
           | Inr d1 \<Rightarrow>
               if truthy (pget payload ''asset_id'')
               then recompute_asset_risk (int_of_val (pget payload ''asset_id'')) (Some (weights_dict rw)) now d1
               else if truthy (pget payload ''target_id'')
               then recompute_target_risks (int_of_val (pget payload ''target_id'')) (Some (weights_dict rw)) now d1
               else if truthy (pget payload ''snapshot_id'')
               then recompute_snapshot_risks (int_of_val (pget payload ''snapshot_id'')) (Some (weights_dict rw)) now d1
               else (d1, Inl (ValueError ''recompute payload requires snapshot_id, target_id, or asset_id''))))"

section \<open>The worker\<close>

definition create_recompute_job :: "int \<Rightarrow> pyval dict \<Rightarrow> int \<Rightarrow> db \<Rightarrow> async_job \<times> db" where
  "create_recompute_job sn payload now d =
     (let j = new_job ''recompute'' (dmerge [(''snapshot_id'', PInt sn)] payload) now d;
          j' = j\<lparr>j_resource := Some (j_id j)\<rparr>
      in (j', enqueue_task ''recompute'' (j_request j') (Some (j_id j')) now (add_job j' d)))"

definition create_asset_recompute_job :: "int \<Rightarrow> int \<Rightarrow> db \<Rightarrow> async_job \<times> db" where
  "create_asset_recompute_job asset now d =
     (let j = new_job ''recompute'' [(''asset_id'', PInt asset), (''reason'', PStr ''asset_context_changed'')] now d;
          j' = j\<lparr>j_resource := Some (j_id j)\<rparr>
      in (j', enqueue_task ''recompute'' (j_request j') (Some (j_id j')) now (add_job j' d)))"

definition progress_start :: pyval where
  "progress_start = PDict [(''current'', PInt 0), (''total'', PNone), (''percent'', PInt 0)]"

definition claim_recompute_task :: "int \<Rightarrow> int \<Rightarrow> db \<Rightarrow> py_error + pyval dict option \<times> db" where
  "claim_recompute_task i now d =
     rbind (lock_task i now d) (\<lambda>lock.
       case lock of None \<Rightarrow> Inr (None, d)
       | Some t \<Rightarrow>
           (case t_job t of None \<Rightarrow> Inr (Some (t_payload t), set_task t d)
            | Some ji \<Rightarrow>
                rbind (get_row j_id ji (db_jobs d)) (\<lambda>j.
                  if j_status j = CANCELLED
                  then Inr (None, set_task (t\<lparr>t_status := T_CANCELLED\<rparr>) d)
                  else Inr (Some (t_payload t),
                         set_job (j\<lparr>j_status := RUNNING, j_started := or_else (j_started j) now,
                                   j_progress := progress_start\<rparr>) (set_task t d)))))"

definition complete_recompute_task ::
  "int \<Rightarrow> int \<Rightarrow> pyval dict \<Rightarrow> db \<Rightarrow> py_error + pyval dict \<times> db" where
  "complete_recompute_task i now result d =
     rbind (get_row t_id i (db_tasks d)) (\<lambda>t.
       let d1 = set_task (t\<lparr>t_status := T_COMPLETED, t_last_error := None\<rparr>) d
       in case t_job t of None \<Rightarrow> Inr (result, d1)
          | Some ji \<Rightarrow>
              rbind (get_row j_id ji (db_jobs d)) (\<lambda>j.
                let n = dget_or result ''updated_scores_count'' (PInt 0)
                in Inr (result, set_job
                     (j\<lparr>j_status := COMPLETED,
                        j_progress := PDict [(''current'', n), (''total'', n), (''percent'', PInt 100)],
                        j_result := PDict result, j_error := PNone, j_finished := Some now\<rparr>) d1)))"

definition fail_recompute_task :: "int \<Rightarrow> int \<Rightarrow> py_error \<Rightarrow> db \<Rightarrow> py_error + db" where
  "fail_recompute_task i now exc d =
     rbind (get_row t_id i (db_tasks d)) (\<lambda>t.
       let d1 = set_task (t\<lparr>t_status := T_FAILED, t_last_error := Some (exc_str exc)\<rparr>) d
       in case t_job t of None \<Rightarrow> Inr d1
          | Some ji \<Rightarrow>
              rbind (get_row j_id ji (db_jobs d)) (\<lambda>j.
                Inr (set_job (j\<lparr>j_status := FAILED, j_error := PDict [(''message'', PStr (exc_str exc))],
                               j_finished := Some now\<rparr>) d1)))"

definition process_recompute_task :: "int \<Rightarrow> int \<Rightarrow> db \<Rightarrow> db \<times> (py_error + pyval dict)" where
  "process_recompute_task i now d =
     run_worker claim_recompute_task (run_recompute_payload now) complete_recompute_task
       fail_recompute_task i now d"

definition process_next_recompute_task :: "int \<Rightarrow> db \<Rightarrow> db \<times> (py_error + pyval dict option)" where
  "process_next_recompute_task now d =
     (case next_task ''recompute'' now d of None \<Rightarrow> (d, Inr None)
      | Some t \<Rightarrow> (case process_recompute_task (t_id t) now d of (d', r) \<Rightarrow> (d', rmap Some r)))"

section \<open>Serialisation\<close>

definition normalize_factors :: "pyval dict \<Rightarrow> pyval dict" where
  "normalize_factors factors =
     map (\<lambda>k. (k, dget_or factors k (dget_or factors (upper k) (PInt 0)))) [''a'', ''d'', ''e'', ''l'', ''c'']"

definition serialized_dhs_risk :: "risk_score \<Rightarrow> pyval" where
  "serialized_dhs_risk s =
     (case pget (rs_factors s) ''dhs_risk'' of PDict x \<Rightarrow> PDict x | _ \<Rightarrow> PNone)"

definition serialize_asset_risk_summary :: "risk_score \<Rightarrow> py_error + pyval" where
  "serialize_asset_risk_summary s =
     rmap (\<lambda>n. PDict [(''score'', PInt n), (''tier'', PStr (rs_tier s)), (''dhs_risk'', serialized_dhs_risk s)])
       (fround_int (rs_score s))"

definition serialize_risk_detail :: "risk_score \<Rightarrow> py_error + pyval" where
  "serialize_risk_detail s =
     (let f = normalize_factors (rs_factors s);
          ones = PDict [(''wA'', PInt 1), (''wD'', PInt 1), (''wE'', PInt 1), (''wL'', PInt 1), (''wC'', PInt 1)]
      in rmap (\<lambda>n. PDict
           [(''score'', PInt n), (''tier'', PStr (rs_tier s)), (''factor_a'', pget f ''a''),
            (''factor_d'', pget f ''d''), (''factor_e'', pget f ''e''), (''factor_l'', pget f ''l''),
            (''factor_c'', pget f ''c''), (''weights'', dget_or (rs_factors s) ''weights'' ones),
            (''dhs_risk'', serialized_dhs_risk s)]) (fround_int (rs_score s)))"

definition serialize_risk_score :: "db \<Rightarrow> risk_score \<Rightarrow> py_error + pyval" where
  "serialize_risk_score d s =
     rbind (get_row a_id (rs_asset s) (db_assets d)) (\<lambda>a.
     rbind (fround_int (rs_score s)) (\<lambda>n.
       Inr (PDict
         [(''asset_id'', PInt (rs_asset s)), (''asset_name'', PStr (a_name a)), (''asset_type'', PStr (a_type a)),
          (''score'', PInt n), (''tier'', PStr (rs_tier s)), (''factors'', PDict (normalize_factors (rs_factors s))),
          (''dhs_risk'', serialized_dhs_risk s), (''computed_at'', PInt (rs_computed s))])))"


section \<open>Context\<close>

lemma pget_override: "f \<in> set CONTEXT_FIELDS \<Longrightarrow> pget (override_to_dict (Some x)) f =
    (if f \<in> set (ov_keys x) then override_field x f else PNone)"
  by (auto simp: override_to_dict_def CONTEXT_FIELDS_def pget_def dget_or_def)

lemma pget_effective: "f \<in> set CONTEXT_FIELDS \<Longrightarrow> pget (effective_context d a ov) f =
    (if pget (override_to_dict ov) f \<noteq> PNone then pget (override_to_dict ov) f else pget (target_context d a) f)"
  by (auto simp: effective_context_def Let_def CONTEXT_FIELDS_def pget_def dget_or_def)

lemma dget_sources: "f \<in> set CONTEXT_FIELDS \<Longrightarrow> dget (context_sources d a ov) f =
    Some (if pget (override_to_dict ov) f \<noteq> PNone then ''asset_override''
          else if pget (target_context d a) f \<noteq> PNone then ''target'' else ''heuristic'')"
  by (auto simp: context_sources_def Let_def CONTEXT_FIELDS_def dget_def)

text \<open>The effective context and its sources agree field by field: a field comes from the asset's
  override when that has a value, otherwise from the target, and it is empty exactly when its source
  is the heuristic.\<close>

theorem context_precedence:
  assumes "f \<in> set CONTEXT_FIELDS"
  shows "(dget (context_sources d a ov) f = Some ''asset_override'' \<and>
            pget (effective_context d a ov) f = pget (override_to_dict ov) f \<and> pget (effective_context d a ov) f \<noteq> PNone)
       \<or> (dget (context_sources d a ov) f = Some ''target'' \<and> pget (override_to_dict ov) f = PNone \<and>
            pget (effective_context d a ov) f = pget (target_context d a) f \<and> pget (effective_context d a ov) f \<noteq> PNone)
       \<or> (dget (context_sources d a ov) f = Some ''heuristic'' \<and> pget (effective_context d a ov) f = PNone)"
  using assms by (simp add: pget_effective dget_sources)

theorem context_precedence_witness:
  "let ov = Some \<lparr>ov_asset = 1, ov_sensitivity = None, ov_lifespan_years = None, ov_criticality = None,
                  ov_exposure = Some ''dmz'', ov_service_role = None, ov_keys = [''exposure'']\<rparr>;
       a = plain_asset 1 ''RSA''; f = ''exposure''; d = empty_db
   in (dget (context_sources d a ov) f = Some ''asset_override'' \<and>
            pget (effective_context d a ov) f = pget (override_to_dict ov) f \<and> pget (effective_context d a ov) f \<noteq> PNone)
       \<or> (dget (context_sources d a ov) f = Some ''target'' \<and> pget (override_to_dict ov) f = PNone \<and>
            pget (effective_context d a ov) f = pget (target_context d a) f \<and> pget (effective_context d a ov) f \<noteq> PNone)
       \<or> (dget (context_sources d a ov) f = Some ''heuristic'' \<and> pget (effective_context d a ov) f = PNone)"
  unfolding Let_def by (rule context_precedence) (simp add: CONTEXT_FIELDS_def)

section \<open>One row per asset\<close>

definition rows_of_asset :: "int \<Rightarrow> db \<Rightarrow> risk_score list" where
  "rows_of_asset i d = filter (\<lambda>s. rs_asset s = i) (db_risk_scores d)"

text \<open>What the current data say of an asset under given weights, and the row that stores it.\<close>

definition evaluate_asset :: "db \<Rightarrow> asset \<Rightarrow> pyval dict \<Rightarrow> py_error + risk_result \<times> pyval dict option" where
  "evaluate_asset d a w =
     rbind (compute_risk (Some (a_algorithm a)) (Some (a_family a)) (Some (a_type a))
              (Some (effective_context d a (asset_override d a))) (Some w)
              (case asset_target d a of None \<Rightarrow> None | Some t \<Rightarrow> tg_ip t) (map_option tg_protocol_hint (asset_target d a))
              (Some (context_sources d a (asset_override d a))))
       (\<lambda>r. rmap (\<lambda>dhs. (r, dhs)) (asset_dhs_risk d a))"

definition is_evaluation :: "db \<Rightarrow> asset \<Rightarrow> pyval dict \<Rightarrow> int \<Rightarrow> risk_score \<Rightarrow> bool" where
  "is_evaluation d a w now s \<longleftrightarrow>
     (case evaluate_asset d a w of
        Inl e \<Rightarrow> False
      | Inr (r, dhs) \<Rightarrow>
          rs_asset s = a_id a \<and> rs_snapshot s = a_snapshot a \<and> rs_computed s = now
          \<and> rs_score s = Fin (of_int (rr_score r)) \<and> rs_tier s = tier_str (rr_tier r)
          \<and> rs_factors s = factors_column r (effective_context d a (asset_override d a)) dhs)"

lemma evaluate_frame [simp]:
  "evaluate_asset (d\<lparr>db_risk_scores := R\<rparr>) a w = evaluate_asset d a w"
  "is_evaluation (d\<lparr>db_risk_scores := R\<rparr>) a w now s = is_evaluation d a w now s"
proof -
  let ?d = "d\<lparr>db_risk_scores := R\<rparr>"
  have t: "asset_target ?d b = asset_target d b" for b by (simp add: asset_target_def cong: option.case_cong)
  have tc: "target_context ?d b = target_context d b" for b
    by (simp add: target_context_def t [unfolded asset_target_def] t cong: option.case_cong)
  have c: "effective_context ?d b ov = effective_context d b ov" "context_sources ?d b ov = context_sources d b ov"
    "asset_override ?d b = asset_override d b" "asset_dhs_risk ?d b = asset_dhs_risk d b" for b ov
    by (simp_all add: effective_context_def context_sources_def asset_override_def asset_dhs_risk_def tc)
  show "evaluate_asset (d\<lparr>db_risk_scores := R\<rparr>) a w = evaluate_asset d a w"
    by (simp add: evaluate_asset_def c t)
  then show "is_evaluation (d\<lparr>db_risk_scores := R\<rparr>) a w now s = is_evaluation d a w now s"
    unfolding is_evaluation_def c by simp
qed

lemma keep_first_row:
  assumes "distinct (map rs_id R)" and "sort_key rs_id (filter (\<lambda>s. rs_asset s = i) R) = e # es"
  shows "filter (\<lambda>s. rs_asset s = i) (filter (\<lambda>s. rs_id s \<notin> rs_id ` set es) R) = [e]"
    and "k \<noteq> i \<Longrightarrow> filter (\<lambda>s. rs_asset s = k) (filter (\<lambda>s. rs_id s \<notin> rs_id ` set es) R) = filter (\<lambda>s. rs_asset s = k) R"
proof -
  have inj: "inj_on rs_id (set R)" and dist: "distinct R" using assms(1) by (auto simp: distinct_map)
  have S: "set (e # es) = {s \<in> set R. rs_asset s = i}" using arg_cong [OF assms(2), of set] by auto
  have "distinct (e # es)" using assms(2) dist by (metis distinct_filter distinct_sort)
  then have e: "e \<in> set R" "rs_asset e = i" "e \<notin> set es" "set es \<subseteq> set R" "\<forall>s\<in>set es. rs_asset s = i"
    using S by auto
  have mem: "rs_id s \<in> rs_id ` set es \<longleftrightarrow> s \<in> set es" if "s \<in> set R" for s
    using that e(4) inj by (auto simp: inj_on_def)
  have "filter (\<lambda>s. rs_id s \<notin> rs_id ` set es) R = filter (\<lambda>s. s \<notin> set es) R"
    using mem by (intro filter_cong) auto
  moreover have "set (filter (\<lambda>s. rs_asset s = i) (filter (\<lambda>s. s \<notin> set es) R)) = {e}" using S e by auto
  ultimately show "filter (\<lambda>s. rs_asset s = i) (filter (\<lambda>s. rs_id s \<notin> rs_id ` set es) R) = [e]"
    using dist by (intro distinct_singleton) simp_all
  show "k \<noteq> i \<Longrightarrow> filter (\<lambda>s. rs_asset s = k) (filter (\<lambda>s. rs_id s \<notin> rs_id ` set es) R) = filter (\<lambda>s. rs_asset s = k) R"
    using e(5) mem by (auto simp: filter_filter intro!: filter_cong)
qed

lemma rows_of_upsert:
  assumes "distinct (map rs_id (db_risk_scores d))" and "upsert_asset_risk a w now d = (d', x)"
  shows "i \<noteq> a_id a \<Longrightarrow> rows_of_asset i d' = rows_of_asset i d"
    and "x = Inr u \<Longrightarrow> \<exists>s. rows_of_asset (a_id a) d' = [s] \<and> in_range 0 100 (rs_score s) \<and> rs_snapshot s = a_snapshot a
           \<and> is_evaluation d a w now s"
    and "distinct (map rs_id (db_risk_scores d'))"
    and "x = Inl e \<Longrightarrow> evaluate_asset d a w = Inl e \<or> a_snapshot a = None"
    and "d' = d\<lparr>db_risk_scores := db_risk_scores d'\<rparr>"
proof -
  let ?R = "db_risk_scores d"
  let ?P = "(i \<noteq> a_id a \<longrightarrow> rows_of_asset i d' = rows_of_asset i d) \<and> distinct (map rs_id (db_risk_scores d'))
    \<and> (x = Inr u \<longrightarrow> (\<exists>s. rows_of_asset (a_id a) d' = [s] \<and> in_range 0 100 (rs_score s) \<and> rs_snapshot s = a_snapshot a
          \<and> is_evaluation d a w now s))
    \<and> (x = Inl e \<longrightarrow> evaluate_asset d a w = Inl e \<or> a_snapshot a = None) \<and> d' = d\<lparr>db_risk_scores := db_risk_scores d'\<rparr>"
  let ?c = "compute_risk (Some (a_algorithm a)) (Some (a_family a)) (Some (a_type a))
      (Some (effective_context d a (asset_override d a))) (Some w)
      (case asset_target d a of None \<Rightarrow> None | Some t \<Rightarrow> tg_ip t) (map_option tg_protocol_hint (asset_target d a))
      (Some (context_sources d a (asset_override d a)))"
  have ?P
  proof (cases "rbind ?c (\<lambda>r. rmap (\<lambda>dhs. (r, dhs)) (asset_dhs_risk d a))")
    case (Inl f)
    then have "d' = d" "x = Inl f" using assms by (simp_all add: upsert_asset_risk_def Let_def)
    then show ?thesis using assms(1) Inl by (simp add: evaluate_asset_def)
  next
    case (Inr p)
    obtain r dhs where p: "p = (r, dhs)" and r: "?c = Inr r" using Inr by (auto simp: res_simps)
    have sc: "0 \<le> rr_score r" "rr_score r \<le> 100" using compute_risk_invariants [OF r] by simp_all
    define cols where "cols i = \<lparr>rs_id = i, rs_snapshot = a_snapshot a, rs_asset = a_id a,
        rs_score = Fin (of_int (rr_score r)), rs_tier = tier_str (rr_tier r),
        rs_factors = factors_column r (effective_context d a (asset_override d a)) dhs, rs_computed = now\<rparr>" for i
    have c: "rs_id (cols i) = i" "rs_asset (cols i) = a_id a" "rs_snapshot (cols i) = a_snapshot a"
      "in_range 0 100 (rs_score (cols i))" "is_evaluation d a w now (cols i)" for i
      using sc Inr by (simp_all add: cols_def is_evaluation_def evaluate_asset_def p)
    note eq = assms(2) [unfolded upsert_asset_risk_def Let_def Inr p sum.case prod.case, folded cols_def]
    show ?thesis
    proof (cases "sort_key rs_id (filter (\<lambda>s. rs_asset s = a_id a) ?R)")
      case Nil
      then have none: "filter (\<lambda>s. rs_asset s = a_id a) ?R = []"
        by (metis length_0_conv length_sort)
      show ?thesis
        using eq none assms(1) distinct_add [of rs_id ?R "cols (next_id rs_id ?R)"]
        by (auto simp: Nil c rows_of_asset_def add_row_def split: if_splits)
    next
      case (Cons e es)
      let ?R1 = "filter (\<lambda>s. rs_id s \<notin> rs_id ` set es) ?R"
      note k = keep_first_row [OF assms(1) Cons]
      have d1: "distinct (map rs_id ?R1)" using assms(1) by (rule distinct_map_filter)
      have ea: "rs_asset e = a_id a"
      proof -
        have "e \<in> set (filter (\<lambda>s. rs_asset s = a_id a) ?R)" using Cons by (metis list.set_intros(1) set_sort)
        then show ?thesis by simp
      qed
      show ?thesis
      proof (cases "a_snapshot a")
        case None
        then show ?thesis using eq k(2) d1 by (auto simp: Cons rows_of_asset_def)
      next
        case (Some sn)
        note f = filter_put_row [OF d1 k(1), of "cols (rs_id e)"]
        have "d' = d\<lparr>db_risk_scores := put_row rs_id (cols (rs_id e)) ?R1\<rparr>" "x = Inr ()"
          using eq by (simp_all add: Cons Some)
        then show ?thesis
          using f(1) f(2) [of "\<lambda>s. rs_asset s = i"] k(2) [of i] d1 ea c by (auto simp: rows_of_asset_def)
      qed
    qed
  qed
  then have P: ?P .
  show "i \<noteq> a_id a \<Longrightarrow> rows_of_asset i d' = rows_of_asset i d" by (rule P [THEN conjunct1, rule_format])
  show "distinct (map rs_id (db_risk_scores d'))" by (rule P [THEN conjunct2, THEN conjunct1])
  show "x = Inr u \<Longrightarrow> \<exists>s. rows_of_asset (a_id a) d' = [s] \<and> in_range 0 100 (rs_score s) \<and> rs_snapshot s = a_snapshot a
           \<and> is_evaluation d a w now s"
    by (rule P [THEN conjunct2, THEN conjunct2, THEN conjunct1, rule_format])
  show "x = Inl e \<Longrightarrow> evaluate_asset d a w = Inl e \<or> a_snapshot a = None"
    by (rule P [THEN conjunct2, THEN conjunct2, THEN conjunct2, THEN conjunct1, rule_format])
  show "d' = d\<lparr>db_risk_scores := db_risk_scores d'\<rparr>"
    by (rule P [THEN conjunct2, THEN conjunct2, THEN conjunct2, THEN conjunct2])
qed

text \<open>After the update of an asset's risk there is exactly one score row for the asset, whatever number
  there was before: it belongs to the asset's snapshot and its score lies between 0 and 100.  No update,
  successful or not, touches the rows of another asset.\<close>

theorem upsert_one_row:
  assumes "distinct (map rs_id (db_risk_scores d))"
  shows "case upsert_asset_risk a w now d of (d', x) \<Rightarrow>
      (case x of Inr u \<Rightarrow> \<exists>s. rows_of_asset (a_id a) d' = [s] \<and> in_range 0 100 (rs_score s) \<and> rs_snapshot s = a_snapshot a
       | Inl e \<Rightarrow> True)
      \<and> (\<forall>i. i = a_id a \<or> rows_of_asset i d' = rows_of_asset i d)"
proof -
  obtain d' x where u: "upsert_asset_risk a w now d = (d', x)" by fastforce
  note r = rows_of_upsert [OF assms u]
  show ?thesis using r(1) r(2) by (cases x) (auto simp: u)
qed

theorem upsert_one_row_witness:
  "case upsert_asset_risk (plain_asset 7 ''RSA-2048'') [] 0 empty_db of (d', x) \<Rightarrow>
      (case x of Inr u \<Rightarrow> \<exists>s. rows_of_asset 7 d' = [s] \<and> in_range 0 100 (rs_score s) \<and> rs_snapshot s = Some 1
       | Inl e \<Rightarrow> True)
      \<and> (\<forall>i. i = 7 \<or> rows_of_asset i d' = rows_of_asset i empty_db)"
  using upsert_one_row [of empty_db "plain_asset 7 ''RSA-2048''" "[]" 0]
  unfolding plain_asset_simps by simp

text \<open>The rows after the assets have been scored one after another: every asset's row is the evaluation by
  the data before the first one, since scoring changes nothing else.\<close>

definition scored_by :: "db \<Rightarrow> pyval dict \<Rightarrow> int \<Rightarrow> db \<Rightarrow> asset \<Rightarrow> bool" where
  "scored_by d w now d' a = (case rows_of_asset (a_id a) d' of [s] \<Rightarrow> is_evaluation d a w now s | _ \<Rightarrow> False)"

definition only_scores_of :: "int list \<Rightarrow> db \<Rightarrow> db \<Rightarrow> bool" where
  "only_scores_of ids d d' \<longleftrightarrow> d' = d\<lparr>db_risk_scores := db_risk_scores d'\<rparr>
     \<and> (\<forall>i. i \<in> set ids \<or> rows_of_asset i d' = rows_of_asset i d)"

lemma upsert_all_Cons:
  "upsert_asset_risk a w now d = (d1, Inr u) \<Longrightarrow>
     upsert_all (a # as) w now d = (case upsert_all as w now d1 of (d2, r) \<Rightarrow> (d2, rmap (\<lambda>n. n + 1) r))"
  "upsert_asset_risk a w now d = (d1, Inl e) \<Longrightarrow> upsert_all (a # as) w now d = (d1, Inl e)"
  by simp_all

lemma only_scores_trans:
  assumes "only_scores_of [i] d d1" and "only_scores_of is d1 d2"
  shows "only_scores_of (i # is) d d2"
proof -
  have a: "d1 = d\<lparr>db_risk_scores := db_risk_scores d1\<rparr>" "d2 = d1\<lparr>db_risk_scores := db_risk_scores d2\<rparr>"
    using assms by (simp_all add: only_scores_of_def)
  have "d2 = (d\<lparr>db_risk_scores := db_risk_scores d1\<rparr>)\<lparr>db_risk_scores := db_risk_scores d2\<rparr>"
    using a(2) unfolding a(1) [symmetric] .
  then have "d2 = d\<lparr>db_risk_scores := db_risk_scores d2\<rparr>" by simp
  then show ?thesis using assms unfolding only_scores_of_def by (metis list.set_intros set_ConsD singletonD list.set(1) list.set(2) insert_iff)
qed

lemma upsert_all_rows:
  assumes "distinct (map rs_id (db_risk_scores d))" and "distinct (map a_id as)"
    and "list_all (\<lambda>a. a_snapshot a \<noteq> None) as" and "upsert_all as w now d = (d', x)"
  shows "only_scores_of (map a_id as) d d'
    \<and> (case x of Inr n \<Rightarrow> n = int (length as) \<and> list_all (scored_by d w now d') as
       | Inl e \<Rightarrow> list_ex (\<lambda>a. evaluate_asset d a w = Inl e) as)"
  using assms
proof (induction as arbitrary: d x)
  case Nil
  then have "d' = d" "x = Inr 0" by simp_all
  then show ?case by (simp add: only_scores_of_def)
next
  case (Cons a as)
  obtain d1 y where s: "upsert_asset_risk a w now d = (d1, y)" by fastforce
  note r = rows_of_upsert [OF Cons.prems(1) s]
  have step: "only_scores_of [a_id a] d d1"
    unfolding only_scores_of_def using r(1) by (intro conjI r(5) allI) auto
  show ?case
  proof (cases y)
    case (Inl e)
    have "d' = d1" "x = Inl e" using Cons.prems(4) upsert_all_Cons(2) [OF s [unfolded Inl]] by simp_all
    then show ?thesis
      using r(4) [OF Inl] Cons.prems(3) only_scores_trans [OF step, of "map a_id as" d1]
      by (auto simp: only_scores_of_def)
  next
    case (Inr u)
    obtain z where t: "upsert_all as w now d1 = (d', z)" and x: "x = rmap (\<lambda>n. n + 1) z"
      using Cons.prems(4) unfolding upsert_all_Cons(1) [OF s [unfolded Inr]] by (auto split: prod.splits)
    have p: "distinct (map a_id as)" "list_all (\<lambda>a. a_snapshot a \<noteq> None) as" "a_id a \<notin> set (map a_id as)"
      using Cons.prems(2,3) by auto
    note ih = Cons.IH [OF r(3) p(1,2) t]
    have ev: "evaluate_asset d1 b w = evaluate_asset d b w" "is_evaluation d1 b w now q = is_evaluation d b w now q" for b q
      by (subst r(5), rule evaluate_frame)+
    have "rows_of_asset (a_id a) d' = rows_of_asset (a_id a) d1" using ih p(3) by (auto simp: only_scores_of_def)
    then have first: "scored_by d w now d' a" using r(2) [OF Inr] by (auto simp: scored_by_def)
    have sb: "scored_by d1 w now d' = scored_by d w now d'" by (rule ext) (simp add: scored_by_def ev split: list.split)
    then show ?thesis
      using ih first only_scores_trans [OF step, of "map a_id as" d'] by (cases z) (simp_all add: x ev sb)
  qed
qed

definition crypto_assets_of :: "int \<Rightarrow> db \<Rightarrow> asset list" where
  "crypto_assets_of sn d = filter (\<lambda>a. a_snapshot a = Some sn \<and> a_class a = ''crypto'') (db_assets d)"

lemma upsert_snapshot_assets:
  assumes "distinct (map rs_id (db_risk_scores d))" and "distinct (map a_id (db_assets d))"
    and "upsert_all (sort_key a_id (crypto_assets_of sn d)) w now d = (d', x)"
  shows "only_scores_of (map a_id (crypto_assets_of sn d)) d d'
    \<and> (case x of Inr n \<Rightarrow> n = int (length (crypto_assets_of sn d)) \<and> list_all (scored_by d w now d') (crypto_assets_of sn d)
       | Inl e \<Rightarrow> list_ex (\<lambda>a. evaluate_asset d a w = Inl e) (crypto_assets_of sn d))"
proof -
  let ?as = "crypto_assets_of sn d"
  have "distinct (map a_id ?as)" unfolding crypto_assets_of_def using assms(2) by (rule distinct_map_filter)
  then have "distinct (map a_id (sort_key a_id ?as))" by (simp add: distinct_map)
  moreover have "list_all (\<lambda>a. a_snapshot a \<noteq> None) (sort_key a_id ?as)"
    by (simp add: list_all_iff crypto_assets_of_def)
  ultimately show ?thesis
    using upsert_all_rows [OF assms(1) _ _ assms(3)] by (auto simp: only_scores_of_def list_all_iff list_ex_iff split: sum.splits)
qed

text \<open>C10. A recompute of a snapshot scores all of it by the current data.  When the weights are accepted and it
  returns, the reported count is the number of the snapshot's cryptographic assets, and each of them has
  exactly one score row, whose score, tier and factors are the evaluation of the asset's algorithm,
  context and assessment under these weights, computed now.  When it raises, the weights were refused and
  nothing changed, or the evaluation of one of these assets raises that exception.  In every case no row
  of another asset and no other table changes.\<close>

theorem recompute_snapshot_covers:
  assumes "distinct (map rs_id (db_risk_scores d))" and "distinct (map a_id (db_assets d))"
  shows "case resolved_weights w d of
      Inl e \<Rightarrow> recompute_snapshot_risks sn w now d = (d, Inl e)
    | Inr rw \<Rightarrow>
        (case recompute_snapshot_risks sn w now d of (d', x) \<Rightarrow>
           only_scores_of (map a_id (crypto_assets_of sn d)) d d'
           \<and> (case x of
                Inr r \<Rightarrow> pget r ''updated_scores_count'' = PInt (int (length (crypto_assets_of sn d)))
                  \<and> list_all (scored_by d (weights_dict rw) now d') (crypto_assets_of sn d)
              | Inl e \<Rightarrow> list_ex (\<lambda>a. evaluate_asset d a (weights_dict rw) = Inl e) (crypto_assets_of sn d)))"
proof (cases "resolved_weights w d")
  case (Inr rw)
  obtain d' x where u: "upsert_all (sort_key a_id (crypto_assets_of sn d)) (weights_dict rw) now d = (d', x)" by fastforce
  have "recompute_snapshot_risks sn w now d =
      (d', rmap (\<lambda>n. [(''snapshot_id'', PInt sn), (''updated_scores_count'', PInt n)]) x)"
    using u Inr by (simp add: recompute_snapshot_risks_def crypto_assets_of_def)
  then show ?thesis
    using upsert_snapshot_assets [OF assms u] Inr by (cases x) (simp_all add: pget_def dget_or_def)
qed (simp add: recompute_snapshot_risks_def)

definition sample_score_db :: db where
  "sample_score_db = empty_db\<lparr>db_assets := [plain_asset 7 ''RSA-2048'', plain_asset 8 ''AES-256'']\<rparr>"

theorem recompute_snapshot_covers_witness:
  "case resolved_weights None sample_score_db of
      Inl e \<Rightarrow> recompute_snapshot_risks 1 None 5 sample_score_db = (sample_score_db, Inl e)
    | Inr rw \<Rightarrow>
        (case recompute_snapshot_risks 1 None 5 sample_score_db of (d', x) \<Rightarrow>
           only_scores_of (map a_id (crypto_assets_of 1 sample_score_db)) sample_score_db d'
           \<and> (case x of
                Inr r \<Rightarrow> pget r ''updated_scores_count'' = PInt (int (length (crypto_assets_of 1 sample_score_db)))
                  \<and> list_all (scored_by sample_score_db (weights_dict rw) 5 d') (crypto_assets_of 1 sample_score_db)
              | Inl e \<Rightarrow> list_ex (\<lambda>a. evaluate_asset sample_score_db a (weights_dict rw) = Inl e)
                          (crypto_assets_of 1 sample_score_db)))"
  by (rule recompute_snapshot_covers) (simp_all add: sample_score_db_def)

section \<open>The worker meets its contract\<close>

interpretation recompute: queue_worker claim_recompute_task complete_recompute_task fail_recompute_task
proof
  fix d i t now
  assume t: "task_of d i = Some t"
  show "t_status t = T_CANCELLED \<Longrightarrow> claim_recompute_task i now d = Inr (None, d)"
    and "t_status t \<notin> {T_CANCELLED, T_QUEUED} \<Longrightarrow>
         claim_recompute_task i now d = Inl (ValueError (''QueuedTask '' @ str_int i @ '' is not queued''))"
    by (simp_all add: claim_recompute_task_def lock_task_cases [OF t])
  show "t_status t = T_QUEUED \<Longrightarrow> claim_recompute_task i now d = Inr (p, d') \<Longrightarrow>
       \<exists>t'. task_of d' i = Some t' \<and> t_attempts t' = t_attempts t + 1
              \<and> t_status t' = (if p = None then T_CANCELLED else T_RUNNING)" for p d'
    using t by (auto simp: claim_recompute_task_def lock_task_cases [OF t] res_simps row_simps
        split: option.splits if_splits)
  show "complete_recompute_task i now r d = Inr (r', d') \<Longrightarrow>
       \<exists>t'. task_of d' i = Some t' \<and> t_attempts t' = t_attempts t \<and> t_status t' \<in> {T_COMPLETED, T_CANCELLED}" for r r' d'
    using t by (auto simp: complete_recompute_task_def Let_def res_simps row_simps split: option.splits)
  show "fail_recompute_task i now e d = Inr d' \<Longrightarrow>
       \<exists>t'. task_of d' i = Some t' \<and> t_attempts t' = t_attempts t \<and> t_status t' = T_FAILED" for e d'
    using t by (auto simp: fail_recompute_task_def Let_def res_simps row_simps split: option.splits)
qed

lemma tasks_upsert_asset_risk: "db_tasks (fst (upsert_asset_risk a w now d)) = db_tasks d"
  unfolding upsert_asset_risk_def Let_def by (auto split: sum.split prod.split list.split)

lemma tasks_upsert_all: "db_tasks (fst (upsert_all as w now d)) = db_tasks d"
proof (induction as w now d rule: upsert_all.induct)
  case (2 a as w now d)
  obtain d1 q where u: "upsert_asset_risk a w now d = (d1, q)" by (rule prod.exhaust)
  have "db_tasks d1 = db_tasks d" using tasks_upsert_asset_risk [of a w now d] by (simp add: u)
  then show ?case using 2 [OF u [symmetric]] by (cases q) (auto simp: u split: prod.split)
qed simp

lemma tasks_recompute:
  "db_tasks (fst (recompute_snapshot_risks i w now d)) = db_tasks d"
  "db_tasks (fst (recompute_target_risks i w now d)) = db_tasks d"
  "db_tasks (fst (recompute_asset_risk i w now d)) = db_tasks d"
proof -
  have u: "upsert_all as x now d = (d', r) \<Longrightarrow> db_tasks d' = db_tasks d" for as x d' r
    using tasks_upsert_all [of as x now d] by simp
  have v: "upsert_asset_risk a x now d = (d', r) \<Longrightarrow> db_tasks d' = db_tasks d" for a x d' r
    using tasks_upsert_asset_risk [of a x now d] by simp
  show "db_tasks (fst (recompute_snapshot_risks i w now d)) = db_tasks d"
    and "db_tasks (fst (recompute_target_risks i w now d)) = db_tasks d"
    and "db_tasks (fst (recompute_asset_risk i w now d)) = db_tasks d"
    unfolding recompute_snapshot_risks_def recompute_target_risks_def recompute_asset_risk_def Let_def
    by (auto simp: u v split: sum.split prod.split)
qed

lemma tasks_persist_weights: "persist_default_weights w d = Inr d' \<Longrightarrow> db_tasks d' = db_tasks d"
  by (auto simp: persist_default_weights_def Let_def split: if_splits option.splits)

lemma tasks_run_recompute: "db_tasks (fst (run_recompute_payload now p d)) = db_tasks d"
  unfolding run_recompute_payload_def
  by (auto simp: tasks_recompute tasks_persist_weights split: sum.split if_splits)

lemma run_recompute_keeps_task: "keeps_task (run_recompute_payload now) i"
  by (simp add: keeps_task_def tasks_run_recompute)

text \<open>A recompute task runs at most once: when its processing returns, the task is completed or cancelled with
  exactly one more attempt, and processing it again, at any time, changes nothing.\<close>

theorem recompute_runs_once:
  assumes "task_of d i = Some t" and "t_status t = T_QUEUED" and "process_recompute_task i now d = (d', Inr r)"
  shows "(\<exists>t'. task_of d' i = Some t' \<and> t_attempts t' = t_attempts t + 1 \<and> t_status t' \<in> {T_COMPLETED, T_CANCELLED})
    \<and> fst (process_recompute_task i later d') = d'"
  using recompute.return_ends [OF assms(1,2) run_recompute_keeps_task assms(3) [unfolded process_recompute_task_def]]
    recompute.at_most_once [OF assms(1,2) run_recompute_keeps_task assms(3) [unfolded process_recompute_task_def]]
  by (simp add: process_recompute_task_def)

definition sample_recompute_db :: db where
  "sample_recompute_db = empty_db\<lparr>db_jobs := [sample_job ''recompute'' PENDING],
     db_tasks := [sample_task ''recompute'' [(''snapshot_id'', PInt 2)]]\<rparr>"

lemma sample_recompute_returns: "is_ok (snd (process_recompute_task 9 5 sample_recompute_db))"
  by code_simp

theorem recompute_runs_once_witness:
  "let d' = fst (process_recompute_task 9 5 sample_recompute_db)
   in (\<exists>t'. task_of d' 9 = Some t' \<and> t_attempts t' = t_attempts (sample_task ''recompute'' [(''snapshot_id'', PInt 2)]) + 1
         \<and> t_status t' \<in> {T_COMPLETED, T_CANCELLED})
    \<and> fst (process_recompute_task 9 60 d') = d'"
proof -
  obtain d' x where p: "process_recompute_task 9 5 sample_recompute_db = (d', x)" by (rule prod.exhaust)
  then obtain r where x: "x = Inr r" using sample_recompute_returns by (auto simp: is_ok_iff)
  have "task_of sample_recompute_db 9 = Some (sample_task ''recompute'' [(''snapshot_id'', PInt 2)])"
    by (simp add: sample_recompute_db_def find_row_Cons)
  from recompute_runs_once [OF this _ p [unfolded x]] show ?thesis by (simp add: p)
qed

end
