(* ===== verification/Agents.thy ===== *)
theory Agents
  imports Job_Queue
begin

text \<open>
  \<open>apps/agents/services.py\<close> and \<open>apps/agents/api.py\<close>: the registry of agents.  Registration needs the
  bootstrap token of the settings and issues a fresh token, of which only a hash authenticates later
  heartbeats; registering the same host and role again rotates the token.  The password hasher of
  Django (\<open>make_password\<close>, \<open>check_password\<close>) and the random token are parameters; the one law used of
  the hasher is that a password verifies against its own hash.  A timestamp counts microseconds.
\<close>

definition STALE_AFTER :: int where
  "STALE_AFTER = 5 * 60 * 1000000"

definition is_stale :: "agent \<Rightarrow> int \<Rightarrow> bool" where
  "is_stale a now = (case ag_last_seen a of None \<Rightarrow> True | Some t \<Rightarrow> t < now - STALE_AFTER)"

definition validate_agent_token :: "(string \<Rightarrow> string \<Rightarrow> bool) \<Rightarrow> agent \<Rightarrow> string option \<Rightarrow> bool" where
  "validate_agent_token check_password a tok =
     (case tok of None \<Rightarrow> False
      | Some s \<Rightarrow> s \<noteq> [] \<and> ag_active a \<and> check_password s (ag_token_hash a))"

definition extract_bearer_token :: "string \<Rightarrow> string option" where
  "extract_bearer_token auth =
     (if startswith auth ''Bearer '' then Some (strip (drop (length ''Bearer '') auth)) else None)"

definition invalid_token :: response where
  "invalid_token = error_response ''invalid_token'' ''Invalid token.'' [] 401"

definition serialize_agent :: "int \<Rightarrow> agent \<Rightarrow> pyval" where
  "serialize_agent now a =
     PDict [(''id'', PStr (ag_id a)), (''hostname'', PStr (ag_hostname a)), (''agent_role'', PStr (ag_role a)),
            (''agent_url'', opt_str (ag_url a)), (''capabilities'', PList (map PStr (ag_capabilities a))),
            (''os_distribution'', opt_str (ag_os a)), (''registered_at'', PInt (ag_created a)),
            (''active'', PBool (ag_active a)), (''last_seen'', dt (or_else (ag_last_seen a) (ag_created a))),
            (''token_rotated_at'', dt (or_else (ag_token_rotated a) (ag_created a))),
            (''is_stale'', PBool (is_stale a now))]"

record agent_registration =
  reg_hostname :: string
  reg_role :: string
  reg_url :: "string option"
  reg_capabilities :: "string list"
  reg_os :: "string option"

abbreviation agent_key :: "agent \<Rightarrow> string \<times> string" where
  "agent_key a \<equiv> (ag_hostname a, ag_role a)"

definition register_agent ::
  "(string \<Rightarrow> string) \<Rightarrow> string \<Rightarrow> string \<Rightarrow> string \<Rightarrow> string \<Rightarrow> agent_registration \<Rightarrow> int \<Rightarrow> db \<Rightarrow> response \<times> db" where
  "register_agent make_password fresh_token fresh_uuid expected provided p now d =
     (if provided = [] \<or> provided \<noteq> expected then (invalid_token, d)
      else
        (let body = (\<lambda>a created. PDict
               [(''id'', PStr (ag_id a)), (''agent_token'', PStr fresh_token),
                (''registration_action'', PStr (if created then ''created'' else ''token_rotated'')),
                (''token_rotated_at'', dt (or_else (ag_token_rotated a) (ag_created a)))])
         in case find_row agent_key (reg_hostname p, reg_role p) (db_agents d) of
              None \<Rightarrow>
                (let a = \<lparr>ag_id = fresh_uuid, ag_hostname = reg_hostname p, ag_role = reg_role p, ag_url = reg_url p,
                          ag_capabilities = reg_capabilities p, ag_os = reg_os p,
                          ag_token_hash = make_password fresh_token, ag_runtime_token = Some fresh_token,
                          ag_active = True, ag_last_seen = Some now, ag_token_rotated = Some now, ag_created = now\<rparr>
                 in (Response 201 (body a True), d\<lparr>db_agents := add_row a (db_agents d)\<rparr>))
            | Some a0 \<Rightarrow>
                (let a = a0\<lparr>ag_role := reg_role p, ag_url := reg_url p, ag_capabilities := reg_capabilities p,
                            ag_os := reg_os p, ag_token_hash := make_password fresh_token,
                            ag_runtime_token := Some fresh_token, ag_active := True, ag_last_seen := Some now,
                            ag_token_rotated := Some now\<rparr>
                 in (Response 200 (body a False), d\<lparr>db_agents := put_row ag_id a (db_agents d)\<rparr>))))"

definition list_agents :: "bool option \<Rightarrow> string option \<Rightarrow> int \<Rightarrow> int \<Rightarrow> int \<Rightarrow> (agent list \<Rightarrow> agent list) \<Rightarrow> db \<Rightarrow> pyval" where
  "list_agents active agent_role offset limit now by_hostname d =
     (let q1 = by_hostname (db_agents d);
          q2 = (case active of None \<Rightarrow> q1 | Some b \<Rightarrow> filter (\<lambda>a. ag_active a = b) q1);
          q = (case agent_role of None \<Rightarrow> q2 | Some r \<Rightarrow> filter (\<lambda>a. ag_role a = r) q2);
          items = map (serialize_agent now) (page_slice offset limit q)
      in if items = [] then empty_page offset limit else page_envelope items offset limit (Some (int (length q))))"

definition get_agent :: "string \<Rightarrow> int \<Rightarrow> db \<Rightarrow> response" where
  "get_agent i now d =
     (case find_row ag_id i (db_agents d) of
        None \<Rightarrow> error_response ''not_found'' ''Resource not found.'' [] 404
      | Some a \<Rightarrow> Response 200 (serialize_agent now a))"

definition heartbeat_agent :: "(string \<Rightarrow> string \<Rightarrow> bool) \<Rightarrow> string \<Rightarrow> string \<Rightarrow> int \<Rightarrow> db \<Rightarrow> response \<times> db" where
  "heartbeat_agent check_password i auth now d =
     (case find_row ag_id i (db_agents d) of
        None \<Rightarrow> (invalid_token, d)
      | Some a \<Rightarrow>
          if \<not> validate_agent_token check_password a (extract_bearer_token auth) then (invalid_token, d)
          else (Response 200 (PDict [(''received_at'', PInt now)]),
                d\<lparr>db_agents := put_row ag_id (a\<lparr>ag_last_seen := Some now\<rparr>) (db_agents d)\<rparr>))"

definition delete_agent :: "string \<Rightarrow> db \<Rightarrow> response \<times> db" where
  "delete_agent i d =
     (case find_row ag_id i (db_agents d) of
        None \<Rightarrow> (error_response ''not_found'' ''Resource not found.'' [] 404, d)
      | Some a \<Rightarrow> (Response 204 PNone, d\<lparr>db_agents := put_row ag_id (a\<lparr>ag_active := False\<rparr>) (db_agents d)\<rparr>))"

text \<open>\<open>record_agent_scanner_skip_if_needed\<close>: why a scanner of a target cannot run, if so.\<close>

definition agent_skip_reason :: "target \<Rightarrow> string \<Rightarrow> int \<Rightarrow> db \<Rightarrow> string option" where
  "agent_skip_reason t scanner now d =
     (if \<not> tg_agent_enabled t then None
      else (case List.find (\<lambda>a. ag_hostname a = tg_host t \<and> ag_role a = ''host'' \<and> ag_active a) (db_agents d) of
              None \<Rightarrow> Some ''agent_unavailable''
            | Some a \<Rightarrow>
                if is_stale a now then Some ''agent_stale''
                else if scanner \<notin> set (ag_capabilities a) then Some ''capability_unsupported'' else None))"

definition record_agent_scanner_skip_if_needed :: "int \<Rightarrow> target \<Rightarrow> string \<Rightarrow> int \<Rightarrow> db \<Rightarrow> bool \<times> db" where
  "record_agent_scanner_skip_if_needed job t scanner now d =
     (case agent_skip_reason t scanner now d of
        None \<Rightarrow> (False, d)
      | Some err \<Rightarrow>
          (True, d\<lparr>db_run_logs := add_row
             \<lparr>rl_id = next_id rl_id (db_run_logs d), rl_job = job, rl_target = Some (tg_id t), rl_scanner = scanner,
              rl_status = ''SKIPPED'', rl_findings = 0, rl_started = None, rl_finished = None,
              rl_error = Some err\<rparr> (db_run_logs d)\<rparr>))"

section \<open>Tokens\<close>

definition agents_wf :: "db \<Rightarrow> bool" where
  "agents_wf d = (distinct (map ag_id (db_agents d)) \<and> distinct (map agent_key (db_agents d)))"

definition bearer :: "string \<Rightarrow> string" where
  "bearer tok = ''Bearer '' @ tok"

lemma extract_bearer: "strip tok = tok \<Longrightarrow> extract_bearer_token (bearer tok) = Some tok"
  by (simp add: extract_bearer_token_def bearer_def startswith_def)

lemma inactive_agent_refused:
  assumes "find_row ag_id i (db_agents d) = Some a" and "\<not> ag_active a"
  shows "heartbeat_agent check i auth now d = (invalid_token, d)"
  using assms by (auto simp: heartbeat_agent_def validate_agent_token_def split: option.splits)

lemma delete_then_heartbeat:
  assumes "find_row ag_id i (db_agents d) = Some a" and "delete_agent i d = (r, d')"
  shows "heartbeat_agent check i auth now d' = (invalid_token, d')"
proof -
  have i: "ag_id a = i" using assms(1) by (blast dest: find_row_Some)
  have "find_row ag_id i (db_agents d') = Some (a\<lparr>ag_active := False\<rparr>)"
    using assms i by (auto simp: delete_agent_def find_put)
  then show ?thesis by (rule inactive_agent_refused) simp
qed

lemma registered_agent:
  assumes "expected \<noteq> []" and "find_row ag_id uuid (db_agents d) = None" and "distinct (map ag_id (db_agents d))"
    and "register_agent mk tok uuid expected expected p now d = (r, d')"
  shows "\<exists>a c. find_row ag_id (ag_id a) (db_agents d') = Some a \<and> agent_key a = (reg_hostname p, reg_role p)
           \<and> ag_active a \<and> ag_token_hash a = mk tok \<and> ag_last_seen a = Some now
           \<and> (\<exists>b. r = Response c (PDict ((''id'', PStr (ag_id a)) # (''agent_token'', PStr tok) # b)))"
proof (cases "find_row agent_key (reg_hostname p, reg_role p) (db_agents d)")
  case None
  let ?a = "\<lparr>ag_id = uuid, ag_hostname = reg_hostname p, ag_role = reg_role p, ag_url = reg_url p,
      ag_capabilities = reg_capabilities p, ag_os = reg_os p, ag_token_hash = mk tok, ag_runtime_token = Some tok,
      ag_active = True, ag_last_seen = Some now, ag_token_rotated = Some now, ag_created = now\<rparr>"
  have "d' = d\<lparr>db_agents := add_row ?a (db_agents d)\<rparr>"
    and "\<exists>b. r = Response 201 (PDict ((''id'', PStr (ag_id ?a)) # (''agent_token'', PStr tok) # b))"
    using assms(1,4) None by (auto simp: register_agent_def Let_def)
  then show ?thesis using assms(2) by (intro exI [of _ ?a] exI [of _ 201]) (auto simp: find_add)
next
  case (Some a0)
  let ?a = "a0\<lparr>ag_role := reg_role p, ag_url := reg_url p, ag_capabilities := reg_capabilities p,
      ag_os := reg_os p, ag_token_hash := mk tok, ag_runtime_token := Some tok, ag_active := True,
      ag_last_seen := Some now, ag_token_rotated := Some now\<rparr>"
  have a0: "a0 \<in> set (db_agents d)" "agent_key a0 = (reg_hostname p, reg_role p)"
    using find_row_Some [OF Some] by auto
  have "d' = d\<lparr>db_agents := put_row ag_id ?a (db_agents d)\<rparr>"
    and "\<exists>b. r = Response 200 (PDict ((''id'', PStr (ag_id ?a)) # (''agent_token'', PStr tok) # b))"
    using assms(1,4) Some by (auto simp: register_agent_def Let_def)
  then show ?thesis using find_row_unique [OF assms(3) a0(1)] a0(2)
    by (intro exI [of _ ?a] exI [of _ 200]) (auto simp: find_put)
qed

text \<open>The token issued by a registration authenticates the agent's next heartbeat: for the identifier in
  the answer, presented as a bearer token, the heartbeat is accepted and refreshes the agent's last
  contact, so that the agent is not stale then.  The hypotheses are that the hasher accepts the password
  it hashed, that the fresh token is not empty and has no white space around it, that the fresh
  identifier is unused and that the table's primary keys are distinct.\<close>

theorem register_then_heartbeat:
  assumes "check tok (mk tok)" and "tok \<noteq> []" and "strip tok = tok" and "expected \<noteq> []"
    and "find_row ag_id uuid (db_agents d) = None" and "distinct (map ag_id (db_agents d))"
  shows "\<exists>c i b. fst (register_agent mk tok uuid expected expected p now d) =
             Response c (PDict ((''id'', PStr i) # (''agent_token'', PStr tok) # b))
       \<and> (case heartbeat_agent check i (bearer tok) later (snd (register_agent mk tok uuid expected expected p now d)) of
            (r, d') \<Rightarrow> r = Response 200 (PDict [(''received_at'', PInt later)])
              \<and> (\<exists>a. find_row ag_id i (db_agents d') = Some a \<and> agent_key a = (reg_hostname p, reg_role p) \<and> \<not> is_stale a later))"
proof -
  obtain r d1 where reg: "register_agent mk tok uuid expected expected p now d = (r, d1)" by fastforce
  obtain a c b where a: "find_row ag_id (ag_id a) (db_agents d1) = Some a" "agent_key a = (reg_hostname p, reg_role p)"
      "ag_active a" "ag_token_hash a = mk tok"
    and r: "r = Response c (PDict ((''id'', PStr (ag_id a)) # (''agent_token'', PStr tok) # b))"
    using registered_agent [OF assms(4,5,6) reg] by blast
  have v: "validate_agent_token check a (extract_bearer_token (bearer tok))"
    using assms(1-3) a by (simp add: extract_bearer validate_agent_token_def)
  have "\<not> is_stale (a\<lparr>ag_last_seen := Some later\<rparr>) later" by (simp add: is_stale_def STALE_AFTER_def)
  then show ?thesis
    using a v r by (intro exI [of _ c] exI [of _ "ag_id a"] exI [of _ b])
      (simp add: reg heartbeat_agent_def find_put)
qed

theorem register_then_heartbeat_witness:
  "\<exists>c i b. fst (register_agent rev ''tok'' ''u1'' ''boot'' ''boot''
       \<lparr>reg_hostname = ''h'', reg_role = ''host'', reg_url = None, reg_capabilities = [], reg_os = None\<rparr> 0 empty_db) =
             Response c (PDict ((''id'', PStr i) # (''agent_token'', PStr ''tok'') # b))
       \<and> (case heartbeat_agent (\<lambda>p h. rev p = h) i (bearer ''tok'') 5 (snd (register_agent rev ''tok'' ''u1'' ''boot'' ''boot''
              \<lparr>reg_hostname = ''h'', reg_role = ''host'', reg_url = None, reg_capabilities = [], reg_os = None\<rparr> 0 empty_db)) of
            (r, d') \<Rightarrow> r = Response 200 (PDict [(''received_at'', PInt 5)])
              \<and> (\<exists>a. find_row ag_id i (db_agents d') = Some a
                     \<and> agent_key a = (reg_hostname \<lparr>reg_hostname = ''h'', reg_role = ''host'', reg_url = None, reg_capabilities = [], reg_os = None\<rparr>,
                                      reg_role \<lparr>reg_hostname = ''h'', reg_role = ''host'', reg_url = None, reg_capabilities = [], reg_os = None\<rparr>)
                     \<and> \<not> is_stale a 5))"
proof (rule register_then_heartbeat)
  show "strip ''tok'' = ''tok''" by code_simp
qed (simp_all add: empty_db_def)

text \<open>A deleted agent is out at once: no heartbeat with whatever token is accepted for it, and nothing
  is written.\<close>

theorem delete_agent_revokes:
  assumes "find_row ag_id i (db_agents d) = Some a"
  shows "heartbeat_agent check i auth now (snd (delete_agent i d)) = (invalid_token, snd (delete_agent i d))"
  using delete_then_heartbeat [OF assms, of "fst (delete_agent i d)" "snd (delete_agent i d)"] by simp

theorem delete_agent_revokes_witness:
  "heartbeat_agent (\<lambda>p h. True) ''u1'' (bearer ''t'') 9 (snd (delete_agent ''u1'' (snd (register_agent rev ''tok'' ''u1'' ''boot'' ''boot''
       \<lparr>reg_hostname = ''h'', reg_role = ''host'', reg_url = None, reg_capabilities = [], reg_os = None\<rparr> 0 empty_db))))
   = (invalid_token, snd (delete_agent ''u1'' (snd (register_agent rev ''tok'' ''u1'' ''boot'' ''boot''
       \<lparr>reg_hostname = ''h'', reg_role = ''host'', reg_url = None, reg_capabilities = [], reg_os = None\<rparr> 0 empty_db))))"
  by (rule delete_agent_revokes) (simp add: register_agent_def empty_db_def find_add Let_def add_row_def find_row_Cons)

end
