(* ===== verification/Aggregates.thy ===== *)
theory Aggregates
  imports Values "HOL-Library.List_Lexorder" "HOL-Library.Char_ord" "HOL-Library.Product_Lexorder"
begin

text \<open>
  What several components compute over lists of dynamic values: equality as \<open>==\<close> decides it, the
  number behind a value, \<open>sum\<close> and mean of numbers (CPython 3.12 adds a prefix of ints exactly and
  the floats after it with compensation), counters and their sorted items.  Strings are ordered by
  their characters, tuples lexicographically.
\<close>

section \<open>Equality\<close>

text \<open>The exact number a bool, an int or a float stands for in a comparison.\<close>

definition number_value :: "pyval \<Rightarrow> pyfloat option" where
  "number_value v =
     (case v of PBool b \<Rightarrow> Some (Fin (if b then 1 else 0)) | PInt n \<Rightarrow> Some (Fin (of_int n))
      | PFloat x \<Rightarrow> Some x | _ \<Rightarrow> None)"

text \<open>\<open>a == b\<close>: numbers by value, lists element by element, dicts whatever their order.\<close>

fun py_eq :: "pyval \<Rightarrow> pyval \<Rightarrow> bool"
  and py_eq_list :: "pyval list \<Rightarrow> pyval list \<Rightarrow> bool"
  and py_eq_items :: "(string \<times> pyval) list \<Rightarrow> pyval dict \<Rightarrow> bool" where
  "py_eq PNone w = (w = PNone)"
| "py_eq (PStr s) w = (w = PStr s)"
| "py_eq (PList xs) w = (case w of PList ys \<Rightarrow> py_eq_list xs ys | _ \<Rightarrow> False)"
| "py_eq (PDict d) w = (case w of PDict e \<Rightarrow> length d = length e \<and> py_eq_items d e | _ \<Rightarrow> False)"
| "py_eq v w = (case (number_value v, number_value w) of (Some x, Some y) \<Rightarrow> feq x y | _ \<Rightarrow> False)"
| "py_eq_list [] ys = (ys = [])"
| "py_eq_list (x # xs) ys = (case ys of [] \<Rightarrow> False | y # zs \<Rightarrow> py_eq x y \<and> py_eq_list xs zs)"
| "py_eq_items [] e = True"
| "py_eq_items ((k, v) # d) e = ((case dget e k of None \<Rightarrow> False | Some w \<Rightarrow> py_eq v w) \<and> py_eq_items d e)"

section \<open>Collections\<close>

text \<open>\<open>iter(v)\<close>, and an attribute of a dict looked up on a value that may be none.\<close>

definition py_iter :: "pyval \<Rightarrow> py_error + pyval list" where
  "py_iter v =
     (case v of PList xs \<Rightarrow> Inr xs | PStr s \<Rightarrow> Inr (map (\<lambda>c. PStr [c]) s) | PDict m \<Rightarrow> Inr (map (\<lambda>p. PStr (fst p)) m)
      | _ \<Rightarrow> Inl (TypeError ''object is not iterable''))"

definition as_dict :: "pyval \<Rightarrow> py_error + pyval dict" where
  "as_dict v = (case v of PDict m \<Rightarrow> Inr m | _ \<Rightarrow> Inl (AttributeError ''get''))"

section \<open>Numbers\<close>

text \<open>\<open>_number\<close>: a bool is no number; an int too large for a float raises.\<close>

definition py_number :: "pyval \<Rightarrow> py_error + pyfloat option" where
  "py_number v = (case v of PInt n \<Rightarrow> rmap Some (int_to_float n) | PFloat x \<Rightarrow> Inr (Some x) | _ \<Rightarrow> Inr None)"

text \<open>\<open>isinstance(v, (int, float))\<close>, of which a bool is an instance.\<close>

definition is_number :: "pyval \<Rightarrow> bool" where
  "is_number v = (case v of PBool b \<Rightarrow> True | PInt n \<Rightarrow> True | PFloat x \<Rightarrow> True | _ \<Rightarrow> False)"

text \<open>\<open>sum\<close>: the float loop, with the running sum \<open>f\<close> and the compensation \<open>c\<close> (an int is added without
  compensation), and the int loop before it.\<close>

fun sum_floats :: "pyfloat \<Rightarrow> pyfloat \<Rightarrow> pyval list \<Rightarrow> py_error + pyfloat" where
  "sum_floats f c [] = Inr (fsum_loop f c [])"
| "sum_floats f c (v # vs) =
     (case v of
        PFloat x \<Rightarrow>
          (let t = fadd f x
           in if fle (fabs x) (fabs f) then sum_floats t (fadd c (fadd (fsub f t) x)) vs
              else sum_floats t (fadd c (fadd (fsub x t) f)) vs)
      | PInt n \<Rightarrow> rbind (int_to_float n) (\<lambda>x. sum_floats (fadd f x) c vs)
      | PBool b \<Rightarrow> sum_floats (fadd f (Fin (if b then 1 else 0))) c vs
      | _ \<Rightarrow> Inl (TypeError ''unsupported operand type(s) for +''))"

fun sum_values :: "int \<Rightarrow> pyval list \<Rightarrow> py_error + pyval" where
  "sum_values a [] = Inr (PInt a)"
| "sum_values a (v # vs) =
     (case v of
        PInt n \<Rightarrow> sum_values (a + n) vs
      | PBool b \<Rightarrow> sum_values (a + (if b then 1 else 0)) vs
      | PFloat x \<Rightarrow> rbind (int_to_float a) (\<lambda>y. rmap PFloat (sum_floats (fadd y x) (Fin 0) vs))
      | _ \<Rightarrow> Inl (TypeError ''unsupported operand type(s) for +''))"

text \<open>\<open>round(sum(values) / len(values), digits)\<close> of a list that is not empty.\<close>

definition mean_of :: "nat \<Rightarrow> pyval list \<Rightarrow> py_error + pyfloat" where
  "mean_of digits vs =
     rbind (sum_values 0 vs) (\<lambda>s.
       case s of
         PInt n \<Rightarrow>
           (case fl (of_int n / of_nat (length vs)) of
              Fin q \<Rightarrow> Inr (fround digits (Fin q))
            | _ \<Rightarrow> Inl (OverflowError ''integer division result too large for a float''))
       | PFloat x \<Rightarrow> Inr (fround digits (fdiv_by x (of_nat (length vs))))
       | _ \<Rightarrow> Inl (TypeError ''unsupported operand type(s) for /''))"

text \<open>The same for a list of floats.\<close>

definition mean_floats :: "nat \<Rightarrow> pyfloat list \<Rightarrow> pyfloat" where
  "mean_floats digits xs = fround digits (fdiv_by (fsum xs) (of_nat (length xs)))"

section \<open>Counters\<close>

definition incr :: "string \<Rightarrow> int dict \<Rightarrow> int dict" where
  "incr k d = dset k (dget_or d k 0 + 1) d"

definition counter :: "string list \<Rightarrow> int dict" where
  "counter ks = fold incr ks []"

definition sorted_items :: "'v dict \<Rightarrow> 'v dict" where
  "sorted_items d = sort_key fst d"

definition int_dict :: "int dict \<Rightarrow> pyval" where
  "int_dict d = PDict (map (\<lambda>(k, n). (k, PInt n)) d)"

text \<open>\<open>d.setdefault(k, v)\<close> and \<open>d.pop(k, None)\<close>.\<close>

definition setdefault :: "string \<Rightarrow> 'v \<Rightarrow> 'v dict \<Rightarrow> 'v dict" where
  "setdefault k v d = (if dhas k d then d else dset k v d)"

definition dpop :: "string \<Rightarrow> 'v dict \<Rightarrow> 'v dict" where
  "dpop k d = filter (\<lambda>p. fst p \<noteq> k) d"

lemma map_of_incr [dict_simps]: "map_of (incr k d) j = (if j = k then Some (dget_or d k 0 + 1) else map_of d j)"
  by (simp add: incr_def dict_simps)

lemma dwf_incr [dict_simps]: "dwf d \<Longrightarrow> dwf (incr k d)"
  by (simp add: incr_def dict_simps)

lemma dget_or_incr: "dget_or (incr k d) j 0 = dget_or d j 0 + (if j = k then 1 else 0)"
  by (simp add: dget_or_def dict_simps)

lemma fold_incr: "dget_or (fold incr ks d) j 0 = dget_or d j 0 + int (count_list ks j)"
  by (induction ks arbitrary: d) (auto simp: dget_or_incr)

lemma counter_count: "dget_or (counter ks) j 0 = int (count_list ks j)"
  by (simp add: counter_def fold_incr) (simp add: dget_or_def)

lemma keys_dset [dict_simps]: "fst ` set (dset k v d) = insert k (fst ` set d)"
  by (simp add: dom_update image_set [symmetric])

lemma fold_incr_keys: "fst ` set (fold incr ks d) = fst ` set d \<union> set ks"
  by (induction ks arbitrary: d) (auto simp: incr_def dict_simps)

lemma counter_keys: "fst ` set (counter ks) = set ks"
  by (simp add: counter_def fold_incr_keys)

lemma dwf_fold_incr: "dwf d \<Longrightarrow> dwf (fold incr ks d)"
  by (induction ks arbitrary: d) (auto simp: dict_simps)

lemma dwf_counter: "dwf (counter ks)"
  unfolding counter_def by (rule dwf_fold_incr) (simp add: dwf_def)

lemma sum_snd_incr: "dwf d \<Longrightarrow> sum_list (map snd (incr k d)) = sum_list (map snd d) + 1"
proof (induction d)
  case Nil
  then show ?case by (simp add: incr_def dget_or_def)
next
  case (Cons p d)
  obtain j n where p: "p = (j, n)" by (cases p)
  have d: "dwf d" "j \<notin> fst ` set d" using Cons.prems by (simp_all add: p dwf_def)
  show ?case
  proof (cases "j = k")
    case True
    then show ?thesis by (simp add: p incr_def dget_or_def)
  next
    case False
    then have "incr k (p # d) = p # incr k d" by (simp add: p incr_def dget_or_def)
    then show ?thesis using Cons.IH [OF d(1)] by (simp add: p)
  qed
qed

lemma counter_total: "sum_list (map snd (counter ks)) = int (length ks)"
proof -
  have "dwf d \<Longrightarrow> sum_list (map snd (fold incr ks d)) = sum_list (map snd d) + int (length ks)" for d
    by (induction ks arbitrary: d) (simp_all add: sum_snd_incr dict_simps)
  from this [of "[]"] show ?thesis by (simp add: counter_def dwf_def)
qed

lemma sorted_items_keys: "set (sorted_items d) = set d \<and> sorted (map fst (sorted_items d))"
  by (simp add: sorted_items_def)

end
