(* ===== verification/Discovery_Service.thy ===== *)
theory Discovery_Service
  imports Aggregates Recompute Agents Ip_Address
begin

text \<open>
  \<open>apps/discoveries/services.py\<close> and the write operations of \<open>apps/discoveries/api.py\<close>: a discovery
  scans a scope (a CIDR, an address, a domain) for open ports, stores one endpoint row per host, port
  and transport, promotes every endpoint to a scan target, and may queue a scan of those targets.
  Whether a TCP port answers (\<open>port_open\<close>) and what a discovery agent replies (\<open>post_discover\<close>) are
  parameters: they are the network's.

  The lemmas give the validity and uniqueness of the stored endpoints and the created targets, the
  reuse of one discovery per scope, and the contract of the worker.
\<close>

section \<open>Ports and scopes\<close>

definition DEFAULT_DISCOVERY_PORTS :: "int list" where
  "DEFAULT_DISCOVERY_PORTS =
     [22, 25, 443, 465, 500, 587, 993, 995, 2222, 3306, 4500, 5000, 5432, 6380, 8200, 8443, 8883,
      9090, 9093, 9200, 9443, 15017]"

definition resolved_ports :: "bool \<Rightarrow> int list \<Rightarrow> int list" where
  "resolved_ports include_default_ports ports =
     sort (remdups (if include_default_ports then ports @ DEFAULT_DISCOVERY_PORTS else ports))"

definition protocol_hint_for_port :: "int \<Rightarrow> string \<Rightarrow> string" where
  "protocol_hint_for_port port transport =
     (if transport = ''UDP'' \<and> port \<in> {500, 4500} then ''IKE''
      else if port \<in> {22, 2222} then ''SSH''
      else if port \<in> {25, 465, 587} then ''SMTP''
      else if port = 993 then ''IMAP''
      else if port = 995 then ''POP3''
      else if port \<in> {443, 8443, 8883, 9093, 9443, 15017, 3306, 5000, 5432, 6380, 8200, 9090, 9200} then ''TLS''
      else ''UNKNOWN'')"

definition PROTOCOL_HINTS :: "string list" where
  "PROTOCOL_HINTS = [''TLS'', ''SSH'', ''IKE'', ''SMTP'', ''IMAP'', ''POP3'', ''UNKNOWN'']"

definition normalized_protocol_hint :: "string \<Rightarrow> string" where
  "normalized_protocol_hint v =
     (let n = upper (or_str v ''UNKNOWN'') in if n \<in> set PROTOCOL_HINTS then n else ''UNKNOWN'')"

definition ip_or_none :: "string \<Rightarrow> string option" where
  "ip_or_none host = map_option str_ip (ip_address host)"

text \<open>The label pattern of a domain: 1 to 63 letters, digits and hyphens, no hyphen at either end.\<close>

definition domain_label_ok :: "string \<Rightarrow> bool" where
  "domain_label_ok l =
     (l \<noteq> [] \<and> length l \<le> 63 \<and> list_all (\<lambda>c. is_alnum c \<or> c = CHR ''-'') l
      \<and> is_alnum (hd l) \<and> is_alnum (last l))"

text \<open>A final newline is accepted by the pattern's end anchor.\<close>

definition domain_label_matches :: "string \<Rightarrow> bool" where
  "domain_label_matches l =
     (domain_label_ok l \<or> (l \<noteq> [] \<and> code (last l) = 10 \<and> domain_label_ok (butlast l)))"

definition is_valid_domain :: "string \<Rightarrow> bool" where
  "is_valid_domain v =
     (let domain = rstrip_if (\<lambda>c. c = CHR ''.'') v
      in domain \<noteq> [] \<and> length domain \<le> 253 \<and> CHR ''/'' \<notin> set domain \<and> CHR '':'' \<notin> set domain
         \<and> list_all domain_label_matches (split_on (CHR ''.'') domain))"

definition validate_scope :: "string \<Rightarrow> string \<Rightarrow> py_error + string" where
  "validate_scope scope_type scope_value =
     (let v = strip scope_value
      in if v = [] then Inl (ValueError ''scope_value is required.'')
         else if scope_type = ''cidr'' then
           (if CHR ''/'' \<notin> set v then Inl (ValueError ''CIDR scope must use CIDR notation.'')
            else if ip_network v = None then Inl (ValueError ''scope_value must be a valid CIDR.'')
            else Inr v)
         else if scope_type = ''ip'' then
           (if ip_address v = None then Inl (ValueError ''scope_value must be a valid IP address.'') else Inr v)
         else if \<not> is_valid_domain v then Inl (ValueError ''scope_value must be a valid domain name.'')
         else Inr (lower v))"

definition hosts_for_scope :: "string \<Rightarrow> string \<Rightarrow> py_error + string list" where
  "hosts_for_scope scope_type scope_value =
     (let v = strip scope_value
      in if v = [] then Inr []
         else if scope_type = ''cidr'' then
           (case ip_network v of None \<Rightarrow> Inl (ValueError ''does not appear to be an IPv4 or IPv6 network'')
            | Some n \<Rightarrow> Inr (map str_ip (net_hosts n)))
         else if scope_type = ''ip'' then
           (case ip_address v of None \<Rightarrow> Inl (ValueError ''does not appear to be an IPv4 or IPv6 address'')
            | Some a \<Rightarrow> Inr [str_ip a])
         else Inr [v])"

text \<open>\<open>central_discover\<close>: every host and TCP port of the scope that answers.  The futures complete in any
  order; the model lists them in the order of submission.\<close>

definition central_discover ::
  "(string \<Rightarrow> int \<Rightarrow> bool) \<Rightarrow> string \<Rightarrow> string \<Rightarrow> int list \<Rightarrow> py_error + pyval dict list" where
  "central_discover port_open scope_type scope_value ports =
     rbind (hosts_for_scope scope_type scope_value) (\<lambda>hosts.
       let candidates = concat (map (\<lambda>h. map (\<lambda>p. (h, p)) (filter (\<lambda>p. p \<notin> {500, 4500}) ports)) hosts)
       in Inr (map (\<lambda>(h, p). [(''host'', PStr h), (''port'', PInt p), (''transport'', PStr ''TCP''),
                 (''detected_protocol'', PStr (protocol_hint_for_port p ''TCP'')),
                 (''suggested_protocol_hint'', PStr (protocol_hint_for_port p ''TCP''))])
               (filter (\<lambda>(h, p). port_open h p) candidates)))"

section \<open>Availability metrics\<close>

definition endpoint_availability_metrics :: "pyval dict \<Rightarrow> pyval dict" where
  "endpoint_availability_metrics e =
     (case py_or (pget e ''availability_metrics'') (py_or (pget e ''performance_metrics'')
             (py_or (pget e ''performance'') (PDict []))) of
        PDict m \<Rightarrow> m | _ \<Rightarrow> [])"

text \<open>\<open>isinstance(v, int)\<close> holds of a bool too.\<close>

definition as_int :: "pyval \<Rightarrow> int option" where
  "as_int v = (case v of PInt n \<Rightarrow> Some n | PBool b \<Rightarrow> Some (if b then 1 else 0) | _ \<Rightarrow> None)"

definition series_samples :: "pyval dict \<Rightarrow> string \<Rightarrow> int" where
  "series_samples m k =
     (let fallback = (case as_int (pget m ''sample_count'') of Some n \<Rightarrow> n | None \<Rightarrow> 0)
      in case pget m k of
           PDict s \<Rightarrow> (case as_int (pget s ''samples'') of Some n \<Rightarrow> n | None \<Rightarrow> fallback)
         | _ \<Rightarrow> fallback)"

definition metric_number :: "pyval \<Rightarrow> py_error + pyfloat option" where
  "metric_number v =
     (case v of PInt n \<Rightarrow> rmap Some (int_to_float n) | PFloat x \<Rightarrow> Inr (Some x) | _ \<Rightarrow> Inr None)"

definition series_value :: "pyval dict \<Rightarrow> string \<Rightarrow> string \<Rightarrow> py_error + pyfloat option" where
  "series_value m k percentile =
     (case pget m k of PDict s \<Rightarrow> metric_number (pget s percentile) | v \<Rightarrow> metric_number v)"

definition present :: "'a option list \<Rightarrow> 'a list" where
  "present xs = map the (filter (\<lambda>x. x \<noteq> None) xs)"

definition average_of :: "pyfloat option list \<Rightarrow> pyval" where
  "average_of xs =
     (let ns = present xs
      in if ns = [] then PNone
         else PFloat (fround 4 (fdiv_by (fsum ns) (of_nat (length ns)))))"

definition average_metric :: "pyval dict list \<Rightarrow> string \<Rightarrow> py_error + pyval" where
  "average_metric ms k = rmap average_of (rmapM (\<lambda>m. series_value m k ''p95'') ms)"

definition max_metric :: "pyval dict list \<Rightarrow> string \<Rightarrow> py_error + pyval" where
  "max_metric ms k =
     rmap (\<lambda>xs. case present xs of [] \<Rightarrow> PNone | y # ys \<Rightarrow> PFloat (fround 2 (foldl fmax y ys)))
       (rmapM (\<lambda>m. series_value m k ''p95'') ms)"

definition average_scalar :: "pyval dict list \<Rightarrow> string \<Rightarrow> py_error + pyval" where
  "average_scalar ms k = rmap average_of (rmapM (\<lambda>m. metric_number (pget m k)) ms)"

definition is_tls_endpoint :: "pyval dict \<Rightarrow> bool" where
  "is_tls_endpoint e =
     (upper (py_str (py_or (pget e ''transport'') (PStr ''TCP''))) = ''TCP''
      \<and> upper (py_str (py_or (pget e ''suggested_protocol_hint'')
                 (py_or (pget e ''detected_protocol'') (PStr [])))) = ''TLS'')"

definition summarize_discovery_availability :: "pyval dict list \<Rightarrow> py_error + pyval" where
  "summarize_discovery_availability endpoints =
     (let ms = filter (\<lambda>m. m \<noteq> []) (map endpoint_availability_metrics endpoints);
          tls = PInt (int (length (filter is_tls_endpoint endpoints)))
      in if ms = [] then
           Inr (PDict [(''measured_endpoint_count'', PInt 0), (''tls_endpoint_count'', tls),
                 (''sample_count'', PInt 0), (''averages'', PDict []), (''max'', PDict []),
                 (''rates'', PDict [(''failure_rate'', PFloat (Fin 0)), (''timeout_rate'', PFloat (Fin 0))])])
         else
           rbind (average_metric ms ''tcp_connect_ms'') (\<lambda>a1. rbind (average_metric ms ''handshake_ms'') (\<lambda>a2.
           rbind (average_metric ms ''ttfb_ms'') (\<lambda>a3. rbind (average_metric ms ''total_request_ms'') (\<lambda>a4.
           rbind (max_metric ms ''tcp_connect_ms'') (\<lambda>m1. rbind (max_metric ms ''handshake_ms'') (\<lambda>m2.
           rbind (max_metric ms ''ttfb_ms'') (\<lambda>m3. rbind (max_metric ms ''total_request_ms'') (\<lambda>m4.
           rbind (average_scalar ms ''failure_rate'') (\<lambda>r1. rbind (average_scalar ms ''timeout_rate'') (\<lambda>r2.
           rbind (average_scalar ms ''handshake_bytes_sent'') (\<lambda>b1.
           rbind (average_scalar ms ''handshake_bytes_received'') (\<lambda>b2.
             Inr (PDict
               [(''measured_endpoint_count'', PInt (int (length ms))), (''tls_endpoint_count'', tls),
                (''sample_count'', PInt (sum_list (map (\<lambda>m. series_samples m ''handshake_ms'') ms))),
                (''averages'', PDict [(''tcp_connect_p95_ms'', a1), (''handshake_p95_ms'', a2),
                   (''ttfb_p95_ms'', a3), (''total_request_p95_ms'', a4)]),
                (''max'', PDict [(''tcp_connect_p95_ms'', m1), (''handshake_p95_ms'', m2),
                   (''ttfb_p95_ms'', m3), (''total_request_p95_ms'', m4)]),
                (''rates'', PDict [(''failure_rate'', r1), (''timeout_rate'', r2)]),
                (''handshake_bytes'', PDict [(''sent'', b1), (''received'', b2)])]))))))))))))))"

section \<open>Endpoints and targets\<close>

abbreviation target_key :: "target \<Rightarrow> string \<times> int \<times> string" where
  "target_key t \<equiv> (tg_host t, tg_port t, tg_transport t)"

definition endpoint_key :: "endpoint \<Rightarrow> int \<times> string \<times> int \<times> string" where
  "endpoint_key e = (e_discovery e, e_host e, e_port e, e_transport e)"

text \<open>\<open>Target.objects.get_or_create\<close> on its unique key; the row created otherwise has the given defaults.\<close>

definition get_or_create_target ::
  "string \<Rightarrow> int \<Rightarrow> string \<Rightarrow> string option \<Rightarrow> string \<Rightarrow> pyval dict \<Rightarrow> bool \<Rightarrow> db \<Rightarrow> target \<times> db" where
  "get_or_create_target host port transport ip hint context agent_enabled d =
     (case find_row target_key (host, port, transport) (db_targets d) of
        Some t \<Rightarrow> (t, d)
      | None \<Rightarrow>
          (let t = \<lparr>tg_id = next_id tg_id (db_targets d), tg_host = host, tg_display_name = None, tg_ip = ip,
                    tg_port = port, tg_protocol_hint = hint, tg_sni = None, tg_transport = transport,
                    tg_agent_enabled = agent_enabled, tg_agent_url = None, tg_context = context\<rparr>
           in (t, d\<lparr>db_targets := add_row t (db_targets d)\<rparr>)))"

definition auto_promote_endpoint :: "endpoint \<Rightarrow> db \<Rightarrow> db" where
  "auto_promote_endpoint e d =
     (case get_or_create_target (e_host e) (e_port e) (e_transport e) (ip_or_none (e_host e))
             (normalized_protocol_hint (e_suggested e)) default_context False d of
        (t, d1) \<Rightarrow>
          d1\<lparr>db_endpoints := put_row e_id (e\<lparr>e_target := Some (tg_id t), e_promoted := True\<rparr>) (db_endpoints d1)\<rparr>)"

definition endpoint_text :: "pyval dict \<Rightarrow> string \<Rightarrow> string \<Rightarrow> string" where
  "endpoint_text e k v = py_str (py_or (pget e k) (PStr v))"

definition valid_endpoint :: "string \<Rightarrow> int \<Rightarrow> string \<Rightarrow> bool" where
  "valid_endpoint host port transport =
     (host \<noteq> [] \<and> 1 \<le> port \<and> port \<le> 65535 \<and> transport \<in> {''TCP'', ''UDP''})"

text \<open>The host, port and transport of a found endpoint: None when the loop skips it.\<close>

definition endpoint_address :: "pyval dict \<Rightarrow> py_error + (string \<times> int \<times> string) option" where
  "endpoint_address e =
     (let host = strip (py_str (py_or (pget e ''host'') (py_or (pget e ''ip'') (PStr []))));
          transport = upper (endpoint_text e ''transport'' ''TCP'')
      in rmap (\<lambda>port. if valid_endpoint host port transport then Some (host, port, transport) else None)
           (py_int (py_or (pget e ''port'') (PInt 0))))"

text \<open>\<open>update_or_create\<close> of the endpoint row, after the deletion of the duplicates of the oldest one.\<close>

definition store_endpoint :: "int \<Rightarrow> string \<times> int \<times> string \<Rightarrow> pyval dict \<Rightarrow> db \<Rightarrow> endpoint \<times> db" where
  "store_endpoint disc a e d =
     (case a of (host, port, transport) \<Rightarrow>
        (let detected = take 32 (endpoint_text e ''detected_protocol'' ''UNKNOWN'');
             suggested = take 16 (endpoint_text e ''suggested_protocol_hint'' (protocol_hint_for_port port transport));
             metrics = PDict (endpoint_availability_metrics e);
             same = (\<lambda>x. endpoint_key x = (disc, host, port, transport))
         in case first_by e_id e_id (filter same (db_endpoints d)) of
              Some x \<Rightarrow>
                (let x' = x\<lparr>e_detected := detected, e_suggested := suggested, e_metrics := metrics\<rparr>
                 in (x', d\<lparr>db_endpoints :=
                       filter (\<lambda>y. \<not> same y \<or> e_id y = e_id x) (put_row e_id x' (db_endpoints d))\<rparr>))
            | None \<Rightarrow>
                (let x = \<lparr>e_id = next_id e_id (db_endpoints d), e_discovery = disc, e_host = host, e_port = port,
                          e_transport = transport, e_detected = detected, e_suggested = suggested,
                          e_promoted = False, e_target = None, e_metrics = metrics\<rparr>
                 in (x, d\<lparr>db_endpoints := add_row x (db_endpoints d)\<rparr>))))"

text \<open>One turn of the loop of \<open>upsert_discovered_endpoints\<close>.\<close>

definition upsert_endpoint :: "int \<Rightarrow> pyval dict \<Rightarrow> db \<Rightarrow> py_error + db option" where
  "upsert_endpoint disc e d =
     rmap (map_option (\<lambda>a. case store_endpoint disc a e d of (x, d') \<Rightarrow> auto_promote_endpoint x d'))
       (endpoint_address e)"

fun upsert_discovered_endpoints :: "int \<Rightarrow> pyval list \<Rightarrow> int \<Rightarrow> db \<Rightarrow> db \<times> (py_error + int)" where
  "upsert_discovered_endpoints disc [] saved d = (d, Inr saved)"
| "upsert_discovered_endpoints disc (v # vs) saved d =
     (case v of
        PDict e \<Rightarrow>
          (case upsert_endpoint disc e d of
             Inl err \<Rightarrow> (d, Inl err)
           | Inr None \<Rightarrow> upsert_discovered_endpoints disc vs saved d
           | Inr (Some d') \<Rightarrow> upsert_discovered_endpoints disc vs (saved + 1) d')
      | _ \<Rightarrow> (d, Inl (AttributeError ''get'')))"

section \<open>The worker\<close>

definition run_discovery_payload ::
  "(string \<Rightarrow> int \<Rightarrow> bool) \<Rightarrow> (agent \<Rightarrow> pyval dict \<Rightarrow> py_error + pyval dict) \<Rightarrow> pyval dict \<Rightarrow> db
   \<Rightarrow> db \<times> (py_error + pyval dict)" where
  "run_discovery_payload port_open post_discover payload d =
     (case rbind (payload_int payload ''discovery_id'') (\<lambda>i. get_row d_id i (db_discoveries d)) of
        Inl e \<Rightarrow> (d, Inl e)
      | Inr x \<Rightarrow>
          (let ports = resolved_ports (d_include_default_ports x) (d_ports x);
               scope = or_str (d_scope_value x) (d_cidr x);
               request = [(''scope_type'', PStr (d_scope_type x)), (''scope_value'', PStr scope),
                          (''cidr'', PStr (d_cidr x)), (''ports'', PList (map PInt ports))];
               found =
                 (if d_executor x = ''agent'' then
                    (case (case d_agent x of None \<Rightarrow> None | Some a \<Rightarrow> find_row ag_id a (db_agents d)) of
                       None \<Rightarrow> Inl (AttributeError ''agent_url'')
                     | Some a \<Rightarrow>
                         rbind (post_discover a request) (\<lambda>resp.
                         rbind (py_iter (dget_or resp ''endpoints'' (PList []))) (\<lambda>es.
                           Inr (es, py_or (pget resp ''availability_report'') (pget resp ''performance_report'')))))
                  else rmap (\<lambda>es. (map PDict es, PNone)) (central_discover port_open (d_scope_type x) scope ports))
           in case found of
                Inl e \<Rightarrow> (d, Inl e)
              | Inr (es, report) \<Rightarrow>
                  (case upsert_discovered_endpoints (d_id x) es 0 d of
                     (d', Inl e) \<Rightarrow> (d', Inl e)
                   | (d', Inr saved) \<Rightarrow>
                       (d', rmap (\<lambda>rep. [(''discovery_id'', PInt (d_id x)), (''executor_type'', PStr (d_executor x)),
                                       (''endpoints_count'', PInt saved), (''availability_report'', rep)])
                            (if truthy report then Inr report
                             else rbind (rmapM as_dict es) summarize_discovery_availability)))))"

definition claim_discovery_task :: "int \<Rightarrow> int \<Rightarrow> db \<Rightarrow> py_error + pyval dict option \<times> db" where
  "claim_discovery_task i now d =
     rbind (lock_task i now d) (\<lambda>lock.
       case lock of None \<Rightarrow> Inr (None, d)
       | Some t \<Rightarrow>
           rbind (payload_int (t_payload t) ''discovery_id'') (\<lambda>di.
           rbind (get_row d_id di (db_discoveries d)) (\<lambda>x.
             let start = set_discovery (x\<lparr>d_status := RUNNING, d_started := or_else (d_started x) now, d_error := None\<rparr>)
             in case t_job t of None \<Rightarrow> Inr (Some (t_payload t), start (set_task t d))
                | Some ji \<Rightarrow>
                    rbind (get_row j_id ji (db_jobs d)) (\<lambda>j.
                      if j_status j = CANCELLED
                      then Inr (None, set_task (t\<lparr>t_status := T_CANCELLED\<rparr>) d)
                      else Inr (Some (t_payload t), start (set_job
                             (j\<lparr>j_status := RUNNING, j_started := or_else (j_started j) now,
                                j_progress := progress_start\<rparr>) (set_task t d)))))))"

definition follow_up_targets :: "int \<Rightarrow> db \<Rightarrow> int list" where
  "follow_up_targets disc d =
     sort (remdups (present (map e_target (filter (\<lambda>e. e_discovery e = disc \<and> e_promoted e) (db_endpoints d)))))"

definition enqueue_follow_up_scan ::
  "discovery \<Rightarrow> async_job \<Rightarrow> pyval dict \<Rightarrow> int \<Rightarrow> db \<Rightarrow> pyval dict \<times> db" where
  "enqueue_follow_up_scan x j result now d =
     (if dget_or (j_request j) ''auto_scan'' (PBool True) = PBool False then (result, d)
      else
        (let target_ids = follow_up_targets (d_id x) d;
             availability = PBool (dget_or (j_request j) ''auto_availability_check'' (PBool True) \<noteq> PBool False);
             follow_up = [(''target_count'', PInt (int (length target_ids))), (''auto_scan'', PBool True),
                          (''auto_availability_check'', availability)]
         in if target_ids = [] then (dset ''follow_up'' (PDict follow_up) result, d)
            else
              (let sj_id' = next_id sj_id (db_scan_jobs d);
                   nj = (new_job ''scan_job''
                          [(''target_ids'', PList (map PInt target_ids)), (''scanners'', PList [PStr ''network'']),
                           (''origin'', PDict [(''kind'', PStr ''discovery''), (''discovery_id'', PInt (d_id x)),
                                             (''job_id'', PInt (j_id j))]),
                           (''auto_availability_check'', availability)] now d)\<lparr>j_resource := Some sj_id'\<rparr>;
                   sj = \<lparr>sj_id = sj_id', sj_job = j_id nj, sj_target_ids = target_ids, sj_scanners = [''network'']\<rparr>;
                   d1 = (add_job nj d)\<lparr>db_scan_jobs := add_row sj (db_scan_jobs d)\<rparr>
               in (dset ''follow_up'' (PDict (follow_up @ [(''scan_job_id'', PInt sj_id'),
                                                        (''scan_async_job_id'', PInt (j_id nj))])) result,
                   enqueue_scan_job sj now d1))))"

definition complete_discovery_task ::
  "int \<Rightarrow> int \<Rightarrow> pyval dict \<Rightarrow> db \<Rightarrow> py_error + pyval dict \<times> db" where
  "complete_discovery_task i now result d =
     rbind (get_row t_id i (db_tasks d)) (\<lambda>t.
     rbind (payload_int (t_payload t) ''discovery_id'') (\<lambda>di.
     rbind (case t_job t of None \<Rightarrow> Inr None | Some ji \<Rightarrow> rmap Some (get_row j_id ji (db_jobs d))) (\<lambda>job.
       let disc = find_row d_id di (db_discoveries d);
           d1 = set_task (t\<lparr>t_status := T_COMPLETED, t_last_error := None\<rparr>) d;
           d2 = (case disc of None \<Rightarrow> d1
                 | Some x \<Rightarrow> set_discovery (x\<lparr>d_status := COMPLETED, d_finished := Some now, d_error := None\<rparr>) d1)
       in case job of None \<Rightarrow> Inr (result, d2)
          | Some j \<Rightarrow>
              if j_status j = CANCELLED then Inr ([], set_task (t\<lparr>t_status := T_CANCELLED\<rparr>) d)
              else
                (case (case disc of None \<Rightarrow> (result, d2) | Some x \<Rightarrow> enqueue_follow_up_scan x j result now d2) of
                   (result', d3) \<Rightarrow>
                     (let n = dget_or result' ''endpoints_count'' (PInt 0)
                      in Inr (result', set_job
                           (j\<lparr>j_status := COMPLETED,
                              j_progress := PDict [(''current'', n), (''total'', n), (''percent'', PInt 100)],
                              j_result := PDict result', j_error := PNone, j_finished := Some now\<rparr>) d3))))))"

definition fail_discovery_task :: "int \<Rightarrow> int \<Rightarrow> py_error \<Rightarrow> db \<Rightarrow> py_error + db" where
  "fail_discovery_task i now exc d =
     rbind (get_row t_id i (db_tasks d)) (\<lambda>t.
     rbind (payload_int (t_payload t) ''discovery_id'') (\<lambda>di.
       let d1 = set_task (t\<lparr>t_status := T_FAILED, t_last_error := Some (exc_str exc)\<rparr>) d;
           d2 = (case find_row d_id di (db_discoveries d) of None \<Rightarrow> d1
                 | Some x \<Rightarrow> set_discovery (x\<lparr>d_status := FAILED, d_error := Some (take 255 (exc_str exc)),
                                          d_finished := Some now\<rparr>) d1)
       in case t_job t of None \<Rightarrow> Inr d2
          | Some ji \<Rightarrow>
              rbind (get_row j_id ji (db_jobs d)) (\<lambda>j.
                Inr (set_job (j\<lparr>j_status := FAILED, j_error := PDict [(''message'', PStr (exc_str exc))],
                               j_finished := Some now\<rparr>) d2))))"

definition process_discovery_task ::
  "(string \<Rightarrow> int \<Rightarrow> bool) \<Rightarrow> (agent \<Rightarrow> pyval dict \<Rightarrow> py_error + pyval dict) \<Rightarrow> int \<Rightarrow> int \<Rightarrow> db
   \<Rightarrow> db \<times> (py_error + pyval dict)" where
  "process_discovery_task port_open post_discover i now d =
     run_worker claim_discovery_task (run_discovery_payload port_open post_discover) complete_discovery_task
       fail_discovery_task i now d"

definition process_next_discovery_task ::
  "(string \<Rightarrow> int \<Rightarrow> bool) \<Rightarrow> (agent \<Rightarrow> pyval dict \<Rightarrow> py_error + pyval dict) \<Rightarrow> int \<Rightarrow> db
   \<Rightarrow> db \<times> (py_error + pyval dict option)" where
  "process_next_discovery_task port_open post_discover now d =
     (case next_task ''discovery'' now d of None \<Rightarrow> (d, Inr None)
      | Some t \<Rightarrow> (case process_discovery_task port_open post_discover (t_id t) now d of (d', r) \<Rightarrow> (d', rmap Some r)))"

section \<open>The API of discoveries\<close>

record discovery_create =
  dc_scope_type :: "string option"
  dc_scope_value :: "string option"
  dc_cidr :: "string option"
  dc_executor_type :: string
  dc_agent_id :: "string option"
  dc_ports :: "int list option"
  dc_include_default_ports :: bool
  dc_auto_scan :: bool
  dc_auto_availability_check :: bool

text \<open>The validator of the request body: the scope is normalised and stored in all three fields.\<close>

definition normalize_scope :: "discovery_create \<Rightarrow> py_error + discovery_create" where
  "normalize_scope p =
     (let scope_type = (case dc_scope_type p of Some s \<Rightarrow> s | None \<Rightarrow> ''cidr'')
      in case (case dc_scope_value p of Some v \<Rightarrow> Some v | None \<Rightarrow> dc_cidr p) of
           None \<Rightarrow> Inl (ValueError ''scope_value is required.'')
         | Some v \<Rightarrow>
             rbind (validate_scope scope_type v) (\<lambda>n.
               if dc_executor_type p = ''central'' \<and> dc_agent_id p \<noteq> None
               then Inl (ValueError ''agent_id is only valid when executor_type is agent.'')
               else if dc_executor_type p = ''agent'' \<and> dc_agent_id p = None
               then Inl (ValueError ''agent_id is required when executor_type is agent.'')
               else Inr (p\<lparr>dc_scope_type := Some scope_type, dc_scope_value := Some n, dc_cidr := Some n\<rparr>)))"

definition get_usable_discovery_agent :: "string \<Rightarrow> int \<Rightarrow> db \<Rightarrow> response + agent" where
  "get_usable_discovery_agent i now d =
     (let bad = (\<lambda>m status. Inl (error_response ''agent_unavailable'' m [] status))
      in case find_row ag_id i (db_agents d) of
           None \<Rightarrow> bad ''Discovery agent not found.'' 422
         | Some a \<Rightarrow>
             if ag_role a \<noteq> ''discovery'' then bad ''Selected agent is not a Discovery Agent.'' 422
             else if \<not> ag_active a then bad ''Discovery agent is inactive.'' 409
             else if is_stale a now then bad ''Discovery agent heartbeat is stale.'' 409
             else if ''agent.discovery'' \<notin> set (ag_capabilities a)
             then bad ''Selected agent does not support discovery.'' 422
             else if ag_url a \<in> {None, Some []} \<or> ag_runtime_token a \<in> {None, Some []}
             then bad ''Discovery agent is missing connection credentials.'' 409
             else Inr a)"

definition enqueue_discovery :: "discovery \<Rightarrow> int \<Rightarrow> db \<Rightarrow> db" where
  "enqueue_discovery x now d =
     enqueue_task ''discovery''
       [(''discovery_id'', PInt (d_id x)), (''scope_type'', PStr (d_scope_type x)),
        (''scope_value'', PStr (or_str (d_scope_value x) (d_cidr x))), (''cidr'', PStr (d_cidr x)),
        (''executor_type'', PStr (d_executor x)), (''agent_id'', opt_str (d_agent x)),
        (''ports'', PList (map PInt (d_ports x)))]
       (Some (d_job x)) now d"

definition discovery_request :: "discovery_create \<Rightarrow> pyval dict" where
  "discovery_request p =
     filter (\<lambda>kv. snd kv \<noteq> PNone)
       [(''scope_type'', opt_str (dc_scope_type p)), (''scope_value'', opt_str (dc_scope_value p)),
        (''cidr'', opt_str (dc_cidr p)), (''executor_type'', PStr (dc_executor_type p)),
        (''agent_id'', opt_str (dc_agent_id p)),
        (''ports'', case dc_ports p of None \<Rightarrow> PNone | Some ps \<Rightarrow> PList (map PInt ps)),
        (''include_default_ports'', PBool (dc_include_default_ports p)),
        (''auto_scan'', PBool (dc_auto_scan p)),
        (''auto_availability_check'', PBool (dc_auto_availability_check p))]"

definition discovery_envelope :: "discovery \<Rightarrow> db \<Rightarrow> response" where
  "discovery_envelope x d =
     (case job_of d (d_job x) of Some j \<Rightarrow> Response 202 (serialize_job j)
      | None \<Rightarrow> error_response ''internal'' ''Internal server error.'' [] 500)"

text \<open>The agent of the request: none for a central discovery, otherwise it must be usable.\<close>

definition resolve_agent :: "discovery_create \<Rightarrow> int \<Rightarrow> db \<Rightarrow> response + string option" where
  "resolve_agent p now d =
     (if dc_executor_type p = ''agent''
      then (case get_usable_discovery_agent (the (dc_agent_id p)) now d of Inl r \<Rightarrow> Inl r | Inr a \<Rightarrow> Inr (Some (ag_id a)))
      else Inr None)"

definition scope_key :: "discovery \<Rightarrow> string \<times> string \<times> string \<times> string option" where
  "scope_key x = (d_scope_type x, d_scope_value x, d_executor x, d_agent x)"

definition requested_scope :: "discovery_create \<Rightarrow> string option \<Rightarrow> string \<times> string \<times> string \<times> string option" where
  "requested_scope p ag = (the (dc_scope_type p), the (dc_scope_value p), dc_executor_type p, ag)"

definition requested_ports :: "discovery_create \<Rightarrow> int list" where
  "requested_ports p = (case dc_ports p of None \<Rightarrow> [] | Some ps \<Rightarrow> ps)"

definition restarted_discovery :: "discovery_create \<Rightarrow> int \<Rightarrow> discovery \<Rightarrow> discovery" where
  "restarted_discovery p job x =
     x\<lparr>d_job := job, d_cidr := the (dc_cidr p), d_ports := requested_ports p,
       d_include_default_ports := dc_include_default_ports p, d_status := PENDING,
       d_started := None, d_finished := None, d_error := None\<rparr>"

definition new_discovery :: "discovery_create \<Rightarrow> string option \<Rightarrow> int \<Rightarrow> db \<Rightarrow> discovery" where
  "new_discovery p ag job d =
     \<lparr>d_id = next_id d_id (db_discoveries d), d_job = job, d_scope_type = the (dc_scope_type p),
      d_scope_value = the (dc_scope_value p), d_cidr = the (dc_cidr p), d_executor = dc_executor_type p, d_agent = ag,
      d_ports = requested_ports p, d_include_default_ports = dc_include_default_ports p,
      d_status = PENDING, d_started = None, d_finished = None, d_error = None\<rparr>"

text \<open>The newest discovery of the scope: an active one is answered as it is, a finished one is restarted
  under a new job, and without one a row is created.\<close>

definition create_discovery :: "discovery_create \<Rightarrow> int \<Rightarrow> db \<Rightarrow> response \<times> db" where
  "create_discovery raw now d =
     (case normalize_scope raw of
        Inl e \<Rightarrow> (error_response ''unprocessable'' ''Request validation failed.'' [] 422, d)
      | Inr p \<Rightarrow>
          (case resolve_agent p now d of
             Inl r \<Rightarrow> (r, d)
           | Inr ag \<Rightarrow>
               (let found = first_by (\<lambda>x. - d_id x) d_id
                      (filter (\<lambda>x. scope_key x = requested_scope p ag) (db_discoveries d));
                    j = new_job ''discovery'' (discovery_request p) now d
                in case found of
                     Some x \<Rightarrow>
                       if d_status x \<in> {PENDING, RUNNING} then (discovery_envelope x d, d)
                       else
                         (let x' = restarted_discovery p (j_id j) x;
                              d1 = enqueue_discovery x' now
                                     (set_discovery x' (add_job (j\<lparr>j_resource := Some (d_id x')\<rparr>) d))
                          in (discovery_envelope x' d1, d1))
                   | None \<Rightarrow>
                       (let x' = new_discovery p ag (j_id j) d;
                            d0 = add_job (j\<lparr>j_resource := Some (d_id x')\<rparr>) d;
                            d1 = enqueue_discovery x' now (d0\<lparr>db_discoveries := add_row x' (db_discoveries d)\<rparr>)
                        in (discovery_envelope x' d1, d1)))))"

record promotion =
  pm_endpoint :: int
  pm_host :: string
  pm_protocol_hint :: string
  pm_context :: "pyval dict option"
  pm_agent_enabled :: bool

text \<open>The endpoints are read once, before the loop: a promotion listed twice is looked up in the same
  object, which the first turn has marked as promoted.\<close>

fun promote_loop ::
  "promotion list \<Rightarrow> endpoint list \<Rightarrow> pyval list \<Rightarrow> pyval list \<Rightarrow> db \<Rightarrow> pyval list \<times> pyval list \<times> db" where
  "promote_loop [] rows promoted skipped d = (promoted, skipped, d)"
| "promote_loop (p # ps) rows promoted skipped d =
     (let skip = (\<lambda>r. skipped @ [PDict [(''endpoint_id'', PInt (pm_endpoint p)), (''reason'', PStr r)]])
      in case find_row e_id (pm_endpoint p) rows of
           None \<Rightarrow> promote_loop ps rows promoted (skip ''endpoint_not_found'') d
         | Some e \<Rightarrow>
             if e_promoted e then promote_loop ps rows promoted (skip ''already_promoted'') d
             else
               (case get_or_create_target (pm_host p) (e_port e) (e_transport e) None (pm_protocol_hint p)
                       (dmerge default_context (case pm_context p of None \<Rightarrow> [] | Some c \<Rightarrow> c)) (pm_agent_enabled p) d of
                  (t, d1) \<Rightarrow>
                    (let e' = e\<lparr>e_target := Some (tg_id t), e_promoted := True\<rparr>
                     in promote_loop ps (put_row e_id e' rows)
                          (promoted @ [PDict [(''endpoint_id'', PInt (e_id e)), (''target_id'', PInt (tg_id t))]])
                          skipped (d1\<lparr>db_endpoints := put_row e_id e' (db_endpoints d1)\<rparr>))))"

definition promote_discovery_endpoints :: "int \<Rightarrow> promotion list \<Rightarrow> db \<Rightarrow> response \<times> db" where
  "promote_discovery_endpoints i ps d =
     (case find_row d_id i (db_discoveries d) of
        None \<Rightarrow> (error_response ''not_found'' ''Resource not found.'' [] 404, d)
      | Some x \<Rightarrow>
          if d_status x = CANCELLED
          then (error_response ''conflict'' ''Cancelled discovery endpoints cannot be promoted.'' [] 409, d)
          else
            (case promote_loop ps (filter (\<lambda>e. e_discovery e = i \<and> e_id e \<in> pm_endpoint ` set ps) (db_endpoints d)) [] [] d of
               (promoted, skipped, d') \<Rightarrow>
                 (Response 201 (PDict [(''promoted'', PList promoted), (''skipped'', PList skipped)]), d')))"

definition serialize_endpoint :: "endpoint \<Rightarrow> pyval" where
  "serialize_endpoint e =
     PDict [(''id'', PInt (e_id e)), (''ip'', PStr (e_host e)), (''host'', PStr (e_host e)), (''port'', PInt (e_port e)),
            (''transport'', PStr (e_transport e)), (''detected_protocol'', PStr (e_detected e)),
            (''banner_metadata'', PDict []), (''suggested_protocol_hint'', PStr (e_suggested e)),
            (''suggested_host'', PStr (e_host e)), (''promoted'', PBool (e_promoted e)),
            (''target_id'', opt_int (e_target e)), (''availability_metrics'', e_metrics e)]"

definition list_discovery_endpoints :: "int \<Rightarrow> int \<Rightarrow> int \<Rightarrow> db \<Rightarrow> response" where
  "list_discovery_endpoints i offset limit d =
     (case find_row d_id i (db_discoveries d) of
        None \<Rightarrow> error_response ''not_found'' ''Resource not found.'' [] 404
      | Some x \<Rightarrow>
          (let q = sort_key e_id (filter (\<lambda>e. e_discovery e = i) (db_endpoints d))
           in Response 200 (page_envelope (map serialize_endpoint (page_slice offset limit q)) offset limit
                              (Some (int (length q))))))"

section \<open>Ports\<close>

text \<open>The ports of a discovery are strictly ascending and are exactly the requested ports, together with
  the default ones when these are included.\<close>

theorem resolved_ports_spec:
  "sorted_wrt (<) (resolved_ports b ports)
   \<and> set (resolved_ports b ports) = set ports \<union> (if b then set DEFAULT_DISCOVERY_PORTS else {})"
  by (simp add: resolved_ports_def strict_sorted_iff)

section \<open>Well-formed endpoints and targets\<close>

definition valid_target :: "target \<Rightarrow> bool" where
  "valid_target t = (1 \<le> tg_port t \<and> tg_port t \<le> 65535 \<and> tg_transport t \<in> {''TCP'', ''UDP''})"

definition targets_wf :: "target list \<Rightarrow> bool" where
  "targets_wf ts = (distinct (map tg_id ts) \<and> distinct (map target_key ts) \<and> list_all valid_target ts)"

definition endpoints_wf :: "endpoint list \<Rightarrow> bool" where
  "endpoints_wf es = (distinct (map e_id es) \<and> distinct (map endpoint_key es)
     \<and> list_all (\<lambda>e. valid_endpoint (e_host e) (e_port e) (e_transport e)) es)"

definition net_wf :: "db \<Rightarrow> bool" where
  "net_wf d = (targets_wf (db_targets d) \<and> endpoints_wf (db_endpoints d))"

lemma get_or_create_wf:
  assumes "targets_wf (db_targets d)" and "1 \<le> port" "port \<le> 65535" "transport \<in> {''TCP'', ''UDP''}"
    and "get_or_create_target host port transport ip hint ctx ae d = (t, d')"
  shows "targets_wf (db_targets d')" and "db_endpoints d' = db_endpoints d"
    and "t \<in> set (db_targets d')" and "target_key t = (host, port, transport)"
    and "set (db_targets d) \<subseteq> set (db_targets d')"
proof -
  have "targets_wf (db_targets d') \<and> db_endpoints d' = db_endpoints d \<and> t \<in> set (db_targets d')
      \<and> target_key t = (host, port, transport) \<and> set (db_targets d) \<subseteq> set (db_targets d')"
  proof (cases "find_row target_key (host, port, transport) (db_targets d)")
    case None
    then have "(host, port, transport) \<notin> target_key ` set (db_targets d)" by (simp add: find_row_None)
    then show ?thesis
      using assms None next_id_fresh [of _ "db_targets d" tg_id]
      by (fastforce simp: get_or_create_target_def Let_def targets_wf_def valid_target_def add_row_def)
  next
    case (Some u)
    then show ?thesis using assms find_row_Some [OF Some] by (auto simp: get_or_create_target_def)
  qed
  then show "targets_wf (db_targets d')" and "db_endpoints d' = db_endpoints d"
    and "t \<in> set (db_targets d')" and "target_key t = (host, port, transport)"
    and "set (db_targets d) \<subseteq> set (db_targets d')" by blast+
qed

text \<open>What a promoted endpoint points to: a target of its own host, port and transport.\<close>

definition points_home :: "db \<Rightarrow> endpoint \<Rightarrow> bool" where
  "points_home d e = (e_promoted e \<and> list_ex (\<lambda>t. e_target e = Some (tg_id t)
     \<and> target_key t = (e_host e, e_port e, e_transport e)) (db_targets d))"

lemma auto_promote_wf:
  assumes "net_wf d" and "e \<in> set (db_endpoints d)"
  shows "net_wf (auto_promote_endpoint e d)"
    and "\<exists>e'. find_row e_id (e_id e) (db_endpoints (auto_promote_endpoint e d)) = Some e'
           \<and> endpoint_key e' = endpoint_key e \<and> points_home (auto_promote_endpoint e d) e'"
    and "map endpoint_key (db_endpoints (auto_promote_endpoint e d)) = map endpoint_key (db_endpoints d)"
proof -
  obtain t d1 where g: "get_or_create_target (e_host e) (e_port e) (e_transport e) (ip_or_none (e_host e))
      (normalized_protocol_hint (e_suggested e)) default_context False d = (t, d1)" by fastforce
  have v: "valid_endpoint (e_host e) (e_port e) (e_transport e)" and ew: "endpoints_wf (db_endpoints d)"
    and tw: "targets_wf (db_targets d)"
    using assms by (auto simp: net_wf_def endpoints_wf_def list_all_iff)
  then have p: "1 \<le> e_port e" "e_port e \<le> 65535" "e_transport e \<in> {''TCP'', ''UDP''}" by (auto simp: valid_endpoint_def)
  note w = get_or_create_wf [OF tw p g]
  let ?e = "e\<lparr>e_target := Some (tg_id t), e_promoted := True\<rparr>"
  have eq: "auto_promote_endpoint e d = d1\<lparr>db_endpoints := put_row e_id ?e (db_endpoints d)\<rparr>"
    by (simp add: auto_promote_endpoint_def g w(2))
  have dist: "distinct (map e_id (db_endpoints d))" using ew by (simp add: endpoints_wf_def)
  have m: "map endpoint_key (put_row e_id ?e (db_endpoints d)) = map endpoint_key (db_endpoints d)"
    by (rule map_put_row [OF dist assms(2)]) (simp_all add: endpoint_key_def)
  show "map endpoint_key (db_endpoints (auto_promote_endpoint e d)) = map endpoint_key (db_endpoints d)"
    using m by (simp add: eq)
  show "net_wf (auto_promote_endpoint e d)"
    using ew w(1) m v by (simp add: eq net_wf_def endpoints_wf_def list_all_put_row)
  have "find_row e_id (e_id e) (db_endpoints d) = Some e" by (rule find_row_unique [OF dist assms(2)])
  then show "\<exists>e'. find_row e_id (e_id e) (db_endpoints (auto_promote_endpoint e d)) = Some e'
           \<and> endpoint_key e' = endpoint_key e \<and> points_home (auto_promote_endpoint e d) e'"
    using w(3,4) by (auto simp: eq find_put points_home_def list_ex_iff endpoint_key_def)
qed

lemma store_endpoint_wf:
  assumes "net_wf d" and "valid_endpoint host port transport"
    and "store_endpoint disc (host, port, transport) e d = (x, d')"
  shows "net_wf d'" and "x \<in> set (db_endpoints d')" and "endpoint_key x = (disc, host, port, transport)"
    and "map endpoint_key (db_endpoints d') = map endpoint_key (db_endpoints d) @
           (if (disc, host, port, transport) \<in> endpoint_key ` set (db_endpoints d) then [] else [(disc, host, port, transport)])"
    and "db_targets d' = db_targets d"
proof -
  let ?k = "(disc, host, port, transport)" and ?E = "db_endpoints d"
  have ew: "endpoints_wf ?E" using assms(1) by (simp add: net_wf_def)
  have d1: "distinct (map e_id ?E)" and d2: "distinct (map endpoint_key ?E)" using ew by (simp_all add: endpoints_wf_def)
  have P: "net_wf d' \<and> x \<in> set (db_endpoints d') \<and> endpoint_key x = ?k
      \<and> map endpoint_key (db_endpoints d') = map endpoint_key ?E @ (if ?k \<in> endpoint_key ` set ?E then [] else [?k])
      \<and> db_targets d' = db_targets d"
  proof (cases "\<exists>y\<in>set ?E. endpoint_key y = ?k")
    case True
    then obtain y where y: "y \<in> set ?E" "endpoint_key y = ?k" by blast
    have f: "filter (\<lambda>x. endpoint_key x = ?k) ?E = [y]" using filter_same_key [OF d2 y(1)] by (simp only: y(2))
    have fb: "first_by e_id e_id (filter (\<lambda>x. endpoint_key x = ?k) ?E) = Some y" unfolding f by (simp add: first_by_def)
    have x: "endpoint_key x = ?k" "e_id x = e_id y"
      and db: "d' = d\<lparr>db_endpoints := filter (\<lambda>z. endpoint_key z \<noteq> ?k \<or> e_id z = e_id y) (put_row e_id x ?E)\<rparr>"
      using assms(3) fb y(2) unfolding store_endpoint_def Let_def by (auto simp: endpoint_key_def)
    note m = map_put_row [OF d1 y(1), of x endpoint_key] and mi = keys_put [of e_id x ?E]
    have mem: "x \<in> set (put_row e_id x ?E)" using y(1) x(2) by (force simp: put_row_def)
    have "filter (\<lambda>z. endpoint_key z \<noteq> ?k \<or> e_id z = e_id y) (put_row e_id x ?E) = put_row e_id x ?E"
    proof (rule filter_True, rule ballI)
      fix z assume z: "z \<in> set (put_row e_id x ?E)"
      have "distinct (map endpoint_key (put_row e_id x ?E))" using m d2 x y(2) by simp
      then have "endpoint_key z = endpoint_key x \<Longrightarrow> z = x" using z mem by (auto simp: distinct_map inj_on_def)
      then show "endpoint_key z \<noteq> ?k \<or> e_id z = e_id y" using x by auto
    qed
    then have db': "db_endpoints d' = put_row e_id x ?E" "db_targets d' = db_targets d" by (simp_all add: db)
    have "?k \<in> endpoint_key ` set ?E" using y by (metis image_eqI)
    moreover have "endpoints_wf (put_row e_id x ?E)"
    proof -
      have "map endpoint_key (put_row e_id x ?E) = map endpoint_key ?E" using m x y by simp
      moreover have "list_all (\<lambda>e. valid_endpoint (e_host e) (e_port e) (e_transport e)) (put_row e_id x ?E)"
        by (rule list_all_put_row) (use ew x assms(2) in \<open>auto simp: endpoints_wf_def endpoint_key_def\<close>)
      ultimately show ?thesis using d1 d2 by (simp add: endpoints_wf_def)
    qed
    ultimately show ?thesis using db' m x y mem assms(1) by (simp add: net_wf_def)
  next
    case False
    then have none: "filter (\<lambda>x. endpoint_key x = ?k) ?E = []" by (auto simp: filter_empty_conv)
    have fb: "first_by e_id e_id (filter (\<lambda>x. endpoint_key x = ?k) ?E) = None" unfolding none by (simp add: first_by_def)
    have x: "endpoint_key x = ?k" "e_id x = next_id e_id ?E" "(e_host x, e_port x, e_transport x) = (host, port, transport)"
      and db: "d' = d\<lparr>db_endpoints := add_row x ?E\<rparr>"
      using assms(3) fb unfolding store_endpoint_def Let_def by (auto simp: endpoint_key_def)
    have "?k \<notin> endpoint_key ` set ?E" using False by auto
    then show ?thesis
      using db x ew distinct_add [OF d1 x(2)] d2 assms(1,2)
      by (simp add: net_wf_def endpoints_wf_def add_row_def)
  qed
  then show "net_wf d'" and "x \<in> set (db_endpoints d')" and "endpoint_key x = ?k"
    and "map endpoint_key (db_endpoints d') = map endpoint_key ?E @ (if ?k \<in> endpoint_key ` set ?E then [] else [?k])"
    and "db_targets d' = db_targets d" by blast+
qed

lemma endpoint_address_valid: "endpoint_address e = Inr (Some (h, p, t)) \<Longrightarrow> valid_endpoint h p t"
  by (auto simp: endpoint_address_def Let_def res_simps split: if_splits)

text \<open>The keys of the rows a list of found endpoints addresses.\<close>

definition found_keys :: "int \<Rightarrow> pyval list \<Rightarrow> (int \<times> string \<times> int \<times> string) list" where
  "found_keys disc vs = concat (map (\<lambda>v. case v of PDict e \<Rightarrow>
     (case endpoint_address e of Inr (Some a) \<Rightarrow> [(disc, a)] | _ \<Rightarrow> []) | _ \<Rightarrow> []) vs)"

lemma upsert_endpoint_keys:
  assumes "net_wf d" and "upsert_endpoint disc e d = Inr (Some d')"
  shows "\<exists>a. endpoint_address e = Inr (Some a) \<and> net_wf d' \<and>
    map endpoint_key (db_endpoints d') =
      map endpoint_key (db_endpoints d) @ (if (disc, a) \<in> endpoint_key ` set (db_endpoints d) then [] else [(disc, a)])"
proof -
  obtain a where "endpoint_address e = Inr (Some a)"
    using assms(2) by (cases "endpoint_address e") (auto simp: upsert_endpoint_def map_option_case split: option.splits)
  then obtain h p t where a: "endpoint_address e = Inr (Some (h, p, t))" by (cases a) auto
  obtain x d1 where s: "store_endpoint disc (h, p, t) e d = (x, d1)" by fastforce
  note w = store_endpoint_wf [OF assms(1) endpoint_address_valid [OF a] s]
  have d': "d' = auto_promote_endpoint x d1" using assms(2) by (simp add: upsert_endpoint_def a s)
  show ?thesis using auto_promote_wf(1,3) [OF w(1,2)] w(4) a by (simp add: d')
qed

lemma upsert_discovered_keys:
  assumes "net_wf d"
  shows "case upsert_discovered_endpoints disc vs n d of (d', r) \<Rightarrow> net_wf d' \<and>
    (case r of Inl e \<Rightarrow> True
     | Inr m \<Rightarrow> m = n + int (length (found_keys disc vs)) \<and>
         map endpoint_key (db_endpoints d') = map endpoint_key (db_endpoints d)
           @ dedupe_by id (map endpoint_key (db_endpoints d)) (found_keys disc vs))"
  using assms
proof (induction disc vs n d rule: upsert_discovered_endpoints.induct)
  case (1 disc n d)
  then show ?case by (simp add: found_keys_def)
next
  case (2 disc v vs n d)
  show ?case
  proof (cases v)
    case (PDict e)
    show ?thesis
    proof (cases "upsert_endpoint disc e d")
      case (Inl err)
      then show ?thesis using 2(3) PDict by simp
    next
      case (Inr o')
      show ?thesis
      proof (cases o')
        case None
        then have "endpoint_address e = Inr None" using Inr by (auto simp: upsert_endpoint_def res_simps)
        then have fk: "found_keys disc (v # vs) = found_keys disc vs" by (simp add: found_keys_def PDict)
        show ?thesis unfolding fk using 2(1) [OF PDict Inr None 2(3)] by (simp add: PDict Inr None)
      next
        case (Some d1)
        obtain a where a: "endpoint_address e = Inr (Some a)" "net_wf d1"
            "map endpoint_key (db_endpoints d1) =
               map endpoint_key (db_endpoints d) @ (if (disc, a) \<in> endpoint_key ` set (db_endpoints d) then [] else [(disc, a)])"
          using upsert_endpoint_keys [OF 2(3) Inr [unfolded Some]] by blast
        have dd: "dedupe_by id (xs @ [k]) ks = dedupe_by id (k # xs) ks" for xs k and ks :: "(int \<times> string \<times> int \<times> string) list"
          by (rule dedupe_by_cong_seen) auto
        have fk: "found_keys disc (v # vs) = (disc, a) # found_keys disc vs" by (simp add: found_keys_def PDict a(1))
        have key: "map endpoint_key (db_endpoints d1) @ dedupe_by id (map endpoint_key (db_endpoints d1)) (found_keys disc vs)
            = map endpoint_key (db_endpoints d) @ dedupe_by id (map endpoint_key (db_endpoints d)) (found_keys disc (v # vs))"
        proof (cases "(disc, a) \<in> endpoint_key ` set (db_endpoints d)")
          case False
          then have "map endpoint_key (db_endpoints d1) = map endpoint_key (db_endpoints d) @ [(disc, a)]" using a(3) by simp
          then show ?thesis unfolding fk using False by (simp add: dd del: map_map)
        qed (use a(3) fk in simp)
        obtain d2 r where t: "upsert_discovered_endpoints disc vs (n + 1) d1 = (d2, r)" by fastforce
        show ?thesis using 2(2) [OF PDict Inr Some a(2)] key
          unfolding PDict Inr Some fk [unfolded PDict] by (cases r) (simp_all add: Inr Some t)
      qed
    qed
  qed (use 2(3) in simp_all)
qed

text \<open>C6. Storing what a discovery found keeps the tables valid, also when a malformed entry raises in the
  middle: keys and addresses stay unique, every port lies in 1..65535, every transport is TCP or UDP.
  When it returns, it counts every usable entry, and the rows are the old ones followed by one new row per
  address not seen before.\<close>

theorem upsert_discovered_sound:
  assumes "net_wf d"
  shows "case upsert_discovered_endpoints disc vs n d of (d', r) \<Rightarrow> net_wf d' \<and>
    (case r of Inl e \<Rightarrow> True
     | Inr m \<Rightarrow> m = n + int (length (found_keys disc vs)) \<and>
         map endpoint_key (db_endpoints d') = map endpoint_key (db_endpoints d)
           @ dedupe_by id (map endpoint_key (db_endpoints d)) (found_keys disc vs))"
  by (rule upsert_discovered_keys [OF assms])

definition sample_found :: pyval where
  "sample_found = PDict [(''host'', PStr ''10.0.0.5''), (''port'', PInt 443), (''transport'', PStr ''tcp'')]"

lemma empty_net_wf [simp]: "net_wf empty_db"
  by (simp add: net_wf_def targets_wf_def endpoints_wf_def)

theorem upsert_discovered_sound_witness:
  "case upsert_discovered_endpoints 3 [sample_found, PDict [(''port'', PStr ''x'')]] 0 empty_db of (d', r) \<Rightarrow> net_wf d' \<and>
    (case r of Inl e \<Rightarrow> True
     | Inr m \<Rightarrow> m = 0 + int (length (found_keys 3 [sample_found, PDict [(''port'', PStr ''x'')]])) \<and>
         map endpoint_key (db_endpoints d') = map endpoint_key (db_endpoints empty_db)
           @ dedupe_by id (map endpoint_key (db_endpoints empty_db)) (found_keys 3 [sample_found, PDict [(''port'', PStr ''x'')]]))"
  by (rule upsert_discovered_sound) simp

text \<open>Discovering again changes nothing in the inventory: storing the same list a second time, when the
  first time returned, leaves exactly the same addresses in the same order.\<close>

theorem upsert_discovered_idempotent:
  assumes "net_wf d" and "upsert_discovered_endpoints disc vs n d = (d1, Inr m)"
  shows "case upsert_discovered_endpoints disc vs n d1 of
      (d2, Inr m') \<Rightarrow> m' = m \<and> map endpoint_key (db_endpoints d2) = map endpoint_key (db_endpoints d1)
    | (d2, Inl e) \<Rightarrow> net_wf d2"
proof -
  have a: "net_wf d1" "m = n + int (length (found_keys disc vs))"
    "map endpoint_key (db_endpoints d1) = map endpoint_key (db_endpoints d)
       @ dedupe_by id (map endpoint_key (db_endpoints d)) (found_keys disc vs)"
    using upsert_discovered_keys [OF assms(1), where disc = disc and vs = vs and n = n] assms(2) by simp_all
  have "set (found_keys disc vs) \<subseteq> set (map endpoint_key (db_endpoints d1))"
    unfolding a(3) using dedupe_by_keys [of id "map endpoint_key (db_endpoints d)" "found_keys disc vs"] by auto
  then have "set (dedupe_by id (map endpoint_key (db_endpoints d1)) (found_keys disc vs)) = {}"
    using dedupe_by_keys [of id "map endpoint_key (db_endpoints d1)" "found_keys disc vs"] by auto
  then have "dedupe_by id (map endpoint_key (db_endpoints d1)) (found_keys disc vs) = []" by simp
  then show ?thesis
    using upsert_discovered_keys [OF a(1), where disc = disc and vs = vs and n = n] a(2) by (auto split: prod.splits sum.splits)
qed

lemma sample_found_stored: "\<exists>d1. upsert_discovered_endpoints 3 [sample_found] 0 empty_db = (d1, Inr 1)"
proof -
  define e where "e = [(''host'', PStr ''10.0.0.5''), (''port'', PInt 443), (''transport'', PStr ''tcp'')]"
  define a where "a = (''10.0.0.5'', 443 :: int, ''TCP'')"
  have a: "endpoint_address e = Inr (Some a)" unfolding e_def a_def by code_simp
  have v: "sample_found = PDict e" by (simp only: sample_found_def e_def)
  show ?thesis unfolding v by (simp add: upsert_endpoint_def a)
qed

theorem upsert_discovered_idempotent_witness:
  "\<exists>d1. upsert_discovered_endpoints 3 [sample_found] 0 empty_db = (d1, Inr 1) \<and>
    (case upsert_discovered_endpoints 3 [sample_found] 0 d1 of
      (d2, Inr m') \<Rightarrow> m' = 1 \<and> map endpoint_key (db_endpoints d2) = map endpoint_key (db_endpoints d1)
    | (d2, Inl e) \<Rightarrow> net_wf d2)"
proof -
  obtain d1 where s: "upsert_discovered_endpoints 3 [sample_found] 0 empty_db = (d1, Inr 1)"
    using sample_found_stored by (rule exE)
  show ?thesis by (rule exI [of _ d1], rule conjI, rule s, rule upsert_discovered_idempotent [OF empty_net_wf s])
qed

section \<open>The worker meets its contract\<close>

lemma task_of_add_job [simp]: "task_of (add_job j d) k = task_of d k"
  by (simp add: add_job_def)

lemma task_of_enqueue_scan: "task_of d k = Some t \<Longrightarrow> task_of (enqueue_scan_job sj now d) k = Some t"
  by (simp add: enqueue_scan_job_def task_of_enqueue)

lemma task_of_follow_up:
  "task_of d k = Some t \<Longrightarrow> enqueue_follow_up_scan x j res now d = (res', d') \<Longrightarrow> task_of d' k = Some t"
  by (auto simp: enqueue_follow_up_scan_def Let_def task_of_enqueue_scan split: if_splits)

lemma claim_discovery_locks:
  assumes t: "task_of d i = Some t" "t_status t = T_QUEUED" and c: "claim_discovery_task i now d = Inr (p, d')"
  shows "\<exists>t'. task_of d' i = Some t' \<and> t_attempts t' = t_attempts t + 1
              \<and> t_status t' = (if p = None then T_CANCELLED else T_RUNNING)"
  using c t
  by (auto simp: claim_discovery_task_def lock_task_cases [OF t(1)] Let_def res_simps row_simps
      split: option.splits if_splits)

lemma complete_discovery_ends:
  assumes t: "task_of d i = Some t" and c: "complete_discovery_task i now r d = Inr (r', d')"
  shows "\<exists>t'. task_of d' i = Some t' \<and> t_attempts t' = t_attempts t \<and> t_status t' \<in> {T_COMPLETED, T_CANCELLED}"
proof -
  let ?t = "t\<lparr>t_status := T_COMPLETED, t_last_error := None\<rparr>"
  have fin: "task_of (set_task ?t d) i = Some ?t" using t by (simp add: row_simps)
  have g: "get_row t_id i (db_tasks d) = Inr t" using t by (simp add: get_row_def)
  obtain di job where p: "payload_int (t_payload t) ''discovery_id'' = Inr di"
    "(case t_job t of None \<Rightarrow> Inr None | Some ji \<Rightarrow> rmap Some (get_row j_id ji (db_jobs d))) = Inr job"
    using c unfolding complete_discovery_task_def g rbind.simps rbind_Inr_iff by (elim exE conjE) (rule that, assumption+)
  note eq = c [unfolded complete_discovery_task_def g p rbind.simps Let_def]
  let ?d2 = "case find_row d_id di (db_discoveries d) of None \<Rightarrow> set_task ?t d
     | Some x \<Rightarrow> set_discovery (x\<lparr>d_status := COMPLETED, d_finished := Some now, d_error := None\<rparr>) (set_task ?t d)"
  have d2: "task_of ?d2 i = Some ?t" using fin by (simp split: option.splits)
  show ?thesis
  proof (cases job)
    case None
    then have "d' = ?d2" using eq by simp
    then show ?thesis using d2 by simp
  next
    case (Some j)
    show ?thesis
    proof (cases "j_status j = CANCELLED")
      case True
      then have "d' = set_task (t\<lparr>t_status := T_CANCELLED\<rparr>) d" using eq [unfolded Some option.case] by simp
      then show ?thesis using t by (simp add: row_simps)
    next
      case False
      obtain res' d3 where f: "(case find_row d_id di (db_discoveries d) of None \<Rightarrow> (r, ?d2)
          | Some x \<Rightarrow> enqueue_follow_up_scan x j r now ?d2) = (res', d3)" by (rule prod.exhaust)
      have "task_of d3 i = Some ?t"
        using f task_of_follow_up [OF d2] d2 by (cases "find_row d_id di (db_discoveries d)") simp_all
      moreover have "d' = set_job (j\<lparr>j_status := COMPLETED, j_progress :=
          PDict [(''current'', dget_or res' ''endpoints_count'' (PInt 0)), (''total'', dget_or res' ''endpoints_count'' (PInt 0)),
                 (''percent'', PInt 100)], j_result := PDict res', j_error := PNone, j_finished := Some now\<rparr>) d3"
        using eq [unfolded Some option.case f prod.case if_not_P [OF False]]
        by (simp only: sum.inject prod.inject) (elim conjE, simp)
      ultimately show ?thesis by simp
    qed
  qed
qed

lemma fail_discovery_ends:
  assumes t: "task_of d i = Some t" and c: "fail_discovery_task i now e d = Inr d'"
  shows "\<exists>t'. task_of d' i = Some t' \<and> t_attempts t' = t_attempts t \<and> t_status t' = T_FAILED"
  using c t by (auto simp: fail_discovery_task_def Let_def res_simps row_simps split: option.splits)

interpretation discovery: queue_worker claim_discovery_task complete_discovery_task fail_discovery_task
proof
  fix d i t now
  assume t: "task_of d i = Some t"
  show "t_status t = T_CANCELLED \<Longrightarrow> claim_discovery_task i now d = Inr (None, d)"
    and "t_status t \<notin> {T_CANCELLED, T_QUEUED} \<Longrightarrow>
         claim_discovery_task i now d = Inl (ValueError (''QueuedTask '' @ str_int i @ '' is not queued''))"
    by (simp_all add: claim_discovery_task_def lock_task_cases [OF t])
qed (use claim_discovery_locks complete_discovery_ends fail_discovery_ends in blast)+

lemma tasks_get_or_create: "get_or_create_target h p tr ip hint c ae d = (t, d') \<Longrightarrow> db_tasks d' = db_tasks d"
  by (auto simp: get_or_create_target_def Let_def split: option.splits)

lemma tasks_store_endpoint: "store_endpoint disc a e d = (x, d') \<Longrightarrow> db_tasks d' = db_tasks d"
  by (cases a) (auto simp: store_endpoint_def Let_def split: option.splits)

lemma tasks_auto_promote [simp]: "db_tasks (auto_promote_endpoint e d) = db_tasks d"
  by (auto simp: auto_promote_endpoint_def tasks_get_or_create split: prod.splits)

lemma tasks_upsert_endpoint: "upsert_endpoint disc e d = Inr (Some d') \<Longrightarrow> db_tasks d' = db_tasks d"
  by (cases "endpoint_address e")
    (auto simp: upsert_endpoint_def map_option_case tasks_store_endpoint split: option.splits prod.splits)

lemma tasks_upsert_discovered: "db_tasks (fst (upsert_discovered_endpoints disc vs n d)) = db_tasks d"
  by (induction disc vs n d rule: upsert_discovered_endpoints.induct)
    (auto simp: tasks_upsert_endpoint split: pyval.splits sum.splits option.splits)

lemma tasks_run_discovery: "db_tasks (fst (run_discovery_payload po pd p d)) = db_tasks d"
proof -
  have t: "upsert_discovered_endpoints i es n d = (d', r) \<Longrightarrow> db_tasks d' = db_tasks d" for i es n d' r
    using tasks_upsert_discovered [of i es n d] by simp
  show ?thesis
    unfolding run_discovery_payload_def Let_def by (auto simp: t split: sum.split prod.split)
qed

lemma run_discovery_keeps_task: "keeps_task (run_discovery_payload po pd) i"
  by (simp add: keeps_task_def tasks_run_discovery)

text \<open>A discovery task runs at most once: when its processing returns, the task is completed or cancelled
  with exactly one more attempt, and processing it again, at any time, changes nothing.\<close>

theorem discovery_runs_once:
  assumes "task_of d i = Some t" and "t_status t = T_QUEUED"
    and "process_discovery_task port_open post_discover i now d = (d', Inr r)"
  shows "(\<exists>t'. task_of d' i = Some t' \<and> t_attempts t' = t_attempts t + 1 \<and> t_status t' \<in> {T_COMPLETED, T_CANCELLED})
    \<and> fst (process_discovery_task port_open post_discover i later d') = d'"
  using discovery.return_ends [OF assms(1,2) run_discovery_keeps_task assms(3) [unfolded process_discovery_task_def]]
    discovery.at_most_once [OF assms(1,2) run_discovery_keeps_task assms(3) [unfolded process_discovery_task_def]]
  by (simp add: process_discovery_task_def)

definition sample_discovery :: discovery where
  "sample_discovery =
     \<lparr>d_id = 2, d_job = 4, d_scope_type = ''ip'', d_scope_value = ''10.0.0.5'', d_cidr = ''10.0.0.5'',
      d_executor = ''central'', d_agent = None, d_ports = [443], d_include_default_ports = False, d_status = PENDING,
      d_started = None, d_finished = None, d_error = None\<rparr>"

definition sample_discovery_db :: db where
  "sample_discovery_db = empty_db\<lparr>db_jobs := [sample_job ''discovery'' PENDING], db_discoveries := [sample_discovery],
     db_tasks := [sample_task ''discovery'' [(''discovery_id'', PInt 2)]]\<rparr>"

lemma sample_discovery_returns:
  "is_ok (snd (process_discovery_task (\<lambda>h p. True) (\<lambda>a r. Inr []) 9 5 sample_discovery_db))"
  by code_simp

theorem discovery_runs_once_witness:
  "\<exists>d' r. process_discovery_task (\<lambda>h p. True) (\<lambda>a r. Inr []) 9 5 sample_discovery_db = (d', Inr r)
    \<and> (\<exists>t'. task_of d' 9 = Some t' \<and> t_attempts t' = t_attempts (sample_task ''discovery'' [(''discovery_id'', PInt 2)]) + 1
            \<and> t_status t' \<in> {T_COMPLETED, T_CANCELLED})
    \<and> fst (process_discovery_task (\<lambda>h p. True) (\<lambda>a r. Inr []) 9 60 d') = d'"
proof -
  obtain d' x where p: "process_discovery_task (\<lambda>h p. True) (\<lambda>a r. Inr []) 9 5 sample_discovery_db = (d', x)"
    by (rule prod.exhaust)
  then obtain r where x: "x = Inr r" using sample_discovery_returns by (auto simp: is_ok_iff)
  have "task_of sample_discovery_db 9 = Some (sample_task ''discovery'' [(''discovery_id'', PInt 2)])"
    by (simp add: sample_discovery_db_def find_row_Cons)
  from discovery_runs_once [OF this _ p [unfolded x]] p x show ?thesis by auto
qed

section \<open>One discovery per scope\<close>

definition discoveries_wf :: "db \<Rightarrow> bool" where
  "discoveries_wf d = (distinct (map d_id (db_discoveries d)) \<and> distinct (map scope_key (db_discoveries d)))"

lemma find_scope:
  assumes "discoveries_wf d" and "x \<in> set (db_discoveries d)"
  shows "first_by (\<lambda>x. - d_id x) d_id (filter (\<lambda>y. scope_key y = scope_key x) (db_discoveries d)) = Some x"
  using filter_same_key [of scope_key "db_discoveries d" x] assms by (simp add: discoveries_wf_def first_by_def)

lemma enqueue_discovery_simps [simp]:
  "db_discoveries (enqueue_discovery x now d) = db_discoveries d"
  "db_agents (enqueue_discovery x now d) = db_agents d"
  by (simp_all add: enqueue_discovery_def enqueue_task_def)

lemma add_job_discoveries [simp]:
  "db_discoveries (add_job j d) = db_discoveries d" "db_agents (add_job j d) = db_agents d"
  by (simp_all add: add_job_def)

lemma set_discovery_simps [simp]:
  "db_discoveries (set_discovery x d) = put_row d_id x (db_discoveries d)" "db_agents (set_discovery x d) = db_agents d"
  by (simp_all add: set_discovery_def)

lemma new_discovery_simps [simp]:
  "d_id (new_discovery p ag job d) = next_id d_id (db_discoveries d)" "d_status (new_discovery p ag job d) = PENDING"
  "scope_key (new_discovery p ag job d) = requested_scope p ag"
  by (simp_all add: new_discovery_def scope_key_def requested_scope_def)

lemma restarted_discovery_simps [simp]:
  "d_id (restarted_discovery p job x) = d_id x" "d_status (restarted_discovery p job x) = PENDING"
  "scope_key (restarted_discovery p job x) = scope_key x"
  by (simp_all add: restarted_discovery_def scope_key_def)

lemma resolve_agent_cong: "db_agents d' = db_agents d \<Longrightarrow> resolve_agent p now d' = resolve_agent p now d"
  by (simp add: resolve_agent_def get_usable_discovery_agent_def)

lemma create_discovery_cases:
  assumes "discoveries_wf d" and "normalize_scope raw = Inr p" and "resolve_agent p now d = Inr ag"
    and "create_discovery raw now d = (r, d')"
  shows "\<exists>x. x \<in> set (db_discoveries d') \<and> scope_key x = requested_scope p ag \<and> d_status x \<in> {PENDING, RUNNING}
     \<and> r = discovery_envelope x d' \<and> discoveries_wf d' \<and> db_agents d' = db_agents d"
proof -
  let ?D = "db_discoveries d" and ?k = "requested_scope p ag"
  have wf: "distinct (map d_id ?D)" "distinct (map scope_key ?D)" using assms(1) by (simp_all add: discoveries_wf_def)
  note eq = assms(4) [unfolded create_discovery_def assms(2,3) sum.case Let_def]
  show ?thesis
  proof (cases "first_by (\<lambda>x. - d_id x) d_id (filter (\<lambda>x. scope_key x = ?k) ?D)")
    case None
    then have none: "?k \<notin> scope_key ` set ?D" by (auto simp: first_by_None filter_empty_conv)
    show ?thesis
      using eq none wf distinct_add [OF wf(1), of "new_discovery p ag _ d"] unfolding None option.case
      by (intro exI [of _ "new_discovery p ag (j_id (new_job ''discovery'' (discovery_request p) now d)) d"])
        (auto simp: discoveries_wf_def add_row_def)
  next
    case (Some x)
    have x: "x \<in> set ?D" "scope_key x = ?k" using first_by_Some [OF Some] by auto
    show ?thesis
    proof (cases "d_status x \<in> {PENDING, RUNNING}")
      case True
      then have "r = discovery_envelope x d" "d' = d" using eq unfolding Some option.case by auto
      then show ?thesis using x assms(1) True by (intro exI [of _ x]) simp
    next
      case False
      define y where "y = restarted_discovery p (j_id (new_job ''discovery'' (discovery_request p) now d)) x"
      have y: "scope_key y = scope_key x" "d_id y = d_id x" "d_status y = PENDING" by (simp_all add: y_def)
      have "y \<in> set (put_row d_id y ?D)" using x(1) y(2) by (force simp: put_row_def)
      moreover have "db_discoveries d' = put_row d_id y ?D" "r = discovery_envelope y d'" "db_agents d' = db_agents d"
        using eq unfolding Some option.case if_not_P [OF False] y_def [symmetric] by auto
      ultimately show ?thesis
        using y x wf map_put_row [OF wf(1) x(1) y(2,1)] by (intro exI [of _ y]) (simp add: discoveries_wf_def)
    qed
  qed
qed

text \<open>C7. Creating a discovery is idempotent: the same request sent again at the same time gets the same
  answer and leaves the database as it is, so a scope never has two discoveries; discoveries keep unique
  keys and unique scopes.\<close>

theorem create_discovery_idempotent:
  assumes "discoveries_wf d"
  shows "case create_discovery raw now d of (r, d') \<Rightarrow> create_discovery raw now d' = (r, d') \<and> discoveries_wf d'"
proof -
  obtain r d' where c: "create_discovery raw now d = (r, d')" by (rule prod.exhaust)
  show ?thesis
  proof (cases "normalize_scope raw")
    case (Inl e)
    then show ?thesis using assms by (simp add: create_discovery_def)
  next
    case p: (Inr p)
    show ?thesis
    proof (cases "resolve_agent p now d")
      case (Inl r')
      then have "create_discovery raw now d = (r', d)" by (simp add: create_discovery_def p)
      then show ?thesis using assms by simp
    next
      case (Inr ag)
      obtain x where x: "x \<in> set (db_discoveries d')" "scope_key x = requested_scope p ag"
          "d_status x \<in> {PENDING, RUNNING}" "r = discovery_envelope x d'" "discoveries_wf d'" "db_agents d' = db_agents d"
        using create_discovery_cases [OF assms p Inr c] by blast
      have ra: "resolve_agent p now d' = Inr ag" using Inr resolve_agent_cong [OF x(6)] by simp
      have "create_discovery raw now d' = (r, d')"
        unfolding create_discovery_def p sum.case ra Let_def x(2) [symmetric]
          find_scope [OF x(5,1)] option.case if_P [OF x(3)] x(4) ..
      then show ?thesis using c x(5) by simp
    qed
  qed
qed

theorem create_discovery_idempotent_witness:
  "let raw = \<lparr>dc_scope_type = Some ''ip'', dc_scope_value = Some ''10.0.0.5'', dc_cidr = None,
              dc_executor_type = ''central'', dc_agent_id = None, dc_ports = None, dc_include_default_ports = True,
              dc_auto_scan = True, dc_auto_availability_check = True\<rparr>
   in case create_discovery raw 7 empty_db of (r, d') \<Rightarrow> create_discovery raw 7 d' = (r, d') \<and> discoveries_wf d'"
  unfolding Let_def by (rule create_discovery_idempotent) (simp add: discoveries_wf_def)

section \<open>Failure after a cancellation\<close>

text \<open>The failure transaction of the discovery worker does not look at the status of the job: a discovery
  that was cancelled while it ran, and then raises, ends as failed, its cancellation overwritten.\<close>

theorem failure_overwrites_cancellation:
  assumes "task_of d i = Some t" and "payload_int (t_payload t) ''discovery_id'' = Inr di" and "t_job t = Some ji"
    and "job_of d ji = Some j" and "j_status j = CANCELLED"
  shows "\<exists>d' j'. fail_discovery_task i now e d = Inr d' \<and> job_of d' ji = Some j' \<and> j_status j' = FAILED"
proof -
  have "get_row t_id i (db_tasks d) = Inr t" and "get_row j_id ji (db_jobs d) = Inr j"
    using assms by (simp_all add: get_row_def)
  moreover have "j_id j = ji" using job_of_id [OF assms(4)] .
  ultimately show ?thesis
    using assms
    by (cases "find_row d_id di (db_discoveries d)") (simp_all add: fail_discovery_task_def Let_def job_of_set_job)
qed

theorem failure_overwrites_cancellation_witness:
  "let d = empty_db\<lparr>db_jobs := [sample_job ''discovery'' CANCELLED],
                    db_tasks := [sample_task ''discovery'' [(''discovery_id'', PInt 2)]]\<rparr>
   in \<exists>d' j'. fail_discovery_task 9 5 (RuntimeError ''x'') d = Inr d' \<and> job_of d' 4 = Some j' \<and> j_status j' = FAILED"
  unfolding Let_def
  by (rule failure_overwrites_cancellation [where di = 2])
    (simp add: find_row_Cons payload_int_def dget_def int_of_val_def)+

end
