(* ===== verification/Performance_Engine.thy ===== *)
theory Performance_Engine
  imports Aggregates Grading
begin

text \<open>
  \<open>performance_engine/engine.py\<close>: from the measurements of an asset and those of its baseline to a
  verdict.  \<open>normalize_availability_metrics\<close> brings the metrics into one shape and derives the success
  rates, \<open>calculate_deltas\<close> compares with the baseline, \<open>collect_signals\<close> compares rates and deltas with
  the thresholds, the verdict is the worst signal; \<open>summarize_results\<close> aggregates the stored results of
  a run.  Metrics are dicts of any JSON value, hence the branches on types and the exceptions (an int
  too large for a float, a threshold that is no number).

  The lemmas give the range of the derived rates, the monotonicity of the signals in the rates, the
  verdict as the worst of the signals, and the counts of the summary.
\<close>

section \<open>Constants\<close>

definition DEFAULT_THRESHOLDS :: "pyval dict" where
  "DEFAULT_THRESHOLDS =
     [(''warn_latency_delta_percent'', PFloat (Fin 10)), (''fail_latency_delta_percent'', PFloat (Fin 30)),
      (''warn_failure_rate'', PFloat (fl (1/100))), (''fail_failure_rate'', PFloat (fl (3/100))),
      (''warn_handshake_success_rate'', PFloat (fl (99/100))), (''fail_handshake_success_rate'', PFloat (fl (97/100))),
      (''warn_timeout_rate'', PFloat (fl (1/100))), (''fail_timeout_rate'', PFloat (fl (3/100))),
      (''warn_handshake_bytes_delta_percent'', PFloat (Fin 50)), (''fail_handshake_bytes_delta_percent'', PFloat (Fin 100)),
      (''warn_throughput_drop_percent'', PFloat (Fin 10)), (''fail_throughput_drop_percent'', PFloat (Fin 30))]"

definition LATENCY_SERIES :: "string list" where
  "LATENCY_SERIES = [''tcp_connect_ms'', ''handshake_ms'', ''ttfb_ms'', ''total_request_ms'']"

definition THROUGHPUT_SERIES :: "string list" where
  "THROUGHPUT_SERIES = [''throughput_rps'', ''requests_per_second'', ''connections_per_second'']"

definition THROUGHPUT_DELTA_KEYS :: "string list" where
  "THROUGHPUT_DELTA_KEYS = map (\<lambda>s. s @ ''_percent'') THROUGHPUT_SERIES"

definition RESULT_STATUSES :: "string list" where
  "RESULT_STATUSES = [''PASS'', ''WARN'', ''FAIL'', ''ERROR'']"

section \<open>Statuses and text\<close>

definition status_counts :: "int dict" where
  "status_counts = map (\<lambda>s. (s, 0)) RESULT_STATUSES"

definition count_status :: "string \<Rightarrow> int dict \<Rightarrow> int dict" where
  "count_status s c = (if dhas s c then incr s c else c)"

definition status_rank :: "string \<Rightarrow> int" where
  "status_rank s = dget_or [(''PASS'', 0), (''WARN'', 1), (''FAIL'', 2), (''ERROR'', 3)] s 0"

definition overall_status :: "int dict \<Rightarrow> string" where
  "overall_status counts =
     (if dget_or counts ''ERROR'' 0 \<noteq> 0 then ''ERROR'' else if dget_or counts ''FAIL'' 0 \<noteq> 0 then ''FAIL''
      else if dget_or counts ''WARN'' 0 \<noteq> 0 then ''WARN'' else if dget_or counts ''PASS'' 0 \<noteq> 0 then ''PASS''
      else ''PENDING'')"

definition STATUS_ALIASES :: "string dict" where
  "STATUS_ALIASES =
     [(''OK'', ''PASS''), (''SUCCESS'', ''PASS''), (''PASSED'', ''PASS''), (''PARTIAL'', ''WARN''),
      (''FAILED'', ''FAIL''), (''UNREACHABLE'', ''FAIL'')]"

definition normalize_result_status :: "pyval \<Rightarrow> string \<Rightarrow> string" where
  "normalize_result_status v dflt =
     (let s = upper (strip (py_str (py_or v (PStr dflt)))); a = dget_or STATUS_ALIASES s s
      in if a \<in> set RESULT_STATUSES then a else dflt)"

definition strip_char :: "char \<Rightarrow> string \<Rightarrow> string" where
  "strip_char x s = rstrip_if (\<lambda>c. c = x) (dropWhile (\<lambda>c. c = x) s)"

definition reason_token :: "string \<Rightarrow> string" where
  "reason_token v =
     or_str (strip_char (CHR ''_'') (map (\<lambda>c. if is_alnum c then char_lower c else CHR ''_'') v)) ''unknown''"

definition text_or_empty :: "pyval \<Rightarrow> string" where
  "text_or_empty v = (if v = PNone then [] else strip (py_str v))"

definition increment_count :: "int dict \<Rightarrow> pyval \<Rightarrow> int dict" where
  "increment_count counts v =
     (if v = PNone then counts
      else (let key = strip (py_str v) in if key = [] then counts else incr key counts))"

definition normalize_text_metric :: "string \<Rightarrow> pyval dict \<Rightarrow> pyval dict" where
  "normalize_text_metric k m =
     (if pget m k = PNone then m
      else (let s = strip (py_str (pget m k)) in if s \<noteq> [] then dset k (PStr s) m else dpop k m))"

section \<open>Normalisation\<close>

definition clamp_rate :: "pyfloat \<Rightarrow> pyfloat" where
  "clamp_rate v = fmax (Fin 0) (fmin (Fin 1) v)"

definition success_rate_key :: "pyval dict \<Rightarrow> string" where
  "success_rate_key m =
     (if upper (py_str (py_or (pget m ''protocol'') (PStr []))) = ''IKE''
      then ''negotiation_success_rate'' else ''handshake_success_rate'')"

definition normalize_check :: "pyval \<Rightarrow> pyval dict option" where
  "normalize_check v =
     (case v of
        PDict raw \<Rightarrow>
          (let profile = strip (py_str (py_or (pget raw ''profile'') (py_or (pget raw ''client_profile'')
                           (py_or (pget raw ''name'') (PStr [])))));
               st = normalize_result_status (py_or (pget raw ''status'') (pget raw ''compatibility_status'')) ''PASS'';
               status = (if pget raw ''status'' = PNone \<and> pget raw ''compatibility_status'' = PNone
                         then (case pget raw ''success'' of PBool b \<Rightarrow> if b then ''PASS'' else ''FAIL'' | _ \<Rightarrow> st)
                         else st)
           in if profile = [] then None
              else Some (normalize_text_metric ''failure_reason'' (normalize_text_metric ''response_code''
                     (dset ''status'' (PStr status) (dset ''profile'' (PStr profile) raw)))))
      | _ \<Rightarrow> None)"

definition normalize_client_compatibility :: "pyval \<Rightarrow> pyval dict list" where
  "normalize_client_compatibility v =
     (let raw_checks =
        (case v of
           PDict d \<Rightarrow> map (\<lambda>(profile, raw). case raw of
               PDict r \<Rightarrow> PDict (dset ''profile'' (py_or (pget r ''profile'') (PStr profile)) r)
             | _ \<Rightarrow> PDict [(''profile'', PStr profile), (''status'', raw)]) d
         | PList xs \<Rightarrow> xs
         | _ \<Rightarrow> [])
      in map the (filter (\<lambda>c. c \<noteq> None) (map normalize_check raw_checks)))"

text \<open>\<open>_number(a) or _number(b)\<close>.\<close>

definition number_or_number :: "pyval \<Rightarrow> pyval \<Rightarrow> py_error + pyfloat option" where
  "number_or_number a b =
     rbind (py_number a) (\<lambda>x. if x = None \<or> x = Some (Fin 0) then py_number b else Inr x)"

definition attempt_counts ::
  "pyval dict \<Rightarrow> string \<Rightarrow> py_error + pyfloat option \<times> pyfloat option \<times> pyfloat option" where
  "attempt_counts m kind =
     rbind (py_number (pget m (''successful_'' @ kind))) (\<lambda>s.
     rbind (py_number (pget m (''failed_'' @ kind))) (\<lambda>f.
     rbind (number_or_number (pget m (''total_'' @ kind)) (pget m (''attempted_'' @ kind))) (\<lambda>t.
       Inr (s, f, t))))"

definition float_or_zero :: "pyfloat option \<Rightarrow> pyfloat" where
  "float_or_zero x = (case x of Some v \<Rightarrow> v | None \<Rightarrow> Fin 0)"

text \<open>The successes and the total; the total is derived when only successes and failures are given.\<close>

definition measured_counts :: "pyval dict \<Rightarrow> py_error + pyfloat option \<times> pyfloat option" where
  "measured_counts m =
     rbind (attempt_counts m ''handshakes'') (\<lambda>h.
     rbind (case h of (None, _, _) \<Rightarrow> attempt_counts m ''negotiations'' | _ \<Rightarrow> Inr h) (\<lambda>(s, f, t).
       Inr (s, case (t, s) of (None, Some x) \<Rightarrow> Some (fadd x (float_or_zero f)) | _ \<Rightarrow> t)))"

definition count_value :: "pyfloat \<Rightarrow> pyval" where
  "count_value tot =
     (case tot of Fin x \<Rightarrow> if of_int \<lfloor>x\<rfloor> = x then PInt \<lfloor>x\<rfloor> else PFloat tot | _ \<Rightarrow> PFloat tot)"

text \<open>The steps of \<open>normalize_availability_metrics\<close>: text and checks, then the rates.\<close>

definition normalize_fields :: "pyval dict \<Rightarrow> pyval dict" where
  "normalize_fields m =
     (let n1 = (if truthy (pget m ''protocol'') then dset ''protocol'' (PStr (upper (py_str (pget m ''protocol'')))) m else m);
          n2 = normalize_text_metric ''failure_reason'' (normalize_text_metric ''response_code'' n1);
          checks = normalize_client_compatibility (pget n2 ''client_compatibility'')
      in if checks \<noteq> [] then dset ''client_compatibility'' (PList (map PDict checks)) n2
         else dpop ''client_compatibility'' n2)"

definition AVAILABILITY :: string where
  "AVAILABILITY = ''availability_success_rate''"

definition counted_rates :: "pyfloat \<Rightarrow> pyfloat \<Rightarrow> pyval dict \<Rightarrow> py_error + pyval dict" where
  "counted_rates success tot n =
     rbind (fdiv success tot) (\<lambda>q.
       let rate = clamp_rate q; key = success_rate_key n;
           r4 = PFloat (fround 4 rate);
           n1 = dset AVAILABILITY r4 (dset key r4 n);
           n2 = setdefault ''failure_rate'' (PFloat (fround 4 (clamp_rate (fsub (Fin 1) rate)))) n1;
           total_key = (if key = ''negotiation_success_rate'' then ''total_negotiations'' else ''total_handshakes'')
       in Inr (setdefault total_key (count_value tot) n2))"

definition derived_rates :: "pyval dict \<Rightarrow> py_error + pyval dict" where
  "derived_rates n =
     (let key = success_rate_key n
      in if \<not> dhas AVAILABILITY n then
           rbind (py_number (pget n ''failure_rate'')) (\<lambda>fr.
             case fr of None \<Rightarrow> Inr n
             | Some x \<Rightarrow>
                 (let r = PFloat (fround 4 (clamp_rate (fsub (Fin 1) x)))
                  in Inr (setdefault key r (dset AVAILABILITY r n))))
         else if \<not> dhas key n then Inr (dset key (pget n AVAILABILITY) n)
         else Inr n)"

definition direct_rate :: "pyval dict \<Rightarrow> py_error + pyval dict" where
  "direct_rate n =
     (if dhas AVAILABILITY n then Inr n
      else rbind (py_number (pget n (success_rate_key n))) (\<lambda>x.
             case x of None \<Rightarrow> Inr n | Some v \<Rightarrow> Inr (dset AVAILABILITY (PFloat (fround 4 (clamp_rate v))) n)))"

definition normalize_availability_metrics :: "pyval dict \<Rightarrow> py_error + pyval dict" where
  "normalize_availability_metrics m =
     (let n = normalize_fields m
      in rbind (measured_counts n) (\<lambda>(success, tot).
         rbind (case (success, tot) of
                  (Some s, Some t) \<Rightarrow> if flt (Fin 0) t then counted_rates s t n else derived_rates n
                | _ \<Rightarrow> derived_rates n) direct_rate))"

section \<open>Deltas\<close>

definition metric_value :: "pyval dict \<Rightarrow> string \<Rightarrow> string \<Rightarrow> py_error + pyfloat option" where
  "metric_value m series percentile =
     (case pget m series of PDict s \<Rightarrow> py_number (pget s percentile) | v \<Rightarrow> py_number v)"

definition handshake_bytes :: "pyval dict \<Rightarrow> py_error + pyfloat option" where
  "handshake_bytes m =
     rbind (py_number (pget m ''handshake_bytes_sent'')) (\<lambda>s.
     rbind (py_number (pget m ''handshake_bytes_received'')) (\<lambda>r.
       Inr (if s = None \<and> r = None then None else Some (fadd (float_or_zero s) (float_or_zero r)))))"

definition percent_delta :: "pyfloat option \<Rightarrow> pyfloat option \<Rightarrow> py_error + pyfloat option" where
  "percent_delta candidate baseline =
     (case (candidate, baseline) of
        (Some c, Some b) \<Rightarrow>
          if fle b (Fin 0) then Inr None
          else rmap (\<lambda>q. Some (fround 2 (fmul q (Fin 100)))) (fdiv (fsub c b) b)
      | _ \<Rightarrow> Inr None)"

definition removesuffix :: "string \<Rightarrow> string \<Rightarrow> string" where
  "removesuffix s suf = (if suf \<noteq> [] \<and> endswith s suf then take (length s - length suf) s else s)"

definition series_delta ::
  "(pyval dict \<Rightarrow> py_error + pyfloat option) \<Rightarrow> string \<Rightarrow> pyval dict \<Rightarrow> pyval dict
   \<Rightarrow> py_error + (string \<times> pyfloat) option" where
  "series_delta read key m b =
     rbind (read m) (\<lambda>x. rbind (read b) (\<lambda>y. rmap (map_option (\<lambda>d. (key, d))) (percent_delta x y)))"

definition somes :: "'a option list \<Rightarrow> 'a list" where
  "somes xs = map the (filter (\<lambda>x. x \<noteq> None) xs)"

definition calculate_deltas :: "pyval dict \<Rightarrow> pyval dict \<Rightarrow> py_error + pyfloat dict" where
  "calculate_deltas m b =
     rmap somes (rmapM (\<lambda>(read, key). series_delta read key m b)
       (map (\<lambda>s. (\<lambda>x. metric_value x s ''p95'', removesuffix s ''_ms'' @ ''_p95_percent'')) LATENCY_SERIES
        @ map (\<lambda>s. (\<lambda>x. py_number (pget x s), s @ ''_percent'')) THROUGHPUT_SERIES
        @ [(handshake_bytes, ''handshake_bytes_percent'')]))"

section \<open>Signals\<close>

record signal =
  sg_level :: string
  sg_reason :: string
  sg_value :: "pyfloat option"

definition signal_dict :: "signal \<Rightarrow> pyval" where
  "signal_dict s =
     PDict ([(''level'', PStr (sg_level s)), (''reason'', PStr (sg_reason s))]
            @ (case sg_value s of None \<Rightarrow> [] | Some v \<Rightarrow> [(''value'', PFloat v)]))"

text \<open>A threshold in a comparison: a number, exactly; anything else raises.\<close>

definition threshold :: "pyval dict \<Rightarrow> string \<Rightarrow> py_error + pyfloat" where
  "threshold th k =
     (case dget th k of None \<Rightarrow> Inl (KeyError k)
      | Some v \<Rightarrow> (case number_value v of Some x \<Rightarrow> Inr x
                  | None \<Rightarrow> Inl (TypeError ''comparison not supported'')))"

definition valued :: "string \<Rightarrow> string \<Rightarrow> pyfloat \<Rightarrow> signal list" where
  "valued level reason v = [\<lparr>sg_level = level, sg_reason = reason, sg_value = Some v\<rparr>]"

definition plain :: "string \<Rightarrow> string \<Rightarrow> signal list" where
  "plain level reason = [\<lparr>sg_level = level, sg_reason = reason, sg_value = None\<rparr>]"

definition append_rate_signal :: "string \<Rightarrow> pyfloat \<Rightarrow> py_error + pyfloat \<Rightarrow> py_error + pyfloat \<Rightarrow> py_error + signal list" where
  "append_rate_signal key v warn fail =
     rbind fail (\<lambda>f. if flt f v then Inr (valued ''FAIL'' (key @ ''_above_fail_threshold'') v)
       else rbind warn (\<lambda>w. if flt w v then Inr (valued ''WARN'' (key @ ''_above_warn_threshold'') v) else Inr []))"

definition append_min_rate_signal :: "string \<Rightarrow> pyfloat \<Rightarrow> py_error + pyfloat \<Rightarrow> py_error + pyfloat \<Rightarrow> py_error + signal list" where
  "append_min_rate_signal key v warn fail =
     rbind fail (\<lambda>f. if flt v f then Inr (valued ''FAIL'' (key @ ''_below_fail_threshold'') v)
       else rbind warn (\<lambda>w. if flt v w then Inr (valued ''WARN'' (key @ ''_below_warn_threshold'') v) else Inr []))"

definition compatibility_signal :: "string \<Rightarrow> signal list" where
  "compatibility_signal status =
     (if status \<in> {''FAIL'', ''ERROR''} then plain ''FAIL'' ''compatibility_failed''
      else if status = ''WARN'' then plain ''WARN'' ''compatibility_warning'' else [])"

text \<open>The checks of normalised metrics, which are all dicts.\<close>

definition client_compatibility_checks :: "pyval dict \<Rightarrow> pyval dict list" where
  "client_compatibility_checks m =
     (case pget m ''client_compatibility'' of
        PList xs \<Rightarrow> somes (map (\<lambda>v. case v of PDict d \<Rightarrow> Some d | _ \<Rightarrow> None) xs) | _ \<Rightarrow> [])"

definition client_signal :: "pyval dict \<Rightarrow> signal list" where
  "client_signal check =
     (let profile = reason_token (py_str (py_or (pget check ''profile'') (PStr ''unknown'')));
          status = normalize_result_status (pget check ''status'') ''ERROR''
      in if status \<in> {''FAIL'', ''ERROR''} then plain ''FAIL'' (''client_'' @ profile @ ''_compatibility_failed'')
         else if status = ''WARN'' then plain ''WARN'' (''client_'' @ profile @ ''_compatibility_warning'') else [])"

definition delta_signal :: "pyval dict \<Rightarrow> string \<times> pyfloat \<Rightarrow> py_error + signal list" where
  "delta_signal th kd =
     (case kd of (key, delta) \<Rightarrow>
        if key \<in> set THROUGHPUT_DELTA_KEYS then
          append_min_rate_signal key delta (rmap fneg (threshold th ''warn_throughput_drop_percent''))
            (rmap fneg (threshold th ''fail_throughput_drop_percent''))
        else if key = ''handshake_bytes_percent'' then
          append_rate_signal key delta (threshold th ''warn_handshake_bytes_delta_percent'')
            (threshold th ''fail_handshake_bytes_delta_percent'')
        else
          append_rate_signal key delta (threshold th ''warn_latency_delta_percent'')
            (threshold th ''fail_latency_delta_percent''))"

definition number_or :: "pyfloat \<Rightarrow> pyval \<Rightarrow> py_error + pyfloat" where
  "number_or d v = rmap (\<lambda>x. case x of None \<Rightarrow> d | Some y \<Rightarrow> y) (py_number v)"

definition success_signal :: "pyval dict \<Rightarrow> pyval dict \<Rightarrow> py_error + signal list" where
  "success_signal m th =
     (let key = success_rate_key m; w = threshold th ''warn_handshake_success_rate'';
          f = threshold th ''fail_handshake_success_rate''
      in rbind (py_number (pget m key)) (\<lambda>x.
         case x of
           Some v \<Rightarrow> append_min_rate_signal key v w f
         | None \<Rightarrow> rbind (py_number (pget m AVAILABILITY)) (\<lambda>y.
             case y of Some v \<Rightarrow> append_min_rate_signal AVAILABILITY v w f | None \<Rightarrow> Inr [])))"

definition collect_signals :: "pyval dict \<Rightarrow> pyfloat dict \<Rightarrow> string \<Rightarrow> pyval dict \<Rightarrow> py_error + signal list" where
  "collect_signals m deltas compatibility th =
     rbind (number_or (Fin 0) (pget m ''failure_rate'')) (\<lambda>failure_rate.
     rbind (number_or (Fin 0) (pget m ''timeout_rate'')) (\<lambda>timeout_rate.
     rbind (success_signal m th) (\<lambda>s1.
     rbind (append_rate_signal ''failure_rate'' failure_rate (threshold th ''warn_failure_rate'') (threshold th ''fail_failure_rate'')) (\<lambda>s2.
     rbind (append_rate_signal ''timeout_rate'' timeout_rate (threshold th ''warn_timeout_rate'') (threshold th ''fail_timeout_rate'')) (\<lambda>s3.
     rbind (rmapM (delta_signal th) deltas) (\<lambda>s4.
       Inr (compatibility_signal compatibility @ s1 @ s2 @ s3
            @ concat (map client_signal (client_compatibility_checks m)) @ concat s4)))))))"

definition status_from_signals :: "signal list \<Rightarrow> string" where
  "status_from_signals signals =
     (let levels = map sg_level signals
      in if ''FAIL'' \<in> set levels then ''FAIL'' else if ''WARN'' \<in> set levels then ''WARN'' else ''PASS'')"

definition recommendation_for :: "string \<Rightarrow> string \<Rightarrow> string" where
  "recommendation_for status compatibility =
     (if compatibility = ''ERROR'' then ''manual_review'' else if status = ''FAIL'' then ''rollback_or_manual_review''
      else if status = ''WARN'' then ''canary_more'' else ''proceed'')"

record evaluation =
  ev_status :: string
  ev_deltas :: "pyfloat dict"
  ev_recommendation :: string
  ev_signals :: "signal list"

definition evaluate_asset_performance ::
  "pyval dict \<Rightarrow> pyval dict \<Rightarrow> string \<Rightarrow> pyval dict \<Rightarrow> py_error + evaluation" where
  "evaluate_asset_performance metrics baseline_metrics compatibility thresholds =
     (let th = dmerge DEFAULT_THRESHOLDS thresholds
      in rbind (normalize_availability_metrics metrics) (\<lambda>m.
         rbind (normalize_availability_metrics baseline_metrics) (\<lambda>b.
         rbind (calculate_deltas m b) (\<lambda>deltas.
         rbind (collect_signals m deltas compatibility th) (\<lambda>signals.
           let status = status_from_signals signals
           in Inr \<lparr>ev_status = status, ev_deltas = deltas,
                   ev_recommendation = recommendation_for status compatibility, ev_signals = signals\<rparr>)))))"

section \<open>Summaries\<close>

text \<open>The rows summarised are dicts built by the caller; their deltas and metrics are dicts or null.\<close>

definition row_dict :: "pyval dict \<Rightarrow> string \<Rightarrow> pyval dict" where
  "row_dict r k = (case pget r k of PDict m \<Rightarrow> m | _ \<Rightarrow> [])"

definition float_dict :: "pyfloat dict \<Rightarrow> pyval" where
  "float_dict d = PDict (map (\<lambda>(k, x). (k, PFloat x)) d)"

text \<open>The means over the rows in which a key has a number.\<close>

definition key_means :: "nat \<Rightarrow> string \<Rightarrow> string list \<Rightarrow> pyval dict list \<Rightarrow> py_error + pyfloat dict" where
  "key_means digits part keys rows =
     rmap somes (rmapM (\<lambda>k.
       let vs = filter is_number (map (\<lambda>r. pget (row_dict r part) k) rows)
       in if vs = [] then Inr None else rmap (\<lambda>x. Some (k, x)) (mean_of digits vs)) keys)"

definition baseline_of :: "pyval dict \<Rightarrow> pyval dict" where
  "baseline_of r = row_dict (row_dict r ''metrics'') ''baseline_metrics''"

definition paired_values ::
  "(pyval dict \<Rightarrow> py_error + pyfloat option) \<Rightarrow> pyval dict list \<Rightarrow> py_error + (pyfloat \<times> pyfloat) list" where
  "paired_values read rows =
     rmap somes (rmapM (\<lambda>r. rbind (read (row_dict r ''metrics'')) (\<lambda>c. rbind (read (baseline_of r)) (\<lambda>b.
       Inr (case (c, b) of (Some x, Some y) \<Rightarrow> Some (x, y) | _ \<Rightarrow> None)))) rows)"

definition summarize_comparison ::
  "string \<Rightarrow> (string \<Rightarrow> pyval dict \<Rightarrow> py_error + pyfloat option) \<Rightarrow> string list \<Rightarrow> pyval dict list \<Rightarrow> py_error + pyval" where
  "summarize_comparison label read series rows =
     rmap (\<lambda>xs. PDict (somes xs)) (rmapM (\<lambda>s.
       rbind (paired_values (read s) rows) (\<lambda>ps.
         if ps = [] then Inr None
         else (let c = mean_floats 2 (map fst ps); b = mean_floats 2 (map snd ps)
               in rmap (\<lambda>d. Some (s, PDict [(''baseline_'' @ label, PFloat b), (''candidate_'' @ label, PFloat c),
                           (''delta_percent'', case d of None \<Rightarrow> PNone | Some x \<Rightarrow> PFloat x)]))
                    (percent_delta (Some c) (Some b))))) series)"

definition summarize_latency_comparison :: "pyval dict list \<Rightarrow> py_error + pyval" where
  "summarize_latency_comparison rows =
     summarize_comparison ''p95'' (\<lambda>s m. metric_value m s ''p95'') LATENCY_SERIES rows"

definition summarize_throughput_comparison :: "pyval dict list \<Rightarrow> py_error + pyval" where
  "summarize_throughput_comparison rows =
     summarize_comparison ''value'' (\<lambda>s m. py_number (pget m s)) THROUGHPUT_SERIES rows"

record profile_summary =
  ps_total :: int
  ps_by_status :: "int dict"
  ps_codes :: "int dict"
  ps_reasons :: "int dict"

definition empty_profile :: profile_summary where
  "empty_profile = \<lparr>ps_total = 0, ps_by_status = status_counts, ps_codes = [], ps_reasons = []\<rparr>"

definition check_profile :: "pyval dict \<Rightarrow> string" where
  "check_profile check = py_str (py_or (pget check ''profile'') (PStr ''unknown''))"

definition check_status :: "pyval dict \<Rightarrow> string" where
  "check_status check = normalize_result_status (pget check ''status'') ''ERROR''"

definition add_check :: "pyval dict \<Rightarrow> profile_summary \<Rightarrow> profile_summary" where
  "add_check check p =
     p\<lparr>ps_total := ps_total p + 1, ps_by_status := incr (check_status check) (ps_by_status p),
       ps_codes := increment_count (ps_codes p) (pget check ''response_code''),
       ps_reasons := increment_count (ps_reasons p) (pget check ''failure_reason'')\<rparr>"

definition all_checks :: "pyval dict list \<Rightarrow> pyval dict list" where
  "all_checks rows = concat (map (\<lambda>r. client_compatibility_checks (row_dict r ''metrics'')) rows)"

definition profiles_of :: "pyval dict list \<Rightarrow> profile_summary dict" where
  "profiles_of checks =
     fold (\<lambda>c ps. dset (check_profile c) (add_check c (dget_or ps (check_profile c) empty_profile)) ps) checks []"

definition summarize_client_compatibility :: "pyval dict list \<Rightarrow> pyval" where
  "summarize_client_compatibility rows =
     (let checks = all_checks rows;
          by_status = fold incr (map check_status checks) status_counts
      in PDict [(''total_checks'', PInt (int (length checks))), (''by_status'', int_dict by_status),
           (''by_profile'', PDict (map (\<lambda>(k, p). (k, PDict
              [(''total_checks'', PInt (ps_total p)), (''by_status'', int_dict (ps_by_status p)),
               (''response_codes'', int_dict (ps_codes p)), (''failure_reasons'', int_dict (ps_reasons p)),
               (''overall_status'', PStr (overall_status (ps_by_status p)))])) (profiles_of checks))),
           (''overall_status'', PStr (overall_status by_status))])"

record failure_path =
  fp_protocol :: string
  fp_profile :: string
  fp_code :: string
  fp_reason :: string
  fp_count :: int
  fp_refs :: "string list"
  fp_status :: string

definition path_key :: "failure_path \<Rightarrow> string \<times> string \<times> string \<times> string" where
  "path_key p = (fp_protocol p, fp_profile p, fp_code p, fp_reason p)"

definition FAILING :: "string list" where
  "FAILING = [''WARN'', ''FAIL'', ''ERROR'']"

text \<open>\<open>add_failure_path\<close>: a found entry counts once more, gets the reference and the worse status.\<close>

definition absorb_path :: "failure_path \<Rightarrow> failure_path \<Rightarrow> failure_path" where
  "absorb_path new old =
     old\<lparr>fp_count := fp_count old + fp_count new,
         fp_refs := fp_refs old @ filter (\<lambda>r. r \<notin> set (fp_refs old)) (fp_refs new),
         fp_status := (if status_rank (fp_status old) < status_rank (fp_status new) then fp_status new else fp_status old)\<rparr>"

fun add_failure_path :: "failure_path \<Rightarrow> failure_path list \<Rightarrow> failure_path list" where
  "add_failure_path new [] = [new]"
| "add_failure_path new (p # ps) =
     (if path_key p = path_key new then absorb_path new p # ps else p # add_failure_path new ps)"

text \<open>The failures of one row: its own, unless it only repeats those of its client checks, then theirs.\<close>

definition single_failure :: "string \<Rightarrow> string \<Rightarrow> string \<Rightarrow> string \<Rightarrow> string \<Rightarrow> string \<Rightarrow> failure_path" where
  "single_failure protocol profile response_code reason status ref =
     \<lparr>fp_protocol = protocol, fp_profile = profile, fp_code = response_code, fp_reason = reason, fp_count = 1,
      fp_refs = [ref], fp_status = status\<rparr>"

definition row_failures :: "pyval dict \<Rightarrow> failure_path list" where
  "row_failures r =
     (let m = row_dict r ''metrics'';
          protocol = upper (py_str (py_or (pget m ''protocol'') (py_or (pget r ''protocol'') (PStr ''UNKNOWN''))));
          ref = py_str (py_or (pget r ''bom_ref'') (py_or (pget m ''bom_ref'') (PStr ''-'')));
          status = normalize_result_status (pget r ''status'') ''ERROR'';
          reason = text_or_empty (py_or (pget m ''failure_reason'') (pget r ''failure_reason''));
          rcode = text_or_empty (py_or (pget m ''response_code'') (pget r ''response_code''));
          checks = client_compatibility_checks m;
          failing = filter (\<lambda>c. check_status c \<in> set FAILING) checks
      in (if (status \<in> set FAILING \<or> reason \<noteq> []) \<and> \<not> (failing \<noteq> [] \<and> startswith reason ''client_'')
          then [single_failure protocol [] rcode (or_str reason (lower status)) status ref] else [])
         @ map (\<lambda>c. single_failure protocol (py_str (py_or (pget c ''profile'') (PStr [])))
                      (text_or_empty (pget c ''response_code''))
                      (or_str (text_or_empty (pget c ''failure_reason'')) (lower (check_status c))) (check_status c) ref) failing)"

definition failure_paths :: "pyval dict list \<Rightarrow> failure_path list" where
  "failure_paths rows =
     sort_key (\<lambda>p. (- status_rank (fp_status p), - fp_count p, fp_protocol p, fp_profile p))
       (map (\<lambda>p. p\<lparr>fp_refs := sort (fp_refs p)\<rparr>) (fold add_failure_path (concat (map row_failures rows)) []))"

definition failure_path_dict :: "failure_path \<Rightarrow> pyval" where
  "failure_path_dict p =
     PDict [(''protocol'', PStr (fp_protocol p)), (''client_profile'', PStr (fp_profile p)),
            (''response_code'', PStr (fp_code p)), (''failure_reason'', PStr (fp_reason p)),
            (''count'', PInt (fp_count p)), (''asset_refs'', PList (map PStr (fp_refs p))), (''status'', PStr (fp_status p))]"

record protocol_summary =
  pp_total :: int
  pp_by_status :: "int dict"
  pp_metrics :: "pyval list dict"
  pp_codes :: "int dict"
  pp_reasons :: "int dict"

definition RATE_KEYS :: "string list" where
  "RATE_KEYS =
     [''availability_success_rate'', ''handshake_success_rate'', ''negotiation_success_rate'', ''failure_rate'',
      ''timeout_rate''] @ THROUGHPUT_SERIES"

definition empty_protocol :: protocol_summary where
  "empty_protocol =
     \<lparr>pp_total = 0, pp_by_status = map (\<lambda>s. (s, 0)) [''PASS'', ''WARN'', ''FAIL'', ''ERROR''],
      pp_metrics = map (\<lambda>k. (k, [])) RATE_KEYS, pp_codes = [], pp_reasons = []\<rparr>"

definition row_status :: "pyval dict \<Rightarrow> string" where
  "row_status r = (case pget r ''status'' of PStr s \<Rightarrow> s | _ \<Rightarrow> [])"

definition add_protocol_row :: "pyval dict \<Rightarrow> protocol_summary \<Rightarrow> protocol_summary" where
  "add_protocol_row r p =
     (let m = row_dict r ''metrics''
      in p\<lparr>pp_total := pp_total p + 1, pp_by_status := count_status (row_status r) (pp_by_status p),
           pp_metrics := map (\<lambda>(k, vs). (k, case pget m k of
               PInt n \<Rightarrow> vs @ [PInt n] | PFloat x \<Rightarrow> vs @ [PFloat x] | _ \<Rightarrow> vs)) (pp_metrics p),
           pp_codes := increment_count (pp_codes p) (pget m ''response_code''),
           pp_reasons := increment_count (pp_reasons p) (pget m ''failure_reason'')\<rparr>)"

definition row_protocol :: "pyval dict \<Rightarrow> string" where
  "row_protocol r = upper (py_str (py_or (pget (row_dict r ''metrics'') ''protocol'') (PStr ''UNKNOWN'')))"

definition protocols_of :: "pyval dict list \<Rightarrow> protocol_summary dict" where
  "protocols_of rows =
     fold (\<lambda>r ps. dset (row_protocol r) (add_protocol_row r (dget_or ps (row_protocol r) empty_protocol)) ps) rows []"

definition summarize_by_protocol :: "pyval dict list \<Rightarrow> py_error + pyval" where
  "summarize_by_protocol rows =
     rmap PDict (rmapM (\<lambda>(k, p).
       rmap (\<lambda>means. (k, PDict
           [(''total_results'', PInt (pp_total p)), (''by_status'', int_dict (pp_by_status p)),
            (''average_metrics'', float_dict (somes means)), (''response_codes'', int_dict (pp_codes p)),
            (''failure_reasons'', int_dict (pp_reasons p))]))
         (rmapM (\<lambda>(j, vs). if vs = [] then Inr None else rmap (\<lambda>x. Some (j, x)) (mean_of 4 vs)) (pp_metrics p)))
       (protocols_of rows))"

definition result_counts :: "pyval dict list \<Rightarrow> int dict" where
  "result_counts rows = fold (\<lambda>r. count_status (row_status r)) rows status_counts"

definition summarize_results :: "pyval dict list \<Rightarrow> py_error + pyval dict" where
  "summarize_results rows =
     (let counts = result_counts rows;
          delta_keys = sort (remdups (concat (map (\<lambda>r. map fst (row_dict r ''deltas'')) rows)))
      in rbind (key_means 2 ''deltas'' delta_keys rows) (\<lambda>average_deltas.
         rbind (key_means 4 ''metrics'' RATE_KEYS rows) (\<lambda>average_metrics.
         rbind (summarize_latency_comparison rows) (\<lambda>latency.
         rbind (summarize_throughput_comparison rows) (\<lambda>throughput.
         rbind (summarize_by_protocol rows) (\<lambda>by_protocol.
           Inr [(''total_results'', PInt (sum_list (map snd counts))), (''by_status'', int_dict counts),
                (''average_deltas'', float_dict average_deltas), (''average_metrics'', float_dict average_metrics),
                (''latency_comparison'', latency), (''throughput_comparison'', throughput),
                (''client_compatibility'', summarize_client_compatibility rows),
                (''failure_paths'', PList (map failure_path_dict (failure_paths rows))),
                (''by_protocol'', by_protocol), (''overall_status'', PStr (overall_status counts))]))))))"

section \<open>The verdict\<close>

lemma member_levels: "(l \<in> set (map sg_level ss)) = list_ex (\<lambda>s. sg_level s = l) ss"
  by (auto simp: list_ex_iff)

text \<open>What the measurements say by themselves, without signals: whether they break a limit of a level
  (\<open>fail\<close> or \<open>warn\<close>).  A limit that is missing or not a number is never broken.\<close>

definition limit_of :: "pyval dict \<Rightarrow> string \<Rightarrow> pyfloat option" where
  "limit_of th k = (case dget th k of None \<Rightarrow> None | Some v \<Rightarrow> number_value v)"

definition measured_at :: "pyval dict \<Rightarrow> string \<Rightarrow> pyfloat option" where
  "measured_at m k = (case py_number (pget m k) of Inr x \<Rightarrow> x | Inl e \<Rightarrow> None)"

definition over_limit :: "pyfloat option \<Rightarrow> pyfloat option \<Rightarrow> bool" where
  "over_limit l x = (case (l, x) of (Some a, Some b) \<Rightarrow> flt a b | _ \<Rightarrow> False)"

definition under_limit :: "pyfloat option \<Rightarrow> pyfloat option \<Rightarrow> bool" where
  "under_limit l x = (case (l, x) of (Some a, Some b) \<Rightarrow> flt b a | _ \<Rightarrow> False)"

definition measured_success :: "pyval dict \<Rightarrow> pyfloat option" where
  "measured_success m =
     (case measured_at m (success_rate_key m) of Some x \<Rightarrow> Some x | None \<Rightarrow> measured_at m AVAILABILITY)"

definition measured_rate :: "pyval dict \<Rightarrow> string \<Rightarrow> pyfloat" where
  "measured_rate m k = (case measured_at m k of Some x \<Rightarrow> x | None \<Rightarrow> Fin 0)"

definition delta_breaks :: "string \<Rightarrow> pyval dict \<Rightarrow> string \<times> pyfloat \<Rightarrow> bool" where
  "delta_breaks level th = (\<lambda>(k, x).
     if k \<in> set THROUGHPUT_DELTA_KEYS then under_limit (map_option fneg (limit_of th (level @ ''_throughput_drop_percent''))) (Some x)
     else if k = ''handshake_bytes_percent'' then over_limit (limit_of th (level @ ''_handshake_bytes_delta_percent'')) (Some x)
     else over_limit (limit_of th (level @ ''_latency_delta_percent'')) (Some x))"

definition levels_of :: "string \<Rightarrow> string list" where
  "levels_of level = (if level = ''fail'' then [''FAIL'', ''ERROR''] else [''WARN''])"

definition breaks_limit :: "string \<Rightarrow> pyval dict \<Rightarrow> pyval dict \<Rightarrow> pyfloat dict \<Rightarrow> string \<Rightarrow> bool" where
  "breaks_limit level th m deltas compatibility \<longleftrightarrow>
     compatibility \<in> set (levels_of level)
     \<or> under_limit (limit_of th (level @ ''_handshake_success_rate'')) (measured_success m)
     \<or> over_limit (limit_of th (level @ ''_failure_rate'')) (Some (measured_rate m ''failure_rate''))
     \<or> over_limit (limit_of th (level @ ''_timeout_rate'')) (Some (measured_rate m ''timeout_rate''))
     \<or> list_ex (\<lambda>check. normalize_result_status (pget check ''status'') ''ERROR'' \<in> set (levels_of level))
         (client_compatibility_checks m)
     \<or> list_ex (delta_breaks level th) deltas"

text \<open>What signals say, as two truth values: a FAIL signal is there exactly if the first holds, and a WARN
  signal exactly if the second does, unless the first holds already.\<close>

definition signals_say :: "signal list \<Rightarrow> bool \<Rightarrow> bool \<Rightarrow> bool" where
  "signals_say ss f w \<longleftrightarrow> list_ex (\<lambda>s. sg_level s = ''FAIL'') ss = f
     \<and> (f \<or> list_ex (\<lambda>s. sg_level s = ''WARN'') ss = w)"

lemma signals_say_append: "signals_say a f w \<Longrightarrow> signals_say b f' w' \<Longrightarrow> signals_say (a @ b) (f \<or> f') (w \<or> w')"
  by (auto simp: signals_say_def)

lemma signals_say_Nil [simp]: "signals_say [] False False"
  by (simp add: signals_say_def)

lemma threshold_limit: "threshold th k = Inr x \<Longrightarrow> limit_of th k = Some x"
  by (auto simp: threshold_def limit_of_def split: option.splits)

lemma rate_says:
  "append_rate_signal k v w f = Inr ss \<Longrightarrow> (\<And>x. f = Inr x \<Longrightarrow> lf = Some x) \<Longrightarrow> (\<And>x. w = Inr x \<Longrightarrow> lw = Some x) \<Longrightarrow>
     signals_say ss (over_limit lf (Some v)) (over_limit lw (Some v))"
  "append_min_rate_signal k v w f = Inr ss \<Longrightarrow> (\<And>x. f = Inr x \<Longrightarrow> lf = Some x) \<Longrightarrow> (\<And>x. w = Inr x \<Longrightarrow> lw = Some x) \<Longrightarrow>
     signals_say ss (under_limit lf (Some v)) (under_limit lw (Some v))"
  by (auto simp: append_rate_signal_def append_min_rate_signal_def rbind_Inr_iff signals_say_def valued_def over_limit_def
      under_limit_def split: if_splits)

lemma number_or_rate: "number_or (Fin 0) (pget m k) = Inr x \<Longrightarrow> measured_rate m k = x"
  by (auto simp: number_or_def measured_rate_def measured_at_def rmap_Inr_iff split: option.splits)

lemma success_says:
  assumes "success_signal m th = Inr ss"
  shows "signals_say ss (under_limit (limit_of th ''fail_handshake_success_rate'') (measured_success m))
    (under_limit (limit_of th ''warn_handshake_success_rate'') (measured_success m))"
proof -
  let ?k = "success_rate_key m"
  obtain x where x: "py_number (pget m ?k) = Inr x" using assms by (auto simp: success_signal_def Let_def rbind_Inr_iff)
  show ?thesis
  proof (cases x)
    case (Some v)
    then have "append_min_rate_signal ?k v (threshold th ''warn_handshake_success_rate'')
        (threshold th ''fail_handshake_success_rate'') = Inr ss"
      using assms x by (simp add: success_signal_def Let_def)
    then have "signals_say ss (under_limit (limit_of th ''fail_handshake_success_rate'') (Some v))
        (under_limit (limit_of th ''warn_handshake_success_rate'') (Some v))"
      by (rule rate_says(2)) (rule threshold_limit, assumption)+
    then show ?thesis using x Some by (simp add: measured_success_def measured_at_def)
  next
    case None
    obtain y where y: "py_number (pget m AVAILABILITY) = Inr y"
      using assms x None by (auto simp: success_signal_def Let_def rbind_Inr_iff)
    show ?thesis
    proof (cases y)
      case (Some v)
      then have "append_min_rate_signal AVAILABILITY v (threshold th ''warn_handshake_success_rate'')
          (threshold th ''fail_handshake_success_rate'') = Inr ss"
        using assms x y None by (simp add: success_signal_def Let_def)
      then have "signals_say ss (under_limit (limit_of th ''fail_handshake_success_rate'') (Some v))
          (under_limit (limit_of th ''warn_handshake_success_rate'') (Some v))"
        by (rule rate_says(2)) (rule threshold_limit, assumption)+
      then show ?thesis using x y None Some by (simp add: measured_success_def measured_at_def)
    next
      case None
      then have "ss = []" using assms x y \<open>x = None\<close> by (simp add: success_signal_def Let_def)
      then show ?thesis using x y None \<open>x = None\<close> by (auto simp: measured_success_def measured_at_def under_limit_def split: option.split)
    qed
  qed
qed

lemma delta_says:
  assumes "delta_signal th kd = Inr ss"
  shows "signals_say ss (delta_breaks ''fail'' th kd) (delta_breaks ''warn'' th kd)"
proof -
  obtain k x where kd: "kd = (k, x)" by (cases kd)
  have neg: "rmap fneg (threshold th j) = Inr y \<Longrightarrow> map_option fneg (limit_of th j) = Some y" for j y
    using threshold_limit by (auto simp: rmap_Inr_iff)
  consider "k \<in> set THROUGHPUT_DELTA_KEYS" | "k \<notin> set THROUGHPUT_DELTA_KEYS" "k = ''handshake_bytes_percent''"
    | "k \<notin> set THROUGHPUT_DELTA_KEYS" "k \<noteq> ''handshake_bytes_percent''" by blast
  then show ?thesis
  proof cases
    case 1
    then have "append_min_rate_signal k x (rmap fneg (threshold th ''warn_throughput_drop_percent''))
        (rmap fneg (threshold th ''fail_throughput_drop_percent'')) = Inr ss"
      using assms by (simp add: delta_signal_def kd)
    then have "signals_say ss (under_limit (map_option fneg (limit_of th ''fail_throughput_drop_percent'')) (Some x))
        (under_limit (map_option fneg (limit_of th ''warn_throughput_drop_percent'')) (Some x))"
      by (rule rate_says(2)) (rule neg, assumption)+
    then show ?thesis using 1 by (simp add: kd delta_breaks_def)
  next
    case 2
    then have "append_rate_signal k x (threshold th ''warn_handshake_bytes_delta_percent'')
        (threshold th ''fail_handshake_bytes_delta_percent'') = Inr ss"
      using assms by (simp add: delta_signal_def kd)
    then have "signals_say ss (over_limit (limit_of th ''fail_handshake_bytes_delta_percent'') (Some x))
        (over_limit (limit_of th ''warn_handshake_bytes_delta_percent'') (Some x))"
      by (rule rate_says(1)) (rule threshold_limit, assumption)+
    then show ?thesis using 2 by (simp add: kd delta_breaks_def)
  next
    case 3
    then have "append_rate_signal k x (threshold th ''warn_latency_delta_percent'')
        (threshold th ''fail_latency_delta_percent'') = Inr ss"
      using assms by (simp add: delta_signal_def kd)
    then have "signals_say ss (over_limit (limit_of th ''fail_latency_delta_percent'') (Some x))
        (over_limit (limit_of th ''warn_latency_delta_percent'') (Some x))"
      by (rule rate_says(1)) (rule threshold_limit, assumption)+
    then show ?thesis using 3 by (simp add: kd delta_breaks_def)
  qed
qed

lemma deltas_say:
  "rmapM (delta_signal th) ds = Inr ss \<Longrightarrow>
     signals_say (concat ss) (list_ex (delta_breaks ''fail'' th) ds) (list_ex (delta_breaks ''warn'' th) ds)"
proof (induction ds arbitrary: ss)
  case (Cons d ds)
  obtain s r where "delta_signal th d = Inr s" "rmapM (delta_signal th) ds = Inr r" "ss = s # r"
    using Cons.prems by (auto simp: res_simps)
  then show ?case using signals_say_append [OF delta_says Cons.IH] by simp
qed simp

lemma plain_says:
  "signals_say (compatibility_signal c) (c \<in> set (levels_of ''fail'')) (c \<in> set (levels_of ''warn''))"
  "signals_say (client_signal k) (normalize_result_status (pget k ''status'') ''ERROR'' \<in> set (levels_of ''fail''))
     (normalize_result_status (pget k ''status'') ''ERROR'' \<in> set (levels_of ''warn''))"
  by (simp_all add: signals_say_def compatibility_signal_def client_signal_def plain_def levels_of_def Let_def)

lemma clients_say:
  "signals_say (concat (map client_signal ks))
     (list_ex (\<lambda>k. normalize_result_status (pget k ''status'') ''ERROR'' \<in> set (levels_of ''fail'')) ks)
     (list_ex (\<lambda>k. normalize_result_status (pget k ''status'') ''ERROR'' \<in> set (levels_of ''warn'')) ks)"
  by (induction ks) (simp, simp only: list.map concat.simps list_ex_Cons_iff signals_say_append [OF plain_says(2)])

lemma collected_say:
  assumes "collect_signals m ds c th = Inr ss"
  shows "signals_say ss (breaks_limit ''fail'' th m ds c) (breaks_limit ''warn'' th m ds c)"
proof -
  obtain f t s1 s2 s3 s4 where f: "number_or (Fin 0) (pget m ''failure_rate'') = Inr f"
      and t: "number_or (Fin 0) (pget m ''timeout_rate'') = Inr t" and s1: "success_signal m th = Inr s1"
      and s2: "append_rate_signal ''failure_rate'' f (threshold th ''warn_failure_rate'') (threshold th ''fail_failure_rate'') = Inr s2"
      and s3: "append_rate_signal ''timeout_rate'' t (threshold th ''warn_timeout_rate'') (threshold th ''fail_timeout_rate'') = Inr s3"
      and s4: "rmapM (delta_signal th) ds = Inr s4"
      and ss: "ss = compatibility_signal c @ s1 @ s2 @ s3 @ concat (map client_signal (client_compatibility_checks m)) @ concat s4"
    using assms unfolding collect_signals_def rbind_Inr_iff by blast
  have "signals_say s2 (over_limit (limit_of th ''fail_failure_rate'') (Some f)) (over_limit (limit_of th ''warn_failure_rate'') (Some f))"
    using s2 by (rule rate_says(1)) (rule threshold_limit, assumption)+
  moreover have "signals_say s3 (over_limit (limit_of th ''fail_timeout_rate'') (Some t)) (over_limit (limit_of th ''warn_timeout_rate'') (Some t))"
    using s3 by (rule rate_says(1)) (rule threshold_limit, assumption)+
  ultimately have "signals_say ss
     (c \<in> set (levels_of ''fail'') \<or> under_limit (limit_of th ''fail_handshake_success_rate'') (measured_success m)
      \<or> over_limit (limit_of th ''fail_failure_rate'') (Some f) \<or> over_limit (limit_of th ''fail_timeout_rate'') (Some t)
      \<or> list_ex (\<lambda>k. normalize_result_status (pget k ''status'') ''ERROR'' \<in> set (levels_of ''fail'')) (client_compatibility_checks m)
      \<or> list_ex (delta_breaks ''fail'' th) ds)
     (c \<in> set (levels_of ''warn'') \<or> under_limit (limit_of th ''warn_handshake_success_rate'') (measured_success m)
      \<or> over_limit (limit_of th ''warn_failure_rate'') (Some f) \<or> over_limit (limit_of th ''warn_timeout_rate'') (Some t)
      \<or> list_ex (\<lambda>k. normalize_result_status (pget k ''status'') ''ERROR'' \<in> set (levels_of ''warn'')) (client_compatibility_checks m)
      \<or> list_ex (delta_breaks ''warn'' th) ds)"
    unfolding ss
    by (intro signals_say_append plain_says(1) success_says [OF s1] clients_say deltas_say [OF s4])
  then show ?thesis by (simp add: breaks_limit_def number_or_rate [OF f] number_or_rate [OF t])
qed

text \<open>C14. The verdict on an asset follows from its measurements and thresholds.  With the metrics of the asset and of
  its baseline normalised and their relative changes taken, the status is FAIL exactly when a fail limit
  is broken (by the compatibility, the success rate, the failure or timeout rate, a client check, or the
  change of a latency, of a throughput or of the handshake size), WARN when only a warn limit is, PASS
  when none is.  The recommendation is manual review when the compatibility could not be measured, else rollback
  or manual review on FAIL, more canary on WARN, and to proceed on PASS.\<close>

theorem evaluate_verdict:
  "case evaluate_asset_performance m b c th of
     Inl e \<Rightarrow> True
   | Inr r \<Rightarrow>
       (\<exists>n nb. normalize_availability_metrics m = Inr n \<and> normalize_availability_metrics b = Inr nb
          \<and> calculate_deltas n nb = Inr (ev_deltas r)
          \<and> (let broken = (\<lambda>level. breaks_limit level (dmerge DEFAULT_THRESHOLDS th) n (ev_deltas r) c)
             in ev_status r = (if broken ''fail'' then ''FAIL'' else if broken ''warn'' then ''WARN'' else ''PASS'')
                \<and> ev_recommendation r =
                    (if c = ''ERROR'' then ''manual_review''
                     else if broken ''fail'' then ''rollback_or_manual_review''
                     else if broken ''warn'' then ''canary_more'' else ''proceed'')))"
proof (cases "evaluate_asset_performance m b c th")
  case (Inr r)
  then obtain n nb where n: "normalize_availability_metrics m = Inr n" "normalize_availability_metrics b = Inr nb"
    "calculate_deltas n nb = Inr (ev_deltas r)"
    and col: "collect_signals n (ev_deltas r) c (dmerge DEFAULT_THRESHOLDS th) = Inr (ev_signals r)"
    and r: "ev_status r = status_from_signals (ev_signals r)" "ev_recommendation r = recommendation_for (ev_status r) c"
    by (auto simp: evaluate_asset_performance_def Let_def res_simps)
  have say: "ev_status r =
      (if breaks_limit ''fail'' (dmerge DEFAULT_THRESHOLDS th) n (ev_deltas r) c then ''FAIL''
       else if breaks_limit ''warn'' (dmerge DEFAULT_THRESHOLDS th) n (ev_deltas r) c then ''WARN'' else ''PASS'')"
    using collected_say [OF col] unfolding r(1) status_from_signals_def Let_def member_levels signals_say_def by auto
  show ?thesis unfolding Inr sum.case Let_def
    by (intro exI [of _ n] exI [of _ nb] conjI n say) (simp add: r(2) say recommendation_for_def)
qed simp

section \<open>Worse measurements never help\<close>

definition verdict_rank :: "signal list \<Rightarrow> int" where
  "verdict_rank ss = status_rank (status_from_signals ss)"

lemma verdict_rank_append: "verdict_rank (a @ b) = max (verdict_rank a) (verdict_rank b)"
  by (simp add: verdict_rank_def status_from_signals_def status_rank_def dget_or_def Let_def)

lemma verdict_rank_cases [simp]:
  "verdict_rank [] = 0" "verdict_rank (valued ''FAIL'' k v) = 2" "verdict_rank (valued ''WARN'' k v) = 1"
  by (simp_all add: verdict_rank_def status_from_signals_def status_rank_def dget_or_def valued_def)

lemma valued_distinct [simp]: "valued l k v \<noteq> []" "valued l k v = valued m j w \<longleftrightarrow> l = m \<and> k = j \<and> v = w"
  by (simp_all add: valued_def)

lemma flt_mono: "a \<le> b \<Longrightarrow> flt f (Fin a) \<Longrightarrow> flt f (Fin b)" "a \<le> b \<Longrightarrow> flt (Fin b) f \<Longrightarrow> flt (Fin a) f"
  by (cases f; simp)+

lemma rate_signal_mono:
  assumes "a \<le> b" and "append_rate_signal k (Fin a) w f = Inr s" and "append_rate_signal k (Fin b) w f = Inr s'"
  shows "verdict_rank s \<le> verdict_rank s'"
  using assms flt_mono(1) [OF assms(1)] by (auto simp: append_rate_signal_def rbind_Inr_iff split: if_splits)

lemma min_rate_signal_mono:
  assumes "a \<le> b" and "append_min_rate_signal k (Fin b) w f = Inr s" and "append_min_rate_signal k (Fin a) w f = Inr s'"
  shows "verdict_rank s \<le> verdict_rank s'"
  using assms flt_mono(2) [OF assms(1)] by (auto simp: append_min_rate_signal_def res_simps split: if_splits)

lemma pget_dset [dict_simps]: "pget (dset k v d) j = (if j = k then v else pget d j)"
  by (simp add: pget_def dget_or_def dict_simps)

lemma success_signal_timeout: "success_signal (dset ''timeout_rate'' x m) th = success_signal m th"
  by (simp add: success_signal_def success_rate_key_def dict_simps AVAILABILITY_def)

text \<open>More timeouts never improve a verdict: of two measurements that differ in the timeout rate only, the
  one with the higher rate is judged at least as severely, whatever the thresholds.\<close>

theorem timeout_rate_mono:
  assumes "a \<le> b"
    and "collect_signals (dset ''timeout_rate'' (PFloat (Fin a)) m) ds c th = Inr s"
    and "collect_signals (dset ''timeout_rate'' (PFloat (Fin b)) m) ds c th = Inr s'"
  shows "verdict_rank s \<le> verdict_rank s'"
proof -
  let ?m = "\<lambda>x. dset ''timeout_rate'' (PFloat (Fin x)) m"
  have n: "number_or (Fin 0) (pget (?m x) ''timeout_rate'') = Inr (Fin x)"
      "pget (?m x) ''failure_rate'' = pget m ''failure_rate''"
      "client_compatibility_checks (?m x) = client_compatibility_checks m" for x
    by (simp_all add: number_or_def py_number_def client_compatibility_checks_def dict_simps)
  obtain f s1 s2 s4 t t' where
    "append_rate_signal ''timeout_rate'' (Fin a) (threshold th ''warn_timeout_rate'') (threshold th ''fail_timeout_rate'') = Inr t"
    "append_rate_signal ''timeout_rate'' (Fin b) (threshold th ''warn_timeout_rate'') (threshold th ''fail_timeout_rate'') = Inr t'"
    and s: "s = compatibility_signal c @ s1 @ s2 @ t @ concat (map client_signal (client_compatibility_checks m)) @ concat s4"
      "s' = compatibility_signal c @ s1 @ s2 @ t' @ concat (map client_signal (client_compatibility_checks m)) @ concat s4"
    using assms(2,3) unfolding collect_signals_def n success_signal_timeout rbind.simps
    by (auto simp: rbind_Inr_iff)
  then have "verdict_rank t \<le> verdict_rank t'" using rate_signal_mono [OF assms(1)] by blast
  then show ?thesis unfolding s verdict_rank_append by (intro max.mono order_refl)
qed

theorem timeout_rate_mono_witness:
  "\<exists>s s'. collect_signals (dset ''timeout_rate'' (PFloat (Fin 0)) []) [] ''PASS'' DEFAULT_THRESHOLDS = Inr s
     \<and> collect_signals (dset ''timeout_rate'' (PFloat (Fin (1/2))) []) [] ''PASS'' DEFAULT_THRESHOLDS = Inr s'
     \<and> verdict_rank s \<le> verdict_rank s'"
proof -
  have "is_ok (collect_signals (dset ''timeout_rate'' (PFloat (Fin 0)) []) [] ''PASS'' DEFAULT_THRESHOLDS)"
    and "is_ok (collect_signals (dset ''timeout_rate'' (PFloat (Fin (1/2))) []) [] ''PASS'' DEFAULT_THRESHOLDS)"
    by code_simp+
  then obtain s s' where
    s: "collect_signals (dset ''timeout_rate'' (PFloat (Fin 0)) []) [] ''PASS'' DEFAULT_THRESHOLDS = Inr s"
    "collect_signals (dset ''timeout_rate'' (PFloat (Fin (1/2))) []) [] ''PASS'' DEFAULT_THRESHOLDS = Inr s'"
    by (auto simp: is_ok_iff)
  show ?thesis by (intro exI conjI, rule s(1), rule s(2), rule timeout_rate_mono [OF _ s]) simp
qed

section \<open>Rates\<close>

definition unit_rate :: "pyval \<Rightarrow> bool" where
  "unit_rate v = (case v of PFloat x \<Rightarrow> in_range 0 1 x | _ \<Rightarrow> False)"

lemma rounded_rate [simp]: "unit_rate (PFloat (fround 4 (clamp_rate x)))"
proof -
  have "in_range 0 1 (clamp_rate x)" using fclamp_range [of 0 1 x] by (simp add: clamp_rate_def fclamp_def)
  then have "in_range 0 1 (fround 4 (clamp_rate x))" using fround_range [of 0 1] by fastforce
  then show ?thesis by (simp add: unit_rate_def)
qed

lemma pget_setdefault: "pget (setdefault k v d) j = (if j = k \<and> \<not> dhas k d then v else pget d j)"
  by (simp add: setdefault_def dict_simps)

lemma dhas_pget: "\<not> dhas k d \<Longrightarrow> pget d k = PNone"
  by (simp add: dhas_def pget_def dget_or_def split: option.splits)

lemma counted_rates_unit: "counted_rates s t n = Inr n' \<Longrightarrow> unit_rate (pget n' AVAILABILITY)"
  by (auto simp: counted_rates_def Let_def res_simps pget_setdefault dict_simps AVAILABILITY_def)

lemma derived_rates_unit:
  "derived_rates n = Inr n' \<Longrightarrow> \<not> dhas AVAILABILITY n \<Longrightarrow> dhas AVAILABILITY n' \<Longrightarrow> unit_rate (pget n' AVAILABILITY)"
  by (auto simp: derived_rates_def Let_def res_simps pget_setdefault dict_simps split: option.splits)

lemma direct_rate_unit:
  "direct_rate n = Inr n' \<Longrightarrow> dhas AVAILABILITY n \<longrightarrow> unit_rate (pget n AVAILABILITY) \<Longrightarrow>
     dhas AVAILABILITY n' \<Longrightarrow> unit_rate (pget n' AVAILABILITY)"
  by (auto simp: direct_rate_def res_simps dict_simps split: if_splits option.splits)

lemma map_of_dpop [dict_simps]: "map_of (dpop k d) j = (if j = k then None else map_of d j)"
  by (induction d) (auto simp: dpop_def)

lemma dhas_text [simp]: "j \<noteq> k \<Longrightarrow> dhas k (normalize_text_metric j m) = dhas k m"
  by (simp add: normalize_text_metric_def dhas_def Let_def dict_simps)

lemma dhas_fields: "dhas AVAILABILITY (normalize_fields m) = dhas AVAILABILITY m"
proof -
  have "dhas AVAILABILITY (dset k v d) = dhas AVAILABILITY d" "dhas AVAILABILITY (dpop k d) = dhas AVAILABILITY d"
    if "k \<noteq> AVAILABILITY" for k d and v :: pyval using that by (simp_all add: dhas_def dict_simps)
  moreover have "''protocol'' \<noteq> AVAILABILITY" "''client_compatibility'' \<noteq> AVAILABILITY" "''response_code'' \<noteq> AVAILABILITY"
    "''failure_reason'' \<noteq> AVAILABILITY" by (simp_all add: AVAILABILITY_def)
  ultimately show ?thesis by (simp add: normalize_fields_def Let_def)
qed

text \<open>The availability that normalisation derives (from counts, from a failure rate or from a success rate)
  is a rate: when the metrics did not give one and the normalised metrics have one, it is a float between
  0 and 1, NaNs and nonsensical counts included.\<close>

theorem derived_availability_is_rate:
  assumes "\<not> dhas AVAILABILITY m"
  shows "case normalize_availability_metrics m of Inl e \<Rightarrow> True
     | Inr n \<Rightarrow> \<not> dhas AVAILABILITY n \<or> unit_rate (pget n AVAILABILITY)"
proof (cases "normalize_availability_metrics m")
  case (Inr n')
  let ?n = "normalize_fields m"
  obtain s t n1 where n1: "(case (s, t) of (Some x, Some y) \<Rightarrow> if flt (Fin 0) y then counted_rates x y ?n else derived_rates ?n
                     | _ \<Rightarrow> derived_rates ?n) = Inr n1" and d: "direct_rate n1 = Inr n'"
    using Inr by (auto simp: normalize_availability_metrics_def Let_def res_simps split: prod.splits)
  have "\<not> dhas AVAILABILITY ?n" using assms by (simp add: dhas_fields)
  then have "dhas AVAILABILITY n1 \<longrightarrow> unit_rate (pget n1 AVAILABILITY)"
    using n1 counted_rates_unit derived_rates_unit by (auto split: option.splits if_splits)
  from direct_rate_unit [OF d this] show ?thesis by (auto simp: Inr)
qed simp

theorem derived_availability_is_rate_witness:
  "case normalize_availability_metrics [(''successful_handshakes'', PInt 9), (''failed_handshakes'', PInt 1)] of Inl e \<Rightarrow> True
     | Inr n \<Rightarrow> \<not> dhas AVAILABILITY n \<or> unit_rate (pget n AVAILABILITY)"
  by (rule derived_availability_is_rate) (simp add: dhas_def AVAILABILITY_def)

section \<open>Counts\<close>

lemma dwf_status_counts: "dwf status_counts"
  by (simp add: dwf_def status_counts_def RESULT_STATUSES_def)

lemma status_counts_0 [simp]: "dget_or status_counts s 0 = 0" "dhas s status_counts \<longleftrightarrow> s \<in> set RESULT_STATUSES"
  "sum_list (map snd status_counts) = 0"
  by (auto simp: status_counts_def RESULT_STATUSES_def dget_or_def dhas_def)

lemma dhas_incr [simp]: "dhas s (incr k d) = (s = k \<or> dhas s d)"
  by (auto simp: dhas_def dict_simps)

lemma result_counts_fold:
  "dwf c \<Longrightarrow> (\<And>s. dhas s c \<longleftrightarrow> s \<in> set RESULT_STATUSES) \<Longrightarrow>
   fold (\<lambda>r. count_status (row_status r)) rows c = fold incr (filter (\<lambda>s. s \<in> set RESULT_STATUSES) (map row_status rows)) c"
proof (induction rows arbitrary: c)
  case (Cons r rows)
  have "dwf (incr k c)" "k \<in> set RESULT_STATUSES \<Longrightarrow> dhas s (incr k c) \<longleftrightarrow> s \<in> set RESULT_STATUSES" for k s
    using Cons.prems by (auto simp: dict_simps)
  then show ?case using Cons by (simp add: count_status_def)
qed simp

definition known_statuses :: "pyval dict list \<Rightarrow> string list" where
  "known_statuses rows = filter (\<lambda>s. s \<in> set RESULT_STATUSES) (map row_status rows)"

lemma result_counts_eq: "result_counts rows = fold incr (known_statuses rows) status_counts"
  unfolding result_counts_def known_statuses_def by (rule result_counts_fold) (simp_all add: dwf_status_counts)

lemma result_counts_total: "sum_list (map snd (result_counts rows)) = int (length (known_statuses rows))"
proof -
  have "dwf d \<Longrightarrow> sum_list (map snd (fold incr ks d)) = sum_list (map snd d) + int (length ks)" for ks d
    by (induction ks arbitrary: d) (simp_all add: sum_snd_incr dict_simps)
  then show ?thesis by (simp add: result_counts_eq dwf_status_counts)
qed

text \<open>The reference: the worst of the known statuses.\<close>

definition worst_status :: "string list \<Rightarrow> string" where
  "worst_status ss = (case sort_key (\<lambda>s. - status_rank s) ss of [] \<Rightarrow> ''PENDING'' | s # _ \<Rightarrow> s)"

lemma worst_status_member: "ss \<noteq> [] \<Longrightarrow> worst_status ss \<in> set ss \<and> (\<forall>s\<in>set ss. status_rank s \<le> status_rank (worst_status ss))"
proof -
  assume ne: "ss \<noteq> []"
  let ?xs = "sort_key (\<lambda>s. - status_rank s) ss"
  obtain x xs where xs: "?xs = x # xs" using ne by (cases ?xs) (metis length_0_conv length_sort, simp)
  have "sorted (map (\<lambda>s. - status_rank s) ?xs)" by simp
  then have "\<forall>s\<in>set ?xs. status_rank s \<le> status_rank x" by (auto simp: xs)
  moreover have "set ss = set ?xs" by simp
  ultimately show ?thesis by (simp add: worst_status_def xs)
qed

lemma overall_status_worst:
  "set ss \<subseteq> set RESULT_STATUSES \<Longrightarrow> overall_status (fold incr ss status_counts) = worst_status ss"
proof -
  assume known: "set ss \<subseteq> set RESULT_STATUSES"
  have c: "dget_or (fold incr ss status_counts) s 0 \<noteq> 0 \<longleftrightarrow> s \<in> set ss" for s
    by (simp add: fold_incr count_list_0_iff)
  have o': "overall_status (fold incr ss status_counts) =
      (if ''ERROR'' \<in> set ss then ''ERROR'' else if ''FAIL'' \<in> set ss then ''FAIL'' else if ''WARN'' \<in> set ss then ''WARN''
       else if ''PASS'' \<in> set ss then ''PASS'' else ''PENDING'')"
    unfolding overall_status_def c ..
  have rank: "status_rank ''ERROR'' = 3" "status_rank ''FAIL'' = 2" "status_rank ''WARN'' = 1" "status_rank ''PASS'' = 0"
    by (simp_all add: status_rank_def dget_or_def)
  show ?thesis
  proof (cases "ss = []")
    case False
    let ?w = "worst_status ss"
    have w: "?w \<in> set ss" "status_rank s \<le> status_rank ?w" if "s \<in> set ss" for s
      using worst_status_member [OF False] that by auto
    have "?w \<in> set ss" using worst_status_member [OF False] by blast
    then have "?w = ''PASS'' \<or> ?w = ''WARN'' \<or> ?w = ''FAIL'' \<or> ?w = ''ERROR''"
      using known by (auto simp: RESULT_STATUSES_def)
    then show ?thesis
      using \<open>?w \<in> set ss\<close> w(2) [of "''ERROR''"] w(2) [of "''FAIL''"] w(2) [of "''WARN''"] unfolding o'
      by (elim disjE) (simp_all add: rank del: status_rank_def, auto simp: rank)
  qed (simp add: overall_status_def worst_status_def)
qed

lemma summary_of_counts:
  assumes "summarize_results rows = Inr s"
  shows "pget s ''total_results'' = PInt (int (length (known_statuses rows)))"
    and "pget s ''overall_status'' = PStr (worst_status (known_statuses rows))"
proof -
  have "set (known_statuses rows) \<subseteq> set RESULT_STATUSES" by (auto simp: known_statuses_def)
  note o' = overall_status_worst [OF this]
  have "pget s ''total_results'' = PInt (sum_list (map snd (result_counts rows)))"
    and "pget s ''overall_status'' = PStr (overall_status (result_counts rows))"
    using assms by (auto simp: summarize_results_def Let_def rbind_Inr_iff pget_def dget_or_def)
  then show "pget s ''total_results'' = PInt (int (length (known_statuses rows)))"
    and "pget s ''overall_status'' = PStr (worst_status (known_statuses rows))"
    by (simp only: result_counts_total, simp only: result_counts_eq o')
qed

text \<open>The summary of a run counts right: the total is the number of results with one of the four statuses,
  and the overall status is the worst of them (pending when there is none).\<close>

theorem summary_counts:
  "case summarize_results rows of Inl e \<Rightarrow> True
   | Inr s \<Rightarrow> pget s ''total_results'' = PInt (int (length (known_statuses rows)))
       \<and> pget s ''overall_status'' = PStr (worst_status (known_statuses rows))"
  by (cases "summarize_results rows") (simp_all add: summary_of_counts)

section \<open>Failure paths\<close>

lemma path_key_absorb [simp]: "path_key (absorb_path new old) = path_key old"
  by (simp add: path_key_def absorb_path_def)

lemma add_failure_path_keys:
  "map path_key (add_failure_path new ps) =
     (if path_key new \<in> path_key ` set ps then map path_key ps else map path_key ps @ [path_key new])"
  by (induction new ps rule: add_failure_path.induct) auto

lemma add_failure_path_count:
  "sum_list (map fp_count (add_failure_path new ps)) = sum_list (map fp_count ps) + fp_count new"
  by (induction new ps rule: add_failure_path.induct) (auto simp: absorb_path_def)

lemma add_failure_path_refs:
  "distinct (fp_refs new) \<Longrightarrow> list_all (\<lambda>p. distinct (fp_refs p)) ps \<Longrightarrow>
   list_all (\<lambda>p. distinct (fp_refs p)) (add_failure_path new ps)"
  by (induction new ps rule: add_failure_path.induct) (auto simp: absorb_path_def)

lemma fold_failure_paths:
  assumes "distinct (map path_key ps)" and "list_all (\<lambda>p. distinct (fp_refs p)) ps"
    and "list_all (\<lambda>p. distinct (fp_refs p) \<and> fp_count p = 1) new"
  shows "distinct (map path_key (fold add_failure_path new ps))
    \<and> list_all (\<lambda>p. distinct (fp_refs p)) (fold add_failure_path new ps)
    \<and> sum_list (map fp_count (fold add_failure_path new ps)) = sum_list (map fp_count ps) + int (length new)"
  using assms
proof (induction new arbitrary: ps)
  case (Cons n new)
  have "distinct (map path_key (add_failure_path n ps))" using Cons.prems(1) by (simp add: add_failure_path_keys)
  moreover have "list_all (\<lambda>p. distinct (fp_refs p)) (add_failure_path n ps)"
    using Cons.prems by (simp add: add_failure_path_refs)
  ultimately show ?case using Cons by (simp add: add_failure_path_count)
qed simp

lemma single_failure_simps [simp]:
  "fp_refs (single_failure a b c e st ref) = [ref]" "fp_count (single_failure a b c e st ref) = 1"
  by (simp_all add: single_failure_def)

lemma row_failures_single: "list_all (\<lambda>p. distinct (fp_refs p) \<and> fp_count p = 1) (row_failures r)"
  unfolding row_failures_def Let_def list_all_append list_all_iff by auto

lemma sum_insort_key: "sum_list (map f (insort_key g x xs)) = (f x + sum_list (map f xs) :: int)"
  by (induction xs) auto

lemma sum_sort_key: "sum_list (map f (sort_key g xs)) = (sum_list (map f xs) :: int)"
  by (induction xs) (simp_all add: sum_insort_key)

lemma distinct_map_sort: "distinct (map h (sort_key g xs)) = distinct (map h xs)"
  by (simp add: distinct_map)

text \<open>C15. The failure paths of a run partition its failures: the paths have distinct keys (protocol, client
  profile, response code, reason), their counts add up to the number of failures of the rows, they come in
  order of falling severity, and the references of each are sorted and distinct.\<close>

theorem failure_paths_partition:
  "distinct (map path_key (failure_paths rows))
   \<and> sum_list (map fp_count (failure_paths rows)) = int (length (concat (map row_failures rows)))
   \<and> sorted (map (\<lambda>p. - status_rank (fp_status p)) (failure_paths rows))
   \<and> list_all (\<lambda>p. sorted (fp_refs p) \<and> distinct (fp_refs p)) (failure_paths rows)"
proof -
  let ?new = "concat (map row_failures rows)"
  let ?raw = "fold add_failure_path ?new []"
  let ?sorted = "map (\<lambda>p. p\<lparr>fp_refs := sort (fp_refs p)\<rparr>) ?raw"
  have "list_all (\<lambda>p. distinct (fp_refs p) \<and> fp_count p = 1) ?new"
    using row_failures_single by (fastforce simp: list_all_iff)
  note f = fold_failure_paths [OF _ _ this, of "[]", simplified]
  have keys: "map path_key ?sorted = map path_key ?raw" by (simp add: path_key_def)
  have "distinct (map path_key ?sorted)" unfolding keys using f by simp
  then have 1: "distinct (map path_key (failure_paths rows))"
    unfolding failure_paths_def distinct_map_sort .
  have 2: "sum_list (map fp_count (failure_paths rows)) = int (length ?new)"
    unfolding failure_paths_def sum_sort_key using f by (simp add: comp_def)
  let ?f = "\<lambda>p. (- status_rank (fp_status p), - fp_count p, fp_protocol p, fp_profile p)"
  have "sorted (map ?f (failure_paths rows))" by (simp add: failure_paths_def)
  then have 3: "sorted (map (\<lambda>p. - status_rank (fp_status p)) (failure_paths rows))"
    by (auto simp: sorted_iff_nth_mono less_eq_prod_def dest: less_imp_le)
  have 4: "list_all (\<lambda>p. sorted (fp_refs p) \<and> distinct (fp_refs p)) (failure_paths rows)"
    using f by (auto simp: failure_paths_def list_all_iff)
  show ?thesis using 1 2 3 4 by blast
qed

end
