(* ===== verification/Performance_Service.thy ===== *)
theory Performance_Service
  imports Performance_Engine Recompute
begin

text \<open>
  \<open>apps/performance/services.py\<close> and \<open>apps/performance/api.py\<close>: the runs that measure the assets of a
  snapshot and their stored results.  A run may have a baseline snapshot; a result is judged by the
  engine against the newest result of the same asset (by its reference) in a run of the baseline with
  the same profile; every stored result refreshes the summary of its run.

  A request that the services refuse (\<open>InvalidPerformanceResult\<close>) is the left value \<open>Invalid_result\<close>.
\<close>

datatype perf_failure =
    Invalid_result string "pyval dict"
  | Raised py_error

definition raised :: "py_error + 'a \<Rightarrow> perf_failure + 'a" where
  "raised m = (case m of Inl e \<Rightarrow> Inl (Raised e) | Inr x \<Rightarrow> Inr x)"

text \<open>A refused request leaves a worker as an exception with its message.\<close>

definition as_exception :: "perf_failure \<Rightarrow> py_error" where
  "as_exception f = (case f of Invalid_result m ds \<Rightarrow> RuntimeError m | Raised e \<Rightarrow> e)"

definition dict_of :: "pyval \<Rightarrow> pyval dict" where
  "dict_of v = (case v of PDict m \<Rightarrow> m | _ \<Rightarrow> [])"

section \<open>Runs\<close>

definition resolve_baseline_snapshot :: "snapshot \<Rightarrow> int option \<Rightarrow> string \<Rightarrow> db \<Rightarrow> perf_failure + int option" where
  "resolve_baseline_snapshot sn baseline trigger d =
     (case baseline of
        Some b \<Rightarrow>
          (case find_row sn_id b (db_snapshots d) of
             None \<Rightarrow> Inl (Invalid_result ''baseline_snapshot_id does not exist.'' [(''baseline_snapshot_id'', PInt b)])
           | Some x \<Rightarrow>
               if b = sn_id sn
               then Inl (Invalid_result ''baseline_snapshot_id must be different from snapshot_id.'' [(''baseline_snapshot_id'', PInt b)])
               else if trigger = ''post_migration'' \<and> sn_id sn < b
               then Inl (Invalid_result ''baseline_snapshot_id must reference a pre-migration snapshot.''
                          [(''baseline_snapshot_id'', PInt b), (''snapshot_id'', PInt (sn_id sn))])
               else Inr (Some b))
      | None \<Rightarrow>
          if trigger \<noteq> ''post_migration'' then Inr None
          else (case first_by (\<lambda>x. - sn_id x) sn_id (filter (\<lambda>x. sn_id x < sn_id sn) (db_snapshots d)) of
                  None \<Rightarrow> Inl (Invalid_result ''post_migration performance runs require a pre-migration snapshot.''
                                [(''snapshot_id'', PInt (sn_id sn))])
                | Some x \<Rightarrow> Inr (Some (sn_id x))))"

definition other_migration_runs :: "int \<Rightarrow> pyval \<Rightarrow> pyval list" where
  "other_migration_runs i v =
     (case v of
        PList xs \<Rightarrow> filter (\<lambda>x. case x of PDict m \<Rightarrow> \<not> py_eq (pget m ''run_id'') (PInt i) | _ \<Rightarrow> False) xs
      | _ \<Rightarrow> [])"

definition link_post_migration_snapshot :: "perf_run \<Rightarrow> db \<Rightarrow> db" where
  "link_post_migration_snapshot r d =
     (case find_row sn_id (pr_snapshot r) (db_snapshots d) of None \<Rightarrow> d
      | Some sn \<Rightarrow>
          (let summary = dict_of (sn_summary sn);
               migration = dict_of (pget summary ''migration'');
               entry = PDict [(''run_id'', PInt (pr_id r)), (''profile'', PStr (pr_profile r)),
                              (''baseline_snapshot_id'', opt_int (pr_baseline r)),
                              (''post_migration_snapshot_id'', PInt (pr_snapshot r))];
               runs = other_migration_runs (pr_id r) (pget migration ''post_migration_runs'') @ [entry];
               migration' = dmerge migration
                 [(''phase'', PStr ''post_migration''), (''pre_migration_snapshot_id'', opt_int (pr_baseline r)),
                  (''post_migration_snapshot_id'', PInt (pr_snapshot r)), (''latest_performance_run_id'', PInt (pr_id r)),
                  (''latest_profile'', PStr (pr_profile r)), (''post_migration_runs'', PList runs)]
           in d\<lparr>db_snapshots := put_row sn_id
                  (sn\<lparr>sn_summary := PDict (dset ''migration'' (PDict migration') summary)\<rparr>) (db_snapshots d)\<rparr>))"

record run_request =
  rq_baseline :: "int option"
  rq_trigger :: string
  rq_profile :: string
  rq_thresholds :: "pyval dict"
  rq_environment :: "pyval dict"

definition empty_summary :: "pyval dict" where
  "empty_summary = (case summarize_results [] of Inr s \<Rightarrow> s | Inl e \<Rightarrow> [])"

definition create_run :: "snapshot \<Rightarrow> run_request \<Rightarrow> int \<Rightarrow> db \<Rightarrow> perf_failure + perf_run \<times> db" where
  "create_run sn p now d =
     rbind (resolve_baseline_snapshot sn (rq_baseline p) (rq_trigger p) d) (\<lambda>baseline.
       let r = \<lparr>pr_id = next_id pr_id (db_runs d), pr_snapshot = sn_id sn, pr_baseline = baseline,
                pr_trigger = rq_trigger p, pr_profile = rq_profile p, pr_status = PENDING,
                pr_thresholds = dmerge DEFAULT_THRESHOLDS (rq_thresholds p), pr_environment = rq_environment p,
                pr_summary = empty_summary, pr_started = None, pr_completed = None, pr_created = now\<rparr>;
           d1 = d\<lparr>db_runs := add_row r (db_runs d)\<rparr>
       in Inr (r, if rq_trigger p = ''post_migration'' then link_post_migration_snapshot r d1 else d1))"

definition enqueue_run :: "perf_run \<Rightarrow> int \<Rightarrow> db \<Rightarrow> db" where
  "enqueue_run r now d =
     enqueue_task ''performance_run'' [(''run_id'', PInt (pr_id r)), (''snapshot_id'', PInt (pr_snapshot r))] None now d"

definition set_run :: "perf_run \<Rightarrow> db \<Rightarrow> db" where
  "set_run r d = d\<lparr>db_runs := put_row pr_id r (db_runs d)\<rparr>"

definition update_run_status :: "perf_run \<Rightarrow> job_status \<Rightarrow> pyval dict option \<Rightarrow> int \<Rightarrow> db \<Rightarrow> perf_run \<times> db" where
  "update_run_status r status summary now d =
     (let r1 = r\<lparr>pr_status := status\<rparr>;
          r2 = (if status = RUNNING then r1\<lparr>pr_started := or_else (pr_started r1) now\<rparr> else r1);
          r3 = (if status \<in> {COMPLETED, FAILED} then r2\<lparr>pr_completed := or_else (pr_completed r2) now\<rparr> else r2);
          r4 = (case summary of None \<Rightarrow> r3 | Some s \<Rightarrow> r3\<lparr>pr_summary := dmerge (pr_summary r3) s\<rparr>)
      in (r4, set_run r4 d))"

section \<open>Results\<close>

definition asset_protocol :: "db \<Rightarrow> asset \<Rightarrow> string" where
  "asset_protocol d a =
     (let hint = (case asset_target d a of Some t \<Rightarrow> tg_protocol_hint t | None \<Rightarrow> [])
      in if hint \<noteq> [] then hint
         else if truthy (pget (a_metadata a) ''protocol'') then py_str (pget (a_metadata a) ''protocol'')
         else if a_type a \<in> {''ssh_host_key'', ''ssh_user_key''} \<or> contains (lower (a_bom_ref a)) ''ssh'' then ''SSH''
         else ''UNKNOWN'')"

definition metrics_with_protocol :: "db \<Rightarrow> asset \<Rightarrow> pyval dict \<Rightarrow> pyval dict" where
  "metrics_with_protocol d a m =
     (if truthy (pget m ''protocol'') then m else dset ''protocol'' (PStr (asset_protocol d a)) m)"

definition baseline_metrics_for :: "perf_run \<Rightarrow> asset \<Rightarrow> db \<Rightarrow> pyval dict option" where
  "baseline_metrics_for r a d =
     (case pr_baseline r of None \<Rightarrow> None
      | Some b \<Rightarrow>
          (case first_by a_id a_id (filter (\<lambda>x. a_snapshot x = Some b \<and> a_bom_ref x = a_bom_ref a) (db_assets d)) of
             None \<Rightarrow> None
           | Some ba \<Rightarrow>
               (case first_by (\<lambda>x. - pr_created x) pr_id
                       (filter (\<lambda>x. pr_snapshot x = b \<and> pr_profile x = pr_profile r \<and> pr_id x \<noteq> pr_id r) (db_runs d)) of
                  None \<Rightarrow> None
                | Some br \<Rightarrow>
                    map_option pf_metrics (first_by (\<lambda>x. - pf_measured x) pf_id
                      (filter (\<lambda>x. pf_run x = pr_id br \<and> pf_asset x = a_id ba) (db_results d))))))"

definition metrics_with_failure_context ::
  "pyval dict \<Rightarrow> string \<Rightarrow> signal list \<Rightarrow> string \<Rightarrow> py_error + pyval dict" where
  "metrics_with_failure_context m error_message signals status =
     normalize_availability_metrics
       (if status \<in> {''WARN'', ''FAIL'', ''ERROR''} \<and> \<not> truthy (pget m ''failure_reason'') then
          (if error_message \<noteq> [] then dset ''failure_reason'' (PStr error_message) m
           else (case signals of [] \<Rightarrow> m
                 | s # _ \<Rightarrow> dset ''failure_reason'' (PStr (or_str (sg_reason s) status)) m))
        else m)"

record result_payload =
  rp_asset :: int
  rp_compatibility :: string
  rp_negotiated :: string
  rp_metrics :: "pyval dict"
  rp_recommendation :: "string option"
  rp_error :: string

definition result_row :: "db \<Rightarrow> perf_result \<Rightarrow> pyval dict" where
  "result_row d x =
     [(''status'', PStr (pf_status x)), (''deltas'', PDict (pf_deltas x)), (''metrics'', PDict (pf_metrics x)),
      (''bom_ref'', PStr (case find_row a_id (pf_asset x) (db_assets d) of Some a \<Rightarrow> a_bom_ref a | None \<Rightarrow> []))]"

definition run_results :: "int \<Rightarrow> db \<Rightarrow> perf_result list" where
  "run_results i d = filter (\<lambda>x. pf_run x = i) (db_results d)"

definition refresh_run_summary :: "perf_run \<Rightarrow> db \<Rightarrow> py_error + perf_run \<times> db" where
  "refresh_run_summary r d =
     rmap (\<lambda>s. let r' = r\<lparr>pr_summary := s\<rparr> in (r', set_run r' d))
       (summarize_results (map (result_row d) (run_results (pr_id r) d)))"

text \<open>The judged result, before it is stored.\<close>

definition judged_result ::
  "perf_run \<Rightarrow> asset \<Rightarrow> result_payload \<Rightarrow> int \<Rightarrow> db \<Rightarrow> py_error + (int \<Rightarrow> perf_result)" where
  "judged_result r a p now d =
     rbind (normalize_availability_metrics (metrics_with_protocol d a (rp_metrics p))) (\<lambda>m.
       let base = (case baseline_metrics_for r a d of Some b \<Rightarrow> b | None \<Rightarrow> [])
       in rbind (if base = [] then Inr m
                 else rmap (\<lambda>b. dset ''baseline_metrics'' (PDict b) m) (normalize_availability_metrics base)) (\<lambda>m1.
          rbind (evaluate_asset_performance m1 base (rp_compatibility p) (pr_thresholds r)) (\<lambda>ev.
            let status = (if rp_compatibility p = ''ERROR'' then ''ERROR'' else ev_status ev)
            in rbind (metrics_with_failure_context m1 (rp_error p) (ev_signals ev) status) (\<lambda>m2.
                 Inr (\<lambda>i. \<lparr>pf_id = i, pf_run = pr_id r, pf_asset = a_id a, pf_status = status,
                            pf_compatibility = rp_compatibility p, pf_negotiated = rp_negotiated p, pf_metrics = m2,
                            pf_deltas = map (\<lambda>(k, x). (k, PFloat x)) (ev_deltas ev),
                            pf_signals = map signal_dict (ev_signals ev),
                            pf_recommendation = (case rp_recommendation p of
                               Some s \<Rightarrow> or_str s (ev_recommendation ev) | None \<Rightarrow> ev_recommendation ev),
                            pf_error = rp_error p, pf_measured = now\<rparr>)))))"

definition store_result :: "(int \<Rightarrow> perf_result) \<Rightarrow> int \<Rightarrow> int \<Rightarrow> db \<Rightarrow> perf_result \<times> db" where
  "store_result row r a d =
     (case find_row (\<lambda>x. (pf_run x, pf_asset x)) (r, a) (db_results d) of
        Some x \<Rightarrow> (row (pf_id x), d\<lparr>db_results := put_row pf_id (row (pf_id x)) (db_results d)\<rparr>)
      | None \<Rightarrow> (let x = row (next_id pf_id (db_results d)) in (x, d\<lparr>db_results := add_row x (db_results d)\<rparr>)))"

text \<open>The exception after the result is stored leaves the stored result: the database is returned in any
  case.\<close>

definition upsert_result ::
  "perf_run \<Rightarrow> result_payload \<Rightarrow> int \<Rightarrow> db \<Rightarrow> db \<times> (perf_failure + perf_result \<times> perf_run)" where
  "upsert_result r p now d =
     (case find_row a_id (rp_asset p) (db_assets d) of
        None \<Rightarrow> (d, Inl (Invalid_result ''asset_id does not exist.'' [(''asset_id'', PInt (rp_asset p))]))
      | Some a \<Rightarrow>
          if a_snapshot a \<noteq> Some (pr_snapshot r) then
            (d, Inl (Invalid_result ''asset does not belong to the performance run snapshot.''
                      [(''asset_id'', PInt (a_id a)), (''asset_snapshot_id'', opt_int (a_snapshot a)),
                       (''run_snapshot_id'', PInt (pr_snapshot r))]))
          else
            (case judged_result r a p now d of
               Inl e \<Rightarrow> (d, Inl (Raised e))
             | Inr row \<Rightarrow>
                 (case store_result row (pr_id r) (a_id a) d of
                    (x, d1) \<Rightarrow>
                      (let r1 = (if pr_status r = PENDING
                                 then r\<lparr>pr_status := RUNNING, pr_started := or_else (pr_started r) now\<rparr> else r);
                           d2 = (if pr_status r = PENDING then set_run r1 d1 else d1)
                       in case refresh_run_summary r1 d2 of
                            Inl e \<Rightarrow> (d2, Inl (Raised e))
                          | Inr (r2, d3) \<Rightarrow> (d3, Inr (x, r2))))))"

section \<open>Serialisation\<close>

definition serialize_run :: "perf_run \<Rightarrow> pyval dict" where
  "serialize_run r =
     [(''id'', PInt (pr_id r)), (''snapshot_id'', PInt (pr_snapshot r)), (''baseline_snapshot_id'', opt_int (pr_baseline r)),
      (''post_migration_snapshot_id'', if pr_trigger r = ''post_migration'' then PInt (pr_snapshot r) else PNone),
      (''trigger'', PStr (pr_trigger r)), (''profile'', PStr (pr_profile r)), (''status'', PStr (job_status_str (pr_status r))),
      (''thresholds'', PDict (pr_thresholds r)), (''environment'', PDict (pr_environment r)),
      (''summary'', PDict (pr_summary r)), (''started_at'', dt (pr_started r)), (''completed_at'', dt (pr_completed r)),
      (''created_at'', PInt (pr_created r))]"

definition result_failure_reason :: "perf_result \<Rightarrow> pyval" where
  "result_failure_reason x =
     (if truthy (pget (pf_metrics x) ''failure_reason'') then PStr (py_str (pget (pf_metrics x) ''failure_reason''))
      else if pf_error x \<noteq> [] then PStr (pf_error x)
      else (case pf_signals x of [] \<Rightarrow> PNone
            | s # _ \<Rightarrow> PStr (py_str (py_or (pget (dict_of s) ''reason'') (PStr [])))))"

definition serialize_result :: "db \<Rightarrow> perf_result \<Rightarrow> py_error + pyval" where
  "serialize_result d x =
     rbind (get_row a_id (pf_asset x) (db_assets d)) (\<lambda>a.
       Inr (PDict
         [(''id'', PInt (pf_id x)), (''run_id'', PInt (pf_run x)), (''asset_id'', PInt (pf_asset x)),
          (''asset_name'', PStr (a_name a)), (''bom_ref'', PStr (a_bom_ref a)),
          (''target_label'', case asset_target d a of None \<Rightarrow> PNone
              | Some t \<Rightarrow> PStr (tg_host t @ '':'' @ str_int (tg_port t))),
          (''protocol'', PStr (upper (py_str (py_or (pget (pf_metrics x) ''protocol'') (PStr (asset_protocol d a)))))),
          (''response_code'', if pget (pf_metrics x) ''response_code'' = PNone then PNone
              else PStr (py_str (pget (pf_metrics x) ''response_code''))),
          (''failure_reason'', result_failure_reason x), (''status'', PStr (pf_status x)),
          (''compatibility_status'', PStr (pf_compatibility x)), (''negotiated_algorithm'', PStr (pf_negotiated x)),
          (''metrics'', PDict (pf_metrics x)), (''deltas'', PDict (pf_deltas x)), (''signals'', PList (pf_signals x)),
          (''recommendation'', PStr (pf_recommendation x)), (''error_message'', PStr (pf_error x)),
          (''measured_at'', PInt (pf_measured x))]))"

definition serialize_run_detail :: "db \<Rightarrow> perf_run \<Rightarrow> py_error + pyval" where
  "serialize_run_detail d r =
     rmap (\<lambda>xs. PDict (serialize_run r @ [(''results'', PList xs)]))
       (rmapM (serialize_result d) (sort_key (\<lambda>x. (case find_row a_id (pf_asset x) (db_assets d) of
            Some a \<Rightarrow> a_bom_ref a | None \<Rightarrow> [], pf_id x)) (run_results (pr_id r) d)))"

section \<open>The API\<close>

definition not_found :: response where
  "not_found = error_response ''not_found'' ''Resource not found.'' [] 404"

definition find_run :: "int \<Rightarrow> int \<Rightarrow> db \<Rightarrow> perf_run option" where
  "find_run sn i d = List.find (\<lambda>r. pr_id r = i \<and> pr_snapshot r = sn) (db_runs d)"

definition list_performance_runs ::
  "int \<Rightarrow> string option \<Rightarrow> job_status option \<Rightarrow> int \<Rightarrow> int \<Rightarrow> db \<Rightarrow> response" where
  "list_performance_runs sn profile status offset limit d =
     (if find_row sn_id sn (db_snapshots d) = None then not_found
      else
        (let q1 = sort_key (\<lambda>r. - pr_created r) (filter (\<lambda>r. pr_snapshot r = sn) (db_runs d));
             q2 = (case profile of None \<Rightarrow> q1 | Some p \<Rightarrow> filter (\<lambda>r. pr_profile r = p) q1);
             q = (case status of None \<Rightarrow> q2 | Some s \<Rightarrow> filter (\<lambda>r. pr_status r = s) q2)
         in Response 200 (page_envelope (map (\<lambda>r. PDict (serialize_run r)) (page_slice offset limit q)) offset limit
                            (Some (int (length q))))))"

definition refusal :: "perf_failure \<Rightarrow> response" where
  "refusal f =
     (case f of Invalid_result m details \<Rightarrow> error_response ''unprocessable'' m details 422
      | Raised e \<Rightarrow> error_response ''internal'' ''Internal server error.'' [] 500)"

definition create_performance_run :: "int \<Rightarrow> run_request \<Rightarrow> bool \<Rightarrow> int \<Rightarrow> db \<Rightarrow> response \<times> db" where
  "create_performance_run sn p auto_start now d =
     (case find_row sn_id sn (db_snapshots d) of None \<Rightarrow> (not_found, d)
      | Some s \<Rightarrow>
          (case create_run s p now d of
             Inl f \<Rightarrow> (refusal f, d)
           | Inr (r, d1) \<Rightarrow>
               (Response 201 (PDict (serialize_run r)), if auto_start then enqueue_run r now d1 else d1)))"

definition get_performance_run :: "int \<Rightarrow> int \<Rightarrow> db \<Rightarrow> py_error + response" where
  "get_performance_run sn i d =
     (case find_run sn i d of None \<Rightarrow> Inr not_found | Some r \<Rightarrow> rmap (Response 200) (serialize_run_detail d r))"

definition patch_performance_run :: "int \<Rightarrow> int \<Rightarrow> job_status \<Rightarrow> pyval dict option \<Rightarrow> int \<Rightarrow> db \<Rightarrow> response \<times> db" where
  "patch_performance_run sn i status summary now d =
     (case find_run sn i d of None \<Rightarrow> (not_found, d)
      | Some r \<Rightarrow> (case update_run_status r status summary now d of
                    (r', d') \<Rightarrow> (Response 200 (PDict (serialize_run r')), d')))"

definition upsert_performance_result :: "int \<Rightarrow> int \<Rightarrow> result_payload \<Rightarrow> int \<Rightarrow> db \<Rightarrow> response \<times> db" where
  "upsert_performance_result sn i p now d =
     (case find_run sn i d of None \<Rightarrow> (not_found, d)
      | Some r \<Rightarrow>
          (case upsert_result r p now d of
             (d', Inl f) \<Rightarrow> (refusal f, d')
           | (d', Inr (x, r')) \<Rightarrow>
               (case serialize_result d' x of Inr v \<Rightarrow> (Response 201 v, d') | Inl e \<Rightarrow> (refusal (Raised e), d'))))"

definition list_asset_performance_history :: "int \<Rightarrow> int \<Rightarrow> int \<Rightarrow> db \<Rightarrow> py_error + response" where
  "list_asset_performance_history a offset limit d =
     (if find_row a_id a (db_assets d) = None then Inr not_found
      else
        (let q = sort_key (\<lambda>x. - pf_measured x) (filter (\<lambda>x. pf_asset x = a) (db_results d))
         in rmap (\<lambda>items. Response 200 (page_envelope items offset limit (Some (int (length q)))))
              (rmapM (serialize_result d) (page_slice offset limit q))))"

section \<open>The baseline of a run\<close>

text \<open>A post-migration run is always compared with an earlier snapshot: whether the baseline is given or
  chosen, a run that is created for that trigger has a baseline, which exists and is older than the
  snapshot of the run; the run is stored, pending.\<close>

theorem post_migration_baseline_is_earlier:
  assumes "rq_trigger p = ''post_migration''"
  shows "case create_run sn p now d of Inl e \<Rightarrow> True
     | Inr (r, d') \<Rightarrow> (\<exists>b. pr_baseline r = Some b \<and> b < sn_id sn \<and> find_row sn_id b (db_snapshots d) \<noteq> None)
         \<and> find_row pr_id (pr_id r) (db_runs d') = Some r \<and> pr_status r = PENDING"
proof (cases "create_run sn p now d")
  case (Inr rd)
  obtain r d' where rd: "rd = (r, d')" by (cases rd)
  obtain b where b: "resolve_baseline_snapshot sn (rq_baseline p) (rq_trigger p) d = Inr b" and rb: "pr_baseline r = b"
    and rs: "pr_status r = PENDING" "pr_id r = next_id pr_id (db_runs d)" "db_runs d' = add_row r (db_runs d)"
    using Inr by (auto simp: create_run_def Let_def res_simps rd link_post_migration_snapshot_def split: option.splits)
  have "\<exists>i. b = Some i \<and> i < sn_id sn \<and> find_row sn_id i (db_snapshots d) \<noteq> None"
  proof (cases "rq_baseline p")
    case None
    obtain x where x: "first_by (\<lambda>x. - sn_id x) sn_id (filter (\<lambda>x. sn_id x < sn_id sn) (db_snapshots d)) = Some x" "b = Some (sn_id x)"
      using b assms by (auto simp: resolve_baseline_snapshot_def None split: option.splits)
    have "x \<in> set (db_snapshots d)" "sn_id x < sn_id sn" using first_by_Some [OF x(1)] by auto
    then show ?thesis using x(2) by (auto simp: find_row_None)
  next
    case (Some i)
    have "b = Some i \<and> i \<noteq> sn_id sn \<and> \<not> sn_id sn < i \<and> find_row sn_id i (db_snapshots d) \<noteq> None"
      using b assms by (auto simp: resolve_baseline_snapshot_def Some split: option.splits if_splits)
    then show ?thesis by auto
  qed
  then show ?thesis using rb rs by (auto simp: Inr rd find_add)
qed simp

definition sample_snapshot :: "int \<Rightarrow> snapshot" where
  "sample_snapshot i = \<lparr>sn_id = i, sn_scan_job = None, sn_serial = [], sn_summary = PDict [], sn_validation_errors = [], sn_created = 0\<rparr>"

theorem post_migration_baseline_is_earlier_witness:
  "let p = \<lparr>rq_baseline = None, rq_trigger = ''post_migration'', rq_profile = ''smoke'', rq_thresholds = [], rq_environment = []\<rparr>;
       d = empty_db\<lparr>db_snapshots := [sample_snapshot 1, sample_snapshot 2]\<rparr>
   in case create_run (sample_snapshot 2) p 0 d of Inl e \<Rightarrow> True
     | Inr (r, d') \<Rightarrow> (\<exists>b. pr_baseline r = Some b \<and> b < sn_id (sample_snapshot 2) \<and> find_row sn_id b (db_snapshots d) \<noteq> None)
         \<and> find_row pr_id (pr_id r) (db_runs d') = Some r \<and> pr_status r = PENDING"
  unfolding Let_def by (rule post_migration_baseline_is_earlier) simp

section \<open>Stored results\<close>

definition results_wf :: "db \<Rightarrow> bool" where
  "results_wf d = (distinct (map pf_id (db_results d)) \<and> distinct (map (\<lambda>x. (pf_run x, pf_asset x)) (db_results d))
     \<and> list_all (\<lambda>x. pf_status x \<in> set RESULT_STATUSES) (db_results d))"

lemma status_from_signals_known: "status_from_signals ss \<in> set RESULT_STATUSES"
  by (simp add: status_from_signals_def RESULT_STATUSES_def Let_def)

lemma evaluation_status: "evaluate_asset_performance m b c th = Inr ev \<Longrightarrow> ev_status ev \<in> set RESULT_STATUSES"
  using status_from_signals_known by (auto simp: evaluate_asset_performance_def Let_def rbind_Inr_iff simp del: set_simps)

lemma judged_result_row:
  assumes "judged_result r a p now d = Inr row"
  shows "pf_id (row i) = i \<and> pf_run (row i) = pr_id r \<and> pf_asset (row i) = a_id a \<and> pf_status (row i) \<in> set RESULT_STATUSES
    \<and> pf_compatibility (row i) = rp_compatibility p"
proof -
  obtain m1 base ev m2 where "evaluate_asset_performance m1 base (rp_compatibility p) (pr_thresholds r) = Inr ev"
    and row: "row = (\<lambda>i. \<lparr>pf_id = i, pf_run = pr_id r, pf_asset = a_id a,
        pf_status = (if rp_compatibility p = ''ERROR'' then ''ERROR'' else ev_status ev),
        pf_compatibility = rp_compatibility p, pf_negotiated = rp_negotiated p, pf_metrics = m2,
        pf_deltas = map (\<lambda>(k, x). (k, PFloat x)) (ev_deltas ev), pf_signals = map signal_dict (ev_signals ev),
        pf_recommendation = (case rp_recommendation p of Some s \<Rightarrow> or_str s (ev_recommendation ev) | None \<Rightarrow> ev_recommendation ev),
        pf_error = rp_error p, pf_measured = now\<rparr>)"
    using assms unfolding judged_result_def Let_def rbind_Inr_iff sum.inject
    by (elim exE conjE) (rule that, assumption, erule sym)
  then show ?thesis using evaluation_status by (simp add: row) (simp add: RESULT_STATUSES_def)
qed

lemma store_result_wf:
  assumes "results_wf d" and "\<And>i. pf_id (row i) = i \<and> pf_run (row i) = r \<and> pf_asset (row i) = a \<and> pf_status (row i) \<in> set RESULT_STATUSES"
    and "store_result row r a d = (x, d')"
  shows "results_wf d'" and "filter (\<lambda>y. (pf_run y, pf_asset y) = (r, a)) (db_results d') = [x]"
    and "(s, b) \<noteq> (r, a) \<Longrightarrow> filter (\<lambda>y. (pf_run y, pf_asset y) = (s, b)) (db_results d') = filter (\<lambda>y. (pf_run y, pf_asset y) = (s, b)) (db_results d)"
    and "db_runs d' = db_runs d" and "db_assets d' = db_assets d"
proof -
  let ?R = "db_results d" and ?k = "\<lambda>y. (pf_run y, pf_asset y)"
  have wf: "distinct (map pf_id ?R)" "distinct (map ?k ?R)" "list_all (\<lambda>x. pf_status x \<in> set RESULT_STATUSES) ?R"
    using assms(1) by (simp_all add: results_wf_def)
  have k: "?k (row i) = (r, a)" "pf_id (row i) = i" "pf_status (row i) \<in> set RESULT_STATUSES" for i using assms(2) by simp_all
  have "results_wf d' \<and> filter (\<lambda>y. ?k y = (r, a)) (db_results d') = [x]
    \<and> ((s, b) \<noteq> (r, a) \<longrightarrow> filter (\<lambda>y. ?k y = (s, b)) (db_results d') = filter (\<lambda>y. ?k y = (s, b)) ?R)
    \<and> db_runs d' = db_runs d \<and> db_assets d' = db_assets d"
  proof (cases "find_row ?k (r, a) ?R")
    case None
    then have none: "filter (\<lambda>y. ?k y = (r, a)) ?R = []" "(r, a) \<notin> ?k ` set ?R" by (auto simp: find_row_None filter_empty_conv)
    have x: "x = row (next_id pf_id ?R)" "d' = d\<lparr>db_results := add_row x ?R\<rparr>"
      using assms(3) by (auto simp: store_result_def None Let_def)
    show ?thesis using none wf k distinct_add [OF wf(1), of x] by (auto simp: x results_wf_def add_row_def)
  next
    case (Some y)
    then have y: "y \<in> set ?R" "?k y = (r, a)" by (blast dest: find_row_Some)+
    have x: "x = row (pf_id y)" "d' = d\<lparr>db_results := put_row pf_id x ?R\<rparr>"
      using assms(3) by (auto simp: store_result_def Some)
    have f: "filter (\<lambda>z. ?k z = (r, a)) ?R = [y]" using filter_same_key [OF wf(2) y(1)] by (simp only: y(2))
    have xi: "pf_id x = pf_id y" "?k x = ?k y" using k y(2) by (simp_all add: x)
    note p = filter_put_row [OF wf(1) f xi(1)] and m = map_put_row [OF wf(1) y(1) xi(1), of ?k]
    have "results_wf d'"
      using wf m xi(2) k(3) by (simp add: x results_wf_def list_all_put_row)
    moreover have "filter (\<lambda>z. ?k z = (r, a)) (db_results d') = [x]" using p(1) xi(2) y(2) by (simp add: x(2))
    moreover have "(s, b) \<noteq> (r, a) \<longrightarrow> filter (\<lambda>z. ?k z = (s, b)) (db_results d') = filter (\<lambda>z. ?k z = (s, b)) ?R"
      using p(2) [of "\<lambda>z. ?k z = (s, b)"] xi(2) y(2) by (auto simp: x(2))
    ultimately show ?thesis by (simp add: x(2))
  qed
  then show "results_wf d'" and "filter (\<lambda>y. ?k y = (r, a)) (db_results d') = [x]"
    and "(s, b) \<noteq> (r, a) \<Longrightarrow> filter (\<lambda>y. ?k y = (s, b)) (db_results d') = filter (\<lambda>y. ?k y = (s, b)) ?R"
    and "db_runs d' = db_runs d" and "db_assets d' = db_assets d" by blast+
qed

definition summary_counts_results :: "perf_run \<Rightarrow> db \<Rightarrow> bool" where
  "summary_counts_results r d =
     (pget (pr_summary r) ''total_results'' = PInt (int (length (run_results (pr_id r) d))))"

lemma refresh_counts:
  assumes "results_wf d" and "refresh_run_summary r d = Inr (r', d')"
  shows "summary_counts_results r' d'" and "db_results d' = db_results d" and "pr_id r' = pr_id r"
proof -
  let ?rows = "map (result_row d) (run_results (pr_id r) d)"
  obtain s where s: "summarize_results ?rows = Inr s" and r': "r' = r\<lparr>pr_summary := s\<rparr>" "d' = set_run r' d"
    using assms(2) by (auto simp: refresh_run_summary_def Let_def res_simps)
  have st: "row_status (result_row d x) = pf_status x" for x by (simp add: row_status_def result_row_def pget_def dget_or_def)
  have all: "list_all (\<lambda>x. x \<in> set RESULT_STATUSES) (map pf_status (run_results (pr_id r) d))"
    using assms(1) by (simp add: results_wf_def list_all_iff run_results_def del: set_simps)
  have "known_statuses ?rows = filter (\<lambda>x. x \<in> set RESULT_STATUSES) (map pf_status (run_results (pr_id r) d))"
    by (simp only: known_statuses_def map_map comp_def st)
  also have "\<dots> = map pf_status (run_results (pr_id r) d)"
    using all by (simp only: list_all_iff filter_id_conv)
  finally have known: "known_statuses ?rows = map pf_status (run_results (pr_id r) d)" .
  have "pget s ''total_results'' = PInt (int (length (run_results (pr_id r) d)))"
    using summary_of_counts [OF s] by (simp only: known length_map)
  then show "summary_counts_results r' d'" by (simp add: r' summary_counts_results_def set_run_def run_results_def)
  show "db_results d' = db_results d" "pr_id r' = pr_id r" by (simp_all add: r' set_run_def)
qed

definition is_refusal :: "perf_failure \<Rightarrow> bool" where
  "is_refusal f = (case f of Invalid_result m ds \<Rightarrow> True | Raised e \<Rightarrow> False)"

text \<open>Only the result under the key has changed, and it is the only one there.\<close>

definition is_update :: "int \<times> int \<Rightarrow> perf_result \<Rightarrow> db \<Rightarrow> db \<Rightarrow> bool" where
  "is_update k x d d' =
     (filter (\<lambda>y. (pf_run y, pf_asset y) = k) (db_results d') = [x]
      \<and> (\<forall>j. j = k \<or> filter (\<lambda>y. (pf_run y, pf_asset y) = j) (db_results d')
                  = filter (\<lambda>y. (pf_run y, pf_asset y) = j) (db_results d)))"

lemma upsert_result_updates:
  assumes "results_wf d"
  shows "results_wf (fst (upsert_result r p now d)) \<and>
    (case snd (upsert_result r p now d) of
       Inl f \<Rightarrow> (if is_refusal f then fst (upsert_result r p now d) = d else True)
     | Inr xr \<Rightarrow> summary_counts_results (snd xr) (fst (upsert_result r p now d))
         \<and> is_update (pr_id r, rp_asset p) (fst xr) d (fst (upsert_result r p now d)))"
proof (cases "find_row a_id (rp_asset p) (db_assets d)")
  case None
  then show ?thesis using assms by (simp add: upsert_result_def is_refusal_def)
next
  case (Some a)
  have a: "a_id a = rp_asset p" using find_row_Some [OF Some] by simp
  show ?thesis
  proof (cases "a_snapshot a \<noteq> Some (pr_snapshot r)")
    case True
    then show ?thesis using assms by (simp add: upsert_result_def Some is_refusal_def)
  next
    case False
    show ?thesis
    proof (cases "judged_result r a p now d")
      case (Inl e)
      then show ?thesis using assms False by (simp add: upsert_result_def Some is_refusal_def)
    next
      case (Inr row)
      obtain x d1 where st: "store_result row (pr_id r) (a_id a) d = (x, d1)" by (rule prod.exhaust)
      define r1 where "r1 = (if pr_status r = PENDING
          then r\<lparr>pr_status := RUNNING, pr_started := or_else (pr_started r) now\<rparr> else r)"
      define d2 where "d2 = (if pr_status r = PENDING then set_run r1 d1 else d1)"
      have row: "pf_id (row i) = i \<and> pf_run (row i) = pr_id r \<and> pf_asset (row i) = a_id a \<and> pf_status (row i) \<in> set RESULT_STATUSES" for i
        using judged_result_row [OF Inr] by simp
      note w = store_result_wf [OF assms row st]
      have d2: "db_results d2 = db_results d1" by (simp add: d2_def set_run_def)
      then have wf2: "results_wf d2" using w(1) by (simp add: results_wf_def)
      have u: "upsert_result r p now d = (case refresh_run_summary r1 d2 of Inl e \<Rightarrow> (d2, Inl (Raised e)) | Inr (r2, d3) \<Rightarrow> (d3, Inr (x, r2)))"
        by (simp only: upsert_result_def Some option.case if_not_P [OF False] Inr sum.case st prod.case Let_def r1_def d2_def)
      show ?thesis
      proof (cases "refresh_run_summary r1 d2")
        case (Inl e)
        then show ?thesis using wf2 by (simp add: u is_refusal_def)
      next
        case (Inr q)
        obtain r2 d3 where q: "q = (r2, d3)" by (cases q)
        note f = refresh_counts [OF wf2 Inr [unfolded q]]
        have res: "db_results d3 = db_results d1" using f(2) d2 by simp
        then have "results_wf d3" using w(1) by (simp add: results_wf_def)
        moreover have "is_update (pr_id r, rp_asset p) x d d3"
          unfolding is_update_def res a [symmetric]
        proof (intro conjI allI)
          show "filter (\<lambda>y. (pf_run y, pf_asset y) = (pr_id r, a_id a)) (db_results d1) = [x]" by (rule w(2))
          show "j = (pr_id r, a_id a) \<or> filter (\<lambda>y. (pf_run y, pf_asset y) = j) (db_results d1)
                  = filter (\<lambda>y. (pf_run y, pf_asset y) = j) (db_results d)" for j
            using w(3) [of "fst j" "snd j"] by (cases "j = (pr_id r, a_id a)") simp_all
        qed
        ultimately show ?thesis using f(1) by (simp only: u Inr q prod.case sum.case fst_conv snd_conv simp_thms)
      qed
    qed
  qed
qed

text \<open>C12. Storing a result keeps the results valid and is an update: afterwards the run has exactly one result for
  the asset, the one returned; no other run or asset is touched; and the summary saved with the run counts
  exactly the results the run has.  A refused request changes nothing.\<close>

theorem upsert_result_effect:
  assumes "results_wf d"
  shows "results_wf (fst (upsert_result r p now d)) \<and>
    (case snd (upsert_result r p now d) of
       Inl f \<Rightarrow> (if is_refusal f then fst (upsert_result r p now d) = d else True)
     | Inr xr \<Rightarrow> summary_counts_results (snd xr) (fst (upsert_result r p now d))
         \<and> is_update (pr_id r, rp_asset p) (fst xr) d (fst (upsert_result r p now d)))"
  using assms by (rule upsert_result_updates)

definition sample_asset :: asset where
  "sample_asset = \<lparr>a_id = 3, a_snapshot = Some 2, a_target = None, a_name = ''web'', a_class = ''key'', a_type = ''tls_cert'',
     a_bom_ref = ''web-cert'', a_algorithm = ''RSA-2048'', a_family = ''RSA'', a_metadata = []\<rparr>"

definition sample_run :: perf_run where
  "sample_run = \<lparr>pr_id = 5, pr_snapshot = 2, pr_baseline = None, pr_trigger = ''manual'', pr_profile = ''smoke'',
     pr_status = PENDING, pr_thresholds = [], pr_environment = [], pr_summary = [], pr_started = None,
     pr_completed = None, pr_created = 0\<rparr>"

definition sample_payload :: result_payload where
  "sample_payload = \<lparr>rp_asset = 3, rp_compatibility = ''PASS'', rp_negotiated = [],
     rp_metrics = [(''success_count'', PInt 9), (''attempt_count'', PInt 10)], rp_recommendation = None, rp_error = []\<rparr>"

definition sample_perf_db :: db where
  "sample_perf_db = empty_db\<lparr>db_assets := [sample_asset], db_runs := [sample_run]\<rparr>"

theorem upsert_result_effect_witness:
  "is_ok (snd (upsert_result sample_run sample_payload 7 sample_perf_db)) \<and>
   results_wf (fst (upsert_result sample_run sample_payload 7 sample_perf_db)) \<and>
    (case snd (upsert_result sample_run sample_payload 7 sample_perf_db) of
       Inl f \<Rightarrow> (if is_refusal f then fst (upsert_result sample_run sample_payload 7 sample_perf_db) = sample_perf_db else True)
     | Inr xr \<Rightarrow> summary_counts_results (snd xr) (fst (upsert_result sample_run sample_payload 7 sample_perf_db))
         \<and> is_update (pr_id sample_run, rp_asset sample_payload) (fst xr) sample_perf_db
             (fst (upsert_result sample_run sample_payload 7 sample_perf_db)))"
  by (rule conjI, code_simp, rule upsert_result_effect, simp add: results_wf_def sample_perf_db_def empty_db_simps)

end
