(* ===== verification/Performance_Runner.thy ===== *)
theory Performance_Runner
  imports Performance_Service Ip_Address
begin

text \<open>
  \<open>apps/performance/runner.py\<close> and \<open>apps/performance/worker.py\<close>: a run measures every target of its
  snapshot by a number of probes, aggregates the probes of a target into one measurement and stores it as
  a result of each asset of the target.

  What the network and the clock do is the parameter \<open>wire\<close>, one per attempt: the outcome of the
  connection, of the TLS handshake, of each \<open>recv\<close>, and the readings of \<open>perf_counter\<close>.  Every probe is
  the function of it that the code is.  An exception of a probe carries what the code reads of it: its
  kind, class name, message and errno.  Text decoded from bytes that are not ASCII has the replacement
  character, for which the 8-bit characters of the model use 255.
\<close>

section \<open>Exceptions of a probe\<close>

datatype exception_kind =
    Probe_error string
  | Timeout_error
  | Address_error
  | Refused_error
  | Ssl_error
  | Other_exception

record probe_exception =
  px_kind :: exception_kind
  px_class :: string
  px_message :: string
  px_errno :: "int option"

definition probe_error :: "string \<Rightarrow> string \<Rightarrow> probe_exception" where
  "probe_error m code_text =
     \<lparr>px_kind = Probe_error code_text, px_class = ''ProbeError'', px_message = m, px_errno = None\<rparr>"

definition is_timeout :: "probe_exception \<Rightarrow> bool" where
  "is_timeout x = (px_kind x = Timeout_error \<or> contains (lower (px_message x)) ''timed out'')"

definition ECONNREFUSED :: int where
  "ECONNREFUSED = 111"

definition error_code :: "probe_exception \<Rightarrow> string" where
  "error_code x =
     (case px_kind x of
        Probe_error c \<Rightarrow> c
      | Address_error \<Rightarrow> ''dns_resolution_failed''
      | k \<Rightarrow>
          if is_timeout x then ''connection_timeout''
          else if k = Refused_error \<or> px_errno x = Some ECONNREFUSED then ''connection_refused''
          else if k = Ssl_error then ''tls_handshake_failed''
          else ''connection_failed'')"

definition error_message :: "probe_exception \<Rightarrow> string" where
  "error_message x = or_str (strip (px_message x)) (px_class x)"

section \<open>Settings\<close>

definition PROFILE_ATTEMPTS :: "int dict" where
  "PROFILE_ATTEMPTS = [(''smoke'', 1), (''baseline'', 3), (''canary'', 3), (''stress'', 5)]"

definition HTTP_PORTS :: "int list" where
  "HTTP_PORTS = [80, 8080]"

definition TLS_PORTS :: "int list" where
  "TLS_PORTS = [443, 465, 993, 995, 3306, 5000, 6380, 8200, 8443, 8883, 9090, 9093, 9200, 9443, 15017]"

definition SMTP_STARTTLS_PORTS :: "int list" where
  "SMTP_STARTTLS_PORTS = [25, 587]"

definition TESTBED_TARGET_IPS :: "string dict" where
  "TESTBED_TARGET_IPS =
    [(''web.testbed.local'', ''172.31.240.10''),
     (''web-ec.testbed.local'', ''172.31.240.10''),
     (''pqc-tls.testbed.local'', ''172.31.240.11''),
     (''ssh.testbed.local'', ''172.31.240.12''),
     (''mqtt.testbed.local'', ''172.31.240.13''),
     (''ipsec.testbed.local'', ''172.31.240.14''),
     (''mail.testbed.local'', ''172.31.240.15''),
     (''db.testbed.local'', ''172.31.240.16''),
     (''api-gateway.testbed.local'', ''172.31.240.21''),
     (''admin-console.testbed.local'', ''172.31.240.22''),
     (''mobile-api.testbed.local'', ''172.31.240.23''),
     (''auth-oidc.testbed.local'', ''172.31.240.24''),
     (''saml-idp.testbed.local'', ''172.31.240.25''),
     (''mysql-legacy.testbed.local'', ''172.31.240.26''),
     (''redis-cache.testbed.local'', ''172.31.240.27''),
     (''kafka-broker.testbed.local'', ''172.31.240.28''),
     (''internal-grpc.testbed.local'', ''172.31.240.29''),
     (''service-mesh-mtls.testbed.local'', ''172.31.240.30''),
     (''gitlab-runner.testbed.local'', ''172.31.240.31''),
     (''container-registry.testbed.local'', ''172.31.240.32''),
     (''artifact-repo.testbed.local'', ''172.31.240.33''),
     (''vault.testbed.local'', ''172.31.240.34''),
     (''backup-service.testbed.local'', ''172.31.240.35''),
     (''monitoring.testbed.local'', ''172.31.240.36''),
     (''logging.testbed.local'', ''172.31.240.37''),
     (''legacy-java-app.testbed.local'', ''172.31.240.38'')]"

text \<open>The settings are texts of the environment, absent or not.\<close>

definition attempts_for_profile :: "string option \<Rightarrow> string \<Rightarrow> int" where
  "attempts_for_profile configured profile =
     (let preset = dget_or PROFILE_ATTEMPTS profile 1
      in case configured of None \<Rightarrow> preset
         | Some s \<Rightarrow> if s = [] then preset
             else (case py_int (PStr s) of Inr n \<Rightarrow> max 1 (min 20 n) | Inl e \<Rightarrow> preset))"

definition timeout_sec :: "string option \<Rightarrow> pyfloat" where
  "timeout_sec configured =
     (case py_float (PStr (case configured of None \<Rightarrow> ''2.0'' | Some s \<Rightarrow> s)) of
        Inr x \<Rightarrow> fmax (fl (2 / 10)) (fmin (Fin 30) x)
      | Inl e \<Rightarrow> Fin 2)"

section \<open>Targets\<close>

definition target_protocol :: "target \<Rightarrow> string" where
  "target_protocol t =
     (if tg_transport t = ''UDP'' \<and> tg_port t \<in> {500, 4500} then ''IKE''
      else if tg_port t \<in> {22, 2222} then ''SSH''
      else if tg_port t \<in> set HTTP_PORTS then ''HTTP''
      else upper (or_str (tg_protocol_hint t) ''UNKNOWN''))"

definition target_address :: "target \<Rightarrow> string" where
  "target_address t =
     (case tg_ip t of Some (c # cs) \<Rightarrow> c # cs | _ \<Rightarrow> dget_or TESTBED_TARGET_IPS (tg_host t) (tg_host t))"

text \<open>The name sent in the handshake; an address is not sent.\<close>

definition sni :: "target \<Rightarrow> string option" where
  "sni t =
     (let v = (case tg_sni t of Some (c # cs) \<Rightarrow> c # cs | _ \<Rightarrow> tg_host t)
      in if v = [] \<or> parse_ipv4 v \<noteq> None \<or> parse_ipv6_int v \<noteq> None then None else Some v)"

section \<open>Series\<close>

definition elapsed_ms :: "pyfloat \<Rightarrow> pyfloat \<Rightarrow> pyfloat" where
  "elapsed_ms s e = fmul (fsub e s) (Fin 1000)"

text \<open>\<open>sorted\<close> on floats that are no NaN.\<close>

fun insert_float :: "pyfloat \<Rightarrow> pyfloat list \<Rightarrow> pyfloat list" where
  "insert_float x [] = [x]"
| "insert_float x (y # ys) = (if flt x y then x # y # ys else y # insert_float x ys)"

definition sort_floats :: "pyfloat list \<Rightarrow> pyfloat list" where
  "sort_floats xs = fold insert_float xs []"

text \<open>The index \<open>round((n - 1) * p)\<close>, at both ends of the list at most.\<close>

definition percentile_index :: "nat \<Rightarrow> rat \<Rightarrow> nat" where
  "percentile_index n p = min (n - 1) (nat (max 0 (rhe (rnd (of_nat (n - 1) * rnd p)))))"

definition percentile :: "pyfloat list \<Rightarrow> rat \<Rightarrow> pyfloat" where
  "percentile ordered p = ordered ! percentile_index (length ordered) p"

definition series :: "pyfloat list \<Rightarrow> pyval" where
  "series xs =
     (let ordered = sort_floats (map (fround 2) xs)
      in if ordered = [] then PDict [(''p50'', PFloat (Fin 0)), (''p95'', PFloat (Fin 0)), (''samples'', PInt 0)]
         else PDict [(''p50'', PFloat (percentile ordered (1 / 2))), (''p95'', PFloat (percentile ordered (95 / 100))),
                     (''samples'', PInt (int (length ordered)))])"

text \<open>\<open>_series_value\<close>.\<close>

definition sample_value :: "pyval \<Rightarrow> string \<Rightarrow> py_error + pyfloat option" where
  "sample_value v p =
     (case v of
        PDict m \<Rightarrow> if is_number (pget m p) then rmap Some (py_float (pget m p)) else Inr None
      | _ \<Rightarrow> if is_number v then rmap Some (py_float v) else Inr None)"

definition first_text :: "pyval dict list \<Rightarrow> string \<Rightarrow> string" where
  "first_text items k =
     (case List.find (\<lambda>m. truthy (pget m k)) items of None \<Rightarrow> [] | Some m \<Rightarrow> py_str (pget m k))"

section \<open>Probes\<close>

record tls_session =
  ts_version :: "string option"
  ts_cipher :: "string option"

record wire =
  w_clock :: "nat \<Rightarrow> pyfloat"
  w_connect :: "string \<Rightarrow> int \<Rightarrow> probe_exception + unit"
  w_send :: "string \<Rightarrow> probe_exception + unit"
  w_recv :: "nat \<Rightarrow> probe_exception + string"
  w_available :: "nat \<Rightarrow> pyfloat \<times> (pyfloat \<times> (probe_exception + string option)) list"
  w_wrap :: "string option \<Rightarrow> probe_exception + tls_session"
  w_ike :: "bool \<Rightarrow> string \<times> string"
  w_datagram :: "string \<Rightarrow> int \<Rightarrow> string \<Rightarrow> probe_exception + string"

text \<open>\<open>_recv_available\<close> reads until the deadline: each turn of its loop has a reading of the clock and
  what \<open>recv\<close> then does (an exception, no data in time, or a chunk).  The world gives the turns up to the
  deadline as a list, which is finite because the clock advances: the end of the list is the turn whose
  reading is past the deadline, which ends the loop with what was read.\<close>

fun recv_loop ::
  "pyfloat \<Rightarrow> nat \<Rightarrow> (pyfloat \<times> (probe_exception + string option)) list \<Rightarrow> string \<Rightarrow> bool
   \<Rightarrow> probe_exception + string" where
  "recv_loop deadline limit [] got any = Inr got"
| "recv_loop deadline limit ((t, ev) # rest) got any =
     (if \<not> flt t deadline then Inr got
      else (case ev of
              Inl x \<Rightarrow> Inl x
            | Inr None \<Rightarrow> if any then Inr got else recv_loop deadline limit rest got any
            | Inr (Some chunk) \<Rightarrow>
                if chunk = [] then Inr got
                else if limit \<le> length (got @ chunk) then Inr (got @ chunk)
                else recv_loop deadline limit rest (got @ chunk) True))"

definition recv_available :: "wire \<Rightarrow> pyfloat \<Rightarrow> nat \<Rightarrow> nat \<Rightarrow> probe_exception + string" where
  "recv_available w timeout k limit =
     (case w_available w k of
        (start, events) \<Rightarrow>
          recv_loop (fadd start (fmax (if truthy (PFloat timeout) then timeout else fl (1 / 2)) (fl (1 / 2))))
            limit events [] False)"

definition cipher_name :: "tls_session \<Rightarrow> string" where
  "cipher_name s = (case ts_cipher s of None \<Rightarrow> [] | Some c \<Rightarrow> c)"

definition negotiated_tls_algorithm :: "tls_session \<Rightarrow> string" where
  "negotiated_tls_algorithm s =
     take 128 (join '' '' (filter (\<lambda>x. x \<noteq> []) [case ts_version s of None \<Rightarrow> [] | Some v \<Rightarrow> v, cipher_name s]))"

definition tls_metrics :: "string \<Rightarrow> string \<Rightarrow> wire \<Rightarrow> tls_session \<Rightarrow> pyval dict" where
  "tls_metrics protocol response w s =
     [(''protocol'', PStr protocol),
      (''tcp_connect_ms'', series [elapsed_ms (w_clock w 0) (w_clock w 1)]),
      (''handshake_ms'', series [elapsed_ms (w_clock w 1) (w_clock w 2)]),
      (''total_request_ms'', series [elapsed_ms (w_clock w 0) (w_clock w 2)]),
      (''response_code'', PStr response),
      (''tls_version'', opt_str (ts_version s)), (''cipher_suite'', PStr (cipher_name s)),
      (''negotiated_algorithm'', PStr (negotiated_tls_algorithm s))]"

definition probe_tls :: "wire \<Rightarrow> target \<Rightarrow> probe_exception + pyval dict" where
  "probe_tls w t =
     rbind (w_connect w (target_address t) (tg_port t)) (\<lambda>_.
     rbind (w_wrap w (sni t)) (\<lambda>s. Inr (tls_metrics ''TLS'' ''tls_ok'' w s)))"

definition SSL_REQUEST :: string where
  "SSL_REQUEST = map char_of [0 :: int, 0, 0, 8, 4, 210, 22, 47]"

definition probe_postgresql_tls :: "wire \<Rightarrow> target \<Rightarrow> probe_exception + pyval dict" where
  "probe_postgresql_tls w t =
     rbind (w_connect w (target_address t) (tg_port t)) (\<lambda>_.
     rbind (w_send w SSL_REQUEST) (\<lambda>_.
     rbind (w_recv w 0) (\<lambda>response.
       if response \<noteq> ''S''
       then Inl (probe_error ''PostgreSQL server rejected TLS request'' ''postgres_tls_rejected'')
       else rbind (w_wrap w None) (\<lambda>s. Inr (tls_metrics ''TLS'' ''postgres_tls_ok'' w s)))))"

definition crlf :: string where
  "crlf = [CHR 0x0D, CHR 0x0A]"

definition probe_smtp_starttls :: "wire \<Rightarrow> pyfloat \<Rightarrow> target \<Rightarrow> probe_exception + pyval dict" where
  "probe_smtp_starttls w timeout t =
     rbind (w_connect w (target_address t) (tg_port t)) (\<lambda>_.
     rbind (recv_available w timeout 0 512) (\<lambda>_.
     rbind (w_send w (''EHLO pqc-availability.local'' @ crlf)) (\<lambda>_.
     rbind (recv_available w timeout 1 2048) (\<lambda>ehlo.
       if \<not> contains (upper ehlo) ''STARTTLS''
       then Inl (probe_error ''SMTP STARTTLS not advertised'' ''starttls_not_advertised'')
       else
         rbind (w_send w (''STARTTLS'' @ crlf)) (\<lambda>_.
         rbind (recv_available w timeout 2 512) (\<lambda>ready.
           if \<not> startswith ready ''220''
           then Inl (probe_error ''SMTP STARTTLS rejected'' ''starttls_rejected'')
           else rbind (w_wrap w (sni t)) (\<lambda>s. Inr (tls_metrics ''SMTP'' ''starttls_ok'' w s))))))))"

definition decode_ascii :: "string \<Rightarrow> string" where
  "decode_ascii bs = map (\<lambda>c. if code c < 128 then c else CHR 0xFF) bs"

definition probe_ssh :: "wire \<Rightarrow> target \<Rightarrow> probe_exception + pyval dict" where
  "probe_ssh w t =
     rbind (w_connect w (target_address t) (tg_port t)) (\<lambda>_.
     rbind (w_recv w 0) (\<lambda>bs.
       let banner = strip (decode_ascii bs)
       in if \<not> startswith banner ''SSH-''
          then Inl (probe_error ''SSH banner not received'' ''ssh_banner_missing'')
          else Inr
            [(''protocol'', PStr ''SSH''),
             (''tcp_connect_ms'', series [elapsed_ms (w_clock w 0) (w_clock w 1)]),
             (''handshake_ms'', series [elapsed_ms (w_clock w 1) (w_clock w 2)]),
             (''total_request_ms'', series [elapsed_ms (w_clock w 0) (w_clock w 2)]),
             (''response_code'', PStr ''ssh_banner''),
             (''negotiated_algorithm'', PStr (take 128 (hd (split_on (CHR '' '') banner))))]))"

text \<open>\<open>w_ike natt\<close> is the packet of the initiator and its SPI.\<close>

definition probe_ike :: "wire \<Rightarrow> target \<Rightarrow> probe_exception + pyval dict" where
  "probe_ike w t =
     (case w_ike w (tg_port t = 4500) of
        (packet, spi) \<Rightarrow>
          rbind (w_datagram w (target_address t) (tg_port t) packet) (\<lambda>response.
            let offset = (if startswith response (replicate 4 (CHR 0x00)) then 4 else 0)
            in if length response < offset + 28 \<or> take 8 (drop offset response) \<noteq> spi
               then Inl (probe_error ''IKE response mismatch'' ''ike_response_mismatch'')
               else Inr
                 [(''protocol'', PStr ''IKE''),
                  (''handshake_ms'', series [elapsed_ms (w_clock w 0) (w_clock w 1)]),
                  (''total_request_ms'', series [elapsed_ms (w_clock w 0) (w_clock w 1)]),
                  (''response_code'', PStr ''ike_sa_init_response''),
                  (''negotiated_algorithm'', PStr ''IKEv2 SA_INIT'')]))"

definition http_request :: "string \<Rightarrow> string" where
  "http_request host =
     filter (\<lambda>c. code c < 128)
       (''GET / HTTP/1.0'' @ crlf @ ''Host: '' @ host @ crlf @ ''Connection: close'' @ crlf @ crlf)"

definition first_line :: "string \<Rightarrow> string" where
  "first_line bs = decode_ascii (takeWhile (\<lambda>c. c \<noteq> CHR 0x0A \<and> c \<noteq> CHR 0x0D) bs)"

definition probe_http :: "wire \<Rightarrow> target \<Rightarrow> probe_exception + pyval dict" where
  "probe_http w t =
     rbind (w_connect w (target_address t) (tg_port t)) (\<lambda>_.
     rbind (w_send w (http_request (tg_host t))) (\<lambda>_.
     rbind (w_recv w 0) (\<lambda>chunk.
       let line = first_line chunk
       in if \<not> startswith line ''HTTP/''
          then Inl (probe_error ''HTTP response line not received'' ''http_response_missing'')
          else Inr
            [(''protocol'', PStr ''HTTP''),
             (''tcp_connect_ms'', series [elapsed_ms (w_clock w 0) (w_clock w 1)]),
             (''ttfb_ms'', series [elapsed_ms (w_clock w 1) (w_clock w 2)]),
             (''total_request_ms'', series [elapsed_ms (w_clock w 0) (w_clock w 2)]),
             (''response_code'', PStr (take 64 line)), (''negotiated_algorithm'', PStr ''HTTP'')])))"

definition probe_tcp :: "wire \<Rightarrow> target \<Rightarrow> string \<Rightarrow> probe_exception + pyval dict" where
  "probe_tcp w t protocol =
     rbind (w_connect w (target_address t) (tg_port t)) (\<lambda>_. Inr
       [(''protocol'', PStr protocol),
        (''tcp_connect_ms'', series [elapsed_ms (w_clock w 0) (w_clock w 1)]),
        (''handshake_ms'', series [elapsed_ms (w_clock w 0) (w_clock w 1)]),
        (''total_request_ms'', series [elapsed_ms (w_clock w 0) (w_clock w 1)]),
        (''response_code'', PStr ''tcp_connect_ok''), (''negotiated_algorithm'', PStr ''TCP'')])"

definition probe_once :: "wire \<Rightarrow> pyfloat \<Rightarrow> target \<Rightarrow> string \<Rightarrow> probe_exception + pyval dict" where
  "probe_once w timeout t protocol =
     (if tg_transport t = ''UDP'' \<and> protocol = ''IKE'' then probe_ike w t
      else if protocol = ''SSH'' \<or> tg_port t \<in> {22, 2222} then probe_ssh w t
      else if protocol = ''SMTP'' \<and> tg_port t \<in> set SMTP_STARTTLS_PORTS then probe_smtp_starttls w timeout t
      else if tg_port t = 5432 then probe_postgresql_tls w t
      else if protocol = ''HTTP'' \<or> tg_port t \<in> set HTTP_PORTS then probe_http w t
      else if protocol \<in> {''TLS'', ''SMTP'', ''IMAP'', ''POP3''} \<or> tg_port t \<in> set TLS_PORTS then probe_tls w t
      else probe_tcp w t protocol)"

section \<open>Measurements\<close>

record measurement =
  me_compatibility :: string
  me_metrics :: "pyval dict"
  me_negotiated :: string
  me_error :: string

definition series_keys :: "string list" where
  "series_keys = [''tcp_connect_ms'', ''handshake_ms'', ''ttfb_ms'', ''total_request_ms'']"

definition add_series :: "pyval dict list \<Rightarrow> string \<Rightarrow> pyval dict \<Rightarrow> py_error + pyval dict" where
  "add_series successes k m =
     rmap (\<lambda>vs. let values = map the (filter (\<lambda>v. v \<noteq> None) vs)
                in if values = [] then m else dset k (series values) m)
       (rmapM (\<lambda>s. sample_value (pget s k) ''p95'') successes)"

definition add_text :: "pyval dict list \<Rightarrow> string \<Rightarrow> pyval dict \<Rightarrow> pyval dict" where
  "add_text successes k m =
     (let v = first_text successes k in if v = [] then m else dset k (PStr v) m)"

definition merge_success_metrics :: "string \<Rightarrow> pyval dict list \<Rightarrow> py_error + pyval dict" where
  "merge_success_metrics protocol successes =
     (if successes = [] then Inr [(''protocol'', PStr protocol)]
      else rmap (fold (add_text successes) [''response_code'', ''tls_version'', ''cipher_suite''])
        (fold (\<lambda>k r. rbind r (add_series successes k)) series_keys (Inr [(''protocol'', PStr protocol)])))"

definition rate_of :: "nat \<Rightarrow> nat \<Rightarrow> pyval" where
  "rate_of n attempts = PFloat (fround 4 (fl (of_nat n / of_nat attempts)))"

definition count_metrics :: "string \<Rightarrow> nat \<Rightarrow> nat \<Rightarrow> nat \<Rightarrow> pyval dict" where
  "count_metrics protocol successes failures attempts =
     (if protocol = ''IKE''
      then [(''successful_negotiations'', PInt (int successes)), (''failed_negotiations'', PInt (int failures)),
            (''total_negotiations'', PInt (int attempts))]
      else [(''successful_handshakes'', PInt (int successes)), (''failed_handshakes'', PInt (int failures)),
            (''total_handshakes'', PInt (int attempts))])"

definition aggregate_measurements ::
  "string \<Rightarrow> nat \<Rightarrow> pyval dict list \<Rightarrow> probe_exception list \<Rightarrow> py_error + measurement" where
  "aggregate_measurements protocol attempts successes failures =
     rbind (merge_success_metrics protocol successes) (\<lambda>merged.
       let timeouts = length (filter is_timeout failures);
           m = dmerge merged
             ([(''sample_count'', PInt (int attempts)),
               (''failure_rate'', rate_of (length failures) attempts), (''timeout_rate'', rate_of timeouts attempts)]
              @ count_metrics protocol (length successes) (length failures) attempts);
           negotiated = first_text successes ''negotiated_algorithm'';
           failure = (if failures = [] then probe_error ''No probe result'' ''probe_failed'' else last failures)
       in Inr
         (if successes \<noteq> [] then
            \<lparr>me_compatibility = ''PASS'',
             me_metrics = (if failures = [] then m
               else (let m1 = dset ''failure_reason'' (PStr (error_message failure)) m
                     in dset ''response_code'' (py_or (pget m1 ''response_code'') (PStr (error_code failure))) m1)),
             me_negotiated = negotiated, me_error = []\<rparr>
          else
            \<lparr>me_compatibility = (if px_kind failure = Address_error then ''ERROR'' else ''FAIL''),
             me_metrics = dset ''failure_reason'' (PStr (error_message failure))
                            (dset ''response_code'' (PStr (error_code failure)) m),
             me_negotiated = negotiated, me_error = take 255 (error_message failure)\<rparr>))"

text \<open>The outcomes of the attempts, split as the loop of \<open>measure_target\<close> does.\<close>

definition oks :: "('e + 'a) list \<Rightarrow> 'a list" where
  "oks rs = concat (map (\<lambda>r. case r of Inl e \<Rightarrow> [] | Inr x \<Rightarrow> [x]) rs)"

definition errs :: "('e + 'a) list \<Rightarrow> 'e list" where
  "errs rs = concat (map (\<lambda>r. case r of Inl e \<Rightarrow> [e] | Inr x \<Rightarrow> []) rs)"

record runner_env =
  re_samples :: "string option"
  re_timeout :: "string option"
  re_wires :: "int \<Rightarrow> nat \<Rightarrow> wire"

definition probe_outcomes :: "runner_env \<Rightarrow> target \<Rightarrow> string \<Rightarrow> (probe_exception + pyval dict) list" where
  "probe_outcomes env t profile =
     map (\<lambda>k. probe_once (re_wires env (tg_id t) k) (timeout_sec (re_timeout env)) t (target_protocol t))
       [0..<nat (attempts_for_profile (re_samples env) profile)]"

definition measure_target :: "runner_env \<Rightarrow> target \<Rightarrow> string \<Rightarrow> py_error + measurement" where
  "measure_target env t profile =
     (let outcomes = probe_outcomes env t profile
      in aggregate_measurements (target_protocol t) (length outcomes) (oks outcomes) (errs outcomes))"

section \<open>The run\<close>

definition run_assets :: "int \<Rightarrow> db \<Rightarrow> asset list" where
  "run_assets sn d = filter (\<lambda>a. a_snapshot a = Some sn) (db_assets d)"

definition measured_assets :: "int \<Rightarrow> db \<Rightarrow> asset list" where
  "measured_assets sn d =
     sort_key (\<lambda>a. (the (a_target a), a_bom_ref a, a_id a)) (filter (\<lambda>a. a_target a \<noteq> None) (run_assets sn d))"

text \<open>\<open>groupby\<close>: runs of consecutive assets of the same target.\<close>

fun group_by_target :: "asset list \<Rightarrow> (int \<times> asset list) list" where
  "group_by_target [] = []"
| "group_by_target (a # as) =
     (case group_by_target as of
        (t, bs) # gs \<Rightarrow> if the (a_target a) = t then (t, a # bs) # gs else (the (a_target a), [a]) # (t, bs) # gs
      | [] \<Rightarrow> [(the (a_target a), [a])])"

definition measured_payload :: "measurement \<Rightarrow> asset \<Rightarrow> result_payload" where
  "measured_payload x a =
     \<lparr>rp_asset = a_id a, rp_compatibility = me_compatibility x, rp_negotiated = me_negotiated x,
      rp_metrics = me_metrics x, rp_recommendation = None, rp_error = me_error x\<rparr>"

fun store_measurements ::
  "measurement \<Rightarrow> asset list \<Rightarrow> perf_run \<Rightarrow> int \<Rightarrow> db \<Rightarrow> db \<times> (py_error + perf_run)" where
  "store_measurements x [] r now d = (d, Inr r)"
| "store_measurements x (a # as) r now d =
     (case upsert_result r (measured_payload x a) now d of
        (d', Inl f) \<Rightarrow> (d', Inl (as_exception f))
      | (d', Inr (y, r')) \<Rightarrow> store_measurements x as r' now d')"

fun run_groups ::
  "runner_env \<Rightarrow> (int \<times> asset list) list \<Rightarrow> nat \<Rightarrow> perf_run \<Rightarrow> int \<Rightarrow> db \<Rightarrow> db \<times> (py_error + nat \<times> perf_run)" where
  "run_groups env [] failed r now d = (d, Inr (failed, r))"
| "run_groups env ((ti, as) # gs) failed r now d =
     (case rbind (get_row tg_id ti (db_targets d)) (\<lambda>t. measure_target env t (pr_profile r)) of
        Inl e \<Rightarrow> (d, Inl e)
      | Inr x \<Rightarrow>
          (case store_measurements x as r now d of
             (d', Inl e) \<Rightarrow> (d', Inl e)
           | (d', Inr r') \<Rightarrow>
               run_groups env gs (failed + (if me_compatibility x \<in> {''FAIL'', ''ERROR''} then 1 else 0)) r' now d'))"

definition run_summary :: "pyval dict \<Rightarrow> pyval dict option" where
  "run_summary m = Some [(''runner'', PDict m)]"

definition run_performance_run :: "runner_env \<Rightarrow> int \<Rightarrow> int \<Rightarrow> db \<Rightarrow> db \<times> (py_error + pyval dict)" where
  "run_performance_run env i now d =
     (case get_row pr_id i (db_runs d) of
        Inl e \<Rightarrow> (d, Inl e)
      | Inr r0 \<Rightarrow>
          (case update_run_status r0 RUNNING (run_summary [(''state'', PStr ''running'')]) now d of
             (r, d1) \<Rightarrow>
               (let assets = measured_assets (pr_snapshot r) d1; groups = group_by_target assets
                in if assets = [] then
                     (snd (update_run_status r COMPLETED
                        (run_summary [(''state'', PStr ''completed''), (''measured_assets'', PInt 0), (''measured_targets'', PInt 0),
                           (''skipped_assets'', PInt (int (length (run_assets (pr_snapshot r) d1))))]) now d1),
                      Inr [(''run_id'', PInt (pr_id r)), (''measured_assets'', PInt 0), (''measured_targets'', PInt 0)])
                   else
                     (case run_groups env groups 0 r now d1 of
                        (d2, Inl e) \<Rightarrow> (d2, Inl e)
                      | (d2, Inr (failed, r')) \<Rightarrow>
                          (let counts = [(''measured_assets'', PInt (int (length assets))),
                                         (''measured_targets'', PInt (int (length groups))),
                                         (''failed_targets'', PInt (int failed))]
                           in (snd (update_run_status r' COMPLETED (run_summary ((''state'', PStr ''completed'') # counts)) now d2),
                               Inr ((''run_id'', PInt (pr_id r')) # counts)))))))"

section \<open>The worker\<close>

definition claim_performance_run_task :: "int \<Rightarrow> int \<Rightarrow> db \<Rightarrow> py_error + pyval dict option \<times> db" where
  "claim_performance_run_task i now d =
     rbind (lock_task i now d) (\<lambda>lock.
       case lock of None \<Rightarrow> Inr (None, d)
       | Some t \<Rightarrow>
           rbind (payload_int (t_payload t) ''run_id'') (\<lambda>ri.
           rbind (get_row pr_id ri (db_runs d)) (\<lambda>r.
             let d1 = set_task t d
             in Inr (Some (t_payload t),
                  if pr_status r = PENDING
                  then set_run (r\<lparr>pr_status := RUNNING, pr_started := or_else (pr_started r) now,
                                  pr_summary := dset ''runner'' (PDict [(''state'', PStr ''queued'')]) (pr_summary r)\<rparr>) d1
                  else d1))))"

definition run_performance_payload :: "runner_env \<Rightarrow> int \<Rightarrow> pyval dict \<Rightarrow> db \<Rightarrow> db \<times> (py_error + pyval dict)" where
  "run_performance_payload env now payload d =
     (case payload_int payload ''run_id'' of Inl e \<Rightarrow> (d, Inl e) | Inr i \<Rightarrow> run_performance_run env i now d)"

definition complete_performance_run_task :: "int \<Rightarrow> int \<Rightarrow> pyval dict \<Rightarrow> db \<Rightarrow> py_error + pyval dict \<times> db" where
  "complete_performance_run_task i now result d =
     rbind (get_row t_id i (db_tasks d)) (\<lambda>t.
       Inr (result, set_task (t\<lparr>t_status := T_COMPLETED, t_last_error := None\<rparr>) d))"

definition fail_performance_run_task :: "int \<Rightarrow> int \<Rightarrow> py_error \<Rightarrow> db \<Rightarrow> py_error + db" where
  "fail_performance_run_task i now exc d =
     rbind (get_row t_id i (db_tasks d)) (\<lambda>t.
       let d1 = set_task (t\<lparr>t_status := T_FAILED, t_last_error := Some (exc_str exc)\<rparr>) d
       in rbind (payload_int (t_payload t) ''run_id'') (\<lambda>ri.
            case find_row pr_id ri (db_runs d) of None \<Rightarrow> Inr d1
            | Some r \<Rightarrow>
                Inr (snd (update_run_status r FAILED
                  (run_summary [(''state'', PStr ''failed''), (''error'', PStr (take 255 (exc_str exc)))]) now d1))))"

definition process_performance_run_task :: "runner_env \<Rightarrow> int \<Rightarrow> int \<Rightarrow> db \<Rightarrow> db \<times> (py_error + pyval dict)" where
  "process_performance_run_task env i now d =
     run_worker claim_performance_run_task (run_performance_payload env now) complete_performance_run_task
       fail_performance_run_task i now d"

definition process_next_performance_run_task ::
  "runner_env \<Rightarrow> int \<Rightarrow> db \<Rightarrow> db \<times> (py_error + pyval dict option)" where
  "process_next_performance_run_task env now d =
     (case next_task ''performance_run'' now d of None \<Rightarrow> (d, Inr None)
      | Some t \<Rightarrow> (case process_performance_run_task env (t_id t) now d of (d', r) \<Rightarrow> (d', rmap Some r)))"

section \<open>Series\<close>

lemma set_insert_float [simp]: "set (insert_float x ys) = insert x (set ys)"
  by (induction ys) auto

lemma length_insert_float [simp]: "length (insert_float x ys) = Suc (length ys)"
  by (induction ys) auto

lemma sort_floats_elements: "set (sort_floats xs) = set xs \<and> length (sort_floats xs) = length xs"
proof -
  have "set (fold insert_float xs ys) = set xs \<union> set ys \<and> length (fold insert_float xs ys) = length xs + length ys" for ys
    by (induction xs arbitrary: ys) auto
  from this [of "[]"] show ?thesis by (simp add: sort_floats_def)
qed

definition is_fin :: "pyfloat \<Rightarrow> bool" where
  "is_fin x = (case x of Fin a \<Rightarrow> True | _ \<Rightarrow> False)"

lemma is_fin_iff: "is_fin x \<longleftrightarrow> x = Fin (fval x)"
  by (cases x) (simp_all add: is_fin_def)

lemma flt_fin: "is_fin x \<Longrightarrow> is_fin y \<Longrightarrow> flt x y \<longleftrightarrow> fval x < fval y"
  by (cases x; cases y) (simp_all add: is_fin_def)

lemma sorted_insert_float:
  "list_all is_fin ys \<Longrightarrow> is_fin x \<Longrightarrow> sorted (map fval ys) \<Longrightarrow> sorted (map fval (insert_float x ys))"
  by (induction ys) (auto simp: flt_fin list_all_iff)

lemma sorted_sort_floats: "list_all is_fin xs \<Longrightarrow> sorted (map fval (sort_floats xs))"
proof -
  have "list_all is_fin xs \<Longrightarrow> list_all is_fin ys \<Longrightarrow> sorted (map fval ys) \<Longrightarrow> sorted (map fval (fold insert_float xs ys))" for ys
    by (induction xs arbitrary: ys) (simp_all add: sorted_insert_float list_all_iff)
  from this [of "[]"] show "list_all is_fin xs \<Longrightarrow> sorted (map fval (sort_floats xs))" by (simp add: sort_floats_def)
qed

lemma percentile_index_less: "0 < n \<Longrightarrow> percentile_index n p < n"
  by (simp add: percentile_index_def)

lemma percentile_index_mono: "p \<le> q \<Longrightarrow> percentile_index n p \<le> percentile_index n q"
proof -
  assume "p \<le> q"
  then have "rhe (rnd (of_nat (n - 1) * rnd p)) \<le> rhe (rnd (of_nat (n - 1) * rnd q))"
    by (intro rhe_mono rnd_mono mult_left_mono) simp_all
  then show ?thesis unfolding percentile_index_def by (intro min.mono nat_mono max.mono) simp_all
qed

text \<open>A series of samples whose rounded values are finite reports the number of samples, a median and a 95th
  percentile; both are samples rounded to two digits, and the median is at most the percentile.\<close>

theorem series_percentiles:
  assumes "xs \<noteq> []" and "list_all (\<lambda>x. is_fin (fround 2 x)) xs"
  shows "\<exists>a b. series xs = PDict [(''p50'', PFloat (Fin a)), (''p95'', PFloat (Fin b)), (''samples'', PInt (int (length xs)))]
    \<and> a \<le> b \<and> Fin a \<in> fround 2 ` set xs \<and> Fin b \<in> fround 2 ` set xs"
proof -
  let ?o = "sort_floats (map (fround 2) xs)" and ?i = "\<lambda>p. percentile_index (length xs) p"
  have o: "set ?o = fround 2 ` set xs" "length ?o = length xs" using sort_floats_elements [of "map (fround 2) xs"] by auto
  then have fin: "is_fin x" if "x \<in> set ?o" for x using that assms(2) by (auto simp: list_all_iff)
  have i: "?i p < length ?o" for p using assms(1) o(2) by (simp add: percentile_index_less)
  have mem: "?o ! ?i p \<in> set ?o" for p using i by (rule nth_mem)
  have val: "?o ! ?i p = Fin (fval (?o ! ?i p))" for p using fin [OF mem] is_fin_iff by blast
  have s: "sorted (map fval ?o)" using assms(2) by (intro sorted_sort_floats) (simp add: list_all_iff)
  have "?i (1 / 2) \<le> ?i (95 / 100)" by (rule percentile_index_mono) simp
  then have "fval (?o ! ?i (1 / 2)) \<le> fval (?o ! ?i (95 / 100))"
    using sorted_nth_mono [OF s, of "?i (1 / 2)" "?i (95 / 100)"] i by simp
  moreover have "series xs = PDict [(''p50'', PFloat (?o ! ?i (1 / 2))), (''p95'', PFloat (?o ! ?i (95 / 100))), (''samples'', PInt (int (length xs)))]"
    using o assms(1) by (auto simp: series_def Let_def percentile_def)
  ultimately show ?thesis using val mem o(1) by metis
qed

theorem series_percentiles_witness:
  "\<exists>a b. series [Fin 3, Fin 1] = PDict [(''p50'', PFloat (Fin a)), (''p95'', PFloat (Fin b)), (''samples'', PInt (int (length [Fin 3, Fin 1])))]
    \<and> a \<le> b \<and> Fin a \<in> fround 2 ` set [Fin 3, Fin 1] \<and> Fin b \<in> fround 2 ` set [Fin 3, Fin 1]"
  by (rule series_percentiles) (simp, code_simp)

section \<open>A target is always measured\<close>

lemma attempts_range: "1 \<le> attempts_for_profile c p \<and> attempts_for_profile c p \<le> 20"
proof -
  have "1 \<le> dget_or PROFILE_ATTEMPTS p 1 \<and> dget_or PROFILE_ATTEMPTS p 1 \<le> 20"
    by (simp add: PROFILE_ATTEMPTS_def dget_or_def)
  then show ?thesis by (simp add: attempts_for_profile_def Let_def split: option.splits sum.splits)
qed

lemma sample_value_None [simp]: "sample_value PNone p = Inr None"
  by (simp add: sample_value_def is_number_def)

lemma sample_value_series: "is_ok (sample_value (series xs) ''p95'')"
  by (simp add: series_def sample_value_def Let_def pget_def dget_or_def is_number_def)

definition sampled :: "pyval dict \<Rightarrow> bool" where
  "sampled m = list_all (\<lambda>k. is_ok (sample_value (pget m k) ''p95'')) series_keys"

lemmas sampled_simps = sampled_def series_keys_def pget_def dget_or_def sample_value_series

lemma tls_metrics_sampled [simp]: "sampled (tls_metrics p r w s)"
  by (simp add: sampled_simps tls_metrics_def)

lemma probe_tls_sampled: "probe_tls w t = Inr m \<Longrightarrow> sampled m"
  by (auto simp: probe_tls_def rbind_Inr_iff)

lemma probe_postgresql_tls_sampled: "probe_postgresql_tls w t = Inr m \<Longrightarrow> sampled m"
  by (auto simp: probe_postgresql_tls_def rbind_Inr_iff split: if_splits)

lemma probe_smtp_starttls_sampled: "probe_smtp_starttls w timeout t = Inr m \<Longrightarrow> sampled m"
  by (auto simp: probe_smtp_starttls_def rbind_Inr_iff split: if_splits)

lemma probe_ssh_sampled: "probe_ssh w t = Inr m \<Longrightarrow> sampled m"
  by (auto simp: probe_ssh_def rbind_Inr_iff Let_def sampled_simps split: if_splits)

lemma probe_ike_sampled: "probe_ike w t = Inr m \<Longrightarrow> sampled m"
  by (cases "w_ike w (tg_port t = 4500)") (auto simp: probe_ike_def rbind_Inr_iff Let_def sampled_simps split: if_splits)

lemma probe_http_sampled: "probe_http w t = Inr m \<Longrightarrow> sampled m"
  by (auto simp: probe_http_def rbind_Inr_iff Let_def sampled_simps split: if_splits)

lemma probe_tcp_sampled: "probe_tcp w t p = Inr m \<Longrightarrow> sampled m"
  by (auto simp: probe_tcp_def rbind_Inr_iff sampled_simps)

lemmas probes_sampled = probe_tls_sampled probe_postgresql_tls_sampled probe_smtp_starttls_sampled probe_ssh_sampled
  probe_ike_sampled probe_http_sampled probe_tcp_sampled

lemma probe_sampled: "probe_once w timeout t protocol = Inr m \<Longrightarrow> sampled m"
  unfolding probe_once_def by (simp only: split: if_splits) (blast dest: probes_sampled)+

lemma add_series_ok: "list_all sampled ss \<Longrightarrow> k \<in> set series_keys \<Longrightarrow> is_ok (add_series ss k m)"
proof -
  assume a: "list_all sampled ss" "k \<in> set series_keys"
  then have "list_all (\<lambda>s. is_ok (sample_value (pget s k) ''p95'')) ss" by (simp add: list_all_iff sampled_def)
  then have "\<exists>vs. rmapM (\<lambda>s. sample_value (pget s k) ''p95'') ss = Inr vs"
    by (induction ss) (auto simp: is_ok_iff)
  then show "is_ok (add_series ss k m)" by (auto simp: add_series_def)
qed

lemma merge_ok: "list_all sampled ss \<Longrightarrow> is_ok (merge_success_metrics p ss)"
proof -
  assume a: "list_all sampled ss"
  have "set ks \<subseteq> set series_keys \<Longrightarrow> is_ok r \<Longrightarrow> is_ok (fold (\<lambda>k r. rbind r (add_series ss k)) ks r)" for ks r
    using add_series_ok [OF a] by (induction ks arbitrary: r) (auto simp: is_ok_iff)
  from this [of series_keys "Inr [(''protocol'', PStr p)]"]
  obtain x where "fold (\<lambda>k r. rbind r (add_series ss k)) series_keys (Inr [(''protocol'', PStr p)]) = Inr x"
    by (auto simp: is_ok_iff)
  then show ?thesis by (simp add: merge_success_metrics_def)
qed

lemma oks_iff: "x \<in> set (oks rs) \<longleftrightarrow> Inr x \<in> set rs"
  by (induction rs) (auto simp: oks_def split: sum.splits)

lemma oks_errs_length: "length (oks rs) + length (errs rs) = length rs"
  by (induction rs) (auto simp: oks_def errs_def split: sum.splits)

text \<open>C16. Measuring a target never raises, whatever the network does: one to twenty probes are made, the target
  passes when one of them succeeds, and otherwise fails, or is in error when the last probe could not
  resolve the address; the counts of the measurement add up to the number of probes.\<close>

theorem measure_target_verdict:
  "\<exists>m. measure_target env t profile = Inr m
    \<and> me_compatibility m =
        (if oks (probe_outcomes env t profile) \<noteq> [] then ''PASS''
         else if px_kind (last (errs (probe_outcomes env t profile))) = Address_error then ''ERROR'' else ''FAIL'')
    \<and> pget (me_metrics m) ''sample_count'' = PInt (int (length (probe_outcomes env t profile)))
    \<and> 1 \<le> length (probe_outcomes env t profile) \<and> length (probe_outcomes env t profile) \<le> 20"
proof -
  let ?o = "probe_outcomes env t profile" and ?p = "target_protocol t"
  have len: "1 \<le> length ?o" "length ?o \<le> 20"
    using attempts_range [of "re_samples env" profile] by (auto simp: probe_outcomes_def)
  have "list_all sampled (oks ?o)"
    by (auto simp: list_all_iff oks_iff probe_outcomes_def dest!: sym [of "Inr _"] probe_sampled)
  then obtain mm where mm: "merge_success_metrics ?p (oks ?o) = Inr mm" using merge_ok by (auto simp: is_ok_iff)
  define m where "m = dmerge mm
             ([(''sample_count'', PInt (int (length ?o))),
               (''failure_rate'', rate_of (length (errs ?o)) (length ?o)),
               (''timeout_rate'', rate_of (length (filter is_timeout (errs ?o))) (length ?o))]
              @ count_metrics ?p (length (oks ?o)) (length (errs ?o)) (length ?o))"
  have m: "map_of m ''sample_count'' = Some (PInt (int (length ?o)))"
    by (simp add: m_def dmerge_def count_metrics_def dict_simps)
  have e: "errs ?o \<noteq> []" if "oks ?o = []" using len oks_errs_length [of ?o] that by auto
  note eq = aggregate_measurements_def [of ?p "length ?o" "oks ?o" "errs ?o", unfolded mm rbind.simps Let_def, folded m_def]
  show ?thesis
  proof (cases "oks ?o = []")
    case True
    then show ?thesis using len m e eq by (simp add: measure_target_def Let_def pget_def dget_or_def dict_simps)
  next
    case False
    then show ?thesis using len m eq by (simp add: measure_target_def Let_def pget_def dget_or_def dict_simps)
  qed
qed
section \<open>A run measures every asset\<close>

text \<open>What no operation on results touches.\<close>

definition same_frame :: "db \<Rightarrow> db \<Rightarrow> bool" where
  "same_frame d d' = (db_assets d' = db_assets d \<and> db_targets d' = db_targets d \<and> db_tasks d' = db_tasks d
     \<and> map pr_id (db_runs d') = map pr_id (db_runs d))"

lemma same_frame_refl [simp]: "same_frame d d"
  by (simp add: same_frame_def)

lemma same_frame_trans: "same_frame a b \<Longrightarrow> same_frame b c \<Longrightarrow> same_frame a c"
  by (simp add: same_frame_def)

lemma set_run_frame [simp]: "same_frame d (set_run r d)" "db_results (set_run r d) = db_results d"
  by (simp_all add: same_frame_def set_run_def)

lemma update_run_status_frame:
  "update_run_status r s m now d = (r', d') \<Longrightarrow> same_frame d d' \<and> db_results d' = db_results d
     \<and> pr_id r' = pr_id r \<and> pr_snapshot r' = pr_snapshot r \<and> pr_status r' = s \<and> d' = set_run r' d"
  by (cases m) (auto simp: update_run_status_def Let_def)

lemma store_result_frame: "store_result row r a d = (x, d') \<Longrightarrow> same_frame d d'"
  by (auto simp: store_result_def Let_def same_frame_def split: option.splits)

lemma refresh_frame: "refresh_run_summary r d = Inr (r', d') \<Longrightarrow> same_frame d d' \<and> pr_id r' = pr_id r \<and> pr_snapshot r' = pr_snapshot r"
  by (auto simp: refresh_run_summary_def Let_def res_simps)

lemma upsert_frame:
  "same_frame d (fst (upsert_result r p now d)) \<and>
   (case snd (upsert_result r p now d) of Inl f \<Rightarrow> True | Inr xr \<Rightarrow> pr_id (snd xr) = pr_id r \<and> pr_snapshot (snd xr) = pr_snapshot r)"
proof (cases "find_row a_id (rp_asset p) (db_assets d)")
  case (Some a)
  show ?thesis
  proof (cases "a_snapshot a \<noteq> Some (pr_snapshot r)")
    case False
    show ?thesis
    proof (cases "judged_result r a p now d")
      case (Inr row)
      obtain x d1 where st: "store_result row (pr_id r) (a_id a) d = (x, d1)" by (rule prod.exhaust)
      define r1 where "r1 = (if pr_status r = PENDING
          then r\<lparr>pr_status := RUNNING, pr_started := or_else (pr_started r) now\<rparr> else r)"
      define d2 where "d2 = (if pr_status r = PENDING then set_run r1 d1 else d1)"
      have f: "same_frame d d2" using store_result_frame [OF st] same_frame_trans [of d d1 "set_run r1 d1"] by (simp add: d2_def)
      have u: "upsert_result r p now d = (case refresh_run_summary r1 d2 of Inl e \<Rightarrow> (d2, Inl (Raised e)) | Inr (r2, d3) \<Rightarrow> (d3, Inr (x, r2)))"
        by (simp only: upsert_result_def Some option.case if_not_P [OF False] Inr sum.case st prod.case Let_def r1_def d2_def)
      have p: "pr_id r1 = pr_id r" "pr_snapshot r1 = pr_snapshot r" by (simp_all add: r1_def)
      show ?thesis
      proof (cases "refresh_run_summary r1 d2")
        case (Inl e)
        then show ?thesis using f by (simp add: u)
      next
        case (Inr q)
        obtain r2 d3 where q: "q = (r2, d3)" by (cases q)
        note g = refresh_frame [OF Inr [unfolded q]]
        have "same_frame d d3" using same_frame_trans [OF f] g by blast
        then show ?thesis using g p by (simp add: u Inr q)
      qed
    qed (simp add: upsert_result_def Some False)
  qed (simp add: upsert_result_def Some)
qed (simp add: upsert_result_def)

text \<open>The assets that have exactly one result in a run.\<close>

definition measured_once :: "int \<Rightarrow> db \<Rightarrow> int \<Rightarrow> bool" where
  "measured_once i d a = (length (filter (\<lambda>y. (pf_run y, pf_asset y) = (i, a)) (db_results d)) = 1)"

lemma is_update_once:
  assumes "is_update k x d d'" and "measured_once i d b \<or> (i, b) = k"
  shows "measured_once i d' b"
proof (cases "(i, b) = k")
  case True
  then show ?thesis using assms(1) unfolding is_update_def measured_once_def by simp
next
  case False
  have "(i, b) = k \<or> filter (\<lambda>y. (pf_run y, pf_asset y) = (i, b)) (db_results d') = filter (\<lambda>y. (pf_run y, pf_asset y) = (i, b)) (db_results d)"
    using assms(1) unfolding is_update_def by blast
  then have "filter (\<lambda>y. (pf_run y, pf_asset y) = (i, b)) (db_results d') = filter (\<lambda>y. (pf_run y, pf_asset y) = (i, b)) (db_results d)"
    using False by (elim disjE) simp
  then show ?thesis using assms(2) False unfolding measured_once_def by (simp only: simp_thms)
qed

lemma measured_payload_asset [simp]: "rp_asset (measured_payload x a) = a_id a"
  by (simp add: measured_payload_def)

lemma store_measurements_covers:
  assumes "store_measurements x as r now d = (d', Inr r')" and "results_wf d"
  shows "results_wf d' \<and> same_frame d d' \<and> pr_id r' = pr_id r \<and> pr_snapshot r' = pr_snapshot r
    \<and> (\<forall>a. measured_once (pr_id r) d a \<or> a \<in> a_id ` set as \<longrightarrow> measured_once (pr_id r) d' a)"
  using assms
proof (induction x as r now d rule: store_measurements.induct)
  case (2 x a as r now d)
  let ?p = "measured_payload x a"
  obtain d1 q where u: "upsert_result r ?p now d = (d1, q)" by (rule prod.exhaust)
  obtain y r1 where q: "q = Inr (y, r1)" using 2(2) u by (cases q) auto
  have s: "store_measurements x as r1 now d1 = (d', Inr r')" using 2(2) by (simp add: u q)
  have w: "results_wf d1 \<and> is_update (pr_id r, a_id a) y d d1"
    using upsert_result_updates [OF 2(3), of r ?p now] by (simp add: u q)
  have f: "same_frame d d1" "pr_id r1 = pr_id r" "pr_snapshot r1 = pr_snapshot r"
    using upsert_frame [of d r ?p now] by (simp_all add: u q)
  have m: "measured_once (pr_id r) d1 b" if "measured_once (pr_id r) d b \<or> b = a_id a" for b
    using is_update_once [OF conjunct2 [OF w], of "pr_id r" b] that by blast
  note ih = 2(1) [OF u [symmetric] q refl s]
  have i: "results_wf d' \<and> same_frame d1 d' \<and> pr_id r' = pr_id r1 \<and> pr_snapshot r' = pr_snapshot r1
      \<and> (\<forall>a. measured_once (pr_id r1) d1 a \<or> a \<in> a_id ` set as \<longrightarrow> measured_once (pr_id r1) d' a)"
    using ih w by blast
  have "same_frame d d'" using same_frame_trans [OF f(1)] i by blast
  then show ?case using i f(2,3) m by (simp only: set_simps image_insert insert_iff) blast
qed simp

lemma group_by_target_concat: "concat (map snd (group_by_target as)) = as"
  by (induction as rule: group_by_target.induct) (auto split: list.splits)

lemma run_groups_covers:
  assumes "run_groups env gs failed r now d = (d', Inr (f', r'))" and "results_wf d"
  shows "results_wf d' \<and> same_frame d d' \<and> pr_id r' = pr_id r \<and> pr_snapshot r' = pr_snapshot r
    \<and> (\<forall>a. measured_once (pr_id r) d a \<or> a \<in> a_id ` set (concat (map snd gs)) \<longrightarrow> measured_once (pr_id r) d' a)"
  using assms
proof (induction env gs failed r now d rule: run_groups.induct)
  case (2 env ti as gs failed r now d)
  obtain x where x: "rbind (get_row tg_id ti (db_targets d)) (\<lambda>t. measure_target env t (pr_profile r)) = Inr x"
    using 2(2) by (cases "rbind (get_row tg_id ti (db_targets d)) (\<lambda>t. measure_target env t (pr_profile r))") auto
  obtain d1 q where u: "store_measurements x as r now d = (d1, q)" by (rule prod.exhaust)
  obtain r1 where q: "q = Inr r1" using 2(2) x u by (cases q) auto
  have s: "run_groups env gs (failed + (if me_compatibility x \<in> {''FAIL'', ''ERROR''} then 1 else 0)) r1 now d1 = (d', Inr (f', r'))"
    using 2(2) by (simp add: x u q)
  have c: "results_wf d1 \<and> same_frame d d1 \<and> pr_id r1 = pr_id r \<and> pr_snapshot r1 = pr_snapshot r
      \<and> (\<forall>a. measured_once (pr_id r) d a \<or> a \<in> a_id ` set as \<longrightarrow> measured_once (pr_id r) d1 a)"
    using store_measurements_covers [OF u [unfolded q] 2(3)] .
  note ih = 2(1) [OF x u [symmetric] q s]
  have i: "results_wf d' \<and> same_frame d1 d' \<and> pr_id r' = pr_id r1 \<and> pr_snapshot r' = pr_snapshot r1
      \<and> (\<forall>a. measured_once (pr_id r1) d1 a \<or> a \<in> a_id ` set (concat (map snd gs)) \<longrightarrow> measured_once (pr_id r1) d' a)"
    using ih c by blast
  have "same_frame d d'" using same_frame_trans [of d d1 d'] c i by blast
  moreover have "a_id ` set (concat (map snd ((ti, as) # gs))) = a_id ` set as \<union> a_id ` set (concat (map snd gs))"
    by (simp add: image_Un)
  ultimately show ?case using i c by (simp only: Un_iff) blast
qed simp

text \<open>The assets a run has to measure: those of its snapshot that have a target.\<close>

definition due_assets :: "int \<Rightarrow> db \<Rightarrow> asset list" where
  "due_assets i d =
     (case find_row pr_id i (db_runs d) of None \<Rightarrow> []
      | Some r \<Rightarrow> filter (\<lambda>a. a_target a \<noteq> None) (run_assets (pr_snapshot r) d))"

lemma run_performance_run_covers:
  assumes "results_wf d" and "run_performance_run env i now d = (d', Inr res)"
  shows "list_all (\<lambda>a. measured_once i d' (a_id a)) (due_assets i d) \<and> results_wf d' \<and> same_frame d d'
    \<and> map_option pr_status (find_row pr_id i (db_runs d')) = Some COMPLETED"
proof -
  obtain r0 where r0: "get_row pr_id i (db_runs d) = Inr r0"
    using assms(2) by (cases "get_row pr_id i (db_runs d)") (simp_all add: run_performance_run_def)
  then have row: "find_row pr_id i (db_runs d) = Some r0" "pr_id r0 = i" by (auto simp: get_row_Inr dest: find_row_Some)
  obtain r d1 where st: "update_run_status r0 RUNNING (run_summary [(''state'', PStr ''running'')]) now d = (r, d1)"
    by (rule prod.exhaust)
  have f1: "same_frame d d1" "db_results d1 = db_results d" "pr_id r = i" "pr_snapshot r = pr_snapshot r0"
    using update_run_status_frame [OF st] row(2) by simp_all
  have wf1: "results_wf d1" using assms(1) f1(2) by (simp add: results_wf_def)
  have due: "set (due_assets i d) = set (measured_assets (pr_snapshot r) d1)"
    using f1 by (simp add: due_assets_def row measured_assets_def run_assets_def same_frame_def)
  have final: "map_option pr_status (find_row pr_id i (db_runs d3)) = Some COMPLETED \<and> same_frame d d3 \<and> db_results d3 = db_results d2"
    if "update_run_status r2 COMPLETED m now d2 = (r3, d3)" "same_frame d d2" "pr_id r2 = i" for r2 m d2 r3 d3
  proof -
    note u = update_run_status_frame [OF that(1)]
    have "i \<in> pr_id ` set (db_runs d2)" using that(2) row(1) by (metis find_row_None option.distinct(1) same_frame_def set_map)
    then have "find_row pr_id i (db_runs d2) \<noteq> None" by (simp add: find_row_None)
    then have "find_row pr_id i (db_runs d3) = Some r3" using u that(3) by (simp add: set_run_def find_put)
    moreover have "same_frame d d3" using same_frame_trans [OF that(2)] u by blast
    ultimately show ?thesis using u by simp
  qed
  show ?thesis
  proof (cases "measured_assets (pr_snapshot r) d1 = []")
    case True
    obtain r3 d3 where e: "update_run_status r COMPLETED
        (run_summary [(''state'', PStr ''completed''), (''measured_assets'', PInt 0), (''measured_targets'', PInt 0),
           (''skipped_assets'', PInt (int (length (run_assets (pr_snapshot r) d1))))]) now d1 = (r3, d3)" by (rule prod.exhaust)
    have "d' = d3"
      using assms(2) unfolding run_performance_run_def r0 sum.case st prod.case Let_def if_P [OF True] e by simp
    moreover have "due_assets i d = []" using due True by simp
    ultimately show ?thesis using final [OF e f1(1,3)] wf1 by (simp add: results_wf_def)
  next
    case False
    obtain d2 q where g: "run_groups env (group_by_target (measured_assets (pr_snapshot r) d1)) 0 r now d1 = (d2, q)"
      by (rule prod.exhaust)
    note eq = assms(2) [unfolded run_performance_run_def r0 sum.case st prod.case Let_def if_not_P [OF False] g]
    obtain k r2 where q: "q = Inr (k, r2)" using eq by (cases q) auto
    note c = run_groups_covers [OF g [unfolded q] wf1, unfolded group_by_target_concat]
    define counts where "counts = [(''measured_assets'', PInt (int (length (measured_assets (pr_snapshot r) d1)))),
        (''measured_targets'', PInt (int (length (group_by_target (measured_assets (pr_snapshot r) d1))))),
        (''failed_targets'', PInt (int k))]"
    obtain r3 d3 where e: "update_run_status r2 COMPLETED (run_summary ((''state'', PStr ''completed'') # counts)) now d2 = (r3, d3)"
      by (rule prod.exhaust)
    have d': "d' = d3" using eq unfolding q sum.case prod.case counts_def [symmetric] e by simp
    have f2: "same_frame d d2" "pr_id r2 = i" using c f1 same_frame_trans [OF f1(1)] by auto
    have "list_all (\<lambda>a. measured_once i d2 (a_id a)) (due_assets i d)"
      using c by (auto simp: list_all_iff due f1(3))
    then show ?thesis using final [OF e f2] c by (simp add: d' results_wf_def measured_once_def)
  qed
qed

lemma store_measurements_wf:
  "results_wf d \<Longrightarrow> results_wf (fst (store_measurements x as r now d)) \<and> same_frame d (fst (store_measurements x as r now d))"
proof (induction x as r now d rule: store_measurements.induct)
  case (2 x a as r now d)
  let ?p = "measured_payload x a"
  obtain d1 q where u: "upsert_result r ?p now d = (d1, q)" by (rule prod.exhaust)
  have w: "results_wf d1" "same_frame d d1"
    using upsert_result_updates [OF 2(2), of r ?p now] upsert_frame [of d r ?p now] by (simp_all add: u)
  show ?case
  proof (cases q)
    case (Inr yr)
    obtain y r1 where yr: "yr = (y, r1)" by (cases yr)
    show ?thesis using 2(1) [OF u [symmetric] Inr yr [symmetric] w(1)] same_frame_trans [OF w(2)] by (simp add: u Inr yr)
  qed (use w in \<open>simp add: u\<close>)
qed simp

lemma run_groups_wf:
  "results_wf d \<Longrightarrow> results_wf (fst (run_groups env gs failed r now d)) \<and> same_frame d (fst (run_groups env gs failed r now d))"
proof (induction env gs failed r now d rule: run_groups.induct)
  case (2 env ti as gs failed r now d)
  show ?case
  proof (cases "rbind (get_row tg_id ti (db_targets d)) (\<lambda>t. measure_target env t (pr_profile r))")
    case (Inr x)
    obtain d1 q where u: "store_measurements x as r now d = (d1, q)" by (rule prod.exhaust)
    have w: "results_wf d1" "same_frame d d1" using store_measurements_wf [OF 2(2), of x as r now] by (simp_all add: u)
    show ?thesis
    proof (cases q)
      case q: (Inr r1)
      show ?thesis using 2(1) [OF Inr u [symmetric] q w(1)] same_frame_trans [OF w(2)] by (simp add: Inr u q)
    qed (use w in \<open>simp add: Inr u\<close>)
  qed (use 2(2) in simp)
qed simp

lemma run_performance_run_wf:
  assumes "results_wf d"
  shows "results_wf (fst (run_performance_run env i now d)) \<and> same_frame d (fst (run_performance_run env i now d))"
proof (cases "run_performance_run env i now d")
  case (Pair d' q)
  show ?thesis
  proof (cases q)
    case (Inr res)
    then show ?thesis using run_performance_run_covers [OF assms] Pair by auto
  next
    case q: (Inl e)
    show ?thesis
    proof (cases "get_row pr_id i (db_runs d)")
      case (Inr r0)
      obtain r d1 where st: "update_run_status r0 RUNNING (run_summary [(''state'', PStr ''running'')]) now d = (r, d1)"
        by (rule prod.exhaust)
      have d1: "results_wf d1" "same_frame d d1" using update_run_status_frame [OF st] assms by (simp_all add: results_wf_def)
      note eq = Pair [unfolded run_performance_run_def Inr sum.case st prod.case Let_def q]
      show ?thesis
      proof (cases "measured_assets (pr_snapshot r) d1 = []")
        case True
        then show ?thesis using eq by simp
      next
        case False
        obtain d2 x where g: "run_groups env (group_by_target (measured_assets (pr_snapshot r) d1)) 0 r now d1 = (d2, x)"
          by (rule prod.exhaust)
        have "d' = d2" using eq [unfolded if_not_P [OF False] g prod.case] by (cases x) (auto split: prod.splits)
        then show ?thesis
          using run_groups_wf [OF d1(1), of env _ 0 r now] same_frame_trans [OF d1(2)] g Pair by (metis fst_conv)
      qed
    qed (use Pair assms in \<open>simp add: run_performance_run_def\<close>)
  qed
qed

text \<open>C11. A run keeps the results valid and leaves the inventory and the queue alone, whether it returns or raises;
  when it returns, it is completed and every asset of its snapshot that has a target has exactly one result
  in it.\<close>

theorem performance_run_covers:
  assumes "results_wf d"
  shows "case run_performance_run env i now d of (d', outcome) \<Rightarrow>
    results_wf d' \<and> same_frame d d' \<and>
    (case outcome of Inl e \<Rightarrow> True
     | Inr res \<Rightarrow> list_all (\<lambda>a. measured_once i d' (a_id a)) (due_assets i d)
         \<and> map_option pr_status (find_row pr_id i (db_runs d')) = Some COMPLETED)"
proof (cases "run_performance_run env i now d")
  case (Pair d' q)
  then show ?thesis
    using run_performance_run_wf [OF assms, of env i now] run_performance_run_covers [OF assms, of env i now d']
    by (cases q) auto
qed
section \<open>The worker\<close>

lemma task_of_set_run [simp]: "task_of (set_run r d) k = task_of d k"
  by (simp add: set_run_def)

lemma task_of_update_run_status [simp]: "task_of (snd (update_run_status r s m now d)) k = task_of d k"
  by (cases m) (simp_all add: update_run_status_def Let_def)

lemma tasks_update_run_status: "update_run_status r s m now d = (r', d') \<Longrightarrow> db_tasks d' = db_tasks d"
  by (auto simp: update_run_status_def Let_def set_run_def)

lemma claim_performance_locks:
  assumes "task_of d i = Some t" and "t_status t = T_QUEUED" and "claim_performance_run_task i now d = Inr (p, d')"
  shows "\<exists>t'. task_of d' i = Some t' \<and> t_attempts t' = t_attempts t + 1
           \<and> t_status t' = (if p = None then T_CANCELLED else T_RUNNING)"
  using assms by (auto simp: claim_performance_run_task_def lock_task_cases [OF assms(1)] Let_def res_simps row_simps)

lemma fail_performance_ends:
  assumes "task_of d i = Some t" and "fail_performance_run_task i now e d = Inr d'"
  shows "\<exists>t'. task_of d' i = Some t' \<and> t_attempts t' = t_attempts t \<and> t_status t' = T_FAILED"
  using assms by (auto simp: fail_performance_run_task_def Let_def res_simps row_simps split: option.splits)

interpretation performance: queue_worker claim_performance_run_task complete_performance_run_task fail_performance_run_task
proof
  fix d i t now
  assume t: "task_of d i = Some t"
  show "t_status t = T_CANCELLED \<Longrightarrow> claim_performance_run_task i now d = Inr (None, d)"
    and "t_status t \<notin> {T_CANCELLED, T_QUEUED} \<Longrightarrow>
         claim_performance_run_task i now d = Inl (ValueError (''QueuedTask '' @ str_int i @ '' is not queued''))"
    by (simp_all add: claim_performance_run_task_def lock_task_cases [OF t])
  show "complete_performance_run_task i now r d = Inr (r', d') \<Longrightarrow>
       \<exists>t'. task_of d' i = Some t' \<and> t_attempts t' = t_attempts t \<and> t_status t' \<in> {T_COMPLETED, T_CANCELLED}" for r r' d'
    using t by (auto simp: complete_performance_run_task_def res_simps row_simps)
qed (use claim_performance_locks fail_performance_ends in blast)+

lemma tasks_store_measurements: "db_tasks (fst (store_measurements x as r now d)) = db_tasks d"
proof (induction x as r now d rule: store_measurements.induct)
  case (2 x a as r now d)
  obtain d1 q where u: "upsert_result r (measured_payload x a) now d = (d1, q)" by (rule prod.exhaust)
  have "db_tasks d1 = db_tasks d" using upsert_frame [of d r "measured_payload x a" now] by (simp add: u same_frame_def)
  then show ?case using 2(1) [OF u [symmetric]] by (cases q) (auto simp: u)
qed simp

lemma tasks_run_groups: "db_tasks (fst (run_groups env gs failed r now d)) = db_tasks d"
proof (induction env gs failed r now d rule: run_groups.induct)
  case (2 env ti as gs failed r now d)
  show ?case
  proof (cases "rbind (get_row tg_id ti (db_targets d)) (\<lambda>t. measure_target env t (pr_profile r))")
    case (Inr x)
    obtain d1 q where u: "store_measurements x as r now d = (d1, q)" by (rule prod.exhaust)
    have "db_tasks d1 = db_tasks d" using tasks_store_measurements [of x as r now d] by (simp add: u)
    then show ?thesis using 2(1) [OF Inr u [symmetric]] by (cases q) (simp_all add: Inr u)
  qed simp
qed simp

lemma tasks_run_performance_run: "db_tasks (fst (run_performance_run env i now d)) = db_tasks d"
proof (cases "get_row pr_id i (db_runs d)")
  case (Inr r0)
  obtain r d1 where st: "update_run_status r0 RUNNING (run_summary [(''state'', PStr ''running'')]) now d = (r, d1)"
    by (rule prod.exhaust)
  have u: "db_tasks (snd (update_run_status a s m now b)) = db_tasks b" for a s m b
    using tasks_update_run_status [of a s m now b] by (cases "update_run_status a s m now b") simp
  have d1: "db_tasks d1 = db_tasks d" using tasks_update_run_status [OF st] .
  show ?thesis
  proof (cases "measured_assets (pr_snapshot r) d1 = []")
    case True
    show ?thesis unfolding run_performance_run_def Inr sum.case st prod.case Let_def if_P [OF True] fst_conv u d1 ..
  next
    case False
    obtain d2 q where g: "run_groups env (group_by_target (measured_assets (pr_snapshot r) d1)) 0 r now d1 = (d2, q)"
      by (rule prod.exhaust)
    have d2: "db_tasks d2 = db_tasks d" using tasks_run_groups [of env _ 0 r now d1] d1 g by (metis fst_conv)
    show ?thesis
      unfolding run_performance_run_def Inr sum.case st prod.case Let_def if_not_P [OF False] g
      by (cases q) (auto simp: u d2 split: prod.split)
  qed
qed (simp add: run_performance_run_def)

lemma run_performance_keeps_task: "keeps_task (run_performance_payload env now) i"
  by (simp add: keeps_task_def run_performance_payload_def tasks_run_performance_run split: sum.split)

text \<open>A performance task runs at most once: when its processing returns, the task is completed or cancelled with
  exactly one more attempt, and processing it again, at any time, changes nothing.\<close>

theorem performance_runs_once:
  assumes "task_of d i = Some t" and "t_status t = T_QUEUED"
    and "process_performance_run_task env i now d = (d', Inr r)"
  shows "(\<exists>t'. task_of d' i = Some t' \<and> t_attempts t' = t_attempts t + 1 \<and> t_status t' \<in> {T_COMPLETED, T_CANCELLED})
    \<and> fst (process_performance_run_task env i later d') = d'"
  using performance.return_ends [OF assms(1,2) run_performance_keeps_task assms(3) [unfolded process_performance_run_task_def]]
    performance.at_most_once [OF assms(1,2) run_performance_keeps_task assms(3) [unfolded process_performance_run_task_def]]
  by (simp add: process_performance_run_task_def)

text \<open>A task whose run is gone blocks the queue: the claim raises and is rolled back, so the database is as
  before and the same task is picked again the next time.\<close>

theorem missing_run_blocks_queue:
  assumes "next_task ''performance_run'' now d = Some t" and "task_of d (t_id t) = Some t"
    and "payload_int (t_payload t) ''run_id'' = Inr ri" and "find_row pr_id ri (db_runs d) = None"
  shows "process_next_performance_run_task env now d = (d, Inl (DoesNotExist ''matching query does not exist.''))"
proof -
  have "t \<in> set (ready_tasks ''performance_run'' now d)" using assms(1) by (auto simp: next_task_def dest: first_by_Some)
  then have q: "t_status t = T_QUEUED" by (simp add: ready_tasks_def)
  have "claim_performance_run_task (t_id t) now d = Inl (DoesNotExist ''matching query does not exist.'')"
    using assms(3,4) by (simp add: claim_performance_run_task_def lock_task_cases [OF assms(2)] q get_row_def)
  then show ?thesis using assms(1) by (simp add: process_next_performance_run_task_def process_performance_run_task_def run_worker_def)
qed

section \<open>Rows for the witnesses\<close>

definition sample_wire :: wire where
  "sample_wire = \<lparr>w_clock = (\<lambda>k. Fin (of_nat k)), w_connect = (\<lambda>h p. Inr ()), w_send = (\<lambda>bs. Inr ()), w_recv = (\<lambda>k. Inr ''S''),
     w_available = (\<lambda>k. (Fin 0, [])), w_wrap = (\<lambda>n. Inr \<lparr>ts_version = Some ''TLSv1.3'', ts_cipher = None\<rparr>),
     w_ike = (\<lambda>b. ([], [])), w_datagram = (\<lambda>h p bs. Inr [])\<rparr>"

definition sample_env :: runner_env where
  "sample_env = \<lparr>re_samples = Some ''1'', re_timeout = None, re_wires = (\<lambda>i k. sample_wire)\<rparr>"

theorem missing_run_blocks_queue_witness:
  "let d = empty_db\<lparr>db_tasks := [sample_task ''performance_run'' [(''run_id'', PInt 2)]]\<rparr>
   in process_next_performance_run_task sample_env 5 d = (d, Inl (DoesNotExist ''matching query does not exist.''))"
  unfolding Let_def
  by (rule missing_run_blocks_queue [where t = "sample_task ''performance_run'' [(''run_id'', PInt 2)]" and ri = 2])
    (simp_all add: next_task_def ready_tasks_def sample_task_def first_by_def find_row_Cons payload_int_def dget_def int_of_val_def empty_db_simps)

definition sample_runner_db :: db where
  "sample_runner_db = empty_db\<lparr>db_targets := [sample_target], db_assets := [sample_asset\<lparr>a_target := Some 6\<rparr>], db_runs := [sample_run]\<rparr>"

definition sample_empty_run_db :: db where
  "sample_empty_run_db = empty_db\<lparr>db_runs := [sample_run], db_tasks := [sample_task ''performance_run'' [(''run_id'', PInt 5)]]\<rparr>"

lemma sample_process_returns: "is_ok (snd (process_performance_run_task sample_env 9 7 sample_empty_run_db))"
  by code_simp

theorem performance_runs_once_witness:
  "let d' = fst (process_performance_run_task sample_env 9 7 sample_empty_run_db)
   in (\<exists>t'. task_of d' 9 = Some t' \<and> t_attempts t' = t_attempts (sample_task ''performance_run'' [(''run_id'', PInt 5)]) + 1
         \<and> t_status t' \<in> {T_COMPLETED, T_CANCELLED})
    \<and> fst (process_performance_run_task sample_env 9 60 d') = d'"
proof -
  obtain d' x where p: "process_performance_run_task sample_env 9 7 sample_empty_run_db = (d', x)" by (rule prod.exhaust)
  then obtain r where x: "x = Inr r" using sample_process_returns by (auto simp: is_ok_iff)
  have "task_of sample_empty_run_db 9 = Some (sample_task ''performance_run'' [(''run_id'', PInt 5)])"
    by (simp add: sample_empty_run_db_def find_row_Cons)
  from performance_runs_once [OF this _ p [unfolded x]] show ?thesis by (simp add: p)
qed

theorem performance_run_covers_witness:
  "case run_performance_run sample_env 5 7 sample_runner_db of (d', outcome) \<Rightarrow>
    results_wf d' \<and> same_frame sample_runner_db d' \<and>
    (case outcome of Inl e \<Rightarrow> True
     | Inr res \<Rightarrow> list_all (\<lambda>a. measured_once 5 d' (a_id a)) (due_assets 5 sample_runner_db)
         \<and> map_option pr_status (find_row pr_id 5 (db_runs d')) = Some COMPLETED)"
  by (rule performance_run_covers) (simp add: results_wf_def sample_runner_db_def empty_db_simps)

end
