(* ===== verification/Sha256.thy ===== *)
theory Sha256
  imports Prelude "HOL-Library.Word"
begin

text \<open>
  SHA-256 on bytes, as \<open>hashlib.sha256\<close> computes it (FIPS 180-4), over 32-bit words, and the hexadecimal
  digest.  \<open>stable_bom_ref\<close> of \<open>apps/jobs/scan_assets.py\<close> names assets by it.  A byte is a character;
  \<open>utf8\<close> encodes a text of the model's characters.
\<close>

unbundle bit_operations_syntax

type_synonym w32 = "32 word"

definition round_constants :: "w32 list" where
  "round_constants =
     [1116352408, 1899447441, 3049323471, 3921009573, 961987163, 1508970993, 2453635748, 2870763221,
      3624381080, 310598401, 607225278, 1426881987, 1925078388, 2162078206, 2614888103, 3248222580,
      3835390401, 4022224774, 264347078, 604807628, 770255983, 1249150122, 1555081692, 1996064986,
      2554220882, 2821834349, 2952996808, 3210313671, 3336571891, 3584528711, 113926993, 338241895,
      666307205, 773529912, 1294757372, 1396182291, 1695183700, 1986661051, 2177026350, 2456956037,
      2730485921, 2820302411, 3259730800, 3345764771, 3516065817, 3600352804, 4094571909, 275423344,
      430227734, 506948616, 659060556, 883997877, 958139571, 1322822218, 1537002063, 1747873779,
      1955562222, 2024104815, 2227730452, 2361852424, 2428436474, 2756734187, 3204031479, 3329325298]"

definition initial_hash :: "w32 list" where
  "initial_hash =
     [1779033703, 3144134277, 1013904242, 2773480762, 1359893119, 2600822924, 528734635, 1541459225]"

definition small_sigma0 :: "w32 \<Rightarrow> w32" where
  "small_sigma0 x = word_rotr 7 x XOR word_rotr 18 x XOR drop_bit 3 x"

definition small_sigma1 :: "w32 \<Rightarrow> w32" where
  "small_sigma1 x = word_rotr 17 x XOR word_rotr 19 x XOR drop_bit 10 x"

definition big_sigma0 :: "w32 \<Rightarrow> w32" where
  "big_sigma0 x = word_rotr 2 x XOR word_rotr 13 x XOR word_rotr 22 x"

definition big_sigma1 :: "w32 \<Rightarrow> w32" where
  "big_sigma1 x = word_rotr 6 x XOR word_rotr 11 x XOR word_rotr 25 x"

definition ch_fn :: "w32 \<Rightarrow> w32 \<Rightarrow> w32 \<Rightarrow> w32" where
  "ch_fn x y z = (x AND y) XOR ((NOT x) AND z)"

definition maj_fn :: "w32 \<Rightarrow> w32 \<Rightarrow> w32 \<Rightarrow> w32" where
  "maj_fn x y z = (x AND y) XOR (x AND z) XOR (y AND z)"

section \<open>Padding and blocks\<close>

definition utf8 :: "string \<Rightarrow> string" where
  "utf8 s = concat (map (\<lambda>c. if code c < 128 then [c]
     else [char_of (192 + code c div 64), char_of (128 + code c mod 64)]) s)"

definition length_bytes :: "nat \<Rightarrow> string" where
  "length_bytes n = map (\<lambda>i. char_of ((8 * n) div 256 ^ (7 - i) mod 256)) [0..<8]"

definition pad :: "string \<Rightarrow> string" where
  "pad bs = bs @ CHR 0x80 # replicate ((119 - length bs mod 64) mod 64) (CHR 0x00) @ length_bytes (length bs)"

definition word_of_bytes :: "string \<Rightarrow> w32" where
  "word_of_bytes bs = foldl (\<lambda>w c. push_bit 8 w OR word_of_int (code c)) 0 bs"

fun chunks :: "nat \<Rightarrow> 'a list \<Rightarrow> 'a list list" where
  "chunks 0 xs = []"
| "chunks (Suc k) xs = (if xs = [] then [] else take (Suc k) xs # chunks (Suc k) (drop (Suc k) xs))"

section \<open>Compression\<close>

text \<open>The message schedule: sixteen words extended to sixty-four.\<close>

fun extend_schedule :: "nat \<Rightarrow> w32 list \<Rightarrow> w32 list" where
  "extend_schedule 0 ws = ws"
| "extend_schedule (Suc n) ws =
     (let t = length ws
      in extend_schedule n (ws @ [small_sigma1 (ws ! (t - 2)) + ws ! (t - 7) + small_sigma0 (ws ! (t - 15)) + ws ! (t - 16)]))"

fun hash_round :: "w32 \<times> w32 \<Rightarrow> w32 list \<Rightarrow> w32 list" where
  "hash_round (k, w) [a, b, c, d, e, f, g, h] =
     (let t1 = h + big_sigma1 e + ch_fn e f g + k + w; t2 = big_sigma0 a + maj_fn a b c
      in [t1 + t2, a, b, c, d + t1, e, f, g])"
| "hash_round kw state = state"

definition compress :: "w32 list \<Rightarrow> w32 list \<Rightarrow> w32 list" where
  "compress state block =
     map2 (+) state (fold hash_round (zip round_constants (extend_schedule 48 block)) state)"

definition bytes_of_word :: "w32 \<Rightarrow> string" where
  "bytes_of_word w = map (\<lambda>i. char_of (uint (drop_bit (24 - 8 * i) w) mod 256)) [0..<4]"

definition sha256 :: "string \<Rightarrow> string" where
  "sha256 bs =
     concat (map bytes_of_word
       (foldl (\<lambda>state block. compress state (map word_of_bytes (chunks 4 block))) initial_hash (chunks 64 (pad bs))))"

definition hex_char :: "int \<Rightarrow> char" where
  "hex_char n = (if n < 10 then char_of (48 + n) else char_of (87 + n))"

definition hexdigest :: "string \<Rightarrow> string" where
  "hexdigest bs = concat (map (\<lambda>c. [hex_char (code c div 16), hex_char (code c mod 16)]) (sha256 bs))"

section \<open>Shape\<close>

lemma pad_blocks: "length (pad bs) mod 64 = 0"
proof -
  define q r where "q = length bs div 64" and "r = length bs mod 64"
  have l: "length bs = 64 * q + r" and r: "r < 64" by (simp_all add: q_def r_def)
  have "(119 - r) mod 64 = (if r \<le> 55 then 55 - r else 119 - r)"
    using r by (auto simp: mod_if)
  then have "length (pad bs) = (if r \<le> 55 then 64 * (q + 1) else 64 * (q + 2))"
    using r l by (simp add: pad_def length_bytes_def r_def [symmetric])
  then show ?thesis by simp
qed

lemma length_hash_round [simp]: "length (hash_round kw s) = length s"
  by (induction kw s rule: hash_round.induct) (simp_all add: Let_def)

lemma length_rounds [simp]: "length (fold hash_round ks s) = length s"
  by (induction ks arbitrary: s) simp_all

lemma length_compress [simp]: "length (compress s b) = length s"
  by (simp add: compress_def)

lemma length_sha256 [simp]: "length (sha256 bs) = 32"
proof -
  have "length (foldl (\<lambda>state block. compress state (map word_of_bytes (chunks 4 block))) s bl) = length s" for s bl
    by (induction bl arbitrary: s) simp_all
  then have "length (foldl (\<lambda>state block. compress state (map word_of_bytes (chunks 4 block))) initial_hash bl) = 8" for bl
    by (simp add: initial_hash_def)
  moreover have "length (concat (map bytes_of_word ws)) = 4 * length ws" for ws
    by (induction ws) (simp_all add: bytes_of_word_def)
  ultimately show ?thesis by (simp add: sha256_def)
qed

definition is_hex :: "char \<Rightarrow> bool" where
  "is_hex c = (is_digit c \<or> 97 \<le> code c \<and> code c \<le> 102)"

lemma hex_char_is_hex: "0 \<le> n \<Longrightarrow> n < 16 \<Longrightarrow> is_hex (hex_char n)"
  by (simp add: hex_char_def is_hex_def is_digit_def code_char_of)

lemma code_hex: "is_hex (hex_char (code c div 16))" "is_hex (hex_char (code c mod 16))"
proof -
  have "code c div 16 < 16" using code_range(2) [of c] by linarith
  then show "is_hex (hex_char (code c div 16))" by (intro hex_char_is_hex) (simp_all add: pos_imp_zdiv_nonneg_iff)
  show "is_hex (hex_char (code c mod 16))" by (intro hex_char_is_hex) simp_all
qed

lemma hexdigest_shape: "length (hexdigest bs) = 64 \<and> list_all is_hex (hexdigest bs)"
proof -
  have "length (concat (map (\<lambda>c. [hex_char (code c div 16), hex_char (code c mod 16)]) xs)) = 2 * length xs" for xs :: string
    by (induction xs) simp_all
  moreover have "list_all is_hex (concat (map (\<lambda>c. [hex_char (code c div 16), hex_char (code c mod 16)]) xs))" for xs :: string
    by (induction xs) (simp_all add: code_hex)
  ultimately show ?thesis by (simp add: hexdigest_def)
qed

end
