(* ===== verification/Scan_Assets.thy ===== *)
theory Scan_Assets
  imports Aggregates Sha256 Database
begin

text \<open>
  \<open>apps/jobs/scan_assets.py\<close> and \<open>apps/jobs/agent_asset_mapper.py\<close>: the candidate assets a scanner
  reports, the family of an algorithm, the stable reference of an asset, and the mapping of the findings
  of a host agent to candidates.
\<close>

record candidate =
  c_target :: int
  c_scanner :: string
  c_name :: string
  c_type :: string
  c_algorithm :: string
  c_family :: string
  c_bom_ref :: string
  c_metadata :: "pyval dict"

definition any_in :: "string list \<Rightarrow> string \<Rightarrow> bool" where
  "any_in ps s = list_ex (contains s) ps"

definition family_from_algorithm :: "string \<Rightarrow> string" where
  "family_from_algorithm algorithm =
     (let v = upper algorithm
      in if any_in [''ML-KEM'', ''MLKEM''] v then ''ML-KEM''
         else if any_in [''ML-DSA'', ''MLDSA''] v then ''ML-DSA''
         else if any_in [''SLH-DSA''] v then ''SLH-DSA''
         else if any_in [''ECDSA'', ''P-256'', ''P-384'', ''P-521'', ''SECP''] v then ''ECDSA''
         else if any_in [''ED25519'', ''ED448''] v then ''EdDSA''
         else if any_in [''RSA''] v then ''RSA''
         else if any_in [''HMAC''] v then ''HMAC''
         else if any_in [''MODP'', ''GROUP14'', ''DIFFIE-HELLMAN''] v \<or> v = ''DH'' then ''DH''
         else if any_in [''ECDH'', ''X25519'', ''X448'', ''CURVE25519'', ''CURVE448'', ''ECP-''] v then ''ECDH''
         else if any_in [''AES''] v then ''AES''
         else if any_in [''CHACHA''] v then ''ChaCha20''
         else [])"

definition stable_bom_ref :: "pyval list \<Rightarrow> string" where
  "stable_bom_ref parts =
     take 24 (hexdigest (utf8 (join ''|'' (map py_str (filter (\<lambda>p. p \<noteq> PNone) parts)))))"

section \<open>Findings of an agent\<close>

definition TYPE_SCANNER_KIND :: "string dict" where
  "TYPE_SCANNER_KIND =
    [(''certificate_file'', ''agent.app_cert_files''),
     (''private_key_file'', ''agent.private_key_files''),
     (''dormant_private_key'', ''agent.private_key_files''),
     (''system_ca'', ''agent.cert_store''),
     (''postgres_tls_config'', ''agent.app_config''),
     (''keystore'', ''agent.keystore''),
     (''java_keystore'', ''agent.keystore''),
     (''ssh_authorized_key'', ''agent.ssh_userkey''),
     (''ssh_config'', ''agent.ssh_config''),
     (''jwt_signing_key'', ''agent.app_config''),
     (''mtls_trust_bundle'', ''agent.cert_store''),
     (''oidc_jwks'', ''agent.app_config''),
     (''saml_signing_certificate'', ''agent.app_cert_files''),
     (''saml_encryption_certificate'', ''agent.app_cert_files''),
     (''container_image_signing_key'', ''agent.pkg_keyring''),
     (''package_signing_key'', ''agent.pkg_keyring''),
     (''kms_key_reference'', ''agent.keystore''),
     (''backup_encryption_key'', ''agent.keystore''),
     (''tls_config'', ''agent.app_config'')]"

definition TYPE_ASSET_TYPE :: "string dict" where
  "TYPE_ASSET_TYPE =
    [(''certificate_file'', ''certificate''),
     (''private_key_file'', ''key''),
     (''dormant_private_key'', ''key''),
     (''system_ca'', ''certificate''),
     (''postgres_tls_config'', ''protocol''),
     (''keystore'', ''keystore''),
     (''java_keystore'', ''keystore''),
     (''ssh_authorized_key'', ''ssh_user_key''),
     (''ssh_config'', ''protocol''),
     (''jwt_signing_key'', ''key''),
     (''mtls_trust_bundle'', ''certificate''),
     (''oidc_jwks'', ''key''),
     (''saml_signing_certificate'', ''certificate''),
     (''saml_encryption_certificate'', ''certificate''),
     (''container_image_signing_key'', ''key''),
     (''package_signing_key'', ''key''),
     (''kms_key_reference'', ''key''),
     (''backup_encryption_key'', ''key''),
     (''tls_config'', ''protocol'')]"

text \<open>\<open>str(finding.get(k) or default)\<close>.\<close>

definition finding_text :: "pyval dict \<Rightarrow> string \<Rightarrow> string \<Rightarrow> string" where
  "finding_text f k dflt = py_str (py_or (pget f k) (PStr dflt))"

definition listed_strings :: "pyval dict \<Rightarrow> string \<Rightarrow> string list" where
  "listed_strings f k = (case pget f k of PList xs \<Rightarrow> map py_str xs | _ \<Rightarrow> [])"

definition dedupe :: "string list \<Rightarrow> string list" where
  "dedupe = dedupe_by id []"

definition algorithms_for_finding :: "pyval dict \<Rightarrow> string list" where
  "algorithms_for_finding f =
     (let collected = concat (map (listed_strings f) [''algorithms'', ''kex_algorithms'', ''tls_versions'', ''cipher_suites''])
      in if collected \<noteq> [] then dedupe collected
         else if truthy (pget f ''algorithm'') then [py_str (pget f ''algorithm'')]
         else if truthy (pget f ''minimum_tls_version'') then [py_str (pget f ''minimum_tls_version'')]
         else [''unknown''])"

definition COPIED_METADATA :: "string list" where
  "COPIED_METADATA =
     [''fingerprint_sha256'', ''key_size_bits'', ''in_use'', ''dormant'', ''referenced_by'', ''source_scanners'',
      ''source_paths'', ''source_bom_refs'', ''format'', ''minimum_tls_version'', ''tls_versions'',
      ''disabled_protocols'', ''cipher_suites'', ''certificate_paths'', ''private_key_paths'', ''policy'']"

definition metadata_for_finding :: "pyval dict \<Rightarrow> string \<Rightarrow> string \<Rightarrow> pyval dict" where
  "metadata_for_finding f scanner path =
     [(''scanner'', PStr scanner), (''type'', PStr (finding_text f ''type'' ''agent_finding'')), (''path'', PStr path)]
     @ map (\<lambda>k. (k, pget f k)) (filter (\<lambda>k. pget f k \<noteq> PNone) COPIED_METADATA)"

definition candidate_for_finding :: "target \<Rightarrow> pyval dict \<Rightarrow> string \<Rightarrow> string \<Rightarrow> candidate" where
  "candidate_for_finding t f scanner algorithm =
     (let kind = finding_text f ''type'' ''agent_finding''; path = finding_text f ''path'' kind
      in \<lparr>c_target = tg_id t, c_scanner = scanner, c_name = tg_host t @ '' '' @ kind @ '' '' @ path,
          c_type = dget_or TYPE_ASSET_TYPE kind ''crypto'', c_algorithm = algorithm,
          c_family = family_from_algorithm algorithm,
          c_bom_ref = scanner @ '':'' @ stable_bom_ref [PStr (tg_host t), PStr kind, PStr path, PStr algorithm],
          c_metadata = metadata_for_finding f scanner path\<rparr>)"

definition candidates_for_finding :: "target \<Rightarrow> string list \<Rightarrow> pyval dict \<Rightarrow> candidate list" where
  "candidates_for_finding t selected f =
     (case dget TYPE_SCANNER_KIND (finding_text f ''type'' []) of
        None \<Rightarrow> []
      | Some scanner \<Rightarrow>
          if scanner \<notin> set selected then []
          else map (candidate_for_finding t f scanner) (algorithms_for_finding f))"

definition map_agent_findings :: "target \<Rightarrow> pyval list \<Rightarrow> string list \<Rightarrow> py_error + candidate list" where
  "map_agent_findings t findings selected =
     rmap (\<lambda>fs. concat (map (candidates_for_finding t selected) fs)) (rmapM as_dict findings)"

section \<open>References\<close>

lemma stable_bom_ref_shape: "length (stable_bom_ref ps) = 24 \<and> list_all is_hex (stable_bom_ref ps)"
  using hexdigest_shape by (auto simp: stable_bom_ref_def list_all_iff dest: in_set_takeD)

definition agent_candidate_ok :: "target \<Rightarrow> string list \<Rightarrow> candidate \<Rightarrow> bool" where
  "agent_candidate_ok t selected c =
     (c_target c = tg_id t \<and> c_scanner c \<in> set selected \<and> c_scanner c \<in> snd ` set TYPE_SCANNER_KIND
      \<and> startswith (c_bom_ref c) (c_scanner c @ '':'') \<and> length (c_bom_ref c) = length (c_scanner c) + 25
      \<and> list_all is_hex (drop (length (c_scanner c) + 1) (c_bom_ref c))
      \<and> c_family c = family_from_algorithm (c_algorithm c) \<and> pget (c_metadata c) ''scanner'' = PStr (c_scanner c))"

text \<open>A finding of a selected type has a candidate for each of its algorithms.\<close>

definition finding_covered :: "string list \<Rightarrow> candidate list \<Rightarrow> pyval \<Rightarrow> bool" where
  "finding_covered selected cs v =
     (case v of
        PDict f \<Rightarrow>
          (case dget TYPE_SCANNER_KIND (finding_text f ''type'' []) of None \<Rightarrow> True
           | Some k \<Rightarrow> k \<notin> set selected
               \<or> set (algorithms_for_finding f) \<subseteq> c_algorithm ` set (filter (\<lambda>c. c_scanner c = k) cs))
      | _ \<Rightarrow> False)"

lemma candidate_for_finding_ok:
  "k \<in> set selected \<Longrightarrow> dget TYPE_SCANNER_KIND x = Some k \<Longrightarrow> agent_candidate_ok t selected (candidate_for_finding t f k a)"
  using stable_bom_ref_shape
  by (force simp: candidate_for_finding_def agent_candidate_ok_def Let_def startswith_def metadata_for_finding_def pget_def dget_or_def
      dget_def dest: map_of_SomeD)

lemma candidates_for_finding_ok: "list_all (agent_candidate_ok t selected) (candidates_for_finding t selected f)"
  using candidate_for_finding_ok by (auto simp: candidates_for_finding_def list_all_iff split: option.splits)

lemma candidate_for_finding_simps [simp]:
  "c_algorithm (candidate_for_finding t f k a) = a" "c_scanner (candidate_for_finding t f k a) = k"
  by (simp_all add: candidate_for_finding_def Let_def)

lemma candidates_for_finding_cover:
  assumes "set (candidates_for_finding t selected f) \<subseteq> set cs"
  shows "finding_covered selected cs (PDict f)"
proof (cases "dget TYPE_SCANNER_KIND (finding_text f ''type'' [])")
  case (Some k)
  show ?thesis
  proof (cases "k \<in> set selected")
    case True
    then have "candidate_for_finding t f k a \<in> set (filter (\<lambda>c. c_scanner c = k) cs)" if "a \<in> set (algorithms_for_finding f)" for a
      using assms that by (auto simp: candidates_for_finding_def Some)
    then show ?thesis by (force simp: finding_covered_def Some intro: rev_image_eqI)
  qed (simp add: finding_covered_def Some)
qed (simp add: finding_covered_def)

lemma as_dict_all: "rmapM as_dict vs = Inr fs \<longleftrightarrow> vs = map PDict fs"
proof (induction vs arbitrary: fs)
  case (Cons v vs)
  then show ?case by (cases v; cases fs) (auto simp: as_dict_def rbind_Inr_iff)
qed auto

lemma as_dict_fails: "rmapM as_dict vs = Inl e \<Longrightarrow> \<not> list_all is_mapping vs"
proof (induction vs)
  case (Cons v vs)
  then show ?case by (cases v) (auto simp: as_dict_def rbind_Inl_iff)
qed simp

text \<open>The findings of an agent are mapped when each is a dict, and an exception is raised otherwise.  Every
  candidate belongs to the target and to a selected scanner that some finding type names, has a reference
  made of that scanner and 24 hexadecimal digits, the family of its algorithm and its scanner in the
  metadata; and every finding whose type is selected has a candidate for each of its algorithms.\<close>

theorem mapped_candidates_sound:
  "case map_agent_findings t findings selected of
     Inl e \<Rightarrow> \<not> list_all is_mapping findings
   | Inr cs \<Rightarrow> list_all is_mapping findings \<and> list_all (agent_candidate_ok t selected) cs
       \<and> list_all (finding_covered selected cs) findings"
proof (cases "rmapM as_dict findings")
  case (Inl e)
  then show ?thesis using as_dict_fails by (simp add: map_agent_findings_def)
next
  case (Inr fs)
  let ?cs = "concat (map (candidates_for_finding t selected) fs)"
  have f: "findings = map PDict fs" using Inr as_dict_all by blast
  have "list_all (agent_candidate_ok t selected) ?cs"
    using candidates_for_finding_ok by (fastforce simp: list_all_iff)
  moreover have "finding_covered selected ?cs (PDict g)" if "g \<in> set fs" for g
    by (rule candidates_for_finding_cover) (use that in auto)
  ultimately show ?thesis by (simp add: map_agent_findings_def Inr) (simp add: f list_all_iff)
qed

end
