(* ===== verification/Scan_Worker.thy ===== *)
theory Scan_Worker
  imports Scan_Assets Agents Performance_Service "HOL-Library.Multiset"
begin

text \<open>
  \<open>apps/jobs/scan_worker.py\<close>: a scan job runs its scanners over its targets, logs each run, persists the
  candidates as the assets of a new snapshot, and scores them; on completion it may enqueue an
  availability run of the snapshot.

  The network scanner, the inference of a context from a homepage and the HTTP call to a host agent are the
  record \<open>scan_env\<close>, with the serial number the snapshot gets.  A target is one object for the whole
  scan: the list of target rows in memory is threaded through the loop, so that an inferred context is seen
  by a later turn of the same target.  The ORM calls that raise outside of a transaction keep what was
  written before: the database is returned in any case.
\<close>

record scan_env =
  se_network :: "target \<Rightarrow> py_error + candidate list"
  se_homepage :: "target \<Rightarrow> py_error + pyval dict option"
  se_post_scan :: "agent \<Rightarrow> string list \<Rightarrow> py_error + pyval dict"
  se_serial :: string

definition TARGET_CONTEXT_FIELDS :: "string list" where
  "TARGET_CONTEXT_FIELDS = [''sensitivity'', ''lifespan_years'', ''criticality'', ''exposure'', ''service_role'']"

section \<open>Targets\<close>

text \<open>The identifiers of the payload, or those of the job when the payload has none.\<close>

definition payload_ids :: "pyval dict \<Rightarrow> scan_job \<Rightarrow> py_error + int list" where
  "payload_ids p sj =
     (if truthy (pget p ''target_ids'') then rmap (map int_of_val) (py_iter (pget p ''target_ids'')) else Inr (sj_target_ids sj))"

definition payload_scanners :: "pyval dict \<Rightarrow> scan_job \<Rightarrow> py_error + string list" where
  "payload_scanners p sj =
     (if truthy (pget p ''scanners'') then rmap (map py_str) (py_iter (pget p ''scanners'')) else Inr (sj_scanners sj))"

definition targets_for_ids :: "int list \<Rightarrow> db \<Rightarrow> py_error + target list" where
  "targets_for_ids ids d =
     (let rows = filter (\<lambda>t. tg_id t \<in> set ids) (db_targets d);
          missing = filter (\<lambda>i. find_row tg_id i rows = None) ids
      in if missing \<noteq> [] then Inl (ValueError (''scan target not found: '' @ py_repr (PList (map PInt missing))))
         else Inr rows)"

section \<open>Logs and progress\<close>

definition add_log :: "int \<Rightarrow> target \<Rightarrow> string \<Rightarrow> string \<Rightarrow> int \<Rightarrow> int \<Rightarrow> string option \<Rightarrow> db \<Rightarrow> db" where
  "add_log job t scanner status findings now err d =
     d\<lparr>db_run_logs := add_row
         \<lparr>rl_id = next_id rl_id (db_run_logs d), rl_job = job, rl_target = Some (tg_id t), rl_scanner = scanner,
          rl_status = status, rl_findings = findings, rl_started = Some now, rl_finished = Some now,
          rl_error = err\<rparr> (db_run_logs d)\<rparr>"

definition update_progress :: "int \<Rightarrow> int \<Rightarrow> int \<Rightarrow> target \<Rightarrow> string \<Rightarrow> db \<Rightarrow> db" where
  "update_progress job done_count all_count t scanner d =
     d\<lparr>db_jobs := map (\<lambda>j. if j_id j = job then j\<lparr>j_progress := PDict
         [(''completed'', PInt done_count), (''total'', PInt all_count),
          (''current_target'', PStr (tg_host t @ '':'' @ str_int (tg_port t))), (''current_scanner'', PStr scanner)]\<rparr>
       else j) (db_jobs d)\<rparr>"

section \<open>The network scanner\<close>

text \<open>The fields an inference fills: those the current context leaves open.\<close>

definition applied_fields :: "pyval dict \<Rightarrow> pyval dict \<Rightarrow> string list" where
  "applied_fields inference current =
     filter (\<lambda>k. pget inference k \<noteq> PNone \<and> pget current k = PNone) TARGET_CONTEXT_FIELDS"

definition inferred_context :: "pyval dict \<Rightarrow> pyval dict \<Rightarrow> pyval dict option" where
  "inferred_context inference ctx =
     (let current = dmerge default_context ctx;
          fields = applied_fields inference current;
          filled = fold (\<lambda>k. dset k (pget inference k)) fields current
      in case pget inference ''homepage_inference'' of
           PDict evidence \<Rightarrow>
             (let next_evidence = PDict (dset ''applied_fields'' (PList (map PStr fields)) evidence)
              in if \<not> py_eq (pget filled ''homepage_inference'') next_evidence
                 then Some (dset ''homepage_inference'' next_evidence filled)
                 else if fields \<noteq> [] then Some filled else None)
         | _ \<Rightarrow> if fields \<noteq> [] then Some filled else None)"

text \<open>\<open>_apply_homepage_context_inference\<close>: the row in the database and the object in memory.\<close>

definition apply_homepage_inference :: "target \<Rightarrow> pyval dict option \<Rightarrow> db \<Rightarrow> target \<times> db" where
  "apply_homepage_inference t inference d =
     (case inference of None \<Rightarrow> (t, d)
      | Some m \<Rightarrow>
          if m = [] then (t, d)
          else (case inferred_context m (tg_context t) of None \<Rightarrow> (t, d)
                | Some ctx \<Rightarrow>
                    (t\<lparr>tg_context := ctx\<rparr>,
                     d\<lparr>db_targets := map (\<lambda>x. if tg_id x = tg_id t then x\<lparr>tg_context := ctx\<rparr> else x) (db_targets d)\<rparr>)))"

definition run_network_scanner :: "scan_env \<Rightarrow> int \<Rightarrow> target \<Rightarrow> int \<Rightarrow> db \<Rightarrow> candidate list \<times> target \<times> db" where
  "run_network_scanner env job t now d =
     (case se_network env t of
        Inl e \<Rightarrow> ([], t, add_log job t ''network'' ''ERROR'' 0 now (Some (take 128 (exc_str e))) d)
      | Inr cs \<Rightarrow>
          (case (case se_homepage env t of Inl e \<Rightarrow> (t, d) | Inr guess \<Rightarrow> apply_homepage_inference t guess d) of
             (t', d') \<Rightarrow> (cs, t', add_log job t ''network'' ''SUCCESS'' (int (length cs)) now None d')))"

section \<open>The scanners of a host agent\<close>

definition AGENT_SCANNER_PREFIX :: string where
  "AGENT_SCANNER_PREFIX = ''agent.''"

definition host_agent :: "target \<Rightarrow> db \<Rightarrow> agent option" where
  "host_agent t d = List.find (\<lambda>a. ag_hostname a = tg_host t \<and> ag_role a = ''host'' \<and> ag_active a) (db_agents d)"

text \<open>The supported scanners, and the errors of the others (a dict: a scanner that is listed twice has one
  entry).\<close>

definition supported_agent_scanners :: "target \<Rightarrow> string list \<Rightarrow> int \<Rightarrow> db \<Rightarrow> string list \<times> string dict" where
  "supported_agent_scanners t kinds now d =
     (let none = (\<lambda>err. ([], map (\<lambda>k. (k, err)) (dedupe kinds)))
      in if \<not> tg_agent_enabled t then none ''agent_disabled''
         else (case host_agent t d of None \<Rightarrow> none ''agent_unavailable''
               | Some a \<Rightarrow>
                   if is_stale a now then none ''agent_stale''
                   else if ag_url a \<in> {None, Some []} \<or> ag_runtime_token a \<in> {None, Some []} then none ''agent_unavailable''
                   else (filter (\<lambda>k. k \<in> set (ag_capabilities a)) kinds,
                         map (\<lambda>k. (k, ''capability_unsupported''))
                           (dedupe (filter (\<lambda>k. k \<notin> set (ag_capabilities a)) kinds)))))"

text \<open>One log and one step of progress for each scanner of a list.\<close>

fun log_scanners ::
  "int \<Rightarrow> target \<Rightarrow> string \<Rightarrow> (string \<times> int \<times> string option) list \<Rightarrow> int \<Rightarrow> int \<Rightarrow> int \<Rightarrow> db \<Rightarrow> int \<times> db" where
  "log_scanners job t status [] done_count all_count now d = (done_count, d)"
| "log_scanners job t status ((k, n, err) # ks) done_count all_count now d =
     log_scanners job t status ks (done_count + 1) all_count now
       (update_progress job (done_count + 1) all_count t k (add_log job t k status n now err d))"

definition run_agent_scanners ::
  "scan_env \<Rightarrow> int \<Rightarrow> target \<Rightarrow> string list \<Rightarrow> int \<Rightarrow> int \<Rightarrow> int \<Rightarrow> db \<Rightarrow> (py_error + candidate list \<times> int) \<times> db" where
  "run_agent_scanners env job t kinds done_count all_count now d =
     (case supported_agent_scanners t kinds now d of
        (supported, skipped) \<Rightarrow>
          (case log_scanners job t ''SKIPPED'' (map (\<lambda>(k, err). (k, 0, Some err)) skipped) done_count all_count now d of
             (done1, d1) \<Rightarrow>
               if supported = [] then (Inr ([], done1), d1)
               else
                 (case host_agent t d1 of
                    None \<Rightarrow> (Inl (DoesNotExist ''matching query does not exist.''), d1)
                  | Some a \<Rightarrow>
                      (case rbind (se_post_scan env a supported) (\<lambda>resp.
                              rbind (py_iter (dget_or resp ''findings'' (PList []))) (\<lambda>fs.
                                map_agent_findings t fs supported)) of
                         Inl e \<Rightarrow>
                           (case log_scanners job t ''ERROR'' (map (\<lambda>k. (k, 0, Some (take 128 (exc_str e)))) supported)
                                   done1 all_count now d1 of
                              (done2, d2) \<Rightarrow> (Inr ([], done2), d2))
                       | Inr cs \<Rightarrow>
                           (case log_scanners job t ''SUCCESS''
                                   (map (\<lambda>k. (k, dget_or (counter (map c_scanner cs)) k 0, None)) supported)
                                   done1 all_count now d1 of
                              (done2, d2) \<Rightarrow> (Inr (cs, done2), d2))))))"

section \<open>Merging candidates\<close>

definition dedupe_key :: "candidate \<Rightarrow> string" where
  "dedupe_key c =
     (let fp = pget (c_metadata c) ''fingerprint_sha256''
      in if truthy fp then c_type c @ '':fingerprint:'' @ lower (py_str fp) else ''bom_ref:'' @ c_bom_ref c)"

definition as_list :: "pyval \<Rightarrow> pyval list" where
  "as_list v = (case v of PNone \<Rightarrow> [] | PList xs \<Rightarrow> xs | _ \<Rightarrow> [v])"

definition is_blank :: "pyval \<Rightarrow> bool" where
  "is_blank v = (v = PNone \<or> v = PStr [])"

fun merge_items :: "pyval list \<Rightarrow> pyval list \<Rightarrow> pyval list" where
  "merge_items seen [] = seen"
| "merge_items seen (v # vs) =
     (if is_blank v \<or> list_ex (\<lambda>w. py_eq w v) seen then merge_items seen vs else merge_items (seen @ [v]) vs)"

definition merged_values :: "pyval \<Rightarrow> pyval \<Rightarrow> pyval" where
  "merged_values current v = PList (merge_items [] (as_list current @ as_list v))"

definition merge_candidates :: "candidate \<Rightarrow> candidate \<Rightarrow> candidate" where
  "merge_candidates x y =
     (let mx = c_metadata x; my = c_metadata y;
          scanners1 = merged_values (pget mx ''source_scanners'') (py_or (pget mx ''scanner'') (PStr (c_scanner x)));
          scanners2 = merged_values scanners1 (pget my ''source_scanners'');
          scanners = merged_values scanners2 (py_or (pget my ''scanner'') (PStr (c_scanner y)));
          paths1 = merged_values (pget mx ''source_paths'') (pget mx ''path'');
          paths2 = merged_values paths1 (pget my ''source_paths'');
          paths = merged_values paths2 (pget my ''path'');
          refs1 = merged_values (pget mx ''source_bom_refs'') (PStr (c_bom_ref x));
          refs2 = merged_values refs1 (pget my ''source_bom_refs'');
          refs = merged_values refs2 (PStr (c_bom_ref y));
          m1 = dset ''source_bom_refs'' refs (dset ''source_scanners'' scanners (dmerge my mx));
          m2 = (if truthy paths then dset ''source_paths'' paths m1 else m1);
          m3 = (if 1 < length (as_list scanners)
                then dset ''merged'' (PBool True) (dset ''scanner'' (PStr ''multiple'') m2) else m2)
      in x\<lparr>c_metadata := m3\<rparr>)"

definition merge_into :: "candidate \<Rightarrow> candidate dict \<Rightarrow> candidate dict" where
  "merge_into c by_ref =
     (case dget by_ref (dedupe_key c) of
        Some x \<Rightarrow> dset (dedupe_key c) (merge_candidates x c) by_ref
      | None \<Rightarrow> dset (dedupe_key c) c by_ref)"

definition dedupe_candidates :: "candidate list \<Rightarrow> candidate list" where
  "dedupe_candidates cs = map snd (fold merge_into cs [])"

section \<open>The snapshot\<close>

definition distinct_count :: "int list \<Rightarrow> int" where
  "distinct_count xs = int (length (remdups xs))"

definition snapshot_summary :: "candidate list \<Rightarrow> pyval dict" where
  "snapshot_summary cs =
     [(''asset_count'', PInt (int (length cs))),
      (''target_count'', PInt (distinct_count (map c_target cs))),
      (''by_type'', int_dict (sorted_items (counter (map c_type cs)))),
      (''by_algorithm_family'', int_dict (sorted_items (counter (map (\<lambda>c. or_str (c_family c) ''unknown'') cs)))),
      (''by_scanner'', int_dict (sorted_items (counter (map c_scanner cs))))]"

definition candidate_asset :: "int \<Rightarrow> int \<Rightarrow> candidate \<Rightarrow> asset" where
  "candidate_asset i sn c =
     \<lparr>a_id = i, a_snapshot = Some sn, a_target = Some (c_target c), a_name = take 255 (c_name c), a_class = ''crypto'',
      a_type = take 32 (c_type c), a_bom_ref = take 255 (c_bom_ref c), a_algorithm = take 128 (c_algorithm c),
      a_family = take 64 (c_family c), a_metadata = c_metadata c\<rparr>"

text \<open>The assets are created one by one: the second one with a reference violates the uniqueness of references
  in a snapshot, and one whose target is no longer there violates the foreign key, as does a snapshot
  whose scan job is gone.\<close>

fun create_assets :: "int \<Rightarrow> candidate list \<Rightarrow> db \<Rightarrow> db \<times> (py_error + unit)" where
  "create_assets sn [] d = (d, Inr ())"
| "create_assets sn (c # cs) d =
     (let a = candidate_asset (next_id a_id (db_assets d)) sn c
      in if find_row (\<lambda>x. (a_snapshot x, a_bom_ref x)) (Some sn, a_bom_ref a) (db_assets d) \<noteq> None
         then (d, Inl (IntegrityError ''UNIQUE constraint failed: asset.snapshot_id, asset.bom_ref''))
         else if find_row tg_id (c_target c) (db_targets d) = None
         then (d, Inl (IntegrityError ''FOREIGN KEY constraint failed''))
         else create_assets sn cs (d\<lparr>db_assets := add_row a (db_assets d)\<rparr>))"

definition persist_snapshot :: "scan_env \<Rightarrow> int \<Rightarrow> candidate list \<Rightarrow> int \<Rightarrow> db \<Rightarrow> db \<times> (py_error + snapshot)" where
  "persist_snapshot env sj cs now d =
     (let unique = dedupe_candidates cs;
          sn = \<lparr>sn_id = next_id sn_id (db_snapshots d), sn_scan_job = Some sj, sn_serial = ''urn:uuid:'' @ se_serial env,
                sn_summary = PDict (snapshot_summary unique), sn_validation_errors = [], sn_created = now\<rparr>
      in if find_row sj_id sj (db_scan_jobs d) = None
         then (d, Inl (IntegrityError ''FOREIGN KEY constraint failed''))
         else (case create_assets (sn_id sn) unique (d\<lparr>db_snapshots := add_row sn (db_snapshots d)\<rparr>) of
                 (d', r) \<Rightarrow> (d', rmap (\<lambda>u. sn) r)))"

section \<open>The scan\<close>

text \<open>The two halves of a turn of the loop over the targets.\<close>

definition network_turn ::
  "scan_env \<Rightarrow> int \<Rightarrow> string list \<Rightarrow> target \<Rightarrow> candidate list \<Rightarrow> int \<Rightarrow> int \<Rightarrow> int \<Rightarrow> db
   \<Rightarrow> candidate list \<times> target \<times> int \<times> db" where
  "network_turn env job scanners t cs done_count all_count now d =
     (if ''network'' \<in> set scanners then
        (case run_network_scanner env job t now d of
           (found, t1, d1) \<Rightarrow>
             (cs @ found, t1, done_count + 1, update_progress job (done_count + 1) all_count t1 ''network'' d1))
      else (cs, t, done_count, d))"

definition agent_turn ::
  "scan_env \<Rightarrow> int \<Rightarrow> string list \<Rightarrow> target \<Rightarrow> candidate list \<Rightarrow> int \<Rightarrow> int \<Rightarrow> int \<Rightarrow> db
   \<Rightarrow> (py_error + candidate list \<times> int) \<times> db" where
  "agent_turn env job scanners t cs done_count all_count now d =
     (let kinds = filter (\<lambda>k. startswith k AGENT_SCANNER_PREFIX) scanners
      in if kinds = [] then (Inr (cs, done_count), d)
         else (case run_agent_scanners env job t kinds done_count all_count now d of
                 (Inl e, d1) \<Rightarrow> (Inl e, d1)
               | (Inr (found, n), d1) \<Rightarrow> (Inr (cs @ found, n), d1)))"

fun scan_targets ::
  "scan_env \<Rightarrow> int \<Rightarrow> string list \<Rightarrow> int list \<Rightarrow> target list \<Rightarrow> candidate list \<Rightarrow> int \<Rightarrow> int \<Rightarrow> int \<Rightarrow> db
   \<Rightarrow> db \<times> (py_error + candidate list)" where
  "scan_targets env job scanners [] rows cs done_count all_count now d = (d, Inr cs)"
| "scan_targets env job scanners (i # is) rows cs done_count all_count now d =
     (case find_row tg_id i rows of None \<Rightarrow> (d, Inl (KeyError (str_int i)))
      | Some t \<Rightarrow>
          (case network_turn env job scanners t cs done_count all_count now d of
             (cs1, t1, done1, d1) \<Rightarrow>
               (case agent_turn env job scanners t1 cs1 done1 all_count now d1 of
                  (Inl e, d2) \<Rightarrow> (d2, Inl e)
                | (Inr (cs2, done2), d2) \<Rightarrow>
                    scan_targets env job scanners is (put_row tg_id t1 rows) cs2 done2 all_count now d2)))"

definition scan_result :: "int \<Rightarrow> snapshot \<Rightarrow> pyval dict \<Rightarrow> db \<Rightarrow> pyval dict" where
  "scan_result sj sn risk d =
     [(''scan_job_id'', PInt sj), (''snapshot_id'', PInt (sn_id sn)), (''snapshot_serial'', PStr (sn_serial sn)),
      (''assets_count'', PInt (int (length (filter (\<lambda>a. a_snapshot a = Some (sn_id sn)) (db_assets d))))),
      (''risk_scores_count'', pget risk ''updated_scores_count'')]"

definition run_scan_job_payload :: "scan_env \<Rightarrow> int \<Rightarrow> pyval dict \<Rightarrow> db \<Rightarrow> db \<times> (py_error + pyval dict)" where
  "run_scan_job_payload env now payload d =
     (case rbind (payload_int payload ''scan_job_id'') (\<lambda>i.
           rbind (get_row sj_id i (db_scan_jobs d)) (\<lambda>sj.
           rbind (payload_ids payload sj) (\<lambda>ids.
           rbind (payload_scanners payload sj) (\<lambda>scanners.
           rbind (targets_for_ids ids d) (\<lambda>rows. Inr (sj, ids, scanners, rows)))))) of
        Inl e \<Rightarrow> (d, Inl e)
      | Inr (sj, ids, scanners, rows) \<Rightarrow>
          (case scan_targets env (sj_job sj) scanners ids rows [] 0 (int (length ids * length scanners)) now d of
             (d1, Inl e) \<Rightarrow> (d1, Inl e)
           | (d1, Inr cs) \<Rightarrow>
               (case persist_snapshot env (sj_id sj) cs now d1 of
                  (d2, Inl e) \<Rightarrow> (d2, Inl e)
                | (d2, Inr sn) \<Rightarrow>
                    (case recompute_snapshot_risks (sn_id sn) None now d2 of
                       (d3, Inl e) \<Rightarrow> (d3, Inl e)
                     | (d3, Inr risk) \<Rightarrow> (d3, Inr (scan_result (sj_id sj) sn risk d3))))))"

section \<open>The worker\<close>

definition claim_scan_job_task :: "int \<Rightarrow> int \<Rightarrow> db \<Rightarrow> py_error + pyval dict option \<times> db" where
  "claim_scan_job_task i now d =
     rbind (lock_task i now d) (\<lambda>lock.
       case lock of None \<Rightarrow> Inr (None, d)
       | Some t \<Rightarrow>
           (case t_job t of None \<Rightarrow> Inl (AttributeError ''scan_job'')
            | Some ji \<Rightarrow>
                rbind (get_row j_id ji (db_jobs d)) (\<lambda>j.
                rbind (get_row sj_job ji (db_scan_jobs d)) (\<lambda>sj.
                  if j_status j = CANCELLED then Inr (None, set_task (t\<lparr>t_status := T_CANCELLED\<rparr>) d)
                  else Inr (Some (t_payload t),
                         set_job (j\<lparr>j_status := RUNNING, j_started := or_else (j_started j) now,
                                   j_progress := PDict
                                     [(''completed'', PInt 0),
                                      (''total'', PInt (int (length (sj_target_ids sj) * length (sj_scanners sj)))),
                                      (''current_target'', PNone), (''current_scanner'', PNone)]\<rparr>) (set_task t d))))))"

text \<open>The availability run a discovery asked for.\<close>

definition enqueue_availability_check :: "async_job \<Rightarrow> pyval dict \<Rightarrow> int \<Rightarrow> db \<Rightarrow> py_error + pyval dict \<times> db" where
  "enqueue_availability_check j result now d =
     (if pget (j_request j) ''auto_availability_check'' \<noteq> PBool True then Inr (result, d)
      else if \<not> truthy (pget result ''snapshot_id'') then Inr (result, d)
      else
        rbind (get_row sn_id (int_of_val (pget result ''snapshot_id'')) (db_snapshots d)) (\<lambda>sn.
          case create_run sn
                 \<lparr>rq_baseline = None, rq_trigger = ''discovery'', rq_profile = ''smoke'', rq_thresholds = [],
                  rq_environment = [(''source'', PStr ''discovery_pipeline''), (''scan_job_id'', pget result ''scan_job_id''),
                                    (''origin'', pget (j_request j) ''origin'')]\<rparr> now d of
            Inl f \<Rightarrow> Inl (as_exception f)
          | Inr (r, d1) \<Rightarrow>
              Inr (dset ''availability_snapshot_id'' (PInt (sn_id sn)) (dset ''availability_run_id'' (PInt (pr_id r)) result),
                   enqueue_run r now d1)))"

definition progress_total :: "pyval \<Rightarrow> pyval" where
  "progress_total v = (case v of PDict m \<Rightarrow> dget_or m ''total'' (PInt 0) | _ \<Rightarrow> PInt 0)"

definition complete_scan_job_task :: "int \<Rightarrow> int \<Rightarrow> pyval dict \<Rightarrow> db \<Rightarrow> py_error + pyval dict \<times> db" where
  "complete_scan_job_task i now result d =
     rbind (get_row t_id i (db_tasks d)) (\<lambda>t.
       case t_job t of None \<Rightarrow> Inl (AttributeError ''status'')
       | Some ji \<Rightarrow>
           rbind (get_row j_id ji (db_jobs d)) (\<lambda>j.
             if j_status j = CANCELLED then Inr ([], set_task (t\<lparr>t_status := T_CANCELLED\<rparr>) d)
             else
               rbind (enqueue_availability_check j result now
                        (set_task (t\<lparr>t_status := T_COMPLETED, t_last_error := None\<rparr>) d)) (\<lambda>(result', d1).
                 Inr (result', set_job
                   (j\<lparr>j_status := COMPLETED,
                      j_progress := PDict [(''completed'', progress_total (j_progress j)), (''total'', progress_total (j_progress j)),
                                           (''current_target'', PNone), (''current_scanner'', PNone)],
                      j_result := PDict result', j_error := PNone, j_finished := Some now\<rparr>) d1))))"

definition fail_scan_job_task :: "int \<Rightarrow> int \<Rightarrow> py_error \<Rightarrow> db \<Rightarrow> py_error + db" where
  "fail_scan_job_task i now exc d =
     rbind (get_row t_id i (db_tasks d)) (\<lambda>t.
       case t_job t of None \<Rightarrow> Inl (AttributeError ''status'')
       | Some ji \<Rightarrow>
           rbind (get_row j_id ji (db_jobs d)) (\<lambda>j.
             Inr (set_job (j\<lparr>j_status := FAILED, j_error := PDict [(''message'', PStr (exc_str exc))], j_finished := Some now\<rparr>)
                   (set_task (t\<lparr>t_status := T_FAILED, t_last_error := Some (exc_str exc)\<rparr>) d))))"

definition process_scan_job_task :: "scan_env \<Rightarrow> int \<Rightarrow> int \<Rightarrow> db \<Rightarrow> db \<times> (py_error + pyval dict)" where
  "process_scan_job_task env i now d =
     run_worker claim_scan_job_task (run_scan_job_payload env now) complete_scan_job_task fail_scan_job_task i now d"

definition process_next_scan_job_task :: "scan_env \<Rightarrow> int \<Rightarrow> db \<Rightarrow> db \<times> (py_error + pyval dict option)" where
  "process_next_scan_job_task env now d =
     (case next_task ''scan_job'' now d of None \<Rightarrow> (d, Inr None)
      | Some t \<Rightarrow> (case process_scan_job_task env (t_id t) now d of (d', r) \<Rightarrow> (d', rmap Some r)))"

section \<open>Deduplication\<close>

text \<open>A candidate but for its metadata.\<close>

definition core :: "candidate \<Rightarrow> candidate" where
  "core c = c\<lparr>c_metadata := []\<rparr>"

lemma core_merge [simp]: "core (merge_candidates x y) = core x"
  by (simp add: merge_candidates_def core_def Let_def)

abbreviation cores :: "candidate dict \<Rightarrow> candidate dict" where
  "cores m \<equiv> map (\<lambda>(k, c). (k, core c)) m"

lemma map_of_cores: "map_of (cores m) k = map_option core (map_of m k)"
  by (induction m) auto

lemma cores_dset: "cores (dset k c m) = dset k (core c) (cores m)"
  by (induction m) auto

lemma keys_cores [simp]: "fst ` set (cores m) = fst ` set m"
  by force

lemma merge_into_cores:
  "cores (merge_into c m) =
     (if dedupe_key c \<in> fst ` set m then cores m else cores m @ [(dedupe_key c, core c)])"
proof (cases "map_of m (dedupe_key c)")
  case None
  then have n: "dedupe_key c \<notin> fst ` set m" by (simp add: map_of_eq_None_iff)
  then show ?thesis using dset_fresh [OF n] by (simp add: merge_into_def dget_def None)
next
  case (Some x)
  then have "dedupe_key c \<in> fst ` set m" by (metis domI dom_map_of_conv_image_fst)
  moreover have "map_of (cores m) (dedupe_key c) = Some (core x)" by (simp add: map_of_cores Some)
  ultimately show ?thesis by (simp add: merge_into_def dget_def Some cores_dset update_triv)
qed

lemma fold_merge_cores:
  "cores (fold merge_into cs m) = cores m @ map (\<lambda>c. (dedupe_key c, core c)) (dedupe_by dedupe_key (map fst m) cs)"
proof (induction cs arbitrary: m)
  case (Cons c cs)
  have k: "fst ` set (merge_into c m) = insert (dedupe_key c) (fst ` set m)"
    by (auto simp: merge_into_def dict_simps split: option.split)
  have s: "dedupe_by dedupe_key (map fst (merge_into c m)) cs = dedupe_by dedupe_key (dedupe_key c # map fst m) cs"
    by (rule dedupe_by_cong_seen) (simp add: k)
  have i: "dedupe_key c \<in> fst ` set m \<Longrightarrow> dedupe_by dedupe_key (dedupe_key c # map fst m) cs = dedupe_by dedupe_key (map fst m) cs"
    by (rule dedupe_by_cong_seen) (simp add: insert_absorb)
  show ?case using Cons.IH [of "merge_into c m"] i by (simp add: merge_into_cores s)
qed simp

text \<open>C4. The deduplication of candidates refines the plain one that keeps the first candidate of every key, in
  order: it differs from it in the metadata only.\<close>

theorem dedupe_keeps_first: "map core (dedupe_candidates cs) = map core (dedupe_by dedupe_key [] cs)"
proof -
  have "map core (dedupe_candidates cs) = map snd (cores (fold merge_into cs []))"
    by (simp add: dedupe_candidates_def comp_def case_prod_beta)
  then show ?thesis by (simp add: fold_merge_cores comp_def)
qed

section \<open>No source is lost\<close>

lemma py_eq_string: "py_eq w (PStr s) \<longleftrightarrow> w = PStr s"
  by (cases w) (auto simp: number_value_def split: option.splits)

lemma merge_items_string: "PStr s \<in> set (merge_items seen vs) \<longleftrightarrow> PStr s \<in> set seen \<or> s \<noteq> [] \<and> PStr s \<in> set vs"
proof (induction seen vs rule: merge_items.induct)
  case (2 seen v vs)
  show ?case
  proof (cases "v = PStr s")
    case True
    show ?thesis using 2 by (auto simp: True is_blank_def list_ex_iff py_eq_string)
  next
    case False
    then show ?thesis using 2 by auto
  qed
qed simp

lemma merged_values_string:
  "PStr s \<in> set (as_list (merged_values u v)) \<longleftrightarrow> s \<noteq> [] \<and> (PStr s \<in> set (as_list u) \<or> PStr s \<in> set (as_list v))"
  by (auto simp: merged_values_def as_list_def [of "PList _"] merge_items_string)

text \<open>The references a candidate stands for: its own and those its metadata lists.\<close>

definition stands_for :: "candidate \<Rightarrow> string \<Rightarrow> bool" where
  "stands_for x r = (c_bom_ref x = r \<or> PStr r \<in> set (as_list (pget (c_metadata x) ''source_bom_refs'')))"

lemma merged_source_refs:
  "pget (c_metadata (merge_candidates x y)) ''source_bom_refs'' =
     merged_values (merged_values (merged_values (pget (c_metadata x) ''source_bom_refs'') (PStr (c_bom_ref x)))
        (pget (c_metadata y) ''source_bom_refs'')) (PStr (c_bom_ref y))"
  by (simp add: merge_candidates_def Let_def pget_def dget_or_def dict_simps)

lemma bom_ref_merge [simp]: "c_bom_ref (merge_candidates x y) = c_bom_ref x"
  by (simp add: merge_candidates_def Let_def)

lemma as_list_string [simp]: "as_list (PStr s) = [PStr s]"
  by (simp add: as_list_def)

lemma merge_stands_for:
  assumes "r \<noteq> []"
  shows "stands_for x r \<Longrightarrow> stands_for (merge_candidates x y) r" and "stands_for y r \<Longrightarrow> stands_for (merge_candidates x y) r"
  using assms by (auto simp: stands_for_def merged_source_refs merged_values_string)

lemma map_of_merge_into:
  "map_of (merge_into c m) k =
     (if k = dedupe_key c then Some (case map_of m k of Some x \<Rightarrow> merge_candidates x c | None \<Rightarrow> c) else map_of m k)"
  by (simp add: merge_into_def dget_def dict_simps split: option.split)

definition kept :: "string \<Rightarrow> string \<Rightarrow> candidate dict \<Rightarrow> bool" where
  "kept k r m = (case map_of m k of None \<Rightarrow> False | Some x \<Rightarrow> stands_for x r)"

lemma kept_merge_into: "r \<noteq> [] \<Longrightarrow> kept k r m \<Longrightarrow> kept k r (merge_into c m)"
  using merge_stands_for(1) by (auto simp: kept_def map_of_merge_into split: option.splits)

lemma kept_incoming: "r \<noteq> [] \<Longrightarrow> stands_for c r \<Longrightarrow> kept (dedupe_key c) r (merge_into c m)"
  using merge_stands_for(2) by (auto simp: kept_def map_of_merge_into split: option.splits)

lemma kept_fold: "r \<noteq> [] \<Longrightarrow> kept k r m \<Longrightarrow> kept k r (fold merge_into cs m)"
  by (induction cs arbitrary: m) (simp_all add: kept_merge_into)

lemma fold_keeps: "r \<noteq> [] \<Longrightarrow> c \<in> set cs \<Longrightarrow> stands_for c r \<Longrightarrow> kept (dedupe_key c) r (fold merge_into cs m)"
  by (induction cs arbitrary: m) (auto simp: kept_fold kept_incoming)

text \<open>C5. Deduplication loses no source: every reference of a candidate is a reference of a kept candidate, either
  its own or one of the sources it lists.\<close>

theorem dedupe_loses_no_source:
  "list_all (\<lambda>c. c_bom_ref c = [] \<or> list_ex (\<lambda>x. stands_for x (c_bom_ref c)) (dedupe_candidates cs)) cs"
proof (unfold list_all_iff, intro ballI)
  fix c assume c: "c \<in> set cs"
  show "c_bom_ref c = [] \<or> list_ex (\<lambda>x. stands_for x (c_bom_ref c)) (dedupe_candidates cs)"
  proof (cases "c_bom_ref c = []")
    case False
    have "stands_for c (c_bom_ref c)" by (simp add: stands_for_def)
    then have "kept (dedupe_key c) (c_bom_ref c) (fold merge_into cs [])" using fold_keeps [OF False c] by blast
    then obtain x where "map_of (fold merge_into cs []) (dedupe_key c) = Some x" "stands_for x (c_bom_ref c)"
      by (auto simp: kept_def split: option.splits)
    then have "x \<in> set (dedupe_candidates cs) \<and> stands_for x (c_bom_ref c)"
      by (force simp: dedupe_candidates_def dest: map_of_SomeD)
    then show ?thesis by (auto simp: list_ex_iff)
  qed simp
qed

section \<open>The snapshot\<close>

text \<open>The count a summary gives under a key.\<close>

definition summary_count :: "pyval dict \<Rightarrow> string \<Rightarrow> string \<Rightarrow> int" where
  "summary_count s field k = (case pget s field of PDict m \<Rightarrow> int_of_val (pget m k) | _ \<Rightarrow> 0)"

lemma summary_count_counter:
  "(case int_dict (sorted_items (counter ks)) of PDict m \<Rightarrow> int_of_val (pget m k) | _ \<Rightarrow> 0) = int (count_list ks k)"
proof -
  have m: "map_of (map (\<lambda>(k, n). (k, PInt n)) d) k = map_option PInt (map_of d k)" for d :: "int dict"
    by (induction d) auto
  have "map_of (sorted_items (counter ks)) = map_of (counter ks)"
    using dwf_counter [of ks] sorted_items_keys [of "counter ks"]
    by (intro map_of_inject_set [THEN iffD2]) (auto simp: dwf_def sorted_items_def distinct_map)
  then show ?thesis
    using counter_count [of ks k] by (auto simp: int_dict_def pget_def dget_or_def m int_of_val_def split: option.splits)
qed

text \<open>The summary of a snapshot counts right: its asset count is the number of candidates, and the count of each
  type, family and scanner is the number of candidates that have it.\<close>

theorem snapshot_summary_counts:
  "pget (snapshot_summary cs) ''asset_count'' = PInt (int (length cs))
   \<and> summary_count (snapshot_summary cs) ''by_type'' k = int (length (filter (\<lambda>c. c_type c = k) cs))
   \<and> summary_count (snapshot_summary cs) ''by_scanner'' k = int (length (filter (\<lambda>c. c_scanner c = k) cs))
   \<and> summary_count (snapshot_summary cs) ''by_algorithm_family'' k =
       int (length (filter (\<lambda>c. or_str (c_family c) ''unknown'' = k) cs))"
proof -
  have "count_list (map f cs) k = length (filter (\<lambda>c. f c = k) cs)" for f :: "candidate \<Rightarrow> string"
    by (induction cs) auto
  then show ?thesis
    by (simp add: summary_count_def snapshot_summary_def pget_def [of "_ # _"] dget_or_def [of "_ # _"] summary_count_counter)
qed

lemma create_assets_frame:
  "db_snapshots (fst (create_assets sn cs d)) = db_snapshots d \<and> db_tasks (fst (create_assets sn cs d)) = db_tasks d"
  by (induction sn cs d rule: create_assets.induct) (auto simp: Let_def)

lemma create_assets_step:
  assumes "find_row (\<lambda>x. (a_snapshot x, a_bom_ref x)) (Some sn, take 255 (c_bom_ref c)) (db_assets d) = None"
    and "find_row tg_id (c_target c) (db_targets d) \<noteq> None"
  shows "create_assets sn (c # cs) d
    = create_assets sn cs (d\<lparr>db_assets := add_row (candidate_asset (next_id a_id (db_assets d)) sn c) (db_assets d)\<rparr>)"
proof -
  obtain t where "find_row tg_id (c_target c) (db_targets d) = Some t" using assms(2) by blast
  then show ?thesis using assms(1) by (simp add: Let_def candidate_asset_def)
qed

text \<open>The columns of an asset that stores a candidate.\<close>

definition stores :: "int \<Rightarrow> asset \<Rightarrow> candidate \<Rightarrow> bool" where
  "stores sn a c \<longleftrightarrow> a_snapshot a = Some sn \<and> a_target a = Some (c_target c) \<and> a_class a = ''crypto''
     \<and> a_bom_ref a = take 255 (c_bom_ref c) \<and> a_name a = take 255 (c_name c) \<and> a_type a = take 32 (c_type c)
     \<and> a_algorithm a = take 128 (c_algorithm c) \<and> a_family a = take 64 (c_family c) \<and> a_metadata a = c_metadata c"

definition target_kept :: "db \<Rightarrow> candidate \<Rightarrow> bool" where
  "target_kept d c \<longleftrightarrow> find_row tg_id (c_target c) (db_targets d) \<noteq> None"

lemma stores_candidate_asset: "stores sn (candidate_asset i sn c) c"
  by (simp add: stores_def candidate_asset_def)

lemma create_assets_stores:
  assumes "distinct (map (\<lambda>c. take 255 (c_bom_ref c)) cs)" and "list_all (target_kept d) cs"
    and "\<forall>c\<in>set cs. (Some sn, take 255 (c_bom_ref c)) \<notin> (\<lambda>x. (a_snapshot x, a_bom_ref x)) ` set (db_assets d)"
  shows "\<exists>rows. create_assets sn cs d = (d\<lparr>db_assets := db_assets d @ rows\<rparr>, Inr ()) \<and> list_all2 (stores sn) rows cs"
  using assms
proof (induction cs arbitrary: d)
  case Nil
  show ?case by (rule exI [of _ "[]"]) simp
next
  case (Cons c cs)
  let ?k = "\<lambda>x. (a_snapshot x, a_bom_ref x)"
  let ?a = "candidate_asset (next_id a_id (db_assets d)) sn c"
  let ?d = "d\<lparr>db_assets := add_row ?a (db_assets d)\<rparr>"
  have step: "create_assets sn (c # cs) d = create_assets sn cs ?d"
    using Cons.prems(2,3) by (intro create_assets_step) (simp_all add: find_row_None target_kept_def)
  have k: "?k ?a = (Some sn, take 255 (c_bom_ref c))" by (simp add: candidate_asset_def)
  have "\<forall>x\<in>set cs. (Some sn, take 255 (c_bom_ref x)) \<notin> ?k ` set (db_assets ?d)"
  proof
    fix x assume x: "x \<in> set cs"
    then have "take 255 (c_bom_ref x) \<noteq> take 255 (c_bom_ref c)" using Cons.prems(1) by (auto simp: image_iff)
    then have "(Some sn, take 255 (c_bom_ref x)) \<noteq> ?k ?a" unfolding k by simp
    moreover have "(Some sn, take 255 (c_bom_ref x)) \<notin> ?k ` set (db_assets d)" using Cons.prems(3) x by simp
    moreover have "?k ` set (db_assets ?d) = insert (?k ?a) (?k ` set (db_assets d))" by (simp add: add_row_def)
    ultimately show "(Some sn, take 255 (c_bom_ref x)) \<notin> ?k ` set (db_assets ?d)" by blast
  qed
  moreover have "list_all (target_kept ?d) cs" using Cons.prems(2) by (simp add: target_kept_def list_all_iff)
  moreover have "distinct (map (\<lambda>c. take 255 (c_bom_ref c)) cs)" using Cons.prems(1) by simp
  ultimately obtain rows where "create_assets sn cs ?d = (?d\<lparr>db_assets := db_assets ?d @ rows\<rparr>, Inr ())"
      "list_all2 (stores sn) rows cs"
    using Cons.IH by blast
  then show ?case
    by (intro exI [of _ "?a # rows"] conjI)
      (simp only: step, simp add: add_row_def, simp add: stores_candidate_asset)
qed

lemma create_assets_duplicate:
  "\<not> distinct (map (\<lambda>c. take 255 (c_bom_ref c)) cs)
     \<or> (\<exists>c\<in>set cs. (Some sn, take 255 (c_bom_ref c)) \<in> (\<lambda>x. (a_snapshot x, a_bom_ref x)) ` set (db_assets d))
   \<Longrightarrow> \<not> is_ok (snd (create_assets sn cs d))"
proof (induction cs arbitrary: d)
  case (Cons c cs)
  let ?k = "\<lambda>x. (a_snapshot x, a_bom_ref x)"
  let ?a = "candidate_asset (next_id a_id (db_assets d)) sn c"
  let ?d = "d\<lparr>db_assets := add_row ?a (db_assets d)\<rparr>"
  have k: "?k ?a = (Some sn, take 255 (c_bom_ref c))" by (simp add: candidate_asset_def)
  have keys: "?k ` set (db_assets ?d) = insert (Some sn, take 255 (c_bom_ref c)) (?k ` set (db_assets d))"
    unfolding k [symmetric] by (simp add: add_row_def)
  show ?case
  proof (cases "find_row ?k (?k ?a) (db_assets d) = None \<and> find_row tg_id (c_target c) (db_targets d) \<noteq> None")
    case True
    then have "(Some sn, take 255 (c_bom_ref c)) \<notin> ?k ` set (db_assets d)" by (simp add: find_row_None k)
    then have "\<not> distinct (map (\<lambda>c. take 255 (c_bom_ref c)) cs)
        \<or> (\<exists>x\<in>set cs. (Some sn, take 255 (c_bom_ref x)) \<in> ?k ` set (db_assets ?d))"
      using Cons.prems unfolding keys by auto
    moreover have "create_assets sn (c # cs) d = create_assets sn cs ?d"
      using True unfolding k by (intro create_assets_step) simp_all
    ultimately show ?thesis using Cons.IH by simp
  next
    case False
    then show ?thesis by (auto simp: Let_def is_ok_def candidate_asset_def)
  qed
qed simp

text \<open>Assets belong to snapshots that exist.\<close>

definition assets_have_snapshots :: "db \<Rightarrow> bool" where
  "assets_have_snapshots d = list_all (\<lambda>a. case a_snapshot a of None \<Rightarrow> True | Some i \<Rightarrow> find_row sn_id i (db_snapshots d) \<noteq> None) (db_assets d)"

lemma next_snapshot_unused:
  assumes "assets_have_snapshots d" and "a \<in> set (db_assets d)"
  shows "a_snapshot a \<noteq> Some (next_id sn_id (db_snapshots d))"
  using assms by (cases "a_snapshot a") (auto simp: assets_have_snapshots_def list_all_iff)

lemma persist_snapshot_split:
  assumes "find_row sj_id sj (db_scan_jobs d) \<noteq> None"
  shows "\<exists>sn. sn_id sn = next_id sn_id (db_snapshots d) \<and> sn_scan_job sn = Some sj
    \<and> sn_summary sn = PDict (snapshot_summary (dedupe_candidates cs))
    \<and> persist_snapshot env sj cs now d =
       (case create_assets (sn_id sn) (dedupe_candidates cs) (d\<lparr>db_snapshots := db_snapshots d @ [sn]\<rparr>) of
          (d', r) \<Rightarrow> (d', rmap (\<lambda>u. sn) r))"
proof -
  obtain row where row: "find_row sj_id sj (db_scan_jobs d) = Some row" using assms by blast
  define sn where "sn = \<lparr>sn_id = next_id sn_id (db_snapshots d), sn_scan_job = Some sj, sn_serial = ''urn:uuid:'' @ se_serial env,
      sn_summary = PDict (snapshot_summary (dedupe_candidates cs)), sn_validation_errors = [], sn_created = now\<rparr>"
  have "persist_snapshot env sj cs now d =
       (case create_assets (sn_id sn) (dedupe_candidates cs) (d\<lparr>db_snapshots := db_snapshots d @ [sn]\<rparr>) of
          (d', r) \<Rightarrow> (d', rmap (\<lambda>u. sn) r))"
    unfolding persist_snapshot_def Let_def sn_def [symmetric] row add_row_def by simp
  then show ?thesis by (intro exI [of _ sn] conjI) (simp_all add: sn_def)
qed

text \<open>C18. Persisting candidates stores each of them: when the scan job and the targets of the kept candidates are
  in the database and the kept candidates have distinct references (as far as the column stores them), a
  new snapshot of the job is added, with the summary of the kept candidates; its assets are the kept
  candidates in their order, each with its columns cut to their lengths; the rest of the database,
  the other assets included, is as before.\<close>

theorem persist_snapshot_stores:
  assumes "assets_have_snapshots d" and "find_row sj_id sj (db_scan_jobs d) \<noteq> None"
    and "list_all (target_kept d) (dedupe_candidates cs)"
    and "distinct (map (\<lambda>c. take 255 (c_bom_ref c)) (dedupe_candidates cs))"
  shows "\<exists>sn rows. persist_snapshot env sj cs now d =
       (d\<lparr>db_snapshots := db_snapshots d @ [sn], db_assets := db_assets d @ rows\<rparr>, Inr sn)
     \<and> find_row sn_id (sn_id sn) (db_snapshots d) = None \<and> sn_scan_job sn = Some sj
     \<and> sn_summary sn = PDict (snapshot_summary (dedupe_candidates cs))
     \<and> list_all2 (stores (sn_id sn)) rows (dedupe_candidates cs)
     \<and> filter (\<lambda>a. a_snapshot a = Some (sn_id sn)) (db_assets d @ rows) = rows"
proof -
  obtain sn where sn: "sn_id sn = next_id sn_id (db_snapshots d)" "sn_scan_job sn = Some sj"
      "sn_summary sn = PDict (snapshot_summary (dedupe_candidates cs))"
      "persist_snapshot env sj cs now d =
       (case create_assets (sn_id sn) (dedupe_candidates cs) (d\<lparr>db_snapshots := db_snapshots d @ [sn]\<rparr>) of
          (d', r) \<Rightarrow> (d', rmap (\<lambda>u. sn) r))"
    using persist_snapshot_split [OF assms(2)] by blast
  let ?d = "d\<lparr>db_snapshots := db_snapshots d @ [sn]\<rparr>"
  have fresh: "a_snapshot a \<noteq> Some (sn_id sn)" if "a \<in> set (db_assets d)" for a
    using next_snapshot_unused [OF assms(1) that] by (simp add: sn(1))
  then have unused: "(Some (sn_id sn), r) \<notin> (\<lambda>x. (a_snapshot x, a_bom_ref x)) ` set (db_assets ?d)" for r by force
  have "list_all (target_kept ?d) (dedupe_candidates cs)"
    using assms(3) by (simp add: target_kept_def list_all_iff)
  then obtain rows where rows: "create_assets (sn_id sn) (dedupe_candidates cs) ?d = (?d\<lparr>db_assets := db_assets ?d @ rows\<rparr>, Inr ())"
      "list_all2 (stores (sn_id sn)) rows (dedupe_candidates cs)"
    using create_assets_stores [OF assms(4), of ?d "sn_id sn"] unused by blast
  have "list_all (\<lambda>a. a_snapshot a = Some (sn_id sn)) rows"
    using rows(2) by (auto simp: list_all_length list_all2_conv_all_nth stores_def)
  then have own: "filter (\<lambda>a. a_snapshot a = Some (sn_id sn)) rows = rows" by (simp add: list_all_iff)
  have other: "filter (\<lambda>a. a_snapshot a = Some (sn_id sn)) (db_assets d) = []"
    using fresh by (simp add: filter_empty_conv)
  have eq: "persist_snapshot env sj cs now d =
       (d\<lparr>db_snapshots := db_snapshots d @ [sn], db_assets := db_assets d @ rows\<rparr>, Inr sn)"
    by (simp add: sn(4) rows(1))
  show ?thesis
    by (intro exI [of _ sn] exI [of _ rows] conjI eq sn(2,3) rows(2))
      (simp_all add: sn(1) own other [unfolded sn(1)] own [unfolded sn(1)])
qed

definition sample_scan_env :: scan_env where
  "sample_scan_env = \<lparr>se_network = (\<lambda>t. Inr []), se_homepage = (\<lambda>t. Inr None), se_post_scan = (\<lambda>a ks. Inr []), se_serial = ''0''\<rparr>"

definition sample_found :: "string \<Rightarrow> pyval dict \<Rightarrow> candidate" where
  "sample_found ref m =
     \<lparr>c_target = 6, c_scanner = ''network'', c_name = ''web'', c_type = ''certificate'', c_algorithm = ''RSA-2048'',
      c_family = ''RSA'', c_bom_ref = ref, c_metadata = m\<rparr>"

definition sample_persist_db :: db where
  "sample_persist_db = empty_db\<lparr>db_targets := [sample_target],
     db_scan_jobs := [\<lparr>sj_id = 2, sj_job = 4, sj_target_ids = [6], sj_scanners = [''network'']\<rparr>]\<rparr>"

definition sample_found_list :: "candidate list" where
  "sample_found_list = [sample_found ''a'' [(''fingerprint_sha256'', PStr ''f'')], sample_found ''b'' [],
     sample_found ''c'' [(''fingerprint_sha256'', PStr ''F'')]]"

text \<open>The witness: three candidates, of which the third has the fingerprint of the first and is merged with it.\<close>

theorem persist_snapshot_stores_witness:
  "\<exists>sn rows. persist_snapshot sample_scan_env 2 sample_found_list 5 sample_persist_db =
       (sample_persist_db\<lparr>db_snapshots := db_snapshots sample_persist_db @ [sn],
          db_assets := db_assets sample_persist_db @ rows\<rparr>, Inr sn)
     \<and> find_row sn_id (sn_id sn) (db_snapshots sample_persist_db) = None \<and> sn_scan_job sn = Some 2
     \<and> sn_summary sn = PDict (snapshot_summary (dedupe_candidates sample_found_list))
     \<and> list_all2 (stores (sn_id sn)) rows (dedupe_candidates sample_found_list)
     \<and> filter (\<lambda>a. a_snapshot a = Some (sn_id sn)) (db_assets sample_persist_db @ rows) = rows"
proof (rule persist_snapshot_stores)
  show "assets_have_snapshots sample_persist_db" by code_simp
  show "find_row sj_id 2 (db_scan_jobs sample_persist_db) \<noteq> None" by code_simp
  show "list_all (target_kept sample_persist_db) (dedupe_candidates sample_found_list)" by code_simp
  show "distinct (map (\<lambda>c. take 255 (c_bom_ref c)) (dedupe_candidates sample_found_list))" by code_simp
qed

text \<open>Two kept candidates with one reference (of which only one has a fingerprint) fail the scan: nothing
  renames the second one.\<close>

theorem duplicate_reference_fails:
  assumes "\<not> distinct (map (\<lambda>c. take 255 (c_bom_ref c)) (dedupe_candidates cs))"
  shows "\<not> is_ok (snd (persist_snapshot env sj cs now d))"
proof (cases "find_row sj_id sj (db_scan_jobs d) = None")
  case True
  then show ?thesis by (simp add: persist_snapshot_def Let_def is_ok_def)
next
  case False
  then obtain sn where "persist_snapshot env sj cs now d =
       (case create_assets (sn_id sn) (dedupe_candidates cs) (d\<lparr>db_snapshots := db_snapshots d @ [sn]\<rparr>) of
          (d', r) \<Rightarrow> (d', rmap (\<lambda>u. sn) r))"
    using persist_snapshot_split [of sj d cs env now] by blast
  moreover have "\<not> is_ok (snd (create_assets (sn_id sn) (dedupe_candidates cs) (d\<lparr>db_snapshots := db_snapshots d @ [sn]\<rparr>)))"
    using create_assets_duplicate assms by blast
  ultimately show ?thesis by (auto simp: is_ok_iff case_prod_beta rmap_Inr_iff)
qed

theorem duplicate_reference_kept:
  "let cs = [sample_found ''a'' [(''fingerprint_sha256'', PStr ''f'')], sample_found ''a'' []]
   in \<not> distinct (map (\<lambda>c. take 255 (c_bom_ref c)) (dedupe_candidates cs))"
  by code_simp

section \<open>Inferred contexts\<close>

lemma fold_dset_other: "k \<notin> set ks \<Longrightarrow> map_of (fold (\<lambda>j. dset j (f j)) ks m) k = map_of m k"
  by (induction ks arbitrary: m) (auto simp: dict_simps)

lemma inferred_keeps:
  assumes "inferred_context inference ctx = Some ctx'" and "k \<in> set TARGET_CONTEXT_FIELDS"
    and "pget (dmerge default_context ctx) k \<noteq> PNone"
  shows "pget ctx' k = pget (dmerge default_context ctx) k"
proof -
  let ?c = "dmerge default_context ctx"
  define filled where "filled = fold (\<lambda>j. dset j (pget inference j)) (applied_fields inference ?c) ?c"
  have "k \<notin> set (applied_fields inference ?c)" using assms(3) by (simp add: applied_fields_def)
  then have f: "map_of filled k = map_of ?c k" by (simp add: filled_def fold_dset_other)
  have "k \<noteq> ''homepage_inference''" using assms(2) by (auto simp: TARGET_CONTEXT_FIELDS_def)
  then have "map_of ctx' k = map_of filled k"
    using assms(1) unfolding inferred_context_def Let_def filled_def [symmetric]
    by (auto simp: dict_simps split: pyval.splits if_splits)
  then show ?thesis using f by (simp add: pget_def dget_or_def)
qed

lemma default_context_blank: "pget default_context k = PNone"
  by (simp add: default_context_def pget_def dget_or_def)

lemma merged_context: "dwf ctx \<Longrightarrow> pget (dmerge default_context ctx) k = pget ctx k"
  using default_context_blank [of k] by (auto simp: pget_def dget_or_def dict_simps split: option.splits)

text \<open>The inference of a context from a homepage never overwrites: whatever is inferred, every context field
  the target has a value for keeps it, and no other target is touched.\<close>

theorem inference_never_overwrites:
  assumes "dwf (tg_context t)"
  shows "case apply_homepage_inference t inference d of (t', d') \<Rightarrow>
    list_all (\<lambda>k. pget (tg_context t) k = PNone \<or> pget (tg_context t') k = pget (tg_context t) k) TARGET_CONTEXT_FIELDS
    \<and> filter (\<lambda>x. tg_id x \<noteq> tg_id t) (db_targets d') = filter (\<lambda>x. tg_id x \<noteq> tg_id t) (db_targets d)"
proof -
  have f: "filter (\<lambda>x. tg_id x \<noteq> i) (map (\<lambda>x. if tg_id x = i then x\<lparr>tg_context := c\<rparr> else x) xs) = filter (\<lambda>x. tg_id x \<noteq> i) xs" for i c xs
    by (induction xs) auto
  have "pget (tg_context t) k = PNone \<or> pget c k = pget (tg_context t) k"
    if "inferred_context m (tg_context t) = Some c" "k \<in> set TARGET_CONTEXT_FIELDS" for m c k
    using inferred_keeps [OF that] merged_context [OF assms] by auto
  then show ?thesis by (auto simp: apply_homepage_inference_def f list_all_iff split: option.split)
qed

theorem inference_never_overwrites_witness:
  "case apply_homepage_inference (sample_target\<lparr>tg_context := [(''exposure'', PStr ''internal'')]\<rparr>)
          (Some [(''exposure'', PStr ''public''), (''criticality'', PStr ''high'')]) empty_db of (t', d') \<Rightarrow>
    list_all (\<lambda>k. pget (tg_context (sample_target\<lparr>tg_context := [(''exposure'', PStr ''internal'')]\<rparr>)) k = PNone
        \<or> pget (tg_context t') k = pget (tg_context (sample_target\<lparr>tg_context := [(''exposure'', PStr ''internal'')]\<rparr>)) k) TARGET_CONTEXT_FIELDS
    \<and> filter (\<lambda>x. tg_id x \<noteq> tg_id (sample_target\<lparr>tg_context := [(''exposure'', PStr ''internal'')]\<rparr>)) (db_targets d')
        = filter (\<lambda>x. tg_id x \<noteq> tg_id (sample_target\<lparr>tg_context := [(''exposure'', PStr ''internal'')]\<rparr>)) (db_targets empty_db)"
  by (rule inference_never_overwrites) (simp add: dwf_def)

section \<open>Logs\<close>

lemma log_scanners_effect:
  assumes "log_scanners job t status ks done_count all_count now d = (n, d')"
  shows "n = done_count + int (length ks)
    \<and> map rl_scanner (db_run_logs d') = map rl_scanner (db_run_logs d) @ map fst ks
    \<and> db_agents d' = db_agents d \<and> db_tasks d' = db_tasks d"
  using assms
  by (induction job t status ks done_count all_count now d rule: log_scanners.induct)
    (auto simp: add_log_def update_progress_def add_row_def)

lemma host_agent_cong: "db_agents d' = db_agents d \<Longrightarrow> host_agent t d' = host_agent t d"
  by (simp add: host_agent_def)

lemma dedupe_distinct: "distinct xs \<Longrightarrow> dedupe xs = xs"
  by (simp add: dedupe_def dedupe_by_fixed)

lemma supported_partition:
  assumes "supported_agent_scanners t kinds now d = (ss, ms)" and "distinct kinds"
  shows "mset (ss @ map fst ms) = mset kinds" and "ss \<noteq> [] \<Longrightarrow> \<exists>a. host_agent t d = Some a"
proof -
  have "mset (filter P kinds) + mset (filter (\<lambda>k. \<not> P k) kinds) = mset kinds" for P by simp
  then show "mset (ss @ map fst ms) = mset kinds" and "ss \<noteq> [] \<Longrightarrow> \<exists>a. host_agent t d = Some a"
    using assms by (auto simp: supported_agent_scanners_def Let_def dedupe_distinct multiset.map_comp comp_def split: if_splits option.splits)
qed

lemma run_agent_scanners_logs:
  assumes "distinct kinds" and "run_agent_scanners env job t kinds done_count all_count now d = (r, d')"
  shows "(\<exists>cs. r = Inr (cs, done_count + int (length kinds)))
    \<and> mset (map rl_scanner (db_run_logs d')) = mset (map rl_scanner (db_run_logs d)) + mset kinds
    \<and> db_tasks d' = db_tasks d"
proof -
  obtain ss ms where sm: "supported_agent_scanners t kinds now d = (ss, ms)" by (rule prod.exhaust)
  obtain n1 d1 where l1: "log_scanners job t ''SKIPPED'' (map (\<lambda>(k, err). (k, 0, Some err)) ms) done_count all_count now d = (n1, d1)"
    by (rule prod.exhaust)
  have "map fst (map (\<lambda>(k, err). (k, 0 :: int, Some err)) ms) = map fst ms" by (simp add: comp_def case_prod_beta)
  note e1 = log_scanners_effect [OF l1, unfolded this length_map]
  note part = supported_partition [OF sm assms(1)]
  have len: "length ss + length ms = length kinds" using arg_cong [OF part(1), of size] by simp
  note eq = assms(2) [unfolded run_agent_scanners_def sm prod.case l1]
  show ?thesis
  proof (cases "ss = []")
    case True
    then have "r = Inr ([], n1)" "d' = d1" using eq by simp_all
    then show ?thesis using e1 part(1) len True by simp
  next
    case False
    obtain a where a: "host_agent t d1 = Some a" using part(2) [OF False] e1 host_agent_cong by metis
    define ans where "ans = rbind (se_post_scan env a ss) (\<lambda>resp.
        rbind (py_iter (dget_or resp ''findings'' (PList []))) (\<lambda>fs. map_agent_findings t fs ss))"
    have end_case: ?thesis
      if "log_scanners job t st (map (\<lambda>k. (k, f k, g k)) ss) n1 all_count now d1 = (n2, d2)" "r = Inr (cs, n2)" "d' = d2" for st f g n2 d2 cs
      using log_scanners_effect [OF that(1)] that(2,3) e1 part(1) len by (simp add: comp_def union_ac)
    show ?thesis
    proof (cases ans)
      case (Inl e)
      obtain n2 d2 where l: "log_scanners job t ''ERROR'' (map (\<lambda>k. (k, 0, Some (take 128 (exc_str e)))) ss) n1 all_count now d1 = (n2, d2)"
        by (rule prod.exhaust)
      have "r = Inr ([], n2)" "d' = d2"
        using eq unfolding if_not_P [OF False] a option.case ans_def [symmetric] Inl sum.case l prod.case by simp_all
      then show ?thesis by (rule end_case [OF l])
    next
      case (Inr cs)
      obtain n2 d2 where l: "log_scanners job t ''SUCCESS'' (map (\<lambda>k. (k, dget_or (counter (map c_scanner cs)) k 0, None)) ss) n1 all_count now d1 = (n2, d2)"
        by (rule prod.exhaust)
      have "r = Inr (cs, n2)" "d' = d2"
        using eq unfolding if_not_P [OF False] a option.case ans_def [symmetric] Inr sum.case l prod.case by simp_all
      then show ?thesis by (rule end_case [OF l])
    qed
  qed
qed

text \<open>Running the scanners of a host agent never raises, whatever the agent answers, and accounts for every
  requested scanner once: each has one new log, and the progress grows by their number.\<close>

theorem agent_scanners_accounted:
  assumes "distinct kinds"
  shows "case run_agent_scanners env job t kinds done_count all_count now d of
     (Inl e, d') \<Rightarrow> False
   | (Inr (cs, n), d') \<Rightarrow> n = done_count + int (length kinds)
       \<and> mset (map rl_scanner (db_run_logs d')) = mset (map rl_scanner (db_run_logs d)) + mset kinds"
proof (cases "run_agent_scanners env job t kinds done_count all_count now d")
  case (Pair r d')
  then show ?thesis using run_agent_scanners_logs [OF assms Pair] by auto
qed

theorem agent_scanners_accounted_witness:
  "case run_agent_scanners sample_scan_env 4 sample_target [''agent.keystore'', ''agent.ssh_config''] 1 3 0 empty_db of
     (Inl e, d') \<Rightarrow> False
   | (Inr (cs, n), d') \<Rightarrow> n = 1 + int (length [''agent.keystore'', ''agent.ssh_config''])
       \<and> mset (map rl_scanner (db_run_logs d')) = mset (map rl_scanner (db_run_logs empty_db)) + mset [''agent.keystore'', ''agent.ssh_config'']"
  by (rule agent_scanners_accounted) simp

section \<open>The worker\<close>

lemma claim_scan_locks:
  assumes "task_of d i = Some t" and "t_status t = T_QUEUED" and "claim_scan_job_task i now d = Inr (p, d')"
  shows "\<exists>t'. task_of d' i = Some t' \<and> t_attempts t' = t_attempts t + 1
           \<and> t_status t' = (if p = None then T_CANCELLED else T_RUNNING)"
  using assms by (auto simp: claim_scan_job_task_def lock_task_cases [OF assms(1)] res_simps row_simps split: option.splits if_splits)

lemma task_of_link [simp]: "task_of (link_post_migration_snapshot r d) k = task_of d k"
  by (simp add: link_post_migration_snapshot_def Let_def split: option.split)

lemma task_of_create_run: "create_run sn p now d = Inr (r, d') \<Longrightarrow> task_of d' k = task_of d k"
  by (auto simp: create_run_def Let_def res_simps)

lemma task_of_enqueue_run: "task_of d k = Some t \<Longrightarrow> task_of (enqueue_run r now d) k = Some t"
  by (simp add: enqueue_run_def task_of_enqueue)

lemma availability_keeps_task:
  assumes "enqueue_availability_check j result now d = Inr (res, d')" and "task_of d k = Some t"
  shows "task_of d' k = Some t"
proof (cases "res = result \<and> d' = d")
  case False
  have c: "pget (j_request j) ''auto_availability_check'' = PBool True" "truthy (pget result ''snapshot_id'')"
    using assms(1) False by (auto simp: enqueue_availability_check_def split: if_splits)
  let ?p = "\<lparr>rq_baseline = None, rq_trigger = ''discovery'', rq_profile = ''smoke'', rq_thresholds = [],
      rq_environment = [(''source'', PStr ''discovery_pipeline''), (''scan_job_id'', pget result ''scan_job_id''),
                        (''origin'', pget (j_request j) ''origin'')]\<rparr>"
  obtain sn where e: "(case create_run sn ?p now d of Inl f \<Rightarrow> Inl (as_exception f)
     | Inr (r, d1) \<Rightarrow> Inr (dset ''availability_snapshot_id'' (PInt (sn_id sn)) (dset ''availability_run_id'' (PInt (pr_id r)) result),
                           enqueue_run r now d1)) = Inr (res, d')"
    using assms(1) unfolding enqueue_availability_check_def using c by (simp only: simp_thms if_False rbind_Inr_iff) blast
  obtain q where q: "create_run sn ?p now d = Inr q" using e by (cases "create_run sn ?p now d") simp_all
  obtain r d1 where "q = (r, d1)" by (cases q)
  then have cr: "create_run sn ?p now d = Inr (r, d1)" and d': "d' = enqueue_run r now d1" using e q by simp_all
  show ?thesis unfolding d' by (rule task_of_enqueue_run) (simp add: task_of_create_run [OF cr] assms(2))
qed (use assms in simp)

lemma complete_scan_ends:
  assumes t: "task_of d i = Some t" and c: "complete_scan_job_task i now r d = Inr (r', d')"
  shows "\<exists>t'. task_of d' i = Some t' \<and> t_attempts t' = t_attempts t \<and> t_status t' \<in> {T_COMPLETED, T_CANCELLED}"
proof -
  let ?t = "t\<lparr>t_status := T_COMPLETED, t_last_error := None\<rparr>"
  have k: "task_of (set_task ?t d) i = Some ?t" using t by (simp add: row_simps)
  show ?thesis
    using c t availability_keeps_task [OF _ k]
    by (auto simp: complete_scan_job_task_def res_simps row_simps split: option.splits if_splits)
qed

lemma fail_scan_ends:
  assumes "task_of d i = Some t" and "fail_scan_job_task i now e d = Inr d'"
  shows "\<exists>t'. task_of d' i = Some t' \<and> t_attempts t' = t_attempts t \<and> t_status t' = T_FAILED"
  using assms by (auto simp: fail_scan_job_task_def res_simps row_simps split: option.splits)

interpretation scan: queue_worker claim_scan_job_task complete_scan_job_task fail_scan_job_task
proof
  fix d i t now
  assume t: "task_of d i = Some t"
  show "t_status t = T_CANCELLED \<Longrightarrow> claim_scan_job_task i now d = Inr (None, d)"
    and "t_status t \<notin> {T_CANCELLED, T_QUEUED} \<Longrightarrow>
         claim_scan_job_task i now d = Inl (ValueError (''QueuedTask '' @ str_int i @ '' is not queued''))"
    by (simp_all add: claim_scan_job_task_def lock_task_cases [OF t])
qed (use claim_scan_locks complete_scan_ends fail_scan_ends in blast)+

lemma tasks_apply_inference: "apply_homepage_inference t m d = (t', d') \<Longrightarrow> db_tasks d' = db_tasks d"
  by (auto simp: apply_homepage_inference_def split: option.splits if_splits)

lemma tasks_run_network: "run_network_scanner env job t now d = (cs, t', d') \<Longrightarrow> db_tasks d' = db_tasks d"
  by (auto simp: run_network_scanner_def add_log_def tasks_apply_inference split: sum.splits prod.splits)

lemma tasks_log_scanners: "db_tasks (snd (log_scanners job t status ks n m now d)) = db_tasks d"
  using log_scanners_effect [of job t status ks n m now d] by (cases "log_scanners job t status ks n m now d") simp

lemma tasks_run_agent_scanners: "db_tasks (snd (run_agent_scanners env job t kinds n m now d)) = db_tasks d"
proof -
  have l: "log_scanners job t status ks a m now b = (c, e) \<Longrightarrow> db_tasks e = db_tasks b" for status ks a b c e
    using tasks_log_scanners [of job t status ks a m now b] by simp
  show ?thesis unfolding run_agent_scanners_def by (auto simp: l split: prod.split option.split sum.split)
qed

lemma tasks_network_turn: "network_turn env job scanners t cs n m now d = (cs', t', n', d') \<Longrightarrow> db_tasks d' = db_tasks d"
  by (auto simp: network_turn_def update_progress_def tasks_run_network split: if_splits prod.splits)

lemma tasks_agent_turn: "db_tasks (snd (agent_turn env job scanners t cs n m now d)) = db_tasks d"
proof -
  have a: "run_agent_scanners env job t kinds n m now d = (q, d1) \<Longrightarrow> db_tasks d1 = db_tasks d" for kinds q d1
    using tasks_run_agent_scanners [of env job t kinds n m now d] by simp
  show ?thesis by (auto simp: agent_turn_def Let_def a split: prod.split sum.split)
qed

lemma tasks_scan_targets: "db_tasks (fst (scan_targets env job scanners ids rows cs n m now d)) = db_tasks d"
proof (induction ids arbitrary: rows cs n d)
  case (Cons i ids)
  show ?case
  proof (cases "find_row tg_id i rows")
    case (Some t)
    obtain cs1 t1 n1 d1 where net: "network_turn env job scanners t cs n m now d = (cs1, t1, n1, d1)" by (metis prod_cases4)
    obtain q d2 where ag: "agent_turn env job scanners t1 cs1 n1 m now d1 = (q, d2)" by (rule prod.exhaust)
    have "db_tasks d2 = db_tasks d"
      using tasks_network_turn [OF net] tasks_agent_turn [of env job scanners t1 cs1 n1 m now d1] by (simp add: ag)
    then show ?thesis by (cases q) (auto simp: Some net ag Cons.IH)
  qed simp
qed simp

lemma tasks_persist_snapshot: "db_tasks (fst (persist_snapshot env sj cs now d)) = db_tasks d"
  using create_assets_frame by (simp add: persist_snapshot_def Let_def case_prod_beta)

lemma tasks_run_scan: "db_tasks (fst (run_scan_job_payload env now p d)) = db_tasks d"
proof -
  have s: "scan_targets env job scanners ids rows cs n m now d = (d', r) \<Longrightarrow> db_tasks d' = db_tasks d" for job scanners ids rows cs n m d' r
    using tasks_scan_targets [of env job scanners ids rows cs n m now d] by simp
  have e: "persist_snapshot env sj cs now d1 = (d', r) \<Longrightarrow> db_tasks d' = db_tasks d1" for sj cs d1 d' r
    using tasks_persist_snapshot [of env sj cs now d1] by simp
  have u: "recompute_snapshot_risks i w now d1 = (d', r) \<Longrightarrow> db_tasks d' = db_tasks d1" for i w d1 d' r
    using tasks_recompute(1) [of i w now d1] by simp
  show ?thesis unfolding run_scan_job_payload_def by (auto simp: s e u split: sum.split prod.split)
qed

lemma run_scan_keeps_task: "keeps_task (run_scan_job_payload env now) i"
  by (simp add: keeps_task_def tasks_run_scan)

text \<open>C3. A scan task is worked on at most once, whatever the outcome.  Processing a queued task either fails in the
  claim, before any work, with the database unchanged; or it leaves the task with exactly one more
  attempt and no longer queued (completed or cancelled after a normal return; failed, cancelled or left
  running after an exception), and processing it again, at any time, changes nothing.\<close>

theorem scan_runs_once:
  assumes "task_of d i = Some t" and "t_status t = T_QUEUED" and "process_scan_job_task env i now d = (d', x)"
  shows "(\<exists>e. claim_scan_job_task i now d = Inl e \<and> x = Inl e \<and> d' = d)
    \<or> (\<exists>t'. task_of d' i = Some t' \<and> t_attempts t' = t_attempts t + 1
          \<and> t_status t' \<in> (if is_ok x then {T_COMPLETED, T_CANCELLED} else {T_FAILED, T_RUNNING, T_CANCELLED})
          \<and> fst (process_scan_job_task env i later d') = d')"
  unfolding process_scan_job_task_def
  by (rule scan.processed_once [OF assms(1,2) run_scan_keeps_task assms(3) [unfolded process_scan_job_task_def]])

definition sample_scan_db :: db where
  "sample_scan_db = empty_db\<lparr>db_jobs := [sample_job ''scan_job'' PENDING], db_targets := [sample_target],
     db_scan_jobs := [\<lparr>sj_id = 2, sj_job = 4, sj_target_ids = [6], sj_scanners = [''network'']\<rparr>],
     db_tasks := [sample_task ''scan_job'' [(''scan_job_id'', PInt 2)]]\<rparr>"

lemma sample_scan_returns: "is_ok (snd (process_scan_job_task sample_scan_env 9 5 sample_scan_db))"
  by code_simp

theorem scan_runs_once_witness:
  "let (d', x) = process_scan_job_task sample_scan_env 9 5 sample_scan_db
   in (\<exists>e. claim_scan_job_task 9 5 sample_scan_db = Inl e \<and> x = Inl e \<and> d' = sample_scan_db)
    \<or> (\<exists>t'. task_of d' 9 = Some t' \<and> t_attempts t' = t_attempts (sample_task ''scan_job'' [(''scan_job_id'', PInt 2)]) + 1
          \<and> t_status t' \<in> (if is_ok x then {T_COMPLETED, T_CANCELLED} else {T_FAILED, T_RUNNING, T_CANCELLED})
          \<and> fst (process_scan_job_task sample_scan_env 9 60 d') = d')"
proof -
  obtain d' x where p: "process_scan_job_task sample_scan_env 9 5 sample_scan_db = (d', x)" by (rule prod.exhaust)
  have "task_of sample_scan_db 9 = Some (sample_task ''scan_job'' [(''scan_job_id'', PInt 2)])"
    by (simp add: sample_scan_db_def find_row_Cons)
  from scan_runs_once [OF this _ p, of 60] show ?thesis by (simp add: p)
qed

end
