(* ===== verification/Regex.thy ===== *)
theory Regex
  imports Prelude
begin

text \<open>
  The part of \<open>re\<close> the program uses: patterns of literals, alternatives, an optional part, \<open>.*\<close>, \<open>\d+\<close>
  and the word boundary.  \<open>ends r s i\<close> are the positions at which a match of \<open>r\<close> that starts at \<open>i\<close> can end, and
  \<open>search r s\<close> is \<open>re.search(r, s) is not None\<close>.  For every constructor but \<open>Any_star\<close> the list has the order in which
  \<open>re\<close> tries the ends, so its head is the end of the match; \<open>replace_matches\<close> is \<open>re.sub\<close> with it.  The relation \<open>matches\<close> says what a pattern means, and
  \<open>ends\<close> computes it.  Word characters are the ASCII ones.
\<close>

datatype rx = Word string | Any_star | Digits | Bound | Opt rx | Cat rx rx | Or rx rx

definition is_word_char :: "char \<Rightarrow> bool" where
  "is_word_char c = (is_alnum c \<or> c = CHR ''_'')"

definition word_at :: "string \<Rightarrow> nat \<Rightarrow> bool" where
  "word_at s i = (i < length s \<and> is_word_char (s ! i))"

text \<open>A boundary: exactly one of the neighbours of the position is a word character.\<close>

definition boundary :: "string \<Rightarrow> nat \<Rightarrow> bool" where
  "boundary s i = ((0 < i \<and> word_at s (i - 1)) \<noteq> word_at s i)"

definition line_length :: "string \<Rightarrow> nat \<Rightarrow> nat" where
  "line_length s i = length (takeWhile (\<lambda>c. c \<noteq> CHR 0x0A) (drop i s))"

definition digit_run :: "string \<Rightarrow> nat \<Rightarrow> nat" where
  "digit_run s i = length (takeWhile is_digit (drop i s))"

fun ends :: "rx \<Rightarrow> string \<Rightarrow> nat \<Rightarrow> nat list" where
  "ends (Word w) s i = (if take (length w) (drop i s) = w then [i + length w] else [])"
| "ends Any_star s i = [i..<Suc (i + line_length s i)]"
| "ends Digits s i = rev [Suc i..<Suc (i + digit_run s i)]"
| "ends Bound s i = (if boundary s i then [i] else [])"
| "ends (Opt r) s i = ends r s i @ [i]"
| "ends (Cat a b) s i = concat (map (ends b s) (ends a s i))"
| "ends (Or a b) s i = ends a s i @ ends b s i"

definition search :: "rx \<Rightarrow> string \<Rightarrow> bool" where
  "search r s = list_ex (\<lambda>i. ends r s i \<noteq> []) [0..<Suc (length s)]"

text \<open>An alternative of literals.\<close>

fun words :: "string list \<Rightarrow> rx" where
  "words [] = Word []"
| "words [w] = Word w"
| "words (w # ws) = Or (Word w) (words ws)"

section \<open>Replacing the matches\<close>

text \<open>\<open>re.sub\<close> with \<open>re.IGNORECASE\<close> for a pattern in upper case that matches no empty text: from the position \<open>i\<close> on, the text
  is read in upper case, a match is replaced and skipped, any other character is kept.\<close>

function replace_from :: "rx \<Rightarrow> string \<Rightarrow> string \<Rightarrow> nat \<Rightarrow> string" where
  "replace_from r new s i =
     (if length s \<le> i then []
      else (case ends r (upper s) i of
              j # _ \<Rightarrow> if i < j then new @ replace_from r new s j else s ! i # replace_from r new s (Suc i)
            | [] \<Rightarrow> s ! i # replace_from r new s (Suc i)))"
  by pat_completeness auto

termination
  by (relation "measure (\<lambda>(r, new, s, i). length s - i)") auto

declare replace_from.simps [simp del]

definition replace_matches :: "rx \<Rightarrow> string \<Rightarrow> string \<Rightarrow> string" where
  "replace_matches r new s = replace_from r new s 0"

section \<open>What a pattern means\<close>

inductive matches :: "rx \<Rightarrow> string \<Rightarrow> nat \<Rightarrow> nat \<Rightarrow> bool" where
  word: "take (length w) (drop i s) = w \<Longrightarrow> matches (Word w) s i (i + length w)"
| star_stop: "matches Any_star s i i"
| star_step: "i < length s \<Longrightarrow> s ! i \<noteq> CHR 0x0A \<Longrightarrow> matches Any_star s (Suc i) j \<Longrightarrow> matches Any_star s i j"
| digit_last: "i < length s \<Longrightarrow> is_digit (s ! i) \<Longrightarrow> matches Digits s i (Suc i)"
| digit_more: "i < length s \<Longrightarrow> is_digit (s ! i) \<Longrightarrow> matches Digits s (Suc i) j \<Longrightarrow> matches Digits s i j"
| bound: "boundary s i \<Longrightarrow> matches Bound s i i"
| opt_some: "matches r s i j \<Longrightarrow> matches (Opt r) s i j"
| opt_none: "matches (Opt r) s i i"
| cat: "matches a s i k \<Longrightarrow> matches b s k j \<Longrightarrow> matches (Cat a b) s i j"
| or_left: "matches a s i j \<Longrightarrow> matches (Or a b) s i j"
| or_right: "matches b s i j \<Longrightarrow> matches (Or a b) s i j"

inductive_cases matches_cases [elim!]:
  "matches (Word w) s i j" "matches Bound s i j" "matches (Opt r) s i j" "matches (Cat a b) s i j" "matches (Or a b) s i j"

inductive_cases star_cases: "matches Any_star s i j"

lemma line_length_step: "i < length s \<Longrightarrow> s ! i \<noteq> CHR 0x0A \<Longrightarrow> line_length s i = Suc (line_length s (Suc i))"
  unfolding line_length_def by (subst Cons_nth_drop_Suc [symmetric]) auto

lemma line_length_stop: "i < length s \<Longrightarrow> s ! i = CHR 0x0A \<Longrightarrow> line_length s i = 0"
  unfolding line_length_def by (subst Cons_nth_drop_Suc [symmetric]) auto

lemma star_sound: "matches r s i j \<Longrightarrow> r = Any_star \<Longrightarrow> i \<le> j \<and> j \<le> i + line_length s i"
  by (induction r s i j rule: matches.induct) (auto simp: line_length_step)

lemma star_complete: "i + n \<le> i + line_length s i \<Longrightarrow> matches Any_star s i (i + n)"
proof (induction n arbitrary: i)
  case 0
  then show ?case by (simp add: matches.star_stop)
next
  case (Suc n)
  have i: "i < length s" using Suc.prems by (cases "i < length s") (simp_all add: line_length_def)
  have c: "s ! i \<noteq> CHR 0x0A" using Suc.prems line_length_stop [OF i] by auto
  have "n \<le> line_length s (Suc i)" using Suc.prems line_length_step [OF i c] by simp
  then have "matches Any_star s (Suc i) (Suc i + n)" using Suc.IH [of "Suc i"] by simp
  then show ?case using matches.star_step [OF i c] by simp
qed

lemma matches_star: "matches Any_star s i j \<longleftrightarrow> i \<le> j \<and> j \<le> i + line_length s i"
  using star_sound [of Any_star s i j] star_complete [of i "j - i" s] by auto

lemma digit_run_step: "i < length s \<Longrightarrow> is_digit (s ! i) \<Longrightarrow> digit_run s i = Suc (digit_run s (Suc i))"
  unfolding digit_run_def by (subst Cons_nth_drop_Suc [symmetric]) auto

lemma digit_run_stop: "i < length s \<Longrightarrow> \<not> is_digit (s ! i) \<Longrightarrow> digit_run s i = 0"
  unfolding digit_run_def by (subst Cons_nth_drop_Suc [symmetric]) auto

lemma digits_sound: "matches r s i j \<Longrightarrow> r = Digits \<Longrightarrow> i < j \<and> j \<le> i + digit_run s i"
  by (induction r s i j rule: matches.induct) (auto simp: digit_run_step)

lemma digits_complete: "n < digit_run s i \<Longrightarrow> matches Digits s i (Suc (i + n))"
proof (induction n arbitrary: i)
  case 0
  have i: "i < length s" using 0 by (cases "i < length s") (simp_all add: digit_run_def)
  have "is_digit (s ! i)" using 0 digit_run_stop [OF i] by auto
  then show ?case using matches.digit_last [OF i] by simp
next
  case (Suc n)
  have i: "i < length s" using Suc.prems by (cases "i < length s") (simp_all add: digit_run_def)
  have c: "is_digit (s ! i)" using Suc.prems digit_run_stop [OF i] by auto
  have "n < digit_run s (Suc i)" using Suc.prems digit_run_step [OF i c] by simp
  then have "matches Digits s (Suc i) (Suc (Suc i + n))" by (rule Suc.IH)
  then show ?case using matches.digit_more [OF i c] by simp
qed

lemma matches_digits: "matches Digits s i j \<longleftrightarrow> i < j \<and> j \<le> i + digit_run s i"
  using digits_sound [of Digits s i j] digits_complete [of "j - Suc i" s i] by auto

lemma ends_matches: "j \<in> set (ends r s i) \<longleftrightarrow> matches r s i j"
proof (induction r arbitrary: i j)
  case Any_star
  then show ?case by (auto simp: matches_star)
next
  case Digits
  then show ?case by (auto simp: matches_digits)
qed (auto intro: matches.intros split: if_splits)

lemma search_matches: "search r s \<longleftrightarrow> (\<exists>i\<le>length s. \<exists>j. matches r s i j)"
proof -
  have "ends r s i \<noteq> [] \<longleftrightarrow> (\<exists>j. matches r s i j)" for i
    by (metis ends_matches list.set_intros(1) neq_Nil_conv empty_iff list.set(1))
  then show ?thesis unfolding search_def list_ex_iff by (auto simp: less_Suc_eq_le simp del: upt_Suc)
qed

section \<open>Literals\<close>

lemma contains_at: "contains s w \<longleftrightarrow> (\<exists>i\<le>length s. take (length w) (drop i s) = w)"
proof
  assume "contains s w"
  then obtain u v where "s = u @ w @ v" by (auto simp: contains_def sublist_def)
  then show "\<exists>i\<le>length s. take (length w) (drop i s) = w" by (intro exI [of _ "length u"]) simp
next
  assume "\<exists>i\<le>length s. take (length w) (drop i s) = w"
  then obtain i where "take (length w) (drop i s) = w" by blast
  then have "s = take i s @ w @ drop (length w) (drop i s)" by (metis append_take_drop_id)
  then show "contains s w" unfolding contains_def sublist_def by blast
qed

lemma search_Word: "search (Word w) s \<longleftrightarrow> contains s w"
  by (auto simp: search_matches contains_at intro: matches.word)

lemma search_Or: "search (Or a b) s \<longleftrightarrow> search a s \<or> search b s"
  by (auto simp: search_matches intro: matches.or_left matches.or_right)

lemma search_words: "ws \<noteq> [] \<Longrightarrow> search (words ws) s \<longleftrightarrow> list_ex (contains s) ws"
  by (induction ws rule: words.induct) (auto simp: search_Word search_Or)

text \<open>Searching a pattern succeeds exactly when the pattern matches somewhere in the text, by the meaning of
  patterns as a relation.\<close>

theorem search_correct: "search r s = (\<exists>i j. i \<le> length s \<and> matches r s i j)"
  by (auto simp: search_matches)

end
