(* ===== verification/Migration_Engine.thy ===== *)
theory Migration_Engine
  imports Regex Aggregates
begin

text \<open>
  The migration engine (\<open>migration_engine/engine.py\<close> with \<open>migration_engine/mapping_rules.json\<close>): the
  first mapping rule whose pattern and asset type fit gives a candidate, the candidate and the context a
  strategy, and these the recommendation, its blockers, the agility score and the playbook.

  A rule, a candidate, a recommendation and an item are records with a field per key of the code's dicts;
  a key that may be missing is an option.  The context is a dict of dynamic values, and the comparisons the
  code applies to them raise what Python raises.  A set of capabilities is the list of its distinct members.
\<close>

section \<open>The mapping rules\<close>

record rule =
  rule_id :: string
  rule_regex :: rx
  rule_types :: "string list"
  rule_kind :: string
  rule_purpose :: "string option"
  rule_preserve :: bool
  rule_hybrid :: "string list"
  rule_replace :: "string list"
  rule_long_hybrid :: "string list option"
  rule_long_replace :: "string list option"
  rule_weak :: bool
  rule_weak_markers :: "string list"

definition pqc_markers :: "string list" where
  "pqc_markers = [''ML-KEM'', ''ML-DSA'', ''SLH-DSA'', ''FALCON'', ''FN-DSA'']"

definition quantum_vulnerable_markers :: "string list" where
  "quantum_vulnerable_markers =
     [''RSA'', ''DSA'', ''ECDSA'', ''ECDH'', ''DH'', ''ED25519'', ''ED448'', ''X25519'', ''X448'', ''CURVE25519'',
      ''CURVE448'', ''MODP'', ''DIFFIE-HELLMAN'', ''GROUP14'', ''P-256'', ''P256'', ''PRIME256V1'', ''SECP256R1'',
      ''NISTP256'', ''ECP-256'', ''ECP256'']"

definition keep_rule :: "string \<Rightarrow> rx \<Rightarrow> string \<Rightarrow> string option \<Rightarrow> rule" where
  "keep_rule i r k p =
     \<lparr>rule_id = i, rule_regex = r, rule_types = [], rule_kind = k, rule_purpose = p, rule_preserve = True,
      rule_hybrid = [], rule_replace = [], rule_long_hybrid = None, rule_long_replace = None, rule_weak = False,
      rule_weak_markers = []\<rparr>"

definition kem_rule :: "string \<Rightarrow> rx \<Rightarrow> string list \<Rightarrow> string \<Rightarrow> string list \<Rightarrow> string list \<Rightarrow> string list \<Rightarrow> rule" where
  "kem_rule i r ts p hyb rep weak =
     \<lparr>rule_id = i, rule_regex = r, rule_types = ts, rule_kind = ''kem'', rule_purpose = Some p, rule_preserve = False,
      rule_hybrid = hyb, rule_replace = rep, rule_long_hybrid = None, rule_long_replace = None, rule_weak = False,
      rule_weak_markers = weak\<rparr>"

text \<open>A signature rule pairs the current algorithm with a target, another one for long-term use.\<close>

definition signature_rule :: "string \<Rightarrow> rx \<Rightarrow> string list \<Rightarrow> string \<Rightarrow> string \<Rightarrow> string \<Rightarrow> string list \<Rightarrow> rule" where
  "signature_rule i r ts current target long weak =
     \<lparr>rule_id = i, rule_regex = r, rule_types = ts, rule_kind = ''signature'', rule_purpose = Some ''digital_signature'',
      rule_preserve = False, rule_hybrid = [current, target], rule_replace = [target],
      rule_long_hybrid = Some [current, long], rule_long_replace = Some [long], rule_weak = False, rule_weak_markers = weak\<rparr>"

definition ecp256 :: rx where
  "ecp256 = Cat (Word ''ECP'') (Cat (Opt (Word ''-'')) (Word ''256''))"

definition dh_regex :: rx where
  "dh_regex = Or (Cat Bound (Cat (Word ''DH'') Bound)) (words [''MODP'', ''DIFFIE-HELLMAN'', ''GROUP''])"

definition sha1_rule :: rule where
  "sha1_rule =
     \<lparr>rule_id = ''sha1-signing'', rule_regex = words [''SHA-1'', ''SHA1''], rule_types = [], rule_kind = ''hash'',
      rule_purpose = Some ''digital_signature'', rule_preserve = False, rule_hybrid = [], rule_replace = [''SHA-256+''],
      rule_long_hybrid = None, rule_long_replace = None, rule_weak = True, rule_weak_markers = []\<rparr>"

definition aes128_rule :: rule where
  "aes128_rule =
     \<lparr>rule_id = ''aes128'', rule_regex = Word ''AES-128'', rule_types = [], rule_kind = ''symmetric'',
      rule_purpose = Some ''symmetric_encryption'', rule_preserve = False, rule_hybrid = [], rule_replace = [''AES-256''],
      rule_long_hybrid = None, rule_long_replace = None, rule_weak = False, rule_weak_markers = []\<rparr>"

definition kex_rules :: "rule list" where
  "kex_rules =
     [kem_rule ''ecdh-x25519-p256-kex''
        (Or (words [''X25519'', ''CURVE25519'', ''ECDH-SHA2-NISTP256'']) (Or ecp256 (Word ''NISTP256'')))
        [''protocol'', ''key_agreement''] ''key_agreement'' [''X25519'', ''ML-KEM-768''] [''ML-KEM-768''] [],
      kem_rule ''dh-kex-aliases'' dh_regex [''protocol'', ''key_agreement''] ''key_agreement''
        [''X25519'', ''ML-KEM-768''] [''ML-KEM-768''] [''1024'']]"

definition safe_rules :: "rule list" where
  "safe_rules =
     [keep_rule ''safe-classical-hash'' (words [''SHA-256'', ''SHA-384'', ''SHA-512'', ''SHA2'']) ''safe_classical''
        (Some ''hash_integrity''),
      keep_rule ''safe-classical-symmetric'' (words [''AES-192'', ''AES-256'', ''CHACHA20'', ''HMAC'']) ''safe_classical''
        (Some ''symmetric_encryption'')]"

definition signature_rules :: "rule list" where
  "signature_rules =
     [signature_rule ''ecdsa-p384-p521''
        (Cat (Word ''ECDSA'') (Cat Any_star
           (words [''384'', ''521'', ''P-384'', ''P384'', ''P-521'', ''P521'', ''SECP384'', ''SECP521''])))
        [] ''ECDSA P-384'' ''ML-DSA-87'' ''SLH-DSA-SHA2-192s'' [],
      signature_rule ''ecdsa-p256-aliases''
        (Cat Bound (Cat (words [''P-256'', ''P256'', ''PRIME256V1'', ''SECP256R1'', ''NISTP256'']) Bound))
        [''certificate'', ''key'', ''algorithm'', ''ssh_host_key'', ''ssh_user_key'']
        ''ECDSA P-256'' ''ML-DSA-65'' ''SLH-DSA-SHA2-128s'' [],
      signature_rule ''ecdsa-default'' (Word ''ECDSA'') [] ''ECDSA P-256'' ''ML-DSA-65'' ''SLH-DSA-SHA2-128s'' [],
      signature_rule ''eddsa-default'' (words [''ED25519'', ''ED448'', ''EDDSA'']) []
        ''{algorithm}'' ''ML-DSA-65'' ''SLH-DSA-SHA2-128s'' []]"

definition agreement_rules :: "rule list" where
  "agreement_rules =
     [kem_rule ''ecdh-high-security''
        (Or (Cat (Word ''ECDH'') (Cat Any_star (words [''384'', ''521'']))) (words [''X448'', ''CURVE448'']))
        [] ''key_agreement'' [''X448'', ''ML-KEM-1024''] [''ML-KEM-1024''] [],
      kem_rule ''ecdh-default''
        (Or (words [''ECDH'', ''X25519'', ''CURVE25519'']) (Or ecp256 (words [''NISTP256'', ''SECP256R1''])))
        [] ''key_agreement'' [''X25519'', ''ML-KEM-768''] [''ML-KEM-768''] [],
      kem_rule ''dh-default'' dh_regex [] ''key_agreement'' [''X25519'', ''ML-KEM-768''] [''ML-KEM-768''] [''1024'']]"

definition rsa_rules :: "rule list" where
  "rsa_rules =
     [kem_rule ''rsa-kem-like'' (Word ''RSA'') [''key'', ''protocol'', ''key_agreement''] ''key_exchange''
        [''X25519'', ''ML-KEM-768''] [''ML-KEM-768''] [''1024''],
      signature_rule ''rsa-signature'' (Word ''RSA'') [] ''RSA-2048'' ''ML-DSA-65'' ''SLH-DSA-SHA2-128s'' [''1024'']]"

definition mapping_rules :: "rule list" where
  "mapping_rules =
     keep_rule ''pqc-ready'' (words pqc_markers) ''pqc'' None # kex_rules @ sha1_rule # aes128_rule #
       safe_rules @ signature_rules @ agreement_rules @ rsa_rules"

section \<open>Candidates\<close>

record candidate =
  cand_kind :: string
  cand_purpose :: string
  cand_hybrid :: "string list"
  cand_replace :: "string list"
  cand_long_hybrid :: "string list option"
  cand_long_replace :: "string list option"
  cand_weak :: bool

definition normalize :: "string \<Rightarrow> string" where
  "normalize s = strip (upper s)"

text \<open>The same for \<open>None\<close> or a string, and for a dynamic value.\<close>

definition normalize_opt :: "string option \<Rightarrow> string" where
  "normalize_opt v = (case v of None \<Rightarrow> [] | Some s \<Rightarrow> normalize s)"

definition normalize_value :: "pyval \<Rightarrow> string" where
  "normalize_value v = normalize (py_str (py_or v (PStr [])))"

definition any_in :: "string list \<Rightarrow> string \<Rightarrow> bool" where
  "any_in markers text = list_ex (contains text) markers"

definition rule_matches :: "rule \<Rightarrow> string \<Rightarrow> string \<Rightarrow> bool" where
  "rule_matches r combined asset_type =
     (\<not> (rule_types r \<noteq> [] \<and> asset_type \<notin> set (rule_types r)) \<and> search (rule_regex r) combined)"

text \<open>\<open>str(value).replace("{algorithm}", algorithm)\<close>: the occurrences from left to right, none overlapping.\<close>

definition placeholder :: string where
  "placeholder = ''{algorithm}''"

function render :: "string \<Rightarrow> string \<Rightarrow> string" where
  "render algorithm [] = []"
| "render algorithm (c # cs) =
     (if prefix placeholder (c # cs) then algorithm @ render algorithm (drop (length placeholder) (c # cs))
      else c # render algorithm cs)"
  by pat_completeness auto
termination by (relation "measure (length \<circ> snd)") (auto simp: placeholder_def)

definition render_algorithm_set :: "string list \<Rightarrow> string \<Rightarrow> string list" where
  "render_algorithm_set values algorithm = map (render algorithm) values"

definition infer_purpose :: "rule \<Rightarrow> string \<Rightarrow> string" where
  "infer_purpose r combined =
     (if contains combined ''SLH-DSA'' then ''long_term_signature''
      else if any_in [''ML-DSA'', ''FALCON'', ''FN-DSA''] combined then ''digital_signature''
      else if contains combined ''ML-KEM'' then ''key_exchange''
      else if rule_kind r = ''signature'' then ''digital_signature''
      else if rule_kind r = ''kem'' then ''key_exchange''
      else if rule_kind r = ''hash'' then ''hash_integrity''
      else if rule_kind r = ''symmetric'' then ''symmetric_encryption''
      else if rule_kind r = ''safe_classical'' \<and> any_in [''AES'', ''CHACHA''] combined then ''symmetric_encryption''
      else if rule_kind r = ''safe_classical'' \<and> any_in [''SHA'', ''HMAC''] combined then ''hash_integrity''
      else ''unknown'')"

definition candidate_from_rule :: "rule \<Rightarrow> string \<Rightarrow> string \<Rightarrow> candidate" where
  "candidate_from_rule r algorithm combined =
     \<lparr>cand_kind = rule_kind r,
      cand_purpose = (case rule_purpose r of Some p \<Rightarrow> or_str p (infer_purpose r combined) | None \<Rightarrow> infer_purpose r combined),
      cand_hybrid = (if rule_preserve r then [algorithm] else render_algorithm_set (rule_hybrid r) algorithm),
      cand_replace = (if rule_preserve r then [algorithm] else render_algorithm_set (rule_replace r) algorithm),
      cand_long_hybrid = map_option (\<lambda>vs. render_algorithm_set vs algorithm) (rule_long_hybrid r),
      cand_long_replace = map_option (\<lambda>vs. render_algorithm_set vs algorithm) (rule_long_replace r),
      cand_weak = (rule_weak r \<or> any_in (map normalize (rule_weak_markers r)) combined)\<rparr>"

definition candidate_for_algorithm :: "string \<Rightarrow> string option \<Rightarrow> string \<Rightarrow> candidate" where
  "candidate_for_algorithm algorithm family asset_type =
     (let combined = strip (normalize_opt family @ '' '' @ normalize algorithm)
      in case List.find (\<lambda>r. rule_matches r combined asset_type) mapping_rules of
           Some r \<Rightarrow> candidate_from_rule r algorithm combined
         | None \<Rightarrow> \<lparr>cand_kind = ''unknown'', cand_purpose = ''unknown'', cand_hybrid = [algorithm], cand_replace = [algorithm],
                    cand_long_hybrid = None, cand_long_replace = None, cand_weak = False\<rparr>)"

definition long_term_signature_markers :: "string list" where
  "long_term_signature_markers =
     [''archive'', ''audit'', ''backup'', ''code_signing'', ''codesign'', ''legal'', ''notary'', ''package'', ''records'',
      ''timestamp'', ''tsa'']"

text \<open>\<open>normalize(v).replace("-", "_")\<close>.\<close>

definition underscored :: "pyval \<Rightarrow> string" where
  "underscored v = map (\<lambda>c. if c = CHR ''-'' then CHR ''_'' else c) (normalize_value v)"

definition is_long_term_signature_context :: "candidate \<Rightarrow> pyval dict \<Rightarrow> bool" where
  "is_long_term_signature_context c ctx =
     (if cand_kind c \<noteq> ''signature'' then False
      else if cand_long_replace c = None \<or> cand_long_replace c = Some [] then False
      else if pget ctx ''long_term_signature'' = PBool True then True
      else if underscored (pget ctx ''signature_profile'') \<in> set [''LONG_TERM'', ''LONG_TERM_SIGNATURE'', ''ARCHIVE'', ''ARCHIVAL''] then True
      else any_in (map upper long_term_signature_markers)
             (underscored (pget ctx ''service_role'') @ '' '' @ underscored (pget ctx ''purpose'')))"

definition or_list :: "string list option \<Rightarrow> string list \<Rightarrow> string list" where
  "or_list v d = (case v of Some (x # xs) \<Rightarrow> x # xs | _ \<Rightarrow> d)"

definition specialize_candidate_for_context :: "candidate \<Rightarrow> pyval dict \<Rightarrow> candidate" where
  "specialize_candidate_for_context c ctx =
     (if \<not> is_long_term_signature_context c ctx then c
      else c\<lparr>cand_purpose := ''long_term_signature'', cand_hybrid := or_list (cand_long_hybrid c) (cand_hybrid c),
             cand_replace := or_list (cand_long_replace c) (cand_replace c)\<rparr>)"

section \<open>Strategy\<close>

text \<open>\<open>(v or 0) >= 10\<close> and \<open>v in {...}\<close>, which raise on a value without order, or without hash.\<close>

definition at_least_ten :: "pyval \<Rightarrow> py_error + bool" where
  "at_least_ten v =
     (case number_value (py_or v (PInt 0)) of
        Some x \<Rightarrow> Inr (fle (Fin 10) x)
      | None \<Rightarrow> Inl (TypeError ''not supported between instances''))"

definition in_names :: "pyval \<Rightarrow> string list \<Rightarrow> py_error + bool" where
  "in_names v names =
     (case v of PList xs \<Rightarrow> Inl (TypeError ''unhashable type'') | PDict d \<Rightarrow> Inl (TypeError ''unhashable type'')
      | PStr s \<Rightarrow> Inr (s \<in> set names) | _ \<Rightarrow> Inr False)"

definition choose_strategy :: "candidate \<Rightarrow> pyval dict \<Rightarrow> py_error + string" where
  "choose_strategy c ctx =
     (if cand_kind c \<in> set [''pqc'', ''safe_classical''] then Inr ''no_change''
      else if cand_kind c \<in> set [''hash'', ''symmetric''] \<or> cand_weak c then Inr ''replace''
      else if cand_kind c = ''unknown'' then Inr ''hybrid''
      else rbind (at_least_ten (pget ctx ''lifespan_years'')) (\<lambda>long.
        if long then Inr ''hybrid''
        else rbind (if pget ctx ''exposure'' = PStr ''public_internet''
                    then in_names (pget ctx ''criticality'') [''high'', ''critical''] else Inr False) (\<lambda>exposed.
          if exposed then Inr ''hybrid''
          else rbind (in_names (pget ctx ''service_role'') [''pki'', ''auth'', ''kms'', ''payment'']) (\<lambda>central.
            if central then Inr ''hybrid'' else Inr ''hybrid''))))"

section \<open>The recommendation\<close>

record recommendation =
  rec_strategy :: string
  rec_target :: string
  rec_target_set :: "string list"
  rec_final_set :: "string list"
  rec_phase :: string
  rec_blockers :: "string list"
  rec_rollback :: string
  rec_validation :: "string list"
  rec_rationale :: string
  rec_confidence :: pyfloat

definition phase_of :: "string \<Rightarrow> py_error + string" where
  "phase_of strategy =
     (if strategy = ''hybrid'' then Inr ''hybrid_first'' else if strategy = ''replace'' then Inr ''replace_now''
      else if strategy = ''no_change'' then Inr ''monitor'' else Inl (KeyError strategy))"

definition build_blockers :: "string \<Rightarrow> string list \<Rightarrow> candidate \<Rightarrow> string list" where
  "build_blockers strategy caps c =
     (let changes = strategy \<in> set [''hybrid'', ''replace'']
      in (if changes \<and> ''runtime_pqc_supported'' \<notin> set caps then [''runtime_capability_unknown''] else []) @
         (if changes \<and> ''config_policy'' \<notin> set caps then [''config_policy_missing''] else []) @
         (if changes \<and> ''rescan_validation'' \<notin> set caps then [''validation_probe_missing''] else []) @
         (if strategy \<noteq> ''no_change'' \<and> ''rollback_supported'' \<notin> set caps then [''rollback_undefined''] else []) @
         (if cand_kind c = ''unknown'' then [''algorithm_classification_unknown''] else []))"

definition rollback_for :: "string \<Rightarrow> string \<Rightarrow> string" where
  "rollback_for strategy algorithm =
     (if strategy = ''no_change'' then ''No rollout is required; preserve the current configuration.''
      else if strategy = ''hybrid'' then ''Keep an approved rollback path available until service compatibility is verified.''
      else ''Keep a signed and deployable copy of the previous '' @ algorithm @ '' configuration for rollback.'')"

definition validation_for :: "string \<Rightarrow> string \<Rightarrow> string list" where
  "validation_for strategy asset_type =
     (if strategy = ''no_change'' then [''periodic_rescan'']
      else [''rescan_crypto_inventory'', ''verify_client_compatibility''] @
        (if asset_type = ''certificate'' then [''validate_certificate_chain''] else []) @
        (if asset_type \<in> set [''protocol'', ''key''] then [''verify_negotiated_algorithm''] else []))"

definition rationale_details :: "pyval dict \<Rightarrow> string list" where
  "rationale_details ctx =
     (if pget ctx ''lifespan_years'' \<noteq> PNone then [''lifespan='' @ py_str (pget ctx ''lifespan_years'') @ ''y''] else []) @
     (if truthy (pget ctx ''criticality'') then [''criticality='' @ py_str (pget ctx ''criticality'')] else []) @
     (if truthy (pget ctx ''exposure'') then [''exposure='' @ py_str (pget ctx ''exposure'')] else [])"

definition rationale_for :: "string \<Rightarrow> string \<Rightarrow> string \<Rightarrow> pyval dict \<Rightarrow> candidate \<Rightarrow> string" where
  "rationale_for strategy algorithm target ctx c =
     (if strategy = ''no_change'' then
        algorithm @ '' is already PQC-safe or does not require immediate migration under the current policy.''
      else if strategy = ''replace'' then
        ''The current primitive should be replaced with '' @ target @ '' because a direct safer successor is available.''
      else if cand_purpose c = ''long_term_signature'' then
        ''Long-term signature use requires a PQC target; prioritize '' @ target @ '' for durable signature protection.''
      else (let details = rationale_details ctx;
                suffix = (if details \<noteq> [] then '' ('' @ join '', '' details @ '')'' else [])
            in ''The current public-key primitive is quantum-vulnerable; prioritize '' @ target @ '' as the PQC target'' @ suffix @ ''.''))"

definition confidence_for :: "string \<Rightarrow> string list \<Rightarrow> pyfloat" where
  "confidence_for strategy blockers =
     (let base = (if strategy = ''no_change'' then fl (9 / 10) else fl (82 / 100))
      in fround 2 (fmax (fl (45 / 100)) (fsub base (fmul (fl (of_nat (length blockers))) (fl (5 / 100))))))"

definition build_recommendation :: "string \<Rightarrow> string option \<Rightarrow> string \<Rightarrow> pyval dict \<Rightarrow> string list \<Rightarrow> candidate option \<Rightarrow> py_error + recommendation" where
  "build_recommendation algorithm family asset_type ctx caps cand =
     (let c = (case cand of Some c \<Rightarrow> c | None \<Rightarrow> candidate_for_algorithm algorithm family asset_type)
      in rbind (choose_strategy c ctx) (\<lambda>strategy.
        let final_set = (if cand_replace c \<noteq> [] then cand_replace c else cand_hybrid c);
            target_set = (if strategy = ''hybrid'' then final_set else cand_replace c);
            blockers = build_blockers strategy caps c
        in rbind (phase_of strategy) (\<lambda>phase.
          let target = (if target_set \<noteq> [] then join '' + '' target_set else algorithm)
          in Inr \<lparr>rec_strategy = strategy, rec_target = target,
               rec_target_set = (if target_set \<noteq> [] then target_set else [algorithm]),
               rec_final_set = (if final_set \<noteq> [] then final_set else if target_set \<noteq> [] then target_set else [algorithm]),
               rec_phase = phase, rec_blockers = blockers, rec_rollback = rollback_for strategy algorithm,
               rec_validation = validation_for strategy asset_type,
               rec_rationale = rationale_for strategy algorithm target ctx c,
               rec_confidence = confidence_for strategy blockers\<rparr>)))"

record alternative =
  alt_strategy :: string
  alt_target :: string
  alt_trade_off :: string

definition build_alternatives :: "recommendation \<Rightarrow> alternative list" where
  "build_alternatives r =
     (if rec_strategy r \<noteq> ''hybrid'' then []
      else (let final = join '' + '' (rec_final_set r)
            in if final = rec_target r then []
               else [\<lparr>alt_strategy = ''replace'', alt_target = final,
                      alt_trade_off = ''Removes the classical dependency earlier but requires stronger compatibility validation.''\<rparr>]))"

section \<open>Agility and playbook\<close>

definition AGILITY_CAPABILITIES :: "int dict" where
  "AGILITY_CAPABILITIES =
     [(''config_policy'', 20), (''automated_rotation'', 20), (''rollback_supported'', 20), (''rescan_validation'', 15),
      (''owner_known'', 10), (''canary_supported'', 10), (''inventory_fresh'', 5)]"

record agility =
  agi_score :: int
  agi_level :: string
  agi_blockers :: "string list"
  agi_enablers :: "string list"

definition agility_sum :: "string list \<Rightarrow> int" where
  "agility_sum caps = sum_list (map (\<lambda>c. dget_or AGILITY_CAPABILITIES c 0) (remdups caps))"

definition agility_score :: "string list \<Rightarrow> string list \<Rightarrow> int" where
  "agility_score caps blockers =
     max 0 (min 100 (agility_sum caps) - min (int (length blockers) * 8) 40)"

definition agility_level :: "int \<Rightarrow> string" where
  "agility_level score = (if 75 \<le> score then ''HIGH'' else if 45 \<le> score then ''MEDIUM'' else ''LOW'')"

definition build_agility :: "string list \<Rightarrow> string list \<Rightarrow> agility" where
  "build_agility caps blockers =
     (let score = agility_score caps blockers
      in \<lparr>agi_score = score, agi_level = agility_level score, agi_blockers = blockers,
          agi_enablers = sort (filter (\<lambda>c. dhas c AGILITY_CAPABILITIES) (remdups caps))\<rparr>)"

record step =
  st_order :: int
  st_kind :: string
  st_title :: string
  st_action :: string
  st_validation :: string

definition monitor_step :: step where
  "monitor_step =
     \<lparr>st_order = 1, st_kind = ''monitor'', st_title = ''Monitor cryptographic posture'',
      st_action = ''Keep the current algorithm and rescan after runtime or policy changes.'',
      st_validation = ''Confirm the asset remains present with the same PQC-safe algorithm.''\<rparr>"

definition blockers_step :: "int \<Rightarrow> string list \<Rightarrow> step" where
  "blockers_step order blockers =
     \<lparr>st_order = order, st_kind = ''remove_blockers'', st_title = ''Resolve agility blockers'',
      st_action = ''Address blockers before rollout: '' @ join '', '' blockers @ ''.'',
      st_validation = ''Repeat discovery and confirm capabilities are known.''\<rparr>"

definition prepare_step :: "int \<Rightarrow> recommendation \<Rightarrow> step" where
  "prepare_step order r =
     \<lparr>st_order = order, st_kind = ''prepare_pqc_transition'', st_title = ''Prepare PQC transition'',
      st_action = ''Introduce '' @ rec_target r @ '' and validate service compatibility.'',
      st_validation = join ''; '' (rec_validation r)\<rparr>"

definition complete_step :: "int \<Rightarrow> recommendation \<Rightarrow> step" where
  "complete_step order r =
     \<lparr>st_order = order, st_kind = ''complete_pqc_transition'', st_title = ''Complete PQC transition'',
      st_action = ''After compatibility is proven, converge on '' @ join '', '' (rec_final_set r) @ ''.'',
      st_validation = ''Rescan and verify the PQC target is active.''\<rparr>"

definition replace_step :: "int \<Rightarrow> recommendation \<Rightarrow> step" where
  "replace_step order r =
     \<lparr>st_order = order, st_kind = ''replace_algorithm'', st_title = ''Replace algorithm'',
      st_action = ''Replace the current algorithm with '' @ rec_target r @ ''.'',
      st_validation = join ''; '' (rec_validation r)\<rparr>"

definition build_playbook :: "recommendation \<Rightarrow> agility \<Rightarrow> step list" where
  "build_playbook r a =
     (if rec_strategy r = ''no_change'' then [monitor_step]
      else (let first = (if agi_blockers a \<noteq> [] then [blockers_step 1 (agi_blockers a)] else []);
                order = 1 + int (length first)
            in if rec_strategy r = ''hybrid'' then first @ [prepare_step order r, complete_step (order + 1) r]
               else first @ [replace_step order r]))"

section \<open>The item\<close>

definition is_quantum_vulnerable :: "string \<Rightarrow> string option \<Rightarrow> bool" where
  "is_quantum_vulnerable algorithm family =
     (let combined = normalize_opt family @ '' '' @ normalize algorithm
      in if any_in (map normalize pqc_markers) combined then False
         else any_in (map normalize quantum_vulnerable_markers) combined)"

definition infer_key_size :: "string \<Rightarrow> int option" where
  "infer_key_size algorithm = List.find (\<lambda>size. contains algorithm (str_int size)) [1024, 2048, 3072, 4096, 256, 384, 521, 768]"

record item =
  it_asset :: int
  it_name :: string
  it_type :: string
  it_purpose :: string
  it_algorithm :: string
  it_key_size :: "int option"
  it_vulnerable :: bool
  it_recommendation :: recommendation
  it_alternatives :: "alternative list"
  it_score :: int
  it_tier :: string
  it_agility :: agility
  it_playbook :: "step list"

definition current_algorithm :: "string option \<Rightarrow> string option \<Rightarrow> string" where
  "current_algorithm algorithm family =
     or_str (case algorithm of Some a \<Rightarrow> a | None \<Rightarrow> []) (or_str (case family of Some f \<Rightarrow> f | None \<Rightarrow> []) ''Unknown'')"

definition recommend_migration ::
  "int \<Rightarrow> string \<Rightarrow> string \<Rightarrow> string option \<Rightarrow> string option \<Rightarrow> int \<Rightarrow> string \<Rightarrow> pyval dict \<Rightarrow> string list \<Rightarrow> py_error + item" where
  "recommend_migration asset_id name asset_type algorithm family score tier ctx capabilities =
     (let caps = remdups capabilities; current = current_algorithm algorithm family;
          c = specialize_candidate_for_context (candidate_for_algorithm current family asset_type) ctx
      in rbind (build_recommendation current family asset_type ctx caps (Some c)) (\<lambda>r.
        let a = build_agility caps (rec_blockers r)
        in Inr \<lparr>it_asset = asset_id, it_name = name, it_type = asset_type, it_purpose = cand_purpose c,
             it_algorithm = current, it_key_size = infer_key_size current,
             it_vulnerable = is_quantum_vulnerable current family, it_recommendation = r,
             it_alternatives = build_alternatives r, it_score = score, it_tier = tier, it_agility = a,
             it_playbook = build_playbook r a\<rparr>))"

section \<open>Facts about the rules\<close>

lemma render_id: "CHR ''{'' \<notin> set s \<Longrightarrow> render algorithm s = s"
  by (induction algorithm s rule: render.induct) (auto simp: placeholder_def)

lemma render_set_id: "list_all (\<lambda>s. CHR ''{'' \<notin> set s) vs \<Longrightarrow> render_algorithm_set vs algorithm = vs"
  by (induction vs) (simp_all add: render_algorithm_set_def render_id)

text \<open>A list of targets that an asset can move to: none of them is a template or quantum-vulnerable.\<close>

definition target_names :: "string list \<Rightarrow> bool" where
  "target_names vs =
     (vs \<noteq> [] \<and> list_all (\<lambda>s. CHR ''{'' \<notin> set s) vs \<and> list_all (\<lambda>s. \<not> is_quantum_vulnerable s None) vs)"

definition rule_ok :: "rule \<Rightarrow> bool" where
  "rule_ok r =
     ((rule_preserve r \<longleftrightarrow> rule_kind r \<in> set [''pqc'', ''safe_classical'']) \<and>
      rule_kind r \<in> set [''pqc'', ''safe_classical'', ''hash'', ''symmetric'', ''kem'', ''signature''] \<and>
      (rule_preserve r \<or> target_names (rule_replace r)) \<and>
      (case rule_long_replace r of None \<Rightarrow> True | Some vs \<Rightarrow> target_names vs))"

lemma rules_ok: "list_all rule_ok mapping_rules"
  by code_simp

definition candidate_ok :: "string \<Rightarrow> candidate \<Rightarrow> bool" where
  "candidate_ok algorithm c =
     (cand_replace c \<noteq> [] \<and> (cand_kind c \<in> set [''pqc'', ''safe_classical'', ''unknown''] \<and> cand_replace c = [algorithm] \<or>
      cand_kind c \<in> set [''hash'', ''symmetric'', ''kem'', ''signature''] \<and> target_names (cand_replace c)))"

lemma candidate_from_rule_ok: "rule_ok r \<Longrightarrow> candidate_ok algorithm (candidate_from_rule r algorithm combined)"
  by (cases "rule_preserve r")
    (auto simp: candidate_ok_def candidate_from_rule_def rule_ok_def target_names_def render_set_id)

lemma candidate_cases:
  "(\<exists>r combined. rule_ok r \<and> candidate_for_algorithm algorithm family asset_type = candidate_from_rule r algorithm combined) \<or>
   candidate_for_algorithm algorithm family asset_type =
     \<lparr>cand_kind = ''unknown'', cand_purpose = ''unknown'', cand_hybrid = [algorithm], cand_replace = [algorithm],
      cand_long_hybrid = None, cand_long_replace = None, cand_weak = False\<rparr>"
proof -
  let ?combined = "strip (normalize_opt family @ '' '' @ normalize algorithm)"
  show ?thesis
  proof (cases "List.find (\<lambda>r. rule_matches r ?combined asset_type) mapping_rules")
    case None
    then show ?thesis by (simp add: candidate_for_algorithm_def)
  next
    case (Some r)
    then have "rule_ok r" using rules_ok find_Some_iff_in by (fastforce simp: list_all_iff)
    moreover have "candidate_for_algorithm algorithm family asset_type = candidate_from_rule r algorithm ?combined"
      unfolding candidate_for_algorithm_def Let_def Some by simp
    ultimately show ?thesis by blast
  qed
qed

lemma specialize_kind [simp]:
  "cand_kind (specialize_candidate_for_context c ctx) = cand_kind c" "cand_weak (specialize_candidate_for_context c ctx) = cand_weak c"
  by (simp_all add: specialize_candidate_for_context_def)

lemma specialize_replace:
  "cand_replace (specialize_candidate_for_context c ctx) = cand_replace c \<or>
   cand_kind c = ''signature'' \<and> (\<exists>vs. cand_long_replace c = Some vs \<and> vs \<noteq> [] \<and> cand_replace (specialize_candidate_for_context c ctx) = vs)"
  by (cases "cand_long_replace c")
    (auto simp: specialize_candidate_for_context_def is_long_term_signature_context_def or_list_def split: list.splits)

lemma specialized_ok: "candidate_ok algorithm (specialize_candidate_for_context (candidate_for_algorithm algorithm family asset_type) ctx)"
proof (rule disjE [OF candidate_cases [of algorithm family asset_type]])
  assume "\<exists>r combined. rule_ok r \<and> candidate_for_algorithm algorithm family asset_type = candidate_from_rule r algorithm combined"
  then obtain r combined where r: "rule_ok r"
    and c: "candidate_for_algorithm algorithm family asset_type = candidate_from_rule r algorithm combined" by blast
  let ?c = "candidate_from_rule r algorithm combined"
  have ok: "candidate_ok algorithm ?c" using r by (rule candidate_from_rule_ok)
  show ?thesis unfolding c
  proof (rule disjE [OF specialize_replace [of ?c ctx]])
    assume "cand_replace (specialize_candidate_for_context ?c ctx) = cand_replace ?c"
    then show "candidate_ok algorithm (specialize_candidate_for_context ?c ctx)" using ok by (simp add: candidate_ok_def)
  next
    assume "cand_kind ?c = ''signature'' \<and> (\<exists>vs. cand_long_replace ?c = Some vs \<and> vs \<noteq> [] \<and> cand_replace (specialize_candidate_for_context ?c ctx) = vs)"
    then obtain vs where k: "cand_kind ?c = ''signature''" and l: "cand_long_replace ?c = Some vs"
      and v: "cand_replace (specialize_candidate_for_context ?c ctx) = vs" by blast
    have "target_names vs"
      using r l by (auto simp: candidate_from_rule_def rule_ok_def target_names_def render_set_id split: option.splits)
    then show "candidate_ok algorithm (specialize_candidate_for_context ?c ctx)"
      using k v by (simp add: candidate_ok_def target_names_def)
  qed
next
  assume "candidate_for_algorithm algorithm family asset_type =
     \<lparr>cand_kind = ''unknown'', cand_purpose = ''unknown'', cand_hybrid = [algorithm], cand_replace = [algorithm],
      cand_long_hybrid = None, cand_long_replace = None, cand_weak = False\<rparr>"
  then show ?thesis by (simp add: candidate_ok_def specialize_candidate_for_context_def is_long_term_signature_context_def)
qed

section \<open>The strategy and its targets\<close>

text \<open>What decides the strategy: the kind of the candidate and whether it is classically weak.\<close>

definition strategy_of :: "candidate \<Rightarrow> string" where
  "strategy_of c =
     (if cand_kind c \<in> set [''pqc'', ''safe_classical''] then ''no_change''
      else if cand_kind c \<in> set [''hash'', ''symmetric''] \<or> cand_weak c then ''replace'' else ''hybrid'')"

text \<open>The values the strategy reads are what the context of an asset holds: a number or nothing, and names.\<close>

definition context_typed :: "pyval dict \<Rightarrow> bool" where
  "context_typed ctx =
     ((\<not> truthy (pget ctx ''lifespan_years'') \<or> is_number (pget ctx ''lifespan_years'')) \<and>
      list_all (\<lambda>k. case pget ctx k of PList xs \<Rightarrow> False | PDict d \<Rightarrow> False | _ \<Rightarrow> True) [''criticality'', ''service_role''])"

lemma at_least_ten_error:
  "at_least_ten v = Inl e \<Longrightarrow> e = TypeError ''not supported between instances'' \<and> truthy v \<and> \<not> is_number v"
  by (cases v) (auto simp: at_least_ten_def py_or_def is_number_def number_value_def split: if_splits)

lemma in_names_error:
  "in_names v ns = Inl e \<Longrightarrow> e = TypeError ''unhashable type'' \<and> \<not> (case v of PList xs \<Rightarrow> False | PDict d \<Rightarrow> False | _ \<Rightarrow> True)"
  by (cases v) (auto simp: in_names_def)

lemma choose_strategy_value: "choose_strategy c ctx = Inr s \<Longrightarrow> s = strategy_of c"
  by (auto simp: choose_strategy_def strategy_of_def res_simps split: if_splits)

lemma choose_strategy_error:
  "choose_strategy c ctx = Inl e \<Longrightarrow>
     \<not> context_typed ctx \<and> strategy_of c = ''hybrid'' \<and> e \<in> {TypeError ''not supported between instances'', TypeError ''unhashable type''}"
  unfolding choose_strategy_def strategy_of_def context_typed_def
  by (auto simp: res_simps dest!: at_least_ten_error in_names_error split: if_splits)

lemma phase_of_strategy: "\<exists>p. phase_of (strategy_of c) = Inr p"
  by (simp add: phase_of_def strategy_of_def)

lemma build_recommendation_Inr:
  "build_recommendation algorithm family asset_type ctx caps (Some c) = Inr r \<Longrightarrow> cand_replace c \<noteq> [] \<Longrightarrow>
     rec_strategy r = strategy_of c \<and> rec_target_set r = cand_replace c \<and> rec_final_set r = cand_replace c \<and>
     rec_target r = join '' + '' (cand_replace c) \<and> rec_blockers r = build_blockers (strategy_of c) caps c \<and>
     rec_confidence r = confidence_for (strategy_of c) (build_blockers (strategy_of c) caps c)"
  by (auto simp: build_recommendation_def res_simps Let_def dest!: choose_strategy_value)

lemma build_recommendation_Inl:
  "build_recommendation algorithm family asset_type ctx caps (Some c) = Inl e \<Longrightarrow> choose_strategy c ctx = Inl e"
  using phase_of_strategy [of c] by (auto simp: build_recommendation_def res_simps Let_def dest!: choose_strategy_value)

lemma no_alternatives: "rec_target r = join '' + '' (rec_final_set r) \<Longrightarrow> build_alternatives r = []"
  by (simp add: build_alternatives_def)

section \<open>Confidence\<close>

lemma blockers_length: "length (build_blockers s caps c) \<le> 5"
  by (simp add: build_blockers_def Let_def)

lemma confidence_table:
  "list_all (\<lambda>n. in_range (1 / 2) (91 / 100) (confidence_for s (replicate n []))) [0, 1, 2, 3, 4, 5]"
proof (cases "s = ''no_change''")
  case True
  show ?thesis unfolding True by code_simp
next
  case False
  then have "confidence_for s bs = confidence_for ''hybrid'' bs" for bs by (simp add: confidence_for_def)
  then show ?thesis by (simp only:) code_simp
qed

lemma confidence_length: "confidence_for s bs = confidence_for s (replicate (length bs) [])"
  by (simp add: confidence_for_def)

lemma confidence_bounds:
  assumes "length bs \<le> 5"
  shows "in_range (1 / 2) (91 / 100) (confidence_for s bs)"
proof -
  have "n \<le> 5 \<Longrightarrow> n \<in> set [0, 1, 2, 3, 4, 5]" for n :: nat by auto
  from this [OF assms] have "length bs \<in> set [0, 1, 2, 3, 4, 5]" .
  then show ?thesis using confidence_table [of s] unfolding list_all_iff by (subst confidence_length) blast
qed

section \<open>Recommendations\<close>

text \<open>The candidate that decides a recommendation.\<close>

definition decided_candidate :: "string option \<Rightarrow> string option \<Rightarrow> string \<Rightarrow> pyval dict \<Rightarrow> candidate" where
  "decided_candidate algorithm family asset_type ctx =
     specialize_candidate_for_context (candidate_for_algorithm (current_algorithm algorithm family) family asset_type) ctx"

lemma decided_ok: "candidate_ok (current_algorithm algorithm family) (decided_candidate algorithm family asset_type ctx)"
  unfolding decided_candidate_def by (rule specialized_ok)

lemma recommend_Inr:
  assumes "recommend_migration i n t algorithm family score tier ctx caps = Inr it"
  defines "c \<equiv> decided_candidate algorithm family t ctx"
  shows "rec_strategy (it_recommendation it) = strategy_of c" "rec_target_set (it_recommendation it) = cand_replace c"
    "rec_final_set (it_recommendation it) = cand_replace c" "it_alternatives it = []"
    "rec_blockers (it_recommendation it) = build_blockers (strategy_of c) (remdups caps) c"
    "it_agility it = build_agility (remdups caps) (rec_blockers (it_recommendation it))"
    "it_playbook it = build_playbook (it_recommendation it) (it_agility it)"
    "it_algorithm it = current_algorithm algorithm family" "it_purpose it = cand_purpose c"
    "it_vulnerable it = is_quantum_vulnerable (current_algorithm algorithm family) family"
    "rec_confidence (it_recommendation it) = confidence_for (strategy_of c) (rec_blockers (it_recommendation it))"
proof -
  have ne: "cand_replace c \<noteq> []"
    using decided_ok [of algorithm family t ctx] by (simp add: c_def candidate_ok_def)
  obtain r where b: "build_recommendation (current_algorithm algorithm family) family t ctx (remdups caps) (Some c) = Inr r"
    and it: "it_recommendation it = r" "it_alternatives it = build_alternatives r"
      "it_agility it = build_agility (remdups caps) (rec_blockers r)" "it_playbook it = build_playbook r (it_agility it)"
      "it_algorithm it = current_algorithm algorithm family" "it_purpose it = cand_purpose c"
      "it_vulnerable it = is_quantum_vulnerable (current_algorithm algorithm family) family"
    using assms(1) unfolding recommend_migration_def Let_def rbind_Inr_iff
    by (auto simp: c_def decided_candidate_def)
  note r = build_recommendation_Inr [OF b ne]
  show "rec_strategy (it_recommendation it) = strategy_of c" "rec_target_set (it_recommendation it) = cand_replace c"
    "rec_final_set (it_recommendation it) = cand_replace c" "it_alternatives it = []"
    "rec_blockers (it_recommendation it) = build_blockers (strategy_of c) (remdups caps) c"
    "it_agility it = build_agility (remdups caps) (rec_blockers (it_recommendation it))"
    "it_playbook it = build_playbook (it_recommendation it) (it_agility it)"
    "it_algorithm it = current_algorithm algorithm family" "it_purpose it = cand_purpose c"
    "it_vulnerable it = is_quantum_vulnerable (current_algorithm algorithm family) family"
    "rec_confidence (it_recommendation it) = confidence_for (strategy_of c) (rec_blockers (it_recommendation it))"
    using r it by (simp_all add: no_alternatives)
qed

lemma recommend_Inl:
  assumes "recommend_migration i n t algorithm family score tier ctx caps = Inl e"
  shows "choose_strategy (decided_candidate algorithm family t ctx) ctx = Inl e"
  using assms build_recommendation_Inl
  unfolding recommend_migration_def Let_def rbind_Inl_iff decided_candidate_def by (metis Inl_Inr_False)

text \<open>A recommendation either raises a TypeError, and then only for an algorithm that would get the strategy hybrid
  and a context holding a value of the wrong type, or has the strategy its candidate decides (none for post-quantum and
  safe primitives, a replacement for hashes, ciphers and classically weak keys, hybrid for the rest), the target set and
  the final set of the candidate, a confidence between 0.5 and 0.91, and no alternative: the hybrid sets of the rules are
  never recommended, unlike what the examples of the API show.\<close>

theorem recommendation_outcome:
  "case recommend_migration i n t algorithm family score tier ctx caps of
     Inl e \<Rightarrow> \<not> context_typed ctx \<and> strategy_of (decided_candidate algorithm family t ctx) = ''hybrid'' \<and>
              e \<in> {TypeError ''not supported between instances'', TypeError ''unhashable type''}
   | Inr it \<Rightarrow> rec_strategy (it_recommendation it) = strategy_of (decided_candidate algorithm family t ctx) \<and>
              rec_target_set (it_recommendation it) = cand_replace (decided_candidate algorithm family t ctx) \<and>
              rec_final_set (it_recommendation it) = rec_target_set (it_recommendation it) \<and>
              in_range (1 / 2) (91 / 100) (rec_confidence (it_recommendation it)) \<and> it_alternatives it = []"
proof (cases "recommend_migration i n t algorithm family score tier ctx caps")
  case (Inl e)
  then show ?thesis using choose_strategy_error [OF recommend_Inl [OF Inl]] by simp
next
  case (Inr it)
  show ?thesis unfolding Inr by (simp add: recommend_Inr [OF Inr] confidence_bounds blockers_length)
qed

section \<open>The mapping of the document\<close>

text \<open>The contexts of long-term signatures, by themselves.\<close>

definition long_term_use :: "pyval dict \<Rightarrow> bool" where
  "long_term_use ctx \<longleftrightarrow>
     pget ctx ''long_term_signature'' = PBool True
     \<or> underscored (pget ctx ''signature_profile'') \<in> set [''LONG_TERM'', ''LONG_TERM_SIGNATURE'', ''ARCHIVE'', ''ARCHIVAL'']
     \<or> any_in (map upper long_term_signature_markers)
         (underscored (pget ctx ''service_role'') @ '' '' @ underscored (pget ctx ''purpose''))"

text \<open>A row of the table of docs/11 (11.2.1) for one name of an algorithm: its family and asset type, the
  strategies the document admits (11.2.2), the algorithms of the column Replace, and, for a signature, the
  algorithms for long-term use.\<close>

record mapping_row =
  mr_algorithm :: string
  mr_family :: string
  mr_type :: string
  mr_strategies :: "string list"
  mr_final :: "string list"
  mr_durable :: "string list option"

definition mapping_row_of ::
  "string list \<Rightarrow> string list \<Rightarrow> string list option \<Rightarrow> string \<times> string \<times> string \<Rightarrow> mapping_row" where
  "mapping_row_of strategies final durable = (\<lambda>(algorithm, family, asset_type).
     \<lparr>mr_algorithm = algorithm, mr_family = family, mr_type = asset_type, mr_strategies = strategies, mr_final = final,
      mr_durable = durable\<rparr>)"

definition documented_mapping :: "mapping_row list" where
  "documented_mapping =
     map (mapping_row_of [''hybrid''] [''ML-DSA-65''] (Some [''SLH-DSA-SHA2-128s'']))
       [(''RSA-2048'', ''RSA'', ''certificate''), (''RSA-3072'', ''RSA'', ''certificate''), (''RSA-4096'', ''RSA'', ''certificate''),
        (''ECDSA P-256'', ''ECDSA'', ''certificate''), (''prime256v1'', ''ECDSA'', ''certificate''),
        (''secp256r1'', ''ECDSA'', ''certificate''), (''Ed25519'', ''EdDSA'', ''certificate'')] @
     map (mapping_row_of [''replace''] [''ML-DSA-65''] (Some [''SLH-DSA-SHA2-128s''])) [(''RSA-1024'', ''RSA'', ''certificate'')] @
     map (mapping_row_of [''hybrid''] [''ML-DSA-87''] None)
       [(''ECDSA P-384'', ''ECDSA'', ''certificate''), (''ECDSA P-521'', ''ECDSA'', ''certificate'')] @
     map (mapping_row_of [''hybrid''] [''ML-KEM-768''] (Some [''ML-KEM-768'']))
       [(''RSA-2048'', ''RSA'', ''key''), (''RSA-2048'', ''RSA'', ''protocol''), (''RSA-2048'', ''RSA'', ''key_agreement''),
        (''modp14'', ''DH'', ''protocol''), (''modp15'', ''DH'', ''protocol''), (''ECDH P-256'', ''ECDH'', ''protocol''),
        (''ECP-256'', ''ECDH'', ''protocol''), (''X25519'', ''ECDH'', ''protocol''), (''Curve25519'', ''ECDH'', ''protocol''),
        (''DH group14'', ''DH'', ''protocol''), (''modp2048'', ''DH'', ''protocol'')] @
     map (mapping_row_of [''hybrid''] [''ML-KEM-1024''] (Some [''ML-KEM-1024'']))
       [(''ECDH P-384'', ''ECDH'', ''protocol''), (''ECDH P-521'', ''ECDH'', ''protocol''), (''X448'', ''ECDH'', ''protocol'')] @
     map (mapping_row_of [''replace''] [''SHA-256+''] (Some [''SHA-256+''])) [(''SHA-1'', ''SHA'', ''algorithm'')] @
     map (mapping_row_of [''hybrid'', ''replace''] [''AES-256''] (Some [''AES-256''])) [(''AES-128'', ''AES'', ''algorithm'')] @
     concat (map (\<lambda>(a, f). [mapping_row_of [''no_change''] [a] (Some [a]) (a, f, ''algorithm'')])
       [(''SHA-256'', ''SHA''), (''SHA-384'', ''SHA''), (''SHA-512'', ''SHA''), (''AES-192'', ''AES''), (''AES-256'', ''AES''),
        (''X25519 + ML-KEM-768'', ''ML-KEM''), (''ML-KEM-768'', ''ML-KEM''), (''ML-DSA-65'', ''ML-DSA''),
        (''SLH-DSA-SHA2-128s'', ''SLH-DSA''), (''Falcon-512'', ''Falcon'')])"

definition mapped_candidate :: "mapping_row \<Rightarrow> candidate" where
  "mapped_candidate r =
     candidate_for_algorithm (current_algorithm (Some (mr_algorithm r)) (Some (mr_family r))) (Some (mr_family r)) (mr_type r)"

definition row_agrees :: "mapping_row \<Rightarrow> bool" where
  "row_agrees r =
     (let c = mapped_candidate r
      in strategy_of c \<in> set (mr_strategies r) \<and> cand_replace c = mr_final r
         \<and> (case mr_durable r of None \<Rightarrow> True
            | Some x \<Rightarrow> (if cand_kind c = ''signature'' \<and> cand_long_replace c \<noteq> None \<and> cand_long_replace c \<noteq> Some []
                        then cand_long_replace c = Some x else x = mr_final r) \<and> x \<noteq> []))"

lemma rows_agree: "list_all row_agrees documented_mapping"
  by code_simp

lemma nested_guards:
  "(if \<not> a then False else if b then False else if c then True else if d then True else e) \<longleftrightarrow> (c \<or> d \<or> e) \<and> a \<and> \<not> b"
  by simp

lemma specialize_for_use:
  "cand_replace (specialize_candidate_for_context c ctx) =
     (if long_term_use ctx \<and> cand_kind c = ''signature'' \<and> cand_long_replace c \<noteq> None \<and> cand_long_replace c \<noteq> Some []
      then or_list (cand_long_replace c) (cand_replace c) else cand_replace c)"
proof -
  have "is_long_term_signature_context c ctx \<longleftrightarrow>
      long_term_use ctx \<and> cand_kind c = ''signature'' \<and> cand_long_replace c \<noteq> None \<and> cand_long_replace c \<noteq> Some []"
    unfolding is_long_term_signature_context_def long_term_use_def de_Morgan_disj [symmetric] by (rule nested_guards)
  then show ?thesis by (simp add: specialize_candidate_for_context_def)
qed

lemma or_list_Some: "x \<noteq> [] \<Longrightarrow> or_list (Some x) y = x"
  by (cases x) (simp_all add: or_list_def)

lemma specialized_row:
  assumes "row_agrees r"
  shows "strategy_of (specialize_candidate_for_context (mapped_candidate r) ctx) \<in> set (mr_strategies r)"
    and "\<not> long_term_use ctx \<Longrightarrow> cand_replace (specialize_candidate_for_context (mapped_candidate r) ctx) = mr_final r"
    and "long_term_use ctx \<Longrightarrow> mr_durable r = Some x \<Longrightarrow>
           cand_replace (specialize_candidate_for_context (mapped_candidate r) ctx) = x"
  using assms unfolding row_agrees_def Let_def
  by (auto simp: strategy_of_def specialize_for_use or_list_Some split: if_splits)


definition everyday_context :: "pyval dict" where
  "everyday_context = [(''lifespan_years'', PInt 3), (''criticality'', PStr ''high''), (''exposure'', PStr ''internal''),
                       (''service_role'', PStr ''web'')]"


section \<open>The final algorithms\<close>


definition sample_context :: "pyval dict" where
  "sample_context = [(''lifespan_years'', PInt 25), (''criticality'', PStr ''critical''), (''exposure'', PStr ''public_internet''),
                     (''service_role'', PStr ''archive-signing'')]"


section \<open>Agility\<close>

lemma agility_sum_set: "agility_sum caps = sum (\<lambda>c. dget_or AGILITY_CAPABILITIES c 0) (set caps)"
  by (simp add: agility_sum_def sum.set_conv_list)

lemma agility_weight_nonneg: "0 \<le> dget_or AGILITY_CAPABILITIES c 0"
  by (simp add: dget_or_def AGILITY_CAPABILITIES_def)

lemma agility_sum_mono: "set a \<subseteq> set b \<Longrightarrow> agility_sum a \<le> agility_sum b"
  unfolding agility_sum_set by (rule sum_mono2) (simp_all add: agility_weight_nonneg)

lemma blockers_antimono: "set a \<subseteq> set b \<Longrightarrow> length (build_blockers s b c) \<le> length (build_blockers s a c)"
  by (auto simp: build_blockers_def Let_def)

text \<open>The agility score is between 0 and 100, and an asset with more capabilities never scores less: the capabilities
  add their points and can only remove blockers.\<close>

theorem agility_mono:
  assumes "set caps \<subseteq> set extra"
  shows "0 \<le> agility_score caps (build_blockers s caps c) \<and>
         agility_score caps (build_blockers s caps c) \<le> agility_score extra (build_blockers s extra c) \<and>
         agility_score extra (build_blockers s extra c) \<le> 100"
  using agility_sum_mono [OF assms] blockers_antimono [OF assms, of s c]
  by (auto simp: agility_score_def min_def max_def)

definition sample_candidate :: candidate where
  "sample_candidate = candidate_for_algorithm ''RSA-2048'' (Some ''RSA'') ''certificate''"

theorem agility_mono_witness:
  "agility_score [''inventory_fresh''] (build_blockers ''hybrid'' [''inventory_fresh''] sample_candidate)
     \<le> agility_score [''config_policy'', ''inventory_fresh'', ''rollback_supported'']
         (build_blockers ''hybrid'' [''config_policy'', ''inventory_fresh'', ''rollback_supported''] sample_candidate)"
  using agility_mono [of "[''inventory_fresh'']" "[''config_policy'', ''inventory_fresh'', ''rollback_supported'']" "''hybrid''" sample_candidate]
  by simp

section \<open>The playbook\<close>

text \<open>The steps of a playbook are numbered from one without a gap; the blockers come first whenever there are any,
  and there is one step for a replacement, two for a hybrid transition, one for monitoring.\<close>

theorem playbook_numbered:
  "map st_order (build_playbook r a) = map int [1..<Suc (length (build_playbook r a))] \<and>
   map st_kind (build_playbook r a) =
     (if rec_strategy r = ''no_change'' then [''monitor'']
      else (if agi_blockers a = [] then [] else [''remove_blockers'']) @
        (if rec_strategy r = ''hybrid'' then [''prepare_pqc_transition'', ''complete_pqc_transition''] else [''replace_algorithm'']))"
  by (simp add: build_playbook_def monitor_step_def blockers_step_def prepare_step_def complete_step_def replace_step_def Let_def upt_rec)

section \<open>Signature names that carry a hash\<close>

lemma strip_pair:
  assumes "strip b \<noteq> []"
  shows "\<exists>a'. strip (strip a @ '' '' @ strip b) = a' @ strip b"
proof (cases "strip a = []")
  case True
  have "strip (CHR '' '' # strip b) = strip (strip b)" by (simp add: strip_def is_space_def code_def)
  then show ?thesis using True by simp
next
  case False
  have "strip (strip a @ '' '' @ strip b) = strip a @ '' '' @ strip b"
    using False assms strip_ends [of a] strip_ends [of b] by (intro strip_fixed) simp
  then show ?thesis by (metis append_assoc)
qed

lemma normalize_opt_strip: "normalize_opt family = strip (normalize_opt family)"
  by (simp add: normalize_opt_def normalize_def split: option.splits)

lemma combined_contains:
  assumes "contains (normalize algorithm) s" and "s \<noteq> []"
  shows "contains (strip (normalize_opt family @ '' '' @ normalize algorithm)) s"
proof -
  have n: "normalize algorithm = strip (upper algorithm)" by (simp add: normalize_def)
  have ne: "strip (upper algorithm) \<noteq> []" using assms n by (auto simp: contains_def)
  obtain u where "strip (strip (normalize_opt family) @ '' '' @ strip (upper algorithm)) = u @ strip (upper algorithm)"
    using strip_pair [OF ne] by blast
  then show ?thesis using assms(1) n normalize_opt_strip contains_append(2) by metis
qed

text \<open>An algorithm whose name carries a SHA-2 hash, and neither a post-quantum name, SHA-1 nor AES-128, is taken for
  that hash: outside key agreement it is kept as it is, although the engine may call it quantum-vulnerable.\<close>

theorem sha2_names_kept:
  assumes "contains (normalize algorithm) ''SHA2''"
    and "\<not> any_in (pqc_markers @ [''SHA-1'', ''SHA1'', ''AES-128'']) (strip (normalize_opt family @ '' '' @ normalize algorithm))"
    and "t \<notin> set [''protocol'', ''key_agreement'']"
  shows "strategy_of (candidate_for_algorithm algorithm family t) = ''no_change''"
proof -
  let ?c = "strip (normalize_opt family @ '' '' @ normalize algorithm)"
  have sha: "contains ?c ''SHA2''" using assms(1) by (rule combined_contains) simp
  have pqc: "\<not> search (words pqc_markers) ?c"
    using assms(2) by (subst search_words) (simp_all add: pqc_markers_def any_in_def)
  have no: "\<not> contains ?c ''SHA-1''" "\<not> contains ?c ''SHA1''" "\<not> contains ?c ''AES-128''"
    using assms(2) by (simp_all add: any_in_def)
  obtain r where r: "List.find (\<lambda>r. rule_matches r ?c t) mapping_rules = Some r" and k: "rule_kind r = ''safe_classical''"
    using sha pqc no assms(3)
    by (simp add: mapping_rules_def kex_rules_def safe_rules_def keep_rule_def kem_rule_def sha1_rule_def aes128_rule_def
        rule_matches_def search_Or search_Word)
  show ?thesis
    unfolding candidate_for_algorithm_def Let_def r by (simp add: strategy_of_def candidate_from_rule_def k)
qed

theorem sha2_names_kept_witness:
  "strategy_of (candidate_for_algorithm ''ecdsa-sha2-nistp256'' None ''ssh_host_key'') = ''no_change'' \<and>
   is_quantum_vulnerable ''ecdsa-sha2-nistp256'' None"
proof
  have "contains (normalize ''ecdsa-sha2-nistp256'') ''SHA2'' \<and>
      \<not> any_in (pqc_markers @ [''SHA-1'', ''SHA1'', ''AES-128''])
          (strip (normalize_opt None @ '' '' @ normalize ''ecdsa-sha2-nistp256'')) \<and>
      ''ssh_host_key'' \<notin> set [''protocol'', ''key_agreement'']"
    by code_simp
  then show "strategy_of (candidate_for_algorithm ''ecdsa-sha2-nistp256'' None ''ssh_host_key'') = ''no_change''"
    using sha2_names_kept by blast
  show "is_quantum_vulnerable ''ecdsa-sha2-nistp256'' None" by code_simp
qed

end
