(* ===== verification/Json.thy ===== *)
theory Json
  imports Aggregates
begin

text \<open>
  The part of \<open>json\<close> the program uses.  \<open>json_dumps\<close> prints a value in one line with its two separators,
  \<open>json_indent\<close> over several lines, \<open>sort_keys\<close> orders the dicts first.  \<open>scan_value\<close> is the scanner behind
  \<open>JSONDecoder.raw_decode\<close>: it reads one value and returns it with the rest of the text.  It is recursive over
  the length of the rest, and the guards that ask for a shorter rest always hold (\<open>scan_shorter\<close>).

  A syntax error is \<open>Bad_json\<close> (a \<open>JSONDecodeError\<close>); \<open>Digit_limit\<close> is the \<open>ValueError\<close> of an integer of more
  than 4300 digits; \<open>Beyond_char\<close> stands for an escape of a character above 255, which the model's strings do not
  hold.  The recursion limit of the interpreter is not modelled.
\<close>

section \<open>The exceptions of a computation\<close>

text \<open>\<open>raises_only P m\<close>: the only exceptions of \<open>m\<close> are those of \<open>P\<close>.\<close>

definition raises_only :: "('e \<Rightarrow> bool) \<Rightarrow> 'e + 'a \<Rightarrow> bool" where
  "raises_only P m = (case m of Inl e \<Rightarrow> P e | Inr x \<Rightarrow> True)"

lemma raises_only_simps [simp]: "raises_only P (Inr x)" "raises_only P (Inl e) = P e"
  by (simp_all add: raises_only_def)

lemma raises_only_rbind [intro]: "raises_only P m \<Longrightarrow> (\<And>x. m = Inr x \<Longrightarrow> raises_only P (f x)) \<Longrightarrow> raises_only P (rbind m f)"
  by (cases m) simp_all

lemma raises_only_if [intro]: "(c \<Longrightarrow> raises_only P m) \<Longrightarrow> (\<not> c \<Longrightarrow> raises_only P n) \<Longrightarrow> raises_only P (if c then m else n)"
  by simp

lemma raises_onlyD: "raises_only P m \<Longrightarrow> m = Inl e \<Longrightarrow> P e"
  by simp

section \<open>Printing\<close>

definition json_char :: "char \<Rightarrow> string" where
  "json_char c =
     (let bs = CHR 0x5C
      in if c = CHR 0x22 \<or> c = bs then [bs, c]
         else if code c = 10 then bs # ''n''
         else if code c = 13 then bs # ''r''
         else if code c = 9 then bs # ''t''
         else if code c = 12 then bs # ''f''
         else if code c = 8 then bs # ''b''
         else if 32 \<le> code c \<and> code c \<le> 126 then [c]
         else bs # ''u00'' @ [hex_digit (code c div 16), hex_digit (code c mod 16)])"

definition json_string :: "string \<Rightarrow> string" where
  "json_string s = CHR 0x22 # concat (map json_char s) @ [CHR 0x22]"

fun json_float :: "pyfloat \<Rightarrow> string" where
  "json_float (Fin x) = repr_float (Fin x)"
| "json_float (Infty s) = (if s then ''-Infinity'' else ''Infinity'')"
| "json_float NaN = ''NaN''"

text \<open>\<open>json.dumps(v, separators=(i, k))\<close>; the separators are \<open>", "\<close> and \<open>": "\<close> by default.\<close>

fun json_dumps :: "string \<Rightarrow> string \<Rightarrow> pyval \<Rightarrow> string" where
  "json_dumps i k PNone = ''null''"
| "json_dumps i k (PBool b) = (if b then ''true'' else ''false'')"
| "json_dumps i k (PInt n) = str_int n"
| "json_dumps i k (PFloat x) = json_float x"
| "json_dumps i k (PStr s) = json_string s"
| "json_dumps i k (PList xs) = ''['' @ join i (map (json_dumps i k) xs) @ '']''"
| "json_dumps i k (PDict d) = ''{'' @ join i (map (\<lambda>p. json_string (fst p) @ k @ json_dumps i k (snd p)) d) @ ''}''"

definition dumps :: "pyval \<Rightarrow> string" where
  "dumps v = json_dumps '', '' '': '' v"

text \<open>\<open>sort_keys=True\<close>.\<close>

fun sort_keys :: "pyval \<Rightarrow> pyval" where
  "sort_keys (PList xs) = PList (map sort_keys xs)"
| "sort_keys (PDict d) = PDict (sort_key fst (map (\<lambda>p. (fst p, sort_keys (snd p))) d))"
| "sort_keys v = v"

text \<open>\<open>indent=2\<close>, at the nesting depth \<open>n\<close>.\<close>

definition new_line :: "nat \<Rightarrow> string" where
  "new_line n = CHR 0x0A # replicate (2 * n) (CHR '' '')"

fun json_indent :: "nat \<Rightarrow> pyval \<Rightarrow> string" where
  "json_indent n (PList xs) =
     (if xs = [] then ''[]''
      else ''['' @ new_line (n + 1) @ join ('','' @ new_line (n + 1)) (map (json_indent (n + 1)) xs) @ new_line n @ '']'')"
| "json_indent n (PDict d) =
     (if d = [] then ''{}''
      else ''{'' @ new_line (n + 1) @
        join ('','' @ new_line (n + 1)) (map (\<lambda>p. json_string (fst p) @ '': '' @ json_indent (n + 1) (snd p)) d) @
        new_line n @ ''}'')"
| "json_indent n v = json_dumps '', '' '': '' v"

section \<open>Scanning\<close>

datatype json_error = Bad_json | Digit_limit | Beyond_char

definition json_space :: "char \<Rightarrow> bool" where
  "json_space c = (c \<in> set [CHR '' '', CHR 0x09, CHR 0x0A, CHR 0x0D])"

definition skip_ws :: "string \<Rightarrow> string" where
  "skip_ws s = dropWhile json_space s"

definition hex_value :: "char \<Rightarrow> int option" where
  "hex_value c =
     (if is_digit c then Some (code c - 48)
      else if 97 \<le> code c \<and> code c \<le> 102 then Some (code c - 87)
      else if 65 \<le> code c \<and> code c \<le> 70 then Some (code c - 55) else None)"

definition hex4 :: "char \<Rightarrow> char \<Rightarrow> char \<Rightarrow> char \<Rightarrow> int option" where
  "hex4 a b c d =
     (case (hex_value a, hex_value b, hex_value c, hex_value d) of
        (Some w, Some x, Some y, Some z) \<Rightarrow> Some (((w * 16 + x) * 16 + y) * 16 + z)
      | _ \<Rightarrow> None)"

definition escaped :: "char \<Rightarrow> char option" where
  "escaped e =
     (if e \<in> set [CHR 0x22, CHR 0x5C, CHR ''/''] then Some e
      else if e = CHR ''b'' then Some (CHR 0x08) else if e = CHR ''f'' then Some (CHR 0x0C)
      else if e = CHR ''n'' then Some (CHR 0x0A) else if e = CHR ''r'' then Some (CHR 0x0D)
      else if e = CHR ''t'' then Some (CHR 0x09) else None)"

definition push :: "char \<Rightarrow> json_error + string \<times> string \<Rightarrow> json_error + string \<times> string" where
  "push c m = rmap (\<lambda>(s, r). (c # s, r)) m"

text \<open>The rest of a string after its opening quote.\<close>

fun scan_string :: "string \<Rightarrow> json_error + string \<times> string" where
  "scan_string [] = Inl Bad_json"
| "scan_string (c # cs) =
     (if c = CHR 0x22 then Inr ([], cs)
      else if c = CHR 0x5C then
        (case cs of
           [] \<Rightarrow> Inl Bad_json
         | e # r \<Rightarrow>
             if e = CHR ''u'' then
               (case r of
                  h1 # h2 # h3 # h4 # r2 \<Rightarrow>
                    (case hex4 h1 h2 h3 h4 of
                       None \<Rightarrow> Inl Bad_json
                     | Some n \<Rightarrow> if n < 256 then push (char_of n) (scan_string r2) else Inl Beyond_char)
                | _ \<Rightarrow> Inl Bad_json)
             else (case escaped e of None \<Rightarrow> Inl Bad_json | Some x \<Rightarrow> push x (scan_string r)))
      else if code c < 32 then Inl Bad_json
      else push c (scan_string cs))"

text \<open>A number: the digits with the optional fraction and exponent, and what follows.\<close>

definition scan_digits :: "string \<Rightarrow> string \<times> string" where
  "scan_digits s = (takeWhile is_digit s, dropWhile is_digit s)"

definition scan_whole :: "string \<Rightarrow> (string \<times> string) option" where
  "scan_whole s =
     (case s of [] \<Rightarrow> None
      | c # r \<Rightarrow> if c = CHR ''0'' then Some (''0'', r) else if is_digit c then Some (scan_digits s) else None)"

definition scan_fraction :: "string \<Rightarrow> string \<times> string" where
  "scan_fraction s =
     (case s of c # d # r \<Rightarrow> if c = CHR ''.'' \<and> is_digit d then (c # fst (scan_digits (d # r)), snd (scan_digits (d # r))) else ([], s)
      | _ \<Rightarrow> ([], s))"

definition scan_exponent :: "string \<Rightarrow> string \<times> string" where
  "scan_exponent s =
     (case s of
        c # r \<Rightarrow>
          if c = CHR ''e'' \<or> c = CHR ''E'' then
            (let (sgn, t) = (case r of d # u \<Rightarrow> if d = CHR ''-'' \<or> d = CHR ''+'' then ([d], u) else ([], r) | [] \<Rightarrow> ([], r))
             in if t \<noteq> [] \<and> is_digit (hd t) then (c # sgn @ fst (scan_digits t), snd (scan_digits t)) else ([], s))
          else ([], s)
      | [] \<Rightarrow> ([], s))"

definition scan_number :: "string \<Rightarrow> json_error + pyval \<times> string" where
  "scan_number s =
     (let (sgn, r) = (if s \<noteq> [] \<and> hd s = CHR ''-'' then (''-'', tl s) else ([], s))
      in case scan_whole r of
           None \<Rightarrow> Inl Bad_json
         | Some (whole, r1) \<Rightarrow>
             (let (frac, r2) = scan_fraction r1; (ex, r3) = scan_exponent r2
              in if frac = [] \<and> ex = [] then
                   (case int_of_str (sgn @ whole) of Inl e \<Rightarrow> Inl Digit_limit | Inr n \<Rightarrow> Inr (PInt n, r3))
                 else (case float_of_str (sgn @ whole @ frac @ ex) of Inl e \<Rightarrow> Inl Bad_json | Inr x \<Rightarrow> Inr (PFloat x, r3))))"

definition scan_word :: "string \<Rightarrow> json_error + pyval \<times> string" where
  "scan_word s =
     (if prefix ''null'' s then Inr (PNone, drop 4 s)
      else if prefix ''true'' s then Inr (PBool True, drop 4 s)
      else if prefix ''false'' s then Inr (PBool False, drop 5 s)
      else if prefix ''NaN'' s then Inr (PFloat NaN, drop 3 s)
      else if prefix ''Infinity'' s then Inr (PFloat (Infty False), drop 8 s)
      else if prefix ''-Infinity'' s then Inr (PFloat (Infty True), drop 9 s)
      else scan_number s)"

text \<open>A value, the items of an array after \<open>[\<close> or a comma, the members of an object after \<open>{\<close> or a comma.\<close>

function scan_value :: "string \<Rightarrow> json_error + pyval \<times> string"
  and scan_items :: "string \<Rightarrow> json_error + pyval list \<times> string"
  and scan_members :: "string \<Rightarrow> json_error + (string \<times> pyval) list \<times> string" where
  "scan_value s =
     (case s of
        [] \<Rightarrow> Inl Bad_json
      | c # cs \<Rightarrow>
          if c = CHR 0x22 then rmap (\<lambda>(t, r). (PStr t, r)) (scan_string cs)
          else if c = CHR ''['' then
            (case skip_ws cs of
               d # r \<Rightarrow> if d = CHR '']'' then Inr (PList [], r) else rmap (\<lambda>(xs, u). (PList xs, u)) (scan_items (skip_ws cs))
             | [] \<Rightarrow> Inl Bad_json)
          else if c = CHR ''{'' then
            (case skip_ws cs of
               d # r \<Rightarrow> if d = CHR ''}'' then Inr (PDict [], r)
                        else rmap (\<lambda>(ms, u). (PDict (dmerge [] ms), u)) (scan_members (skip_ws cs))
             | [] \<Rightarrow> Inl Bad_json)
          else scan_word s)"
| "scan_items s =
     (case scan_value s of
        Inl e \<Rightarrow> Inl e
      | Inr (v, t) \<Rightarrow>
          (case skip_ws t of
             d # r \<Rightarrow>
               if d = CHR '']'' then Inr ([v], r)
               else if d = CHR '','' \<and> length (skip_ws r) < length s then
                 (case scan_items (skip_ws r) of Inl e \<Rightarrow> Inl e | Inr (vs, u) \<Rightarrow> Inr (v # vs, u))
               else Inl Bad_json
           | [] \<Rightarrow> Inl Bad_json))"
| "scan_members s =
     (case s of
        [] \<Rightarrow> Inl Bad_json
      | q # cs \<Rightarrow>
          if q \<noteq> CHR 0x22 then Inl Bad_json
          else (case scan_string cs of
             Inl e \<Rightarrow> Inl e
           | Inr (k, t) \<Rightarrow>
               (case skip_ws t of
                  [] \<Rightarrow> Inl Bad_json
                | p # t1 \<Rightarrow>
                    if p = CHR '':'' \<and> length (skip_ws t1) < length s then
                      (case scan_value (skip_ws t1) of
                         Inl e \<Rightarrow> Inl e
                       | Inr (v, t2) \<Rightarrow>
                           (case skip_ws t2 of
                              [] \<Rightarrow> Inl Bad_json
                            | d # r \<Rightarrow>
                                if d = CHR ''}'' then Inr ([(k, v)], r)
                                else if d = CHR '','' \<and> length (skip_ws r) < length s then
                                  (case scan_members (skip_ws r) of Inl e \<Rightarrow> Inl e | Inr (ms, u) \<Rightarrow> Inr ((k, v) # ms, u))
                                else Inl Bad_json))
                    else Inl Bad_json)))"
  by pat_completeness auto

lemma skip_ws_length: "length (skip_ws s) \<le> length s"
  by (simp add: skip_ws_def length_dropWhile_le)

lemma dropWhile_Cons_length: "dropWhile p xs = y # ys \<Longrightarrow> length ys < length xs"
  using length_dropWhile_le [of p xs] by simp

termination scan_value
  by (relation "measure (\<lambda>x. case x of Inl s \<Rightarrow> 2 * length s | Inr (Inl s) \<Rightarrow> 2 * length s + 1 | Inr (Inr s) \<Rightarrow> 2 * length s + 1)")
    (auto simp: skip_ws_def dest!: dropWhile_Cons_length)

declare scan_value.simps [simp del] scan_items.simps [simp del] scan_members.simps [simp del]

section \<open>The guards hold\<close>

lemma push_Inr [res_simps]: "push c m = Inr (s, r) \<longleftrightarrow> (\<exists>t. m = Inr (t, r) \<and> s = c # t)"
  by (cases m) (auto simp: push_def)

lemma scan_string_shorter: "scan_string s = Inr (t, r) \<Longrightarrow> length r < length s"
proof (induction s arbitrary: t r rule: scan_string.induct)
  case (2 c cs)
  show ?case
  proof (cases "c = CHR 0x22 \<or> c \<noteq> CHR 0x5C")
    case True
    then show ?thesis using 2 by (fastforce simp: res_simps split: if_splits)
  next
    case False
    then show ?thesis
      using 2(1,2,4) by (auto simp: res_simps less_Suc_eq split: if_splits list.splits option.splits) (fastforce simp: less_Suc_eq)+
  qed
qed simp

lemma scan_digits_length: "length (snd (scan_digits s)) \<le> length s"
  by (simp add: scan_digits_def length_dropWhile_le)

lemma scan_whole_shorter: "scan_whole s = Some (w, r) \<Longrightarrow> length r < length s"
  by (auto simp: scan_whole_def scan_digits_def less_Suc_eq_le length_dropWhile_le split: list.splits if_splits)

lemma scan_fraction_length: "length (snd (scan_fraction s)) \<le> length s"
  using length_dropWhile_le [of is_digit] by (auto simp: scan_fraction_def scan_digits_def le_SucI split: list.splits)

lemma scan_exponent_length: "length (snd (scan_exponent s)) \<le> length s"
  by (auto simp: scan_exponent_def scan_digits_def Let_def intro!: le_SucI length_dropWhile_le split: list.splits prod.splits if_splits)

lemma scan_number_shorter:
  assumes "scan_number s = Inr (v, r)"
  shows "length r < length s"
proof -
  obtain sgn t where st: "(if s \<noteq> [] \<and> hd s = CHR ''-'' then (''-'', tl s) else ([], s)) = (sgn, t)"
    by (cases "if s \<noteq> [] \<and> hd s = CHR ''-'' then (''-'', tl s) else ([], s)")
  then have t: "length t \<le> length s" by (auto split: if_splits)
  obtain w r1 where w: "scan_whole t = Some (w, r1)"
    using assms by (auto simp: scan_number_def st split: option.splits prod.splits)
  obtain f r2 where f: "scan_fraction r1 = (f, r2)" by (cases "scan_fraction r1")
  obtain x r3 where x: "scan_exponent r2 = (x, r3)" by (cases "scan_exponent r2")
  have "r = r3" using assms by (auto simp: scan_number_def st w f x split: if_splits sum.splits)
  then show ?thesis
    using t scan_whole_shorter [OF w] scan_fraction_length [of r1] scan_exponent_length [of r2] by (simp add: f x)
qed

lemma scan_word_shorter: "scan_word s = Inr (v, r) \<Longrightarrow> length r < length s"
  by (auto simp: scan_word_def prefix_def dest!: scan_number_shorter split: if_splits)

text \<open>Every scanner leaves a shorter rest, so the guards on the length never reject a text.\<close>

lemma scan_shorter:
  "scan_value s = Inr (v, r) \<Longrightarrow> length r < length s"
  "scan_items s = Inr (vs, r) \<Longrightarrow> length r < length s"
  "scan_members s = Inr (ms, r) \<Longrightarrow> length r < length s"
proof (induction s and s and s arbitrary: v r and vs r and ms r rule: scan_value_scan_items_scan_members.induct)
  case (1 s)
  show ?case
  proof (cases s)
    case Nil
    then show ?thesis using 1(3) by (simp add: scan_value.simps)
  next
    case (Cons c cs)
    consider "c = CHR 0x22" | "c = CHR ''[''" | "c = CHR ''{''" | "c \<noteq> CHR 0x22" "c \<noteq> CHR ''[''" "c \<noteq> CHR ''{''" by blast
    then show ?thesis
    proof cases
      case 1
      then show ?thesis using "1.prems" by (auto simp: Cons scan_value.simps [of "_ # _"] res_simps less_Suc_eq dest: scan_string_shorter)
    next
      case 2
      then show ?thesis using "1.prems" "1.IH"(1) [OF Cons] skip_ws_length [of cs]
        by (auto simp: Cons scan_value.simps [of "_ # _"] res_simps split: list.splits if_splits) fastforce+
    next
      case 3
      then show ?thesis using "1.prems" "1.IH"(2) [OF Cons] skip_ws_length [of cs]
        by (auto simp: Cons scan_value.simps [of "_ # _"] res_simps split: list.splits if_splits) fastforce+
    next
      case 4
      then show ?thesis using "1.prems" by (auto simp: Cons scan_value.simps [of "_ # _"] dest: scan_word_shorter)
    qed
  qed
next
  case (2 s)
  obtain w t where v: "scan_value s = Inr (w, t)"
    using "2.prems" by (auto simp: scan_items.simps [of s] split: sum.splits)
  have t: "length t < length s" using v by (rule "2.IH"(1))
  obtain d u where d: "skip_ws t = d # u" using "2.prems" by (auto simp: scan_items.simps [of s] v split: list.splits)
  have u: "length u < length s" using d t skip_ws_length [of t] by simp
  show ?case
    using "2.prems" u "2.IH"(2) [OF v refl d] by (auto simp: scan_items.simps [of s] v d split: if_splits sum.splits)
next
  case (3 s)
  note p = "3.prems"
  obtain q' cs where s': "s = q' # cs" using p by (cases s) (simp_all add: scan_members.simps [of "[]"])
  have "\<not> q' \<noteq> CHR 0x22" using p by (intro notI) (simp add: scan_members.simps [of "q' # cs"] s')
  then have s: "s = CHR 0x22 # cs" using s' by simp
  have q: "\<not> CHR 0x22 \<noteq> CHR 0x22" by simp
  obtain k t where k: "scan_string cs = Inr (k, t)" using p q by (auto simp: scan_members.simps [of "CHR 0x22 # cs"] s split: sum.splits)
  obtain c t1 where t1: "skip_ws t = c # t1" using p q k by (auto simp: scan_members.simps [of "CHR 0x22 # cs"] s split: list.splits)
  have c: "c = CHR '':'' \<and> length (skip_ws t1) < length s"
    using p q k t1 by - (rule ccontr, simp add: scan_members.simps [of "CHR 0x22 # cs"] s del: de_Morgan_conj)
  obtain w t2 where v: "scan_value (skip_ws t1) = Inr (w, t2)"
    using p q k t1 c by (auto simp: scan_members.simps [of "CHR 0x22 # cs"] s split: sum.splits)
  have t2: "length t2 < length s" using "3.IH"(1) [OF s q k refl t1 c v] c by simp
  obtain d u where d: "skip_ws t2 = d # u" using p q k t1 c v by (auto simp: scan_members.simps [of "CHR 0x22 # cs"] s split: list.splits)
  have u: "length u < length s" using d t2 skip_ws_length [of t2] by simp
  have unfolded: "scan_members s =
      (if d = CHR ''}'' then Inr ([(k, w)], u)
       else if d = CHR '','' \<and> length (skip_ws u) < length s then
         (case scan_members (skip_ws u) of Inl e \<Rightarrow> Inl e | Inr (ms, u) \<Rightarrow> Inr ((k, w) # ms, u))
       else Inl Bad_json)"
    using q k t1 c v d by (simp add: scan_members.simps [of "CHR 0x22 # cs"] s)
  show ?case
  proof (cases "d = CHR ''}''")
    case True
    then show ?thesis using p u by (simp add: unfolded)
  next
    case False
    then have g: "d = CHR '','' \<and> length (skip_ws u) < length s" using p by (simp add: unfolded split: if_splits)
    obtain m where "scan_members (skip_ws u) = Inr (m, r)" using p False g by (auto simp: unfolded split: sum.splits)
    then show ?thesis using "3.IH"(2) [OF s q k refl t1 c v refl d False g] g by simp
  qed
qed

section \<open>Reading what was printed: strings\<close>

lemma code_ends [simp]: "code (CHR 0x22) = 34" "code (CHR 0x5C) = 92"
  by (simp_all add: code_def)

lemma hex_value_digit: "0 \<le> d \<Longrightarrow> d < 16 \<Longrightarrow> hex_value (hex_digit d) = Some d"
  by (simp add: hex_value_def hex_digit_def is_digit_def code_char_of)

lemma hex4_code: "hex4 (CHR ''0'') (CHR ''0'') (hex_digit (code c div 16)) (hex_digit (code c mod 16)) = Some (code c)"
proof -
  have "0 \<le> code c div 16 \<and> code c div 16 < 16" using code_range [of c] by linarith
  moreover have "hex_value (CHR ''0'') = Some 0" by (simp add: hex_value_def is_digit_def code_def)
  moreover have "code c div 16 * 16 + code c mod 16 = code c" by simp
  ultimately show ?thesis by (simp add: hex4_def hex_value_digit)
qed

lemma scan_char: "scan_string (json_char c @ t) = push c (scan_string t)"
proof -
  have eq: "code c = 8 \<Longrightarrow> c = CHR 0x08" "code c = 9 \<Longrightarrow> c = CHR 0x09" "code c = 10 \<Longrightarrow> c = CHR 0x0A"
    "code c = 12 \<Longrightarrow> c = CHR 0x0C" "code c = 13 \<Longrightarrow> c = CHR 0x0D"
    by (simp_all add: code_inject [symmetric] code_def)
  consider "c = CHR 0x22 \<or> c = CHR 0x5C" | "code c \<in> {8, 9, 10, 12, 13}" "c \<noteq> CHR 0x22" "c \<noteq> CHR 0x5C"
    | "32 \<le> code c \<and> code c \<le> 126" "c \<noteq> CHR 0x22" "c \<noteq> CHR 0x5C"
    | "\<not> (32 \<le> code c \<and> code c \<le> 126)" "code c \<notin> {8, 9, 10, 12, 13}" "c \<noteq> CHR 0x22" "c \<noteq> CHR 0x5C" by auto
  then show ?thesis
  proof cases
    case 1
    then show ?thesis by (auto simp: json_char_def escaped_def)
  next
    case 2
    then have "c \<in> set [CHR 0x08, CHR 0x09, CHR 0x0A, CHR 0x0C, CHR 0x0D]" by (auto dest: eq)
    then show ?thesis by (auto simp: json_char_def escaped_def code_def)
  next
    case 3
    then show ?thesis by (auto simp: json_char_def)
  next
    case 4
    then show ?thesis by (simp add: json_char_def Let_def hex4_code)
  qed
qed

lemma scan_json_string: "scan_string (concat (map json_char s) @ CHR 0x22 # rest) = Inr (s, rest)"
  by (induction s) (simp_all add: scan_char push_def)

section \<open>Reading what was printed: numbers\<close>

definition number_end :: "string \<Rightarrow> bool" where
  "number_end rest = (case rest of [] \<Rightarrow> True | c # _ \<Rightarrow> \<not> is_digit c \<and> c \<notin> set [CHR ''.'', CHR ''e'', CHR ''E''])"

lemma scan_digits_append: "number_end rest \<Longrightarrow> scan_digits (s @ rest) = (fst (scan_digits s), snd (scan_digits s) @ rest)"
proof (induction s)
  case Nil
  then show ?case by (cases rest) (auto simp: scan_digits_def number_end_def)
qed (simp add: scan_digits_def)

lemma scan_whole_append:
  "scan_whole s = Some (w, r) \<Longrightarrow> number_end rest \<Longrightarrow> scan_whole (s @ rest) = Some (w, r @ rest)"
  using scan_digits_append [of rest s] by (cases s) (auto simp: scan_whole_def split: if_splits)

lemma scan_fraction_append: "number_end rest \<Longrightarrow> scan_fraction (s @ rest) = (fst (scan_fraction s), snd (scan_fraction s) @ rest)"
proof (cases s rule: remdups_adj.cases)
  case 1
  then show "number_end rest \<Longrightarrow> ?thesis" by (cases rest rule: remdups_adj.cases) (auto simp: scan_fraction_def number_end_def)
next
  case (2 c)
  then show "number_end rest \<Longrightarrow> ?thesis" by (cases rest) (auto simp: scan_fraction_def number_end_def)
next
  case (3 c d t)
  assume e: "number_end rest"
  show ?thesis using scan_digits_append [OF e, of "d # t"] by (simp add: 3 scan_fraction_def)
qed

lemma scan_exponent_append:
  assumes "scan_exponent s = (x, [])" and "number_end rest"
  shows "scan_exponent (s @ rest) = (x, rest)"
proof (cases s)
  case Nil
  then show ?thesis using assms by (cases rest) (auto simp: scan_exponent_def number_end_def)
next
  case (Cons c r)
  have e: "c = CHR ''e'' \<or> c = CHR ''E''" using assms(1) by (simp add: Cons scan_exponent_def split: if_splits)
  show ?thesis
  proof (cases r)
    case Nil
    then show ?thesis using assms(1) e by (simp add: Cons scan_exponent_def)
  next
    case (Cons d u)
    have s: "s = c # d # u" using \<open>s = c # r\<close> Cons by simp
    show ?thesis
    proof (cases "d = CHR ''-'' \<or> d = CHR ''+''")
      case True
      then have u: "u \<noteq> [] \<and> is_digit (hd u)" and x: "x = c # [d] @ fst (scan_digits u)" "snd (scan_digits u) = []"
        using assms(1) e by (auto simp: s scan_exponent_def split: if_splits)
      then show ?thesis using e True scan_digits_append [OF assms(2), of u] by (auto simp: s scan_exponent_def)
    next
      case False
      then have u: "is_digit d" and x: "x = c # fst (scan_digits (d # u))" "snd (scan_digits (d # u)) = []"
        using assms(1) e by (auto simp: s scan_exponent_def split: if_splits)
      then show ?thesis using e False scan_digits_append [OF assms(2), of "d # u"] by (auto simp: s scan_exponent_def)
    qed
  qed
qed

text \<open>A text that is a number in full is read the same in front of anything that does not continue a number.\<close>

lemma scan_number_append:
  assumes "scan_number s = Inr (v, [])" and "number_end rest"
  shows "scan_number (s @ rest) = Inr (v, rest)"
proof -
  obtain sgn t where st: "(if s \<noteq> [] \<and> hd s = CHR ''-'' then (''-'', tl s) else ([], s)) = (sgn, t)"
    by (cases "if s \<noteq> [] \<and> hd s = CHR ''-'' then (''-'', tl s) else ([], s)")
  obtain w r1 where w: "scan_whole t = Some (w, r1)"
    using assms(1) by (auto simp: scan_number_def st split: option.splits prod.splits)
  obtain f r2 where f: "scan_fraction r1 = (f, r2)" by (cases "scan_fraction r1")
  obtain x r3 where x: "scan_exponent r2 = (x, r3)" by (cases "scan_exponent r2")
  have r3: "r3 = []" using assms(1) by (auto simp: scan_number_def st w f x split: if_splits sum.splits)
  have "s \<noteq> []" using st w by (auto simp: scan_whole_def split: if_splits list.splits)
  then have st': "(if s @ rest \<noteq> [] \<and> hd (s @ rest) = CHR ''-'' then (''-'', tl (s @ rest)) else ([], s @ rest)) = (sgn, t @ rest)"
    using st by (auto split: if_splits)
  show ?thesis
    using assms(1) scan_whole_append [OF w assms(2)] scan_fraction_append [OF assms(2), of r1]
      scan_exponent_append [OF x [unfolded r3] assms(2)]
    unfolding scan_number_def st st' by (cases "f = [] \<and> x = []") (simp_all add: w f x r3 del: de_Morgan_conj split: sum.splits)
qed

lemma scan_whole_head: "scan_whole s = Some p \<Longrightarrow> \<exists>d u. s = d # u \<and> is_digit d"
  by (cases s) (auto simp: scan_whole_def is_digit_def code_def split: if_splits)

lemma scan_number_head:
  assumes "scan_number s = Inr (v, r)"
  shows "\<exists>c t. s = c # t \<and> (is_digit c \<or> c = CHR ''-'' \<and> (\<exists>d u. t = d # u \<and> is_digit d))"
proof (cases "s \<noteq> [] \<and> hd s = CHR ''-''")
  case True
  then obtain t where s: "s = CHR ''-'' # t" by (cases s) auto
  then have "scan_whole t \<noteq> None" using assms by (intro notI) (simp add: scan_number_def)
  then obtain p where p: "scan_whole t = Some p" by (cases "scan_whole t") simp_all
  show ?thesis using scan_whole_head [OF p] by (simp add: s)
next
  case False
  then have e: "(if s \<noteq> [] \<and> hd s = CHR ''-'' then (''-'', tl s) else ([], s)) = ([], s)" by auto
  have "scan_whole s \<noteq> None" using assms unfolding scan_number_def e by (intro notI) simp
  then obtain p where p: "scan_whole s = Some p" by (cases "scan_whole s") simp_all
  show ?thesis using scan_whole_head [OF p] by auto
qed

lemma digit_not: "is_digit c \<Longrightarrow> c \<notin> set ''ntfNI[]{} -'' \<and> c \<noteq> CHR 0x22 \<and> \<not> json_space c"
  by (auto simp: json_space_def) (simp_all add: is_digit_def code_def)

lemma scan_value_number:
  assumes "scan_number s = Inr (v, [])" and "number_end rest"
  shows "scan_value (s @ rest) = Inr (v, rest)"
proof -
  have n: "scan_number (s @ rest) = Inr (v, rest)" using assms by (rule scan_number_append)
  obtain c t where s: "s = c # t" and c: "is_digit c \<or> c = CHR ''-'' \<and> (\<exists>d u. t = d # u \<and> is_digit d)"
    using scan_number_head [OF assms(1)] by blast
  have no: "c \<notin> set ''ntfNI[]{}''" "c \<noteq> CHR 0x22" "c = CHR ''-'' \<Longrightarrow> \<exists>d u. t = d # u \<and> d \<noteq> CHR ''I''"
    using c digit_not by fastforce+
  have "\<not> prefix ''-Infinity'' (s @ rest)" using no(3) by (auto simp: s)
  then have "scan_word (s @ rest) = scan_number (s @ rest)"
    using no(1) by (auto simp: s scan_word_def)
  then show ?thesis using n no(1,2) by (simp add: s scan_value.simps [of "c # t @ rest"])
qed

section \<open>Reading what was printed: values\<close>

text \<open>What prints to a text that reads back: integers within the limit of the interpreter, floats whose shortest decimal
  is the float, dicts without double keys.\<close>

definition int_plain :: "int \<Rightarrow> bool" where
  "int_plain n = (length (str_nat \<bar>n\<bar>) \<le> 4300)"

fun float_plain :: "pyfloat \<Rightarrow> bool" where
  "float_plain (Fin x) = (scan_number (repr_float (Fin x)) = Inr (PFloat (Fin x), []))"
| "float_plain x = True"

fun json_plain :: "pyval \<Rightarrow> bool" where
  "json_plain (PInt n) = int_plain n"
| "json_plain (PFloat x) = float_plain x"
| "json_plain (PList xs) = list_all json_plain xs"
| "json_plain (PDict d) = (dwf d \<and> list_all (\<lambda>p. json_plain (snd p)) d)"
| "json_plain v = True"

lemma str_nat_head: "0 < n \<Longrightarrow> hd (str_nat n) \<noteq> CHR ''0''"
proof (induction n rule: str_nat.induct)
  case (1 n)
  show ?case
  proof (cases "n < 10")
    case True
    have "code (digit_char n) \<noteq> 48" using True 1(2) by simp
    then show ?thesis using True by (subst str_nat.simps) (auto simp: code_def)
  next
    case False
    then show ?thesis using 1 str_nat_digits [of "n div 10"] by (subst str_nat.simps) simp
  qed
qed

lemma scan_whole_str_nat: "0 \<le> n \<Longrightarrow> scan_whole (str_nat n) = Some (str_nat n, [])"
proof -
  assume n: "0 \<le> n"
  obtain c cs where s: "str_nat n = c # cs" and d: "is_digit c" "\<forall>x\<in>set cs. is_digit x"
    using str_nat_digits [OF n] by (cases "str_nat n") auto
  have all: "scan_digits (c # cs) = (c # cs, [])" using d by (simp add: scan_digits_def takeWhile_eq_all_conv dropWhile_eq_Nil_conv)
  show ?thesis
  proof (cases "n = 0")
    case True
    then show ?thesis by (subst (1 2) str_nat.simps) (simp add: digit_char_def scan_whole_def char_of_def)
  next
    case False
    then have "c \<noteq> CHR ''0''" using n str_nat_head [of n] s by simp
    then show ?thesis using d all by (simp add: s scan_whole_def)
  qed
qed

lemma int_of_str_negative:
  assumes "0 \<le> n" and "length (str_nat n) \<le> 4300"
  shows "int_of_str (CHR ''-'' # str_nat n) = Inr (- n)"
proof -
  let ?s = "str_nat n"
  note d = str_nat_digits [OF assms(1)]
  have lst: "is_digit (last ?s)" using d by auto
  have "strip (CHR ''-'' # ?s) = CHR ''-'' # ?s"
    using d digit_facts(2) [OF lst] by (intro strip_fixed) (simp add: is_space_def code_def)
  moreover have "drop_underscores (CHR 0x00) (CHR ''-'' # ?s) = Some (CHR ''-'' # ?s)"
    using d digit_facts(1) by (intro drop_underscores_id) auto
  moreover have "split_sign (CHR ''-'' # ?s) = (True, ?s)" by (simp add: split_sign_def)
  ultimately show ?thesis
    using assms d list_all_is_digit_str_nat [OF assms(1)] by (simp add: int_of_str_def)
qed

lemma scan_number_int: "int_plain n \<Longrightarrow> scan_number (str_int n) = Inr (PInt n, [])"
proof (cases "n < 0")
  case True
  assume p: "int_plain n"
  have "scan_fraction [] = ([], [])" "scan_exponent [] = ([], [])" by (simp_all add: scan_fraction_def scan_exponent_def)
  then show ?thesis
    using True p int_of_str_negative [of "- n"] scan_whole_str_nat [of "- n"]
    by (simp add: str_int_def scan_number_def int_plain_def)
next
  case False
  assume p: "int_plain n"
  have e: "scan_fraction [] = ([], [])" "scan_exponent [] = ([], [])" by (simp_all add: scan_fraction_def scan_exponent_def)
  have "hd (str_nat n) \<noteq> CHR ''-''" using False str_nat_digits [of n] digit_facts(3) [of "hd (str_nat n)"] by auto
  then show ?thesis
    using False p e int_of_str_str_nat [of n] scan_whole_str_nat [of n]
    by (simp add: str_int_def scan_number_def int_plain_def)
qed

text \<open>A separator: the character, then white space.\<close>

definition separator :: "char \<Rightarrow> string \<Rightarrow> bool" where
  "separator c s = (\<exists>t. s = c # t \<and> list_all json_space t)"

lemma skip_separator: "separator c s \<Longrightarrow> \<exists>t. s = c # t \<and> skip_ws (t @ r) = skip_ws r"
  by (auto simp: separator_def skip_ws_def list_all_iff dropWhile_append2)

lemma skip_ws_head: "\<not> json_space c \<Longrightarrow> skip_ws (c # s) = c # s"
  by (simp add: skip_ws_def)

lemma dumps_head:
  assumes "json_plain v"
  shows "\<exists>c t. json_dumps i k v = c # t \<and> \<not> json_space c \<and> c \<noteq> CHR '']'' \<and> c \<noteq> CHR ''}''"
proof -
  have number: "scan_number s = Inr (w, r) \<Longrightarrow> \<exists>c t. s = c # t \<and> \<not> json_space c \<and> c \<noteq> CHR '']'' \<and> c \<noteq> CHR ''}''" for s w r
    using scan_number_head [of s w r] digit_not by (fastforce simp: json_space_def)
  show ?thesis
  proof (cases v)
    case (PInt n)
    then show ?thesis using assms number [OF scan_number_int [of n]] by simp
  next
    case (PFloat x)
    then show ?thesis using assms number [of "repr_float x"] by (cases x) (auto simp: json_space_def)
  qed (auto simp: json_space_def json_string_def)
qed

lemma scan_value_string: "scan_value (json_string s @ rest) = Inr (PStr s, rest)"
  using scan_json_string [of s rest] by (simp add: json_string_def scan_value.simps [of "_ # _"])

lemma scan_value_float: "float_plain x \<Longrightarrow> number_end rest \<Longrightarrow> scan_value (json_float x @ rest) = Inr (PFloat x, rest)"
  by (cases x) (auto simp: scan_value_number scan_value.simps [of "_ # _"] scan_word_def)

lemma dmerge_fresh: "dwf d \<Longrightarrow> fst ` set a \<inter> fst ` set d = {} \<Longrightarrow> dmerge a d = a @ d"
proof (induction d arbitrary: a)
  case (Cons p d)
  then show ?case by (cases p) (auto simp: dmerge_def dwf_def dset_fresh)
qed (simp add: dmerge_def)

lemma dmerge_Nil: "dwf d \<Longrightarrow> dmerge [] d = d"
  by (simp add: dmerge_fresh)

lemma join_Cons: "ys \<noteq> [] \<Longrightarrow> join sep (x # ys) = x @ sep @ join sep ys"
  by (cases ys) auto

text \<open>What one value needs of its printing: whatever follows that does not continue a number, it reads back.\<close>

definition reads_back :: "string \<Rightarrow> string \<Rightarrow> pyval \<Rightarrow> bool" where
  "reads_back i k v = (\<forall>rest. number_end rest \<longrightarrow> scan_value (json_dumps i k v @ rest) = Inr (v, rest))"

lemma reads_backD: "reads_back i k v \<Longrightarrow> number_end rest \<Longrightarrow> scan_value (json_dumps i k v @ rest) = Inr (v, rest)"
  by (simp add: reads_back_def)

lemma number_end_punctuation: "c \<in> set '',]}'' \<Longrightarrow> number_end (c # s)"
  by (auto simp: number_end_def is_digit_def code_def)

lemma scan_items_back:
  assumes "separator (CHR '','') i" and "xs \<noteq> []" and "\<And>x. x \<in> set xs \<Longrightarrow> json_plain x \<and> reads_back i k x"
  shows "scan_items (join i (map (json_dumps i k) xs) @ CHR '']'' # rest) = Inr (xs, rest)"
  using assms(2,3)
proof (induction xs rule: list_nonempty_induct)
  case (single x)
  have "scan_value (json_dumps i k x @ CHR '']'' # rest) = Inr (x, CHR '']'' # rest)"
    using single by (intro reads_backD number_end_punctuation) simp_all
  then show ?case by (simp add: scan_items.simps [of "json_dumps i k x @ CHR '']'' # rest"] skip_ws_head json_space_def)
next
  case (cons x xs)
  let ?tail = "join i (map (json_dumps i k) xs) @ CHR '']'' # rest"
  obtain t where i: "i = CHR '','' # t" and skip: "skip_ws (t @ ?tail) = skip_ws ?tail"
    using skip_separator [OF assms(1), of ?tail] by blast
  obtain y ys where xs: "xs = y # ys" using cons by (cases xs) auto
  obtain c u where "json_dumps i k y = c # u" "\<not> json_space c" using dumps_head [of y i k] cons.prems xs by auto
  then have st: "skip_ws ?tail = ?tail" by (cases ys) (simp_all add: xs skip_ws_head)
  have v: "scan_value (json_dumps i k x @ CHR '','' # t @ ?tail) = Inr (x, CHR '','' # t @ ?tail)"
    using cons.prems by (intro reads_backD number_end_punctuation) simp_all
  have all: "join i (map (json_dumps i k) (x # xs)) @ CHR '']'' # rest = json_dumps i k x @ CHR '','' # t @ ?tail"
    using cons.hyps by (simp add: join_Cons i)
  have "scan_items ?tail = Inr (xs, rest)" using cons by simp
  then show ?case
    unfolding all by (subst scan_items.simps) (simp add: v skip_ws_head json_space_def skip st)
qed

lemma scan_members_back:
  assumes "separator (CHR '','') i" and "separator (CHR '':'') k" and "d \<noteq> []"
    and "\<And>p. p \<in> set d \<Longrightarrow> json_plain (snd p) \<and> reads_back i k (snd p)"
  shows "scan_members (join i (map (\<lambda>p. json_string (fst p) @ k @ json_dumps i k (snd p)) d) @ CHR ''}'' # rest) = Inr (d, rest)"
  using assms(3,4)
proof (induction d rule: list_nonempty_induct)
  case (single p)
  obtain n v where p: "p = (n, v)" by (cases p)
  let ?val = "json_dumps i k v @ CHR ''}'' # rest"
  obtain t where k: "k = CHR '':'' # t" and skip: "skip_ws (t @ ?val) = skip_ws ?val"
    using skip_separator [OF assms(2), of ?val] by blast
  obtain c u where "json_dumps i k v = c # u" "\<not> json_space c" using dumps_head [of v i k] single by (auto simp: p)
  then have st: "skip_ws ?val = ?val" by (simp add: skip_ws_head)
  have v: "scan_value ?val = Inr (v, CHR ''}'' # rest)"
    using single by (intro reads_backD number_end_punctuation) (simp_all add: p)
  have key: "scan_string (concat (map json_char n) @ CHR 0x22 # k @ ?val) = Inr (n, CHR '':'' # t @ ?val)"
    using scan_json_string [of n "k @ ?val"] by (simp add: k)
  show ?case
    using key v by (simp add: p json_string_def scan_members.simps [of "CHR 0x22 # _"] skip_ws_head json_space_def skip st)
next
  case (cons p d)
  obtain n v where p: "p = (n, v)" by (cases p)
  let ?tail = "join i (map (\<lambda>p. json_string (fst p) @ k @ json_dumps i k (snd p)) d) @ CHR ''}'' # rest"
  obtain t where i: "i = CHR '','' # t" and skip: "skip_ws (t @ ?tail) = skip_ws ?tail"
    using skip_separator [OF assms(1), of ?tail] by blast
  obtain q ds where d: "d = q # ds" using cons by (cases d) auto
  have st: "skip_ws ?tail = ?tail" by (cases ds) (simp_all add: d json_string_def skip_ws_head json_space_def)
  let ?val = "json_dumps i k v @ CHR '','' # t @ ?tail"
  obtain t1 where k: "k = CHR '':'' # t1" and skip1: "skip_ws (t1 @ ?val) = skip_ws ?val"
    using skip_separator [OF assms(2), of ?val] by blast
  obtain c u where "json_dumps i k v = c # u" "\<not> json_space c" using dumps_head [of v i k] cons.prems [of p] by (auto simp: p)
  then have st1: "skip_ws ?val = ?val" by (simp add: skip_ws_head)
  have v: "scan_value ?val = Inr (v, CHR '','' # t @ ?tail)"
    using cons.prems [of p] by (intro reads_backD number_end_punctuation) (simp_all add: p)
  have key: "scan_string (concat (map json_char n) @ CHR 0x22 # k @ ?val) = Inr (n, CHR '':'' # t1 @ ?val)"
    using scan_json_string [of n "k @ ?val"] by (simp add: k)
  have all: "join i (map (\<lambda>p. json_string (fst p) @ k @ json_dumps i k (snd p)) (p # d)) @ CHR ''}'' # rest =
      CHR 0x22 # concat (map json_char n) @ CHR 0x22 # k @ ?val"
    using cons.hyps by (simp add: join_Cons p json_string_def i)
  have ih: "scan_members ?tail = Inr (d, rest)" using cons by simp
  show ?case
    unfolding all by (subst scan_members.simps) (simp add: key v skip_ws_head json_space_def skip st skip1 st1 ih p)
qed

lemma scan_dict_back:
  assumes "separator (CHR '','') i" and "separator (CHR '':'') k" and "dwf d"
    and "\<And>p. p \<in> set d \<Longrightarrow> json_plain (snd p) \<and> reads_back i k (snd p)"
  shows "scan_value (json_dumps i k (PDict d) @ rest) = Inr (PDict d, rest)"
proof (cases "d = []")
  case True
  then show ?thesis by (simp add: scan_value.simps [of "_ # _"] skip_ws_head json_space_def)
next
  case False
  then obtain q ds where d: "d = q # ds" by (cases d) auto
  let ?r = "join i (map (\<lambda>p. json_string (fst p) @ k @ json_dumps i k (snd p)) d) @ CHR ''}'' # rest"
  obtain w where r: "?r = CHR 0x22 # w" by (cases ds) (simp_all add: d json_string_def)
  have "scan_members ?r = Inr (d, rest)"
    using assms(4) False by (intro scan_members_back [OF assms(1,2)]) simp_all
  then show ?thesis
    unfolding r using r assms(3) by (simp add: scan_value.simps [of "_ # _"] skip_ws_head json_space_def dmerge_Nil)
qed

lemma plain_reads_back:
  assumes "separator (CHR '','') i" and "separator (CHR '':'') k"
  shows "json_plain v \<Longrightarrow> reads_back i k v"
proof (induction v)
  case (PList xs)
  show ?case unfolding reads_back_def
  proof (intro allI impI)
    fix rest assume "number_end rest"
    show "scan_value (json_dumps i k (PList xs) @ rest) = Inr (PList xs, rest)"
    proof (cases "xs = []")
      case True
      then show ?thesis by (simp add: scan_value.simps [of "_ # _"] skip_ws_head json_space_def)
    next
      case False
      then obtain y ys where xs: "xs = y # ys" by (cases xs) auto
      obtain c u where c: "json_dumps i k y = c # u" "\<not> json_space c" "c \<noteq> CHR '']''"
        using dumps_head [of y i k] PList.prems by (auto simp: xs)
      let ?r = "join i (map (json_dumps i k) xs) @ CHR '']'' # rest"
      obtain w where r: "?r = c # w" using c by (cases ys) (simp_all add: xs)
      have "scan_items ?r = Inr (xs, rest)"
        using PList False by (intro scan_items_back [OF assms(1)]) (auto simp: list_all_iff)
      then show ?thesis unfolding r using r c by (simp add: scan_value.simps [of "_ # _"] skip_ws_head)
    qed
  qed
next
  case (PDict d)
  have e: "json_plain (snd p) \<and> reads_back i k (snd p)" if "p \<in> set d" for p
    using PDict.IH [of p "snd p"] PDict.prems that by (cases p) (auto simp: list_all_iff)
  show ?case unfolding reads_back_def
  proof (intro allI impI)
    fix rest assume "number_end rest"
    show "scan_value (json_dumps i k (PDict d) @ rest) = Inr (PDict d, rest)"
      using PDict.prems by (intro scan_dict_back [OF assms] e) simp_all
  qed
next
  case (PStr s)
  then show ?case by (simp add: reads_back_def scan_value_string)
next
  case (PInt n)
  then show ?case by (simp add: reads_back_def scan_value_number scan_number_int)
next
  case (PFloat x)
  then show ?case by (simp add: reads_back_def scan_value_float)
qed (simp_all add: reads_back_def scan_value.simps [of "_ # _"] scan_word_def)

lemma scan_dumps:
  "json_plain v \<Longrightarrow> number_end rest \<Longrightarrow> scan_value (dumps v @ rest) = Inr (v, rest)"
  unfolding dumps_def by (rule reads_backD [OF plain_reads_back]) (simp_all add: separator_def json_space_def)

lemma scan_dumps_dict: "json_plain (PDict d) \<Longrightarrow> scan_value (dumps (PDict d) @ rest) = Inr (PDict d, rest)"
  unfolding dumps_def
  by (rule scan_dict_back) (auto simp: separator_def json_space_def list_all_iff intro!: plain_reads_back)

section \<open>The object in an answer\<close>

text \<open>The loop of the three \<open>_extract_json_object\<close>: from each opening brace in turn a value is read; the first one that
  reads is the answer.  Only a syntax error makes the loop go on.\<close>

fun find_object :: "string \<Rightarrow> json_error + pyval dict option" where
  "find_object [] = Inr None"
| "find_object (c # cs) =
     (if c \<noteq> CHR ''{'' then find_object cs
      else (case scan_value (c # cs) of
          Inr (PDict d, r) \<Rightarrow> Inr (Some d)
        | Inr (v, r) \<Rightarrow> find_object cs
        | Inl Bad_json \<Rightarrow> find_object cs
        | Inl e \<Rightarrow> Inl e))"

text \<open>The other errors are no \<open>JSONDecodeError\<close> and leave the loop.\<close>

definition extract_json_object :: "py_error \<Rightarrow> string \<Rightarrow> py_error + pyval dict" where
  "extract_json_object missing text =
     (case find_object text of
        Inl Digit_limit \<Rightarrow> Inl (ValueError ''Exceeds the limit (4300 digits) for integer string conversion'')
      | Inl e \<Rightarrow> Inl (RuntimeError ''character outside the model'')
      | Inr None \<Rightarrow> Inl missing
      | Inr (Some d) \<Rightarrow> Inr d)"

lemma find_object_skip: "CHR ''{'' \<notin> set pre \<Longrightarrow> find_object (pre @ s) = find_object s"
  by (induction pre) auto

lemma dumps_dict_head: "\<exists>t. dumps (PDict d) = CHR ''{'' # t"
  by (simp add: dumps_def)

lemma extract_dumps:
  assumes "json_plain (PDict d)" and "CHR ''{'' \<notin> set pre"
  shows "extract_json_object e (pre @ dumps (PDict d) @ rest) = Inr d"
proof -
  obtain t where t: "dumps (PDict d) = CHR ''{'' # t" using dumps_dict_head by blast
  have "find_object (dumps (PDict d) @ rest) = Inr (Some d)"
    using scan_dumps_dict [OF assms(1), of rest] by (simp add: t)
  then show ?thesis by (simp add: extract_json_object_def find_object_skip [OF assms(2)])
qed

end
