(* ===== verification/Hundredths.thy ===== *)
theory Hundredths
  imports Json
begin

text \<open>
  The floats with two decimals between 0 and 1, which is what \<open>round(x, 2)\<close> gives for the scores and confidences of an
  assessment.  There are 101 of them; rounding keeps each, no two of them are equal, and each prints to its two decimals,
  which read back as the float.
\<close>

definition hundredth :: "int \<Rightarrow> pyfloat" where
  "hundredth k = fl (of_int k / 100)"

section \<open>Near their decimal\<close>

lemma rnd_unit_near:
  assumes "0 \<le> x" and "x \<le> 1"
  shows "\<bar>rnd x - x\<bar> \<le> 1 / 2 ^ 53"
proof (cases "x = 0")
  case False
  then have x: "0 < x" using assms by simp
  have "\<not> 1 \<le> ilog2 x" using ilog2_ge_iff [OF x, of 1] assms by simp
  then have "qexp x \<le> - 52" using x by (simp add: qexp_def)
  then have "pow2 (qexp x) \<le> pow2 (- 52)" by simp
  also have "pow2 (- 52) = 1 / 2 ^ 52" by (simp add: pow2_def)
  finally have "pow2 (qexp x) / 2 \<le> 1 / 2 ^ 53" by simp
  then show ?thesis using rnd_error [of x] by linarith
qed simp

lemma rhe_eq: "\<bar>x - of_int k\<bar> < 1 / 2 \<Longrightarrow> rhe x = k"
  using rhe_near [of x] by linarith

lemma hundredth_Fin: "0 \<le> k \<Longrightarrow> k \<le> 100 \<Longrightarrow> hundredth k = Fin (rnd (of_int k / 100))"
  unfolding hundredth_def by (rule fl_small) simp

lemma hundredth_near: "0 \<le> k \<Longrightarrow> k \<le> 100 \<Longrightarrow> \<bar>rnd (of_int k / 100) - of_int k / 100\<bar> \<le> 1 / 2 ^ 53"
  by (rule rnd_unit_near) simp_all

lemma hundredth_inject:
  assumes "0 \<le> i" "i \<le> 100" "0 \<le> j" "j \<le> 100" and "rnd (of_int i / 100) = rnd (of_int j / 100)"
  shows "i = j"
proof -
  have "\<bar>of_int i / 100 - of_int j / 100 :: rat\<bar> \<le> 2 / 2 ^ 53"
    using hundredth_near [of i] hundredth_near [of j] assms by linarith
  then have "(of_int (i - j) :: rat) < 1 \<and> (of_int (j - i) :: rat) < 1"
    unfolding abs_le_iff by (simp add: field_simps)
  then have "i - j < 1 \<and> j - i < 1" by (metis of_int_less_iff of_int_1)
  then show ?thesis by linarith
qed

lemma fround_hundredth_same: "0 \<le> k \<Longrightarrow> k \<le> 100 \<Longrightarrow> fround 2 (hundredth k) = hundredth k"
proof -
  assume k: "0 \<le> k" "k \<le> 100"
  have "\<bar>rnd (of_int k / 100) * 10 ^ 2 - of_int k\<bar> < 1 / 2"
    using hundredth_near [OF k] unfolding abs_le_iff abs_less_iff by (simp add: field_simps)
  then have "rhe (rnd (of_int k / 100) * 10 ^ 2) = k" by (rule rhe_eq)
  then show ?thesis unfolding hundredth_Fin [OF k] fround.simps by (simp only: hundredth_def [symmetric] hundredth_Fin [OF k, symmetric]) (simp add: hundredth_def)
qed

lemma fround_hundredth:
  assumes "0 \<le> a" and "a \<le> 1"
  shows "\<exists>k. 0 \<le> k \<and> k \<le> 100 \<and> fround 2 (Fin a) = hundredth k"
proof -
  have "rhe (of_int 0) \<le> rhe (a * 10 ^ 2)" and "rhe (a * 10 ^ 2) \<le> rhe (of_int 100)" using assms by (intro rhe_mono; simp)+
  then show ?thesis by (intro exI [of _ "rhe (a * 10 ^ 2)"]) (simp only: rhe_of_int, simp add: hundredth_def)
qed

section \<open>The printed decimal\<close>

text \<open>What \<open>repr_pos\<close> prints for the shortest decimal \<open>m * 10 ^ e\<close>.\<close>

definition decimal_text :: "int \<Rightarrow> int \<Rightarrow> string" where
  "decimal_text m e =
     (let all = str_nat m; point = int (length all) + e; ds = rstrip_if (\<lambda>c. c = CHR ''0'') all; len = int (length ds)
      in if - 4 < point \<and> point \<le> 16 then
           (if point \<le> 0 then ''0.'' @ replicate (nat (- point)) (CHR ''0'') @ ds
            else if len \<le> point then ds @ replicate (nat (point - len)) (CHR ''0'') @ ''.0''
            else take (nat point) ds @ ''.'' @ drop (nat point) ds)
         else take 1 ds @ (if len = 1 then [] else ''.'' @ drop 1 ds) @ exponent_str (point - 1))"

lemma repr_pos_text: "shortest_decimal x = (m, e) \<Longrightarrow> repr_pos x = decimal_text m e"
  by (simp add: repr_pos_def decimal_text_def)

text \<open>A point and digits after a zero.\<close>

lemma digits_lower: "list_all is_digit ds \<Longrightarrow> lower ds = ds"
  by (induction ds) (auto simp: lower_def char_lower_def is_digit_def)

lemma float_of_fraction:
  assumes "ds \<noteq> []" and "list_all is_digit ds"
  shows "float_of_str (''0.'' @ ds) = Inr (fl (of_int (nat_of_digits ds) / 10 ^ length ds))"
proof -
  let ?t = "''0.'' @ ds"
  have lst: "is_digit (last ds)" using assms by (simp add: list_all_iff)
  have "strip ?t = ?t" using assms digit_facts(2) [OF lst] by (intro strip_fixed) (simp add: is_space_def code_def)
  moreover have "drop_underscores (CHR 0x00) ?t = Some ?t"
    using assms digit_facts(1) by (intro drop_underscores_id) (auto simp: list_all_iff)
  moreover have "split_sign ?t = (False, ?t)" by (simp add: split_sign_def)
  moreover have "lower ?t = ?t" using digits_lower [OF assms(2)] by (simp add: lower_def char_lower_def code_def)
  moreover have "decimal_value ?t = Some (of_int (nat_of_digits ds) / 10 ^ length ds)"
  proof -
    have tw: "takeWhile is_digit ds = ds" "dropWhile is_digit ds = []"
      using assms(2) by (simp_all add: takeWhile_eq_all_conv dropWhile_eq_Nil_conv list_all_iff)
    have "is_digit (CHR ''0'')" "\<not> is_digit (CHR ''.'')" by (simp_all add: is_digit_def code_def)
    moreover have "nat_of_digits (CHR ''0'' # ds) = nat_of_digits ds" by (simp add: nat_of_digits_def code_def)
    ultimately show ?thesis
      using assms(1) by (simp add: decimal_value_def tw exponent_part_def pow10_def)
  qed
  ultimately show ?thesis by (simp add: float_of_str_def)
qed

lemma scan_fraction_number:
  assumes "ds \<noteq> []" and "list_all is_digit ds"
  shows "scan_number (''0.'' @ ds) = Inr (PFloat (fl (of_int (nat_of_digits ds) / 10 ^ length ds)), [])"
proof -
  obtain d es where ds: "ds = d # es" using assms(1) by (cases ds) auto
  have "scan_digits ds = (ds, [])"
    using assms(2) by (simp add: scan_digits_def takeWhile_eq_all_conv dropWhile_eq_Nil_conv list_all_iff)
  then have "scan_fraction (CHR ''.'' # ds) = (CHR ''.'' # ds, [])" using assms(2) by (simp add: ds scan_fraction_def)
  moreover have "scan_whole (''0.'' @ ds) = Some (''0'', CHR ''.'' # ds)" by (simp add: scan_whole_def)
  moreover have "scan_exponent [] = ([], [])" by (simp add: scan_exponent_def)
  ultimately show ?thesis using float_of_fraction [OF assms] by (simp add: scan_number_def)
qed

definition two_digits :: "int \<Rightarrow> string" where
  "two_digits k = [digit_char (k div 10), digit_char (k mod 10)]"

lemma digit_char_digit: "0 \<le> d \<Longrightarrow> d < 10 \<Longrightarrow> is_digit (digit_char d)"
  by (simp add: is_digit_def)

lemma text_of_hundredths:
  "list_all (\<lambda>k. k mod 10 = 0 \<or> decimal_text k (- 2) = ''0.'' @ two_digits k) [1..99]"
  "list_all (\<lambda>j. decimal_text j (- 1) = ''0.'' @ [digit_char j]) [1..9]"
  by code_simp+

section \<open>The shortest decimal\<close>

text \<open>The bounds of a hundredth, and its decimal exponent.\<close>

lemma hundredth_lower: "1 \<le> k \<Longrightarrow> k \<le> 100 \<Longrightarrow> 1 / 100 \<le> rnd (of_int k / 100)"
proof -
  have one: "1 / 100 \<le> rnd (1 / 100)" by code_simp
  assume "1 \<le> k"
  then have "rnd (1 / 100) \<le> rnd (of_int k / 100)" by (intro rnd_mono) simp
  then show ?thesis using one by linarith
qed

lemma tenth_lower: "10 \<le> k \<Longrightarrow> k \<le> 100 \<Longrightarrow> 1 / 10 \<le> rnd (of_int k / 100)"
proof -
  have one: "1 / 10 \<le> rnd (1 / 10)" by code_simp
  assume "10 \<le> k"
  then have "rnd (1 / 10) \<le> rnd (of_int k / 100)" by (intro rnd_mono) simp
  then show ?thesis using one by linarith
qed

lemma hundredth_upper: "0 \<le> k \<Longrightarrow> k \<le> 100 \<Longrightarrow> rnd (of_int k / 100) < of_int (k + 1) / 100"
  using hundredth_near [of k] unfolding abs_le_iff by (simp add: field_simps)

lemma ilog2_between: "0 < x \<Longrightarrow> pow2 a \<le> x \<Longrightarrow> x < pow2 (b + 1) \<Longrightarrow> a \<le> ilog2 x \<and> ilog2 x \<le> b"
  using ilog2_ge_iff [of x a] ilog2_ge_iff [of x "b + 1"] by linarith

lemma ilog10_hundredth:
  assumes "1 \<le> k" "k \<le> 9"
  shows "ilog10 (rnd (of_int k / 100)) = - 2"
proof -
  let ?x = "rnd (of_int k / 100)"
  have "of_int (k + 1) / 100 \<le> (1 / 10 :: rat)" using assms by simp
  then have x: "1 / 100 \<le> ?x" "?x < 1 / 10" using hundredth_lower [of k] hundredth_upper [of k] assms by linarith+
  have "- 7 \<le> ilog2 ?x \<and> ilog2 ?x \<le> - 4" using x by (intro ilog2_between) (simp_all add: pow2_def)
  then have "ilog2 ?x \<in> {- 7, - 6, - 5, - 4}" by auto
  then show ?thesis using x by (auto simp: ilog10_def pow10_def)
qed

lemma ilog10_tenth:
  assumes "10 \<le> k" "k \<le> 99"
  shows "ilog10 (rnd (of_int k / 100)) = - 1"
proof -
  let ?x = "rnd (of_int k / 100)"
  have "of_int (k + 1) / 100 \<le> (1 :: rat)" using assms by simp
  then have x: "1 / 10 \<le> ?x" "?x < 1" using tenth_lower [of k] hundredth_upper [of k] assms by linarith+
  have "- 4 \<le> ilog2 ?x \<and> ilog2 ?x \<le> - 1" using x by (intro ilog2_between) (simp_all add: pow2_def)
  then have "ilog2 ?x \<in> {- 4, - 3, - 2, - 1}" by auto
  then show ?thesis using x by (auto simp: ilog10_def pow10_def)
qed

text \<open>Of the two integers next to a number close to an integer, one is that integer.\<close>

lemma near_floor_ceiling:
  assumes "\<bar>y - of_int k\<bar> < (1 :: rat)"
  shows "\<lfloor>y\<rfloor> = k \<or> \<lceil>y\<rceil> = k" and "k - 1 \<le> \<lfloor>y\<rfloor>" and "\<lceil>y\<rceil> \<le> k + 1" and "\<lfloor>y\<rfloor> \<le> \<lceil>y\<rceil>"
  using assms by linarith+

lemma decimal_at_hit:
  assumes e: "ilog10 x - int n + 1 = e" and near: "\<bar>x / pow10 e - of_int k\<bar> < 1"
    and hit: "\<And>m. k - 1 \<le> m \<Longrightarrow> m \<le> k + 1 \<Longrightarrow> rnd (of_int m * pow10 e) = x \<longleftrightarrow> m = k"
  shows "decimal_at x n = Some (k, e)"
proof -
  let ?s = "x / pow10 e"
  note near = near_floor_ceiling [OF near]
  have lo: "rnd (of_int \<lfloor>?s\<rfloor> * pow10 e) = x \<longleftrightarrow> \<lfloor>?s\<rfloor> = k" using near by (intro hit) linarith+
  have hi: "rnd (of_int \<lceil>?s\<rceil> * pow10 e) = x \<longleftrightarrow> \<lceil>?s\<rceil> = k" using near by (intro hit) linarith+
  show ?thesis using near(1) by (auto simp: decimal_at_def Let_def e lo hi)
qed

lemma decimal_at_miss:
  assumes e: "ilog10 x - int n + 1 = e"
    and miss: "\<And>m. m = \<lfloor>x / pow10 e\<rfloor> \<or> m = \<lceil>x / pow10 e\<rceil> \<Longrightarrow> rnd (of_int m * pow10 e) \<noteq> x"
  shows "decimal_at x n = None"
  using miss by (auto simp: decimal_at_def Let_def e)

lemma pow10_small [simp]: "pow10 (- 1) = 1 / 10" "pow10 (- 2) = 1 / 100"
  by (simp_all add: pow10_def)

lemma hit_hundredth:
  assumes "1 \<le> k" "k \<le> 99" and "k - 1 \<le> m" "m \<le> k + 1"
  shows "rnd (of_int m * pow10 (- 2)) = rnd (of_int k / 100) \<longleftrightarrow> m = k"
  using hundredth_inject [of m k] assms by auto

lemma near_hundredth: "1 \<le> k \<Longrightarrow> k \<le> 99 \<Longrightarrow> \<bar>rnd (of_int k / 100) / pow10 (- 2) - of_int k\<bar> < 1"
  using hundredth_near [of k] unfolding abs_le_iff abs_less_iff by (simp add: field_simps)

lemma near_tenth: "1 \<le> j \<Longrightarrow> j \<le> 9 \<Longrightarrow> \<bar>rnd (of_int (10 * j) / 100) / pow10 (- 1) - of_int j\<bar> < 1"
  using hundredth_near [of "10 * j"] unfolding abs_le_iff abs_less_iff by (simp add: field_simps)

lemma shortest_decimal_first: "decimal_at x 1 = Some p \<Longrightarrow> shortest_decimal x = p"
  by (simp add: shortest_decimal_def upt_rec)

lemma shortest_decimal_second: "decimal_at x 1 = None \<Longrightarrow> decimal_at x 2 = Some p \<Longrightarrow> shortest_decimal x = p"
proof -
  have "[1..<18] = 1 # 2 # [3..<(18 :: nat)]" by code_simp
  then show "decimal_at x 1 = None \<Longrightarrow> decimal_at x 2 = Some p \<Longrightarrow> ?thesis" by (simp add: shortest_decimal_def)
qed

lemma shortest_digit: "1 \<le> k \<Longrightarrow> k \<le> 9 \<Longrightarrow> shortest_decimal (rnd (of_int k / 100)) = (k, - 2)"
  by (intro shortest_decimal_first decimal_at_hit near_hundredth hit_hundredth) (simp_all add: ilog10_hundredth)

lemma shortest_tens: "1 \<le> j \<Longrightarrow> j \<le> 9 \<Longrightarrow> shortest_decimal (rnd (of_int (10 * j) / 100)) = (j, - 1)"
proof -
  assume j: "1 \<le> j" "j \<le> 9"
  have "rnd (of_int m * pow10 (- 1)) = rnd (of_int (10 * j) / 100) \<longleftrightarrow> m = j" if "j - 1 \<le> m" "m \<le> j + 1" for m
    using hundredth_inject [of "10 * m" "10 * j"] that j by auto
  then show ?thesis
    using j ilog10_tenth [of "10 * j"] by (intro shortest_decimal_first decimal_at_hit near_tenth) simp_all
qed

lemma shortest_two_digits:
  assumes "10 \<le> k" "k \<le> 99" and "k mod 10 \<noteq> 0"
  shows "shortest_decimal (rnd (of_int k / 100)) = (k, - 2)"
proof (rule shortest_decimal_second)
  let ?x = "rnd (of_int k / 100)"
  have x: "0 \<le> ?x / pow10 (- 1)" "?x / pow10 (- 1) \<le> 10"
    using hundredth_upper [of k] hundredth_lower [of k] assms by (simp_all add: field_simps)
  show "decimal_at ?x 1 = None"
  proof (rule decimal_at_miss [where e = "- 1"])
    fix m assume m: "m = \<lfloor>?x / pow10 (- 1)\<rfloor> \<or> m = \<lceil>?x / pow10 (- 1)\<rceil>"
    then have "0 \<le> m \<and> m \<le> 10" using x by (auto simp: le_floor_iff floor_le_iff ceiling_le_iff le_ceiling_iff)
    moreover have "10 * m \<noteq> k" using assms(3) by auto
    ultimately show "rnd (of_int m * pow10 (- 1)) \<noteq> ?x" using hundredth_inject [of "10 * m" k] assms by auto
  qed (use assms in \<open>simp add: ilog10_tenth\<close>)
  show "decimal_at ?x 2 = Some (k, - 2)"
    using assms by (intro decimal_at_hit near_hundredth hit_hundredth) (simp_all add: ilog10_tenth)
qed

lemma nat_of_two_digits: "0 \<le> k \<Longrightarrow> k < 100 \<Longrightarrow> nat_of_digits (two_digits k) = k"
  by (simp add: two_digits_def nat_of_digits_def)

lemma repr_hundredth:
  assumes "1 \<le> k" "k \<le> 99"
  shows "scan_number (repr_pos (rnd (of_int k / 100))) = Inr (PFloat (hundredth k), [])"
proof (cases "k mod 10 = 0")
  case True
  define j where "j = k div 10"
  have k: "k = 10 * j" "1 \<le> j" "j \<le> 9" using True assms by (auto simp: j_def)
  have "j \<in> set [1..9]" using k by simp
  then have t: "decimal_text j (- 1) = ''0.'' @ [digit_char j]" using text_of_hundredths(2) unfolding list_all_iff by blast
  have "scan_number (''0.'' @ [digit_char j]) = Inr (PFloat (hundredth k), [])"
    using scan_fraction_number [of "[digit_char j]"] digit_char_digit [of j] k by (simp add: nat_of_digits_def hundredth_def)
  then show ?thesis using repr_pos_text [OF shortest_tens [OF k(2,3)]] by (simp add: k(1) t)
next
  case False
  have "k \<in> set [1..99]" using assms by simp
  then have t: "decimal_text k (- 2) = ''0.'' @ two_digits k" using text_of_hundredths(1) False unfolding list_all_iff by blast
  have s: "shortest_decimal (rnd (of_int k / 100)) = (k, - 2)"
    using shortest_digit [of k] shortest_two_digits [of k] assms False by linarith
  have "list_all is_digit (two_digits k)" using assms by (simp add: two_digits_def digit_char_digit)
  then have "scan_number (''0.'' @ two_digits k) = Inr (PFloat (hundredth k), [])"
    using scan_fraction_number [of "two_digits k"] nat_of_two_digits [of k] assms by (simp add: hundredth_def two_digits_def)
  then show ?thesis using repr_pos_text [OF s] by (simp add: t)
qed

text \<open>Every hundredth prints to a text that reads back.\<close>

lemma hundredth_plain:
  assumes "0 \<le> k" "k \<le> 100"
  shows "float_plain (hundredth k)"
proof -
  have h: "hundredth k = Fin (rnd (of_int k / 100))" using assms by (rule hundredth_Fin)
  consider "k = 0" | "1 \<le> k" "k \<le> 99" | "k = 100" using assms by linarith
  then show ?thesis
  proof cases
    case 1
    have "float_plain (fl 0)" by code_simp
    then show ?thesis by (simp add: 1 hundredth_def)
  next
    case 2
    then have "0 < rnd (of_int k / 100)" using hundredth_lower [of k] by linarith
    then show ?thesis using repr_hundredth [OF 2] by (simp add: h)
  next
    case 3
    have "float_plain (fl 1)" by code_simp
    then show ?thesis by (simp add: 3 hundredth_def)
  qed
qed

end
