(* ===== verification/Risk_Prompts.thy ===== *)
theory Risk_Prompts
  imports Hundredths Dhs_Engine
begin

text \<open>
  \<open>risk_engine/prompts.py\<close>: the prompt of a qualitative assessment and the validation of the answer.

  The response schema and the texts are the source's constants.  \<open>parse_qualitative_risk_response\<close> takes the first JSON
  object of the answer apart: every field is checked, the six criteria one by one, and a field that is wrong raises
  \<open>QualitativeRiskResponseParseError\<close> (\<open>ParseError\<close>).  A criterion is a dict of dynamic values, as the database keeps
  it; a score is the int 0, the int 1 or a float between, since \<open>max\<close> and \<open>min\<close> return one of their arguments.
\<close>

section \<open>The prompt\<close>

definition nl :: string where
  "nl = [CHR 0x0A]"

definition QUALITATIVE_RISK_PROMPT_VERSION :: string where
  "QUALITATIVE_RISK_PROMPT_VERSION = ''qualitative-risk-v7''"

definition schema_asset_value :: pyval where
  "schema_asset_value =
     PDict
       [(''question'', PStr ''Q1: asset value based on external exposure and business importance.''),
        (''rating'', PStr ''low|medium|high|critical''),
        (''score'', PFloat (Fin 0)),
        (''rationale'', PStr ''One-sentence evidence-based explanation.''),
        (''signals'', PList [PStr ''public_internet'', PStr ''critical service role''])]"

definition schema_protected_information :: pyval where
  "schema_protected_information =
     PDict
       [(''question'', PStr ''Q2: protected information based on data classification and confidentiality needs.''),
        (''rating'', PStr ''low|medium|high|critical''),
        (''score'', PFloat (Fin 0)),
        (''data_classification'', PStr ''low|medium|high|critical|unknown''),
        (''rationale'', PStr ''One-sentence evidence-based explanation.''),
        (''signals'', PList [PStr ''sensitivity:critical'', PStr ''lifespan_years:10''])]"

definition schema_communication_scope :: pyval where
  "schema_communication_scope =
     PDict
       [(''question'', PStr ''Q3: communication scope based on internal-only versus external bidirectional exposure.''),
        (''rating'', PStr ''low|medium|high|critical''),
        (''score'', PFloat (Fin 0)),
        (''exposure'', PStr ''air_gapped|internal_network|dmz|public_internet|unknown''),
        (''direction'', PStr ''none|internal_only|external_inbound|external_bidirectional|unknown''),
        (''rationale'', PStr ''One-sentence evidence-based explanation.''),
        (''signals'', PList [PStr ''exposure:public_internet'', PStr ''direction:external_bidirectional''])]"

definition schema_sharing_level :: pyval where
  "schema_sharing_level =
     PDict
       [(''question'', PStr ''Q4: sharing level based on third-party or partner integration.''),
        (''rating'', PStr ''low|medium|high|critical''),
        (''score'', PFloat (Fin 0)),
        (''sharing_scope'', PStr ''none|internal_only|partner|third_party|public|unknown''),
        (''external_parties'', PList [PStr ''partner_idp'', PStr ''public_clients'']),
        (''rationale'', PStr ''One-sentence evidence-based explanation.''),
        (''signals'', PList [PStr ''service_role:api-gateway'', PStr ''exposure:public_internet''])]"

definition schema_critical_infrastructure :: pyval where
  "schema_critical_infrastructure =
     PDict
       [(''question'', PStr ''Q5: critical infrastructure dependency based on DB, identity, payment, KMS, or gateway role.''),
        (''rating'', PStr ''low|medium|high|critical''),
        (''score'', PFloat (Fin 0)),
        (''dependency_level'', PStr ''none|supporting|core|critical|unknown''),
        (''infrastructure_roles'', PList [PStr ''identity_auth'', PStr ''data_store'', PStr ''payment'', PStr ''key_management'']),
        (''rationale'', PStr ''One-sentence evidence-based explanation.''),
        (''signals'', PList [PStr ''service_role:auth'', PStr ''dependency_count:2''])]"

definition schema_protection_duration :: pyval where
  "schema_protection_duration =
     PDict
       [(''question'', PStr ''Q6: protection duration based on retention period and HNDL exposure.''),
        (''rating'', PStr ''low|medium|high|critical''),
        (''score'', PFloat (Fin 0)),
        (''lifespan_years'', PInt 10),
        (''hndl_exposure'', PStr ''low|medium|high|critical|unknown''),
        (''rationale'', PStr ''One-sentence evidence-based explanation.''),
        (''signals'', PList [PStr ''lifespan_years:10'', PStr ''quantum_vulnerable:true''])]"

definition QUALITATIVE_RISK_RESPONSE_SCHEMA :: pyval where
  "QUALITATIVE_RISK_RESPONSE_SCHEMA =
     PDict
       [(''summary'', PStr ''Short operational risk summary.''),
        (''threat_scenarios'', PList [PStr ''harvest_now_decrypt_later'', PStr ''network_exposed_cryptographic_service'']),
        (''migration_recommendation'', PStr ''Actionable PQC or hybrid migration recommendation.''),
        (''dhs_criteria'',
           PDict [(''asset_value'', schema_asset_value), (''protected_information'', schema_protected_information),
             (''communication_scope'', schema_communication_scope), (''sharing_level'', schema_sharing_level),
             (''critical_infrastructure'', schema_critical_infrastructure), (''protection_duration'', schema_protection_duration)]),
        (''confidence'', PFloat (Fin 0))]"

definition QUALITATIVE_RISK_SYSTEM_PROMPT :: string where
  "QUALITATIVE_RISK_SYSTEM_PROMPT =
     ''You are a PQC migration risk analyst.'' @ nl @
     ''Assess one cryptographic asset for quantum-era migration planning.'' @ nl @
     ''Use only the supplied asset, context, source, and risk data.'' @ nl @
     ''Return concise JSON that matches the requested schema.''"

definition qualitative_user_prompt :: "pyval \<Rightarrow> string" where
  "qualitative_user_prompt payload =
     ''Evaluate this cryptographic asset for PQC migration priority.'' @ nl @
     ''Focus on HNDL exposure, service criticality, communication exposure, file/config evidence, and migration urgency.'' @ nl @
     ''For DHS Q1 asset_value, rate the asset by external exposure and business importance only.'' @ nl @
     ''For DHS Q2 protected_information, rate the information protected by the asset using data classification and confidentiality needs.'' @ nl @
     ''For DHS Q3 communication_scope, rate internal-only versus external bidirectional communication exposure.'' @ nl @
     ''For DHS Q4 sharing_level, rate third-party, partner, or public sharing paths.'' @ nl @
     ''For DHS Q5 critical_infrastructure, rate dependency on DB, identity, payment, KMS, gateway, or other core services.'' @ nl @
     ''For DHS Q6 protection_duration, rate retention duration and HNDL exposure for long-lived protected data.'' @ nl @
     ''Do not invent facts not present in the payload.'' @ nl @ nl @
     ''Payload:'' @ nl @
     json_indent 0 (sort_keys payload) @ nl @ nl @
     ''Required JSON schema:'' @ nl @
     json_indent 0 (sort_keys QUALITATIVE_RISK_RESPONSE_SCHEMA)"


record prompt =
  pm_version :: string
  pm_system :: string
  pm_user :: string
  pm_schema :: pyval
  pm_payload :: pyval

text \<open>\<open>_json_safe\<close>; the values of the model are JSON values already.\<close>

fun json_safe :: "pyval \<Rightarrow> pyval" where
  "json_safe (PDict d) = PDict (map (\<lambda>p. (fst p, json_safe (snd p))) d)"
| "json_safe (PList xs) = PList (map json_safe xs)"
| "json_safe v = v"

definition build_qualitative_risk_prompt :: "pyval \<Rightarrow> pyval \<Rightarrow> pyval \<Rightarrow> pyval \<Rightarrow> pyval \<Rightarrow> prompt" where
  "build_qualitative_risk_prompt asset ctx sources operational risk =
     (let payload = PDict
        [(''asset'', json_safe asset), (''context'', json_safe ctx), (''context_sources'', json_safe sources),
         (''operational_context'', json_safe (py_or operational (PDict []))), (''risk'', json_safe (py_or risk (PDict [])))]
      in \<lparr>pm_version = QUALITATIVE_RISK_PROMPT_VERSION, pm_system = QUALITATIVE_RISK_SYSTEM_PROMPT,
          pm_user = qualitative_user_prompt payload, pm_schema = QUALITATIVE_RISK_RESPONSE_SCHEMA, pm_payload = payload\<rparr>)"

section \<open>Fields of the answer\<close>

definition field_error :: "string \<Rightarrow> string \<Rightarrow> py_error" where
  "field_error field what = ParseError (''LLM response field '' @ [CHR 0x27] @ field @ [CHR 0x27] @ '' '' @ what)"

definition required_string :: "pyval dict \<Rightarrow> string \<Rightarrow> py_error + string" where
  "required_string d key =
     (case pget d key of
        PStr s \<Rightarrow> if strip s = [] then Inl (field_error key ''must be a non-empty string'') else Inr (strip s)
      | _ \<Rightarrow> Inl (field_error key ''must be a non-empty string''))"

definition string_list :: "pyval \<Rightarrow> py_error + string list" where
  "string_list v =
     rbind (case v of PStr s \<Rightarrow> Inr [v] | PList xs \<Rightarrow> Inr xs
            | _ \<Rightarrow> Inl (field_error ''threat_scenarios'' ''must be a string list'')) (\<lambda>items.
       let result = filter (\<lambda>s. s \<noteq> []) (map (\<lambda>x. strip (py_str x)) items)
       in if result = [] then Inl (field_error ''threat_scenarios'' ''must not be empty'') else Inr result)"

text \<open>A name that has to be one of several.\<close>

definition one_of :: "pyval dict \<Rightarrow> string \<Rightarrow> string list \<Rightarrow> string \<Rightarrow> py_error + string" where
  "one_of d key allowed field =
     rbind (required_string d key) (\<lambda>s.
       if lower s \<in> set allowed then Inr (lower s) else Inl (field_error field ''has an invalid value''))"

definition LEVELS :: "string list" where
  "LEVELS = [''low'', ''medium'', ''high'', ''critical'']"

definition rating_of :: "pyval dict \<Rightarrow> string \<Rightarrow> py_error + string" where
  "rating_of d field = one_of d ''rating'' LEVELS field"

text \<open>\<open>round(max(0, min(1, c)), 2)\<close>, where \<open>max\<close> and \<open>min\<close> keep their int unless the float beats it.\<close>

definition unit_number :: "pyfloat \<Rightarrow> pyval" where
  "unit_number c = (if \<not> flt c (Fin 1) then PInt 1 else if \<not> flt (Fin 0) c then PInt 0 else PFloat (fround 2 c))"

definition confidence_of :: "pyval \<Rightarrow> py_error + pyval" where
  "confidence_of v =
     (case py_float v of
        Inl (TypeError m) \<Rightarrow> Inl (field_error ''confidence'' ''must be numeric'')
      | Inl (ValueError m) \<Rightarrow> Inl (field_error ''confidence'' ''must be numeric'')
      | Inl e \<Rightarrow> Inl e
      | Inr c \<Rightarrow> Inr (unit_number (if flt (Fin 1) c \<and> fle c (Fin 100) then fdiv_by c 100 else c)))"

definition optional_non_negative_int :: "pyval \<Rightarrow> py_error + pyval" where
  "optional_non_negative_int v =
     (let field = ''dhs_criteria.protection_duration.lifespan_years''
      in if v = PNone then Inr PNone
         else (case py_int v of
                Inl (TypeError m) \<Rightarrow> Inl (field_error field ''must be numeric or null'')
              | Inl (ValueError m) \<Rightarrow> Inl (field_error field ''must be numeric or null'')
              | Inl e \<Rightarrow> Inl e
              | Inr n \<Rightarrow> if n < 0 then Inl (field_error field ''must not be negative'') else Inr (PInt n)))"

section \<open>The six criteria\<close>

definition criterion_field :: "string \<Rightarrow> string" where
  "criterion_field name = ''dhs_criteria.'' @ name"

definition criterion_dict :: "string \<Rightarrow> pyval \<Rightarrow> py_error + pyval dict" where
  "criterion_dict name v = (case v of PDict d \<Rightarrow> Inr d | _ \<Rightarrow> Inl (field_error (criterion_field name) ''must be an object''))"

definition question_of :: "pyval dict \<Rightarrow> string \<Rightarrow> pyval" where
  "question_of d text = PStr (py_str (py_or (pget d ''question'') (PStr text)))"

definition strings :: "string list \<Rightarrow> pyval" where
  "strings xs = PList (map PStr xs)"

text \<open>What ends every criterion: the score, its own fields, the rationale and the signals.\<close>

definition dhs_asset_value :: "pyval \<Rightarrow> py_error + pyval" where
  "dhs_asset_value v =
     rbind (criterion_dict ''asset_value'' v) (\<lambda>d.
     rbind (one_of d ''rating'' LEVELS (criterion_field ''asset_value.rating'')) (\<lambda>rating.
     rbind (confidence_of (pget d ''score'')) (\<lambda>score.
     rbind (required_string d ''rationale'') (\<lambda>rationale.
     rbind (string_list (pget d ''signals'')) (\<lambda>signals.
       Inr (PDict
         [(''question'', question_of d ''Q1: asset value based on external exposure and business importance.''),
          (''rating'', PStr rating), (''score'', score), (''rationale'', PStr rationale), (''signals'', strings signals)]))))))"

definition dhs_protected_information :: "pyval \<Rightarrow> py_error + pyval" where
  "dhs_protected_information v =
     rbind (criterion_dict ''protected_information'' v) (\<lambda>d.
     rbind (rating_of d (criterion_field ''protected_information.rating'')) (\<lambda>rating.
     rbind (one_of d ''data_classification'' (LEVELS @ [''unknown'']) (criterion_field ''protected_information.data_classification'')) (\<lambda>classification.
     rbind (confidence_of (pget d ''score'')) (\<lambda>score.
     rbind (required_string d ''rationale'') (\<lambda>rationale.
     rbind (string_list (pget d ''signals'')) (\<lambda>signals.
       Inr (PDict
         [(''question'', question_of d ''Q2: protected information based on data classification and confidentiality needs.''),
          (''rating'', PStr rating), (''score'', score), (''data_classification'', PStr classification),
          (''rationale'', PStr rationale), (''signals'', strings signals)])))))))"

definition EXPOSURES :: "string list" where
  "EXPOSURES = [''air_gapped'', ''internal_network'', ''dmz'', ''public_internet'', ''unknown'']"

definition DIRECTIONS :: "string list" where
  "DIRECTIONS = [''none'', ''internal_only'', ''external_inbound'', ''external_bidirectional'', ''unknown'']"

definition dhs_communication_scope :: "pyval \<Rightarrow> py_error + pyval" where
  "dhs_communication_scope v =
     rbind (criterion_dict ''communication_scope'' v) (\<lambda>d.
     rbind (rating_of d (criterion_field ''communication_scope.rating'')) (\<lambda>rating.
     rbind (one_of d ''exposure'' EXPOSURES (criterion_field ''communication_scope.exposure'')) (\<lambda>exposure.
     rbind (one_of d ''direction'' DIRECTIONS (criterion_field ''communication_scope.direction'')) (\<lambda>direction.
     rbind (confidence_of (pget d ''score'')) (\<lambda>score.
     rbind (required_string d ''rationale'') (\<lambda>rationale.
     rbind (string_list (pget d ''signals'')) (\<lambda>signals.
       Inr (PDict
         [(''question'', question_of d ''Q3: communication scope based on internal-only versus external bidirectional exposure.''),
          (''rating'', PStr rating), (''score'', score), (''exposure'', PStr exposure), (''direction'', PStr direction),
          (''rationale'', PStr rationale), (''signals'', strings signals)]))))))))"

definition SHARING_SCOPES :: "string list" where
  "SHARING_SCOPES = [''none'', ''internal_only'', ''partner'', ''third_party'', ''public'', ''unknown'']"

definition dhs_sharing_level :: "pyval \<Rightarrow> py_error + pyval" where
  "dhs_sharing_level v =
     rbind (criterion_dict ''sharing_level'' v) (\<lambda>d.
     rbind (rating_of d (criterion_field ''sharing_level.rating'')) (\<lambda>rating.
     rbind (one_of d ''sharing_scope'' SHARING_SCOPES (criterion_field ''sharing_level.sharing_scope'')) (\<lambda>scope.
     rbind (confidence_of (pget d ''score'')) (\<lambda>score.
     rbind (string_list (pget d ''external_parties'')) (\<lambda>parties.
     rbind (required_string d ''rationale'') (\<lambda>rationale.
     rbind (string_list (pget d ''signals'')) (\<lambda>signals.
       Inr (PDict
         [(''question'', question_of d ''Q4: sharing level based on third-party or partner integration.''),
          (''rating'', PStr rating), (''score'', score), (''sharing_scope'', PStr scope),
          (''external_parties'', strings parties), (''rationale'', PStr rationale), (''signals'', strings signals)]))))))))"

definition DEPENDENCY_LEVELS :: "string list" where
  "DEPENDENCY_LEVELS = [''none'', ''supporting'', ''core'', ''critical'', ''unknown'']"

definition dhs_critical_infrastructure :: "pyval \<Rightarrow> py_error + pyval" where
  "dhs_critical_infrastructure v =
     rbind (criterion_dict ''critical_infrastructure'' v) (\<lambda>d.
     rbind (rating_of d (criterion_field ''critical_infrastructure.rating'')) (\<lambda>rating.
     rbind (one_of d ''dependency_level'' DEPENDENCY_LEVELS (criterion_field ''critical_infrastructure.dependency_level'')) (\<lambda>level.
     rbind (confidence_of (pget d ''score'')) (\<lambda>score.
     rbind (string_list (pget d ''infrastructure_roles'')) (\<lambda>roles.
     rbind (required_string d ''rationale'') (\<lambda>rationale.
     rbind (string_list (pget d ''signals'')) (\<lambda>signals.
       Inr (PDict
         [(''question'',
             question_of d ''Q5: critical infrastructure dependency based on DB, identity, payment, KMS, or gateway role.''),
          (''rating'', PStr rating), (''score'', score), (''dependency_level'', PStr level),
          (''infrastructure_roles'', strings roles), (''rationale'', PStr rationale), (''signals'', strings signals)]))))))))"

definition dhs_protection_duration :: "pyval \<Rightarrow> py_error + pyval" where
  "dhs_protection_duration v =
     rbind (criterion_dict ''protection_duration'' v) (\<lambda>d.
     rbind (rating_of d (criterion_field ''protection_duration.rating'')) (\<lambda>rating.
     rbind (one_of d ''hndl_exposure'' (LEVELS @ [''unknown'']) (criterion_field ''protection_duration.hndl_exposure'')) (\<lambda>hndl.
     rbind (confidence_of (pget d ''score'')) (\<lambda>score.
     rbind (optional_non_negative_int (pget d ''lifespan_years'')) (\<lambda>lifespan.
     rbind (required_string d ''rationale'') (\<lambda>rationale.
     rbind (string_list (pget d ''signals'')) (\<lambda>signals.
       Inr (PDict
         [(''question'', question_of d ''Q6: protection duration based on retention period and HNDL exposure.''),
          (''rating'', PStr rating), (''score'', score), (''lifespan_years'', lifespan), (''hndl_exposure'', PStr hndl),
          (''rationale'', PStr rationale), (''signals'', strings signals)]))))))))"

definition dhs_criteria_of :: "pyval \<Rightarrow> py_error + pyval dict" where
  "dhs_criteria_of v =
     rbind (case v of PDict d \<Rightarrow> Inr d | _ \<Rightarrow> Inl (field_error ''dhs_criteria'' ''must be an object'')) (\<lambda>d.
     rbind (dhs_asset_value (pget d ''asset_value'')) (\<lambda>q1.
     rbind (dhs_protected_information (pget d ''protected_information'')) (\<lambda>q2.
     rbind (dhs_communication_scope (pget d ''communication_scope'')) (\<lambda>q3.
     rbind (dhs_sharing_level (pget d ''sharing_level'')) (\<lambda>q4.
     rbind (dhs_critical_infrastructure (pget d ''critical_infrastructure'')) (\<lambda>q5.
     rbind (dhs_protection_duration (pget d ''protection_duration'')) (\<lambda>q6.
       Inr [(''asset_value'', q1), (''protected_information'', q2), (''communication_scope'', q3), (''sharing_level'', q4),
            (''critical_infrastructure'', q5), (''protection_duration'', q6)])))))))"

section \<open>The answer\<close>

record response =
  qr_summary :: string
  qr_threat_scenarios :: "string list"
  qr_recommendation :: string
  qr_criteria :: "pyval dict"
  qr_confidence :: pyval

definition parse_qualitative_risk_response :: "string \<Rightarrow> py_error + response" where
  "parse_qualitative_risk_response text =
     rbind (extract_json_object (ParseError ''LLM response does not contain a JSON object'') text) (\<lambda>d.
     rbind (required_string d ''summary'') (\<lambda>summary.
     rbind (string_list (pget d ''threat_scenarios'')) (\<lambda>threats.
     rbind (required_string d ''migration_recommendation'') (\<lambda>recommendation.
     rbind (dhs_criteria_of (pget d ''dhs_criteria'')) (\<lambda>criteria.
     rbind (confidence_of (pget d ''confidence'')) (\<lambda>confidence.
       Inr \<lparr>qr_summary = summary, qr_threat_scenarios = threats, qr_recommendation = recommendation,
            qr_criteria = criteria, qr_confidence = confidence\<rparr>))))))"

section \<open>The type of an answer\<close>

text \<open>What the fields of an accepted answer hold.\<close>

fun text_ok :: "pyval \<Rightarrow> bool" where
  "text_ok (PStr s) = (s \<noteq> [] \<and> strip s = s)"
| "text_ok v = False"

fun texts_ok :: "pyval \<Rightarrow> bool" where
  "texts_ok (PList xs) = (xs \<noteq> [] \<and> list_all text_ok xs)"
| "texts_ok v = False"

fun any_text :: "pyval \<Rightarrow> bool" where
  "any_text (PStr s) = (s \<noteq> [])"
| "any_text v = False"

fun name_ok :: "string list \<Rightarrow> pyval \<Rightarrow> bool" where
  "name_ok names (PStr s) = (s \<in> set names)"
| "name_ok names v = False"

text \<open>A score: zero, one, or a float between them with two decimals.\<close>

fun score_ok :: "pyval \<Rightarrow> bool" where
  "score_ok (PInt n) = (n = 0 \<or> n = 1)"
| "score_ok (PFloat x) = (in_range 0 1 x \<and> fround 2 x = x)"
| "score_ok v = False"

fun lifespan_ok :: "pyval \<Rightarrow> bool" where
  "lifespan_ok PNone = True"
| "lifespan_ok (PInt n) = (0 \<le> n)"
| "lifespan_ok v = False"

text \<open>The fields of each criterion, in order, with their types.\<close>

definition criterion_types_with ::
  "(pyval \<Rightarrow> bool) \<Rightarrow> (pyval \<Rightarrow> bool) \<Rightarrow> (string \<times> (string \<times> (pyval \<Rightarrow> bool)) list) list" where
  "criterion_types_with text texts =
     [(''asset_value'',
         [(''question'', any_text), (''rating'', name_ok LEVELS), (''score'', score_ok), (''rationale'', text), (''signals'', texts)]),
      (''protected_information'',
         [(''question'', any_text), (''rating'', name_ok LEVELS), (''score'', score_ok),
          (''data_classification'', name_ok (LEVELS @ [''unknown''])), (''rationale'', text), (''signals'', texts)]),
      (''communication_scope'',
         [(''question'', any_text), (''rating'', name_ok LEVELS), (''score'', score_ok), (''exposure'', name_ok EXPOSURES),
          (''direction'', name_ok DIRECTIONS), (''rationale'', text), (''signals'', texts)]),
      (''sharing_level'',
         [(''question'', any_text), (''rating'', name_ok LEVELS), (''score'', score_ok), (''sharing_scope'', name_ok SHARING_SCOPES),
          (''external_parties'', texts), (''rationale'', text), (''signals'', texts)]),
      (''critical_infrastructure'',
         [(''question'', any_text), (''rating'', name_ok LEVELS), (''score'', score_ok),
          (''dependency_level'', name_ok DEPENDENCY_LEVELS), (''infrastructure_roles'', texts), (''rationale'', text),
          (''signals'', texts)]),
      (''protection_duration'',
         [(''question'', any_text), (''rating'', name_ok LEVELS), (''score'', score_ok), (''lifespan_years'', lifespan_ok),
          (''hndl_exposure'', name_ok (LEVELS @ [''unknown''])), (''rationale'', text), (''signals'', texts)])]"

abbreviation criterion_types :: "(string \<times> (string \<times> (pyval \<Rightarrow> bool)) list) list" where
  "criterion_types \<equiv> criterion_types_with text_ok texts_ok"

fun fields_ok :: "(string \<times> (pyval \<Rightarrow> bool)) list \<Rightarrow> pyval dict \<Rightarrow> bool" where
  "fields_ok [] d = (d = [])"
| "fields_ok ((k, t) # ts) d = (case d of [] \<Rightarrow> False | (j, v) # d' \<Rightarrow> j = k \<and> t v \<and> fields_ok ts d')"

fun criterion_ok :: "(string \<times> (pyval \<Rightarrow> bool)) list \<Rightarrow> pyval \<Rightarrow> bool" where
  "criterion_ok types (PDict d) = fields_ok types d"
| "criterion_ok types v = False"

definition criteria_ok :: "pyval dict \<Rightarrow> bool" where
  "criteria_ok d = fields_ok (map (\<lambda>(name, types). (name, criterion_ok types)) criterion_types) d"

definition response_ok :: "response \<Rightarrow> bool" where
  "response_ok r =
     (text_ok (PStr (qr_summary r)) \<and> texts_ok (strings (qr_threat_scenarios r)) \<and> text_ok (PStr (qr_recommendation r)) \<and>
      criteria_ok (qr_criteria r) \<and> score_ok (qr_confidence r))"

lemma required_string_ok: "required_string d key = Inr s \<Longrightarrow> text_ok (PStr s)"
  by (auto simp: required_string_def split: pyval.splits if_splits)

lemma string_list_ok: "string_list v = Inr xs \<Longrightarrow> texts_ok (strings xs)"
  by (auto simp: string_list_def strings_def Let_def rbind_Inr_iff list_all_iff split: if_splits)

lemma one_of_ok: "one_of d key names field = Inr s \<Longrightarrow> name_ok names (PStr s)"
  by (auto simp: one_of_def rbind_Inr_iff split: if_splits)

lemma unit_number_ok: "score_ok (unit_number x)"
proof (cases "flt x (Fin 1) \<and> flt (Fin 0) x")
  case True
  then obtain a where x: "x = Fin a" and a: "0 < a" "a < 1" by (cases x) auto
  have r: "in_range 0 1 (fround 2 (Fin a))" using fround_range [of 0 1 "Fin a" 2] a by simp
  have "fround 2 (fround 2 (Fin a)) = fround 2 (Fin a)"
    using fround_hundredth [of a] fround_hundredth_same a by auto
  then show ?thesis using True r by (simp add: unit_number_def x del: fround.simps)
qed (auto simp: unit_number_def)

lemma confidence_ok: "confidence_of v = Inr w \<Longrightarrow> score_ok w"
  by (auto simp: confidence_of_def unit_number_ok split: sum.splits py_error.splits)

lemma lifespan_int_ok: "optional_non_negative_int v = Inr w \<Longrightarrow> lifespan_ok w"
  by (auto simp: optional_non_negative_int_def Let_def split: pyval.splits sum.splits py_error.splits if_splits)

lemma question_ok: "t \<noteq> [] \<Longrightarrow> any_text (question_of d t)"
proof -
  assume t: "t \<noteq> []"
  have repr: "repr_pos x \<noteq> []" for x by (simp add: repr_pos_def Let_def exponent_str_def split: prod.split)
  have "repr_float x \<noteq> []" for x by (cases x) (simp_all add: repr)
  then have "truthy v \<Longrightarrow> py_str v \<noteq> []" for v
    by (cases v) (auto simp: repr_str_def Let_def str_int_def str_nat_digits split: if_splits)
  then show ?thesis using t by (auto simp: question_of_def py_or_def)
qed

lemmas accepted = required_string_ok string_list_ok one_of_ok confidence_ok lifespan_int_ok

lemma criterion_parsers_ok:
  "dhs_asset_value v = Inr w \<Longrightarrow> criterion_ok (the (map_of criterion_types ''asset_value'')) w"
  "dhs_protected_information v = Inr w \<Longrightarrow> criterion_ok (the (map_of criterion_types ''protected_information'')) w"
  "dhs_communication_scope v = Inr w \<Longrightarrow> criterion_ok (the (map_of criterion_types ''communication_scope'')) w"
  "dhs_sharing_level v = Inr w \<Longrightarrow> criterion_ok (the (map_of criterion_types ''sharing_level'')) w"
  "dhs_critical_infrastructure v = Inr w \<Longrightarrow> criterion_ok (the (map_of criterion_types ''critical_infrastructure'')) w"
  "dhs_protection_duration v = Inr w \<Longrightarrow> criterion_ok (the (map_of criterion_types ''protection_duration'')) w"
  unfolding dhs_asset_value_def dhs_protected_information_def dhs_communication_scope_def dhs_sharing_level_def
    dhs_critical_infrastructure_def dhs_protection_duration_def criterion_types_with_def rating_of_def rbind_Inr_iff
  by (auto simp: question_ok dest: accepted simp del: text_ok.simps texts_ok.simps name_ok.simps)

lemma dhs_criteria_of_ok: "dhs_criteria_of v = Inr d \<Longrightarrow> criteria_ok d"
  unfolding dhs_criteria_of_def criteria_ok_def rbind_Inr_iff
  by (auto dest!: criterion_parsers_ok simp: criterion_types_with_def)

lemma parse_response_ok: "parse_qualitative_risk_response text = Inr r \<Longrightarrow> response_ok r"
  unfolding parse_qualitative_risk_response_def rbind_Inr_iff
  by (auto simp: response_ok_def dhs_criteria_of_ok dest: accepted simp del: text_ok.simps texts_ok.simps)

section \<open>The exceptions of an answer\<close>

text \<open>A refused answer, a number that overflows, and the digit limit of the interpreter; the last two are not caught by the
  caller.  A \<open>RuntimeError\<close> marks a text the model's strings do not hold.\<close>

fun answer_error :: "py_error \<Rightarrow> bool" where
  "answer_error (ParseError m) = True"
| "answer_error (OverflowError m) = True"
| "answer_error (ValueError m) = (m = ''Exceeds the limit (4300 digits) for integer string conversion'')"
| "answer_error (RuntimeError m) = True"
| "answer_error e = False"

lemma field_error_answer [simp]: "answer_error (field_error f w)"
  by (simp add: field_error_def)

lemma required_string_raises [intro]: "raises_only answer_error (required_string d k)"
  by (auto simp: required_string_def split: pyval.split)

lemma string_list_raises [intro]: "raises_only answer_error (string_list v)"
  by (auto simp: string_list_def Let_def split: pyval.split)

lemma one_of_raises [intro]: "raises_only answer_error (one_of d k ns f)"
  by (auto simp: one_of_def)

lemma rating_of_raises [intro]: "raises_only answer_error (rating_of d f)"
  by (auto simp: rating_of_def)

lemma confidence_raises [intro]: "raises_only answer_error (confidence_of v)"
  by (cases "py_float v") (auto simp: confidence_of_def dest!: py_float_error)

lemma py_int_error: "py_int v = Inl e \<Longrightarrow> (\<exists>m. e = ValueError m) \<or> (\<exists>m. e = TypeError m) \<or> (\<exists>m. e = OverflowError m)"
  by (cases v rule: py_int.cases) (auto simp: int_of_str_def Let_def split: option.splits prod.splits if_splits)

lemma lifespan_raises [intro]: "raises_only answer_error (optional_non_negative_int v)"
  by (cases "py_int v") (auto simp: optional_non_negative_int_def Let_def dest!: py_int_error)

lemma criterion_dict_raises [intro]: "raises_only answer_error (criterion_dict n v)"
  by (auto simp: criterion_dict_def split: pyval.split)

lemma criterion_parsers_raise [intro]:
  "raises_only answer_error (dhs_asset_value v)" "raises_only answer_error (dhs_protected_information v)"
  "raises_only answer_error (dhs_communication_scope v)" "raises_only answer_error (dhs_sharing_level v)"
  "raises_only answer_error (dhs_critical_infrastructure v)" "raises_only answer_error (dhs_protection_duration v)"
  unfolding dhs_asset_value_def dhs_protected_information_def dhs_communication_scope_def dhs_sharing_level_def
    dhs_critical_infrastructure_def dhs_protection_duration_def
  by (intro raises_only_rbind raises_only_simps(1) required_string_raises string_list_raises one_of_raises rating_of_raises
      confidence_raises lifespan_raises criterion_dict_raises)+

lemma dhs_criteria_raises [intro]: "raises_only answer_error (dhs_criteria_of v)"
  unfolding dhs_criteria_of_def
  by (intro raises_only_rbind criterion_parsers_raise raises_only_simps(1)) (auto split: pyval.split)

lemma extract_raises: "raises_only answer_error (extract_json_object (ParseError m) text)"
  by (auto simp: extract_json_object_def split: sum.split option.split json_error.split)

lemma parse_raises: "raises_only answer_error (parse_qualitative_risk_response text)"
  unfolding parse_qualitative_risk_response_def
  by (intro raises_only_rbind extract_raises required_string_raises string_list_raises dhs_criteria_raises confidence_raises
      raises_only_simps(1))

text \<open>C21. Whatever text the model returns, parsing it ends with an answer of the right type, all six criteria present with
  their fields in order, every rating and class one of the allowed names, every score between 0 and 1 with two decimals, the
  texts stripped and not empty; or with one of the exceptions of an answer.\<close>

theorem parsed_answer_typed:
  "case parse_qualitative_risk_response text of Inr r \<Rightarrow> response_ok r | Inl e \<Rightarrow> answer_error e"
proof (cases "parse_qualitative_risk_response text")
  case (Inl e)
  show ?thesis using raises_onlyD [OF parse_raises Inl] by (simp add: Inl)
next
  case (Inr r)
  show ?thesis using parse_response_ok [OF Inr] by (simp add: Inr)
qed

section \<open>An accepted answer is scored\<close>

lemma score_float: "score_ok v \<Longrightarrow> \<exists>x. py_float v = Inr x"
  using int_to_float_small [of 0] int_to_float_small [of 1] by (cases v) auto

lemma criterion_ok_dict: "criterion_ok types v \<Longrightarrow> \<exists>d. v = PDict d \<and> fields_ok types d"
  by (cases v) auto

lemma fields_ok_get: "fields_ok types d \<Longrightarrow> map_of types k = Some t \<Longrightarrow> \<exists>v. map_of d k = Some v \<and> t v"
  by (induction types d rule: fields_ok.induct) (auto split: if_splits list.splits prod.splits)

lemma typed_criterion_scored:
  assumes "fields_ok (map (\<lambda>(name, types). (name, criterion_ok types)) (criterion_types_with f g)) c"
    and "name \<in> set (map fst (criterion_types_with f g))"
  shows "\<exists>d x. pget c name = PDict d \<and> criterion_score d = Inr x"
proof -
  let ?types = "map (\<lambda>(name, types). (name, criterion_ok types)) (criterion_types_with f g)"
  obtain types where t: "map_of (criterion_types_with f g) name = Some types" "map_of types ''score'' = Some score_ok"
    using assms(2) by (auto simp: criterion_types_with_def)
  then have "map_of ?types name = Some (criterion_ok types)" by (simp add: map_of_map)
  then obtain v where v: "map_of c name = Some v" "criterion_ok types v"
    using fields_ok_get assms(1) by blast
  then obtain d where d: "v = PDict d" "fields_ok types d" using criterion_ok_dict by blast
  then obtain w where w: "map_of d ''score'' = Some w" "score_ok w" using fields_ok_get [OF d(2) t(2)] by blast
  obtain x where x: "py_float w = Inr x" using score_float [OF w(2)] by blast
  have "w \<noteq> PNone" using w(2) by auto
  then have "criterion_score d = Inr (clamp_score x)"
    using w(1) x by (cases w) (simp_all add: criterion_score_def pget_def dget_or_def)
  then show ?thesis using v(1) d(1) by (simp add: pget_def dget_or_def)
qed

lemma dhs_loop_complete:
  assumes "\<And>name. name \<in> fst ` set ws \<Longrightarrow> \<exists>d x. pget source name = PDict d \<and> criterion_score d = Inr x"
  shows "\<exists>t' cs'. dhs_loop source ws t cs ms = Inr (t', cs', ms)"
  using assms
proof (induction ws arbitrary: t cs)
  case (Cons p ws)
  obtain name w where p: "p = (name, w)" by (cases p)
  obtain d x where d: "pget source name = PDict d" "criterion_score d = Inr x" using Cons.prems [of name] by (auto simp: p)
  show ?case using Cons.IH Cons.prems by (simp add: p d Let_def)
qed simp

lemma compute_dhs_complete:
  assumes "\<And>name. name \<in> fst ` set DHS_CRITERION_WEIGHTS \<Longrightarrow> \<exists>d x. pget source name = PDict d \<and> criterion_score d = Inr x"
  shows "\<exists>r. compute_dhs_risk (Some source) = Inr r \<and> dhs_missing r = []"
proof -
  obtain t cs where l: "dhs_loop source DHS_CRITERION_WEIGHTS (Fin 0) [] [] = Inr (t, cs, [])"
    using dhs_loop_complete [OF assms] by blast
  have "dhs_denominator \<noteq> 0" using dhs_denominator(2) by auto
  then obtain z where "fdiv t (Fin dhs_denominator) = Inr z" by (cases t) auto
  then show ?thesis using l \<open>dhs_denominator \<noteq> 0\<close> by (simp add: compute_dhs_risk_def Let_def dhs_denominator(1))
qed

lemma typed_criteria_scored:
  assumes "fields_ok (map (\<lambda>(name, types). (name, criterion_ok types)) (criterion_types_with f g)) c"
  shows "\<exists>d. compute_dhs_risk (Some c) = Inr d \<and> dhs_missing d = []"
proof (rule compute_dhs_complete)
  fix name assume "name \<in> fst ` set DHS_CRITERION_WEIGHTS"
  then have "name \<in> set (map fst (criterion_types_with f g))" by (auto simp: DHS_CRITERION_WEIGHTS_def criterion_types_with_def)
  then show "\<exists>d x. pget c name = PDict d \<and> criterion_score d = Inr x" using assms by (rule typed_criterion_scored [rotated])
qed

lemma response_scored: "response_ok r \<Longrightarrow> \<exists>d. compute_dhs_risk (Some (qr_criteria r)) = Inr d \<and> dhs_missing d = []"
  by (rule typed_criteria_scored [of text_ok texts_ok]) (simp add: response_ok_def criteria_ok_def)

text \<open>The priority engine scores every answer the parser accepts: no criterion counts as missing, and the one exception of
  the engine, an integer too large for a float, cannot happen.\<close>

theorem accepted_answer_scored:
  assumes "parse_qualitative_risk_response text = Inr r"
  shows "\<exists>d. compute_dhs_risk (Some (qr_criteria r)) = Inr d \<and> dhs_missing d = [] \<and> in_range 0 10 (dhs_score_10 d)"
proof -
  obtain d where d: "compute_dhs_risk (Some (qr_criteria r)) = Inr d" "dhs_missing d = []"
    using response_scored [OF parse_response_ok [OF assms]] by blast
  then show ?thesis using compute_dhs_score [OF d(1)] dhs_final_range by auto
qed

section \<open>Printing an answer and parsing it again\<close>

text \<open>An answer as the JSON object the prompt asks for, and what parsing makes of it: the texts are stripped and a
  float score of 0 or 1 becomes an int.\<close>

definition response_payload :: "response \<Rightarrow> pyval" where
  "response_payload r =
     PDict [(''summary'', PStr (qr_summary r)), (''threat_scenarios'', strings (qr_threat_scenarios r)),
            (''migration_recommendation'', PStr (qr_recommendation r)), (''dhs_criteria'', PDict (qr_criteria r)),
            (''confidence'', qr_confidence r)]"

fun canonical_score :: "pyval \<Rightarrow> pyval" where
  "canonical_score (PFloat x) = unit_number x"
| "canonical_score v = v"

fun str_of :: "pyval \<Rightarrow> string" where
  "str_of (PStr s) = s"
| "str_of v = []"

fun strs_of :: "pyval \<Rightarrow> string list" where
  "strs_of (PList xs) = map str_of xs"
| "strs_of v = []"

definition canonical_field :: "string \<Rightarrow> pyval \<Rightarrow> pyval" where
  "canonical_field k v =
     (if k = ''score'' then canonical_score v
      else if k = ''rationale'' then PStr (strip (str_of v))
      else if k \<in> set [''signals'', ''external_parties'', ''infrastructure_roles''] then strings (map strip (strs_of v))
      else v)"

fun canonical_criterion :: "pyval \<Rightarrow> pyval" where
  "canonical_criterion (PDict d) = PDict (map (\<lambda>(k, v). (k, canonical_field k v)) d)"
| "canonical_criterion v = v"

definition canonical_response :: "response \<Rightarrow> response" where
  "canonical_response r =
     \<lparr>qr_summary = strip (qr_summary r), qr_threat_scenarios = map strip (qr_threat_scenarios r),
      qr_recommendation = strip (qr_recommendation r),
      qr_criteria = map (\<lambda>(k, v). (k, canonical_criterion v)) (qr_criteria r),
      qr_confidence = canonical_score (qr_confidence r)\<rparr>"

text \<open>What an answer has to hold to be accepted: texts with more than white space, the names, scores and spans.\<close>

fun has_text :: "pyval \<Rightarrow> bool" where
  "has_text (PStr s) = (strip s \<noteq> [])"
| "has_text v = False"

fun has_texts :: "pyval \<Rightarrow> bool" where
  "has_texts (PList xs) = (xs \<noteq> [] \<and> list_all has_text xs)"
| "has_texts v = False"

abbreviation drafted_types :: "(string \<times> (string \<times> (pyval \<Rightarrow> bool)) list) list" where
  "drafted_types \<equiv> criterion_types_with has_text has_texts"

definition criteria_drafted :: "pyval dict \<Rightarrow> bool" where
  "criteria_drafted d = fields_ok (map (\<lambda>(name, types). (name, criterion_ok types)) drafted_types) d"

definition response_drafted :: "response \<Rightarrow> bool" where
  "response_drafted r =
     (has_text (PStr (qr_summary r)) \<and> has_texts (strings (qr_threat_scenarios r)) \<and> has_text (PStr (qr_recommendation r)) \<and>
      criteria_drafted (qr_criteria r) \<and> score_ok (qr_confidence r))"

lemma fields_ok_mono:
  "list_all2 (\<lambda>(k, t) (j, u). k = j \<and> (\<forall>v. t v \<longrightarrow> u v)) ts us \<Longrightarrow> fields_ok ts d \<Longrightarrow> fields_ok us d"
proof (induction ts us arbitrary: d rule: list_all2_induct)
  case (Cons x xs y ys)
  then show ?case by (cases x; cases y; cases d) auto
qed simp

lemma text_ok_has: "text_ok v \<Longrightarrow> has_text v" "texts_ok v \<Longrightarrow> has_texts v"
proof -
  show t: "text_ok v \<Longrightarrow> has_text v" for v by (cases v) auto
  show "texts_ok v \<Longrightarrow> has_texts v" by (cases v) (auto simp: list_all_iff t)
qed

lemma criterion_ok_mono:
  "list_all2 (\<lambda>(k, t) (j, u). k = j \<and> (\<forall>v. t v \<longrightarrow> u v)) ts us \<Longrightarrow> criterion_ok ts v \<Longrightarrow> criterion_ok us v"
  by (cases v) (auto intro: fields_ok_mono)

text \<open>An accepted answer may be drafted again.\<close>

lemma ok_drafted: "response_ok r \<Longrightarrow> response_drafted r"
proof -
  have "list_all2 (\<lambda>(k, t) (j, u). k = j \<and> (\<forall>v. t v \<longrightarrow> u v))
      (map (\<lambda>(name, types). (name, criterion_ok types)) criterion_types) (map (\<lambda>(name, types). (name, criterion_ok types)) drafted_types)"
    unfolding criterion_types_with_def list.map
    by (intro list_all2_Cons [THEN iffD2] conjI list_all2_Nil [THEN iffD2];
        (simp; intro allI impI; erule criterion_ok_mono [rotated]; simp add: text_ok_has)?)
  then show "response_ok r \<Longrightarrow> response_drafted r"
    using fields_ok_mono text_ok_has unfolding response_ok_def response_drafted_def criteria_ok_def criteria_drafted_def by blast
qed

definition lifespan_plain :: "pyval dict \<Rightarrow> bool" where
  "lifespan_plain c = (case pget c ''protection_duration'' of PDict d \<Rightarrow> json_plain (pget d ''lifespan_years'') | _ \<Rightarrow> True)"

lemma dwf_sort: "dwf d \<Longrightarrow> dwf (sort_key fst d)"
  by (simp add: dwf_def distinct_map)

lemma map_of_sort: "dwf d \<Longrightarrow> map_of (sort_key fst d) k = map_of d k"
  using map_of_inject_set [of "sort_key fst d" d] dwf_sort [of d] by (simp add: dwf_def)

definition sorted_dict :: "pyval dict \<Rightarrow> pyval dict" where
  "sorted_dict d = sort_key fst (map (\<lambda>p. (fst p, sort_keys (snd p))) d)"

lemma sort_keys_dict: "sort_keys (PDict d) = PDict (sorted_dict d)"
  by (simp add: sorted_dict_def)

lemma dwf_map_snd [simp]: "dwf (map (\<lambda>p. (fst p, f (snd p))) d) = dwf d"
  by (simp add: dwf_def comp_def)

lemma map_of_map_snd: "map_of (map (\<lambda>p. (fst p, f (snd p))) d) k = map_option f (map_of d k)"
  by (induction d) auto

lemma pget_sorted: "dwf d \<Longrightarrow> pget (sorted_dict d) k = (case map_of d k of None \<Rightarrow> PNone | Some v \<Rightarrow> sort_keys v)"
  by (simp add: pget_def dget_or_def sorted_dict_def map_of_sort map_of_map_snd split: option.split)

lemma sort_strings [simp]: "sort_keys (strings xs) = strings xs"
  by (simp add: strings_def)

lemma json_plain_sort: "json_plain v \<Longrightarrow> json_plain (sort_keys v)"
proof (induction v)
  case (PDict d)
  have "list_all (\<lambda>p. json_plain (snd p)) (map (\<lambda>p. (fst p, sort_keys (snd p))) d)"
    using PDict by (fastforce simp: list_all_iff)
  then show ?case using PDict.prems dwf_sort [of "map (\<lambda>p. (fst p, sort_keys (snd p))) d"] by (simp add: list_all_iff)
qed (auto simp: list_all_iff)

text \<open>What the checks do with a field that has its type already.\<close>

lemma PStr_str_of: "any_text v \<Longrightarrow> PStr (str_of v) = v" "name_ok ns v \<Longrightarrow> PStr (str_of v) = v"
  by (cases v; simp)+

lemma required_string_fixed: "has_text (pget d k) \<Longrightarrow> required_string d k = Inr (strip (str_of (pget d k)))"
  by (cases "pget d k") (simp_all add: required_string_def)

lemma string_list_fixed: "has_texts v \<Longrightarrow> string_list v = Inr (map strip (strs_of v))"
proof (cases v)
  case (PList xs)
  assume t: "has_texts v"
  then have "map (\<lambda>x. strip (py_str x)) xs = map strip (map str_of xs)"
    unfolding PList map_map by (intro map_cong) (auto simp: list_all_iff elim!: has_text.elims)
  moreover have "filter (\<lambda>s. s \<noteq> []) (map strip (map str_of xs)) = map strip (map str_of xs)"
    using t unfolding PList by (intro filter_True) (auto simp: list_all_iff elim!: has_text.elims)
  ultimately have "filter (\<lambda>s. s \<noteq> []) (map (\<lambda>x. strip (py_str x)) xs) = map strip (map str_of xs)" by (simp only:)
  then show ?thesis using t by (simp add: string_list_def PList Let_def)
qed simp_all

definition names_fixed :: "string list \<Rightarrow> bool" where
  "names_fixed names = list_all (\<lambda>s. s \<noteq> [] \<and> strip s = s \<and> lower s = s) names"

lemma one_of_fixed: "name_ok names (pget d k) \<Longrightarrow> names_fixed names \<Longrightarrow> one_of d k names f = Inr (str_of (pget d k))"
  by (cases "pget d k") (simp_all add: one_of_def required_string_def names_fixed_def list_all_iff)

lemma all_names_fixed [simp]:
  "names_fixed LEVELS" "names_fixed (LEVELS @ [''unknown''])" "names_fixed EXPOSURES" "names_fixed DIRECTIONS"
  "names_fixed SHARING_SCOPES" "names_fixed DEPENDENCY_LEVELS"
  by code_simp+

lemma confidence_fixed: "score_ok v \<Longrightarrow> confidence_of v = Inr (canonical_score v)"
proof (cases v)
  case (PFloat x)
  assume "score_ok v"
  then obtain a where "x = Fin a" "a \<le> 1" by (auto simp: PFloat elim: in_range_obtain)
  then show ?thesis by (simp add: PFloat confidence_of_def)
next
  case (PInt n)
  assume "score_ok v"
  then show ?thesis using int_to_float_small [of n] by (auto simp: PInt confidence_of_def unit_number_def)
qed auto

lemma lifespan_fixed: "lifespan_ok v \<Longrightarrow> optional_non_negative_int v = Inr v"
  by (cases v) (auto simp: optional_non_negative_int_def Let_def)

lemma question_fixed: "any_text (pget d ''question'') \<Longrightarrow> question_of d t = pget d ''question''"
  by (cases "pget d ''question''") (simp_all add: question_of_def py_or_def)

lemmas fixed = required_string_fixed string_list_fixed one_of_fixed confidence_fixed lifespan_fixed question_fixed

lemma typed_sorted [simp]:
  "score_ok v \<Longrightarrow> sort_keys v = v" "lifespan_ok v \<Longrightarrow> sort_keys v = v" "any_text v \<Longrightarrow> sort_keys v = v"
  "has_text v \<Longrightarrow> sort_keys v = v" "name_ok ns v \<Longrightarrow> sort_keys v = v"
  by (cases v; simp)+

lemma texts_sorted [simp]: "has_texts v \<Longrightarrow> sort_keys v = v"
proof (cases v)
  case (PList xs)
  assume "has_texts v"
  then have "map sort_keys xs = map (\<lambda>x. x) xs"
    unfolding PList by (intro map_cong) (auto simp: list_all_iff elim!: has_text.elims)
  then show ?thesis by (simp add: PList)
qed simp_all

lemma fields_ok_Cons: "fields_ok ((k, t) # ts) d \<longleftrightarrow> (\<exists>v d'. d = (k, v) # d' \<and> t v \<and> fields_ok ts d')"
  by (cases d) auto

lemmas reparse = sort_keys_dict pget_sorted dwf_def criterion_dict_def rating_of_def fixed PStr_str_of canonical_field_def

lemmas field_rules = has_text.simps has_texts.simps name_ok.simps any_text.simps fields_ok.simps(2) sort_keys.simps(2)

lemma reparse_asset_value:
  assumes "fields_ok (the (map_of drafted_types ''asset_value'')) d"
  shows "dhs_asset_value (sort_keys (PDict d)) = Inr (canonical_criterion (PDict d))"
proof -
  obtain q r c t g where d: "d =
      [(''question'', q), (''rating'', r), (''score'', c), (''rationale'', t), (''signals'', g)]"
    and ok: "any_text q" "name_ok LEVELS r" "score_ok c" "has_text t" "has_texts g"
    using assms by (auto simp: criterion_types_with_def fields_ok_Cons simp del: field_rules)
  show ?thesis using ok by (simp add: dhs_asset_value_def reparse d del: field_rules)
qed

lemma reparse_protected_information:
  assumes "fields_ok (the (map_of drafted_types ''protected_information'')) d"
  shows "dhs_protected_information (sort_keys (PDict d)) = Inr (canonical_criterion (PDict d))"
proof -
  obtain q r c x t g where d: "d =
      [(''question'', q), (''rating'', r), (''score'', c), (''data_classification'', x), (''rationale'', t), (''signals'', g)]"
    and ok: "any_text q" "name_ok LEVELS r" "score_ok c" "name_ok (LEVELS @ [''unknown'']) x" "has_text t" "has_texts g"
    using assms by (auto simp: criterion_types_with_def fields_ok_Cons simp del: field_rules)
  show ?thesis using ok by (simp add: dhs_protected_information_def reparse d del: field_rules)
qed

lemma reparse_communication_scope:
  assumes "fields_ok (the (map_of drafted_types ''communication_scope'')) d"
  shows "dhs_communication_scope (sort_keys (PDict d)) = Inr (canonical_criterion (PDict d))"
proof -
  obtain q r c x y t g where d: "d =
      [(''question'', q), (''rating'', r), (''score'', c), (''exposure'', x), (''direction'', y), (''rationale'', t), (''signals'', g)]"
    and ok: "any_text q" "name_ok LEVELS r" "score_ok c" "name_ok EXPOSURES x" "name_ok DIRECTIONS y" "has_text t" "has_texts g"
    using assms by (auto simp: criterion_types_with_def fields_ok_Cons simp del: field_rules)
  show ?thesis using ok by (simp add: dhs_communication_scope_def reparse d del: field_rules)
qed

lemma reparse_sharing_level:
  assumes "fields_ok (the (map_of drafted_types ''sharing_level'')) d"
  shows "dhs_sharing_level (sort_keys (PDict d)) = Inr (canonical_criterion (PDict d))"
proof -
  obtain q r c x y t g where d: "d =
      [(''question'', q), (''rating'', r), (''score'', c), (''sharing_scope'', x), (''external_parties'', y), (''rationale'', t), (''signals'', g)]"
    and ok: "any_text q" "name_ok LEVELS r" "score_ok c" "name_ok SHARING_SCOPES x" "has_texts y" "has_text t" "has_texts g"
    using assms by (auto simp: criterion_types_with_def fields_ok_Cons simp del: field_rules)
  show ?thesis using ok by (simp add: dhs_sharing_level_def reparse d del: field_rules)
qed

lemma reparse_critical_infrastructure:
  assumes "fields_ok (the (map_of drafted_types ''critical_infrastructure'')) d"
  shows "dhs_critical_infrastructure (sort_keys (PDict d)) = Inr (canonical_criterion (PDict d))"
proof -
  obtain q r c x y t g where d: "d =
      [(''question'', q), (''rating'', r), (''score'', c), (''dependency_level'', x), (''infrastructure_roles'', y), (''rationale'', t), (''signals'', g)]"
    and ok: "any_text q" "name_ok LEVELS r" "score_ok c" "name_ok DEPENDENCY_LEVELS x" "has_texts y" "has_text t" "has_texts g"
    using assms by (auto simp: criterion_types_with_def fields_ok_Cons simp del: field_rules)
  show ?thesis using ok by (simp add: dhs_critical_infrastructure_def reparse d del: field_rules)
qed

lemma reparse_protection_duration:
  assumes "fields_ok (the (map_of drafted_types ''protection_duration'')) d"
  shows "dhs_protection_duration (sort_keys (PDict d)) = Inr (canonical_criterion (PDict d))"
proof -
  obtain q r c x y t g where d: "d =
      [(''question'', q), (''rating'', r), (''score'', c), (''lifespan_years'', x), (''hndl_exposure'', y), (''rationale'', t), (''signals'', g)]"
    and ok: "any_text q" "name_ok LEVELS r" "score_ok c" "lifespan_ok x" "name_ok (LEVELS @ [''unknown'']) y" "has_text t" "has_texts g"
    using assms by (auto simp: criterion_types_with_def fields_ok_Cons simp del: field_rules)
  show ?thesis using ok by (simp add: dhs_protection_duration_def reparse d del: field_rules)
qed

lemmas reparse_criteria = reparse_asset_value reparse_protected_information reparse_communication_scope reparse_sharing_level
  reparse_critical_infrastructure reparse_protection_duration

text \<open>The six criteria of an answer, in order.\<close>

lemma criteria_drafted_dict:
  assumes "criteria_drafted c"
  obtains a b e f g h where "c = [(''asset_value'', PDict a), (''protected_information'', PDict b), (''communication_scope'', PDict e),
      (''sharing_level'', PDict f), (''critical_infrastructure'', PDict g), (''protection_duration'', PDict h)]"
    "fields_ok (the (map_of drafted_types ''asset_value'')) a" "fields_ok (the (map_of drafted_types ''protected_information'')) b"
    "fields_ok (the (map_of drafted_types ''communication_scope'')) e" "fields_ok (the (map_of drafted_types ''sharing_level'')) f"
    "fields_ok (the (map_of drafted_types ''critical_infrastructure'')) g"
    "fields_ok (the (map_of drafted_types ''protection_duration'')) h"
  using assms
  by (auto simp: criteria_drafted_def criterion_types_with_def fields_ok_Cons simp del: field_rules dest!: criterion_ok_dict)

lemma reparse_dhs_criteria:
  assumes "criteria_drafted c"
  shows "dhs_criteria_of (sort_keys (PDict c)) = Inr (map (\<lambda>(k, v). (k, canonical_criterion v)) c)"
  using assms
proof (rule criteria_drafted_dict)
  fix a b e f g h
  assume c: "c = [(''asset_value'', PDict a), (''protected_information'', PDict b), (''communication_scope'', PDict e),
      (''sharing_level'', PDict f), (''critical_infrastructure'', PDict g), (''protection_duration'', PDict h)]"
    and "fields_ok (the (map_of drafted_types ''asset_value'')) a" "fields_ok (the (map_of drafted_types ''protected_information'')) b"
    "fields_ok (the (map_of drafted_types ''communication_scope'')) e" "fields_ok (the (map_of drafted_types ''sharing_level'')) f"
    "fields_ok (the (map_of drafted_types ''critical_infrastructure'')) g"
    "fields_ok (the (map_of drafted_types ''protection_duration'')) h"
  note r = reparse_asset_value [OF this(2)] reparse_protected_information [OF this(3)] reparse_communication_scope [OF this(4)]
    reparse_sharing_level [OF this(5)] reparse_critical_infrastructure [OF this(6)] reparse_protection_duration [OF this(7)]
  show ?thesis
    unfolding dhs_criteria_of_def sort_keys_dict
    by (simp add: c pget_sorted dwf_def r del: sort_keys.simps(2) canonical_criterion.simps)
qed

lemma reparse_answer:
  assumes "response_drafted r"
  defines "d \<equiv> (case sort_keys (response_payload r) of PDict d \<Rightarrow> d | _ \<Rightarrow> [])"
  shows "rbind (required_string d ''summary'') (\<lambda>summary.
     rbind (string_list (pget d ''threat_scenarios'')) (\<lambda>threats.
     rbind (required_string d ''migration_recommendation'') (\<lambda>recommendation.
     rbind (dhs_criteria_of (pget d ''dhs_criteria'')) (\<lambda>criteria.
     rbind (confidence_of (pget d ''confidence'')) (\<lambda>confidence.
       Inr \<lparr>qr_summary = summary, qr_threat_scenarios = threats, qr_recommendation = recommendation,
            qr_criteria = criteria, qr_confidence = confidence\<rparr>))))) = Inr (canonical_response r)"
proof -
  have ok: "has_text (PStr (qr_summary r))" "has_texts (strings (qr_threat_scenarios r))" "has_text (PStr (qr_recommendation r))"
    "criteria_drafted (qr_criteria r)" "score_ok (qr_confidence r)"
    using assms(1) unfolding response_drafted_def by blast+
  have d: "d = sorted_dict
     [(''summary'', PStr (qr_summary r)), (''threat_scenarios'', strings (qr_threat_scenarios r)),
      (''migration_recommendation'', PStr (qr_recommendation r)), (''dhs_criteria'', PDict (qr_criteria r)),
      (''confidence'', qr_confidence r)]"
    unfolding d_def response_payload_def sort_keys_dict by simp
  have strs: "strs_of (strings (qr_threat_scenarios r)) = qr_threat_scenarios r" by (simp add: strings_def comp_def)
  show ?thesis
    unfolding d
    by (simp add: pget_sorted dwf_def fixed ok strs reparse_dhs_criteria canonical_response_def del: field_rules)
qed

lemma score_plain: "score_ok v \<Longrightarrow> json_plain v"
proof (cases v)
  case (PFloat x)
  assume "score_ok v"
  then obtain a where a: "x = Fin a" "0 \<le> a" "a \<le> 1" "fround 2 (Fin a) = Fin a" by (auto simp: PFloat simp del: fround.simps elim: in_range_obtain)
  then obtain k where "0 \<le> k" "k \<le> 100" "Fin a = hundredth k" using fround_hundredth [of a] by auto
  then show ?thesis using hundredth_plain [of k] by (simp add: PFloat a(1))
next
  case (PInt n)
  assume "score_ok v"
  then have "n = 0 \<or> n = 1" by (simp add: PInt)
  moreover have "str_nat 0 = ''0''" "str_nat 1 = ''1''" by code_simp+
  ultimately show ?thesis by (auto simp: PInt int_plain_def)
qed simp_all

lemma typed_plain: "any_text v \<Longrightarrow> json_plain v" "has_text v \<Longrightarrow> json_plain v" "name_ok ns v \<Longrightarrow> json_plain v"
  by (cases v; simp)+

lemma texts_plain: "has_texts v \<Longrightarrow> json_plain v"
  by (cases v) (auto simp: list_all_iff typed_plain)

lemma criterion_plain:
  "fields_ok (the (map_of drafted_types ''asset_value'')) d \<Longrightarrow> json_plain (PDict d)"
  "fields_ok (the (map_of drafted_types ''protected_information'')) d \<Longrightarrow> json_plain (PDict d)"
  "fields_ok (the (map_of drafted_types ''communication_scope'')) d \<Longrightarrow> json_plain (PDict d)"
  "fields_ok (the (map_of drafted_types ''sharing_level'')) d \<Longrightarrow> json_plain (PDict d)"
  "fields_ok (the (map_of drafted_types ''critical_infrastructure'')) d \<Longrightarrow> json_plain (PDict d)"
  "fields_ok (the (map_of drafted_types ''protection_duration'')) d \<Longrightarrow> json_plain (pget d ''lifespan_years'') \<Longrightarrow> json_plain (PDict d)"
  by (auto simp: criterion_types_with_def fields_ok_Cons dwf_def pget_def dget_or_def simp del: field_rules
      intro: typed_plain texts_plain score_plain)

lemma payload_plain:
  assumes "response_drafted r" and "lifespan_plain (qr_criteria r)"
  shows "json_plain (response_payload r)"
proof -
  have ok: "has_texts (strings (qr_threat_scenarios r))" "criteria_drafted (qr_criteria r)" "score_ok (qr_confidence r)"
    using assms(1) unfolding response_drafted_def by blast+
  have "json_plain (PDict (qr_criteria r))"
    using ok(2)
  proof (rule criteria_drafted_dict)
    fix a b e f g h
    assume c: "qr_criteria r = [(''asset_value'', PDict a), (''protected_information'', PDict b), (''communication_scope'', PDict e),
        (''sharing_level'', PDict f), (''critical_infrastructure'', PDict g), (''protection_duration'', PDict h)]"
      and "fields_ok (the (map_of drafted_types ''asset_value'')) a" "fields_ok (the (map_of drafted_types ''protected_information'')) b"
      "fields_ok (the (map_of drafted_types ''communication_scope'')) e" "fields_ok (the (map_of drafted_types ''sharing_level'')) f"
      "fields_ok (the (map_of drafted_types ''critical_infrastructure'')) g"
      "fields_ok (the (map_of drafted_types ''protection_duration'')) h"
    note p = criterion_plain(1) [OF this(2)] criterion_plain(2) [OF this(3)] criterion_plain(3) [OF this(4)]
      criterion_plain(4) [OF this(5)] criterion_plain(5) [OF this(6)] criterion_plain(6) [OF this(7)]
    have "json_plain (pget h ''lifespan_years'')" using assms(2) by (simp add: lifespan_plain_def c pget_def dget_or_def)
    then show ?thesis using p by (simp add: c dwf_def)
  qed
  then show ?thesis using texts_plain [OF ok(1)] score_plain [OF ok(3)] by (simp add: response_payload_def dwf_def)
qed

lemma parse_printed:
  assumes "response_drafted r" and "lifespan_plain (qr_criteria r)" and "CHR ''{'' \<notin> set pre"
  shows "parse_qualitative_risk_response (pre @ dumps (sort_keys (response_payload r)) @ rest) = Inr (canonical_response r)"
proof -
  obtain d where d: "sort_keys (response_payload r) = PDict d" by (simp add: response_payload_def)
  have "json_plain (PDict d)" using json_plain_sort [OF payload_plain [OF assms(1,2)]] by (simp add: d)
  then have "extract_json_object e (pre @ dumps (PDict d) @ rest) = Inr d" for e using assms(3) by (rule extract_dumps)
  then show ?thesis
    using reparse_answer [OF assms(1)] unfolding parse_qualitative_risk_response_def d by simp
qed

text \<open>C22. An answer survives the trip through JSON: printed with sorted keys, behind any text without a brace and before any
  text, it parses to the same answer, its texts stripped and a float score of 0 or 1 turned into the int.\<close>

theorem printed_answer_parses:
  assumes "response_drafted r" and "lifespan_plain (qr_criteria r)" and "CHR ''{'' \<notin> set pre"
  shows "parse_qualitative_risk_response (pre @ dumps (sort_keys (response_payload r)) @ rest) = Inr (canonical_response r)"
  by (rule parse_printed [OF assms])

definition sample_response :: response where
  "sample_response =
     (let common = [(''rationale'', PStr ''because''), (''signals'', strings [''port:443''])];
          start = [(''question'', PStr ''Q''), (''rating'', PStr ''high''), (''score'', PInt 1)]
      in \<lparr>qr_summary = ''An RSA key.'', qr_threat_scenarios = [''harvest_now_decrypt_later''], qr_recommendation = ''Plan ML-DSA.'',
          qr_criteria =
            [(''asset_value'', PDict (start @ common)),
             (''protected_information'', PDict (start @ (''data_classification'', PStr ''high'') # common)),
             (''communication_scope'', PDict (start @ [(''exposure'', PStr ''dmz''), (''direction'', PStr ''external_inbound'')] @ common)),
             (''sharing_level'', PDict (start @ [(''sharing_scope'', PStr ''partner''), (''external_parties'', strings [''idp''])] @ common)),
             (''critical_infrastructure'',
                PDict (start @ [(''dependency_level'', PStr ''core''), (''infrastructure_roles'', strings [''payment''])] @ common)),
             (''protection_duration'', PDict (start @ [(''lifespan_years'', PInt 12), (''hndl_exposure'', PStr ''high'')] @ common))],
          qr_confidence = PInt 0\<rparr>)"

lemma sample_response_drafted: "response_drafted sample_response" "lifespan_plain (qr_criteria sample_response)"
  "canonical_response sample_response = sample_response"
  by code_simp+

theorem printed_answer_parses_witness:
  "parse_qualitative_risk_response (''Answer: '' @ dumps (sort_keys (response_payload sample_response)) @ '' - end'')
     = Inr (canonical_response sample_response)"
  by (rule printed_answer_parses [OF sample_response_drafted(1,2)]) simp

theorem accepted_answer_scored_witness:
  "\<exists>d. compute_dhs_risk (Some (qr_criteria sample_response)) = Inr d \<and> dhs_missing d = [] \<and> in_range 0 10 (dhs_score_10 d)"
proof (rule accepted_answer_scored)
  show "parse_qualitative_risk_response ([] @ dumps (sort_keys (response_payload sample_response)) @ []) = Inr sample_response"
    using parse_printed [OF sample_response_drafted(1,2), of "[]" "[]"] sample_response_drafted(3) by simp
qed

end
