(* ===== verification/Heuristics.thy ===== *)
theory Heuristics
  imports Risk_Prompts Recompute
begin

text \<open>
  The rule book of \<open>apps/assets/services.py\<close>: the qualitative assessment of an asset without a language model.  From
  the asset, its target and its effective context it computes a score, a summary, threat scenarios, a recommendation, the
  six DHS criteria and a confidence, in the shape the prompt asks of a model.

  The context is read at the types its writers enforce (the request schemas of targets and assets): names are strings,
  the lifespan is an integer, and any of them may be missing.  The target is the row the foreign key refers to, the two
  counts of dependency edges are numbers.  \<open>base\<close> is \<open>round(score)\<close>, computed once by the caller.
\<close>

section \<open>Context and metadata\<close>

record ctx =
  cx_sensitivity :: "string option"
  cx_lifespan :: "int option"
  cx_criticality :: "string option"
  cx_exposure :: "string option"
  cx_role :: "string option"

definition text_value :: "pyval \<Rightarrow> string option" where
  "text_value v = (case v of PStr s \<Rightarrow> Some s | _ \<Rightarrow> None)"

definition int_value :: "pyval \<Rightarrow> int option" where
  "int_value v = (case v of PInt n \<Rightarrow> Some n | _ \<Rightarrow> None)"

definition read_context :: "pyval dict \<Rightarrow> ctx" where
  "read_context d =
     \<lparr>cx_sensitivity = text_value (pget d ''sensitivity''), cx_lifespan = int_value (pget d ''lifespan_years''),
      cx_criticality = text_value (pget d ''criticality''), cx_exposure = text_value (pget d ''exposure''),
      cx_role = text_value (pget d ''service_role'')\<rparr>"

text \<open>\<open>v or d\<close> for an optional string, and \<open>CONTEXT_LEVELS.get(v, 0)\<close>.\<close>

definition or_text :: "string option \<Rightarrow> string \<Rightarrow> string" where
  "or_text v d = (case v of None \<Rightarrow> d | Some s \<Rightarrow> or_str s d)"

definition CONTEXT_LEVELS :: "int dict" where
  "CONTEXT_LEVELS = [(''low'', 0), (''medium'', 1), (''high'', 2), (''critical'', 3)]"

definition EXPOSURE_LEVELS :: "int dict" where
  "EXPOSURE_LEVELS = [(''air_gapped'', 0), (''internal_network'', 1), (''dmz'', 2), (''public_internet'', 3)]"

definition level_of :: "int dict \<Rightarrow> string option \<Rightarrow> int" where
  "level_of table v = (case v of None \<Rightarrow> 0 | Some s \<Rightarrow> dget_or table s 0)"

definition among :: "string option \<Rightarrow> string list \<Rightarrow> bool" where
  "among v names = (case v of None \<Rightarrow> False | Some s \<Rightarrow> s \<in> set names)"

definition metadata_list :: "pyval \<Rightarrow> pyval list" where
  "metadata_list v = (case v of PNone \<Rightarrow> [] | PList xs \<Rightarrow> xs | _ \<Rightarrow> [v])"

definition strings_in :: "pyval list \<Rightarrow> string list" where
  "strings_in vs = concat (map (\<lambda>v. case v of PStr s \<Rightarrow> [s] | _ \<Rightarrow> []) vs)"

definition dedupe_values :: "string list \<Rightarrow> string list" where
  "dedupe_values xs = dedupe_by (\<lambda>x. x) [] xs"

definition metadata_paths :: "pyval dict \<Rightarrow> string list" where
  "metadata_paths m =
     dedupe_values (filter (\<lambda>s. startswith s ''/'')
       (strings_in (concat (map (\<lambda>k. metadata_list (pget m k))
          [''path'', ''source_paths'', ''certificate_paths'', ''private_key_paths'', ''referenced_by'']))))"

definition any_token :: "string list \<Rightarrow> string \<Rightarrow> bool" where
  "any_token tokens text = list_ex (contains text) tokens"

section \<open>The asset\<close>

definition QUANTUM_VULNERABLE_FAMILIES :: "string list" where
  "QUANTUM_VULNERABLE_FAMILIES = [''RSA'', ''DSA'', ''ECDSA'', ''ECDH'', ''DH'']"

definition family_key :: "asset \<Rightarrow> string" where
  "family_key a = upper (a_family a)"

definition quantum_vulnerable :: "asset \<Rightarrow> bool" where
  "quantum_vulnerable a = (family_key a \<in> set QUANTUM_VULNERABLE_FAMILIES)"

definition label_of :: "target \<Rightarrow> string" where
  "label_of t = tg_host t @ '':'' @ str_int (tg_port t)"

definition target_label :: "target option \<Rightarrow> string option" where
  "target_label t = map_option label_of t"

definition asset_title :: "asset \<Rightarrow> string" where
  "asset_title a = or_str (a_name a) (or_str (a_bom_ref a) (''asset '' @ str_int (a_id a)))"

definition role_of :: "asset \<Rightarrow> ctx \<Rightarrow> string" where
  "role_of a c = or_text (cx_role c) (or_str (a_type a) ''unknown'')"

definition target_signal :: "asset \<Rightarrow> target option \<Rightarrow> string" where
  "target_signal a t =
     (if a_target a \<noteq> None then ''target:'' @ (case target_label t of Some l \<Rightarrow> l | None \<Rightarrow> ''None'') else ''target:unmapped'')"

definition lifespan_text :: "ctx \<Rightarrow> string" where
  "lifespan_text c = (case cx_lifespan c of None \<Rightarrow> ''unknown'' | Some n \<Rightarrow> str_int n)"

definition or_unknown :: "string option \<Rightarrow> string" where
  "or_unknown v = or_text v ''unknown''"

section \<open>Score, summary, scenarios, recommendation\<close>

definition heuristic_qualitative_score :: "asset \<Rightarrow> ctx \<Rightarrow> int" where
  "heuristic_qualitative_score a c =
     (let base = (if quantum_vulnerable a then 55 else 15);
          kind = dget_or [(''certificate'', 5), (''key'', 8), (''ssh_host_key'', 10), (''ssh_user_key'', 10)] (a_type a) 0;
          levels = level_of CONTEXT_LEVELS (cx_sensitivity c) * 4 + level_of CONTEXT_LEVELS (cx_criticality c) * 5
                   + level_of EXPOSURE_LEVELS (cx_exposure c) * 5;
          span = (case cx_lifespan c of None \<Rightarrow> 0 | Some n \<Rightarrow> if 10 \<le> n then 10 else if 5 \<le> n then 6 else if 0 < n then 2 else 0)
      in max 0 (min 100 (base + kind + levels + span)))"

definition qualitative_summary :: "asset \<Rightarrow> target option \<Rightarrow> ctx \<Rightarrow> pyfloat \<Rightarrow> string" where
  "qualitative_summary a t c score =
     (let algorithm = or_str (a_algorithm a) (or_str (a_family a) ''unknown algorithm'');
          tg = or_text (target_label t) ''unmapped target'';
          exposure = or_text (cx_exposure c) ''unknown exposure'';
          role = or_text (cx_role c) (or_str (a_type a) ''unknown role'');
          posture =
            (if fle (Fin 80) score then ''near-term PQC migration planning is recommended.''
             else if fle (Fin 60) score then
               ''migration planning should be scheduled before the protected data or identity lifetime grows.''
             else if quantum_vulnerable a then
               ''quantum exposure exists, but the current context lowers the immediate operational priority.''
             else ''no immediate quantum-driven replacement is indicated from the current context.'')
      in asset_title a @ '' uses '' @ algorithm @ '' on '' @ tg @ ''. For '' @ role @ '' with '' @ exposure @ '', '' @ posture)"

definition qualitative_threat_scenarios :: "asset \<Rightarrow> ctx \<Rightarrow> string list" where
  "qualitative_threat_scenarios a c =
     (let scenarios =
        (if quantum_vulnerable a then [''harvest_now_decrypt_later''] else []) @
        (case cx_lifespan c of None \<Rightarrow> [] | Some n \<Rightarrow> if 5 \<le> n then [''long_lived_data_exposure''] else []) @
        (if among (cx_exposure c) [''public_internet'', ''dmz''] then [''network_exposed_cryptographic_service''] else []) @
        (if a_type a \<in> set [''certificate'', ''key'', ''ssh_host_key'', ''ssh_user_key''] then [''service_identity_compromise''] else [])
      in if scenarios \<noteq> [] then scenarios else [''cryptographic_inventory_drift''])"

definition qualitative_migration_recommendation :: "asset \<Rightarrow> pyfloat \<Rightarrow> string" where
  "qualitative_migration_recommendation a score =
     (let family = family_key a; priority = (if fle (Fin 80) score then ''Prioritize'' else ''Plan'')
      in if family = ''RSA'' then
           priority @ '' a hybrid RSA/PQC transition and validate peer compatibility before replacing this asset.''
         else if family \<in> set [''ECDSA'', ''DSA''] then
           priority @ '' replacement with ML-DSA or a hybrid certificate path where clients require classical trust.''
         else if family \<in> set [''ECDH'', ''DH''] then
           priority @ '' migration to ML-KEM or a hybrid key-establishment mode for supported protocols.''
         else if startswith family ''ML-'' \<or> family \<in> set [''SLH-DSA'', ''FN-DSA''] then
           ''Maintain the current PQC posture and monitor interoperability, lifecycle, and policy requirements.''
         else priority @ '' owner review and select a PQC or hybrid alternative if this asset protects long-lived data.'')"

section \<open>Scores of the criteria\<close>

text \<open>A score is a sum of floats, in the order of the code, clamped and rounded to two decimals.\<close>

definition add_if :: "bool \<Rightarrow> rat \<Rightarrow> pyfloat \<Rightarrow> pyfloat" where
  "add_if b x s = (if b then fadd s (fl x) else s)"

definition add_level :: "int \<Rightarrow> rat \<Rightarrow> pyfloat \<Rightarrow> pyfloat" where
  "add_level n x s = fadd s (fmul (Fin (of_int n)) (fl x))"

definition clamp_two :: "pyfloat \<Rightarrow> pyfloat" where
  "clamp_two s = fround 2 (fmax (Fin 0) (fmin (Fin 1) s))"

definition qualitative_rating :: "pyfloat \<Rightarrow> string" where
  "qualitative_rating s =
     (if fle (fl (85 / 100)) s then ''critical'' else if fle (fl (65 / 100)) s then ''high''
      else if fle (fl (35 / 100)) s then ''medium'' else ''low'')"

definition service_role_is_business_critical :: "string \<Rightarrow> bool" where
  "service_role_is_business_critical role =
     any_token [''auth'', ''customer'', ''payment'', ''db'', ''database'', ''api'', ''gateway'', ''vpn''] (lower role)"

definition service_role_protects_sensitive_information :: "string \<Rightarrow> bool" where
  "service_role_protects_sensitive_information role =
     any_token [''auth'', ''backup'', ''customer'', ''database'', ''db'', ''health'', ''identity'', ''kms'', ''logging'',
                ''medical'', ''payment'', ''vault''] (lower role)"

definition baseline :: "int \<Rightarrow> string" where
  "baseline base = ''baseline migration score is '' @ str_int base @ ''.''"

text \<open>The first fields of a criterion.\<close>

definition criterion_opening :: "string \<Rightarrow> pyfloat \<Rightarrow> pyval dict" where
  "criterion_opening question score =
     [(''question'', PStr question), (''rating'', PStr (qualitative_rating score)), (''score'', PFloat score)]"

section \<open>The six criteria\<close>

definition asset_value_score :: "asset \<Rightarrow> ctx \<Rightarrow> pyfloat" where
  "asset_value_score a c =
     clamp_two (add_if (service_role_is_business_critical (role_of a c)) (10 / 100)
       (add_if (a_target a \<noteq> None) (8 / 100)
         (add_level (level_of CONTEXT_LEVELS (cx_criticality c)) (14 / 100)
           (add_level (level_of EXPOSURE_LEVELS (cx_exposure c)) (16 / 100) (fl (2 / 10))))))"

definition qualitative_asset_value_rationale :: "asset \<Rightarrow> target option \<Rightarrow> ctx \<Rightarrow> int \<Rightarrow> string" where
  "qualitative_asset_value_rationale a t c base =
     asset_title a @ '' is valued by exposure='' @ or_unknown (cx_exposure c) @ '', criticality='' @ or_unknown (cx_criticality c) @
     '', service_role='' @ role_of a c @ '', and target='' @ or_text (target_label t) ''no mapped network target'' @ ''; '' @ baseline base"

definition qualitative_asset_value_criterion :: "asset \<Rightarrow> target option \<Rightarrow> ctx \<Rightarrow> int \<Rightarrow> pyval" where
  "qualitative_asset_value_criterion a t c base =
     PDict (criterion_opening ''Q1: asset value based on external exposure and business importance.'' (asset_value_score a c) @
       [(''rationale'', PStr (qualitative_asset_value_rationale a t c base)),
        (''signals'', strings (dedupe_values
           [''exposure:'' @ or_unknown (cx_exposure c), ''criticality:'' @ or_unknown (cx_criticality c),
            ''service_role:'' @ role_of a c, target_signal a t]))])"

definition protected_information_score :: "asset \<Rightarrow> ctx \<Rightarrow> pyfloat" where
  "protected_information_score a c =
     (let start = add_level (level_of CONTEXT_LEVELS (cx_sensitivity c)) (2 / 10) (fl (18 / 100));
          span = (case cx_lifespan c of None \<Rightarrow> start
             | Some n \<Rightarrow> if 10 \<le> n then fadd start (fl (12 / 100)) else if 5 \<le> n then fadd start (fl (8 / 100))
                        else if 0 < n then fadd start (fl (3 / 100)) else start)
      in clamp_two (add_if (quantum_vulnerable a) (5 / 100)
           (add_if (service_role_protects_sensitive_information (role_of a c)) (10 / 100) span)))"

definition qualitative_protected_information_rationale :: "asset \<Rightarrow> ctx \<Rightarrow> int \<Rightarrow> string" where
  "qualitative_protected_information_rationale a c base =
     asset_title a @ '' protects '' @ or_unknown (cx_sensitivity c) @ '' classified information for service_role='' @ role_of a c @
     '' with lifespan_years='' @ lifespan_text c @ ''; '' @ baseline base"

definition qualitative_protected_information_criterion :: "asset \<Rightarrow> ctx \<Rightarrow> int \<Rightarrow> pyval" where
  "qualitative_protected_information_criterion a c base =
     PDict (criterion_opening ''Q2: protected information based on data classification and confidentiality needs.''
         (protected_information_score a c) @
       [(''data_classification'', PStr (or_unknown (cx_sensitivity c))),
        (''rationale'', PStr (qualitative_protected_information_rationale a c base)),
        (''signals'', strings (dedupe_values
           [''sensitivity:'' @ or_unknown (cx_sensitivity c), ''lifespan_years:'' @ lifespan_text c,
            ''service_role:'' @ role_of a c, ''algorithm_family:'' @ or_str (a_family a) ''unknown'']))])"

definition qualitative_communication_direction :: "string option \<Rightarrow> string" where
  "qualitative_communication_direction e =
     (if e = Some ''air_gapped'' then ''none'' else if e = Some ''internal_network'' then ''internal_only''
      else if e = Some ''dmz'' then ''external_inbound'' else if e = Some ''public_internet'' then ''external_bidirectional''
      else ''unknown'')"

definition protocol_of :: "target option \<Rightarrow> string option" where
  "protocol_of t = map_option tg_protocol_hint t"

definition communication_scope_score :: "asset \<Rightarrow> target option \<Rightarrow> ctx \<Rightarrow> pyfloat" where
  "communication_scope_score a t c =
     (let direction = qualitative_communication_direction (cx_exposure c);
          start = add_level (level_of EXPOSURE_LEVELS (cx_exposure c)) (22 / 100) (fl (12 / 100));
          directed = (if direction = ''external_bidirectional'' then fadd start (fl (1 / 10))
                      else if direction = ''external_inbound'' then fadd start (fl (5 / 100)) else start)
      in clamp_two (add_if (or_text (protocol_of t) [] \<noteq> []) (3 / 100) (add_if (a_target a \<noteq> None) (5 / 100) directed)))"

definition qualitative_communication_scope_rationale :: "asset \<Rightarrow> target option \<Rightarrow> ctx \<Rightarrow> int \<Rightarrow> string" where
  "qualitative_communication_scope_rationale a t c base =
     asset_title a @ '' has exposure='' @ or_unknown (cx_exposure c) @ '', direction='' @
     qualitative_communication_direction (cx_exposure c) @ '', protocol='' @ or_unknown (protocol_of t) @ '', and target='' @
     or_text (target_label t) ''no mapped network target'' @ ''; '' @ baseline base"

definition qualitative_communication_scope_criterion :: "asset \<Rightarrow> target option \<Rightarrow> ctx \<Rightarrow> int \<Rightarrow> pyval" where
  "qualitative_communication_scope_criterion a t c base =
     (let direction = qualitative_communication_direction (cx_exposure c)
      in PDict (criterion_opening ''Q3: communication scope based on internal-only versus external bidirectional exposure.''
           (communication_scope_score a t c) @
         [(''exposure'', PStr (or_unknown (cx_exposure c))), (''direction'', PStr direction),
          (''rationale'', PStr (qualitative_communication_scope_rationale a t c base)),
          (''signals'', strings (dedupe_values
             [''exposure:'' @ or_unknown (cx_exposure c), ''direction:'' @ direction, target_signal a t,
              ''transport:'' @ or_unknown (map_option tg_transport t), ''protocol:'' @ or_unknown (protocol_of t)]))]))"

definition qualitative_sharing_scope :: "string \<Rightarrow> string option \<Rightarrow> pyval dict \<Rightarrow> string" where
  "qualitative_sharing_scope service_role exposure metadata =
     (let role = lower service_role; combined = role @ '' '' @ lower (dumps (sort_keys (PDict metadata)))
      in if any_token [''third-party'', ''third_party'', ''vendor'', ''external''] combined then ''third_party''
         else if any_token [''partner'', ''saml'', ''oidc'', ''oauth'', ''federation'', ''sso''] combined then ''partner''
         else if exposure = Some ''public_internet'' \<or> any_token [''customer'', ''mobile'', ''public''] role then ''public''
         else if exposure = Some ''dmz'' \<or> any_token [''api'', ''gateway'', ''mail''] role then ''third_party''
         else if exposure = Some ''air_gapped'' then ''none''
         else if exposure = Some ''internal_network'' then ''internal_only''
         else ''unknown'')"

definition qualitative_external_parties :: "string \<Rightarrow> string \<Rightarrow> string list" where
  "qualitative_external_parties scope service_role =
     (if scope = ''none'' then [''none_detected'']
      else if scope = ''internal_only'' then [''internal_consumers'']
      else if scope = ''partner'' then [''partner_systems'']
      else if scope = ''third_party'' then [''third_party_integrations'']
      else if scope = ''public'' then
        (if contains (lower service_role) ''customer'' then [''public_clients'', ''customer_clients''] else [''public_clients''])
      else [''unknown''])"

definition sharing_metadata_signals :: "pyval dict \<Rightarrow> string list" where
  "sharing_metadata_signals m =
     take 4 (concat (map (\<lambda>k. map (\<lambda>s. k @ '':'' @ s) (filter (\<lambda>s. s \<noteq> []) (strings_in (metadata_list (pget m k)))))
       [''referenced_by'', ''source_scanners'', ''source_paths'', ''scanner'']))"

definition scope_of :: "asset \<Rightarrow> ctx \<Rightarrow> string" where
  "scope_of a c = qualitative_sharing_scope (role_of a c) (cx_exposure c) (a_metadata a)"

definition SHARING_SCORES :: "rat dict" where
  "SHARING_SCORES =
     [(''none'', 10 / 100), (''internal_only'', 22 / 100), (''partner'', 58 / 100), (''third_party'', 68 / 100),
      (''public'', 82 / 100), (''unknown'', 32 / 100)]"

definition sharing_level_score :: "asset \<Rightarrow> ctx \<Rightarrow> pyfloat" where
  "sharing_level_score a c =
     (let scope = scope_of a c
      in clamp_two (add_if (a_target a \<noteq> None \<and> scope \<noteq> ''none'') (3 / 100)
           (add_if (among (cx_sensitivity c) [''high'', ''critical''] \<and> scope \<in> set [''partner'', ''third_party'', ''public'']) (8 / 100)
             (fl (dget_or SHARING_SCORES scope 0)))))"

definition qualitative_sharing_level_rationale :: "asset \<Rightarrow> ctx \<Rightarrow> int \<Rightarrow> string" where
  "qualitative_sharing_level_rationale a c base =
     asset_title a @ '' has sharing_scope='' @ scope_of a c @ '' from service_role='' @ role_of a c @ '' and exposure='' @
     or_unknown (cx_exposure c) @ ''; '' @ baseline base"

definition qualitative_sharing_level_criterion :: "asset \<Rightarrow> target option \<Rightarrow> ctx \<Rightarrow> int \<Rightarrow> pyval" where
  "qualitative_sharing_level_criterion a t c base =
     (let scope = scope_of a c
      in PDict (criterion_opening ''Q4: sharing level based on third-party or partner integration.'' (sharing_level_score a c) @
         [(''sharing_scope'', PStr scope), (''external_parties'', strings (qualitative_external_parties scope (role_of a c))),
          (''rationale'', PStr (qualitative_sharing_level_rationale a c base)),
          (''signals'', strings (dedupe_values
             ([''sharing_scope:'' @ scope, ''service_role:'' @ role_of a c, ''exposure:'' @ or_unknown (cx_exposure c), target_signal a t] @
              map (\<lambda>s. ''metadata:'' @ s) (sharing_metadata_signals (a_metadata a)))))]))"

text \<open>The infrastructure roles: a role is found when one of its tokens occurs in the texts of the asset.\<close>

definition role_checks :: "(string \<times> string list) list" where
  "role_checks =
     [(''identity_auth'', [''auth'', ''identity'', ''oidc'', ''oauth'', ''saml'', ''sso'', ''token'']),
      (''data_store'', [''db'', ''database'', ''postgres'', ''mysql'', ''redis'', ''kafka'', ''storage'']),
      (''payment'', [''payment'', ''billing'', ''settlement'', ''pci'']),
      (''key_management'', [''kms'', ''vault'', ''pki'', ''ca'', ''signing'', ''certificate'', ''secret'']),
      (''backup_recovery'', [''backup'', ''archive'', ''recovery'']),
      (''service_gateway'', [''gateway'', ''api'', ''proxy'', ''ingress'', ''mesh'']),
      (''operations_monitoring'', [''monitoring'', ''logging'', ''ci runner'', ''admin''])]"

definition asset_text :: "asset \<Rightarrow> string" where
  "asset_text a = lower (join '' '' [a_name a, a_type a, a_family a, dumps (sort_keys (PDict (a_metadata a)))])"

definition qualitative_infrastructure_roles :: "asset \<Rightarrow> ctx \<Rightarrow> string list" where
  "qualitative_infrastructure_roles a c =
     (let combined = lower (or_text (cx_role c) []) @ '' '' @ asset_text a;
          found = map fst (filter (\<lambda>(r, tokens). any_token tokens combined) role_checks);
          roles = (if found = [] \<and> a_target a \<noteq> None then [''network_service''] else found)
      in if roles \<noteq> [] then roles else [''none_detected''])"

definition qualitative_dependency_level :: "string list \<Rightarrow> ctx \<Rightarrow> string" where
  "qualitative_dependency_level roles c =
     (if ''none_detected'' \<in> set roles then ''none''
      else if list_ex (\<lambda>r. r \<in> set [''identity_auth'', ''data_store'', ''payment'', ''key_management'', ''backup_recovery'']) roles
      then ''critical''
      else if list_ex (\<lambda>r. r \<in> set [''service_gateway'', ''network_service'']) roles \<or> cx_criticality c = Some ''critical'' then ''core''
      else if ''operations_monitoring'' \<in> set roles then ''supporting''
      else ''unknown'')"

definition DEPENDENCY_SCORES :: "rat dict" where
  "DEPENDENCY_SCORES =
     [(''none'', 8 / 100), (''supporting'', 32 / 100), (''core'', 62 / 100), (''critical'', 82 / 100), (''unknown'', 24 / 100)]"

definition dependency_level_of :: "asset \<Rightarrow> ctx \<Rightarrow> string" where
  "dependency_level_of a c = qualitative_dependency_level (qualitative_infrastructure_roles a c) c"

text \<open>\<open>deps\<close> is the number of dependency edges at the asset.\<close>

definition critical_infrastructure_score :: "asset \<Rightarrow> ctx \<Rightarrow> int \<Rightarrow> pyfloat" where
  "critical_infrastructure_score a c deps =
     (let level = dependency_level_of a c;
          leveled = add_if (among (cx_sensitivity c) [''high'', ''critical''] \<and> level \<in> set [''core'', ''critical'']) (5 / 100)
            (add_if (among (cx_criticality c) [''high'', ''critical'']) (8 / 100) (fl (dget_or DEPENDENCY_SCORES level 0)))
      in clamp_two (if deps \<noteq> 0 then fadd leveled (fmin (fmul (Fin (of_int deps)) (fl (3 / 100))) (fl (9 / 100))) else leveled))"

definition qualitative_critical_infrastructure_rationale :: "asset \<Rightarrow> ctx \<Rightarrow> int \<Rightarrow> string" where
  "qualitative_critical_infrastructure_rationale a c base =
     asset_title a @ '' maps to dependency_level='' @ dependency_level_of a c @ '' through roles='' @
     join '','' (qualitative_infrastructure_roles a c) @ '' from service_role='' @ role_of a c @ ''; '' @ baseline base"

definition qualitative_critical_infrastructure_criterion :: "asset \<Rightarrow> ctx \<Rightarrow> int \<Rightarrow> int \<Rightarrow> pyval" where
  "qualitative_critical_infrastructure_criterion a c deps base =
     (let roles = qualitative_infrastructure_roles a c; level = dependency_level_of a c
      in PDict (criterion_opening ''Q5: critical infrastructure dependency based on DB, identity, payment, KMS, or gateway role.''
           (critical_infrastructure_score a c deps) @
         [(''dependency_level'', PStr level), (''infrastructure_roles'', strings roles),
          (''rationale'', PStr (qualitative_critical_infrastructure_rationale a c base)),
          (''signals'', strings (dedupe_values
             ([''dependency_level:'' @ level, ''service_role:'' @ role_of a c, ''criticality:'' @ or_unknown (cx_criticality c),
               ''dependency_count:'' @ str_int deps, ''algorithm_family:'' @ or_str (a_family a) ''unknown''] @
              map (\<lambda>r. ''infrastructure_role:'' @ r) roles)))]))"

definition protection_duration_score :: "asset \<Rightarrow> ctx \<Rightarrow> pyfloat" where
  "protection_duration_score a c =
     (let start = fl (14 / 100);
          span = (case cx_lifespan c of None \<Rightarrow> fadd start (fl (1 / 10))
             | Some n \<Rightarrow> if 15 \<le> n then fadd start (fl (56 / 100)) else if 10 \<le> n then fadd start (fl (46 / 100))
                        else if 5 \<le> n then fadd start (fl (3 / 10)) else if 0 < n then fadd start (fl (12 / 100)) else start)
      in clamp_two (add_if (among (cx_criticality c) [''high'', ''critical'']) (5 / 100)
           (add_if (among (cx_sensitivity c) [''high'', ''critical'']) (7 / 100) (add_if (quantum_vulnerable a) (16 / 100) span))))"

definition vulnerable_text :: "asset \<Rightarrow> string" where
  "vulnerable_text a = (if quantum_vulnerable a then ''true'' else ''false'')"

definition qualitative_protection_duration_rationale :: "asset \<Rightarrow> ctx \<Rightarrow> int \<Rightarrow> string" where
  "qualitative_protection_duration_rationale a c base =
     asset_title a @ '' has lifespan_years='' @ lifespan_text c @ '', quantum_vulnerable='' @ vulnerable_text a @ '', sensitivity='' @
     or_unknown (cx_sensitivity c) @ '', and criticality='' @ or_unknown (cx_criticality c) @ ''; '' @ baseline base"

definition qualitative_protection_duration_criterion :: "asset \<Rightarrow> ctx \<Rightarrow> int \<Rightarrow> pyval" where
  "qualitative_protection_duration_criterion a c base =
     (let score = protection_duration_score a c
      in PDict (criterion_opening ''Q6: protection duration based on retention period and HNDL exposure.'' score @
         [(''lifespan_years'', opt_int (cx_lifespan c)), (''hndl_exposure'', PStr (qualitative_rating score)),
          (''rationale'', PStr (qualitative_protection_duration_rationale a c base)),
          (''signals'', strings (dedupe_values
             [''lifespan_years:'' @ lifespan_text c, ''quantum_vulnerable:'' @ vulnerable_text a,
              ''algorithm_family:'' @ or_str (a_family a) ''unknown'', ''sensitivity:'' @ or_unknown (cx_sensitivity c),
              ''criticality:'' @ or_unknown (cx_criticality c)]))]))"

section \<open>The assessment\<close>

definition qualitative_dhs_criteria :: "asset \<Rightarrow> target option \<Rightarrow> ctx \<Rightarrow> int \<Rightarrow> int \<Rightarrow> pyval dict" where
  "qualitative_dhs_criteria a t c deps base =
     [(''asset_value'', qualitative_asset_value_criterion a t c base),
      (''protected_information'', qualitative_protected_information_criterion a c base),
      (''communication_scope'', qualitative_communication_scope_criterion a t c base),
      (''sharing_level'', qualitative_sharing_level_criterion a t c base),
      (''critical_infrastructure'', qualitative_critical_infrastructure_criterion a c deps base),
      (''protection_duration'', qualitative_protection_duration_criterion a c base)]"

definition populated :: "ctx \<Rightarrow> nat" where
  "populated c =
     length (filter (\<lambda>b. b) [cx_sensitivity c \<noteq> None, cx_lifespan c \<noteq> None, cx_criticality c \<noteq> None, cx_exposure c \<noteq> None, cx_role c \<noteq> None])"

definition qualitative_confidence :: "asset \<Rightarrow> ctx \<Rightarrow> bool \<Rightarrow> pyfloat \<Rightarrow> pyfloat" where
  "qualitative_confidence a c scored score =
     (let start = fadd (fl (42 / 100)) (if scored then fl (18 / 100) else fl (4 / 100));
          scaled = fadd start (fdiv_by (fmin score (Fin 100)) 1000);
          filled = fadd scaled (fmin (fmul (Fin (of_nat (populated c))) (fl (25 / 1000))) (fl (12 / 100)));
          known = add_if (a_target a \<noteq> None) (3 / 100) (add_if (a_algorithm a \<noteq> []) (3 / 100) (add_if (a_family a \<noteq> []) (5 / 100) filled));
          vulnerable = add_if (quantum_vulnerable a) (3 / 100) known
      in fround 2 (fmax (fl (35 / 100)) (fmin (fl (95 / 100)) vulnerable)))"

definition heuristic_qualitative_response :: "asset \<Rightarrow> target option \<Rightarrow> ctx \<Rightarrow> int \<Rightarrow> bool \<Rightarrow> pyfloat \<Rightarrow> int \<Rightarrow> Risk_Prompts.response" where
  "heuristic_qualitative_response a t c deps scored score base =
     \<lparr>qr_summary = qualitative_summary a t c score, qr_threat_scenarios = qualitative_threat_scenarios a c,
      qr_recommendation = qualitative_migration_recommendation a score,
      qr_criteria = qualitative_dhs_criteria a t c deps base,
      qr_confidence = PFloat (qualitative_confidence a c scored score)\<rparr>"

section \<open>The rule book drafts a valid answer\<close>

text \<open>What the request schemas let into a context: a level, an exposure, a span that is not negative.\<close>

definition named :: "string list \<Rightarrow> string option \<Rightarrow> bool" where
  "named names v = (case v of None \<Rightarrow> True | Some s \<Rightarrow> s \<in> set names)"

definition context_ok :: "ctx \<Rightarrow> bool" where
  "context_ok c =
     (named LEVELS (cx_sensitivity c) \<and> named LEVELS (cx_criticality c) \<and>
      named [''air_gapped'', ''internal_network'', ''dmz'', ''public_internet''] (cx_exposure c) \<and>
      (case cx_lifespan c of None \<Rightarrow> True | Some n \<Rightarrow> 0 \<le> n \<and> int_plain n))"

lemma rstrip_empty: "rstrip_if p s = [] \<longleftrightarrow> list_all p s"
  by (simp add: rstrip_if_def list_all_iff)

lemma strip_empty: "strip s = [] \<longleftrightarrow> list_all is_space s"
proof -
  have "list_all is_space (dropWhile is_space s) = list_all is_space s"
    by (induction s) auto
  then show ?thesis by (simp add: strip_def rstrip_empty)
qed

lemma text_append: "strip (s @ t) \<noteq> []" if "strip s \<noteq> [] \<or> strip t \<noteq> []"
  using that by (auto simp: strip_empty)

lemma text_Cons: "strip (c # s) \<noteq> []" if "\<not> is_space c"
  using that by (simp add: strip_empty)

lemma has_text_Cons [simp]: "\<not> is_space c \<Longrightarrow> has_text (PStr (c # s))"
  by (simp add: text_Cons)

lemma has_text_append: "has_text (PStr t) \<Longrightarrow> has_text (PStr (s @ t))"
  by (simp add: text_append)

lemma signals_ok: "xs \<noteq> [] \<Longrightarrow> list_all (\<lambda>s. has_text (PStr s)) xs \<Longrightarrow> has_texts (strings (dedupe_values xs))"
  using dedupe_by_keys [of "\<lambda>x. x" "[]" xs] dedupe_by_subseq [of "\<lambda>x. x" "[]" xs]
  by (auto simp: strings_def dedupe_values_def list_all_iff simp del: has_text.simps)

lemma strings_ok: "xs \<noteq> [] \<Longrightarrow> list_all (\<lambda>s. has_text (PStr s)) xs \<Longrightarrow> has_texts (strings xs)"
  by (auto simp: strings_def list_all_iff simp del: has_text.simps)

lemma rounded_score_ok: "in_range 0 1 x \<Longrightarrow> score_ok (PFloat (fround 2 x))"
proof -
  assume x: "in_range 0 1 x"
  then obtain a where a: "x = Fin a" "0 \<le> a" "a \<le> 1" by (rule in_range_obtain)
  have "fround 2 (fround 2 (Fin a)) = fround 2 (Fin a)" using fround_hundredth [OF a(2,3)] fround_hundredth_same by auto
  then show ?thesis using fround_range [of 0 1 x 2] x by (simp add: a(1) del: fround.simps)
qed

lemma clamp_two_ok: "score_ok (PFloat (clamp_two s))"
  unfolding clamp_two_def using fclamp_range [of 0 1 s] by (intro rounded_score_ok) (simp add: fclamp_def)

lemma confidence_range: "in_range 0 1 (fmax (fl (35 / 100)) (fmin (fl (95 / 100)) x))"
proof -
  obtain a b where "fl (35 / 100) = Fin a" "0 \<le> a" "a \<le> 1" and "fl (95 / 100) = Fin b" "0 \<le> b" "b \<le> 1"
    using fl_unit [of "35 / 100"] fl_unit [of "95 / 100"] by (auto elim!: in_range_obtain)
  then show ?thesis by (cases x) (auto simp: fmax_def fmin_def)
qed

lemma rating_ok: "name_ok LEVELS (PStr (qualitative_rating s))" "name_ok (LEVELS @ [''unknown'']) (PStr (qualitative_rating s))"
  by (simp_all add: qualitative_rating_def LEVELS_def)

lemma or_unknown_named: "named names v \<Longrightarrow> name_ok (names @ [''unknown'']) (PStr (or_unknown v))"
  by (auto simp: named_def or_unknown_def or_text_def or_str_def split: option.splits)

lemma exposure_ok: "named [''air_gapped'', ''internal_network'', ''dmz'', ''public_internet''] v \<Longrightarrow> name_ok EXPOSURES (PStr (or_unknown v))"
  by (drule or_unknown_named) (simp add: EXPOSURES_def)

lemma direction_ok: "name_ok DIRECTIONS (PStr (qualitative_communication_direction e))"
  by (simp add: qualitative_communication_direction_def DIRECTIONS_def)

lemma scope_ok: "name_ok SHARING_SCOPES (PStr (scope_of a c))"
  by (simp add: scope_of_def qualitative_sharing_scope_def SHARING_SCOPES_def Let_def)

lemma dependency_ok: "name_ok DEPENDENCY_LEVELS (PStr (dependency_level_of a c))"
  by (simp add: dependency_level_of_def qualitative_dependency_level_def DEPENDENCY_LEVELS_def)


text \<open>A rationale ends in the baseline, so it is not blank.\<close>

lemma baseline_text: "has_text (PStr (x @ baseline base))"
  by (rule has_text_append) (simp add: baseline_def is_space_def code_def del: has_text.simps)

lemma rationales_text:
  "has_text (PStr (qualitative_asset_value_rationale a t c base))"
  "has_text (PStr (qualitative_protected_information_rationale a c base))"
  "has_text (PStr (qualitative_communication_scope_rationale a t c base))"
  "has_text (PStr (qualitative_sharing_level_rationale a c base))"
  "has_text (PStr (qualitative_critical_infrastructure_rationale a c base))"
  "has_text (PStr (qualitative_protection_duration_rationale a c base))"
  unfolding qualitative_asset_value_rationale_def qualitative_protected_information_rationale_def
    qualitative_communication_scope_rationale_def qualitative_sharing_level_rationale_def
    qualitative_critical_infrastructure_rationale_def qualitative_protection_duration_rationale_def
  by (intro has_text_append baseline_text)+

lemma roles_named: "set (qualitative_infrastructure_roles a c) \<subseteq> set (map fst role_checks @ [''network_service'', ''none_detected''])"
  by (auto simp: qualitative_infrastructure_roles_def Let_def)

lemma roles_text: "has_texts (strings (qualitative_infrastructure_roles a c))"
proof (rule strings_ok)
  show "qualitative_infrastructure_roles a c \<noteq> []" by (simp add: qualitative_infrastructure_roles_def Let_def)
  have "list_all (\<lambda>s. has_text (PStr s)) (map fst role_checks @ [''network_service'', ''none_detected''])" by code_simp
  then show "list_all (\<lambda>s. has_text (PStr s)) (qualitative_infrastructure_roles a c)"
    using roles_named [of a c] unfolding list_all_iff by blast
qed

lemma parties_text: "has_texts (strings (qualitative_external_parties s r))"
  unfolding qualitative_external_parties_def by (simp add: strings_def is_space_def code_def del: has_text.simps)

lemma target_signal_text: "has_text (PStr (target_signal a t))"
  by (simp add: target_signal_def is_space_def code_def del: has_text.simps)

lemmas criterion_texts = rationales_text roles_text parties_text target_signal_text rating_ok direction_ok scope_ok dependency_ok clamp_two_ok


lemma drafted_criteria:
  assumes "context_ok c"
  shows "criterion_ok (the (map_of drafted_types ''asset_value'')) (qualitative_asset_value_criterion a t c base)"
    "criterion_ok (the (map_of drafted_types ''protected_information'')) (qualitative_protected_information_criterion a c base)"
    "criterion_ok (the (map_of drafted_types ''communication_scope'')) (qualitative_communication_scope_criterion a t c base)"
    "criterion_ok (the (map_of drafted_types ''sharing_level'')) (qualitative_sharing_level_criterion a t c base)"
    "criterion_ok (the (map_of drafted_types ''critical_infrastructure'')) (qualitative_critical_infrastructure_criterion a c deps base)"
    "criterion_ok (the (map_of drafted_types ''protection_duration'')) (qualitative_protection_duration_criterion a c base)"
proof -
  note scores = asset_value_score_def protected_information_score_def communication_scope_score_def sharing_level_score_def
    critical_infrastructure_score_def protection_duration_score_def
  have ok: "score_ok (PFloat (asset_value_score a c))" "score_ok (PFloat (protected_information_score a c))"
    "score_ok (PFloat (communication_scope_score a t c))" "score_ok (PFloat (sharing_level_score a c))"
    "score_ok (PFloat (critical_infrastructure_score a c deps))" "score_ok (PFloat (protection_duration_score a c))"
    unfolding scores Let_def by (rule clamp_two_ok)+
  have names: "name_ok (LEVELS @ [''unknown'']) (PStr (or_unknown (cx_sensitivity c)))" "name_ok EXPOSURES (PStr (or_unknown (cx_exposure c)))"
    using assms or_unknown_named exposure_ok by (auto simp: context_ok_def)
  have span: "lifespan_ok (opt_int (cx_lifespan c))"
    using assms by (auto simp: context_ok_def opt_int_def split: option.splits)
  have roles: "list_all (\<lambda>s. has_text (PStr s)) (map (\<lambda>r. ''infrastructure_role:'' @ r) xs)"
    "list_all (\<lambda>s. has_text (PStr s)) (map (\<lambda>s. ''metadata:'' @ s) xs)" for xs
    by (simp_all add: list_all_iff is_space_def code_def del: has_text.simps)
  note facts = criterion_texts ok names span
  show
    "criterion_ok (the (map_of drafted_types ''asset_value'')) (qualitative_asset_value_criterion a t c base)"
    "criterion_ok (the (map_of drafted_types ''protected_information'')) (qualitative_protected_information_criterion a c base)"
    "criterion_ok (the (map_of drafted_types ''communication_scope'')) (qualitative_communication_scope_criterion a t c base)"
    "criterion_ok (the (map_of drafted_types ''sharing_level'')) (qualitative_sharing_level_criterion a t c base)"
    "criterion_ok (the (map_of drafted_types ''critical_infrastructure'')) (qualitative_critical_infrastructure_criterion a c deps base)"
    "criterion_ok (the (map_of drafted_types ''protection_duration'')) (qualitative_protection_duration_criterion a c base)"
    unfolding qualitative_asset_value_criterion_def qualitative_protected_information_criterion_def
      qualitative_communication_scope_criterion_def qualitative_sharing_level_criterion_def
      qualitative_critical_infrastructure_criterion_def qualitative_protection_duration_criterion_def
    by (simp_all add: criterion_types_with_def criterion_opening_def Let_def signals_ok facts roles is_space_def code_def
        del: has_text.simps has_texts.simps score_ok.simps name_ok.simps)
qed


lemma summary_text: "has_text (PStr (qualitative_summary a t c score))"
  unfolding qualitative_summary_def Let_def
  by (intro has_text_append) (simp add: is_space_def code_def del: has_text.simps)

lemma scenarios_text: "has_texts (strings (qualitative_threat_scenarios a c))"
proof (rule strings_ok)
  show "qualitative_threat_scenarios a c \<noteq> []" by (simp add: qualitative_threat_scenarios_def Let_def)
  show "list_all (\<lambda>s. has_text (PStr s)) (qualitative_threat_scenarios a c)"
    by (simp add: qualitative_threat_scenarios_def Let_def is_space_def code_def del: has_text.simps split: option.split)
qed

lemma recommendation_text: "has_text (PStr (qualitative_migration_recommendation a score))"
  by (simp add: qualitative_migration_recommendation_def Let_def is_space_def code_def del: has_text.simps)

lemma criteria_drafted_heuristic: "context_ok c \<Longrightarrow> criteria_drafted (qualitative_dhs_criteria a t c deps base)"
  using drafted_criteria(1,3) [of c a t base] drafted_criteria(2,6) [of c a base] drafted_criteria(4) [of c a t base]
    drafted_criteria(5) [of c a deps base]
  by (simp add: criteria_drafted_def qualitative_dhs_criteria_def criterion_types_with_def)

lemma heuristic_drafted:
  assumes "context_ok c"
  shows "response_drafted (heuristic_qualitative_response a t c deps scored score base)"
    and "lifespan_plain (qr_criteria (heuristic_qualitative_response a t c deps scored score base))"
proof -
  have "score_ok (PFloat (qualitative_confidence a c scored score))"
    unfolding qualitative_confidence_def Let_def by (intro rounded_score_ok confidence_range)
  then show "response_drafted (heuristic_qualitative_response a t c deps scored score base)"
    using summary_text scenarios_text recommendation_text criteria_drafted_heuristic [OF assms]
    by (simp add: response_drafted_def heuristic_qualitative_response_def del: has_text.simps has_texts.simps score_ok.simps)
  show "lifespan_plain (qr_criteria (heuristic_qualitative_response a t c deps scored score base))"
    using assms
    by (auto simp: lifespan_plain_def heuristic_qualitative_response_def qualitative_dhs_criteria_def pget_def dget_or_def
        qualitative_protection_duration_criterion_def criterion_opening_def Let_def context_ok_def opt_int_def split: option.splits)
qed

end
