(* ===== verification/Llm_Client.thy ===== *)
theory Llm_Client
  imports Risk_Prompts
begin

text \<open>
  \<open>risk_engine/llm.py\<close>: the configuration of the language model from the environment, and the call that sends a prompt
  to an OpenAI-compatible service or to a command line client.

  The two ways out of the process are parameters: \<open>http\<close> maps the request (URL, body, key, timeout) to what \<open>urlopen\<close>
  gave, \<open>cli\<close> maps an environment and a command line with its input to the outcome of \<open>subprocess.run\<close>.  Everything the code does with
  their results is modelled.  \<open>LlmProviderUnavailable\<close> and \<open>LlmProviderError\<close> are \<open>ProviderUnavailable\<close> and
  \<open>ProviderError\<close>.
\<close>

definition OPENAI_COMPATIBLE_PROVIDERS :: "string list" where
  "OPENAI_COMPATIBLE_PROVIDERS = [''openai'', ''openai-compatible'', ''openai_compatible'']"

definition CODEX_CLI_PROVIDERS :: "string list" where
  "CODEX_CLI_PROVIDERS = [''codex'', ''codex-cli'', ''codex_cli'']"

definition DISABLED_PROVIDERS :: "string list" where
  "DISABLED_PROVIDERS = [[], ''disabled'', ''off'', ''none'', ''mock'', ''mock-rulebook'', ''heuristic'']"

record llm_config =
  lc_provider :: string
  lc_model :: string
  lc_api_key :: string
  lc_base_url :: string
  lc_timeout :: pyfloat
  lc_json_mode :: bool
  lc_cli_command :: string
  lc_cli_effort :: string
  lc_cli_args :: "string list"

record completion =
  cp_provider :: string
  cp_model :: string
  cp_content :: string
  cp_usage :: "pyval dict"

section \<open>The environment\<close>

type_synonym environ = "string dict"

fun env_first :: "environ \<Rightarrow> string list \<Rightarrow> string \<Rightarrow> string" where
  "env_first env [] d = d"
| "env_first env (n # ns) d = (case dget env n of Some v \<Rightarrow> if v \<noteq> [] then strip v else env_first env ns d | None \<Rightarrow> env_first env ns d)"

definition env_bool :: "environ \<Rightarrow> string \<Rightarrow> bool \<Rightarrow> bool" where
  "env_bool env n d = (case dget env n of None \<Rightarrow> d | Some v \<Rightarrow> lower (strip v) \<in> set [''1'', ''true'', ''yes'', ''on''])"

definition env_float :: "environ \<Rightarrow> string list \<Rightarrow> pyfloat \<Rightarrow> py_error + pyfloat" where
  "env_float env ns d =
     (let v = env_first env ns []
      in if v = [] then Inr d
         else (case float_of_str v of
             Inl e \<Rightarrow> Inl (ProviderUnavailable (hd ns @ '' must be numeric''))
           | Inr x \<Rightarrow> Inr x))"

text \<open>\<open>shlex.split\<close>, the words of a shell: white space separates, quotes group, a backslash keeps the next character
  (within double quotes only before a double quote or a backslash).  The state is the word read so far, if any.\<close>

datatype quoting = Plain | Single | Double

definition shell_space :: "char \<Rightarrow> bool" where
  "shell_space c = (c \<in> set [CHR '' '', CHR 0x09, CHR 0x0A, CHR 0x0D])"

definition grow :: "string option \<Rightarrow> string \<Rightarrow> string option" where
  "grow w s = Some ((case w of None \<Rightarrow> [] | Some t \<Rightarrow> t) @ s)"

fun shlex_loop :: "quoting \<Rightarrow> string option \<Rightarrow> string \<Rightarrow> string list option" where
  "shlex_loop q w [] = (if q \<noteq> Plain then None else Some (case w of None \<Rightarrow> [] | Some t \<Rightarrow> [t]))"
| "shlex_loop Plain w (c # cs) =
     (if shell_space c then
        (case w of None \<Rightarrow> shlex_loop Plain None cs | Some t \<Rightarrow> map_option (\<lambda>ws. t # ws) (shlex_loop Plain None cs))
      else if c = CHR 0x5C then (case cs of [] \<Rightarrow> None | d # ds \<Rightarrow> shlex_loop Plain (grow w [d]) ds)
      else if c = CHR 0x27 then shlex_loop Single (grow w []) cs
      else if c = CHR 0x22 then shlex_loop Double (grow w []) cs
      else shlex_loop Plain (grow w [c]) cs)"
| "shlex_loop Single w (c # cs) =
     (if c = CHR 0x27 then shlex_loop Plain w cs else shlex_loop Single (grow w [c]) cs)"
| "shlex_loop Double w (c # cs) =
     (if c = CHR 0x22 then shlex_loop Plain w cs
      else if c = CHR 0x5C then
        (case cs of [] \<Rightarrow> None
         | d # ds \<Rightarrow> if d = CHR 0x22 \<or> d = CHR 0x5C then shlex_loop Double (grow w [d]) ds
                    else shlex_loop Double (grow w [c, d]) ds)
      else shlex_loop Double (grow w [c]) cs)"

definition shlex_split :: "string \<Rightarrow> string list option" where
  "shlex_split s = shlex_loop Plain None s"

definition env_args :: "environ \<Rightarrow> string list \<Rightarrow> py_error + string list" where
  "env_args env ns =
     (let v = env_first env ns []
      in if v = [] then Inr []
         else (case shlex_split v of
             None \<Rightarrow> Inl (ProviderUnavailable (hd ns @ '' must be valid shell-style arguments''))
           | Some ws \<Rightarrow> Inr ws))"

definition load_llm_config :: "environ \<Rightarrow> py_error + llm_config" where
  "load_llm_config env =
     (let provider = lower (env_first env [''QUALITATIVE_LLM_PROVIDER'', ''LLM_PROVIDER''] ''mock-rulebook'');
          model = env_first env [''QUALITATIVE_LLM_MODEL'', ''LLM_MODEL'', ''OPENAI_MODEL''] [];
          api_key = env_first env [''QUALITATIVE_LLM_API_KEY'', ''LLM_API_KEY'', ''OPENAI_API_KEY''] [];
          base_url = env_first env [''QUALITATIVE_LLM_BASE_URL'', ''LLM_API_BASE_URL'', ''OPENAI_BASE_URL''] ''https://api.openai.com/v1''
      in rbind (env_float env [''QUALITATIVE_LLM_TIMEOUT_SECONDS'', ''LLM_TIMEOUT_SECONDS''] (Fin 30)) (\<lambda>timeout.
         rbind (env_args env [''QUALITATIVE_CODEX_EXTRA_ARGS'', ''CODEX_CLI_EXTRA_ARGS'']) (\<lambda>args.
           Inr \<lparr>lc_provider = provider, lc_model = model, lc_api_key = api_key, lc_base_url = base_url, lc_timeout = timeout,
                lc_json_mode = env_bool env ''QUALITATIVE_LLM_JSON_MODE'' True,
                lc_cli_command = env_first env [''QUALITATIVE_CODEX_COMMAND'', ''CODEX_CLI_COMMAND''] ''codex'',
                lc_cli_effort = env_first env [''QUALITATIVE_CODEX_REASONING_EFFORT'', ''CODEX_REASONING_EFFORT''] [],
                lc_cli_args = args\<rparr>)))"

section \<open>The HTTP service\<close>

datatype http_result = Http_ok string | Http_error int string | Http_failed string

type_synonym http = "string \<Rightarrow> string \<Rightarrow> string \<Rightarrow> pyfloat \<Rightarrow> http_result"

text \<open>\<open>json.loads\<close>: one value, white space around it.\<close>

definition json_loads :: "string \<Rightarrow> json_error + pyval" where
  "json_loads s =
     (case scan_value (skip_ws s) of
        Inl e \<Rightarrow> Inl e
      | Inr (v, r) \<Rightarrow> if skip_ws r = [] then Inr v else Inl Bad_json)"

definition post_json :: "http \<Rightarrow> string \<Rightarrow> pyval \<Rightarrow> string \<Rightarrow> pyfloat \<Rightarrow> py_error + pyval dict" where
  "post_json http url body api_key timeout =
     (case http url (dumps body) api_key timeout of
        Http_error n text \<Rightarrow> Inl (ProviderError (''LLM provider returned HTTP '' @ str_int n @ '': '' @ take 500 text))
      | Http_failed m \<Rightarrow> Inl (ProviderError (''LLM provider request failed: '' @ m))
      | Http_ok text \<Rightarrow>
          (case json_loads text of
             Inl Bad_json \<Rightarrow> Inl (ProviderError ''LLM provider response was not valid JSON'')
           | Inl Digit_limit \<Rightarrow> Inl (ValueError ''Exceeds the limit (4300 digits) for integer string conversion'')
           | Inl Beyond_char \<Rightarrow> Inl (RuntimeError ''character outside the model'')
           | Inr (PDict d) \<Rightarrow> Inr d
           | Inr v \<Rightarrow> Inl (ProviderError ''LLM provider response must be a JSON object'')))"

text \<open>\<open>v[k]\<close> and \<open>v[0]\<close>, whose \<open>KeyError\<close>, \<open>IndexError\<close> and \<open>TypeError\<close> the code treats alike: none.\<close>

definition at_key :: "string \<Rightarrow> pyval \<Rightarrow> pyval option" where
  "at_key k v = (case v of PDict d \<Rightarrow> dget d k | _ \<Rightarrow> None)"

definition at_zero :: "pyval \<Rightarrow> pyval option" where
  "at_zero v = (case v of PList (x # xs) \<Rightarrow> Some x | PStr (c # cs) \<Rightarrow> Some (PStr [c]) | _ \<Rightarrow> None)"

definition choices_content :: "pyval dict \<Rightarrow> pyval option" where
  "choices_content d =
     Option.bind (at_key ''choices'' (PDict d)) (\<lambda>c. Option.bind (at_zero c) (\<lambda>x.
       Option.bind (at_key ''message'' x) (at_key ''content'')))"

definition chat_body :: "prompt \<Rightarrow> llm_config \<Rightarrow> pyval" where
  "chat_body pm c =
     PDict ([(''model'', PStr (lc_model c)),
             (''messages'', PList
                [PDict [(''role'', PStr ''system''), (''content'', PStr (pm_system pm))],
                 PDict [(''role'', PStr ''user''), (''content'', PStr (pm_user pm))]]),
             (''temperature'', PInt 0)] @
            (if lc_json_mode c then [(''response_format'', PDict [(''type'', PStr ''json_object'')])] else []))"

definition call_openai_compatible_chat :: "http \<Rightarrow> prompt \<Rightarrow> llm_config \<Rightarrow> py_error + completion" where
  "call_openai_compatible_chat http pm c =
     rbind (post_json http (rstrip_if (\<lambda>x. x = CHR ''/'') (lc_base_url c) @ ''/chat/completions'') (chat_body pm c) (lc_api_key c) (lc_timeout c))
       (\<lambda>response.
       case choices_content response of
         None \<Rightarrow> Inl (ProviderError ''LLM provider response did not include choices[0].message.content'')
       | Some (PStr content) \<Rightarrow>
           if strip content = [] then Inl (ProviderError ''LLM provider returned an empty message'')
           else Inr \<lparr>cp_provider = lc_provider c, cp_model = lc_model c, cp_content = content,
                  cp_usage = (case pget response ''usage'' of PDict u \<Rightarrow> u | _ \<Rightarrow> [])\<rparr>
       | Some v \<Rightarrow> Inl (ProviderError ''LLM provider returned an empty message''))"

section \<open>The command line client\<close>

text \<open>What a run gives: the command is missing, or it takes too long, or it ends with its code, its two outputs and the last
  message it wrote to the file, if any.\<close>

datatype cli_result = Cli_missing | Cli_timeout | Cli_done int string string "string option"

text \<open>The parameters: the name of the temporary directory, the run of a command line in an environment with an input, and \<open>format(t, "g")\<close>.\<close>

type_synonym cli = "environ \<Rightarrow> string list \<Rightarrow> string \<Rightarrow> pyfloat \<Rightarrow> cli_result"

definition codex_env :: "environ \<Rightarrow> llm_config \<Rightarrow> environ" where
  "codex_env env c =
     setdefault ''NO_COLOR'' ''1''
       (if lc_api_key c \<noteq> [] \<and> dget_or env ''OPENAI_API_KEY'' [] = [] then dset ''OPENAI_API_KEY'' (lc_api_key c) env else env)"

text \<open>\<open>len(s.encode())\<close>: in UTF-8 a character beyond ASCII (and below 256) takes two bytes.\<close>

definition utf8_length :: "string \<Rightarrow> int" where
  "utf8_length s = sum_list (map (\<lambda>c. if code c < 128 then 1 else 2) s)"

definition codex_exec_command :: "llm_config \<Rightarrow> py_error + string list" where
  "codex_exec_command c =
     (case shlex_split (lc_cli_command c) of
        None \<Rightarrow> Inl (ProviderUnavailable ''QUALITATIVE_CODEX_COMMAND is not a valid shell command'')
      | Some ws \<Rightarrow> if ws = [] then Inl (ProviderUnavailable ''QUALITATIVE_CODEX_COMMAND must not be empty'') else Inr ws)"

definition codex_prompt_text :: "prompt \<Rightarrow> string" where
  "codex_prompt_text pm =
     pm_system pm @ nl @ nl @ pm_user pm @ nl @ nl @ ''Return the final answer as one JSON object only. '' @
     ''Do not include Markdown fences, explanations, or code changes.''"

definition codex_command_line :: "string list \<Rightarrow> string \<Rightarrow> llm_config \<Rightarrow> string list" where
  "codex_command_line command output c =
     command @
     [''exec'', ''--skip-git-repo-check'', ''--ephemeral'', ''--sandbox'', ''read-only'', ''--output-last-message'', output] @
     (if lc_model c \<noteq> [] then [''--model'', lc_model c] else []) @
     (if lc_cli_effort c \<noteq> [] then [''--config'', ''reasoning_effort='' @ json_string (lc_cli_effort c)] else []) @
     lc_cli_args c @ [''-'']"

definition cli_content :: "string \<Rightarrow> string option \<Rightarrow> string" where
  "cli_content out message = (case message of Some t \<Rightarrow> strip t | None \<Rightarrow> strip out)"

definition call_codex_cli :: "environ \<Rightarrow> string \<Rightarrow> cli \<Rightarrow> (pyfloat \<Rightarrow> string) \<Rightarrow> prompt \<Rightarrow> llm_config \<Rightarrow> py_error + completion" where
  "call_codex_cli env dir cli general pm c =
     rbind (codex_exec_command c) (\<lambda>command.
       case cli (codex_env env c) (codex_command_line command (dir @ ''/last-message.txt'') c) (codex_prompt_text pm) (lc_timeout c) of
         Cli_missing \<Rightarrow> Inl (ProviderUnavailable (''Codex CLI command not found: '' @ hd command))
       | Cli_timeout \<Rightarrow> Inl (ProviderError (''Codex CLI timed out after '' @ general (lc_timeout c) @ ''s''))
       | Cli_done rc out err message \<Rightarrow>
           if rc \<noteq> 0 then
             Inl (ProviderError (''Codex CLI exited with '' @ str_int rc @ '': '' @
               take 500 (strip (or_str err (or_str out ''unknown Codex CLI error'')))))
           else if cli_content out message = [] then Inl (ProviderError ''Codex CLI returned an empty message'')
           else Inr \<lparr>cp_provider = lc_provider c, cp_model = lc_model c, cp_content = cli_content out message,
                  cp_usage = [(''cli_command'', PStr (hd command)), (''exit_code'', PInt rc),
                              (''stdout_bytes'', PInt (utf8_length out)), (''stderr_bytes'', PInt (utf8_length err))]\<rparr>)"

section \<open>The call\<close>

record world =
  w_environ :: environ
  w_http :: http
  w_tmp_dir :: string
  w_cli :: cli
  w_general :: "pyfloat \<Rightarrow> string"

definition call_qualitative_risk_llm :: "world \<Rightarrow> prompt \<Rightarrow> llm_config option \<Rightarrow> py_error + completion" where
  "call_qualitative_risk_llm w pm config =
     rbind (case config of Some c \<Rightarrow> Inr c | None \<Rightarrow> load_llm_config (w_environ w)) (\<lambda>c.
       if lc_provider c \<in> set DISABLED_PROVIDERS then Inl (ProviderUnavailable ''qualitative LLM provider is disabled'')
       else if lc_provider c \<in> set CODEX_CLI_PROVIDERS then call_codex_cli (w_environ w) (w_tmp_dir w) (w_cli w) (w_general w) pm c
       else if lc_provider c \<notin> set OPENAI_COMPATIBLE_PROVIDERS then
         Inl (ProviderUnavailable (''unsupported qualitative LLM provider: '' @ lc_provider c))
       else if lc_model c = [] then Inl (ProviderUnavailable ''QUALITATIVE_LLM_MODEL or LLM_MODEL must be set'')
       else if lc_api_key c = [] then
         Inl (ProviderUnavailable ''QUALITATIVE_LLM_API_KEY, LLM_API_KEY, or OPENAI_API_KEY must be set'')
       else call_openai_compatible_chat (w_http w) pm c)"


text \<open>What the two endpoints that ask for a suggestion make of a call: the provider is not available (a 503), or a body.\<close>

datatype suggestion = Unavailable string | Suggested pyval

section \<open>The outcome of a call\<close>

text \<open>The exceptions a call can raise: the provider is not usable, or the provider failed, or the one of \<open>int()\<close> on a number of
  more than 4300 digits in the body of the response (a \<open>ValueError\<close> that is no \<open>JSONDecodeError\<close>).  A \<open>RuntimeError\<close> stands
  for a response with a character outside the model.\<close>

fun provider_exception :: "py_error \<Rightarrow> bool" where
  "provider_exception (ProviderUnavailable m) = True"
| "provider_exception (ProviderError m) = True"
| "provider_exception (ValueError m) = True"
| "provider_exception (RuntimeError m) = True"
| "provider_exception e = False"

lemma env_float_raises: "raises_only provider_exception (env_float env ns d)"
  by (simp add: env_float_def raises_only_def Let_def split: sum.split)

lemma env_args_raises: "raises_only provider_exception (env_args env ns)"
  by (simp add: env_args_def raises_only_def Let_def split: option.split)

lemma load_config_raises: "raises_only provider_exception (load_llm_config env)"
  unfolding load_llm_config_def Let_def
  by (intro raises_only_rbind env_float_raises env_args_raises) (simp add: raises_only_def)

lemma post_json_raises: "raises_only provider_exception (post_json http url body k t)"
  by (simp add: post_json_def raises_only_def split: http_result.split sum.split json_error.split pyval.split)

lemma chat_raises: "raises_only provider_exception (call_openai_compatible_chat http pm c)"
  unfolding call_openai_compatible_chat_def
  by (intro raises_only_rbind post_json_raises) (simp add: raises_only_def split: option.split pyval.split)

lemma codex_raises: "raises_only provider_exception (call_codex_cli env dir cli general pm c)"
  unfolding call_codex_cli_def
proof (intro raises_only_rbind)
  show "raises_only provider_exception (codex_exec_command c)"
    by (simp add: codex_exec_command_def raises_only_def split: option.split)
qed (simp add: raises_only_def split: cli_result.split)

lemma call_raises: "raises_only provider_exception (call_qualitative_risk_llm w pm config)"
  unfolding call_qualitative_risk_llm_def
proof (intro raises_only_rbind)
  show "raises_only provider_exception (case config of Some c \<Rightarrow> Inr c | None \<Rightarrow> load_llm_config (w_environ w))"
    using load_config_raises by (cases config) (auto simp: raises_only_def)
  show "raises_only provider_exception
      (if lc_provider c \<in> set DISABLED_PROVIDERS then Inl (ProviderUnavailable ''qualitative LLM provider is disabled'')
       else if lc_provider c \<in> set CODEX_CLI_PROVIDERS then call_codex_cli (w_environ w) (w_tmp_dir w) (w_cli w) (w_general w) pm c
       else if lc_provider c \<notin> set OPENAI_COMPATIBLE_PROVIDERS then
         Inl (ProviderUnavailable (''unsupported qualitative LLM provider: '' @ lc_provider c))
       else if lc_model c = [] then Inl (ProviderUnavailable ''QUALITATIVE_LLM_MODEL or LLM_MODEL must be set'')
       else if lc_api_key c = [] then
         Inl (ProviderUnavailable ''QUALITATIVE_LLM_API_KEY, LLM_API_KEY, or OPENAI_API_KEY must be set'')
       else call_openai_compatible_chat (w_http w) pm c)" for c
    using chat_raises codex_raises by (simp add: raises_only_def)
qed

end
