(* ===== verification/Qualitative.thy ===== *)
theory Qualitative
  imports Heuristics Llm_Client Sha256
begin

text \<open>
  The qualitative assessments of \<open>apps/assets/services.py\<close>: the payload sent to the language model, the cache key, the
  call with its two fallbacks (no provider: the rule book's answer is printed and parsed as if a model had sent it; a
  failing provider or a bad answer: the rule book's answer is stored as it is), the row that keeps the assessment, and the
  worker.

  \<open>world\<close> is the environment of \<open>Llm_Client\<close>.  The target and the override of an asset are looked up in the database.  The
  time of generation, which the framework sets, is left out.
\<close>

section \<open>What the model is told\<close>

definition qualitative_asset_payload :: "asset \<Rightarrow> target option \<Rightarrow> pyval" where
  "qualitative_asset_payload a t =
     PDict [(''id'', PInt (a_id a)), (''snapshot_id'', opt_int (a_snapshot a)), (''bom_ref'', PStr (a_bom_ref a)),
            (''name'', PStr (a_name a)), (''asset_class'', PStr (a_class a)), (''asset_type'', PStr (a_type a)),
            (''algorithm'', PStr (a_algorithm a)), (''algorithm_family'', PStr (a_family a)),
            (''target_label'', opt_str (target_label t)), (''metadata'', PDict (a_metadata a))]"

text \<open>\<open>base\<close> is the rounded score: the stored one, or the one of the rule book.\<close>

definition qualitative_risk_payload :: "risk_score option \<Rightarrow> int \<Rightarrow> pyval" where
  "qualitative_risk_payload rs base =
     (case rs of
        Some r \<Rightarrow> PDict [(''score'', PInt base), (''tier'', PStr (rs_tier r)), (''factors'', PDict (rs_factors r)),
                        (''source'', PStr ''risk_score'')]
      | None \<Rightarrow> PDict [(''score'', PInt base), (''tier'', PNone), (''factors'', PDict []), (''source'', PStr ''heuristic'')])"

definition connected_service :: "target option \<Rightarrow> pyval" where
  "connected_service t =
     (case t of None \<Rightarrow> PNone
      | Some x \<Rightarrow> PDict [(''label'', PStr (label_of x)), (''display_name'', opt_str (tg_display_name x)), (''host'', PStr (tg_host x)),
                        (''ip'', opt_str (tg_ip x)), (''port'', PInt (tg_port x)), (''transport'', PStr (tg_transport x)),
                        (''protocol_hint'', PStr (tg_protocol_hint x)), (''sni'', opt_str (tg_sni x))])"

definition sourced :: "string \<Rightarrow> pyval \<Rightarrow> string dict \<Rightarrow> string \<Rightarrow> pyval" where
  "sourced name v sources field = PDict [(name, v), (''source'', PStr (dget_or sources field ''heuristic''))]"

definition qualitative_operational_context :: "asset \<Rightarrow> target option \<Rightarrow> pyval dict \<Rightarrow> string dict \<Rightarrow> pyval" where
  "qualitative_operational_context a t context sources =
     (let m = a_metadata a
      in PDict [(''connected_service'', connected_service t), (''file_paths'', strings (metadata_paths m)),
                (''source_scanners'', PList (metadata_list (py_or (pget m ''source_scanners'') (pget m ''scanner'')))),
                (''data_classification'', sourced ''level'' (py_or (pget context ''sensitivity'') (PStr ''unknown'')) sources ''sensitivity''),
                (''communication_scope'', sourced ''exposure'' (py_or (pget context ''exposure'') (PStr ''unknown'')) sources ''exposure''),
                (''service_role'', sourced ''value''
                   (py_or (py_or (pget context ''service_role'') (opt_str (protocol_of t))) (PStr (a_type a))) sources ''service_role'')])"

section \<open>The score behind an assessment\<close>

text \<open>\<open>asset.risk_scores.order_by("-id").first()\<close>.\<close>

definition latest_risk :: "int \<Rightarrow> db \<Rightarrow> risk_score option" where
  "latest_risk i d = (case rev (sort_key rs_id (filter (\<lambda>s. rs_asset s = i) (db_risk_scores d))) of [] \<Rightarrow> None | s # _ \<Rightarrow> Some s)"

definition dependency_count :: "asset \<Rightarrow> db \<Rightarrow> int" where
  "dependency_count a d =
     (if a_id a = 0 then 0
      else int (length (filter (\<lambda>e. dp_source e = a_id a) (db_dependencies d))) +
           int (length (filter (\<lambda>e. dp_target e = a_id a) (db_dependencies d))))"

definition score_for :: "risk_score option \<Rightarrow> asset \<Rightarrow> ctx \<Rightarrow> pyfloat" where
  "score_for rs a c = (case rs of Some r \<Rightarrow> rs_score r | None \<Rightarrow> Fin (of_int (heuristic_qualitative_score a c)))"

section \<open>The provider and the cache\<close>

definition QUALITATIVE_PROVIDER :: string where
  "QUALITATIVE_PROVIDER = ''mock-rulebook''"

definition QUALITATIVE_FALLBACK_PROVIDER :: string where
  "QUALITATIVE_FALLBACK_PROVIDER = ''mock-rulebook-fallback''"

definition QUALITATIVE_PROMPT_METADATA_KEYS :: "string list" where
  "QUALITATIVE_PROMPT_METADATA_KEYS = [''llm_cache'', ''llm_fallback'', ''llm_provider'']"

definition text_or_none :: "string \<Rightarrow> pyval" where
  "text_or_none s = (if s = [] then PNone else PStr s)"

definition provider_cache_identity :: "environ \<Rightarrow> pyval" where
  "provider_cache_identity env =
     (case load_llm_config env of
        Inl e \<Rightarrow> PDict [(''provider'', PStr QUALITATIVE_PROVIDER), (''model'', PNone), (''config_error'', PStr ''LlmProviderUnavailable'')]
      | Inr c \<Rightarrow>
          if lc_provider c \<in> set DISABLED_PROVIDERS then PDict [(''provider'', PStr QUALITATIVE_PROVIDER), (''model'', PNone)]
          else if lc_provider c \<in> set CODEX_CLI_PROVIDERS then
            PDict [(''provider'', PStr (lc_provider c)), (''model'', text_or_none (lc_model c)),
                   (''cli_command'', PStr (lc_cli_command c)), (''cli_extra_args'', strings (lc_cli_args c))]
          else PDict [(''provider'', PStr (lc_provider c)), (''model'', text_or_none (lc_model c)), (''base_url'', PStr (lc_base_url c))])"

definition prompt_cache_key :: "pyval \<Rightarrow> string" where
  "prompt_cache_key payload = hexdigest (json_dumps '','' '':'' (sort_keys payload))"

definition cache_key :: "prompt \<Rightarrow> pyval \<Rightarrow> string" where
  "cache_key pm identity = prompt_cache_key (PDict [(''prompt'', pm_payload pm), (''llm_provider'', identity)])"

definition qualitative_cache_hit :: "assessment option \<Rightarrow> prompt \<Rightarrow> string \<Rightarrow> pyval \<Rightarrow> py_error + bool" where
  "qualitative_cache_hit q pm key identity =
     (case q of None \<Rightarrow> Inr False
      | Some x \<Rightarrow>
          if qa_prompt_version x \<noteq> pm_version pm then Inr False
          else rbind (as_dict (py_or (pget (qa_prompt_payload x) ''llm_cache'') (PDict []))) (\<lambda>metadata.
            if \<not> py_eq (pget metadata ''provider'') identity then Inr False
            else if py_eq (pget metadata ''key'') (PStr key) then Inr True
            else Inr (py_eq (PDict (filter (\<lambda>(k, v). k \<notin> set QUALITATIVE_PROMPT_METADATA_KEYS) (qa_prompt_payload x))) (pm_payload pm))))"

section \<open>The answer\<close>

text \<open>\<open>provider_metadata\<close>: the provider, the model and the usage.\<close>

definition mock_metadata :: "pyval dict" where
  "mock_metadata = [(''provider'', PStr QUALITATIVE_PROVIDER), (''model'', PNone), (''usage'', PDict [])]"

definition completion_metadata :: "completion \<Rightarrow> pyval dict" where
  "completion_metadata cp = [(''provider'', PStr (cp_provider cp)), (''model'', PStr (cp_model cp)), (''usage'', PDict (cp_usage cp))]"

definition mock_qualitative_llm_response :: "Risk_Prompts.response \<Rightarrow> string" where
  "mock_qualitative_llm_response r =
     ''Mock qualitative assessment:'' @ nl @ ''```json'' @ nl @ dumps (sort_keys (response_payload r)) @ nl @ ''```''"

definition qualitative_llm_response :: "world \<Rightarrow> prompt \<Rightarrow> Risk_Prompts.response \<Rightarrow> py_error + string \<times> string \<times> pyval dict" where
  "qualitative_llm_response w pm fallback =
     (case call_qualitative_risk_llm w pm None of
        Inl (ProviderUnavailable m) \<Rightarrow> Inr (mock_qualitative_llm_response fallback, QUALITATIVE_PROVIDER, mock_metadata)
      | Inl e \<Rightarrow> Inl e
      | Inr cp \<Rightarrow> Inr (cp_content cp, cp_provider cp, completion_metadata cp))"

text \<open>The exceptions that fall back to the rule book, with the names of their classes.\<close>

fun fallback_reason :: "py_error \<Rightarrow> string option" where
  "fallback_reason (ParseError m) = Some ''QualitativeRiskResponseParseError''"
| "fallback_reason (ProviderError m) = Some ''LlmProviderError''"
| "fallback_reason e = None"

record draft =
  dr_provider :: string
  dr_version :: string
  dr_payload :: "pyval dict"
  dr_response :: Risk_Prompts.response

definition fallback_metadata :: "string option \<Rightarrow> pyval" where
  "fallback_metadata reason = PDict [(''used'', PBool (reason \<noteq> None)), (''reason'', opt_str reason)]"

text \<open>The provider, the metadata, the reason of a fallback and the answer.\<close>

definition settled_answer ::
  "world \<Rightarrow> prompt \<Rightarrow> Risk_Prompts.response \<Rightarrow> py_error + string \<times> pyval dict \<times> string option \<times> Risk_Prompts.response" where
  "settled_answer w pm fallback =
     (case qualitative_llm_response w pm fallback of
        Inl e \<Rightarrow>
          (case fallback_reason e of None \<Rightarrow> Inl e
           | Some r \<Rightarrow> Inr (QUALITATIVE_FALLBACK_PROVIDER, mock_metadata, Some r, fallback))
      | Inr (raw, provider, metadata) \<Rightarrow>
          (case parse_qualitative_risk_response raw of
             Inr answer \<Rightarrow> Inr (provider, metadata, None, answer)
           | Inl e \<Rightarrow>
               (case fallback_reason e of None \<Rightarrow> Inl e
                | Some r \<Rightarrow> Inr (QUALITATIVE_FALLBACK_PROVIDER, metadata, Some r, fallback))))"

definition payload_items :: "pyval \<Rightarrow> pyval dict" where
  "payload_items v = (case v of PDict d \<Rightarrow> d | _ \<Rightarrow> [])"

definition assessment_draft ::
  "prompt \<Rightarrow> pyval \<Rightarrow> string \<times> pyval dict \<times> string option \<times> Risk_Prompts.response \<Rightarrow> draft" where
  "assessment_draft pm identity settled =
     (case settled of (provider, metadata, reason, answer) \<Rightarrow>
        \<lparr>dr_provider = provider, dr_version = pm_version pm,
         dr_payload = dmerge (payload_items (pm_payload pm))
           [(''llm_cache'', PDict [(''key'', PStr (cache_key pm identity)), (''provider'', identity)]),
            (''llm_fallback'', fallback_metadata reason), (''llm_provider'', PDict metadata)],
         dr_response = answer\<rparr>)"

text \<open>The prompt for an asset, and the rule book's answer for it.  Rounding a stored score that is no number raises.\<close>

definition assessment_prompt :: "asset \<Rightarrow> db \<Rightarrow> py_error + prompt" where
  "assessment_prompt a d =
     (let ov = asset_override d a; t = asset_target d a; context = effective_context d a ov;
          sources = context_sources d a ov; rs = latest_risk (a_id a) d
      in rbind (fround_int (score_for rs a (read_context context))) (\<lambda>base.
           Inr (build_qualitative_risk_prompt (qualitative_asset_payload a t) (PDict context)
             (PDict (map (\<lambda>(k, s). (k, PStr s)) sources)) (qualitative_operational_context a t context sources)
             (qualitative_risk_payload rs base))))"

definition rule_book_answer :: "asset \<Rightarrow> db \<Rightarrow> py_error + Risk_Prompts.response" where
  "rule_book_answer a d =
     (let c = read_context (effective_context d a (asset_override d a)); rs = latest_risk (a_id a) d
      in rbind (fround_int (score_for rs a c)) (\<lambda>base.
           Inr (heuristic_qualitative_response a (asset_target d a) c (dependency_count a d) (rs \<noteq> None) (score_for rs a c) base)))"

text \<open>\<open>generate_qualitative_assessment\<close>: nothing when the cached assessment still stands.\<close>

definition generate_qualitative_assessment :: "world \<Rightarrow> asset \<Rightarrow> assessment option \<Rightarrow> db \<Rightarrow> py_error + draft option" where
  "generate_qualitative_assessment w a cached d =
     rbind (assessment_prompt a d) (\<lambda>pm.
       let identity = provider_cache_identity (w_environ w)
       in rbind (qualitative_cache_hit cached pm (cache_key pm identity) identity) (\<lambda>hit.
         if hit then Inr None
         else rbind (rule_book_answer a d) (\<lambda>fallback.
                rmap (\<lambda>s. Some (assessment_draft pm identity s)) (settled_answer w pm fallback))))"

section \<open>The row\<close>

text \<open>The confidence column is a float.\<close>

definition float_column :: "pyval \<Rightarrow> pyfloat" where
  "float_column v = (case py_float v of Inr x \<Rightarrow> x | Inl e \<Rightarrow> NaN)"

definition assessment_row :: "int \<Rightarrow> int \<Rightarrow> draft \<Rightarrow> assessment" where
  "assessment_row i asset dr =
     \<lparr>qa_id = i, qa_asset = asset, qa_provider = dr_provider dr, qa_prompt_version = dr_version dr, qa_prompt_payload = dr_payload dr,
      qa_summary = qr_summary (dr_response dr), qa_threat_scenarios = qr_threat_scenarios (dr_response dr),
      qa_recommendation = qr_recommendation (dr_response dr), qa_dhs_criteria = qr_criteria (dr_response dr),
      qa_confidence = float_column (qr_confidence (dr_response dr))\<rparr>"

definition assessment_of :: "db \<Rightarrow> int \<Rightarrow> assessment option" where
  "assessment_of d asset = find_row qa_asset asset (db_assessments d)"

text \<open>\<open>update_or_create\<close> on the asset.\<close>

definition store_assessment :: "int \<Rightarrow> draft \<Rightarrow> db \<Rightarrow> assessment \<times> db" where
  "store_assessment asset dr d =
     (case assessment_of d asset of
        Some q \<Rightarrow> (let row = assessment_row (qa_id q) asset dr in (row, d\<lparr>db_assessments := put_row qa_asset row (db_assessments d)\<rparr>))
      | None \<Rightarrow> (let row = assessment_row (next_id qa_id (db_assessments d)) asset dr
                in (row, d\<lparr>db_assessments := add_row row (db_assessments d)\<rparr>)))"

definition refresh_asset_assessment :: "world \<Rightarrow> asset \<Rightarrow> db \<Rightarrow> py_error + assessment option \<times> db" where
  "refresh_asset_assessment w a d =
     rbind (generate_qualitative_assessment w a (assessment_of d (a_id a)) d) (\<lambda>made.
       case made of None \<Rightarrow> Inr (assessment_of d (a_id a), d)
       | Some dr \<Rightarrow> Inr (case store_assessment (a_id a) dr d of (row, d') \<Rightarrow> (Some row, d')))"

definition refresh_qualitative_assessment :: "world \<Rightarrow> int \<Rightarrow> db \<Rightarrow> py_error + assessment option \<times> db" where
  "refresh_qualitative_assessment w i d = rbind (get_row a_id i (db_assets d)) (\<lambda>a. refresh_asset_assessment w a d)"

section \<open>The worker\<close>

definition QUALITATIVE_TASK_NAME :: string where
  "QUALITATIVE_TASK_NAME = ''qualitative_assessment''"

definition enqueue_qualitative_assessment :: "int \<Rightarrow> int \<Rightarrow> db \<Rightarrow> db" where
  "enqueue_qualitative_assessment asset now d = enqueue_task QUALITATIVE_TASK_NAME [(''asset_id'', PInt asset)] None now d"

definition claim_qualitative_task :: "int \<Rightarrow> int \<Rightarrow> db \<Rightarrow> py_error + pyval dict option \<times> db" where
  "claim_qualitative_task i now d =
     rbind (lock_task i now d) (\<lambda>lock. Inr (case lock of None \<Rightarrow> (None, d) | Some t \<Rightarrow> (Some (t_payload t), set_task t d)))"

definition run_qualitative_payload :: "world \<Rightarrow> pyval dict \<Rightarrow> db \<Rightarrow> db \<times> (py_error + pyval dict)" where
  "run_qualitative_payload w payload d =
     (case rbind (case dget payload ''asset_id'' of None \<Rightarrow> Inl (KeyError ''asset_id'') | Some v \<Rightarrow> py_int v) (\<lambda>i.
             rmap (\<lambda>r. (i, r)) (refresh_qualitative_assessment w i d)) of
        Inl e \<Rightarrow> (d, Inl e)
      | Inr (i, Some q, d') \<Rightarrow> (d', Inr [(''asset_id'', PInt i), (''assessment_id'', PInt (qa_id q)), (''provider'', PStr (qa_provider q))])
      | Inr (i, None, d') \<Rightarrow> (d', Inl (AttributeError ''id'')))"

definition complete_qualitative_task :: "int \<Rightarrow> int \<Rightarrow> pyval dict \<Rightarrow> db \<Rightarrow> py_error + pyval dict \<times> db" where
  "complete_qualitative_task i now result d =
     rbind (get_row t_id i (db_tasks d)) (\<lambda>t. Inr (result, set_task (t\<lparr>t_status := T_COMPLETED, t_last_error := None\<rparr>) d))"

definition fail_qualitative_task :: "int \<Rightarrow> int \<Rightarrow> py_error \<Rightarrow> db \<Rightarrow> py_error + db" where
  "fail_qualitative_task i now exc d =
     rbind (get_row t_id i (db_tasks d)) (\<lambda>t. Inr (set_task (t\<lparr>t_status := T_FAILED, t_last_error := Some (exc_str exc)\<rparr>) d))"

definition process_qualitative_assessment_task :: "world \<Rightarrow> int \<Rightarrow> int \<Rightarrow> db \<Rightarrow> db \<times> (py_error + pyval dict)" where
  "process_qualitative_assessment_task w i now d =
     run_worker claim_qualitative_task (run_qualitative_payload w) complete_qualitative_task fail_qualitative_task i now d"

definition process_next_qualitative_assessment_task :: "world \<Rightarrow> int \<Rightarrow> db \<Rightarrow> db \<times> (py_error + pyval dict option)" where
  "process_next_qualitative_assessment_task w now d =
     (case next_task QUALITATIVE_TASK_NAME now d of None \<Rightarrow> (d, Inr None)
      | Some t \<Rightarrow> (case process_qualitative_assessment_task w (t_id t) now d of (d', r) \<Rightarrow> (d', rmap Some r)))"

text \<open>\<open>serialize_qualitative\<close>, with the time of generation as an argument.\<close>

definition serialize_qualitative :: "assessment \<Rightarrow> int option \<Rightarrow> py_error + pyval" where
  "serialize_qualitative q generated =
     rmap (\<lambda>risk. PDict
       [(''provider'', PStr (qa_provider q)), (''prompt_version'', PStr (qa_prompt_version q)), (''summary'', PStr (qa_summary q)),
        (''threat_scenarios'', strings (qa_threat_scenarios q)), (''migration_recommendation'', PStr (qa_recommendation q)),
        (''dhs_criteria'', PDict (qa_dhs_criteria q)), (''dhs_risk'', PDict (dhs_to_dict risk)),
        (''confidence'', PFloat (qa_confidence q)), (''generated_at'', dt generated)])
       (compute_dhs_risk (Some (qa_dhs_criteria q)))"


section \<open>The outcome of the call\<close>

text \<open>The exceptions that reach the caller: an integer or a float the conversions refuse.\<close>

fun escapes :: "py_error \<Rightarrow> bool" where
  "escapes (OverflowError m) = True"
| "escapes (ValueError m) = True"
| "escapes (RuntimeError m) = True"
| "escapes e = False"

lemma answer_error_escapes: "answer_error e \<Longrightarrow> fallback_reason e = None \<Longrightarrow> escapes e"
  by (cases e) auto

lemma call_error_escapes: "provider_exception e \<Longrightarrow> fallback_reason e = None \<Longrightarrow> \<forall>m. e \<noteq> ProviderUnavailable m \<Longrightarrow> escapes e"
  by (cases e) auto

definition settled_ok :: "Risk_Prompts.response \<Rightarrow> py_error + string \<times> pyval dict \<times> string option \<times> Risk_Prompts.response \<Rightarrow> bool" where
  "settled_ok fallback s =
     (case s of Inl e \<Rightarrow> escapes e
      | Inr (provider, metadata, reason, answer) \<Rightarrow>
          if reason = None then response_ok answer else provider = QUALITATIVE_FALLBACK_PROVIDER \<and> answer = fallback)"

lemma settled_answer_ok: "settled_ok fallback (settled_answer w pm fallback)"
proof -
  have parsed: "settled_ok fallback
      (case parse_qualitative_risk_response raw of
         Inr answer \<Rightarrow> Inr (provider, metadata, None, answer)
       | Inl e \<Rightarrow> (case fallback_reason e of None \<Rightarrow> Inl e
                  | Some r \<Rightarrow> Inr (QUALITATIVE_FALLBACK_PROVIDER, metadata, Some r, fallback)))" for raw provider metadata
    using parse_raises [of raw] parse_response_ok [of raw]
    by (cases "parse_qualitative_risk_response raw") (auto simp: settled_ok_def answer_error_escapes split: option.splits)
  show ?thesis
  proof (cases "call_qualitative_risk_llm w pm None")
    case (Inl e)
    have "provider_exception e" using call_raises [of w pm None] by (simp add: Inl)
    then show ?thesis
      using parsed Inl by (cases e) (simp_all add: settled_answer_def qualitative_llm_response_def settled_ok_def)
  next
    case (Inr cp)
    then show ?thesis using parsed by (simp add: settled_answer_def qualitative_llm_response_def)
  qed
qed

text \<open>Whatever the model does, the call ends in one of three ways: an answer that has the type of an accepted answer, the
  rule book's answer under the name of the fallback provider, or one of the exceptions no handler names.\<close>

theorem settled_answer_outcome:
  "case settled_answer w pm fallback of
     Inl e \<Rightarrow> escapes e
   | Inr (provider, metadata, reason, answer) \<Rightarrow>
       if reason = None then response_ok answer else provider = QUALITATIVE_FALLBACK_PROVIDER \<and> answer = fallback"
  using settled_answer_ok [of fallback w pm] unfolding settled_ok_def .

section \<open>Without a provider\<close>

lemma mock_parsed:
  assumes "response_drafted r" and "lifespan_plain (qr_criteria r)"
  shows "parse_qualitative_risk_response (mock_qualitative_llm_response r) = Inr (canonical_response r)"
proof -
  have "CHR ''{'' \<notin> set (''Mock qualitative assessment:'' @ nl @ ''```json'' @ nl)" by (simp add: nl_def)
  then show ?thesis
    using parse_printed [OF assms, of "''Mock qualitative assessment:'' @ nl @ ''```json'' @ nl" "nl @ ''```''"]
    unfolding mock_qualitative_llm_response_def append_assoc by blast
qed

text \<open>Without a provider the rule book's answer is printed, sent through the parser and accepted: it comes back as it is (its
  texts stripped), under the name of the mock provider, and the fallback is never used.\<close>

theorem mock_answer_accepted:
  assumes "context_ok c" and "call_qualitative_risk_llm w pm None = Inl (ProviderUnavailable m)"
  shows "settled_answer w pm (heuristic_qualitative_response a t c deps scored score base)
    = Inr (QUALITATIVE_PROVIDER, mock_metadata, None, canonical_response (heuristic_qualitative_response a t c deps scored score base))"
  using mock_parsed [OF heuristic_drafted [OF assms(1)]] assms(2) by (simp add: settled_answer_def qualitative_llm_response_def)

definition sample_world :: world where
  "sample_world = \<lparr>w_environ = [], w_http = (\<lambda>url body key t. Http_failed ''refused''), w_tmp_dir = ''/tmp/q'',
     w_cli = (\<lambda>env argv input t. Cli_missing), w_general = (\<lambda>t. ''30'')\<rparr>"

definition sample_ctx :: ctx where
  "sample_ctx = \<lparr>cx_sensitivity = Some ''high'', cx_lifespan = Some 12, cx_criticality = None, cx_exposure = Some ''dmz'', cx_role = None\<rparr>"

lemma sample_unavailable: "call_qualitative_risk_llm sample_world pm None = Inl (ProviderUnavailable ''qualitative LLM provider is disabled'')"
proof -
  have "rmap lc_provider (load_llm_config (w_environ sample_world)) = Inr ''mock-rulebook''" by code_simp
  then obtain c where "load_llm_config (w_environ sample_world) = Inr c" "lc_provider c = ''mock-rulebook''"
    by (cases "load_llm_config (w_environ sample_world)") (simp_all add: rmap_def)
  then show ?thesis by (simp add: call_qualitative_risk_llm_def DISABLED_PROVIDERS_def)
qed

definition sample_prompt :: prompt where
  "sample_prompt = build_qualitative_risk_prompt PNone PNone PNone PNone PNone"

lemma sample_ctx_ok: "context_ok sample_ctx"
  by code_simp

theorem mock_answer_accepted_witness:
  "\<exists>r. settled_answer sample_world sample_prompt (heuristic_qualitative_response (plain_asset 3 ''RSA-2048'') None sample_ctx 2 False (Fin 70) 70)
     = Inr (QUALITATIVE_PROVIDER, mock_metadata, None, r)"
  using mock_answer_accepted [OF sample_ctx_ok sample_unavailable] by blast


section \<open>The stored assessments\<close>

text \<open>What every stored assessment satisfies: texts that are not blank, six typed criteria and a confidence between 0 and 1; so
  the priority engine scores it.\<close>

definition assessment_ok :: "assessment \<Rightarrow> bool" where
  "assessment_ok q =
     (has_text (PStr (qa_summary q)) \<and> has_texts (strings (qa_threat_scenarios q)) \<and> has_text (PStr (qa_recommendation q)) \<and>
      criteria_drafted (qa_dhs_criteria q) \<and> in_range 0 1 (qa_confidence q))"

definition contexts_ok :: "db \<Rightarrow> bool" where
  "contexts_ok d = list_all (\<lambda>a. context_ok (read_context (effective_context d a (asset_override d a)))) (db_assets d)"

lemma float_column_ok: "score_ok v \<Longrightarrow> in_range 0 1 (float_column v)"
  using int_to_float_small [of 0] int_to_float_small [of 1] by (cases v) (auto simp: float_column_def)

lemma assessment_row_ok: "response_drafted (dr_response dr) \<Longrightarrow> assessment_ok (assessment_row i a dr)"
  by (simp add: assessment_row_def assessment_ok_def response_drafted_def float_column_ok del: has_text.simps has_texts.simps)

lemma rule_book_drafted:
  assumes "rule_book_answer a d = Inr r" and "context_ok (read_context (effective_context d a (asset_override d a)))"
  shows "response_drafted r"
  using assms heuristic_drafted(1) by (auto simp: rule_book_answer_def Let_def rbind_Inr_iff)

lemma settled_drafted: "settled_answer w pm fallback = Inr (p, m, reason, r) \<Longrightarrow> response_drafted fallback \<Longrightarrow> response_drafted r"
  using settled_answer_ok [of fallback w pm] by (auto simp: settled_ok_def ok_drafted split: if_splits)

lemma generated_drafted:
  assumes "generate_qualitative_assessment w a q d = Inr (Some dr)"
    and "context_ok (read_context (effective_context d a (asset_override d a)))"
  shows "response_drafted (dr_response dr)"
  using assms rule_book_drafted [OF _ assms(2)]
  by (auto simp: generate_qualitative_assessment_def Let_def rbind_Inr_iff rmap_def assessment_draft_def
      dest: settled_drafted split: if_splits)

lemma refresh_asset_ok:
  assumes "list_all assessment_ok (db_assessments d)" and "context_ok (read_context (effective_context d a (asset_override d a)))"
    and "refresh_asset_assessment w a d = Inr (q, d')"
  shows "list_all assessment_ok (db_assessments d')"
proof -
  obtain made where g: "generate_qualitative_assessment w a (assessment_of d (a_id a)) d = Inr made"
    using assms(3) by (auto simp: refresh_asset_assessment_def rbind_Inr_iff)
  show ?thesis
  proof (cases made)
    case None
    then show ?thesis using assms(1,3) g by (simp add: refresh_asset_assessment_def)
  next
    case (Some dr)
    have ok: "assessment_ok (assessment_row i (a_id a) dr)" for i
      using assessment_row_ok generated_drafted g assms(2) Some by blast
    then show ?thesis
      using assms(1,3) g Some
      by (auto simp: refresh_asset_assessment_def store_assessment_def Let_def list_all_put_row add_row_def split: option.splits)
  qed
qed

lemma contexts_okD: "contexts_ok d \<Longrightarrow> find_row a_id i (db_assets d) = Some a \<Longrightarrow>
    context_ok (read_context (effective_context d a (asset_override d a)))"
  by (auto simp: contexts_ok_def list_all_iff dest: find_row_Some)

lemma refresh_ok:
  assumes "list_all assessment_ok (db_assessments d)" and "contexts_ok d" and "refresh_qualitative_assessment w i d = Inr (q, d')"
  shows "list_all assessment_ok (db_assessments d')"
proof -
  obtain a where "find_row a_id i (db_assets d) = Some a" "refresh_asset_assessment w a d = Inr (q, d')"
    using assms(3) by (auto simp: refresh_qualitative_assessment_def rbind_Inr_iff res_simps)
  then show ?thesis using refresh_asset_ok [OF assms(1)] contexts_okD [OF assms(2)] by blast
qed

text \<open>The rows with a key, in a table in which the key is unique.\<close>

lemma rows_with_key:
  "distinct (map key rows) \<Longrightarrow>
     filter (\<lambda>x. key x = k) rows = (case find_row key k rows of None \<Rightarrow> [] | Some r \<Rightarrow> [r])"
  by (induction rows) (auto simp: find_row_Cons find_row_None filter_empty_conv split: option.splits dest!: find_row_Some intro: rev_image_eqI)

lemma rows_of_put_row:
  "filter (\<lambda>x. key x = key r) (put_row key r rows) = map (\<lambda>x. r) (filter (\<lambda>x. key x = key r) rows)"
  "filter (\<lambda>x. key x \<noteq> key r) (put_row key r rows) = filter (\<lambda>x. key x \<noteq> key r) rows"
  by (induction rows) (auto simp: put_row_def)

definition one_assessment :: "int \<Rightarrow> assessment option \<Rightarrow> db \<Rightarrow> db \<Rightarrow> bool" where
  "one_assessment i q d d' \<longleftrightarrow> d' = d\<lparr>db_assessments := db_assessments d'\<rparr>
     \<and> distinct (map qa_asset (db_assessments d'))
     \<and> filter (\<lambda>x. qa_asset x = i) (db_assessments d') = (case q of None \<Rightarrow> [] | Some r \<Rightarrow> [r])
     \<and> filter (\<lambda>x. qa_asset x \<noteq> i) (db_assessments d') = filter (\<lambda>x. qa_asset x \<noteq> i) (db_assessments d)"

lemma store_assessment_one:
  assumes "distinct (map qa_asset (db_assessments d))"
  shows "one_assessment i (Some (fst (store_assessment i dr d))) d (snd (store_assessment i dr d))"
proof (cases "assessment_of d i")
  case None
  let ?r = "assessment_row (next_id qa_id (db_assessments d)) i dr"
  have n: "\<forall>x\<in>set (db_assessments d). qa_asset x \<noteq> i" using None by (auto simp: assessment_of_def find_row_None)
  have r: "qa_asset ?r = i" by (simp add: assessment_row_def)
  have "store_assessment i dr d = (?r, d\<lparr>db_assessments := db_assessments d @ [?r]\<rparr>)"
    by (simp add: store_assessment_def None add_row_def Let_def)
  then show ?thesis using n r assms by (auto simp: one_assessment_def filter_empty_conv filter_id_conv)
next
  case (Some q)
  let ?r = "assessment_row (qa_id q) i dr"
  have r: "qa_asset ?r = i" by (simp add: assessment_row_def)
  have old: "filter (\<lambda>x. qa_asset x = i) (db_assessments d) = [q]"
    using rows_with_key [OF assms, of i] Some by (simp add: assessment_of_def)
  have st: "store_assessment i dr d = (?r, d\<lparr>db_assessments := put_row qa_asset ?r (db_assessments d)\<rparr>)"
    by (simp add: store_assessment_def Some Let_def)
  show ?thesis unfolding st one_assessment_def
    using rows_of_put_row [of qa_asset ?r "db_assessments d"] assms by (simp add: r old)
qed

lemma refresh_one:
  assumes "distinct (map qa_asset (db_assessments d))" and "refresh_qualitative_assessment w i d = Inr (q, d')"
  shows "one_assessment i q d d'"
proof -
  obtain a where a: "find_row a_id i (db_assets d) = Some a" "refresh_asset_assessment w a d = Inr (q, d')"
    using assms(2) by (auto simp: refresh_qualitative_assessment_def rbind_Inr_iff res_simps)
  then have i: "a_id a = i" by (auto dest: find_row_Some)
  obtain made where m: "(case made of None \<Rightarrow> Inr (assessment_of d i, d)
       | Some dr \<Rightarrow> Inr (case store_assessment i dr d of (row, d') \<Rightarrow> (Some row, d'))) = (Inr (q, d') :: py_error + assessment option \<times> db)"
    using a(2) unfolding refresh_asset_assessment_def rbind_Inr_iff i by blast
  show ?thesis
  proof (cases made)
    case None
    then show ?thesis using m rows_with_key [OF assms(1), of i] assms(1)
      by (auto simp: one_assessment_def assessment_of_def)
  next
    case (Some dr)
    then show ?thesis using m store_assessment_one [OF assms(1), of i dr] by (simp add: case_prod_beta)
  qed
qed

text \<open>C23. Whatever the language model answers, refreshing an assessment keeps the table sound.  Every stored assessment has its
  texts, six typed criteria, a confidence between 0 and 1, and is scored by the priority engine without a missing
  criterion; no asset has two; the assessment returned is the one row of the asset (none when nothing is returned), and
  neither the rows of the other assets nor another table change.\<close>

theorem refresh_keeps_assessments:
  assumes "list_all assessment_ok (db_assessments d)" and "contexts_ok d" and "distinct (map qa_asset (db_assessments d))"
    and "refresh_qualitative_assessment w i d = Inr (q, d')"
  shows "list_all assessment_ok (db_assessments d') \<and>
    list_all (\<lambda>x. \<exists>r. compute_dhs_risk (Some (qa_dhs_criteria x)) = Inr r \<and> dhs_missing r = []) (db_assessments d') \<and>
    one_assessment i q d d'"
proof -
  have a: "list_all assessment_ok (db_assessments d')" by (rule refresh_ok [OF assms(1,2,4)])
  have "assessment_ok x \<Longrightarrow> \<exists>r. compute_dhs_risk (Some (qa_dhs_criteria x)) = Inr r \<and> dhs_missing r = []" for x
    by (rule typed_criteria_scored [of has_text has_texts]) (simp add: assessment_ok_def criteria_drafted_def)
  with a refresh_one [OF assms(3,4)] show ?thesis
    by (auto simp: list_all_iff)
qed


definition sample_assessment_db :: db where
  "sample_assessment_db = empty_db\<lparr>db_assets := [plain_asset 3 ''RSA-2048'']\<rparr>"

lemma sample_assessment_contexts: "contexts_ok sample_assessment_db"
  by code_simp

lemma unscored_asset:
  assumes "latest_risk (a_id a) d = None"
  shows "\<exists>pm. assessment_prompt a d = Inr pm" and "\<exists>r. rule_book_answer a d = Inr r"
  using assms by (simp_all add: assessment_prompt_def rule_book_answer_def Let_def score_for_def)

text \<open>The first assessment of an asset without a provider: it is made and stored.\<close>

lemma sample_refresh:
  "\<exists>q d'. refresh_qualitative_assessment sample_world 3 sample_assessment_db = Inr (Some q, d') \<and> db_assessments d' = [q]"
proof -
  let ?a = "plain_asset 3 ''RSA-2048''" and ?d = sample_assessment_db
  have a: "find_row a_id 3 (db_assets ?d) = Some ?a" by (simp add: sample_assessment_db_def find_row_Cons)
  have none: "assessment_of ?d (a_id ?a) = None" "db_assessments ?d = []"
    by (simp_all add: assessment_of_def sample_assessment_db_def empty_db_def)
  have risk: "latest_risk (a_id ?a) ?d = None" by code_simp
  obtain pm r where pm: "assessment_prompt ?a ?d = Inr pm" and r: "rule_book_answer ?a ?d = Inr r"
    using unscored_asset [OF risk] by blast
  have "response_drafted r" "lifespan_plain (qr_criteria r)"
    using r heuristic_drafted contexts_okD [OF sample_assessment_contexts a]
    by (auto simp: rule_book_answer_def Let_def rbind_Inr_iff)
  then obtain s where "settled_answer sample_world pm r = Inr s"
    using mock_parsed [of r] sample_unavailable by (simp add: settled_answer_def qualitative_llm_response_def)
  then show ?thesis
    using a none pm r
    by (simp add: refresh_qualitative_assessment_def get_row_def refresh_asset_assessment_def generate_qualitative_assessment_def
        qualitative_cache_hit_def Let_def rmap_def store_assessment_def add_row_def)
qed

theorem refresh_keeps_assessments_witness:
  "\<exists>q d'. refresh_qualitative_assessment sample_world 3 sample_assessment_db = Inr (Some q, d')
     \<and> list_all assessment_ok (db_assessments d') \<and> one_assessment 3 (Some q) sample_assessment_db d'"
proof -
  obtain q d' where q: "refresh_qualitative_assessment sample_world 3 sample_assessment_db = Inr (Some q, d')" "db_assessments d' = [q]"
    using sample_refresh by blast
  have "list_all assessment_ok (db_assessments sample_assessment_db)" "distinct (map qa_asset (db_assessments sample_assessment_db))"
    by code_simp+
  then have "list_all assessment_ok (db_assessments d') \<and> one_assessment 3 (Some q) sample_assessment_db d'"
    using refresh_keeps_assessments [OF _ sample_assessment_contexts _ q(1)] by blast
  with q show ?thesis by auto
qed


section \<open>The cache\<close>

text \<open>Nothing an assessment is made of is in the table of assessments.\<close>

lemma assessment_independent:
  "asset_override (d\<lparr>db_assessments := x\<rparr>) a = asset_override d a"
  "asset_target (d\<lparr>db_assessments := x\<rparr>) a = asset_target d a"
  "latest_risk i (d\<lparr>db_assessments := x\<rparr>) = latest_risk i d"
  "dependency_count a (d\<lparr>db_assessments := x\<rparr>) = dependency_count a d"
  by (simp_all add: asset_override_def asset_target_def latest_risk_def dependency_count_def split: option.split)

lemma assessment_context:
  "target_context (d\<lparr>db_assessments := x\<rparr>) a = target_context d a"
  by (simp add: target_context_def assessment_independent)

lemma assessment_inputs:
  "assessment_prompt a (d\<lparr>db_assessments := x\<rparr>) = assessment_prompt a d"
  "rule_book_answer a (d\<lparr>db_assessments := x\<rparr>) = rule_book_answer a d"
  by (simp_all add: assessment_prompt_def rule_book_answer_def effective_context_def context_sources_def assessment_independent
      assessment_context)

lemma py_eq_strings: "py_eq_list (map PStr xs) (map PStr xs)"
  by (induction xs) simp_all

lemma identity_reflexive: "py_eq (provider_cache_identity env) (provider_cache_identity env)"
  by (cases "load_llm_config env")
    (auto simp: provider_cache_identity_def text_or_none_def strings_def dget_def py_eq_strings)

lemma draft_hits:
  assumes "qa_prompt_version q = pm_version pm" and "qa_prompt_payload q = dr_payload (assessment_draft pm (provider_cache_identity env) s)"
  shows "qualitative_cache_hit (Some q) pm (cache_key pm (provider_cache_identity env)) (provider_cache_identity env) = Inr True"
proof -
  let ?id = "provider_cache_identity env"
  have "pget (qa_prompt_payload q) ''llm_cache'' = PDict [(''key'', PStr (cache_key pm ?id)), (''provider'', ?id)]"
    by (cases s) (simp add: assms(2) assessment_draft_def pget_def dget_or_def map_of_dmerge dwf_def)
  then show ?thesis
    using assms(1) identity_reflexive by (simp add: qualitative_cache_hit_def py_or_def as_dict_def pget_def dget_or_def)
qed


lemma refresh_asset_writes:
  assumes "refresh_asset_assessment w a d = Inr (q, d')"
  shows "\<exists>xs. d' = d\<lparr>db_assessments := xs\<rparr>"
proof -
  obtain made where g: "generate_qualitative_assessment w a (assessment_of d (a_id a)) d = Inr made"
    using assms by (auto simp: refresh_asset_assessment_def rbind_Inr_iff)
  show ?thesis
  proof (cases made)
    case None
    then have "d' = d\<lparr>db_assessments := db_assessments d\<rparr>" using assms g by (auto simp: refresh_asset_assessment_def)
    then show ?thesis by blast
  next
    case (Some dr)
    then have "d' = snd (store_assessment (a_id a) dr d)" using assms g by (auto simp: refresh_asset_assessment_def split: prod.splits)
    then show ?thesis by (auto simp: store_assessment_def Let_def split: option.splits)
  qed
qed

lemma refresh_asset_twice:
  assumes "refresh_asset_assessment w a d = Inr (q, d')" and "w_environ w' = w_environ w"
  shows "refresh_asset_assessment w' a d' = Inr (q, d')"
proof -
  let ?id = "provider_cache_identity (w_environ w)"
  obtain pm made where pm: "assessment_prompt a d = Inr pm"
    and made: "generate_qualitative_assessment w a (assessment_of d (a_id a)) d = Inr made"
    using assms(1) by (auto simp: refresh_asset_assessment_def generate_qualitative_assessment_def rbind_Inr_iff)
  show ?thesis
  proof (cases made)
    case None
    then have "qualitative_cache_hit (assessment_of d (a_id a)) pm (cache_key pm ?id) ?id = Inr True"
      using made pm by (auto simp: generate_qualitative_assessment_def Let_def rbind_Inr_iff rmap_def split: if_splits)
    moreover have "q = assessment_of d (a_id a)" "d' = d" using assms(1) made None by (auto simp: refresh_asset_assessment_def)
    ultimately show ?thesis
      using assms(2) pm by (simp add: refresh_asset_assessment_def generate_qualitative_assessment_def Let_def)
  next
    case (Some dr)
    then obtain s where s: "dr = assessment_draft pm ?id s"
      using made pm by (auto simp: generate_qualitative_assessment_def Let_def rbind_Inr_iff rmap_def split: if_splits)
    obtain row xs i where d': "q = Some row" "d' = d\<lparr>db_assessments := xs\<rparr>" "find_row qa_asset (a_id a) xs = Some row"
        "row = assessment_row i (a_id a) dr"
    proof -
      obtain row where r: "q = Some row" "store_assessment (a_id a) dr d = (row, d')"
        using assms(1) made Some by (auto simp: refresh_asset_assessment_def split: prod.splits)
      show thesis
      proof (cases "assessment_of d (a_id a)")
        case None
        then show thesis
          using r that by (auto simp: store_assessment_def Let_def assessment_of_def find_add assessment_row_def)
      next
        case (Some x)
        have k: "qa_asset (assessment_row (qa_id x) (a_id a) dr) = a_id a" by (simp add: assessment_row_def)
        show thesis
        proof (rule that)
          show "q = Some (assessment_row (qa_id x) (a_id a) dr)" using r Some by (simp add: store_assessment_def Let_def)
          show "d' = d\<lparr>db_assessments := put_row qa_asset (assessment_row (qa_id x) (a_id a) dr) (db_assessments d)\<rparr>"
            using r Some by (auto simp: store_assessment_def Let_def)
          show "find_row qa_asset (a_id a) (put_row qa_asset (assessment_row (qa_id x) (a_id a) dr) (db_assessments d))
              = Some (assessment_row (qa_id x) (a_id a) dr)"
            using Some k by (simp add: find_put assessment_of_def)
        qed (rule refl)
      qed
    qed
    have "qualitative_cache_hit (Some row) pm (cache_key pm ?id) ?id = Inr True"
      by (rule draft_hits [where s = s]) (cases s, simp add: d'(4) s assessment_row_def assessment_draft_def, simp add: d'(4) s assessment_row_def)
    moreover have "assessment_of d' (a_id a) = Some row" using d' by (simp add: assessment_of_def)
    ultimately show ?thesis
      using pm assms(2) d'(1,2)
      by (simp add: refresh_asset_assessment_def generate_qualitative_assessment_def Let_def assessment_inputs)
  qed
qed

text \<open>A refreshed assessment is cached: refreshing it again with the same configuration answers the same row and leaves the
  database as it is, whatever the language model would say now.\<close>

theorem assessment_cached:
  assumes "refresh_qualitative_assessment w i d = Inr (q, d')" and "w_environ w' = w_environ w"
  shows "refresh_qualitative_assessment w' i d' = Inr (q, d')"
proof -
  obtain a where a: "find_row a_id i (db_assets d) = Some a" "refresh_asset_assessment w a d = Inr (q, d')"
    using assms(1) by (auto simp: refresh_qualitative_assessment_def rbind_Inr_iff res_simps)
  have "db_assets d' = db_assets d" using refresh_asset_writes [OF a(2)] by auto
  then show ?thesis using a refresh_asset_twice [OF a(2) assms(2)] by (simp add: refresh_qualitative_assessment_def get_row_def)
qed

definition other_world :: world where
  "other_world = sample_world\<lparr>w_http := (\<lambda>url body key t. Http_error 500 ''down'')\<rparr>"

theorem assessment_cached_witness:
  "\<exists>q d'. refresh_qualitative_assessment sample_world 3 sample_assessment_db = Inr (Some q, d')
     \<and> refresh_qualitative_assessment other_world 3 d' = Inr (Some q, d')"
proof -
  obtain q d' where q: "refresh_qualitative_assessment sample_world 3 sample_assessment_db = Inr (Some q, d')"
    using sample_refresh by blast
  have "refresh_qualitative_assessment other_world 3 d' = Inr (Some q, d')"
    by (rule assessment_cached [OF q]) (simp add: other_world_def)
  with q show ?thesis by blast
qed


section \<open>The worker meets the contract\<close>

interpretation qualitative: queue_worker claim_qualitative_task complete_qualitative_task fail_qualitative_task
proof
  fix d i t now
  assume t: "task_of d i = Some t"
  show "t_status t = T_CANCELLED \<Longrightarrow> claim_qualitative_task i now d = Inr (None, d)"
    and "t_status t \<notin> {T_CANCELLED, T_QUEUED} \<Longrightarrow>
         claim_qualitative_task i now d = Inl (ValueError (''QueuedTask '' @ str_int i @ '' is not queued''))"
    by (simp_all add: claim_qualitative_task_def lock_task_cases [OF t])
  show "t_status t = T_QUEUED \<Longrightarrow> claim_qualitative_task i now d = Inr (p, d') \<Longrightarrow>
       \<exists>t'. task_of d' i = Some t' \<and> t_attempts t' = t_attempts t + 1
              \<and> t_status t' = (if p = None then T_CANCELLED else T_RUNNING)" for p d'
    using t by (auto simp: claim_qualitative_task_def lock_task_cases [OF t] row_simps)
  show "complete_qualitative_task i now r d = Inr (r', d') \<Longrightarrow>
       \<exists>t'. task_of d' i = Some t' \<and> t_attempts t' = t_attempts t \<and> t_status t' \<in> {T_COMPLETED, T_CANCELLED}" for r r' d'
    using t by (auto simp: complete_qualitative_task_def res_simps row_simps)
  show "fail_qualitative_task i now e d = Inr d' \<Longrightarrow>
       \<exists>t'. task_of d' i = Some t' \<and> t_attempts t' = t_attempts t \<and> t_status t' = T_FAILED" for e d'
    using t by (auto simp: fail_qualitative_task_def res_simps row_simps)
qed

lemma refresh_writes:
  assumes "refresh_qualitative_assessment w i d = Inr (q, d')"
  shows "\<exists>xs. d' = d\<lparr>db_assessments := xs\<rparr>"
proof -
  obtain a where "refresh_asset_assessment w a d = Inr (q, d')"
    using assms by (auto simp: refresh_qualitative_assessment_def rbind_Inr_iff)
  then show ?thesis by (rule refresh_asset_writes)
qed

lemma run_qualitative_writes: "\<exists>xs. fst (run_qualitative_payload w p d) = d\<lparr>db_assessments := xs\<rparr>"
proof -
  have same: "\<exists>xs. d = d\<lparr>db_assessments := xs\<rparr>" by (rule exI [of _ "db_assessments d"]) simp
  let ?m = "rbind (case dget p ''asset_id'' of None \<Rightarrow> Inl (KeyError ''asset_id'') | Some v \<Rightarrow> py_int v) (\<lambda>i.
             rmap (\<lambda>r. (i, r)) (refresh_qualitative_assessment w i d))"
  show ?thesis
  proof (cases ?m)
    case (Inl e)
    then show ?thesis using same by (simp add: run_qualitative_payload_def)
  next
    case (Inr x)
    obtain i q d' where x: "x = (i, q, d')" by (rule prod_cases3)
    then have "refresh_qualitative_assessment w i d = Inr (q, d')"
      using Inr by (auto simp: rbind_Inr_iff rmap_def)
    then show ?thesis using Inr x refresh_writes by (cases q) (auto simp: run_qualitative_payload_def)
  qed
qed

lemma run_qualitative_keeps_task: "keeps_task (run_qualitative_payload w) i"
proof -
  have "db_tasks (fst (run_qualitative_payload w p d)) = db_tasks d" for p d
    using run_qualitative_writes [of w p d] by auto
  then show ?thesis by (simp add: keeps_task_def)
qed

text \<open>An assessment task runs at most once: when its processing returns, the task is ended with exactly one more attempt,
  and processing it again, at any time, with any model, changes nothing.\<close>

theorem qualitative_runs_once:
  assumes "task_of d i = Some t" and "t_status t = T_QUEUED" and "process_qualitative_assessment_task w i now d = (d', Inr r)"
  shows "(\<exists>t'. task_of d' i = Some t' \<and> t_attempts t' = t_attempts t + 1 \<and> t_status t' \<in> {T_COMPLETED, T_CANCELLED})
    \<and> fst (process_qualitative_assessment_task w' i later d') = d'"
  using qualitative.return_ends [OF assms(1,2) run_qualitative_keeps_task assms(3) [unfolded process_qualitative_assessment_task_def]]
    qualitative.at_most_once [OF assms(1,2) run_qualitative_keeps_task assms(3) [unfolded process_qualitative_assessment_task_def]]
  by (simp add: process_qualitative_assessment_task_def)

section \<open>The answer no handler catches\<close>

text \<open>An answer whose span is infinite, as JSON in the dialect of the reader writes it.\<close>

definition infinite_answer :: string where
  "infinite_answer =
     (let q = (\<lambda>name fields. [CHR 0x22] @ name @ [CHR 0x22] @ '':{'' @ join '','' (map (\<lambda>(k, v). [CHR 0x22] @ k @ [CHR 0x22, CHR '':''] @ v) fields) @ ''}'');
          t = (\<lambda>s. [CHR 0x22] @ s @ [CHR 0x22]);
          common = [(''rating'', t ''low''), (''score'', ''true''), (''rationale'', t ''r''), (''signals'', ''['' @ t ''s'' @ '']'')];
          field = (\<lambda>k v. t k @ '':'' @ v)
      in ''{'' @ join '',''
          [field ''summary'' (t ''s''), field ''threat_scenarios'' (''['' @ t ''s'' @ '']''), field ''migration_recommendation'' (t ''m''),
           field ''dhs_criteria'' (''{'' @ join '',''
             [q ''asset_value'' common, q ''protected_information'' ((''data_classification'', t ''low'') # common),
              q ''communication_scope'' ((''exposure'', t ''dmz'') # (''direction'', t ''none'') # common),
              q ''sharing_level'' ((''sharing_scope'', t ''none'') # (''external_parties'', ''['' @ t ''s'' @ '']'') # common),
              q ''critical_infrastructure'' ((''dependency_level'', t ''none'') # (''infrastructure_roles'', ''['' @ t ''s'' @ '']'') # common),
              q ''protection_duration'' ((''lifespan_years'', ''Infinity'') # (''hndl_exposure'', t ''low'') # common)] @ ''}''),
           field ''confidence'' ''true''] @ ''}'')"

lemma infinite_answer_raises: "parse_qualitative_risk_response infinite_answer = Inl (OverflowError ''cannot convert float infinity to integer'')"
  by code_simp


lemma refresh_raises:
  assumes "find_row a_id k (db_assets d) = Some a" and "assessment_of d k = None" and "latest_risk k d = None"
    and "\<And>pm. call_qualitative_risk_llm w pm None = Inr cp" and "parse_qualitative_risk_response (cp_content cp) = Inl e"
    and "fallback_reason e = None"
  shows "refresh_qualitative_assessment w k d = Inl e"
proof -
  have k: "a_id a = k" using assms(1) by (blast dest: find_row_Some)
  have "latest_risk (a_id a) d = None" using assms(3) k by simp
  then obtain pm r where "assessment_prompt a d = Inr pm" and "rule_book_answer a d = Inr r"
    using unscored_asset [of a d] by blast
  then show ?thesis
    using assms k
    by (simp add: refresh_qualitative_assessment_def get_row_def refresh_asset_assessment_def generate_qualitative_assessment_def
        qualitative_cache_hit_def Let_def settled_answer_def qualitative_llm_response_def rmap_def)
qed

text \<open>An answer whose span cannot be converted to an integer is not replaced by the rule book's: the exception is none of
  those the code falls back on, so the task ends failed and the asset stays without an assessment.\<close>

theorem overflowing_answer_fails_task:
  assumes "task_of d i = Some t" and "t_status t = T_QUEUED" and "dget (t_payload t) ''asset_id'' = Some (PInt k)"
    and "find_row a_id k (db_assets d) = Some a" and "assessment_of d k = None" and "latest_risk k d = None"
    and "\<And>pm. call_qualitative_risk_llm w pm None = Inr cp" and "parse_qualitative_risk_response (cp_content cp) = Inl (OverflowError m)"
  shows "\<exists>d'. process_qualitative_assessment_task w i now d = (d', Inl (OverflowError m)) \<and> db_assessments d' = db_assessments d
    \<and> (\<exists>t'. task_of d' i = Some t' \<and> t_status t' = T_FAILED)"
proof -
  let ?t = "t\<lparr>t_status := T_RUNNING, t_attempts := t_attempts t + 1, t_locked := Some now\<rparr>"
  have claim: "claim_qualitative_task i now d = Inr (Some (t_payload t), set_task ?t d)"
    using assms(1,2) by (simp add: claim_qualitative_task_def lock_task_cases)
  have d1: "find_row a_id k (db_assets (set_task ?t d)) = Some a" "assessment_of (set_task ?t d) k = None"
      "latest_risk k (set_task ?t d) = None"
    using assms(4-6) by (simp_all add: set_task_def assessment_of_def latest_risk_def)
  have "refresh_qualitative_assessment w k (set_task ?t d) = Inl (OverflowError m)"
    by (rule refresh_raises [OF d1 assms(7,8)]) simp
  then have run: "run_qualitative_payload w (t_payload t) (set_task ?t d) = (set_task ?t d, Inl (OverflowError m))"
    using assms(3) by (simp add: run_qualitative_payload_def rmap_def)
  have id: "t_id t = i" using assms(1) by (rule task_of_id)
  then have "task_of (set_task ?t d) i = Some ?t" using assms(1) by (simp add: row_simps)
  then have give: "fail_qualitative_task i now (OverflowError m) (set_task ?t d)
      = Inr (set_task (?t\<lparr>t_status := T_FAILED, t_last_error := Some m\<rparr>) (set_task ?t d))"
    by (simp add: fail_qualitative_task_def get_row_def exc_str_def)
  show ?thesis
    unfolding process_qualitative_assessment_task_def run_worker_def claim
    using assms(1) id by (simp add: run give row_simps) (simp add: set_task_def)
qed

definition codex_world :: world where
  "codex_world = sample_world\<lparr>w_environ := [(''LLM_PROVIDER'', ''codex'')], w_cli := (\<lambda>env argv input t. Cli_done 0 infinite_answer [] None)\<rparr>"

lemma infinite_answer_stripped: "strip infinite_answer = infinite_answer" "infinite_answer \<noteq> []"
  by code_simp+

lemma codex_answers: "\<exists>cp. cp_content cp = infinite_answer \<and> (\<forall>pm. call_qualitative_risk_llm codex_world pm None = Inr cp)"
proof -
  have "rmap (\<lambda>c. (lc_provider c, lc_cli_command c)) (load_llm_config (w_environ codex_world)) = Inr (''codex'', ''codex'')" by code_simp
  then obtain c where c: "load_llm_config (w_environ codex_world) = Inr c" "lc_provider c = ''codex''" "lc_cli_command c = ''codex''"
    by (cases "load_llm_config (w_environ codex_world)") (simp_all add: rmap_def)
  have "shlex_split ''codex'' = Some [''codex'']" by code_simp
  then show ?thesis
    using c infinite_answer_stripped
    by (simp add: call_qualitative_risk_llm_def DISABLED_PROVIDERS_def CODEX_CLI_PROVIDERS_def call_codex_cli_def codex_exec_command_def
        cli_content_def codex_world_def)
qed

definition sample_task_db :: db where
  "sample_task_db = sample_assessment_db\<lparr>db_tasks := [sample_task ''qualitative_assessment'' [(''asset_id'', PInt 3)]]\<rparr>"

lemma sample_task_rows:
  "task_of sample_task_db 9 = Some (sample_task ''qualitative_assessment'' [(''asset_id'', PInt 3)])"
  "find_row a_id 3 (db_assets sample_task_db) = Some (plain_asset 3 ''RSA-2048'')"
  "assessment_of sample_task_db 3 = None" "latest_risk 3 sample_task_db = None"
  by (simp_all add: sample_task_db_def sample_assessment_db_def find_row_Cons assessment_of_def latest_risk_def empty_db_def)

theorem overflowing_answer_fails_task_witness:
  "\<exists>d' m. process_qualitative_assessment_task codex_world 9 5 sample_task_db = (d', Inl (OverflowError m)) \<and> db_assessments d' = []
    \<and> (\<exists>t'. task_of d' 9 = Some t' \<and> t_status t' = T_FAILED)"
proof -
  obtain cp where cp: "cp_content cp = infinite_answer" "\<And>pm. call_qualitative_risk_llm codex_world pm None = Inr cp"
    using codex_answers by blast
  have "db_assessments sample_task_db = []" by (simp add: sample_task_db_def sample_assessment_db_def empty_db_def)
  then show ?thesis
    using overflowing_answer_fails_task [OF sample_task_rows(1) _ _ sample_task_rows(2-4) cp(2), of "''cannot convert float infinity to integer''" 5]
      infinite_answer_raises cp(1) by (simp add: dget_def) blast
qed

text \<open>Without a provider the same task ends completed, which the witness of \<open>qualitative_runs_once\<close> uses.\<close>

lemma sample_task_returns: "is_ok (snd (process_qualitative_assessment_task sample_world 9 5 sample_task_db))"
proof -
  let ?t = "sample_task ''qualitative_assessment'' [(''asset_id'', PInt 3)]"
  let ?u = "?t\<lparr>t_status := T_RUNNING, t_attempts := 1, t_locked := Some 5\<rparr>"
  let ?d = "set_task ?u sample_task_db"
  have claim: "claim_qualitative_task 9 5 sample_task_db = Inr (Some [(''asset_id'', PInt 3)], ?d)"
    using sample_task_rows(1) by (simp add: claim_qualitative_task_def lock_task_cases)
  have "\<exists>q d'. refresh_qualitative_assessment sample_world 3 ?d = Inr (Some q, d') \<and> task_of d' 9 \<noteq> None"
  proof -
    let ?a = "plain_asset 3 ''RSA-2048''"
    have rows: "find_row a_id 3 (db_assets ?d) = Some ?a" "assessment_of ?d 3 = None" "latest_risk (a_id ?a) ?d = None"
      using sample_task_rows(2-4) by (simp_all add: set_task_def assessment_of_def latest_risk_def)
    obtain pm r where pm: "assessment_prompt ?a ?d = Inr pm" and r: "rule_book_answer ?a ?d = Inr r"
      using unscored_asset [OF rows(3)] by blast
    have "contexts_ok ?d" by code_simp
    from contexts_okD [OF this rows(1)] have "response_drafted r" "lifespan_plain (qr_criteria r)"
      using r heuristic_drafted by (auto simp: rule_book_answer_def Let_def rbind_Inr_iff)
    then obtain s where "settled_answer sample_world pm r = Inr s"
      using mock_parsed [of r] sample_unavailable by (simp add: settled_answer_def qualitative_llm_response_def)
    then obtain q d' where q: "refresh_qualitative_assessment sample_world 3 ?d = Inr (Some q, d')"
      using rows(1,2) pm r
      by (simp add: refresh_qualitative_assessment_def get_row_def refresh_asset_assessment_def generate_qualitative_assessment_def
          qualitative_cache_hit_def Let_def rmap_def store_assessment_def)
    moreover have "task_of d' 9 \<noteq> None" using refresh_writes [OF q] sample_task_rows(1) by (auto simp: row_simps)
    ultimately show ?thesis by blast
  qed
  then obtain q d' where q: "refresh_qualitative_assessment sample_world 3 ?d = Inr (Some q, d')" "task_of d' 9 \<noteq> None" by blast
  then show ?thesis
    by (auto simp: process_qualitative_assessment_task_def run_worker_def claim run_qualitative_payload_def dget_def rmap_def
        complete_qualitative_task_def get_row_def is_ok_def)
qed

theorem qualitative_runs_once_witness:
  "let d' = fst (process_qualitative_assessment_task sample_world 9 5 sample_task_db)
   in (\<exists>t'. task_of d' 9 = Some t' \<and> t_attempts t' = t_attempts (sample_task ''qualitative_assessment'' [(''asset_id'', PInt 3)]) + 1
         \<and> t_status t' \<in> {T_COMPLETED, T_CANCELLED})
    \<and> fst (process_qualitative_assessment_task codex_world 9 60 d') = d'"
proof -
  obtain d' x where p: "process_qualitative_assessment_task sample_world 9 5 sample_task_db = (d', x)" by (rule prod.exhaust)
  then obtain r where x: "x = Inr r" using sample_task_returns by (auto simp: is_ok_iff)
  from qualitative_runs_once [OF sample_task_rows(1) _ p [unfolded x]] show ?thesis by (simp add: p)
qed

end
