(* ===== verification/Context_Suggestion.thy ===== *)
theory Context_Suggestion
  imports Qualitative
begin

text \<open>
  The context suggestion of \<open>apps/assets/services.py\<close>: the rule book proposes a context for an asset from its names, its
  target and its family, a language model may improve on it, and the answer is read field by field: a value that is not one
  of the allowed ones is replaced by the rule book's.
\<close>

definition CONTEXT_SUGGESTION_PROMPT_VERSION :: string where
  "CONTEXT_SUGGESTION_PROMPT_VERSION = ''asset-context-suggestion-v1''"

definition CONTEXT_LEVEL_VALUES :: "string list" where
  "CONTEXT_LEVEL_VALUES = [''low'', ''medium'', ''high'', ''critical'']"

definition CONTEXT_EXPOSURE_VALUES :: "string list" where
  "CONTEXT_EXPOSURE_VALUES = [''public_internet'', ''dmz'', ''internal_network'', ''air_gapped'']"

section \<open>The rule book\<close>

definition suggested_service_role :: "asset \<Rightarrow> target option \<Rightarrow> string" where
  "suggested_service_role a t =
     (let text = lower (a_name a @ '' '' @ a_bom_ref a @ '' '' @ lower (join '' '' (metadata_paths (a_metadata a))));
          hint = or_text (protocol_of t) []
      in if any_token [''auth'', ''login'', ''idp'', ''oauth''] text then ''auth''
         else if any_token [''db'', ''database'', ''postgres'', ''mysql''] text then ''database''
         else if any_token [''mail'', ''smtp'', ''imap''] text then ''mail''
         else if hint \<noteq> [] then (if lower hint \<in> set [''tls'', ''http'', ''https''] then ''web'' else lower hint)
         else a_type a)"

definition suggested_exposure :: "target option \<Rightarrow> string option" where
  "suggested_exposure t =
     (case t of None \<Rightarrow> None
      | Some x \<Rightarrow>
          (let host = lower (tg_host x); ip = or_text (tg_ip x) []
           in if list_ex (startswith ip) [''10.'', ''172.'', ''192.168.''] \<or> list_ex (endswith host) [''.local'', ''.internal'']
              then Some ''internal_network''
              else if tg_port x \<in> {80, 443, 8443} then Some ''public_internet'' else Some ''dmz''))"

definition suggested_criticality :: "string \<Rightarrow> asset \<Rightarrow> string" where
  "suggested_criticality role a =
     (if role \<in> set [''auth'', ''database'', ''kms'', ''payment'', ''pki''] then ''critical''
      else if role \<in> set [''web'', ''api'', ''mail''] then ''high''
      else if a_class a = ''crypto'' then ''medium'' else ''low'')"

definition suggested_sensitivity :: "string \<Rightarrow> asset \<Rightarrow> string" where
  "suggested_sensitivity role a =
     (if role \<in> set [''auth'', ''database'', ''payment'', ''pki''] then ''high''
      else if quantum_vulnerable a then ''medium'' else ''low'')"

definition suggested_lifespan_years :: "asset \<Rightarrow> string \<Rightarrow> string \<Rightarrow> int" where
  "suggested_lifespan_years a sensitivity role =
     (if role \<in> set [''pki'', ''archive'', ''backup''] then 15
      else if sensitivity \<in> set [''high'', ''critical''] \<and> quantum_vulnerable a then 10
      else if a_type a \<in> set [''key'', ''certificate''] then 5 else 3)"

record suggestion_values =
  sv_context :: ctx
  sv_confidence :: pyfloat
  sv_rationale :: string
  sv_evidence :: "string list"

definition or_none :: "string option \<Rightarrow> string option \<Rightarrow> string option" where
  "or_none v d = (case v of None \<Rightarrow> d | Some s \<Rightarrow> if s = [] then d else Some s)"

definition any_context :: "ctx \<Rightarrow> bool" where
  "any_context c = (populated c \<noteq> 0)"

definition heuristic_context_suggestion :: "asset \<Rightarrow> target option \<Rightarrow> ctx \<Rightarrow> string dict \<Rightarrow> suggestion_values" where
  "heuristic_context_suggestion a t c sources =
     (let role = or_text (cx_role c) (suggested_service_role a t);
          exposure = or_none (cx_exposure c) (suggested_exposure t);
          criticality = or_text (cx_criticality c) (suggested_criticality role a);
          sensitivity = or_text (cx_sensitivity c) (suggested_sensitivity role a);
          lifespan = (case cx_lifespan c of Some n \<Rightarrow> n | None \<Rightarrow> suggested_lifespan_years a sensitivity role);
          evidence =
            [''asset_type:'' @ a_type a, ''algorithm_family:'' @ or_str (a_family a) ''unknown'',
             ''target:'' @ or_text (target_label t) ''none''] @
            map (\<lambda>p. ''path:'' @ p) (take 3 (metadata_paths (a_metadata a))) @
            (if any_context c then [''existing_context:present''] else [])
      in \<lparr>sv_context = \<lparr>cx_sensitivity = Some sensitivity, cx_lifespan = Some lifespan, cx_criticality = Some criticality,
                        cx_exposure = exposure, cx_role = Some role\<rparr>,
          sv_confidence = (if sources \<noteq> [] then fl (62 / 100) else fl (1 / 2)),
          sv_rationale = ''Recommended from current asset metadata, target protocol, and existing context signals.'',
          sv_evidence = dedupe_values evidence\<rparr>)"

section \<open>The prompt\<close>

definition context_payload :: "ctx \<Rightarrow> pyval" where
  "context_payload c =
     PDict [(''sensitivity'', opt_str (cx_sensitivity c)), (''lifespan_years'', opt_int (cx_lifespan c)),
            (''criticality'', opt_str (cx_criticality c)), (''exposure'', opt_str (cx_exposure c)), (''service_role'', opt_str (cx_role c))]"

definition CONTEXT_SUGGESTION_SCHEMA :: pyval where
  "CONTEXT_SUGGESTION_SCHEMA =
     PDict
       [(''recommended_context'', PDict
           [(''sensitivity'', PStr ''low|medium|high|critical|null''), (''lifespan_years'', PStr ''integer >= 0|null''),
            (''criticality'', PStr ''low|medium|high|critical|null''),
            (''exposure'', PStr ''public_internet|dmz|internal_network|air_gapped|null''),
            (''service_role'', PStr ''short lowercase service role string|null'')]),
        (''confidence'', PStr ''number between 0 and 1''),
        (''rationale'', PStr ''one sentence explaining the recommendation using only supplied evidence''),
        (''evidence'', strings [''short evidence strings from the payload''])]"

definition build_context_suggestion_prompt :: "asset \<Rightarrow> db \<Rightarrow> pyval dict \<Rightarrow> string dict \<Rightarrow> ctx \<Rightarrow> py_error + prompt" where
  "build_context_suggestion_prompt a d context sources fallback =
     (let t = asset_target d a; rs = latest_risk (a_id a) d
      in rbind (fround_int (score_for rs a (read_context context))) (\<lambda>base.
           let payload = PDict
             [(''asset'', qualitative_asset_payload a t), (''current_context'', PDict context),
              (''context_sources'', PDict (map (\<lambda>(k, s). (k, PStr s)) sources)),
              (''operational_context'', qualitative_operational_context a t context sources),
              (''risk'', qualitative_risk_payload rs base), (''fallback_context'', context_payload fallback)]
           in Inr \<lparr>pm_version = CONTEXT_SUGGESTION_PROMPT_VERSION,
                pm_system = ''You recommend evaluation context values for one cryptographic asset. '' @
                  ''Use only supplied asset, target, risk, and evidence data. Return concise JSON only.'',
                pm_user = ''Recommend context values that an operator can review before saving.'' @ nl @
                  ''Prefer preserving existing values when evidence is weak. Do not invent sensitive facts.'' @ nl @
                  ''Use null only when the payload has no defensible signal for that field.'' @ nl @ nl @
                  ''Payload:'' @ nl @ json_indent 0 (sort_keys payload) @ nl @ nl @
                  ''Required JSON schema:'' @ nl @ json_indent 0 (sort_keys CONTEXT_SUGGESTION_SCHEMA),
                pm_schema = CONTEXT_SUGGESTION_SCHEMA, pm_payload = payload\<rparr>))"

section \<open>The answer\<close>

definition allowed_or_fallback :: "pyval \<Rightarrow> string list \<Rightarrow> string option \<Rightarrow> string option" where
  "allowed_or_fallback v allowed fallback =
     (if v = PNone then fallback
      else (let normalized = lower (strip (py_str v)) in if normalized \<in> set allowed then Some normalized else fallback))"

definition non_negative_int_or_fallback :: "pyval \<Rightarrow> int option \<Rightarrow> py_error + int option" where
  "non_negative_int_or_fallback v fallback =
     (if v = PNone \<or> v = PStr [] then Inr fallback
      else (case py_int v of
             Inl (TypeError m) \<Rightarrow> Inr fallback
           | Inl (ValueError m) \<Rightarrow> Inr fallback
           | Inl e \<Rightarrow> Inl e
           | Inr n \<Rightarrow> Inr (if 0 \<le> n then Some n else fallback)))"

definition service_role_or_fallback :: "pyval \<Rightarrow> string option \<Rightarrow> string option" where
  "service_role_or_fallback v fallback =
     (if v = PNone then fallback
      else (let normalized = take 80 (map (\<lambda>c. if c = CHR '' '' then CHR ''-'' else c) (lower (strip (py_str v))))
            in if normalized \<noteq> [] then Some normalized else fallback))"

definition confidence_or_fallback :: "pyval \<Rightarrow> pyfloat \<Rightarrow> py_error + pyfloat" where
  "confidence_or_fallback v fallback =
     (case py_float v of
        Inl (TypeError m) \<Rightarrow> Inr fallback
      | Inl (ValueError m) \<Rightarrow> Inr fallback
      | Inl e \<Rightarrow> Inl e
      | Inr x \<Rightarrow> Inr (clamp_two x))"

definition string_list_or_fallback :: "pyval \<Rightarrow> string list \<Rightarrow> string list" where
  "string_list_or_fallback v fallback =
     (case v of
        PList xs \<Rightarrow> (let items = take 8 (filter (\<lambda>s. s \<noteq> []) (map (\<lambda>x. strip (py_str x)) xs)) in if items \<noteq> [] then items else fallback)
      | _ \<Rightarrow> fallback)"

definition rationale_or_fallback :: "pyval \<Rightarrow> string \<Rightarrow> string" where
  "rationale_or_fallback v fallback = (case v of PStr s \<Rightarrow> if strip s \<noteq> [] then s else fallback | _ \<Rightarrow> fallback)"

definition parse_context_suggestion_response :: "string \<Rightarrow> suggestion_values \<Rightarrow> py_error + suggestion_values" where
  "parse_context_suggestion_response text fallback =
     (case extract_json_object (ValueError ''context suggestion response did not include a JSON object'') text of
        Inl (ValueError m) \<Rightarrow> Inr fallback
      | Inl e \<Rightarrow> Inl e
      | Inr data \<Rightarrow>
          (let chosen = py_or (py_or (pget data ''recommended_context'') (pget data ''context'')) (PDict data);
               values = (case chosen of PDict m \<Rightarrow> m | _ \<Rightarrow> []);
               old = sv_context fallback
           in rbind (non_negative_int_or_fallback (pget values ''lifespan_years'') (cx_lifespan old)) (\<lambda>lifespan.
              rbind (confidence_or_fallback (pget data ''confidence'') (sv_confidence fallback)) (\<lambda>confidence.
                Inr \<lparr>sv_context =
                       \<lparr>cx_sensitivity = allowed_or_fallback (pget values ''sensitivity'') CONTEXT_LEVEL_VALUES (cx_sensitivity old),
                        cx_lifespan = lifespan,
                        cx_criticality = allowed_or_fallback (pget values ''criticality'') CONTEXT_LEVEL_VALUES (cx_criticality old),
                        cx_exposure = allowed_or_fallback (pget values ''exposure'') CONTEXT_EXPOSURE_VALUES (cx_exposure old),
                        cx_role = service_role_or_fallback (pget values ''service_role'') (cx_role old)\<rparr>,
                     sv_confidence = confidence,
                     sv_rationale = rationale_or_fallback (pget data ''rationale'') (sv_rationale fallback),
                     sv_evidence = string_list_or_fallback (pget data ''evidence'') (sv_evidence fallback)\<rparr>))))"

section \<open>The suggestion\<close>

definition suggestion_fields :: "suggestion_values \<Rightarrow> pyval dict" where
  "suggestion_fields v =
     [(''recommended_context'', context_payload (sv_context v)), (''confidence'', PFloat (sv_confidence v)),
      (''rationale'', PStr (sv_rationale v)), (''evidence'', strings (sv_evidence v))]"

definition prompt_trace :: "prompt \<Rightarrow> pyval" where
  "prompt_trace pm =
     PDict [(''version'', PStr (pm_version pm)), (''system'', PStr (pm_system pm)), (''user'', PStr (pm_user pm)),
            (''payload'', pm_payload pm), (''response_schema'', pm_schema pm)]"

definition suggestion_body :: "asset \<Rightarrow> prompt \<Rightarrow> completion \<Rightarrow> suggestion_values \<Rightarrow> pyval" where
  "suggestion_body a pm cp v =
     PDict ([(''asset_id'', PInt (a_id a)), (''prompt_version'', PStr CONTEXT_SUGGESTION_PROMPT_VERSION)] @ suggestion_fields v @
       [(''provider'', PDict (completion_metadata cp)),
        (''fallback'', PDict [(''used'', PBool False), (''reason'', PNone)]),
        (''llm_trace'', PDict
           [(''request'', prompt_trace pm),
            (''response'', PDict [(''raw'', PStr (cp_content cp)), (''parsed'', PDict (suggestion_fields v))])])])"

definition suggest_asset_context :: "world \<Rightarrow> asset \<Rightarrow> db \<Rightarrow> py_error + suggestion" where
  "suggest_asset_context w a d =
     (let ov = asset_override d a; t = asset_target d a; context = effective_context d a ov; sources = context_sources d a ov;
          fallback = heuristic_context_suggestion a t (read_context context) sources
      in rbind (build_context_suggestion_prompt a d context sources (sv_context fallback)) (\<lambda>pm.
           case call_qualitative_risk_llm w pm None of
             Inl (ProviderUnavailable m) \<Rightarrow> Inr (Unavailable m)
           | Inl (ProviderError m) \<Rightarrow> Inr (Unavailable m)
           | Inl e \<Rightarrow> Inl e
           | Inr cp \<Rightarrow> rmap (\<lambda>v. Suggested (suggestion_body a pm cp v)) (parse_context_suggestion_response (cp_content cp) fallback)))"

section \<open>A suggestion can be saved\<close>

text \<open>What the patch of a context accepts: the levels, the exposures, a span that is not negative.\<close>

definition patch_ok :: "ctx \<Rightarrow> bool" where
  "patch_ok c =
     (named CONTEXT_LEVEL_VALUES (cx_sensitivity c) \<and> named CONTEXT_LEVEL_VALUES (cx_criticality c) \<and>
      named CONTEXT_EXPOSURE_VALUES (cx_exposure c) \<and> (case cx_lifespan c of None \<Rightarrow> True | Some n \<Rightarrow> 0 \<le> n))"

definition suggestion_ok :: "suggestion_values \<Rightarrow> bool" where
  "suggestion_ok v =
     (patch_ok (sv_context v) \<and> in_range 0 1 (sv_confidence v) \<and> has_text (PStr (sv_rationale v)) \<and>
      has_texts (strings (sv_evidence v)) \<and> length (sv_evidence v) \<le> 8)"

lemma named_or_text: "named ns v \<Longrightarrow> d \<in> set ns \<Longrightarrow> or_text v d \<in> set ns"
  by (auto simp: named_def or_text_def or_str_def split: option.splits)

lemma heuristic_context_ok:
  assumes "context_ok c"
  shows "patch_ok (sv_context (heuristic_context_suggestion a t c sources))"
proof -
  have c: "named CONTEXT_LEVEL_VALUES (cx_sensitivity c)" "named CONTEXT_LEVEL_VALUES (cx_criticality c)"
      "named CONTEXT_EXPOSURE_VALUES (cx_exposure c)" "case cx_lifespan c of None \<Rightarrow> True | Some n \<Rightarrow> 0 \<le> n"
    using assms by (auto simp: context_ok_def named_def CONTEXT_LEVEL_VALUES_def CONTEXT_EXPOSURE_VALUES_def LEVELS_def split: option.splits)
  have "suggested_criticality r a \<in> set CONTEXT_LEVEL_VALUES" "suggested_sensitivity r a \<in> set CONTEXT_LEVEL_VALUES" for r
    by (simp_all add: suggested_criticality_def suggested_sensitivity_def CONTEXT_LEVEL_VALUES_def)
  note levels = named_or_text [OF c(1) this(2)] named_or_text [OF c(2) this(1)]
  have "named CONTEXT_EXPOSURE_VALUES (suggested_exposure t)"
    by (simp add: suggested_exposure_def named_def CONTEXT_EXPOSURE_VALUES_def Let_def split: option.split)
  then have exposure: "named CONTEXT_EXPOSURE_VALUES (or_none (cx_exposure c) (suggested_exposure t))"
    using c(3) by (auto simp: or_none_def split: option.splits)
  have span: "0 \<le> (case cx_lifespan c of Some n \<Rightarrow> n | None \<Rightarrow> suggested_lifespan_years a s r)" for s r
    using c(4) by (auto simp: suggested_lifespan_years_def split: option.splits)
  show ?thesis
    using levels exposure span by (simp add: heuristic_context_suggestion_def Let_def patch_ok_def named_def)
qed

lemma dedupe_length: "length (dedupe_values xs) \<le> length xs"
  unfolding dedupe_values_def by (rule list_emb_length [OF dedupe_by_subseq])

lemma half_range: "in_range 0 1 (fl (62 / 100))" "in_range 0 1 (fl (1 / 2))"
  by (rule fl_unit; simp)+

lemma heuristic_suggestion_ok:
  assumes "context_ok c"
  shows "suggestion_ok (heuristic_context_suggestion a t c sources)"
proof -
  let ?ev = "[''asset_type:'' @ a_type a, ''algorithm_family:'' @ or_str (a_family a) ''unknown'',
             ''target:'' @ or_text (target_label t) ''none''] @
            map (\<lambda>p. ''path:'' @ p) (take 3 (metadata_paths (a_metadata a))) @
            (if any_context c then [''existing_context:present''] else [])"
  have "has_texts (strings (dedupe_values ?ev))"
    by (rule signals_ok) (auto simp: list_all_iff is_space_def code_def simp del: has_text.simps)
  moreover have "length ?ev \<le> 8" by (auto simp: min_def)
  then have "length (dedupe_values ?ev) \<le> 8" using dedupe_length [of ?ev] by linarith
  moreover have "has_text (PStr ''Recommended from current asset metadata, target protocol, and existing context signals.'')" by code_simp
  ultimately show ?thesis
    using heuristic_context_ok [OF assms, of a t sources] half_range
    by (simp add: suggestion_ok_def heuristic_context_suggestion_def Let_def del: has_text.simps has_texts.simps)
qed


lemma allowed_ok: "named ns fallback \<Longrightarrow> named ns (allowed_or_fallback v ns fallback)"
  by (simp add: allowed_or_fallback_def named_def Let_def split: option.split)

lemma span_ok:
  "non_negative_int_or_fallback v fallback = Inr r \<Longrightarrow> (case fallback of None \<Rightarrow> True | Some n \<Rightarrow> 0 \<le> n) \<Longrightarrow>
     (case r of None \<Rightarrow> True | Some n \<Rightarrow> 0 \<le> n)"
  by (auto simp: non_negative_int_or_fallback_def split: if_splits sum.splits py_error.splits)

lemma clamp_two_range: "in_range 0 1 (clamp_two x)"
  using clamp_two_ok [of x] by simp

lemma confidence_fallback_ok: "confidence_or_fallback v fallback = Inr x \<Longrightarrow> in_range 0 1 fallback \<Longrightarrow> in_range 0 1 x"
  by (auto simp: confidence_or_fallback_def clamp_two_range split: sum.splits py_error.splits)

lemma rationale_ok: "has_text (PStr fallback) \<Longrightarrow> has_text (PStr (rationale_or_fallback v fallback))"
  by (simp add: rationale_or_fallback_def split: pyval.split)

lemma strip_strip: "strip s \<noteq> [] \<Longrightarrow> strip (strip s) \<noteq> []"
  using strip_ends [of s] by (cases "strip s") (auto simp: strip_empty)

lemma evidence_ok:
  assumes "has_texts (strings fallback)" and "length fallback \<le> 8"
  shows "has_texts (strings (string_list_or_fallback v fallback)) \<and> length (string_list_or_fallback v fallback) \<le> 8"
proof (cases v)
  case (PList xs)
  let ?items = "take 8 (filter (\<lambda>s. s \<noteq> []) (map (\<lambda>x. strip (py_str x)) xs))"
  have "list_all (\<lambda>s. has_text (PStr s)) ?items"
    by (auto simp: list_all_iff strip_strip dest!: in_set_takeD)
  then have "?items \<noteq> [] \<Longrightarrow> has_texts (strings ?items)" by (intro strings_ok)
  then show ?thesis using assms by (simp add: PList string_list_or_fallback_def Let_def)
qed (use assms in \<open>simp_all add: string_list_or_fallback_def\<close>)

lemma parsed_suggestion_ok:
  assumes "suggestion_ok fallback" and "parse_context_suggestion_response text fallback = Inr v"
  shows "suggestion_ok v"
proof -
  let ?e = "extract_json_object (ValueError ''context suggestion response did not include a JSON object'') text"
  have old: "named CONTEXT_LEVEL_VALUES (cx_sensitivity (sv_context fallback))" "named CONTEXT_LEVEL_VALUES (cx_criticality (sv_context fallback))"
      "named CONTEXT_EXPOSURE_VALUES (cx_exposure (sv_context fallback))"
      "case cx_lifespan (sv_context fallback) of None \<Rightarrow> True | Some n \<Rightarrow> 0 \<le> n"
      "in_range 0 1 (sv_confidence fallback)" "has_text (PStr (sv_rationale fallback))"
      "has_texts (strings (sv_evidence fallback))" "length (sv_evidence fallback) \<le> 8"
    using assms(1) by (simp_all add: suggestion_ok_def patch_ok_def del: has_text.simps has_texts.simps)
  show ?thesis
  proof (cases ?e)
    case (Inl e)
    then have "v = fallback" using assms(2) by (cases e) (simp_all add: parse_context_suggestion_response_def)
    then show ?thesis using assms(1) by simp
  next
    case (Inr data)
    then show ?thesis
      using assms(2) old
      by (auto simp: parse_context_suggestion_response_def Let_def rbind_Inr_iff suggestion_ok_def patch_ok_def allowed_ok
          rationale_ok evidence_ok simp del: has_text.simps has_texts.simps dest!: span_ok confidence_fallback_ok)
  qed
qed

text \<open>C24. The values suggested for an asset can always be saved: whatever the model answers, the levels and the exposure are among
  the allowed ones (or open), the span is not negative, the confidence lies between 0 and 1, and there are a rationale and one to
  eight pieces of evidence.\<close>

theorem suggested_context_valid:
  assumes "context_ok c"
    and "parse_context_suggestion_response text (heuristic_context_suggestion a t c sources) = Inr v"
  shows "patch_ok (sv_context v) \<and> in_range 0 1 (sv_confidence v) \<and> has_text (PStr (sv_rationale v)) \<and>
    has_texts (strings (sv_evidence v)) \<and> length (sv_evidence v) \<le> 8"
  using parsed_suggestion_ok [OF heuristic_suggestion_ok [OF assms(1)] assms(2)] unfolding suggestion_ok_def .

lemma invented_level_parsed:
  "is_ok (parse_context_suggestion_response ''{\"sensitivity\": \"extreme\", \"exposure\": \"DMZ\"}''
     (heuristic_context_suggestion (plain_asset 3 ''RSA-2048'') None sample_ctx []))"
  by code_simp

theorem suggested_context_valid_witness:
  "case parse_context_suggestion_response ''{\"sensitivity\": \"extreme\", \"exposure\": \"DMZ\"}''
     (heuristic_context_suggestion (plain_asset 3 ''RSA-2048'') None sample_ctx []) of
     Inl e \<Rightarrow> False | Inr v \<Rightarrow> patch_ok (sv_context v)"
proof -
  obtain v where "parse_context_suggestion_response ''{\"sensitivity\": \"extreme\", \"exposure\": \"DMZ\"}''
     (heuristic_context_suggestion (plain_asset 3 ''RSA-2048'') None sample_ctx []) = Inr v"
    using invented_level_parsed by (auto simp: is_ok_iff)
  with suggested_context_valid [OF sample_ctx_ok this] show ?thesis by simp
qed

end
