(* ===== verification/Migration_Plan.thy ===== *)
theory Migration_Plan
  imports Migration_Engine Context_Suggestion
begin

text \<open>
  \<open>apps/snapshots/migration_plan.py\<close>: the migration plan of a snapshot, one item of the engine per risk score, and the
  suggestion of a language model for one item.  The model chooses among the allowed options; its answer is matched to one of
  them, and the plan item keeps that option's algorithms, whatever else the answer says.

  The scores of a snapshot are ordered by their value; the column holds numbers.
\<close>

section \<open>The items of a plan\<close>

definition migration_capabilities :: "asset \<Rightarrow> target option \<Rightarrow> string list" where
  "migration_capabilities a t =
     sort ([''inventory_fresh''] @
       (case t of None \<Rightarrow> []
        | Some x \<Rightarrow> [''owner_known''] @ (if tg_agent_enabled x then [''config_policy'', ''rescan_validation''] else []) @
            (if truthy (pget (tg_context x) ''service_role'') then [''canary_supported''] else [])) @
       (if a_type a \<in> set [''certificate'', ''key''] then [''rollback_supported''] else []))"

text \<open>\<open>factors.get("context", {})\<close>, which the scores keep as a dict.\<close>

definition risk_context :: "risk_score \<Rightarrow> py_error + pyval dict" where
  "risk_context s =
     (case py_or (dget_or (rs_factors s) ''context'' (PDict [])) (PDict []) of
        PDict m \<Rightarrow> Inr m | _ \<Rightarrow> Inl (TypeError ''object is not iterable''))"

definition recommend_for_risk_score :: "risk_score \<Rightarrow> db \<Rightarrow> py_error + item" where
  "recommend_for_risk_score s d =
     rbind (get_row a_id (rs_asset s) (db_assets d)) (\<lambda>a.
     rbind (fround_int (rs_score s)) (\<lambda>score.
     rbind (risk_context s) (\<lambda>ctx.
       recommend_migration (rs_asset s) (a_name a) (a_type a) (Some (a_algorithm a)) (Some (a_family a)) score (rs_tier s) ctx
         (migration_capabilities a (asset_target d a)))))"

definition by_score :: "risk_score list \<Rightarrow> risk_score list" where
  "by_score rows = sort_key (\<lambda>s. - fval (rs_score s)) rows"

definition snapshot_migration_plan_items :: "int \<Rightarrow> db \<Rightarrow> py_error + item list" where
  "snapshot_migration_plan_items sn d =
     rmapM (\<lambda>s. recommend_for_risk_score s d)
       (by_score (sort_key rs_asset (filter (\<lambda>s. rs_snapshot s = Some sn) (db_risk_scores d))))"

section \<open>Items as JSON\<close>

definition recommendation_json :: "recommendation \<Rightarrow> pyval dict" where
  "recommendation_json r =
     [(''strategy'', PStr (rec_strategy r)), (''target_algorithm'', PStr (rec_target r)),
      (''target_algorithm_set'', strings (rec_target_set r)), (''final_algorithm_set'', strings (rec_final_set r)),
      (''phase'', PStr (rec_phase r)), (''blockers'', strings (rec_blockers r)), (''rollback'', PStr (rec_rollback r)),
      (''validation'', strings (rec_validation r)), (''rationale'', PStr (rec_rationale r)),
      (''confidence'', PFloat (rec_confidence r))]"

definition alternative_json :: "alternative \<Rightarrow> pyval" where
  "alternative_json x =
     PDict [(''strategy'', PStr (alt_strategy x)), (''target_algorithm'', PStr (alt_target x)), (''trade_off'', PStr (alt_trade_off x))]"

definition step_json :: "step \<Rightarrow> pyval" where
  "step_json x =
     PDict [(''order'', PInt (st_order x)), (''kind'', PStr (st_kind x)), (''title'', PStr (st_title x)),
            (''action'', PStr (st_action x)), (''validation'', PStr (st_validation x))]"

definition agility_json :: "agility \<Rightarrow> pyval" where
  "agility_json x =
     PDict [(''score'', PInt (agi_score x)), (''level'', PStr (agi_level x)), (''blockers'', strings (agi_blockers x)),
            (''enablers'', strings (agi_enablers x))]"

definition item_json :: "item \<Rightarrow> pyval dict" where
  "item_json it =
     [(''asset_id'', PInt (it_asset it)), (''asset_name'', PStr (it_name it)), (''asset_type'', PStr (it_type it)),
      (''asset_purpose'', PStr (it_purpose it)),
      (''current'', PDict [(''algorithm'', PStr (it_algorithm it)), (''key_size_bits'', opt_int (it_key_size it)),
                         (''quantum_vulnerable'', PBool (it_vulnerable it))]),
      (''recommendation'', PDict (recommendation_json (it_recommendation it))),
      (''alternatives'', PList (map alternative_json (it_alternatives it))), (''risk_score'', PInt (it_score it)),
      (''tier'', PStr (it_tier it)), (''agility'', agility_json (it_agility it)),
      (''playbook'', PList (map step_json (it_playbook it)))]"

section \<open>The options\<close>

record choice =
  ch_id :: string
  ch_label :: string
  ch_recommendation :: recommendation

definition split_algorithm_set :: "string \<Rightarrow> string list" where
  "split_algorithm_set s = filter (\<lambda>p. p \<noteq> []) (map strip (split_on CHR ''+'' s))"

definition alternative_choice :: "recommendation \<Rightarrow> nat \<Rightarrow> alternative \<Rightarrow> choice" where
  "alternative_choice r index x =
     (let strategy = or_str (alt_strategy x) ''replace''; target = or_str (alt_target x) (rec_target r);
          names = split_algorithm_set target; confidence = rec_confidence r
      in \<lparr>ch_id = ''alternative_'' @ str_int (int index), ch_label = or_str (alt_trade_off x) ''Policy alternative'',
          ch_recommendation = r\<lparr>rec_strategy := strategy, rec_target := target, rec_target_set := names, rec_final_set := names,
            rec_phase := (if strategy = ''replace'' then ''replace_now'' else rec_phase r),
            rec_rationale := or_str (alt_trade_off x) (rec_rationale r),
            rec_confidence := fmin (if feq confidence (Fin 0) then fl (82 / 100) else confidence) (fl (76 / 100))\<rparr>\<rparr>)"

definition allowed_migration_options :: "item \<Rightarrow> choice list" where
  "allowed_migration_options it =
     \<lparr>ch_id = ''policy_default'', ch_label = ''Policy default PQC target'', ch_recommendation = it_recommendation it\<rparr> #
     map (\<lambda>(i, x). alternative_choice (it_recommendation it) i x) (zip [1..<Suc (length (it_alternatives it))] (it_alternatives it))"

definition public_transition_mode :: "string \<Rightarrow> string" where
  "public_transition_mode strategy = (if strategy = ''no_change'' then ''monitor'' else ''pqc_transition'')"

definition option_payload :: "choice \<Rightarrow> pyval" where
  "option_payload c =
     (let r = ch_recommendation c
      in PDict [(''candidate_id'', PStr (ch_id c)), (''label'', PStr (ch_label c)),
                (''transition_mode'', PStr (public_transition_mode (rec_strategy r))), (''target_algorithm'', PStr (rec_target r)),
                (''target_algorithm_set'', strings (rec_target_set r)), (''final_algorithm_set'', strings (rec_final_set r)),
                (''rationale'', PStr (rec_rationale r))])"

section \<open>The prompt\<close>

text \<open>The pattern of the legacy names, in upper case; its names are replaced whatever their case.\<close>

definition LEGACY_ALGORITHM_PATTERN :: rx where
  "LEGACY_ALGORITHM_PATTERN =
     Cat Bound (Cat
       (Or (Cat (Word ''RSA'') (Opt (Cat (Word ''-'') Digits)))
        (Or (Cat (Word ''ECDSA'') (Opt (Cat (Opt (Or (Word '' '') (Word ''-''))) (Cat (Word ''P'') (Cat (Opt (Word ''-'')) Digits)))))
        (Or (words [''ECDH'', ''ED25519'', ''ED448'', ''X25519'', ''X448'', ''DHE'', ''DH'', ''DIFFIE-HELLMAN''])
        (Or (Cat (Word ''MODP'') (Opt (Cat (Word ''-'') Digits)))
            (Cat (Word ''GROUP'') Digits)))))
       Bound)"

definition redact_legacy_algorithm :: "string \<Rightarrow> string" where
  "redact_legacy_algorithm s = replace_matches LEGACY_ALGORITHM_PATTERN ''legacy-public-key'' s"

fun redact_legacy_algorithms :: "pyval \<Rightarrow> pyval" where
  "redact_legacy_algorithms (PDict d) = PDict (map (\<lambda>p. (fst p, redact_legacy_algorithms (snd p))) d)"
| "redact_legacy_algorithms (PList xs) = PList (map redact_legacy_algorithms xs)"
| "redact_legacy_algorithms (PStr s) = PStr (redact_legacy_algorithm s)"
| "redact_legacy_algorithms v = v"

definition enriched_cbom_payload :: "risk_score \<Rightarrow> asset \<Rightarrow> db \<Rightarrow> py_error + pyval" where
  "enriched_cbom_payload s a d =
     rbind (fround_int (rs_score s)) (\<lambda>score.
       let ov = asset_override d a
       in Inr (PDict
         [(''asset'', PDict
             [(''id'', PInt (a_id a)), (''snapshot_id'', opt_int (a_snapshot a)), (''bom_ref'', PStr (a_bom_ref a)),
              (''name'', PStr (a_name a)), (''asset_class'', PStr (a_class a)), (''asset_type'', PStr (a_type a)),
              (''algorithm'', PStr (redact_legacy_algorithm (a_algorithm a))),
              (''algorithm_family'', PStr (redact_legacy_algorithm (a_family a))),
              (''metadata'', redact_legacy_algorithms (PDict (a_metadata a)))]),
          (''target'',
             (case asset_target d a of None \<Rightarrow> PNone
              | Some t \<Rightarrow> PDict
                  [(''id'', PInt (tg_id t)), (''host'', PStr (tg_host t)), (''port'', PInt (tg_port t)),
                   (''transport'', PStr (tg_transport t)), (''protocol_hint'', PStr (tg_protocol_hint t)), (''sni'', opt_str (tg_sni t)),
                   (''agent_enabled'', PBool (tg_agent_enabled t)), (''context'', PDict (tg_context t))])),
          (''effective_context'', PDict (effective_context d a ov)),
          (''context_sources'', PDict (map (\<lambda>(k, x). (k, PStr x)) (context_sources d a ov))),
          (''risk'', PDict [(''score'', PInt score), (''tier'', PStr (rs_tier s)),
                          (''factors'', redact_legacy_algorithms (PDict (rs_factors s)))])]))"

definition MIGRATION_SUGGESTION_PROMPT_VERSION :: string where
  "MIGRATION_SUGGESTION_PROMPT_VERSION = ''migration-candidate-suggestion-v1''"

definition MIGRATION_SUGGESTION_SCHEMA :: pyval where
  "MIGRATION_SUGGESTION_SCHEMA =
     PDict
       [(''selected_candidate_id'', PStr ''one candidate_id from allowed_candidates''),
        (''confidence'', PStr ''number between 0 and 1''),
        (''rationale'', PStr ''one concise sentence using only supplied Enriched CBOM evidence''),
        (''evidence'', strings [''short strings copied or derived from supplied fields''])]"

definition migration_guardrails :: "string list" where
  "migration_guardrails =
     [''Select exactly one allowed candidate_id.'', ''Do not invent algorithms or modify algorithm names.'',
      ''Use Enriched CBOM context only as evidence for choosing among allowed candidates.'',
      ''If evidence is weak, select policy_default.'']"

definition build_migration_suggestion_prompt :: "pyval \<Rightarrow> choice list \<Rightarrow> prompt" where
  "build_migration_suggestion_prompt enriched options =
     (let payload = PDict
        [(''enriched_cbom'', enriched), (''policy_default'', option_payload (hd options)),
         (''allowed_candidates'', PList (map option_payload options)), (''guardrails'', strings migration_guardrails)]
      in \<lparr>pm_version = MIGRATION_SUGGESTION_PROMPT_VERSION,
          pm_system = ''You choose a PQC migration recommendation for one cryptographic asset. '' @
            ''You must choose only from the supplied allowed_candidates. Return concise JSON only.'',
          pm_user = ''Choose the best PQC migration candidate for this asset.'' @ nl @
            ''Use the Enriched CBOM context to decide whether the policy default or an allowed alternative is more appropriate.'' @ nl @
            ''Do not invent algorithm names. Do not recommend changes outside allowed_candidates.'' @ nl @ nl @
            ''Payload:'' @ nl @ json_indent 0 (sort_keys payload) @ nl @ nl @
            ''Required JSON schema:'' @ nl @ json_indent 0 (sort_keys MIGRATION_SUGGESTION_SCHEMA),
          pm_schema = MIGRATION_SUGGESTION_SCHEMA, pm_payload = payload\<rparr>)"

section \<open>The answer\<close>

text \<open>The chosen option, what the answer says of it, the reason of a fallback and the answer itself.\<close>

record selection =
  sl_option :: choice
  sl_confidence :: "pyfloat option"
  sl_rationale :: "string option"
  sl_evidence :: "string list"
  sl_fallback :: "string option"
  sl_response :: "pyval dict"

definition confidence_or_none :: "pyval \<Rightarrow> py_error + pyfloat option" where
  "confidence_or_none v =
     (case py_float v of
        Inl (TypeError m) \<Rightarrow> Inr None
      | Inl (ValueError m) \<Rightarrow> Inr None
      | Inl e \<Rightarrow> Inl e
      | Inr x \<Rightarrow> Inr (Some (clamp_two x)))"

definition string_or_none :: "pyval \<Rightarrow> string option" where
  "string_or_none v = (case v of PStr s \<Rightarrow> if strip s \<noteq> [] then Some (strip s) else None | _ \<Rightarrow> None)"

definition evidence_list :: "pyval \<Rightarrow> string list" where
  "evidence_list v = (case v of PList xs \<Rightarrow> take 8 (filter (\<lambda>s. s \<noteq> []) (map (\<lambda>x. strip (py_str x)) xs)) | _ \<Rightarrow> [])"

definition stripped_text :: "pyval \<Rightarrow> string" where
  "stripped_text v = strip (py_str (py_or v (PStr [])))"

definition find_option_by_strategy_or_target :: "pyval dict \<Rightarrow> choice list \<Rightarrow> choice option" where
  "find_option_by_strategy_or_target data options =
     (let target = stripped_text (pget data ''target_algorithm''); strategy = stripped_text (pget data ''strategy'')
      in List.find (\<lambda>c. target \<noteq> [] \<and> rec_target (ch_recommendation c) = target \<and>
                       (strategy = [] \<or> rec_strategy (ch_recommendation c) = strategy)) options)"

definition parse_migration_suggestion_response :: "string \<Rightarrow> choice list \<Rightarrow> py_error + selection" where
  "parse_migration_suggestion_response text options =
     (let extracted = extract_json_object (ValueError ''migration suggestion response did not include a JSON object'') text
      in rbind (case extracted of Inr m \<Rightarrow> Inr (m, None) | Inl (ValueError e) \<Rightarrow> Inr ([], Some ''invalid_json'') | Inl e \<Rightarrow> Inl e)
        (\<lambda>(data, invalid).
          let selected_id = stripped_text (py_or (pget data ''selected_candidate_id'') (pget data ''candidate_id''));
              by_id = find_row ch_id selected_id (rev options);
              selected = (case by_id of Some c \<Rightarrow> Some c | None \<Rightarrow> find_option_by_strategy_or_target data options)
          in rbind (confidence_or_none (pget data ''confidence'')) (\<lambda>confidence.
               Inr \<lparr>sl_option = (case selected of Some c \<Rightarrow> c | None \<Rightarrow> hd options),
                    sl_confidence = confidence, sl_rationale = string_or_none (pget data ''rationale''),
                    sl_evidence = evidence_list (pget data ''evidence''),
                    sl_fallback = (case selected of Some c \<Rightarrow> invalid
                                   | None \<Rightarrow> Some (case invalid of Some r \<Rightarrow> r | None \<Rightarrow> ''candidate_not_allowed'')),
                    sl_response = data\<rparr>)))"

definition selected_recommendation :: "selection \<Rightarrow> recommendation" where
  "selected_recommendation sl =
     (let r = ch_recommendation (sl_option sl);
          r1 = (case sl_rationale sl of None \<Rightarrow> r | Some x \<Rightarrow> r\<lparr>rec_rationale := x\<rparr>)
      in case sl_confidence sl of None \<Rightarrow> r1 | Some x \<Rightarrow> r1\<lparr>rec_confidence := x\<rparr>)"

text \<open>The new plan item and its \<open>ai_recommendation\<close>.\<close>

definition apply_ai_migration_selection :: "item \<Rightarrow> selection \<Rightarrow> item \<times> pyval" where
  "apply_ai_migration_selection it sl =
     (it\<lparr>it_recommendation := selected_recommendation sl\<rparr>,
      PDict [(''source'', PStr ''llm_guarded_allowed_candidates''), (''selected_candidate_id'', PStr (ch_id (sl_option sl))),
             (''evidence'', strings (sl_evidence sl)), (''fallback'', fallback_metadata (sl_fallback sl))])"

definition migration_suggestion_body :: "risk_score \<Rightarrow> item \<Rightarrow> prompt \<Rightarrow> completion \<Rightarrow> selection \<Rightarrow> pyval" where
  "migration_suggestion_body s it pm cp sl =
     (case apply_ai_migration_selection it sl of (it', ai) \<Rightarrow>
        PDict [(''asset_id'', PInt (rs_asset s)), (''prompt_version'', PStr MIGRATION_SUGGESTION_PROMPT_VERSION),
               (''plan_item'', PDict (item_json it' @ [(''ai_recommendation'', ai)])),
               (''provider'', PDict (completion_metadata cp)), (''fallback'', fallback_metadata (sl_fallback sl)),
               (''llm_trace'', PDict
                  [(''request'', prompt_trace pm),
                   (''response'', PDict [(''raw'', PStr (cp_content cp)), (''parsed'', PDict (sl_response sl))])])])"

definition suggest_migration_for_risk_score :: "world \<Rightarrow> risk_score \<Rightarrow> db \<Rightarrow> py_error + suggestion" where
  "suggest_migration_for_risk_score w s d =
     rbind (recommend_for_risk_score s d) (\<lambda>it.
     rbind (get_row a_id (rs_asset s) (db_assets d)) (\<lambda>a.
     rbind (enriched_cbom_payload s a d) (\<lambda>enriched.
       let options = allowed_migration_options it; pm = build_migration_suggestion_prompt enriched options
       in case call_qualitative_risk_llm w pm None of
            Inl (ProviderUnavailable m) \<Rightarrow> Inr (Unavailable m)
          | Inl (ProviderError m) \<Rightarrow> Inr (Unavailable m)
          | Inl e \<Rightarrow> Inl e
          | Inr cp \<Rightarrow> rmap (\<lambda>sl. Suggested (migration_suggestion_body s it pm cp sl))
                      (parse_migration_suggestion_response (cp_content cp) options))))"


section \<open>The choice is guarded\<close>

lemma selection_allowed:
  assumes "parse_migration_suggestion_response text options = Inr sl" and "options \<noteq> []"
  shows "sl_option sl \<in> set options" and "case sl_confidence sl of None \<Rightarrow> True | Some x \<Rightarrow> in_range 0 1 x"
proof -
  obtain data invalid confidence selected where sl: "sl_option sl = (case selected of Some c \<Rightarrow> c | None \<Rightarrow> hd options)"
      "sl_confidence sl = confidence" "confidence_or_none (pget data ''confidence'') = Inr confidence"
    and selected: "selected = (case find_row ch_id (stripped_text (py_or (pget data ''selected_candidate_id'') (pget data ''candidate_id''))) (rev options)
        of Some c \<Rightarrow> Some c | None \<Rightarrow> find_option_by_strategy_or_target data options)"
    using assms(1) unfolding parse_migration_suggestion_response_def Let_def rbind_Inr_iff by (auto split: prod.splits simp: rbind_Inr_iff)
  have "selected = Some c \<Longrightarrow> c \<in> set options" for c
    using selected by (auto simp: find_option_by_strategy_or_target_def Let_def find_Some_iff split: option.splits dest!: find_row_Some)
  then show "sl_option sl \<in> set options" using sl(1) assms(2) by (auto split: option.splits)
  show "case sl_confidence sl of None \<Rightarrow> True | Some x \<Rightarrow> in_range 0 1 x"
    using sl(2,3) by (auto simp: confidence_or_none_def clamp_two_range split: sum.splits py_error.splits option.splits)
qed

lemma recommended_alternatives: "recommend_for_risk_score s d = Inr it \<Longrightarrow> it_alternatives it = []"
  by (auto simp: recommend_for_risk_score_def rbind_Inr_iff dest!: recommend_Inr(4))

lemma recommended_confidence: "recommend_for_risk_score s d = Inr it \<Longrightarrow> in_range 0 1 (rec_confidence (it_recommendation it))"
proof -
  assume "recommend_for_risk_score s d = Inr it"
  then obtain i n t alg fam score tier ctx caps where "recommend_migration i n t alg fam score tier ctx caps = Inr it"
    by (auto simp: recommend_for_risk_score_def rbind_Inr_iff)
  then have "in_range (1 / 2) (91 / 100) (rec_confidence (it_recommendation it))"
    by (simp add: recommend_Inr confidence_bounds blockers_length)
  then show ?thesis by (cases "rec_confidence (it_recommendation it)") (auto simp: in_range_def)
qed

text \<open>C26. A language model cannot change the plan: whatever it answers, the option it selects is an allowed one, and the plan
  item keeps the engine's strategy, algorithms, phase, blockers, rollback and validation; only the rationale and the confidence
  (still between 0 and 1) can be the model's.\<close>

theorem ai_keeps_algorithms:
  assumes "recommend_for_risk_score s d = Inr it"
    and "parse_migration_suggestion_response text (allowed_migration_options it) = Inr sl"
  shows "let old = it_recommendation it; new = it_recommendation (fst (apply_ai_migration_selection it sl))
    in sl_option sl \<in> set (allowed_migration_options it) \<and>
       new\<lparr>rec_rationale := rec_rationale old, rec_confidence := rec_confidence old\<rparr> = old \<and> in_range 0 1 (rec_confidence new)"
proof -
  have options: "allowed_migration_options it = [\<lparr>ch_id = ''policy_default'', ch_label = ''Policy default PQC target'',
      ch_recommendation = it_recommendation it\<rparr>]"
    using recommended_alternatives [OF assms(1)] by (simp add: allowed_migration_options_def)
  have "allowed_migration_options it \<noteq> []" by (simp add: options)
  note sl = selection_allowed [OF assms(2) this]
  have "ch_recommendation (sl_option sl) = it_recommendation it" using sl(1) by (simp add: options)
  then show ?thesis
    using sl recommended_confidence [OF assms(1)]
    by (cases "sl_confidence sl"; cases "sl_rationale sl")
      (simp_all add: apply_ai_migration_selection_def selected_recommendation_def Let_def)
qed

definition sample_plan_asset :: asset where
  "sample_plan_asset = (plain_asset 3 ''RSA-2048'')\<lparr>a_family := ''RSA''\<rparr>"

definition sample_plan_score :: risk_score where
  "sample_plan_score = \<lparr>rs_id = 7, rs_snapshot = Some 1, rs_asset = 3, rs_score = Fin 80, rs_tier = ''HIGH'', rs_factors = [], rs_computed = 0\<rparr>"

definition sample_plan_db :: db where
  "sample_plan_db = empty_db\<lparr>db_assets := [sample_plan_asset], db_risk_scores := [sample_plan_score]\<rparr>"

definition sample_choice_text :: string where
  "sample_choice_text = ''{\"selected_candidate_id\": \"alternative_1\", \"target_algorithm\": \"AES\", \"rationale\": \" faster \"}''"

lemma recommend_returns:
  assumes "find_row a_id (rs_asset s) (db_assets d) = Some a" and "fround_int (rs_score s) = Inr score"
    and "risk_context s = Inr ctx" and "context_typed ctx"
  shows "is_ok (recommend_for_risk_score s d)"
proof (cases "recommend_for_risk_score s d")
  case (Inl e)
  then have "recommend_migration (rs_asset s) (a_name a) (a_type a) (Some (a_algorithm a)) (Some (a_family a)) score (rs_tier s) ctx
      (migration_capabilities a (asset_target d a)) = Inl e"
    using assms by (simp add: recommend_for_risk_score_def get_row_def)
  from choose_strategy_error [OF recommend_Inl [OF this]] show ?thesis using assms(4) by simp
qed (simp add: is_ok_def)

lemma sample_plan_item: "is_ok (recommend_for_risk_score sample_plan_score sample_plan_db)"
proof (rule recommend_returns)
  show "find_row a_id (rs_asset sample_plan_score) (db_assets sample_plan_db) = Some sample_plan_asset"
    by (simp add: sample_plan_score_def sample_plan_db_def sample_plan_asset_def find_row_Cons)
  show "fround_int (rs_score sample_plan_score) = Inr 80" "risk_context sample_plan_score = Inr []" "context_typed []"
    by code_simp+
qed

lemma sample_choice_parsed:
  assumes "recommend_for_risk_score sample_plan_score sample_plan_db = Inr it"
  shows "is_ok (parse_migration_suggestion_response sample_choice_text (allowed_migration_options it))"
proof -
  let ?m = "extract_json_object (ValueError ''migration suggestion response did not include a JSON object'') sample_choice_text"
  have "case ?m of Inr data \<Rightarrow> pget data ''confidence'' = PNone | Inl e \<Rightarrow> False" by code_simp
  then obtain data where "?m = Inr data" "pget data ''confidence'' = PNone" by (cases ?m) auto
  moreover have "confidence_or_none PNone = Inr None" by code_simp
  ultimately show ?thesis by (simp add: parse_migration_suggestion_response_def Let_def is_ok_def)
qed

theorem ai_keeps_algorithms_witness:
  "\<exists>it sl. recommend_for_risk_score sample_plan_score sample_plan_db = Inr it \<and>
     parse_migration_suggestion_response sample_choice_text (allowed_migration_options it) = Inr sl \<and>
     rec_target (it_recommendation (fst (apply_ai_migration_selection it sl))) = rec_target (it_recommendation it)"
proof -
  obtain it where it: "recommend_for_risk_score sample_plan_score sample_plan_db = Inr it"
    using sample_plan_item by (auto simp: is_ok_iff)
  obtain sl where sl: "parse_migration_suggestion_response sample_choice_text (allowed_migration_options it) = Inr sl"
    using sample_choice_parsed [OF it] by (auto simp: is_ok_iff)
  let ?old = "it_recommendation it" and ?new = "it_recommendation (fst (apply_ai_migration_selection it sl))"
  have "?new\<lparr>rec_rationale := rec_rationale ?old, rec_confidence := rec_confidence ?old\<rparr> = ?old"
    using ai_keeps_algorithms [OF it sl] by (simp add: Let_def)
  then have "rec_target (?new\<lparr>rec_rationale := rec_rationale ?old, rec_confidence := rec_confidence ?old\<rparr>) = rec_target ?old" by (rule arg_cong)
  then have "rec_target ?new = rec_target ?old" by simp
  with it sl show ?thesis by blast
qed

end
