(* ===== verification/Cbom.thy ===== *)
theory Cbom
  imports Migration_Plan
begin

text \<open>
  \<open>apps/snapshots/cbom.py\<close>: the CycloneDX document of a snapshot.  One component per asset, in the order of the keys, with
  its evidence, context, risk and migration properties; one dependency row per component that has edges; one annotation with
  the whole migration plan.

  Rows are ordered by the code points of their references where the database would use its collation.  Identifiers and times
  are the integers of the rows.
\<close>

section \<open>Properties\<close>

definition name_value :: "string \<Rightarrow> string \<Rightarrow> pyval" where
  "name_value name v = PDict [(''name'', PStr name), (''value'', PStr v)]"

definition component_type :: "asset \<Rightarrow> string" where
  "component_type a = (if a_class a = ''crypto'' then ''crypto-asset'' else a_class a)"

definition cbom_vulnerable :: "asset \<Rightarrow> bool" where
  "cbom_vulnerable a = (a_family a \<in> set [''RSA'', ''DSA'', ''ECDSA'', ''ECDH'', ''DH''])"

definition SAFE_KEYS :: "string dict" where
  "SAFE_KEYS =
     [(''scanner'', ''evidence.scanner''), (''type'', ''evidence.type''), (''path'', ''evidence.path''),
      (''fingerprint_sha256'', ''evidence.fingerprint_sha256''), (''key_size_bits'', ''crypto.key_size_bits''),
      (''in_use'', ''evidence.in_use''), (''dormant'', ''evidence.dormant''), (''referenced_by'', ''evidence.referenced_by''),
      (''source_scanners'', ''evidence.source_scanners''), (''source_paths'', ''evidence.source_paths''),
      (''source_bom_refs'', ''evidence.source_bom_refs''), (''merged'', ''evidence.merged''),
      (''minimum_tls_version'', ''crypto.minimum_tls_version''), (''format'', ''crypto.format'')]"

text \<open>A container as JSON, a bool in lower case, anything else by \<open>str\<close>.\<close>

definition evidence_text :: "pyval \<Rightarrow> string" where
  "evidence_text v =
     (case v of PDict d \<Rightarrow> dumps (sort_keys v) | PList xs \<Rightarrow> dumps (sort_keys v) | PBool b \<Rightarrow> lower (py_str v) | _ \<Rightarrow> py_str v)"

definition asset_metadata_properties :: "asset \<Rightarrow> pyval list" where
  "asset_metadata_properties a =
     concat (map (\<lambda>(key, name). let v = pget (a_metadata a) key in if v = PNone then [] else [name_value name (evidence_text v)]) SAFE_KEYS)"

definition homepage_properties :: "pyval dict \<Rightarrow> pyval list" where
  "homepage_properties m =
     concat (map (\<lambda>key. let v = pget m key
       in if v \<in> {PNone, PStr [], PList []} then []
          else [name_value (''context.homepage.'' @ key) (case v of PList xs \<Rightarrow> dumps (sort_keys v) | _ \<Rightarrow> py_str v)])
       [''source'', ''method'', ''url'', ''title'', ''description'', ''signals'', ''confidence''])"

definition target_context_properties :: "target option \<Rightarrow> pyval list" where
  "target_context_properties t =
     (case t of None \<Rightarrow> []
      | Some x \<Rightarrow>
          concat (map (\<lambda>key. let v = pget (tg_context x) key in if v = PNone then [] else [name_value (''context.'' @ key) (py_str v)])
            [''service_role'', ''sensitivity'', ''criticality'', ''exposure'', ''lifespan_years'']) @
          (case pget (tg_context x) ''homepage_inference'' of PDict m \<Rightarrow> homepage_properties m | _ \<Rightarrow> []))"

definition public_migration_strategy :: "string \<Rightarrow> string" where
  "public_migration_strategy s = (if s = ''no_change'' then ''monitor'' else ''pqc_transition'')"

definition public_migration_phase :: "string \<Rightarrow> string" where
  "public_migration_phase s = (if s = ''monitor'' then ''monitor'' else ''transition_review'')"

definition migration_plan_component_properties :: "item \<Rightarrow> pyval list" where
  "migration_plan_component_properties it =
     (let r = it_recommendation it
      in [name_value ''migration.asset_purpose'' (it_purpose it),
          name_value ''migration.strategy'' (public_migration_strategy (rec_strategy r)),
          name_value ''migration.target_algorithm'' (rec_target r),
          name_value ''migration.target_algorithm_set'' (dumps (strings (rec_target_set r))),
          name_value ''migration.final_algorithm_set'' (dumps (strings (rec_final_set r))),
          name_value ''migration.phase'' (public_migration_phase (rec_phase r)),
          name_value ''migration.agility_level'' (agi_level (it_agility it))])"

section \<open>Components\<close>

definition risk_properties :: "risk_score option \<Rightarrow> py_error + pyval list" where
  "risk_properties rs =
     (case rs of None \<Rightarrow> Inr []
      | Some s \<Rightarrow> rmap (\<lambda>n. [name_value ''risk.tier'' (rs_tier s), name_value ''risk.score'' (str_int n)]) (fround_int (rs_score s)))"

definition build_cbom_component :: "asset \<Rightarrow> item option \<Rightarrow> db \<Rightarrow> py_error + pyval" where
  "build_cbom_component a it d =
     rmap (\<lambda>risk. PDict
       [(''type'', PStr (component_type a)), (''bom-ref'', PStr (a_bom_ref a)), (''name'', PStr (a_name a)),
        (''cryptoProperties'', PDict
           [(''assetType'', PStr (a_type a)), (''algorithm'', PStr (a_algorithm a)), (''algorithmFamily'', PStr (a_family a))]),
        (''properties'', PList
           ((case a_target a of None \<Rightarrow> [] | Some i \<Rightarrow> if i = 0 then [] else [name_value ''internal:target_id'' (str_int i)]) @
            (if a_family a = [] then [] else [name_value ''internal:algorithm_family'' (a_family a)]) @
            [name_value ''internal:quantum_vulnerable'' (if cbom_vulnerable a then ''true'' else ''false'')] @
            asset_metadata_properties a @ target_context_properties (asset_target d a) @ risk @
            (case it of None \<Rightarrow> [] | Some x \<Rightarrow> migration_plan_component_properties x)))])
       (risk_properties (latest_risk (a_id a) d))"

definition build_enriched_asset_component :: "asset \<Rightarrow> db \<Rightarrow> py_error + pyval" where
  "build_enriched_asset_component a d =
     (case latest_risk (a_id a) d of
        None \<Rightarrow> build_cbom_component a None d
      | Some s \<Rightarrow> rbind (recommend_for_risk_score s d) (\<lambda>it. build_cbom_component a (Some it) d))"

section \<open>The rest of the document\<close>

definition snapshot_assets :: "int \<Rightarrow> db \<Rightarrow> asset list" where
  "snapshot_assets sn d = sort_key a_id (filter (\<lambda>a. a_snapshot a = Some sn) (db_assets d))"

definition metadata_properties :: "snapshot \<Rightarrow> asset list \<Rightarrow> item list \<Rightarrow> db \<Rightarrow> pyval list" where
  "metadata_properties sn assets plan d =
     (let targets = sort (remdups (concat (map (\<lambda>a. case asset_target d a of None \<Rightarrow> [] | Some t \<Rightarrow> [label_of t]) assets)))
      in [name_value ''internal:snapshot_id'' (str_int (sn_id sn))] @
         (case sn_scan_job sn of None \<Rightarrow> [] | Some i \<Rightarrow> if i = 0 then [] else [name_value ''internal:scan_job_id'' (str_int i)]) @
         (if targets = [] then [] else [name_value ''internal:targets'' (dumps (strings targets))]) @
         (if plan = [] then []
          else [name_value ''migration_plan.attached'' ''true'', name_value ''migration_plan.item_count'' (str_int (int (length plan)))]))"

text \<open>The edges of the snapshot as pairs of references.\<close>

definition snapshot_edges :: "int \<Rightarrow> db \<Rightarrow> py_error + (string \<times> string) list" where
  "snapshot_edges sn d =
     rmapM (\<lambda>e. rbind (get_row a_id (dp_source e) (db_assets d)) (\<lambda>s.
                rmap (\<lambda>t. (a_bom_ref s, a_bom_ref t)) (get_row a_id (dp_target e) (db_assets d))))
       (filter (\<lambda>e. dp_snapshot e = sn) (db_dependencies d))"

definition dependency_rows :: "asset list \<Rightarrow> (string \<times> string) list \<Rightarrow> (string \<times> string list) list" where
  "dependency_rows assets edges =
     map (\<lambda>a. (a_bom_ref a, sort (remdups (map snd (filter (\<lambda>e. fst e = a_bom_ref a) edges)))))
       (filter (\<lambda>a. a_bom_ref a \<in> fst ` set edges) assets)"

definition dependency_json :: "string \<times> string list \<Rightarrow> pyval" where
  "dependency_json row = PDict [(''ref'', PStr (fst row)), (''dependsOn'', strings (snd row))]"

definition migration_plan_attachment_item :: "item \<Rightarrow> asset option \<Rightarrow> pyval" where
  "migration_plan_attachment_item it a =
     (let r = it_recommendation it
      in PDict
        [(''asset_id'', PInt (it_asset it)), (''bom_ref'', opt_str (map_option a_bom_ref a)), (''asset_name'', PStr (it_name it)),
         (''asset_type'', PStr (it_type it)), (''asset_purpose'', PStr (it_purpose it)), (''risk_score'', PInt (it_score it)),
         (''tier'', PStr (it_tier it)), (''current_algorithm'', PStr (it_algorithm it)),
         (''quantum_vulnerable'', PBool (it_vulnerable it)), (''strategy'', PStr (public_migration_strategy (rec_strategy r))),
         (''target_algorithm'', PStr (rec_target r)), (''target_algorithm_set'', strings (rec_target_set r)),
         (''final_algorithm_set'', strings (rec_final_set r)), (''phase'', PStr (public_migration_phase (rec_phase r))),
         (''blockers'', strings (rec_blockers r)), (''validation'', strings (rec_validation r)),
         (''agility_level'', PStr (agi_level (it_agility it))), (''agility_score'', PInt (agi_score (it_agility it)))])"

definition application_component :: pyval where
  "application_component =
     PDict [(''type'', PStr ''application''), (''name'', PStr ''PQC Risk Assessment System''), (''version'', PStr ''0.1.0'')]"

definition plan_subjects :: "asset list \<Rightarrow> item list \<Rightarrow> string list" where
  "plan_subjects assets plan =
     concat (map (\<lambda>it. case find_row a_id (it_asset it) assets of None \<Rightarrow> []
                       | Some a \<Rightarrow> if a_bom_ref a = [] then [] else [a_bom_ref a]) plan)"

definition migration_plan_annotations :: "snapshot \<Rightarrow> asset list \<Rightarrow> item list \<Rightarrow> pyval list" where
  "migration_plan_annotations sn assets plan =
     (if plan = [] then []
      else (let items = map (\<lambda>it. migration_plan_attachment_item it (find_row a_id (it_asset it) assets)) plan
        in [PDict
             [(''bom-ref'', PStr (''migration-plan:snapshot:'' @ str_int (sn_id sn))), (''subjects'', strings (plan_subjects assets plan)),
              (''annotator'', PDict [(''component'', application_component)]), (''timestamp'', PInt (sn_created sn)),
              (''text'', PStr ''PQC migration plan generated from snapshot risk scores.''),
              (''properties'', PList
                 [name_value ''attachment.type'' ''pqc_migration_plan'', name_value ''attachment.format'' ''application/json'',
                  name_value ''migration_plan.item_count'' (str_int (int (length items))),
                  name_value ''migration_plan.items'' (dumps (sort_keys (PList items)))])]]))"

text \<open>The item of an asset: the last one with its key.\<close>

definition item_of :: "item list \<Rightarrow> int \<Rightarrow> item option" where
  "item_of plan i = find_row it_asset i (rev plan)"

definition build_cbom_document :: "snapshot \<Rightarrow> db \<Rightarrow> py_error + pyval dict" where
  "build_cbom_document sn d =
     (let assets = snapshot_assets (sn_id sn) d
      in rbind (snapshot_migration_plan_items (sn_id sn) d) (\<lambda>plan.
         rbind (rmapM (\<lambda>a. build_cbom_component a (item_of plan (a_id a)) d) assets) (\<lambda>components.
         rbind (snapshot_edges (sn_id sn) d) (\<lambda>edges.
           Inr ([(''bomFormat'', PStr ''CycloneDX''), (''specVersion'', PStr ''1.6''), (''serialNumber'', PStr (sn_serial sn)),
                 (''version'', PInt 1),
                 (''metadata'', PDict
                    [(''timestamp'', PInt (sn_created sn)), (''component'', application_component),
                     (''properties'', PList (metadata_properties sn assets plan d))]),
                 (''components'', PList components),
                 (''dependencies'', PList (map dependency_json (dependency_rows assets edges)))] @
                (if plan = [] then [] else [(''annotations'', PList (migration_plan_annotations sn assets plan))]))))))"


section \<open>The references of a document\<close>

definition component_ref :: "pyval \<Rightarrow> pyval" where
  "component_ref v = (case v of PDict c \<Rightarrow> pget c ''bom-ref'' | _ \<Rightarrow> PNone)"

lemma component_has_ref: "build_cbom_component a it d = Inr c \<Longrightarrow> component_ref c = PStr (a_bom_ref a)"
  by (auto simp: build_cbom_component_def rmap_def rbind_Inr_iff component_ref_def pget_def dget_or_def)

lemma components_have_refs:
  "rmapM (\<lambda>a. build_cbom_component a (item_of plan (a_id a)) d) assets = Inr cs \<Longrightarrow>
     map component_ref cs = map (\<lambda>a. PStr (a_bom_ref a)) assets"
  by (induction assets arbitrary: cs) (auto simp: rbind_Inr_iff component_has_ref)

lemma snapshot_refs_distinct:
  assumes "distinct (map (\<lambda>a. (a_snapshot a, a_bom_ref a)) (db_assets d))"
  shows "distinct (map (\<lambda>a. PStr (a_bom_ref a)) (snapshot_assets sn d))"
proof -
  let ?xs = "filter (\<lambda>a. a_snapshot a = Some sn) (db_assets d)"
  have "distinct (map (\<lambda>a. (a_snapshot a, a_bom_ref a)) ?xs)" using assms by (simp add: distinct_map_filter)
  then have "distinct ?xs" "inj_on (\<lambda>a. (a_snapshot a, a_bom_ref a)) (set ?xs)" by (simp_all add: distinct_map)
  then show ?thesis by (auto simp: snapshot_assets_def distinct_map inj_on_def)
qed

text \<open>What the dependency table says of a snapshot, by itself: the references the asset with a reference depends on.\<close>

definition depends_on :: "int \<Rightarrow> db \<Rightarrow> string \<Rightarrow> string set" where
  "depends_on sn d r =
     {a_bom_ref t | e s t. e \<in> set (db_dependencies d) \<and> dp_snapshot e = sn \<and> find_row a_id (dp_source e) (db_assets d) = Some s
        \<and> find_row a_id (dp_target e) (db_assets d) = Some t \<and> a_bom_ref s = r}"

definition named_edge :: "db \<Rightarrow> dependency \<Rightarrow> string \<times> string \<Rightarrow> bool" where
  "named_edge d e y \<longleftrightarrow> (\<exists>s t. find_row a_id (dp_source e) (db_assets d) = Some s
     \<and> find_row a_id (dp_target e) (db_assets d) = Some t \<and> y = (a_bom_ref s, a_bom_ref t))"

lemma edges_named:
  "rmapM (\<lambda>e. rbind (get_row a_id (dp_source e) (db_assets d)) (\<lambda>s.
             rmap (\<lambda>t. (a_bom_ref s, a_bom_ref t)) (get_row a_id (dp_target e) (db_assets d)))) es = Inr ys
   \<Longrightarrow> set ys = {y. \<exists>e\<in>set es. named_edge d e y}"
proof (induction es arbitrary: ys)
  case (Cons e es)
  let ?pair = "\<lambda>e. rbind (get_row a_id (dp_source e) (db_assets d)) (\<lambda>s.
             rmap (\<lambda>t. (a_bom_ref s, a_bom_ref t)) (get_row a_id (dp_target e) (db_assets d)))"
  obtain y zs where y: "?pair e = Inr y" and zs: "rmapM ?pair es = Inr zs" and ys: "ys = y # zs"
    using Cons.prems by (auto simp: res_simps)
  have "named_edge d e z \<longleftrightarrow> z = y" for z
    using y by (auto simp: named_edge_def rbind_Inr_iff rmap_Inr_iff get_row_Inr)
  then show ?case using Cons.IH [OF zs] by (auto simp: ys)
qed simp

lemma snapshot_edges_set:
  assumes "snapshot_edges sn d = Inr edges"
  shows "depends_on sn d r = {b. (r, b) \<in> set edges}"
  unfolding depends_on_def edges_named [OF assms [unfolded snapshot_edges_def]] named_edge_def by auto

lemma dependency_rows_set:
  assumes "snapshot_edges sn d = Inr edges"
  shows "set (map fst (dependency_rows assets edges)) = {r \<in> a_bom_ref ` set assets. depends_on sn d r \<noteq> {}}"
    and "row \<in> set (dependency_rows assets edges) \<Longrightarrow>
       set (snd row) = depends_on sn d (fst row) \<and> sorted (snd row) \<and> distinct (snd row)"
proof -
  show "set (map fst (dependency_rows assets edges)) = {r \<in> a_bom_ref ` set assets. depends_on sn d r \<noteq> {}}"
    unfolding snapshot_edges_set [OF assms] by (force simp: dependency_rows_def)
  assume "row \<in> set (dependency_rows assets edges)"
  then obtain a :: asset where a: "row = (a_bom_ref a, sort (remdups (map snd (filter (\<lambda>e. fst e = a_bom_ref a) edges))))"
    by (auto simp: dependency_rows_def)
  have "set (snd row) = {b. (fst row, b) \<in> set edges}" unfolding a by force
  then show "set (snd row) = depends_on sn d (fst row) \<and> sorted (snd row) \<and> distinct (snd row)"
    unfolding snapshot_edges_set [OF assms] by (simp add: a)
qed

lemma dependency_rows_refs: "map fst (dependency_rows assets edges) = filter (\<lambda>r. r \<in> fst ` set edges) (map a_bom_ref assets)"
  by (induction assets) (simp_all add: dependency_rows_def)

text \<open>The subjects of the annotations of a document.\<close>

definition annotation_subjects :: "pyval dict \<Rightarrow> pyval list" where
  "annotation_subjects doc =
     (case pget doc ''annotations'' of
        PList xs \<Rightarrow> concat (map (\<lambda>x. case x of PDict m \<Rightarrow> (case pget m ''subjects'' of PList ss \<Rightarrow> ss | _ \<Rightarrow> []) | _ \<Rightarrow> []) xs)
      | _ \<Rightarrow> [])"

lemma plan_subjects_refs: "set (plan_subjects assets plan) \<subseteq> a_bom_ref ` set assets"
proof (induction plan)
  case (Cons it plan)
  then show ?case
    by (cases "find_row a_id (it_asset it) assets") (auto simp: plan_subjects_def dest: find_row_Some)
qed (simp add: plan_subjects_def)

lemma annotations_subjects:
  assumes "pget doc ''annotations'' = (if plan = [] then PNone else PList (migration_plan_annotations sn assets plan))"
  shows "set (annotation_subjects doc) \<subseteq> PStr ` a_bom_ref ` set assets"
proof (cases "plan = []")
  case False
  have "annotation_subjects doc = map PStr (plan_subjects assets plan)"
    using assms False
    by (simp add: annotation_subjects_def migration_plan_annotations_def Let_def pget_def [of "_ # _"] dget_or_def [of "_ # _"] strings_def)
  then show ?thesis using image_mono [OF plan_subjects_refs, of PStr assets plan] by simp
qed (use assms in \<open>simp add: annotation_subjects_def\<close>)

lemma document_parts:
  assumes "build_cbom_document sn d = Inr doc"
  obtains plan cs edges where "rmapM (\<lambda>a. build_cbom_component a (item_of plan (a_id a)) d) (snapshot_assets (sn_id sn) d) = Inr cs"
    and "snapshot_edges (sn_id sn) d = Inr edges" and "pget doc ''components'' = PList cs"
    and "pget doc ''dependencies'' = PList (map dependency_json (dependency_rows (snapshot_assets (sn_id sn) d) edges))"
    and "pget doc ''annotations'' =
      (if plan = [] then PNone else PList (migration_plan_annotations sn (snapshot_assets (sn_id sn) d) plan))"
  using assms by (auto simp: build_cbom_document_def Let_def rbind_Inr_iff pget_def dget_or_def)


definition sample_cbom_db :: db where
  "sample_cbom_db = empty_db\<lparr>
     db_assets := [(plain_asset 3 ''RSA-2048'')\<lparr>a_bom_ref := ''b''\<rparr>, (plain_asset 2 ''ECDSA'')\<lparr>a_bom_ref := ''a''\<rparr>],
     db_dependencies := [\<lparr>dp_snapshot = 1, dp_source = 3, dp_target = 2, dp_relation = ''dependsOn'', dp_semantic = []\<rparr>]\<rparr>"

definition sample_snapshot :: snapshot where
  "sample_snapshot = \<lparr>sn_id = 1, sn_scan_job = None, sn_serial = ''urn:1'', sn_summary = PDict [], sn_validation_errors = [], sn_created = 0\<rparr>"

lemma sample_cbom_built: "is_ok (build_cbom_document sample_snapshot sample_cbom_db)"
  by code_simp


end
