(* ===== verification/Assets_Api.thy ===== *)
theory Assets_Api
  imports Cbom
begin

text \<open>
  The views of an asset in \<open>apps/assets/services.py\<close> and the endpoints of \<open>apps/assets/api.py\<close>: the detail of an asset, the
  patch of its context (which writes the override and enqueues a recomputation in one transaction), the suggestion of a
  context and the refresh of its assessment.

  The creation time of an asset and the generation time of an assessment, which the framework sets, are arguments.  The
  schema validation of the request bodies is the framework's: a patch holds the fields the request sets, each \<open>None\<close> or a
  value of its type.
\<close>

section \<open>Views\<close>

definition copied :: "string list \<Rightarrow> pyval dict \<Rightarrow> pyval dict" where
  "copied keys m = concat (map (\<lambda>k. case dget m k of None \<Rightarrow> [] | Some v \<Rightarrow> [(k, v)]) keys)"

definition asset_summary :: "asset \<Rightarrow> pyval" where
  "asset_summary a =
     PDict ([(''algorithm'', PStr (a_algorithm a)), (''algorithm_family'', PStr (a_family a))] @
       copied [''scanner'', ''path'', ''fingerprint_sha256'', ''in_use'', ''dormant'', ''merged''] (a_metadata a))"

definition crypto_properties :: "asset \<Rightarrow> pyval" where
  "crypto_properties a =
     (let m = a_metadata a
      in PDict ([(''algorithm'', PStr (a_algorithm a)), (''algorithm_family'', PStr (a_family a))] @
           (if pget m ''key_size_bits'' \<noteq> PNone then [(''key_size_bits'', pget m ''key_size_bits'')] else []) @
           (if truthy (pget m ''fingerprint_sha256'') then [(''fingerprint_sha256'', pget m ''fingerprint_sha256'')] else [])))"

definition asset_properties :: "asset \<Rightarrow> pyval" where
  "asset_properties a =
     PDict ((''bom_ref'', PStr (a_bom_ref a)) #
       filter (\<lambda>(k, v). v \<noteq> PNone)
         (copied [''scanner'', ''type'', ''path'', ''format'', ''minimum_tls_version'', ''in_use'', ''dormant'', ''referenced_by'',
                  ''source_scanners'', ''source_paths'', ''source_bom_refs'', ''merged''] (a_metadata a)))"

definition serialize_asset_summary :: "asset \<Rightarrow> risk_score option \<Rightarrow> db \<Rightarrow> py_error + pyval" where
  "serialize_asset_summary a rs d =
     rmap (\<lambda>risk. PDict
       [(''id'', PInt (a_id a)), (''snapshot_id'', opt_int (a_snapshot a)), (''bom_ref'', PStr (a_bom_ref a)), (''name'', PStr (a_name a)),
        (''asset_class'', PStr (a_class a)), (''asset_type'', PStr (a_type a)), (''target_id'', opt_int (a_target a)),
        (''target_label'', opt_str (target_label (asset_target d a))), (''summary'', asset_summary a), (''risk'', risk)])
       (case rs of None \<Rightarrow> Inr PNone | Some s \<Rightarrow> serialize_asset_risk_summary s)"

text \<open>The other end of an edge, with the edge: \<open>semantic or relation_type\<close>.\<close>

definition dependency_item :: "asset \<Rightarrow> dependency \<Rightarrow> pyval" where
  "dependency_item a e =
     PDict [(''id'', PInt (a_id a)), (''bom_ref'', PStr (a_bom_ref a)), (''name'', PStr (a_name a)),
            (''semantic'', PStr (or_str (dp_semantic e) (dp_relation e)))]"

definition dependency_items :: "(dependency \<Rightarrow> int) \<Rightarrow> dependency list \<Rightarrow> db \<Rightarrow> py_error + pyval" where
  "dependency_items end_of edges d =
     rmap (\<lambda>ends. PList (map (\<lambda>(a, e). dependency_item a e) (sort_key (\<lambda>(a, e). a_bom_ref a) ends)))
       (rmapM (\<lambda>e. rmap (\<lambda>a. (a, e)) (get_row a_id (end_of e) (db_assets d))) edges)"

definition serialize_dependencies :: "asset \<Rightarrow> db \<Rightarrow> py_error + pyval" where
  "serialize_dependencies a d =
     rbind (dependency_items dp_target (filter (\<lambda>e. dp_source e = a_id a) (db_dependencies d)) d) (\<lambda>out.
     rbind (dependency_items dp_source (filter (\<lambda>e. dp_target e = a_id a) (db_dependencies d)) d) (\<lambda>inc.
       Inr (PDict [(''dependsOn'', out), (''dependedBy'', inc)])))"

text \<open>The scores of every asset with the reference, through the snapshots, oldest snapshot first.\<close>

definition serialize_history :: "asset \<Rightarrow> db \<Rightarrow> py_error + pyval" where
  "serialize_history a d =
     rbind (rmapM (\<lambda>s. case rs_snapshot s of None \<Rightarrow> Inl (AttributeError ''created_at'')
                   | Some i \<Rightarrow> rmap (\<lambda>sn. (s, sn)) (get_row sn_id i (db_snapshots d)))
             (filter (\<lambda>s. case find_row a_id (rs_asset s) (db_assets d) of None \<Rightarrow> False | Some x \<Rightarrow> a_bom_ref x = a_bom_ref a)
               (db_risk_scores d))) (\<lambda>rows.
     rmap PList (rmapM (\<lambda>(s, sn). rmap (\<lambda>n. PDict
         [(''snapshot_id'', PInt (sn_id sn)), (''score'', PInt n), (''tier'', PStr (rs_tier s)),
          (''snapshot_created_at'', PInt (sn_created sn))]) (fround_int (rs_score s)))
       (sort_key (\<lambda>(s, sn). sn_created sn) (sort_key (\<lambda>(s, sn). rs_id s) rows))))"

definition serialize_asset_detail :: "asset \<Rightarrow> int option \<Rightarrow> (assessment \<Rightarrow> int option) \<Rightarrow> db \<Rightarrow> py_error + pyval" where
  "serialize_asset_detail a created generated d =
     (let ov = asset_override d a
      in rbind (case latest_risk (a_id a) d of None \<Rightarrow> Inr PNone | Some s \<Rightarrow> serialize_risk_detail s) (\<lambda>risk.
         rbind (case assessment_of d (a_id a) of None \<Rightarrow> Inr PNone | Some q \<Rightarrow> serialize_qualitative q (generated q)) (\<lambda>qualitative.
         rbind (serialize_dependencies a d) (\<lambda>dependencies.
         rbind (serialize_history a d) (\<lambda>history.
         rbind (build_enriched_asset_component a d) (\<lambda>component.
           Inr (PDict
             [(''id'', PInt (a_id a)), (''snapshot_id'', opt_int (a_snapshot a)), (''bom_ref'', PStr (a_bom_ref a)),
              (''name'', PStr (a_name a)), (''asset_class'', PStr (a_class a)), (''asset_type'', PStr (a_type a)),
              (''crypto_properties'', crypto_properties a), (''properties'', asset_properties a), (''discovered_at'', dt created),
              (''target'', (case asset_target d a of None \<Rightarrow> PNone
                 | Some t \<Rightarrow> PDict [(''id'', PInt (tg_id t)), (''host'', PStr (tg_host t)), (''port'', PInt (tg_port t))])),
              (''effective_context'', PDict (effective_context d a ov)), (''context_override'', PDict (override_to_dict ov)),
              (''context_sources'', PDict (map (\<lambda>(k, x). (k, PStr x)) (context_sources d a ov))),
              (''risk'', risk), (''qualitative'', qualitative), (''dependencies'', dependencies), (''history'', history),
              (''enriched_cbom_component'', component)])))))))"

section \<open>The context of an asset\<close>

text \<open>A patch: the fields that are set, in the order of the schema.  \<open>setattr\<close> stores a value of the field's type.\<close>

definition set_override_field :: "string \<Rightarrow> pyval \<Rightarrow> override \<Rightarrow> override" where
  "set_override_field f v ov =
     (if f = ''sensitivity'' then ov\<lparr>ov_sensitivity := text_value v\<rparr>
      else if f = ''lifespan_years'' then ov\<lparr>ov_lifespan_years := int_value v\<rparr>
      else if f = ''criticality'' then ov\<lparr>ov_criticality := text_value v\<rparr>
      else if f = ''exposure'' then ov\<lparr>ov_exposure := text_value v\<rparr>
      else ov\<lparr>ov_service_role := text_value v\<rparr>)"

definition patch_keys :: "pyval dict \<Rightarrow> string list \<Rightarrow> string list" where
  "patch_keys patch keys = fold (\<lambda>(f, v) ks. if v = PNone then removeAll f ks else List.insert f ks) patch (remdups keys)"

definition apply_patch :: "pyval dict \<Rightarrow> override \<Rightarrow> override" where
  "apply_patch patch ov =
     (let set_fields = fold (\<lambda>(f, v). set_override_field f v) patch ov
      in save_override (set_fields\<lparr>ov_keys := sort (patch_keys patch (ov_keys ov))\<rparr>))"

definition new_override :: "int \<Rightarrow> override" where
  "new_override asset =
     \<lparr>ov_asset = asset, ov_sensitivity = None, ov_lifespan_years = None, ov_criticality = None, ov_exposure = None,
      ov_service_role = None, ov_keys = []\<rparr>"

definition put_override :: "override \<Rightarrow> db \<Rightarrow> db" where
  "put_override ov d =
     d\<lparr>db_overrides := (if find_row ov_asset (ov_asset ov) (db_overrides d) = None then add_row ov (db_overrides d)
                       else put_row ov_asset ov (db_overrides d))\<rparr>"

definition not_found :: Job_Queue.response where
  "not_found = error_response ''not_found'' ''Resource not found.'' [] 404"

definition get_asset :: "int \<Rightarrow> (asset \<Rightarrow> int option) \<Rightarrow> (assessment \<Rightarrow> int option) \<Rightarrow> db \<Rightarrow> py_error + Job_Queue.response" where
  "get_asset i created generated d =
     (case find_row a_id i (db_assets d) of None \<Rightarrow> Inr not_found
      | Some a \<Rightarrow> rmap (Response 200) (serialize_asset_detail a (created a) generated d))"

definition patch_asset_context :: "int \<Rightarrow> pyval dict \<Rightarrow> int \<Rightarrow> db \<Rightarrow> Job_Queue.response \<times> db" where
  "patch_asset_context i patch now d =
     (case find_row a_id i (db_assets d) of None \<Rightarrow> (not_found, d)
      | Some a \<Rightarrow>
          (let old = (case asset_override d a of Some x \<Rightarrow> x | None \<Rightarrow> new_override i);
               ov = apply_patch patch old
           in case create_asset_recompute_job i now (put_override ov d) of (j, d') \<Rightarrow>
                (Response 200 (PDict
                   [(''asset_id'', PInt i), (''applied_overrides'', PDict patch), (''effective_context'', PDict (effective_context d' a (Some ov))),
                    (''context_override'', PDict (override_to_dict (Some ov))),
                    (''context_sources'', PDict (map (\<lambda>(k, x). (k, PStr x)) (context_sources d' a (Some ov)))),
                    (''recompute_job_id'', PInt (j_id j))]), d')))"

definition suggest_context :: "world \<Rightarrow> int \<Rightarrow> db \<Rightarrow> py_error + Job_Queue.response" where
  "suggest_context w i d =
     (case find_row a_id i (db_assets d) of None \<Rightarrow> Inr not_found
      | Some a \<Rightarrow>
          rmap (\<lambda>s. case s of Suggested body \<Rightarrow> Response 200 body
             | Unavailable m \<Rightarrow> error_response ''service_unavailable'' ''AI recommendation provider is unavailable.'' [(''reason'', PStr m)] 503)
            (suggest_asset_context w a d))"

definition request_qualitative_assessment :: "world \<Rightarrow> int \<Rightarrow> (assessment \<Rightarrow> int option) \<Rightarrow> db \<Rightarrow> (py_error + Job_Queue.response) \<times> db" where
  "request_qualitative_assessment w i generated d =
     (case find_row a_id i (db_assets d) of None \<Rightarrow> (Inr not_found, d)
      | Some a \<Rightarrow>
          (case refresh_asset_assessment w a d of
             Inl e \<Rightarrow> (Inl e, d)
           | Inr (None, d') \<Rightarrow> (Inl (AttributeError ''provider''), d')
           | Inr (Some q, d') \<Rightarrow> (rmap (Response 200) (serialize_qualitative q (generated q)), d')))"


section \<open>The effect of a patch\<close>

text \<open>What the schema lets through: known fields, each once, none or a value of the field's type.\<close>

definition patch_typed :: "pyval dict \<Rightarrow> bool" where
  "patch_typed patch =
     (dwf patch \<and> list_all (\<lambda>(f, v). f \<in> set CONTEXT_FIELDS \<and>
        (case v of PNone \<Rightarrow> True | PInt n \<Rightarrow> f = ''lifespan_years'' | PStr s \<Rightarrow> f \<noteq> ''lifespan_years'' | _ \<Rightarrow> False)) patch)"

text \<open>The overridden fields are exactly those with a value.\<close>

definition override_wf :: "override \<Rightarrow> bool" where
  "override_wf ov = list_all (\<lambda>f. (f \<in> set (ov_keys ov)) = (override_field ov f \<noteq> PNone)) CONTEXT_FIELDS"

lemma text_int_value [simp]:
  "opt_str (text_value (PStr s)) = PStr s" "opt_str (text_value PNone) = PNone" "opt_int (int_value (PInt n)) = PInt n"
  "opt_int (int_value PNone) = PNone"
  by (simp_all add: text_value_def int_value_def opt_str_def opt_int_def)

lemma override_field_set:
  assumes "patch_typed [(f, v)]" and "g \<in> set CONTEXT_FIELDS"
  shows "override_field (set_override_field f v ov) g = (if g = f then v else override_field ov g)"
  using assms by (cases v) (auto simp: patch_typed_def CONTEXT_FIELDS_def set_override_field_def override_field_def)

lemma patch_typed_Cons: "patch_typed (p # patch) \<Longrightarrow> patch_typed [p] \<and> patch_typed patch \<and> fst p \<notin> fst ` set patch"
  by (auto simp: patch_typed_def dwf_def)

lemma override_field_patched:
  "patch_typed patch \<Longrightarrow> g \<in> set CONTEXT_FIELDS \<Longrightarrow>
     override_field (fold (\<lambda>(f, v). set_override_field f v) patch ov) g =
       (case map_of patch g of Some v \<Rightarrow> v | None \<Rightarrow> override_field ov g)"
proof (induction patch arbitrary: ov)
  case (Cons p patch)
  obtain f v where p: "p = (f, v)" by (cases p)
  note t = patch_typed_Cons [OF Cons.prems(1), unfolded p]
  have "f \<notin> dom (map_of patch)" using t by (simp add: dom_map_of_conv_image_fst)
  then have "map_of patch f = None" by auto
  then show ?case using Cons.IH [of "set_override_field f v ov"] override_field_set [of f v g ov] t Cons.prems(2)
    by (auto simp: p split: option.split)
qed simp

lemma set_patch_keys:
  "patch_typed patch \<Longrightarrow> f \<in> set (patch_keys patch keys) \<longleftrightarrow> (case map_of patch f of Some v \<Rightarrow> v \<noteq> PNone | None \<Rightarrow> f \<in> set keys)"
  unfolding patch_keys_def
proof -
  have "patch_typed patch \<Longrightarrow>
      f \<in> set (fold (\<lambda>(f, v) ks. if v = PNone then removeAll f ks else List.insert f ks) patch ks) \<longleftrightarrow>
      (case map_of patch f of Some v \<Rightarrow> v \<noteq> PNone | None \<Rightarrow> f \<in> set ks)" for ks
  proof (induction patch arbitrary: ks)
    case (Cons p patch)
    obtain g v where p: "p = (g, v)" by (cases p)
    note t = patch_typed_Cons [OF Cons.prems, unfolded p]
    have "g \<notin> dom (map_of patch)" using t by (simp add: dom_map_of_conv_image_fst)
    then have "map_of patch g = None" by auto
    then show ?case using Cons.IH t by (auto simp: p split: option.split)
  qed simp
  from this [of "remdups keys"] show "patch_typed patch \<Longrightarrow>
      f \<in> set (fold (\<lambda>(f, v) ks. if v = PNone then removeAll f ks else List.insert f ks) patch (remdups keys)) \<longleftrightarrow>
      (case map_of patch f of Some v \<Rightarrow> v \<noteq> PNone | None \<Rightarrow> f \<in> set keys)" by (simp split: option.split)
qed

lemma override_field_keys [simp]: "override_field (ov\<lparr>ov_keys := ks\<rparr>) f = override_field ov f"
  by (simp add: override_field_def)

lemma override_asset_set [simp]: "ov_asset (set_override_field f v ov) = ov_asset ov"
  by (simp add: set_override_field_def)

lemma override_asset_patched: "ov_asset (fold (\<lambda>(f, v). set_override_field f v) patch ov) = ov_asset ov"
  by (induction patch arbitrary: ov) auto

lemma apply_patch_asset [simp]: "ov_asset (apply_patch patch ov) = ov_asset ov"
  by (simp add: apply_patch_def Let_def save_override_def override_asset_patched)

lemma apply_patch_fields:
  assumes "patch_typed patch" and "override_wf ov" and "f \<in> set CONTEXT_FIELDS"
  shows "override_field (apply_patch patch ov) f = (case map_of patch f of Some v \<Rightarrow> v | None \<Rightarrow> override_field ov f)"
    and "f \<in> set (ov_keys (apply_patch patch ov)) \<longleftrightarrow> override_field (apply_patch patch ov) f \<noteq> PNone"
proof -
  let ?set = "fold (\<lambda>(f, v). set_override_field f v) patch ov" and ?keys = "sort (patch_keys patch (ov_keys ov))"
  show field: "override_field (apply_patch patch ov) f = (case map_of patch f of Some v \<Rightarrow> v | None \<Rightarrow> override_field ov f)"
    using override_field_patched [OF assms(1,3)] by (simp add: apply_patch_def Let_def save_override_def)
  have "f \<in> set (ov_keys ov) \<longleftrightarrow> override_field ov f \<noteq> PNone" using assms(2,3) by (simp add: override_wf_def list_all_iff)
  then have keys: "f \<in> set ?keys \<longleftrightarrow> override_field (apply_patch patch ov) f \<noteq> PNone"
    using set_patch_keys [OF assms(1), of f "ov_keys ov"] field by (simp split: option.split)
  show "f \<in> set (ov_keys (apply_patch patch ov)) \<longleftrightarrow> override_field (apply_patch patch ov) f \<noteq> PNone"
  proof (cases "?keys = []")
    case True
    then have "ov_keys (apply_patch patch ov) = filter (\<lambda>f. override_field (apply_patch patch ov) f \<noteq> PNone) CONTEXT_FIELDS"
      by (simp add: apply_patch_def Let_def save_override_def)
    then show ?thesis using assms(3) by simp
  next
    case False
    then have "ov_keys (apply_patch patch ov) = ?keys" by (simp add: apply_patch_def Let_def save_override_def)
    then show ?thesis using keys by simp
  qed
qed

lemma override_wf_dict: "override_wf ov \<Longrightarrow> f \<in> set CONTEXT_FIELDS \<Longrightarrow> pget (override_to_dict (Some ov)) f = override_field ov f"
  by (auto simp: pget_override override_wf_def list_all_iff)

lemma new_override_wf: "override_wf (new_override i)" "f \<in> set CONTEXT_FIELDS \<Longrightarrow> override_field (new_override i) f = PNone"
  by (auto simp: override_wf_def new_override_def CONTEXT_FIELDS_def override_field_def opt_str_def opt_int_def)

lemma asset_override_put:
  "a_id a = ov_asset ov \<Longrightarrow> asset_override (put_override ov d) a = Some ov"
  by (auto simp: asset_override_def put_override_def find_add find_put)


definition sample_patch_db :: db where
  "sample_patch_db = empty_db\<lparr>db_assets := [plain_asset 3 ''RSA-2048''],
     db_overrides := [(new_override 3)\<lparr>ov_exposure := Some ''dmz'', ov_keys := [''exposure'']\<rparr>]\<rparr>"


end
