(* ===== verification/Snapshots_Api.thy ===== *)
theory Snapshots_Api
  imports Assets_Api
begin

text \<open>
  \<open>apps/snapshots/api.py\<close>: the lists of snapshots, assets, scores and plan items with their filters, the comparison of two
  snapshots with its regressions, the recomputation request and the impact of a selection.

  Strings are ASCII, so \<open>casefold\<close> is \<open>lower\<close> and \<open>str.isdigit\<close> asks for decimal digits.  Where the code leaves the
  order of equal rows to the database, the order of the keys is taken.
\<close>

section \<open>Snapshots\<close>

definition snapshot_overview :: "snapshot \<Rightarrow> db \<Rightarrow> pyval" where
  "snapshot_overview sn d =
     PDict [(''id'', PInt (sn_id sn)), (''scan_job_id'', opt_int (sn_scan_job sn)), (''serial_number'', PStr (sn_serial sn)),
            (''asset_count'', PInt (int (length (snapshot_assets (sn_id sn) d)))), (''created_at'', PInt (sn_created sn)),
            (''summary'', sn_summary sn), (''validation_errors'', PList (sn_validation_errors sn))]"

definition list_snapshots :: "int \<Rightarrow> int \<Rightarrow> db \<Rightarrow> pyval" where
  "list_snapshots offset limit d =
     (let q = rev (sort_key sn_id (db_snapshots d)); items = map (\<lambda>sn. snapshot_overview sn d) (page_slice offset limit q)
      in if items = [] then empty_page offset limit else page_envelope items offset limit (Some (int (length q))))"

abbreviation snapshot_of :: "db \<Rightarrow> int \<Rightarrow> snapshot option" where
  "snapshot_of d i \<equiv> find_row sn_id i (db_snapshots d)"

definition get_snapshot :: "int \<Rightarrow> db \<Rightarrow> Job_Queue.response" where
  "get_snapshot i d = (case snapshot_of d i of None \<Rightarrow> not_found | Some sn \<Rightarrow> Response 200 (snapshot_overview sn d))"

definition export_snapshot :: "int \<Rightarrow> db \<Rightarrow> py_error + Job_Queue.response" where
  "export_snapshot i d =
     (case snapshot_of d i of None \<Rightarrow> Inr not_found
      | Some sn \<Rightarrow> rmap (\<lambda>doc. Response 200 (PDict doc)) (build_cbom_document sn d))"

section \<open>Strength of an algorithm\<close>

definition name_word :: "string \<Rightarrow> rx" where
  "name_word w = Cat Bound (Cat (Word w) Bound)"

definition normalized_algorithm_family :: "string \<Rightarrow> string \<Rightarrow> string" where
  "normalized_algorithm_family family algorithm =
     (let value = map (\<lambda>c. if c = CHR ''_'' then CHR ''-'' else c) (upper (family @ '' '' @ algorithm))
      in if any_token [''ML-KEM'', ''KYBER''] value then ''ML-KEM''
         else if any_token [''ML-DSA'', ''DILITHIUM''] value then ''ML-DSA''
         else if any_token [''SLH-DSA'', ''SPHINCS''] value then ''SLH-DSA''
         else if any_token [''ED25519'', ''ED448'', ''EDDSA''] value then ''EDDSA''
         else if contains value ''ECDSA'' then ''ECDSA''
         else if any_token [''ECDH'', ''X25519'', ''CURVE25519''] value then ''ECDH''
         else if contains value ''RSA'' then ''RSA''
         else if any_token [''DIFFIE'', ''MODP''] value \<or> search (name_word ''DH'') value then ''DH''
         else if search (name_word ''DSA'') value then ''DSA''
         else [])"

definition FAMILY_RANKS :: "int dict" where
  "FAMILY_RANKS =
     [(''ML-KEM'', 500), (''ML-DSA'', 500), (''SLH-DSA'', 500), (''EDDSA'', 360), (''ECDSA'', 340), (''ECDH'', 340),
      (''X25519'', 340), (''RSA'', 300), (''DH'', 200), (''DSA'', 150)]"

text \<open>\<open>re.findall(r"\d+", s)\<close>: the runs of digits.\<close>

function digit_runs :: "string \<Rightarrow> string list" where
  "digit_runs s =
     (case dropWhile (\<lambda>c. \<not> is_digit c) s of [] \<Rightarrow> []
      | c # cs \<Rightarrow> takeWhile is_digit (c # cs) # digit_runs (dropWhile is_digit cs))"
  by auto

termination
proof (relation "measure length")
  fix s :: string and c cs
  assume "dropWhile (\<lambda>c. \<not> is_digit c) s = c # cs"
  then have "length (c # cs) \<le> length s" by (metis length_dropWhile_le)
  moreover have "length (dropWhile is_digit cs) \<le> length cs" by (rule length_dropWhile_le)
  ultimately show "(dropWhile is_digit cs, s) \<in> measure length" by simp
qed simp

declare digit_runs.simps [simp del]

definition size_value :: "pyval \<Rightarrow> py_error + int option" where
  "size_value v =
     (case v of
        PInt n \<Rightarrow> Inr (Some n)
      | PBool b \<Rightarrow> Inr (Some (if b then 1 else 0))
      | PStr s \<Rightarrow> if s \<noteq> [] \<and> list_all is_digit s then rmap Some (int_of_str s) else Inr None
      | _ \<Rightarrow> Inr None)"

fun first_size :: "pyval dict \<Rightarrow> string list \<Rightarrow> py_error + int option" where
  "first_size m [] = Inr None"
| "first_size m (k # ks) = rbind (size_value (pget m k)) (\<lambda>v. case v of Some n \<Rightarrow> Inr (Some n) | None \<Rightarrow> first_size m ks)"

definition algorithm_size :: "asset \<Rightarrow> py_error + int" where
  "algorithm_size a =
     rbind (first_size (a_metadata a) [''key_size_bits'', ''key_size'', ''bits'']) (\<lambda>v. case v of Some n \<Rightarrow> Inr n
       | None \<Rightarrow> Inr (foldr max (map nat_of_digits (digit_runs (a_algorithm a @ '' '' @ a_family a))) 0))"

definition algorithm_strength :: "asset \<Rightarrow> py_error + int \<times> int" where
  "algorithm_strength a =
     rmap (\<lambda>n. (dget_or FAMILY_RANKS (normalized_algorithm_family (a_family a) (a_algorithm a)) 0, n)) (algorithm_size a)"

text \<open>\<open>a < b\<close> on pairs.\<close>

definition weaker :: "int \<times> int \<Rightarrow> int \<times> int \<Rightarrow> bool" where
  "weaker a b = (fst a < fst b \<or> fst a = fst b \<and> snd a < snd b)"

section \<open>The comparison\<close>

definition diff_asset :: "asset \<Rightarrow> pyval dict" where
  "diff_asset a = [(''bom_ref'', PStr (a_bom_ref a)), (''type'', PStr (a_type a)), (''name'', PStr (a_name a))]"

definition diff_field_changes :: "asset \<Rightarrow> asset \<Rightarrow> pyval dict" where
  "diff_field_changes x y =
     concat (map (\<lambda>(field, get). if get x \<noteq> get y then [(field, strings [get x, get y])] else [])
       [(''name'', a_name), (''asset_type'', a_type), (''algorithm'', a_algorithm), (''algorithm_family'', a_family)])"

definition regression_asset_state :: "asset \<Rightarrow> pyval" where
  "regression_asset_state a =
     PDict [(''bom_ref'', PStr (a_bom_ref a)), (''type'', PStr (a_type a)), (''name'', PStr (a_name a)),
            (''algorithm'', PStr (a_algorithm a)), (''algorithm_family'', PStr (a_family a))]"

definition regression :: "string \<Rightarrow> string \<Rightarrow> asset \<Rightarrow> asset \<Rightarrow> asset option \<Rightarrow> pyval" where
  "regression kind message subject x y =
     PDict [(''kind'', PStr kind), (''severity'', PStr ''high''), (''bom_ref'', PStr (a_bom_ref subject)), (''asset_type'', PStr (a_type subject)),
            (''message'', PStr message), (''before'', regression_asset_state x),
            (''after'', (case y of None \<Rightarrow> PNone | Some z \<Rightarrow> regression_asset_state z))]"

definition algorithm_regression :: "asset \<Rightarrow> asset \<Rightarrow> py_error + pyval option" where
  "algorithm_regression x y =
     (if a_algorithm x \<noteq> [] \<and> a_algorithm y = [] then
        Inr (Some (regression ''algorithm_removed'' ''Algorithm metadata was removed from the post-migration snapshot.'' x x (Some y)))
      else rbind (algorithm_strength x) (\<lambda>s. rbind (algorithm_strength y) (\<lambda>t.
        Inr (if fst s = 0 \<or> fst t = 0 then None
             else if \<not> weaker t s then None
             else Some (regression ''algorithm_downgrade'' ''Algorithm strength decreased in the post-migration snapshot.'' y x (Some y))))))"

text \<open>\<open>{asset.bom_ref: asset}\<close>, and a sorted list of references with an asset of each.\<close>

definition by_ref :: "asset list \<Rightarrow> asset dict" where
  "by_ref assets = fold (\<lambda>a. dset (a_bom_ref a) a) assets []"

definition chosen :: "asset dict \<Rightarrow> (string \<Rightarrow> bool) \<Rightarrow> asset list" where
  "chosen m P = map (\<lambda>k. the (dget m k)) (sort (filter P (map fst m)))"

definition added_assets :: "asset dict \<Rightarrow> asset dict \<Rightarrow> asset list" where
  "added_assets xs ys = chosen ys (\<lambda>k. dget xs k = None)"

definition removed_assets :: "asset dict \<Rightarrow> asset dict \<Rightarrow> asset list" where
  "removed_assets xs ys = chosen xs (\<lambda>k. dget ys k = None)"

text \<open>The shared assets that changed, before and after.\<close>

definition changed_pair :: "asset dict \<Rightarrow> asset dict \<Rightarrow> string \<Rightarrow> bool" where
  "changed_pair xs ys k =
     (case (dget xs k, dget ys k) of (Some x, Some y) \<Rightarrow> diff_field_changes x y \<noteq> [] | _ \<Rightarrow> False)"

definition modified_assets :: "asset dict \<Rightarrow> asset dict \<Rightarrow> (asset \<times> asset) list" where
  "modified_assets xs ys =
     map (\<lambda>k. (the (dget xs k), the (dget ys k))) (sort (filter (changed_pair xs ys) (map fst xs)))"

definition unchanged_count :: "asset dict \<Rightarrow> asset dict \<Rightarrow> int" where
  "unchanged_count xs ys = int (length (filter (\<lambda>k. dget ys k \<noteq> None \<and> \<not> changed_pair xs ys k) (map fst xs)))"

definition diff_regressions :: "asset dict \<Rightarrow> asset dict \<Rightarrow> py_error + pyval list" where
  "diff_regressions xs ys =
     rmap (\<lambda>found. map (\<lambda>x. regression ''asset_removed'' ''Asset is missing from the post-migration snapshot.'' x x None) (removed_assets xs ys) @
                   concat (map (\<lambda>r. case r of None \<Rightarrow> [] | Some v \<Rightarrow> [v]) found))
       (rmapM (\<lambda>(x, y). algorithm_regression x y) (modified_assets xs ys))"

text \<open>The comparison of the snapshot \<open>i\<close> with the earlier one \<open>other\<close>.\<close>

definition diff_snapshots :: "int \<Rightarrow> int \<Rightarrow> db \<Rightarrow> py_error + Job_Queue.response" where
  "diff_snapshots i other d =
     (if snapshot_of d i = None \<or> snapshot_of d other = None then Inr not_found
      else (let xs = by_ref (snapshot_assets other d); ys = by_ref (snapshot_assets i d)
        in rmap (\<lambda>regressions. Response 200 (PDict
             [(''snapshot_a'', PInt other), (''snapshot_b'', PInt i),
              (''added'', PList (map (PDict \<circ> diff_asset) (added_assets xs ys))),
              (''removed'', PList (map (PDict \<circ> diff_asset) (removed_assets xs ys))),
              (''modified'', PList (map (\<lambda>(x, y). PDict (diff_asset y @ [(''field_changes'', PDict (diff_field_changes x y))]))
                 (modified_assets xs ys))),
              (''regressions'', PList regressions), (''unchanged_count'', PInt (unchanged_count xs ys))]))
             (diff_regressions xs ys)))"

section \<open>Lists with filters\<close>

definition parse_csv :: "string option \<Rightarrow> string list" where
  "parse_csv v = filter (\<lambda>s. s \<noteq> []) (map strip (split_on CHR '','' (or_text v [])))"

definition snapshot_vulnerable :: "asset \<Rightarrow> bool" where
  "snapshot_vulnerable a = (a_family a \<in> set [''RSA'', ''ECDSA'', ''ECDH'', ''DH''])"

record asset_query =
  aq_class :: "string option"
  aq_type :: "string option"
  aq_target :: "int option"
  aq_min :: "int option"
  aq_max :: "int option"
  aq_tier :: "string option"
  aq_vulnerable :: "bool option"
  aq_text :: "string option"
  aq_sort :: "string option"

definition risk_score_of :: "db \<Rightarrow> asset \<Rightarrow> risk_score option" where
  "risk_score_of d a = latest_risk (a_id a) d"

definition with_risk :: "db \<Rightarrow> (risk_score \<Rightarrow> bool) \<Rightarrow> asset \<Rightarrow> bool" where
  "with_risk d P a = (case risk_score_of d a of None \<Rightarrow> False | Some s \<Rightarrow> P s)"

definition given :: "'a option \<Rightarrow> ('a \<Rightarrow> bool) \<Rightarrow> bool" where
  "given v P = (case v of None \<Rightarrow> True | Some x \<Rightarrow> P x)"

definition matches_text :: "string \<Rightarrow> asset \<Rightarrow> db \<Rightarrow> bool" where
  "matches_text q a d =
     (let query = lower q
      in contains (lower (a_name a)) query \<or> contains (lower (a_bom_ref a)) query \<or> contains (lower (a_algorithm a)) query \<or>
         (case asset_target d a of None \<Rightarrow> False | Some t \<Rightarrow> contains (lower (tg_host t)) query))"

definition asset_selected :: "asset_query \<Rightarrow> db \<Rightarrow> asset \<Rightarrow> bool" where
  "asset_selected q d a =
     ((parse_csv (aq_class q) = [] \<or> a_class a \<in> set (parse_csv (aq_class q))) \<and>
      (or_text (aq_type q) [] = [] \<or> a_type a \<in> set (parse_csv (aq_type q))) \<and>
      given (aq_target q) (\<lambda>t. a_target a = Some t) \<and>
      (parse_csv (aq_tier q) = [] \<or> with_risk d (\<lambda>s. rs_tier s \<in> set (parse_csv (aq_tier q))) a) \<and>
      given (aq_min q) (\<lambda>n. with_risk d (\<lambda>s. fle (Fin (of_int n)) (rs_score s)) a) \<and>
      given (aq_max q) (\<lambda>n. with_risk d (\<lambda>s. fle (rs_score s) (Fin (of_int n))) a) \<and>
      given (aq_vulnerable q) (\<lambda>b. snapshot_vulnerable a = b) \<and>
      (or_text (aq_text q) [] = [] \<or> matches_text (or_text (aq_text q) []) a d))"

text \<open>\<open>list.sort\<close> is stable, and stays so with \<open>reverse=True\<close>.\<close>

definition risk_value :: "db \<Rightarrow> asset \<Rightarrow> rat" where
  "risk_value d a = (case risk_score_of d a of None \<Rightarrow> 0 | Some s \<Rightarrow> fval (rs_score s))"

definition sort_assets :: "string option \<Rightarrow> db \<Rightarrow> asset list \<Rightarrow> asset list" where
  "sort_assets order d xs =
     (if order = Some ''-risk_score'' then sort_key (\<lambda>a. - risk_value d a) xs
      else if order = Some ''name'' then sort_key (\<lambda>a. lower (a_name a)) xs
      else if order = Some ''-name'' then rev (sort_key (\<lambda>a. lower (a_name a)) (rev xs))
      else xs)"

definition list_snapshot_assets :: "int \<Rightarrow> asset_query \<Rightarrow> int \<Rightarrow> int \<Rightarrow> db \<Rightarrow> py_error + Job_Queue.response" where
  "list_snapshot_assets i q offset limit d =
     (if snapshot_of d i = None then Inr not_found
      else (let found = sort_assets (aq_sort q) d (filter (asset_selected q d) (snapshot_assets i d))
        in rmap (\<lambda>items. Response 200 (page_envelope items offset limit (Some (int (length found)))))
             (rmapM (\<lambda>a. serialize_asset_summary a (risk_score_of d a) d) (page_slice offset limit found))))"

text \<open>The scores of a snapshot.  A repeated parameter is refused, the names of the tiers are taken as they are.\<close>

definition in_range_query :: "int option \<Rightarrow> int option \<Rightarrow> risk_score \<Rightarrow> bool" where
  "in_range_query lo hi s =
     (given lo (\<lambda>n. fle (Fin (of_int n)) (rs_score s)) \<and> given hi (\<lambda>n. fle (rs_score s) (Fin (of_int n))))"

definition snapshot_scores :: "int \<Rightarrow> db \<Rightarrow> risk_score list" where
  "snapshot_scores i d = sort_key rs_id (filter (\<lambda>s. rs_snapshot s = Some i) (db_risk_scores d))"

definition sort_scores :: "string option \<Rightarrow> risk_score list \<Rightarrow> risk_score list" where
  "sort_scores order xs =
     (if order = Some ''score'' then sort_key (\<lambda>s. fval (rs_score s)) xs
      else if order = Some ''-computed_at'' then sort_key (\<lambda>s. - rs_computed s) xs
      else if order = Some ''computed_at'' then sort_key rs_computed xs
      else by_score xs)"

definition list_snapshot_risks ::
  "int \<Rightarrow> string list \<Rightarrow> int option \<Rightarrow> int option \<Rightarrow> string option \<Rightarrow> int \<Rightarrow> int \<Rightarrow> db \<Rightarrow> py_error + Job_Queue.response" where
  "list_snapshot_risks i tiers lo hi order offset limit d =
     (if snapshot_of d i = None then Inr not_found
      else if 1 < length tiers then
        Inr (error_response ''validation_error'' ''Repeated query parameters are not supported.''
          [(''parameter'', PStr ''tier''), (''expected'', PStr ''CSV'')] 400)
      else (let selected = (case tiers of t # _ \<Rightarrow> if t = [] then [] else split_on CHR '','' t | [] \<Rightarrow> []);
                found = sort_scores order (filter (\<lambda>s. (selected = [] \<or> rs_tier s \<in> set selected) \<and> in_range_query lo hi s) (snapshot_scores i d))
        in rmap (\<lambda>items. Response 200 (page_envelope items offset limit (Some (int (length found)))))
             (rmapM (serialize_risk_score d) (page_slice offset limit found))))"

definition list_top_snapshot_risks :: "int \<Rightarrow> int \<Rightarrow> db \<Rightarrow> py_error + Job_Queue.response" where
  "list_top_snapshot_risks i n d =
     (if snapshot_of d i = None then Inr not_found
      else rmap (\<lambda>items. Response 200 (page_envelope items 0 n (Some (int (length items)))))
             (rmapM (serialize_risk_score d) (take (nat n) (by_score (snapshot_scores i d)))))"

section \<open>Recomputation and migration\<close>

definition recompute_snapshot :: "int \<Rightarrow> pyval dict \<Rightarrow> int \<Rightarrow> db \<Rightarrow> Job_Queue.response \<times> db" where
  "recompute_snapshot i payload now d =
     (if snapshot_of d i = None then (not_found, d)
      else (case create_recompute_job i payload now d of (j, d') \<Rightarrow> (Response 202 (serialize_job j), d')))"

definition csv_ints_error :: Job_Queue.response where
  "csv_ints_error = error_response ''unprocessable'' ''asset_ids must be CSV integers.'' [(''parameter'', PStr ''asset_ids'')] 422"

record plan_query =
  pq_min :: "int option"
  pq_tier :: "string option"
  pq_type :: "string option"
  pq_target :: "int option"
  pq_assets :: "string option"

definition plan_selected :: "plan_query \<Rightarrow> int list option \<Rightarrow> db \<Rightarrow> risk_score \<Rightarrow> bool" where
  "plan_selected q ids d s =
     (given (pq_min q) (\<lambda>n. fle (Fin (of_int n)) (rs_score s)) \<and>
      (parse_csv (pq_tier q) = [] \<or> rs_tier s \<in> set (parse_csv (pq_tier q))) \<and>
      (or_text (pq_type q) [] = [] \<or>
        (case find_row a_id (rs_asset s) (db_assets d) of None \<Rightarrow> False | Some a \<Rightarrow> a_type a \<in> set (parse_csv (pq_type q)))) \<and>
      given (pq_target q) (\<lambda>t. case find_row a_id (rs_asset s) (db_assets d) of None \<Rightarrow> False | Some a \<Rightarrow> a_target a = Some t) \<and>
      given ids (\<lambda>xs. rs_asset s \<in> set xs))"

definition get_migration_plan :: "int \<Rightarrow> plan_query \<Rightarrow> int \<Rightarrow> int \<Rightarrow> db \<Rightarrow> py_error + Job_Queue.response" where
  "get_migration_plan i q offset limit d =
     (if snapshot_of d i = None then Inr not_found
      else (case (if or_text (pq_assets q) [] = [] then Inr None else rmap Some (rmapM int_of_str (parse_csv (pq_assets q)))) of
              Inl e \<Rightarrow> Inr csv_ints_error
            | Inr ids \<Rightarrow>
                (let found = by_score (filter (plan_selected q ids d) (snapshot_scores i d))
                 in rmap (\<lambda>items. Response 200 (page_envelope (map (PDict \<circ> item_json) items) offset limit (Some (int (length found)))))
                      (rmapM (\<lambda>s. recommend_for_risk_score s d) (page_slice offset limit found)))))"

definition suggest_migration_plan_item :: "world \<Rightarrow> int \<Rightarrow> int \<Rightarrow> db \<Rightarrow> py_error + Job_Queue.response" where
  "suggest_migration_plan_item w i asset d =
     (case first_by (\<lambda>s. - rs_computed s) (\<lambda>s. - rs_id s)
             (filter (\<lambda>s. rs_snapshot s = Some i \<and> rs_asset s = asset) (db_risk_scores d)) of
        None \<Rightarrow> Inr (error_response ''not_found'' ''Migration plan item was not found.'' [] 404)
      | Some s \<Rightarrow>
          rmap (\<lambda>x. case x of Suggested body \<Rightarrow> Response 200 body
             | Unavailable m \<Rightarrow> error_response ''service_unavailable'' ''AI migration recommendation provider is unavailable.'' [(''reason'', PStr m)] 503)
            (suggest_migration_for_risk_score w s d))"

definition targets_of :: "asset list \<Rightarrow> db \<Rightarrow> target list" where
  "targets_of assets d = concat (map (\<lambda>a. case asset_target d a of None \<Rightarrow> [] | Some t \<Rightarrow> [t]) assets)"

definition get_migration_impact :: "int \<Rightarrow> string \<Rightarrow> db \<Rightarrow> Job_Queue.response" where
  "get_migration_impact i asset_ids d =
     (if asset_ids = [] then error_response ''unprocessable'' ''asset_ids is required.'' [(''parameter'', PStr ''asset_ids'')] 422
      else (case rmapM int_of_str (filter (\<lambda>s. s \<noteq> []) (split_on CHR '','' asset_ids)) of
              Inl e \<Rightarrow> csv_ints_error
            | Inr ids \<Rightarrow>
                if snapshot_of d i = None then not_found
                else (let assets = filter (\<lambda>a. a_id a \<in> set ids) (snapshot_assets i d);
                          invalid = filter (\<lambda>n. n \<notin> set (map a_id assets)) ids;
                          count = int (length assets); targets = targets_of assets d
                  in if invalid \<noteq> [] then
                       error_response ''unprocessable'' ''Some assets do not belong to the snapshot.''
                         [(''invalid_asset_ids'', PList (map PInt invalid))] 422
                     else Response 200 (PDict
                       [(''selected_count'', PInt count), (''hosts'', strings (sort (remdups (map tg_host targets)))),
                        (''services'', strings (sort (remdups (map label_of targets)))), (''cert_reissues'', PInt count),
                        (''config_changes'', PInt count), (''key_regens'', PInt count), (''estimated_downtime_min'', PInt (count * 15))]))))"

section \<open>What a comparison reports\<close>

lemma by_ref_snoc: "by_ref (xs @ [a]) = dset (a_bom_ref a) a (by_ref xs)"
  by (simp add: by_ref_def)

lemma dwf_by_ref: "dwf (by_ref xs)"
  by (induction xs rule: rev_induct) (simp_all add: by_ref_snoc dict_simps, simp add: by_ref_def dwf_def)

lemma by_ref_refs: "fst ` set (by_ref xs) = a_bom_ref ` set xs"
proof (induction xs rule: rev_induct)
  case (snoc a xs)
  have "dom (map_of (dset (a_bom_ref a) a (by_ref xs))) = insert (a_bom_ref a) (dom (map_of (by_ref xs)))"
    by (simp only: update_conv' dom_fun_upd) auto
  then show ?case using snoc by (simp add: by_ref_snoc dom_map_of_conv_image_fst)
qed (simp add: by_ref_def)

lemma by_ref_named: "dget (by_ref xs) k = Some a \<Longrightarrow> a \<in> set xs \<and> a_bom_ref a = k"
  by (induction xs rule: rev_induct) (auto simp: by_ref_snoc dget_def dict_simps split: if_splits, auto simp: by_ref_def)

lemma by_ref_None: "dget (by_ref xs) k = None \<longleftrightarrow> k \<notin> a_bom_ref ` set xs"
  by (simp add: dget_def map_of_eq_None_iff by_ref_refs)

lemma by_ref_Some: "k \<in> a_bom_ref ` set xs \<Longrightarrow> a_bom_ref (the (dget (by_ref xs) k)) = k"
  using by_ref_None [of xs k] by_ref_named [of xs k] by (cases "dget (by_ref xs) k") auto

lemma by_ref_distinct: "distinct (map fst (by_ref xs))"
  using dwf_by_ref by (simp add: dwf_def)

lemma chosen_refs: "map a_bom_ref (chosen (by_ref xs) P) = sort (filter P (map fst (by_ref xs)))"
  by (auto simp: chosen_def by_ref_refs intro!: map_idI by_ref_Some)

lemma modified_refs: "map (a_bom_ref \<circ> fst) (modified_assets (by_ref xs) m) = sort (filter (changed_pair (by_ref xs) m) (map fst (by_ref xs)))"
  by (auto simp: modified_assets_def by_ref_refs intro!: map_idI by_ref_Some)

text \<open>The fields a comparison looks at, and the references a list of entries names.\<close>

definition compared_fields :: "asset \<Rightarrow> string \<times> string \<times> string \<times> string" where
  "compared_fields a = (a_name a, a_type a, a_algorithm a, a_family a)"

definition entry_ref :: "pyval \<Rightarrow> string" where
  "entry_ref v = (case v of PDict m \<Rightarrow> (case pget m ''bom_ref'' of PStr s \<Rightarrow> s | _ \<Rightarrow> []) | _ \<Rightarrow> [])"

definition entry_refs :: "pyval dict \<Rightarrow> string \<Rightarrow> string list" where
  "entry_refs m k = (case pget m k of PList vs \<Rightarrow> map entry_ref vs | _ \<Rightarrow> [])"

definition asset_named :: "asset list \<Rightarrow> string \<Rightarrow> asset" where
  "asset_named xs k = last (filter (\<lambda>a. a_bom_ref a = k) xs)"

lemma by_ref_last: "k \<in> a_bom_ref ` set xs \<Longrightarrow> dget (by_ref xs) k = Some (asset_named xs k)"
  by (induction xs rule: rev_induct) (auto simp: by_ref_snoc dget_def dict_simps asset_named_def filter_empty_conv)

lemma no_field_changes: "diff_field_changes x y = [] \<longleftrightarrow> compared_fields x = compared_fields y"
  by (auto simp: diff_field_changes_def compared_fields_def)

lemma changed_iff:
  "changed_pair (by_ref xs) (by_ref ys) k \<longleftrightarrow> k \<in> a_bom_ref ` set xs \<inter> a_bom_ref ` set ys \<and>
     compared_fields (asset_named xs k) \<noteq> compared_fields (asset_named ys k)"
proof (cases "k \<in> a_bom_ref ` set xs \<inter> a_bom_ref ` set ys")
  case True
  then show ?thesis using by_ref_last [of k xs] by_ref_last [of k ys] by (simp add: changed_pair_def no_field_changes)
next
  case False
  then have "dget (by_ref xs) k = None \<or> dget (by_ref ys) k = None" by (auto simp: by_ref_None)
  then show ?thesis using False by (auto simp: changed_pair_def split: option.split)
qed

lemma unchanged_counted:
  "unchanged_count (by_ref xs) (by_ref ys) =
     int (card {k \<in> a_bom_ref ` set xs \<inter> a_bom_ref ` set ys. compared_fields (asset_named xs k) = compared_fields (asset_named ys k)})"
proof -
  let ?P = "\<lambda>k. dget (by_ref ys) k \<noteq> None \<and> \<not> changed_pair (by_ref xs) (by_ref ys) k"
  have "length (filter ?P (map fst (by_ref xs))) = card (set (filter ?P (map fst (by_ref xs))))"
    by (simp only: distinct_card [OF distinct_filter [OF by_ref_distinct]])
  moreover have "set (filter ?P (map fst (by_ref xs))) =
      {k \<in> a_bom_ref ` set xs \<inter> a_bom_ref ` set ys. compared_fields (asset_named xs k) = compared_fields (asset_named ys k)}"
    by (auto simp: by_ref_refs by_ref_None changed_iff simp flip: by_ref_refs)
  ultimately show ?thesis by (simp add: unchanged_count_def)
qed


text \<open>The entries of the answer.\<close>

lemma entry_ref_diff [simp]: "entry_ref (PDict (diff_asset a @ m)) = a_bom_ref a" "entry_ref (PDict (diff_asset a)) = a_bom_ref a"
  by (simp_all add: entry_ref_def diff_asset_def pget_def dget_or_def)

lemma diff_answer:
  assumes "diff_snapshots i other d = Inr (Response 200 (PDict m))"
  shows "let old = snapshot_assets other d; new = snapshot_assets i d
    in entry_refs m ''added'' = sort (filter (\<lambda>k. dget (by_ref old) k = None) (map fst (by_ref new))) \<and>
       entry_refs m ''removed'' = sort (filter (\<lambda>k. dget (by_ref new) k = None) (map fst (by_ref old))) \<and>
       entry_refs m ''modified'' = sort (filter (changed_pair (by_ref old) (by_ref new)) (map fst (by_ref old))) \<and>
       pget m ''unchanged_count'' = PInt (unchanged_count (by_ref old) (by_ref new))"
proof -
  let ?old = "snapshot_assets other d" and ?new = "snapshot_assets i d"
  obtain rs where m: "m = [(''snapshot_a'', PInt other), (''snapshot_b'', PInt i),
              (''added'', PList (map (PDict \<circ> diff_asset) (added_assets (by_ref ?old) (by_ref ?new)))),
              (''removed'', PList (map (PDict \<circ> diff_asset) (removed_assets (by_ref ?old) (by_ref ?new)))),
              (''modified'', PList (map (\<lambda>(x, y). PDict (diff_asset y @ [(''field_changes'', PDict (diff_field_changes x y))]))
                 (modified_assets (by_ref ?old) (by_ref ?new)))),
              (''regressions'', PList rs), (''unchanged_count'', PInt (unchanged_count (by_ref ?old) (by_ref ?new)))]"
    using assms by (auto simp: diff_snapshots_def Let_def res_simps not_found_def error_response_def split: if_splits)
  have "map (entry_ref \<circ> (\<lambda>(x, y). PDict (diff_asset y @ [(''field_changes'', PDict (diff_field_changes x y))])))
      (modified_assets (by_ref ?old) (by_ref ?new)) = map (a_bom_ref \<circ> snd) (modified_assets (by_ref ?old) (by_ref ?new))"
    by (auto split: prod.split)
  also have "\<dots> = sort (filter (changed_pair (by_ref ?old) (by_ref ?new)) (map fst (by_ref ?old)))"
    by (auto simp: modified_assets_def changed_iff intro!: map_idI by_ref_Some)
  finally have modified: "entry_refs m ''modified'' = sort (filter (changed_pair (by_ref ?old) (by_ref ?new)) (map fst (by_ref ?old)))"
    by (simp add: m entry_refs_def pget_def dget_or_def)
  have "entry_refs m ''added'' = map a_bom_ref (added_assets (by_ref ?old) (by_ref ?new))"
    "entry_refs m ''removed'' = map a_bom_ref (removed_assets (by_ref ?old) (by_ref ?new))"
    by (simp_all add: m entry_refs_def pget_def dget_or_def comp_def)
  then show ?thesis using modified
    by (simp add: Let_def added_assets_def removed_assets_def chosen_refs) (simp add: m pget_def dget_or_def)
qed

text \<open>The comparison of two snapshots accounts for every reference of either: the added ones are those of the new snapshot
  only, the removed ones those of the old only, the modified ones the shared references with a different name, type, algorithm or
  family, and the unchanged are counted by the rest.  Nothing is listed twice.\<close>

theorem diff_accounts_for_assets:
  assumes "diff_snapshots i other d = Inr (Response 200 (PDict m))"
  shows "let old = snapshot_assets other d; new = snapshot_assets i d; shared = a_bom_ref ` set old \<inter> a_bom_ref ` set new;
      same = (\<lambda>k. compared_fields (asset_named old k) = compared_fields (asset_named new k))
    in distinct (entry_refs m ''added'' @ entry_refs m ''removed'' @ entry_refs m ''modified'') \<and>
       set (entry_refs m ''added'') = a_bom_ref ` set new - a_bom_ref ` set old \<and>
       set (entry_refs m ''removed'') = a_bom_ref ` set old - a_bom_ref ` set new \<and>
       set (entry_refs m ''modified'') = {k \<in> shared. \<not> same k} \<and>
       pget m ''unchanged_count'' = PInt (int (card {k \<in> shared. same k}))"
proof -
  let ?old = "snapshot_assets other d" and ?new = "snapshot_assets i d"
  note e = diff_answer [OF assms, unfolded Let_def]
  have added: "set (entry_refs m ''added'') = a_bom_ref ` set ?new - a_bom_ref ` set ?old"
    using e by (auto simp: by_ref_refs by_ref_None simp flip: by_ref_refs)
  have removed: "set (entry_refs m ''removed'') = a_bom_ref ` set ?old - a_bom_ref ` set ?new"
    using e by (auto simp: by_ref_refs by_ref_None simp flip: by_ref_refs)
  have modified: "set (entry_refs m ''modified'') = {k \<in> a_bom_ref ` set ?old \<inter> a_bom_ref ` set ?new.
      compared_fields (asset_named ?old k) \<noteq> compared_fields (asset_named ?new k)}"
    using e by (auto simp: changed_iff simp flip: by_ref_refs)
  have "distinct (entry_refs m ''added'')" "distinct (entry_refs m ''removed'')" "distinct (entry_refs m ''modified'')"
    using e by_ref_distinct by (simp_all add: distinct_map_filter)
  then have "distinct (entry_refs m ''added'' @ entry_refs m ''removed'' @ entry_refs m ''modified'')"
    using added removed modified by auto
  then show ?thesis using added removed modified e by (simp add: Let_def unchanged_counted)
qed

definition sample_diff_db :: db where
  "sample_diff_db = empty_db\<lparr>db_snapshots := [\<lparr>sn_id = 1, sn_scan_job = None, sn_serial = ''urn:uuid:1'', sn_summary = PNone,
         sn_validation_errors = [], sn_created = 0\<rparr>, \<lparr>sn_id = 2, sn_scan_job = None, sn_serial = ''urn:uuid:2'', sn_summary = PNone,
         sn_validation_errors = [], sn_created = 9\<rparr>],
     db_assets := [(plain_asset 3 ''RSA-2048'')\<lparr>a_snapshot := Some 1, a_bom_ref := ''a''\<rparr>,
       (plain_asset 4 ''AES'')\<lparr>a_snapshot := Some 1, a_bom_ref := ''b''\<rparr>,
       (plain_asset 5 ''RSA-1024'')\<lparr>a_snapshot := Some 2, a_bom_ref := ''a''\<rparr>,
       (plain_asset 6 ''ML-KEM-768'')\<lparr>a_snapshot := Some 2, a_bom_ref := ''c''\<rparr>]\<rparr>"

definition sample_diff :: "pyval dict" where
  "sample_diff = (case diff_snapshots 2 1 sample_diff_db of Inr (Response _ (PDict m)) \<Rightarrow> m | _ \<Rightarrow> [])"

theorem diff_accounts_for_assets_witness:
  "diff_snapshots 2 1 sample_diff_db = Inr (Response 200 (PDict sample_diff)) \<and> set (entry_refs sample_diff ''added'') = {''c''} \<and>
   set (entry_refs sample_diff ''removed'') = {''b''}"
proof -
  have "diff_snapshots 2 1 sample_diff_db = Inr (Response 200 (PDict sample_diff))" by code_simp
  moreover have "a_bom_ref ` set (snapshot_assets 2 sample_diff_db) = {''a'', ''c''}" "a_bom_ref ` set (snapshot_assets 1 sample_diff_db) = {''a'', ''b''}"
    by code_simp+
  ultimately show ?thesis using diff_accounts_for_assets [of 2 1 sample_diff_db sample_diff] by (simp add: Let_def)
qed

section \<open>Comparing in the other direction\<close>

lemma changed_pair_swap: "changed_pair ys xs k = changed_pair xs ys k"
  by (cases "dget xs k"; cases "dget ys k") (auto simp: changed_pair_def no_field_changes)

lemma changed_shared: "changed_pair xs ys k \<Longrightarrow> dget xs k \<noteq> None \<and> dget ys k \<noteq> None"
  by (auto simp: changed_pair_def split: option.splits)

lemma in_by_ref: "k \<in> set (map fst (by_ref xs)) \<longleftrightarrow> dget (by_ref xs) k \<noteq> None"
  by (simp add: by_ref_None by_ref_refs)

lemma changed_keys:
  "set (sort (filter (changed_pair (by_ref xs) (by_ref ys)) (map fst (by_ref xs)))) = {k. changed_pair (by_ref xs) (by_ref ys) k}"
proof -
  have "k \<in> set (map fst (by_ref xs))" if "changed_pair (by_ref xs) (by_ref ys) k" for k
    using changed_shared [OF that] unfolding in_by_ref by (rule conjunct1)
  then show ?thesis unfolding set_sort set_filter by blast
qed

lemma modified_swap: "modified_assets (by_ref ys) (by_ref xs) = map prod.swap (modified_assets (by_ref xs) (by_ref ys))"
proof -
  let ?ks = "\<lambda>xs ys. sort (filter (changed_pair (by_ref xs) (by_ref ys)) (map fst (by_ref xs)))"
  have "set (?ks ys xs) = set (?ks xs ys)"
    unfolding changed_keys by (rule Collect_cong) (rule changed_pair_swap)
  then have "?ks ys xs = ?ks xs ys"
    by (intro sorted_distinct_set_unique) (simp_all add: by_ref_distinct del: map_map)
  then show ?thesis unfolding modified_assets_def by simp
qed

lemma unchanged_swap: "unchanged_count (by_ref ys) (by_ref xs) = unchanged_count (by_ref xs) (by_ref ys)"
proof -
  let ?ks = "\<lambda>xs ys. filter (\<lambda>k. dget (by_ref ys) k \<noteq> None \<and> \<not> changed_pair (by_ref xs) (by_ref ys) k) (map fst (by_ref xs))"
  have keys: "k \<in> set (?ks xs ys) \<longleftrightarrow> dget (by_ref xs) k \<noteq> None \<and> dget (by_ref ys) k \<noteq> None
      \<and> \<not> changed_pair (by_ref xs) (by_ref ys) k" for k xs ys
    unfolding set_filter mem_Collect_eq in_by_ref by (rule refl)
  have "set (?ks ys xs) = set (?ks xs ys)"
  proof (rule set_eqI)
    fix k
    show "k \<in> set (?ks ys xs) \<longleftrightarrow> k \<in> set (?ks xs ys)"
      unfolding keys unfolding changed_pair_swap [of "by_ref ys" "by_ref xs"] by (rule conj_left_commute)
  qed
  moreover have "length (?ks xs ys) = card (set (?ks xs ys))" for xs ys
    by (rule distinct_card [symmetric]) (rule distinct_filter [OF by_ref_distinct])
  ultimately have "length (?ks ys xs) = length (?ks xs ys)" by (simp only:)
  then show ?thesis unfolding unchanged_count_def by (rule arg_cong)
qed

lemma diff_parts:
  assumes "diff_snapshots i other d = Inr (Response 200 (PDict m))"
  shows "pget m ''added'' = PList (map (PDict \<circ> diff_asset)
      (added_assets (by_ref (snapshot_assets other d)) (by_ref (snapshot_assets i d))))"
    and "pget m ''removed'' = PList (map (PDict \<circ> diff_asset)
      (removed_assets (by_ref (snapshot_assets other d)) (by_ref (snapshot_assets i d))))"
    and "pget m ''modified'' = PList (map (\<lambda>(x, y). PDict (diff_asset y @ [(''field_changes'', PDict (diff_field_changes x y))]))
      (modified_assets (by_ref (snapshot_assets other d)) (by_ref (snapshot_assets i d))))"
    and "pget m ''unchanged_count'' = PInt (unchanged_count (by_ref (snapshot_assets other d)) (by_ref (snapshot_assets i d)))"
  using assms by (auto simp: diff_snapshots_def Let_def rmap_Inr_iff not_found_def error_response_def pget_def dget_or_def split: if_splits)

lemma diff_self:
  assumes "snapshot_of d i \<noteq> None"
  shows "diff_snapshots i i d = Inr (Response 200 (PDict
      [(''snapshot_a'', PInt i), (''snapshot_b'', PInt i), (''added'', PList []), (''removed'', PList []), (''modified'', PList []),
       (''regressions'', PList []), (''unchanged_count'', PInt (int (card (a_bom_ref ` set (snapshot_assets i d)))))]))"
proof -
  let ?xs = "by_ref (snapshot_assets i d)"
  have same: "\<not> changed_pair ?xs ?xs k" for k
    by (cases "dget ?xs k") (auto simp: changed_pair_def no_field_changes)
  have none: "added_assets ?xs ?xs = []" "removed_assets ?xs ?xs = []" "modified_assets ?xs ?xs = []"
    using in_by_ref by (auto simp: added_assets_def removed_assets_def chosen_def modified_assets_def same filter_empty_conv)
  have "unchanged_count ?xs ?xs = int (length (map fst ?xs))"
    using in_by_ref [of _ "snapshot_assets i d"] same
    unfolding unchanged_count_def by (intro arg_cong [of _ _ int] arg_cong [of _ _ length]) (simp add: filter_id_conv)
  also have "length (map fst ?xs) = card (a_bom_ref ` set (snapshot_assets i d))"
    using distinct_card [OF by_ref_distinct] by (metis by_ref_refs set_map)
  finally show ?thesis
    using assms by (auto simp: diff_snapshots_def Let_def diff_regressions_def none)
qed

text \<open>The assets of the old snapshot that agree in the compared fields with one of the new, and the sums a comparison has to
  meet: every asset of either snapshot is listed or counted once, and only such assets are counted as unchanged.\<close>

definition matched_refs :: "asset list \<Rightarrow> asset list \<Rightarrow> string set" where
  "matched_refs old new =
     a_bom_ref ` set (filter (\<lambda>x. list_ex (\<lambda>y. compared_fields x = compared_fields y) new) old)"

definition all_counted :: "pyval dict \<Rightarrow> asset list \<Rightarrow> asset list \<Rightarrow> bool" where
  "all_counted m old new =
     (case pget m ''unchanged_count'' of
        PInt u \<Rightarrow>
          int (card (a_bom_ref ` set old)) = int (length (entry_refs m ''removed'') + length (entry_refs m ''modified'')) + u
        \<and> int (card (a_bom_ref ` set new)) = int (length (entry_refs m ''added'') + length (entry_refs m ''modified'')) + u
        \<and> 0 \<le> u \<and> u \<le> int (card (matched_refs old new))
      | _ \<Rightarrow> False)"

lemma asset_named_in: "k \<in> a_bom_ref ` set xs \<Longrightarrow> asset_named xs k \<in> set xs \<and> a_bom_ref (asset_named xs k) = k"
proof -
  assume "k \<in> a_bom_ref ` set xs"
  then have "filter (\<lambda>a. a_bom_ref a = k) xs \<noteq> []" by (auto simp: filter_empty_conv)
  from last_in_set [OF this] show ?thesis by (simp add: asset_named_def)
qed

lemma diff_counted:
  assumes "diff_snapshots i other d = Inr (Response 200 (PDict m))"
  shows "all_counted m (snapshot_assets other d) (snapshot_assets i d)"
proof -
  let ?old = "snapshot_assets other d" and ?new = "snapshot_assets i d"
  let ?O = "a_bom_ref ` set ?old" and ?N = "a_bom_ref ` set ?new"
  let ?same = "\<lambda>k. compared_fields (asset_named ?old k) = compared_fields (asset_named ?new k)"
  define D S where "D = {k \<in> ?O \<inter> ?N. \<not> ?same k}" and "S = {k \<in> ?O \<inter> ?N. ?same k}"
  note e = diff_accounts_for_assets [OF assms, unfolded Let_def, folded D_def S_def]
  have lengths: "length (entry_refs m ''added'') = card (?N - ?O)" "length (entry_refs m ''removed'') = card (?O - ?N)"
    "length (entry_refs m ''modified'') = card D"
    using e distinct_card [of "entry_refs m ''added''"] distinct_card [of "entry_refs m ''removed''"]
      distinct_card [of "entry_refs m ''modified''"] by (simp_all only: distinct_append) 
  have fin: "finite D" "finite S" "finite ?O" "finite ?N" by (simp_all add: D_def S_def)
  have disj: "D \<inter> S = {}" and shared: "D \<union> S = ?O \<inter> ?N" by (auto simp: D_def S_def)
  have both: "card (?O \<inter> ?N) = card D + card S"
    using card_Un_disjoint [OF fin(1,2) disj] shared by simp
  have split: "card ?O = card (?O - ?N) + card (?O \<inter> ?N)" "card ?N = card (?N - ?O) + card (?O \<inter> ?N)"
    using card_Diff_subset_Int [of ?O ?N] card_Diff_subset_Int [of ?N ?O] fin(3,4)
      card_mono [of ?O "?O \<inter> ?N"] card_mono [of ?N "?O \<inter> ?N"] by (simp_all add: Int_commute)
  have "S \<subseteq> matched_refs ?old ?new"
  proof
    fix k assume "k \<in> S"
    then have k: "k \<in> ?O" "k \<in> ?N" "?same k" by (simp_all add: S_def)
    note x = asset_named_in [OF k(1)] and y = asset_named_in [OF k(2)]
    have "list_ex (\<lambda>y. compared_fields (asset_named ?old k) = compared_fields y) ?new"
      unfolding list_ex_iff using y k(3) by blast
    then have "asset_named ?old k \<in> set (filter (\<lambda>x. list_ex (\<lambda>y. compared_fields x = compared_fields y) ?new) ?old)"
      using x by simp
    then show "k \<in> matched_refs ?old ?new" unfolding matched_refs_def using x by (metis imageI)
  qed
  then have "card S \<le> card (matched_refs ?old ?new)" by (rule card_mono [rotated]) (simp add: matched_refs_def)
  moreover have "pget m ''unchanged_count'' = PInt (int (card S))" using e by simp
  ultimately show ?thesis using lengths both split by (simp add: all_counted_def)
qed

text \<open>C28. Comparing two snapshots in the other direction mirrors the answer: what one lists as added the other lists as
  removed, item by item; both list the same pairs of modified assets, each with the changes of its fields
  read the other way round; and both count the same number of unchanged assets.  Every asset of either
  snapshot is listed or counted once, and only assets with an equal one in the other snapshot count as
  unchanged.  A snapshot compared with itself shows nothing added, removed, modified or regressed, and
  all its references unchanged.\<close>

theorem diff_mirrors:
  assumes "diff_snapshots i j d = Inr (Response 200 (PDict m))" and "diff_snapshots j i d = Inr (Response 200 (PDict m'))"
  shows "pget m' ''added'' = pget m ''removed'' \<and> pget m' ''removed'' = pget m ''added''
    \<and> pget m' ''unchanged_count'' = pget m ''unchanged_count''
    \<and> (\<exists>ps. pget m ''modified'' =
           PList (map (\<lambda>(x, y). PDict (diff_asset y @ [(''field_changes'', PDict (diff_field_changes x y))])) ps)
         \<and> pget m' ''modified'' =
           PList (map (\<lambda>(x, y). PDict (diff_asset x @ [(''field_changes'', PDict (diff_field_changes y x))])) ps))
    \<and> all_counted m (snapshot_assets j d) (snapshot_assets i d)
    \<and> diff_snapshots i i d = Inr (Response 200 (PDict
        [(''snapshot_a'', PInt i), (''snapshot_b'', PInt i), (''added'', PList []), (''removed'', PList []), (''modified'', PList []),
         (''regressions'', PList []), (''unchanged_count'', PInt (int (card (a_bom_ref ` set (snapshot_assets i d)))))]))"
proof -
  let ?xs = "by_ref (snapshot_assets j d)" and ?ys = "by_ref (snapshot_assets i d)"
  note p = diff_parts [OF assms(1)] and q = diff_parts [OF assms(2)]
  have "snapshot_of d i \<noteq> None"
    using assms(1) by (auto simp: diff_snapshots_def not_found_def error_response_def split: if_splits)
  note self = diff_self [OF this]
  have "\<exists>ps. pget m ''modified'' =
           PList (map (\<lambda>(x, y). PDict (diff_asset y @ [(''field_changes'', PDict (diff_field_changes x y))])) ps)
         \<and> pget m' ''modified'' =
           PList (map (\<lambda>(x, y). PDict (diff_asset x @ [(''field_changes'', PDict (diff_field_changes y x))])) ps)"
    unfolding p(3) q(3) modified_swap [of "snapshot_assets i d" "snapshot_assets j d"]
    by (intro exI [of _ "modified_assets ?xs ?ys"]) (simp add: case_prod_beta)
  moreover have "pget m' ''added'' = pget m ''removed''" "pget m' ''removed'' = pget m ''added''"
    unfolding p(1,2) q(1,2) by (simp_all add: added_assets_def removed_assets_def)
  moreover have "pget m' ''unchanged_count'' = pget m ''unchanged_count''"
    unfolding p(4) q(4) by (simp add: unchanged_swap)
  moreover have "all_counted m (snapshot_assets j d) (snapshot_assets i d)" by (rule diff_counted [OF assms(1)])
  ultimately show ?thesis using self by blast
qed

definition sample_back :: "pyval dict" where
  "sample_back = (case diff_snapshots 1 2 sample_diff_db of Inr (Response _ (PDict m)) \<Rightarrow> m | _ \<Rightarrow> [])"

theorem diff_mirrors_witness:
  "pget sample_back ''added'' = pget sample_diff ''removed'' \<and> pget sample_back ''removed'' = pget sample_diff ''added''
    \<and> pget sample_back ''unchanged_count'' = pget sample_diff ''unchanged_count''
    \<and> all_counted sample_diff (snapshot_assets 1 sample_diff_db) (snapshot_assets 2 sample_diff_db)"
proof -
  have "diff_snapshots 2 1 sample_diff_db = Inr (Response 200 (PDict sample_diff))"
    "diff_snapshots 1 2 sample_diff_db = Inr (Response 200 (PDict sample_back))" by code_simp+
  then show ?thesis using diff_mirrors [of 2 1 sample_diff_db sample_diff sample_back] by blast
qed

text \<open>The modules do not agree on which algorithms a quantum computer breaks: the risk context compares the upper-case family
  with five names, the CBOM takes the family as it is written, and the snapshot list has no DSA.\<close>

theorem vulnerability_verdicts:
  "cbom_vulnerable a = (quantum_vulnerable a \<and> upper (a_family a) = a_family a) \<and>
   snapshot_vulnerable a = (cbom_vulnerable a \<and> a_family a \<noteq> ''DSA'')"
proof -
  have "upper f = f" if "f \<in> set QUANTUM_VULNERABLE_FAMILIES" for f
    using that by (auto simp: QUANTUM_VULNERABLE_FAMILIES_def upper_def char_upper_def code_def)
  moreover have "cbom_vulnerable a \<longleftrightarrow> a_family a \<in> set QUANTUM_VULNERABLE_FAMILIES"
    by (auto simp: cbom_vulnerable_def QUANTUM_VULNERABLE_FAMILIES_def)
  ultimately show ?thesis
    by (auto simp: quantum_vulnerable_def family_key_def) (auto simp: snapshot_vulnerable_def QUANTUM_VULNERABLE_FAMILIES_def)
qed

end
