(* ===== verification/Targets_Api.thy ===== *)
theory Targets_Api
  imports Assets_Api Discovery_Service
begin

text \<open>
  \<open>apps/targets/api.py\<close> and \<open>apps/targets/services.py\<close>: the list of scan targets, their creation, change and deletion,
  and the group a target is drawn in.

  A request body has passed its schema: a creation is a record of typed fields, a patch is the dict of the fields that were
  set, addresses and URLs already in their normal form.  The columns \<open>created_at\<close> and \<open>updated_at\<close>, which the framework
  writes, come as the argument \<open>stamps\<close>, the creation time of a discovery as \<open>created\<close>.  A constraint the database refuses
  is an \<open>IntegrityError\<close>.  Rows that are equal in the order asked for come in the order of their keys; names compare by code
  point.  Text outside ASCII is in UTF-8.
\<close>

section \<open>Rows\<close>

definition normalized_context :: "pyval dict \<Rightarrow> pyval dict" where
  "normalized_context c = dmerge default_context c"

definition normalized_nullable_text :: "string option \<Rightarrow> string option" where
  "normalized_nullable_text v = (case v of None \<Rightarrow> None | Some s \<Rightarrow> if strip s = [] then None else Some (strip s))"

definition target_endpoints :: "(discovery \<Rightarrow> int) \<Rightarrow> target \<Rightarrow> db \<Rightarrow> (endpoint \<times> discovery) list" where
  "target_endpoints created t d =
     sort_key (\<lambda>(e, x). - created x) (sort_key (\<lambda>(e, x). - e_id e)
       (concat (map (\<lambda>e. if e_target e = Some (tg_id t)
          then (case find_row d_id (e_discovery e) (db_discoveries d) of None \<Rightarrow> [] | Some x \<Rightarrow> [(e, x)]) else []) (db_endpoints d))))"

definition latest_discovered_endpoint :: "(discovery \<Rightarrow> int) \<Rightarrow> target \<Rightarrow> db \<Rightarrow> (endpoint \<times> discovery) option" where
  "latest_discovered_endpoint created t d = (case target_endpoints created t d of [] \<Rightarrow> None | x # _ \<Rightarrow> Some x)"

definition group :: "string \<Rightarrow> string \<Rightarrow> string \<Rightarrow> string \<Rightarrow> pyval" where
  "group kind key label subtitle =
     PDict [(''kind'', PStr kind), (''key'', PStr key), (''label'', PStr label), (''subtitle'', PStr subtitle)]"

text \<open>The middle dot, and the Korean subtitle of a target that was entered by hand.\<close>

definition middle_dot :: string where
  "middle_dot = [CHR 0xC2, CHR 0xB7]"

definition manual_subtitle :: string where
  "manual_subtitle =
     [CHR 0xEC, CHR 0x88, CHR 0x98, CHR 0xEB, CHR 0x8F, CHR 0x99, CHR 0x20, CHR 0xEC, CHR 0x8A, CHR 0xA4, CHR 0xEC, CHR 0xBA,
      CHR 0x94, CHR 0x20, CHR 0xEB, CHR 0x8C, CHR 0x80, CHR 0xEC, CHR 0x83, CHR 0x81]"

definition executor_label :: "discovery \<Rightarrow> db \<Rightarrow> string" where
  "executor_label x d =
     (case (if d_executor x = ''agent'' then Option.bind (d_agent x) (\<lambda>i. find_row ag_id i (db_agents d)) else None) of
        Some a \<Rightarrow> ''Discovery Agent '' @ middle_dot @ '' '' @ ag_hostname a
      | None \<Rightarrow> if d_executor x = ''central'' then ''Central Discovery'' else ''Discovery Agent'')"

definition target_graph_group :: "(discovery \<Rightarrow> int) \<Rightarrow> target \<Rightarrow> db \<Rightarrow> pyval" where
  "target_graph_group created t d =
     (if tg_agent_enabled t then group ''host_agent'' (''host:'' @ tg_host t) (or_text (tg_display_name t) (tg_host t)) ''Host Agent''
      else (case latest_discovered_endpoint created t d of
              Some (e, x) \<Rightarrow>
                (let scope = or_str (d_scope_value x) (d_cidr x)
                 in group ''discovery_scope''
                      (''discovery:'' @ d_scope_type x @ '':'' @ scope @ '':'' @ (case d_agent x of Some i \<Rightarrow> i | None \<Rightarrow> ''central''))
                      scope (executor_label x d @ '' '' @ middle_dot @ '' '' @ upper (d_scope_type x)))
            | None \<Rightarrow>
                (let address = or_text (tg_ip t) (tg_host t)
                 in group ''target_scope'' (''target-scope:'' @ address) address manual_subtitle)))"

definition serialize_target :: "(discovery \<Rightarrow> int) \<Rightarrow> (target \<Rightarrow> int \<times> int) \<Rightarrow> db \<Rightarrow> target \<Rightarrow> pyval" where
  "serialize_target created stamps d t =
     PDict [(''id'', PInt (tg_id t)), (''host'', PStr (tg_host t)), (''display_name'', opt_str (tg_display_name t)),
            (''ip'', opt_str (tg_ip t)), (''port'', PInt (tg_port t)), (''protocol_hint'', PStr (tg_protocol_hint t)),
            (''sni'', opt_str (tg_sni t)), (''transport'', PStr (tg_transport t)), (''agent_enabled'', PBool (tg_agent_enabled t)),
            (''agent_url'', opt_str (tg_agent_url t)), (''context'', PDict (normalized_context (tg_context t))),
            (''graph_group'', target_graph_group created t d), (''created_at'', PInt (fst (stamps t))),
            (''updated_at'', PInt (snd (stamps t)))]"

section \<open>Reading\<close>

definition sort_fields :: "string list" where
  "sort_fields = [''created_at'', ''host'', ''id'', ''updated_at'']"

definition removeprefix :: "string \<Rightarrow> string \<Rightarrow> string" where
  "removeprefix p s = (if startswith s p then drop (length p) s else s)"

definition order_targets :: "string \<Rightarrow> (target \<Rightarrow> int \<times> int) \<Rightarrow> target list \<Rightarrow> target list" where
  "order_targets order_col stamps ts =
     (let field = removeprefix ''-'' order_col; rows = sort_key tg_id ts;
          dir = (if startswith order_col ''-'' then (\<lambda>xs. rev xs) else (\<lambda>xs. xs))
      in if field = ''host'' then dir (sort_key tg_host rows)
         else if field = ''created_at'' then dir (sort_key (fst \<circ> stamps) rows)
         else if field = ''updated_at'' then dir (sort_key (snd \<circ> stamps) rows)
         else dir rows)"

record target_query =
  tq_host :: "string option"
  tq_protocol_hint :: "string option"
  tq_agent_enabled :: "bool option"
  tq_sort :: "string option"

definition target_selected :: "target_query \<Rightarrow> target \<Rightarrow> bool" where
  "target_selected q t =
     ((or_text (tq_host q) [] = [] \<or> contains (lower (tg_host t)) (lower (or_text (tq_host q) []))) \<and>
      (or_text (tq_protocol_hint q) [] = [] \<or> tg_protocol_hint t = or_text (tq_protocol_hint q) []) \<and>
      (case tq_agent_enabled q of None \<Rightarrow> True | Some b \<Rightarrow> tg_agent_enabled t = b))"

definition list_targets ::
  "(discovery \<Rightarrow> int) \<Rightarrow> (target \<Rightarrow> int \<times> int) \<Rightarrow> target_query \<Rightarrow> int \<Rightarrow> int \<Rightarrow> db \<Rightarrow> response" where
  "list_targets created stamps q offset limit d =
     (let order_col = or_text (tq_sort q) ''id'';
          found = order_targets order_col stamps (filter (target_selected q) (db_targets d));
          items = map (serialize_target created stamps d) (page_slice offset limit found)
      in if removeprefix ''-'' order_col \<notin> set sort_fields then
           error_response ''validation_error'' ''Unsupported sort field.''
             [(''parameter'', PStr ''sort''), (''allowed'', PList (map PStr sort_fields))] 400
         else if items = [] then Response 200 (empty_page offset limit)
         else Response 200 (page_envelope items offset limit (Some (int (length found)))))"

abbreviation target_of :: "db \<Rightarrow> int \<Rightarrow> target option" where
  "target_of d i \<equiv> find_row tg_id i (db_targets d)"

definition get_target :: "(discovery \<Rightarrow> int) \<Rightarrow> (target \<Rightarrow> int \<times> int) \<Rightarrow> int \<Rightarrow> db \<Rightarrow> response" where
  "get_target created stamps i d =
     (case target_of d i of None \<Rightarrow> not_found | Some t \<Rightarrow> Response 200 (serialize_target created stamps d t))"

section \<open>Creation\<close>

record target_create =
  tc_host :: string
  tc_display_name :: "string option"
  tc_ip :: "string option"
  tc_port :: int
  tc_protocol_hint :: string
  tc_sni :: "string option"
  tc_transport :: string
  tc_agent_enabled :: bool
  tc_agent_url :: "string option"
  tc_context :: "pyval dict option"

text \<open>What the constraints of the table ask of a row among the others.\<close>

definition row_allowed :: "target \<Rightarrow> target list \<Rightarrow> bool" where
  "row_allowed t others = (target_key t \<notin> set (map target_key others) \<and> valid_target t)"

definition target_refused :: py_error where
  "target_refused = IntegrityError ''uniq_target_host_port_transport''"

definition new_target :: "target_create \<Rightarrow> db \<Rightarrow> target" where
  "new_target p d =
     \<lparr>tg_id = next_id tg_id (db_targets d), tg_host = tc_host p, tg_display_name = normalized_nullable_text (tc_display_name p),
      tg_ip = tc_ip p, tg_port = tc_port p, tg_protocol_hint = tc_protocol_hint p, tg_sni = tc_sni p, tg_transport = tc_transport p,
      tg_agent_enabled = tc_agent_enabled p, tg_agent_url = tc_agent_url p,
      tg_context = normalized_context (case tc_context p of None \<Rightarrow> [] | Some c \<Rightarrow> c)\<rparr>"

definition create_target ::
  "(discovery \<Rightarrow> int) \<Rightarrow> (target \<Rightarrow> int \<times> int) \<Rightarrow> target_create \<Rightarrow> db \<Rightarrow> response \<times> db" where
  "create_target created stamps p d =
     (let t = new_target p d; d' = d\<lparr>db_targets := add_row t (db_targets d)\<rparr>
      in if row_allowed t (db_targets d) then (Response 201 (serialize_target created stamps d' t), d')
         else (error_response ''conflict'' ''Target already exists.''
                 [(''fields'', PList (map PStr [''host'', ''port'', ''transport'']))] 409, d))"

section \<open>Change\<close>

text \<open>The columns that may not be null.\<close>

definition required_columns :: "string list" where
  "required_columns = [''host'', ''port'', ''protocol_hint'', ''transport'', ''agent_enabled'']"

definition text_field :: "pyval \<Rightarrow> string" where
  "text_field v = (case v of PStr s \<Rightarrow> s | _ \<Rightarrow> [])"

definition set_target_field :: "string \<Rightarrow> pyval \<Rightarrow> target \<Rightarrow> target" where
  "set_target_field f v t =
     (if f = ''host'' then t\<lparr>tg_host := text_field v\<rparr>
      else if f = ''display_name'' then t\<lparr>tg_display_name := normalized_nullable_text (text_value v)\<rparr>
      else if f = ''ip'' then t\<lparr>tg_ip := text_value v\<rparr>
      else if f = ''port'' then t\<lparr>tg_port := (case v of PInt n \<Rightarrow> n | _ \<Rightarrow> 0)\<rparr>
      else if f = ''protocol_hint'' then t\<lparr>tg_protocol_hint := text_field v\<rparr>
      else if f = ''sni'' then t\<lparr>tg_sni := text_value v\<rparr>
      else if f = ''transport'' then t\<lparr>tg_transport := text_field v\<rparr>
      else if f = ''agent_enabled'' then t\<lparr>tg_agent_enabled := (v = PBool True)\<rparr>
      else if f = ''agent_url'' then t\<lparr>tg_agent_url := text_value v\<rparr>
      else t)"

definition null_refused :: "pyval dict \<Rightarrow> bool" where
  "null_refused data = list_ex (\<lambda>(f, v). v = PNone \<and> f \<in> set required_columns) data"

definition null_error :: py_error where
  "null_error = IntegrityError ''null value violates not-null constraint''"

definition save_target :: "pyval dict \<Rightarrow> target \<Rightarrow> db \<Rightarrow> py_error + db" where
  "save_target data t d =
     (if null_refused data then Inl null_error
      else if row_allowed t (filter (\<lambda>s. tg_id s \<noteq> tg_id t) (db_targets d))
      then Inr (d\<lparr>db_targets := put_row tg_id t (db_targets d)\<rparr>)
      else Inl target_refused)"

definition create_target_recompute_job :: "int \<Rightarrow> int \<Rightarrow> db \<Rightarrow> async_job \<times> db" where
  "create_target_recompute_job i now d =
     (let j = new_job ''recompute'' [(''target_id'', PInt i), (''reason'', PStr ''target_context_changed'')] now d;
          j' = j\<lparr>j_resource := Some (j_id j)\<rparr>
      in (j', enqueue_task ''recompute'' (j_request j') (Some (j_id j')) now (add_job j' d)))"

definition patched_context :: "pyval dict \<Rightarrow> pyval dict \<Rightarrow> pyval dict" where
  "patched_context old patch = dmerge (normalized_context old) patch"

definition patch_body :: "pyval \<Rightarrow> int option \<Rightarrow> response" where
  "patch_body t job = Response 200 (PDict [(''target'', t), (''recompute_job_id'', opt_int job)])"

definition patch_target ::
  "(discovery \<Rightarrow> int) \<Rightarrow> (target \<Rightarrow> int \<times> int) \<Rightarrow> int \<Rightarrow> pyval dict \<Rightarrow> int \<Rightarrow> db \<Rightarrow> (py_error + response) \<times> db" where
  "patch_target created stamps i patch now d =
     (case target_of d i of None \<Rightarrow> (Inr not_found, d)
      | Some t0 \<Rightarrow>
          (let data = filter (\<lambda>(f, v). f \<noteq> ''context'') patch;
               t1 = fold (\<lambda>(f, v). set_target_field f v) data t0;
               next_context = (case pget patch ''context'' of PDict c \<Rightarrow> Some (patched_context (tg_context t0) c) | _ \<Rightarrow> None);
               changed = (case next_context of None \<Rightarrow> False
                          | Some c \<Rightarrow> \<not> py_eq (PDict c) (PDict (normalized_context (tg_context t0))));
               t = (case next_context of None \<Rightarrow> t1 | Some c \<Rightarrow> t1\<lparr>tg_context := c\<rparr>)
           in if data = [] \<and> \<not> changed then (Inr (patch_body (serialize_target created stamps d t) None), d)
              else (case save_target data t d of
                      Inl e \<Rightarrow> (Inl e, d)
                    | Inr d1 \<Rightarrow>
                        (case (if changed then (case create_target_recompute_job i now d1 of (j, d2) \<Rightarrow> (Some (j_id j), d2)) else (None, d1)) of
                           (job, d2) \<Rightarrow> (Inr (patch_body (serialize_target created stamps d2 t) job), d2)))))"

section \<open>Deletion\<close>

text \<open>The references to a deleted target become null.\<close>

definition forget_target :: "(int \<Rightarrow> bool) \<Rightarrow> db \<Rightarrow> db" where
  "forget_target gone d =
     d\<lparr>db_targets := filter (\<lambda>t. \<not> gone (tg_id t)) (db_targets d),
       db_assets := map (\<lambda>a. if list_ex gone (case a_target a of None \<Rightarrow> [] | Some i \<Rightarrow> [i]) then a\<lparr>a_target := None\<rparr> else a) (db_assets d),
       db_endpoints := map (\<lambda>e. if list_ex gone (case e_target e of None \<Rightarrow> [] | Some i \<Rightarrow> [i]) then e\<lparr>e_target := None\<rparr> else e) (db_endpoints d),
       db_run_logs := map (\<lambda>l. if list_ex gone (case rl_target l of None \<Rightarrow> [] | Some i \<Rightarrow> [i]) then l\<lparr>rl_target := None\<rparr> else l) (db_run_logs d)\<rparr>"

definition delete_target :: "int \<Rightarrow> db \<Rightarrow> response \<times> db" where
  "delete_target i d =
     (case target_of d i of None \<Rightarrow> (not_found, d) | Some t \<Rightarrow> (Response 204 PNone, forget_target (\<lambda>k. k = i) d))"

section \<open>The table of targets\<close>

lemma set_field_id: "tg_id (set_target_field f v t) = tg_id t"
  by (simp add: set_target_field_def)

lemma set_fields_id: "tg_id (fold (\<lambda>(f, v). set_target_field f v) data t) = tg_id t"
  by (induction data arbitrary: t) (auto simp: set_field_id)

lemma put_distinct_keys:
  assumes "distinct (map tg_id ts)" and "distinct (map target_key ts)"
    and "target_key t \<notin> target_key ` {s \<in> set ts. tg_id s \<noteq> tg_id t}"
  shows "distinct (map target_key (put_row tg_id t ts))"
  using assms
proof (induction ts)
  case (Cons s ts)
  have put: "put_row tg_id t ts = ts" if "tg_id t \<notin> tg_id ` set ts"
    using that unfolding put_row_def by (intro map_idI) (metis image_eqI)
  have others: "target_key ` set (put_row tg_id t ts) \<subseteq> insert (target_key t) (target_key ` set ts)"
    using set_put [of tg_id t ts] by auto
  have tail: "distinct (map target_key (put_row tg_id t ts))" using Cons by auto
  show ?case
  proof (cases "tg_id s = tg_id t")
    case True
    then have "put_row tg_id t ts = ts" using Cons.prems(1) by (intro put) (metis distinct.simps(2) list.set_map list.simps(9))
    moreover have "tg_id s \<notin> tg_id ` set ts" using Cons.prems(1) by simp
    then have "tg_id x \<noteq> tg_id t" if "x \<in> set ts" for x using True that by (metis imageI)
    then have "target_key t \<notin> target_key ` set ts" using Cons.prems(3) by auto
    ultimately show ?thesis using True Cons.prems(2) by (auto simp: put_row_def)
  next
    case False
    have "target_key s \<in> target_key ` {x \<in> set (s # ts). tg_id x \<noteq> tg_id t}" using False by (intro imageI) simp
    then have "target_key s \<noteq> target_key t" using Cons.prems(3) by metis
    moreover have "target_key s \<notin> target_key ` set ts" using Cons.prems(2) by auto
    ultimately have "target_key s \<notin> target_key ` set (put_row tg_id t ts)" using others by blast
    moreover have "put_row tg_id t (s # ts) = s # put_row tg_id t ts" using False by (simp add: put_row_def)
    ultimately show ?thesis using tail by simp
  qed
qed (simp add: put_row_def)

lemma save_target_wf:
  assumes "targets_wf (db_targets d)" and "save_target data t d = Inr d'"
  shows "targets_wf (db_targets d') \<and> map tg_id (db_targets d') = map tg_id (db_targets d)"
proof -
  have a: "row_allowed t (filter (\<lambda>s. tg_id s \<noteq> tg_id t) (db_targets d))" and d': "db_targets d' = put_row tg_id t (db_targets d)"
    using assms(2) by (auto simp: save_target_def split: if_splits)
  have "distinct (map target_key (put_row tg_id t (db_targets d)))"
    using assms(1) a by (intro put_distinct_keys) (auto simp: targets_wf_def row_allowed_def)
  moreover have "list_all valid_target (put_row tg_id t (db_targets d))"
    using assms(1) a set_put [of tg_id t "db_targets d"] by (auto simp: targets_wf_def row_allowed_def list_all_iff)
  ultimately show ?thesis using assms(1) by (simp add: d' targets_wf_def)
qed

lemma recompute_job_targets: "create_target_recompute_job i now d = (j, d') \<Longrightarrow> db_targets d' = db_targets d"
  by (auto simp: create_target_recompute_job_def Let_def enqueue_task_def add_job_def)

lemma patch_target_cases:
  "snd (patch_target created stamps i patch now d) = d \<or>
   (\<exists>data t d1. save_target data t d = Inr d1 \<and> db_targets (snd (patch_target created stamps i patch now d)) = db_targets d1)"
  unfolding patch_target_def Let_def
  by (auto split: option.split sum.split prod.split dest: recompute_job_targets)

lemma create_target_wf:
  assumes "targets_wf (db_targets d)"
  shows "targets_wf (db_targets (snd (create_target created stamps p d)))"
proof (cases "row_allowed (new_target p d) (db_targets d)")
  case True
  have "tg_id (new_target p d) = next_id tg_id (db_targets d)" by (simp add: new_target_def)
  then have "distinct (map tg_id (add_row (new_target p d) (db_targets d)))"
    using assms by (intro distinct_add) (simp_all add: targets_wf_def)
  then show ?thesis using assms True
    by (auto simp: create_target_def Let_def targets_wf_def row_allowed_def add_row_def)
qed (simp add: create_target_def Let_def assms)

text \<open>Creating, changing and deleting targets keep the table valid: distinct keys, one target per host, port and transport,
  ports in range and a known transport.\<close>

theorem targets_stay_valid:
  assumes "targets_wf (db_targets d)"
  shows "targets_wf (db_targets (snd (create_target created stamps p d))) \<and>
    targets_wf (db_targets (snd (patch_target created stamps i patch now d))) \<and>
    targets_wf (db_targets (snd (delete_target i d)))"
proof -
  have "targets_wf (db_targets (snd (patch_target created stamps i patch now d)))"
    using patch_target_cases [of created stamps i patch now d] assms save_target_wf by metis
  moreover have "targets_wf (db_targets (snd (delete_target i d)))"
    using assms
    by (auto simp: delete_target_def forget_target_def targets_wf_def distinct_map_filter list_all_iff split: option.split)
  ultimately show ?thesis using create_target_wf [OF assms] by simp
qed

definition sample_created :: target_create where
  "sample_created = \<lparr>tc_host = ''h'', tc_display_name = Some '' a '', tc_ip = None, tc_port = 443, tc_protocol_hint = ''TLS'',
     tc_sni = None, tc_transport = ''TCP'', tc_agent_enabled = False, tc_agent_url = None, tc_context = None\<rparr>"

definition sample_created_db :: db where
  "sample_created_db = snd (create_target (\<lambda>x. 0) (\<lambda>t. (0, 0)) (sample_created\<lparr>tc_port := 8443\<rparr>)
     (snd (create_target (\<lambda>x. 0) (\<lambda>t. (0, 0)) sample_created empty_db)))"

theorem targets_stay_valid_witness:
  "targets_wf (db_targets sample_created_db) \<and> length (db_targets sample_created_db) = 2 \<and>
   targets_wf (db_targets (snd (patch_target (\<lambda>x. 0) (\<lambda>t. (0, 0)) 2 [(''port'', PInt 22)] 5 sample_created_db)))"
proof -
  have "targets_wf (db_targets sample_created_db)" "length (db_targets sample_created_db) = 2" by code_simp+
  then show ?thesis
    using targets_stay_valid [of sample_created_db "\<lambda>x. 0" "\<lambda>t. (0, 0)" sample_created 2 "[(''port'', PInt 22)]" 5] by simp
qed

text \<open>Moving a target onto the address of another one is refused and changes nothing, but by an exception the handler does
  not catch, where a creation at the same address gets a 409.  So is a null in a column that must have a value.\<close>

theorem moved_target_conflict:
  assumes "target_of d i = Some t" and "s \<in> set (db_targets d)" and "tg_id s \<noteq> i" and "tg_transport s = tg_transport t"
    and "tc_host p = tg_host s" and "tc_port p = tg_port s" and "tc_transport p = tg_transport s"
  shows "create_target created stamps p d =
      (error_response ''conflict'' ''Target already exists.'' [(''fields'', PList (map PStr [''host'', ''port'', ''transport'']))] 409, d) \<and>
    patch_target created stamps i [(''host'', PStr (tg_host s)), (''port'', PInt (tg_port s))] now d = (Inl target_refused, d) \<and>
    patch_target created stamps i [(''host'', PNone)] now d = (Inl null_error, d)"
proof -
  have i: "tg_id t = i" using assms(1) by (blast dest: find_row_Some)
  have "\<not> row_allowed (new_target p d) (db_targets d)"
    using assms(2,5,6,7) by (force simp: row_allowed_def new_target_def)
  then have "create_target created stamps p d =
      (error_response ''conflict'' ''Target already exists.'' [(''fields'', PList (map PStr [''host'', ''port'', ''transport'']))] 409, d)"
    by (simp add: create_target_def Let_def)
  moreover have "\<not> row_allowed (t\<lparr>tg_host := tg_host s, tg_port := tg_port s\<rparr>) (filter (\<lambda>x. tg_id x \<noteq> i) (db_targets d))"
    using assms(2,3,4) by (force simp: row_allowed_def)
  then have "patch_target created stamps i [(''host'', PStr (tg_host s)), (''port'', PInt (tg_port s))] now d = (Inl target_refused, d)"
    by (simp add: patch_target_def assms(1) Let_def pget_def dget_or_def save_target_def null_refused_def set_target_field_def text_field_def i)
  moreover have "patch_target created stamps i [(''host'', PNone)] now d = (Inl null_error, d)"
    by (simp add: patch_target_def assms(1) Let_def pget_def dget_or_def save_target_def null_refused_def required_columns_def)
  ultimately show ?thesis by simp
qed

theorem moved_target_conflict_witness:
  "patch_target (\<lambda>x. 0) (\<lambda>t. (0, 0)) 2 [(''host'', PStr ''h''), (''port'', PInt 443)] 5 sample_created_db = (Inl target_refused, sample_created_db)"
proof -
  have "target_of sample_created_db 2 \<noteq> None" "target_of sample_created_db 1 \<noteq> None" by code_simp+
  moreover define t s where "t = the (target_of sample_created_db 2)" and "s = the (target_of sample_created_db 1)"
  ultimately have "target_of sample_created_db 2 = Some t" "target_of sample_created_db 1 = Some s" by auto
  moreover have "tg_transport s = tg_transport t" "tc_host sample_created = tg_host s" "tc_port sample_created = tg_port s"
    "tc_transport sample_created = tg_transport s" "tg_host s = ''h''" "tg_port s = 443" unfolding t_def s_def by code_simp+
  ultimately show ?thesis
    using moved_target_conflict [of 2 sample_created_db t s sample_created "\<lambda>x. 0" "\<lambda>t. (0, 0)" 5] find_row_Some [of tg_id 1 _ s]
    by auto
qed

section \<open>The effect of a change\<close>

text \<open>A patch says a column's value when it has the column's key; the row keeps its value otherwise.  The context
  is merged key by key into the old one.\<close>

definition column :: "pyval dict \<Rightarrow> string \<Rightarrow> (pyval \<Rightarrow> 'a) \<Rightarrow> 'a \<Rightarrow> 'a" where
  "column patch k read old = (case dget patch k of None \<Rightarrow> old | Some v \<Rightarrow> read v)"

definition target_after :: "pyval dict \<Rightarrow> target \<Rightarrow> target" where
  "target_after patch t =
     \<lparr>tg_id = tg_id t, tg_host = column patch ''host'' text_field (tg_host t),
      tg_display_name = column patch ''display_name'' (\<lambda>v. normalized_nullable_text (text_value v)) (tg_display_name t),
      tg_ip = column patch ''ip'' text_value (tg_ip t),
      tg_port = column patch ''port'' (\<lambda>v. case v of PInt n \<Rightarrow> n | _ \<Rightarrow> 0) (tg_port t),
      tg_protocol_hint = column patch ''protocol_hint'' text_field (tg_protocol_hint t),
      tg_sni = column patch ''sni'' text_value (tg_sni t), tg_transport = column patch ''transport'' text_field (tg_transport t),
      tg_agent_enabled = column patch ''agent_enabled'' (\<lambda>v. v = PBool True) (tg_agent_enabled t),
      tg_agent_url = column patch ''agent_url'' text_value (tg_agent_url t),
      tg_context = (case pget patch ''context'' of PDict c \<Rightarrow> dmerge (normalized_context (tg_context t)) c | _ \<Rightarrow> tg_context t)\<rparr>"

definition context_changes :: "pyval dict \<Rightarrow> target \<Rightarrow> bool" where
  "context_changes patch t =
     (case pget patch ''context'' of
        PDict c \<Rightarrow> \<not> py_eq (PDict (dmerge (normalized_context (tg_context t)) c)) (PDict (normalized_context (tg_context t)))
      | _ \<Rightarrow> False)"

lemma fold_column:
  assumes "\<And>f v t. g (set_target_field f v t) = (if f = k then read v else g t)" and "distinct (map fst data)"
  shows "g (fold (\<lambda>(f, v). set_target_field f v) data t) = column data k read (g t)"
  using assms(2)
proof (induction data arbitrary: t)
  case (Cons x data)
  obtain f v where x: "x = (f, v)" by (cases x)
  have "column data k read (g (set_target_field f v t)) = column (x # data) k read (g t)"
  proof (cases "f = k")
    case True
    then have "dget data k = None" using Cons.prems by (simp add: dget_def x map_of_eq_None_iff)
    then show ?thesis using True by (simp add: column_def x assms(1) dget_def)
  qed (simp add: column_def x assms(1) dget_def)
  then show ?case using Cons by (simp add: x)
qed (simp add: column_def dget_def)

lemma column_data: "k \<noteq> ''context'' \<Longrightarrow> column (filter (\<lambda>(f, v). f \<noteq> ''context'') patch) k read old = column patch k read old"
proof -
  assume "k \<noteq> ''context''"
  then have "dget (filter (\<lambda>(f, v). f \<noteq> ''context'') patch) k = dget patch k"
    by (induction patch) (auto simp: dget_def)
  then show ?thesis by (simp add: column_def)
qed

lemma fold_context: "tg_context (fold (\<lambda>(f, v). set_target_field f v) data t) = tg_context t"
  by (induction data arbitrary: t) (auto simp: set_target_field_def split: prod.split)

lemma patched_row:
  assumes "distinct (map fst patch)"
  shows "(case (case pget patch ''context'' of PDict c \<Rightarrow> Some (patched_context (tg_context t) c) | _ \<Rightarrow> None) of
        None \<Rightarrow> fold (\<lambda>(f, v). set_target_field f v) (filter (\<lambda>(f, v). f \<noteq> ''context'') patch) t
      | Some c \<Rightarrow> (fold (\<lambda>(f, v). set_target_field f v) (filter (\<lambda>(f, v). f \<noteq> ''context'') patch) t)\<lparr>tg_context := c\<rparr>)
    = target_after patch t"
proof -
  let ?t = "fold (\<lambda>(f, v). set_target_field f v) (filter (\<lambda>(f, v). f \<noteq> ''context'') patch) t"
  have dist: "distinct (map fst (filter (\<lambda>(f, v). f \<noteq> ''context'') patch))" using assms by (rule distinct_map_filter)
  note col = fold_column [OF _ dist, of _ _ _ t]
  have cols: "tg_host ?t = tg_host (target_after patch t)" "tg_display_name ?t = tg_display_name (target_after patch t)"
    "tg_ip ?t = tg_ip (target_after patch t)" "tg_port ?t = tg_port (target_after patch t)"
    "tg_protocol_hint ?t = tg_protocol_hint (target_after patch t)" "tg_sni ?t = tg_sni (target_after patch t)"
    "tg_transport ?t = tg_transport (target_after patch t)" "tg_agent_enabled ?t = tg_agent_enabled (target_after patch t)"
    "tg_agent_url ?t = tg_agent_url (target_after patch t)"
    by (simp_all add: target_after_def col [where g = tg_host and k = "''host''" and read = text_field]
        col [where g = tg_display_name and k = "''display_name''" and read = "\<lambda>v. normalized_nullable_text (text_value v)"]
        col [where g = tg_ip and k = "''ip''" and read = text_value]
        col [where g = tg_port and k = "''port''" and read = "\<lambda>v. case v of PInt n \<Rightarrow> n | _ \<Rightarrow> 0"]
        col [where g = tg_protocol_hint and k = "''protocol_hint''" and read = text_field]
        col [where g = tg_sni and k = "''sni''" and read = text_value]
        col [where g = tg_transport and k = "''transport''" and read = text_field]
        col [where g = tg_agent_enabled and k = "''agent_enabled''" and read = "\<lambda>v. v = PBool True"]
        col [where g = tg_agent_url and k = "''agent_url''" and read = text_value] set_target_field_def column_data)
  have ids: "tg_id ?t = tg_id (target_after patch t)" by (simp add: set_fields_id target_after_def)
  show ?thesis
    by (cases "pget patch ''context''")
      (auto intro!: target.equality simp: cols ids fold_context target_after_def [THEN arg_cong, of tg_context] patched_context_def)
qed

text \<open>The recompute job of a target, queued with its task.\<close>

definition recompute_queued :: "int \<Rightarrow> int option \<Rightarrow> db \<Rightarrow> db \<Rightarrow> bool" where
  "recompute_queued i job d d' \<longleftrightarrow>
     (\<exists>j tk. job = Some (j_id j) \<and> job_of d (j_id j) = None \<and> db_jobs d' = db_jobs d @ [j] \<and> db_tasks d' = db_tasks d @ [tk]
        \<and> j_kind j = ''recompute'' \<and> j_status j = PENDING \<and> pget (j_request j) ''target_id'' = PInt i
        \<and> t_name tk = ''recompute'' \<and> t_status tk = T_QUEUED \<and> t_job tk = Some (j_id j) \<and> t_payload tk = j_request j)"

lemma create_target_recompute_queued:
  assumes "create_target_recompute_job i now d = (j, d')"
  shows "recompute_queued i (Some (j_id j)) d d'" and "db_targets d' = db_targets d"
proof -
  define j0 where "j0 = (new_job ''recompute'' [(''target_id'', PInt i), (''reason'', PStr ''target_context_changed'')] now d)"
  define j1 where "j1 = j0\<lparr>j_resource := Some (j_id j0)\<rparr>"
  have f: "j_id j1 = next_id j_id (db_jobs d)" "j_kind j1 = ''recompute''" "j_status j1 = PENDING"
    "j_request j1 = [(''target_id'', PInt i), (''reason'', PStr ''target_context_changed'')]"
    by (simp_all add: j1_def j0_def new_job_def)
  have j: "j = j1" "d' = enqueue_task ''recompute'' (j_request j1) (Some (j_id j1)) now (add_job j1 d)"
    using assms unfolding create_target_recompute_job_def Let_def j0_def [symmetric] j1_def [symmetric] by auto
  obtain tk where tk: "db_tasks d' = db_tasks d @ [tk]" "t_name tk = ''recompute''" "t_status tk = T_QUEUED"
      "t_job tk = Some (j_id j1)" "t_payload tk = j_request j1" and jobs: "db_jobs d' = db_jobs d @ [j1]" "db_targets d' = db_targets d"
    by (simp add: j(2) enqueue_task_def add_job_def add_row_def)
  show "recompute_queued i (Some (j_id j)) d d'" unfolding recompute_queued_def
    by (intro exI [of _ j1] exI [of _ tk] conjI tk jobs f(2,3)) (simp_all add: j(1) f pget_def dget_or_def)
  show "db_targets d' = db_targets d" by (rule jobs(2))
qed

text \<open>C29. A change of a target does what the request says.  When it is refused by an exception nothing changes.  Otherwise the
  answer shows the target with the patched columns and the merged context, and that is the row stored
  (nothing is stored when the request names no column and changes no value of the context); no other
  target changes; and exactly if the merged context differs from the one before, a recompute of this target
  is queued, with its task, and its identifier answered.\<close>

theorem patch_target_effect:
  assumes "distinct (map fst patch)" and "target_of d i = Some t0"
    and "patch_target created stamps i patch now d = (r, d')"
  shows "case r of
      Inl e \<Rightarrow> d' = d
    | Inr answer \<Rightarrow>
        (\<exists>job. answer = patch_body (serialize_target created stamps d' (target_after patch t0)) job
           \<and> target_of d' i = Some (if filter (\<lambda>(f, v). f \<noteq> ''context'') patch = [] \<and> \<not> context_changes patch t0
                                  then t0 else target_after patch t0)
           \<and> (\<forall>k. k = i \<or> target_of d' k = target_of d k)
           \<and> (if context_changes patch t0 then recompute_queued i job d d'
              else job = None \<and> db_jobs d' = db_jobs d \<and> db_tasks d' = db_tasks d))"
proof -
  let ?data = "filter (\<lambda>(f, v). f \<noteq> ''context'') patch"
  let ?next = "case pget patch ''context'' of PDict c \<Rightarrow> Some (patched_context (tg_context t0) c) | _ \<Rightarrow> None"
  have changed: "(case ?next of None \<Rightarrow> False | Some c \<Rightarrow> \<not> py_eq (PDict c) (PDict (normalized_context (tg_context t0))))
      = context_changes patch t0"
    by (simp add: context_changes_def patched_context_def split: pyval.split)
  note eq = assms(3) [unfolded patch_target_def assms(2) option.case Let_def changed patched_row [OF assms(1)]]
  have id: "tg_id (target_after patch t0) = i"
    using assms(2) by (auto simp: target_after_def dest: find_row_Some)
  show ?thesis
  proof (cases "?data = [] \<and> \<not> context_changes patch t0")
    case True
    then have r: "r = Inr (patch_body (serialize_target created stamps d' (target_after patch t0)) None)" "d' = d"
      using eq by auto
    show ?thesis using True assms(2) unfolding r(1) sum.case by (intro exI [of _ None]) (simp add: r(2))
  next
    case False
    note eq = eq [unfolded if_not_P [OF False]]
    show ?thesis
    proof (cases "save_target ?data (target_after patch t0) d")
      case (Inl e)
      then have "r = Inl e" "d' = d" using eq by simp_all
      then show ?thesis by (simp only: sum.case)
    next
      case (Inr d1)
      then have d1: "d1 = d\<lparr>db_targets := put_row tg_id (target_after patch t0) (db_targets d)\<rparr>"
        by (auto simp: save_target_def split: if_splits)
      have of_d1: "target_of d1 i = Some (target_after patch t0)" "k \<noteq> i \<Longrightarrow> target_of d1 k = target_of d k" for k
        using assms(2) id by (simp_all add: d1 find_put)
      show ?thesis
      proof (cases "context_changes patch t0")
        case True
        obtain j d2 where j: "create_target_recompute_job i now d1 = (j, d2)" by fastforce
        note q = create_target_recompute_queued [OF j]
        have "recompute_queued i (Some (j_id j)) d d2" using q(1) by (simp add: recompute_queued_def d1)
        moreover have "target_of d2 k = target_of d1 k" for k using q(2) by simp
        moreover have r: "r = Inr (patch_body (serialize_target created stamps d' (target_after patch t0)) (Some (j_id j)))" "d' = d2"
          using eq Inr j True by auto
        ultimately show ?thesis using True of_d1 unfolding r(1) sum.case
          by (intro exI [of _ "Some (j_id j)"]) (auto simp: r(2))
      next
        case unchanged: False
        have r: "r = Inr (patch_body (serialize_target created stamps d' (target_after patch t0)) None)" "d' = d1"
          using eq Inr unchanged by auto
        show ?thesis using unchanged of_d1 False unfolding r(1) sum.case
          by (intro exI [of _ None]) (auto simp: r(2) d1)
      qed
    qed
  qed
qed

definition sample_patch :: "pyval dict" where
  "sample_patch = [(''port'', PInt 22), (''context'', PDict [(''exposure'', PStr ''dmz'')])]"

theorem patch_target_effect_witness:
  "case patch_target (\<lambda>x. 0) (\<lambda>t. (0, 0)) 2 sample_patch 5 sample_created_db of
      (Inl e, d') \<Rightarrow> False
    | (Inr answer, d') \<Rightarrow>
        (\<exists>t0 job. target_of sample_created_db 2 = Some t0
           \<and> answer = patch_body (serialize_target (\<lambda>x. 0) (\<lambda>t. (0, 0)) d' (target_after sample_patch t0)) job
           \<and> target_of d' 2 = Some (target_after sample_patch t0) \<and> recompute_queued 2 job sample_created_db d')"
proof -
  let ?p = "patch_target (\<lambda>x. 0) (\<lambda>t. (0, 0)) 2 sample_patch 5 sample_created_db"
  obtain r d' where p: "?p = (r, d')" by fastforce
  have "is_ok (fst ?p)" by code_simp
  then obtain answer where r: "r = Inr answer" by (auto simp: p is_ok_iff)
  have "target_of sample_created_db 2 \<noteq> None" by code_simp
  then obtain t0 where t0: "target_of sample_created_db 2 = Some t0" by blast
  have "context_changes sample_patch (the (target_of sample_created_db 2))" by code_simp
  then have c: "context_changes sample_patch t0" by (simp add: t0)
  have "distinct (map fst sample_patch)" by (simp add: sample_patch_def)
  from patch_target_effect [OF this t0 p] c t0 show ?thesis by (auto simp: p r)
qed

end
