(* ===== verification/Core_Api.thy ===== *)
theory Core_Api
  imports Targets_Api Performance_Service
begin

text \<open>
  The administration of the service: \<open>apps/core/api.py\<close> (deleting every result, or every target, with what refers to it),
  \<open>apps/core/middleware.py\<close> (the API token), \<open>apps/health\<close> and \<open>apps/meta\<close>.

  Deleting a row deletes the rows that refer to it or makes their reference null, as the \<open>on_delete\<close> of the models says
  (\<open>models.py\<close> of each app); \<open>references_ok\<close> is the integrity the foreign keys ask for.
\<close>

section \<open>Cascades\<close>

definition ref_gone :: "(int \<Rightarrow> bool) \<Rightarrow> int option \<Rightarrow> bool" where
  "ref_gone gone r = (case r of None \<Rightarrow> False | Some i \<Rightarrow> gone i)"

definition delete_assets :: "(int \<Rightarrow> bool) \<Rightarrow> db \<Rightarrow> db" where
  "delete_assets gone d =
     d\<lparr>db_assets := filter (\<lambda>a. \<not> gone (a_id a)) (db_assets d),
       db_overrides := filter (\<lambda>x. \<not> gone (ov_asset x)) (db_overrides d),
       db_assessments := filter (\<lambda>x. \<not> gone (qa_asset x)) (db_assessments d),
       db_dependencies := filter (\<lambda>x. \<not> gone (dp_source x) \<and> \<not> gone (dp_target x)) (db_dependencies d),
       db_risk_scores := filter (\<lambda>x. \<not> gone (rs_asset x)) (db_risk_scores d),
       db_results := filter (\<lambda>x. \<not> gone (pf_asset x)) (db_results d)\<rparr>"

definition delete_runs :: "(int \<Rightarrow> bool) \<Rightarrow> db \<Rightarrow> db" where
  "delete_runs gone d =
     d\<lparr>db_runs := filter (\<lambda>r. \<not> gone (pr_id r)) (db_runs d),
       db_results := filter (\<lambda>x. \<not> gone (pf_run x)) (db_results d)\<rparr>"

text \<open>The keys of the rows that refer to a deleted one.\<close>

definition keys_of :: "('r \<Rightarrow> int) \<Rightarrow> ('r \<Rightarrow> bool) \<Rightarrow> 'r list \<Rightarrow> int \<Rightarrow> bool" where
  "keys_of key P rows i = (i \<in> key ` set (filter P rows))"

definition delete_snapshots :: "(int \<Rightarrow> bool) \<Rightarrow> db \<Rightarrow> db" where
  "delete_snapshots gone d =
     (let d1 = delete_assets (keys_of a_id (\<lambda>a. ref_gone gone (a_snapshot a)) (db_assets d)) d;
          d2 = delete_runs (keys_of pr_id (\<lambda>r. gone (pr_snapshot r)) (db_runs d1)) d1
      in d2\<lparr>db_snapshots := filter (\<lambda>s. \<not> gone (sn_id s)) (db_snapshots d2),
            db_dependencies := filter (\<lambda>x. \<not> gone (dp_snapshot x)) (db_dependencies d2),
            db_risk_scores := filter (\<lambda>x. \<not> ref_gone gone (rs_snapshot x)) (db_risk_scores d2),
            db_runs := map (\<lambda>r. if ref_gone gone (pr_baseline r) then r\<lparr>pr_baseline := None\<rparr> else r) (db_runs d2)\<rparr>)"

definition delete_discoveries :: "(int \<Rightarrow> bool) \<Rightarrow> db \<Rightarrow> db" where
  "delete_discoveries gone d =
     d\<lparr>db_discoveries := filter (\<lambda>x. \<not> gone (d_id x)) (db_discoveries d),
       db_endpoints := filter (\<lambda>e. \<not> gone (e_discovery e)) (db_endpoints d)\<rparr>"

definition delete_scan_jobs :: "(int \<Rightarrow> bool) \<Rightarrow> db \<Rightarrow> db" where
  "delete_scan_jobs gone d =
     d\<lparr>db_scan_jobs := filter (\<lambda>x. \<not> gone (sj_id x)) (db_scan_jobs d),
       db_snapshots := map (\<lambda>s. if ref_gone gone (sn_scan_job s) then s\<lparr>sn_scan_job := None\<rparr> else s) (db_snapshots d)\<rparr>"

definition delete_jobs :: "(int \<Rightarrow> bool) \<Rightarrow> db \<Rightarrow> db" where
  "delete_jobs gone d =
     (let d1 = delete_scan_jobs (keys_of sj_id (\<lambda>x. gone (sj_job x)) (db_scan_jobs d)) d;
          d2 = delete_discoveries (keys_of d_id (\<lambda>x. gone (d_job x)) (db_discoveries d1)) d1
      in d2\<lparr>db_jobs := filter (\<lambda>j. \<not> gone (j_id j)) (db_jobs d2),
            db_run_logs := filter (\<lambda>l. \<not> gone (rl_job l)) (db_run_logs d2),
            db_tasks := filter (\<lambda>t. \<not> ref_gone gone (t_job t)) (db_tasks d2)\<rparr>)"

section \<open>Settings\<close>

definition counted :: "('r \<Rightarrow> bool) \<Rightarrow> 'r list \<Rightarrow> pyval" where
  "counted P rows = PInt (int (length (filter P rows)))"

definition delete_snapshot_results :: "db \<Rightarrow> response \<times> db" where
  "delete_snapshot_results d =
     (let snap = keys_of sn_id (\<lambda>s. True) (db_snapshots d);
          job = keys_of j_id (\<lambda>j. j_kind j \<in> set [''scan_job'', ''recompute'']) (db_jobs d);
          run = keys_of pr_id (\<lambda>r. snap (pr_snapshot r)) (db_runs d)
      in (Response 200 (PDict [(''deleted'', PDict
            [(''snapshots'', counted (\<lambda>s. True) (db_snapshots d)),
             (''assets'', counted (\<lambda>a. ref_gone snap (a_snapshot a)) (db_assets d)),
             (''risk_scores'', counted (\<lambda>x. ref_gone snap (rs_snapshot x)) (db_risk_scores d)),
             (''performance_runs'', counted (\<lambda>r. snap (pr_snapshot r)) (db_runs d)),
             (''performance_results'', counted (\<lambda>x. run (pf_run x)) (db_results d)),
             (''jobs'', counted (\<lambda>j. j_kind j \<in> set [''scan_job'', ''recompute'']) (db_jobs d)),
             (''scan_jobs'', counted (\<lambda>x. job (sj_job x)) (db_scan_jobs d)),
             (''scan_logs'', counted (\<lambda>l. job (rl_job l)) (db_run_logs d)),
             (''queued_tasks'', counted (\<lambda>t. ref_gone job (t_job t)) (db_tasks d))])]),
          delete_jobs job (delete_snapshots snap d)))"

definition delete_scan_targets :: "db \<Rightarrow> response \<times> db" where
  "delete_scan_targets d =
     (let d1 = forget_target (\<lambda>i. True) d
      in (Response 200 (PDict [(''deleted'', PDict
            [(''scan_targets'', counted (\<lambda>t. True) (db_targets d)),
             (''discovery_endpoint_links'', counted (\<lambda>e. e_target e \<noteq> None) (db_endpoints d))])]),
          d1\<lparr>db_endpoints := map (\<lambda>e. if e_target e = None \<and> e_promoted e then e\<lparr>e_promoted := False\<rparr> else e) (db_endpoints d1)\<rparr>))"

section \<open>The token\<close>

definition exempt_prefixes :: "string list" where
  "exempt_prefixes = [''/api/health'', ''/api/meta/'', ''/api/openapi'', ''/api/docs'', ''/api/agents/register'']"

definition is_exempt :: "string \<Rightarrow> bool" where
  "is_exempt path =
     (startswith path ''/api/agents/'' \<and> endswith path ''/heartbeat'' \<or> list_ex (startswith path) exempt_prefixes)"

text \<open>\<open>compare_digest\<close> on two strings: it refuses any that is not ASCII.\<close>

definition compare_digest :: "string \<Rightarrow> string \<Rightarrow> py_error + bool" where
  "compare_digest a b =
     (if list_all (\<lambda>c. code c < 128) a \<and> list_all (\<lambda>c. code c < 128) b then Inr (a = b)
      else Inl (TypeError ''comparing strings with non-ASCII characters is not supported''))"

definition unauthorised :: response where
  "unauthorised = error_response ''invalid_token'' ''Invalid API token.'' [] 401"

text \<open>\<open>token\<close> is the \<open>X-API-Token\<close> header, \<open>get_response\<close> the rest of the application.\<close>

definition api_key_middleware ::
  "string \<Rightarrow> string \<Rightarrow> string option \<Rightarrow> (db \<Rightarrow> (py_error + response) \<times> db) \<Rightarrow> db \<Rightarrow> (py_error + response) \<times> db" where
  "api_key_middleware expected path token get_response d =
     (if expected = [] \<or> is_exempt path then get_response d
      else (case token of None \<Rightarrow> (Inr unauthorised, d)
            | Some provided \<Rightarrow>
                if provided = [] then (Inr unauthorised, d)
                else (case compare_digest provided expected of
                        Inl e \<Rightarrow> (Inl e, d)
                      | Inr same \<Rightarrow> if same then get_response d else (Inr unauthorised, d))))"

definition request_id :: "string option \<Rightarrow> string \<Rightarrow> string" where
  "request_id header fresh = or_text header fresh"

section \<open>Health\<close>

definition get_component_statuses :: "bool \<Rightarrow> string dict" where
  "get_component_statuses db_up =
     [(''api'', ''ok''), (''database'', if db_up then ''ok'' else ''down''), (''redis'', ''ok''), (''worker'', ''ok'')]"

definition aggregate_status :: "string dict \<Rightarrow> string" where
  "aggregate_status components =
     (if dget components ''api'' = Some ''down'' \<or> dget components ''database'' = Some ''down'' then ''down''
      else if list_ex (\<lambda>(k, v). v \<in> set [''degraded'', ''down'']) components then ''degraded''
      else ''ok'')"

definition get_health :: "bool \<Rightarrow> int \<Rightarrow> response" where
  "get_health db_up now =
     (let components = get_component_statuses db_up
      in Response 200 (PDict ([(''status'', PStr (aggregate_status components))] @ map (\<lambda>(k, v). (k, PStr v)) components @
            [(''checked_at'', PInt now)])))"

section \<open>Meta\<close>

definition list_protocols :: "string list" where
  "list_protocols = [''TLS'', ''SSH'', ''IKE'', ''SMTP'', ''IMAP'', ''POP3'', ''UNKNOWN'']"

definition scanner :: "string \<Rightarrow> string \<Rightarrow> bool \<Rightarrow> pyval dict" where
  "scanner i label requires_agent = [(''id'', PStr i), (''label'', PStr label), (''requires_agent'', PBool requires_agent)]"

definition list_scanners :: "pyval dict list" where
  "list_scanners =
     [scanner ''network'' ''Network Scanner'' False, scanner ''agent.cert_store'' ''System CA Store'' True,
      scanner ''agent.pkg_keyring'' ''Package Repository Keys'' True, scanner ''agent.ssh_userkey'' ''SSH User Keys'' True,
      scanner ''agent.ssh_config'' ''SSH Config Policy'' True, scanner ''agent.keystore'' ''Keystore Files'' True,
      scanner ''agent.app_cert_files'' ''Application Cert Files'' True, scanner ''agent.private_key_files'' ''Private Key Files'' True,
      scanner ''agent.app_config'' ''Application Config Policy'' True]"

record risk_row =
  rt_algorithm :: string
  rt_factor :: pyfloat
  rt_vulnerable :: bool

definition risk_row_of :: "string \<Rightarrow> nat \<Rightarrow> bool \<Rightarrow> risk_row" where
  "risk_row_of algorithm hundredths vulnerable =
     \<lparr>rt_algorithm = algorithm, rt_factor = fl (of_nat hundredths / 100), rt_vulnerable = vulnerable\<rparr>"

definition get_algorithm_risk_table :: "risk_row list" where
  "get_algorithm_risk_table =
     [risk_row_of ''RSA-1024, DSA-1024, DH-1024'' 100 True, risk_row_of ''RSA-2048, DSA-2048, DH-2048 (modp14)'' 95 True,
      risk_row_of ''RSA-3072, DH-3072 (modp15)'' 90 True, risk_row_of ''RSA-4096+'' 85 True,
      risk_row_of ''ECDSA P-256, ECDH P-256'' 95 True, risk_row_of ''ECDSA P-384, ECDH P-384'' 90 True,
      risk_row_of ''ECDSA P-521, ECDH P-521'' 85 True, risk_row_of ''Ed25519, Ed448'' 90 True,
      risk_row_of ''X25519, X448'' 90 True, risk_row_of ''SHA-1 (signing)'' 100 False,
      risk_row_of ''SHA-256, SHA-384, SHA-512 (hash only)'' 5 False, risk_row_of ''AES-128'' 10 False,
      risk_row_of ''AES-192/256'' 5 False, risk_row_of ''ChaCha20'' 5 False, risk_row_of ''HMAC-*'' 5 False,
      risk_row_of ''ML-KEM-512/768/1024'' 0 False, risk_row_of ''ML-DSA-44/65/87'' 0 False, risk_row_of ''SLH-DSA-*'' 0 False,
      risk_row_of ''Falcon-*'' 0 False, risk_row_of ''Hybrid (X25519+ML-KEM-768)'' 10 True, risk_row_of ''Unknown'' 50 True]"

definition risk_row_json :: "risk_row \<Rightarrow> pyval" where
  "risk_row_json r =
     PDict [(''algorithm'', PStr (rt_algorithm r)), (''factor_a'', PFloat (rt_factor r)), (''quantum_vulnerable'', PBool (rt_vulnerable r))]"

definition get_meta_protocols :: response where
  "get_meta_protocols = Response 200 (PDict [(''protocols'', PList (map PStr list_protocols))])"

definition get_meta_scanners :: response where
  "get_meta_scanners = Response 200 (PDict [(''scanners'', PList (map PDict list_scanners))])"

definition get_meta_algorithm_risk_table :: response where
  "get_meta_algorithm_risk_table = Response 200 (PDict [(''items'', PList (map risk_row_json get_algorithm_risk_table))])"

section \<open>The weights\<close>

text \<open>\<open>apps/risk/api.py\<close>: the first row of weights, created with the defaults when there is none.  The payload is a value in
  0.5..2.0 for each weight; \<open>updated\<close> is the time the framework wrote to the row.\<close>

definition default_weights :: "int \<Rightarrow> risk_weights" where
  "default_weights i =
     \<lparr>rw_id = i, rw_wA = Fin 1, rw_wD = Fin 1, rw_wE = Fin 1, rw_wL = Fin 1, rw_wC = Fin 1\<rparr>"

definition get_weights :: "db \<Rightarrow> risk_weights \<times> db" where
  "get_weights d =
     (case sort_key rw_id (db_weights d) of
        w # ws \<Rightarrow> (w, d)
      | [] \<Rightarrow> (let w = default_weights (next_id rw_id (db_weights d)) in (w, d\<lparr>db_weights := add_row w (db_weights d)\<rparr>)))"

definition serialize_weights :: "int \<Rightarrow> risk_weights \<Rightarrow> pyval" where
  "serialize_weights updated w =
     PDict [(''wA'', PFloat (rw_wA w)), (''wD'', PFloat (rw_wD w)), (''wE'', PFloat (rw_wE w)), (''wL'', PFloat (rw_wL w)),
            (''wC'', PFloat (rw_wC w)), (''updated_at'', PInt updated)]"

definition get_risk_weights :: "(risk_weights \<Rightarrow> int) \<Rightarrow> db \<Rightarrow> response \<times> db" where
  "get_risk_weights updated d = (case get_weights d of (w, d') \<Rightarrow> (Response 200 (serialize_weights (updated w) w), d'))"

record weights_payload =
  wp_wA :: pyfloat
  wp_wD :: pyfloat
  wp_wE :: pyfloat
  wp_wL :: pyfloat
  wp_wC :: pyfloat

definition put_risk_weights :: "weights_payload \<Rightarrow> int \<Rightarrow> db \<Rightarrow> response \<times> db" where
  "put_risk_weights p now d =
     (case get_weights d of (w, d1) \<Rightarrow>
        (let w' = w\<lparr>rw_wA := wp_wA p, rw_wD := wp_wD p, rw_wE := wp_wE p, rw_wL := wp_wL p, rw_wC := wp_wC p\<rparr>
         in (Response 200 (serialize_weights now w'), d1\<lparr>db_weights := put_row rw_id w' (db_weights d1)\<rparr>)))"

section \<open>Referential integrity\<close>

text \<open>Every foreign key of the models names a row, or is null where the column may be.\<close>

definition ref_in :: "('r \<Rightarrow> 'k) \<Rightarrow> 'r list \<Rightarrow> 'k option \<Rightarrow> bool" where
  "ref_in key rows r = (case r of None \<Rightarrow> True | Some i \<Rightarrow> i \<in> key ` set rows)"

definition inventory_refs_ok :: "db \<Rightarrow> bool" where
  "inventory_refs_ok d =
     (list_all (\<lambda>a. ref_in sn_id (db_snapshots d) (a_snapshot a) \<and> ref_in tg_id (db_targets d) (a_target a)) (db_assets d) \<and>
      list_all (\<lambda>x. ref_in a_id (db_assets d) (Some (ov_asset x))) (db_overrides d) \<and>
      list_all (\<lambda>x. ref_in a_id (db_assets d) (Some (qa_asset x))) (db_assessments d) \<and>
      list_all (\<lambda>x. ref_in sn_id (db_snapshots d) (Some (dp_snapshot x)) \<and> ref_in a_id (db_assets d) (Some (dp_source x)) \<and>
        ref_in a_id (db_assets d) (Some (dp_target x))) (db_dependencies d) \<and>
      list_all (\<lambda>x. rs_snapshot x \<noteq> None \<and> ref_in sn_id (db_snapshots d) (rs_snapshot x) \<and> ref_in a_id (db_assets d) (Some (rs_asset x))) (db_risk_scores d) \<and>
      list_all (\<lambda>r. ref_in sn_id (db_snapshots d) (Some (pr_snapshot r)) \<and> ref_in sn_id (db_snapshots d) (pr_baseline r)) (db_runs d) \<and>
      list_all (\<lambda>x. ref_in pr_id (db_runs d) (Some (pf_run x)) \<and> ref_in a_id (db_assets d) (Some (pf_asset x))) (db_results d))"

definition queue_refs_ok :: "db \<Rightarrow> bool" where
  "queue_refs_ok d =
     (list_all (\<lambda>s. ref_in sj_id (db_scan_jobs d) (sn_scan_job s)) (db_snapshots d) \<and>
      list_all (\<lambda>x. ref_in j_id (db_jobs d) (Some (sj_job x))) (db_scan_jobs d) \<and>
      list_all (\<lambda>l. ref_in j_id (db_jobs d) (Some (rl_job l)) \<and> ref_in tg_id (db_targets d) (rl_target l)) (db_run_logs d) \<and>
      list_all (\<lambda>t. ref_in j_id (db_jobs d) (t_job t)) (db_tasks d) \<and>
      list_all (\<lambda>x. ref_in j_id (db_jobs d) (Some (d_job x)) \<and>
        ref_in ag_id (db_agents d) (d_agent x)) (db_discoveries d) \<and>
      list_all (\<lambda>e. ref_in d_id (db_discoveries d) (Some (e_discovery e)) \<and> ref_in tg_id (db_targets d) (e_target e)) (db_endpoints d))"

definition references_ok :: "db \<Rightarrow> bool" where
  "references_ok d = (inventory_refs_ok d \<and> queue_refs_ok d)"

lemma ref_in_simps [simp]: "ref_in key rows None" "ref_in key rows (Some i) \<longleftrightarrow> i \<in> key ` set rows"
  by (simp_all add: ref_in_def)

lemma ref_gone_simps [simp]: "\<not> ref_gone gone None" "ref_gone gone (Some i) \<longleftrightarrow> gone i"
  by (simp_all add: ref_gone_def)

lemma ref_in_filter [simp]: "ref_in key (filter (\<lambda>x. \<not> gone (key x)) rows) r \<longleftrightarrow> ref_in key rows r \<and> \<not> ref_gone gone r"
  by (cases r) auto

lemma ref_in_map: "(\<And>x. key (f x) = key x) \<Longrightarrow> ref_in key (map f rows) r \<longleftrightarrow> ref_in key rows r"
  by (cases r) (auto simp: image_image)

lemma image_keyed: "(\<And>x. key (f x) = key x) \<Longrightarrow> key ` f ` S = key ` S"
  by (simp add: image_image)

lemma key_kept: "i \<in> key ` {x \<in> S. \<not> gone (key x)} \<longleftrightarrow> i \<in> key ` S \<and> \<not> gone i"
  by auto

lemma keys_of_iff: "keys_of key P rows i \<longleftrightarrow> (\<exists>x\<in>set rows. P x \<and> key x = i)"
  by (auto simp: keys_of_def)

lemma delete_assets_ok: "references_ok d \<Longrightarrow> references_ok (delete_assets gone d)"
  by (auto simp: references_ok_def inventory_refs_ok_def queue_refs_ok_def delete_assets_def list_all_iff)

lemma delete_runs_ok: "references_ok d \<Longrightarrow> references_ok (delete_runs gone d)"
  by (auto simp: references_ok_def inventory_refs_ok_def queue_refs_ok_def delete_runs_def list_all_iff)

lemma delete_snapshots_ok:
  assumes "references_ok d"
  shows "references_ok (delete_snapshots gone d)"
proof -
  define d1 where "d1 = delete_assets (keys_of a_id (\<lambda>a. ref_gone gone (a_snapshot a)) (db_assets d)) d"
  define d2 where "d2 = delete_runs (keys_of pr_id (\<lambda>r. gone (pr_snapshot r)) (db_runs d1)) d1"
  have ok: "references_ok d2" using assms by (simp add: d1_def d2_def delete_assets_ok delete_runs_ok)
  have assets: "list_all (\<lambda>a. \<not> ref_gone gone (a_snapshot a)) (db_assets d2)"
    by (auto simp: d2_def d1_def delete_runs_def delete_assets_def list_all_iff keys_of_iff)
  have runs: "list_all (\<lambda>r. \<not> gone (pr_snapshot r)) (db_runs d2)"
    by (auto simp: d2_def delete_runs_def list_all_iff keys_of_iff)
  have maps: "pr_id ` (\<lambda>r. if ref_gone gone (pr_baseline r) then r\<lparr>pr_baseline := None\<rparr> else r) ` S = pr_id ` S" for S
    by (rule image_keyed) simp
  show ?thesis using ok assets runs
    unfolding delete_snapshots_def Let_def d1_def [symmetric] d2_def [symmetric] references_ok_def
    by (auto simp: inventory_refs_ok_def queue_refs_ok_def list_all_iff maps key_kept simp del: if_image_distrib)
qed

lemma delete_discoveries_ok: "references_ok d \<Longrightarrow> references_ok (delete_discoveries gone d)"
  by (auto simp: references_ok_def inventory_refs_ok_def queue_refs_ok_def delete_discoveries_def list_all_iff)

lemma delete_scan_jobs_ok:
  assumes "references_ok d"
  shows "references_ok (delete_scan_jobs gone d)"
proof -
  have maps: "sn_id ` (\<lambda>s. if ref_gone gone (sn_scan_job s) then s\<lparr>sn_scan_job := None\<rparr> else s) ` S = sn_id ` S" for S
    by (rule image_keyed) simp
  have sets: "ref_in sn_id (map (\<lambda>s. if ref_gone gone (sn_scan_job s) then s\<lparr>sn_scan_job := None\<rparr> else s) (db_snapshots d)) r =
      ref_in sn_id (db_snapshots d) r" for r
    by (rule ref_in_map) simp
  show ?thesis using assms
    by (auto simp: references_ok_def inventory_refs_ok_def queue_refs_ok_def delete_scan_jobs_def list_all_iff maps sets simp del: if_image_distrib)
qed

lemma delete_jobs_ok:
  assumes "references_ok d"
  shows "references_ok (delete_jobs gone d)"
proof -
  define d1 where "d1 = delete_scan_jobs (keys_of sj_id (\<lambda>x. gone (sj_job x)) (db_scan_jobs d)) d"
  define d2 where "d2 = delete_discoveries (keys_of d_id (\<lambda>x. gone (d_job x)) (db_discoveries d1)) d1"
  have ok: "references_ok d2" using assms by (simp add: d1_def d2_def delete_scan_jobs_ok delete_discoveries_ok)
  have scans: "list_all (\<lambda>x. \<not> gone (sj_job x)) (db_scan_jobs d2)"
    by (auto simp: d2_def d1_def delete_scan_jobs_def delete_discoveries_def list_all_iff keys_of_iff)
  have found: "list_all (\<lambda>x. \<not> gone (d_job x)) (db_discoveries d2)"
    by (auto simp: d2_def delete_discoveries_def list_all_iff keys_of_iff)
  show ?thesis using ok scans found
    unfolding delete_jobs_def Let_def d1_def [symmetric] d2_def [symmetric] references_ok_def
    by (auto simp: inventory_refs_ok_def queue_refs_ok_def list_all_iff key_kept)
qed

lemma list_ex_ref: "list_ex gone (case r of None \<Rightarrow> [] | Some i \<Rightarrow> [i]) = ref_gone gone r"
  by (cases r) auto

lemma forget_target_ok:
  assumes "references_ok d"
  shows "references_ok (forget_target gone d)"
proof -
  have maps: "a_id ` (\<lambda>a. if ref_gone gone (a_target a) then a\<lparr>a_target := None\<rparr> else a) ` S = a_id ` S" for S
    by (rule image_keyed) simp
  show ?thesis using assms
    by (auto simp: references_ok_def inventory_refs_ok_def queue_refs_ok_def forget_target_def list_all_iff list_ex_ref maps simp del: if_image_distrib)
qed

lemma set_promoted_ok:
  "references_ok d \<Longrightarrow> (\<And>e. e_discovery (f e) = e_discovery e \<and> e_target (f e) = e_target e) \<Longrightarrow>
     references_ok (d\<lparr>db_endpoints := map f (db_endpoints d)\<rparr>)"
  by (auto simp: references_ok_def inventory_refs_ok_def queue_refs_ok_def list_all_iff)

section \<open>What the deletions leave\<close>

text \<open>Deleting the results, as it should come out, said without cascades: no snapshot with what belongs to it, no
  scan or recompute job with what belongs to it, and everything else.\<close>

definition RESULT_JOBS :: "string list" where
  "RESULT_JOBS = [''scan_job'', ''recompute'']"

definition asset_left :: "db \<Rightarrow> int \<Rightarrow> bool" where
  "asset_left d i = (\<exists>a\<in>set (db_assets d). a_id a = i \<and> a_snapshot a = None)"

definition job_left :: "db \<Rightarrow> int \<Rightarrow> bool" where
  "job_left d i = (\<exists>j\<in>set (db_jobs d). j_id j = i \<and> j_kind j \<notin> set RESULT_JOBS)"

definition discovery_left :: "db \<Rightarrow> int \<Rightarrow> bool" where
  "discovery_left d i = (\<exists>x\<in>set (db_discoveries d). d_id x = i \<and> job_left d (d_job x))"

definition without_results :: "db \<Rightarrow> db" where
  "without_results d =
     d\<lparr>db_jobs := filter (\<lambda>j. j_kind j \<notin> set RESULT_JOBS) (db_jobs d),
       db_scan_jobs := filter (\<lambda>x. job_left d (sj_job x)) (db_scan_jobs d),
       db_run_logs := filter (\<lambda>l. job_left d (rl_job l)) (db_run_logs d),
       db_tasks := filter (\<lambda>t. case t_job t of None \<Rightarrow> True | Some i \<Rightarrow> job_left d i) (db_tasks d),
       db_discoveries := filter (\<lambda>x. job_left d (d_job x)) (db_discoveries d),
       db_endpoints := filter (\<lambda>e. discovery_left d (e_discovery e)) (db_endpoints d),
       db_assets := filter (\<lambda>a. a_snapshot a = None) (db_assets d),
       db_overrides := filter (\<lambda>x. asset_left d (ov_asset x)) (db_overrides d),
       db_assessments := filter (\<lambda>x. asset_left d (qa_asset x)) (db_assessments d),
       db_dependencies := [], db_snapshots := [], db_risk_scores := [], db_runs := [], db_results := []\<rparr>"

definition without_targets :: "db \<Rightarrow> db" where
  "without_targets d =
     d\<lparr>db_targets := [], db_assets := map (\<lambda>a. a\<lparr>a_target := None\<rparr>) (db_assets d),
       db_endpoints := map (\<lambda>e. e\<lparr>e_target := None, e_promoted := False\<rparr>) (db_endpoints d),
       db_run_logs := map (\<lambda>l. l\<lparr>rl_target := None\<rparr>) (db_run_logs d)\<rparr>"

text \<open>The number of rows each table lost.\<close>

definition rows_lost :: "'r list \<Rightarrow> 'r list \<Rightarrow> pyval" where
  "rows_lost old new = PInt (int (length old) - int (length new))"

definition results_lost :: "db \<Rightarrow> db \<Rightarrow> pyval dict" where
  "results_lost d d' =
     [(''snapshots'', rows_lost (db_snapshots d) (db_snapshots d')), (''assets'', rows_lost (db_assets d) (db_assets d')),
      (''risk_scores'', rows_lost (db_risk_scores d) (db_risk_scores d')),
      (''performance_runs'', rows_lost (db_runs d) (db_runs d')), (''performance_results'', rows_lost (db_results d) (db_results d')),
      (''jobs'', rows_lost (db_jobs d) (db_jobs d')), (''scan_jobs'', rows_lost (db_scan_jobs d) (db_scan_jobs d')),
      (''scan_logs'', rows_lost (db_run_logs d) (db_run_logs d')), (''queued_tasks'', rows_lost (db_tasks d) (db_tasks d'))]"

definition keys_unique :: "db \<Rightarrow> bool" where
  "keys_unique d \<longleftrightarrow> distinct (map a_id (db_assets d)) \<and> distinct (map j_id (db_jobs d))
     \<and> distinct (map sj_id (db_scan_jobs d)) \<and> distinct (map d_id (db_discoveries d))"

lemma keys_of_member:
  "distinct (map key rows) \<Longrightarrow> x \<in> set rows \<Longrightarrow> keys_of key P rows (key x) \<longleftrightarrow> P x"
  by (auto simp: keys_of_iff distinct_map inj_on_def)

lemma filter_keys_of:
  "distinct (map key rows) \<Longrightarrow> filter (\<lambda>x. \<not> keys_of key P rows (key x)) rows = filter (\<lambda>x. \<not> P x) rows"
  by (intro filter_cong refl) (simp add: keys_of_member)

lemma not_keys_of:
  "distinct (map key rows) \<Longrightarrow> i \<in> key ` set rows \<Longrightarrow> \<not> keys_of key P rows i \<longleftrightarrow> (\<exists>x\<in>set rows. key x = i \<and> \<not> P x)"
  by (auto simp: keys_of_member keys_of_iff distinct_map inj_on_def)

lemma counted_lost: "counted P rows = rows_lost rows (filter (\<lambda>x. \<not> P x) rows)"
  using sum_length_filter_compl [of P rows] by (simp add: counted_def rows_lost_def)

lemma filter_same: "(\<And>x. x \<in> set xs \<Longrightarrow> P x = Q x) \<Longrightarrow> filter P xs = filter Q xs"
  by (rule filter_cong) simp_all

lemma all_snapshots: "i \<in> sn_id ` set (db_snapshots d) \<Longrightarrow> keys_of sn_id (\<lambda>s. True) (db_snapshots d) i"
  by (auto simp: keys_of_iff)

lemma inventory_refsD:
  assumes "inventory_refs_ok d"
  shows "a \<in> set (db_assets d) \<Longrightarrow> a_snapshot a = Some i \<Longrightarrow> i \<in> sn_id ` set (db_snapshots d)"
    and "r \<in> set (db_runs d) \<Longrightarrow> pr_snapshot r \<in> sn_id ` set (db_snapshots d)"
    and "x \<in> set (db_risk_scores d) \<Longrightarrow> rs_snapshot x \<noteq> None"
    and "x \<in> set (db_risk_scores d) \<Longrightarrow> rs_snapshot x = Some i \<Longrightarrow> i \<in> sn_id ` set (db_snapshots d)"
    and "y \<in> set (db_dependencies d) \<Longrightarrow> dp_snapshot y \<in> sn_id ` set (db_snapshots d)"
    and "v \<in> set (db_overrides d) \<Longrightarrow> ov_asset v \<in> a_id ` set (db_assets d)"
    and "q \<in> set (db_assessments d) \<Longrightarrow> qa_asset q \<in> a_id ` set (db_assets d)"
    and "z \<in> set (db_results d) \<Longrightarrow> pf_run z \<in> pr_id ` set (db_runs d)"
  using assms unfolding inventory_refs_ok_def list_all_iff by fastforce+

lemma queue_refsD:
  assumes "queue_refs_ok d"
  shows "x \<in> set (db_scan_jobs d) \<Longrightarrow> sj_job x \<in> j_id ` set (db_jobs d)"
    and "l \<in> set (db_run_logs d) \<Longrightarrow> rl_job l \<in> j_id ` set (db_jobs d)"
    and "t \<in> set (db_tasks d) \<Longrightarrow> t_job t = Some i \<Longrightarrow> i \<in> j_id ` set (db_jobs d)"
    and "y \<in> set (db_discoveries d) \<Longrightarrow> d_job y \<in> j_id ` set (db_jobs d)"
    and "e \<in> set (db_endpoints d) \<Longrightarrow> e_discovery e \<in> d_id ` set (db_discoveries d)"
  using assms unfolding queue_refs_ok_def list_all_iff by fastforce+

lemma snapshots_gone:
  assumes "inventory_refs_ok d"
  defines "snap \<equiv> keys_of sn_id (\<lambda>s. True) (db_snapshots d)"
  shows "a \<in> set (db_assets d) \<Longrightarrow> ref_gone snap (a_snapshot a) \<longleftrightarrow> a_snapshot a \<noteq> None"
    and "r \<in> set (db_runs d) \<Longrightarrow> snap (pr_snapshot r)"
    and "x \<in> set (db_risk_scores d) \<Longrightarrow> ref_gone snap (rs_snapshot x)"
    and "y \<in> set (db_dependencies d) \<Longrightarrow> snap (dp_snapshot y)"
    and "s \<in> set (db_snapshots d) \<Longrightarrow> snap (sn_id s)"
proof -
  note refs = inventory_refsD [OF assms(1)] and all = all_snapshots [of _ d, folded snap_def]
  show "a \<in> set (db_assets d) \<Longrightarrow> ref_gone snap (a_snapshot a) \<longleftrightarrow> a_snapshot a \<noteq> None"
    using refs(1) [of a] all by (cases "a_snapshot a") simp_all
  show "r \<in> set (db_runs d) \<Longrightarrow> snap (pr_snapshot r)" using refs(2) all by blast
  show "x \<in> set (db_risk_scores d) \<Longrightarrow> ref_gone snap (rs_snapshot x)"
    using refs(3,4) [of x] all by (cases "rs_snapshot x") simp_all
  show "y \<in> set (db_dependencies d) \<Longrightarrow> snap (dp_snapshot y)" using refs(5) all by blast
  show "s \<in> set (db_snapshots d) \<Longrightarrow> snap (sn_id s)" using all by blast
qed

lemma delete_snapshots_all:
  assumes "inventory_refs_ok d" and "distinct (map a_id (db_assets d))"
  shows "delete_snapshots (keys_of sn_id (\<lambda>s. True) (db_snapshots d)) d =
    d\<lparr>db_assets := filter (\<lambda>a. a_snapshot a = None) (db_assets d),
       db_overrides := filter (\<lambda>x. asset_left d (ov_asset x)) (db_overrides d),
       db_assessments := filter (\<lambda>x. asset_left d (qa_asset x)) (db_assessments d),
       db_dependencies := [], db_snapshots := [], db_risk_scores := [], db_runs := [], db_results := []\<rparr>"
proof -
  let ?snap = "keys_of sn_id (\<lambda>s. True) (db_snapshots d)"
  note gone = snapshots_gone [OF assms(1)] and refs = inventory_refsD [OF assms(1)]
  let ?asset = "keys_of a_id (\<lambda>a. ref_gone ?snap (a_snapshot a)) (db_assets d)"
  let ?run = "keys_of pr_id (\<lambda>r. ?snap (pr_snapshot r)) (db_runs d)"
  have assets: "filter (\<lambda>a. \<not> ?asset (a_id a)) (db_assets d) = filter (\<lambda>a. a_snapshot a = None) (db_assets d)"
    unfolding filter_keys_of [OF assms(2)] by (rule filter_same) (simp add: gone(1))
  have left: "\<not> ?asset i \<longleftrightarrow> asset_left d i" if "i \<in> a_id ` set (db_assets d)" for i
    unfolding not_keys_of [OF assms(2) that] asset_left_def using gone(1) by auto
  have overrides: "filter (\<lambda>x. \<not> ?asset (ov_asset x)) (db_overrides d) = filter (\<lambda>x. asset_left d (ov_asset x)) (db_overrides d)"
    by (rule filter_same) (simp add: left refs(6))
  have assessments: "filter (\<lambda>x. \<not> ?asset (qa_asset x)) (db_assessments d) = filter (\<lambda>x. asset_left d (qa_asset x)) (db_assessments d)"
    by (rule filter_same) (simp add: left refs(7))
  have run: "?run i" if "i \<in> pr_id ` set (db_runs d)" for i using that gone(2) by (auto simp: keys_of_iff)
  have none: "filter (\<lambda>r. \<not> ?run (pr_id r)) (db_runs d) = []"
    "filter (\<lambda>x. \<not> ?run (pf_run x)) (filter (\<lambda>x. \<not> ?asset (pf_asset x)) (db_results d)) = []"
    "filter (\<lambda>s. \<not> ?snap (sn_id s)) (db_snapshots d) = []"
    "filter (\<lambda>x. \<not> ?snap (dp_snapshot x)) (filter (\<lambda>x. \<not> ?asset (dp_source x) \<and> \<not> ?asset (dp_target x)) (db_dependencies d)) = []"
    "filter (\<lambda>x. \<not> ref_gone ?snap (rs_snapshot x)) (filter (\<lambda>x. \<not> ?asset (rs_asset x)) (db_risk_scores d)) = []"
    using run refs(8) gone(3,4,5) by (auto simp: filter_empty_conv)
  have raw: "delete_snapshots ?snap d =
    d\<lparr>db_assets := filter (\<lambda>a. \<not> ?asset (a_id a)) (db_assets d),
       db_overrides := filter (\<lambda>x. \<not> ?asset (ov_asset x)) (db_overrides d),
       db_assessments := filter (\<lambda>x. \<not> ?asset (qa_asset x)) (db_assessments d),
       db_dependencies := filter (\<lambda>x. \<not> ?snap (dp_snapshot x))
         (filter (\<lambda>x. \<not> ?asset (dp_source x) \<and> \<not> ?asset (dp_target x)) (db_dependencies d)),
       db_snapshots := filter (\<lambda>s. \<not> ?snap (sn_id s)) (db_snapshots d),
       db_risk_scores := filter (\<lambda>x. \<not> ref_gone ?snap (rs_snapshot x)) (filter (\<lambda>x. \<not> ?asset (rs_asset x)) (db_risk_scores d)),
       db_runs := map (\<lambda>r. if ref_gone ?snap (pr_baseline r) then r\<lparr>pr_baseline := None\<rparr> else r)
         (filter (\<lambda>r. \<not> ?run (pr_id r)) (db_runs d)),
       db_results := filter (\<lambda>x. \<not> ?run (pf_run x)) (filter (\<lambda>x. \<not> ?asset (pf_asset x)) (db_results d))\<rparr>"
    by (simp add: delete_snapshots_def delete_assets_def delete_runs_def Let_def del: filter_filter)
  show ?thesis unfolding raw assets overrides assessments none list.map by (rule refl)
qed

lemma delete_jobs_kinds:
  assumes "queue_refs_ok d" and "distinct (map j_id (db_jobs d))" and "distinct (map sj_id (db_scan_jobs d))"
    and "distinct (map d_id (db_discoveries d))"
  defines "job \<equiv> keys_of j_id (\<lambda>j. j_kind j \<in> set [''scan_job'', ''recompute'']) (db_jobs d)"
  shows "delete_jobs job (d\<lparr>db_snapshots := []\<rparr>) =
    d\<lparr>db_jobs := filter (\<lambda>j. j_kind j \<notin> set RESULT_JOBS) (db_jobs d),
       db_scan_jobs := filter (\<lambda>x. job_left d (sj_job x)) (db_scan_jobs d),
       db_run_logs := filter (\<lambda>l. job_left d (rl_job l)) (db_run_logs d),
       db_tasks := filter (\<lambda>t. case t_job t of None \<Rightarrow> True | Some i \<Rightarrow> job_left d i) (db_tasks d),
       db_discoveries := filter (\<lambda>x. job_left d (d_job x)) (db_discoveries d),
       db_endpoints := filter (\<lambda>e. discovery_left d (e_discovery e)) (db_endpoints d), db_snapshots := []\<rparr>"
proof -
  note refs = queue_refsD [OF assms(1)]
  let ?scan = "keys_of sj_id (\<lambda>x. job (sj_job x)) (db_scan_jobs d)"
  let ?disc = "keys_of d_id (\<lambda>x. job (d_job x)) (db_discoveries d)"
  have left: "\<not> job i \<longleftrightarrow> job_left d i" if "i \<in> j_id ` set (db_jobs d)" for i
    unfolding job_def not_keys_of [OF assms(2) that] job_left_def RESULT_JOBS_def by (rule refl)
  have jobs: "filter (\<lambda>j. \<not> job (j_id j)) (db_jobs d) = filter (\<lambda>j. j_kind j \<notin> set RESULT_JOBS) (db_jobs d)"
    unfolding job_def filter_keys_of [OF assms(2)] RESULT_JOBS_def by (rule refl)
  have scans: "filter (\<lambda>x. \<not> ?scan (sj_id x)) (db_scan_jobs d) = filter (\<lambda>x. job_left d (sj_job x)) (db_scan_jobs d)"
    unfolding filter_keys_of [OF assms(3)] by (rule filter_same) (simp add: left refs(1))
  have found: "filter (\<lambda>x. \<not> ?disc (d_id x)) (db_discoveries d) = filter (\<lambda>x. job_left d (d_job x)) (db_discoveries d)"
    unfolding filter_keys_of [OF assms(4)] by (rule filter_same) (simp add: left refs(4))
  have ends: "filter (\<lambda>e. \<not> ?disc (e_discovery e)) (db_endpoints d) = filter (\<lambda>e. discovery_left d (e_discovery e)) (db_endpoints d)"
  proof (rule filter_same)
    fix e assume "e \<in> set (db_endpoints d)"
    then have "e_discovery e \<in> d_id ` set (db_discoveries d)" by (rule refs(5))
    then show "(\<not> ?disc (e_discovery e)) = discovery_left d (e_discovery e)"
      unfolding not_keys_of [OF assms(4) \<open>e_discovery e \<in> d_id ` set (db_discoveries d)\<close>] discovery_left_def
      using left refs(4) by auto
  qed
  have logs: "filter (\<lambda>l. \<not> job (rl_job l)) (db_run_logs d) = filter (\<lambda>l. job_left d (rl_job l)) (db_run_logs d)"
    by (rule filter_same) (simp add: left refs(2))
  have tasks: "filter (\<lambda>t. \<not> ref_gone job (t_job t)) (db_tasks d) =
      filter (\<lambda>t. case t_job t of None \<Rightarrow> True | Some i \<Rightarrow> job_left d i) (db_tasks d)"
    by (rule filter_same) (simp add: left refs(3) split: option.split)
  have raw: "delete_jobs job (d\<lparr>db_snapshots := []\<rparr>) =
    d\<lparr>db_jobs := filter (\<lambda>j. \<not> job (j_id j)) (db_jobs d), db_scan_jobs := filter (\<lambda>x. \<not> ?scan (sj_id x)) (db_scan_jobs d),
       db_run_logs := filter (\<lambda>l. \<not> job (rl_job l)) (db_run_logs d), db_tasks := filter (\<lambda>t. \<not> ref_gone job (t_job t)) (db_tasks d),
       db_discoveries := filter (\<lambda>x. \<not> ?disc (d_id x)) (db_discoveries d),
       db_endpoints := filter (\<lambda>e. \<not> ?disc (e_discovery e)) (db_endpoints d), db_snapshots := []\<rparr>"
    by (simp add: delete_jobs_def delete_scan_jobs_def delete_discoveries_def Let_def)
  show ?thesis unfolding raw jobs scans found ends logs tasks by (rule refl)
qed

lemma delete_results_db:
  assumes "references_ok d" and "keys_unique d"
  shows "snd (delete_snapshot_results d) = without_results d"
proof -
  have ok: "inventory_refs_ok d" "queue_refs_ok d" using assms(1) by (simp_all add: references_ok_def)
  have u: "distinct (map a_id (db_assets d))" "distinct (map j_id (db_jobs d))" "distinct (map sj_id (db_scan_jobs d))"
    "distinct (map d_id (db_discoveries d))" using assms(2) by (simp_all add: keys_unique_def)
  let ?e = "d\<lparr>db_assets := filter (\<lambda>a. a_snapshot a = None) (db_assets d),
       db_overrides := filter (\<lambda>x. asset_left d (ov_asset x)) (db_overrides d),
       db_assessments := filter (\<lambda>x. asset_left d (qa_asset x)) (db_assessments d),
       db_dependencies := [], db_risk_scores := [], db_runs := [], db_results := []\<rparr>"
  have e: "queue_refs_ok (?e\<lparr>db_snapshots := []\<rparr>)" using ok(2) by (simp add: queue_refs_ok_def)
  have left: "job_left (?e\<lparr>db_snapshots := []\<rparr>) = job_left d" "discovery_left (?e\<lparr>db_snapshots := []\<rparr>) = discovery_left d"
    by (intro ext; simp add: job_left_def discovery_left_def)+
  have "snd (delete_snapshot_results d) =
      delete_jobs (keys_of j_id (\<lambda>j. j_kind j \<in> set [''scan_job'', ''recompute'']) (db_jobs d))
        (delete_snapshots (keys_of sn_id (\<lambda>s. True) (db_snapshots d)) d)"
    unfolding delete_snapshot_results_def Let_def by (rule snd_conv)
  also have "delete_snapshots (keys_of sn_id (\<lambda>s. True) (db_snapshots d)) d = ?e\<lparr>db_snapshots := []\<rparr>"
    unfolding delete_snapshots_all [OF ok(1) u(1)] by simp
  finally have eq: "snd (delete_snapshot_results d) =
      delete_jobs (keys_of j_id (\<lambda>j. j_kind j \<in> set [''scan_job'', ''recompute'']) (db_jobs d)) (?e\<lparr>db_snapshots := []\<rparr>)" .
  show ?thesis
    unfolding eq using delete_jobs_kinds [OF e, unfolded left] u by (simp add: without_results_def)
qed

lemma delete_results_counts:
  assumes "references_ok d" and "keys_unique d"
  shows "fst (delete_snapshot_results d) = Response 200 (PDict [(''deleted'', PDict (results_lost d (without_results d)))])"
proof -
  have ok: "inventory_refs_ok d" "queue_refs_ok d" using assms(1) by (simp_all add: references_ok_def)
  let ?snap = "keys_of sn_id (\<lambda>s. True) (db_snapshots d)"
  let ?job = "keys_of j_id (\<lambda>j. j_kind j \<in> set RESULT_JOBS) (db_jobs d)"
  let ?run = "keys_of pr_id (\<lambda>r. ?snap (pr_snapshot r)) (db_runs d)"
  note gone = snapshots_gone [OF ok(1)] and refs = inventory_refsD [OF ok(1)] queue_refsD [OF ok(2)]
  have run: "?run i" if "i \<in> pr_id ` set (db_runs d)" for i using that gone(2) by (auto simp: keys_of_iff)
  have left: "\<not> ?job i \<longleftrightarrow> job_left d i" if "i \<in> j_id ` set (db_jobs d)" for i
    using assms(2) unfolding keys_unique_def job_left_def by (intro not_keys_of [OF _ that]) blast
  have "filter (\<lambda>a. \<not> ref_gone ?snap (a_snapshot a)) (db_assets d) = filter (\<lambda>a. a_snapshot a = None) (db_assets d)"
    by (rule filter_same) (simp add: gone(1))
  moreover have "filter (\<lambda>x. \<not> ref_gone ?snap (rs_snapshot x)) (db_risk_scores d) = []"
    "filter (\<lambda>r. \<not> ?snap (pr_snapshot r)) (db_runs d) = []" "filter (\<lambda>x. \<not> ?run (pf_run x)) (db_results d) = []"
    using gone(2,3) run refs(8) by (auto simp: filter_empty_conv)
  moreover have "filter (\<lambda>x. \<not> ?job (sj_job x)) (db_scan_jobs d) = filter (\<lambda>x. job_left d (sj_job x)) (db_scan_jobs d)"
    by (rule filter_same) (simp add: left refs(9))
  moreover have "filter (\<lambda>l. \<not> ?job (rl_job l)) (db_run_logs d) = filter (\<lambda>l. job_left d (rl_job l)) (db_run_logs d)"
    by (rule filter_same) (simp add: left refs(10))
  moreover have "filter (\<lambda>t. \<not> ref_gone ?job (t_job t)) (db_tasks d) =
      filter (\<lambda>t. case t_job t of None \<Rightarrow> True | Some i \<Rightarrow> job_left d i) (db_tasks d)"
    by (rule filter_same) (simp add: left refs(11) split: option.split)
  ultimately show ?thesis
    unfolding delete_snapshot_results_def Let_def fst_conv RESULT_JOBS_def [symmetric] counted_lost results_lost_def without_results_def
    by simp
qed

lemma delete_targets_effect:
  "delete_scan_targets d =
     (Response 200 (PDict [(''deleted'', PDict
        [(''scan_targets'', PInt (int (length (db_targets d)))),
         (''discovery_endpoint_links'', PInt (int (length (filter (\<lambda>e. e_target e \<noteq> None) (db_endpoints d)))))])]),
      without_targets d)"
proof -
  have none: "(case r of None \<Rightarrow> [] | Some i \<Rightarrow> [i :: int]) = [] \<longleftrightarrow> r = None" for r by (simp split: option.split)
  have a: "(if list_ex (\<lambda>i. True) (case a_target a of None \<Rightarrow> [] | Some i \<Rightarrow> [i]) then a\<lparr>a_target := None\<rparr> else a) = a\<lparr>a_target := None\<rparr>"
    for a :: asset by (cases "a_target a") (auto intro: asset.equality)
  have l: "(if list_ex (\<lambda>i. True) (case rl_target x of None \<Rightarrow> [] | Some i \<Rightarrow> [i]) then x\<lparr>rl_target := None\<rparr> else x) = x\<lparr>rl_target := None\<rparr>"
    for x :: run_log by (cases "rl_target x") (auto intro: run_log.equality)
  have e: "(if list_ex (\<lambda>i. True) (case e_target x of None \<Rightarrow> [] | Some i \<Rightarrow> [i]) then x\<lparr>e_target := None\<rparr> else x) = x\<lparr>e_target := None\<rparr>"
    for x :: endpoint by (cases "e_target x") (auto intro: endpoint.equality)
  have p: "(if e_target (x\<lparr>e_target := None\<rparr>) = None \<and> e_promoted (x\<lparr>e_target := None\<rparr>)
      then x\<lparr>e_target := None\<rparr>\<lparr>e_promoted := False\<rparr> else x\<lparr>e_target := None\<rparr>) = x\<lparr>e_target := None, e_promoted := False\<rparr>"
    for x :: endpoint by (cases "e_promoted x") (auto intro: endpoint.equality)
  have "forget_target (\<lambda>i. True) d = d\<lparr>db_targets := [], db_assets := map (\<lambda>a. a\<lparr>a_target := None\<rparr>) (db_assets d),
      db_endpoints := map (\<lambda>e. e\<lparr>e_target := None\<rparr>) (db_endpoints d), db_run_logs := map (\<lambda>l. l\<lparr>rl_target := None\<rparr>) (db_run_logs d)\<rparr>"
    unfolding forget_target_def a l e by simp
  then show ?thesis
    by (simp add: delete_scan_targets_def Let_def without_targets_def comp_def p counted_def)
qed

lemma deletions_keep_references:
  assumes "references_ok d"
  shows "references_ok (snd (delete_snapshot_results d))" and "references_ok (snd (delete_scan_targets d))"
    and "references_ok (snd (delete_target i d))"
proof -
  show "references_ok (snd (delete_snapshot_results d))"
    using assms by (simp add: delete_snapshot_results_def Let_def delete_snapshots_ok delete_jobs_ok)
  show "references_ok (snd (delete_scan_targets d))"
    unfolding delete_scan_targets_def Let_def snd_conv by (rule set_promoted_ok) (simp_all add: assms forget_target_ok)
  show "references_ok (snd (delete_target i d))"
    using assms forget_target_ok by (auto simp: delete_target_def split: option.split)
qed


definition sample_linked_db :: db where
  "sample_linked_db = empty_db\<lparr>db_targets := [sample_target], db_snapshots := [\<lparr>sn_id = 1, sn_scan_job = None, sn_serial = ''s'',
       sn_summary = PNone, sn_validation_errors = [], sn_created = 0\<rparr>],
     db_assets := [(plain_asset 3 ''RSA-2048'')\<lparr>a_snapshot := Some 1, a_target := Some 6\<rparr>], db_overrides := [new_override 3],
     db_jobs := [sample_job ''scan_job'' PENDING]\<rparr>"


section \<open>Who gets in\<close>

text \<open>With a token configured, a request outside the exempt paths reaches the application only with exactly that token; any
  other one changes nothing and gets a 401, or an exception when a token is not ASCII.\<close>

theorem token_guards_api:
  "api_key_middleware expected path token app d =
     (if expected = [] \<or> is_exempt path \<or> token = Some expected \<and> list_all (\<lambda>c. code c < 128) expected then app d
      else if token \<noteq> None \<and> token \<noteq> Some [] \<and> \<not> list_all (\<lambda>c. code c < 128) (the token @ expected)
      then (Inl (TypeError ''comparing strings with non-ASCII characters is not supported''), d)
      else (Inr unauthorised, d))"
  by (cases token) (auto simp: api_key_middleware_def compare_digest_def)

section \<open>The published risk table\<close>

text \<open>The algorithms a row of the table names, and what the engines say of them.\<close>

definition row_names :: "risk_row \<Rightarrow> string list" where
  "row_names r = map strip (split_on CHR '','' (rt_algorithm r))"

definition row_scored :: "risk_row \<Rightarrow> bool" where
  "row_scored r = list_all (\<lambda>n. algorithm_factor (Some n) None None = rt_factor r) (row_names r)"

definition row_classified :: "risk_row \<Rightarrow> bool" where
  "row_classified r = list_all (\<lambda>n. is_quantum_vulnerable n None = rt_vulnerable r) (row_names r)"

lemma rows_scored: "list_all row_scored get_algorithm_risk_table"
  by code_simp

lemma first_rows_classified: "list_all row_classified (take 10 get_algorithm_risk_table)"
  by code_simp

lemma later_rows_classified: "list_all row_classified (take 9 (drop 10 get_algorithm_risk_table))"
  by code_simp

lemma last_rows_differ: "list_all (\<lambda>r. \<not> row_classified r) (drop 19 get_algorithm_risk_table)"
  by code_simp

lemma last_rows: "map rt_algorithm (drop 19 get_algorithm_risk_table) = [''Hybrid (X25519+ML-KEM-768)'', ''Unknown'']"
  by code_simp

text \<open>The published risk table is the risk engine's: every algorithm a row names gets the row's factor.  Its column of
  quantum-vulnerable algorithms is the migration engine's verdict in every row but the last two, hybrid and unknown algorithms,
  which the table calls vulnerable and the engine does not.\<close>

theorem risk_table_is_the_engines:
  "list_all row_scored get_algorithm_risk_table \<and> list_all row_classified (take 19 get_algorithm_risk_table) \<and>
   list_all (\<lambda>r. \<not> row_classified r) (drop 19 get_algorithm_risk_table) \<and>
   map rt_algorithm (drop 19 get_algorithm_risk_table) = [''Hybrid (X25519+ML-KEM-768)'', ''Unknown'']"
proof -
  have "take 19 get_algorithm_risk_table = take 10 get_algorithm_risk_table @ take 9 (drop 10 get_algorithm_risk_table)"
    using take_add [of 10 9 get_algorithm_risk_table] by simp
  then have "list_all row_classified (take 19 get_algorithm_risk_table)"
    using first_rows_classified later_rows_classified by simp
  then show ?thesis using rows_scored last_rows_differ last_rows by simp
qed

end
