(* ===== verification/Openssl_Time.thy ===== *)
theory Openssl_Time
  imports Values
begin

text \<open>
  What two components use of the standard library on text: \<open>str.split()\<close> on white space, \<open>str.splitlines()\<close>, and
  \<open>datetime.strptime\<close> with the format of the dates OpenSSL prints, \<open>%b %d %H:%M:%S %Y %Z\<close>.

  The names of \<open>%Z\<close> are UTC, GMT and the zone of the settings (Asia/Seoul, KST); the zone is ignored by the callers, which
  write UTC into the result.  Text is ASCII.  A date is a record, its timestamp the microseconds since 1970.
\<close>

section \<open>Splitting\<close>

function split_white :: "string \<Rightarrow> string list" where
  "split_white s =
     (case dropWhile is_space s of [] \<Rightarrow> []
      | c # cs \<Rightarrow> (c # takeWhile (\<lambda>x. \<not> is_space x) cs) # split_white (dropWhile (\<lambda>x. \<not> is_space x) cs))"
  by auto

termination
proof (relation "measure length")
  fix s :: string and c cs
  assume "dropWhile is_space s = c # cs"
  then have "length (c # cs) \<le> length s" by (metis length_dropWhile_le)
  moreover have "length (dropWhile (\<lambda>x. \<not> is_space x) cs) \<le> length cs" by (rule length_dropWhile_le)
  ultimately show "(dropWhile (\<lambda>x. \<not> is_space x) cs, s) \<in> measure length" by simp
qed simp

declare split_white.simps [simp del]

text \<open>The characters that end a line; a carriage return and a line feed end one line.\<close>

definition ends_line :: "char \<Rightarrow> bool" where
  "ends_line c = (10 \<le> code c \<and> code c \<le> 13 \<or> 28 \<le> code c \<and> code c \<le> 30 \<or> code c = 133)"

fun lines_from :: "string \<Rightarrow> string \<Rightarrow> string list" where
  "lines_from acc [] = (if acc = [] then [] else [rev acc])"
| "lines_from acc (c # cs) =
     (if code c = 13 then
        (case cs of [] \<Rightarrow> [rev acc]
         | c' # cs' \<Rightarrow> if code c' = 10 then rev acc # lines_from [] cs' else rev acc # lines_from [] cs)
      else if ends_line c then rev acc # lines_from [] cs
      else lines_from (c # acc) cs)"

definition splitlines :: "string \<Rightarrow> string list" where
  "splitlines s = lines_from [] s"

section \<open>Dates\<close>

record datetime =
  dt_year :: int
  dt_month :: int
  dt_day :: int
  dt_hour :: int
  dt_minute :: int
  dt_second :: int

definition is_leap :: "int \<Rightarrow> bool" where
  "is_leap y = (y mod 4 = 0 \<and> (y mod 100 \<noteq> 0 \<or> y mod 400 = 0))"

definition days_in_month :: "int \<Rightarrow> int \<Rightarrow> int" where
  "days_in_month y m = (if m = 2 then (if is_leap y then 29 else 28) else if m \<in> set [4, 6, 9, 11] then 30 else 31)"

text \<open>What the constructor of a date accepts.\<close>

definition datetime_ok :: "datetime \<Rightarrow> bool" where
  "datetime_ok t =
     (1 \<le> dt_year t \<and> dt_year t \<le> 9999 \<and> 1 \<le> dt_month t \<and> dt_month t \<le> 12 \<and>
      1 \<le> dt_day t \<and> dt_day t \<le> days_in_month (dt_year t) (dt_month t) \<and>
      0 \<le> dt_hour t \<and> dt_hour t \<le> 23 \<and> 0 \<le> dt_minute t \<and> dt_minute t \<le> 59 \<and> 0 \<le> dt_second t \<and> dt_second t \<le> 59)"

definition days_before_year :: "int \<Rightarrow> int" where
  "days_before_year y = (y - 1) * 365 + (y - 1) div 4 - (y - 1) div 100 + (y - 1) div 400"

definition days_before_month :: "int \<Rightarrow> int \<Rightarrow> int" where
  "days_before_month y m = sum_list (map (days_in_month y) [1..m - 1])"

definition ordinal :: "datetime \<Rightarrow> int" where
  "ordinal t = days_before_year (dt_year t) + days_before_month (dt_year t) (dt_month t) + dt_day t"

text \<open>1970-01-01 has the ordinal 719163.\<close>

definition timestamp :: "datetime \<Rightarrow> int" where
  "timestamp t =
     (((ordinal t - 719163) * 86400 + dt_hour t * 3600 + dt_minute t * 60 + dt_second t) * 1000000)"

definition MONTHS :: "int dict" where
  "MONTHS =
     [(''jan'', 1), (''feb'', 2), (''mar'', 3), (''apr'', 4), (''may'', 5), (''jun'', 6), (''jul'', 7), (''aug'', 8), (''sep'', 9),
      (''oct'', 10), (''nov'', 11), (''dec'', 12)]"

text \<open>A number of one or two digits up to a limit.\<close>

definition small_number :: "int \<Rightarrow> string \<Rightarrow> int option" where
  "small_number limit s =
     (if s \<noteq> [] \<and> length s \<le> 2 \<and> list_all is_digit s \<and> nat_of_digits s \<le> limit then Some (nat_of_digits s) else None)"

definition zone_names :: "string list" where
  "zone_names = [''utc'', ''gmt'', ''kst'']"

definition read_clock :: "string \<Rightarrow> (int \<times> int \<times> int) option" where
  "read_clock s =
     (case map (\<lambda>(limit, x). small_number limit x) (zip [23, 59, 61] (split_on CHR '':'' s)) of
        [Some h, Some m, Some sec] \<Rightarrow> if length (split_on CHR '':'' s) = 3 then Some (h, m, sec) else None
      | _ \<Rightarrow> None)"

definition strptime_openssl :: "string \<Rightarrow> datetime option" where
  "strptime_openssl s =
     (case split_white s of
        [month, day, clock, year, zone] \<Rightarrow>
          (case (dget MONTHS (lower month), small_number 31 day, read_clock clock) of
             (Some mo, Some dd, Some (h, m, sec)) \<Rightarrow>
               (let t = \<lparr>dt_year = nat_of_digits year, dt_month = mo, dt_day = dd, dt_hour = h, dt_minute = m, dt_second = sec\<rparr>
                in if length year = 4 \<and> list_all is_digit year \<and> dd \<noteq> 0 \<and> lower zone \<in> set zone_names \<and> datetime_ok t \<and>
                      \<not> is_space (hd s) \<and> \<not> is_space (last s)
                   then Some t else None)
           | _ \<Rightarrow> None)
      | _ \<Rightarrow> None)"

text \<open>\<open>isoformat()\<close> of a date in UTC, with Z for the zone.\<close>

definition padded :: "nat \<Rightarrow> int \<Rightarrow> string" where
  "padded n k = replicate (n - length (str_nat k)) CHR ''0'' @ str_nat k"

definition iso_utc :: "datetime \<Rightarrow> string" where
  "iso_utc t =
     padded 4 (dt_year t) @ ''-'' @ padded 2 (dt_month t) @ ''-'' @ padded 2 (dt_day t) @ ''T'' @
     padded 2 (dt_hour t) @ '':'' @ padded 2 (dt_minute t) @ '':'' @ padded 2 (dt_second t) @ ''Z''"

lemma strptime_valid: "strptime_openssl s = Some t \<Longrightarrow> datetime_ok t"
  by (auto simp: strptime_openssl_def Let_def split: list.splits option.splits prod.splits if_splits)

end
