(* ===== verification/Dashboard.thy ===== *)
theory Dashboard
  imports Openssl_Time Snapshots_Api Agents
begin

text \<open>
  \<open>apps/dashboard/api.py\<close>: the summary of the latest snapshot, its key figures, the runtime of the pipeline and the contexts
  inferred from homepages.  The demo seed, which runs a management command, is left out.

  Timestamps are microseconds.  \<open>parse_iso\<close> is Django's \<open>parse_datetime\<close> followed by the zone a naive time gets: none for a
  text that is no ISO date, a \<open>ValueError\<close> for one with impossible fields.  Numbers in a JSON column are finite.
\<close>

section \<open>Evidence in the metadata\<close>

definition VULNERABLE_ALGORITHM_FAMILIES :: "string list" where
  "VULNERABLE_ALGORITHM_FAMILIES = [''RSA'', ''ECDSA'', ''ECDH'', ''DH'']"

definition EXPIRING_CERTIFICATE_WINDOW_DAYS :: int where
  "EXPIRING_CERTIFICATE_WINDOW_DAYS = 90"

definition CERTIFICATE_EXPIRY_KEYS :: "string list" where
  "CERTIFICATE_EXPIRY_KEYS = [''expires_at'', ''not_after'', ''valid_to'', ''valid_until'', ''expiration'']"

definition PRIVATE_KEY_ASSET_TYPES :: "string list" where
  "PRIVATE_KEY_ASSET_TYPES = [''key'', ''ssh_user_key'', ''keystore_entry'', ''package_key'']"

definition PIPELINE_JOB_KINDS :: "string list" where
  "PIPELINE_JOB_KINDS = [''discovery'', ''recompute'']"

type_synonym iso_reader = "string \<Rightarrow> py_error + int option"

definition parse_expiration_datetime :: "iso_reader \<Rightarrow> pyval \<Rightarrow> py_error + int option" where
  "parse_expiration_datetime parse_iso v =
     (if \<not> truthy v then Inr None
      else (let text = strip (py_str v)
        in rbind (parse_iso text) (\<lambda>parsed.
             Inr (case parsed of Some t \<Rightarrow> Some t | None \<Rightarrow> map_option timestamp (strptime_openssl text)))))"

fun first_expiration :: "iso_reader \<Rightarrow> pyval list \<Rightarrow> py_error + int option" where
  "first_expiration parse_iso [] = Inr None"
| "first_expiration parse_iso (v # vs) =
     rbind (parse_expiration_datetime parse_iso v) (\<lambda>t. case t of Some x \<Rightarrow> Inr (Some x) | None \<Rightarrow> first_expiration parse_iso vs)"

definition expiry_containers :: "pyval dict \<Rightarrow> pyval dict list" where
  "expiry_containers m =
     m # concat (map (\<lambda>k. case pget m k of PDict c \<Rightarrow> [c] | _ \<Rightarrow> []) [''summary'', ''certificate'', ''validity''])"

definition asset_expiration :: "iso_reader \<Rightarrow> asset \<Rightarrow> py_error + int option" where
  "asset_expiration parse_iso a =
     first_expiration parse_iso (concat (map (\<lambda>c. map (pget c) CERTIFICATE_EXPIRY_KEYS) (expiry_containers (a_metadata a))))"

definition expires_within :: "int \<Rightarrow> int option \<Rightarrow> bool" where
  "expires_within now t =
     (case t of None \<Rightarrow> False | Some x \<Rightarrow> now \<le> x \<and> x \<le> now + EXPIRING_CERTIFICATE_WINDOW_DAYS * 86400 * 1000000)"

definition expiring_certificate_count :: "iso_reader \<Rightarrow> int \<Rightarrow> asset list \<Rightarrow> py_error + int" where
  "expiring_certificate_count parse_iso now assets =
     rmap (\<lambda>ts. int (length (filter (expires_within now) ts)))
       (rmapM (asset_expiration parse_iso) (filter (\<lambda>a. a_type a = ''certificate'') assets))"

definition mentions_private_key :: "pyval \<Rightarrow> bool" where
  "mentions_private_key v =
     (case v of PList xs \<Rightarrow> list_ex (\<lambda>x. contains (lower (py_str x)) ''private_key'') xs
      | _ \<Rightarrow> contains (lower (py_str (py_or v (PStr [])))) ''private_key'')"

definition has_private_key_file_evidence :: "pyval dict \<Rightarrow> bool" where
  "has_private_key_file_evidence m =
     (truthy (pget m ''private_key_paths'') \<or>
      list_ex (\<lambda>k. mentions_private_key (pget m k)) [''scanner'', ''type'', ''path'', ''source_scanners'', ''source_paths''])"

definition metadata_bool :: "pyval \<Rightarrow> bool option" where
  "metadata_bool v =
     (case v of PBool b \<Rightarrow> Some b | PNone \<Rightarrow> None
      | _ \<Rightarrow> (let text = lower (strip (py_str v))
              in if text \<in> set [''true'', ''1'', ''yes''] then Some True
                 else if text \<in> set [''false'', ''0'', ''no''] then Some False else None))"

definition is_dormant_private_key :: "asset \<Rightarrow> bool" where
  "is_dormant_private_key a =
     (a_type a \<in> set PRIVATE_KEY_ASSET_TYPES \<and> has_private_key_file_evidence (a_metadata a) \<and>
      (metadata_bool (pget (a_metadata a) ''dormant'') = Some True \<or> metadata_bool (pget (a_metadata a) ''in_use'') = Some False))"

definition dormant_private_key_count :: "asset list \<Rightarrow> int" where
  "dormant_private_key_count assets = int (length (filter is_dormant_private_key assets))"

section \<open>Runtime\<close>

text \<open>\<open>int(round(seconds / 60))\<close> with the seconds as a float.\<close>

definition rounded_minutes :: "int \<Rightarrow> int" where
  "rounded_minutes microseconds = rhe (rnd (rnd (of_int microseconds / 1000000) / 60))"

definition duration_minutes :: "int option \<Rightarrow> int option \<Rightarrow> int" where
  "duration_minutes started finished =
     (case (started, finished) of
        (Some s, Some f) \<Rightarrow>
          if f < s then 0
          else if 0 < f - s \<and> rounded_minutes (f - s) = 0 then 1 else rounded_minutes (f - s)
      | _ \<Rightarrow> 0)"

definition latest_completed_job_duration_minutes :: "pyval \<Rightarrow> string \<Rightarrow> db \<Rightarrow> int" where
  "latest_completed_job_duration_minutes scenario kind d =
     (case first_by (\<lambda>j. - the (j_finished j)) (\<lambda>j. - j_id j)
             (filter (\<lambda>j. j_kind j = kind \<and> j_status j = COMPLETED \<and> py_eq (pget (j_request j) ''scenario'') scenario \<and>
                          j_started j \<noteq> None \<and> j_finished j \<noteq> None) (db_jobs d)) of
        None \<Rightarrow> 0 | Some j \<Rightarrow> duration_minutes (j_started j) (j_finished j))"

text \<open>The job behind a snapshot; both references hold in the database.\<close>

definition snapshot_job :: "snapshot \<Rightarrow> db \<Rightarrow> async_job option" where
  "snapshot_job sn d =
     Option.bind (sn_scan_job sn) (\<lambda>i. Option.bind (find_row sj_id i (db_scan_jobs d)) (\<lambda>x. find_row j_id (sj_job x) (db_jobs d)))"

definition snapshot_scan_duration_minutes :: "snapshot \<Rightarrow> db \<Rightarrow> int" where
  "snapshot_scan_duration_minutes sn d =
     (case snapshot_job sn d of None \<Rightarrow> 0 | Some j \<Rightarrow> duration_minutes (j_started j) (j_finished j))"

definition pipeline_runtime_minutes :: "snapshot \<Rightarrow> int \<Rightarrow> db \<Rightarrow> int" where
  "pipeline_runtime_minutes sn scan_minutes d =
     (case snapshot_job sn d of None \<Rightarrow> 0
      | Some j \<Rightarrow>
          (let scenario = pget (j_request j) ''scenario''
           in if \<not> truthy scenario then scan_minutes
              else scan_minutes + sum_list (map (\<lambda>k. latest_completed_job_duration_minutes scenario k d) PIPELINE_JOB_KINDS)))"

section \<open>Key figures\<close>

definition kpi :: "snapshot option \<Rightarrow> int \<Rightarrow> string \<Rightarrow> string \<Rightarrow> pyval" where
  "kpi sn n unit_name source =
     PDict [(''value'', PInt n), (''unit'', PStr unit_name), (''source'', PStr source),
            (''snapshot_id'', opt_int (map_option sn_id sn)), (''scan_job_id'', opt_int (Option.bind sn sn_scan_job))]"

definition dashboard_kpis :: "snapshot option \<Rightarrow> asset list \<Rightarrow> int \<Rightarrow> int \<Rightarrow> int \<Rightarrow> int \<Rightarrow> int \<Rightarrow> pyval" where
  "dashboard_kpis sn assets vulnerable expiring dormant scan_minutes pipeline_minutes =
     PDict [(''discovered_crypto_assets_per_scan'', kpi sn (int (length assets)) ''assets'' ''cbom_snapshot''),
            (''quantum_vulnerable_assets_per_scan'', kpi sn vulnerable ''assets'' ''algorithm_family_classification''),
            (''expiring_certificates_90d_per_scan'', kpi sn expiring ''certificates'' ''certificate_metadata_expires_at''),
            (''dormant_private_keys_per_scan'', kpi sn dormant ''keys'' ''asset_metadata_dormant_private_key''),
            (''automated_inventory_runtime_minutes_per_scan'', kpi sn scan_minutes ''minutes'' ''scan_job_timestamps''),
            (''full_pipeline_runtime_minutes'', kpi sn pipeline_minutes ''minutes'' ''pipeline_job_timestamps'')]"

section \<open>Inferred contexts\<close>

definition inference_row :: "target \<Rightarrow> pyval dict \<Rightarrow> pyval dict" where
  "inference_row t inference =
     (let c = tg_context t
      in [(''target_id'', PInt (tg_id t)), (''target_label'', PStr (label_of t)), (''service_role'', pget c ''service_role''),
          (''sensitivity'', pget c ''sensitivity''), (''criticality'', pget c ''criticality''), (''exposure'', pget c ''exposure''),
          (''lifespan_years'', pget c ''lifespan_years''), (''confidence'', pget inference ''confidence''),
          (''title'', pget inference ''title''), (''description'', pget inference ''description''),
          (''signals'', py_or (pget inference ''signals'') (PList [])), (''url'', pget inference ''url'')])"

definition inference_key :: "pyval dict \<Rightarrow> py_error + rat \<times> string" where
  "inference_key row =
     (case number_value (py_or (pget row ''confidence'') (PInt 0)) of
        Some x \<Rightarrow> Inr (- fval x, py_str (pget row ''target_label''))
      | None \<Rightarrow> Inl (TypeError ''bad operand type for unary -''))"

definition homepage_context_inferences :: "asset list \<Rightarrow> db \<Rightarrow> py_error + pyval list" where
  "homepage_context_inferences assets d =
     (let used = set (concat (map (\<lambda>a. case a_target a of None \<Rightarrow> [] | Some i \<Rightarrow> if i = 0 then [] else [i]) assets));
          targets = sort_key (\<lambda>t. (tg_host t, tg_port t)) (filter (\<lambda>t. tg_id t \<in> used) (db_targets d));
          rows = concat (map (\<lambda>t. case pget (tg_context t) ''homepage_inference'' of PDict i \<Rightarrow> [inference_row t i] | _ \<Rightarrow> []) targets)
      in rmap (\<lambda>keys. map (PDict \<circ> snd) (take 6 (sort_key fst (zip keys rows)))) (rmapM inference_key rows))"

section \<open>The summary\<close>

definition family_name :: "asset \<Rightarrow> string" where
  "family_name a = or_str (a_family a) ''UNKNOWN''"

definition counts_of :: "('a \<Rightarrow> string) \<Rightarrow> 'a list \<Rightarrow> pyval" where
  "counts_of f xs = int_dict (counter (map f xs))"

definition vulnerable_count :: "asset list \<Rightarrow> int" where
  "vulnerable_count assets = int (length (filter (\<lambda>a. a_family a \<in> set VULNERABLE_ALGORITHM_FAMILIES) assets))"

definition known_count :: "asset list \<Rightarrow> int" where
  "known_count assets = int (length (filter (\<lambda>a. a_family a \<noteq> []) assets))"

definition vulnerable_ratio :: "asset list \<Rightarrow> pyval dict" where
  "vulnerable_ratio assets =
     [(''vulnerable'', PInt (vulnerable_count assets)), (''safe'', PInt (max (known_count assets - vulnerable_count assets) 0)),
      (''unknown'', PInt (max (int (length assets) - known_count assets) 0))]"

definition agent_status :: "int \<Rightarrow> db \<Rightarrow> pyval" where
  "agent_status now d =
     PDict [(''total'', PInt (int (length (db_agents d)))), (''active'', PInt (int (length (filter ag_active (db_agents d))))),
            (''stale'', PInt (int (length (filter (\<lambda>a. ag_active a \<and> is_stale a now) (db_agents d)))))]"

definition recent_jobs :: "db \<Rightarrow> pyval" where
  "recent_jobs d = PList (map serialize_job (take 5 (rev (sort_key j_id (db_jobs d)))))"

definition trend_row :: "db \<Rightarrow> snapshot \<Rightarrow> pyval" where
  "trend_row d sn =
     PDict [(''snapshot_id'', PInt (sn_id sn)), (''created_at'', PInt (sn_created sn)),
            (''critical_count'', PInt (int (length (filter (\<lambda>s. rs_snapshot s = Some (sn_id sn) \<and> rs_tier s = ''CRITICAL'') (db_risk_scores d))))),
            (''total_count'', PInt (int (length (snapshot_assets (sn_id sn) d))))]"

definition trend :: "db \<Rightarrow> pyval" where
  "trend d = PList (rev (map (trend_row d) (take 10 (sort_key (\<lambda>sn. - sn_created sn) (sort_key sn_id (db_snapshots d))))))"

definition chosen_snapshot :: "int option \<Rightarrow> db \<Rightarrow> snapshot option" where
  "chosen_snapshot i d =
     (case i of Some k \<Rightarrow> if k \<noteq> 0 then snapshot_of d k else first_by (\<lambda>s. - sn_id s) (\<lambda>s. 0) (db_snapshots d)
      | None \<Rightarrow> first_by (\<lambda>s. - sn_id s) (\<lambda>s. 0) (db_snapshots d))"

definition empty_summary :: "int \<Rightarrow> db \<Rightarrow> pyval dict" where
  "empty_summary now d =
     [(''snapshot'', PNone), (''by_tier'', PDict []), (''by_asset_type'', PDict []), (''by_algorithm_family'', PDict []),
      (''quantum_vulnerable_ratio'', PDict (vulnerable_ratio [])), (''kpis'', dashboard_kpis None [] 0 0 0 0 0),
      (''recent_jobs'', recent_jobs d), (''agents_status'', agent_status now d), (''trend'', PList []), (''context_inferences'', PList [])]"

definition snapshot_summary_body :: "snapshot \<Rightarrow> asset list \<Rightarrow> int \<Rightarrow> pyval list \<Rightarrow> int \<Rightarrow> db \<Rightarrow> pyval dict" where
  "snapshot_summary_body sn assets expiring inferences now d =
     (let minutes = snapshot_scan_duration_minutes sn d
      in [(''snapshot'', PDict [(''id'', PInt (sn_id sn)), (''created_at'', PInt (sn_created sn)), (''asset_count'', PInt (int (length assets)))]),
          (''by_tier'', counts_of rs_tier (snapshot_scores (sn_id sn) d)), (''by_asset_type'', counts_of a_type assets),
          (''by_algorithm_family'', counts_of family_name assets), (''quantum_vulnerable_ratio'', PDict (vulnerable_ratio assets)),
          (''kpis'', dashboard_kpis (Some sn) assets (vulnerable_count assets) expiring (dormant_private_key_count assets) minutes
             (pipeline_runtime_minutes sn minutes d)),
          (''recent_jobs'', recent_jobs d), (''agents_status'', agent_status now d), (''trend'', trend d),
          (''context_inferences'', PList inferences)])"

definition get_dashboard_summary :: "iso_reader \<Rightarrow> int option \<Rightarrow> int \<Rightarrow> db \<Rightarrow> py_error + pyval dict" where
  "get_dashboard_summary parse_iso i now d =
     (case chosen_snapshot i d of
        None \<Rightarrow> Inr (empty_summary now d)
      | Some sn \<Rightarrow>
          (let assets = snapshot_assets (sn_id sn) d
           in rbind (expiring_certificate_count parse_iso now assets) (\<lambda>expiring.
                rmap (\<lambda>inferences. snapshot_summary_body sn assets expiring inferences now d) (homepage_context_inferences assets d))))"

section \<open>What the figures add up to\<close>

text \<open>The numbers of a dict of counts, added.\<close>

definition count_sum :: "pyval \<Rightarrow> int" where
  "count_sum v = (case v of PDict m \<Rightarrow> sum_list (map (\<lambda>(k, x). case x of PInt n \<Rightarrow> n | _ \<Rightarrow> 0) m) | _ \<Rightarrow> 0)"

lemma count_sum_int_dict: "count_sum (int_dict c) = sum_list (map snd c)"
  unfolding count_sum_def int_dict_def by (induction c) auto

lemma count_sum_counts: "count_sum (counts_of f xs) = int (length xs)"
  using counter_total [of "map f xs"] by (simp add: counts_of_def count_sum_int_dict)

lemma vulnerable_known: "vulnerable_count xs \<le> known_count xs" "known_count xs \<le> int (length xs)"
proof -
  have "length (filter P xs) \<le> length (filter Q xs)" if "\<And>x. P x \<Longrightarrow> Q x" for P Q :: "asset \<Rightarrow> bool"
    using that by (induction xs) (auto intro: le_SucI)
  then show "vulnerable_count xs \<le> known_count xs"
    by (fastforce simp: vulnerable_count_def known_count_def VULNERABLE_ALGORITHM_FAMILIES_def)
  show "known_count xs \<le> int (length xs)" by (simp add: known_count_def)
qed

lemma ratio_sum: "count_sum (PDict (vulnerable_ratio xs)) = int (length xs)"
  using vulnerable_known [of xs] by (simp add: count_sum_def vulnerable_ratio_def)

lemma first_expiration_raises: "first_expiration p vs = Inl e \<Longrightarrow> \<exists>text. p text = Inl e"
  by (induction vs) (auto simp: parse_expiration_datetime_def rbind_Inl_iff Let_def split: if_splits option.splits)

lemma rmapM_raises: "rmapM f xs = Inl e \<Longrightarrow> \<exists>x. f x = Inl e"
  by (induction xs) (auto simp: rbind_Inl_iff)

lemma expiring_raises: "expiring_certificate_count p now xs = Inl e \<Longrightarrow> \<exists>text. p text = Inl e"
  unfolding expiring_certificate_count_def rmap_def rbind_Inl_iff asset_expiration_def
  by (auto dest!: rmapM_raises first_expiration_raises)

lemma inferences_raise: "homepage_context_inferences xs d = Inl e \<Longrightarrow> e = TypeError ''bad operand type for unary -''"
  unfolding homepage_context_inferences_def Let_def rmap_def rbind_Inl_iff
  by (auto dest!: rmapM_raises simp: inference_key_def split: option.splits)

text \<open>The figures of a summary account for the assets of its snapshot: the counts per type, the counts per family and the
  three classes of the quantum-vulnerable ratio each add up to the number of assets, the counts per tier to the number of
  scores.  The summary fails only when the date reader raises on some text of the metadata, or a stored confidence is no
  number.\<close>

theorem dashboard_accounts_for_assets:
  "case chosen_snapshot i d of
     None \<Rightarrow> get_dashboard_summary parse_iso i now d = Inr (empty_summary now d)
   | Some sn \<Rightarrow>
       (case get_dashboard_summary parse_iso i now d of
          Inl e \<Rightarrow> (\<exists>text. parse_iso text = Inl e) \<or> e = TypeError ''bad operand type for unary -''
        | Inr s \<Rightarrow>
            (let n = int (length (snapshot_assets (sn_id sn) d))
             in count_sum (pget s ''by_asset_type'') = n \<and> count_sum (pget s ''by_algorithm_family'') = n \<and>
                count_sum (pget s ''quantum_vulnerable_ratio'') = n \<and>
                count_sum (pget s ''by_tier'') = int (length (snapshot_scores (sn_id sn) d))))"
proof (cases "chosen_snapshot i d")
  case None
  then show ?thesis by (simp add: get_dashboard_summary_def)
next
  case (Some sn)
  let ?xs = "snapshot_assets (sn_id sn) d"
  show ?thesis
  proof (cases "get_dashboard_summary parse_iso i now d")
    case (Inl e)
    then have "expiring_certificate_count parse_iso now ?xs = Inl e \<or> homepage_context_inferences ?xs d = Inl e"
      by (auto simp: get_dashboard_summary_def Some Let_def rbind_Inl_iff rmap_def)
    then show ?thesis using expiring_raises inferences_raise by (auto simp: Some Inl)
  next
    case (Inr s)
    then obtain x y where "s = snapshot_summary_body sn ?xs x y now d"
      by (auto simp: get_dashboard_summary_def Some Let_def res_simps)
    then show ?thesis
      by (simp add: Some Inr Let_def snapshot_summary_body_def pget_def dget_or_def count_sum_counts ratio_sum)
  qed
qed

end
