(* ===== verification/Ssh_Keys.thy ===== *)
theory Ssh_Keys
  imports Sha256
begin

text \<open>
  The host keys of \<open>apps/jobs/network_scanner.py\<close>: the base64 text of a key as \<open>ssh-keyscan\<close> prints it, the fields of the
  key blob (RFC 4253: a length in four bytes, then the bytes), the algorithm it names and its fingerprint.  A byte is a
  character.  Everything the parser catches is \<open>None\<close> here: a text that is no base64, a blob that is cut off, a name that
  is not ASCII.
\<close>

section \<open>Base64\<close>

definition b64_char :: "int \<Rightarrow> char" where
  "b64_char n =
     char_of (if n < 26 then 65 + n else if n < 52 then 71 + n else if n < 62 then n - 4 else if n = 62 then 43 else 47)"

definition b64_value :: "char \<Rightarrow> int option" where
  "b64_value c =
     (let n = code c
      in if 65 \<le> n \<and> n \<le> 90 then Some (n - 65)
         else if 97 \<le> n \<and> n \<le> 122 then Some (n - 71)
         else if 48 \<le> n \<and> n \<le> 57 then Some (n + 4)
         else if n = 43 then Some 62 else if n = 47 then Some 63 else None)"

text \<open>\<open>base64.b64encode\<close>.\<close>

fun b64encode :: "string \<Rightarrow> string" where
  "b64encode [] = []"
| "b64encode [a] = [b64_char (code a div 4), b64_char (code a mod 4 * 16), CHR ''='', CHR ''='']"
| "b64encode [a, b] =
     [b64_char (code a div 4), b64_char (code a mod 4 * 16 + code b div 16), b64_char (code b mod 16 * 4), CHR ''='']"
| "b64encode (a # b # c # rest) =
     b64_char (code a div 4) # b64_char (code a mod 4 * 16 + code b div 16) #
     b64_char (code b mod 16 * 4 + code c div 64) # b64_char (code c mod 64) # b64encode rest"

text \<open>\<open>base64.b64decode(s, validate=True)\<close>: groups of four characters, padding only in the last one.\<close>

definition b64_group :: "char \<Rightarrow> char \<Rightarrow> char \<Rightarrow> char \<Rightarrow> string option" where
  "b64_group p q r s =
     (case (b64_value p, b64_value q, b64_value r, b64_value s) of
        (Some w, Some x, Some y, Some z) \<Rightarrow>
          Some [char_of (w * 4 + x div 16), char_of (x mod 16 * 16 + y div 4), char_of (y mod 4 * 64 + z)]
      | _ \<Rightarrow> None)"

definition b64_last :: "char \<Rightarrow> char \<Rightarrow> char \<Rightarrow> char \<Rightarrow> string option" where
  "b64_last p q r s =
     (if s \<noteq> CHR ''='' then b64_group p q r s
      else (case (b64_value p, b64_value q) of
              (Some w, Some x) \<Rightarrow>
                if r = CHR ''='' then Some [char_of (w * 4 + x div 16)]
                else (case b64_value r of
                        Some y \<Rightarrow> Some [char_of (w * 4 + x div 16), char_of (x mod 16 * 16 + y div 4)]
                      | None \<Rightarrow> None)
            | _ \<Rightarrow> None))"

fun b64decode :: "string \<Rightarrow> string option" where
  "b64decode [] = Some []"
| "b64decode [p, q, r, s] = b64_last p q r s"
| "b64decode (p # q # r # s # t # rest) =
     (case (b64_group p q r s, b64decode (t # rest)) of (Some x, Some y) \<Rightarrow> Some (x @ y) | _ \<Rightarrow> None)"
| "b64decode _ = None"

section \<open>Key blobs\<close>

definition be_value :: "string \<Rightarrow> int" where
  "be_value bs = foldl (\<lambda>n c. 256 * n + code c) 0 bs"

definition is_ascii :: "string \<Rightarrow> bool" where
  "is_ascii s = list_all (\<lambda>c. code c < 128) s"

text \<open>The bytes of a field and the offset after it.\<close>

definition read_ssh_string :: "string \<Rightarrow> nat \<Rightarrow> (string \<times> nat) option" where
  "read_ssh_string bs offset =
     (if length bs < offset + 4 then None
      else (let start = offset + 4; end_of = start + nat (be_value (take 4 (drop offset bs)))
            in if length bs < end_of then None else Some (take (end_of - start) (drop start bs), end_of)))"

definition read_ssh_mpint :: "string \<Rightarrow> nat \<Rightarrow> (int \<times> nat) option" where
  "read_ssh_mpint bs offset = map_option (\<lambda>(raw, next). (be_value raw, next)) (read_ssh_string bs offset)"

text \<open>\<open>int.bit_length\<close> of a number that is not negative.\<close>

function bit_length :: "int \<Rightarrow> int" where
  "bit_length n = (if n \<le> 0 then 0 else 1 + bit_length (n div 2))"
  by auto

termination
  by (relation "measure nat") auto

declare bit_length.simps [simp del]

definition normalize_ssh_curve :: "string \<Rightarrow> string" where
  "normalize_ssh_curve curve =
     dget_or [(''nistp256'', ''P256''), (''nistp384'', ''P384''), (''nistp521'', ''P521'')] curve curve"

text \<open>The algorithm of a key and its family.\<close>

definition parse_ssh_public_key_blob :: "string \<Rightarrow> string \<Rightarrow> (string \<times> string) option" where
  "parse_ssh_public_key_blob key_type blob =
     (case read_ssh_string blob 0 of None \<Rightarrow> None
      | Some (algorithm, offset) \<Rightarrow>
          if \<not> is_ascii algorithm then None
          else if algorithm = ''ssh-rsa'' \<or> startswith key_type ''rsa-'' then
            (case read_ssh_mpint blob offset of None \<Rightarrow> None
             | Some (exponent, offset) \<Rightarrow>
                 (case read_ssh_mpint blob offset of None \<Rightarrow> None
                  | Some (modulus, offset) \<Rightarrow> Some (''RSA-'' @ str_int (bit_length modulus), ''RSA'')))
          else if startswith algorithm ''ecdsa-sha2-'' then
            (case read_ssh_string blob offset of None \<Rightarrow> None
             | Some (curve, offset) \<Rightarrow>
                 if is_ascii curve then Some (''ECDSA-'' @ normalize_ssh_curve curve, ''ECDSA'') else None)
          else if algorithm = ''ssh-ed25519'' then Some (''Ed25519'', ''EdDSA'')
          else None)"

definition ssh_fingerprint :: "string \<Rightarrow> string" where
  "ssh_fingerprint blob = ''SHA256:'' @ rstrip_if (\<lambda>c. c = CHR ''='') (b64encode (sha256 blob))"

section \<open>What is read back\<close>

lemma code_b64_char:
  "0 \<le> n \<Longrightarrow> n < 64 \<Longrightarrow>
   code (b64_char n) = (if n < 26 then 65 + n else if n < 52 then 71 + n else if n < 62 then n - 4 else if n = 62 then 43 else 47)"
  unfolding b64_char_def by (subst code_char_of) auto

lemma b64_value_char: "0 \<le> n \<Longrightarrow> n < 64 \<Longrightarrow> b64_value (b64_char n) = Some n \<and> b64_char n \<noteq> CHR ''=''"
proof -
  assume n: "0 \<le> n" "n < 64"
  consider "n < 26" | "26 \<le> n" "n < 52" | "52 \<le> n" "n < 62" | "n = 62" | "n = 63" using n by linarith
  then have "b64_value (b64_char n) = Some n"
    by cases (use n in \<open>simp_all add: b64_value_def code_b64_char Let_def\<close>)
  moreover have "b64_value CHR ''='' = None" by code_simp
  ultimately show ?thesis by auto
qed

lemma code_parts:
  "0 \<le> code a div 4" "code a div 4 < 64" "0 \<le> code a div 16" "code a div 16 < 16" "0 \<le> code a div 64" "code a div 64 < 4"
proof -
  have upper_part: "code a div k < m" if "0 < k" "256 = m * k" for k m :: int
  proof (rule ccontr)
    assume "\<not> code a div k < m"
    then have "m * k \<le> code a div k * k" using that(1) by (simp add: mult_right_mono)
    also have "\<dots> \<le> code a" using div_mult_mod_eq [of "code a" k] pos_mod_sign [OF that(1), of "code a"] by linarith
    finally show False using that(2) code_range(2) [of a] by simp
  qed
  show "code a div 4 < 64" "code a div 16 < 16" "code a div 64 < 4" using upper_part [of 4] upper_part [of 16] upper_part [of 64] by simp_all
qed (simp_all add: pos_imp_zdiv_nonneg_iff)

lemma join_parts:
  fixes q r :: int
  shows "0 \<le> r \<Longrightarrow> r < 16 \<Longrightarrow> (q * 16 + r) div 16 = q \<and> (q * 16 + r) mod 16 = r"
    and "0 \<le> r \<Longrightarrow> r < 4 \<Longrightarrow> (q * 4 + r) div 4 = q \<and> (q * 4 + r) mod 4 = r"
  by auto

lemma part_bounds:
  "code a mod 4 * 16 < 64" "code a mod 16 * 4 < 64" "0 \<le> code a mod 4 * 16" "0 \<le> code a mod 16 * 4"
  "code a mod 4 * 16 + code b div 16 < 64" "code a mod 16 * 4 + code b div 64 < 64"
  "0 \<le> code a mod 4 * 16 + code b div 16" "0 \<le> code a mod 16 * 4 + code b div 64"
proof -
  have m: "code a mod 4 < 4" "code a mod 16 < 16" "0 \<le> code a mod 4" "0 \<le> code a mod 16" by simp_all
  then show "code a mod 4 * 16 < 64" "code a mod 16 * 4 < 64" "0 \<le> code a mod 4 * 16" "0 \<le> code a mod 16 * 4" by linarith+
  show "code a mod 4 * 16 + code b div 16 < 64" "code a mod 16 * 4 + code b div 64 < 64"
    "0 \<le> code a mod 4 * 16 + code b div 16" "0 \<le> code a mod 16 * 4 + code b div 64"
    using m code_parts [of b] by linarith+
qed

lemmas sextet_values =
  b64_value_char [OF code_parts(1,2)] b64_value_char [OF part_bounds(3,1)] b64_value_char [OF part_bounds(4,2)]
  b64_value_char [OF part_bounds(7,5)] b64_value_char [OF part_bounds(8,6)]

lemma byte_parts:
  "code b div 16 mod 16 * 16 + code b mod 16 = code b" "code b div 64 mod 4 * 64 + code b mod 64 = code b"
  using code_parts [of b] by simp_all

lemmas part_joins = byte_parts join_parts(1) [OF code_parts(3,4)] join_parts(2) [OF code_parts(5,6)]

lemma b64_group_encoded:
  "b64_group (b64_char (code a div 4)) (b64_char (code a mod 4 * 16 + code b div 16))
     (b64_char (code b mod 16 * 4 + code c div 64)) (b64_char (code c mod 64)) = Some [a, b, c]"
  using b64_value_char [of "code c mod 64"] by (simp add: b64_group_def sextet_values part_joins)

lemma b64_last_encoded:
  "b64_last (b64_char (code a div 4)) (b64_char (code a mod 4 * 16)) CHR ''='' CHR ''='' = Some [a]"
  "b64_last (b64_char (code a div 4)) (b64_char (code a mod 4 * 16 + code b div 16)) (b64_char (code b mod 16 * 4)) CHR ''='' = Some [a, b]"
  "b64_last (b64_char (code a div 4)) (b64_char (code a mod 4 * 16 + code b div 16))
     (b64_char (code b mod 16 * 4 + code c div 64)) (b64_char (code c mod 64)) = Some [a, b, c]"
  using b64_value_char [of "code c mod 64"]
  by (simp_all add: b64_last_def b64_group_encoded sextet_values part_joins)

lemma b64_more: "rest \<noteq> [] \<Longrightarrow> \<exists>t r. b64encode rest = t # r"
  by (cases rest rule: b64encode.cases) simp_all

lemma b64_round: "b64decode (b64encode bs) = Some bs"
proof (induction bs rule: b64encode.induct)
  case (4 a b c rest)
  show ?case
  proof (cases "rest = []")
    case False
    then obtain t r where "b64encode rest = t # r" using b64_more by blast
    then show ?thesis using 4 by (simp add: b64_group_encoded)
  qed (simp add: b64_last_encoded)
qed (simp_all add: b64_last_encoded)

lemma b64_all:
  assumes c: "\<And>n. 0 \<le> n \<Longrightarrow> n < 64 \<Longrightarrow> P (b64_char n)" and padding: "P CHR ''=''"
  shows "list_all P (b64encode bs)"
proof -
  note all = c [OF code_parts(1,2)] c [OF part_bounds(3,1)] c [OF part_bounds(4,2)] c [OF part_bounds(7,5)] c [OF part_bounds(8,6)]
  have "P (b64_char (code a mod 64))" for a by (rule c) simp_all
  then show ?thesis by (induction bs rule: b64encode.induct) (simp_all add: all padding)
qed

lemma is_ascii_b64: "is_ascii (b64encode bs)"
  unfolding is_ascii_def by (rule b64_all) (auto simp: code_b64_char, code_simp)

lemma b64_no_space: "list_all (\<lambda>c. \<not> is_space c) (b64encode bs)"
  by (rule b64_all) (auto simp: is_space_def code_b64_char, auto simp: code_def)

text \<open>A field as the protocol writes it.\<close>

definition be_bytes :: "nat \<Rightarrow> int \<Rightarrow> string" where
  "be_bytes k n = map (\<lambda>i. char_of (n div 256 ^ (k - 1 - i) mod 256)) [0..<k]"

definition ssh_field :: "string \<Rightarrow> string" where
  "ssh_field w = be_bytes 4 (int (length w)) @ w"

lemma length_be_bytes [simp]: "length (be_bytes k n) = k"
  by (simp add: be_bytes_def)

lemma be_bytes_Suc: "be_bytes (Suc k) n = be_bytes k (n div 256) @ [char_of (n mod 256)]"
proof -
  have "map (\<lambda>i. char_of (n div 256 ^ (k - i) mod 256)) [0..<k] = (map (\<lambda>i. char_of (n div 256 div 256 ^ (k - 1 - i) mod 256)) [0..<k] :: string)"
  proof (rule map_cong [OF refl])
    fix i assume "i \<in> set [0..<k]"
    then have "256 ^ (k - i) = (256 * 256 ^ (k - 1 - i) :: int)" by (cases "k - i") (auto simp flip: power_Suc)
    then show "char_of (n div 256 ^ (k - i) mod 256) = (char_of (n div 256 div 256 ^ (k - 1 - i) mod 256) :: char)"
      by (simp add: zdiv_zmult2_eq)
  qed
  then show ?thesis by (simp add: be_bytes_def)
qed

lemma be_value_snoc: "be_value (bs @ [c]) = 256 * be_value bs + code c"
  by (simp add: be_value_def)

lemma code_of_int [simp]: "code (char_of n) = n mod 256"
  by (simp add: code_def)

lemma be_value_bytes: "0 \<le> n \<Longrightarrow> be_value (be_bytes k n) = n mod 256 ^ k"
proof (induction k arbitrary: n)
  case (Suc k)
  have "be_value (be_bytes (Suc k) n) = 256 * (n div 256 mod 256 ^ k) + n mod 256"
    using Suc by (simp add: be_bytes_Suc be_value_snoc pos_imp_zdiv_nonneg_iff)
  also have "\<dots> = n mod (256 * 256 ^ k)" by (simp add: zmod_zmult2_eq)
  finally show ?case by simp
qed (simp add: be_bytes_def be_value_def)

lemma be_value_nonneg: "0 \<le> be_value bs"
  by (induction bs rule: rev_induct) (simp_all add: be_value_snoc, simp add: be_value_def)

lemma read_field:
  assumes "int (length w) < 256 ^ 4" "offset = length before"
  shows "read_ssh_string (before @ ssh_field w @ rest) offset = Some (w, offset + 4 + length w)"
proof -
  have "be_value (be_bytes 4 (int (length w))) = int (length w)" using assms(1) by (simp add: be_value_bytes)
  then show ?thesis using assms(2) by (simp add: read_ssh_string_def ssh_field_def Let_def)
qed

lemma bit_length_pos: "0 < n \<Longrightarrow> 0 < bit_length n"
proof (induction n rule: bit_length.induct)
  case (1 n)
  then have "0 \<le> bit_length (n div 2)" by (cases "0 < n div 2") (auto simp: bit_length.simps [of "n div 2"] bit_length.simps [of 0])
  then show ?case using 1(2) by (subst bit_length.simps) simp
qed

lemma bit_length_spec: "0 < n \<Longrightarrow> 2 ^ nat (bit_length n - 1) \<le> n \<and> n < 2 ^ nat (bit_length n)"
proof (induction n rule: bit_length.induct)
  case (1 n)
  show ?case
  proof (cases "n = 1")
    case True
    have "bit_length 1 = 1" by code_simp
    then show ?thesis using True by simp
  next
    case False
    then have half: "0 < n div 2" using 1(2) by auto
    then have IH: "2 ^ nat (bit_length (n div 2) - 1) \<le> n div 2" "n div 2 < 2 ^ nat (bit_length (n div 2))" using 1 by auto
    have b: "bit_length n = 1 + bit_length (n div 2)" using 1(2) by (subst bit_length.simps) simp
    let ?k = "nat (bit_length (n div 2) - 1)"
    have e: "nat (bit_length n - 1) = Suc ?k" "nat (bit_length n) = Suc (Suc ?k)" "nat (bit_length (n div 2)) = Suc ?k"
      using bit_length_pos [OF half] b by auto
    show ?thesis using IH unfolding e by auto
  qed
qed

text \<open>What is read of a key that is written field by field.\<close>

lemma rsa_key_read:
  assumes "int (length e) < 256 ^ 4" "int (length n) < 256 ^ 4"
  shows "parse_ssh_public_key_blob key_type (ssh_field ''ssh-rsa'' @ ssh_field e @ ssh_field n @ rest)
    = Some (''RSA-'' @ str_int (bit_length (be_value n)), ''RSA'')"
proof -
  let ?b = "ssh_field ''ssh-rsa'' @ ssh_field e @ ssh_field n @ rest"
  have a: "read_ssh_string ?b 0 = Some (''ssh-rsa'', 11)" using read_field [of "''ssh-rsa''" 0 "[]"] by simp
  have b: "read_ssh_string ?b 11 = Some (e, 15 + length e)"
    using read_field [of e 11 "ssh_field ''ssh-rsa''"] assms(1) by (simp add: ssh_field_def)
  have c: "read_ssh_string ?b (15 + length e) = Some (n, 19 + length e + length n)"
    using read_field [of n "15 + length e" "ssh_field ''ssh-rsa'' @ ssh_field e" rest] assms(2) by (simp add: ssh_field_def)
  have "is_ascii ''ssh-rsa''" by code_simp
  then show ?thesis by (simp add: parse_ssh_public_key_blob_def read_ssh_mpint_def a b c)
qed

lemma ecdsa_key_read:
  assumes "int (length name) < 256 ^ 4" "int (length curve) < 256 ^ 4" "is_ascii name" "is_ascii curve"
    "\<not> startswith key_type ''rsa-''" "startswith name ''ecdsa-sha2-''"
  shows "parse_ssh_public_key_blob key_type (ssh_field name @ ssh_field curve @ rest)
    = Some (''ECDSA-'' @ normalize_ssh_curve curve, ''ECDSA'')"
proof -
  let ?b = "ssh_field name @ ssh_field curve @ rest"
  have a: "read_ssh_string ?b 0 = Some (name, 4 + length name)" using read_field [of name 0 "[]"] assms(1) by simp
  have b: "read_ssh_string ?b (4 + length name) = Some (curve, 8 + length name + length curve)"
    using read_field [of curve "4 + length name" "ssh_field name" rest] assms(2) by (simp add: ssh_field_def)
  have "name \<noteq> ''ssh-rsa''" using assms(6) by (auto simp: startswith_def)
  then show ?thesis using assms(3-6) by (simp add: parse_ssh_public_key_blob_def a b)
qed

lemma ed25519_key_read:
  assumes "\<not> startswith key_type ''rsa-''"
  shows "parse_ssh_public_key_blob key_type (ssh_field ''ssh-ed25519'' @ rest) = Some (''Ed25519'', ''EdDSA'')"
proof -
  have a: "read_ssh_string (ssh_field ''ssh-ed25519'' @ rest) 0 = Some (''ssh-ed25519'', 15)"
    using read_field [of "''ssh-ed25519''" 0 "[]"] by simp
  have "is_ascii ''ssh-ed25519''" by code_simp
  then show ?thesis using assms by (simp add: parse_ssh_public_key_blob_def a startswith_def)
qed

end
