(* ===== verification/Ike.thy ===== *)
theory Ike
  imports Ssh_Keys Scan_Assets
begin

text \<open>
  The IKE part of \<open>apps/jobs/network_scanner.py\<close>: the first message of an IKEv2 exchange (RFC 7296) that is sent to a
  target, and the reader of the answer, which names an algorithm for every transform of every proposal it finds.  The
  loops of the reader move a cursor over the bytes and stop at a length that is too small or too large, which is why
  they end on any answer.  The random bytes of a message are arguments.
\<close>

section \<open>Constants\<close>

definition IKE_NEXT_PAYLOAD_SA :: int where "IKE_NEXT_PAYLOAD_SA = 33"
definition IKE_NEXT_PAYLOAD_KE :: int where "IKE_NEXT_PAYLOAD_KE = 34"
definition IKE_NEXT_PAYLOAD_NONCE :: int where "IKE_NEXT_PAYLOAD_NONCE = 40"
definition IKE_EXCHANGE_SA_INIT :: int where "IKE_EXCHANGE_SA_INIT = 34"
definition IKE_FLAGS_INITIATOR :: int where "IKE_FLAGS_INITIATOR = 8"
definition IKE_VERSION_2 :: int where "IKE_VERSION_2 = 32"

type_synonym names = "(int \<times> string) list"

definition name_of :: "names \<Rightarrow> int \<Rightarrow> string \<Rightarrow> string" where
  "name_of table k dflt = (case map_of table k of Some v \<Rightarrow> v | None \<Rightarrow> dflt)"

definition IKE_TRANSFORM_TYPE :: names where
  "IKE_TRANSFORM_TYPE = [(1, ''encryption''), (2, ''prf''), (3, ''integrity''), (4, ''dh_group'')]"

definition IKE_ENCRYPTION :: names where
  "IKE_ENCRYPTION =
     [(12, ''AES-CBC''), (13, ''AES-CTR''), (18, ''AES-GCM-8''), (19, ''AES-GCM-12''), (20, ''AES-GCM-16''),
      (28, ''ChaCha20-Poly1305'')]"

definition IKE_PRF :: names where
  "IKE_PRF = [(2, ''HMAC-SHA1''), (5, ''HMAC-SHA2-256''), (6, ''HMAC-SHA2-384''), (7, ''HMAC-SHA2-512'')]"

definition IKE_INTEGRITY :: names where
  "IKE_INTEGRITY =
     [(2, ''HMAC-SHA1-96''), (12, ''HMAC-SHA2-256-128''), (13, ''HMAC-SHA2-384-192''), (14, ''HMAC-SHA2-512-256'')]"

definition IKE_DH_GROUPS :: names where
  "IKE_DH_GROUPS =
     [(14, ''MODP-2048''), (15, ''MODP-3072''), (16, ''MODP-4096''), (19, ''ECP-256''), (20, ''ECP-384''), (21, ''ECP-521''),
      (31, ''Curve25519''), (32, ''Curve448'')]"

section \<open>The message\<close>

definition ike_transform :: "bool \<Rightarrow> int \<Rightarrow> int \<Rightarrow> string \<Rightarrow> string" where
  "ike_transform more_follow ty ident attrs =
     be_bytes 1 (if more_follow then 3 else 0) @ be_bytes 1 0 @ be_bytes 2 (8 + int (length attrs)) @ be_bytes 1 ty @ be_bytes 1 0 @
     be_bytes 2 ident @ attrs"

definition ike_proposal :: "int \<Rightarrow> string \<Rightarrow> string" where
  "ike_proposal n transforms =
     be_bytes 1 0 @ be_bytes 1 0 @ be_bytes 2 (8 + int (length transforms)) @ be_bytes 1 1 @ be_bytes 1 1 @ be_bytes 1 0 @ be_bytes 1 n @
     transforms"

definition ike_payload :: "int \<Rightarrow> string \<Rightarrow> string" where
  "ike_payload next_payload body = be_bytes 1 next_payload @ be_bytes 1 0 @ be_bytes 2 (4 + int (length body)) @ body"

definition ike_sa_payload :: string where
  "ike_sa_payload =
     (let transforms =
        concat [ike_transform True 1 12 (be_bytes 2 0x800E @ be_bytes 2 256), ike_transform True 2 5 [],
                ike_transform True 3 12 [], ike_transform False 4 14 []]
      in ike_payload IKE_NEXT_PAYLOAD_KE (ike_proposal 4 transforms))"

definition ike_ke_payload :: "string \<Rightarrow> string" where
  "ike_ke_payload key_exchange_data = ike_payload IKE_NEXT_PAYLOAD_NONCE (be_bytes 2 14 @ be_bytes 2 0 @ key_exchange_data)"

definition ike_nonce_payload :: "string \<Rightarrow> string" where
  "ike_nonce_payload nonce = ike_payload 0 nonce"

definition zeros :: "nat \<Rightarrow> string" where
  "zeros n = replicate n CHR 0x00"

text \<open>The arguments are the SPI (8 bytes), the key exchange data (256) and the nonce (32) that are drawn.\<close>

definition build_ike_sa_init :: "bool \<Rightarrow> string \<Rightarrow> string \<Rightarrow> string \<Rightarrow> string" where
  "build_ike_sa_init natt spi ke nonce =
     (let body = ike_sa_payload @ ike_ke_payload ke @ ike_nonce_payload nonce;
          header = spi @ zeros 8 @ be_bytes 1 IKE_NEXT_PAYLOAD_SA @ be_bytes 1 IKE_VERSION_2 @ be_bytes 1 IKE_EXCHANGE_SA_INIT @
            be_bytes 1 IKE_FLAGS_INITIATOR @ be_bytes 4 0 @ be_bytes 4 (28 + int (length body))
      in (if natt then zeros 4 else []) @ header @ body)"

section \<open>The reader\<close>

definition u8 :: "string \<Rightarrow> nat \<Rightarrow> int" where
  "u8 bs i = be_value (take 1 (drop i bs))"

definition u16 :: "string \<Rightarrow> nat \<Rightarrow> int" where
  "u16 bs i = be_value (take 2 (drop i bs))"

function key_length_from :: "string \<Rightarrow> nat \<Rightarrow> int option" where
  "key_length_from attrs cursor =
     (if length attrs < cursor + 4 then None
      else (let attr = u16 attrs cursor; v = u16 attrs (cursor + 2); fixed = (32768 \<le> attr)
            in if attr mod 32768 = 14 \<and> fixed then Some v
               else key_length_from attrs (if fixed then cursor + 4 else cursor + 4 + nat v)))"
  by auto

termination
  by (relation "measure (\<lambda>(attrs, cursor). length attrs - cursor)") auto

declare key_length_from.simps [simp del]

definition ike_key_length :: "string \<Rightarrow> int option" where
  "ike_key_length attrs = key_length_from attrs 0"

definition ike_algorithm :: "int \<Rightarrow> int \<Rightarrow> string \<Rightarrow> string option" where
  "ike_algorithm ty ident attrs =
     (if ty = 1 then
        (let algorithm = name_of IKE_ENCRYPTION ident (''ENCR-'' @ str_int ident)
         in case ike_key_length attrs of
              Some k \<Rightarrow> Some (if k \<noteq> 0 \<and> algorithm \<in> set [''AES-CBC'', ''AES-CTR''] then algorithm @ ''-'' @ str_int k else algorithm)
            | None \<Rightarrow> Some algorithm)
      else if ty = 2 then Some (name_of IKE_PRF ident (''PRF-'' @ str_int ident))
      else if ty = 3 then Some (name_of IKE_INTEGRITY ident (''INTEG-'' @ str_int ident))
      else if ty = 4 then Some (name_of IKE_DH_GROUPS ident (''DH-GROUP-'' @ str_int ident))
      else None)"

definition place :: "target \<Rightarrow> string" where
  "place t = tg_host t @ '':'' @ str_int (tg_port t)"

definition ike_transform_candidate :: "target \<Rightarrow> int \<Rightarrow> int \<Rightarrow> int \<Rightarrow> int \<Rightarrow> string \<Rightarrow> candidate" where
  "ike_transform_candidate t proposal_index transform_index ty ident algorithm =
     \<lparr>c_target = tg_id t, c_scanner = ''network'', c_name = place t @ '' IKE '' @ name_of IKE_TRANSFORM_TYPE ty ''transform'' @ '' '' @ algorithm,
      c_type = (if ty = 4 then ''key_agreement'' else ''protocol''), c_algorithm = algorithm, c_family = family_from_algorithm algorithm,
      c_bom_ref = ''network:ike:'' @ stable_bom_ref
        [PStr (tg_host t), PInt (tg_port t), PInt proposal_index, PInt transform_index, PInt ty, PInt ident, PStr algorithm],
      c_metadata = []\<rparr>"

function parse_transforms :: "target \<Rightarrow> int \<Rightarrow> string \<Rightarrow> nat \<Rightarrow> int \<Rightarrow> candidate list" where
  "parse_transforms t proposal_index proposal cursor k =
     (if length proposal < cursor + 8 then []
      else
        (let n = nat (u16 proposal (cursor + 2)); body = take n (drop cursor proposal)
         in if n < 8 \<or> length proposal < cursor + n then []
            else
              (case ike_algorithm (u8 body 4) (u16 body 6) (drop 8 body) of None \<Rightarrow> []
               | Some a \<Rightarrow> [ike_transform_candidate t proposal_index (k + 1) (u8 body 4) (u16 body 6) a]) @
              (if u8 proposal cursor = 0 then [] else parse_transforms t proposal_index proposal (cursor + n) (k + 1))))"
  by auto

termination
  by (relation "measure (\<lambda>(t, i, proposal, cursor, k). length proposal - cursor)") auto

function parse_proposals :: "target \<Rightarrow> string \<Rightarrow> nat \<Rightarrow> int \<Rightarrow> candidate list" where
  "parse_proposals t body cursor k =
     (if length body < cursor + 8 then []
      else
        (let n = nat (u16 body (cursor + 2)); proposal = take n (drop cursor body)
         in if n < 8 \<or> length body < cursor + n then []
            else parse_transforms t (k + 1) proposal (8 + nat (u8 proposal 6)) 0 @ parse_proposals t body (cursor + n) (k + 1)))"
  by auto

termination
  by (relation "measure (\<lambda>(t, body, cursor, k). length body - cursor)") auto

definition parse_ike_sa_candidates :: "target \<Rightarrow> string \<Rightarrow> candidate list" where
  "parse_ike_sa_candidates t body = parse_proposals t body 0 0"

function parse_payloads :: "target \<Rightarrow> string \<Rightarrow> int \<Rightarrow> nat \<Rightarrow> candidate list" where
  "parse_payloads t response next_payload cursor =
     (if next_payload = 0 \<or> length response < cursor + 4 then []
      else
        (let n = nat (u16 response (cursor + 2))
         in if n < 4 \<or> length response < cursor + n then []
            else (if next_payload = IKE_NEXT_PAYLOAD_SA then parse_ike_sa_candidates t (take (n - 4) (drop (cursor + 4) response)) else []) @
                 parse_payloads t response (u8 response cursor) (cursor + n)))"
  by auto

termination
  by (relation "measure (\<lambda>(t, response, k, cursor). length response - cursor)") auto

declare parse_transforms.simps [simp del] parse_proposals.simps [simp del] parse_payloads.simps [simp del]

definition answer_offset :: "string \<Rightarrow> nat" where
  "answer_offset response = (if startswith response (zeros 4) then 4 else 0)"

definition parse_ike_response_candidates :: "target \<Rightarrow> string \<Rightarrow> candidate list" where
  "parse_ike_response_candidates t response =
     (let offset = answer_offset response
      in if length response < offset + 28 then []
         else parse_payloads t response (u8 response (offset + 16)) (offset + 28))"

section \<open>What is read of an answer\<close>

lemma be1: "be_bytes 1 n = [char_of (n mod 256)]"
  by (simp add: be_bytes_def)

lemma be2: "be_bytes 2 n = [char_of (n div 256 mod 256), char_of (n mod 256)]"
  by (simp add: be_bytes_def numeral_2_eq_2)

lemma be_value_two: "be_value [x, y] = 256 * code x + code y"
  by (simp add: be_value_def)

lemma u8_at: "0 \<le> n \<Longrightarrow> n < 256 \<Longrightarrow> i = length a \<Longrightarrow> u8 (a @ be_bytes 1 n @ r) i = n"
  by (simp only: u8_def be1) (simp add: be_value_def)

lemma u16_at: "0 \<le> n \<Longrightarrow> n < 65536 \<Longrightarrow> i = length a \<Longrightarrow> u16 (a @ be_bytes 2 n @ r) i = n"
proof -
  assume n: "0 \<le> n" "n < 65536" "i = length a"
  have "be_value (be_bytes 2 n) = n" using n be_value_bytes [of n 2] by simp
  moreover have "take 2 (drop i (a @ be_bytes 2 n @ r)) = be_bytes 2 n" using n(3) by simp
  ultimately show ?thesis by (simp add: u16_def)
qed

subsection \<open>Transforms\<close>

text \<open>A transform is its type, its identifier and its attributes.\<close>

type_synonym transform = "int \<times> int \<times> string"

definition transform_ok :: "transform \<Rightarrow> bool" where
  "transform_ok x = (case x of (ty, ident, attrs) \<Rightarrow> 0 \<le> ty \<and> ty < 256 \<and> 0 \<le> ident \<and> ident < 65536 \<and> length attrs < 65528)"

fun encode_transforms :: "transform list \<Rightarrow> string" where
  "encode_transforms [] = []"
| "encode_transforms [(ty, ident, attrs)] = ike_transform False ty ident attrs"
| "encode_transforms ((ty, ident, attrs) # x # xs) = ike_transform True ty ident attrs @ encode_transforms (x # xs)"

fun listed :: "target \<Rightarrow> int \<Rightarrow> int \<Rightarrow> transform list \<Rightarrow> candidate list" where
  "listed t i k [] = []"
| "listed t i k ((ty, ident, attrs) # xs) =
     (case ike_algorithm ty ident attrs of None \<Rightarrow> [] | Some a \<Rightarrow> [ike_transform_candidate t i (k + 1) ty ident a]) @ listed t i (k + 1) xs"

lemma length_transform [simp]: "length (ike_transform m ty ident attrs) = 8 + length attrs"
  by (simp add: ike_transform_def)

lemma transform_fields:
  assumes "transform_ok (ty, ident, attrs)" "cursor = length before"
  shows "u8 (before @ ike_transform m ty ident attrs @ rest) cursor = (if m then 3 else 0)"
    and "u16 (before @ ike_transform m ty ident attrs @ rest) (cursor + 2) = 8 + int (length attrs)"
    and "u8 (ike_transform m ty ident attrs) 4 = ty"
    and "u16 (ike_transform m ty ident attrs) 6 = ident"
    and "drop 8 (ike_transform m ty ident attrs) = attrs"
proof -
  note ok = assms [unfolded transform_ok_def, simplified]
  show "u8 (before @ ike_transform m ty ident attrs @ rest) cursor = (if m then 3 else 0)"
    unfolding ike_transform_def append_assoc by (rule u8_at) (use ok in auto)
  show "u16 (before @ ike_transform m ty ident attrs @ rest) (cursor + 2) = 8 + int (length attrs)"
    using u16_at [of "8 + int (length attrs)" "cursor + 2" "before @ be_bytes 1 (if m then 3 else 0) @ be_bytes 1 0"] ok
    unfolding ike_transform_def append_assoc by simp
  show "u8 (ike_transform m ty ident attrs) 4 = ty"
    using u8_at [of ty 4 "be_bytes 1 (if m then 3 else 0) @ be_bytes 1 0 @ be_bytes 2 (8 + int (length attrs))"] ok
    unfolding ike_transform_def append_assoc by simp
  show "u16 (ike_transform m ty ident attrs) 6 = ident"
    using u16_at [of ident 6 "be_bytes 1 (if m then 3 else 0) @ be_bytes 1 0 @ be_bytes 2 (8 + int (length attrs)) @ be_bytes 1 ty @ be_bytes 1 0"] ok
    unfolding ike_transform_def append_assoc by simp
  show "drop 8 (ike_transform m ty ident attrs) = attrs" by (simp add: ike_transform_def)
qed

lemma parse_transform:
  assumes "transform_ok (ty, ident, attrs)" "cursor = length before"
  shows "parse_transforms t i (before @ ike_transform m ty ident attrs @ rest) cursor k =
    (case ike_algorithm ty ident attrs of None \<Rightarrow> [] | Some a \<Rightarrow> [ike_transform_candidate t i (k + 1) ty ident a]) @
    (if m then parse_transforms t i (before @ ike_transform m ty ident attrs @ rest) (cursor + 8 + length attrs) (k + 1) else [])"
proof -
  have n: "nat (8 + int (length attrs)) = 8 + length attrs" by simp
  have body: "take (8 + length attrs) (drop cursor (before @ ike_transform m ty ident attrs @ rest)) = ike_transform m ty ident attrs"
    using assms(2) by simp
  have room: "length (before @ ike_transform m ty ident attrs @ rest) = cursor + 8 + length attrs + length rest" using assms(2) by simp
  show ?thesis
    by (subst parse_transforms.simps, unfold room transform_fields [OF assms])
       (simp add: transform_fields [OF assms] n body Let_def add.assoc split: option.split
         del: length_append append_assoc add_2_eq_Suc' take_append drop_append)
qed

lemma parse_encoded_transforms:
  "list_all transform_ok xs \<Longrightarrow> cursor = length before \<Longrightarrow>
   parse_transforms t i (before @ encode_transforms xs) cursor k = listed t i k xs"
proof (induction xs arbitrary: before cursor k rule: encode_transforms.induct)
  case 1
  then show ?case by (simp add: parse_transforms.simps)
next
  case (2 ty ident attrs)
  then show ?case using parse_transform [of ty ident attrs cursor before t i False "[]" k] by simp
next
  case (3 ty ident attrs x xs)
  have "parse_transforms t i (before @ ike_transform True ty ident attrs @ encode_transforms (x # xs)) (cursor + 8 + length attrs) (k + 1)
    = listed t i (k + 1) (x # xs)"
    using 3(1) [of "cursor + 8 + length attrs" "before @ ike_transform True ty ident attrs" "k + 1"] 3(2,3) by simp
  then show ?case using parse_transform [of ty ident attrs cursor before t i True "encode_transforms (x # xs)" k] 3(2,3) by simp
qed

subsection \<open>Proposals\<close>

type_synonym proposal = "int \<times> transform list"

definition proposal_ok :: "proposal \<Rightarrow> bool" where
  "proposal_ok p = (0 \<le> fst p \<and> fst p < 256 \<and> list_all transform_ok (snd p) \<and> length (encode_transforms (snd p)) < 65528)"

definition encode_proposals :: "proposal list \<Rightarrow> string" where
  "encode_proposals ps = concat (map (\<lambda>(n, xs). ike_proposal n (encode_transforms xs)) ps)"

fun listed_proposals :: "target \<Rightarrow> int \<Rightarrow> proposal list \<Rightarrow> candidate list" where
  "listed_proposals t k [] = []"
| "listed_proposals t k ((n, xs) # ps) = listed t (k + 1) 0 xs @ listed_proposals t (k + 1) ps"

lemma length_proposal [simp]: "length (ike_proposal n b) = 8 + length b"
  by (simp add: ike_proposal_def)

lemma proposal_fields:
  assumes "length b < 65528" "cursor = length before"
  shows "u16 (before @ ike_proposal n b @ rest) (cursor + 2) = 8 + int (length b)"
    and "u8 (ike_proposal n b) 6 = 0"
proof -
  show "u16 (before @ ike_proposal n b @ rest) (cursor + 2) = 8 + int (length b)"
    using u16_at [of "8 + int (length b)" "cursor + 2" "before @ be_bytes 1 0 @ be_bytes 1 0"] assms
    unfolding ike_proposal_def append_assoc by simp
  show "u8 (ike_proposal n b) 6 = 0"
    using u8_at [of 0 6 "be_bytes 1 0 @ be_bytes 1 0 @ be_bytes 2 (8 + int (length b)) @ be_bytes 1 1 @ be_bytes 1 1"]
    unfolding ike_proposal_def append_assoc by simp
qed

lemma parse_encoded_proposals:
  "list_all proposal_ok ps \<Longrightarrow> cursor = length before \<Longrightarrow>
   parse_proposals t (before @ encode_proposals ps) cursor k = listed_proposals t k ps"
proof (induction ps arbitrary: before cursor k)
  case Nil
  then show ?case by (simp add: parse_proposals.simps encode_proposals_def)
next
  case (Cons p ps)
  obtain n xs where p: "p = (n, xs)" by force
  let ?b = "encode_transforms xs"
  have ok: "list_all transform_ok xs" "length ?b < 65528" using Cons.prems p by (simp_all add: proposal_ok_def)
  have enc: "before @ encode_proposals (p # ps) = before @ ike_proposal n ?b @ encode_proposals ps"
    by (simp add: p encode_proposals_def)
  have len: "nat (8 + int (length ?b)) = 8 + length ?b" by simp
  have body: "take (8 + length ?b) (drop cursor (before @ ike_proposal n ?b @ encode_proposals ps)) = ike_proposal n ?b"
    using Cons.prems(2) by simp
  have "ike_proposal n ?b = take 8 (ike_proposal n ?b) @ ?b" by (simp add: ike_proposal_def)
  then have inner: "parse_transforms t (k + 1) (ike_proposal n ?b) 8 0 = listed t (k + 1) 0 xs"
    using parse_encoded_transforms [OF ok(1), of 8 "take 8 (ike_proposal n ?b)" t "k + 1" 0] by simp
  have rest: "parse_proposals t (before @ ike_proposal n ?b @ encode_proposals ps) (cursor + (8 + length ?b)) (k + 1) = listed_proposals t (k + 1) ps"
    using Cons.IH [of "cursor + (8 + length ?b)" "before @ ike_proposal n ?b" "k + 1"] Cons.prems by simp
  have room: "length (before @ ike_proposal n ?b @ encode_proposals ps) = cursor + 8 + length ?b + length (encode_proposals ps)"
    using Cons.prems(2) by simp
  show ?case unfolding enc
    by (subst parse_proposals.simps, unfold room proposal_fields [OF ok(2) Cons.prems(2)])
       (simp add: proposal_fields [OF ok(2) Cons.prems(2)] len body Let_def inner rest p del: length_append append_assoc add_2_eq_Suc' take_append drop_append)
qed

subsection \<open>Payloads\<close>

text \<open>A payload is its type and its body; its header names the type of the next one, 0 at the end.\<close>

definition next_type :: "(int \<times> string) list \<Rightarrow> int" where
  "next_type ps = (case ps of [] \<Rightarrow> 0 | (ty, b) # _ \<Rightarrow> ty)"

fun encode_payloads :: "(int \<times> string) list \<Rightarrow> string" where
  "encode_payloads [] = []"
| "encode_payloads ((ty, b) # ps) = ike_payload (next_type ps) b @ encode_payloads ps"

definition payload_ok :: "int \<times> string \<Rightarrow> bool" where
  "payload_ok p = (0 < fst p \<and> fst p < 256 \<and> length (snd p) < 65532)"

lemma length_payload [simp]: "length (ike_payload n b) = 4 + length b"
  by (simp add: ike_payload_def)

lemma payload_fields:
  assumes "length b < 65532" "0 \<le> n" "n < 256" "cursor = length before"
  shows "u8 (before @ ike_payload n b @ rest) cursor = n"
    and "u16 (before @ ike_payload n b @ rest) (cursor + 2) = 4 + int (length b)"
    and "take (length b) (drop (cursor + 4) (before @ ike_payload n b @ rest)) = b"
proof -
  show "u8 (before @ ike_payload n b @ rest) cursor = n"
    unfolding ike_payload_def append_assoc by (rule u8_at) (use assms in auto)
  show "u16 (before @ ike_payload n b @ rest) (cursor + 2) = 4 + int (length b)"
    using u16_at [of "4 + int (length b)" "cursor + 2" "before @ be_bytes 1 n @ be_bytes 1 0"] assms
    unfolding ike_payload_def append_assoc by simp
  show "take (length b) (drop (cursor + 4) (before @ ike_payload n b @ rest)) = b"
    using assms(4) by (simp add: ike_payload_def)
qed

lemma parse_encoded_payloads:
  "list_all payload_ok ps \<Longrightarrow> cursor = length before \<Longrightarrow>
   parse_payloads t (before @ encode_payloads ps) (next_type ps) cursor =
   concat (map (\<lambda>(ty, b). if ty = IKE_NEXT_PAYLOAD_SA then parse_ike_sa_candidates t b else []) ps)"
proof (induction ps arbitrary: before cursor)
  case Nil
  then show ?case by (simp add: parse_payloads.simps next_type_def)
next
  case (Cons p ps)
  obtain ty b where p: "p = (ty, b)" by force
  have ok: "0 < ty" "length b < 65532" "0 \<le> next_type ps" "next_type ps < 256"
    using Cons.prems p by (auto simp: payload_ok_def next_type_def split: list.splits prod.splits)
  have len: "nat (4 + int (length b)) = 4 + length b" by simp
  have rest: "parse_payloads t (before @ ike_payload (next_type ps) b @ encode_payloads ps) (next_type ps) (cursor + (4 + length b)) =
    concat (map (\<lambda>(ty, b). if ty = IKE_NEXT_PAYLOAD_SA then parse_ike_sa_candidates t b else []) ps)"
    using Cons.IH [of "cursor + (4 + length b)" "before @ ike_payload (next_type ps) b"] Cons.prems by simp
  have room: "length (before @ ike_payload (next_type ps) b @ encode_payloads ps) = cursor + 4 + length b + length (encode_payloads ps)"
    using Cons.prems(2) by simp
  have shape: "next_type (p # ps) = ty" "encode_payloads (p # ps) = ike_payload (next_type ps) b @ encode_payloads ps" by (simp_all add: p next_type_def)
  show ?case unfolding shape
    by (subst parse_payloads.simps, unfold room payload_fields [OF ok(2-4) Cons.prems(2)])
       (use ok(1) in \<open>simp add: payload_fields [OF ok(2-4) Cons.prems(2)] len Let_def rest p del: length_append append_assoc add_2_eq_Suc' take_append drop_append\<close>)
qed

end
