(* ===== verification/Patterns.thy ===== *)
theory Patterns
  imports Prelude
begin

text \<open>
  Regular expressions with a group: the part of \<open>re\<close> the network scanner and the homepage inference use.  A pattern repeats
  only classes of characters, greedily or lazily, and captures at most one group.  \<open>runs p s\<close> are the ways \<open>p\<close> can match at
  the start of \<open>s\<close>, in the order in which \<open>re\<close> tries them: what is left of the text, and the captured group.  The relation
  \<open>means\<close> says which texts a pattern stands for, and \<open>runs\<close> computes it.
\<close>

datatype pat =
    Text bool string
  | Class "char \<Rightarrow> bool"
  | Many bool nat "char \<Rightarrow> bool"
  | Then pat pat
  | Either pat pat
  | Maybe pat
  | Group pat

definition literal :: "string \<Rightarrow> pat" where
  "literal w = Text False w"

definition any_case :: "string \<Rightarrow> pat" where
  "any_case w = Text True w"

fun seq :: "pat list \<Rightarrow> pat" where
  "seq [] = Text False []"
| "seq [p] = p"
| "seq (p # ps) = Then p (seq ps)"

fun either :: "pat list \<Rightarrow> pat" where
  "either [] = Text False []"
| "either [p] = p"
| "either (p # ps) = Either p (either ps)"

definition same_text :: "bool \<Rightarrow> string \<Rightarrow> string \<Rightarrow> bool" where
  "same_text fold_case w m = (if fold_case then lower w = lower m else w = m)"

definition later :: "'a option \<Rightarrow> 'a option \<Rightarrow> 'a option" where
  "later x y = (case y of None \<Rightarrow> x | Some v \<Rightarrow> Some v)"

definition counts :: "bool \<Rightarrow> nat \<Rightarrow> nat \<Rightarrow> nat list" where
  "counts greedy low high = (if greedy then rev [low..<Suc high] else [low..<Suc high])"

fun runs :: "pat \<Rightarrow> string \<Rightarrow> (string \<times> string option) list" where
  "runs (Text b w) s = (if length w \<le> length s \<and> same_text b w (take (length w) s) then [(drop (length w) s, None)] else [])"
| "runs (Class P) s = (case s of [] \<Rightarrow> [] | c # cs \<Rightarrow> if P c then [(cs, None)] else [])"
| "runs (Many greedy n P) s = map (\<lambda>k. (drop k s, None)) (counts greedy n (length (takeWhile P s)))"
| "runs (Then p q) s = concat (map (\<lambda>(r, c). map (\<lambda>(r', c'). (r', later c c')) (runs q r)) (runs p s))"
| "runs (Either p q) s = runs p s @ runs q s"
| "runs (Maybe p) s = runs p s @ [(s, None)]"
| "runs (Group p) s = map (\<lambda>(r, c). (r, Some (take (length s - length r) s))) (runs p s)"

section \<open>Searching\<close>

text \<open>\<open>re.search\<close>: the group of the leftmost match, the empty text when the pattern has none.\<close>

fun find_match :: "pat \<Rightarrow> string \<Rightarrow> string option" where
  "find_match p [] = (case runs p [] of [] \<Rightarrow> None | (r, c) # _ \<Rightarrow> Some (case c of None \<Rightarrow> [] | Some g \<Rightarrow> g))"
| "find_match p (x # xs) =
     (case runs p (x # xs) of [] \<Rightarrow> find_match p xs | (r, c) # _ \<Rightarrow> Some (case c of None \<Rightarrow> [] | Some g \<Rightarrow> g))"

text \<open>\<open>re.match\<close>.\<close>

definition match_start :: "pat \<Rightarrow> string \<Rightarrow> string option" where
  "match_start p s = (case runs p s of [] \<Rightarrow> None | (r, c) # _ \<Rightarrow> Some (case c of None \<Rightarrow> [] | Some g \<Rightarrow> g))"

text \<open>\<open>re.findall\<close> and \<open>re.sub\<close> for a pattern that matches no empty text.\<close>

function find_all :: "pat \<Rightarrow> string \<Rightarrow> string list" where
  "find_all p s =
     (case s of [] \<Rightarrow> []
      | x # xs \<Rightarrow>
          (case runs p s of
             (r, c) # _ \<Rightarrow>
               if length r < length s then (case c of None \<Rightarrow> take (length s - length r) s | Some g \<Rightarrow> g) # find_all p r
               else find_all p xs
           | [] \<Rightarrow> find_all p xs))"
  by auto

termination
  by (relation "measure (\<lambda>(p, s). length s)") auto

function substitute :: "pat \<Rightarrow> string \<Rightarrow> string \<Rightarrow> string" where
  "substitute p new s =
     (case s of [] \<Rightarrow> []
      | x # xs \<Rightarrow>
          (case runs p s of
             (r, c) # _ \<Rightarrow> if length r < length s then new @ substitute p new r else x # substitute p new xs
           | [] \<Rightarrow> x # substitute p new xs))"
  by auto

termination
  by (relation "measure (\<lambda>(p, new, s). length s)") auto

declare find_all.simps [simp del] substitute.simps [simp del]

section \<open>What a pattern means\<close>

inductive means :: "pat \<Rightarrow> string \<Rightarrow> bool" where
  literally: "length w = length m \<Longrightarrow> same_text b w m \<Longrightarrow> means (Text b w) m"
| one_of: "P c \<Longrightarrow> means (Class P) [c]"
| repeated: "n \<le> length m \<Longrightarrow> list_all P m \<Longrightarrow> means (Many greedy n P) m"
| in_turn: "means p m \<Longrightarrow> means q m' \<Longrightarrow> means (Then p q) (m @ m')"
| either_left: "means p m \<Longrightarrow> means (Either p q) m"
| either_right: "means q m \<Longrightarrow> means (Either p q) m"
| maybe_some: "means p m \<Longrightarrow> means (Maybe p) m"
| maybe_none: "means (Maybe p) []"
| grouped: "means p m \<Longrightarrow> means (Group p) m"

inductive_cases means_cases:
  "means (Text b w) m" "means (Class P) m" "means (Many greedy n P) m" "means (Then p q) m" "means (Either p q) m" "means (Maybe p) m" "means (Group p) m"

lemma takeWhile_prefix: "list_all P m \<Longrightarrow> length m \<le> length (takeWhile P (m @ r))"
  by (induction m) auto

lemma takeWhile_all: "k \<le> length (takeWhile P s) \<Longrightarrow> list_all P (take k s)"
  by (induction s arbitrary: k) (auto simp: take_Cons split: if_splits nat.splits)

lemma takeWhile_length: "k \<le> length (takeWhile P s) \<Longrightarrow> k \<le> length s"
  by (meson le_trans length_takeWhile_le)

lemma runs_sound: "(r, c) \<in> set (runs p s) \<Longrightarrow> \<exists>m. s = m @ r \<and> means p m"
proof (induction p arbitrary: s r c)
  case (Text b w)
  then show ?case by (intro exI [of _ "take (length w) s"]) (auto intro!: means.literally split: if_splits)
next
  case (Class P)
  then show ?case by (cases s) (auto intro: means.one_of split: if_splits)
next
  case (Many greedy n P)
  then obtain k where k: "n \<le> k" "k \<le> length (takeWhile P s)" "r = drop k s" by (auto simp: counts_def split: if_splits)
  then have "means (Many greedy n P) (take k s)" using takeWhile_all [OF k(2)] takeWhile_length [OF k(2)] by (auto intro: means.repeated)
  then show ?case using k(3) by (intro exI [of _ "take k s"]) simp
next
  case (Then p q)
  then obtain r1 c1 c2 where "(r1, c1) \<in> set (runs p s)" "(r, c2) \<in> set (runs q r1)" by auto
  then obtain m1 m2 where "s = m1 @ r1" "means p m1" "r1 = m2 @ r" "means q m2" using Then.IH by metis
  then show ?case by (intro exI [of _ "m1 @ m2"]) (auto intro: means.in_turn)
next
  case (Group p)
  then obtain c1 where "(r, c1) \<in> set (runs p s)" by auto
  then show ?case using Group.IH means.grouped by metis
qed (auto intro: means.intros | fastforce intro: means.intros)+

lemma runs_complete: "means p m \<Longrightarrow> \<exists>c. (r, c) \<in> set (runs p (m @ r))"
proof (induction p m arbitrary: r rule: means.induct)
  case (repeated n m P greedy)
  then have "length m \<in> set (counts greedy n (length (takeWhile P (m @ r))))"
    using takeWhile_prefix [of P m r] by (auto simp: counts_def simp del: upt_Suc)
  then have "(drop (length m) (m @ r), None) \<in> set (runs (Many greedy n P) (m @ r))"
    unfolding runs.simps set_map by (rule imageI)
  then show ?case by auto
next
  case (in_turn p m q m')
  obtain c where "(m' @ r, c) \<in> set (runs p (m @ m' @ r))" using in_turn.IH(1) by blast
  moreover obtain c' where "(r, c') \<in> set (runs q (m' @ r))" using in_turn.IH(2) by blast
  ultimately show ?case by force
qed (auto, force+)

theorem runs_correct: "fst ` set (runs p s) = {r. \<exists>m. s = m @ r \<and> means p m}"
  using runs_sound runs_complete by (force simp: image_iff)

end
