(* ===== verification/Certificates.thy ===== *)
theory Certificates
  imports Patterns Openssl_Time
begin

text \<open>
  What \<open>apps/jobs/network_scanner.py\<close> reads of a certificate: the text \<open>openssl x509 -text\<close> prints, its key algorithm, its
  DNS names and the end of its validity, and the PEM blocks in what \<open>openssl s_client -showcerts\<close> prints.
\<close>

record certificate =
  ce_algorithm :: string
  ce_family :: string
  ce_names :: "string list"
  ce_not_after :: "string option"
  ce_expires_at :: "string option"

definition no_certificate :: certificate where
  "no_certificate = \<lparr>ce_algorithm = [], ce_family = [], ce_names = [], ce_not_after = None, ce_expires_at = None\<rparr>"

definition name_char :: "char \<Rightarrow> bool" where
  "name_char c = (c \<noteq> CHR '','' \<and> \<not> is_space c)"

definition dns_pattern :: pat where
  "dns_pattern = seq [literal ''DNS:'', Group (Many True 1 name_char)]"

fun add_new :: "string list \<Rightarrow> string list \<Rightarrow> string list" where
  "add_new names [] = names"
| "add_new names (x # xs) = add_new (if x \<noteq> [] \<and> x \<notin> set names then names @ [x] else names) xs"

definition parse_subject_alt_names :: "string \<Rightarrow> string list" where
  "parse_subject_alt_names txt =
     add_new [] (map (\<lambda>name. lower (rstrip_if (\<lambda>c. c = CHR ''.'') name)) (find_all dns_pattern txt))"

definition oid_char :: "char \<Rightarrow> bool" where
  "oid_char c = (is_alnum c \<or> c = CHR ''-'')"

definition bits_pattern :: pat where
  "bits_pattern = seq [literal ''Public-Key: ('', Group (Many True 1 is_digit), literal '' bit)'']"

definition asn1_pattern :: pat where
  "asn1_pattern = seq [literal ''ASN1 OID: '', Group (Many True 1 oid_char)]"

definition nist_pattern :: pat where
  "nist_pattern = seq [literal ''NIST CURVE: '', Group (Many True 1 oid_char)]"

text \<open>\<open>.\<close> is any character but a line feed.\<close>

definition not_newline :: "char \<Rightarrow> bool" where
  "not_newline c = (code c \<noteq> 10)"

definition not_after_pattern :: pat where
  "not_after_pattern =
     seq [literal ''Not After'', Many True 0 is_space, literal '':'', Many True 0 is_space, Group (Many True 1 not_newline)]"

definition normalize_curve :: "string \<Rightarrow> string" where
  "normalize_curve curve =
     dget_or [(''prime256v1'', ''P-256''), (''secp384r1'', ''P-384''), (''secp521r1'', ''P-521'')] curve curve"

definition certificate_parse_result :: "string \<Rightarrow> string \<Rightarrow> string \<Rightarrow> string list \<Rightarrow> certificate" where
  "certificate_parse_result txt algorithm family names =
     (let not_after = map_option strip (find_match not_after_pattern txt)
      in \<lparr>ce_algorithm = algorithm, ce_family = family, ce_names = names, ce_not_after = not_after,
          ce_expires_at = (case not_after of None \<Rightarrow> None | Some v \<Rightarrow> map_option iso_utc (strptime_openssl v))\<rparr>)"

definition parse_openssl_certificate_text :: "string \<Rightarrow> certificate" where
  "parse_openssl_certificate_text txt =
     (let names = parse_subject_alt_names txt
      in if contains txt ''Public Key Algorithm: rsaEncryption'' then
           certificate_parse_result txt (case find_match bits_pattern txt of Some bits \<Rightarrow> ''RSA-'' @ bits | None \<Rightarrow> ''RSA'') ''RSA'' names
         else if contains txt ''Public Key Algorithm: id-ecPublicKey'' then
           certificate_parse_result txt
             (case (case find_match asn1_pattern txt of Some curve \<Rightarrow> Some curve | None \<Rightarrow> find_match nist_pattern txt) of
                Some curve \<Rightarrow> ''ECDSA-'' @ normalize_curve curve | None \<Rightarrow> ''ECDSA'') ''ECDSA'' names
         else if contains (upper txt) ''PUBLIC KEY ALGORITHM: ED25519'' then certificate_parse_result txt ''Ed25519'' ''EdDSA'' names
         else certificate_parse_result txt [] [] names)"

definition some_text :: "string \<Rightarrow> string option \<Rightarrow> string dict" where
  "some_text k v = (case v of None \<Rightarrow> [] | Some s \<Rightarrow> if s = [] then [] else [(k, s)])"

definition certificate_validity_metadata :: "certificate \<Rightarrow> string dict" where
  "certificate_validity_metadata c = some_text ''not_after'' (ce_not_after c) @ some_text ''expires_at'' (ce_expires_at c)"

section \<open>PEM blocks\<close>

definition any_char :: "char \<Rightarrow> bool" where
  "any_char c = True"

definition pem_pattern :: pat where
  "pem_pattern = seq [literal ''-----BEGIN CERTIFICATE-----'', Many False 0 any_char, literal ''-----END CERTIFICATE-----'']"

definition extract_pem_certificates :: "string \<Rightarrow> string list" where
  "extract_pem_certificates txt = find_all pem_pattern txt"

section \<open>Names\<close>

definition name_ok :: "string \<Rightarrow> bool" where
  "name_ok v = (v \<noteq> [] \<and> list_all (\<lambda>c. name_char c \<and> char_lower c = c) v)"

lemma distinct_add_new: "distinct names \<Longrightarrow> distinct (add_new names xs)"
  by (induction xs arbitrary: names) auto

lemma set_add_new: "set (add_new names xs) = set names \<union> (set xs - {[]})"
  by (induction xs arbitrary: names) auto

end
