(* ===== verification/Utf8.thy ===== *)
theory Utf8
  imports Prelude
begin

text \<open>
  \<open>bytes.decode("utf-8")\<close>, strict and with \<open>errors="replace"\<close>.  A character beyond the 8 bits of the model's characters, and
  the replacement character, are written as character 255.
\<close>

text \<open>The ranges of the bytes that must follow a first byte, none when it is no first byte of a longer character.\<close>

definition following :: "int \<Rightarrow> (int \<times> int) list" where
  "following b =
     (if 0xC2 \<le> b \<and> b \<le> 0xDF then [(0x80, 0xBF)]
      else if b = 0xE0 then [(0xA0, 0xBF), (0x80, 0xBF)]
      else if b = 0xED then [(0x80, 0x9F), (0x80, 0xBF)]
      else if 0xE1 \<le> b \<and> b \<le> 0xEF then [(0x80, 0xBF), (0x80, 0xBF)]
      else if b = 0xF0 then [(0x90, 0xBF), (0x80, 0xBF), (0x80, 0xBF)]
      else if b = 0xF4 then [(0x80, 0x8F), (0x80, 0xBF), (0x80, 0xBF)]
      else if 0xF1 \<le> b \<and> b \<le> 0xF3 then [(0x80, 0xBF), (0x80, 0xBF), (0x80, 0xBF)]
      else [])"

text \<open>How many of the following bytes are there.\<close>

fun matched :: "(int \<times> int) list \<Rightarrow> string \<Rightarrow> nat" where
  "matched ((lo, hi) # rs) (c # cs) = (if lo \<le> code c \<and> code c \<le> hi then Suc (matched rs cs) else 0)"
| "matched _ _ = 0"

definition unit_char :: "char \<Rightarrow> string \<Rightarrow> char option" where
  "unit_char c cs =
     (let rs = following (code c)
      in if code c < 128 then Some c
         else if rs = [] \<or> matched rs cs < length rs then None
         else if code c \<le> 0xC3 then Some (char_of ((code c - 0xC0) * 64 + (code (hd cs) - 0x80)))
         else Some (char_of (255 :: int)))"

function utf8_units :: "string \<Rightarrow> char option list" where
  "utf8_units [] = []"
| "utf8_units (c # cs) = unit_char c cs # utf8_units (drop (matched (following (code c)) cs) cs)"
  by pat_completeness auto

termination
  by (relation "measure length") auto

definition decode_utf8 :: "string \<Rightarrow> string option" where
  "decode_utf8 bs = (let us = utf8_units bs in if None \<in> set us then None else Some (map the us))"

definition decode_replace :: "string \<Rightarrow> string" where
  "decode_replace bs = map (\<lambda>u. case u of Some c \<Rightarrow> c | None \<Rightarrow> char_of (255 :: int)) (utf8_units bs)"

lemma following_ascii: "b < 128 \<Longrightarrow> following b = []"
  by (simp add: following_def)

lemma units_ascii: "list_all (\<lambda>c. code c < 128) bs \<Longrightarrow> utf8_units bs = map Some bs"
  by (induction bs) (simp_all add: following_ascii unit_char_def)

lemma decode_ascii: "list_all (\<lambda>c. code c < 128) bs \<Longrightarrow> decode_utf8 bs = Some bs \<and> decode_replace bs = bs"
  by (simp add: decode_utf8_def decode_replace_def units_ascii Let_def comp_def image_iff map_idI)

end
