(* ===== verification/Homepage_Context.thy ===== *)
theory Homepage_Context
  imports Patterns Context_Suggestion
begin

text \<open>
  \<open>apps/jobs/homepage_context.py\<close>: what the homepage of a target says about its role.  The text of the page is searched for
  the keywords of seven rules; the rule with the most keywords gives the context.

  \<open>unescape\<close> is \<open>html.unescape\<close>, whose table of entities is an argument here.  The body is text, in UTF-8; \<open>lower\<close> and
  white space are the ASCII ones, which is all the keywords need.
\<close>

section \<open>Rules\<close>

record role_rule =
  rr_role :: string
  rr_keywords :: "string list"
  rr_sensitivity :: string
  rr_criticality :: string
  rr_exposure :: string
  rr_lifespan :: int

definition ROLE_RULES :: "role_rule list" where
  "ROLE_RULES =
     [\<lparr>rr_role = ''customer_portal'',
       rr_keywords = [''customer portal'', ''my account'', ''account dashboard'', ''invoice'', ''billing'', ''order history'', ''profile''],
       rr_sensitivity = ''high'', rr_criticality = ''high'', rr_exposure = ''public_internet'', rr_lifespan = 10\<rparr>,
      \<lparr>rr_role = ''authentication'',
       rr_keywords = [''login'', ''log in'', ''sign in'', ''sso'', ''oauth'', ''oidc'', ''identity'', ''password'', ''mfa'', ''multi-factor''],
       rr_sensitivity = ''high'', rr_criticality = ''high'', rr_exposure = ''dmz'', rr_lifespan = 10\<rparr>,
      \<lparr>rr_role = ''admin_console'',
       rr_keywords = [''admin'', ''administrator'', ''management console'', ''control panel'', ''operations console''],
       rr_sensitivity = ''high'', rr_criticality = ''high'', rr_exposure = ''internal_network'', rr_lifespan = 5\<rparr>,
      \<lparr>rr_role = ''developer_api'',
       rr_keywords = [''api'', ''openapi'', ''swagger'', ''developer'', ''graphql'', ''webhook''],
       rr_sensitivity = ''medium'', rr_criticality = ''high'', rr_exposure = ''dmz'', rr_lifespan = 5\<rparr>,
      \<lparr>rr_role = ''file_service'',
       rr_keywords = [''download'', ''upload'', ''document'', ''file'', ''storage'', ''repository'', ''artifact''],
       rr_sensitivity = ''high'', rr_criticality = ''medium'', rr_exposure = ''dmz'', rr_lifespan = 10\<rparr>,
      \<lparr>rr_role = ''monitoring'',
       rr_keywords = [''grafana'', ''prometheus'', ''metrics'', ''monitoring'', ''observability'', ''dashboard''],
       rr_sensitivity = ''medium'', rr_criticality = ''medium'', rr_exposure = ''internal_network'', rr_lifespan = 3\<rparr>,
      \<lparr>rr_role = ''public_web'',
       rr_keywords = [''home'', ''welcome'', ''about'', ''contact'', ''support'', ''portal''],
       rr_sensitivity = ''medium'', rr_criticality = ''medium'', rr_exposure = ''dmz'', rr_lifespan = 3\<rparr>]"

section \<open>The text of a page\<close>

definition anything :: "char \<Rightarrow> bool" where
  "anything c = True"

definition no_close :: "char \<Rightarrow> bool" where
  "no_close c = (c \<noteq> CHR ''>'')"

text \<open>\<open>["']\<close>: one of the two quotes.\<close>

definition a_quote :: pat where
  "a_quote = Either (literal [CHR 0x22]) (literal [CHR 0x27])"

definition spaces :: pat where
  "spaces = Many True 1 is_space"

definition collapse :: "string \<Rightarrow> string" where
  "collapse s = strip (substitute spaces '' '' s)"

definition clean_text :: "(string \<Rightarrow> string) \<Rightarrow> string \<Rightarrow> string" where
  "clean_text unescape s = collapse (unescape s)"

definition normalize_text :: "string \<Rightarrow> string" where
  "normalize_text s = collapse (lower s)"

definition title_pattern :: pat where
  "title_pattern =
     seq [any_case ''<title'', Many True 0 no_close, literal ''>'', Group (Many False 0 anything), any_case ''</title>'']"

definition extract_title :: "(string \<Rightarrow> string) \<Rightarrow> string \<Rightarrow> string" where
  "extract_title unescape s = (case find_match title_pattern s of Some v \<Rightarrow> clean_text unescape v | None \<Rightarrow> [])"

definition name_attribute :: "string \<Rightarrow> pat list" where
  "name_attribute name =
     [either [any_case ''name'', any_case ''property''], literal ''='', a_quote, Maybe (any_case ''og:''), any_case name, a_quote]"

definition content_attribute :: "pat list" where
  "content_attribute = [any_case ''content='', a_quote, Group (Many False 0 anything), a_quote]"

definition meta_pattern :: "string \<Rightarrow> pat" where
  "meta_pattern name =
     seq ([any_case ''<meta'', Many True 1 no_close] @ name_attribute name @ [Many True 0 no_close] @ content_attribute @
          [Many True 0 no_close, literal ''>''])"

definition reverse_meta_pattern :: "string \<Rightarrow> pat" where
  "reverse_meta_pattern name =
     seq ([any_case ''<meta'', Many True 1 no_close] @ content_attribute @ [Many True 1 no_close] @ name_attribute name @
          [Many True 0 no_close, literal ''>''])"

definition extract_meta :: "(string \<Rightarrow> string) \<Rightarrow> string \<Rightarrow> string \<Rightarrow> string" where
  "extract_meta unescape s name =
     (case find_match (meta_pattern name) s of Some v \<Rightarrow> clean_text unescape v
      | None \<Rightarrow> (case find_match (reverse_meta_pattern name) s of Some v \<Rightarrow> clean_text unescape v | None \<Rightarrow> []))"

text \<open>An element that is skipped: the closing tag repeats the name, in any case.\<close>

definition skipped_element :: "string \<Rightarrow> pat" where
  "skipped_element tag =
     seq [any_case (''<'' @ tag), Many True 0 no_close, literal ''>'', Many False 0 anything, any_case (''</'' @ tag @ ''>'')]"

definition visible_text :: "(string \<Rightarrow> string) \<Rightarrow> string \<Rightarrow> string" where
  "visible_text unescape s =
     (let without_scripts = substitute (either (map skipped_element [''script'', ''style'', ''noscript''])) '' '' s
      in clean_text unescape (substitute (seq [literal ''<'', Many True 1 no_close, literal ''>'']) '' '' without_scripts))"

section \<open>The inference\<close>

definition rule_matches :: "string \<Rightarrow> role_rule \<Rightarrow> string list" where
  "rule_matches text r = filter (contains text) (rr_keywords r)"

text \<open>The first rule with the most keywords.\<close>

definition best_rule :: "string \<Rightarrow> role_rule option \<times> string list" where
  "best_rule text =
     fold (\<lambda>r (best, found). let m = rule_matches text r in if length found < length m then (Some r, m) else (best, found))
       ROLE_RULES (None, [])"

definition rule_confidence :: "role_rule \<Rightarrow> string list \<Rightarrow> string \<Rightarrow> string option \<Rightarrow> pyfloat" where
  "rule_confidence r found text content_type =
     (let base = fadd (fl (42 / 100)) (fmul (Fin (of_nat (min (length found) 4))) (fl (11 / 100)));
          html = (if contains (lower (or_text content_type [])) ''text/html'' then fadd base (fl (5 / 100)) else base);
          marked = (if rr_role r \<in> set [''customer_portal'', ''authentication'', ''admin_console''] \<and>
                       list_ex (contains text) [''login'', ''sign in'', ''password'', ''customer'', ''account'']
                    then fadd html (fl (7 / 100)) else html)
      in fround 2 (fmin marked (fl (92 / 100))))"

definition truncate_text :: "string \<Rightarrow> nat \<Rightarrow> string" where
  "truncate_text s limit = (if length s \<le> limit then s else rstrip_if is_space (take (limit - 1) s) @ ''...'')"

text \<open>The text of the page that is searched for keywords.\<close>

definition searchable_text :: "(string \<Rightarrow> string) \<Rightarrow> string \<Rightarrow> string" where
  "searchable_text unescape body =
     normalize_text (join '' ''
       [extract_title unescape body, extract_meta unescape body ''description'', extract_meta unescape body ''keywords'',
        visible_text unescape body])"

definition infer_homepage_context ::
  "(string \<Rightarrow> string) \<Rightarrow> string \<Rightarrow> int \<Rightarrow> string option \<Rightarrow> string \<Rightarrow> pyval dict option" where
  "infer_homepage_context unescape url status_code content_type body =
     (if strip body = [] then None
      else if searchable_text unescape body = [] then None
      else (case best_rule (searchable_text unescape body) of
              (None, found) \<Rightarrow> None
            | (Some r, found) \<Rightarrow> Some
                [(''service_role'', PStr (rr_role r)), (''sensitivity'', PStr (rr_sensitivity r)),
                 (''criticality'', PStr (rr_criticality r)), (''exposure'', PStr (rr_exposure r)),
                 (''lifespan_years'', PInt (rr_lifespan r)),
                 (''homepage_inference'', PDict
                    [(''source'', PStr ''homepage''), (''method'', PStr ''html_keyword_inference''), (''url'', PStr url),
                     (''status_code'', PInt status_code), (''content_type'', PStr (or_text content_type [])),
                     (''title'', PStr (truncate_text (extract_title unescape body) 160)),
                     (''description'', PStr (truncate_text (extract_meta unescape body ''description'') 240)),
                     (''signals'', strings (take 8 found)),
                     (''confidence'', PFloat (rule_confidence r found (searchable_text unescape body) content_type))])]))"

section \<open>The best rule\<close>

text \<open>A rule is best when no rule has more keywords on the page, and no earlier one as many.\<close>

definition at_least :: "string \<Rightarrow> role_rule \<Rightarrow> role_rule \<Rightarrow> bool" where
  "at_least text r r' = (length (rule_matches text r') \<le> length (rule_matches text r))"

definition better_rule :: "string \<Rightarrow> role_rule \<Rightarrow> role_rule option \<times> string list \<Rightarrow> role_rule option \<times> string list" where
  "better_rule text r b = (let m = rule_matches text r in if length (snd b) < length m then (Some r, m) else b)"

lemma best_rule_fold: "best_rule text = fold (better_rule text) ROLE_RULES (None, [])"
  unfolding best_rule_def better_rule_def by (rule arg_cong [of _ _ "\<lambda>f. fold f ROLE_RULES (None, [])"]) (auto simp: fun_eq_iff Let_def)

definition fewer :: "string \<Rightarrow> string list \<Rightarrow> role_rule \<Rightarrow> bool" where
  "fewer text found r = (length (rule_matches text r) < length found)"

lemma best_so_far:
  "case fold (better_rule text) rs (None, []) of
     (None, found) \<Rightarrow> found = [] \<and> list_all (\<lambda>r. rule_matches text r = []) rs
   | (Some r, found) \<Rightarrow>
       found = rule_matches text r \<and> found \<noteq> [] \<and>
       (\<exists>pre post. rs = pre @ r # post \<and> list_all (fewer text found) pre \<and> list_all (at_least text r) post)"
proof (induction rs rule: rev_induct)
  case (snoc x rs)
  obtain b found where b: "fold (better_rule text) rs (None, []) = (b, found)" by force
  then have last: "fold (better_rule text) (rs @ [x]) (None, []) = better_rule text x (b, found)" by simp
  show ?case unfolding last
  proof (cases b)
    case None
    then have "found = []" "list_all (\<lambda>r. rule_matches text r = []) rs" using snoc b by auto
    then show "case better_rule text x (b, found) of (None, found) \<Rightarrow> found = [] \<and> list_all (\<lambda>r. rule_matches text r = []) (rs @ [x])
      | (Some r, found) \<Rightarrow> found = rule_matches text r \<and> found \<noteq> [] \<and>
         (\<exists>pre post. rs @ [x] = pre @ r # post \<and> list_all (fewer text found) pre \<and> list_all (at_least text r) post)"
      using None exI [of "\<lambda>pre. \<exists>post. rs @ [x] = pre @ x # post \<and> (\<forall>r\<in>set pre. rule_matches text r = []) \<and> post = []" rs]
      by (auto simp: better_rule_def Let_def fewer_def list_all_iff) fastforce
  next
    case (Some r)
    then obtain pre post where rs: "found = rule_matches text r" "found \<noteq> []" "rs = pre @ r # post"
      "list_all (fewer text found) pre" "list_all (at_least text r) post" using snoc b by auto
    show "case better_rule text x (b, found) of (None, found) \<Rightarrow> found = [] \<and> list_all (\<lambda>r. rule_matches text r = []) (rs @ [x])
      | (Some r, found) \<Rightarrow> found = rule_matches text r \<and> found \<noteq> [] \<and>
         (\<exists>pre post. rs @ [x] = pre @ r # post \<and> list_all (fewer text found) pre \<and> list_all (at_least text r) post)"
    proof (cases "length found < length (rule_matches text x)")
      case True
      then have "list_all (fewer text (rule_matches text x)) rs" using rs by (auto simp: list_all_iff fewer_def at_least_def)
      then have "\<exists>pre post. rs @ [x] = pre @ x # post \<and> list_all (fewer text (rule_matches text x)) pre \<and> list_all (at_least text x) post"
        by (intro exI [of _ rs] exI [of _ "[]"]) simp
      then show ?thesis using b True by (auto simp: better_rule_def Let_def)
    next
      case False
      then have "list_all (at_least text r) (post @ [x])" using rs by (simp add: at_least_def)
      then have "\<exists>pre post. rs @ [x] = pre @ r # post \<and> list_all (fewer text found) pre \<and> list_all (at_least text r) post"
        using rs(3,4) by (intro exI [of _ pre] exI [of _ "post @ [x]"]) simp
      then show ?thesis using rs(1,2) False Some by (simp add: better_rule_def Let_def)
    qed
  qed
qed simp

lemma find_best:
  assumes "rs = pre @ r # post" "list_all (fewer text (rule_matches text r)) pre" "list_all (at_least text r) post"
  shows "List.find (\<lambda>r. list_all (at_least text r) rs) rs = Some r"
proof -
  have "\<not> list_all (at_least text q) rs" if "q \<in> set pre" for q
    using assms that by (auto simp: list_all_iff fewer_def at_least_def not_le)
  then have "List.find (\<lambda>r. list_all (at_least text r) rs) (pre @ r # post) = List.find (\<lambda>r. list_all (at_least text r) rs) (r # post)"
    by (induction pre) auto
  moreover have "list_all (at_least text r) rs" using assms by (auto simp: list_all_iff fewer_def at_least_def less_imp_le)
  ultimately show ?thesis using assms(1) by simp
qed

lemma best_rule_best:
  "case best_rule text of
     (None, found) \<Rightarrow> list_all (\<lambda>r. rule_matches text r = []) ROLE_RULES
   | (Some r, found) \<Rightarrow>
       found = rule_matches text r \<and> found \<noteq> [] \<and> r \<in> set ROLE_RULES \<and> List.find (\<lambda>r. list_all (at_least text r) ROLE_RULES) ROLE_RULES = Some r"
proof -
  obtain b found where b: "best_rule text = (b, found)" by force
  note best = best_so_far [of "text" ROLE_RULES, folded best_rule_fold, unfolded b]
  show ?thesis
  proof (cases b)
    case (Some r)
    then obtain pre post where rs: "found = rule_matches text r" "found \<noteq> []" "ROLE_RULES = pre @ r # post"
      "list_all (fewer text found) pre" "list_all (at_least text r) post" using best by auto
    then have "r \<in> set ROLE_RULES" by (metis in_set_conv_decomp)
    then show ?thesis using rs b Some find_best [of ROLE_RULES pre r post "text"] by auto
  qed (use best b in auto)
qed

lemma fadd_range:
  assumes "in_range 0 (of_int n) x" "in_range 0 (of_int m) y" "\<bar>n + m\<bar> \<le> 2 ^ 53"
  shows "in_range 0 (of_int (n + m)) (fadd x y)"
proof -
  obtain a b where a: "x = Fin a" "0 \<le> a" "a \<le> of_int n" and b: "y = Fin b" "0 \<le> b" "b \<le> of_int m"
    using assms(1,2) by (auto elim!: in_range_obtain)
  have "of_int 0 \<le> a + b" "a + b \<le> of_int (n + m)" using a b by simp_all
  from fl_range [OF this] assms(3) show ?thesis using a(1) b(1) by simp
qed

lemma count_range: "k \<le> 4 \<Longrightarrow> in_range 0 (of_int 4) (fmul (Fin (of_nat k)) (fl (11 / 100)))"
proof -
  assume "k \<le> 4"
  then have k: "0 \<le> (of_nat k :: rat)" "(of_nat k :: rat) \<le> 4" by simp_all
  have "in_range 0 1 (fl (11 / 100))" by (rule fl_unit) simp_all
  then obtain b where b: "fl (11 / 100) = Fin b" "0 \<le> b" "b \<le> 1" by (elim in_range_obtain)
  have "of_int 0 \<le> of_nat k * b" "of_nat k * b \<le> of_int 4" using k b mult_mono [of "of_nat k" 4 b 1] by simp_all
  from fl_range [OF this] show ?thesis using b(1) by simp
qed

lemma fmin_range: "in_range 0 (of_int n) x \<Longrightarrow> in_range 0 1 y \<Longrightarrow> in_range 0 1 (fmin x y)"
  by (auto elim!: in_range_obtain)

lemma rule_confidence_range: "in_range 0 1 (rule_confidence r found txt ct)"
proof -
  note unit = fl_unit [of "42 / 100"] fl_unit [of "5 / 100"] fl_unit [of "7 / 100"] fl_unit [of "92 / 100"]
  let ?base = "fadd (fl (42 / 100)) (fmul (Fin (of_nat (min (length found) 4))) (fl (11 / 100)))"
  have base: "in_range 0 (of_int (1 + 4)) ?base" by (rule fadd_range) (use unit count_range in auto)
  then have html: "in_range 0 (of_int (1 + 4 + 1)) (fadd ?base (fl (5 / 100)))" by (rule fadd_range) (use unit in auto)
  have marked: "in_range 0 (of_int (1 + 4 + 1)) (fadd ?base (fl (7 / 100)))"
    using base by (rule fadd_range) (use unit in auto)
  have both: "in_range 0 (of_int (1 + 4 + 1 + 1)) (fadd (fadd ?base (fl (5 / 100))) (fl (7 / 100)))"
    using html by (rule fadd_range) (use unit in auto)
  have top: "in_range 0 1 (fl (92 / 100))" using unit by simp
  note capped = fmin_range [OF base top] fmin_range [OF html top] fmin_range [OF marked top] fmin_range [OF both top]
  have "in_range (of_int 0) (of_int 1) (fround 2 (fmin (if m then fadd (if h then fadd ?base (fl (5 / 100)) else ?base) (fl (7 / 100))
      else if h then fadd ?base (fl (5 / 100)) else ?base) (fl (92 / 100))))" for m h
    by (rule fround_range) (use capped in \<open>auto split: if_splits simp del: fmin_Fin\<close>)
  then show ?thesis unfolding rule_confidence_def Let_def by simp
qed

lemma rules_accepted:
  "r \<in> set ROLE_RULES \<Longrightarrow>
   patch_ok \<lparr>cx_sensitivity = Some (rr_sensitivity r), cx_lifespan = Some (rr_lifespan r), cx_criticality = Some (rr_criticality r),
     cx_exposure = Some (rr_exposure r), cx_role = Some (rr_role r)\<rparr>"
proof -
  have "list_all (\<lambda>r. patch_ok \<lparr>cx_sensitivity = Some (rr_sensitivity r), cx_lifespan = Some (rr_lifespan r),
    cx_criticality = Some (rr_criticality r), cx_exposure = Some (rr_exposure r), cx_role = Some (rr_role r)\<rparr>) ROLE_RULES" by code_simp
  then show "r \<in> set ROLE_RULES \<Longrightarrow> ?thesis" by (simp add: list_all_iff)
qed

lemma no_text: "best_rule [] = (None, [])"
  by code_simp

text \<open>A context that is inferred from a homepage is that of the best rule: the first rule no other rule beats in the
  number of its keywords on the page, and it has one there.  Its levels, exposure and span are values the patch of a
  context accepts, the signals are at most eight of the keywords found, the confidence is between 0 and 1.  A page with no
  context is empty or has no keyword of any rule.\<close>

theorem homepage_role_is_best:
  "case infer_homepage_context unescape url status_code content_type body of
     None \<Rightarrow> strip body = [] \<or> list_all (\<lambda>r. rule_matches (searchable_text unescape body) r = []) ROLE_RULES
   | Some c \<Rightarrow>
       (case List.find (\<lambda>r. list_all (at_least (searchable_text unescape body) r) ROLE_RULES) ROLE_RULES of
          None \<Rightarrow> False
        | Some r \<Rightarrow>
            rule_matches (searchable_text unescape body) r \<noteq> [] \<and>
            pget c ''service_role'' = PStr (rr_role r) \<and> pget c ''sensitivity'' = PStr (rr_sensitivity r) \<and>
            pget c ''criticality'' = PStr (rr_criticality r) \<and> pget c ''exposure'' = PStr (rr_exposure r) \<and>
            pget c ''lifespan_years'' = PInt (rr_lifespan r) \<and>
            patch_ok \<lparr>cx_sensitivity = Some (rr_sensitivity r), cx_lifespan = Some (rr_lifespan r),
              cx_criticality = Some (rr_criticality r), cx_exposure = Some (rr_exposure r), cx_role = Some (rr_role r)\<rparr> \<and>
            (case pget c ''homepage_inference'' of
               PDict i \<Rightarrow>
                 pget i ''signals'' = strings (take 8 (rule_matches (searchable_text unescape body) r)) \<and>
                 (case pget i ''confidence'' of PFloat x \<Rightarrow> in_range 0 1 x | _ \<Rightarrow> False)
             | _ \<Rightarrow> False))"
proof -
  let ?t = "searchable_text unescape body"
  obtain b found where b: "best_rule ?t = (b, found)" by force
  have none: "?t = [] \<Longrightarrow> b = None" using b no_text by simp
  show ?thesis
  proof (cases b)
    case (Some r)
    then have best: "found = rule_matches ?t r" "found \<noteq> []" "r \<in> set ROLE_RULES"
      "List.find (\<lambda>r. list_all (at_least ?t r) ROLE_RULES) ROLE_RULES = Some r" using best_rule_best [of ?t] b by auto
    show ?thesis using Some b none best(1,2) rule_confidence_range [of r found] rules_accepted [OF best(3)]
      by (auto simp: infer_homepage_context_def best(4) pget_def dget_or_def)
  next
    case None
    then show ?thesis using best_rule_best [of ?t] b by (auto simp: infer_homepage_context_def)
  qed
qed

end
