(* ===== verification/Network_Scanner.thy ===== *)
theory Network_Scanner
  imports Ike Certificates Utf8 Homepage_Context Ip_Address
begin

text \<open>
  \<open>apps/jobs/network_scanner.py\<close>: the scan of a target over the network.  The protocol of the target chooses the scanner;
  each gives candidate assets: certificates, versions and cipher suites of TLS, the post-quantum readiness a server
  publishes, host keys of SSH, the transforms of an IKE answer, policies.

  What is outside of the program is the record \<open>net\<close>: the environment, the resolver, connections, handshakes, the commands
  \<open>openssl\<close> and \<open>ssh-keyscan\<close>, random bytes.  Each is a function of what the code passes to it; a scan asks no question
  twice whose answers it could compare.  A call that fails gives a \<open>fault\<close>: \<open>Os\<close> for an \<open>OSError\<close> or one of its subclasses
  (a time-out, a failed handshake) and for a \<open>SubprocessError\<close>, which the code catches together with it, \<open>Raised\<close> for any
  other exception.  A connection gives the chunks that arrive, and \<open>recv\<close> takes at most what it asks for.  Bytes and
  texts are lists of 8-bit characters.
\<close>

section \<open>The world\<close>

datatype fault = Os string | Raised py_error

type_synonym stream = "(fault + string) list"

record handshake =
  hs_der :: "string option"
  hs_version :: "string option"
  hs_cipher :: "string option"
  hs_alpn :: "string option"

record net =
  nt_env :: "string \<Rightarrow> string option"
  nt_resolve :: "string \<Rightarrow> fault + string"
  nt_tls :: "string \<Rightarrow> int \<Rightarrow> string option \<Rightarrow> fault + handshake"
  nt_ciphers :: "pyval dict list option"
  nt_set_ciphers :: "string \<Rightarrow> bool"
  nt_tls12 :: "string \<Rightarrow> int \<Rightarrow> string option \<Rightarrow> string \<Rightarrow> fault + string option"
  nt_command :: "string list \<Rightarrow> fault + int \<times> string"
  nt_pem_to_der :: "string \<Rightarrow> fault + string"
  nt_certificate_text :: "string \<Rightarrow> fault + string"
  nt_connect :: "bool \<Rightarrow> string \<Rightarrow> int \<Rightarrow> string option \<Rightarrow> fault + (string \<Rightarrow> stream)"
  nt_dialogue :: "string \<Rightarrow> int \<Rightarrow> string list \<Rightarrow> fault + stream \<times> (string option \<Rightarrow> fault + handshake)"
  nt_datagram :: "string \<Rightarrow> int \<Rightarrow> string \<Rightarrow> fault + string"
  nt_random :: "nat \<Rightarrow> string"
  nt_unescape :: "string \<Rightarrow> string"

text \<open>\<open>except OSError: return d\<close>.\<close>

definition caught :: "'a \<Rightarrow> fault + 'a \<Rightarrow> fault + 'a" where
  "caught d m = (case m of Inl (Os e) \<Rightarrow> Inr d | _ \<Rightarrow> m)"

fun recv :: "nat \<Rightarrow> stream \<Rightarrow> (fault + string) \<times> stream" where
  "recv n [] = (Inr [], [])"
| "recv n (Inl e # cs) = (Inl e, cs)"
| "recv n (Inr c # cs) = (if length c \<le> n then (Inr c, cs) else (Inr (take n c), Inr (drop n c) # cs))"

text \<open>\<open>str.encode("ascii")\<close>: the error names the first run of other characters.\<close>

definition ascii_message :: "string \<Rightarrow> string" where
  "ascii_message s =
     (let i = length (takeWhile (\<lambda>c. code c < 128) s); others = takeWhile (\<lambda>c. 128 \<le> code c) (drop i s); first = code (hd others)
      in [CHR 0x27] @ ''ascii'' @ [CHR 0x27] @ '' codec can'' @ [CHR 0x27] @ ''t encode character'' @
         (if length others = 1
          then '' '' @ [CHR 0x27, CHR 0x5C] @ ''x'' @ [hex_char (first div 16), hex_char (first mod 16), CHR 0x27] @ '' in position '' @ str_int (int i)
          else ''s in position '' @ str_int (int i) @ ''-'' @ str_int (int (i + length others) - 1)) @
         '': ordinal not in range(128)'')"

definition ascii_encode :: "string \<Rightarrow> fault + string" where
  "ascii_encode s = (if is_ascii s then Inr s else Inl (Raised (ValueError (ascii_message s))))"

definition getenv :: "net \<Rightarrow> string \<Rightarrow> string \<Rightarrow> string" where
  "getenv net name dflt = (case nt_env net name of None \<Rightarrow> dflt | Some v \<Rightarrow> v)"

definition switched_off :: "net \<Rightarrow> string \<Rightarrow> bool" where
  "switched_off net name = (lower (getenv net name ''1'') \<in> set [''0'', ''false'', ''no''])"

section \<open>Targets\<close>

definition TLS_DIRECT_PORTS :: "int list" where
  "TLS_DIRECT_PORTS = [443, 465, 993, 995, 3306, 5000, 6380, 8200, 8443, 8883, 9090, 9093, 9200, 9443, 15017]"

definition HTTP_HOMEPAGE_PORTS :: "int list" where "HTTP_HOMEPAGE_PORTS = [80, 8080]"
definition HTTPS_HOMEPAGE_PORTS :: "int list" where "HTTPS_HOMEPAGE_PORTS = [443, 8443]"
definition MQTT_TLS_PORTS :: "int list" where "MQTT_TLS_PORTS = [8883]"
definition SMTP_STARTTLS_PORTS :: "int list" where "SMTP_STARTTLS_PORTS = [25, 587]"
definition POSTGRESQL_SSL_REQUEST_CODE :: int where "POSTGRESQL_SSL_REQUEST_CODE = 80877103"

definition TLS13_CIPHER_PROBE_CANDIDATES :: "string list" where
  "TLS13_CIPHER_PROBE_CANDIDATES = [''TLS_AES_256_GCM_SHA384'', ''TLS_CHACHA20_POLY1305_SHA256'', ''TLS_AES_128_GCM_SHA256'']"

definition TLS12_CIPHER_PROBE_CANDIDATES :: "string list" where
  "TLS12_CIPHER_PROBE_CANDIDATES =
     [''ECDHE-RSA-AES256-GCM-SHA384'', ''ECDHE-ECDSA-AES128-GCM-SHA256'', ''DHE-RSA-AES256-GCM-SHA384'',
      ''ECDHE-RSA-AES128-GCM-SHA256'', ''ECDHE-ECDSA-AES256-GCM-SHA384'', ''AES128-SHA'', ''AES256-SHA'']"

definition target_address :: "target \<Rightarrow> string" where
  "target_address t = or_text (tg_ip t) (tg_host t)"

definition is_hostname :: "string \<Rightarrow> bool" where
  "is_hostname v = (v \<noteq> [] \<and> ip_address v = None)"

text \<open>\<open>_resolve_address\<close> for a text that is not empty: a name that does not resolve stands for itself.\<close>

definition resolve_address :: "net \<Rightarrow> string \<Rightarrow> fault + string" where
  "resolve_address net v = (if v = [] then Inr [] else caught v (nt_resolve net v))"

definition sni_label :: "string option \<Rightarrow> target \<Rightarrow> string" where
  "sni_label sni t = or_text sni (or_text (tg_sni t) (tg_host t))"

text \<open>The names of other targets on the same port whose address is the same.\<close>

fun aliases_at :: "net \<Rightarrow> string \<Rightarrow> target list \<Rightarrow> string list \<Rightarrow> fault + string list" where
  "aliases_at net address [] found = Inr found"
| "aliases_at net address (x # xs) found =
     (let alias = or_text (tg_sni x) (tg_host x)
      in if \<not> is_hostname alias then aliases_at net address xs found
         else rbind (resolve_address net (target_address x)) (\<lambda>other.
           aliases_at net address xs (if other = address \<and> alias \<notin> set found then found @ [alias] else found)))"

definition known_sni_aliases :: "net \<Rightarrow> db \<Rightarrow> target \<Rightarrow> fault + string list" where
  "known_sni_aliases net d t =
     rbind (resolve_address net (target_address t)) (\<lambda>address.
       if address = [] then Inr []
       else aliases_at net address
         (filter (\<lambda>x. tg_port x = tg_port t \<and> tg_transport x = tg_transport t \<and> tg_id x \<noteq> tg_id t) (db_targets d)) [])"

definition initial_sni_names :: "net \<Rightarrow> db \<Rightarrow> target \<Rightarrow> fault + string option list" where
  "initial_sni_names net d t =
     (let primary = (if or_text (tg_sni t) [] \<noteq> [] then tg_sni t else if is_hostname (tg_host t) then Some (tg_host t) else None)
      in rmap (\<lambda>aliases. primary # map Some (filter (\<lambda>a. Some a \<noteq> primary) aliases)) (known_sni_aliases net d t))"

section \<open>Certificates of a handshake\<close>

definition s_client :: "target \<Rightarrow> string list" where
  "s_client t = [''openssl'', ''s_client'', ''-connect'', target_address t @ '':'' @ str_int (tg_port t)]"

definition servername :: "string option \<Rightarrow> string list" where
  "servername sni = (if or_text sni [] = [] then [] else [''-servername'', the sni])"

definition pem_to_der :: "net \<Rightarrow> string \<Rightarrow> fault + string" where
  "pem_to_der net pem = caught [] (nt_pem_to_der net pem)"

definition openssl_certificate_chain :: "net \<Rightarrow> target \<Rightarrow> string option \<Rightarrow> string list \<Rightarrow> fault + string list" where
  "openssl_certificate_chain net t sni starttls =
     rbind (caught (0, []) (nt_command net (s_client t @ [''-showcerts''] @ servername sni @ starttls))) (\<lambda>(status, out).
       rmap (filter (\<lambda>der. der \<noteq> [])) (rmapM (pem_to_der net) (extract_pem_certificates out)))"

text \<open>The chain, or the certificate of the handshake when the command gave none.\<close>

definition chain_or_peer :: "string list \<Rightarrow> string option \<Rightarrow> string list" where
  "chain_or_peer chain der = (if chain \<noteq> [] then chain else if or_text der [] = [] then [] else [the der])"

definition parse_certificate_der :: "net \<Rightarrow> string \<Rightarrow> fault + certificate" where
  "parse_certificate_der net der =
     (if der = [] then Inr no_certificate
      else (case nt_certificate_text net der of
              Inr txt \<Rightarrow> Inr (parse_openssl_certificate_text txt)
            | Inl (Os e) \<Rightarrow> Inr no_certificate
            | Inl e \<Rightarrow> Inl e))"

definition subject_alt_names_from_chain :: "net \<Rightarrow> string list \<Rightarrow> fault + string list" where
  "subject_alt_names_from_chain net chain =
     (case chain of [] \<Rightarrow> Inr []
      | der # _ \<Rightarrow> rmap (\<lambda>c. filter is_hostname (ce_names c)) (parse_certificate_der net der))"

section \<open>Cipher suites\<close>

definition cipher_enumeration_limit :: "net \<Rightarrow> int" where
  "cipher_enumeration_limit net =
     (case int_of_str (getenv net ''NETWORK_TLS_CIPHER_ENUMERATION_LIMIT'' ''24'') of Inr n \<Rightarrow> max 0 n | Inl e \<Rightarrow> 24)"

definition local_cipher_names :: "net \<Rightarrow> string list" where
  "local_cipher_names net =
     (case nt_ciphers net of None \<Rightarrow> []
      | Some cs \<Rightarrow> map (\<lambda>c. py_str (pget c ''name''))
          (filter (\<lambda>c. truthy (pget c ''name'') \<and> \<not> py_eq (pget c ''protocol'') (PStr ''TLSv1.3'')) cs))"

definition cipher_probe_candidates :: "net \<Rightarrow> string list" where
  "cipher_probe_candidates net =
     take (nat (cipher_enumeration_limit net))
       (add_new [] (TLS13_CIPHER_PROBE_CANDIDATES @ TLS12_CIPHER_PROBE_CANDIDATES @ local_cipher_names net))"

definition probe_tls12_cipher_suite :: "net \<Rightarrow> target \<Rightarrow> string option \<Rightarrow> string \<Rightarrow> fault + string option" where
  "probe_tls12_cipher_suite net t sni cipher_name =
     (if \<not> nt_set_ciphers net cipher_name then Inr None
      else caught None (nt_tls12 net (target_address t) (tg_port t) sni cipher_name))"

definition suite_char :: "char \<Rightarrow> bool" where
  "suite_char c = (is_alnum c \<or> c = CHR ''_'' \<or> c = CHR ''-'')"

definition suite_pattern :: pat where
  "suite_pattern = seq [literal ''Ciphersuite:'', Many True 0 is_space, Group (Many True 1 suite_char)]"

definition probe_tls13_cipher_suite :: "net \<Rightarrow> target \<Rightarrow> string option \<Rightarrow> string \<Rightarrow> fault + string option" where
  "probe_tls13_cipher_suite net t sni cipher_name =
     rmap (\<lambda>(status, out).
         if status \<noteq> 0 then None
         else (case find_match suite_pattern out of
                 None \<Rightarrow> None | Some negotiated \<Rightarrow> if negotiated = cipher_name then Some negotiated else None))
       (caught (1, []) (nt_command net (s_client t @ [''-tls1_3'', ''-ciphersuites'', cipher_name, ''-brief''] @ servername sni)))"

fun accepted_among :: "net \<Rightarrow> target \<Rightarrow> string option \<Rightarrow> string list \<Rightarrow> string list \<Rightarrow> fault + string list" where
  "accepted_among net t sni [] accepted = Inr accepted"
| "accepted_among net t sni (c # cs) accepted =
     rbind (if startswith c ''TLS_'' then probe_tls13_cipher_suite net t sni c else probe_tls12_cipher_suite net t sni c) (\<lambda>negotiated.
       accepted_among net t sni cs
         (case negotiated of None \<Rightarrow> accepted
          | Some n \<Rightarrow> if n \<noteq> [] \<and> n \<notin> set accepted then accepted @ [n] else accepted))"

definition accepted_tls_cipher_suites :: "net \<Rightarrow> target \<Rightarrow> string option \<Rightarrow> fault + string list" where
  "accepted_tls_cipher_suites net t sni =
     (if switched_off net ''NETWORK_TLS_CIPHER_ENUMERATION'' then Inr []
      else accepted_among net t sni (cipher_probe_candidates net) [])"

section \<open>Pages\<close>

definition header_end :: string where
  "header_end = [CHR 0x0D, CHR 0x0A, CHR 0x0D, CHR 0x0A]"

definition crlf :: string where
  "crlf = [CHR 0x0D, CHR 0x0A]"

text \<open>\<open>response.split(b"\r\n\r\n", 1)\<close>, when there are two parts.\<close>

fun split_head :: "string \<Rightarrow> (string \<times> string) option" where
  "split_head [] = None"
| "split_head (c # cs) =
     (if startswith (c # cs) header_end then Some ([], drop 4 (c # cs))
      else map_option (\<lambda>(h, b). (c # h, b)) (split_head cs))"

function recv_http_response :: "stream \<Rightarrow> string \<Rightarrow> fault + string" where
  "recv_http_response cs acc =
     (if 16384 \<le> length acc then Inr acc
      else (case recv 4096 cs of
              (Inl e, rest) \<Rightarrow> Inl e
            | (Inr chunk, rest) \<Rightarrow>
                if chunk = [] then Inr acc
                else if contains (acc @ chunk) header_end \<and> contains chunk ''}'' then Inr (acc @ chunk)
                else recv_http_response rest (acc @ chunk)))"
  by auto

termination
  by (relation "measure (\<lambda>(cs, acc). 16384 - length acc)") (auto simp flip: length_greater_0_conv)

function recv_http_bytes :: "nat \<Rightarrow> stream \<Rightarrow> string \<Rightarrow> fault + string" where
  "recv_http_bytes limit cs acc =
     (if limit \<le> length acc then Inr acc
      else (case recv (min 4096 (limit - length acc)) cs of
              (Inl e, rest) \<Rightarrow> Inl e
            | (Inr chunk, rest) \<Rightarrow> if chunk = [] then Inr acc else recv_http_bytes limit rest (acc @ chunk)))"
  by auto

termination
  by (relation "measure (\<lambda>(limit, cs, acc). limit - length acc)") (auto simp flip: length_greater_0_conv)

declare recv_http_response.simps [simp del] recv_http_bytes.simps [simp del]

subsection \<open>Post-quantum readiness\<close>

definition DEFAULT_READINESS_PORTS :: "int list" where
  "DEFAULT_READINESS_PORTS = [443, 5000, 8200, 8443, 9090, 9200, 9443, 15017]"

definition pqc_readiness_ports :: "net \<Rightarrow> int list" where
  "pqc_readiness_ports net =
     (let raw = getenv net ''NETWORK_TLS_PQC_READINESS_PORTS'' ''443,5000,8200,8443,9090,9200,9443,15017''
      in case rmapM int_of_str (filter (\<lambda>item. item \<noteq> []) (map strip (split_on CHR '','' raw))) of
           Inr ports \<Rightarrow> ports | Inl e \<Rightarrow> DEFAULT_READINESS_PORTS)"

text \<open>The document in a response; an integer that is too long is an error that is not caught.\<close>

definition readiness_document :: "string \<Rightarrow> fault + pyval dict option" where
  "readiness_document response =
     (case split_head response of None \<Rightarrow> Inr None
      | Some (head, body) \<Rightarrow>
          if \<not> startswith head ''HTTP/1.'' \<or> \<not> contains (take 32 head) '' 200 '' then Inr None
          else (case decode_utf8 body of None \<Rightarrow> Inr None
                | Some txt \<Rightarrow>
                    (case json_loads txt of
                       Inr (PDict m) \<Rightarrow> Inr (Some m)
                     | Inr v \<Rightarrow> Inr None
                     | Inl Bad_json \<Rightarrow> Inr None
                     | Inl Digit_limit \<Rightarrow> Inl (Raised (ValueError ''Exceeds the limit (4300 digits) for integer string conversion''))
                     | Inl Beyond_char \<Rightarrow> Inl (Raised (RuntimeError ''character outside the model'')))))"

definition pqc_readiness_metadata :: "net \<Rightarrow> target \<Rightarrow> string option \<Rightarrow> fault + pyval dict option" where
  "pqc_readiness_metadata net t sni =
     (if switched_off net ''NETWORK_TLS_PQC_READINESS'' then Inr None
      else if tg_port t \<notin> set (pqc_readiness_ports net) then Inr None
      else
        (let path = getenv net ''NETWORK_TLS_PQC_READINESS_PATH'' ''/.well-known/pqc-readiness.json'';
             request = ''GET '' @ path @ '' HTTP/1.1'' @ crlf @ ''Host: '' @ sni_label sni t @ crlf @ ''Connection: close'' @ header_end
         in rbind
              (caught None
                (rbind (nt_connect net True (target_address t) (tg_port t) sni) (\<lambda>send.
                 rbind (ascii_encode request) (\<lambda>bytes. rmap Some (recv_http_response (send bytes) [])))))
              (\<lambda>response. case response of None \<Rightarrow> Inr None | Some r \<Rightarrow> readiness_document r)))"

subsection \<open>The homepage\<close>

definition homepage_scheme :: "target \<Rightarrow> string option" where
  "homepage_scheme t =
     (if tg_port t \<in> set HTTPS_HOMEPAGE_PORTS then Some ''https''
      else if tg_port t \<in> set HTTP_HOMEPAGE_PORTS then Some ''http'' else None)"

text \<open>The lines after the first one; the value of the first that has the name.\<close>

definition header_value :: "string \<Rightarrow> string \<Rightarrow> string" where
  "header_value header_text name =
     (case List.find (\<lambda>line. startswith (lower line) (lower name @ '':'')) (drop 1 (splitlines header_text)) of
        None \<Rightarrow> [] | Some line \<Rightarrow> strip (drop 1 (dropWhile (\<lambda>c. c \<noteq> CHR '':'') line)))"

text \<open>\<open>HTTP/\d(?:\.\d)?\s+(?P<status>\d{3})\<close>.\<close>

definition status_pattern :: pat where
  "status_pattern =
     seq [literal ''HTTP/'', Class is_digit, Maybe (seq [literal ''.'', Class is_digit]), Many True 1 is_space,
          Group (seq [Class is_digit, Class is_digit, Class is_digit])]"

definition homepage_request :: "string \<Rightarrow> string" where
  "homepage_request host_header =
     ''GET / HTTP/1.1'' @ crlf @ ''Host: '' @ host_header @ crlf @ ''User-Agent: pqc-context-inference/1.0'' @ crlf @
     ''Accept: text/html,application/xhtml+xml,text/plain;q=0.5'' @ crlf @ ''Accept-Encoding: identity'' @ crlf @
     ''Connection: close'' @ header_end"

definition fetch_homepage :: "net \<Rightarrow> target \<Rightarrow> string \<Rightarrow> string \<Rightarrow> fault + int \<times> string \<times> string" where
  "fetch_homepage net t scheme host_header =
     rbind (ascii_encode (homepage_request host_header)) (\<lambda>request.
     rbind (nt_connect net (scheme = ''https'') (target_address t) (tg_port t) (Some host_header)) (\<lambda>send.
     rbind (recv_http_bytes 32768 (send request) []) (\<lambda>response.
       case split_head response of None \<Rightarrow> Inr (0, [], [])
       | Some (head, body) \<Rightarrow>
           Inr (case match_start status_pattern head of Some n \<Rightarrow> nat_of_digits n | None \<Rightarrow> 0, header_value head ''content-type'', body))))"

definition is_textual_homepage :: "string \<Rightarrow> bool" where
  "is_textual_homepage content_type =
     (strip (hd (split_on CHR '';'' (lower content_type))) \<in> set [''text/html'', ''application/xhtml+xml'', ''text/plain''])"

definition infer_target_homepage :: "net \<Rightarrow> target \<Rightarrow> fault + pyval dict option" where
  "infer_target_homepage net t =
     (if switched_off net ''NETWORK_HOMEPAGE_CONTEXT'' then Inr None
      else if tg_transport t \<noteq> ''TCP'' then Inr None
      else (case homepage_scheme t of None \<Rightarrow> Inr None
            | Some scheme \<Rightarrow>
                (let host_header = sni_label None t
                 in rbind (caught None (rmap Some (fetch_homepage net t scheme host_header))) (\<lambda>page.
                   Inr (case page of None \<Rightarrow> None
                     | Some (status, content_type, body) \<Rightarrow>
                         if status < 200 \<or> 400 \<le> status then None
                         else if content_type \<noteq> [] \<and> \<not> is_textual_homepage content_type then None
                         else infer_homepage_context (nt_unescape net)
                           (scheme @ ''://'' @ host_header @ '':'' @ str_int (tg_port t) @ ''/'') status (Some content_type)
                           (decode_replace body))))))"

section \<open>Candidates\<close>

record tls_result =
  tr_sni :: "string option"
  tr_chain :: "string list"
  tr_version :: "string option"
  tr_cipher :: "string option"
  tr_alpn :: "string option"
  tr_suites :: "string list"
  tr_pqc :: "pyval dict option"

definition network_candidate ::
  "target \<Rightarrow> string \<Rightarrow> string \<Rightarrow> string \<Rightarrow> string \<Rightarrow> string \<Rightarrow> pyval dict \<Rightarrow> candidate" where
  "network_candidate t name ty algorithm family bom_ref metadata =
     \<lparr>c_target = tg_id t, c_scanner = ''network'', c_name = place t @ '' '' @ name, c_type = ty, c_algorithm = algorithm,
      c_family = family, c_bom_ref = ''network:'' @ bom_ref, c_metadata = metadata\<rparr>"

text \<open>The target and more values, in a stable reference.\<close>

definition place_ref :: "target \<Rightarrow> pyval list \<Rightarrow> string" where
  "place_ref t parts = stable_bom_ref (PStr (tg_host t) # PInt (tg_port t) # parts)"

definition optional :: "string option \<Rightarrow> pyval" where
  "optional v = (case v of None \<Rightarrow> PNone | Some s \<Rightarrow> PStr s)"

definition certificate_candidate :: "net \<Rightarrow> target \<Rightarrow> string \<Rightarrow> string \<Rightarrow> string option \<Rightarrow> nat \<Rightarrow> fault + candidate" where
  "certificate_candidate net t der source sni chain_index =
     (let fingerprint = hexdigest der; label = sni_label sni t;
          role = (if chain_index = 0 then ''leaf'' else ''chain-'' @ str_int (int chain_index))
      in rmap (\<lambda>c.
          let algorithm = or_str (ce_algorithm c) ''X.509 certificate''
          in network_candidate t (label @ '' certificate '' @ role) ''certificate'' algorithm
               (or_str (ce_family c) (family_from_algorithm algorithm))
               (source @ '':cert:'' @ label @ '':'' @ str_int (int chain_index) @ '':'' @ fingerprint)
               ([(''scanner'', PStr ''network''), (''type'', PStr ''certificate''), (''fingerprint_sha256'', PStr fingerprint),
                 (''sni'', PStr label), (''chain_index'', PInt (int chain_index)), (''source'', PStr source)] @
                map (\<lambda>(k, v). (k, PStr v)) (certificate_validity_metadata c)))
         (parse_certificate_der net der))"

definition tls_version_candidate :: "target \<Rightarrow> tls_result \<Rightarrow> candidate" where
  "tls_version_candidate t r =
     (let label = sni_label (tr_sni r) t; version = or_text (tr_version r) []
      in network_candidate t (label @ '' TLS version policy'') ''protocol'' (or_str version ''TLS'') (family_from_algorithm version)
           (''tls-version:'' @ place_ref t [PStr label, optional (tr_version r)]) [])"

definition tls_cipher_candidate :: "target \<Rightarrow> tls_result \<Rightarrow> string \<Rightarrow> candidate" where
  "tls_cipher_candidate t r suite =
     (let label = sni_label (tr_sni r) t
      in network_candidate t (label @ '' TLS cipher suite'') ''protocol'' suite (family_from_algorithm suite)
           (''tls-cipher:'' @ place_ref t [PStr label, PStr suite])
           [(''scanner'', PStr ''network''), (''type'', PStr ''tls_cipher_suite''), (''sni'', PStr label),
            (''observation'', PStr (if Some suite = tr_cipher r then ''negotiated'' else ''enumerated'')),
            (''supported_cipher_suites'', strings (tr_suites r))])"

definition application_protocol_candidate :: "target \<Rightarrow> string \<Rightarrow> string \<Rightarrow> string option \<Rightarrow> candidate" where
  "application_protocol_candidate t protocol algorithm sni =
     network_candidate t (protocol @ '' application protocol'') ''protocol'' algorithm (family_from_algorithm algorithm)
       (''application-protocol:'' @ place_ref t [PStr (sni_label sni t), PStr protocol, PStr algorithm]) []"

definition protocol_policy_candidate :: "target \<Rightarrow> string \<Rightarrow> string \<Rightarrow> candidate" where
  "protocol_policy_candidate t protocol algorithm =
     network_candidate t (protocol @ '' policy'') ''protocol'' algorithm (family_from_algorithm algorithm)
       (lower protocol @ ''-policy:'' @ place_ref t [PStr algorithm]) []"

definition tcp_fallback_candidate :: "target \<Rightarrow> candidate" where
  "tcp_fallback_candidate t =
     network_candidate t ''open TCP service'' ''protocol'' ''TCP open service'' [] (''tcp-fallback:'' @ place_ref t [PStr (tg_transport t)]) []"

definition metadata_text :: "pyval \<Rightarrow> string" where
  "metadata_text v = strip (py_str (py_or v (PStr [])))"

text \<open>What a readiness document announces: a signature algorithm, a key agreement, a hybrid group.\<close>

definition readiness_candidate ::
  "target \<Rightarrow> string \<Rightarrow> pyval dict \<Rightarrow> string \<Rightarrow> string \<Rightarrow> string \<Rightarrow> string \<Rightarrow> string \<Rightarrow> candidate list" where
  "readiness_candidate t label source_metadata name ty ref_kind role algorithm =
     (if algorithm = [] then []
      else [network_candidate t (label @ '' '' @ name) ty algorithm (family_from_algorithm algorithm)
              (''pqc-readiness:'' @ ref_kind @ '':'' @ place_ref t [PStr label, PStr algorithm])
              (source_metadata @ [(''pqc_role'', PStr role)])])"

definition pqc_readiness_candidates :: "target \<Rightarrow> tls_result \<Rightarrow> candidate list" where
  "pqc_readiness_candidates t r =
     (case tr_pqc r of None \<Rightarrow> []
      | Some m \<Rightarrow>
          if pget m ''pqc_enabled'' \<noteq> PBool True then []
          else
            (let label = sni_label (tr_sni r) t;
                 signature = metadata_text (pget m ''signature_algorithm'');
                 kem = metadata_text (py_or (pget m ''kem_group'') (pget m ''key_exchange_group''));
                 hybrid = metadata_text (pget m ''hybrid_group'');
                 source_metadata =
                   [(''scanner'', PStr ''network''), (''type'', PStr ''pqc_readiness''), (''source'', PStr ''tls-pqc-readiness''),
                    (''sni'', PStr label),
                    (''evidence_path'', py_or (pget m ''evidence_path'') (PStr ''/.well-known/pqc-readiness.json'')),
                    (''hybrid_group'', PStr hybrid), (''standard'', pget m ''standard''), (''implementation'', pget m ''implementation'')]
             in readiness_candidate t label source_metadata ''PQC signature'' ''certificate'' ''signature'' ''signature'' signature @
                readiness_candidate t label source_metadata ''PQC key agreement'' ''key_agreement'' ''kem'' ''kem'' kem @
                readiness_candidate t label source_metadata ''hybrid TLS group'' ''protocol'' ''hybrid-group'' ''hybrid_group'' hybrid))"

definition tls_candidates_from_result :: "net \<Rightarrow> target \<Rightarrow> tls_result \<Rightarrow> string \<Rightarrow> fault + candidate list" where
  "tls_candidates_from_result net t r source =
     rmap (\<lambda>certificates.
         certificates @
         (if or_text (tr_version r) [] \<noteq> [] then [tls_version_candidate t r] else []) @
         map (tls_cipher_candidate t r) (add_new [] (or_text (tr_cipher r) [] # tr_suites r)) @
         pqc_readiness_candidates t r @
         (if or_text (tr_alpn r) [] \<noteq> []
          then [application_protocol_candidate t (upper (the (tr_alpn r))) (''ALPN '' @ the (tr_alpn r)) (tr_sni r)] else []) @
         (if tg_port t \<in> set MQTT_TLS_PORTS \<or> tr_alpn r = Some ''mqtt''
          then [application_protocol_candidate t ''MQTT'' ''MQTT over TLS'' (tr_sni r)] else []))
       (rmapM (\<lambda>(i, der). certificate_candidate net t der source (tr_sni r) i) (enumerate 0 (tr_chain r)))"

section \<open>The scanners\<close>

definition tls_probe :: "net \<Rightarrow> target \<Rightarrow> string option \<Rightarrow> fault + tls_result" where
  "tls_probe net t sni =
     rbind (nt_tls net (target_address t) (tg_port t) sni) (\<lambda>hs.
     rbind (openssl_certificate_chain net t sni []) (\<lambda>chain.
     rbind (accepted_tls_cipher_suites net t sni) (\<lambda>suites.
     rbind (pqc_readiness_metadata net t sni) (\<lambda>pqc.
       Inr \<lparr>tr_sni = sni, tr_chain = chain_or_peer chain (hs_der hs), tr_version = hs_version hs, tr_cipher = hs_cipher hs,
            tr_alpn = hs_alpn hs, tr_suites = suites, tr_pqc = pqc\<rparr>))))"

text \<open>The names that are new are added at the end.\<close>

definition add_pending :: "string list \<Rightarrow> string list \<Rightarrow> string option list \<Rightarrow> string option list" where
  "add_pending seen names pending =
     fold (\<lambda>n pending. if n \<notin> set seen \<and> Some n \<notin> set pending then pending @ [Some n] else pending) names pending"

text \<open>One name: its candidates, and the names that are pending after it.\<close>

definition scan_name ::
  "net \<Rightarrow> db \<Rightarrow> target \<Rightarrow> string option \<Rightarrow> string list \<Rightarrow> string option list \<Rightarrow> fault + candidate list \<times> string option list" where
  "scan_name net d t sni seen pending =
     rbind (tls_probe net t sni) (\<lambda>r.
     rbind (tls_candidates_from_result net t r ''tls'') (\<lambda>candidates.
     rbind (subject_alt_names_from_chain net (tr_chain r)) (\<lambda>names.
     rbind (known_sni_aliases net d t) (\<lambda>aliases.
       Inr (candidates, add_pending seen aliases (add_pending seen names pending))))))"

text \<open>The loop; a round of it takes one unit of fuel, and None is that the fuel is used up.\<close>

fun scan_tls_loop ::
  "nat \<Rightarrow> net \<Rightarrow> db \<Rightarrow> target \<Rightarrow> string option list \<Rightarrow> string list \<Rightarrow> candidate list \<Rightarrow> (fault + candidate list) option" where
  "scan_tls_loop fuel net d t [] seen found = Some (Inr found)"
| "scan_tls_loop 0 net d t (sni # pending) seen found = None"
| "scan_tls_loop (Suc fuel) net d t (sni # pending) seen found =
     (let key = or_text sni []
      in if key \<in> set seen then scan_tls_loop fuel net d t pending seen found
         else (case scan_name net d t sni (key # seen) pending of
                 Inl e \<Rightarrow> Some (Inl e)
               | Inr (candidates, pending') \<Rightarrow> scan_tls_loop fuel net d t pending' (key # seen) (found @ candidates)))"

definition scan_tls :: "nat \<Rightarrow> net \<Rightarrow> db \<Rightarrow> target \<Rightarrow> (fault + candidate list) option" where
  "scan_tls fuel net d t =
     (case initial_sni_names net d t of Inl e \<Rightarrow> Some (Inl e) | Inr names \<Rightarrow> scan_tls_loop fuel net d t names [] [])"

definition handshake_result :: "string option \<Rightarrow> string list \<Rightarrow> handshake \<Rightarrow> tls_result" where
  "handshake_result sni chain hs =
     \<lparr>tr_sni = sni, tr_chain = chain_or_peer chain (hs_der hs), tr_version = hs_version hs, tr_cipher = hs_cipher hs, tr_alpn = None,
      tr_suites = [], tr_pqc = None\<rparr>"

text \<open>A connection that becomes TLS after a few lines.\<close>

definition upgraded :: "net \<Rightarrow> target \<Rightarrow> string option \<Rightarrow> string \<Rightarrow> string \<Rightarrow> (string option \<Rightarrow> fault + handshake) \<Rightarrow> fault + candidate list" where
  "upgraded net t sni starttls source shake =
     rbind (shake sni) (\<lambda>hs.
     rbind (openssl_certificate_chain net t sni [''-starttls'', starttls]) (\<lambda>chain.
       tls_candidates_from_result net t (handshake_result sni chain hs) source))"

definition scan_smtp_starttls :: "net \<Rightarrow> target \<Rightarrow> fault + candidate list" where
  "scan_smtp_starttls net t =
     rbind (nt_dialogue net (target_address t) (tg_port t) [''EHLO pqc-scan-worker.local'' @ crlf, ''STARTTLS'' @ crlf]) (\<lambda>(stream, shake).
       case recv 512 stream of (greeting, stream1) \<Rightarrow> rbind greeting (\<lambda>_.
       case recv 2048 stream1 of (offer, stream2) \<Rightarrow> rbind offer (\<lambda>response.
         if \<not> contains (upper response) ''STARTTLS'' then
           Inr [protocol_policy_candidate t ''SMTP'' ''SMTP without STARTTLS advertisement'']
         else (case recv 512 stream2 of (answer, stream3) \<Rightarrow> rbind answer (\<lambda>ready.
           if \<not> startswith ready ''220'' then Inr [protocol_policy_candidate t ''SMTP'' ''SMTP STARTTLS rejected'']
           else upgraded net t (Some (sni_label None t)) ''smtp'' ''smtp-starttls'' shake)))))"

definition scan_postgresql_tls :: "net \<Rightarrow> target \<Rightarrow> fault + candidate list" where
  "scan_postgresql_tls net t =
     rbind (nt_dialogue net (target_address t) (tg_port t) [be_bytes 4 8 @ be_bytes 4 POSTGRESQL_SSL_REQUEST_CODE]) (\<lambda>(stream, shake).
       rbind (fst (recv 1 stream)) (\<lambda>response.
         if response \<noteq> ''S'' then Inr [protocol_policy_candidate t ''PostgreSQL'' ''PostgreSQL TLS disabled'']
         else upgraded net t None ''postgres'' ''postgresql-tls'' shake))"

subsection \<open>SSH\<close>

definition SSH_KEY_TYPES :: string where
  "SSH_KEY_TYPES = ''rsa,ecdsa,ed25519''"

text \<open>The time-out of a scan: \<open>scan_network_target\<close> is called by the scan worker alone, with its default of 5.0
  seconds; \<open>ssh-keyscan\<close> gets it in whole seconds, at least 1.\<close>

definition TIMEOUT_SEC :: int where
  "TIMEOUT_SEC = 5"

definition ssh_keyscan_lines :: "net \<Rightarrow> target \<Rightarrow> fault + string list" where
  "ssh_keyscan_lines net t =
     rmap (\<lambda>(status, out). map strip (filter (\<lambda>line. strip line \<noteq> [] \<and> \<not> startswith line ''#'') (splitlines out)))
       (caught (1, []) (nt_command net
          [''ssh-keyscan'', ''-T'', str_int (max 1 TIMEOUT_SEC), ''-p'', str_int (tg_port t), ''-t'', SSH_KEY_TYPES, target_address t]))"

definition ssh_host_key_candidate :: "target \<Rightarrow> string \<Rightarrow> candidate option" where
  "ssh_host_key_candidate t line =
     (case split_white line of
        host # key_type # key # _ \<Rightarrow>
          (case b64decode key of None \<Rightarrow> None
           | Some blob \<Rightarrow>
               (case parse_ssh_public_key_blob key_type blob of None \<Rightarrow> None
                | Some (algorithm, family) \<Rightarrow>
                    Some (network_candidate t (''SSH host key '' @ algorithm) ''ssh_host_key'' algorithm family
                      (''ssh-host-key:'' @ ssh_fingerprint blob)
                      [(''scanner'', PStr ''network''), (''type'', PStr ''ssh_host_key''),
                       (''ssh_fingerprint'', PStr (ssh_fingerprint blob))])))
      | _ \<Rightarrow> None)"

definition ssh_policy_candidate :: "target \<Rightarrow> candidate" where
  "ssh_policy_candidate t =
     network_candidate t ''SSH protocol policy'' ''protocol'' ''SSH key exchange policy'' ''DH'' (''ssh-policy:'' @ place_ref t []) []"

definition scan_ssh :: "net \<Rightarrow> target \<Rightarrow> fault + candidate list" where
  "scan_ssh net t =
     rmap (\<lambda>lines.
         let candidates = concat (map (\<lambda>line. case ssh_host_key_candidate t line of None \<Rightarrow> [] | Some c \<Rightarrow> [c]) lines)
         in if candidates \<noteq> [] then candidates else [ssh_policy_candidate t])
       (ssh_keyscan_lines net t)"

subsection \<open>IKE\<close>

definition ike_packet :: "net \<Rightarrow> bool \<Rightarrow> string" where
  "ike_packet net natt = build_ike_sa_init natt (nt_random net 8) (nt_random net 256) (nt_random net 32)"

definition scan_ike :: "net \<Rightarrow> target \<Rightarrow> fault + candidate list" where
  "scan_ike net t =
     (let natt = (tg_port t = 4500); spi = nt_random net 8
      in case nt_datagram net (target_address t) (tg_port t) (ike_packet net natt) of
           Inl (Os e) \<Rightarrow> Inr [protocol_policy_candidate t ''IKE'' ''IKE no response'']
         | Inl e \<Rightarrow> Inl e
         | Inr response \<Rightarrow>
             (let offset = answer_offset response; candidates = parse_ike_response_candidates t response
              in if length response < offset + 28 \<or> take 8 (drop offset response) \<noteq> spi
                 then Inr [protocol_policy_candidate t ''IKE'' ''IKE response mismatch'']
                 else Inr (if candidates \<noteq> [] then candidates else [protocol_policy_candidate t ''IKE'' ''IKE proposal unparsed''])))"

section \<open>The choice of the scanner\<close>

text \<open>Any exception of a scanner leads to the next one.\<close>

definition scan_unknown :: "nat \<Rightarrow> net \<Rightarrow> db \<Rightarrow> target \<Rightarrow> (fault + candidate list) option" where
  "scan_unknown fuel net d t =
     (case scan_tls fuel net d t of
        None \<Rightarrow> None
      | Some (Inr (c # cs)) \<Rightarrow> Some (Inr (c # cs))
      | _ \<Rightarrow> Some (Inr (case scan_ssh net t of Inr (c # cs) \<Rightarrow> c # cs | _ \<Rightarrow> [tcp_fallback_candidate t])))"

definition scan_network_target :: "nat \<Rightarrow> net \<Rightarrow> db \<Rightarrow> target \<Rightarrow> (fault + candidate list) option" where
  "scan_network_target fuel net d t =
     (let hint = upper (or_str (tg_protocol_hint t) ''UNKNOWN'')
      in if tg_transport t = ''UDP'' \<and> hint = ''IKE'' then Some (scan_ike net t)
         else if hint = ''SSH'' \<or> tg_port t \<in> {22, 2222} then Some (scan_ssh net t)
         else if hint = ''SMTP'' \<and> tg_port t \<in> set SMTP_STARTTLS_PORTS then Some (scan_smtp_starttls net t)
         else if tg_port t = 5432 then Some (scan_postgresql_tls net t)
         else if hint \<in> set [''TLS'', ''SMTP'', ''IMAP'', ''POP3''] \<or> tg_port t \<in> set TLS_DIRECT_PORTS then scan_tls fuel net d t
         else if hint = ''UNKNOWN'' then scan_unknown fuel net d t
         else Some (Inr [tcp_fallback_candidate t]))"

end
