(* ===== verification/Sni_Chase.thy ===== *)
theory Sni_Chase
  imports Network_Scanner
begin

text \<open>
  The names a TLS scan follows: the name of the target, the aliases other targets give it and the names in the certificates
  it meets.  Each is probed once; when the names are finitely many the scan ends, after one probe more than there are names;
  a server that answers each name with a certificate for a new one keeps it for ever.
\<close>

section \<open>A network that does not answer\<close>

definition silent_net :: net where
  "silent_net =
     \<lparr>nt_env = (\<lambda>k. None), nt_resolve = (\<lambda>h. Inl (Os ''not found'')), nt_tls = (\<lambda>a p s. Inl (Os ''refused'')), nt_ciphers = None,
      nt_set_ciphers = (\<lambda>c. False), nt_tls12 = (\<lambda>a p s c. Inl (Os ''refused'')), nt_command = (\<lambda>c. Inl (Os ''no command'')),
      nt_pem_to_der = (\<lambda>s. Inl (Os ''no command'')), nt_certificate_text = (\<lambda>s. Inl (Os ''no command'')),
      nt_connect = (\<lambda>b a p s. Inl (Os ''refused'')), nt_dialogue = (\<lambda>a p ls. Inl (Os ''refused'')),
      nt_datagram = (\<lambda>a p s. Inl (Os ''timed out'')), nt_random = (\<lambda>n. replicate n CHR ''r''), nt_unescape = (\<lambda>s. s)\<rparr>"

section \<open>Pending names\<close>

lemma add_pending_names:
  "\<exists>new. add_pending seen names pending = pending @ map Some new \<and> distinct new \<and>
     set new = set names - set seen - {n. Some n \<in> set pending}"
proof (induction names arbitrary: pending)
  case Nil
  show ?case by (intro exI [of _ "[]"]) (simp add: add_pending_def)
next
  case (Cons n names)
  show ?case
  proof (cases "n \<notin> set seen \<and> Some n \<notin> set pending")
    case True
    obtain new where new: "add_pending seen names (pending @ [Some n]) = (pending @ [Some n]) @ map Some new" "distinct new"
      "set new = set names - set seen - {m. Some m \<in> set (pending @ [Some n])}" using Cons.IH by blast
    have "add_pending seen (n # names) pending = pending @ map Some (n # new)" using True new(1) by (simp add: add_pending_def)
    moreover have "distinct (n # new)" "set (n # new) = set (n # names) - set seen - {m. Some m \<in> set pending}"
      using new(2,3) True by auto
    ultimately show ?thesis by blast
  next
    case False
    obtain new where "add_pending seen names pending = pending @ map Some new" "distinct new"
      "set new = set names - set seen - {m. Some m \<in> set pending}" using Cons.IH by blast
    moreover have "add_pending seen (n # names) pending = add_pending seen names pending" using False by (auto simp: add_pending_def)
    ultimately show ?thesis using False by (intro exI [of _ new]) auto
  qed
qed

text \<open>What a name adds when it is scanned.\<close>

definition names_of :: "net \<Rightarrow> target \<Rightarrow> string option \<Rightarrow> fault + string list" where
  "names_of net t sni = rbind (tls_probe net t sni) (\<lambda>r. subject_alt_names_from_chain net (tr_chain r))"

definition candidates_of :: "net \<Rightarrow> target \<Rightarrow> string option \<Rightarrow> fault + candidate list" where
  "candidates_of net t sni = rbind (tls_probe net t sni) (\<lambda>r. tls_candidates_from_result net t r ''tls'')"

lemma scan_name_parts:
  assumes "scan_name net d t sni seen pending = Inr (cs, pending')"
  obtains names aliases new where "candidates_of net t sni = Inr cs" "names_of net t sni = Inr names" "known_sni_aliases net d t = Inr aliases"
    "pending' = pending @ map Some new" "distinct new" "set new = (set names \<union> set aliases) - set seen - {n. Some n \<in> set pending}"
proof -
  obtain r names aliases where r: "tls_probe net t sni = Inr r" "tls_candidates_from_result net t r ''tls'' = Inr cs"
    "subject_alt_names_from_chain net (tr_chain r) = Inr names" "known_sni_aliases net d t = Inr aliases"
    "pending' = add_pending seen aliases (add_pending seen names pending)"
    using assms by (auto simp: scan_name_def rbind_Inr_iff)
  obtain new1 where new1: "add_pending seen names pending = pending @ map Some new1" "distinct new1"
    "set new1 = set names - set seen - {n. Some n \<in> set pending}" using add_pending_names by blast
  obtain new2 where new2: "add_pending seen aliases (pending @ map Some new1) = (pending @ map Some new1) @ map Some new2" "distinct new2"
    "set new2 = set aliases - set seen - {n. Some n \<in> set (pending @ map Some new1)}" using add_pending_names by blast
  show ?thesis
  proof (rule that [of names aliases "new1 @ new2"])
    show "candidates_of net t sni = Inr cs" "names_of net t sni = Inr names" by (simp_all add: candidates_of_def names_of_def r)
    show "pending' = pending @ map Some (new1 @ new2)" using r(5) new1(1) new2(1) by simp
    show "distinct (new1 @ new2)" using new1(2) new2(2,3) by auto
    show "set (new1 @ new2) = (set names \<union> set aliases) - set seen - {n. Some n \<in> set pending}" using new1(3) new2(3) by auto
  qed (fact r)
qed

section \<open>The scan ends\<close>

text \<open>All names that can come up are among \<open>names\<close>.\<close>

definition names_within :: "net \<Rightarrow> db \<Rightarrow> target \<Rightarrow> string list \<Rightarrow> bool" where
  "names_within net d t names =
     ((\<forall>sni ns. names_of net t sni = Inr ns \<longrightarrow> set ns \<subseteq> set names) \<and>
      (\<forall>ns. known_sni_aliases net d t = Inr ns \<longrightarrow> set ns \<subseteq> set names))"

definition open_names :: "string list \<Rightarrow> string list \<Rightarrow> string option list \<Rightarrow> string set" where
  "open_names names seen pending = set names - set seen - {n. Some n \<in> set pending}"

lemma finite_open [simp]: "finite (open_names names seen pending)"
  by (simp add: open_names_def)

lemma key_of_name: "sni = Some n \<Longrightarrow> or_text sni [] = n"
  by (simp add: or_text_def or_str_def)

lemma open_skip: "or_text sni [] \<in> set seen \<Longrightarrow> open_names names seen pending = open_names names seen (sni # pending)"
  using key_of_name by (auto simp: open_names_def)

lemma open_step:
  assumes "or_text sni [] \<notin> set seen" "distinct new" "set new \<subseteq> open_names names (or_text sni [] # seen) pending"
  shows "length new + card (open_names names (or_text sni [] # seen) (pending @ map Some new)) \<le> card (open_names names seen (sni # pending))"
proof -
  let ?left = "open_names names (or_text sni [] # seen) (pending @ map Some new)"
  have "?left \<union> set new \<subseteq> open_names names seen (sni # pending)"
    using assms(3) key_of_name [of sni] by (auto simp: open_names_def)
  then have "card (?left \<union> set new) \<le> card (open_names names seen (sni # pending))" by (simp add: card_mono)
  moreover have "?left \<inter> set new = {}" by (auto simp: open_names_def)
  then have "card (?left \<union> set new) = card ?left + length new" using assms(2) by (simp add: card_Un_disjoint distinct_card)
  ultimately show ?thesis by simp
qed

lemma loop_ends:
  assumes within: "names_within net d t names"
  shows "length pending + card (open_names names seen pending) \<le> fuel \<Longrightarrow> scan_tls_loop fuel net d t pending seen found \<noteq> None"
proof (induction fuel arbitrary: pending seen found)
  case (Suc fuel)
  show ?case
  proof (cases pending)
    case (Cons sni rest)
    let ?key = "or_text sni []"
    show ?thesis
    proof (cases "?key \<in> set seen")
      case True
      have "length rest + card (open_names names seen rest) \<le> fuel" using Suc.prems Cons open_skip [OF True] by simp
      from Suc.IH [OF this] show ?thesis using Cons True by simp
    next
      case False
      show ?thesis
      proof (cases "scan_name net d t sni (?key # seen) rest")
        case (Inr p)
        then obtain cs pending' where p: "scan_name net d t sni (?key # seen) rest = Inr (cs, pending')" by (cases p) auto
        then obtain ns aliases new where ns: "names_of net t sni = Inr ns" "known_sni_aliases net d t = Inr aliases"
          "pending' = rest @ map Some new" "distinct new" "set new = (set ns \<union> set aliases) - set (?key # seen) - {n. Some n \<in> set rest}"
          by (rule scan_name_parts)
        have "set new \<subseteq> open_names names (?key # seen) rest"
          using ns within unfolding names_within_def open_names_def by blast
        from open_step [OF False ns(4) this]
        have "length pending' + card (open_names names (?key # seen) pending') \<le> fuel" using Suc.prems Cons ns(3) by simp
        from Suc.IH [OF this] show ?thesis using Cons False p by (simp add: Let_def)
      qed (use Cons False in \<open>simp add: Let_def\<close>)
    qed
  qed simp
qed simp

text \<open>More fuel gives the same result.\<close>

lemma loop_more:
  "scan_tls_loop fuel net d t pending seen found = Some r \<Longrightarrow> fuel \<le> fuel' \<Longrightarrow> scan_tls_loop fuel' net d t pending seen found = Some r"
proof (induction fuel net d t pending seen found arbitrary: fuel' rule: scan_tls_loop.induct)
  case (3 fuel net d t sni pending seen found)
  then obtain k where k: "fuel' = Suc k" "fuel \<le> k" by (cases fuel') auto
  then show ?case using 3 by (auto simp: Let_def split: if_splits sum.splits prod.splits)
qed auto

lemma aliases_at_distinct: "aliases_at net a xs found = Inr ns \<Longrightarrow> distinct found \<Longrightarrow> distinct ns"
proof (induction xs arbitrary: found)
  case (Cons x xs)
  let ?shown = "or_text (tg_sni x) (tg_host x)"
  have "distinct (if other = a \<and> ?shown \<notin> set found then found @ [?shown] else found)" for other using Cons.prems(2) by simp
  with Cons show ?case by (auto simp: Let_def rbind_Inr_iff simp del: if_split split: if_splits)
qed simp

lemma known_aliases_distinct: "known_sni_aliases net d t = Inr ns \<Longrightarrow> distinct ns"
  by (auto simp: known_sni_aliases_def rbind_Inr_iff dest: aliases_at_distinct split: if_splits)

text \<open>C34. When the names that can come up are finitely many, a TLS scan returns, a result or an error, after at most one probe
  more than there are names: whatever certificates the server shows, no name is probed twice.  The result does not
  depend on the fuel that is left.\<close>

theorem tls_scan_ends:
  assumes "names_within net d t names" "Suc (length names) \<le> fuel"
  shows "scan_tls fuel net d t \<noteq> None \<and> scan_tls fuel net d t = scan_tls (Suc (length names)) net d t"
proof (cases "initial_sni_names net d t")
  case (Inr pending)
  then obtain primary aliases where p: "known_sni_aliases net d t = Inr aliases"
    "pending = primary # map Some (filter (\<lambda>a. Some a \<noteq> primary) aliases)"
    by (auto simp: initial_sni_names_def Let_def rmap_def rbind_Inr_iff)
  let ?more = "filter (\<lambda>a. Some a \<noteq> primary) aliases"
  have "set ?more \<subseteq> set names" "distinct ?more" using assms(1) p(1) known_aliases_distinct [OF p(1)] by (auto simp: names_within_def)
  moreover from this have "open_names names [] pending \<subseteq> set names - set ?more" using p(2) by (auto simp: open_names_def)
  then have "card (open_names names [] pending) \<le> card (set names - set ?more)" by (simp add: card_mono)
  ultimately have "length ?more + card (open_names names [] pending) \<le> card (set names)"
    by (metis (no_types, lifting) List.finite_set add_left_mono card_Diff_subset card_mono distinct_card le_add_diff_inverse)
  then have "length pending + card (open_names names [] pending) \<le> Suc (length names)"
    using p(2) card_length [of names] by simp
  from loop_ends [OF assms(1) this] obtain r where "scan_tls_loop (Suc (length names)) net d t pending [] [] = Some r" by blast
  with loop_more [OF this assms(2)] show ?thesis by (simp add: scan_tls_def Inr del: scan_tls_loop.simps)
qed (simp add: scan_tls_def)

theorem tls_scan_ends_witness:
  "scan_tls 5 (silent_net\<lparr>nt_tls := (\<lambda>a p s. Inr \<lparr>hs_der = None, hs_version = Some ''TLSv1.3'', hs_cipher = None, hs_alpn = None\<rparr>)\<rparr>)
     empty_db sample_target \<noteq> None"
proof -
  let ?net = "silent_net\<lparr>nt_tls := (\<lambda>a p s. Inr \<lparr>hs_der = None, hs_version = Some ''TLSv1.3'', hs_cipher = None, hs_alpn = None\<rparr>)\<rparr>"
  have "names_of ?net sample_target sni = Inr ns \<Longrightarrow> ns = []" for sni ns
    by (auto simp: names_of_def tls_probe_def rbind_Inr_iff openssl_certificate_chain_def rmap_def caught_def silent_net_def
        extract_pem_certificates_def find_all.simps chain_or_peer_def or_text_def subject_alt_names_from_chain_def)
  moreover have "known_sni_aliases ?net empty_db sample_target = Inr ns \<Longrightarrow> ns = []" for ns
    by (auto simp: known_sni_aliases_def rbind_Inr_iff empty_db_def split: if_splits)
  ultimately have "names_within ?net empty_db sample_target []" by (auto simp: names_within_def)
  from tls_scan_ends [OF this, of 5, THEN conjunct1] show ?thesis by simp
qed

section \<open>Every name is scanned\<close>

definition canonical :: "string option \<Rightarrow> bool" where
  "canonical sni = (sni \<noteq> Some [])"

text \<open>The names of a scan are closed: the names in the certificate of one of them, and the aliases, are among them.\<close>

definition listed_in :: "string option list \<Rightarrow> fault + string list \<Rightarrow> bool" where
  "listed_in snis r = (case r of Inl e \<Rightarrow> False | Inr names \<Rightarrow> list_all (\<lambda>n. Some n \<in> set snis) names)"

definition names_closed :: "net \<Rightarrow> db \<Rightarrow> target \<Rightarrow> string option list \<Rightarrow> bool" where
  "names_closed net d t snis =
     (list_all (\<lambda>sni. listed_in snis (names_of net t sni)) snis \<and> listed_in snis (known_sni_aliases net d t))"

definition keys :: "string option list \<Rightarrow> string list" where
  "keys snis = map (\<lambda>sni. or_text sni []) snis"

lemma canonical_key: "canonical a \<Longrightarrow> canonical b \<Longrightarrow> or_text a [] = or_text b [] \<Longrightarrow> a = b"
  by (cases a; cases b) (auto simp: canonical_def or_text_def or_str_def split: if_splits)

lemma name_of_key: "m = or_text b [] \<Longrightarrow> m \<noteq> [] \<Longrightarrow> b = Some m"
  by (cases b) (auto simp: or_text_def or_str_def split: if_splits)

lemma is_hostname_nonempty: "is_hostname v \<Longrightarrow> v \<noteq> []"
  by (simp add: is_hostname_def)

lemma aliases_hostnames: "aliases_at net a xs found = Inr ns \<Longrightarrow> list_all is_hostname found \<Longrightarrow> list_all is_hostname ns"
proof (induction xs arbitrary: found)
  case (Cons x xs)
  let ?shown = "or_text (tg_sni x) (tg_host x)"
  show ?case
  proof (cases "is_hostname ?shown")
    case True
    have "list_all is_hostname (if other = a \<and> ?shown \<notin> set found then found @ [?shown] else found)" for other
      using Cons.prems(2) True by simp
    with Cons True show ?thesis by (auto simp: Let_def rbind_Inr_iff simp del: if_split split: if_splits)
  qed (use Cons in \<open>simp add: Let_def\<close>)
qed simp

lemma known_hostnames: "known_sni_aliases net d t = Inr ns \<Longrightarrow> list_all is_hostname ns"
  by (auto simp: known_sni_aliases_def rbind_Inr_iff dest: aliases_hostnames split: if_splits)

lemma chain_hostnames: "subject_alt_names_from_chain net chain = Inr ns \<Longrightarrow> list_all is_hostname ns"
  by (cases chain) (auto simp: subject_alt_names_from_chain_def rmap_def rbind_Inr_iff list_all_iff)

lemma names_of_hostnames: "names_of net t sni = Inr ns \<Longrightarrow> list_all is_hostname ns"
  by (auto simp: names_of_def rbind_Inr_iff chain_hostnames)

text \<open>What is known in a round: \<open>past\<close> are the names that were scanned.\<close>

definition round_ok :: "net \<Rightarrow> db \<Rightarrow> target \<Rightarrow> string option list \<Rightarrow> string option list \<Rightarrow> string list \<Rightarrow> candidate list \<Rightarrow> bool" where
  "round_ok net d t past pending seen found =
     (set seen = set (keys past) \<and> distinct past \<and> list_all canonical (past @ pending) \<and>
      rmap concat (rmapM (candidates_of net t) past) = Inr found \<and>
      list_all (\<lambda>sni. listed_in (past @ pending) (names_of net t sni)) past \<and>
      (past = [] \<or> listed_in (past @ pending) (known_sni_aliases net d t)))"

lemma listed_mono: "listed_in xs r \<Longrightarrow> set xs \<subseteq> set ys \<Longrightarrow> listed_in ys r"
  by (auto simp: listed_in_def list_all_iff split: sum.splits)

lemma rmapM_snoc: "rmapM f (xs @ [x]) = rbind (rmapM f xs) (\<lambda>ys. rbind (f x) (\<lambda>y. Inr (ys @ [y])))"
proof (induction xs)
  case Nil
  show ?case by (cases "f x") simp_all
next
  case (Cons a xs)
  then show ?case by (cases "f a"; cases "rmapM f xs"; cases "f x") simp_all
qed

lemma round_skip:
  assumes "round_ok net d t past (sni # pending) seen found" "or_text sni [] \<in> set seen"
  shows "round_ok net d t past pending seen found \<and> sni \<in> set past"
proof -
  obtain b where b: "b \<in> set past" "or_text sni [] = or_text b []" using assms by (auto simp: round_ok_def keys_def)
  moreover have "canonical sni" "canonical b" using assms(1) b(1) by (auto simp: round_ok_def list_all_iff)
  ultimately have "sni \<in> set past" using canonical_key by metis
  then have "set (past @ sni # pending) \<subseteq> set (past @ pending)" by auto
  from listed_mono [OF _ this] show ?thesis using assms(1) \<open>sni \<in> set past\<close> unfolding round_ok_def
    by (auto simp: list_all_iff)
qed

lemma round_step:
  assumes round: "round_ok net d t past (sni # pending) seen found" and fresh: "or_text sni [] \<notin> set seen"
    and scan: "scan_name net d t sni (or_text sni [] # seen) pending = Inr (cs, pending')"
  shows "round_ok net d t (past @ [sni]) pending' (or_text sni [] # seen) (found @ cs) \<and> set pending \<subseteq> set pending'"
proof -
  obtain names aliases new where n: "candidates_of net t sni = Inr cs" "names_of net t sni = Inr names" "known_sni_aliases net d t = Inr aliases"
    "pending' = pending @ map Some new" "set new = (set names \<union> set aliases) - set (or_text sni [] # seen) - {n. Some n \<in> set pending}"
    using scan by (rule scan_name_parts)
  have host: "list_all is_hostname names" "list_all is_hostname aliases" using n(2,3) names_of_hostnames known_hostnames by auto
  then have new: "[] \<notin> set new" using n(5) is_hostname_nonempty by (auto simp: list_all_iff)
  have can: "list_all canonical past" "canonical sni" "list_all canonical pending" using round by (simp_all add: round_ok_def)
  have in_past: "Some m \<in> set (past @ [sni])" if m: "m \<noteq> []" "m \<in> set (or_text sni [] # seen)" for m
  proof -
    obtain b where b: "b \<in> set (past @ [sni])" "m = or_text b []" using m(2) round by (auto simp: round_ok_def keys_def)
    have "b = Some m" by (rule name_of_key [OF b(2) m(1)])
    then show ?thesis using b(1) by blast
  qed
  have all: "Some m \<in> set ((past @ [sni]) @ pending')" if m: "m \<in> set names \<union> set aliases" for m
  proof -
    have "m \<noteq> []" using m host is_hostname_nonempty by (auto simp: list_all_iff)
    then show ?thesis using in_past [of m] m n(4,5) by auto
  qed
  have old: "set (past @ sni # pending) \<subseteq> set ((past @ [sni]) @ pending')" using n(4) by auto
  have "sni \<notin> set past" using fresh round by (auto simp: round_ok_def keys_def)
  moreover have "rmap concat (rmapM (candidates_of net t) (past @ [sni])) = Inr (found @ cs)"
    using round n(1) by (auto simp: round_ok_def rmapM_snoc rmap_def rbind_Inr_iff)
  moreover have "list_all (\<lambda>s. listed_in ((past @ [sni]) @ pending') (names_of net t s)) (past @ [sni])"
  proof -
    define all_names where "all_names = (past @ [sni]) @ pending'"
    have "\<forall>x\<in>set past. listed_in all_names (names_of net t x)"
      using round listed_mono [OF _ old] unfolding round_ok_def list_all_iff all_names_def by blast
    moreover have "listed_in all_names (names_of net t sni)"
      unfolding n(2) all_names_def using all by (simp add: listed_in_def list_all_iff)
    ultimately have "list_all (\<lambda>s. listed_in all_names (names_of net t s)) (past @ [sni])" by (simp add: list_all_iff)
    then show ?thesis unfolding all_names_def .
  qed
  moreover have "listed_in ((past @ [sni]) @ pending') (known_sni_aliases net d t)"
    unfolding n(3) using all by (simp add: listed_in_def list_all_iff)
  moreover have "list_all canonical ((past @ [sni]) @ pending')"
    using can new n(4) by (auto simp: list_all_iff canonical_def)
  moreover have "set (or_text sni [] # seen) = set (keys (past @ [sni]))" using round by (auto simp: round_ok_def keys_def)
  moreover have "distinct past" using round by (simp add: round_ok_def)
  moreover have "set pending \<subseteq> set pending'" using n(4) by simp
  ultimately show ?thesis unfolding round_ok_def by (simp del: append_assoc)
qed

lemma loop_covers:
  "scan_tls_loop fuel net d t pending seen found = Some (Inr cs) \<Longrightarrow> round_ok net d t past pending seen found \<Longrightarrow>
   \<exists>snis. set (past @ pending) \<subseteq> set snis \<and> distinct snis \<and> rmap concat (rmapM (candidates_of net t) snis) = Inr cs \<and>
     (snis = [] \<or> names_closed net d t snis)"
proof (induction fuel arbitrary: past pending seen found)
  case 0
  then show ?case
    by (cases pending) (auto simp: round_ok_def names_closed_def intro!: exI [of _ past])
next
  case (Suc fuel)
  show ?case
  proof (cases pending)
    case Nil
    then show ?thesis using Suc.prems by (auto simp: round_ok_def names_closed_def intro!: exI [of _ past])
  next
    case (Cons sni rest)
    show ?thesis
    proof (cases "or_text sni [] \<in> set seen")
      case True
      then have "scan_tls_loop fuel net d t rest seen found = Some (Inr cs)" using Suc.prems(1) Cons by simp
      moreover have "round_ok net d t past rest seen found" "sni \<in> set past" using round_skip Suc.prems(2) Cons True by auto
      moreover from this have "set (past @ pending) = set (past @ rest)" using Cons by auto
      ultimately show ?thesis using Suc.IH by simp
    next
      case False
      then obtain new pending' where s: "scan_name net d t sni (or_text sni [] # seen) rest = Inr (new, pending')"
        "scan_tls_loop fuel net d t pending' (or_text sni [] # seen) (found @ new) = Some (Inr cs)"
        using Suc.prems(1) Cons by (auto simp: Let_def split: sum.splits prod.splits)
      from round_step [OF _ False s(1)] Suc.prems(2) Cons
      have "round_ok net d t (past @ [sni]) pending' (or_text sni [] # seen) (found @ new)" "set rest \<subseteq> set pending'" by auto
      from Suc.IH [OF s(2) this(1)] this(2) Cons show ?thesis by fastforce
    qed
  qed
qed

lemma initial_canonical: "initial_sni_names net d t = Inr pending \<Longrightarrow> list_all canonical pending \<and> pending \<noteq> []"
proof -
  assume "initial_sni_names net d t = Inr pending"
  then obtain primary aliases where p: "known_sni_aliases net d t = Inr aliases"
    "pending = primary # map Some (filter (\<lambda>a. Some a \<noteq> primary) aliases)"
    "primary = (if or_text (tg_sni t) [] \<noteq> [] then tg_sni t else if is_hostname (tg_host t) then Some (tg_host t) else None)"
    by (auto simp: initial_sni_names_def Let_def rmap_def rbind_Inr_iff)
  have "canonical primary" unfolding p(3) by (auto simp: canonical_def or_text_def or_str_def is_hostname_def)
  moreover have "list_all canonical (map Some aliases)"
    using known_hostnames [OF p(1)] is_hostname_nonempty by (auto simp: list_all_iff canonical_def)
  ultimately show ?thesis using p(2) by (auto simp: list_all_iff)
qed

text \<open>C35. A TLS scan that returns candidates has scanned every name it met: there is a list of names without repetition that
  holds those the scan starts with, every alias, and every host name in the certificate of a name of the list, and the
  result is the candidates of these names, one after the other.  One name that fails, the last one of a certificate
  say, is enough for the scan to return no candidates at all.\<close>

theorem tls_scan_covers_names:
  "case scan_tls fuel net d t of
     Some (Inr cs) \<Rightarrow>
       (\<exists>snis. (case initial_sni_names net d t of Inl e \<Rightarrow> False | Inr first \<Rightarrow> set first \<subseteq> set snis) \<and> distinct snis \<and>
         names_closed net d t snis \<and> rmap concat (rmapM (candidates_of net t) snis) = Inr cs)
   | _ \<Rightarrow> True"
proof -
  have "\<exists>snis. (case initial_sni_names net d t of Inl e \<Rightarrow> False | Inr first \<Rightarrow> set first \<subseteq> set snis) \<and> distinct snis \<and>
         names_closed net d t snis \<and> rmap concat (rmapM (candidates_of net t) snis) = Inr cs"
    if scan: "scan_tls fuel net d t = Some (Inr cs)" for cs
  proof -
    obtain first where first: "initial_sni_names net d t = Inr first" "scan_tls_loop fuel net d t first [] [] = Some (Inr cs)"
      using scan by (auto simp: scan_tls_def split: sum.splits)
    have "round_ok net d t [] first [] []" using initial_canonical [OF first(1)] by (simp add: round_ok_def keys_def rmap_def)
    from loop_covers [OF first(2) this] obtain snis where
      "set first \<subseteq> set snis" "distinct snis" "rmap concat (rmapM (candidates_of net t) snis) = Inr cs"
      "snis = [] \<or> names_closed net d t snis" by auto
    moreover from this have "snis \<noteq> []" using initial_canonical [OF first(1)] by auto
    ultimately show ?thesis using first(1) by auto
  qed
  then show ?thesis by (auto split: option.split sum.split)
qed

section \<open>A server that keeps the scan going\<close>

text \<open>The server counts: its names are labels of 60 letters, \<open>a\<close> for a zero bit and \<open>b\<close> for a one, and it answers
  the name of a number with a certificate for the name of the next number.  Sixty letters are within the 63 a
  label of a host name may have, which \<open>wrap_socket\<close> checks when it encodes \<open>server_hostname\<close>.\<close>

definition name_at :: "nat \<Rightarrow> string" where
  "name_at k = map (\<lambda>i. if bit k i then CHR ''b'' else CHR ''a'') [0..<60]"

definition number_of_name :: "string \<Rightarrow> nat" where
  "number_of_name w = horner_sum of_bool 2 (map (\<lambda>c. c = CHR ''b'') w)"

definition next_name :: "string option \<Rightarrow> string" where
  "next_name sni =
     (let w = or_text sni [] in if length w = 60 then name_at (number_of_name w + 1) else name_at 0)"

definition chasing_net :: net where
  "chasing_net = silent_net
     \<lparr>nt_tls := (\<lambda>a p sni. Inr \<lparr>hs_der = Some (next_name sni), hs_version = None, hs_cipher = None, hs_alpn = None\<rparr>),
      nt_certificate_text := (\<lambda>der. Inr (''DNS:'' @ der))\<rparr>"

definition plain :: "string \<Rightarrow> bool" where
  "plain w = (w \<noteq> [] \<and> list_all (\<lambda>c. c \<in> set ''aweb'') w)"

lemma plain_no: "plain w \<Longrightarrow> c \<notin> set ''aweb'' \<Longrightarrow> c \<notin> set w"
  by (auto simp: plain_def list_all_iff)

lemma plain_hostname: "plain w \<Longrightarrow> is_hostname w"
proof -
  assume w: "plain w"
  have "parse_ipv4 w = None" using split_on_no [OF plain_no [OF w, of "CHR ''.''"]] by (simp add: parse_ipv4_def split: option.split)
  moreover have cut: "dropWhile (\<lambda>c. c \<noteq> CHR ''%'') w = []" "takeWhile (\<lambda>c. c \<noteq> CHR ''%'') w = w"
    using plain_no [OF w, of "CHR ''%''"] by (auto simp: dropWhile_eq_Nil_conv takeWhile_eq_all_conv)
  moreover have "parse_ipv6_int w = None" using split_on_no [OF plain_no [OF w, of "CHR '':''"]] by (simp add: parse_ipv6_int_def)
  ultimately show ?thesis using w by (simp add: is_hostname_def ip_address_def parse_ipv6_def plain_def Let_def cut)
qed

lemma plain_chars: "list_all (\<lambda>c. name_char c \<and> char_lower c = c) ''aweb''"
  by code_simp

lemma plain_listed: "plain w \<Longrightarrow> parse_subject_alt_names (''DNS:'' @ w) = [w]"
proof -
  assume w: "plain w"
  have c: "name_char x" "char_lower x = x" if "x \<in> set w" for x
    using plain_chars w that by (auto simp: plain_def list_all_iff simp del: set_simps)
  have all: "takeWhile name_char w = w" using c(1) by (simp add: takeWhile_eq_all_conv)
  have pos: "Suc 0 \<le> length w" using w by (cases w) (simp_all add: plain_def)
  have first: "\<exists>more. runs dns_pattern (''DNS:'' @ w) = ([], Some w) # more"
    using pos by (simp add: dns_pattern_def literal_def same_text_def counts_def later_def all)
  then have "find_all dns_pattern (''DNS:'' @ w) = [w]"
    by (subst find_all.simps) (auto simp: find_all.simps [of _ "[]"])
  moreover have "rstrip_if (\<lambda>c. c = CHR ''.'') w = w"
    using plain_no [OF w, of "CHR ''.''"] by (cases w rule: rev_cases) (auto simp: rstrip_if_def)
  moreover have "lower w = w" using c(2) by (simp add: lower_def map_idI)
  ultimately show ?thesis using w by (simp add: parse_subject_alt_names_def plain_def)
qed

lemma name_at_length [simp]: "length (name_at k) = 60"
  by (simp add: name_at_def)

lemma name_at_plain: "plain (name_at k)"
  by (auto simp: plain_def name_at_def list_all_iff)

lemma number_name_at: "number_of_name (name_at k) = take_bit 60 k"
proof -
  have "map (\<lambda>c. c = CHR ''b'') (name_at k) = map (bit k) [0..<60]" by (simp add: name_at_def)
  then show ?thesis by (simp add: number_of_name_def horner_sum_bit_eq_take_bit)
qed

lemma next_name_at: "k < 2 ^ 60 \<Longrightarrow> next_name (Some (name_at k)) = name_at (Suc k)"
  by (simp add: next_name_def or_text_def or_str_def number_name_at take_bit_nat_eq_self)

lemma name_at_inj:
  assumes "k < 2 ^ 60" and "l < 2 ^ 60" and "name_at k = name_at l"
  shows "k = l"
proof -
  have "take_bit 60 k = take_bit 60 l" using assms(3) by (simp flip: number_name_at)
  then show ?thesis using assms(1,2) by (simp add: take_bit_nat_eq_self)
qed

text \<open>One round: the name that is scanned gives the next one.\<close>

lemma plain_next: "plain (next_name sni)"
  by (simp add: next_name_def name_at_plain Let_def)

lemma next_nonempty: "next_name sni \<noteq> []"
  using plain_next [of sni] by (simp add: plain_def)

lemma chase_probe:
  shows "\<exists>r. tls_probe chasing_net sample_target sni = Inr r \<and> tr_chain r = [next_name sni]"
proof -
  have env: "nt_env chasing_net = (\<lambda>k. None)" "nt_command chasing_net = (\<lambda>c. Inl (Os ''no command''))"
    "nt_ciphers chasing_net = None" "nt_set_ciphers chasing_net = (\<lambda>c. False)" "nt_connect chasing_net = (\<lambda>b a p s. Inl (Os ''refused''))"
    by (simp_all add: chasing_net_def silent_net_def)
  have chain: "openssl_certificate_chain chasing_net sample_target sni [] = Inr []"
    by (simp add: openssl_certificate_chain_def env caught_def rmap_def extract_pem_certificates_def find_all.simps)
  have suites: "accepted_among chasing_net sample_target sni cs accepted = Inr accepted" for cs accepted
    by (induction cs) (simp_all add: probe_tls13_cipher_suite_def probe_tls12_cipher_suite_def env caught_def rmap_def)
  have pqc: "pqc_readiness_metadata chasing_net sample_target sni = Inr None"
    by (simp add: pqc_readiness_metadata_def env caught_def Let_def)
  show ?thesis
    by (simp add: tls_probe_def chain accepted_tls_cipher_suites_def suites pqc)
      (simp add: chasing_net_def chain_or_peer_def next_nonempty or_text_def or_str_def)
qed

lemma chase_round:
  assumes "next_name (Some n) \<notin> set seen"
  shows "\<exists>cs. scan_name chasing_net empty_db sample_target (Some n) seen [] = Inr (cs, [Some (next_name (Some n))])"
proof -
  let ?next = "next_name (Some n)"
  obtain r where r: "tls_probe chasing_net sample_target (Some n) = Inr r" "tr_chain r = [?next]" using chase_probe by blast
  have cert: "parse_certificate_der chasing_net ?next = Inr (parse_openssl_certificate_text (''DNS:'' @ ?next))"
    by (simp add: parse_certificate_der_def chasing_net_def next_nonempty)
  have names: "ce_names (parse_openssl_certificate_text (''DNS:'' @ ?next)) = [?next]"
    using plain_listed [OF plain_next]
    by (simp add: parse_openssl_certificate_text_def certificate_parse_result_def Let_def)
  have "subject_alt_names_from_chain chasing_net (tr_chain r) = Inr [?next]"
    by (simp add: subject_alt_names_from_chain_def r(2) cert rmap_def names [simplified] plain_hostname [OF plain_next])
  moreover have "\<exists>cs. tls_candidates_from_result chasing_net sample_target r ''tls'' = Inr cs"
    by (simp add: tls_candidates_from_result_def r(2) certificate_candidate_def cert rmap_def Let_def)
  moreover have "known_sni_aliases chasing_net empty_db sample_target = Inr []"
    by (simp add: known_sni_aliases_def resolve_address_def caught_def chasing_net_def silent_net_def empty_db_def)
  ultimately show ?thesis using assms r(1) by (auto simp: scan_name_def add_pending_def)
qed

lemma chase_step:
  assumes "n \<noteq> []" and "n \<notin> set seen" and "next_name (Some n) \<notin> set (n # seen)"
  shows "\<exists>cs. scan_tls_loop (Suc fuel) chasing_net empty_db sample_target [Some n] seen found
    = scan_tls_loop fuel chasing_net empty_db sample_target [Some (next_name (Some n))] (n # seen) (found @ cs)"
proof -
  have key: "or_text (Some n) [] = n" using assms(1) by (simp add: or_text_def or_str_def)
  obtain cs where "scan_name chasing_net empty_db sample_target (Some n) (n # seen) [] = Inr (cs, [Some (next_name (Some n))])"
    using chase_round [OF assms(3)] by blast
  then show ?thesis using assms(2) by (intro exI [of _ cs]) (simp add: Let_def key)
qed

lemma chase_loop:
  "k + fuel < 2 ^ 60 \<Longrightarrow> set seen \<subseteq> insert ''web'' (name_at ` {..<k}) \<Longrightarrow>
   scan_tls_loop fuel chasing_net empty_db sample_target [Some (name_at k)] seen found = None"
proof (induction fuel arbitrary: k seen found)
  case (Suc fuel)
  have k: "k < 2 ^ 60" "Suc k < 2 ^ 60" using Suc.prems(1) by simp_all
  have new: "name_at l \<notin> set seen" if "k \<le> l" "l < 2 ^ 60" for l
  proof
    assume "name_at l \<in> set seen"
    then consider "name_at l = ''web''" | m where "m < k" "name_at l = name_at m" using Suc.prems(2) by blast
    then show False
    proof cases
      case 1
      then have "length (name_at l) = length ''web''" by (rule arg_cong)
      then show False by (simp only: name_at_length) simp
    next
      case 2
      then show False using name_at_inj [OF that(2) _ 2(2)] that(1) k(1) by simp
    qed
  qed
  have "name_at (Suc k) \<noteq> name_at k" using name_at_inj [OF k(2,1)] by auto
  then have "next_name (Some (name_at k)) \<notin> set (name_at k # seen)"
    using new [of "Suc k"] k(2) by (simp add: next_name_at [OF k(1)])
  then obtain cs where step: "scan_tls_loop (Suc fuel) chasing_net empty_db sample_target [Some (name_at k)] seen found
      = scan_tls_loop fuel chasing_net empty_db sample_target [Some (next_name (Some (name_at k)))] (name_at k # seen) (found @ cs)"
    using chase_step [of "name_at k" seen fuel found] new [of k] k(1) name_at_plain [of k] by (auto simp: plain_def)
  have "set (name_at k # seen) \<subseteq> insert ''web'' (name_at ` {..<Suc k})"
    using Suc.prems(2) by (auto simp: lessThan_Suc)
  moreover have "Suc k + fuel < 2 ^ 60" using Suc.prems(1) by simp
  ultimately show ?case unfolding step next_name_at [OF k(1)] by (intro Suc.IH)
qed simp

text \<open>C36. Nothing but the supply of names bounds a TLS scan.  Against a server that answers each name it is asked for with
  a certificate for the next of its names, all of them host names of 60 letters, the scan has not ended after any
  number of rounds up to two to the sixty.\<close>

theorem tls_scan_may_not_end:
  assumes "fuel \<le> 2 ^ 60"
  shows "scan_tls fuel chasing_net empty_db sample_target = None
    \<and> length (next_name sni) = 60 \<and> is_hostname (next_name sni)"
proof -
  have web: "plain ''web''" by (simp add: plain_def)
  have first: "initial_sni_names chasing_net empty_db sample_target = Inr [Some ''web'']"
    using plain_hostname [OF web]
    by (simp add: initial_sni_names_def known_sni_aliases_def resolve_address_def caught_def chasing_net_def silent_net_def empty_db_def
        rmap_def sample_target_def or_text_def)
  have next_web: "next_name (Some ''web'') = name_at 0" by (simp add: next_name_def or_text_def or_str_def)
  have "scan_tls_loop fuel chasing_net empty_db sample_target [Some ''web''] [] [] = None"
  proof (cases fuel)
    case (Suc f)
    have "length (name_at 0) \<noteq> length ''web''" by (simp only: name_at_length) simp
    then have "name_at 0 \<noteq> ''web''" by (rule contrapos_nn) (rule arg_cong)
    then obtain cs where step: "scan_tls_loop (Suc f) chasing_net empty_db sample_target [Some ''web''] [] []
        = scan_tls_loop f chasing_net empty_db sample_target [Some (name_at 0)] [''web''] cs"
      using chase_step [of "''web''" "[]" f "[]"] by (auto simp: next_web)
    have "0 + f < 2 ^ 60" using assms Suc by simp
    then show ?thesis unfolding Suc step by (rule chase_loop) simp
  qed simp
  moreover have "length (next_name sni) = 60" by (simp add: next_name_def Let_def)
  ultimately show ?thesis using plain_hostname [OF plain_next] by (simp add: scan_tls_def first)
qed

theorem tls_scan_may_not_end_witness:
  "scan_tls (10 ^ 18) chasing_net empty_db sample_target = None
    \<and> length (next_name (Some ''web'')) = 60 \<and> is_hostname (next_name (Some ''web''))"
  by (rule tls_scan_may_not_end) simp

end
