(* ===== verification/Network_Facts.thy ===== *)
theory Network_Facts
  imports Sni_Chase
begin

text \<open>
  What a network scan reports: candidates of the target and nothing else; the keys and the transforms a server sends, in
  their order; the names a TLS scan follows, and when it ends.
\<close>

section \<open>Every candidate is one of the target\<close>

definition NETWORK_TYPES :: "string list" where
  "NETWORK_TYPES = [''certificate'', ''protocol'', ''key_agreement'', ''ssh_host_key'']"

definition network_ok :: "target \<Rightarrow> candidate \<Rightarrow> bool" where
  "network_ok t c =
     (c_target c = tg_id t \<and> c_scanner c = ''network'' \<and> c_type c \<in> set NETWORK_TYPES \<and> c_algorithm c \<noteq> [] \<and>
      startswith (c_bom_ref c) ''network:'' \<and> startswith (c_name c) (place t @ '' ''))"

lemma network_candidate_ok:
  "network_ok t (network_candidate t name ty algorithm family ref m) \<longleftrightarrow> ty \<in> set NETWORK_TYPES \<and> algorithm \<noteq> []"
  by (simp add: network_ok_def network_candidate_def startswith_def)

lemmas candidate_defs =
  certificate_candidate_def tls_version_candidate_def tls_cipher_candidate_def application_protocol_candidate_def
  protocol_policy_candidate_def tcp_fallback_candidate_def ssh_policy_candidate_def

lemma certificate_ok: "certificate_candidate net t der source sni i = Inr c \<Longrightarrow> network_ok t c"
  by (auto simp: certificate_candidate_def Let_def rmap_def rbind_Inr_iff network_candidate_ok NETWORK_TYPES_def or_str_def)

lemma simple_ok:
  "network_ok t (tls_version_candidate t r)" "network_ok t (tcp_fallback_candidate t)" "network_ok t (ssh_policy_candidate t)"
  "algorithm \<noteq> [] \<Longrightarrow> network_ok t (protocol_policy_candidate t protocol algorithm)"
  "algorithm \<noteq> [] \<Longrightarrow> network_ok t (application_protocol_candidate t protocol algorithm sni)"
  "suite \<noteq> [] \<Longrightarrow> network_ok t (tls_cipher_candidate t r suite)"
  by (simp_all add: candidate_defs Let_def network_candidate_ok NETWORK_TYPES_def or_str_def)

lemma readiness_ok: "list_all (network_ok t) (pqc_readiness_candidates t r)"
  by (simp add: pqc_readiness_candidates_def readiness_candidate_def Let_def network_candidate_ok NETWORK_TYPES_def split: option.split)

lemma add_new_nonempty: "x \<in> set (add_new [] xs) \<Longrightarrow> x \<noteq> []"
  by (simp add: set_add_new)

lemma tls_candidates_ok:
  assumes "tls_candidates_from_result net t r source = Inr cs"
  shows "list_all (network_ok t) cs"
proof -
  obtain certs where certs: "rmapM (\<lambda>(i, der). certificate_candidate net t der source (tr_sni r) i) (enumerate 0 (tr_chain r)) = Inr certs"
    and cs: "cs = certs @
         (if or_text (tr_version r) [] \<noteq> [] then [tls_version_candidate t r] else []) @
         map (tls_cipher_candidate t r) (add_new [] (or_text (tr_cipher r) [] # tr_suites r)) @
         pqc_readiness_candidates t r @
         (if or_text (tr_alpn r) [] \<noteq> []
          then [application_protocol_candidate t (upper (the (tr_alpn r))) (''ALPN '' @ the (tr_alpn r)) (tr_sni r)] else []) @
         (if tg_port t \<in> set MQTT_TLS_PORTS \<or> tr_alpn r = Some ''mqtt''
          then [application_protocol_candidate t ''MQTT'' ''MQTT over TLS'' (tr_sni r)] else [])"
    using assms unfolding tls_candidates_from_result_def rmap_def rbind_Inr_iff by blast
  have "list_all (network_ok t) certs"
    using rmapM_set [OF certs] certificate_ok by (fastforce simp: list_all_iff)
  moreover have "list_all (network_ok t) (map (tls_cipher_candidate t r) (add_new [] xs))" for xs
    using add_new_nonempty [of _ xs] by (auto simp: list_all_iff simple_ok)
  ultimately show ?thesis unfolding cs using readiness_ok [of t r] by (simp add: simple_ok del: add_new.simps)
qed

lemma upgraded_ok: "upgraded net t sni starttls source shake = Inr cs \<Longrightarrow> list_all (network_ok t) cs"
  by (auto simp: upgraded_def rbind_Inr_iff dest: tls_candidates_ok)

lemma smtp_ok: "scan_smtp_starttls net t = Inr cs \<Longrightarrow> list_all (network_ok t) cs"
  by (auto simp: scan_smtp_starttls_def rbind_Inr_iff simple_ok split_beta dest!: upgraded_ok split: if_splits)

lemma postgresql_ok: "scan_postgresql_tls net t = Inr cs \<Longrightarrow> list_all (network_ok t) cs"
  by (auto simp: scan_postgresql_tls_def rbind_Inr_iff simple_ok dest!: upgraded_ok split: prod.splits if_splits)

lemma ssh_blob_algorithm: "parse_ssh_public_key_blob k blob = Some (a, f) \<Longrightarrow> a \<noteq> []"
  by (auto simp: parse_ssh_public_key_blob_def split: option.splits if_splits prod.splits)

lemma host_key_ok: "ssh_host_key_candidate t line = Some c \<Longrightarrow> network_ok t c"
  by (auto simp: ssh_host_key_candidate_def network_candidate_ok NETWORK_TYPES_def dest: ssh_blob_algorithm split: list.splits option.splits)

lemma ssh_ok: "scan_ssh net t = Inr cs \<Longrightarrow> list_all (network_ok t) cs"
proof -
  have "list_all (network_ok t) (concat (map (\<lambda>line. case ssh_host_key_candidate t line of None \<Rightarrow> [] | Some c \<Rightarrow> [c]) lines))" for lines
    by (induction lines) (auto simp: host_key_ok split: option.splits)
  then show "scan_ssh net t = Inr cs \<Longrightarrow> ?thesis"
    by (auto simp: scan_ssh_def rmap_def rbind_Inr_iff Let_def simple_ok split: if_splits)
qed

lemma name_of_nonempty: "list_all (\<lambda>p. snd p \<noteq> []) table \<Longrightarrow> d \<noteq> [] \<Longrightarrow> name_of table k d \<noteq> []"
  by (auto simp: name_of_def list_all_iff split: option.splits dest!: map_of_SomeD)

lemma ike_algorithm_nonempty: "ike_algorithm ty ident attrs = Some a \<Longrightarrow> a \<noteq> []"
proof -
  have "name_of IKE_ENCRYPTION ident (''ENCR-'' @ x) \<noteq> []" "name_of IKE_PRF ident (''PRF-'' @ x) \<noteq> []"
    "name_of IKE_INTEGRITY ident (''INTEG-'' @ x) \<noteq> []" "name_of IKE_DH_GROUPS ident (''DH-GROUP-'' @ x) \<noteq> []" for x
    by (rule name_of_nonempty; simp add: IKE_ENCRYPTION_def IKE_PRF_def IKE_INTEGRITY_def IKE_DH_GROUPS_def)+
  then show "ike_algorithm ty ident attrs = Some a \<Longrightarrow> ?thesis"
    by (auto simp: ike_algorithm_def Let_def split: if_splits option.splits)
qed

lemma ike_candidate_ok: "ike_algorithm ty ident attrs = Some a \<Longrightarrow> network_ok t (ike_transform_candidate t i k ty ident a)"
  using ike_algorithm_nonempty by (auto simp: network_ok_def ike_transform_candidate_def NETWORK_TYPES_def startswith_def)

lemma transforms_ok: "list_all (network_ok t) (parse_transforms t i proposal cursor k)"
proof (induction t i proposal cursor k rule: parse_transforms.induct)
  case (1 t i proposal cursor k)
  then show ?case
    by (subst parse_transforms.simps) (auto simp: Let_def ike_candidate_ok split: option.splits)
qed

lemma proposals_ok: "list_all (network_ok t) (parse_proposals t body cursor k)"
proof (induction t body cursor k rule: parse_proposals.induct)
  case (1 t body cursor k)
  then show ?case by (subst parse_proposals.simps) (auto simp: Let_def transforms_ok)
qed

lemma payloads_ok: "list_all (network_ok t) (parse_payloads t response ty cursor)"
proof (induction t response ty cursor rule: parse_payloads.induct)
  case (1 t response ty cursor)
  then show ?case by (subst parse_payloads.simps) (auto simp: Let_def parse_ike_sa_candidates_def proposals_ok)
qed

lemma ike_ok: "scan_ike net t = Inr cs \<Longrightarrow> list_all (network_ok t) cs"
  using payloads_ok [of t]
  by (auto simp: scan_ike_def Let_def parse_ike_response_candidates_def simple_ok split: sum.splits fault.splits if_splits)

lemma tls_loop_ok:
  "scan_tls_loop fuel net d t pending seen found = Some (Inr cs) \<Longrightarrow> list_all (network_ok t) found \<Longrightarrow> list_all (network_ok t) cs"
proof (induction fuel net d t pending seen found rule: scan_tls_loop.induct)
  case (3 fuel net d t sni pending seen found)
  then show ?case
    by (auto simp: Let_def scan_name_def rbind_Inr_iff dest: tls_candidates_ok split: if_splits sum.splits prod.splits)
qed auto

lemma tls_ok: "scan_tls fuel net d t = Some (Inr cs) \<Longrightarrow> list_all (network_ok t) cs"
  by (auto simp: scan_tls_def dest: tls_loop_ok split: sum.splits)

lemma unknown_ok: "scan_unknown fuel net d t = Some (Inr cs) \<Longrightarrow> list_all (network_ok t) cs"
  by (auto simp: scan_unknown_def simple_ok dest!: tls_ok ssh_ok split: option.splits sum.splits list.splits)

text \<open>C31. Every candidate a network scan returns is one of the scanned target: its identifier, the network scanner, a type
  the assets know, an algorithm that is named, a reference and a name that begin as the scanner's do.  This holds for all
  the scanners and for whatever the peer sends.\<close>

theorem network_candidates_ok:
  "case scan_network_target fuel net d t of Some (Inr cs) \<Rightarrow> list_all (network_ok t) cs | _ \<Rightarrow> True"
proof -
  have "scan_network_target fuel net d t = Some (Inr cs) \<Longrightarrow> list_all (network_ok t) cs" for cs
    unfolding scan_network_target_def Let_def
    by (auto dest: ike_ok ssh_ok smtp_ok postgresql_ok tls_ok unknown_ok simp: simple_ok split: if_splits)
  then show ?thesis by (auto split: option.split sum.split)
qed

section \<open>Host keys\<close>

text \<open>A key of one of the kinds the scanner asks for, as a server sends it (RFC 4253, 5656, 8709).\<close>

datatype host_key = Rsa string string | Ecdsa string string | Ed25519 string

fun key_name :: "host_key \<Rightarrow> string" where
  "key_name (Rsa e n) = ''ssh-rsa''"
| "key_name (Ecdsa curve point) = ''ecdsa-sha2-'' @ curve"
| "key_name (Ed25519 point) = ''ssh-ed25519''"

fun key_blob :: "host_key \<Rightarrow> string" where
  "key_blob (Rsa e n) = ssh_field ''ssh-rsa'' @ ssh_field e @ ssh_field n"
| "key_blob (Ecdsa curve point) = ssh_field (''ecdsa-sha2-'' @ curve) @ ssh_field curve @ ssh_field point"
| "key_blob (Ed25519 point) = ssh_field ''ssh-ed25519'' @ ssh_field point"

fun key_algorithm :: "host_key \<Rightarrow> string \<times> string" where
  "key_algorithm (Rsa e n) = (''RSA-'' @ str_int (bit_length (be_value n)), ''RSA'')"
| "key_algorithm (Ecdsa curve point) = (''ECDSA-'' @ normalize_ssh_curve curve, ''ECDSA'')"
| "key_algorithm (Ed25519 point) = (''Ed25519'', ''EdDSA'')"

definition word :: "string \<Rightarrow> bool" where
  "word w = (w \<noteq> [] \<and> list_all (\<lambda>c. \<not> is_space c) w)"

fun key_ok :: "host_key \<Rightarrow> bool" where
  "key_ok (Rsa e n) = (int (length e) < 256 ^ 4 \<and> int (length n) < 256 ^ 4)"
| "key_ok (Ecdsa curve point) = (int (length curve) < 1000 \<and> is_ascii curve \<and> list_all (\<lambda>c. \<not> is_space c) curve)"
| "key_ok (Ed25519 point) = True"

text \<open>The line \<open>ssh-keyscan\<close> prints.\<close>

definition keyscan_line :: "string \<Rightarrow> host_key \<Rightarrow> string" where
  "keyscan_line host k = host @ '' '' @ key_name k @ '' '' @ b64encode (key_blob k)"

lemma key_blob_read: "key_ok k \<Longrightarrow> parse_ssh_public_key_blob (key_name k) (key_blob k) = Some (key_algorithm k)"
proof (cases k)
  case (Rsa e n)
  assume "key_ok k"
  then show ?thesis using Rsa rsa_key_read [of e n "''ssh-rsa''" "[]"] by simp
next
  case (Ecdsa curve point)
  assume "key_ok k"
  moreover have "is_ascii (''ecdsa-sha2-'' @ curve)" if "is_ascii curve"
    using that by (simp add: is_ascii_def) code_simp
  ultimately show ?thesis
    using Ecdsa ecdsa_key_read [of "''ecdsa-sha2-'' @ curve" curve "''ecdsa-sha2-'' @ curve" "ssh_field point"]
    by (simp add: startswith_def)
next
  case (Ed25519 point)
  then show ?thesis using ed25519_key_read [of "''ssh-ed25519''" "ssh_field point"] by (simp add: startswith_def)
qed

lemma takeWhile_word: "list_all P w \<Longrightarrow> \<not> P c \<Longrightarrow> takeWhile P (w @ c # r) = w \<and> dropWhile P (w @ c # r) = c # r"
  by (induction w) auto

lemma split_white_word:
  assumes "word w" "is_space c"
  shows "split_white (w @ c # rest) = w # split_white rest"
proof -
  obtain x xs where w: "w = x # xs" "\<not> is_space x" "list_all (\<lambda>c. \<not> is_space c) xs" using assms(1) by (cases w) (auto simp: word_def)
  note cut = takeWhile_word [OF w(3), of c rest]
  have "split_white (c # rest) = split_white rest"
    using assms(2) by (subst (1 2) split_white.simps) simp
  then show ?thesis using w cut assms(2) by (subst split_white.simps) simp
qed

lemma split_white_last: "word w \<Longrightarrow> split_white w = [w]"
proof -
  assume "word w"
  then obtain x xs where w: "w = x # xs" "\<not> is_space x" "list_all (\<lambda>c. \<not> is_space c) xs" by (cases w) (auto simp: word_def)
  have ends: "split_white [] = []" by (subst split_white.simps) simp
  have cut: "takeWhile (\<lambda>c. \<not> is_space c) xs = xs" "dropWhile (\<lambda>c. \<not> is_space c) xs = []"
    using w(3) by (simp_all only: takeWhile_eq_all_conv dropWhile_eq_Nil_conv list_all_iff)
  show ?thesis unfolding w(1) by (subst split_white.simps) (simp add: w(2) cut ends)
qed

lemma key_words: "key_ok k \<Longrightarrow> word (key_name k)"
proof -
  have "list_all (\<lambda>c. \<not> is_space c) ''ecdsa-sha2-''" "word ''ssh-rsa''" "word ''ssh-ed25519''" by code_simp+
  then show "key_ok k \<Longrightarrow> ?thesis" by (cases k) (auto simp: word_def)
qed

lemma blob_word: "word (b64encode (key_blob k))"
proof -
  have "key_blob k \<noteq> []" by (cases k) (simp_all add: ssh_field_def be_bytes_def)
  then have "b64encode (key_blob k) \<noteq> []" by (cases "key_blob k" rule: b64encode.cases) simp_all
  then show ?thesis by (simp add: word_def b64_no_space)
qed

text \<open>C32. A host key a server sends is reported as it is: the line the key scanner prints for an RSA, ECDSA or Ed25519 key gives
  a candidate with the algorithm of the key, for RSA with the number of bits of its modulus, and the fingerprint of the
  key's bytes as reference.\<close>

theorem ssh_host_key_reported:
  assumes "key_ok k" "word host"
  shows "ssh_host_key_candidate t (keyscan_line host k) =
    Some (network_candidate t (''SSH host key '' @ fst (key_algorithm k)) ''ssh_host_key'' (fst (key_algorithm k)) (snd (key_algorithm k))
      (''ssh-host-key:'' @ ssh_fingerprint (key_blob k))
      [(''scanner'', PStr ''network''), (''type'', PStr ''ssh_host_key''), (''ssh_fingerprint'', PStr (ssh_fingerprint (key_blob k)))])"
proof -
  have space: "is_space CHR '' ''" by code_simp
  have "split_white (keyscan_line host k) = [host, key_name k, b64encode (key_blob k)]"
    using split_white_word [OF assms(2) space] split_white_word [OF key_words [OF assms(1)] space] split_white_last [OF blob_word]
    by (simp add: keyscan_line_def)
  then show ?thesis
    by (simp add: ssh_host_key_candidate_def b64_round key_blob_read [OF assms(1)] split_beta)
qed

theorem ssh_host_key_reported_witness:
  "map_option c_algorithm (ssh_host_key_candidate sample_target (keyscan_line ''web'' (Ecdsa ''nistp256'' ''point''))) = Some ''ECDSA-P256''"
proof -
  have "key_ok (Ecdsa ''nistp256'' ''point'')" "word ''web''" by code_simp+
  moreover have "fst (key_algorithm (Ecdsa ''nistp256'' ''point'')) = ''ECDSA-P256''" by code_simp
  ultimately show ?thesis by (simp only: ssh_host_key_reported network_candidate_def option.map candidate.simps)
qed

section \<open>IKE\<close>

text \<open>An answer: the SPI of the question, the one of the responder, the header and the payloads; behind NAT four zero bytes
  come first.\<close>

definition ike_answer :: "bool \<Rightarrow> string \<Rightarrow> string \<Rightarrow> (int \<times> string) list \<Rightarrow> string" where
  "ike_answer natt spi responder payloads =
     (if natt then zeros 4 else []) @ spi @ responder @ be_bytes 1 (next_type payloads) @ be_bytes 1 IKE_VERSION_2 @
     be_bytes 1 IKE_EXCHANGE_SA_INIT @ be_bytes 1 32 @ be_bytes 4 0 @ be_bytes 4 (28 + int (length (encode_payloads payloads))) @
     encode_payloads payloads"

lemma answer_offset_of:
  assumes "length spi = 8" "natt \<or> \<not> startswith spi (zeros 4)"
  shows "answer_offset (ike_answer natt spi responder payloads) = (if natt then 4 else 0)"
proof (cases natt)
  case False
  have "\<not> startswith (spi @ rest) (zeros 4)" for rest
  proof
    assume "startswith (spi @ rest) (zeros 4)"
    then have "prefix (zeros 4) spi" using assms(1) prefix_length_prefix [of "zeros 4" "spi @ rest" spi] by (simp add: startswith_def zeros_def)
    then show False using False assms(2) by (simp add: startswith_def)
  qed
  then show ?thesis using False by (simp add: answer_offset_def ike_answer_def)
qed (simp add: answer_offset_def ike_answer_def startswith_def)

lemma answer_read:
  assumes "length spi = 8" "length responder = 8" "natt \<or> \<not> startswith spi (zeros 4)" "list_all payload_ok payloads"
  shows "parse_ike_response_candidates t (ike_answer natt spi responder payloads) =
      concat (map (\<lambda>(ty, b). if ty = IKE_NEXT_PAYLOAD_SA then parse_ike_sa_candidates t b else []) payloads)"
    and "\<not> length (ike_answer natt spi responder payloads) < (if natt then 4 else 0) + 28"
    and "take 8 (drop (if natt then 4 else 0) (ike_answer natt spi responder payloads)) = spi"
proof -
  let ?o = "if natt then 4 else 0 :: nat" and ?a = "ike_answer natt spi responder payloads"
  define front where "front = (if natt then zeros 4 else []) @ spi @ responder"
  define rest where "rest = be_bytes 1 IKE_VERSION_2 @ be_bytes 1 IKE_EXCHANGE_SA_INIT @ be_bytes 1 32 @ be_bytes 4 0 @
    be_bytes 4 (28 + int (length (encode_payloads payloads)))"
  have shape: "?a = front @ be_bytes 1 (next_type payloads) @ rest @ encode_payloads payloads"
    by (simp add: ike_answer_def front_def rest_def)
  have len: "length front = ?o + 16" "length rest = 11" using assms(1,2) by (simp_all add: front_def rest_def zeros_def)
  have ty: "0 \<le> next_type payloads" "next_type payloads < 256"
    using assms(4) by (auto simp: next_type_def payload_ok_def split: list.splits prod.splits)
  have first: "u8 ?a (?o + 16) = next_type payloads" unfolding shape by (rule u8_at) (simp_all add: ty len)
  show room: "\<not> length ?a < ?o + 28" unfolding shape by (simp add: len)
  have "parse_payloads t ((front @ be_bytes 1 (next_type payloads) @ rest) @ encode_payloads payloads) (next_type payloads) (?o + 28) =
      concat (map (\<lambda>(ty, b). if ty = IKE_NEXT_PAYLOAD_SA then parse_ike_sa_candidates t b else []) payloads)"
    by (rule parse_encoded_payloads [OF assms(4)]) (simp add: len)
  then have body: "parse_payloads t ?a (next_type payloads) (?o + 28) =
      concat (map (\<lambda>(ty, b). if ty = IKE_NEXT_PAYLOAD_SA then parse_ike_sa_candidates t b else []) payloads)"
    unfolding shape append_assoc .
  show "parse_ike_response_candidates t ?a =
      concat (map (\<lambda>(ty, b). if ty = IKE_NEXT_PAYLOAD_SA then parse_ike_sa_candidates t b else []) payloads)"
    unfolding parse_ike_response_candidates_def Let_def answer_offset_of [OF assms(1,3)] first body
    using room by (simp only: if_False)
  show "take 8 (drop ?o ?a) = spi" using assms(1) by (simp add: ike_answer_def zeros_def)
qed

text \<open>C33. What a server chooses is what is reported: when it answers the message of an IKE scan with proposals, each with
  its transforms, the scan returns one candidate for every transform of a known kind, in the order of the answer, and
  nothing for the other payloads.  This is for an initiator SPI that does not begin with four zero bytes, which the
  scan cannot tell from the marker of NAT traversal, or for the port of NAT traversal.\<close>

theorem ike_answer_reported:
  assumes "nt_datagram net (target_address t) (tg_port t) (ike_packet net (tg_port t = 4500)) =
      Inr (ike_answer (tg_port t = 4500) (nt_random net 8) responder ((IKE_NEXT_PAYLOAD_SA, encode_proposals ps) # others))"
    and "length (nt_random net 8) = 8" "length responder = 8"
    and "tg_port t = 4500 \<or> \<not> startswith (nt_random net 8) (zeros 4)"
    and "list_all payload_ok ((IKE_NEXT_PAYLOAD_SA, encode_proposals ps) # others)" "list_all (\<lambda>p. fst p \<noteq> IKE_NEXT_PAYLOAD_SA) others"
    and "list_all proposal_ok ps"
  shows "scan_ike net t = Inr (if listed_proposals t 0 ps = [] then [protocol_policy_candidate t ''IKE'' ''IKE proposal unparsed'']
      else listed_proposals t 0 ps)"
proof -
  have "concat (map (\<lambda>(ty, b). if ty = IKE_NEXT_PAYLOAD_SA then parse_ike_sa_candidates t b else []) others) = []"
    using assms(6) by (induction others) auto
  moreover have "parse_ike_sa_candidates t (encode_proposals ps) = listed_proposals t 0 ps"
    using parse_encoded_proposals [OF assms(7), of 0 "[]" t 0] by (simp add: parse_ike_sa_candidates_def)
  ultimately have "concat (map (\<lambda>(ty, b). if ty = IKE_NEXT_PAYLOAD_SA then parse_ike_sa_candidates t b else [])
      ((IKE_NEXT_PAYLOAD_SA, encode_proposals ps) # others)) = listed_proposals t 0 ps" by simp
  then show ?thesis
    using answer_read [OF assms(2-5)]
    by (simp add: scan_ike_def Let_def assms(1) answer_offset_of [OF assms(2,4)] del: concat.simps list.map)
qed

definition sample_proposals :: "proposal list" where
  "sample_proposals = [(4, [(1, 12, be_bytes 2 0x800E @ be_bytes 2 256), (2, 5, []), (3, 12, []), (4, 31, [])])]"

definition ike_net :: net where
  "ike_net = silent_net\<lparr>nt_datagram := (\<lambda>a p s. Inr (ike_answer (p = 4500) (replicate 8 CHR ''r'') (replicate 8 CHR ''s'')
     [(IKE_NEXT_PAYLOAD_SA, encode_proposals sample_proposals), (IKE_NEXT_PAYLOAD_NONCE, ''nonce'')]))\<rparr>"

theorem ike_answer_reported_witness:
  "rmap (map c_algorithm) (scan_ike ike_net (sample_target\<lparr>tg_port := 500\<rparr>)) =
   Inr [''AES-CBC-256'', ''HMAC-SHA2-256'', ''HMAC-SHA2-256-128'', ''Curve25519'']"
proof -
  let ?t = "sample_target\<lparr>tg_port := 500\<rparr>"
  have ok: "list_all proposal_ok sample_proposals"
    "list_all payload_ok [(IKE_NEXT_PAYLOAD_SA, encode_proposals sample_proposals), (IKE_NEXT_PAYLOAD_NONCE, ''nonce'')]"
    by (simp_all add: sample_proposals_def proposal_ok_def transform_ok_def payload_ok_def encode_proposals_def IKE_NEXT_PAYLOAD_SA_def
        IKE_NEXT_PAYLOAD_NONCE_def)
  have listing: "map c_algorithm (listed_proposals ?t 0 sample_proposals) =
    [''AES-CBC-256'', ''HMAC-SHA2-256'', ''HMAC-SHA2-256-128'', ''Curve25519'']"
  proof -
    have "ike_algorithm 1 12 (be_bytes 2 0x800E @ be_bytes 2 256) = Some ''AES-CBC-256''" "ike_algorithm 2 5 [] = Some ''HMAC-SHA2-256''"
      "ike_algorithm 3 12 [] = Some ''HMAC-SHA2-256-128''" "ike_algorithm 4 31 [] = Some ''Curve25519''" by code_simp+
    then show ?thesis by (simp add: sample_proposals_def ike_transform_candidate_def)
  qed
  have "scan_ike ike_net ?t = Inr (if listed_proposals ?t 0 sample_proposals = []
      then [protocol_policy_candidate ?t ''IKE'' ''IKE proposal unparsed''] else listed_proposals ?t 0 sample_proposals)"
    by (rule ike_answer_reported [where responder = "replicate 8 CHR ''s''" and others = "[(IKE_NEXT_PAYLOAD_NONCE, ''nonce'')]"])
       (use ok in \<open>simp_all add: ike_net_def silent_net_def zeros_def startswith_def IKE_NEXT_PAYLOAD_NONCE_def IKE_NEXT_PAYLOAD_SA_def
         numeral_eq_Suc\<close>)
  then show ?thesis using listing by (auto simp: rmap_def)
qed

end
