(* ===== verification/Pipeline.thy ===== *)
theory Pipeline
  imports Recompute Discovery_Service Qualitative Performance_Runner Scan_Worker Core_Api
begin

text \<open>
  \<open>apps/jobs/management/commands/process_queued_jobs.py\<close>: the process that runs the background work.  A pass calls the five
  processors in their order, each of which takes at most one task; with \<open>--loop\<close> the passes repeat until one raises.  What a
  processor asks of the world is \<open>services\<close>, the readings of the clock are numbered.

  The locale \<open>draining_queue\<close> is what a processor promises of the queue of its name: the task it takes ends in a terminal
  state with one more attempt, the others are as before.  From it, polls that are as many as the tasks ready at the
  start end all of them, in whatever order they became available and whatever each of them raises.  The processors of the
  recomputations and of the performance runs interpret it.
\<close>

section \<open>The command\<close>

record services =
  sv_scan :: scan_env
  sv_port_open :: "string \<Rightarrow> int \<Rightarrow> bool"
  sv_post_discover :: "agent \<Rightarrow> pyval dict \<Rightarrow> py_error + pyval dict"
  sv_world :: world
  sv_runner :: runner_env

type_synonym processor = "int \<Rightarrow> db \<Rightarrow> db \<times> (py_error + pyval dict option)"

definition processors :: "services \<Rightarrow> (string \<times> processor) list" where
  "processors s =
     [(''scan_job'', process_next_scan_job_task (sv_scan s)),
      (''discovery'', process_next_discovery_task (sv_port_open s) (sv_post_discover s)),
      (''recompute'', process_next_recompute_task),
      (''qualitative_assessment'', process_next_qualitative_assessment_task (sv_world s)),
      (''performance_run'', process_next_performance_run_task (sv_runner s))]"

text \<open>The lines printed, one for every task processed, and the exception that ended the pass.\<close>

fun run_processors ::
  "(string \<times> processor) list \<Rightarrow> (nat \<Rightarrow> int) \<Rightarrow> nat \<Rightarrow> db \<Rightarrow> db \<times> (string \<times> pyval dict) list \<times> py_error option" where
  "run_processors [] clock k d = (d, [], None)"
| "run_processors ((task_name, processor) # ps) clock k d =
     (case processor (clock k) d of
        (d1, Inl e) \<Rightarrow> (d1, [], Some e)
      | (d1, Inr result) \<Rightarrow>
          (case run_processors ps clock (Suc k) d1 of
             (d2, out, exc) \<Rightarrow> (d2, (case result of None \<Rightarrow> out | Some r \<Rightarrow> (task_name, r) # out), exc)))"

text \<open>The first passes of the loop, each with its services and its clock, and whether it slept after each; nothing follows a
  pass that raised.\<close>

fun worker_passes ::
  "(nat \<Rightarrow> services) \<Rightarrow> (nat \<Rightarrow> nat \<Rightarrow> int) \<Rightarrow> nat \<Rightarrow> db \<Rightarrow> db \<times> (string \<times> pyval dict) list \<times> bool list \<times> py_error option" where
  "worker_passes s clock 0 d = (d, [], [], None)"
| "worker_passes s clock (Suc n) d =
     (case run_processors (processors (s 0)) (clock 0) 0 d of
        (d1, out, Some e) \<Rightarrow> (d1, out, [], Some e)
      | (d1, out, None) \<Rightarrow>
          (case worker_passes (\<lambda>i. s (Suc i)) (\<lambda>i. clock (Suc i)) n d1 of
             (d2, out', slept, exc) \<Rightarrow> (d2, out @ out', (out = []) # slept, exc)))"

definition handle :: "bool \<Rightarrow> (nat \<Rightarrow> services) \<Rightarrow> (nat \<Rightarrow> nat \<Rightarrow> int) \<Rightarrow> nat \<Rightarrow> db \<Rightarrow> db \<times> (string \<times> pyval dict) list \<times> py_error option" where
  "handle loop s clock n d =
     (if loop then (case worker_passes s clock n d of (d', out, slept, exc) \<Rightarrow> (d', out, exc))
      else run_processors (processors (s 0)) (clock 0) 0 d)"

text \<open>Polls of one processor at the given times, whatever they return.\<close>

definition polls :: "processor \<Rightarrow> int list \<Rightarrow> db \<Rightarrow> db" where
  "polls poll nows d = foldl (\<lambda>d now. fst (poll now d)) d nows"

lemma polls_simps [simp]: "polls poll [] d = d" "polls poll (now # nows) d = polls poll nows (fst (poll now d))"
  by (simp_all add: polls_def)

section \<open>Queues that drain\<close>

definition same_place :: "queued_task \<Rightarrow> queued_task \<Rightarrow> bool" where
  "same_place t t' =
     (t_id t' = t_id t \<and> t_name t' = t_name t \<and> t_available t' = t_available t \<and> t_job t' = t_job t \<and> t_payload t' = t_payload t)"

definition ended_once :: "queued_task \<Rightarrow> queued_task \<Rightarrow> bool" where
  "ended_once t t' = (same_place t t' \<and> terminal_task t' \<and> t_attempts t' = t_attempts t + 1)"

lemma next_task_ready: "next_task n now d = Some t \<Longrightarrow> t \<in> set (ready_tasks n now d)"
  by (auto simp: next_task_def dest: first_by_Some)

lemma ready_tasks_put:
  assumes "t_status t' \<noteq> T_QUEUED" and "db_tasks d' = put_row t_id t' (db_tasks d)"
  shows "ready_tasks n now d' = filter (\<lambda>x. t_id x \<noteq> t_id t') (ready_tasks n now d)"
proof -
  have "filter P (put_row t_id t' xs) = filter (\<lambda>x. t_id x \<noteq> t_id t') (filter P xs)" if "\<not> P t'" for P xs
    using that by (induction xs) (auto simp: put_row_def)
  from this [of "\<lambda>t. t_name t = n \<and> t_status t = T_QUEUED \<and> (case t_available t of None \<Rightarrow> False | Some a \<Rightarrow> a \<le> now)"]
  show ?thesis using assms by (simp add: ready_tasks_def)
qed

text \<open>A later poll takes a task that was ready earlier, when there is one.\<close>

lemma next_task_earlier:
  assumes "ready_tasks n now d \<noteq> []" and "now \<le> later"
  shows "\<exists>t. next_task n later d = Some t \<and> t \<in> set (ready_tasks n now d)"
proof -
  obtain u where u: "u \<in> set (ready_tasks n now d)" using assms(1) by (cases "ready_tasks n now d") auto
  then have ul: "u \<in> set (ready_tasks n later d)" using assms(2) by (auto simp: ready_tasks_def split: option.splits)
  then obtain t where t: "next_task n later d = Some t"
    by (cases "next_task n later d") (auto simp: next_task_def first_by_None)
  have "the (t_available t) \<le> the (t_available u)"
    using first_by_least [OF t [unfolded next_task_def] ul] by auto
  then have "t \<in> set (ready_tasks n now d)"
    using u next_task_ready [OF t] by (auto simp: ready_tasks_def split: option.splits)
  with t show ?thesis by blast
qed

lemma drop_one_shorter:
  assumes "distinct (map key xs)" and "x \<in> set xs"
  shows "Suc (length (filter (\<lambda>y. key y \<noteq> key x) xs)) = length xs"
proof -
  have "distinct xs" "inj_on key (set xs)" using assms(1) by (simp_all add: distinct_map)
  then have "filter (\<lambda>y. key y = key x) xs = [x]"
    using assms(2) by (intro distinct_singleton distinct_filter) (auto dest: inj_onD)
  then show ?thesis using sum_length_filter_compl [of "\<lambda>y. key y = key x" xs] by simp
qed

locale draining_queue =
  fixes name :: string and poll :: processor and ok :: "db \<Rightarrow> bool"
  assumes keys: "ok d \<Longrightarrow> distinct (map t_id (db_tasks d))"
    and idle: "next_task name now d = None \<Longrightarrow> fst (poll now d) = d"
    and works: "ok d \<Longrightarrow> next_task name now d = Some t \<Longrightarrow>
      ok (fst (poll now d)) \<and> (\<exists>t'. ended_once t t' \<and> db_tasks (fst (poll now d)) = put_row t_id t' (db_tasks d))"
begin

lemma poll_ok: "ok d \<Longrightarrow> ok (fst (poll now d))"
  using idle works by (cases "next_task name now d") auto

lemma poll_keeps_terminal:
  assumes "ok d" and "task_of d i = Some t" and "terminal_task t"
  shows "task_of (fst (poll now d)) i = Some t"
proof (cases "next_task name now d")
  case None
  then show ?thesis using assms(2) by (simp add: idle)
next
  case (Some u)
  obtain u' where u: "ended_once u u'" "db_tasks (fst (poll now d)) = put_row t_id u' (db_tasks d)"
    using works [OF assms(1) Some] by blast
  have r: "u \<in> set (ready_tasks name now d)" by (rule next_task_ready [OF Some])
  then have "task_of d (t_id u) = Some u"
    using find_row_unique [OF keys [OF assms(1)], of u] by (simp add: ready_tasks_def)
  then have "t_id u \<noteq> i" using assms(2,3) r by (auto simp: ready_tasks_def terminal_task_def)
  then show ?thesis using assms(2) u by (simp add: find_put ended_once_def same_place_def)
qed

lemma polls_keep_terminal:
  "ok d \<Longrightarrow> task_of d i = Some t \<Longrightarrow> terminal_task t \<Longrightarrow> task_of (polls poll nows d) i = Some t"
proof (induction nows arbitrary: d)
  case (Cons now nows)
  then show ?case using Cons.IH [OF poll_ok [OF Cons.prems(1)] poll_keeps_terminal [OF Cons.prems]] by simp
qed simp

text \<open>One poll ends one of the tasks ready earlier.\<close>

lemma poll_progress:
  assumes "ok d" and "ready_tasks name now d \<noteq> []" and "now \<le> later"
  obtains t t' where "t \<in> set (ready_tasks name now d)" "ended_once t t'" "task_of (fst (poll later d)) (t_id t) = Some t'"
    "ready_tasks name now (fst (poll later d)) = filter (\<lambda>x. t_id x \<noteq> t_id t) (ready_tasks name now d)"
proof -
  obtain t where t: "next_task name later d = Some t" "t \<in> set (ready_tasks name now d)"
    using next_task_earlier [OF assms(2,3)] by blast
  obtain t' where t': "ended_once t t'" "db_tasks (fst (poll later d)) = put_row t_id t' (db_tasks d)"
    using works [OF assms(1) t(1)] by blast
  have i: "t_id t' = t_id t" and s: "t_status t' \<noteq> T_QUEUED"
    using t'(1) by (auto simp: ended_once_def same_place_def terminal_task_def)
  have "task_of d (t_id t) \<noteq> None" using t(2) by (auto simp: find_row_None ready_tasks_def)
  then have "task_of (fst (poll later d)) (t_id t) = Some t'" by (simp add: t'(2) find_put i)
  moreover have "ready_tasks name now (fst (poll later d)) = filter (\<lambda>x. t_id x \<noteq> t_id t) (ready_tasks name now d)"
    using ready_tasks_put [OF s t'(2)] by (simp add: i)
  ultimately show thesis using that t(2) t'(1) by blast
qed

lemma drains:
  assumes "ok d" and "list_all (\<lambda>later. now \<le> later) nows" and "length (ready_tasks name now d) \<le> length nows"
  shows "list_all (\<lambda>t. case task_of (polls poll nows d) (t_id t) of None \<Rightarrow> False | Some t' \<Rightarrow> ended_once t t') (ready_tasks name now d)"
  using assms
proof (induction nows arbitrary: d)
  case (Cons later nows)
  show ?case
  proof (cases "ready_tasks name now d = []")
    case False
    let ?d = "fst (poll later d)"
    have le: "now \<le> later" using Cons.prems(2) by simp
    obtain t t' where t: "t \<in> set (ready_tasks name now d)" "ended_once t t'" "task_of ?d (t_id t) = Some t'"
      and r: "ready_tasks name now ?d = filter (\<lambda>x. t_id x \<noteq> t_id t) (ready_tasks name now d)"
      by (rule poll_progress [OF Cons.prems(1) False le])
    have di: "distinct (map t_id (ready_tasks name now d))"
      unfolding ready_tasks_def by (intro distinct_map_filter keys Cons.prems(1))
    have "length (ready_tasks name now ?d) \<le> length nows"
      using drop_one_shorter [OF di t(1)] Cons.prems(3) by (simp add: r)
    with Cons.IH [OF poll_ok [OF Cons.prems(1)]] Cons.prems(2)
    have ih: "list_all (\<lambda>t. case task_of (polls poll nows ?d) (t_id t) of None \<Rightarrow> False | Some t' \<Rightarrow> ended_once t t')
        (ready_tasks name now ?d)" by simp
    have e: "task_of (polls poll nows ?d) (t_id t) = Some t'"
      using t(2) by (intro polls_keep_terminal poll_ok Cons.prems(1) t(3)) (simp add: ended_once_def)
    show ?thesis
    proof (unfold list_all_iff, intro ballI)
      fix x assume x: "x \<in> set (ready_tasks name now d)"
      show "case task_of (polls poll (later # nows) d) (t_id x) of None \<Rightarrow> False | Some t' \<Rightarrow> ended_once x t'"
      proof (cases "t_id x = t_id t")
        case True
        then have "x = t" using x t(1) di by (auto simp: distinct_map inj_on_def)
        then show ?thesis using e t(2) by simp
      next
        case False
        then show ?thesis using ih x by (auto simp: list_all_iff r)
      qed
    qed
  qed simp
qed simp

end

text \<open>The worker of a queue whose payload leaves the queue alone: its three transactions succeed and change only the task.\<close>

definition poll_worker ::
  "string \<Rightarrow> (int \<Rightarrow> int \<Rightarrow> db \<Rightarrow> py_error + pyval dict option \<times> db) \<Rightarrow> (int \<Rightarrow> pyval dict \<Rightarrow> db \<Rightarrow> db \<times> (py_error + pyval dict))
   \<Rightarrow> (int \<Rightarrow> int \<Rightarrow> pyval dict \<Rightarrow> db \<Rightarrow> py_error + pyval dict \<times> db) \<Rightarrow> (int \<Rightarrow> int \<Rightarrow> py_error \<Rightarrow> db \<Rightarrow> py_error + db) \<Rightarrow> processor" where
  "poll_worker name claim run finish give_up now d =
     (case next_task name now d of None \<Rightarrow> (d, Inr None)
      | Some t \<Rightarrow> (case run_worker claim (run now) finish give_up (t_id t) now d of (d', r) \<Rightarrow> (d', rmap Some r)))"

lemma put_row_twice: "key r' = key r \<Longrightarrow> put_row key r' (put_row key r rows) = put_row key r' rows"
  by (induction rows) (auto simp: put_row_def)

locale steady_worker =
  fixes name :: string
    and claim :: "int \<Rightarrow> int \<Rightarrow> db \<Rightarrow> py_error + pyval dict option \<times> db"
    and run :: "int \<Rightarrow> pyval dict \<Rightarrow> db \<Rightarrow> db \<times> (py_error + pyval dict)"
    and finish :: "int \<Rightarrow> int \<Rightarrow> pyval dict \<Rightarrow> db \<Rightarrow> py_error + pyval dict \<times> db"
    and give_up :: "int \<Rightarrow> int \<Rightarrow> py_error \<Rightarrow> db \<Rightarrow> py_error + db"
    and ok :: "db \<Rightarrow> bool"
  assumes ids: "ok d \<Longrightarrow> distinct (map t_id (db_tasks d))"
    and claims: "ok d \<Longrightarrow> task_of d i = Some t \<Longrightarrow> t_name t = name \<Longrightarrow> t_status t = T_QUEUED \<Longrightarrow>
      \<exists>p t' d'. claim i now d = Inr (p, d') \<and> ok d' \<and> db_tasks d' = put_row t_id t' (db_tasks d) \<and> same_place t t'
        \<and> t_attempts t' = t_attempts t + 1 \<and> (p \<noteq> None \<or> t_status t' = T_CANCELLED)"
    and runs: "ok d \<Longrightarrow> ok (fst (run now payload d)) \<and> db_tasks (fst (run now payload d)) = db_tasks d"
    and finishes: "ok d \<Longrightarrow> task_of d i = Some t \<Longrightarrow> t_name t = name \<Longrightarrow>
      \<exists>q t' d'. finish i now r d = Inr (q, d') \<and> ok d' \<and> db_tasks d' = put_row t_id t' (db_tasks d) \<and> same_place t t'
        \<and> t_attempts t' = t_attempts t \<and> terminal_task t'"
    and gives_up: "ok d \<Longrightarrow> task_of d i = Some t \<Longrightarrow> t_name t = name \<Longrightarrow>
      \<exists>t' d'. give_up i now e d = Inr d' \<and> ok d' \<and> db_tasks d' = put_row t_id t' (db_tasks d) \<and> same_place t t'
        \<and> t_attempts t' = t_attempts t \<and> terminal_task t'"
begin

lemma run_ends:
  assumes "ok d" and "task_of d i = Some t" and "t_name t = name" and "t_status t = T_QUEUED"
  shows "ok (fst (run_worker claim (run now) finish give_up i now d))
    \<and> (\<exists>t'. ended_once t t' \<and> db_tasks (fst (run_worker claim (run now) finish give_up i now d)) = put_row t_id t' (db_tasks d))"
proof -
  obtain p t1 d1 where c: "claim i now d = Inr (p, d1)" "ok d1" "db_tasks d1 = put_row t_id t1 (db_tasks d)"
    and t1: "same_place t t1" "t_attempts t1 = t_attempts t + 1" "p \<noteq> None \<or> t_status t1 = T_CANCELLED"
    using claims [OF assms] by blast
  show ?thesis
  proof (cases p)
    case None
    have "ended_once t t1" using t1 None by (simp add: ended_once_def terminal_task_def)
    then show ?thesis using c None by (auto simp: run_worker_def)
  next
    case (Some payload)
    obtain d2 x where r: "run now payload d1 = (d2, x)" by (rule prod.exhaust)
    have d2: "ok d2" "db_tasks d2 = put_row t_id t1 (db_tasks d)" using runs [OF c(2), of now payload] r c(3) by auto
    have n1: "t_id t1 = i" "t_name t1 = name" using t1(1) task_of_id [OF assms(2)] assms(3) by (simp_all add: same_place_def)
    have f: "task_of d2 i = Some t1" using assms(2) n1(1) by (simp add: d2(2) find_put)
    have e: "ended_once t t2 \<and> put_row t_id t2 (put_row t_id t1 (db_tasks d)) = put_row t_id t2 (db_tasks d)"
      if "same_place t1 t2" "t_attempts t2 = t_attempts t1" "terminal_task t2" for t2
      using that t1 by (simp add: ended_once_def same_place_def put_row_twice)
    show ?thesis
    proof (cases x)
      case (Inl exc)
      obtain t2 d3 where g: "give_up i now exc d2 = Inr d3" "ok d3" "db_tasks d3 = put_row t_id t2 (db_tasks d2)"
        and t2: "same_place t1 t2" "t_attempts t2 = t_attempts t1" "terminal_task t2"
        using gives_up [OF d2(1) f n1(2)] by blast
      show ?thesis using e [OF t2] g d2(2) by (auto simp: run_worker_def c(1) Some r Inl)
    next
      case (Inr res)
      obtain q t2 d3 where g: "finish i now res d2 = Inr (q, d3)" "ok d3" "db_tasks d3 = put_row t_id t2 (db_tasks d2)"
        and t2: "same_place t1 t2" "t_attempts t2 = t_attempts t1" "terminal_task t2"
        using finishes [OF d2(1) f n1(2)] by blast
      show ?thesis using e [OF t2] g d2(2) by (auto simp: run_worker_def c(1) Some r Inr)
    qed
  qed
qed

end

sublocale steady_worker \<subseteq> queue: draining_queue name "poll_worker name claim run finish give_up" ok
proof
  fix d now t
  assume ok: "ok d" and n: "next_task name now d = Some t"
  have r: "t \<in> set (ready_tasks name now d)" by (rule next_task_ready [OF n])
  then have "task_of d (t_id t) = Some t" using find_row_unique [OF ids [OF ok], of t] by (simp add: ready_tasks_def)
  moreover obtain d' x where w: "run_worker claim (run now) finish give_up (t_id t) now d = (d', x)" by (rule prod.exhaust)
  ultimately have "ok d' \<and> (\<exists>t'. ended_once t t' \<and> db_tasks d' = put_row t_id t' (db_tasks d))"
    using run_ends [OF ok, of "t_id t" t now] r by (simp add: ready_tasks_def)
  then show "ok (fst (poll_worker name claim run finish give_up now d))
      \<and> (\<exists>t'. ended_once t t' \<and> db_tasks (fst (poll_worker name claim run finish give_up now d)) = put_row t_id t' (db_tasks d))"
    by (simp add: poll_worker_def n w)
qed (simp_all add: ids poll_worker_def)

section \<open>Recomputations\<close>

definition job_present :: "db \<Rightarrow> queued_task \<Rightarrow> bool" where
  "job_present d t = (case t_job t of None \<Rightarrow> True | Some i \<Rightarrow> job_of d i \<noteq> None)"

definition recompute_ok :: "db \<Rightarrow> bool" where
  "recompute_ok d = (distinct (map t_id (db_tasks d)) \<and> list_all (job_present d) (filter (\<lambda>t. t_name t = ''recompute'') (db_tasks d)))"

lemma recompute_job: "recompute_ok d \<Longrightarrow> task_of d i = Some t \<Longrightarrow> t_name t = ''recompute'' \<Longrightarrow> job_present d t"
  by (auto simp: recompute_ok_def list_all_iff dest: find_row_Some)

lemma recompute_ok_put:
  assumes "recompute_ok d" and "task_of d i = Some t" and "t_name t = ''recompute''" and "same_place t t'"
    and "db_tasks d' = put_row t_id t' (db_tasks d)" and "\<And>k. job_of d k \<noteq> None \<Longrightarrow> job_of d' k \<noteq> None"
  shows "recompute_ok d'"
proof -
  have p: "job_present d u \<Longrightarrow> job_present d' u" for u using assms(6) by (auto simp: job_present_def split: option.splits)
  have "job_present d' t'" using p [OF recompute_job [OF assms(1-3)]] assms(4) by (simp add: job_present_def same_place_def)
  then show ?thesis using assms(1,5) p set_put [of t_id t' "db_tasks d"] by (auto simp: recompute_ok_def list_all_iff)
qed

lemma jobs_upsert_asset_risk: "db_jobs (fst (upsert_asset_risk a w now d)) = db_jobs d"
  unfolding upsert_asset_risk_def Let_def by (auto split: sum.split prod.split list.split)

lemma jobs_upsert_all: "db_jobs (fst (upsert_all as w now d)) = db_jobs d"
proof (induction as w now d rule: upsert_all.induct)
  case (2 a as w now d)
  obtain d1 q where u: "upsert_asset_risk a w now d = (d1, q)" by (rule prod.exhaust)
  have "db_jobs d1 = db_jobs d" using jobs_upsert_asset_risk [of a w now d] by (simp add: u)
  then show ?case using 2 [OF u [symmetric]] by (cases q) (auto simp: u split: prod.split)
qed simp

lemma jobs_recompute:
  "db_jobs (fst (recompute_snapshot_risks i w now d)) = db_jobs d"
  "db_jobs (fst (recompute_target_risks i w now d)) = db_jobs d"
  "db_jobs (fst (recompute_asset_risk i w now d)) = db_jobs d"
proof -
  have u: "upsert_all as x now d = (d', r) \<Longrightarrow> db_jobs d' = db_jobs d" for as x d' r
    using jobs_upsert_all [of as x now d] by simp
  have v: "upsert_asset_risk a x now d = (d', r) \<Longrightarrow> db_jobs d' = db_jobs d" for a x d' r
    using jobs_upsert_asset_risk [of a x now d] by simp
  show "db_jobs (fst (recompute_snapshot_risks i w now d)) = db_jobs d"
    and "db_jobs (fst (recompute_target_risks i w now d)) = db_jobs d"
    and "db_jobs (fst (recompute_asset_risk i w now d)) = db_jobs d"
    unfolding recompute_snapshot_risks_def recompute_target_risks_def recompute_asset_risk_def Let_def
    by (auto simp: u v split: sum.split prod.split)
qed

lemma jobs_run_recompute: "db_jobs (fst (run_recompute_payload now p d)) = db_jobs d"
proof -
  have w: "persist_default_weights y d = Inr d' \<Longrightarrow> db_jobs d' = db_jobs d" for y d'
    by (auto simp: persist_default_weights_def Let_def split: if_splits option.splits)
  show ?thesis unfolding run_recompute_payload_def by (auto simp: jobs_recompute w split: sum.split if_splits)
qed

lemma job_present_cases:
  assumes "job_present d t"
  obtains "t_job t = None" | k j where "t_job t = Some k" "job_of d k = Some j" "get_row j_id k (db_jobs d) = Inr j"
  using assms by (auto simp: job_present_def get_row_def split: option.splits)

lemma job_present_jobs: "db_jobs d' = db_jobs d \<Longrightarrow> job_present d' = job_present d"
  by (rule ext) (simp add: job_present_def split: option.split)

lemma recompute_claims:
  assumes "recompute_ok d" and "task_of d i = Some t" and "t_name t = ''recompute''" and "t_status t = T_QUEUED"
  shows "\<exists>p t' d'. claim_recompute_task i now d = Inr (p, d') \<and> recompute_ok d' \<and> db_tasks d' = put_row t_id t' (db_tasks d)
      \<and> same_place t t' \<and> t_attempts t' = t_attempts t + 1 \<and> (p \<noteq> None \<or> t_status t' = T_CANCELLED)"
proof -
  let ?t = "t\<lparr>t_status := T_RUNNING, t_attempts := t_attempts t + 1, t_locked := Some now\<rparr>"
  have lock: "lock_task i now d = Inr (Some ?t)" using assms(4) by (simp add: lock_task_cases [OF assms(2)])
  note put = recompute_ok_put [OF assms(1-3)]
  show ?thesis
  proof (cases rule: job_present_cases [OF recompute_job [OF assms(1-3)]])
    case 1
    have "recompute_ok (set_task ?t d)" by (rule put [of ?t]) (simp_all add: same_place_def set_task_def)
    with 1 show ?thesis
      by (intro exI [of _ "Some (t_payload t)"] exI [of _ ?t] exI [of _ "set_task ?t d"])
        (simp add: claim_recompute_task_def lock same_place_def set_task_def)
  next
    case (2 k j)
    show ?thesis
    proof (cases "j_status j = CANCELLED")
      case True
      let ?c = "?t\<lparr>t_status := T_CANCELLED\<rparr>"
      have "recompute_ok (set_task ?c d)" by (rule put [of ?c]) (simp_all add: same_place_def set_task_def)
      with 2 True show ?thesis
        by (intro exI [of _ "None :: pyval dict option"] exI [of _ ?c] exI [of _ "set_task ?c d"])
          (simp add: claim_recompute_task_def lock same_place_def set_task_def)
    next
      case False
      let ?j = "j\<lparr>j_status := RUNNING, j_started := or_else (j_started j) now, j_progress := progress_start\<rparr>"
      have "recompute_ok (set_job ?j (set_task ?t d))"
        by (rule put [of ?t]) (auto simp: same_place_def set_task_def set_job_def find_put)
      with 2 False show ?thesis
        by (intro exI [of _ "Some (t_payload t)"] exI [of _ ?t] exI [of _ "set_job ?j (set_task ?t d)"])
          (simp add: claim_recompute_task_def lock same_place_def set_task_def)
    qed
  qed
qed

lemma recompute_finishes:
  assumes "recompute_ok d" and "task_of d i = Some t" and "t_name t = ''recompute''"
  shows "\<exists>q t' d'. complete_recompute_task i now r d = Inr (q, d') \<and> recompute_ok d' \<and> db_tasks d' = put_row t_id t' (db_tasks d)
      \<and> same_place t t' \<and> t_attempts t' = t_attempts t \<and> terminal_task t'"
    and "\<exists>t' d'. fail_recompute_task i now e d = Inr d' \<and> recompute_ok d' \<and> db_tasks d' = put_row t_id t' (db_tasks d)
      \<and> same_place t t' \<and> t_attempts t' = t_attempts t \<and> terminal_task t'"
proof -
  let ?c = "t\<lparr>t_status := T_COMPLETED, t_last_error := None\<rparr>" and ?f = "t\<lparr>t_status := T_FAILED, t_last_error := Some (exc_str e)\<rparr>"
  have row: "get_row t_id i (db_tasks d) = Inr t" using assms(2) by (simp add: get_row_def)
  have frame: "same_place t ?c" "same_place t ?f" "terminal_task ?c" "terminal_task ?f" "t_attempts ?c = t_attempts t" "t_attempts ?f = t_attempts t"
    by (simp_all add: same_place_def terminal_task_def)
  have put: "recompute_ok d'" if "same_place t t'" "db_tasks d' = put_row t_id t' (db_tasks d)" "db_jobs d' = db_jobs d \<or> (\<exists>j. db_jobs d' = put_row j_id j (db_jobs d))" for t' d'
    using that by (intro recompute_ok_put [OF assms(1-3)]) (auto simp: find_put)
  note cs = job_present_cases [OF recompute_job [OF assms]]
  show "\<exists>q t' d'. complete_recompute_task i now r d = Inr (q, d') \<and> recompute_ok d' \<and> db_tasks d' = put_row t_id t' (db_tasks d)
      \<and> same_place t t' \<and> t_attempts t' = t_attempts t \<and> terminal_task t'"
  proof (cases rule: cs)
    case 1
    have "recompute_ok (set_task ?c d)" by (rule put [of ?c]) (simp_all add: frame set_task_def)
    with 1 show ?thesis
      by (intro exI [of _ r] exI [of _ ?c] exI [of _ "set_task ?c d"]) (simp add: complete_recompute_task_def row frame set_task_def)
  next
    case (2 k j)
    let ?n = "dget_or r ''updated_scores_count'' (PInt 0)"
    let ?d = "set_job (j\<lparr>j_status := COMPLETED, j_progress := PDict [(''current'', ?n), (''total'', ?n), (''percent'', PInt 100)],
        j_result := PDict r, j_error := PNone, j_finished := Some now\<rparr>) (set_task ?c d)"
    have "recompute_ok ?d" by (rule put [of ?c]) (auto simp: frame set_task_def set_job_def)
    with 2 show ?thesis
      by (intro exI [of _ r] exI [of _ ?c] exI [of _ ?d]) (simp add: complete_recompute_task_def row frame Let_def set_task_def set_job_def)
  qed
  show "\<exists>t' d'. fail_recompute_task i now e d = Inr d' \<and> recompute_ok d' \<and> db_tasks d' = put_row t_id t' (db_tasks d)
      \<and> same_place t t' \<and> t_attempts t' = t_attempts t \<and> terminal_task t'"
  proof (cases rule: cs)
    case 1
    have "recompute_ok (set_task ?f d)" by (rule put [of ?f]) (simp_all add: frame set_task_def)
    with 1 show ?thesis
      by (intro exI [of _ ?f] exI [of _ "set_task ?f d"]) (simp add: fail_recompute_task_def row frame set_task_def)
  next
    case (2 k j)
    let ?d = "set_job (j\<lparr>j_status := FAILED, j_error := PDict [(''message'', PStr (exc_str e))], j_finished := Some now\<rparr>) (set_task ?f d)"
    have "recompute_ok ?d" by (rule put [of ?f]) (auto simp: frame set_task_def set_job_def)
    with 2 show ?thesis
      by (intro exI [of _ ?f] exI [of _ ?d]) (simp add: fail_recompute_task_def row frame Let_def set_task_def set_job_def)
  qed
qed

interpretation steady_recompute: steady_worker "''recompute''" claim_recompute_task run_recompute_payload complete_recompute_task
    fail_recompute_task recompute_ok
proof
  show "recompute_ok d \<Longrightarrow> distinct (map t_id (db_tasks d))" for d by (simp add: recompute_ok_def)
  show "recompute_ok d \<Longrightarrow> recompute_ok (fst (run_recompute_payload now payload d))
      \<and> db_tasks (fst (run_recompute_payload now payload d)) = db_tasks d" for d now payload
    using job_present_jobs [OF jobs_run_recompute, of now payload d] by (simp add: recompute_ok_def tasks_run_recompute)
qed (use recompute_claims recompute_finishes in blast)+

lemma recompute_polls: "poll_worker ''recompute'' claim_recompute_task run_recompute_payload complete_recompute_task fail_recompute_task
    = process_next_recompute_task"
  by (intro ext) (unfold poll_worker_def process_next_recompute_task_def process_recompute_task_def, rule refl)

text \<open>C8. The queue of recomputations drains: polled as many times as there are tasks ready at some time, at that time or later and
  whatever the polls raise, the processor ends every one of them, with exactly one attempt, and never runs one again.  It needs the
  keys of the tasks to differ and the jobs of the tasks to exist.\<close>

theorem recompute_queue_drains:
  assumes "recompute_ok d" and "list_all (\<lambda>later. now \<le> later) nows" and "length (ready_tasks ''recompute'' now d) \<le> length nows"
  shows "list_all (\<lambda>t. case task_of (polls process_next_recompute_task nows d) (t_id t) of None \<Rightarrow> False | Some t' \<Rightarrow> ended_once t t')
      (ready_tasks ''recompute'' now d)"
  using steady_recompute.queue.drains [OF assms] unfolding recompute_polls .

definition sample_queue_db :: db where
  "sample_queue_db = empty_db\<lparr>db_jobs := [sample_job ''recompute'' PENDING],
     db_tasks := [sample_task ''recompute'' [], (sample_task ''recompute'' [(''snapshot_id'', PInt 2)])\<lparr>t_id := 3, t_available := Some 4\<rparr>]\<rparr>"

theorem recompute_queue_drains_witness:
  "list_all (\<lambda>t. case task_of (polls process_next_recompute_task [7, 9] sample_queue_db) (t_id t) of None \<Rightarrow> False | Some t' \<Rightarrow> ended_once t t')
      (ready_tasks ''recompute'' 5 sample_queue_db) \<and> length (ready_tasks ''recompute'' 5 sample_queue_db) = 2"
  using recompute_queue_drains [of sample_queue_db 5 "[7, 9]"]
  by (simp add: sample_queue_db_def sample_task_def recompute_ok_def job_present_def find_row_Cons ready_tasks_def)

section \<open>Performance runs\<close>

definition run_present :: "db \<Rightarrow> queued_task \<Rightarrow> bool" where
  "run_present d t = (case payload_int (t_payload t) ''run_id'' of Inl e \<Rightarrow> False | Inr i \<Rightarrow> find_row pr_id i (db_runs d) \<noteq> None)"

definition performance_ok :: "db \<Rightarrow> bool" where
  "performance_ok d =
     (distinct (map t_id (db_tasks d)) \<and> list_all (run_present d) (filter (\<lambda>t. t_name t = ''performance_run'') (db_tasks d)))"

lemma run_present_runs: "map pr_id (db_runs d') = map pr_id (db_runs d) \<Longrightarrow> run_present d' = run_present d"
proof (rule ext)
  fix t assume "map pr_id (db_runs d') = map pr_id (db_runs d)"
  then have "pr_id ` set (db_runs d') = pr_id ` set (db_runs d)" by (metis set_map)
  then show "run_present d' t = run_present d t" by (auto simp: run_present_def find_row_None split: sum.split)
qed

lemma performance_ok_put:
  assumes "performance_ok d" and "task_of d i = Some t" and "t_name t = ''performance_run''" and "same_place t t'"
    and "db_tasks d' = put_row t_id t' (db_tasks d)" and "map pr_id (db_runs d') = map pr_id (db_runs d)"
  shows "performance_ok d'"
proof -
  have "run_present d t" using assms(1-3) by (auto simp: performance_ok_def list_all_iff dest: find_row_Some)
  then have "run_present d t'" using assms(4) by (simp add: run_present_def same_place_def)
  then show ?thesis
    using assms(1,5) set_put [of t_id t' "db_tasks d"] by (auto simp: performance_ok_def list_all_iff run_present_runs [OF assms(6)])
qed

lemma run_keys [simp]:
  "map pr_id (db_runs (set_run r d)) = map pr_id (db_runs d)"
  "map pr_id (db_runs (snd (update_run_status r s m now d))) = map pr_id (db_runs d)"
  by (auto simp: set_run_def update_run_status_def Let_def split: option.split)

lemma run_keys_upsert: "map pr_id (db_runs (fst (upsert_result r p now d))) = map pr_id (db_runs d)"
proof -
  have st: "store_result row k i d = (x, d1) \<Longrightarrow> db_runs d1 = db_runs d" for row k i x d1
    by (auto simp: store_result_def Let_def split: option.splits)
  have re: "refresh_run_summary r1 d2 = Inr (r2, d3) \<Longrightarrow> map pr_id (db_runs d3) = map pr_id (db_runs d2)" for r1 d2 r2 d3
    by (auto simp: refresh_run_summary_def rmap_Inr_iff Let_def)
  show ?thesis
    unfolding upsert_result_def Let_def by (auto simp: st dest!: re split: option.split sum.split prod.split)
qed

lemma run_keys_store: "map pr_id (db_runs (fst (store_measurements x as r now d))) = map pr_id (db_runs d)"
proof (induction x as r now d rule: store_measurements.induct)
  case (2 x a as r now d)
  obtain d1 q where u: "upsert_result r (measured_payload x a) now d = (d1, q)" by (rule prod.exhaust)
  have "map pr_id (db_runs d1) = map pr_id (db_runs d)" using run_keys_upsert [of r "measured_payload x a" now d] by (simp add: u)
  then show ?case using 2(1) [OF u [symmetric]] by (cases q) (auto simp: u)
qed simp

lemma run_keys_groups: "map pr_id (db_runs (fst (run_groups env gs failed r now d))) = map pr_id (db_runs d)"
proof (induction env gs failed r now d rule: run_groups.induct)
  case (2 env ti as gs failed r now d)
  show ?case
  proof (cases "rbind (get_row tg_id ti (db_targets d)) (\<lambda>t. measure_target env t (pr_profile r))")
    case (Inr x)
    obtain d1 q where u: "store_measurements x as r now d = (d1, q)" by (rule prod.exhaust)
    have "map pr_id (db_runs d1) = map pr_id (db_runs d)" using run_keys_store [of x as r now d] by (simp add: u)
    then show ?thesis using 2(1) [OF Inr u [symmetric]] by (cases q) (simp_all add: Inr u)
  qed simp
qed simp

lemma run_keys_run: "map pr_id (db_runs (fst (run_performance_run env i now d))) = map pr_id (db_runs d)"
proof (cases "get_row pr_id i (db_runs d)")
  case (Inr r0)
  obtain r d1 where st: "update_run_status r0 RUNNING (run_summary [(''state'', PStr ''running'')]) now d = (r, d1)"
    by (rule prod.exhaust)
  have d1: "map pr_id (db_runs d1) = map pr_id (db_runs d)"
    using run_keys(2) [of r0 RUNNING "run_summary [(''state'', PStr ''running'')]" now d] by (simp add: st)
  show ?thesis
  proof (cases "measured_assets (pr_snapshot r) d1 = []")
    case True
    show ?thesis unfolding run_performance_run_def Inr sum.case st prod.case Let_def if_P [OF True] fst_conv run_keys d1 ..
  next
    case False
    obtain d2 q where g: "run_groups env (group_by_target (measured_assets (pr_snapshot r) d1)) 0 r now d1 = (d2, q)"
      by (rule prod.exhaust)
    have d2: "map pr_id (db_runs d2) = map pr_id (db_runs d)" using run_keys_groups [of env _ 0 r now d1] d1 g by (metis fst_conv)
    show ?thesis
      unfolding run_performance_run_def Inr sum.case st prod.case Let_def if_not_P [OF False] g
      by (cases q) (auto simp: d2 split: prod.split)
  qed
qed (simp add: run_performance_run_def)

lemma run_present_cases:
  assumes "performance_ok d" and "task_of d i = Some t" and "t_name t = ''performance_run''"
  obtains k r where "payload_int (t_payload t) ''run_id'' = Inr k" "find_row pr_id k (db_runs d) = Some r" "get_row pr_id k (db_runs d) = Inr r"
proof -
  have "run_present d t" using assms by (auto simp: performance_ok_def list_all_iff dest: find_row_Some)
  then show thesis using that by (auto simp: run_present_def get_row_def split: sum.splits)
qed

lemma performance_claims:
  assumes "performance_ok d" and "task_of d i = Some t" and "t_name t = ''performance_run''" and "t_status t = T_QUEUED"
  shows "\<exists>p t' d'. claim_performance_run_task i now d = Inr (p, d') \<and> performance_ok d' \<and> db_tasks d' = put_row t_id t' (db_tasks d)
      \<and> same_place t t' \<and> t_attempts t' = t_attempts t + 1 \<and> (p \<noteq> None \<or> t_status t' = T_CANCELLED)"
proof -
  let ?t = "t\<lparr>t_status := T_RUNNING, t_attempts := t_attempts t + 1, t_locked := Some now\<rparr>"
  have lock: "lock_task i now d = Inr (Some ?t)" using assms(4) by (simp add: lock_task_cases [OF assms(2)])
  obtain k r where r: "payload_int (t_payload t) ''run_id'' = Inr k" "get_row pr_id k (db_runs d) = Inr r"
    by (rule run_present_cases [OF assms(1-3)])
  let ?d = "if pr_status r = PENDING
      then set_run (r\<lparr>pr_status := RUNNING, pr_started := or_else (pr_started r) now,
          pr_summary := dset ''runner'' (PDict [(''state'', PStr ''queued'')]) (pr_summary r)\<rparr>) (set_task ?t d)
      else set_task ?t d"
  have "performance_ok ?d" by (rule performance_ok_put [OF assms(1-3), of ?t]) (auto simp: same_place_def set_task_def set_run_def)
  then show ?thesis
    by (intro exI [of _ "Some (t_payload t)"] exI [of _ ?t] exI [of _ ?d])
      (auto simp: claim_performance_run_task_def lock r same_place_def set_task_def set_run_def Let_def)
qed

lemma performance_finishes:
  assumes "performance_ok d" and "task_of d i = Some t" and "t_name t = ''performance_run''"
  shows "\<exists>q t' d'. complete_performance_run_task i now r d = Inr (q, d') \<and> performance_ok d' \<and> db_tasks d' = put_row t_id t' (db_tasks d)
      \<and> same_place t t' \<and> t_attempts t' = t_attempts t \<and> terminal_task t'"
    and "\<exists>t' d'. fail_performance_run_task i now e d = Inr d' \<and> performance_ok d' \<and> db_tasks d' = put_row t_id t' (db_tasks d)
      \<and> same_place t t' \<and> t_attempts t' = t_attempts t \<and> terminal_task t'"
proof -
  let ?c = "t\<lparr>t_status := T_COMPLETED, t_last_error := None\<rparr>" and ?f = "t\<lparr>t_status := T_FAILED, t_last_error := Some (exc_str e)\<rparr>"
  have row: "get_row t_id i (db_tasks d) = Inr t" using assms(2) by (simp add: get_row_def)
  note put = performance_ok_put [OF assms]
  have "performance_ok (set_task ?c d)" by (rule put [of ?c]) (simp_all add: same_place_def set_task_def)
  then show "\<exists>q t' d'. complete_performance_run_task i now r d = Inr (q, d') \<and> performance_ok d' \<and> db_tasks d' = put_row t_id t' (db_tasks d)
      \<and> same_place t t' \<and> t_attempts t' = t_attempts t \<and> terminal_task t'"
    by (intro exI [of _ r] exI [of _ ?c] exI [of _ "set_task ?c d"])
      (simp add: complete_performance_run_task_def row set_task_def same_place_def terminal_task_def)
  obtain k x where x: "payload_int (t_payload t) ''run_id'' = Inr k" "find_row pr_id k (db_runs d) = Some x"
    by (rule run_present_cases [OF assms])
  let ?d = "snd (update_run_status x FAILED (run_summary [(''state'', PStr ''failed''), (''error'', PStr (take 255 (exc_str e)))]) now (set_task ?f d))"
  have q: "db_tasks (snd (update_run_status a s m now b)) = db_tasks b" for a s m b
    using tasks_update_run_status [of a s m now b] by (cases "update_run_status a s m now b") simp
  have "performance_ok ?d" by (rule put [of ?f]) (simp_all add: q same_place_def set_task_def)
  then show "\<exists>t' d'. fail_performance_run_task i now e d = Inr d' \<and> performance_ok d' \<and> db_tasks d' = put_row t_id t' (db_tasks d)
      \<and> same_place t t' \<and> t_attempts t' = t_attempts t \<and> terminal_task t'"
    by (intro exI [of _ ?f] exI [of _ ?d])
      (simp add: fail_performance_run_task_def row x q Let_def same_place_def terminal_task_def set_task_def)
qed

interpretation steady_performance: steady_worker "''performance_run''" claim_performance_run_task "run_performance_payload env"
    complete_performance_run_task fail_performance_run_task performance_ok for env
proof
  show "performance_ok d \<Longrightarrow> distinct (map t_id (db_tasks d))" for d by (simp add: performance_ok_def)
  show "performance_ok d \<Longrightarrow> performance_ok (fst (run_performance_payload env now payload d))
      \<and> db_tasks (fst (run_performance_payload env now payload d)) = db_tasks d" for d now payload
    using run_present_runs [OF run_keys_run, of env _ now d]
    by (auto simp: run_performance_payload_def performance_ok_def tasks_run_performance_run split: sum.split)
qed (use performance_claims performance_finishes in blast)+

lemma performance_polls: "poll_worker ''performance_run'' claim_performance_run_task (run_performance_payload env) complete_performance_run_task
    fail_performance_run_task = process_next_performance_run_task env"
  by (intro ext) (unfold poll_worker_def process_next_performance_run_task_def process_performance_run_task_def, rule refl)

lemma performance_queue_drains:
  assumes "performance_ok d" and "list_all (\<lambda>later. now \<le> later) nows" and "length (ready_tasks ''performance_run'' now d) \<le> length nows"
  shows "list_all (\<lambda>t. case task_of (polls (process_next_performance_run_task env) nows d) (t_id t) of None \<Rightarrow> False | Some t' \<Rightarrow> ended_once t t')
      (ready_tasks ''performance_run'' now d)"
  using steady_performance.queue.drains [OF assms] unfolding performance_polls .

section \<open>A deletion and the command\<close>

text \<open>The foreign keys give the jobs of the recomputations.\<close>

lemma references_recompute: "references_ok d \<Longrightarrow> distinct (map t_id (db_tasks d)) \<Longrightarrow> recompute_ok d"
  by (auto simp: references_ok_def queue_refs_ok_def recompute_ok_def job_present_def list_all_iff find_row_None split: option.splits)

lemma no_runs_after_delete:
  assumes "references_ok d"
  shows "db_runs (snd (delete_snapshot_results d)) = []"
proof -
  have "list_all (\<lambda>r. keys_of sn_id (\<lambda>s. True) (db_snapshots d) (pr_snapshot r)) (db_runs d)"
    using assms by (simp add: references_ok_def inventory_refs_ok_def list_all_iff keys_of_def)
  then have "db_runs (delete_snapshots (keys_of sn_id (\<lambda>s. True) (db_snapshots d)) d) = []"
    by (auto simp: delete_snapshots_def Let_def delete_runs_def delete_assets_def list_all_iff keys_of_iff filter_empty_conv)
  then show ?thesis by (simp add: delete_snapshot_results_def delete_jobs_def delete_scan_jobs_def delete_discoveries_def Let_def)
qed

lemma jobless_task_survives_delete:
  "t \<in> set (db_tasks d) \<Longrightarrow> t_job t = None \<Longrightarrow> t \<in> set (db_tasks (snd (delete_snapshot_results d)))"
  by (auto simp: delete_snapshot_results_def delete_jobs_def delete_scan_jobs_def delete_discoveries_def delete_snapshots_def
      delete_runs_def delete_assets_def Let_def)

lemma missing_run_raises:
  assumes "next_task ''performance_run'' now d = Some t" and "distinct (map t_id (db_tasks d))"
    and "payload_int (t_payload t) ''run_id'' = Inr i" and "db_runs d = []"
  shows "process_next_performance_run_task env now d = (d, Inl (DoesNotExist ''matching query does not exist.''))"
proof -
  have r: "t \<in> set (ready_tasks ''performance_run'' now d)" by (rule next_task_ready [OF assms(1)])
  then have "task_of d (t_id t) = Some t" using find_row_unique [OF assms(2), of t] by (simp add: ready_tasks_def)
  then have "claim_performance_run_task (t_id t) now d = Inl (DoesNotExist ''matching query does not exist.'')"
    using r assms(3,4) by (simp add: claim_performance_run_task_def lock_task_cases ready_tasks_def get_row_def)
  then show ?thesis
    using assms(1) by (simp add: process_next_performance_run_task_def process_performance_run_task_def run_worker_def)
qed

lemma others_idle:
  assumes "list_all (\<lambda>(n, k). next_task n (clock k) d = None)
      [(''scan_job'', 0), (''discovery'', Suc 0), (''recompute'', Suc (Suc 0)), (''qualitative_assessment'', Suc (Suc (Suc 0)))]"
    and "process_next_performance_run_task (sv_runner s) (clock (Suc (Suc (Suc (Suc 0))))) d = (d, Inl e)"
  shows "run_processors (processors s) clock 0 d = (d, [], Some e)"
  using assms by (simp add: processors_def process_next_scan_job_task_def process_next_discovery_task_def process_next_recompute_task_def
      process_next_qualitative_assessment_task_def QUALITATIVE_TASK_NAME_def)

text \<open>C9. Deleting the snapshots while a performance run is queued stops the worker: the task of the run has no job, so it outlives the
  run, and when the other queues are empty every pass of the command ends in the same exception with nothing done, however often
  it is started again and whatever the world answers.\<close>

theorem deletion_stops_worker:
  assumes "references_ok d" and "after = snd (delete_snapshot_results d)" and "distinct (map t_id (db_tasks after))"
    and "next_task ''performance_run'' (clock 4) after = Some t" and "payload_int (t_payload t) ''run_id'' = Inr i"
    and "list_all (\<lambda>(n, k). next_task n (clock k) after = None)
      [(''scan_job'', 0), (''discovery'', 1), (''recompute'', 2), (''qualitative_assessment'', 3)]"
  shows "handle loop (\<lambda>n. s) (\<lambda>n. clock) (Suc n) after = (after, [], Some (DoesNotExist ''matching query does not exist.''))"
proof -
  have "process_next_performance_run_task (sv_runner s) (clock (Suc (Suc (Suc (Suc 0))))) after =
      (after, Inl (DoesNotExist ''matching query does not exist.''))"
    using assms(4) by (intro missing_run_raises [of _ _ t i] assms(3,5))
      (simp_all add: numeral_eq_Suc assms(2) no_runs_after_delete [OF assms(1)])
  then have "run_processors (processors s) clock 0 after = (after, [], Some (DoesNotExist ''matching query does not exist.''))"
    using assms(6) by (intro others_idle) (simp_all add: numeral_eq_Suc)
  then show ?thesis by (simp add: handle_def)
qed

text \<open>A queued run, as the endpoint that creates it leaves it.\<close>

definition queued_run_db :: db where
  "queued_run_db = enqueue_run sample_run 3 (empty_db\<lparr>db_snapshots := [Performance_Service.sample_snapshot 2], db_runs := [sample_run]\<rparr>)"

theorem deletion_stops_worker_witness:
  "\<forall>s. let after = snd (delete_snapshot_results queued_run_db)
   in handle True (\<lambda>n. s) (\<lambda>n k. 7) (Suc 4) after = (after, [], Some (DoesNotExist ''matching query does not exist.''))"
proof -
  have t: "next_task ''performance_run'' 7 (snd (delete_snapshot_results queued_run_db)) =
      Some \<lparr>t_id = 1, t_job = None, t_name = ''performance_run'', t_payload = [(''run_id'', PInt 5), (''snapshot_id'', PInt 2)],
        t_status = T_QUEUED, t_attempts = 0, t_available = Some 3, t_locked = None, t_last_error = None\<rparr>" (is "_ = Some ?t")
    by code_simp
  have "references_ok queued_run_db" by code_simp
  moreover have "distinct (map t_id (db_tasks (snd (delete_snapshot_results queued_run_db))))" by code_simp
  moreover have "payload_int (t_payload ?t) ''run_id'' = Inr 5" by code_simp
  moreover have "list_all (\<lambda>(n, k). next_task n ((\<lambda>k::nat. 7) k) (snd (delete_snapshot_results queued_run_db)) = None)
      [(''scan_job'', 0::nat), (''discovery'', 1), (''recompute'', 2), (''qualitative_assessment'', 3)]" by code_simp
  ultimately show ?thesis
    unfolding Let_def using deletion_stops_worker [OF _ refl _ t, where loop = True and n = 4] by blast
qed

end
