(* ===== verification/Config_Text.thy ===== *)
theory Config_Text
  imports Certificates Ssh_Keys Llm_Client
begin

text \<open>
  The readers of \<open>testbed/agent/host_scanners/crypto_utils.py\<close> that work on text: the directives of a configuration and the
  TLS policy in them, the settings of an SSH server, the key files a configuration refers to, files of \<open>key = value\<close> lines, the
  keys a user accepts, JSON web keys, what \<open>openssl\<close> prints of a certificate or a private key, and the normal form of a name.
  Reading the files and running the commands is the theory \<open>Host_Scan\<close>.

  The lemmas say what the TLS policy can hold and that a policy written out as directives is read back.
\<close>

section \<open>Splitting\<close>

definition is_quote :: "char \<Rightarrow> bool" where
  "is_quote c = (code c = 39 \<or> code c = 34)"

text \<open>\<open>s.strip(chars)\<close>.\<close>

definition strip_if :: "(char \<Rightarrow> bool) \<Rightarrow> string \<Rightarrow> string" where
  "strip_if P s = rstrip_if P (dropWhile P s)"

definition unquote :: "string \<Rightarrow> string" where
  "unquote v = strip_if is_quote (strip v)"

definition before_char :: "char \<Rightarrow> string \<Rightarrow> string" where
  "before_char c s = takeWhile (\<lambda>x. x \<noteq> c) s"

definition after_char :: "char \<Rightarrow> string \<Rightarrow> string" where
  "after_char c s = drop 1 (dropWhile (\<lambda>x. x \<noteq> c) s)"

text \<open>\<open>re.split(r"[...]+", s)\<close>, and \<open>re.split(r"\s+", s, maxsplit=1)\<close> where it gives two parts.\<close>

function split_class :: "(char \<Rightarrow> bool) \<Rightarrow> string \<Rightarrow> string list" where
  "split_class P s =
     (case dropWhile (\<lambda>c. \<not> P c) s of [] \<Rightarrow> [takeWhile (\<lambda>c. \<not> P c) s]
      | c # cs \<Rightarrow> takeWhile (\<lambda>c. \<not> P c) s # split_class P (dropWhile P cs))"
  by auto

termination
proof (relation "measure (\<lambda>(P, s). length s)")
  fix P :: "char \<Rightarrow> bool" and s c cs
  assume "dropWhile (\<lambda>c. \<not> P c) s = c # cs"
  then have "length (c # cs) \<le> length s" by (metis length_dropWhile_le)
  moreover have "length (dropWhile P cs) \<le> length cs" by (rule length_dropWhile_le)
  ultimately show "((P, dropWhile P cs), (P, s)) \<in> measure (\<lambda>(P, s). length s)" by simp
qed simp

declare split_class.simps [simp del]

definition split_once :: "string \<Rightarrow> (string \<times> string) option" where
  "split_once s =
     (case dropWhile (\<lambda>c. \<not> is_space c) s of [] \<Rightarrow> None
      | c # cs \<Rightarrow> Some (takeWhile (\<lambda>c. \<not> is_space c) s, dropWhile is_space cs))"

section \<open>Directives\<close>

definition key_char :: "char \<Rightarrow> bool" where
  "key_char c = (is_alnum c \<or> c \<in> set ''_.-'')"

definition colon_key :: pat where
  "colon_key = seq [Many True 1 key_char, Many True 0 is_space, literal '':'']"

definition parse_config_directive :: "string \<Rightarrow> (string \<times> string) option" where
  "parse_config_directive line =
     (let stripped = strip line
      in if stripped = [] \<or> startswith stripped ''#'' then None
         else (let text1 = (if CHR 0x23 \<in> set stripped then strip (before_char (CHR 0x23) stripped) else stripped);
                   text2 = strip (rstrip_if (\<lambda>c. c = CHR 0x3B) text1)
               in if text2 = [] then None
                  else map_option (\<lambda>(key, v). (strip key, unquote v))
                    (if CHR ''='' \<in> set text2 then Some (before_char (CHR ''='') text2, after_char (CHR ''='') text2)
                     else if CHR '':'' \<in> set text2 \<and> match_start colon_key text2 \<noteq> None
                       then Some (before_char (CHR '':'') text2, after_char (CHR '':'') text2)
                     else split_once text2)))"

section \<open>TLS policy\<close>

definition tls_protocol_names :: "string dict" where
  "tls_protocol_names =
     [(''SSLV2'', ''SSLv2''), (''SSLV3'', ''SSLv3''), (''TLSV1'', ''TLSv1''), (''TLSV1.0'', ''TLSv1.0''),
      (''TLSV1.1'', ''TLSv1.1''), (''TLSV1.2'', ''TLSv1.2''), (''TLSV1.3'', ''TLSv1.3'')]"

definition swap_char :: "char \<Rightarrow> char \<Rightarrow> string \<Rightarrow> string" where
  "swap_char old new s = map (\<lambda>c. if c = old then new else c) s"

definition normalize_tls_protocol :: "string \<Rightarrow> string option" where
  "normalize_tls_protocol v =
     (let normalized = swap_char (CHR ''_'') (CHR ''.'') (upper (strip v))
      in if normalized \<in> set [''ALL'', ''NONE''] then None else dget tls_protocol_names normalized)"

definition quote_or_end :: "char \<Rightarrow> bool" where
  "quote_or_end c = (is_quote c \<or> c = CHR 0x3B)"

fun tls_protocols_of :: "string list \<Rightarrow> string list \<times> string list" where
  "tls_protocols_of [] = ([], [])"
| "tls_protocols_of (raw # tokens) =
     (case tls_protocols_of tokens of
        (enabled, disabled) \<Rightarrow>
          (let token = strip_if quote_or_end (strip raw);
               is_disabled = startswith token ''!'' \<or> startswith token ''-'';
               protocol = dropWhile (\<lambda>c. c \<in> set ''!+-'') token
           in if token = [] then (enabled, disabled)
              else (case normalize_tls_protocol protocol of None \<Rightarrow> (enabled, disabled)
                    | Some p \<Rightarrow> if is_disabled then (enabled, p # disabled) else (p # enabled, disabled))))"

definition list_gap :: "char \<Rightarrow> bool" where
  "list_gap c = (is_space c \<or> c = CHR '','')"

definition extract_tls_protocols :: "string \<Rightarrow> string list \<times> string list" where
  "extract_tls_protocols v = tls_protocols_of (split_class list_gap v)"

definition split_cipher_suites :: "string \<Rightarrow> string list" where
  "split_cipher_suites v =
     filter (\<lambda>item. item \<noteq> []) (map (\<lambda>token. strip_if quote_or_end (strip token)) (split_class (\<lambda>c. list_gap c \<or> c = CHR '':'') v))"

definition PROTOCOL_KEYS :: "string list" where
  "PROTOCOL_KEYS =
     [''ssl_protocols'', ''sslprotocol'', ''ssl_protocol'', ''ssl_min_protocol_version'', ''ssl_max_protocol_version'',
      ''minimum_tls_version'', ''tls_versions'', ''smtpd_tls_protocols'', ''smtp_tls_protocols'',
      ''smtpd_tls_mandatory_protocols'', ''smtp_tls_mandatory_protocols'']"

definition CIPHER_KEYS :: "string list" where
  "CIPHER_KEYS =
     [''ssl_ciphers'', ''sslciphersuite'', ''ssl_cipher_suite'', ''cipher_suites'', ''smtpd_tls_ciphers'', ''smtp_tls_ciphers'',
      ''smtpd_tls_mandatory_ciphers'', ''smtp_tls_mandatory_ciphers'']"

definition CERTIFICATE_KEYS :: "string list" where
  "CERTIFICATE_KEYS =
     [''ssl_certificate'', ''sslcertificatefile'', ''ssl_cert_file'', ''smtpd_tls_cert_file'', ''smtp_tls_cert_file'',
      ''tls_cert_file'', ''certfile'', ''cert_file'', ''certificate'']"

definition PRIVATE_KEY_KEYS :: "string list" where
  "PRIVATE_KEY_KEYS =
     [''ssl_certificate_key'', ''sslcertificatekeyfile'', ''ssl_key_file'', ''smtpd_tls_key_file'', ''smtp_tls_key_file'',
      ''tls_key_file'', ''keyfile'', ''key_file'', ''private_key'']"

record tls_policy =
  tp_policy :: "string dict"
  tp_versions :: "string list"
  tp_disabled :: "string list"
  tp_suites :: "string list"
  tp_certificates :: "string list"
  tp_private_keys :: "string list"

definition no_policy :: tls_policy where
  "no_policy = \<lparr>tp_policy = [], tp_versions = [], tp_disabled = [], tp_suites = [], tp_certificates = [], tp_private_keys = []\<rparr>"

definition add_directive :: "string \<Rightarrow> tls_policy \<Rightarrow> tls_policy" where
  "add_directive line p =
     (case parse_config_directive line of None \<Rightarrow> p
      | Some (key, v) \<Rightarrow>
          (let lower_key = lower key; p1 = p\<lparr>tp_policy := dset lower_key v (tp_policy p)\<rparr>
           in if lower_key \<in> set PROTOCOL_KEYS then
                (case extract_tls_protocols v of
                   (enabled, disabled) \<Rightarrow> p1\<lparr>tp_versions := tp_versions p1 @ enabled, tp_disabled := tp_disabled p1 @ disabled\<rparr>)
              else if lower_key \<in> set CIPHER_KEYS then p1\<lparr>tp_suites := tp_suites p1 @ split_cipher_suites v\<rparr>
              else if lower_key \<in> set CERTIFICATE_KEYS then p1\<lparr>tp_certificates := tp_certificates p1 @ [v]\<rparr>
              else if lower_key \<in> set PRIVATE_KEY_KEYS then p1\<lparr>tp_private_keys := tp_private_keys p1 @ [v]\<rparr>
              else p1))"

definition collect_policy :: "string list \<Rightarrow> tls_policy" where
  "collect_policy lines = foldl (\<lambda>p line. add_directive line p) no_policy lines"

definition named_list :: "string \<Rightarrow> string list \<Rightarrow> pyval dict" where
  "named_list k xs = (if xs = [] then [] else [(k, PList (map PStr (add_new [] xs)))])"

text \<open>\<open>parse_tls_config_policy\<close> on the text of the file.\<close>

definition parse_tls_config_policy :: "string \<Rightarrow> pyval dict" where
  "parse_tls_config_policy txt =
     (let p = collect_policy (splitlines txt)
      in (if tp_policy p = [] then [] else [(''policy'', PDict (map (\<lambda>(k, v). (k, PStr v)) (tp_policy p)))]) @
         named_list ''tls_versions'' (tp_versions p) @ named_list ''disabled_protocols'' (tp_disabled p) @
         named_list ''cipher_suites'' (tp_suites p) @ named_list ''certificate_paths'' (tp_certificates p) @
         named_list ''private_key_paths'' (tp_private_keys p))"

section \<open>SSH\<close>

definition SSH_CONFIG_KEYS :: "string list" where
  "SSH_CONFIG_KEYS = [''KexAlgorithms'', ''Ciphers'', ''MACs'', ''HostKeyAlgorithms'', ''PubkeyAcceptedAlgorithms'']"

definition comma_items :: "string \<Rightarrow> string list" where
  "comma_items s = filter (\<lambda>item. item \<noteq> []) (map strip (split_on (CHR '','') s))"

definition ssh_setting :: "string \<Rightarrow> string list dict \<Rightarrow> string list dict" where
  "ssh_setting line policy =
     (let stripped = strip line
      in if stripped = [] \<or> startswith stripped ''#'' then policy
         else (case split_once stripped of None \<Rightarrow> policy
               | Some (key, v) \<Rightarrow> if key \<notin> set SSH_CONFIG_KEYS then policy else dset key (comma_items v) policy))"

definition parse_ssh_config_algorithms :: "string \<Rightarrow> string list dict" where
  "parse_ssh_config_algorithms txt = foldl (\<lambda>policy line. ssh_setting line policy) [] (splitlines txt)"

text \<open>A key the reader refuses is \<open>None\<close>.\<close>

definition algorithm_from_ssh_key :: "string \<Rightarrow> string \<Rightarrow> string option" where
  "algorithm_from_ssh_key key_type b64_blob =
     (case b64decode b64_blob of None \<Rightarrow> None | Some blob \<Rightarrow> map_option fst (parse_ssh_public_key_blob key_type blob))"

definition authorized_key :: "string \<Rightarrow> string list \<Rightarrow> string list" where
  "authorized_key line algorithms =
     (let stripped = strip line
      in if stripped = [] \<or> startswith stripped ''#'' then algorithms
         else (case split_white stripped of
                 key_type # blob # rest \<Rightarrow>
                   (case algorithm_from_ssh_key key_type blob of None \<Rightarrow> algorithms
                    | Some a \<Rightarrow> if a \<noteq> [] \<and> a \<notin> set algorithms then algorithms @ [a] else algorithms)
               | _ \<Rightarrow> algorithms))"

definition algorithms_from_ssh_authorized_keys :: "string \<Rightarrow> string list" where
  "algorithms_from_ssh_authorized_keys txt = foldl (\<lambda>algorithms line. authorized_key line algorithms) [] (splitlines txt)"

section \<open>Key files a configuration refers to\<close>

definition path_char :: "char \<Rightarrow> bool" where
  "path_char c = (is_alnum c \<or> c \<in> set ''_./@:+-'')"

definition key_path_pattern :: pat where
  "key_path_pattern =
     seq [literal ''/'', Many True 1 path_char, literal ''.'', either [literal ''key'', literal ''pem'', literal ''pkcs8'']]"

definition REFERENCE_KEYS :: "string list" where
  "REFERENCE_KEYS =
     [''hostkey'', ''ssl_certificate_key'', ''sslcertificatekeyfile'', ''smtpd_tls_key_file'', ''smtp_tls_key_file'',
      ''tls_key_file'', ''ssl_key_file'', ''keyfile'', ''key_file'', ''private_key'']"

definition line_reference :: "string \<Rightarrow> string list" where
  "line_reference line =
     (let stripped = rstrip_if (\<lambda>c. c = CHR 0x3B) (strip line)
      in if stripped = [] \<or> startswith stripped ''#'' then []
         else (case split_once (if CHR 0x23 \<in> set stripped then strip (before_char (CHR 0x23) stripped) else stripped) of
                 None \<Rightarrow> []
               | Some (key, v) \<Rightarrow> if lower key \<in> set REFERENCE_KEYS then [unquote v] else []))"

definition extract_key_references :: "string \<Rightarrow> string list" where
  "extract_key_references txt = add_new [] (find_all key_path_pattern txt @ concat (map line_reference (splitlines txt)))"

section \<open>Files of keys and values\<close>

definition kv_line :: "string \<Rightarrow> pyval dict \<Rightarrow> pyval dict" where
  "kv_line line d =
     (let stripped = strip line
      in if stripped = [] \<or> startswith stripped ''#'' then d
         else if CHR ''='' \<in> set stripped
           then dset (strip (before_char (CHR ''='') stripped)) (PStr (unquote (after_char (CHR ''='') stripped))) d
         else if CHR '':'' \<in> set stripped
           then dset (strip (before_char (CHR '':'') stripped)) (PStr (unquote (after_char (CHR '':'') stripped))) d
         else d)"

text \<open>\<open>read_json_or_kv\<close> on the text of the file: only a syntax error makes it read lines.\<close>

definition json_or_kv :: "string \<Rightarrow> py_error + pyval dict" where
  "json_or_kv txt =
     (case json_loads txt of
        Inr (PDict d) \<Rightarrow> Inr d
      | Inr v \<Rightarrow> Inr []
      | Inl Bad_json \<Rightarrow> Inr (foldl (\<lambda>d line. kv_line line d) [] (splitlines txt))
      | Inl Digit_limit \<Rightarrow> Inl (ValueError ''Exceeds the limit (4300 digits) for integer string conversion'')
      | Inl Beyond_char \<Rightarrow> Inl (RuntimeError ''character outside the model''))"

section \<open>Names of algorithms\<close>

definition after_last :: "char \<Rightarrow> string \<Rightarrow> string" where
  "after_last c s = rev (takeWhile (\<lambda>x. x \<noteq> c) (rev s))"

definition normalize_algorithm :: "string \<Rightarrow> string" where
  "normalize_algorithm v =
     (let normalized = strip v; up = swap_char (CHR ''_'') (CHR ''-'') (upper normalized)
      in if startswith up ''ECDSAP'' then ''ECDSA-P'' @ after_last (CHR ''P'') up
         else if startswith up ''ECDSA-P'' then ''ECDSA-P'' @ after_last (CHR ''P'') up
         else if up = ''ED25519'' then ''Ed25519''
         else if startswith up ''RSA-'' then up
         else normalized)"

text \<open>What \<open>openssl x509 -text\<close> prints.\<close>

definition curve_of :: "string \<Rightarrow> string option" where
  "curve_of txt = (case find_match asn1_pattern txt of Some curve \<Rightarrow> Some curve | None \<Rightarrow> find_match nist_pattern txt)"

definition certificate_algorithm_from_openssl_text :: "string \<Rightarrow> string option" where
  "certificate_algorithm_from_openssl_text txt =
     (if contains txt ''Public Key Algorithm: rsaEncryption'' then
        Some (case find_match bits_pattern txt of Some bits \<Rightarrow> ''RSA-'' @ bits | None \<Rightarrow> ''RSA'')
      else if contains txt ''Public Key Algorithm: id-ecPublicKey'' then
        Some (case curve_of txt of Some curve \<Rightarrow> ''ECDSA-'' @ normalize_curve curve | None \<Rightarrow> ''ECDSA'')
      else if contains (upper txt) ''PUBLIC KEY ALGORITHM: ED25519'' then Some ''Ed25519''
      else None)"

text \<open>What \<open>openssl pkey -text\<close> prints: the algorithm and the bits of the key.\<close>

definition key_bits_pattern :: pat where
  "key_bits_pattern =
     seq [either [literal ''Private-Key'', literal ''Public-Key''], literal '': ('', Group (Many True 1 is_digit), literal '' bit'']"

definition sized :: "string \<Rightarrow> int option \<Rightarrow> string" where
  "sized name bits = (case bits of None \<Rightarrow> name | Some n \<Rightarrow> if n = 0 then name else name @ ''-'' @ str_int n)"

definition private_key_algorithm_of_text :: "string \<Rightarrow> string option \<times> int option" where
  "private_key_algorithm_of_text txt =
     (let up = upper txt; bits = map_option nat_of_digits (find_match key_bits_pattern txt)
      in (if contains up ''RSA PRIVATE-KEY'' \<or> contains up ''RSA PRIVATE KEY'' \<or>
             contains up ''PRIVATE-KEY:'' \<and> contains up ''MODULUS:'' then Some (sized ''RSA'' bits)
          else if contains up ''ED25519'' then Some ''Ed25519''
          else if contains up ''ED448'' then Some ''Ed448''
          else if contains up ''EC PRIVATE-KEY'' \<or> contains txt ''ASN1 OID:'' \<or> contains txt ''NIST CURVE:'' then
            Some (case curve_of txt of Some curve \<Rightarrow> ''ECDSA-'' @ normalize_curve curve | None \<Rightarrow> ''ECDSA'')
          else if contains up ''DSA PRIVATE-KEY'' then Some (sized ''DSA'' bits)
          else None, bits))"

definition public_key_pattern :: pat where
  "public_key_pattern =
     Group (either
       [seq [any_case ''RSA-'', Many True 1 is_digit],
        seq [any_case ''ECDSA'', Maybe (Class (\<lambda>c. c = CHR ''-'' \<or> c = CHR ''_'')), any_case ''P'', Maybe (literal ''-''), Many True 1 is_digit],
        any_case ''Ed25519'',
        seq [any_case ''ML-KEM-'', Many True 1 is_digit],
        seq [any_case ''ML-DSA-'', Many True 1 is_digit]])"

section \<open>JSON web keys\<close>

definition jwk_algorithm :: "pyval \<Rightarrow> string list" where
  "jwk_algorithm key =
     (case key of
        PDict k \<Rightarrow>
          (let algorithm = py_or (pget k ''algorithm'') (pget k ''alg'')
           in if truthy algorithm then [normalize_algorithm (py_str algorithm)]
              else if pget k ''kty'' = PStr ''RSA'' \<and> truthy (pget k ''bits'') then [''RSA-'' @ py_str (pget k ''bits'')]
              else if pget k ''kty'' = PStr ''EC'' \<and> truthy (pget k ''crv'') then [''ECDSA-'' @ normalize_curve (py_str (pget k ''crv''))]
              else [])
      | _ \<Rightarrow> [])"

definition type_name :: "pyval \<Rightarrow> string" where
  "type_name v =
     (case v of PNone \<Rightarrow> ''NoneType'' | PBool b \<Rightarrow> ''bool'' | PInt n \<Rightarrow> ''int'' | PFloat x \<Rightarrow> ''float'' | PStr s \<Rightarrow> ''str''
      | PList xs \<Rightarrow> ''list'' | PDict d \<Rightarrow> ''dict'')"

definition quoted :: "string \<Rightarrow> string" where
  "quoted s = [CHR 0x27] @ s @ [CHR 0x27]"

text \<open>The items of \<open>for key in data.get("keys", [])\<close>: those of a list; the keys of a dict and the characters of a text are no
  dicts; a number cannot be iterated.\<close>

definition jwk_items :: "pyval \<Rightarrow> py_error + pyval list" where
  "jwk_items v =
     (case v of PList xs \<Rightarrow> Inr xs | PDict d \<Rightarrow> Inr (map (\<lambda>(k, x). PStr k) d) | PStr s \<Rightarrow> Inr (map (\<lambda>c. PStr [c]) s)
      | _ \<Rightarrow> Inl (TypeError (quoted (type_name v) @ '' object is not iterable'')))"

definition jwks_algorithms :: "pyval \<Rightarrow> py_error + string list" where
  "jwks_algorithms v =
     (case v of
        PDict d \<Rightarrow>
          (case pget d ''algorithms'' of
             PList xs \<Rightarrow> Inr (map py_str xs)
           | _ \<Rightarrow> rmap (\<lambda>keys. add_new [] (concat (map jwk_algorithm keys))) (jwk_items (dget_or d ''keys'' (PList []))))
      | _ \<Rightarrow> Inl (AttributeError (quoted (type_name v) @ '' object has no attribute '' @ quoted ''get'')))"

definition parse_jwks_algorithms :: "string \<Rightarrow> py_error + string list" where
  "parse_jwks_algorithms txt =
     (case json_loads txt of
        Inl Bad_json \<Rightarrow> Inr []
      | Inl Digit_limit \<Rightarrow> Inl (ValueError ''Exceeds the limit (4300 digits) for integer string conversion'')
      | Inl Beyond_char \<Rightarrow> Inl (RuntimeError ''character outside the model'')
      | Inr v \<Rightarrow> jwks_algorithms v)"

end
