(* ===== verification/Host_Scan.thy ===== *)
theory Host_Scan
  imports Config_Text Utf8 Scan_Assets Job_Queue
begin

text \<open>
  The host scanners of the agent: \<open>testbed/agent/host_scanners/registry.py\<close> and the readers of files and commands of
  \<open>crypto_utils.py\<close>.  The host is the record \<open>disk\<close>: its environment, its files and what \<open>openssl\<close> answers.  A path is the
  text \<open>str(Path(p))\<close>.  An exception is its message, which is all \<open>run_host_scan\<close> keeps of it; the left value of a file
  operation is an \<open>OSError\<close>.  A directory is a list of paths in which an error may stand, as \<open>rglob\<close> is lazy.

  The lemmas give the files a scanner looks at and the types of the findings, which the backend's mapper knows.
\<close>

record disk =
  di_env :: "string \<Rightarrow> string option"
  di_node :: string
  di_clock :: "nat \<Rightarrow> string"
  di_exists :: "string \<Rightarrow> string + bool"
  di_is_file :: "string \<Rightarrow> string + bool"
  di_tree :: "string \<Rightarrow> (string + string) list"
  di_read :: "string \<Rightarrow> string + string"
  di_codec_error :: "string \<Rightarrow> string"
  di_openssl :: "string list \<Rightarrow> string + string option"
  di_x509_text :: "string \<Rightarrow> string + string option"

definition env_or :: "disk \<Rightarrow> string \<Rightarrow> string \<Rightarrow> string" where
  "env_or d k dflt = (case di_env d k of None \<Rightarrow> dflt | Some v \<Rightarrow> v)"

text \<open>An exception of the pure readers, as its message.\<close>

definition raised :: "py_error + 'a \<Rightarrow> string + 'a" where
  "raised r = (case r of Inl e \<Rightarrow> Inl (exc_str e) | Inr x \<Rightarrow> Inr x)"

section \<open>Paths\<close>

definition path_parts :: "string \<Rightarrow> string list" where
  "path_parts s = filter (\<lambda>p. p \<noteq> [] \<and> p \<noteq> ''.'') (split_on (CHR ''/'') s)"

definition path_of :: "string \<Rightarrow> string" where
  "path_of s =
     (let root = (if startswith s ''//'' \<and> \<not> startswith s ''///'' then ''//'' else if startswith s ''/'' then ''/'' else [])
      in or_str (root @ join ''/'' (path_parts s)) ''.'')"

definition path_name :: "string \<Rightarrow> string" where
  "path_name p = (case rev (path_parts p) of [] \<Rightarrow> [] | n # ns \<Rightarrow> n)"

definition name_suffix :: "string \<Rightarrow> string" where
  "name_suffix n =
     (let ext = after_last (CHR ''.'') n
      in if CHR ''.'' \<in> set n \<and> ext \<noteq> [] \<and> length ext + 1 < length n then CHR ''.'' # ext else [])"

definition path_suffix :: "string \<Rightarrow> string" where
  "path_suffix p = name_suffix (path_name p)"

section \<open>Files\<close>

text \<open>The line ends of a text file.\<close>

fun universal_newlines :: "bool \<Rightarrow> string \<Rightarrow> string" where
  "universal_newlines after_cr [] = []"
| "universal_newlines after_cr (c # cs) =
     (if code c = 13 then CHR 0x0A # universal_newlines True cs
      else if code c = 10 \<and> after_cr then universal_newlines False cs
      else c # universal_newlines False cs)"

definition read_text :: "disk \<Rightarrow> string \<Rightarrow> string + string option" where
  "read_text d p = (case di_read d p of Inl m \<Rightarrow> Inl m | Inr bs \<Rightarrow> Inr (map_option (universal_newlines False) (decode_utf8 bs)))"

text \<open>\<open>errors="ignore"\<close>: what is no character is left out.\<close>

definition read_text_ignore :: "disk \<Rightarrow> string \<Rightarrow> string + string" where
  "read_text_ignore d p =
     (case di_read d p of Inl m \<Rightarrow> Inl m
      | Inr bs \<Rightarrow> Inr (universal_newlines False (map the (filter (\<lambda>u. u \<noteq> None) (utf8_units bs)))))"

definition configured_paths :: "disk \<Rightarrow> string \<Rightarrow> string list \<Rightarrow> string list" where
  "configured_paths d env_name defaults =
     (let raw = env_or d env_name []
      in map path_of (if raw \<noteq> [] then filter (\<lambda>item. item \<noteq> []) (map strip (split_on (CHR '':'') raw)) else defaults))"

definition existing_defaults :: "disk \<Rightarrow> string list \<Rightarrow> string list" where
  "existing_defaults d paths = filter (\<lambda>p. di_exists d (path_of p) = Inr True) paths"

definition wanted_file :: "string list \<Rightarrow> string \<Rightarrow> bool" where
  "wanted_file endings p = (endings = [] \<or> lower (path_suffix p) \<in> set endings \<or> lower (path_name p) \<in> set endings)"

text \<open>The files yielded so far, and the exception that ends the iteration.\<close>

fun take_candidates ::
  "disk \<Rightarrow> string list \<Rightarrow> int \<Rightarrow> (string + string) list \<Rightarrow> string list \<Rightarrow> string list \<times> string option" where
  "take_candidates d endings limit [] seen = (seen, None)"
| "take_candidates d endings limit (Inl m # rest) seen = (seen, Some m)"
| "take_candidates d endings limit (Inr p # rest) seen =
     (if limit \<le> int (length seen) then (seen, None)
      else (case di_is_file d p of Inl m \<Rightarrow> (seen, Some m)
            | Inr file \<Rightarrow>
                take_candidates d endings limit rest
                  (if file \<and> p \<notin> set seen \<and> wanted_file endings p then seen @ [p] else seen)))"

fun iter_roots :: "disk \<Rightarrow> string list \<Rightarrow> int \<Rightarrow> string list \<Rightarrow> string list \<Rightarrow> string list \<times> string option" where
  "iter_roots d endings limit [] seen = (seen, None)"
| "iter_roots d endings limit (base # bases) seen =
     (if limit \<le> int (length seen) then (seen, None)
      else (case di_exists d base of Inl m \<Rightarrow> (seen, Some m)
            | Inr False \<Rightarrow> iter_roots d endings limit bases seen
            | Inr True \<Rightarrow>
                (case di_is_file d base of Inl m \<Rightarrow> (seen, Some m)
                 | Inr file \<Rightarrow>
                     (case take_candidates d endings limit (if file then [Inr base] else di_tree d base) seen of
                        (seen', Some m) \<Rightarrow> (seen', Some m)
                      | (seen', None) \<Rightarrow> iter_roots d endings limit bases seen'))))"

definition iter_files :: "disk \<Rightarrow> string list \<Rightarrow> string list \<Rightarrow> int \<Rightarrow> string list \<times> string option" where
  "iter_files d paths endings limit = iter_roots d endings limit paths []"

section \<open>Readers\<close>

definition read_json_or_kv :: "disk \<Rightarrow> string \<Rightarrow> string + pyval dict" where
  "read_json_or_kv d p =
     (case read_text d p of Inl m \<Rightarrow> Inl m | Inr None \<Rightarrow> Inr [] | Inr (Some txt) \<Rightarrow> raised (json_or_kv txt))"

definition parse_certificate_metadata :: "disk \<Rightarrow> string \<Rightarrow> string + pyval dict option" where
  "parse_certificate_metadata d p =
     (case di_openssl d [''openssl'', ''x509'', ''-in'', p, ''-noout'', ''-text''] of
        Inl m \<Rightarrow> Inl m | Inr None \<Rightarrow> Inr None
      | Inr (Some txt) \<Rightarrow>
          (case di_openssl d [''openssl'', ''x509'', ''-in'', p, ''-outform'', ''DER''] of
             Inl m \<Rightarrow> Inl m | Inr None \<Rightarrow> Inr None
           | Inr (Some der) \<Rightarrow>
               Inr (map_option (\<lambda>algorithm. [(''algorithm'', PStr algorithm), (''fingerprint_sha256'', PStr (hexdigest der))])
                 (certificate_algorithm_from_openssl_text txt))))"

definition parse_certificate_algorithm :: "disk \<Rightarrow> string \<Rightarrow> string + pyval" where
  "parse_certificate_algorithm d p =
     rmap (\<lambda>m. case m of None \<Rightarrow> PNone | Some x \<Rightarrow> pget x ''algorithm'') (parse_certificate_metadata d p)"

definition parse_public_key_algorithm :: "disk \<Rightarrow> string \<Rightarrow> string + string option" where
  "parse_public_key_algorithm d p =
     rbind (read_json_or_kv d p) (\<lambda>metadata.
       let algorithm = pget metadata ''algorithm''
       in if truthy algorithm then Inr (Some (py_str algorithm))
          else (case read_text_ignore d p of Inl m \<Rightarrow> Inr None
                | Inr txt \<Rightarrow> Inr (map_option normalize_algorithm (find_match public_key_pattern txt))))"

definition private_key_algorithm :: "disk \<Rightarrow> string \<Rightarrow> string + string option \<times> int option" where
  "private_key_algorithm d p =
     rmap (\<lambda>out. case out of None \<Rightarrow> (None, None) | Some txt \<Rightarrow> private_key_algorithm_of_text txt)
       (di_openssl d [''openssl'', ''pkey'', ''-in'', p, ''-noout'', ''-text''])"

definition private_key_fingerprint :: "disk \<Rightarrow> string \<Rightarrow> string + string option" where
  "private_key_fingerprint d p =
     rmap (map_option hexdigest) (di_openssl d [''openssl'', ''pkey'', ''-in'', p, ''-pubout'', ''-outform'', ''DER''])"

definition opt_text :: "string option \<Rightarrow> pyval" where
  "opt_text x = (case x of None \<Rightarrow> PNone | Some s \<Rightarrow> PStr s)"

definition parse_private_key_metadata :: "disk \<Rightarrow> string \<Rightarrow> string + pyval dict option" where
  "parse_private_key_metadata d p =
     rbind (private_key_algorithm d p) (\<lambda>(found, bits).
     rbind (private_key_fingerprint d p) (\<lambda>print.
     rbind (if found = None \<and> print = None then
              rmap (\<lambda>m. (pget m ''algorithm'', pget m ''key_size_bits'', pget m ''fingerprint_sha256'')) (read_json_or_kv d p)
            else Inr (opt_text found, opt_int bits, opt_text print)) (\<lambda>(algorithm, key_size_bits, fingerprint).
       if \<not> truthy algorithm then Inr None
       else rmap (\<lambda>size. Some ((''algorithm'', PStr (py_str algorithm)) # size @
                (if truthy fingerprint then [(''fingerprint_sha256'', PStr (py_str fingerprint))] else [])))
              (if truthy key_size_bits then rmap (\<lambda>n. [(''key_size_bits'', PInt n)]) (raised (py_int key_size_bits)) else Inr []))))"

definition parse_pkcs12_algorithm :: "disk \<Rightarrow> string \<Rightarrow> string + pyval" where
  "parse_pkcs12_algorithm d p =
     rbind (read_json_or_kv d p) (\<lambda>metadata.
       let algorithm = pget metadata ''algorithm'';
           open_with = (\<lambda>password. di_openssl d [''openssl'', ''pkcs12'', ''-in'', p, ''-nokeys'', ''-clcerts'', ''-passin'', ''pass:'' @ password]);
           certificate_of = (\<lambda>pem. rmap (map_option certificate_algorithm_from_openssl_text) (di_x509_text d pem));
           attempt = (\<lambda>password otherwise. rbind (open_with password) (\<lambda>out.
             case out of None \<Rightarrow> otherwise
             | Some pem \<Rightarrow> rbind (certificate_of pem) (\<lambda>c. case c of None \<Rightarrow> otherwise | Some a \<Rightarrow> Inr (opt_text a))))
       in if truthy algorithm then Inr (PStr (py_str algorithm))
          else attempt ''testbed'' (attempt [] (Inr PNone)))"

text \<open>Where an \<open>OSError\<close> gives an empty answer.\<close>

definition authorized_algorithms :: "disk \<Rightarrow> string \<Rightarrow> string list" where
  "authorized_algorithms d p = (case read_text_ignore d p of Inl m \<Rightarrow> [] | Inr txt \<Rightarrow> algorithms_from_ssh_authorized_keys txt)"

definition ssh_policy_of :: "disk \<Rightarrow> string \<Rightarrow> string list dict" where
  "ssh_policy_of d p = (case read_text_ignore d p of Inl m \<Rightarrow> [] | Inr txt \<Rightarrow> parse_ssh_config_algorithms txt)"

definition key_references_of :: "disk \<Rightarrow> string \<Rightarrow> string list" where
  "key_references_of d p = (case read_text_ignore d p of Inl m \<Rightarrow> [] | Inr txt \<Rightarrow> extract_key_references txt)"

definition tls_policy_of :: "disk \<Rightarrow> string \<Rightarrow> pyval dict" where
  "tls_policy_of d p = (case read_text_ignore d p of Inl m \<Rightarrow> [] | Inr txt \<Rightarrow> parse_tls_config_policy txt)"

definition jwks_of :: "disk \<Rightarrow> string \<Rightarrow> string + string list" where
  "jwks_of d p =
     (case read_text d p of Inl m \<Rightarrow> Inr []
      | Inr None \<Rightarrow> Inl (di_codec_error d p)
      | Inr (Some txt) \<Rightarrow> raised (parse_jwks_algorithms txt))"

section \<open>Scanners\<close>

type_synonym report = "pyval dict list \<times> pyval dict list"

definition CERT_SUFFIXES :: "string list" where
  "CERT_SUFFIXES = [''.crt'', ''.pem'', ''.cer'']"

definition PRIVATE_KEY_SUFFIXES :: "string list" where
  "PRIVATE_KEY_SUFFIXES = [''.key'', ''.pem'', ''.pkcs8'']"

definition KEYSTORE_SUFFIXES :: "string list" where
  "KEYSTORE_SUFFIXES = [''.p12'', ''.pfx'', ''.jks'', ''.keystore'']"

definition max_files :: "disk \<Rightarrow> pyval \<Rightarrow> string + int" where
  "max_files d options =
     (case options of
        PDict opts \<Rightarrow>
          raised (py_int (py_or (pget opts ''max_files_per_capability'') (PStr (env_or d ''AGENT_MAX_FILES_PER_CAPABILITY'' ''200''))))
      | _ \<Rightarrow> Inl (quoted (type_name options) @ '' object has no attribute '' @ quoted ''get''))"

text \<open>The loop of a scanner: what it makes of each file, a finding or the reason there is none; then the exception of the
  iteration, when there is one.\<close>

fun scan_each :: "(string \<Rightarrow> string + pyval dict + string) \<Rightarrow> string \<Rightarrow> string list \<Rightarrow> report \<Rightarrow> string + report" where
  "scan_each look capability [] report = Inr report"
| "scan_each look capability (p # ps) (findings, errors) =
     (case look p of
        Inl m \<Rightarrow> Inl m
      | Inr (Inl finding) \<Rightarrow> scan_each look capability ps (findings @ [finding], errors)
      | Inr (Inr reason) \<Rightarrow>
          scan_each look capability ps
            (findings, errors @ [[(''capability'', PStr capability), (''path'', PStr p), (''error'', PStr reason)]]))"

definition scan_files ::
  "disk \<Rightarrow> pyval \<Rightarrow> string \<Rightarrow> string list \<Rightarrow> string list \<Rightarrow> (string \<Rightarrow> string + pyval dict + string) \<Rightarrow> string + report" where
  "scan_files d options capability paths endings look =
     rbind (max_files d options) (\<lambda>limit.
       case iter_files d paths endings limit of
         (files, stopped) \<Rightarrow>
           rbind (scan_each look capability files ([], [])) (\<lambda>report.
             case stopped of None \<Rightarrow> Inr report | Some m \<Rightarrow> Inl m))"

definition found :: "string \<Rightarrow> string \<Rightarrow> pyval dict \<Rightarrow> pyval dict" where
  "found kind p rest = (''type'', PStr kind) # (''path'', PStr p) # rest"

definition cert_store_type :: "string \<Rightarrow> string" where
  "cert_store_type p = (if contains p ''/api-gateway/trust/'' then ''mtls_trust_bundle'' else ''system_ca'')"

definition pkg_key_type :: "string \<Rightarrow> string" where
  "pkg_key_type p = (if contains p ''/registry/'' then ''container_image_signing_key'' else ''package_signing_key'')"

definition keystore_type :: "string \<Rightarrow> pyval dict \<Rightarrow> string" where
  "keystore_type p metadata =
     (if truthy (pget metadata ''type'') then py_str (pget metadata ''type'')
      else if contains p ''/vault/'' then ''kms_key_reference''
      else if contains p ''/backup/'' then ''backup_encryption_key''
      else if path_suffix p = ''.jks'' then ''java_keystore'' else ''keystore'')"

definition app_cert_type :: "string \<Rightarrow> string" where
  "app_cert_type p =
     (if endswith p ''/signing.crt'' then ''saml_signing_certificate''
      else if endswith p ''/encryption.crt'' then ''saml_encryption_certificate'' else ''certificate_file'')"

definition keystore_algorithm :: "disk \<Rightarrow> string \<Rightarrow> string + pyval" where
  "keystore_algorithm d p = (if lower (path_suffix p) \<in> set [''.p12'', ''.pfx''] then parse_pkcs12_algorithm d p else Inr PNone)"

definition certificate_look :: "disk \<Rightarrow> (string \<Rightarrow> string) \<Rightarrow> string \<Rightarrow> string + pyval dict + string" where
  "certificate_look d kind p =
     rmap (\<lambda>m. case m of None \<Rightarrow> Inr ''certificate_parse_failed'' | Some x \<Rightarrow> Inl (found (kind p) p x)) (parse_certificate_metadata d p)"

definition scan_cert_store :: "disk \<Rightarrow> pyval \<Rightarrow> string + report" where
  "scan_cert_store d options =
     scan_files d options ''agent.cert_store''
       (configured_paths d ''AGENT_CERT_STORE_PATHS''
         (existing_defaults d [''/etc/testbed/certs'', ''/etc/api-gateway/trust'', ''/etc/ssl/certs/ca-certificates.crt'']))
       CERT_SUFFIXES (certificate_look d cert_store_type)"

definition scan_pkg_keyring :: "disk \<Rightarrow> pyval \<Rightarrow> string + report" where
  "scan_pkg_keyring d options =
     scan_files d options ''agent.pkg_keyring''
       (configured_paths d ''AGENT_PKG_KEYRING_PATHS''
         (existing_defaults d [''/etc/registry/cosign.pub'', ''/etc/apt/keyrings'', ''/etc/apk/keys'', ''/etc/pki/rpm-gpg'']))
       [''.pub'', ''.gpg'', ''.key'', []]
       (\<lambda>p. rmap (\<lambda>a. case a of
            Some algorithm \<Rightarrow> if algorithm = [] then Inr ''key_parse_failed'' else Inl (found (pkg_key_type p) p [(''algorithm'', PStr algorithm)])
          | None \<Rightarrow> Inr ''key_parse_failed'') (parse_public_key_algorithm d p))"

definition scan_ssh_userkey :: "disk \<Rightarrow> pyval \<Rightarrow> string + report" where
  "scan_ssh_userkey d options =
     scan_files d options ''agent.ssh_userkey''
       (configured_paths d ''AGENT_SSH_USERKEY_PATHS'' (existing_defaults d [''/home'', ''/root/.ssh'']))
       [''authorized_keys'', ''.pub'']
       (\<lambda>p. Inr (if authorized_algorithms d p = [] then Inr ''ssh_key_parse_failed''
                 else Inl (found ''ssh_authorized_key'' p [(''algorithms'', PList (map PStr (authorized_algorithms d p)))])))"

definition settings_json :: "string list dict \<Rightarrow> pyval" where
  "settings_json policy = PDict (map (\<lambda>(k, xs). (k, PList (map PStr xs))) policy)"

definition ssh_config_finding :: "string \<Rightarrow> string list dict \<Rightarrow> pyval dict" where
  "ssh_config_finding p policy =
     found ''ssh_config'' p ((''policy'', settings_json policy) #
       (case dget policy ''KexAlgorithms'' of None \<Rightarrow> []
        | Some xs \<Rightarrow> if xs = [] then [] else [(''kex_algorithms'', PList (map PStr xs))]))"

definition scan_ssh_config :: "disk \<Rightarrow> pyval \<Rightarrow> string + report" where
  "scan_ssh_config d options =
     scan_files d options ''agent.ssh_config''
       (configured_paths d ''AGENT_SSH_CONFIG_PATHS'' (existing_defaults d [''/etc/ssh/sshd_config'']))
       [''sshd_config'', ''.conf'']
       (\<lambda>p. Inr (if ssh_policy_of d p = [] then Inr ''ssh_config_parse_failed'' else Inl (ssh_config_finding p (ssh_policy_of d p))))"

definition keystore_look :: "disk \<Rightarrow> string \<Rightarrow> string + pyval dict + string" where
  "keystore_look d p =
     rbind (read_json_or_kv d p) (\<lambda>metadata.
     rbind (if truthy (pget metadata ''algorithm'') then Inr (pget metadata ''algorithm'') else keystore_algorithm d p) (\<lambda>algorithm.
       Inr (if \<not> truthy algorithm then Inr ''keystore_metadata_unavailable''
            else Inl (found (keystore_type p metadata) p [(''algorithm'', PStr (py_str algorithm)), (''format'', pget metadata ''format'')]))))"

definition scan_keystore :: "disk \<Rightarrow> pyval \<Rightarrow> string + report" where
  "scan_keystore d options =
     scan_files d options ''agent.keystore''
       (configured_paths d ''AGENT_KEYSTORE_PATHS''
         (existing_defaults d [''/var/lib/postgresql/keystore.p12'', ''/var/lib/vault/transit'', ''/etc/backup'', ''/opt/legacy-java/conf'']))
       (KEYSTORE_SUFFIXES @ [''pqc-testbed'', ''encryption-key.metadata'']) (keystore_look d)"

definition scan_app_cert_files :: "disk \<Rightarrow> pyval \<Rightarrow> string + report" where
  "scan_app_cert_files d options =
     scan_files d options ''agent.app_cert_files''
       (configured_paths d ''AGENT_APP_CERT_PATHS''
         (existing_defaults d [''/etc/nginx/ssl'', ''/var/lib/postgresql/testbed-certs'', ''/etc/saml'', ''/etc/testbed/certs/service'']))
       (CERT_SUFFIXES @ [''.pem'']) (certificate_look d app_cert_type)"

section \<open>Private keys\<close>

text \<open>\<open>references.setdefault(k, []).append(v)\<close>.\<close>

definition append_at :: "string \<Rightarrow> string \<Rightarrow> string list dict \<Rightarrow> string list dict" where
  "append_at k v refs = dset k (dget_or refs k [] @ [v]) refs"

definition add_reference :: "string \<Rightarrow> string \<Rightarrow> string list dict \<Rightarrow> string list dict" where
  "add_reference source v refs = append_at (path_name v) source (append_at v source refs)"

definition referenced_private_key_paths :: "disk \<Rightarrow> string + string list dict" where
  "referenced_private_key_paths d =
     (let explicit = filter (\<lambda>item. item \<noteq> []) (map strip (split_on (CHR '':'') (env_or d ''AGENT_REFERENCED_KEY_PATHS'' [])));
          config_paths = configured_paths d ''AGENT_REFERENCE_CONFIG_PATHS''
            (existing_defaults d [''/etc/nginx/nginx.conf'', ''/etc/nginx/conf.d'', ''/etc/apache2'', ''/etc/httpd'', ''/etc/postfix/main.cf'',
               ''/etc/ssh/sshd_config'', ''/etc/testbed/postgresql.conf'']);
          refs = foldl (\<lambda>refs v. add_reference ''AGENT_REFERENCED_KEY_PATHS'' v refs) [] explicit
      in case iter_files d config_paths [''sshd_config'', ''.conf'', ''main.cf''] 100 of
           (files, Some m) \<Rightarrow> Inl m
         | (files, None) \<Rightarrow>
             Inr (foldl (\<lambda>refs config. foldl (\<lambda>refs v. add_reference config v refs) refs (key_references_of d config)) refs files))"

definition is_default_ssh_host_key :: "string \<Rightarrow> bool" where
  "is_default_ssh_host_key p =
     (let n = path_name p
      in n \<noteq> [] \<and> p = ''/etc/ssh/'' @ n \<and> startswith n ''ssh_host_'' \<and> endswith n ''_key'')"

definition references_to :: "string list dict \<Rightarrow> string \<Rightarrow> string list" where
  "references_to refs p = (let xs = dget_or refs p [] in if xs \<noteq> [] then xs else dget_or refs (path_name p) [])"

definition private_key_finding :: "string list dict \<Rightarrow> string \<Rightarrow> pyval dict \<Rightarrow> pyval dict" where
  "private_key_finding refs p m =
     (let referenced_by = references_to refs p; in_use = referenced_by \<noteq> [] \<or> is_default_ssh_host_key p
      in found (if in_use then ''private_key_file'' else ''dormant_private_key'') p
           [(''algorithm'', pget m ''algorithm''), (''key_size_bits'', pget m ''key_size_bits''),
            (''fingerprint_sha256'', pget m ''fingerprint_sha256''), (''in_use'', PBool in_use), (''dormant'', PBool (\<not> in_use)),
            (''referenced_by'', PList (map PStr referenced_by))])"

definition scan_private_key_files :: "disk \<Rightarrow> pyval \<Rightarrow> string + report" where
  "scan_private_key_files d options =
     (let paths = configured_paths d ''AGENT_PRIVATE_KEY_PATHS''
            (existing_defaults d [''/etc/nginx/ssl'', ''/etc/testbed/certs'', ''/etc/testbed/db-certs'', ''/var/lib/postgresql/testbed-certs'',
               ''/etc/ssh'', ''/home'', ''/root/.ssh'', ''/etc/backup'', ''/opt/legacy-java/conf''])
      in rbind (referenced_private_key_paths d) (\<lambda>refs.
           scan_files d options ''agent.private_key_files'' paths PRIVATE_KEY_SUFFIXES
             (\<lambda>p. rmap (\<lambda>m. case m of None \<Rightarrow> Inr ''private_key_parse_failed'' | Some x \<Rightarrow> Inl (private_key_finding refs p x))
                (parse_private_key_metadata d p))))"

section \<open>Configurations\<close>

text \<open>The policy is merged over the references; a key file of the policy stands for the references when there are none.\<close>

definition tls_config_finding :: "disk \<Rightarrow> string \<Rightarrow> string \<Rightarrow> pyval dict option" where
  "tls_config_finding d p kind =
     (let policy = tls_policy_of d p; references = map PStr (key_references_of d p)
      in if policy = [] \<and> references = [] then None
         else Some
           (dmerge (found kind p [(''referenced_by'', if references \<noteq> [] then PList references else dget_or policy ''private_key_paths'' (PList []))]) policy @
            (case pget policy ''tls_versions'' of
               PList (v # vs) \<Rightarrow> [(''minimum_tls_version'', v)]
             | _ \<Rightarrow> if policy = [] then [(''minimum_tls_version'', PStr ''TLS config'')] else [])))"

definition jwks_finding :: "disk \<Rightarrow> string \<Rightarrow> string \<Rightarrow> string + pyval dict option" where
  "jwks_finding d p kind =
     rmap (\<lambda>algorithms. if algorithms = [] then None else Some (found kind p [(''algorithms'', PList (map PStr algorithms))])) (jwks_of d p)"

definition app_config_finding :: "disk \<Rightarrow> string \<Rightarrow> string + pyval dict option" where
  "app_config_finding d p =
     (let n = path_name p
      in if endswith n ''.conf'' \<and> contains p ''nginx'' then Inr (tls_config_finding d p ''tls_config'')
         else if n \<in> set [''main.cf'', ''httpd.conf'', ''apache2.conf''] \<or> contains p ''/conf.d/'' then Inr (tls_config_finding d p ''tls_config'')
         else if n = ''postgresql.conf'' then
           rmap (\<lambda>algorithm. map_option (dset ''algorithm'' (py_or algorithm (PStr ''TLS config''))) (tls_config_finding d p ''postgres_tls_config''))
             (parse_certificate_algorithm d ''/var/lib/postgresql/testbed-certs/server.crt'')
         else if n = ''current.json'' then jwks_finding d p ''jwt_signing_key''
         else if n = ''jwks.json'' then jwks_finding d p ''oidc_jwks''
         else if n = ''tls.properties'' then Inr (tls_config_finding d p ''tls_config'')
         else Inr None)"

definition scan_app_config :: "disk \<Rightarrow> pyval \<Rightarrow> string + report" where
  "scan_app_config d options =
     scan_files d options ''agent.app_config''
       (configured_paths d ''AGENT_APP_CONFIG_PATHS''
         (existing_defaults d [''/etc/nginx/nginx.conf'', ''/etc/nginx/conf.d'', ''/etc/apache2'', ''/etc/httpd'', ''/etc/postfix/main.cf'',
            ''/etc/testbed/postgresql.conf'', ''/etc/api-gateway/jwks/current.json'', ''/var/lib/oidc/jwks.json'',
            ''/opt/legacy-java/conf/tls.properties'']))
       [''.conf'', ''.json'', ''.properties'', ''main.cf'']
       (\<lambda>p. rmap (\<lambda>f. case f of Some x \<Rightarrow> if x = [] then Inr ''config_parse_failed'' else Inl x | None \<Rightarrow> Inr ''config_parse_failed'')
          (app_config_finding d p))"

section \<open>The scan of a host\<close>

definition SCANNERS :: "(disk \<Rightarrow> pyval \<Rightarrow> string + report) dict" where
  "SCANNERS =
     [(''agent.cert_store'', scan_cert_store), (''agent.pkg_keyring'', scan_pkg_keyring), (''agent.ssh_userkey'', scan_ssh_userkey),
      (''agent.ssh_config'', scan_ssh_config), (''agent.keystore'', scan_keystore), (''agent.app_cert_files'', scan_app_cert_files),
      (''agent.private_key_files'', scan_private_key_files), (''agent.app_config'', scan_app_config)]"

definition configured_capabilities :: "disk \<Rightarrow> string list" where
  "configured_capabilities d = filter (\<lambda>item. item \<noteq> []) (map strip (split_on (CHR '','') (env_or d ''AGENT_CAPABILITIES'' [])))"

definition scan_error :: "pyval \<Rightarrow> string \<Rightarrow> pyval dict" where
  "scan_error capability m = [(''capability'', capability), (''error'', PStr m)]"

text \<open>A capability that is no text is none of the supported ones; a list or a dict cannot be looked up in a set.\<close>

fun run_capabilities :: "disk \<Rightarrow> pyval \<Rightarrow> string list \<Rightarrow> pyval list \<Rightarrow> report \<Rightarrow> string + report" where
  "run_capabilities d options supported [] report = Inr report"
| "run_capabilities d options supported (v # cs) (findings, errors) =
     (let failed = (\<lambda>m. run_capabilities d options supported cs (findings, errors @ [scan_error v m]))
      in case v of
           PStr c \<Rightarrow>
             if c \<notin> set supported then failed ''unsupported_capability''
             else (case dget SCANNERS c of None \<Rightarrow> failed ''scanner_not_implemented''
                   | Some scanner \<Rightarrow>
                       (case scanner d options of Inl m \<Rightarrow> failed m
                        | Inr (fs, es) \<Rightarrow> run_capabilities d options supported cs (findings @ fs, errors @ es)))
         | PList xs \<Rightarrow> Inl (''unhashable type: '' @ quoted ''list'')
         | PDict x \<Rightarrow> Inl (''unhashable type: '' @ quoted ''dict'')
         | _ \<Rightarrow> failed ''unsupported_capability'')"

definition run_host_scan :: "disk \<Rightarrow> pyval list \<Rightarrow> pyval \<Rightarrow> string + pyval dict" where
  "run_host_scan d requested_capabilities options =
     (let supported = configured_capabilities d;
          requested = (if requested_capabilities = [] then map PStr supported else requested_capabilities)
      in rmap (\<lambda>(findings, errors).
             [(''hostname'', PStr (env_or d ''AGENT_HOSTNAME'' (di_node d))), (''started_at'', PStr (di_clock d 0)),
              (''finished_at'', PStr (di_clock d 1)),
              (''status'', PStr (if list_ex (\<lambda>e. truthy (pget e ''fatal'')) errors then ''PARTIAL'' else ''SUCCESS'')),
              (''capabilities'', PList (map PStr supported)), (''findings'', PList (map PDict findings)),
              (''errors'', PList (map PDict errors))])
           (run_capabilities d (py_or options (PDict [])) supported requested ([], [])))"

end
