(* ===== verification/Host_Facts.thy ===== *)
theory Host_Facts
  imports Host_Scan
begin

text \<open>
  What the host scanners promise: the files they look at, the types of their findings, which the backend's mapper of findings
  knows, and how \<open>run_host_scan\<close> puts the scanners together.
\<close>

section \<open>The files of a scan\<close>

definition files_ok :: "disk \<Rightarrow> string list \<Rightarrow> int \<Rightarrow> string list \<Rightarrow> bool" where
  "files_ok d endings limit files =
     (distinct files \<and> int (length files) \<le> max 0 limit \<and> list_all (\<lambda>p. di_is_file d p = Inr True \<and> wanted_file endings p) files)"

lemma files_ok_Nil [simp]: "files_ok d endings limit []"
  by (simp add: files_ok_def)

lemma files_ok_add:
  "files_ok d endings limit seen \<Longrightarrow> int (length seen) < limit \<Longrightarrow> p \<notin> set seen \<Longrightarrow> di_is_file d p = Inr True \<Longrightarrow> wanted_file endings p \<Longrightarrow>
    files_ok d endings limit (seen @ [p])"
  by (auto simp: files_ok_def)

lemma take_candidates_ok: "files_ok d endings limit seen \<Longrightarrow> files_ok d endings limit (fst (take_candidates d endings limit cs seen))"
proof (induction d endings limit cs seen rule: take_candidates.induct)
  case (3 d endings limit p rest seen)
  show ?case
  proof (cases "limit \<le> int (length seen)")
    case False
    show ?thesis
    proof (cases "di_is_file d p")
      case (Inr is_file)
      have "files_ok d endings limit (if is_file \<and> p \<notin> set seen \<and> wanted_file endings p then seen @ [p] else seen)"
        using "3.prems" False Inr files_ok_add by auto
      then show ?thesis using "3.IH" [OF False Inr] False Inr by simp
    qed (use "3.prems" in simp)
  qed (use "3.prems" in simp)
qed simp_all

lemma iter_roots_ok: "files_ok d endings limit seen \<Longrightarrow> files_ok d endings limit (fst (iter_roots d endings limit bases seen))"
proof (induction bases arbitrary: seen)
  case (Cons base bases)
  show ?case
  proof (cases "limit \<le> int (length seen)")
    case False
    show ?thesis
    proof (cases "di_exists d base = Inr True")
      case True
      show ?thesis
      proof (cases "di_is_file d base")
        case (Inr is_file)
        obtain seen' stopped where t: "take_candidates d endings limit (if is_file then [Inr base] else di_tree d base) seen = (seen', stopped)"
          by (rule prod.exhaust)
        have "files_ok d endings limit seen'" using take_candidates_ok [OF Cons.prems] t by (metis fst_conv)
        then show ?thesis using False True Cons.IH by (cases stopped) (simp_all add: Inr t)
      qed (use Cons.prems False True in simp)
    next
      case other: False
      then show ?thesis using False Cons by (auto split: sum.split bool.split)
    qed
  qed (use Cons.prems in simp)
qed simp

text \<open>C37. A scanner looks at no more files than the limit, at each once, and only at files whose name ends as it asks.\<close>

theorem scanned_files_ok: "files_ok d endings limit (fst (iter_files d paths endings limit))"
  unfolding iter_files_def by (rule iter_roots_ok) simp

section \<open>What each file becomes\<close>

definition looked :: "(string \<Rightarrow> string + pyval dict + string) \<Rightarrow> string list \<Rightarrow> pyval dict list" where
  "looked look files = concat (map (\<lambda>p. case look p of Inr (Inl f) \<Rightarrow> [f] | _ \<Rightarrow> []) files)"

definition refused :: "(string \<Rightarrow> string + pyval dict + string) \<Rightarrow> string \<Rightarrow> string list \<Rightarrow> pyval dict list" where
  "refused look capability files =
     concat (map (\<lambda>p. case look p of Inr (Inr reason) \<Rightarrow> [[(''capability'', PStr capability), (''path'', PStr p), (''error'', PStr reason)]]
                      | _ \<Rightarrow> []) files)"

lemma scan_each_report:
  "scan_each look capability files report = Inr (fs, es) \<Longrightarrow>
    fs = fst report @ looked look files \<and> es = snd report @ refused look capability files"
proof (induction look capability files report rule: scan_each.induct)
  case (2 look capability p ps findings errors)
  show ?case
  proof (cases "look p")
    case (Inr x)
    then show ?thesis using 2 by (cases x) (auto simp: looked_def refused_def)
  qed (use 2 in simp)
qed (auto simp: looked_def refused_def)

lemma scan_files_report:
  assumes "scan_files d options capability paths endings look = Inr (fs, es)"
  obtains limit where "fs = looked look (fst (iter_files d paths endings limit))" "es = refused look capability (fst (iter_files d paths endings limit))"
proof -
  obtain limit where l: "max_files d options = Inr limit" using assms by (auto simp: scan_files_def rbind_Inr_iff)
  obtain files stopped where i: "iter_files d paths endings limit = (files, stopped)" by (rule prod.exhaust)
  have "scan_each look capability files ([], []) = Inr (fs, es)"
    using assms by (auto simp: scan_files_def l i rbind_Inr_iff split: option.splits)
  from scan_each_report [OF this] show thesis using that [of limit] by (simp add: i)
qed

text \<open>A property of the findings a look can give is one of all the findings of a scan.\<close>

lemma scan_files_all:
  assumes "scan_files d options capability paths endings look = Inr (fs, es)"
    and "\<And>p f. wanted_file endings p \<Longrightarrow> look p = Inr (Inl f) \<Longrightarrow> P f"
  shows "list_all P fs"
proof (rule scan_files_report [OF assms(1)])
  fix limit
  assume "fs = looked look (fst (iter_files d paths endings limit))"
  moreover have "files_ok d endings limit (fst (iter_files d paths endings limit))" unfolding iter_files_def by (rule iter_roots_ok) simp
  ultimately show ?thesis
    using assms(2) by (auto simp: looked_def files_ok_def list_all_iff split: sum.splits)
qed

lemma scan_files_errors:
  assumes "scan_files d options capability paths endings look = Inr (fs, es)"
  shows "list_all (\<lambda>e. pget e ''fatal'' = PNone) es"
proof (rule scan_files_report [OF assms])
  fix limit
  assume "es = refused look capability (fst (iter_files d paths endings limit))"
  then show ?thesis by (auto simp: refused_def list_all_iff pget_def dget_or_def split: sum.splits)
qed

section \<open>Types of findings\<close>

lemma pget_found [simp]:
  "pget (found k p r) ''type'' = PStr k" "pget (found k p r) ''path'' = PStr p"
  "x \<noteq> ''type'' \<Longrightarrow> x \<noteq> ''path'' \<Longrightarrow> pget (found k p r) x = pget r x"
  by (auto simp: found_def pget_def dget_or_def)

definition kind_known :: "string \<Rightarrow> pyval dict \<Rightarrow> bool" where
  "kind_known c f = (\<exists>k. pget f ''type'' = PStr k \<and> k \<noteq> [] \<and> dget TYPE_SCANNER_KIND k = Some c)"

lemma kind_known_found: "k \<noteq> [] \<Longrightarrow> dget TYPE_SCANNER_KIND k = Some c \<Longrightarrow> kind_known c (found k p r)"
  by (simp add: kind_known_def)

lemma kinds_known [simp]:
  "dget TYPE_SCANNER_KIND ''mtls_trust_bundle'' = Some ''agent.cert_store''" "dget TYPE_SCANNER_KIND ''system_ca'' = Some ''agent.cert_store''"
  "dget TYPE_SCANNER_KIND ''container_image_signing_key'' = Some ''agent.pkg_keyring''"
  "dget TYPE_SCANNER_KIND ''package_signing_key'' = Some ''agent.pkg_keyring''"
  "dget TYPE_SCANNER_KIND ''ssh_authorized_key'' = Some ''agent.ssh_userkey''" "dget TYPE_SCANNER_KIND ''ssh_config'' = Some ''agent.ssh_config''"
  "dget TYPE_SCANNER_KIND ''saml_signing_certificate'' = Some ''agent.app_cert_files''"
  "dget TYPE_SCANNER_KIND ''saml_encryption_certificate'' = Some ''agent.app_cert_files''"
  "dget TYPE_SCANNER_KIND ''certificate_file'' = Some ''agent.app_cert_files''"
  "dget TYPE_SCANNER_KIND ''private_key_file'' = Some ''agent.private_key_files''"
  "dget TYPE_SCANNER_KIND ''dormant_private_key'' = Some ''agent.private_key_files''"
  "dget TYPE_SCANNER_KIND ''tls_config'' = Some ''agent.app_config''" "dget TYPE_SCANNER_KIND ''postgres_tls_config'' = Some ''agent.app_config''"
  "dget TYPE_SCANNER_KIND ''jwt_signing_key'' = Some ''agent.app_config''" "dget TYPE_SCANNER_KIND ''oidc_jwks'' = Some ''agent.app_config''"
  by (simp_all add: TYPE_SCANNER_KIND_def dget_def)

lemma certificate_look_found: "certificate_look d kind p = Inr (Inl f) \<Longrightarrow> \<exists>x. f = found (kind p) p x"
  by (auto simp: certificate_look_def rmap_Inr_iff split: option.splits)

lemma keys_of_policy: "fst ` set (parse_tls_config_policy txt) \<subseteq>
    {''policy'', ''tls_versions'', ''disabled_protocols'', ''cipher_suites'', ''certificate_paths'', ''private_key_paths''}"
  by (auto simp: parse_tls_config_policy_def named_list_def Let_def)

lemma dwf_policy: "dwf (parse_tls_config_policy txt)"
  by (simp add: dwf_def parse_tls_config_policy_def named_list_def Let_def)

lemma tls_policy_keys: "fst ` set (tls_policy_of d p) \<subseteq>
    {''policy'', ''tls_versions'', ''disabled_protocols'', ''cipher_suites'', ''certificate_paths'', ''private_key_paths''} \<and> dwf (tls_policy_of d p)"
  using keys_of_policy dwf_policy by (auto simp: tls_policy_of_def dwf_def split: sum.split)

lemma pget_append: "pget (xs @ ys) k = (case map_of xs k of Some v \<Rightarrow> v | None \<Rightarrow> pget ys k)"
  by (simp add: pget_def dget_or_def dget_def map_add_def split: option.split)

lemma tls_config_kind: "tls_config_finding d p k = Some f \<Longrightarrow> pget f ''type'' = PStr k"
proof -
  assume "tls_config_finding d p k = Some f"
  then obtain r ys where f: "f = dmerge (found k p r) (tls_policy_of d p) @ ys"
    by (auto simp: tls_config_finding_def Let_def split: if_splits)
  have "map_of (tls_policy_of d p) ''type'' = None" using tls_policy_keys [of d p] by (auto simp: map_of_eq_None_iff)
  then have "map_of (dmerge (found k p r) (tls_policy_of d p)) ''type'' = Some (PStr k)"
    using tls_policy_keys [of d p] by (simp add: map_of_dmerge found_def)
  then show ?thesis by (simp add: f pget_append)
qed

lemma pget_dset_at: "pget (dset k v d) k' = (if k' = k then v else pget d k')"
  by (simp add: pget_def dget_or_def dget_def map_of_dset)

lemma app_config_kind: "app_config_finding d p = Inr (Some f) \<Longrightarrow> kind_known ''agent.app_config'' f"
  by (auto simp: app_config_finding_def Let_def jwks_finding_def rmap_Inr_iff kind_known_def pget_dset_at
      eq_commute [of "Some f"] dest: tls_config_kind split: if_splits)

lemma scanner_findings_known:
  assumes "dget SCANNERS c = Some scanner" and "c \<noteq> ''agent.keystore''" and "scanner d options = Inr (fs, es)"
  shows "list_all (kind_known c) fs"
proof -
  consider "c = ''agent.cert_store''" "scanner = scan_cert_store" | "c = ''agent.pkg_keyring''" "scanner = scan_pkg_keyring"
    | "c = ''agent.ssh_userkey''" "scanner = scan_ssh_userkey" | "c = ''agent.ssh_config''" "scanner = scan_ssh_config"
    | "c = ''agent.app_cert_files''" "scanner = scan_app_cert_files" | "c = ''agent.private_key_files''" "scanner = scan_private_key_files"
    | "c = ''agent.app_config''" "scanner = scan_app_config"
    using assms(1,2) by (auto simp: SCANNERS_def dget_def split: if_splits)
  then show ?thesis
  proof cases
    case 1
    show ?thesis using assms(3) unfolding 1 scan_cert_store_def
      by (rule scan_files_all) (auto dest!: certificate_look_found intro!: kind_known_found simp: cert_store_type_def split: if_splits)
  next
    case 2
    show ?thesis using assms(3) unfolding 2 scan_pkg_keyring_def
      by (rule scan_files_all) (auto simp: rmap_Inr_iff pkg_key_type_def intro!: kind_known_found split: option.splits if_splits)
  next
    case 3
    show ?thesis using assms(3) unfolding 3 scan_ssh_userkey_def
      by (rule scan_files_all) (auto intro!: kind_known_found split: if_splits)
  next
    case 4
    show ?thesis using assms(3) unfolding 4 scan_ssh_config_def
      by (rule scan_files_all) (auto simp: ssh_config_finding_def intro!: kind_known_found split: if_splits)
  next
    case 5
    show ?thesis using assms(3) unfolding 5 scan_app_cert_files_def
      by (rule scan_files_all) (auto dest!: certificate_look_found intro!: kind_known_found simp: app_cert_type_def split: if_splits)
  next
    case 6
    obtain refs where "referenced_private_key_paths d = Inr refs"
      using assms(3) by (auto simp: 6 scan_private_key_files_def Let_def rbind_Inr_iff)
    with assms(3) have "scan_files d options ''agent.private_key_files'' (configured_paths d ''AGENT_PRIVATE_KEY_PATHS''
         (existing_defaults d [''/etc/nginx/ssl'', ''/etc/testbed/certs'', ''/etc/testbed/db-certs'', ''/var/lib/postgresql/testbed-certs'',
            ''/etc/ssh'', ''/home'', ''/root/.ssh'', ''/etc/backup'', ''/opt/legacy-java/conf''])) PRIVATE_KEY_SUFFIXES
       (\<lambda>p. rmap (\<lambda>m. case m of None \<Rightarrow> Inr ''private_key_parse_failed'' | Some x \<Rightarrow> Inl (private_key_finding refs p x))
          (parse_private_key_metadata d p)) = Inr (fs, es)"
      by (simp add: 6 scan_private_key_files_def)
    then show ?thesis unfolding 6
      by (rule scan_files_all) (auto simp: rmap_Inr_iff private_key_finding_def Let_def intro!: kind_known_found split: option.splits)
  next
    case 7
    show ?thesis using assms(3) unfolding 7 scan_app_config_def
      by (rule scan_files_all) (auto simp: rmap_Inr_iff intro: app_config_kind split: option.splits if_splits)
  qed
qed

text \<open>The mapper of the backend on one finding.\<close>

lemma known_finding_mapped:
  assumes "kind_known c f" and "c \<in> set selected"
  shows "\<exists>cs. map_agent_findings t [PDict f] selected = Inr cs \<and> cs \<noteq> [] \<and> list_all (\<lambda>x. c_scanner x = c) cs"
proof -
  obtain k where k: "pget f ''type'' = PStr k" "k \<noteq> []" "dget TYPE_SCANNER_KIND k = Some c" using assms(1) by (auto simp: kind_known_def)
  have "finding_text f ''type'' [] = k" using k(1,2) by (simp add: finding_text_def py_or_def)
  then have "candidates_for_finding t selected f = map (candidate_for_finding t f c) (algorithms_for_finding f)"
    using assms(2) k(3) by (simp add: candidates_for_finding_def)
  moreover have "algorithms_for_finding f \<noteq> []"
    by (auto simp: algorithms_for_finding_def Let_def dedupe_def neq_Nil_conv)
  ultimately show ?thesis by (simp add: map_agent_findings_def as_dict_def list_all_iff)
qed

text \<open>C38. Nothing a scanner of the agent finds is lost on its way into a snapshot, key stores apart: when the backend asked for the
  scanner, its mapper knows the type of every finding and makes candidates of that scanner of it.\<close>

theorem agent_findings_mapped:
  assumes "dget SCANNERS c = Some scanner" and "c \<noteq> ''agent.keystore''" and "c \<in> set selected"
  shows "case scanner d options of Inl m \<Rightarrow> scanner d options = Inl m
    | Inr (fs, es) \<Rightarrow>
        list_all (\<lambda>f. case map_agent_findings t [PDict f] selected of Inl e \<Rightarrow> False
                      | Inr cs \<Rightarrow> cs \<noteq> [] \<and> list_all (\<lambda>x. c_scanner x = c) cs) fs"
proof (cases "scanner d options")
  case (Inr r)
  obtain fs es where r: "r = (fs, es)" by (rule prod.exhaust)
  have "list_all (kind_known c) fs" by (rule scanner_findings_known [OF assms(1,2) Inr [unfolded r]])
  then show ?thesis using known_finding_mapped [OF _ assms(3), of _ t] by (fastforce simp: Inr r list_all_iff)
qed simp

section \<open>Private keys\<close>

lemma after_last_ends: "c \<notin> set b \<Longrightarrow> after_last c (a @ b) = after_last c a @ b"
  by (auto simp: after_last_def takeWhile_append)

lemma lower_eq_length: "lower s = t \<Longrightarrow> length s = length t"
  by (auto simp: lower_def)

text \<open>The key of an SSH server has no suffix a private key is looked for under.\<close>

lemma host_key_not_wanted:
  assumes "is_default_ssh_host_key p"
  shows "\<not> wanted_file PRIVATE_KEY_SUFFIXES p"
proof -
  define n where "n = path_name p"
  obtain a where n: "n = a @ ''_key''" and s: "startswith n ''ssh_host_''"
    using assms by (auto simp: is_default_ssh_host_key_def n_def Let_def endswith_def suffix_def)
  obtain rest where "n = ''ssh_host_'' @ rest" using s by (auto simp: startswith_def prefix_def)
  then have "hd (lower n) = CHR ''s''" by (simp add: lower_def char_lower_def code_def)
  then have "lower n \<notin> set PRIVATE_KEY_SUFFIXES" by (auto simp: PRIVATE_KEY_SUFFIXES_def)
  moreover have "after_last (CHR ''.'') n = after_last (CHR ''.'') a @ ''_key''"
    unfolding n by (rule after_last_ends) simp
  then have "path_suffix p = [] \<or> (\<exists>x. path_suffix p = CHR ''.'' # x @ ''_key'')"
    by (simp add: path_suffix_def name_suffix_def n_def [symmetric] Let_def)
  then have "lower (path_suffix p) \<notin> set PRIVATE_KEY_SUFFIXES"
  proof
    assume "\<exists>x. path_suffix p = CHR ''.'' # x @ ''_key''"
    then obtain x where x: "path_suffix p = CHR ''.'' # x @ ''_key''" ..
    have ends: "endswith (lower (path_suffix p)) ''_key''"
      by (simp add: x endswith_def lower_append) (simp add: lower_def char_lower_def code_def suffix_def)
    have "\<not> endswith s ''_key''" if "s \<in> set PRIVATE_KEY_SUFFIXES" for s
      using that by (auto simp: PRIVATE_KEY_SUFFIXES_def endswith_def suffix_def Cons_eq_append_conv)
    with ends show ?thesis by blast
  qed (simp add: PRIVATE_KEY_SUFFIXES_def lower_def)
  ultimately show ?thesis by (simp add: wanted_file_def PRIVATE_KEY_SUFFIXES_def n_def)
qed

text \<open>Who names a private key, said without the dictionary of the code: the pairs of a source and a value, first
  those of the environment, then those of each configuration file; and the sources of the values that are a path or
  file name, or end in it.\<close>

definition explicit_references :: "disk \<Rightarrow> string list" where
  "explicit_references d = filter (\<lambda>item. item \<noteq> []) (map strip (split_on (CHR '':'') (env_or d ''AGENT_REFERENCED_KEY_PATHS'' [])))"

definition reference_configs :: "disk \<Rightarrow> string list" where
  "reference_configs d =
     fst (iter_files d (configured_paths d ''AGENT_REFERENCE_CONFIG_PATHS''
        (existing_defaults d [''/etc/nginx/nginx.conf'', ''/etc/nginx/conf.d'', ''/etc/apache2'', ''/etc/httpd'', ''/etc/postfix/main.cf'',
           ''/etc/ssh/sshd_config'', ''/etc/testbed/postgresql.conf''])) [''sshd_config'', ''.conf'', ''main.cf''] 100)"

definition mentions :: "disk \<Rightarrow> (string \<times> string) list" where
  "mentions d = map (\<lambda>v. (''AGENT_REFERENCED_KEY_PATHS'', v)) (explicit_references d)
     @ concat (map (\<lambda>c. map (\<lambda>v. (c, v)) (key_references_of d c)) (reference_configs d))"

definition sources_of :: "(string \<times> string) list \<Rightarrow> string \<Rightarrow> string list" where
  "sources_of ms k = concat (map (\<lambda>(s, v). (if v = k then [s] else []) @ (if path_name v = k then [s] else [])) ms)"

definition key_sources :: "disk \<Rightarrow> string \<Rightarrow> string list" where
  "key_sources d p =
     (if sources_of (mentions d) p \<noteq> [] then sources_of (mentions d) p else sources_of (mentions d) (path_name p))"

definition key_named :: "disk \<Rightarrow> string \<Rightarrow> bool" where
  "key_named d p = list_ex (\<lambda>(s, v). v \<in> {p, path_name p} \<or> path_name v \<in> {p, path_name p}) (mentions d)"

lemma add_reference_sources: "dget_or (add_reference s v refs) k [] = dget_or refs k [] @ sources_of [(s, v)] k"
  by (simp add: add_reference_def append_at_def sources_of_def dget_or_def dict_simps)

lemma references_sources: "dget_or (foldl (\<lambda>refs (s, v). add_reference s v refs) refs ms) k [] = dget_or refs k [] @ sources_of ms k"
proof (induction ms arbitrary: refs)
  case (Cons m ms)
  then show ?case by (cases m) (simp add: add_reference_sources, simp add: sources_of_def)
qed (simp add: sources_of_def)

lemma foldl_pairs:
  "foldl (\<lambda>r c. foldl (\<lambda>r v. add_reference c v r) r (h c)) refs cs =
     foldl (\<lambda>refs (s, v). add_reference s v refs) refs (concat (map (\<lambda>c. map (\<lambda>v. (c, v)) (h c)) cs))"
  by (induction cs arbitrary: refs) (simp_all add: foldl_map case_prod_beta comp_def)

lemma referenced_sources:
  assumes "referenced_private_key_paths d = Inr refs"
  shows "references_to refs p = key_sources d p"
proof -
  let ?files = "iter_files d (configured_paths d ''AGENT_REFERENCE_CONFIG_PATHS''
        (existing_defaults d [''/etc/nginx/nginx.conf'', ''/etc/nginx/conf.d'', ''/etc/apache2'', ''/etc/httpd'', ''/etc/postfix/main.cf'',
           ''/etc/ssh/sshd_config'', ''/etc/testbed/postgresql.conf''])) [''sshd_config'', ''.conf'', ''main.cf''] 100"
  obtain files where files: "?files = (files, None)" using assms
    by (cases ?files; cases "snd ?files") (auto simp: referenced_private_key_paths_def Let_def)
  have "refs = foldl (\<lambda>refs config. foldl (\<lambda>refs v. add_reference config v refs) refs (key_references_of d config))
      (foldl (\<lambda>refs v. add_reference ''AGENT_REFERENCED_KEY_PATHS'' v refs) [] (explicit_references d)) files"
    using assms unfolding referenced_private_key_paths_def Let_def files by (simp add: explicit_references_def)
  also have "\<dots> = foldl (\<lambda>refs (s, v). add_reference s v refs) [] (mentions d)"
    unfolding foldl_pairs mentions_def foldl_append reference_configs_def files fst_conv by (simp add: foldl_map)
  finally have "dget_or refs k [] = sources_of (mentions d) k" for k
    using references_sources [of "[]" "mentions d" k] by (simp add: dget_or_def)
  then show ?thesis by (simp add: references_to_def key_sources_def Let_def)
qed

lemma key_sources_named: "key_sources d p \<noteq> [] \<longleftrightarrow> key_named d p"
proof -
  have "sources_of ms k \<noteq> [] \<longleftrightarrow> list_ex (\<lambda>(s, v). v = k \<or> path_name v = k) ms" for ms k
    by (induction ms) (auto simp: sources_of_def)
  then have "key_sources d p \<noteq> [] \<longleftrightarrow>
      list_ex (\<lambda>(s, v). v = p \<or> path_name v = p) (mentions d) \<or> list_ex (\<lambda>(s, v). v = path_name p \<or> path_name v = path_name p) (mentions d)"
    by (simp add: key_sources_def)
  also have "\<dots> \<longleftrightarrow> key_named d p" unfolding key_named_def list_ex_iff by auto
  finally show ?thesis .
qed

definition use_reported :: "disk \<Rightarrow> pyval dict \<Rightarrow> bool" where
  "use_reported d f =
     (case pget f ''path'' of
        PStr p \<Rightarrow>
          pget f ''referenced_by'' = PList (map PStr (key_sources d p)) \<and>
          pget f ''in_use'' = PBool (key_named d p) \<and> pget f ''dormant'' = PBool (\<not> key_named d p) \<and>
          pget f ''type'' = PStr (if key_named d p then ''private_key_file'' else ''dormant_private_key'')
      | _ \<Rightarrow> False)"

lemma private_key_finding_use:
  assumes "referenced_private_key_paths d = Inr refs" and "\<not> is_default_ssh_host_key p"
  shows "use_reported d (private_key_finding refs p m)"
  using assms(2) key_sources_named [of d p] unfolding private_key_finding_def referenced_sources [OF assms(1)] Let_def
  by (simp add: use_reported_def pget_append) (simp add: pget_def dget_or_def)

lemma private_scan_files:
  assumes "scan_private_key_files d options = Inr (fs, es)"
  obtains refs paths where "referenced_private_key_paths d = Inr refs"
    and "scan_files d options ''agent.private_key_files'' paths PRIVATE_KEY_SUFFIXES
      (\<lambda>p. rmap (\<lambda>m. case m of None \<Rightarrow> Inr ''private_key_parse_failed'' | Some x \<Rightarrow> Inl (private_key_finding refs p x))
         (parse_private_key_metadata d p)) = Inr (fs, es)"
  using assms by (auto simp: scan_private_key_files_def Let_def rbind_Inr_iff)

text \<open>C39. A private key the scanner reports is in use exactly when something names it: a value of the environment variable or
  a key path found in one of the configuration files that is its path or has its file name.  Otherwise it is dormant.  The report lists who names it: the sources that give the path, in order, or if there are none those that
  give the file name.\<close>

theorem private_keys_in_use:
  "case scan_private_key_files d options of Inl m \<Rightarrow> True | Inr (fs, es) \<Rightarrow> list_all (use_reported d) fs"
proof (cases "scan_private_key_files d options")
  case (Inr r)
  obtain fs es where r: "r = (fs, es)" by (rule prod.exhaust)
  obtain refs paths where refs: "referenced_private_key_paths d = Inr refs"
    and s: "scan_files d options ''agent.private_key_files'' paths PRIVATE_KEY_SUFFIXES
      (\<lambda>p. rmap (\<lambda>m. case m of None \<Rightarrow> Inr ''private_key_parse_failed'' | Some x \<Rightarrow> Inl (private_key_finding refs p x))
         (parse_private_key_metadata d p)) = Inr (fs, es)"
    by (rule private_scan_files [OF Inr [unfolded r]])
  have "list_all (use_reported d) fs" using s
    by (rule scan_files_all)
      (auto simp: rmap_Inr_iff intro!: private_key_finding_use [OF refs] dest: host_key_not_wanted split: option.splits)
  then show ?thesis by (simp add: Inr r)
qed simp

section \<open>The scan of a host\<close>

lemma scanner_errors_not_fatal:
  assumes "dget SCANNERS c = Some scanner" and "scanner d options = Inr (fs, es)"
  shows "list_all (\<lambda>e. pget e ''fatal'' = PNone) es"
proof -
  consider "scanner = scan_private_key_files"
    | capability paths endings look where "scanner d options = scan_files d options capability paths endings look"
    using assms(1)
    by (auto simp: SCANNERS_def dget_def scan_cert_store_def scan_pkg_keyring_def scan_ssh_userkey_def scan_ssh_config_def
        scan_keystore_def scan_app_cert_files_def scan_app_config_def split: if_splits)
  then show ?thesis
  proof cases
    case 1
    show ?thesis by (rule private_scan_files [OF assms(2) [unfolded 1]]) (erule scan_files_errors)
  next
    case 2
    show ?thesis using assms(2) unfolding 2 by (rule scan_files_errors)
  qed
qed

text \<open>What one requested capability adds to the report.\<close>

definition capability_report :: "disk \<Rightarrow> pyval \<Rightarrow> string \<Rightarrow> report" where
  "capability_report d options c =
     (if c \<notin> set (configured_capabilities d) then ([], [scan_error (PStr c) ''unsupported_capability''])
      else (case dget SCANNERS c of None \<Rightarrow> ([], [scan_error (PStr c) ''scanner_not_implemented''])
            | Some scanner \<Rightarrow> (case scanner d options of Inl m \<Rightarrow> ([], [scan_error (PStr c) m]) | Inr r \<Rightarrow> r)))"

lemma run_capabilities_reports:
  "run_capabilities d options (configured_capabilities d) (map PStr cs) (findings, errors) =
     Inr (findings @ concat (map (fst \<circ> capability_report d options) cs), errors @ concat (map (snd \<circ> capability_report d options) cs))"
proof (induction cs arbitrary: findings errors)
  case (Cons c cs)
  show ?case
  proof (cases "dget SCANNERS c")
    case (Some scanner)
    show ?thesis
    proof (cases "scanner d options")
      case (Inr r)
      then show ?thesis using Cons by (cases r) (simp add: Let_def capability_report_def Some)
    qed (use Cons in \<open>simp add: Let_def capability_report_def Some\<close>)
  qed (use Cons in \<open>simp add: Let_def capability_report_def\<close>)
qed simp

lemma reports_not_fatal: "list_all (\<lambda>e. pget e ''fatal'' = PNone) (snd (capability_report d options c))"
proof -
  have "pget (scan_error v m) ''fatal'' = PNone" for v m by (simp add: scan_error_def pget_def dget_or_def)
  then show ?thesis
    using scanner_errors_not_fatal [of c _ d options]
    by (auto simp: capability_report_def split: option.split sum.split)
qed

text \<open>The report of a host scan is that of the requested capabilities one after the other, each with the findings of its scanner or
  one error that says why there are none; an error of one leaves the others as they are.  Its status is always that of a success,
  whatever the errors, since none is ever marked as fatal.\<close>

theorem host_scan_outcome:
  "run_host_scan d (map PStr requested) options =
     Inr [(''hostname'', PStr (env_or d ''AGENT_HOSTNAME'' (di_node d))), (''started_at'', PStr (di_clock d 0)), (''finished_at'', PStr (di_clock d 1)),
      (''status'', PStr ''SUCCESS''), (''capabilities'', PList (map PStr (configured_capabilities d))),
      (''findings'', PList (map PDict (concat (map (fst \<circ> capability_report d (py_or options (PDict [])))
         (if requested = [] then configured_capabilities d else requested))))),
      (''errors'', PList (map PDict (concat (map (snd \<circ> capability_report d (py_or options (PDict [])))
         (if requested = [] then configured_capabilities d else requested)))))]"
proof -
  let ?cs = "if requested = [] then configured_capabilities d else requested"
  have r: "(if map PStr requested = [] then map PStr (configured_capabilities d) else map PStr requested) = map PStr ?cs" by simp
  have "list_all (\<lambda>e. pget e ''fatal'' = PNone) (concat (map (snd \<circ> capability_report d (py_or options (PDict []))) ?cs))"
    using reports_not_fatal by (auto simp: list_all_iff)
  then have "\<not> list_ex (\<lambda>e. truthy (pget e ''fatal'')) (concat (map (snd \<circ> capability_report d (py_or options (PDict []))) ?cs))"
    by (auto simp: list_all_iff list_ex_iff)
  then show ?thesis unfolding run_host_scan_def Let_def r run_capabilities_reports by simp
qed

section \<open>A host for the witnesses\<close>

definition sample_disk :: disk where
  "sample_disk = \<lparr>di_env = (\<lambda>k. if k = ''AGENT_CAPABILITIES'' then Some ''agent.ssh_config'' else None), di_node = ''h'',
     di_clock = (\<lambda>k. ''now''), di_exists = (\<lambda>p. Inr (p = ''/etc/ssh/sshd_config'')), di_is_file = (\<lambda>p. Inr (p = ''/etc/ssh/sshd_config'')),
     di_tree = (\<lambda>p. []), di_read = (\<lambda>p. Inr ''KexAlgorithms a, b''), di_codec_error = (\<lambda>p. []), di_openssl = (\<lambda>c. Inr None),
     di_x509_text = (\<lambda>p. Inr None)\<rparr>"

lemma sample_ssh_scan: "scan_ssh_config sample_disk (PDict []) =
    Inr ([ssh_config_finding ''/etc/ssh/sshd_config'' [(''KexAlgorithms'', [''a'', ''b''])]], [])"
  by code_simp

theorem agent_findings_mapped_witness:
  "list_all (\<lambda>f. case map_agent_findings (sample_target) [PDict f] [''agent.ssh_config''] of Inl e \<Rightarrow> False
                 | Inr cs \<Rightarrow> cs \<noteq> [] \<and> list_all (\<lambda>x. c_scanner x = ''agent.ssh_config'') cs)
     [ssh_config_finding ''/etc/ssh/sshd_config'' [(''KexAlgorithms'', [''a'', ''b''])]]"
  using agent_findings_mapped [of "''agent.ssh_config''" scan_ssh_config "[''agent.ssh_config'']" sample_disk "PDict []" sample_target]
  unfolding sample_ssh_scan by (simp add: SCANNERS_def dget_def)

end
