(* ===== verification/Config_Facts.thy ===== *)
theory Config_Facts
  imports Host_Facts
begin

text \<open>
  What the readers of configurations promise: the versions of a TLS policy are those of a table, a policy that is written as
  \<open>key = value\<close> lines is read back, of several settings of an SSH server the last one counts, and the minimum version of a
  finding is the version listed first.
\<close>

section \<open>Splitting what was joined\<close>

definition one_line :: "string \<Rightarrow> bool" where
  "one_line l = (l \<noteq> [] \<and> list_all (\<lambda>c. \<not> ends_line c) l)"

lemma lines_from_plain: "list_all (\<lambda>c. \<not> ends_line c) l \<Longrightarrow> lines_from acc (l @ r) = lines_from (rev l @ acc) r"
  by (induction l arbitrary: acc) (auto simp: ends_line_def)

lemma line_feed: "code (CHR 0x0A) = 10"
  by (simp add: code_def)

lemma splitlines_join: "list_all one_line ls \<Longrightarrow> splitlines (join [CHR 0x0A] ls) = ls"
proof (induction "[CHR 0x0A]" ls rule: join.induct)
  case (2 x)
  then show ?case using lines_from_plain [of x "[]" "[]"] by (simp add: splitlines_def one_line_def)
next
  case (3 x y ys)
  then show ?case
    using lines_from_plain [of x "[]" "CHR 0x0A # join [CHR 0x0A] (y # ys)"]
    by (simp add: splitlines_def one_line_def line_feed ends_line_def)
qed (simp add: splitlines_def)

lemma rstrip_if_end: "s = [] \<or> \<not> P (last s) \<Longrightarrow> rstrip_if P s = s"
  by (cases s rule: rev_cases) (auto simp: rstrip_if_def)

lemma strip_if_ends: "s = [] \<or> \<not> P (hd s) \<and> \<not> P (last s) \<Longrightarrow> strip_if P s = s"
  by (cases s) (simp_all add: strip_if_def rstrip_if_end)

lemma strip_is_strip_if: "strip = strip_if is_space"
  by (intro ext) (simp add: strip_def strip_if_def)

section \<open>TLS policy\<close>

definition versions_known :: "tls_policy \<Rightarrow> bool" where
  "versions_known p = (set (tp_versions p) \<subseteq> snd ` set tls_protocol_names \<and> set (tp_disabled p) \<subseteq> snd ` set tls_protocol_names)"

lemma protocol_known: "normalize_tls_protocol v = Some x \<Longrightarrow> x \<in> snd ` set tls_protocol_names"
  by (force simp: normalize_tls_protocol_def dget_def Let_def dest: map_of_SomeD split: if_splits)

lemma protocols_known:
  "tls_protocols_of ts = (enabled, disabled) \<Longrightarrow> set enabled \<subseteq> snd ` set tls_protocol_names \<and> set disabled \<subseteq> snd ` set tls_protocol_names"
proof (induction ts arbitrary: enabled disabled)
  case (Cons t ts)
  obtain e x where p: "tls_protocols_of ts = (e, x)" by (rule prod.exhaust)
  show ?case using Cons.prems Cons.IH [OF p] protocol_known
    by (auto simp: p Let_def split: if_splits option.splits)
qed simp

lemma add_directive_known: "versions_known p \<Longrightarrow> versions_known (add_directive line p)"
  using protocols_known
  by (auto simp: add_directive_def versions_known_def Let_def extract_tls_protocols_def split: option.splits prod.splits)

lemma collect_policy_known: "versions_known (collect_policy ls)"
proof -
  have "versions_known p \<Longrightarrow> versions_known (foldl (\<lambda>p line. add_directive line p) p ls)" for p
    by (induction ls arbitrary: p) (simp_all add: add_directive_known)
  then show ?thesis by (simp add: collect_policy_def versions_known_def no_policy_def)
qed

text \<open>A setting that reads back.\<close>

definition plain_setting :: "string \<times> string \<Rightarrow> bool" where
  "plain_setting s =
     (case s of (k, v) \<Rightarrow>
        k \<noteq> [] \<and> list_all key_char k \<and> lower k = k \<and> v \<noteq> [] \<and> list_all (\<lambda>c. \<not> ends_line c \<and> c \<noteq> CHR 0x23) v \<and>
        \<not> is_space (hd v) \<and> \<not> is_quote (hd v) \<and> \<not> is_space (last v) \<and> \<not> quote_or_end (last v))"

definition setting_line :: "string \<times> string \<Rightarrow> string" where
  "setting_line s = (case s of (k, v) \<Rightarrow> k @ '' = '' @ v)"

lemma key_char_plain: "key_char c \<Longrightarrow> \<not> is_space c \<and> \<not> ends_line c \<and> c \<noteq> CHR 0x23 \<and> c \<noteq> CHR ''=''"
  by (auto simp: key_char_def is_alnum_def is_digit_def is_alpha_def is_space_def ends_line_def) (auto simp: code_def)

lemma strip_trailing_space: "k \<noteq> [] \<Longrightarrow> list_all key_char k \<Longrightarrow> strip (k @ '' '') = k"
proof -
  assume k: "k \<noteq> []" "list_all key_char k"
  have "is_space (CHR '' '')" by (simp add: is_space_def code_def)
  moreover have h: "\<not> is_space (hd k)" "\<not> is_space (last k)" using k key_char_plain by (simp_all add: list_all_iff)
  moreover have "dropWhile is_space (k @ '' '') = k @ '' ''" using k(1) h(1) by (cases k) simp_all
  ultimately show ?thesis using rstrip_if_end [of k is_space] by (simp add: strip_def rstrip_if_def)
qed

lemma strip_leading_space: "v \<noteq> [] \<Longrightarrow> \<not> is_space (hd v) \<Longrightarrow> \<not> is_space (last v) \<Longrightarrow> strip (CHR '' '' # v) = v"
proof -
  assume v: "v \<noteq> []" "\<not> is_space (hd v)" "\<not> is_space (last v)"
  have "is_space (CHR '' '')" by (simp add: is_space_def code_def)
  then have "strip (CHR '' '' # v) = strip v" by (simp add: strip_def)
  then show ?thesis using v by (simp add: strip_is_strip_if strip_if_ends)
qed

lemma setting_reads_back: "plain_setting (k, v) \<Longrightarrow> parse_config_directive (setting_line (k, v)) = Some (k, v)"
proof -
  assume "plain_setting (k, v)"
  then have k: "k \<noteq> []" "list_all key_char k" "lower k = k" and v: "v \<noteq> []" "list_all (\<lambda>c. \<not> ends_line c \<and> c \<noteq> CHR 0x23) v"
    and ends: "\<not> is_space (hd v)" "\<not> is_quote (hd v)" "\<not> is_space (last v)" "\<not> is_quote (last v)" "last v \<noteq> CHR 0x3B"
    by (auto simp: plain_setting_def quote_or_end_def)
  let ?l = "k @ '' = '' @ v"
  have h: "hd ?l = hd k" "key_char (hd k)" using k(1,2) by (auto simp: list_all_iff)
  have s: "strip ?l = ?l" using h key_char_plain [OF h(2)] v(1) ends(3) k(1) by (simp add: strip_is_strip_if strip_if_ends)
  have "\<not> startswith ?l ''#''" using h key_char_plain [OF h(2)] k(1) by (cases k) (auto simp: startswith_def)
  moreover have n: "CHR 0x23 \<notin> set ?l" using k(2) v(2) key_char_plain by (auto simp: list_all_iff)
  moreover have "rstrip_if (\<lambda>c. c = CHR 0x3B) ?l = ?l" using v(1) ends(5) by (simp add: rstrip_if_end)
  moreover have "before_char (CHR ''='') ?l = k @ '' ''" "after_char (CHR ''='') ?l = '' '' @ v"
    using k(2) key_char_plain by (auto simp: before_char_def after_char_def list_all_iff takeWhile_append2 dropWhile_append2)
  moreover have "unquote ('' '' @ v) = v"
    using strip_leading_space [OF v(1) ends(1,3)] ends(2,4) by (simp add: unquote_def strip_if_ends)
  ultimately show ?thesis
    using s strip_trailing_space [OF k(1,2)] by (simp add: parse_config_directive_def setting_line_def Let_def)
qed

lemma setting_one_line: "plain_setting s \<Longrightarrow> one_line (setting_line s)"
  using key_char_plain by (cases s) (auto simp: plain_setting_def setting_line_def one_line_def list_all_iff ends_line_def code_def)

lemma add_setting: "plain_setting (k, v) \<Longrightarrow> tp_policy (add_directive (setting_line (k, v)) p) = dset k v (tp_policy p)"
proof -
  assume s: "plain_setting (k, v)"
  then have "lower k = k" by (simp add: plain_setting_def)
  then show ?thesis by (simp add: add_directive_def setting_reads_back [OF s] Let_def split: prod.split)
qed

lemma collect_settings:
  "list_all plain_setting ss \<Longrightarrow> distinct (map fst (tp_policy p @ ss)) \<Longrightarrow>
     tp_policy (foldl (\<lambda>p line. add_directive line p) p (map setting_line ss)) = tp_policy p @ ss"
proof (induction ss arbitrary: p)
  case (Cons s ss)
  obtain k v where s: "s = (k, v)" by (rule prod.exhaust)
  have "tp_policy (add_directive (setting_line s) p) = tp_policy p @ [s]"
    using Cons.prems by (simp add: s add_setting dset_fresh)
  then show ?case using Cons.IH [of "add_directive (setting_line s) p"] Cons.prems by simp
qed simp

text \<open>C40. A TLS policy that is written as lines of keys and values, in lower case, without comments and quotes, is read back as it was,
  in its order; and every version a policy lists as enabled or disabled is one of the seven the reader knows.\<close>

theorem policy_read_back:
  assumes "list_all plain_setting ss" and "distinct (map fst ss)" and "ss \<noteq> []"
  shows "pget (parse_tls_config_policy (join [CHR 0x0A] (map setting_line ss))) ''policy'' = PDict (map (\<lambda>(k, v). (k, PStr v)) ss)
    \<and> versions_known (collect_policy (map setting_line ss))"
proof -
  have l: "list_all one_line (map setting_line ss)" using assms(1) setting_one_line by (auto simp: list_all_iff)
  have "tp_policy (collect_policy (map setting_line ss)) = ss"
    using collect_settings [of ss no_policy] assms(1,2) by (simp add: collect_policy_def no_policy_def)
  then show ?thesis
    using assms(3) collect_policy_known by (simp add: parse_tls_config_policy_def splitlines_join [OF l] Let_def pget_def dget_or_def)
qed

theorem policy_read_back_witness:
  "pget (parse_tls_config_policy (join [CHR 0x0A] (map setting_line [(''ssl_protocols'', ''TLSv1.2 TLSv1.3''), (''certfile'', ''/a.pem'')]))) ''policy'' =
     PDict [(''ssl_protocols'', PStr ''TLSv1.2 TLSv1.3''), (''certfile'', PStr ''/a.pem'')]"
proof -
  have "list_all plain_setting [(''ssl_protocols'', ''TLSv1.2 TLSv1.3''), (''certfile'', ''/a.pem'')]" by code_simp
  from policy_read_back [OF this] show ?thesis by simp
qed

section \<open>Findings\<close>

text \<open>The minimum version of a finding is the first one listed.\<close>

lemma minimum_is_first_listed:
  assumes "tls_config_finding d p kind = Some f" and "pget (tls_policy_of d p) ''tls_versions'' = PList (v # vs)"
  shows "pget f ''minimum_tls_version'' = v"
proof -
  define r where "r = (if key_references_of d p \<noteq> [] then PList (map PStr (key_references_of d p))
      else dget_or (tls_policy_of d p) ''private_key_paths'' (PList []))"
  have "tls_policy_of d p \<noteq> []" using assms(2) by (auto simp: pget_def dget_or_def dget_def)
  then have "dmerge (found kind p [(''referenced_by'', r)]) (tls_policy_of d p) @ [(''minimum_tls_version'', v)] = f"
    using assms unfolding tls_config_finding_def Let_def by (simp add: r_def)
  moreover have "map_of (tls_policy_of d p) ''minimum_tls_version'' = None"
    using tls_policy_keys [of d p] by (auto simp: map_of_eq_None_iff)
  then have "map_of (dmerge (found kind p [(''referenced_by'', r)]) (tls_policy_of d p)) ''minimum_tls_version'' = None"
    using tls_policy_keys [of d p] by (simp add: map_of_dmerge found_def)
  ultimately show ?thesis by (auto simp: pget_def dget_or_def dget_def map_add_def)
qed

lemma listed_newest_first:
  "pget (parse_tls_config_policy ''ssl_protocols TLSv1.3 TLSv1.2;'') ''tls_versions'' = PList [PStr ''TLSv1.3'', PStr ''TLSv1.2'']"
  by code_simp

text \<open>Of two settings the last one counts.\<close>

lemma last_ssh_setting: "parse_ssh_config_algorithms (''KexAlgorithms a'' @ [CHR 0x0A] @ ''KexAlgorithms b'') = [(''KexAlgorithms'', [''b''])]"
  by code_simp

end
