(* ===== verification/Spec2Isabelle.thy ===== *)
theory Spec2Isabelle
  imports Risk_Engine Dhs_Engine Job_Queue Recompute Agents Discovery_Service Performance_Runner Scan_Worker
    Snapshots_Api Core_Api Dashboard Network_Facts Pipeline Host_Facts Config_Facts
begin

text \<open>
  A verification development for the crypto scanner's backend: the risk and priority engines, the
  queue of background jobs, the recomputation of risk scores, the registry of agents and the discovery
  of endpoints.
\<close>

end
